(* ===== verification/Paxos_Prelude.thy ===== *)
theory Paxos_Prelude
  imports Main "HOL-Library.Word" "HOL-Library.Monad_Syntax"
begin

text \<open>
  Shared vocabulary of the development: names for the machine types of the C sources, the
  collections of simplification rules that the component theories fill and use, and the generic
  facts about words, maps and lists that several components need.
\<close>

section \<open>Machine types\<close>

text \<open>
  \<open>iid_t\<close>, epochs, ballot numbers and process identifiers are \<open>uint32_t\<close> in the sources
  (\<open>src/paxos/include/paxos.h\<close>, \<open>src/paxos/include/paxos_types.h\<close>).  They stay 32-bit words, so
  that additions wrap as they do in C.  The C type \<open>int\<close> is used for counters and return codes
  only and is modelled by the unbounded \<open>int\<close>.
\<close>

type_synonym byte = "8 word"
type_synonym u32 = "32 word"
type_synonym iid_t = u32

abbreviation (input) INVALID_INSTANCE :: iid_t where "INVALID_INSTANCE \<equiv> 0"
abbreviation (input) INVALID_EPOCH :: u32 where "INVALID_EPOCH \<equiv> 0"
abbreviation (input) UINT32_MAX :: u32 where "UINT32_MAX \<equiv> 4294967295"

section \<open>Collections\<close>

named_theorems conv_simps "message conversions, unfolded by the component proofs"
named_theorems store_simps "what a lookup returns after a store"
named_theorems frame_simps "what an operation leaves unchanged"

section \<open>Words\<close>

lemma u32_le_UINT32_MAX [simp]: "(x::u32) \<le> UINT32_MAX"
proof -
  have "UINT32_MAX = (- 1 :: u32)" by simp
  then show ?thesis by (simp only: word_n1_ge)
qed

lemma u32_not_gt_UINT32_MAX [simp]: "\<not> UINT32_MAX < (x::u32)"
  by (simp add: not_less)

lemma UINT32_MAX_le_iff [simp]: "UINT32_MAX \<le> (x::u32) \<longleftrightarrow> x = UINT32_MAX"
  by (meson order.antisym order.refl u32_le_UINT32_MAX)

lemma unat_u32_lt: "unat (x::u32) < 4294967296"
  using unsigned_less [of x, where ?'a = nat] by simp

lemma unat_add_no_overflow:
  "unat a + unat b < 4294967296 \<Longrightarrow> unat (a + b :: u32) = unat a + unat b"
  by (simp add: unat_add_lem [THEN iffD1])

lemma u32_add_mono_no_overflow:
  "unat a + unat w < 4294967296 \<Longrightarrow> a \<le> (a + w :: u32)"
  by (simp add: word_le_nat_alt unat_add_no_overflow)

lemma u32_Suc_unat: "x \<noteq> UINT32_MAX \<Longrightarrow> unat (x + 1 :: u32) = Suc (unat x)"
proof -
  assume "x \<noteq> UINT32_MAX"
  then have "unat x \<noteq> unat (UINT32_MAX)" using word_unat_eq_iff [of x UINT32_MAX] by blast
  then have "unat x + unat (1::u32) < 4294967296" using unat_u32_lt [of x] by simp
  then show ?thesis by (simp add: unat_add_no_overflow)
qed

lemma u32_le_iff_lt_Suc: "x \<noteq> UINT32_MAX \<Longrightarrow> (y \<le> x) = (y < x + (1::u32))"
  by (simp add: word_le_nat_alt word_less_nat_alt u32_Suc_unat less_Suc_eq_le)

lemma u32_pred_lt: "0 < (x::u32) \<Longrightarrow> x - 1 < x"
  by (simp add: word_less_nat_alt unat_minus_one word_gt_0 unat_gt_0)

lemma unat_of_nat_u32: "n < 4294967296 \<Longrightarrow> unat (of_nat n :: u32) = n"
  by (simp add: unat_of_nat take_bit_nat_eq_self)

text \<open>
  The values of a loop counter in \<open>for (i = a; i <= b; i++)\<close>.  For \<open>b = UINT32_MAX\<close> the loop never
  ends, which the functions that use it treat separately.
\<close>

definition u32_upto :: "u32 \<Rightarrow> u32 \<Rightarrow> u32 list" where
  "u32_upto a b = map of_nat [unat a..<Suc (unat b)]"

lemma set_u32_upto [simp]: "set (u32_upto a b) = {a..b}"
proof (intro set_eqI iffI)
  fix x assume "x \<in> set (u32_upto a b)"
  then obtain n where n: "unat a \<le> n" "n \<le> unat b" "x = of_nat n"
    by (auto simp: u32_upto_def simp del: upt_Suc)
  moreover have "unat (of_nat n :: u32) = n"
    using n(2) unat_u32_lt [of b] by (simp add: unat_of_nat_u32)
  ultimately show "x \<in> {a..b}" by (simp add: word_le_nat_alt)
next
  fix x assume "x \<in> {a..b}"
  then have "x = of_nat (unat x)" "unat x \<in> set [unat a..<Suc (unat b)]"
    by (auto simp: word_le_nat_alt simp del: upt_Suc)
  then show "x \<in> set (u32_upto a b)" unfolding u32_upto_def set_map by (rule image_eqI)
qed

lemma distinct_u32_upto [simp]: "distinct (u32_upto a b)"
proof -
  have "inj_on (of_nat :: nat \<Rightarrow> u32) {unat a..<Suc (unat b)}"
  proof (rule inj_on_inverseI [where g = unat])
    fix n assume "n \<in> {unat a..<Suc (unat b)}"
    then show "unat (of_nat n :: u32) = n" using unat_u32_lt [of b] by (simp add: unat_of_nat_u32)
  qed
  then show ?thesis by (simp add: u32_upto_def distinct_map del: upt_Suc)
qed

section \<open>Maps\<close>

definition drop_below :: "u32 \<Rightarrow> (u32 \<rightharpoonup> 'v) \<Rightarrow> (u32 \<rightharpoonup> 'v)" where
  \<comment> \<open>every entry whose key is below \<open>cmp\<close> is deleted: the shape of all \<open>kh_foreach\<close>/\<open>kh_del\<close> loops\<close>
  "drop_below cmp m = (\<lambda>i. if i < cmp then None else m i)"

lemma drop_below_other [store_simps, simp]: "\<not> i < cmp \<Longrightarrow> drop_below cmp m i = m i"
  by (simp add: drop_below_def)

lemma drop_below_gone [store_simps, simp]: "i < cmp \<Longrightarrow> drop_below cmp m i = None"
  by (simp add: drop_below_def)

section \<open>Lists\<close>

lemma nth_append_left_eq: "i < length xs \<Longrightarrow> (xs @ ys) ! i = xs ! i"
  by (simp add: nth_append)

lemma filter_sum_list_update:
  fixes xs :: "int list"
  assumes "i < length xs" "xs ! i = 0"
  shows "sum_list (xs[i := 1]) = sum_list xs + 1"
  using assms by (induction xs arbitrary: i) (auto split: nat.splits)

end
