(* ===== verification/Paxos_Types.thy ===== *)
theory Paxos_Types
  imports Paxos_Prelude
begin

text \<open>
  The data of \<open>src/paxos/include/paxos_types.h\<close> and \<open>src/paxos/include/paxos_value.h\<close>: values,
  ballots, the structs of every protocol message and the two tagged unions of messages.  Structs are
  records (the field names carry a prefix, since Isabelle records share one name space), tagged
  unions are datatypes.  Ballots are datatypes with selectors, so that they can be given the
  library's order classes in \<open>Ballots\<close>.
\<close>

section \<open>Values\<close>

text \<open>
  A \<open>struct paxos_value\<close> is its byte string: \<open>paxos_value_len\<close> is the length, the pair
  \<open>{0, NULL}\<close> is the empty string.  Who owns the buffer is not modelled: a deep copy
  (\<open>copy_value\<close>, \<open>paxos_value_new\<close>, \<open>paxos_value_copy\<close>) and a shallow one give the same bytes.  A
  \<open>struct paxos_value*\<close> that may be \<open>NULL\<close> is an option.
\<close>

type_synonym paxos_value = "byte list"

definition INVALID_VALUE :: paxos_value where
  "INVALID_VALUE = []"

text \<open>\<open>NOP\<close> is the four bytes of the C string literal \<open>"NOP"\<close>, its terminating zero included.\<close>

definition NOP :: paxos_value where
  "NOP = [78, 79, 80, 0]"

definition is_values_equal :: "paxos_value \<Rightarrow> paxos_value \<Rightarrow> bool" where
  "is_values_equal lhs rhs =
     (if length lhs = length rhs then (if lhs = rhs then True else False) else False)"

lemma is_values_equal_iff [simp]: "is_values_equal v w \<longleftrightarrow> v = w"
  by (simp add: is_values_equal_def)

section \<open>Ballots\<close>

datatype ballot = Ballot (ballot_number: u32) (ballot_proposer_id: u32)

datatype epoch_ballot = Epoch_Ballot (eb_epoch: u32) (eb_ballot: ballot)

definition INVALID_BALLOT :: ballot where
  "INVALID_BALLOT = Ballot 0 0"

definition INVALID_EPOCH_BALLOT :: epoch_ballot where
  "INVALID_EPOCH_BALLOT = Epoch_Ballot 0 INVALID_BALLOT"

section \<open>Messages of standard Paxos\<close>

record paxos_prepare =
  prep_iid :: iid_t
  prep_ballot :: ballot

record paxos_promise =
  prom_aid :: u32
  prom_iid :: iid_t
  prom_ballot :: ballot
  prom_value_ballot :: ballot
  prom_value :: paxos_value

record paxos_accept =
  acc_iid :: iid_t
  acc_ballot :: ballot
  acc_value :: paxos_value

record paxos_accepted =
  accd_aid :: u32
  accd_iid :: iid_t
  accd_promise_ballot :: ballot
  accd_value_ballot :: ballot
  accd_value :: paxos_value

record paxos_preempted =
  pre_aid :: u32
  pre_iid :: iid_t
  pre_attempted_ballot :: ballot
  pre_acceptor_current_ballot :: ballot

record paxos_chosen =
  cho_iid :: iid_t
  cho_ballot :: ballot
  cho_value :: paxos_value

record paxos_repeat =
  rep_from :: iid_t
  rep_to :: iid_t

record paxos_trim =
  trim_iid :: iid_t

record paxos_standard_acceptor_state =
  as_aid :: u32
  as_trim_iid :: iid_t
  as_current_instance :: iid_t

record proposer_state =
  ps_proposer_id :: u32
  ps_trim_instance :: iid_t
  ps_max_chosen_instance :: iid_t
  ps_next_prepare_instance :: iid_t

datatype standard_paxos_message =
    PAXOS_PREPARE paxos_prepare
  | PAXOS_PROMISE paxos_promise
  | PAXOS_ACCEPT paxos_accept
  | PAXOS_ACCEPTED paxos_accepted
  | PAXOS_CHOSEN paxos_chosen
  | PAXOS_PREEMPTED paxos_preempted
  | PAXOS_REPEAT paxos_repeat
  | PAXOS_TRIM paxos_trim
  | PAXOS_PROPOSER_STATE proposer_state
  | PAXOS_ACCEPTOR_STATE paxos_standard_acceptor_state
  | PAXOS_CLIENT_VALUE paxos_value

section \<open>Messages of epoch Paxos\<close>

datatype epoch_paxos_message_return_codes =
    MESSAGE_IGNORED
  | EPOCH_PREEMPTED
  | BALLOT_PREEMPTED
  | MESSAGE_ACKNOWLEDGED
  | QUORUM_REACHED
  | INSTANCE_CHOSEN
  | FALLEN_BEHIND

record epoch_ballot_prepare =
  ebp_instance :: iid_t
  ebp_epoch_ballot_requested :: epoch_ballot

record epoch_ballot_promise =
  ebpr_acceptor_id :: u32
  ebpr_instance :: iid_t
  ebpr_promised_epoch_ballot :: epoch_ballot
  ebpr_last_accepted_ballot :: epoch_ballot
  ebpr_last_accepted_value :: paxos_value

record epoch_ballot_accept =
  eba_instance :: iid_t
  eba_epoch_ballot_requested :: epoch_ballot
  eba_value_to_accept :: paxos_value

record epoch_ballot_accepted =
  ebac_acceptor_id :: u32
  ebac_instance :: iid_t
  ebac_accepted_epoch_ballot :: epoch_ballot
  ebac_accepted_value :: paxos_value

record epoch_ballot_preempted =
  ebpe_acceptor_id :: u32
  ebpe_instance :: iid_t
  ebpe_requested_epoch_ballot :: epoch_ballot
  ebpe_acceptors_current_epoch_ballot :: epoch_ballot

record epoch_notification =
  en_new_epoch :: u32

record epoch_ballot_chosen =
  ebc_instance :: iid_t
  ebc_chosen_epoch_ballot :: epoch_ballot
  ebc_chosen_value :: paxos_value

record writeahead_epoch_acceptor_state =
  was_standard_acceptor_state :: paxos_standard_acceptor_state
  was_current_epoch :: u32

record epoch_proposer_state =
  eps_proposer_state :: proposer_state
  eps_current_epoch :: u32

datatype epoch_paxos_prepares =
    STANDARD_PREPARE paxos_prepare
  | EXPLICIT_EPOCH_PREPARE epoch_ballot_prepare

datatype epoch_paxos_message =
    WRITEAHEAD_STANDARD_PREPARE paxos_prepare
  | WRITEAHEAD_EPOCH_BALLOT_PREPARE epoch_ballot_prepare
  | WRITEAHEAD_EPOCH_BALLOT_PROMISE epoch_ballot_promise
  | WRITEAHEAD_EPOCH_BALLOT_ACCEPT epoch_ballot_accept
  | WRITEAHEAD_EPOCH_BALLOT_ACCEPTED epoch_ballot_accepted
  | WRITEAHEAD_EPOCH_BALLOT_PREEMPTED epoch_ballot_preempted
  | WRITEAHEAD_EPOCH_NOTIFICATION epoch_notification
  | WRITEAHEAD_INSTANCE_CHOSEN_AT_EPOCH_BALLOT epoch_ballot_chosen
  | WRITEAHEAD_PAXOS_PROPOSER_STATE epoch_proposer_state
  | WRITEAHEAD_REPEAT paxos_repeat
  | WRITEAHEAD_INSTANCE_TRIM paxos_trim
  | WRITEAHEAD_ACCEPTOR_STATE writeahead_epoch_acceptor_state
  | WRITEAHEAD_CLIENT_VALUE paxos_value

section \<open>Configuration\<close>

text \<open>The fields of the global \<open>struct paxos_config\<close> that the modelled code reads.\<close>

record paxos_config =
  cfg_learner_catch_up :: bool
  cfg_proposer_timeout :: int
  cfg_quorum_2 :: int
  cfg_fall_behind_jump :: u32
  cfg_noop_timeout_us :: int
  cfg_await_holes :: bool
  cfg_repropose_values :: bool

text \<open>\<open>struct timeval\<close> with the library's \<open>timersub\<close> and \<open>timercmp\<close>.\<close>

record timeval =
  tv_sec :: int
  tv_usec :: int

definition timersub :: "timeval \<Rightarrow> timeval \<Rightarrow> timeval" where
  "timersub a b =
     (if tv_usec a - tv_usec b < 0
      then \<lparr>tv_sec = tv_sec a - tv_sec b - 1, tv_usec = tv_usec a - tv_usec b + 1000000\<rparr>
      else \<lparr>tv_sec = tv_sec a - tv_sec b, tv_usec = tv_usec a - tv_usec b\<rparr>)"

definition timer_greater :: "timeval \<Rightarrow> timeval \<Rightarrow> bool" where
  "timer_greater a b =
     (if tv_sec a = tv_sec b then tv_usec a > tv_usec b else tv_sec a > tv_sec b)"

end
