(* ===== verification/Ballots.thy ===== *)
theory Ballots
  imports Paxos_Types
begin

text \<open>
  \<open>src/paxos/ballot.c\<close>, \<open>src/paxos/epoch_ballot.c\<close>, \<open>src/paxos/ballot_giver.c\<close> and the range
  arithmetic of \<open>src/paxos/random.c\<close>.  Ballots are compared by number first and by proposer second;
  the locale \<open>ballot_comparison\<close> states what the rest of the code relies on, and it is interpreted on
  the comparisons of \<open>ballot.c\<close>.  The comparisons of \<open>epoch_ballot.c\<close> do not satisfy it.
\<close>

section \<open>Definitions\<close>

definition ballot_equal :: "ballot \<Rightarrow> ballot \<Rightarrow> bool" where
  "ballot_equal lhs rhs \<longleftrightarrow>
     ballot_proposer_id lhs = ballot_proposer_id rhs \<and> ballot_number lhs = ballot_number rhs"

definition ballot_greater_than :: "ballot \<Rightarrow> ballot \<Rightarrow> bool" where
  "ballot_greater_than lhs rhs =
     (if ballot_number lhs > ballot_number rhs then True
      else if ballot_proposer_id lhs > ballot_proposer_id rhs
              \<and> ballot_number lhs = ballot_number rhs then True
      else False)"

definition ballot_greater_than_or_equal :: "ballot \<Rightarrow> ballot \<Rightarrow> bool" where
  "ballot_greater_than_or_equal lhs rhs =
     (if ballot_number lhs > ballot_number rhs then True
      else if ballot_proposer_id lhs \<ge> ballot_proposer_id rhs
              \<and> ballot_number lhs = ballot_number rhs then True
      else False)"

definition epoch_ballot_equal :: "epoch_ballot \<Rightarrow> epoch_ballot \<Rightarrow> bool" where
  "epoch_ballot_equal lhs rhs \<longleftrightarrow>
     eb_epoch lhs = eb_epoch rhs \<and> ballot_equal (eb_ballot lhs) (eb_ballot rhs)"

definition epoch_ballot_greater_than :: "epoch_ballot \<Rightarrow> epoch_ballot \<Rightarrow> bool" where
  "epoch_ballot_greater_than lhs rhs =
     (if eb_epoch lhs > eb_epoch rhs then True
      else ballot_greater_than (eb_ballot lhs) (eb_ballot rhs))"

definition epoch_greater_than :: "epoch_ballot \<Rightarrow> epoch_ballot \<Rightarrow> bool" where
  "epoch_greater_than lhs rhs \<longleftrightarrow> eb_epoch lhs > eb_epoch rhs"

definition epoch_equal :: "epoch_ballot \<Rightarrow> epoch_ballot \<Rightarrow> bool" where
  "epoch_equal lhs rhs \<longleftrightarrow> eb_epoch lhs = eb_epoch rhs"

definition epoch_ballot_greater_than_or_equal :: "epoch_ballot \<Rightarrow> epoch_ballot \<Rightarrow> bool" where
  "epoch_ballot_greater_than_or_equal lhs rhs \<longleftrightarrow>
     epoch_ballot_equal lhs rhs \<or> epoch_ballot_greater_than lhs rhs"

text \<open>
  \<open>random_between\<close> draws \<open>r = rand()\<close> until \<open>r < limit\<close>.  The draws are a list (the values
  \<open>rand()\<close> returns, in order); running out of draws is \<open>None\<close>, as is the division by zero that
  \<open>RAND_MAX / range\<close> and \<open>r / buckets\<close> perform when \<open>range\<close> is 0 or above \<open>RAND_MAX\<close>.
\<close>

definition RAND_MAX :: u32 where
  "RAND_MAX = 2147483647"

fun first_below :: "u32 \<Rightarrow> u32 list \<Rightarrow> u32 option" where
  "first_below limit [] = None"
| "first_below limit (r # rs) = (if r \<ge> limit then first_below limit rs else Some r)"

definition random_between :: "u32 list \<Rightarrow> u32 \<Rightarrow> u32 \<Rightarrow> u32 option" where
  "random_between draws mn mx =
     (let range = 1 + mx - mn in
      if range = 0 then None
      else let buckets = RAND_MAX div range; limit = buckets * range in
        (case first_below limit draws of
           None \<Rightarrow> None
         | Some r \<Rightarrow> Some (mn + r div buckets)))"

record ballot_giver =
  bg_proposer_id :: u32
  bg_ballot_increment :: u32

definition ballot_giver_new :: "u32 \<Rightarrow> u32 \<Rightarrow> ballot_giver" where
  "ballot_giver_new proposer_id ballot_increment =
     \<lparr>bg_proposer_id = proposer_id, bg_ballot_increment = ballot_increment\<rparr>"

definition ballot_giver_next :: "u32 list \<Rightarrow> ballot_giver \<Rightarrow> ballot \<Rightarrow> ballot option" where
  "ballot_giver_next draws g previous =
     (case random_between draws (ballot_number previous + 1 + bg_proposer_id g)
                                (ballot_number previous + bg_ballot_increment g + 1) of
        None \<Rightarrow> None
      | Some r \<Rightarrow> Some (Ballot (r - bg_proposer_id g) (bg_proposer_id g)))"

section \<open>The order on ballots\<close>

instantiation ballot :: linorder
begin

definition less_eq_ballot :: "ballot \<Rightarrow> ballot \<Rightarrow> bool" where
  "a \<le> b \<longleftrightarrow> ballot_number a < ballot_number b
     \<or> ballot_number a = ballot_number b \<and> ballot_proposer_id a \<le> ballot_proposer_id b"

definition less_ballot :: "ballot \<Rightarrow> ballot \<Rightarrow> bool" where
  "a < b \<longleftrightarrow> ballot_number a < ballot_number b
     \<or> ballot_number a = ballot_number b \<and> ballot_proposer_id a < ballot_proposer_id b"

instance
  by standard (auto simp: less_eq_ballot_def less_ballot_def ballot.expand)

end

instantiation ballot :: order_bot
begin

definition bot_ballot :: ballot where
  "bot = Ballot 0 0"

instance
  by standard (auto simp: less_eq_ballot_def bot_ballot_def word_gt_0)

end

lemma INVALID_BALLOT_bot: "INVALID_BALLOT = bot"
  by (simp add: INVALID_BALLOT_def bot_ballot_def)

lemma INVALID_BALLOT_le [simp]: "INVALID_BALLOT \<le> b"
  by (simp add: INVALID_BALLOT_bot)

lemma not_less_INVALID_BALLOT [simp]: "\<not> b < INVALID_BALLOT"
  by (simp add: not_less)

lemma ballot_equal_iff [simp]: "ballot_equal a b \<longleftrightarrow> a = b"
  by (auto simp: ballot_equal_def ballot.expand)

lemma ballot_greater_than_iff [simp]: "ballot_greater_than a b \<longleftrightarrow> b < a"
  by (auto simp: ballot_greater_than_def less_ballot_def)

lemma ballot_greater_than_or_equal_iff [simp]: "ballot_greater_than_or_equal a b \<longleftrightarrow> b \<le> a"
  by (auto simp: ballot_greater_than_or_equal_def less_eq_ballot_def)

lemma epoch_ballot_equal_iff [simp]: "epoch_ballot_equal a b \<longleftrightarrow> a = b"
  by (auto simp: epoch_ballot_equal_def epoch_ballot.expand)

lemma epoch_ballot_gt_iff:
  "epoch_ballot_greater_than a b \<longleftrightarrow> eb_epoch b < eb_epoch a \<or> eb_ballot b < eb_ballot a"
  by (simp add: epoch_ballot_greater_than_def)

lemma epoch_ballot_ge_iff:
  "epoch_ballot_greater_than_or_equal a b \<longleftrightarrow>
     a = b \<or> eb_epoch b < eb_epoch a \<or> eb_ballot b < eb_ballot a"
  by (simp add: epoch_ballot_greater_than_or_equal_def epoch_ballot_gt_iff)

section \<open>The interface the other components rely on\<close>

text \<open>
  What the acceptors, proposers and learners need of a ballot comparison: a strict total order with
  its reflexive closure.
\<close>

locale ballot_comparison =
  fixes gt :: "'b \<Rightarrow> 'b \<Rightarrow> bool"
    and ge :: "'b \<Rightarrow> 'b \<Rightarrow> bool"
    and eq :: "'b \<Rightarrow> 'b \<Rightarrow> bool"
  assumes eq_iff: "eq a b \<longleftrightarrow> a = b"
    and ge_iff: "ge a b \<longleftrightarrow> gt a b \<or> eq a b"
    and gt_irrefl: "\<not> gt a a"
    and gt_trans: "gt a b \<Longrightarrow> gt b c \<Longrightarrow> gt a c"
    and gt_total: "a \<noteq> b \<Longrightarrow> gt a b \<or> gt b a"
begin

lemma gt_asym: "gt a b \<Longrightarrow> \<not> gt b a"
  using gt_trans gt_irrefl by blast

lemma trichotomy: "gt a b \<and> \<not> eq a b \<and> \<not> gt b a
    \<or> \<not> gt a b \<and> eq a b \<and> \<not> gt b a
    \<or> \<not> gt a b \<and> \<not> eq a b \<and> gt b a"
proof (cases "a = b")
  case True
  then show ?thesis by (simp add: eq_iff gt_irrefl)
next
  case False
  then show ?thesis using gt_total [OF False] gt_asym [of a b] by (auto simp: eq_iff)
qed

lemma ge_trans: "ge a b \<Longrightarrow> ge b c \<Longrightarrow> ge a c"
  by (auto simp: ge_iff eq_iff intro: gt_trans)

lemma ge_antisym: "ge a b \<Longrightarrow> ge b a \<Longrightarrow> a = b"
  by (auto simp: ge_iff eq_iff dest: gt_asym)

lemma not_ge_iff_gt: "\<not> ge a b \<longleftrightarrow> gt b a"
  using trichotomy [of a b] by (auto simp: ge_iff)

end

interpretation bal: ballot_comparison ballot_greater_than ballot_greater_than_or_equal ballot_equal
  by unfold_locales auto


section \<open>Fresh ballots\<close>

lemma first_below_Some: "first_below limit rs = Some r \<Longrightarrow> r < limit \<and> r \<in> set rs"
  by (induction rs) (auto split: if_splits)

lemma first_below_finds: "r \<in> set rs \<Longrightarrow> r < limit \<Longrightarrow> \<exists>r'. first_below limit rs = Some r'"
  by (induction rs) auto

lemma unat_bucket_limit:
  fixes range :: u32
  shows "unat (RAND_MAX div range * range) = unat RAND_MAX div unat range * unat range"
proof -
  have "unat RAND_MAX div unat range * unat range \<le> unat RAND_MAX"
    by (rule div_times_less_eq_dividend)
  then have "unat RAND_MAX div unat range * unat range < 4294967296"
    using unat_u32_lt [of RAND_MAX] by linarith
  then show ?thesis
    using unat_mult_lem [of "RAND_MAX div range" range] by (simp add: unat_div)
qed

lemma bucket_index_lt:
  fixes range r :: u32
  assumes "r < RAND_MAX div range * range"
  shows "r div (RAND_MAX div range) < range"
proof -
  have "unat r < unat RAND_MAX div unat range * unat range"
    using assms by (simp add: word_less_nat_alt unat_bucket_limit)
  then have "unat r div (unat RAND_MAX div unat range) < unat range"
    by (metis less_mult_imp_div_less mult.commute)
  then show ?thesis by (simp add: word_less_nat_alt unat_div)
qed

lemma random_between_range:
  assumes "random_between draws mn mx = Some x"
  shows "\<exists>k. x = mn + k \<and> k < 1 + mx - mn"
proof -
  from assms obtain r where r: "first_below (RAND_MAX div (1 + mx - mn) * (1 + mx - mn)) draws = Some r"
    and nz: "1 + mx - mn \<noteq> 0" and x: "x = mn + r div (RAND_MAX div (1 + mx - mn))"
    by (auto simp: random_between_def Let_def split: if_splits option.splits)
  from first_below_Some [OF r] nz have "r div (RAND_MAX div (1 + mx - mn)) < 1 + mx - mn"
    by (auto intro: bucket_index_lt)
  with x show ?thesis by blast
qed

lemma ballot_giver_range:
  "1 + (p + i + 1) - (p + 1 + q) = (i + 1 - q :: u32)"
  by simp

lemma ballot_giver_next_number:
  assumes "ballot_giver_next draws g prev = Some b"
  shows "\<exists>k. b = Ballot (ballot_number prev + 1 + k) (bg_proposer_id g)
           \<and> k < bg_ballot_increment g + 1 - bg_proposer_id g"
proof -
  from assms obtain x where
    x: "random_between draws (ballot_number prev + 1 + bg_proposer_id g)
          (ballot_number prev + bg_ballot_increment g + 1) = Some x"
    and b: "b = Ballot (x - bg_proposer_id g) (bg_proposer_id g)"
    by (auto simp: ballot_giver_next_def split: option.splits)
  from random_between_range [OF x] obtain k where
    k: "x = ballot_number prev + 1 + bg_proposer_id g + k"
       "k < bg_ballot_increment g + 1 - bg_proposer_id g"
    using ballot_giver_range by metis
  then show ?thesis using b by auto
qed

text \<open>
  A ballot drawn by \<open>ballot_giver_next\<close> is above the ballot it was derived from and carries the
  proposer's identifier, as long as the identifier does not exceed the configured increment and the
  ballot number does not wrap.
\<close>

theorem ballot_giver_next_fresh:
  assumes "bg_proposer_id g \<le> bg_ballot_increment g"
    and "unat (ballot_number prev) + unat (bg_ballot_increment g) + 1 < 4294967296"
    and "ballot_giver_next draws g prev = Some b"
  shows "prev < b \<and> ballot_proposer_id b = bg_proposer_id g
    \<and> unat (ballot_number b) \<le> unat (ballot_number prev) + unat (bg_ballot_increment g) + 1"
proof -
  let ?p = "ballot_number prev" and ?i = "bg_ballot_increment g" and ?q = "bg_proposer_id g"
  from ballot_giver_next_number [OF assms(3)] obtain k where
    b: "b = Ballot (?p + 1 + k) ?q" and k: "k < ?i + 1 - ?q" by blast
  have i1: "unat (?i + 1) = unat ?i + 1"
    using unat_add_no_overflow [of ?i 1] assms(2) by simp
  then have "unat (?i + 1 - ?q) = unat ?i + 1 - unat ?q"
    using assms(1) by (simp add: unat_sub word_le_nat_alt)
  with k have kle: "unat k \<le> unat ?i" by (simp add: word_less_nat_alt)
  have p1: "unat (?p + 1) = unat ?p + 1"
    using unat_add_no_overflow [of ?p 1] assms(2) by simp
  then have "unat (?p + 1 + k) = unat ?p + 1 + unat k"
    using unat_add_no_overflow [of "?p + 1" k] kle assms(2) by simp
  with b kle show ?thesis by (simp add: less_ballot_def word_less_nat_alt)
qed

theorem ballot_giver_next_fresh_witness:
  "Ballot 7 1 < Ballot 10 2
    \<and> ballot_giver_next [2147483647, 1000000000] (ballot_giver_new 2 5) (Ballot 7 1) = Some (Ballot 9 2)"
proof -
  have eq: "ballot_giver_next [2147483647, 1000000000] (ballot_giver_new 2 5) (Ballot 7 1) = Some (Ballot 9 2)"
    by code_simp
  have "Ballot 7 1 < Ballot 9 2"
    using ballot_giver_next_fresh [OF _ _ eq] by (simp add: ballot_giver_new_def)
  then show ?thesis using eq by (simp add: less_ballot_def)
qed

lemma ballot_giver_next_returns:
  assumes "bg_proposer_id g \<le> bg_ballot_increment g" "bg_ballot_increment g < RAND_MAX"
    and "0 \<in> set draws"
  shows "\<exists>b. ballot_giver_next draws g prev = Some b"
proof -
  let ?range = "1 + (ballot_number prev + bg_ballot_increment g + 1)
      - (ballot_number prev + 1 + bg_proposer_id g)"
  have r: "?range = bg_ballot_increment g + 1 - bg_proposer_id g" by simp
  have "unat (bg_ballot_increment g + 1) = unat (bg_ballot_increment g) + 1"
    using unat_add_no_overflow [of "bg_ballot_increment g" 1] assms(2)
    by (simp add: word_less_nat_alt RAND_MAX_def)
  then have u: "unat ?range = unat (bg_ballot_increment g) + 1 - unat (bg_proposer_id g)"
    unfolding r using assms(1) by (simp add: unat_sub word_le_nat_alt)
  then have nz: "?range \<noteq> 0" and le: "unat ?range \<le> unat RAND_MAX"
    using assms by (auto simp: word_le_nat_alt word_less_nat_alt unat_eq_zero)
  have "0 < unat (RAND_MAX div ?range * ?range)"
    unfolding unat_bucket_limit using nz le by (simp add: div_greater_zero_iff unat_gt_0)
  then have "0 < RAND_MAX div ?range * ?range" by (simp add: word_less_nat_alt)
  then obtain r' where "first_below (RAND_MAX div ?range * ?range) draws = Some r'"
    using first_below_finds [OF assms(3)] by blast
  then show ?thesis using nz by (simp add: ballot_giver_next_def random_between_def Let_def)
qed

section \<open>Epoch ballots\<close>

text \<open>The order that epoch ballots are meant to have: epoch first, ballot second.\<close>

instantiation epoch_ballot :: linorder
begin

definition less_eq_epoch_ballot :: "epoch_ballot \<Rightarrow> epoch_ballot \<Rightarrow> bool" where
  "a \<le> b \<longleftrightarrow> eb_epoch a < eb_epoch b \<or> eb_epoch a = eb_epoch b \<and> eb_ballot a \<le> eb_ballot b"

definition less_epoch_ballot :: "epoch_ballot \<Rightarrow> epoch_ballot \<Rightarrow> bool" where
  "a < b \<longleftrightarrow> eb_epoch a < eb_epoch b \<or> eb_epoch a = eb_epoch b \<and> eb_ballot a < eb_ballot b"

instance
  by standard (auto simp: less_eq_epoch_ballot_def less_epoch_ballot_def epoch_ballot.expand)

end

lemma epoch_ballot_le_imp_ge: "b \<le> a \<Longrightarrow> epoch_ballot_greater_than_or_equal a b"
  by (auto simp: epoch_ballot_ge_iff less_eq_epoch_ballot_def epoch_ballot.expand)

lemma epoch_ballot_ge_same_epoch:
  "eb_epoch b \<le> eb_epoch a \<Longrightarrow> epoch_ballot_greater_than_or_equal a b \<longleftrightarrow> b \<le> a"
  by (auto simp: epoch_ballot_ge_iff less_eq_epoch_ballot_def epoch_ballot.expand)

text \<open>
  What \<open>epoch_ballot_greater_than\<close> computes: the lexicographic order on (epoch, ballot), and in
  addition every pair whose left epoch is \<^emph>\<open>lower\<close> but whose left ballot is higher.
\<close>

theorem epoch_ballot_greater_than_characterised:
  "epoch_ballot_greater_than a b \<longleftrightarrow> b < a \<or> eb_epoch a < eb_epoch b \<and> eb_ballot b < eb_ballot a"
  by (auto simp: epoch_ballot_gt_iff less_epoch_ballot_def)

text \<open>
  The comparison of \<open>epoch_ballot.c\<close> is not an order: each of the epoch ballots (1, 5.0) and
  (2, 3.0) is reported to be greater than the other.
\<close>

theorem epoch_ballot_greater_than_not_asymmetric:
  "epoch_ballot_greater_than (Epoch_Ballot 1 (Ballot 5 0)) (Epoch_Ballot 2 (Ballot 3 0))
    \<and> epoch_ballot_greater_than (Epoch_Ballot 2 (Ballot 3 0)) (Epoch_Ballot 1 (Ballot 5 0))"
  by (simp add: epoch_ballot_gt_iff less_ballot_def)

end
