(* ===== verification/Message_Conversion.thy ===== *)
theory Message_Conversion
  imports Ballots
begin

text \<open>
  \<open>src/paxos/paxos_message_conversion.c\<close>: the conversions between the records an acceptor stores and
  the messages it sends.  A \<open>union_...\<close> function fills a tagged union and so returns a message of
  the datatype.  Deep copies (\<open>paxos_prepare_copy\<close>, \<open>paxos_accepted_copy\<close>, \<open>paxos_accept_copy\<close>,
  \<open>epoch_ballot_accept_copy\<close>) are the identity on the modelled data.
\<close>

section \<open>Standard Paxos\<close>

definition paxos_accepted_to_promise :: "paxos_accepted \<Rightarrow> standard_paxos_message" where
  [conv_simps]: "paxos_accepted_to_promise acc = PAXOS_PROMISE
     \<lparr>prom_aid = accd_aid acc, prom_iid = accd_iid acc, prom_ballot = accd_promise_ballot acc,
      prom_value_ballot = accd_value_ballot acc, prom_value = accd_value acc\<rparr>"

text \<open>The record filled in by \<open>paxos_accept_to_accepted\<close>, which both stores and sends it.\<close>

definition paxos_accept_to_accepted :: "u32 \<Rightarrow> paxos_accept \<Rightarrow> paxos_accepted" where
  [conv_simps]: "paxos_accept_to_accepted aid acc =
     \<lparr>accd_aid = aid, accd_iid = acc_iid acc, accd_promise_ballot = acc_ballot acc,
      accd_value_ballot = acc_ballot acc, accd_value = acc_value acc\<rparr>"

definition union_paxos_prepare_and_last_acceptor_promise_to_preempted ::
    "u32 \<Rightarrow> paxos_prepare \<Rightarrow> paxos_prepare \<Rightarrow> standard_paxos_message" where
  [conv_simps]: "union_paxos_prepare_and_last_acceptor_promise_to_preempted aid requested last_promise =
     PAXOS_PREEMPTED \<lparr>pre_aid = aid, pre_iid = prep_iid requested,
       pre_attempted_ballot = prep_ballot requested, pre_acceptor_current_ballot = prep_ballot last_promise\<rparr>"

definition paxos_accept_request_and_last_acceptor_promise_to_preempted ::
    "u32 \<Rightarrow> paxos_accept \<Rightarrow> paxos_prepare \<Rightarrow> standard_paxos_message" where
  [conv_simps]: "paxos_accept_request_and_last_acceptor_promise_to_preempted aid requested last_promise =
     PAXOS_PREEMPTED \<lparr>pre_aid = aid, pre_iid = acc_iid requested,
       pre_attempted_ballot = acc_ballot requested, pre_acceptor_current_ballot = prep_ballot last_promise\<rparr>"

definition paxos_accepted_to_accept :: "paxos_accepted \<Rightarrow> paxos_accept" where
  [conv_simps]: "paxos_accepted_to_accept a =
     \<lparr>acc_iid = accd_iid a, acc_ballot = accd_value_ballot a, acc_value = accd_value a\<rparr>"

definition paxos_accepted_to_prepare :: "paxos_accepted \<Rightarrow> paxos_prepare" where
  [conv_simps]: "paxos_accepted_to_prepare a = \<lparr>prep_iid = accd_iid a, prep_ballot = accd_promise_ballot a\<rparr>"

definition union_paxos_promise_from_accept_and_prepare ::
    "paxos_prepare \<Rightarrow> paxos_accept \<Rightarrow> u32 \<Rightarrow> standard_paxos_message" where
  [conv_simps]: "union_paxos_promise_from_accept_and_prepare prepare accept aid = PAXOS_PROMISE
     \<lparr>prom_aid = aid, prom_iid = prep_iid prepare, prom_ballot = prep_ballot prepare,
      prom_value_ballot = acc_ballot accept, prom_value = acc_value accept\<rparr>"

definition union_ballot_chosen_from_epoch_ballot_accept :: "paxos_accept \<Rightarrow> standard_paxos_message" where
  [conv_simps]: "union_ballot_chosen_from_epoch_ballot_accept accept = PAXOS_CHOSEN
     \<lparr>cho_iid = acc_iid accept, cho_ballot = acc_ballot accept, cho_value = acc_value accept\<rparr>"

definition paxos_accepted_update_instance_info_with_chosen ::
    "paxos_accepted \<Rightarrow> paxos_chosen \<Rightarrow> u32 \<Rightarrow> paxos_accepted" where
  [conv_simps]: "paxos_accepted_update_instance_info_with_chosen accepted chosen aid =
     accepted\<lparr>accd_iid := cho_iid chosen, accd_value := cho_value chosen,
       accd_value_ballot := cho_ballot chosen, accd_promise_ballot := cho_ballot chosen, accd_aid := aid\<rparr>"

definition paxos_chosen_from_paxos_accepted :: "paxos_accepted \<Rightarrow> paxos_chosen" where
  [conv_simps]: "paxos_chosen_from_paxos_accepted a =
     \<lparr>cho_iid = accd_iid a, cho_ballot = accd_value_ballot a, cho_value = accd_value a\<rparr>"

definition paxos_chosen_from_paxos_accept :: "paxos_accept \<Rightarrow> paxos_chosen" where
  [conv_simps]: "paxos_chosen_from_paxos_accept a =
     \<lparr>cho_iid = acc_iid a, cho_ballot = acc_ballot a, cho_value = acc_value a\<rparr>"

definition paxos_accepted_from_paxos_prepare_and_accept ::
    "paxos_prepare \<Rightarrow> paxos_accept \<Rightarrow> u32 \<Rightarrow> paxos_accepted" where
  [conv_simps]: "paxos_accepted_from_paxos_prepare_and_accept prepare accept aid =
     \<lparr>accd_aid = aid, accd_iid = prep_iid prepare, accd_promise_ballot = prep_ballot prepare,
      accd_value_ballot = acc_ballot accept, accd_value = acc_value accept\<rparr>"

section \<open>Epoch Paxos\<close>

definition epoch_ballot_accept_from_paxos_accepted :: "paxos_accepted \<Rightarrow> u32 \<Rightarrow> epoch_ballot_accept" where
  [conv_simps]: "epoch_ballot_accept_from_paxos_accepted accepted accept_epoch =
     \<lparr>eba_instance = accd_iid accepted,
      eba_epoch_ballot_requested = Epoch_Ballot accept_epoch (accd_value_ballot accepted),
      eba_value_to_accept = accd_value accepted\<rparr>"

definition paxos_accepted_from_epoch_ballot_accept :: "epoch_ballot_accept \<Rightarrow> u32 \<Rightarrow> paxos_accepted" where
  [conv_simps]: "paxos_accepted_from_epoch_ballot_accept a aid =
     \<lparr>accd_aid = aid, accd_iid = eba_instance a,
      accd_promise_ballot = eb_ballot (eba_epoch_ballot_requested a),
      accd_value_ballot = eb_ballot (eba_epoch_ballot_requested a), accd_value = eba_value_to_accept a\<rparr>"

definition paxos_prepare_from_epoch_ballot_prepare :: "epoch_ballot_prepare \<Rightarrow> paxos_prepare" where
  [conv_simps]: "paxos_prepare_from_epoch_ballot_prepare p =
     \<lparr>prep_iid = ebp_instance p, prep_ballot = eb_ballot (ebp_epoch_ballot_requested p)\<rparr>"

definition union_epoch_ballot_promise_from_epoch_ballot_accept_and_paxos_prepare ::
    "paxos_prepare \<Rightarrow> epoch_ballot_accept \<Rightarrow> u32 \<Rightarrow> u32 \<Rightarrow> epoch_paxos_message" where
  [conv_simps]: "union_epoch_ballot_promise_from_epoch_ballot_accept_and_paxos_prepare prepare accept aid
       promised_epoch = WRITEAHEAD_EPOCH_BALLOT_PROMISE
     \<lparr>ebpr_acceptor_id = aid, ebpr_instance = prep_iid prepare,
      ebpr_promised_epoch_ballot = Epoch_Ballot promised_epoch (prep_ballot prepare),
      ebpr_last_accepted_ballot = Epoch_Ballot (eb_epoch (eba_epoch_ballot_requested accept))
         (eb_ballot (eba_epoch_ballot_requested accept)),
      ebpr_last_accepted_value = eba_value_to_accept accept\<rparr>"

definition union_epoch_ballot_promise_from_epoch_ballot_accept_and_epoch_ballot_prepare ::
    "epoch_ballot_prepare \<Rightarrow> epoch_ballot_accept \<Rightarrow> u32 \<Rightarrow> epoch_paxos_message" where
  [conv_simps]: "union_epoch_ballot_promise_from_epoch_ballot_accept_and_epoch_ballot_prepare prepare accept
       aid = WRITEAHEAD_EPOCH_BALLOT_PROMISE
     \<lparr>ebpr_acceptor_id = aid, ebpr_instance = ebp_instance prepare,
      ebpr_promised_epoch_ballot = Epoch_Ballot (eb_epoch (ebp_epoch_ballot_requested prepare))
         (eb_ballot (ebp_epoch_ballot_requested prepare)),
      ebpr_last_accepted_ballot = Epoch_Ballot (eb_epoch (eba_epoch_ballot_requested accept))
         (eb_ballot (eba_epoch_ballot_requested accept)),
      ebpr_last_accepted_value = eba_value_to_accept accept\<rparr>"

definition union_epoch_ballot_accepted_from_epoch_ballot_accept ::
    "epoch_ballot_accept \<Rightarrow> u32 \<Rightarrow> epoch_paxos_message" where
  [conv_simps]: "union_epoch_ballot_accepted_from_epoch_ballot_accept accept acceptor_id =
     WRITEAHEAD_EPOCH_BALLOT_ACCEPTED
     \<lparr>ebac_acceptor_id = acceptor_id, ebac_instance = eba_instance accept,
      ebac_accepted_epoch_ballot = Epoch_Ballot (eb_epoch (eba_epoch_ballot_requested accept))
         (eb_ballot (eba_epoch_ballot_requested accept)),
      ebac_accepted_value = eba_value_to_accept accept\<rparr>"

definition paxos_accept_from_epoch_ballot_accept :: "epoch_ballot_accept \<Rightarrow> paxos_accept" where
  [conv_simps]: "paxos_accept_from_epoch_ballot_accept a =
     \<lparr>acc_iid = eba_instance a, acc_ballot = eb_ballot (eba_epoch_ballot_requested a),
      acc_value = eba_value_to_accept a\<rparr>"

definition epoch_ballot_preempted_from_epoch_ballot_requested_and_epoch_ballot_last_responded ::
    "u32 \<Rightarrow> iid_t \<Rightarrow> epoch_ballot \<Rightarrow> epoch_ballot \<Rightarrow> epoch_ballot_preempted" where
  [conv_simps]: "epoch_ballot_preempted_from_epoch_ballot_requested_and_epoch_ballot_last_responded aid i
       requested last_responded =
     \<lparr>ebpe_acceptor_id = aid, ebpe_instance = i, ebpe_requested_epoch_ballot = requested,
      ebpe_acceptors_current_epoch_ballot = Epoch_Ballot (eb_epoch last_responded) (eb_ballot last_responded)\<rparr>"

definition union_epoch_ballot_preempted_from_epoch_ballot_preempted ::
    "epoch_ballot_preempted \<Rightarrow> epoch_paxos_message" where
  [conv_simps]: "union_epoch_ballot_preempted_from_epoch_ballot_preempted p =
     WRITEAHEAD_EPOCH_BALLOT_PREEMPTED p"

definition epoch_ballot_accept_from_paxos_accept :: "paxos_accept \<Rightarrow> u32 \<Rightarrow> epoch_ballot_accept" where
  [conv_simps]: "epoch_ballot_accept_from_paxos_accept a epoch =
     \<lparr>eba_instance = acc_iid a, eba_epoch_ballot_requested = Epoch_Ballot epoch (acc_ballot a),
      eba_value_to_accept = acc_value a\<rparr>"

definition union_epoch_ballot_chosen_from_epoch_ballot_accept ::
    "epoch_ballot_accept \<Rightarrow> epoch_paxos_message" where
  [conv_simps]: "union_epoch_ballot_chosen_from_epoch_ballot_accept accept =
     WRITEAHEAD_INSTANCE_CHOSEN_AT_EPOCH_BALLOT
     \<lparr>ebc_instance = eba_instance accept, ebc_chosen_epoch_ballot = eba_epoch_ballot_requested accept,
      ebc_chosen_value = eba_value_to_accept accept\<rparr>"

section \<open>Round trips\<close>

text \<open>
  An accept of epoch Paxos is stored as a standard accept plus its epoch in a table of its own,
  and the stored record of an acceptor is split into a promise and an accept; both splits lose
  nothing: putting the parts together again gives the original record.
\<close>

theorem accept_conversions_roundtrip:
  "epoch_ballot_accept_from_paxos_accept (paxos_accept_from_epoch_ballot_accept a)
       (eb_epoch (eba_epoch_ballot_requested a)) = a
   \<and> paxos_accepted_from_paxos_prepare_and_accept (paxos_accepted_to_prepare info)
       (paxos_accepted_to_accept info) (accd_aid info) = info
   \<and> epoch_ballot_accept_from_paxos_accepted (paxos_accepted_from_epoch_ballot_accept a aid)
       (eb_epoch (eba_epoch_ballot_requested a)) = a"
  by (simp add: conv_simps)

end
