(* ===== verification/Paxos_Storage.thy ===== *)
theory Paxos_Storage
  imports Message_Conversion
begin

text \<open>
  \<open>src/paxos/hash_mapped_memory.c\<close> behind the interfaces \<open>src/paxos/paxos_storage.c\<close> and
  \<open>src/paxos/epoch_paxos_storage.c\<close>: the in-memory tables of an acceptor.  A \<open>khash\<close> table that is
  only read, written and deleted by key is a map.  Allocation never fails in this theory; \<open>Hash_Memory\<close> has the
  operations over the hash tables themselves and shows that they agree.  The locale \<open>instance_store\<close> is the contract the acceptors rely on.
\<close>

section \<open>The tables of \<open>struct hash_mapped_memory\<close>\<close>

record hash_mapped_memory =
  hm_last_prepares :: "iid_t \<rightharpoonup> paxos_prepare"
  hm_last_accepts :: "iid_t \<rightharpoonup> paxos_accept"
  hm_chosen :: "iid_t \<rightharpoonup> bool"
  hm_max_inited_instance :: iid_t
  hm_min_chosen_instance :: iid_t
  hm_trim_instance_id :: iid_t
  hm_aid :: u32

definition new_hash_mapped_memory :: "u32 \<Rightarrow> hash_mapped_memory" where
  "new_hash_mapped_memory aid =
     \<lparr>hm_last_prepares = Map.empty, hm_last_accepts = Map.empty, hm_chosen = Map.empty,
      hm_max_inited_instance = 0, hm_min_chosen_instance = INVALID_INSTANCE,
      hm_trim_instance_id = INVALID_INSTANCE, hm_aid = aid\<rparr>"

definition hash_mapped_memory_get_last_promise ::
    "hash_mapped_memory \<Rightarrow> iid_t \<Rightarrow> bool \<times> paxos_prepare" where
  "hash_mapped_memory_get_last_promise m i =
     (case hm_last_prepares m i of
        Some p \<Rightarrow> (True, p)
      | None \<Rightarrow> (False, \<lparr>prep_iid = i, prep_ballot = Ballot 0 0\<rparr>))"

definition hash_mapped_memory_store_last_promise ::
    "hash_mapped_memory \<Rightarrow> paxos_prepare \<Rightarrow> hash_mapped_memory" where
  "hash_mapped_memory_store_last_promise m p =
     m\<lparr>hm_last_prepares := (hm_last_prepares m)(prep_iid p \<mapsto> p),
       hm_max_inited_instance :=
         (if prep_iid p > hm_max_inited_instance m then prep_iid p else hm_max_inited_instance m)\<rparr>"

definition hash_mapped_memory_store_last_prepares ::
    "hash_mapped_memory \<Rightarrow> paxos_prepare list \<Rightarrow> hash_mapped_memory" where
  "hash_mapped_memory_store_last_prepares m ps = foldl hash_mapped_memory_store_last_promise m ps"

definition hash_mapped_memory_get_last_accepted ::
    "hash_mapped_memory \<Rightarrow> iid_t \<Rightarrow> bool \<times> paxos_accept" where
  "hash_mapped_memory_get_last_accepted m i =
     (case hm_last_accepts m i of
        None \<Rightarrow> (False, \<lparr>acc_iid = i, acc_ballot = Ballot 0 0, acc_value = INVALID_VALUE\<rparr>)
      | Some a \<Rightarrow> (True, a))"

definition hash_mapped_memory_store_last_accepted ::
    "hash_mapped_memory \<Rightarrow> paxos_accept \<Rightarrow> hash_mapped_memory" where
  "hash_mapped_memory_store_last_accepted m a =
     m\<lparr>hm_last_accepts := (hm_last_accepts m)(acc_iid a \<mapsto> a),
       hm_max_inited_instance :=
         (if acc_iid a > hm_max_inited_instance m then acc_iid a else hm_max_inited_instance m)\<rparr>"

definition hash_mapped_memory_store_last_accepteds ::
    "hash_mapped_memory \<Rightarrow> paxos_accept list \<Rightarrow> hash_mapped_memory" where
  "hash_mapped_memory_store_last_accepteds m as = foldl hash_mapped_memory_store_last_accepted m as"

definition hash_mapped_memory_store_instance_info ::
    "hash_mapped_memory \<Rightarrow> paxos_accepted \<Rightarrow> hash_mapped_memory" where
  "hash_mapped_memory_store_instance_info m info =
     hash_mapped_memory_store_last_accepted
       (hash_mapped_memory_store_last_promise m (paxos_accepted_to_prepare info))
       (paxos_accepted_to_accept info)"

definition hash_mapped_memory_get_instance_info ::
    "hash_mapped_memory \<Rightarrow> iid_t \<Rightarrow> bool \<times> paxos_accepted" where
  "hash_mapped_memory_get_instance_info m i =
     (let promise = snd (hash_mapped_memory_get_last_promise m i);
          accept = snd (hash_mapped_memory_get_last_accepted m i);
          info = paxos_accepted_from_paxos_prepare_and_accept promise accept (hm_aid m)
      in (ballot_greater_than (accd_promise_ballot info) INVALID_BALLOT, info))"

definition hash_mapped_memory_store_trim_instance ::
    "hash_mapped_memory \<Rightarrow> iid_t \<Rightarrow> hash_mapped_memory" where
  "hash_mapped_memory_store_trim_instance m trim = m\<lparr>hm_trim_instance_id := trim\<rparr>"

definition hash_mapped_memory_get_trim_instance :: "hash_mapped_memory \<Rightarrow> iid_t" where
  "hash_mapped_memory_get_trim_instance m = hm_trim_instance_id m"

definition hash_mapped_memory_trim_storage ::
    "hash_mapped_memory \<Rightarrow> iid_t \<Rightarrow> hash_mapped_memory" where
  "hash_mapped_memory_trim_storage m trim =
     m\<lparr>hm_last_prepares := drop_below trim (hm_last_prepares m),
       hm_last_accepts := drop_below trim (hm_last_accepts m),
       hm_chosen := drop_below trim (hm_chosen m)\<rparr>"

definition new_hash_mapped_memory_from_instances_info ::
    "paxos_accepted list \<Rightarrow> iid_t \<Rightarrow> u32 \<Rightarrow> hash_mapped_memory" where
  "new_hash_mapped_memory_from_instances_info infos trim_instance aid =
     foldl hash_mapped_memory_store_instance_info
       ((new_hash_mapped_memory aid)\<lparr>hm_trim_instance_id := trim_instance\<rparr>) infos"

definition hash_mapped_memory_get_last_inited_instance :: "hash_mapped_memory \<Rightarrow> iid_t" where
  "hash_mapped_memory_get_last_inited_instance m = hm_max_inited_instance m"

definition hash_mapped_memory_get_min_unchosen_instace :: "hash_mapped_memory \<Rightarrow> iid_t" where
  "hash_mapped_memory_get_min_unchosen_instace m = hm_min_chosen_instance m + 1"

definition hash_mapped_memory_is_instance_chosen :: "hash_mapped_memory \<Rightarrow> iid_t \<Rightarrow> bool" where
  "hash_mapped_memory_is_instance_chosen m i =
     (case hm_chosen m i of None \<Rightarrow> False | Some b \<Rightarrow> (if b = True then True else False))"

text \<open>
  The loop of \<open>hash_mapped_memory_instance_chosen\<close> from instance \<open>i\<close> on: \<open>k\<close> bounds the number of
  iterations.  With \<open>2 ^ 32\<close> it is never exhausted unless all \<open>2 ^ 32\<close> instances are chosen at once
  (lemma \<open>advance_min_chosen_fuel\<close>), the one case in which the C loop, whose counter wraps, would
  not end.
\<close>

function advance_min_chosen ::
    "int \<Rightarrow> (iid_t \<rightharpoonup> bool) \<Rightarrow> iid_t \<Rightarrow> iid_t \<Rightarrow> iid_t \<Rightarrow> iid_t" where
  "advance_min_chosen k chosen inst i min_chosen =
     (if 0 < k \<and> i \<le> inst \<and> chosen i = Some True
      then advance_min_chosen (k - 1) chosen inst (i + 1) i
      else min_chosen)"
  by pat_completeness auto
termination
  by (relation "measure (\<lambda>(k, _). nat k)") auto

declare advance_min_chosen.simps [simp del]

definition hash_mapped_memory_instance_chosen ::
    "hash_mapped_memory \<Rightarrow> iid_t \<Rightarrow> hash_mapped_memory" where
  "hash_mapped_memory_instance_chosen m i =
     (let m = m\<lparr>hm_chosen := (hm_chosen m)(i \<mapsto> True)\<rparr>
      in m\<lparr>hm_min_chosen_instance :=
             advance_min_chosen 4294967296 (hm_chosen m) i (hm_min_chosen_instance m + 1)
               (hm_min_chosen_instance m)\<rparr>)"

section \<open>What the tables return after a store\<close>

lemmas memory_defs =
  hash_mapped_memory_get_last_promise_def hash_mapped_memory_store_last_promise_def
  hash_mapped_memory_get_last_accepted_def hash_mapped_memory_store_last_accepted_def
  hash_mapped_memory_store_instance_info_def hash_mapped_memory_get_instance_info_def
  hash_mapped_memory_store_trim_instance_def hash_mapped_memory_trim_storage_def
  hash_mapped_memory_is_instance_chosen_def hash_mapped_memory_instance_chosen_def
  hash_mapped_memory_get_min_unchosen_instace_def

text \<open>The promise and the accepted ballot and value that the tables hold for an instance.\<close>

definition promised :: "hash_mapped_memory \<Rightarrow> iid_t \<Rightarrow> ballot" where
  "promised m i = prep_ballot (snd (hash_mapped_memory_get_last_promise m i))"

definition accepted_ballot :: "hash_mapped_memory \<Rightarrow> iid_t \<Rightarrow> ballot" where
  "accepted_ballot m i = acc_ballot (snd (hash_mapped_memory_get_last_accepted m i))"

definition accepted_value :: "hash_mapped_memory \<Rightarrow> iid_t \<Rightarrow> paxos_value" where
  "accepted_value m i = acc_value (snd (hash_mapped_memory_get_last_accepted m i))"

text \<open>The keys of the tables agree with the instances of the records stored under them.\<close>

definition memory_wf :: "hash_mapped_memory \<Rightarrow> bool" where
  "memory_wf m \<longleftrightarrow> (\<forall>i p. hm_last_prepares m i = Some p \<longrightarrow> prep_iid p = i)
     \<and> (\<forall>i a. hm_last_accepts m i = Some a \<longrightarrow> acc_iid a = i)"

lemma memory_wf_new [simp]: "memory_wf (new_hash_mapped_memory aid)"
  by (simp add: memory_wf_def new_hash_mapped_memory_def)

lemma memory_wf_ops [simp]:
  "memory_wf m \<Longrightarrow> memory_wf (hash_mapped_memory_store_last_promise m p)"
  "memory_wf m \<Longrightarrow> memory_wf (hash_mapped_memory_store_last_accepted m a)"
  "memory_wf m \<Longrightarrow> memory_wf (hash_mapped_memory_store_instance_info m info)"
  "memory_wf m \<Longrightarrow> memory_wf (hash_mapped_memory_trim_storage m trim)"
  "memory_wf (hash_mapped_memory_store_trim_instance m trim) = memory_wf m"
  "memory_wf (hash_mapped_memory_instance_chosen m i) = memory_wf m"
  by (auto simp: memory_wf_def memory_defs Let_def drop_below_def split: if_splits)

lemma get_instance_info_eq:
  "memory_wf m \<Longrightarrow> hash_mapped_memory_get_instance_info m i =
     (INVALID_BALLOT < promised m i,
      \<lparr>accd_aid = hm_aid m, accd_iid = i, accd_promise_ballot = promised m i,
       accd_value_ballot = accepted_ballot m i, accd_value = accepted_value m i\<rparr>)"
  by (auto simp: memory_defs promised_def accepted_ballot_def accepted_value_def memory_wf_def conv_simps
      Let_def split: option.splits)

lemma store_last_promise_fields [store_simps]:
  "promised (hash_mapped_memory_store_last_promise m p) i
     = (if i = prep_iid p then prep_ballot p else promised m i)"
  "accepted_ballot (hash_mapped_memory_store_last_promise m p) i = accepted_ballot m i"
  "accepted_value (hash_mapped_memory_store_last_promise m p) i = accepted_value m i"
  by (simp_all add: promised_def accepted_ballot_def accepted_value_def memory_defs)

lemma store_last_accepted_fields [store_simps]:
  "promised (hash_mapped_memory_store_last_accepted m a) i = promised m i"
  "accepted_ballot (hash_mapped_memory_store_last_accepted m a) i
     = (if i = acc_iid a then acc_ballot a else accepted_ballot m i)"
  "accepted_value (hash_mapped_memory_store_last_accepted m a) i
     = (if i = acc_iid a then acc_value a else accepted_value m i)"
  by (simp_all add: promised_def accepted_ballot_def accepted_value_def memory_defs)

lemma store_instance_info_fields [store_simps]:
  "promised (hash_mapped_memory_store_instance_info m info) i
     = (if i = accd_iid info then accd_promise_ballot info else promised m i)"
  "accepted_ballot (hash_mapped_memory_store_instance_info m info) i
     = (if i = accd_iid info then accd_value_ballot info else accepted_ballot m i)"
  "accepted_value (hash_mapped_memory_store_instance_info m info) i
     = (if i = accd_iid info then accd_value info else accepted_value m i)"
  by (simp_all add: hash_mapped_memory_store_instance_info_def store_simps conv_simps)

lemma chosen_fields [store_simps]:
  "promised (hash_mapped_memory_instance_chosen m i) j = promised m j"
  "accepted_ballot (hash_mapped_memory_instance_chosen m i) j = accepted_ballot m j"
  "accepted_value (hash_mapped_memory_instance_chosen m i) j = accepted_value m j"
  "promised (hash_mapped_memory_store_trim_instance m t) j = promised m j"
  "accepted_ballot (hash_mapped_memory_store_trim_instance m t) j = accepted_ballot m j"
  "accepted_value (hash_mapped_memory_store_trim_instance m t) j = accepted_value m j"
  by (simp_all add: promised_def accepted_ballot_def accepted_value_def memory_defs Let_def)

lemma trim_storage_fields [store_simps]:
  "promised (hash_mapped_memory_trim_storage m t) i = (if i < t then INVALID_BALLOT else promised m i)"
  "accepted_ballot (hash_mapped_memory_trim_storage m t) i
     = (if i < t then INVALID_BALLOT else accepted_ballot m i)"
  "accepted_value (hash_mapped_memory_trim_storage m t) i
     = (if i < t then INVALID_VALUE else accepted_value m i)"
  by (simp_all add: promised_def accepted_ballot_def accepted_value_def memory_defs INVALID_BALLOT_def)

lemma new_memory_fields [store_simps]:
  "promised (new_hash_mapped_memory aid) i = INVALID_BALLOT"
  "accepted_ballot (new_hash_mapped_memory aid) i = INVALID_BALLOT"
  "accepted_value (new_hash_mapped_memory aid) i = INVALID_VALUE"
  "promised (m\<lparr>hm_trim_instance_id := t\<rparr>) i = promised m i"
  "accepted_ballot (m\<lparr>hm_trim_instance_id := t\<rparr>) i = accepted_ballot m i"
  "accepted_value (m\<lparr>hm_trim_instance_id := t\<rparr>) i = accepted_value m i"
  by (simp_all add: promised_def accepted_ballot_def accepted_value_def memory_defs INVALID_BALLOT_def
      new_hash_mapped_memory_def)

lemma is_chosen_fields [store_simps]:
  "hash_mapped_memory_is_instance_chosen (hash_mapped_memory_store_last_promise m p) i
     = hash_mapped_memory_is_instance_chosen m i"
  "hash_mapped_memory_is_instance_chosen (hash_mapped_memory_store_last_accepted m a) i
     = hash_mapped_memory_is_instance_chosen m i"
  "hash_mapped_memory_is_instance_chosen (hash_mapped_memory_store_instance_info m info) i
     = hash_mapped_memory_is_instance_chosen m i"
  "hash_mapped_memory_is_instance_chosen (hash_mapped_memory_store_trim_instance m t) i
     = hash_mapped_memory_is_instance_chosen m i"
  "hash_mapped_memory_is_instance_chosen (hash_mapped_memory_instance_chosen m j) i
     \<longleftrightarrow> i = j \<or> hash_mapped_memory_is_instance_chosen m i"
  "hash_mapped_memory_is_instance_chosen (hash_mapped_memory_trim_storage m t) i
     \<longleftrightarrow> \<not> i < t \<and> hash_mapped_memory_is_instance_chosen m i"
  by (auto simp: memory_defs Let_def drop_below_def split: option.splits if_splits)

lemma hm_aid_ops [frame_simps]:
  "hm_aid (hash_mapped_memory_store_last_promise m p) = hm_aid m"
  "hm_aid (hash_mapped_memory_store_last_accepted m a) = hm_aid m"
  "hm_aid (hash_mapped_memory_store_instance_info m info) = hm_aid m"
  "hm_aid (hash_mapped_memory_store_trim_instance m t) = hm_aid m"
  "hm_aid (hash_mapped_memory_trim_storage m t) = hm_aid m"
  "hm_aid (hash_mapped_memory_instance_chosen m i) = hm_aid m"
  by (simp_all add: memory_defs Let_def)

lemma hm_min_chosen_ops [frame_simps]:
  "hm_min_chosen_instance (hash_mapped_memory_store_last_promise m p) = hm_min_chosen_instance m"
  "hm_min_chosen_instance (hash_mapped_memory_store_last_accepted m a) = hm_min_chosen_instance m"
  "hm_min_chosen_instance (hash_mapped_memory_store_instance_info m info) = hm_min_chosen_instance m"
  "hm_min_chosen_instance (hash_mapped_memory_store_trim_instance m t) = hm_min_chosen_instance m"
  "hm_min_chosen_instance (hash_mapped_memory_trim_storage m t) = hm_min_chosen_instance m"
  by (simp_all add: memory_defs Let_def)

section \<open>The contiguous prefix of chosen instances\<close>

lemma advance_min_chosen_more_fuel:
  assumes "\<not> (i + of_nat n \<le> inst \<and> chosen (i + of_nat n) = Some True)" "int n < k" "k \<le> k'"
  shows "advance_min_chosen k chosen inst i mc = advance_min_chosen k' chosen inst i mc"
  using assms
proof (induction n arbitrary: i mc k k')
  case 0
  then show ?case
    by (auto simp: advance_min_chosen.simps [of k] advance_min_chosen.simps [of k'])
next
  case (Suc n)
  from Suc.prems(1) have "\<not> (i + 1 + of_nat n \<le> inst \<and> chosen (i + 1 + of_nat n) = Some True)"
    by (simp add: algebra_simps)
  from Suc.IH [OF this, of "k - 1" "k' - 1" i] Suc.prems(2,3)
  have "advance_min_chosen (k - 1) chosen inst (i + 1) i = advance_min_chosen (k' - 1) chosen inst (i + 1) i"
    by simp
  then show ?case
    using Suc.prems(2,3)
    by (simp add: advance_min_chosen.simps [of k] advance_min_chosen.simps [of k'])
qed

lemma advance_min_chosen_fuel:
  assumes "\<exists>j. \<not> (j \<le> inst \<and> chosen j = Some True)" "4294967296 \<le> k"
  shows "advance_min_chosen 4294967296 chosen inst i mc = advance_min_chosen k chosen inst i mc"
proof -
  from assms(1) obtain j where j: "\<not> (j \<le> inst \<and> chosen j = Some True)" ..
  have "i + of_nat (unat (j - i)) = j" by simp
  moreover have "int (unat (j - i)) < 4294967296" using unat_u32_lt [of "j - i"] by linarith
  ultimately show ?thesis
    using advance_min_chosen_more_fuel [of i "unat (j - i)" inst chosen 4294967296 k mc] j assms(2) by simp
qed

lemma advance_min_chosen_prefix:
  assumes "inst \<noteq> UINT32_MAX" "i = mc + 1" "mc \<noteq> UINT32_MAX"
  shows "mc \<le> advance_min_chosen k chosen inst i mc
    \<and> (\<forall>j. mc < j \<and> j \<le> advance_min_chosen k chosen inst i mc \<longrightarrow> chosen j = Some True)"
  using assms
proof (induction k chosen inst i mc rule: advance_min_chosen.induct)
  case (1 k chosen inst i mc)
  show ?case
  proof (cases "0 < k \<and> i \<le> inst \<and> chosen i = Some True")
    case True
    then have "i \<noteq> UINT32_MAX" using 1(2) by auto
    with 1(1) [OF True 1(2)] have IH: "i \<le> advance_min_chosen (k - 1) chosen inst (i + 1) i"
      "\<And>j. i < j \<Longrightarrow> j \<le> advance_min_chosen (k - 1) chosen inst (i + 1) i \<Longrightarrow> chosen j = Some True"
      by simp_all
    have le: "mc < j \<longleftrightarrow> i \<le> j" for j
      using 1(3,4) u32_le_iff_lt_Suc [of mc j] by (metis linorder_not_le)
    have "mc \<le> i" using le [of i] by simp
    with IH le True show ?thesis
      by (simp add: advance_min_chosen.simps [of k]) (metis le_neq_trans order.trans)
  next
    case False
    then show ?thesis by (auto simp: advance_min_chosen.simps [of k])
  qed
qed

lemma advance_min_chosen_maximal:
  assumes "inst \<noteq> UINT32_MAX" "i = mc + 1" "mc \<le> inst" "int (unat inst) < k + int (unat mc)"
  shows "let r = advance_min_chosen k chosen inst i mc in r < inst \<longrightarrow> chosen (r + 1) \<noteq> Some True"
  using assms
proof (induction k chosen inst i mc rule: advance_min_chosen.induct)
  case (1 k chosen inst i mc)
  show ?case
  proof (cases "0 < k \<and> i \<le> inst \<and> chosen i = Some True")
    case True
    have "mc \<noteq> UINT32_MAX" using 1(2,4) by auto
    then have "unat i = Suc (unat mc)" using 1(3) by (simp add: u32_Suc_unat)
    with 1(1) [OF True 1(2)] True 1(5) show ?thesis
      by (simp add: advance_min_chosen.simps [of k])
  next
    case False
    moreover have "i \<le> inst" if "mc < inst"
      using that 1(2,3) u32_le_iff_lt_Suc [of mc inst] by (metis linorder_not_less u32_not_gt_UINT32_MAX)
    moreover have "0 < k" using 1(4) [unfolded word_le_nat_alt] 1(5) by linarith
    ultimately show ?thesis using 1(3) by (auto simp: advance_min_chosen.simps [of k] Let_def)
  qed
qed

text \<open>
  Marking an instance as chosen advances the trim boundary only over chosen instances: every
  instance that the new \<open>min_chosen_instance\<close> covers and the old one did not is recorded as chosen,
  and the boundary stops exactly where the run of chosen instances, looked at up to the marked one,
  ends.
\<close>

theorem instance_chosen_advances_over_chosen_prefix:
  assumes "i \<noteq> UINT32_MAX" "hm_min_chosen_instance m < i"
  defines "m' \<equiv> hash_mapped_memory_instance_chosen m i"
  shows "hash_mapped_memory_is_instance_chosen m' i
    \<and> hm_min_chosen_instance m \<le> hm_min_chosen_instance m'
    \<and> (\<forall>j. hm_min_chosen_instance m < j \<and> j \<le> hm_min_chosen_instance m'
          \<longrightarrow> hash_mapped_memory_is_instance_chosen m' j)
    \<and> (hm_min_chosen_instance m' < i
          \<longrightarrow> \<not> hash_mapped_memory_is_instance_chosen m' (hash_mapped_memory_get_min_unchosen_instace m'))"
proof -
  let ?c = "(hm_chosen m)(i \<mapsto> True)" and ?mc = "hm_min_chosen_instance m"
  have chosen: "hash_mapped_memory_is_instance_chosen m' j \<longleftrightarrow> ?c j = Some True" for j
    by (auto simp: m'_def memory_defs Let_def split: option.splits)
  have mc': "hm_min_chosen_instance m' = advance_min_chosen 4294967296 ?c i (?mc + 1) ?mc"
    by (simp add: m'_def memory_defs Let_def)
  have "?mc \<noteq> UINT32_MAX" using assms(2) by auto
  moreover have "int (unat i) < 4294967296 + int (unat ?mc)" using unat_u32_lt [of i] by linarith
  ultimately show ?thesis
    using advance_min_chosen_prefix [OF assms(1) refl, of ?mc 4294967296 ?c]
      advance_min_chosen_maximal [OF assms(1) refl, of ?mc 4294967296 ?c] assms(2)
    unfolding chosen mc' hash_mapped_memory_get_min_unchosen_instace_def by (simp add: Let_def)
qed

theorem instance_chosen_advances_over_chosen_prefix_witness:
  "hm_min_chosen_instance (hash_mapped_memory_instance_chosen
      (hash_mapped_memory_instance_chosen (new_hash_mapped_memory 0) 2) 1) = 1"
proof -
  let ?m = "hash_mapped_memory_instance_chosen (new_hash_mapped_memory 0) 2"
  have a: "hm_min_chosen_instance ?m = 0"
    by (simp add: memory_defs new_hash_mapped_memory_def advance_min_chosen.simps Let_def)
  have b: "hm_min_chosen_instance (hash_mapped_memory_instance_chosen ?m 1) = 1"
    by code_simp
  show ?thesis
    using instance_chosen_advances_over_chosen_prefix [of 1 ?m] a b by simp
qed

section \<open>The contract of an instance store\<close>

text \<open>
  What an acceptor relies on: one record of promise, accepted ballot and accepted value per instance,
  which a store replaces for its own instance only.  Recovery stores the records found in stable
  storage one after the other; \<open>store_all\<close> says that this reproduces them.
\<close>

locale instance_store =
  fixes store :: "'m \<Rightarrow> paxos_accepted \<Rightarrow> 'm"
    and lookup :: "'m \<Rightarrow> iid_t \<Rightarrow> paxos_accepted"
    and invar :: "'m \<Rightarrow> bool"
    and owner :: "'m \<Rightarrow> u32"
  assumes invar_store: "invar m \<Longrightarrow> invar (store m info)"
    and owner_store: "owner (store m info) = owner m"
    and lookup_same: "invar m \<Longrightarrow> lookup (store m info) (accd_iid info) = info\<lparr>accd_aid := owner m\<rparr>"
    and lookup_other: "invar m \<Longrightarrow> i \<noteq> accd_iid info \<Longrightarrow> lookup (store m info) i = lookup m i"
begin

lemma store_all_invar: "invar m \<Longrightarrow> invar (foldl store m infos)"
  by (induction infos arbitrary: m) (simp_all add: invar_store)

lemma store_all_other:
  "invar m \<Longrightarrow> i \<notin> accd_iid ` set infos \<Longrightarrow> lookup (foldl store m infos) i = lookup m i"
  by (induction infos arbitrary: m) (auto simp: invar_store lookup_other)

lemma store_all:
  "invar m \<Longrightarrow> distinct (map accd_iid infos) \<Longrightarrow> info \<in> set infos \<Longrightarrow>
     lookup (foldl store m infos) (accd_iid info) = info\<lparr>accd_aid := owner m\<rparr>"
proof (induction infos arbitrary: m)
  case Nil
  then show ?case by simp
next
  case (Cons x xs)
  show ?case
  proof (cases "info \<in> set xs")
    case True
    with Cons show ?thesis by (simp add: invar_store owner_store)
  next
    case False
    with Cons.prems(3) have "info = x" by simp
    with Cons.prems store_all_other [of "store m x" "accd_iid x" xs] show ?thesis
      by (simp add: invar_store lookup_same image_iff)
  qed
qed

end

interpretation hmm: instance_store hash_mapped_memory_store_instance_info
  "\<lambda>m i. snd (hash_mapped_memory_get_instance_info m i)" memory_wf hm_aid
  by unfold_locales (simp_all add: get_instance_info_eq store_simps frame_simps)

text \<open>
  Recovery of the in-memory tables: after an acceptor has loaded the records found in stable
  storage (at most one per instance), looking an instance up returns exactly the recorded promise,
  accepted ballot and value, and every other instance is empty.
\<close>

theorem memory_recovers_instances_info:
  fixes trim :: iid_t and aid :: u32
  assumes "distinct (map accd_iid infos)"
  defines "m \<equiv> new_hash_mapped_memory_from_instances_info infos trim aid"
  shows "(\<forall>info \<in> set infos. snd (hash_mapped_memory_get_instance_info m (accd_iid info))
             = info\<lparr>accd_aid := aid\<rparr>)
    \<and> (\<forall>i. i \<notin> accd_iid ` set infos \<longrightarrow> promised m i = INVALID_BALLOT \<and> accepted_ballot m i = INVALID_BALLOT)"
proof -
  let ?m0 = "(new_hash_mapped_memory aid)\<lparr>hm_trim_instance_id := trim\<rparr>"
  have wf: "memory_wf ?m0" by (simp add: memory_wf_def new_hash_mapped_memory_def)
  have aid: "hm_aid ?m0 = aid" by (simp add: new_hash_mapped_memory_def)
  have m: "m = foldl hash_mapped_memory_store_instance_info ?m0 infos"
    by (simp add: m_def new_hash_mapped_memory_from_instances_info_def)
  have "promised m i = INVALID_BALLOT \<and> accepted_ballot m i = INVALID_BALLOT"
    if "i \<notin> accd_iid ` set infos" for i
    using hmm.store_all_other [OF wf that] hmm.store_all_invar [OF wf, of infos] wf
    by (simp add: m get_instance_info_eq store_simps)
  then show ?thesis
    using hmm.store_all [OF wf assms(1)] unfolding m by (simp add: aid)
qed

theorem memory_recovers_instances_info_witness:
  "snd (hash_mapped_memory_get_instance_info
      (new_hash_mapped_memory_from_instances_info
        [\<lparr>accd_aid = 0, accd_iid = 4, accd_promise_ballot = Ballot 7 1, accd_value_ballot = Ballot 3 2,
          accd_value = [9]\<rparr>] 2 5) 4)
    = \<lparr>accd_aid = 5, accd_iid = 4, accd_promise_ballot = Ballot 7 1, accd_value_ballot = Ballot 3 2,
       accd_value = [9]\<rparr>"
  using memory_recovers_instances_info
    [of "[\<lparr>accd_aid = 0, accd_iid = 4, accd_promise_ballot = Ballot 7 1, accd_value_ballot = Ballot 3 2,
          accd_value = [9]\<rparr>]" 2 5]
  by simp

section \<open>The epoch extension\<close>

record epoch_paxos_storage =
  eps_paxos_storage :: hash_mapped_memory
  eps_accepts_epochs :: "iid_t \<rightharpoonup> u32"

definition epoch_hash_mapped_memory_get_accept_epoch :: "(iid_t \<rightharpoonup> u32) \<Rightarrow> iid_t \<Rightarrow> bool \<times> u32" where
  "epoch_hash_mapped_memory_get_accept_epoch m i =
     (case m i of None \<Rightarrow> (False, 0) | Some e \<Rightarrow> (True, e))"

definition epoch_hash_mapped_memory_store_accept_epoch ::
    "(iid_t \<rightharpoonup> u32) \<Rightarrow> iid_t \<Rightarrow> u32 \<Rightarrow> (iid_t \<rightharpoonup> u32)" where
  "epoch_hash_mapped_memory_store_accept_epoch m i epoch = m(i \<mapsto> epoch)"

definition epoch_hash_mapped_memory_init :: "u32 \<Rightarrow> epoch_paxos_storage" where
  "epoch_hash_mapped_memory_init aid =
     \<lparr>eps_paxos_storage = new_hash_mapped_memory aid, eps_accepts_epochs = Map.empty\<rparr>"

text \<open>
  \<open>epoch_paxos_storage_init_with_prepares_and_accepts\<close> converts each accept and stores its epoch,
  but it passes the handle of the standard tables to the function that expects the epoch table: the
  epoch pointer is written into the table of promises, whose records it then misrepresents.  From
  the first accept on the behaviour is undefined, the value \<open>None\<close>.  (The list of promises is always
  empty at the only call.)
\<close>

definition epoch_paxos_storage_init_with_prepares_and_accepts ::
    "epoch_ballot_accept list \<Rightarrow> u32 \<Rightarrow> epoch_paxos_storage option" where
  "epoch_paxos_storage_init_with_prepares_and_accepts accepts aid =
     (if accepts = [] then Some (epoch_hash_mapped_memory_init aid) else None)"

definition epoch_paxos_storage_store_last_prepare ::
    "epoch_paxos_storage \<Rightarrow> paxos_prepare \<Rightarrow> epoch_paxos_storage" where
  "epoch_paxos_storage_store_last_prepare s p =
     s\<lparr>eps_paxos_storage := hash_mapped_memory_store_last_promise (eps_paxos_storage s) p\<rparr>"

definition epoch_paxos_storage_get_last_prepare ::
    "epoch_paxos_storage \<Rightarrow> iid_t \<Rightarrow> bool \<times> paxos_prepare" where
  "epoch_paxos_storage_get_last_prepare s i = hash_mapped_memory_get_last_promise (eps_paxos_storage s) i"

definition lazy_store_of_epoch_ballot_accept ::
    "epoch_paxos_storage \<Rightarrow> epoch_ballot_accept \<Rightarrow> epoch_paxos_storage" where
  "lazy_store_of_epoch_ballot_accept s a =
     s\<lparr>eps_accepts_epochs :=
         epoch_hash_mapped_memory_store_accept_epoch (eps_accepts_epochs s) (eba_instance a)
           (eb_epoch (eba_epoch_ballot_requested a)),
       eps_paxos_storage :=
         hash_mapped_memory_store_last_accepted (eps_paxos_storage s)
           (paxos_accept_from_epoch_ballot_accept a)\<rparr>"

definition lazy_get_of_epoch_ballot_accept ::
    "epoch_paxos_storage \<Rightarrow> iid_t \<Rightarrow> bool \<times> epoch_ballot_accept" where
  "lazy_get_of_epoch_ballot_accept s i =
     (let (found_accept, accept) = hash_mapped_memory_get_last_accepted (eps_paxos_storage s) i;
          (found_epoch, epoch) = epoch_hash_mapped_memory_get_accept_epoch (eps_accepts_epochs s) i
      in (found_accept, epoch_ballot_accept_from_paxos_accept accept epoch))"

definition epoch_paxos_storage_trim_instances_less_than ::
    "epoch_paxos_storage \<Rightarrow> iid_t \<Rightarrow> epoch_paxos_storage" where
  "epoch_paxos_storage_trim_instances_less_than s cmp =
     s\<lparr>eps_paxos_storage := hash_mapped_memory_trim_storage (eps_paxos_storage s) cmp,
       eps_accepts_epochs := drop_below cmp (eps_accepts_epochs s)\<rparr>"

definition epoch_paxos_storage_store_trim_instance ::
    "epoch_paxos_storage \<Rightarrow> iid_t \<Rightarrow> epoch_paxos_storage" where
  "epoch_paxos_storage_store_trim_instance s trim =
     s\<lparr>eps_paxos_storage := hash_mapped_memory_store_trim_instance (eps_paxos_storage s) trim\<rparr>"

definition epoch_paxos_storage_set_instance_chosen ::
    "epoch_paxos_storage \<Rightarrow> iid_t \<Rightarrow> epoch_paxos_storage" where
  "epoch_paxos_storage_set_instance_chosen s i =
     s\<lparr>eps_paxos_storage := hash_mapped_memory_instance_chosen (eps_paxos_storage s) i\<rparr>"

lemma lazy_get_store [store_simps]:
  "lazy_get_of_epoch_ballot_accept (lazy_store_of_epoch_ballot_accept s a) i =
     (if i = eba_instance a then (True, a) else lazy_get_of_epoch_ballot_accept s i)"
  by (cases "eba_epoch_ballot_requested a")
    (auto simp: lazy_get_of_epoch_ballot_accept_def lazy_store_of_epoch_ballot_accept_def memory_defs
      epoch_hash_mapped_memory_get_accept_epoch_def epoch_hash_mapped_memory_store_accept_epoch_def
      conv_simps Let_def)

end
