(* ===== verification/Stable_Storage.thy ===== *)
theory Stable_Storage
  imports Paxos_Storage
begin

text \<open>
  \<open>src/paxos/include/standard_stable_storage.h\<close>: the struct of function pointers through which the
  acceptors reach their stable storage, as a record of functions over a handle; the accessors of
  \<open>src/paxos/standard_stable_storage.c\<close> are its selectors.  A function that fills an out-parameter
  only on success returns an option.  \<open>stable_store\<close> is the contract the acceptors rely on; it is
  interpreted on \<open>src/paxos/stable_storage_but_not_really.c\<close>.
\<close>

section \<open>The interface\<close>

record 'h stable_storage_api =
  api_open :: "'h \<Rightarrow> int \<times> 'h"
  api_tx_begin :: "'h \<Rightarrow> int \<times> 'h"
  api_tx_commit :: "'h \<Rightarrow> int \<times> 'h"
  api_tx_abort :: "'h \<Rightarrow> 'h"
  api_get_instance_info :: "'h \<Rightarrow> iid_t \<Rightarrow> paxos_accepted option"
  api_store_instance_info :: "'h \<Rightarrow> paxos_accepted \<Rightarrow> int \<times> 'h"
  api_get_trim_instance :: "'h \<Rightarrow> iid_t option"
  api_store_trim_instance :: "'h \<Rightarrow> iid_t \<Rightarrow> int \<times> 'h"
  api_get_all_untrimmed_instances_info :: "'h \<Rightarrow> paxos_accepted list"
  api_get_max_instance :: "'h \<Rightarrow> iid_t option"

text \<open>
  The contract: \<open>durable\<close> is what the storage holds after a restart and \<open>storable\<close> says which records
  it can hold.  A transaction that begins, stores one such record and commits without an error makes
  exactly this record durable; one that fails or is aborted changes nothing.
\<close>

locale stable_store =
  fixes api :: "'h stable_storage_api"
    and storable :: "iid_t \<Rightarrow> paxos_value \<Rightarrow> bool"
    and durable :: "'h \<Rightarrow> (iid_t \<rightharpoonup> paxos_accepted)"
  assumes commit_store: "api_tx_begin api h = (0, h1) \<Longrightarrow> api_store_instance_info api h1 info = (0, h2)
        \<Longrightarrow> api_tx_commit api h2 = (0, h3) \<Longrightarrow> storable (accd_iid info) (accd_value info)
        \<Longrightarrow> durable h3 = (durable h)(accd_iid info \<mapsto> info)"
    and begin_failed: "api_tx_begin api h = (rc, h1) \<Longrightarrow> rc \<noteq> 0 \<Longrightarrow> durable h1 = durable h"
    and store_aborted: "api_tx_begin api h = (0, h1) \<Longrightarrow> api_store_instance_info api h1 info = (rc, h2)
        \<Longrightarrow> rc \<noteq> 0 \<Longrightarrow> durable (api_tx_abort api h2) = durable h"
    and read_in_tx: "api_tx_begin api h = (0, h1) \<Longrightarrow> storable i v \<Longrightarrow> api_get_instance_info api h1 i = durable h i"
    and durable_storable: "durable h i = Some info \<Longrightarrow> storable i (accd_value info)"
begin

text \<open>A record that was made durable is the one the next transaction reads.\<close>

lemma store_then_read:
  assumes "api_tx_begin api h = (0, h1)" "api_store_instance_info api h1 info = (0, h2)"
    "api_tx_commit api h2 = (0, h3)" "storable (accd_iid info) (accd_value info)"
    "api_tx_begin api h3 = (0, h4)"
  shows "api_get_instance_info api h4 (accd_iid info) = Some info"
  using read_in_tx [OF assms(5,4)] commit_store [OF assms(1-4)] by simp

end

text \<open>A storage on which no transaction that stores one record fails.\<close>

definition never_fails :: "'h stable_storage_api \<Rightarrow> bool" where
  "never_fails api \<longleftrightarrow> (\<forall>h. fst (api_tx_begin api h) = 0)
     \<and> (\<forall>h info. let (rc, h2) = api_store_instance_info api (snd (api_tx_begin api h)) info
          in rc = 0 \<and> fst (api_tx_commit api h2) = 0)"

lemma never_failsE:
  assumes "never_fails api"
  obtains h1 where "api_tx_begin api h = (0, h1)"
    "\<And>info. \<exists>h2 h3. api_store_instance_info api h1 info = (0, h2) \<and> api_tx_commit api h2 = (0, h3)"
proof -
  obtain h1 where h1: "api_tx_begin api h = (0, h1)" using assms by (metis never_fails_def prod.collapse)
  have "\<exists>h2 h3. api_store_instance_info api h1 info = (0, h2) \<and> api_tx_commit api h2 = (0, h3)" for info
    using assms h1 unfolding never_fails_def Let_def
    by (metis (mono_tags, lifting) case_prod_unfold prod.collapse snd_conv)
  with h1 show thesis by (rule that)
qed

section \<open>\<open>stable_storage_but_not_really.c\<close>\<close>

record stable_storage_but_not_really =
  ms_trim_iid :: iid_t
  ms_records :: "iid_t \<rightharpoonup> paxos_accepted"
  ms_id :: u32

definition mem_storage_new :: "u32 \<Rightarrow> stable_storage_but_not_really" where
  "mem_storage_new acceptor_id = \<lparr>ms_trim_iid = 0, ms_records = Map.empty, ms_id = acceptor_id\<rparr>"

definition mem_storage_open ::
    "stable_storage_but_not_really \<Rightarrow> int \<times> stable_storage_but_not_really" where
  "mem_storage_open s = (0, s)"

definition mem_storage_tx_begin ::
    "stable_storage_but_not_really \<Rightarrow> int \<times> stable_storage_but_not_really" where
  "mem_storage_tx_begin s = (0, s)"

definition mem_storage_tx_commit ::
    "stable_storage_but_not_really \<Rightarrow> int \<times> stable_storage_but_not_really" where
  "mem_storage_tx_commit s = (0, s)"

definition mem_storage_tx_abort :: "stable_storage_but_not_really \<Rightarrow> stable_storage_but_not_really" where
  "mem_storage_tx_abort s = s"

definition mem_storage_get :: "stable_storage_but_not_really \<Rightarrow> iid_t \<Rightarrow> paxos_accepted option" where
  "mem_storage_get s i = ms_records s i"

definition mem_storage_put ::
    "stable_storage_but_not_really \<Rightarrow> paxos_accepted \<Rightarrow> int \<times> stable_storage_but_not_really" where
  "mem_storage_put s acc = (0, s\<lparr>ms_records := (ms_records s)(accd_iid acc \<mapsto> acc)\<rparr>)"

definition mem_storage_trim ::
    "stable_storage_but_not_really \<Rightarrow> iid_t \<Rightarrow> int \<times> stable_storage_but_not_really" where
  "mem_storage_trim s i =
     (0, s\<lparr>ms_records := (\<lambda>k. case ms_records s k of
              None \<Rightarrow> None | Some acc \<Rightarrow> if accd_iid acc \<le> i then None else Some acc),
           ms_trim_iid := i\<rparr>)"

definition mem_storage_get_trim_instance :: "stable_storage_but_not_really \<Rightarrow> iid_t option" where
  "mem_storage_get_trim_instance s = Some (ms_trim_iid s)"

text \<open>
  \<open>storage_init_mem\<close> leaves the pointers for listing all instances and for the highest instance
  unset; nothing that is modelled calls them on this storage.
\<close>

definition storage_init_mem :: "stable_storage_but_not_really stable_storage_api" where
  "storage_init_mem =
     \<lparr>api_open = mem_storage_open, api_tx_begin = mem_storage_tx_begin,
      api_tx_commit = mem_storage_tx_commit, api_tx_abort = mem_storage_tx_abort,
      api_get_instance_info = mem_storage_get, api_store_instance_info = mem_storage_put,
      api_get_trim_instance = mem_storage_get_trim_instance, api_store_trim_instance = mem_storage_trim,
      api_get_all_untrimmed_instances_info = (\<lambda>_. []), api_get_max_instance = (\<lambda>_. None)\<rparr>"

lemmas mem_storage_defs = storage_init_mem_def mem_storage_tx_begin_def mem_storage_tx_commit_def
  mem_storage_tx_abort_def mem_storage_get_def mem_storage_put_def mem_storage_open_def

interpretation mem: stable_store storage_init_mem "\<lambda>_ _. True" ms_records
  by unfold_locales (auto simp: mem_storage_defs)

lemma never_fails_mem [simp]: "never_fails storage_init_mem"
  by (simp add: never_fails_def mem_storage_defs)

end
