(* ===== verification/Synod_Spec.thy ===== *)
theory Synod_Spec
  imports Ballots
begin

text \<open>
  The abstract specification of a Paxos acceptor for one instance, and the contract \<open>synod_acceptor\<close>
  that an implementation of an acceptor has to meet.  The contract's lemmas are the two facts about
  acceptors on which the safety of Paxos rests; the acceptors of the repository interpret it.
\<close>

section \<open>One instance\<close>

text \<open>What an acceptor remembers of an instance: its promise and what it accepted last.\<close>

datatype synod = Synod (syn_promised: ballot) (syn_ballot: ballot) (syn_value: paxos_value)

inductive synod_step :: "synod \<Rightarrow> synod \<Rightarrow> bool" where
  stutter: "synod_step s s"
| promise: "p \<le> b \<Longrightarrow> synod_step (Synod p vb v) (Synod b vb v)"
| accept: "p \<le> b \<Longrightarrow> synod_step (Synod p vb v) (Synod b b w)"

inductive_cases synod_stepE: "synod_step s t"
inductive_simps synod_step_simps: "synod_step (Synod p vb v) (Synod p' vb' v')"

definition synod_ok :: "synod \<Rightarrow> bool" where
  "synod_ok s \<longleftrightarrow> syn_ballot s \<le> syn_promised s"

lemma synod_step_ok: "synod_step s t \<Longrightarrow> synod_ok s \<Longrightarrow> synod_ok t"
  by (induction rule: synod_step.induct) (auto simp: synod_ok_def)

lemma synod_step_promised_mono: "synod_step s t \<Longrightarrow> syn_promised s \<le> syn_promised t"
  by (induction rule: synod_step.induct) auto

lemma synod_step_ballot_mono: "synod_step s t \<Longrightarrow> synod_ok s \<Longrightarrow> syn_ballot s \<le> syn_ballot t"
  by (induction rule: synod_step.induct) (auto simp: synod_ok_def)

section \<open>The contract of an acceptor\<close>

text \<open>The requests that change an instance.\<close>

datatype acceptor_request = Prepare_Request paxos_prepare | Accept_Request paxos_accept

locale synod_acceptor =
  fixes handle :: "'a \<Rightarrow> 'm \<Rightarrow> 'a \<times> standard_paxos_message option"
    and view :: "'a \<Rightarrow> iid_t \<Rightarrow> synod"
    and invar :: "'a \<Rightarrow> bool"
  assumes invar_handle: "invar a \<Longrightarrow> invar (fst (handle a m))"
    and handle_step: "invar a \<Longrightarrow> synod_step (view a i) (view (fst (handle a m)) i)"
    and promise_reply: "invar a \<Longrightarrow> handle a m = (a', Some (PAXOS_PROMISE r)) \<Longrightarrow>
          syn_promised (view a' (prom_iid r)) = prom_ballot r
          \<and> prom_value_ballot r = syn_ballot (view a (prom_iid r))
          \<and> (INVALID_BALLOT < prom_value_ballot r \<longrightarrow> prom_value r = syn_value (view a (prom_iid r)))"
    and accepted_reply: "invar a \<Longrightarrow> handle a m = (a', Some (PAXOS_ACCEPTED ack)) \<Longrightarrow>
          accd_value_ballot ack = syn_ballot (view a' (accd_iid ack))
          \<and> accd_value_ballot ack = syn_promised (view a' (accd_iid ack))
          \<and> accd_value ack = syn_value (view a' (accd_iid ack))"
begin

abbreviation (input) run :: "'a \<Rightarrow> 'm list \<Rightarrow> 'a" where
  "run \<equiv> foldl (\<lambda>a m. fst (handle a m))"

lemma run_invar: "invar a \<Longrightarrow> invar (run a ms)"
  by (induction ms arbitrary: a) (simp_all add: invar_handle)

lemma run_promised_mono: "invar a \<Longrightarrow> syn_promised (view a i) \<le> syn_promised (view (run a ms) i)"
proof (induction ms arbitrary: a)
  case Nil
  then show ?case by simp
next
  case (Cons m ms)
  then show ?case
    using Cons.IH [OF invar_handle [OF Cons.prems, of m]]
      synod_step_promised_mono [OF handle_step [OF Cons.prems, of i m]]
    by simp
qed

lemma run_ok: "invar a \<Longrightarrow> synod_ok (view a i) \<Longrightarrow> synod_ok (view (run a ms) i)"
proof (induction ms arbitrary: a)
  case Nil
  then show ?case by simp
next
  case (Cons m ms)
  then show ?case
    using synod_step_ok [OF handle_step [OF Cons.prems(1)]] invar_handle by simp
qed

lemma run_ballot_mono:
  "invar a \<Longrightarrow> synod_ok (view a i) \<Longrightarrow> syn_ballot (view a i) \<le> syn_ballot (view (run a ms) i)"
proof (induction ms arbitrary: a)
  case Nil
  then show ?case by simp
next
  case (Cons m ms)
  let ?b = "fst (handle a m)"
  have "synod_step (view a i) (view ?b i)" using handle_step Cons.prems(1) .
  then have "synod_ok (view ?b i)" "syn_ballot (view a i) \<le> syn_ballot (view ?b i)"
    using Cons.prems(2) by (auto intro: synod_step_ok synod_step_ballot_mono)
  with Cons.IH [of ?b] Cons.prems(1) show ?case by (simp add: invar_handle)
qed

text \<open>
  The promise: once ballot \<open>b\<close> is promised, whatever the acceptor stores as newly accepted later has
  a ballot of at least \<open>b\<close>.
\<close>

lemma promise_kept:
  assumes "invar a" "b \<le> syn_promised (view a i)"
  shows "syn_ballot (view (run a ms) i) = syn_ballot (view a i) \<or> b \<le> syn_ballot (view (run a ms) i)"
  using assms
proof (induction ms arbitrary: a)
  case Nil
  then show ?case by simp
next
  case (Cons m ms)
  let ?b = "fst (handle a m)"
  have st: "synod_step (view a i) (view ?b i)" using handle_step Cons.prems(1) .
  then have "b \<le> syn_promised (view ?b i)"
    using synod_step_promised_mono Cons.prems(2) by (metis order.trans)
  with Cons.IH [of ?b] Cons.prems(1)
  have "syn_ballot (view (run ?b ms) i) = syn_ballot (view ?b i) \<or> b \<le> syn_ballot (view (run ?b ms) i)"
    by (simp add: invar_handle)
  moreover have "syn_ballot (view ?b i) = syn_ballot (view a i) \<or> b \<le> syn_ballot (view ?b i)"
    using st Cons.prems(2) by (auto elim!: synod_stepE)
  ultimately show ?case by auto
qed

text \<open>Seen from outside: after a promise of ballot \<open>b\<close> no value is acknowledged below \<open>b\<close>.\<close>

lemma no_ack_below_promise:
  assumes "invar a" "handle a m = (a1, Some (PAXOS_PROMISE r))"
    "handle (run a1 ms) m' = (a2, Some (PAXOS_ACCEPTED ack))" "accd_iid ack = prom_iid r"
  shows "prom_ballot r \<le> accd_value_ballot ack"
proof -
  let ?i = "prom_iid r"
  have inv: "invar a1" using invar_handle [OF assms(1), of m] assms(2) by simp
  have "prom_ballot r = syn_promised (view a1 ?i)" using promise_reply [OF assms(1,2)] by simp
  also have "\<dots> \<le> syn_promised (view (run a1 (ms @ [m'])) ?i)" using run_promised_mono [OF inv] .
  also have "\<dots> = accd_value_ballot ack"
    using accepted_reply [OF run_invar [OF inv] assms(3), THEN conjunct2, THEN conjunct1] assms(3,4) by simp
  finally show ?thesis .
qed

text \<open>A promise reports what was acknowledged before, or something newer.\<close>

lemma promise_reports_ack:
  assumes "invar a" "\<And>i. synod_ok (view a i)" "handle a m = (a1, Some (PAXOS_ACCEPTED ack))"
    "handle (run a1 ms) m' = (a2, Some (PAXOS_PROMISE r))" "prom_iid r = accd_iid ack"
  shows "accd_value_ballot ack \<le> prom_value_ballot r"
proof -
  let ?i = "accd_iid ack"
  have inv: "invar a1" using invar_handle [OF assms(1), of m] assms(3) by simp
  have ok: "synod_ok (view a1 ?i)"
    using synod_step_ok [OF handle_step [OF assms(1)] assms(2), of m ?i] assms(3) by simp
  have "accd_value_ballot ack = syn_ballot (view a1 ?i)" using accepted_reply [OF assms(1,3)] by simp
  also have "\<dots> \<le> syn_ballot (view (run a1 ms) ?i)" using run_ballot_mono [OF inv ok] .
  also have "\<dots> = prom_value_ballot r"
    using promise_reply [OF run_invar [OF inv] assms(4)] assms(5) by simp
  finally show ?thesis .
qed

end

end
