(* ===== verification/Standard_Acceptor.thy ===== *)
theory Standard_Acceptor
  imports Stable_Storage Synod_Spec
begin

text \<open>
  \<open>src/paxos/standard_acceptor.c\<close>: the acceptor of standard Paxos, which writes every promise and
  every acceptance to stable storage before it answers.  A handler returns the new acceptor, the
  message it leaves in \<open>out\<close> when its result is 1 (\<open>None\<close> when it is 0, nothing is sent then) and the
  \<open>preempted\<close> message for the proposer that held the promise before (\<open>None\<close> when
  \<open>was_prev_preempted\<close> stays false).
\<close>

section \<open>State and operations\<close>

record 'h standard_acceptor =
  sa_id :: u32
  sa_trim_iid :: iid_t
  sa_stable_storage :: 'h
  sa_paxos_storage :: hash_mapped_memory
  sa_max_proposed_instance :: iid_t

definition standard_acceptor_get_max_proposed_instance :: "'h standard_acceptor \<Rightarrow> iid_t" where
  "standard_acceptor_get_max_proposed_instance a = sa_max_proposed_instance a"

text \<open>
  \<open>None\<close> is the result \<open>NULL\<close>.  The handle is the one \<open>storage_init_lmdb_standard\<close> creates; when the
  trim instance cannot be read the C variable stays uninitialised, \<open>junk\<close> here.
\<close>

definition standard_acceptor_new ::
    "'h stable_storage_api \<Rightarrow> 'h \<Rightarrow> iid_t \<Rightarrow> u32 \<Rightarrow> 'h standard_acceptor option" where
  "standard_acceptor_new api h junk id' =
     (let (rc, h) = api_open api h in
      if rc \<noteq> 0 then None else
      let (rc, h) = api_tx_begin api h in
      if rc \<noteq> 0 then None else
      let trim_iid = (case api_get_trim_instance api h of None \<Rightarrow> junk | Some t \<Rightarrow> t);
          infos = api_get_all_untrimmed_instances_info api h;
          memory = new_hash_mapped_memory_from_instances_info infos trim_iid id';
          (rc, h) = api_tx_commit api h in
      if rc \<noteq> 0 then None else
      Some \<lparr>sa_id = id', sa_trim_iid = trim_iid, sa_stable_storage = h, sa_paxos_storage = memory,
            sa_max_proposed_instance = 0\<rparr>)"

definition standard_acceptor_is_instance_chosen :: "'h standard_acceptor \<Rightarrow> iid_t \<Rightarrow> bool" where
  "standard_acceptor_is_instance_chosen a i = hash_mapped_memory_is_instance_chosen (sa_paxos_storage a) i"

definition standard_acceptor_safe_to_acknowledge_paxos_request :: "bool \<Rightarrow> ballot \<Rightarrow> ballot \<Rightarrow> bool" where
  "standard_acceptor_safe_to_acknowledge_paxos_request previously_inited requested last_promised \<longleftrightarrow>
     \<not> previously_inited \<or> ballot_greater_than_or_equal requested last_promised"

definition preempted_of :: "u32 \<Rightarrow> iid_t \<Rightarrow> ballot \<Rightarrow> ballot \<Rightarrow> paxos_preempted option" where
  \<comment> \<open>the block that both handlers share: whose promise a granted request supersedes\<close>
  "preempted_of aid i requested promise_ballot =
     (if ballot_greater_than promise_ballot INVALID_BALLOT
      then Some \<lparr>pre_aid = aid, pre_iid = i, pre_attempted_ballot = promise_ballot,
                 pre_acceptor_current_ballot = requested\<rparr>
      else None)"

definition standard_acceptor_receive_prepare ::
    "'h stable_storage_api \<Rightarrow> 'h standard_acceptor \<Rightarrow> paxos_prepare \<Rightarrow>
       'h standard_acceptor \<times> standard_paxos_message option \<times> paxos_preempted option" where
  "standard_acceptor_receive_prepare api a req =
     (if prep_iid req \<le> sa_trim_iid a then (a, Some (PAXOS_TRIM \<lparr>trim_iid = sa_trim_iid a\<rparr>), None) else
      let instance_chosen = standard_acceptor_is_instance_chosen a (prep_iid req);
          (found, info) = hash_mapped_memory_get_instance_info (sa_paxos_storage a) (prep_iid req)
      in if instance_chosen then (a, Some (PAXOS_CHOSEN (paxos_chosen_from_paxos_accepted info)), None)
      else if standard_acceptor_safe_to_acknowledge_paxos_request found (prep_ballot req)
          (accd_promise_ballot info)
      then
        let a = a\<lparr>sa_max_proposed_instance :=
                    (if prep_iid req > sa_max_proposed_instance a then prep_iid req
                     else sa_max_proposed_instance a)\<rparr>;
            (rc, h) = api_tx_begin api (sa_stable_storage a);
            a = a\<lparr>sa_stable_storage := h\<rparr>
        in if rc \<noteq> 0 then (a, None, None) else
        let preempted = preempted_of (sa_id a) (prep_iid req) (prep_ballot req) (accd_promise_ballot info);
            info = info\<lparr>accd_aid := sa_id a, accd_iid := prep_iid req, accd_promise_ballot := prep_ballot req\<rparr>;
            (rc, h) = api_store_instance_info api (sa_stable_storage a) info
        in if rc \<noteq> 0 then (a\<lparr>sa_stable_storage := api_tx_abort api h\<rparr>, None, preempted) else
        let memory = hash_mapped_memory_store_instance_info (sa_paxos_storage a) info;
            (rc, h) = api_tx_commit api h;
            a = a\<lparr>sa_stable_storage := h, sa_paxos_storage := memory\<rparr>
        in if rc \<noteq> 0 then (a, None, preempted) else
           (a, Some (PAXOS_PROMISE
                 \<lparr>prom_aid = accd_aid info, prom_iid = accd_iid info, prom_ballot = accd_promise_ballot info,
                  prom_value_ballot = accd_value_ballot info,
                  prom_value = (if ballot_greater_than (accd_value_ballot info) INVALID_BALLOT
                                then accd_value info else [])\<rparr>), preempted)
      else (a, Some (union_paxos_prepare_and_last_acceptor_promise_to_preempted (sa_id a) req
                       (paxos_accepted_to_prepare info)), None))"

definition standard_acceptor_receive_accept ::
    "'h stable_storage_api \<Rightarrow> 'h standard_acceptor \<Rightarrow> paxos_accept \<Rightarrow>
       'h standard_acceptor \<times> standard_paxos_message option \<times> paxos_preempted option" where
  "standard_acceptor_receive_accept api a req =
     (if acc_iid req \<le> sa_trim_iid a then (a, Some (PAXOS_TRIM \<lparr>trim_iid = sa_trim_iid a\<rparr>), None) else
      let chosen = standard_acceptor_is_instance_chosen a (acc_iid req);
          (found, info) = hash_mapped_memory_get_instance_info (sa_paxos_storage a) (acc_iid req)
      in if chosen then (a, Some (PAXOS_CHOSEN (paxos_chosen_from_paxos_accepted info)), None)
      else if standard_acceptor_safe_to_acknowledge_paxos_request found (acc_ballot req)
          (accd_promise_ballot info)
      then
        let preempted = preempted_of (sa_id a) (acc_iid req) (acc_ballot req) (accd_promise_ballot info);
            a = a\<lparr>sa_max_proposed_instance :=
                    (if acc_iid req > sa_max_proposed_instance a then acc_iid req
                     else sa_max_proposed_instance a)\<rparr>;
            (rc, h) = api_tx_begin api (sa_stable_storage a);
            a = a\<lparr>sa_stable_storage := h\<rparr>
        in if rc \<noteq> 0 then (a, None, preempted) else
        let accepted = paxos_accept_to_accepted (sa_id a) req;
            (rc, h) = api_store_instance_info api (sa_stable_storage a) accepted
        in if rc \<noteq> 0 then (a\<lparr>sa_stable_storage := api_tx_abort api h\<rparr>, None, preempted) else
        let memory = hash_mapped_memory_store_instance_info (sa_paxos_storage a) accepted;
            (rc, h) = api_tx_commit api h;
            a = a\<lparr>sa_stable_storage := h, sa_paxos_storage := memory\<rparr>
        in if rc \<noteq> 0 then (a, None, preempted)
           else (a, Some (PAXOS_ACCEPTED accepted), preempted)
      else (a, Some (PAXOS_PREEMPTED
                 \<lparr>pre_aid = sa_id a, pre_iid = acc_iid req, pre_attempted_ballot = acc_ballot req,
                  pre_acceptor_current_ballot = accd_promise_ballot info\<rparr>), None))"

definition standard_acceptor_store_trim_instance ::
    "'h standard_acceptor \<Rightarrow> iid_t \<Rightarrow> 'h standard_acceptor" where
  "standard_acceptor_store_trim_instance a trim =
     a\<lparr>sa_trim_iid := trim,
       sa_paxos_storage := hash_mapped_memory_store_trim_instance (sa_paxos_storage a) trim\<rparr>"

text \<open>
  \<open>to_trim_from = trim->iid - 50000\<close> is computed in \<open>uint32_t\<close> and only then widened to \<open>long\<close>: below
  50000 it wraps around to a huge instance.
\<close>

definition standard_acceptor_receive_trim ::
    "'h standard_acceptor \<Rightarrow> paxos_trim \<Rightarrow> 'h standard_acceptor \<times> int" where
  "standard_acceptor_receive_trim a trim =
     (let min_unchosen = hash_mapped_memory_get_min_unchosen_instace (sa_paxos_storage a);
          new_trim = trim_iid trim > sa_trim_iid a;
          able_to_trim = min_unchosen > trim_iid trim
      in if new_trim \<and> able_to_trim then
           let a = standard_acceptor_store_trim_instance a (trim_iid trim);
               to_trim_from = trim_iid trim - 50000;
               a = (if to_trim_from > INVALID_INSTANCE
                    then a\<lparr>sa_paxos_storage :=
                             hash_mapped_memory_trim_storage (sa_paxos_storage a) to_trim_from\<rparr>
                    else a)
           in (a, 1)
         else (a, 0))"

definition standard_acceptor_receive_chosen ::
    "'h standard_acceptor \<Rightarrow> paxos_chosen \<Rightarrow> 'h standard_acceptor" where
  "standard_acceptor_receive_chosen a chosen =
     (if hash_mapped_memory_is_instance_chosen (sa_paxos_storage a) (cho_iid chosen) then a else
      let a = a\<lparr>sa_paxos_storage := hash_mapped_memory_instance_chosen (sa_paxos_storage a) (cho_iid chosen),
                sa_max_proposed_instance :=
                  (if cho_iid chosen > sa_max_proposed_instance a then cho_iid chosen
                   else sa_max_proposed_instance a)\<rparr>;
          (found, info) = hash_mapped_memory_get_instance_info (sa_paxos_storage a) (cho_iid chosen);
          info = \<lparr>accd_aid = sa_id a, accd_iid = cho_iid chosen,
                  accd_promise_ballot = accd_promise_ballot info,
                  accd_value_ballot = cho_ballot chosen, accd_value = cho_value chosen\<rparr>;
          a = a\<lparr>sa_paxos_storage := hash_mapped_memory_store_instance_info (sa_paxos_storage a) info\<rparr>;
          min_unchosen = hash_mapped_memory_get_min_unchosen_instace (sa_paxos_storage a)
      in if min_unchosen > sa_trim_iid a
         then fst (standard_acceptor_receive_trim a \<lparr>trim_iid = min_unchosen - 1\<rparr>)
         else a)"

definition standard_acceptor_receive_repeat ::
    "'h standard_acceptor \<Rightarrow> iid_t \<Rightarrow> standard_paxos_message option" where
  "standard_acceptor_receive_repeat a i =
     (let (found, info) = hash_mapped_memory_get_instance_info (sa_paxos_storage a) i
      in if standard_acceptor_is_instance_chosen a i
         then Some (PAXOS_CHOSEN (paxos_chosen_from_paxos_accepted info))
         else if found \<and> ballot_greater_than (accd_value_ballot info) INVALID_BALLOT
         then Some (PAXOS_ACCEPTED (info\<lparr>accd_promise_ballot := accd_value_ballot info\<rparr>))
         else None)"

text \<open>\<open>standard_acceptor_get_current_state\<close> writes two of the three fields of the caller's struct.\<close>

definition standard_acceptor_get_current_state ::
    "'h standard_acceptor \<Rightarrow> paxos_standard_acceptor_state \<Rightarrow> paxos_standard_acceptor_state" where
  "standard_acceptor_get_current_state a state = state\<lparr>as_aid := sa_id a, as_trim_iid := sa_trim_iid a\<rparr>"

section \<open>What the handlers do to the tables\<close>

lemma safe_to_acknowledge_iff [simp]:
  "standard_acceptor_safe_to_acknowledge_paxos_request (INVALID_BALLOT < p) b p \<longleftrightarrow> p \<le> b"
  by (metis INVALID_BALLOT_le ballot_greater_than_or_equal_iff not_less order.trans
      standard_acceptor_safe_to_acknowledge_paxos_request_def)

definition standard_acceptor_view :: "'h standard_acceptor \<Rightarrow> iid_t \<Rightarrow> synod" where
  "standard_acceptor_view a i = Synod (promised (sa_paxos_storage a) i)
     (accepted_ballot (sa_paxos_storage a) i) (accepted_value (sa_paxos_storage a) i)"

definition standard_acceptor_wf :: "'h standard_acceptor \<Rightarrow> bool" where
  "standard_acceptor_wf a \<longleftrightarrow> memory_wf (sa_paxos_storage a)"

text \<open>
  The three outcomes of a request: nothing is stored; the promise or acceptance is stored in memory
  but the transaction did not commit, so that nothing is sent; or it is stored and acknowledged.
\<close>

lemma receive_prepare_cases:
  assumes "standard_acceptor_wf a" "standard_acceptor_receive_prepare api a req = (a', out, pre)"
  defines "m \<equiv> sa_paxos_storage a" and "i \<equiv> prep_iid req"
  defines "info \<equiv> \<lparr>accd_aid = sa_id a, accd_iid = i, accd_promise_ballot = prep_ballot req,
     accd_value_ballot = accepted_ballot m i, accd_value = accepted_value m i\<rparr>"
  obtains
    (same) "sa_paxos_storage a' = m" "\<And>r. out \<noteq> Some (PAXOS_PROMISE r)" "\<And>r. out \<noteq> Some (PAXOS_ACCEPTED r)"
  | (stored) "sa_paxos_storage a' = hash_mapped_memory_store_instance_info m info"
      "promised m i \<le> prep_ballot req" "out = None"
  | (acknowledged) h1 h2 h3 where "sa_paxos_storage a' = hash_mapped_memory_store_instance_info m info"
      "promised m i \<le> prep_ballot req"
      "out = Some (PAXOS_PROMISE \<lparr>prom_aid = sa_id a, prom_iid = i, prom_ballot = prep_ballot req,
         prom_value_ballot = accepted_ballot m i,
         prom_value = (if INVALID_BALLOT < accepted_ballot m i then accepted_value m i else INVALID_VALUE)\<rparr>)"
      "api_tx_begin api (sa_stable_storage a) = (0, h1)" "api_store_instance_info api h1 info = (0, h2)"
      "api_tx_commit api h2 = (0, h3)" "sa_stable_storage a' = h3"
  using assms(1,2)
  unfolding standard_acceptor_receive_prepare_def standard_acceptor_wf_def
  by (auto simp: Let_def get_instance_info_eq conv_simps m_def i_def info_def INVALID_VALUE_def
      split: if_splits prod.splits)

lemma receive_accept_cases:
  assumes "standard_acceptor_wf a" "standard_acceptor_receive_accept api a req = (a', out, pre)"
  defines "m \<equiv> sa_paxos_storage a" and "i \<equiv> acc_iid req"
  defines "info \<equiv> paxos_accept_to_accepted (sa_id a) req"
  obtains
    (same) "sa_paxos_storage a' = m" "\<And>r. out \<noteq> Some (PAXOS_PROMISE r)" "\<And>r. out \<noteq> Some (PAXOS_ACCEPTED r)"
  | (stored) "sa_paxos_storage a' = hash_mapped_memory_store_instance_info m info"
      "promised m i \<le> acc_ballot req" "out = None"
  | (acknowledged) h1 h2 h3 where "sa_paxos_storage a' = hash_mapped_memory_store_instance_info m info"
      "promised m i \<le> acc_ballot req" "out = Some (PAXOS_ACCEPTED info)"
      "api_tx_begin api (sa_stable_storage a) = (0, h1)" "api_store_instance_info api h1 info = (0, h2)"
      "api_tx_commit api h2 = (0, h3)" "sa_stable_storage a' = h3"
  using assms(1,2)
  unfolding standard_acceptor_receive_accept_def standard_acceptor_wf_def
  by (auto simp: Let_def get_instance_info_eq m_def i_def info_def split: if_splits prod.splits)

section \<open>The acceptor implements the abstract one\<close>

fun standard_acceptor_handle ::
    "'h stable_storage_api \<Rightarrow> 'h standard_acceptor \<Rightarrow> acceptor_request \<Rightarrow>
       'h standard_acceptor \<times> standard_paxos_message option" where
  "standard_acceptor_handle api a (Prepare_Request req) =
     (let (a, out, preempted) = standard_acceptor_receive_prepare api a req in (a, out))"
| "standard_acceptor_handle api a (Accept_Request req) =
     (let (a, out, preempted) = standard_acceptor_receive_accept api a req in (a, out))"

lemma standard_acceptor_handle_refines:
  assumes wf: "standard_acceptor_wf a" and h: "standard_acceptor_handle api a r = (a', out)"
  shows "standard_acceptor_wf a'"
    and "synod_step (standard_acceptor_view a i) (standard_acceptor_view a' i)"
proof -
  have "standard_acceptor_wf a' \<and> synod_step (standard_acceptor_view a i) (standard_acceptor_view a' i)"
  proof (cases r)
    case (Prepare_Request req)
    with h obtain pre where "standard_acceptor_receive_prepare api a req = (a', out, pre)"
      by (auto split: prod.splits)
    from wf this show ?thesis
      by (rule receive_prepare_cases)
        (use wf in \<open>auto simp: standard_acceptor_view_def standard_acceptor_wf_def store_simps
          intro: synod_step.intros\<close>)
  next
    case (Accept_Request req)
    with h obtain pre where "standard_acceptor_receive_accept api a req = (a', out, pre)"
      by (auto split: prod.splits)
    from wf this show ?thesis
      by (rule receive_accept_cases)
        (use wf in \<open>auto simp: standard_acceptor_view_def standard_acceptor_wf_def store_simps
          conv_simps intro: synod_step.intros\<close>)
  qed
  then show "standard_acceptor_wf a'"
    and "synod_step (standard_acceptor_view a i) (standard_acceptor_view a' i)" by auto
qed

lemma standard_acceptor_handle_promise:
  assumes wf: "standard_acceptor_wf a"
    and h: "standard_acceptor_handle api a r = (a', Some (PAXOS_PROMISE p))"
  shows "syn_promised (standard_acceptor_view a' (prom_iid p)) = prom_ballot p
     \<and> prom_value_ballot p = syn_ballot (standard_acceptor_view a (prom_iid p))
     \<and> (INVALID_BALLOT < prom_value_ballot p
           \<longrightarrow> prom_value p = syn_value (standard_acceptor_view a (prom_iid p)))"
proof (cases r)
  case (Prepare_Request req)
  with h obtain pre where "standard_acceptor_receive_prepare api a req = (a', Some (PAXOS_PROMISE p), pre)"
    by (auto split: prod.splits)
  from wf this show ?thesis
    by (rule receive_prepare_cases) (auto simp: standard_acceptor_view_def store_simps)
next
  case (Accept_Request req)
  with h obtain pre where "standard_acceptor_receive_accept api a req = (a', Some (PAXOS_PROMISE p), pre)"
    by (auto split: prod.splits)
  from wf this show ?thesis by (rule receive_accept_cases) auto
qed

lemma standard_acceptor_handle_accepted:
  assumes wf: "standard_acceptor_wf a"
    and h: "standard_acceptor_handle api a r = (a', Some (PAXOS_ACCEPTED ack))"
  shows "accd_value_ballot ack = syn_ballot (standard_acceptor_view a' (accd_iid ack))
     \<and> accd_value_ballot ack = syn_promised (standard_acceptor_view a' (accd_iid ack))
     \<and> accd_value ack = syn_value (standard_acceptor_view a' (accd_iid ack))"
proof (cases r)
  case (Prepare_Request req)
  with h obtain pre where "standard_acceptor_receive_prepare api a req = (a', Some (PAXOS_ACCEPTED ack), pre)"
    by (auto split: prod.splits)
  from wf this show ?thesis by (rule receive_prepare_cases) auto
next
  case (Accept_Request req)
  with h obtain pre where "standard_acceptor_receive_accept api a req = (a', Some (PAXOS_ACCEPTED ack), pre)"
    by (auto split: prod.splits)
  from wf this show ?thesis
    by (rule receive_accept_cases) (auto simp: standard_acceptor_view_def store_simps conv_simps)
qed

interpretation std: synod_acceptor "standard_acceptor_handle api" standard_acceptor_view standard_acceptor_wf
  for api :: "'h stable_storage_api"
proof unfold_locales
  fix a :: "'h standard_acceptor" and m i a' r ack
  assume wf: "standard_acceptor_wf a"
  show "standard_acceptor_wf (fst (standard_acceptor_handle api a m))"
    using standard_acceptor_handle_refines(1) [OF wf surjective_pairing] .
  show "synod_step (standard_acceptor_view a i) (standard_acceptor_view (fst (standard_acceptor_handle api a m)) i)"
    using standard_acceptor_handle_refines(2) [OF wf surjective_pairing] .
qed (fact standard_acceptor_handle_promise standard_acceptor_handle_accepted)+

definition standard_acceptor_run ::
    "'h stable_storage_api \<Rightarrow> 'h standard_acceptor \<Rightarrow> acceptor_request list \<Rightarrow> 'h standard_acceptor" where
  "standard_acceptor_run api a rs = foldl (\<lambda>a r. fst (standard_acceptor_handle api a r)) a rs"

text \<open>An acceptor that has just been started on an empty storage, for the concrete examples.\<close>

definition fresh_standard_acceptor :: "stable_storage_but_not_really standard_acceptor" where
  "fresh_standard_acceptor =
     \<lparr>sa_id = 1, sa_trim_iid = 0, sa_stable_storage = mem_storage_new 1,
      sa_paxos_storage = new_hash_mapped_memory 1, sa_max_proposed_instance = 0\<rparr>"

lemma fresh_standard_acceptor_wf [simp]: "standard_acceptor_wf fresh_standard_acceptor"
  by (simp add: standard_acceptor_wf_def fresh_standard_acceptor_def)

section \<open>Properties\<close>

text \<open>
  C2: Every request a standard acceptor handles is, in every instance, a step of the abstract
  acceptor: it leaves the instance alone, raises its promise, or accepts a value at a ballot at
  least as high as the promise and promises that ballot.  This holds whatever the stable storage
  answers, failed transactions included.
\<close>

theorem standard_acceptor_refines_synod:
  fixes api :: "'h stable_storage_api"
  assumes "standard_acceptor_wf a"
  shows "standard_acceptor_wf (fst (standard_acceptor_handle api a r))
    \<and> synod_step (standard_acceptor_view a i)
        (standard_acceptor_view (fst (standard_acceptor_handle api a r)) i)"
  using assms by (simp add: std.invar_handle std.handle_step)

theorem standard_acceptor_refines_synod_witness:
  "synod_step (standard_acceptor_view fresh_standard_acceptor 3)
     (standard_acceptor_view (fst (standard_acceptor_handle storage_init_mem fresh_standard_acceptor
        (Prepare_Request \<lparr>prep_iid = 3, prep_ballot = Ballot 2 1\<rparr>))) 3)"
  using standard_acceptor_refines_synod [OF fresh_standard_acceptor_wf] by blast

text \<open>
  C27: A promise binds: once a standard acceptor has answered a prepare with a promise, it never
  again acknowledges a value in that instance at a lower ballot, whatever prepares and accepts it
  receives in between and whichever transactions fail.
\<close>

theorem standard_acceptor_promise_binds:
  fixes api :: "'h stable_storage_api"
  assumes "standard_acceptor_wf a"
    and "standard_acceptor_handle api a r1 = (a1, Some (PAXOS_PROMISE p))"
    and "standard_acceptor_handle api (standard_acceptor_run api a1 rs) r2 = (a2, Some (PAXOS_ACCEPTED ack))"
    and "accd_iid ack = prom_iid p"
  shows "prom_ballot p \<le> accd_value_ballot ack"
  using std.no_ack_below_promise [OF assms(1,2), of rs r2 a2 ack] assms(3,4)
  by (simp add: standard_acceptor_run_def)

theorem standard_acceptor_promise_binds_witness:
  "\<exists>(p :: paxos_promise) (ack :: paxos_accepted). prom_ballot p = Ballot 2 1 \<and> prom_ballot p \<le> accd_value_ballot ack \<and> accd_value ack = [7]"
proof -
  let ?h = "standard_acceptor_handle storage_init_mem"
  let ?p = "Prepare_Request \<lparr>prep_iid = 3, prep_ballot = Ballot 2 1\<rparr>"
    and ?r = "Accept_Request \<lparr>acc_iid = 3, acc_ballot = Ballot 2 1, acc_value = [7]\<rparr>"
  let ?a1 = "fst (?h fresh_standard_acceptor ?p)"
  let ?promise = "\<lparr>prom_aid = 1, prom_iid = 3, prom_ballot = Ballot 2 1, prom_value_ballot = Ballot 0 0,
      prom_value = []\<rparr>"
    and ?ack = "\<lparr>accd_aid = 1, accd_iid = 3, accd_promise_ballot = Ballot 2 1,
      accd_value_ballot = Ballot 2 1, accd_value = [7]\<rparr>"
  have p: "?h fresh_standard_acceptor ?p = (?a1, Some (PAXOS_PROMISE ?promise))"
    by (rule prod_eqI) (simp, code_simp)
  have "?h ?a1 ?r = (fst (?h ?a1 ?r), Some (PAXOS_ACCEPTED ?ack))"
    by (rule prod_eqI) (simp, code_simp)
  then have "prom_ballot ?promise \<le> accd_value_ballot ?ack"
    using standard_acceptor_promise_binds [OF fresh_standard_acceptor_wf p, of "[]" ?r _ ?ack]
    by (simp add: standard_acceptor_run_def)
  then show ?thesis by (intro exI [of _ ?promise] exI [of _ ?ack]) simp
qed

text \<open>
  C37: Nothing is acknowledged before it is durable: when a standard acceptor sends an acknowledgement, its
  stable storage already holds exactly what it acknowledges; when it sends a promise, the storage already holds
  the record of that instance with the promised ballot and with the ballot and the value that the acceptor had
  accepted before, which are those that the promise reports if there are any.  The storage is any implementation
  of the transactional contract, the record one that it can hold.
\<close>

theorem standard_acceptor_replies_are_durable:
  fixes api :: "'h stable_storage_api"
  assumes "stable_store api storable durable" "standard_acceptor_wf a"
    and storable: "case r of Prepare_Request req \<Rightarrow> storable (prep_iid req) (accepted_value (sa_paxos_storage a) (prep_iid req))
        | Accept_Request req \<Rightarrow> storable (acc_iid req) (acc_value req)"
    and "standard_acceptor_handle api a r = (a', Some out)"
  shows "(case out of
       PAXOS_PROMISE p \<Rightarrow>
         (let v = accepted_value (sa_paxos_storage a) (prom_iid p) in
          durable (sa_stable_storage a') (prom_iid p) = Some \<lparr>accd_aid = sa_id a, accd_iid = prom_iid p,
            accd_promise_ballot = prom_ballot p, accd_value_ballot = prom_value_ballot p, accd_value = v\<rparr>
          \<and> prom_value_ballot p = accepted_ballot (sa_paxos_storage a) (prom_iid p)
          \<and> (INVALID_BALLOT < prom_value_ballot p \<longrightarrow> prom_value p = v))
     | PAXOS_ACCEPTED ack \<Rightarrow> durable (sa_stable_storage a') (accd_iid ack) = Some ack
     | _ \<Rightarrow> True)"
proof (cases r)
  case (Prepare_Request req)
  with assms(4) obtain pre where "standard_acceptor_receive_prepare api a req = (a', Some out, pre)"
    by (auto split: prod.splits)
  from assms(2) this show ?thesis
    by (rule receive_prepare_cases)
      (use storable Prepare_Request in \<open>auto split: standard_paxos_message.split
        simp: Let_def stable_store.commit_store [OF assms(1)]\<close>)
next
  case (Accept_Request req)
  with assms(4) obtain pre where "standard_acceptor_receive_accept api a req = (a', Some out, pre)"
    by (auto split: prod.splits)
  from assms(2) this show ?thesis
    by (rule receive_accept_cases)
      (use storable Accept_Request in \<open>auto split: standard_paxos_message.split
        simp: stable_store.commit_store [OF assms(1)] conv_simps\<close>)
qed

theorem standard_acceptor_replies_are_durable_witness:
  "let a = fst (standard_acceptor_handle storage_init_mem fresh_standard_acceptor
          (Accept_Request \<lparr>acc_iid = 3, acc_ballot = Ballot 2 1, acc_value = [7]\<rparr>));
       a' = fst (standard_acceptor_handle storage_init_mem a (Prepare_Request \<lparr>prep_iid = 3, prep_ballot = Ballot 4 2\<rparr>))
   in ms_records (sa_stable_storage a) 3
        = Some \<lparr>accd_aid = 1, accd_iid = 3, accd_promise_ballot = Ballot 2 1, accd_value_ballot = Ballot 2 1, accd_value = [7]\<rparr>
    \<and> ms_records (sa_stable_storage a') 3
        = Some \<lparr>accd_aid = 1, accd_iid = 3, accd_promise_ballot = Ballot 4 2, accd_value_ballot = Ballot 2 1, accd_value = [7]\<rparr>"
proof -
  let ?accept = "Accept_Request \<lparr>acc_iid = 3, acc_ballot = Ballot 2 1, acc_value = [7]\<rparr>"
    and ?prepare = "Prepare_Request \<lparr>prep_iid = 3, prep_ballot = Ballot 4 2\<rparr>"
  let ?h = "standard_acceptor_handle storage_init_mem fresh_standard_acceptor ?accept"
  let ?h' = "standard_acceptor_handle storage_init_mem (fst ?h) ?prepare"
  let ?ack = "\<lparr>accd_aid = 1, accd_iid = 3, accd_promise_ballot = Ballot 2 1, accd_value_ballot = Ballot 2 1, accd_value = [7]\<rparr>"
    and ?promise = "\<lparr>prom_aid = 1, prom_iid = 3, prom_ballot = Ballot 4 2, prom_value_ballot = Ballot 2 1, prom_value = [7]\<rparr>"
  have "?h = (fst ?h, Some (PAXOS_ACCEPTED ?ack))" by (rule prod_eqI) (simp, code_simp)
  from standard_acceptor_replies_are_durable [OF mem.stable_store_axioms fresh_standard_acceptor_wf _ this]
  have accepted: "ms_records (sa_stable_storage (fst ?h)) 3 = Some ?ack" by simp
  have wf: "standard_acceptor_wf (fst ?h)" by (rule std.invar_handle [OF fresh_standard_acceptor_wf])
  have kept: "accepted_value (sa_paxos_storage (fst ?h)) 3 = [7]" "sa_id (fst ?h) = 1" by code_simp+
  have "?h' = (fst ?h', Some (PAXOS_PROMISE ?promise))" by (rule prod_eqI) (simp, code_simp)
  from standard_acceptor_replies_are_durable [OF mem.stable_store_axioms wf _ this] accepted kept
  show ?thesis by (simp add: Let_def)
qed

text \<open>
  C6: A standard acceptor turns a prepare or an accept down exactly when it has promised a higher
  ballot: in an instance it has neither trimmed nor learned as chosen, the answer names the promise
  that stands in the way if and only if the requested ballot is below it, and then nothing changes.
\<close>

theorem standard_acceptor_preempts_lower_ballots:
  fixes api :: "'h stable_storage_api" and b :: ballot and v :: paxos_value
  assumes "standard_acceptor_wf a" "sa_trim_iid a < i" "\<not> standard_acceptor_is_instance_chosen a i"
  defines "p \<equiv> promised (sa_paxos_storage a) i"
  defines "preempted \<equiv> Some (PAXOS_PREEMPTED \<lparr>pre_aid = sa_id a, pre_iid = i, pre_attempted_ballot = b,
                               pre_acceptor_current_ballot = p\<rparr>)"
  defines "prepare \<equiv> standard_acceptor_handle api a (Prepare_Request \<lparr>prep_iid = i, prep_ballot = b\<rparr>)"
    and "accept \<equiv> standard_acceptor_handle api a (Accept_Request \<lparr>acc_iid = i, acc_ballot = b, acc_value = v\<rparr>)"
  shows "(snd prepare = preempted \<longleftrightarrow> b < p) \<and> (snd accept = preempted \<longleftrightarrow> b < p)
    \<and> (b < p \<longrightarrow> fst prepare = a \<and> fst accept = a)"
proof -
  have i: "\<not> i \<le> sa_trim_iid a" and wf: "memory_wf (sa_paxos_storage a)"
    using assms(1,2) by (simp_all add: standard_acceptor_wf_def)
  note defs = prepare_def accept_def preempted_def p_def standard_acceptor_receive_prepare_def
    standard_acceptor_receive_accept_def conv_simps Let_def
  show ?thesis
  proof (cases "b < p")
    case True
    then have "\<not> promised (sa_paxos_storage a) i \<le> b" by (simp add: p_def)
    then show ?thesis using i wf assms(3) True by (simp add: defs get_instance_info_eq)
  next
    case False
    then have "promised (sa_paxos_storage a) i \<le> b" by (simp add: p_def)
    then show ?thesis
      using i wf assms(3) False by (simp add: defs get_instance_info_eq split: prod.split)
  qed
qed

theorem standard_acceptor_preempts_lower_ballots_witness:
  "snd (standard_acceptor_handle storage_init_mem
      (fst (standard_acceptor_handle storage_init_mem fresh_standard_acceptor
         (Prepare_Request \<lparr>prep_iid = 3, prep_ballot = Ballot 2 1\<rparr>)))
      (Prepare_Request \<lparr>prep_iid = 3, prep_ballot = Ballot 1 2\<rparr>))
    = Some (PAXOS_PREEMPTED \<lparr>pre_aid = 1, pre_iid = 3, pre_attempted_ballot = Ballot 1 2,
        pre_acceptor_current_ballot = Ballot 2 1\<rparr>)"
proof -
  let ?a = "fst (standard_acceptor_handle storage_init_mem fresh_standard_acceptor
     (Prepare_Request \<lparr>prep_iid = 3, prep_ballot = Ballot 2 1\<rparr>))"
  have "standard_acceptor_wf ?a" by (rule std.invar_handle) simp
  moreover have "sa_trim_iid ?a < 3" by code_simp
  moreover have "\<not> standard_acceptor_is_instance_chosen ?a 3" by code_simp
  moreover have "promised (sa_paxos_storage ?a) 3 = Ballot 2 1" "sa_id ?a = 1" by code_simp+
  moreover have "Ballot 1 2 < Ballot 2 1" by code_simp
  ultimately show ?thesis
    using standard_acceptor_preempts_lower_ballots [of ?a 3 storage_init_mem "Ballot 1 2" "[]"] by simp
qed

section \<open>Trimming\<close>

lemma receive_trim_view:
  "standard_acceptor_view (fst (standard_acceptor_receive_trim a trim)) i =
     (if sa_trim_iid a < trim_iid trim \<and> trim_iid trim < hash_mapped_memory_get_min_unchosen_instace (sa_paxos_storage a)
         \<and> i < trim_iid trim - 50000
      then Synod INVALID_BALLOT INVALID_BALLOT INVALID_VALUE else standard_acceptor_view a i)"
  by (auto simp: standard_acceptor_receive_trim_def standard_acceptor_view_def store_simps Let_def
      standard_acceptor_store_trim_instance_def word_gt_0)

text \<open>
  Trimming, as intended: a trim to an instance from 50000 on leaves every instance from 50000
  below it on untouched, so that no promise for a live instance is lost, and it is only carried out
  for instances that are all known to be chosen.
\<close>

theorem trim_keeps_recent_instances:
  assumes "50000 \<le> trim_iid trim" "trim_iid trim - 50000 \<le> i"
  shows "standard_acceptor_view (fst (standard_acceptor_receive_trim a trim)) i = standard_acceptor_view a i
    \<and> (sa_trim_iid (fst (standard_acceptor_receive_trim a trim)) \<noteq> sa_trim_iid a \<longrightarrow>
         sa_trim_iid (fst (standard_acceptor_receive_trim a trim)) = trim_iid trim
         \<and> trim_iid trim < hash_mapped_memory_get_min_unchosen_instace (sa_paxos_storage a))"
proof (intro conjI)
  show "standard_acceptor_view (fst (standard_acceptor_receive_trim a trim)) i = standard_acceptor_view a i"
    using assms(2) by (simp add: receive_trim_view not_less [symmetric])
qed (simp add: standard_acceptor_receive_trim_def standard_acceptor_store_trim_instance_def Let_def)

theorem trim_keeps_recent_instances_witness:
  "standard_acceptor_view (fst (standard_acceptor_receive_trim fresh_standard_acceptor \<lparr>trim_iid = 60000\<rparr>)) 10000
     = standard_acceptor_view fresh_standard_acceptor 10000"
  using trim_keeps_recent_instances [of "\<lparr>trim_iid = 60000\<rparr>" 10000 fresh_standard_acceptor] by simp

text \<open>
  Trimming, as it is: below 50000 the subtraction wraps around, so that learning that the first
  instance was chosen makes a fresh standard acceptor forget every promise and every acceptance it
  holds in memory for instances below 4294917297, although they are neither chosen nor trimmed.
\<close>

theorem first_chosen_instance_wipes_memory:
  assumes "sa_trim_iid a = 0" "hm_min_chosen_instance (sa_paxos_storage a) = 0"
    and "hm_chosen (sa_paxos_storage a) = Map.empty" "i < 4294917297"
  shows "standard_acceptor_view
       (standard_acceptor_receive_chosen a \<lparr>cho_iid = 1, cho_ballot = b, cho_value = v\<rparr>) i
     = Synod INVALID_BALLOT INVALID_BALLOT INVALID_VALUE"
proof -
  let ?m = "hash_mapped_memory_instance_chosen (sa_paxos_storage a) 1"
  have "hm_min_chosen_instance ?m = 1"
    using assms(2,3)
    by (simp add: hash_mapped_memory_instance_chosen_def advance_min_chosen.simps Let_def)
  moreover have "(- 49999 :: u32) = 4294917297" by simp
  then have "i < - 49999" using assms(4) by (simp only:)
  ultimately show ?thesis
    using assms(1-3)
    by (simp add: standard_acceptor_receive_chosen_def receive_trim_view frame_simps Let_def
        hash_mapped_memory_is_instance_chosen_def hash_mapped_memory_get_min_unchosen_instace_def
        split: prod.split)
qed

theorem first_chosen_instance_wipes_memory_witness:
  "syn_promised (standard_acceptor_view
      (fst (standard_acceptor_handle storage_init_mem fresh_standard_acceptor
         (Prepare_Request \<lparr>prep_iid = 7, prep_ballot = Ballot 2 1\<rparr>))) 7) = Ballot 2 1
   \<and> syn_promised (standard_acceptor_view (standard_acceptor_receive_chosen
      (fst (standard_acceptor_handle storage_init_mem fresh_standard_acceptor
         (Prepare_Request \<lparr>prep_iid = 7, prep_ballot = Ballot 2 1\<rparr>)))
      \<lparr>cho_iid = 1, cho_ballot = Ballot 1 1, cho_value = [5]\<rparr>) 7) = Ballot 0 0"
proof -
  let ?a = "fst (standard_acceptor_handle storage_init_mem fresh_standard_acceptor
     (Prepare_Request \<lparr>prep_iid = 7, prep_ballot = Ballot 2 1\<rparr>))"
  have "syn_promised (standard_acceptor_view ?a 7) = Ballot 2 1" by code_simp
  moreover have "sa_trim_iid ?a = 0" "hm_min_chosen_instance (sa_paxos_storage ?a) = 0" by code_simp+
  moreover have "hm_chosen (sa_paxos_storage ?a) = Map.empty"
    by (simp add: standard_acceptor_receive_prepare_def fresh_standard_acceptor_def mem_storage_defs Let_def
        get_instance_info_eq memory_defs new_hash_mapped_memory_def split: prod.split)
  ultimately show ?thesis
    using first_chosen_instance_wipes_memory [of ?a 7] by (simp add: INVALID_BALLOT_def)
qed

section \<open>Chosen instances\<close>

lemma receive_trim_keeps:
  "sa_trim_iid (fst (standard_acceptor_receive_trim a trim)) = sa_trim_iid a
      \<or> sa_trim_iid (fst (standard_acceptor_receive_trim a trim)) - 50000 \<le> i \<Longrightarrow>
   hash_mapped_memory_get_instance_info (sa_paxos_storage (fst (standard_acceptor_receive_trim a trim))) i
      = hash_mapped_memory_get_instance_info (sa_paxos_storage a) i
   \<and> standard_acceptor_is_instance_chosen (fst (standard_acceptor_receive_trim a trim)) i
      = standard_acceptor_is_instance_chosen a i"
  by (auto simp: standard_acceptor_receive_trim_def standard_acceptor_store_trim_instance_def Let_def
      standard_acceptor_is_instance_chosen_def memory_defs drop_below_def split: if_splits)

text \<open>
  What a standard acceptor learns to be chosen it reports: after it has handled a chosen message
  for an instance it did not know to be chosen, a repeat request for that instance is answered with
  exactly that message, provided the trim that the message triggers does not reach the instance.
\<close>

theorem chosen_instance_is_repeated:
  assumes "standard_acceptor_wf a" "\<not> standard_acceptor_is_instance_chosen a (cho_iid c)"
  defines "a' \<equiv> standard_acceptor_receive_chosen a c"
  assumes "sa_trim_iid a' = sa_trim_iid a \<or> sa_trim_iid a' - 50000 \<le> cho_iid c"
  shows "standard_acceptor_receive_repeat a' (cho_iid c) = Some (PAXOS_CHOSEN c)"
proof -
  let ?m = "hash_mapped_memory_instance_chosen (sa_paxos_storage a) (cho_iid c)"
  let ?b = "a\<lparr>sa_max_proposed_instance := (if cho_iid c > sa_max_proposed_instance a then cho_iid c
                                    else sa_max_proposed_instance a),
       sa_paxos_storage := hash_mapped_memory_store_instance_info ?m
        \<lparr>accd_aid = sa_id a, accd_iid = cho_iid c,
         accd_promise_ballot = promised (sa_paxos_storage a) (cho_iid c),
         accd_value_ballot = cho_ballot c, accd_value = cho_value c\<rparr>\<rparr>"
  have wf: "memory_wf ?m" using assms(1) by (simp add: standard_acceptor_wf_def)
  have "\<exists>P t. a' = (if P then fst (standard_acceptor_receive_trim ?b t) else ?b)"
    using assms(2) wf
    by (simp add: a'_def standard_acceptor_receive_chosen_def standard_acceptor_is_instance_chosen_def
        get_instance_info_eq store_simps Let_def cong: if_cong) blast
  then have a': "a' = ?b \<or> (\<exists>t. a' = fst (standard_acceptor_receive_trim ?b t))" by metis
  have b: "standard_acceptor_receive_repeat ?b (cho_iid c) = Some (PAXOS_CHOSEN c)"
    using wf by (simp add: standard_acceptor_receive_repeat_def get_instance_info_eq
        standard_acceptor_is_instance_chosen_def store_simps conv_simps)
  show ?thesis
  proof (rule disjE [OF a'])
    assume "\<exists>t. a' = fst (standard_acceptor_receive_trim ?b t)"
    then obtain t where t: "a' = fst (standard_acceptor_receive_trim ?b t)" ..
    have "sa_trim_iid a' = sa_trim_iid ?b \<or> sa_trim_iid a' - 50000 \<le> cho_iid c" using assms(4) by simp
    from receive_trim_keeps [OF this [unfolded t]] b show ?thesis
      unfolding standard_acceptor_receive_repeat_def t by simp
  qed (simp only: b)
qed

theorem chosen_instance_is_repeated_witness:
  "standard_acceptor_receive_repeat
     (standard_acceptor_receive_chosen fresh_standard_acceptor
        \<lparr>cho_iid = 2, cho_ballot = Ballot 1 1, cho_value = [5]\<rparr>) 2
   = Some (PAXOS_CHOSEN \<lparr>cho_iid = 2, cho_ballot = Ballot 1 1, cho_value = [5]\<rparr>)"
proof -
  let ?c = "\<lparr>cho_iid = 2, cho_ballot = Ballot 1 1, cho_value = [5]\<rparr>"
  have "\<not> standard_acceptor_is_instance_chosen fresh_standard_acceptor 2" by code_simp
  moreover have "sa_trim_iid (standard_acceptor_receive_chosen fresh_standard_acceptor ?c)
      = sa_trim_iid fresh_standard_acceptor" by code_simp
  ultimately show ?thesis
    using chosen_instance_is_repeated [OF fresh_standard_acceptor_wf, of ?c] by simp
qed

end
