(* ===== verification/Writeahead_Acceptor.thy ===== *)
theory Writeahead_Acceptor
  imports Stable_Storage Synod_Spec
begin

text \<open>
  \<open>src/paxos/writeahead_ballot_acceptor.c\<close>: the acceptor that promises ahead.  It answers from its
  volatile storage and keeps in stable storage a promise for a window of future ballots, so that most
  prepares need no write.  Stable storage is mirrored in memory by \<open>stable_storage_duplicate\<close>.  As for
  the standard acceptor, \<open>None\<close> in place of a message means that the handler returns 0.
\<close>

section \<open>State\<close>

record 'h writeahead_ballot_acceptor =
  wa_id :: u32
  wa_stable_storage :: 'h
  wa_trim_instance :: iid_t
  wa_volatile_storage :: hash_mapped_memory
  wa_stable_storage_duplicate :: hash_mapped_memory
  wa_min_ballot_catachup :: u32
  wa_ballot_window :: u32
  wa_instance_window :: u32
  wa_instances_to_begin_new_ballot_epoch :: "iid_t list"
  wa_last_instance_responded_to :: iid_t
  wa_updating_instance_epoch :: bool
  wa_last_instance_epoch_end :: iid_t
  wa_last_iteration_end :: iid_t
  wa_instance_epoch_iteration_size :: iid_t
  wa_new_epoch_end :: iid_t

definition get_min_usable_instance :: "'h writeahead_ballot_acceptor \<Rightarrow> iid_t" where
  "get_min_usable_instance a = wa_trim_instance a + 1"

definition write_ahead_ballot_acceptor_get_trim :: "'h writeahead_ballot_acceptor \<Rightarrow> iid_t" where
  "write_ahead_ballot_acceptor_get_trim a = wa_trim_instance a"

section \<open>Writing to the storages\<close>

definition write_ahead_window_acceptor_store_in_stable_storage ::
    "'h stable_storage_api \<Rightarrow> 'h writeahead_ballot_acceptor \<Rightarrow> paxos_accepted \<Rightarrow>
       int \<times> 'h writeahead_ballot_acceptor" where
  "write_ahead_window_acceptor_store_in_stable_storage api a info =
     (let (success, h) = api_store_instance_info api (wa_stable_storage a) info
      in (success, a\<lparr>wa_stable_storage := h,
            wa_stable_storage_duplicate :=
              hash_mapped_memory_store_instance_info (wa_stable_storage_duplicate a) info\<rparr>))"

definition write_ahead_window_acceptor_store_in_all_storages ::
    "'h stable_storage_api \<Rightarrow> 'h writeahead_ballot_acceptor \<Rightarrow> paxos_accepted \<Rightarrow>
       int \<times> 'h writeahead_ballot_acceptor" where
  "write_ahead_window_acceptor_store_in_all_storages api a info =
     (let (success, a) = write_ahead_window_acceptor_store_in_stable_storage api a info
      in (success, a\<lparr>wa_volatile_storage :=
            hash_mapped_memory_store_instance_info (wa_volatile_storage a) info\<rparr>))"

definition write_ahead_window_acceptor_store_trim ::
    "'h stable_storage_api \<Rightarrow> 'h writeahead_ballot_acceptor \<Rightarrow> iid_t \<Rightarrow> 'h writeahead_ballot_acceptor" where
  "write_ahead_window_acceptor_store_trim api a trim =
     (let h = snd (api_store_trim_instance api (wa_stable_storage a) trim)
      in a\<lparr>wa_trim_instance := trim, wa_stable_storage := h,
           wa_stable_storage_duplicate :=
             hash_mapped_memory_store_trim_instance (wa_stable_storage_duplicate a) trim,
           wa_volatile_storage := hash_mapped_memory_store_trim_instance (wa_volatile_storage a) trim\<rparr>)"

definition write_ahead_window_acceptor_store_prepare_in_volatile_storage ::
    "'h writeahead_ballot_acceptor \<Rightarrow> paxos_prepare \<Rightarrow> 'h writeahead_ballot_acceptor" where
  "write_ahead_window_acceptor_store_prepare_in_volatile_storage a prepare =
     a\<lparr>wa_volatile_storage := hash_mapped_memory_store_last_promise (wa_volatile_storage a) prepare\<rparr>"

text \<open>The record a handler starts from: zeroed memory, overwritten when the storage has the instance.\<close>

definition stable_info_or_zero ::
    "'h stable_storage_api \<Rightarrow> 'h \<Rightarrow> iid_t \<Rightarrow> paxos_accepted" where
  "stable_info_or_zero api h i =
     (case api_get_instance_info api h i of
        Some info \<Rightarrow> info
      | None \<Rightarrow> \<lparr>accd_aid = 0, accd_iid = i, accd_promise_ballot = Ballot 0 0,
                 accd_value_ballot = Ballot 0 0, accd_value = []\<rparr>)"

definition write_ahead_window_acceptor_new_ballot_epoch_from_ballot_number ::
    "'h stable_storage_api \<Rightarrow> 'h writeahead_ballot_acceptor \<Rightarrow> iid_t \<Rightarrow> u32 \<Rightarrow>
       'h writeahead_ballot_acceptor" where
  "write_ahead_window_acceptor_new_ballot_epoch_from_ballot_number api a i number =
     (let info = stable_info_or_zero api (wa_stable_storage a) i;
          info = info\<lparr>accd_promise_ballot := Ballot (number + wa_ballot_window a) UINT32_MAX\<rparr>
      in snd (write_ahead_window_acceptor_store_in_stable_storage api a info))"

definition write_ahead_window_acceptor_new_ballot_epoch_from_last_epoch ::
    "'h stable_storage_api \<Rightarrow> 'h writeahead_ballot_acceptor \<Rightarrow> iid_t \<Rightarrow> 'h writeahead_ballot_acceptor" where
  "write_ahead_window_acceptor_new_ballot_epoch_from_last_epoch api a i =
     (let info = stable_info_or_zero api (wa_stable_storage a) i;
          info = info\<lparr>accd_promise_ballot :=
            Ballot (ballot_number (accd_promise_ballot info) + wa_ballot_window a) UINT32_MAX\<rparr>
      in snd (write_ahead_window_acceptor_store_in_stable_storage api a info))"

definition update_flagged_ballot_windows ::
    "'h stable_storage_api \<Rightarrow> 'h writeahead_ballot_acceptor \<Rightarrow> 'h writeahead_ballot_acceptor" where
  "update_flagged_ballot_windows api a =
     (let a = foldl (\<lambda>a current_instance.
            let volatile_promise = snd (hash_mapped_memory_get_last_promise (wa_volatile_storage a) current_instance)
            in write_ahead_window_acceptor_new_ballot_epoch_from_ballot_number api a current_instance
                 (ballot_number (prep_ballot volatile_promise))) a (wa_instances_to_begin_new_ballot_epoch a)
      in a\<lparr>wa_instances_to_begin_new_ballot_epoch := []\<rparr>)"

definition write_ahead_acceptor_check_ballot_window :: "'h writeahead_ballot_acceptor \<Rightarrow> bool" where
  "write_ahead_acceptor_check_ballot_window a \<longleftrightarrow> length (wa_instances_to_begin_new_ballot_epoch a) > 0"

definition write_ahead_acceptor_write_ballot_window ::
    "'h stable_storage_api \<Rightarrow> 'h writeahead_ballot_acceptor \<Rightarrow> 'h writeahead_ballot_acceptor" where
  "write_ahead_acceptor_write_ballot_window api a = update_flagged_ballot_windows api a"

text \<open>
  The two loops over instances do not end when their bound is \<open>UINT32_MAX\<close>; that is the value \<open>None\<close>.
  \<open>junk\<close> is the content of the uninitialised variable when the storage does not return a maximum.
\<close>

definition write_ahead_window_acceptor_on_recovery_new_epochs ::
    "'h stable_storage_api \<Rightarrow> iid_t \<Rightarrow> 'h writeahead_ballot_acceptor \<Rightarrow>
       'h writeahead_ballot_acceptor option" where
  "write_ahead_window_acceptor_on_recovery_new_epochs api junk a =
     (let max_inited_instance = (case api_get_max_instance api (wa_stable_storage a) of Some i \<Rightarrow> i | None \<Rightarrow> junk);
          i = get_min_usable_instance a;
          last = max_inited_instance + wa_instance_window a
      in if last = UINT32_MAX then None
         else let a = foldl (write_ahead_window_acceptor_new_ballot_epoch_from_last_epoch api) a (u32_upto i last)
              in Some (a\<lparr>wa_last_instance_epoch_end := (if i \<le> last then last else i - 1),
                         wa_updating_instance_epoch := False\<rparr>))"

definition write_ahead_window_acceptor_write_next_iteration_of_instance_epoch ::
    "'h stable_storage_api \<Rightarrow> 'h writeahead_ballot_acceptor \<Rightarrow> 'h writeahead_ballot_acceptor option" where
  "write_ahead_window_acceptor_write_next_iteration_of_instance_epoch api a =
     (let new_iteration_end = wa_last_iteration_end a + wa_instance_epoch_iteration_size a;
          new_iteration_end = (if new_iteration_end > wa_new_epoch_end a then wa_new_epoch_end a
                               else new_iteration_end)
      in if new_iteration_end = UINT32_MAX then None
         else let a = foldl (write_ahead_window_acceptor_new_ballot_epoch_from_last_epoch api) a
                        (u32_upto (wa_last_iteration_end a + 1) new_iteration_end)
              in Some (a\<lparr>wa_last_iteration_end := new_iteration_end\<rparr>))"

section \<open>Creation\<close>

text \<open>
  The loop of \<open>write_ahead_window_acceptor_new\<close> that reads every instance again only feeds assertions
  that are commented out; it writes nothing and is left out.
\<close>

definition write_ahead_window_acceptor_new ::
    "'h stable_storage_api \<Rightarrow> 'h \<Rightarrow> iid_t \<Rightarrow> u32 \<Rightarrow> u32 \<Rightarrow> u32 \<Rightarrow>
       'h writeahead_ballot_acceptor option" where
  "write_ahead_window_acceptor_new api h junk id' min_ballot_catchup bal_window =
     (let (rc, h) = api_open api h in
      if rc \<noteq> 0 then None else
      let h = snd (api_tx_begin api h);
          infos = api_get_all_untrimmed_instances_info api h;
          trim_id = (case api_get_trim_instance api h of Some t \<Rightarrow> t | None \<Rightarrow> 0);
          h = snd (api_tx_commit api h);
          memory = new_hash_mapped_memory_from_instances_info infos trim_id id';
          h = snd (api_tx_begin api h);
          a = \<lparr>wa_id = id', wa_stable_storage = h, wa_trim_instance = trim_id,
               wa_volatile_storage = memory, wa_stable_storage_duplicate = memory,
               wa_min_ballot_catachup = min_ballot_catchup, wa_ballot_window = bal_window,
               wa_instance_window = 0, wa_instances_to_begin_new_ballot_epoch = [],
               wa_last_instance_responded_to = 0, wa_updating_instance_epoch = False,
               wa_last_instance_epoch_end = 0, wa_last_iteration_end = 0,
               wa_instance_epoch_iteration_size = 0, wa_new_epoch_end = 0\<rparr>
      in case write_ahead_window_acceptor_on_recovery_new_epochs api junk a of
           None \<Rightarrow> None
         | Some a \<Rightarrow> Some (a\<lparr>wa_stable_storage := snd (api_tx_commit api (wa_stable_storage a))\<rparr>))"

definition write_ahead_window_acceptor_get_current_state ::
    "'h writeahead_ballot_acceptor \<Rightarrow> paxos_standard_acceptor_state" where
  "write_ahead_window_acceptor_get_current_state a =
     \<lparr>as_aid = wa_id a, as_trim_iid = wa_trim_instance a,
      as_current_instance = hash_mapped_memory_get_last_inited_instance (wa_stable_storage_duplicate a)\<rparr>"

section \<open>Messages\<close>

definition write_ahead_window_acceptor_does_instance_ballot_window_need_adjusting ::
    "u32 \<Rightarrow> u32 \<Rightarrow> u32 \<Rightarrow> bool" where
  "write_ahead_window_acceptor_does_instance_ballot_window_need_adjusting written_ahead min_window last_volatile \<longleftrightarrow>
     (written_ahead - last_volatile) < min_window"

definition instance_already_flagged :: "'h writeahead_ballot_acceptor \<Rightarrow> iid_t \<Rightarrow> bool" where
  "instance_already_flagged a i = list_ex (\<lambda>j. j = i) (wa_instances_to_begin_new_ballot_epoch a)"

definition write_ahead_window_acceptor_check_and_flag_instance_for_new_ballot_epoch ::
    "'h writeahead_ballot_acceptor \<Rightarrow> ballot \<Rightarrow> ballot \<Rightarrow> iid_t \<Rightarrow> 'h writeahead_ballot_acceptor" where
  "write_ahead_window_acceptor_check_and_flag_instance_for_new_ballot_epoch a last_promise last_stable_promise i =
     (if write_ahead_window_acceptor_does_instance_ballot_window_need_adjusting
           (ballot_number last_stable_promise) (wa_min_ballot_catachup a) (ballot_number last_promise)
         \<and> \<not> instance_already_flagged a i
      then a\<lparr>wa_instances_to_begin_new_ballot_epoch := wa_instances_to_begin_new_ballot_epoch a @ [i]\<rparr>
      else a)"

definition write_ahead_window_acceptor_receive_prepare ::
    "'h stable_storage_api \<Rightarrow> 'h writeahead_ballot_acceptor \<Rightarrow> paxos_prepare \<Rightarrow>
       'h writeahead_ballot_acceptor \<times> standard_paxos_message option" where
  "write_ahead_window_acceptor_receive_prepare api a req =
     (if prep_iid req \<le> wa_trim_instance a
      then (a, Some (PAXOS_TRIM \<lparr>trim_iid = wa_trim_instance a\<rparr>))
      else if \<not> hash_mapped_memory_is_instance_chosen (wa_volatile_storage a) (prep_iid req) then
        let (found, info) = hash_mapped_memory_get_instance_info (wa_volatile_storage a) (prep_iid req) in
        if \<not> found \<or> ballot_greater_than_or_equal (prep_ballot req) (accd_promise_ballot info) then
          let a = a\<lparr>wa_last_instance_responded_to := prep_iid req\<rparr>;
              last_stable_promise =
                snd (hash_mapped_memory_get_last_promise (wa_stable_storage_duplicate a) (prep_iid req));
              (proceed, a) =
                (if ballot_greater_than (prep_ballot req) (prep_ballot last_stable_promise) then
                   let (rc, h) = api_tx_begin api (wa_stable_storage a);
                       a = a\<lparr>wa_stable_storage := h\<rparr>
                   in if rc \<noteq> 0 then (False, a) else
                   let a = write_ahead_window_acceptor_new_ballot_epoch_from_ballot_number api a (prep_iid req)
                             (ballot_number (prep_ballot req));
                       (rc, h) = api_tx_commit api (wa_stable_storage a)
                   in (rc = 0, a\<lparr>wa_stable_storage := h\<rparr>)
                 else (True, write_ahead_window_acceptor_check_and_flag_instance_for_new_ballot_epoch a
                               (prep_ballot req) (prep_ballot last_stable_promise) (prep_iid req)))
          in if \<not> proceed then (a, None)
             else (write_ahead_window_acceptor_store_prepare_in_volatile_storage a req,
                   Some (PAXOS_PROMISE
                     \<lparr>prom_aid = wa_id a, prom_iid = prep_iid req, prom_ballot = prep_ballot req,
                      prom_value_ballot = accd_value_ballot info, prom_value = accd_value info\<rparr>))
        else (a, Some (PAXOS_PREEMPTED
                \<lparr>pre_aid = wa_id a, pre_iid = prep_iid req, pre_attempted_ballot = prep_ballot req,
                 pre_acceptor_current_ballot = accd_promise_ballot info\<rparr>))
      else
        let last_accept =
              snd (hash_mapped_memory_get_last_accepted (wa_stable_storage_duplicate a) (prep_iid req))
        in (a, Some (PAXOS_CHOSEN \<lparr>cho_iid = prep_iid req, cho_ballot = acc_ballot last_accept,
                                   cho_value = acc_value last_accept\<rparr>)))"

definition write_acceptance_to_storage ::
    "'h stable_storage_api \<Rightarrow> 'h writeahead_ballot_acceptor \<Rightarrow> paxos_accepted \<Rightarrow>
       int \<times> 'h writeahead_ballot_acceptor" where
  "write_acceptance_to_storage api a acceptance =
     (let last_stable_promise =
            snd (hash_mapped_memory_get_last_promise (wa_stable_storage_duplicate a) (accd_iid acceptance));
          to_store = acceptance\<lparr>accd_promise_ballot := prep_ballot last_stable_promise\<rparr>;
          (success, a) = write_ahead_window_acceptor_store_in_all_storages api a to_store
      in (success, write_ahead_window_acceptor_store_prepare_in_volatile_storage a
            \<lparr>prep_iid = accd_iid acceptance, prep_ballot = accd_value_ballot acceptance\<rparr>))"

definition write_ahead_window_acceptor_receive_accept ::
    "'h stable_storage_api \<Rightarrow> 'h writeahead_ballot_acceptor \<Rightarrow> paxos_accept \<Rightarrow>
       'h writeahead_ballot_acceptor \<times> standard_paxos_message option" where
  "write_ahead_window_acceptor_receive_accept api a request =
     (if acc_iid request \<le> wa_trim_instance a
      then (a, Some (PAXOS_TRIM \<lparr>trim_iid = wa_trim_instance a\<rparr>))
      else if \<not> hash_mapped_memory_is_instance_chosen (wa_volatile_storage a) (acc_iid request) then
        let (was_previous_promise, last_promise_made) =
              hash_mapped_memory_get_last_promise (wa_volatile_storage a) (acc_iid request) in
        if \<not> was_previous_promise
            \<or> ballot_greater_than_or_equal (acc_ballot request) (prep_ballot last_promise_made) then
          let a = a\<lparr>wa_last_instance_responded_to := acc_iid request\<rparr>;
              (rc, h) = api_tx_begin api (wa_stable_storage a);
              a = a\<lparr>wa_stable_storage := h\<rparr>
          in if rc \<noteq> 0 then (a, None) else
          let accepted = paxos_accept_to_accepted (wa_id a) request;
              (failed, a) = write_acceptance_to_storage api a accepted
          in if failed \<noteq> 0
             then (a\<lparr>wa_stable_storage := api_tx_abort api (wa_stable_storage a)\<rparr>, None)
             else let (rc, h) = api_tx_commit api (wa_stable_storage a);
                      a = a\<lparr>wa_stable_storage := h\<rparr>
                  in if rc \<noteq> 0 then (a, None) else (a, Some (PAXOS_ACCEPTED accepted))
        else (a, Some (paxos_accept_request_and_last_acceptor_promise_to_preempted (wa_id a) request
                         last_promise_made))
      else
        let last_accept = snd (hash_mapped_memory_get_last_accepted (wa_volatile_storage a) (acc_iid request))
        in (a, Some (PAXOS_CHOSEN (paxos_chosen_from_paxos_accept last_accept))))"

definition write_ahead_window_acceptor_receive_repeat ::
    "'h writeahead_ballot_acceptor \<Rightarrow> iid_t \<Rightarrow> standard_paxos_message option" where
  "write_ahead_window_acceptor_receive_repeat a i =
     (if hash_mapped_memory_is_instance_chosen (wa_volatile_storage a) i
      then Some (PAXOS_CHOSEN (paxos_chosen_from_paxos_accept
                   (snd (hash_mapped_memory_get_last_accepted (wa_volatile_storage a) i))))
      else let (found, info) = hash_mapped_memory_get_instance_info (wa_stable_storage_duplicate a) i;
               info = info\<lparr>accd_promise_ballot := accd_value_ballot info\<rparr>
           in if found \<and> length (accd_value info) > 0 then Some (PAXOS_ACCEPTED info) else None)"

text \<open>Here \<open>to_trim_from\<close> is an \<open>int\<close>: the wrapped difference is read as a signed number.\<close>

definition write_ahead_window_acceptor_receive_trim ::
    "'h stable_storage_api \<Rightarrow> 'h writeahead_ballot_acceptor \<Rightarrow> paxos_trim \<Rightarrow>
       'h writeahead_ballot_acceptor \<times> int" where
  "write_ahead_window_acceptor_receive_trim api a trim =
     (let min_unchosen = hash_mapped_memory_get_min_unchosen_instace (wa_stable_storage_duplicate a)
      in if trim_iid trim \<le> wa_trim_instance a \<and> trim_iid trim \<le> min_unchosen then (a, 0) else
      let (rc, h) = api_tx_begin api (wa_stable_storage a);
          a = a\<lparr>wa_stable_storage := h\<rparr>
      in if rc \<noteq> 0 then (a, 0) else
      let a = write_ahead_window_acceptor_store_trim api a (trim_iid trim);
          to_trim_from = sint (trim_iid trim - 10000);
          a = (if to_trim_from > 0
               then a\<lparr>wa_stable_storage :=
                        snd (api_store_trim_instance api (wa_stable_storage a) (trim_iid trim))\<rparr>
               else a);
          (rc, h) = api_tx_commit api (wa_stable_storage a);
          a = a\<lparr>wa_stable_storage := h\<rparr>
      in (a, if rc \<noteq> 0 then 0 else 1))"

definition write_ahead_ballot_acceptor_receive_chosen ::
    "'h stable_storage_api \<Rightarrow> 'h writeahead_ballot_acceptor \<Rightarrow> paxos_chosen \<Rightarrow>
       'h writeahead_ballot_acceptor" where
  "write_ahead_ballot_acceptor_receive_chosen api a chosen =
     (let info = snd (hash_mapped_memory_get_instance_info (wa_stable_storage_duplicate a) (cho_iid chosen));
          a = (if ballot_greater_than (cho_ballot chosen) (accd_value_ballot info) then
                 let info = paxos_accepted_update_instance_info_with_chosen info chosen 0;
                     h = snd (api_tx_begin api (wa_stable_storage a));
                     a = snd (write_ahead_window_acceptor_store_in_all_storages api
                                (a\<lparr>wa_stable_storage := h\<rparr>) info);
                     h = snd (api_tx_commit api (wa_stable_storage a))
                 in a\<lparr>wa_stable_storage := h\<rparr>
               else a)
      in a\<lparr>wa_volatile_storage := hash_mapped_memory_instance_chosen (wa_volatile_storage a) (cho_iid chosen)\<rparr>)"

section \<open>What the handlers do to the storages\<close>

lemmas wa_store_defs = write_ahead_window_acceptor_store_in_all_storages_def
  write_ahead_window_acceptor_store_in_stable_storage_def
  write_ahead_window_acceptor_store_prepare_in_volatile_storage_def
  write_ahead_window_acceptor_new_ballot_epoch_from_ballot_number_def
  write_ahead_window_acceptor_check_and_flag_instance_for_new_ballot_epoch_def

definition writeahead_view :: "'h writeahead_ballot_acceptor \<Rightarrow> iid_t \<Rightarrow> synod" where
  "writeahead_view a i = Synod (promised (wa_volatile_storage a) i)
     (accepted_ballot (wa_volatile_storage a) i) (accepted_value (wa_volatile_storage a) i)"

definition writeahead_wf :: "'h writeahead_ballot_acceptor \<Rightarrow> bool" where
  "writeahead_wf a \<longleftrightarrow> memory_wf (wa_volatile_storage a) \<and> memory_wf (wa_stable_storage_duplicate a)"

lemma get_last_promise_found:
  "\<not> fst (hash_mapped_memory_get_last_promise m i) \<Longrightarrow> promised m i = INVALID_BALLOT"
  "prep_ballot (snd (hash_mapped_memory_get_last_promise m i)) = promised m i"
  by (auto simp: promised_def memory_defs INVALID_BALLOT_def split: option.splits)

lemma not_found_le: "\<not> INVALID_BALLOT < p \<Longrightarrow> p \<le> (b :: ballot)"
  by (metis INVALID_BALLOT_le not_less order.trans)

lemma wa_receive_prepare_cases:
  assumes "writeahead_wf a" "write_ahead_window_acceptor_receive_prepare api a req = (a', out)"
  defines "m \<equiv> wa_volatile_storage a" and "i \<equiv> prep_iid req"
  obtains
    (same) "wa_volatile_storage a' = m" "\<And>r. out \<noteq> Some (PAXOS_PROMISE r)" "\<And>r. out \<noteq> Some (PAXOS_ACCEPTED r)"
  | (promise) "wa_volatile_storage a' = hash_mapped_memory_store_last_promise m req"
      "promised m i \<le> prep_ballot req"
      "out = Some (PAXOS_PROMISE \<lparr>prom_aid = wa_id a, prom_iid = i, prom_ballot = prep_ballot req,
         prom_value_ballot = accepted_ballot m i, prom_value = accepted_value m i\<rparr>)"
  using assms(1,2)
  unfolding write_ahead_window_acceptor_receive_prepare_def writeahead_wf_def
  by (auto simp: Let_def get_instance_info_eq m_def i_def not_found_le wa_store_defs
      split: if_splits prod.splits)

lemma wa_receive_accept_cases:
  assumes "writeahead_wf a" "write_ahead_window_acceptor_receive_accept api a req = (a', out)"
  defines "m \<equiv> wa_volatile_storage a" and "i \<equiv> acc_iid req"
  defines "info \<equiv> (paxos_accept_to_accepted (wa_id a) req)
      \<lparr>accd_promise_ballot := promised (wa_stable_storage_duplicate a) i\<rparr>"
  obtains
    (same) "wa_volatile_storage a' = m" "\<And>r. out \<noteq> Some (PAXOS_PROMISE r)" "\<And>r. out \<noteq> Some (PAXOS_ACCEPTED r)"
  | (accept) "wa_volatile_storage a' = hash_mapped_memory_store_last_promise
        (hash_mapped_memory_store_instance_info m info) \<lparr>prep_iid = i, prep_ballot = acc_ballot req\<rparr>"
      "promised m i \<le> acc_ballot req"
      "out = None \<or> out = Some (PAXOS_ACCEPTED (paxos_accept_to_accepted (wa_id a) req))"
proof -
  obtain f p where p: "hash_mapped_memory_get_last_promise m i = (f, p)" by (meson surj_pair)
  have "\<not> f \<Longrightarrow> promised m i = INVALID_BALLOT" "prep_ballot p = promised m i"
    using get_last_promise_found [of m i] by (simp_all add: p)
  then have le: "\<not> f \<or> prep_ballot p \<le> acc_ballot req \<Longrightarrow> promised m i \<le> acc_ballot req" by auto
  show thesis
    using assms(2) p le same accept
    unfolding write_ahead_window_acceptor_receive_accept_def m_def i_def info_def
    by (auto simp: Let_def get_last_promise_found conv_simps wa_store_defs write_acceptance_to_storage_def
        split: if_splits prod.splits)
qed

section \<open>The acceptor implements the abstract one\<close>

fun writeahead_handle ::
    "'h stable_storage_api \<Rightarrow> 'h writeahead_ballot_acceptor \<Rightarrow> acceptor_request \<Rightarrow>
       'h writeahead_ballot_acceptor \<times> standard_paxos_message option" where
  "writeahead_handle api a (Prepare_Request req) = write_ahead_window_acceptor_receive_prepare api a req"
| "writeahead_handle api a (Accept_Request req) = write_ahead_window_acceptor_receive_accept api a req"

lemma writeahead_duplicate_wf:
  assumes "writeahead_wf a"
  shows "memory_wf (wa_stable_storage_duplicate (fst (writeahead_handle api a r)))"
  using assms
  by (cases r) (auto simp: writeahead_wf_def write_ahead_window_acceptor_receive_prepare_def
      write_ahead_window_acceptor_receive_accept_def wa_store_defs write_acceptance_to_storage_def Let_def
      split: prod.split)

lemma writeahead_handle_refines:
  assumes wf: "writeahead_wf a" and h: "writeahead_handle api a r = (a', out)"
  shows "writeahead_wf a'" and "synod_step (writeahead_view a i) (writeahead_view a' i)"
proof -
  have dup: "memory_wf (wa_stable_storage_duplicate a')" using writeahead_duplicate_wf [OF wf, of api r] h by simp
  have "memory_wf (wa_volatile_storage a') \<and> synod_step (writeahead_view a i) (writeahead_view a' i)"
  proof (cases r)
    case (Prepare_Request req)
    with h have "write_ahead_window_acceptor_receive_prepare api a req = (a', out)" by simp
    from wf this show ?thesis
      by (rule wa_receive_prepare_cases)
        (use wf in \<open>auto simp: writeahead_view_def writeahead_wf_def store_simps intro: synod_step.intros\<close>)
  next
    case (Accept_Request req)
    with h have "write_ahead_window_acceptor_receive_accept api a req = (a', out)" by simp
    from wf this show ?thesis
      by (rule wa_receive_accept_cases)
        (use wf in \<open>auto simp: writeahead_view_def writeahead_wf_def store_simps conv_simps
          intro: synod_step.intros\<close>)
  qed
  with dup show "writeahead_wf a'" and "synod_step (writeahead_view a i) (writeahead_view a' i)"
    by (auto simp: writeahead_wf_def)
qed

lemma writeahead_handle_promise:
  assumes wf: "writeahead_wf a" and h: "writeahead_handle api a r = (a', Some (PAXOS_PROMISE p))"
  shows "syn_promised (writeahead_view a' (prom_iid p)) = prom_ballot p
     \<and> prom_value_ballot p = syn_ballot (writeahead_view a (prom_iid p))
     \<and> (INVALID_BALLOT < prom_value_ballot p \<longrightarrow> prom_value p = syn_value (writeahead_view a (prom_iid p)))"
proof (cases r)
  case (Prepare_Request req)
  with h have "write_ahead_window_acceptor_receive_prepare api a req = (a', Some (PAXOS_PROMISE p))" by simp
  from wf this show ?thesis
    by (rule wa_receive_prepare_cases) (auto simp: writeahead_view_def store_simps)
next
  case (Accept_Request req)
  with h have "write_ahead_window_acceptor_receive_accept api a req = (a', Some (PAXOS_PROMISE p))" by simp
  from wf this show ?thesis by (rule wa_receive_accept_cases) auto
qed

lemma writeahead_handle_accepted:
  assumes wf: "writeahead_wf a" and h: "writeahead_handle api a r = (a', Some (PAXOS_ACCEPTED ack))"
  shows "accd_value_ballot ack = syn_ballot (writeahead_view a' (accd_iid ack))
     \<and> accd_value_ballot ack = syn_promised (writeahead_view a' (accd_iid ack))
     \<and> accd_value ack = syn_value (writeahead_view a' (accd_iid ack))"
proof (cases r)
  case (Prepare_Request req)
  with h have "write_ahead_window_acceptor_receive_prepare api a req = (a', Some (PAXOS_ACCEPTED ack))" by simp
  from wf this show ?thesis by (rule wa_receive_prepare_cases) auto
next
  case (Accept_Request req)
  with h have "write_ahead_window_acceptor_receive_accept api a req = (a', Some (PAXOS_ACCEPTED ack))" by simp
  from wf this show ?thesis
    by (rule wa_receive_accept_cases) (auto simp: writeahead_view_def store_simps conv_simps)
qed

interpretation wa: synod_acceptor "writeahead_handle api" writeahead_view writeahead_wf
  for api :: "'h stable_storage_api"
proof unfold_locales
  fix a :: "'h writeahead_ballot_acceptor" and m i
  assume wf: "writeahead_wf a"
  show "writeahead_wf (fst (writeahead_handle api a m))"
    using writeahead_handle_refines(1) [OF wf surjective_pairing] .
  show "synod_step (writeahead_view a i) (writeahead_view (fst (writeahead_handle api a m)) i)"
    using writeahead_handle_refines(2) [OF wf surjective_pairing] .
qed (fact writeahead_handle_promise writeahead_handle_accepted)+

definition writeahead_run ::
    "'h stable_storage_api \<Rightarrow> 'h writeahead_ballot_acceptor \<Rightarrow> acceptor_request list \<Rightarrow>
       'h writeahead_ballot_acceptor" where
  "writeahead_run api a rs = foldl (\<lambda>a r. fst (writeahead_handle api a r)) a rs"

text \<open>An acceptor on an empty storage that writes ten ballots ahead, for the concrete examples.\<close>

definition fresh_writeahead_acceptor :: "stable_storage_but_not_really writeahead_ballot_acceptor" where
  "fresh_writeahead_acceptor =
     \<lparr>wa_id = 1, wa_stable_storage = mem_storage_new 1, wa_trim_instance = 0,
      wa_volatile_storage = new_hash_mapped_memory 1, wa_stable_storage_duplicate = new_hash_mapped_memory 1,
      wa_min_ballot_catachup = 3, wa_ballot_window = 10, wa_instance_window = 0,
      wa_instances_to_begin_new_ballot_epoch = [], wa_last_instance_responded_to = 0,
      wa_updating_instance_epoch = False, wa_last_instance_epoch_end = 0, wa_last_iteration_end = 0,
      wa_instance_epoch_iteration_size = 0, wa_new_epoch_end = 0\<rparr>"

lemma fresh_writeahead_acceptor_wf [simp]: "writeahead_wf fresh_writeahead_acceptor"
  by (simp add: writeahead_wf_def fresh_writeahead_acceptor_def)

section \<open>The promises in stable storage\<close>

definition durable_promise :: "(iid_t \<rightharpoonup> paxos_accepted) \<Rightarrow> iid_t \<Rightarrow> ballot" where
  "durable_promise d i = (case d i of None \<Rightarrow> INVALID_BALLOT | Some info \<Rightarrow> accd_promise_ballot info)"

text \<open>
  The write-ahead invariant: the duplicate mirrors the promises in stable storage, and stable storage
  promises at least what the acceptor has promised.
\<close>

definition written_ahead :: "(iid_t \<rightharpoonup> paxos_accepted) \<Rightarrow> 'h writeahead_ballot_acceptor \<Rightarrow> bool" where
  "written_ahead d a \<longleftrightarrow> (\<forall>i info. d i = Some info \<longrightarrow> accd_iid info = i)
     \<and> (\<forall>i. promised (wa_stable_storage_duplicate a) i = durable_promise d i)
     \<and> (\<forall>i. promised (wa_volatile_storage a) i \<le> durable_promise d i)"

lemma durable_promise_upd [store_simps]:
  "durable_promise (d(i \<mapsto> info)) j = (if j = i then accd_promise_ballot info else durable_promise d j)"
  by (simp add: durable_promise_def)

lemma Ballot_le_MAX: "ballot_number b \<le> n \<Longrightarrow> b \<le> Ballot n UINT32_MAX"
  by (cases "ballot_number b = n") (simp_all add: less_eq_ballot_def)


lemma stable_info:
  assumes "stable_store api storable durable" "written_ahead (durable h) a" "api_tx_begin api h = (0, h1)"
    and "storable i INVALID_VALUE"
  shows "accd_iid (stable_info_or_zero api h1 i) = i"
    and "storable i (accd_value (stable_info_or_zero api h1 i))"
  using assms(2,4) stable_store.durable_storable [OF assms(1), of h i]
  by (auto simp: stable_info_or_zero_def stable_store.read_in_tx [OF assms(1,3,4)] written_ahead_def INVALID_VALUE_def
      split: option.split)


text \<open>What a prepare writes when the storage works.\<close>

lemma wa_prepare_storage_cases:
  assumes "never_fails api" "writeahead_wf a"
    and "write_ahead_window_acceptor_receive_prepare api a req = (a', out)"
  defines "v \<equiv> wa_volatile_storage a" and "d \<equiv> wa_stable_storage_duplicate a"
    and "h \<equiv> wa_stable_storage a" and "i \<equiv> prep_iid req" and "b \<equiv> prep_ballot req"
  obtains
    (unchanged) "wa_stable_storage a' = h" "wa_stable_storage_duplicate a' = d" "wa_volatile_storage a' = v"
  | (within) "wa_stable_storage a' = h" "wa_stable_storage_duplicate a' = d"
      "wa_volatile_storage a' = hash_mapped_memory_store_last_promise v req" "b \<le> promised d i"
  | (beyond) h1 h2 h3 info where "api_tx_begin api h = (0, h1)"
      "info = (stable_info_or_zero api h1 i)
         \<lparr>accd_promise_ballot := Ballot (ballot_number b + wa_ballot_window a) UINT32_MAX\<rparr>"
      "api_store_instance_info api h1 info = (0, h2)" "api_tx_commit api h2 = (0, h3)"
      "wa_stable_storage a' = h3" "wa_stable_storage_duplicate a' = hash_mapped_memory_store_instance_info d info"
      "wa_volatile_storage a' = hash_mapped_memory_store_last_promise v req" "promised d i < b"
proof (cases "b \<le> promised d i")
  case True
  then have "\<not> promised d i < b" by simp
  then have "wa_stable_storage a' = h \<and> wa_stable_storage_duplicate a' = d
      \<and> (wa_volatile_storage a' = v \<or> wa_volatile_storage a' = hash_mapped_memory_store_last_promise v req)"
    using assms(2,3)
    unfolding write_ahead_window_acceptor_receive_prepare_def writeahead_wf_def
    by (auto simp: Let_def get_instance_info_eq wa_store_defs get_last_promise_found v_def d_def h_def i_def
        b_def split: if_splits prod.splits)
  with True show thesis using unchanged within by blast
next
  case False
  then have *: "promised d i < b" by simp
  obtain h1 where h1: "api_tx_begin api h = (0, h1)"
    and ok: "\<And>info. \<exists>h2 h3. api_store_instance_info api h1 info = (0, h2) \<and> api_tx_commit api h2 = (0, h3)"
    using never_failsE [OF assms(1)] by blast
  define info where "info = (stable_info_or_zero api h1 i)
      \<lparr>accd_promise_ballot := Ballot (ballot_number b + wa_ballot_window a) UINT32_MAX\<rparr>"
  obtain h2 h3 where h2: "api_store_instance_info api h1 info = (0, h2)" and h3: "api_tx_commit api h2 = (0, h3)"
    using ok by blast
  have "wa_stable_storage a' = h \<and> wa_stable_storage_duplicate a' = d \<and> wa_volatile_storage a' = v
      \<or> wa_stable_storage a' = h3 \<and> wa_stable_storage_duplicate a' = hash_mapped_memory_store_instance_info d info
        \<and> wa_volatile_storage a' = hash_mapped_memory_store_last_promise v req"
    using assms(2,3) h1 h2 h3 *
    unfolding write_ahead_window_acceptor_receive_prepare_def writeahead_wf_def info_def
    by (auto simp: Let_def get_instance_info_eq wa_store_defs get_last_promise_found v_def d_def h_def i_def
        b_def split: if_splits prod.splits)
  with * show thesis using unchanged beyond [OF h1 info_def h2 h3] by blast
qed



lemma prepare_within_window_storage:
  assumes "writeahead_wf a" "prep_ballot req \<le> promised (wa_stable_storage_duplicate a) (prep_iid req)"
  shows "wa_stable_storage (fst (write_ahead_window_acceptor_receive_prepare api a req)) = wa_stable_storage a"
proof -
  have "\<not> promised (wa_stable_storage_duplicate a) (prep_iid req) < prep_ballot req" using assms(2) by simp
  then show ?thesis
    using assms(1)
    by (simp add: write_ahead_window_acceptor_receive_prepare_def writeahead_wf_def Let_def get_instance_info_eq
        wa_store_defs get_last_promise_found)
qed

lemma fresh_written_ahead: "written_ahead (ms_records (wa_stable_storage fresh_writeahead_acceptor)) fresh_writeahead_acceptor"
  by (simp add: written_ahead_def fresh_writeahead_acceptor_def mem_storage_new_def store_simps durable_promise_def)

section \<open>Properties\<close>

text \<open>
  C28: A promise of the write-ahead acceptor binds, although it is only kept in memory: once it has
  answered a prepare with a promise it never again acknowledges a value in that instance at a lower
  ballot, whatever requests it handles in between and whichever transactions fail.
\<close>

theorem writeahead_promise_binds:
  fixes api :: "'h stable_storage_api"
  assumes "writeahead_wf a"
    and "writeahead_handle api a r1 = (a1, Some (PAXOS_PROMISE p))"
    and "writeahead_handle api (writeahead_run api a1 rs) r2 = (a2, Some (PAXOS_ACCEPTED ack))"
    and "accd_iid ack = prom_iid p"
  shows "prom_ballot p \<le> accd_value_ballot ack"
  using wa.no_ack_below_promise [OF assms(1,2), of rs r2 a2 ack] assms(3,4)
  by (simp add: writeahead_run_def)

theorem writeahead_promise_binds_witness:
  "\<exists>(p :: paxos_promise) (ack :: paxos_accepted).
     prom_ballot p = Ballot 2 1 \<and> prom_ballot p \<le> accd_value_ballot ack \<and> accd_value ack = [7]"
proof -
  let ?h = "writeahead_handle storage_init_mem"
  let ?p = "Prepare_Request \<lparr>prep_iid = 3, prep_ballot = Ballot 2 1\<rparr>"
    and ?r = "Accept_Request \<lparr>acc_iid = 3, acc_ballot = Ballot 4 2, acc_value = [7]\<rparr>"
  let ?a1 = "fst (?h fresh_writeahead_acceptor ?p)"
  let ?promise = "\<lparr>prom_aid = 1, prom_iid = 3, prom_ballot = Ballot 2 1, prom_value_ballot = Ballot 0 0,
      prom_value = []\<rparr>"
    and ?ack = "\<lparr>accd_aid = 1, accd_iid = 3, accd_promise_ballot = Ballot 4 2,
      accd_value_ballot = Ballot 4 2, accd_value = [7]\<rparr>"
  have p: "?h fresh_writeahead_acceptor ?p = (?a1, Some (PAXOS_PROMISE ?promise))"
    by (rule prod_eqI) (simp, code_simp)
  have "?h ?a1 ?r = (fst (?h ?a1 ?r), Some (PAXOS_ACCEPTED ?ack))"
    by (rule prod_eqI) (simp, code_simp)
  then have "prom_ballot ?promise \<le> accd_value_ballot ?ack"
    using writeahead_promise_binds [OF fresh_writeahead_acceptor_wf p, of "[]" ?r _ ?ack]
    by (simp add: writeahead_run_def)
  then show ?thesis by (intro exI [of _ ?promise] exI [of _ ?ack]) simp
qed



text \<open>
  The saving: after a prepare beyond the ballot promised in stable storage has been written, every
  prepare for that instance up to the end of the window, whoever sends it, is handled without
  touching stable storage.
\<close>

theorem prepares_within_window_write_nothing:
  fixes api :: "'h stable_storage_api"
  assumes "stable_store api storable durable" "never_fails api" "storable (prep_iid req) INVALID_VALUE"
    and "writeahead_wf a" "written_ahead (durable (wa_stable_storage a)) a"
    and "promised (wa_stable_storage_duplicate a) (prep_iid req) < prep_ballot req"
    and "write_ahead_window_acceptor_receive_prepare api a req = (a', Some (PAXOS_PROMISE r))"
    and "prep_iid req' = prep_iid req"
    and "ballot_number (prep_ballot req') \<le> ballot_number (prep_ballot req) + wa_ballot_window a"
  shows "wa_stable_storage (fst (write_ahead_window_acceptor_receive_prepare api a' req')) = wa_stable_storage a'"
proof (rule prepare_within_window_storage)
  show "writeahead_wf a'"
    using wa.invar_handle [OF assms(4), of api "Prepare_Request req"] assms(7) by simp
  have vol: "promised (wa_volatile_storage a') (prep_iid req) = prep_ballot req"
    using assms(4,7) by (rule wa_receive_prepare_cases) (auto simp: store_simps)
  from assms(2,4,7) show "prep_ballot req' \<le> promised (wa_stable_storage_duplicate a') (prep_iid req')"
  proof (cases rule: wa_prepare_storage_cases)
    case unchanged
    then have "prep_ballot req \<le> promised (wa_stable_storage_duplicate a) (prep_iid req)"
      using assms(5) vol unfolding written_ahead_def by (metis)
    with assms(6) show ?thesis by simp
  next
    case within
    with assms(6) show ?thesis by simp
  next
    case (beyond h1 h2 h3 info)
    have "accd_iid info = prep_iid req"
      using stable_info [OF assms(1,5) beyond(1) assms(3)] by (simp add: beyond(2))
    then have "promised (wa_stable_storage_duplicate a') (prep_iid req') =
        Ballot (ballot_number (prep_ballot req) + wa_ballot_window a) UINT32_MAX"
      using assms(8) by (simp add: beyond(6) store_simps) (simp add: beyond(2))
    then show ?thesis using Ballot_le_MAX [OF assms(9)] by (simp only:)
  qed
qed

theorem prepares_within_window_write_nothing_witness:
  "wa_stable_storage (fst (write_ahead_window_acceptor_receive_prepare storage_init_mem
      (fst (write_ahead_window_acceptor_receive_prepare storage_init_mem fresh_writeahead_acceptor
        \<lparr>prep_iid = 3, prep_ballot = Ballot 2 1\<rparr>)) \<lparr>prep_iid = 3, prep_ballot = Ballot 12 9\<rparr>))
   = wa_stable_storage (fst (write_ahead_window_acceptor_receive_prepare storage_init_mem
      fresh_writeahead_acceptor \<lparr>prep_iid = 3, prep_ballot = Ballot 2 1\<rparr>))"
proof -
  let ?req = "\<lparr>prep_iid = 3, prep_ballot = Ballot 2 1\<rparr>"
  let ?h = "write_ahead_window_acceptor_receive_prepare storage_init_mem fresh_writeahead_acceptor ?req"
  let ?promise = "\<lparr>prom_aid = 1, prom_iid = 3, prom_ballot = Ballot 2 1, prom_value_ballot = Ballot 0 0,
      prom_value = []\<rparr>"
  have h: "?h = (fst ?h, Some (PAXOS_PROMISE ?promise))" by (rule prod_eqI) (simp, code_simp)
  have lt: "promised (wa_stable_storage_duplicate fresh_writeahead_acceptor) (prep_iid ?req) < prep_ballot ?req"
    by code_simp
  show ?thesis
    by (rule prepares_within_window_write_nothing [OF mem.stable_store_axioms never_fails_mem TrueI
          fresh_writeahead_acceptor_wf fresh_written_ahead lt h])
      (simp_all add: fresh_writeahead_acceptor_def)
qed

text \<open>
  Acceptances are not written ahead: an accept at a ballot above the promise in stable storage is
  acknowledged, but stable storage keeps its old promise.  After a restart the acceptor would
  therefore again grant ballots below one at which it has acknowledged a value.
\<close>

theorem accept_leaves_stable_promise_behind:
  fixes api :: "'h stable_storage_api"
  assumes "stable_store api storable durable" "storable (acc_iid req) (acc_value req)"
    and "writeahead_wf a" "written_ahead (durable (wa_stable_storage a)) a"
    and "write_ahead_window_acceptor_receive_accept api a req = (a', Some (PAXOS_ACCEPTED ack))"
  shows "durable_promise (durable (wa_stable_storage a')) (accd_iid ack)
      = durable_promise (durable (wa_stable_storage a)) (accd_iid ack)
    \<and> accd_value_ballot ack = acc_ballot req"
proof -
  let ?i = "acc_iid req"
  let ?info = "(paxos_accept_to_accepted (wa_id a) req)
      \<lparr>accd_promise_ballot := promised (wa_stable_storage_duplicate a) ?i\<rparr>"
  obtain h1 h2 where h: "api_tx_begin api (wa_stable_storage a) = (0, h1)"
      "api_store_instance_info api h1 ?info = (0, h2)" "api_tx_commit api h2 = (0, wa_stable_storage a')"
    and ack: "ack = paxos_accept_to_accepted (wa_id a) req"
    using assms(5)
    by (auto simp: write_ahead_window_acceptor_receive_accept_def write_acceptance_to_storage_def Let_def
        wa_store_defs get_last_promise_found conv_simps split: if_splits prod.splits)
  have "durable_promise (durable (wa_stable_storage a')) ?i = promised (wa_stable_storage_duplicate a) ?i"
    by (simp add: stable_store.commit_store [OF assms(1) h] assms(2) store_simps conv_simps)
  also have "\<dots> = durable_promise (durable (wa_stable_storage a)) ?i"
    using assms(4) by (simp add: written_ahead_def)
  finally show ?thesis by (simp add: ack conv_simps)
qed

theorem accept_leaves_stable_promise_behind_witness:
  "durable_promise (ms_records (wa_stable_storage (fst
      (write_ahead_window_acceptor_receive_accept storage_init_mem fresh_writeahead_acceptor
         \<lparr>acc_iid = 3, acc_ballot = Ballot 5 1, acc_value = [7]\<rparr>)))) 3 = INVALID_BALLOT"
proof -
  let ?req = "\<lparr>acc_iid = 3, acc_ballot = Ballot 5 1, acc_value = [7]\<rparr>"
  let ?h = "write_ahead_window_acceptor_receive_accept storage_init_mem fresh_writeahead_acceptor ?req"
  let ?ack = "\<lparr>accd_aid = 1, accd_iid = 3, accd_promise_ballot = Ballot 5 1,
      accd_value_ballot = Ballot 5 1, accd_value = [7]\<rparr>"
  have "?h = (fst ?h, Some (PAXOS_ACCEPTED ?ack))" by (rule prod_eqI) (simp, code_simp)
  from accept_leaves_stable_promise_behind [OF mem.stable_store_axioms TrueI fresh_writeahead_acceptor_wf
      fresh_written_ahead this]
  show ?thesis by (simp add: durable_promise_def fresh_writeahead_acceptor_def mem_storage_new_def)
qed

text \<open>
  The write-ahead acceptor does not check what it trims: a trim beyond the first instance that its
  duplicate does not know to be chosen is carried out, even when it moves the trim instance back.
\<close>

theorem writeahead_trims_unchosen_instances:
  fixes api :: "'h stable_storage_api"
  assumes "fst (api_tx_begin api (wa_stable_storage a)) = 0"
    and "hash_mapped_memory_get_min_unchosen_instace (wa_stable_storage_duplicate a) < trim_iid trim"
  shows "wa_trim_instance (fst (write_ahead_window_acceptor_receive_trim api a trim)) = trim_iid trim"
proof -
  obtain h where "api_tx_begin api (wa_stable_storage a) = (0, h)" using assms(1) by (metis prod.collapse)
  moreover have "\<not> trim_iid trim \<le> hash_mapped_memory_get_min_unchosen_instace (wa_stable_storage_duplicate a)"
    using assms(2) by simp
  ultimately show ?thesis
    by (simp add: write_ahead_window_acceptor_receive_trim_def write_ahead_window_acceptor_store_trim_def Let_def
        split: prod.split)
qed

theorem writeahead_trims_unchosen_instances_witness:
  "wa_trim_instance (fst (write_ahead_window_acceptor_receive_trim storage_init_mem
      (fresh_writeahead_acceptor\<lparr>wa_trim_instance := 100\<rparr>) \<lparr>trim_iid = 50\<rparr>)) = 50"
proof -
  let ?a = "fresh_writeahead_acceptor\<lparr>wa_trim_instance := 100\<rparr>"
  have "fst (api_tx_begin storage_init_mem (wa_stable_storage ?a)) = 0" by code_simp
  moreover have "hash_mapped_memory_get_min_unchosen_instace (wa_stable_storage_duplicate ?a) < 50" by code_simp
  ultimately show ?thesis
    using writeahead_trims_unchosen_instances [of storage_init_mem ?a "\<lparr>trim_iid = 50\<rparr>"] by simp
qed

end
