(* ===== verification/Quorum.thy ===== *)
theory Quorum
  imports Paxos_Types
begin

text \<open>
  \<open>src/paxos/quorum.c\<close>: the vote counter that proposers and learners keep per instance.  The array
  \<open>acceptor_ids\<close> is a list; the write \<open>acceptor_ids[id] = 1\<close> with \<open>id\<close> outside of the array is
  undefined in C and is the value \<open>None\<close> here, so every caller has to account for it.
\<close>

section \<open>Definitions\<close>

record quorum =
  q_count :: int
  q_quorum :: int
  q_acceptors :: int
  q_acceptor_ids :: "int list"

definition quorum_clear :: "quorum \<Rightarrow> quorum" where
  "quorum_clear q = q\<lparr>q_count := 0, q_acceptor_ids := replicate (nat (q_acceptors q)) 0\<rparr>"

definition quorum_init :: "int \<Rightarrow> int \<Rightarrow> quorum" where
  "quorum_init acceptors quorum_size =
     quorum_clear \<lparr>q_count = 0, q_quorum = quorum_size, q_acceptors = acceptors, q_acceptor_ids = []\<rparr>"

definition quorum_resize_and_reset :: "quorum \<Rightarrow> int \<Rightarrow> quorum" where
  "quorum_resize_and_reset q quorum_size =
     q\<lparr>q_quorum := quorum_size, q_count := 0,
       q_acceptor_ids := replicate (nat (q_acceptors q)) 0\<rparr>"

definition quorum_add :: "quorum \<Rightarrow> int \<Rightarrow> (quorum \<times> bool) option" where
  "quorum_add q i =
     (if i < 0 \<or> int (length (q_acceptor_ids q)) \<le> i then None
      else if q_acceptor_ids q ! nat i = 0 then
        Some (q\<lparr>q_count := q_count q + 1, q_acceptor_ids := (q_acceptor_ids q)[nat i := 1]\<rparr>, True)
      else Some (q, False))"

definition quorum_reached :: "quorum \<Rightarrow> bool" where
  "quorum_reached q \<longleftrightarrow> q_count q \<ge> q_quorum q"

section \<open>The votes a counter holds\<close>

definition quorum_votes :: "quorum \<Rightarrow> int set" where
  "quorum_votes q = {i. 0 \<le> i \<and> i < int (length (q_acceptor_ids q)) \<and> q_acceptor_ids q ! nat i \<noteq> 0}"

definition quorum_wf :: "quorum \<Rightarrow> bool" where
  "quorum_wf q \<longleftrightarrow> length (q_acceptor_ids q) = nat (q_acceptors q)
     \<and> q_count q = int (card (quorum_votes q))"

lemma quorum_votes_finite [simp]: "finite (quorum_votes q)"
  by (rule finite_subset [of _ "{0..<int (length (q_acceptor_ids q))}"]) (auto simp: quorum_votes_def)

lemma quorum_votes_bound:
  "quorum_wf q \<Longrightarrow> i \<in> quorum_votes q \<Longrightarrow> 0 \<le> i \<and> i < q_acceptors q"
  by (auto simp: quorum_votes_def quorum_wf_def split: if_splits)

lemma quorum_clear_votes [simp]: "quorum_votes (quorum_clear q) = {}"
  by (auto simp: quorum_votes_def quorum_clear_def)

lemma quorum_resize_votes [simp]: "quorum_votes (quorum_resize_and_reset q n) = {}"
  by (auto simp: quorum_votes_def quorum_resize_and_reset_def)

lemma quorum_init_votes [simp]: "quorum_votes (quorum_init n m) = {}"
  by (simp add: quorum_init_def)

lemma quorum_fields [simp]:
  "q_quorum (quorum_clear q) = q_quorum q" "q_acceptors (quorum_clear q) = q_acceptors q"
  "q_quorum (quorum_init n m) = m" "q_acceptors (quorum_init n m) = n"
  "q_quorum (quorum_resize_and_reset q m) = m"
  "q_acceptors (quorum_resize_and_reset q m) = q_acceptors q"
  by (simp_all add: quorum_clear_def quorum_init_def quorum_resize_and_reset_def)

lemma quorum_clear_wf [simp]: "quorum_wf (quorum_clear q)"
proof -
  have "q_count (quorum_clear q) = 0"
    and "length (q_acceptor_ids (quorum_clear q)) = nat (q_acceptors (quorum_clear q))"
    by (simp_all add: quorum_clear_def)
  then show ?thesis by (simp add: quorum_wf_def)
qed

lemma quorum_init_wf [simp]: "quorum_wf (quorum_init n m)"
  by (simp add: quorum_init_def)

lemma quorum_resize_wf [simp]: "quorum_wf (quorum_resize_and_reset q m)"
proof -
  have "q_count (quorum_resize_and_reset q m) = 0"
    and "length (q_acceptor_ids (quorum_resize_and_reset q m)) = nat (q_acceptors q)"
    by (simp_all add: quorum_resize_and_reset_def)
  then show ?thesis by (simp add: quorum_wf_def)
qed

lemma quorum_add_cases:
  assumes "quorum_add q i = Some (q', new)"
  shows "0 \<le> i \<and> i < int (length (q_acceptor_ids q)) \<and> new = (i \<notin> quorum_votes q)
    \<and> quorum_votes q' = insert i (quorum_votes q)
    \<and> q_quorum q' = q_quorum q \<and> q_acceptors q' = q_acceptors q"
  using assms
  by (auto simp: quorum_add_def quorum_votes_def nth_list_update split: if_splits)

lemma quorum_add_wf: "quorum_wf q \<Longrightarrow> quorum_add q i = Some (q', new) \<Longrightarrow> quorum_wf q'"
proof -
  assume wf: "quorum_wf q" and add: "quorum_add q i = Some (q', new)"
  have "q_count q' = (if i \<in> quorum_votes q then q_count q else q_count q + 1)"
    and "length (q_acceptor_ids q') = length (q_acceptor_ids q)"
    using add by (auto simp: quorum_add_def quorum_votes_def split: if_splits)
  with wf quorum_add_cases [OF add] show ?thesis
    by (auto simp: quorum_wf_def card_insert_if)
qed

lemma quorum_add_defined:
  "quorum_wf q \<Longrightarrow> 0 \<le> i \<Longrightarrow> i < q_acceptors q \<Longrightarrow> \<exists>q' new. quorum_add q i = Some (q', new)"
  by (auto simp: quorum_add_def quorum_wf_def)

lemma quorum_reached_iff: "quorum_wf q \<Longrightarrow> quorum_reached q \<longleftrightarrow> q_quorum q \<le> int (card (quorum_votes q))"
  by (simp add: quorum_reached_def quorum_wf_def)

section \<open>The interface of a vote counter\<close>

text \<open>
  What a client of the counter relies on: a counter holds a set of voters, adding a vote inserts the
  voter and reports whether it was new, and the threshold test is about the number of distinct
  voters.  \<open>run\<close> feeds a list of votes; \<open>run_reached\<close> is the lemma every client uses.
\<close>

locale vote_counter =
  fixes add :: "'c \<Rightarrow> int \<Rightarrow> ('c \<times> bool) option"
    and reached :: "'c \<Rightarrow> bool"
    and votes :: "'c \<Rightarrow> int set"
    and threshold :: "'c \<Rightarrow> int"
    and invar :: "'c \<Rightarrow> bool"
  assumes finite_votes: "finite (votes c)"
    and add_invar: "invar c \<Longrightarrow> add c i = Some (c', new) \<Longrightarrow> invar c'"
    and add_votes: "add c i = Some (c', new) \<Longrightarrow> votes c' = insert i (votes c)"
    and add_new: "add c i = Some (c', new) \<Longrightarrow> new = (i \<notin> votes c)"
    and add_threshold: "add c i = Some (c', new) \<Longrightarrow> threshold c' = threshold c"
    and reached_iff: "invar c \<Longrightarrow> reached c \<longleftrightarrow> threshold c \<le> int (card (votes c))"
begin

fun run :: "'c \<Rightarrow> int list \<Rightarrow> 'c option" where
  "run c [] = Some c"
| "run c (i # is) = (case add c i of None \<Rightarrow> None | Some (c', _) \<Rightarrow> run c' is)"

lemma run_votes:
  "invar c \<Longrightarrow> run c is = Some c' \<Longrightarrow>
     invar c' \<and> votes c' = votes c \<union> set is \<and> threshold c' = threshold c"
proof (induction "is" arbitrary: c)
  case Nil
  then show ?case by simp
next
  case (Cons i "is")
  from Cons.prems(2) obtain d new where d: "add c i = Some (d, new)" and r: "run d is = Some c'"
    by (auto split: option.splits)
  from Cons.IH [OF add_invar [OF Cons.prems(1) d] r] add_votes [OF d] add_threshold [OF d]
  show ?case by auto
qed

lemma run_reached:
  assumes "invar c" "votes c = {}" "run c is = Some c'"
  shows "reached c' \<longleftrightarrow> threshold c \<le> int (card (set is))"
  using run_votes [OF assms(1,3)] assms(2) reached_iff [of c'] by simp

end

interpretation qc: vote_counter quorum_add quorum_reached quorum_votes q_quorum quorum_wf
proof
  fix c c' :: quorum and i new
  show "finite (quorum_votes c)" by simp
  show "quorum_wf c \<Longrightarrow> quorum_reached c \<longleftrightarrow> q_quorum c \<le> int (card (quorum_votes c))"
    by (rule quorum_reached_iff)
  assume add: "quorum_add c i = Some (c', new)"
  show "quorum_wf c \<Longrightarrow> quorum_wf c'" using add by (rule quorum_add_wf [rotated])
  show "quorum_votes c' = insert i (quorum_votes c)" "new = (i \<notin> quorum_votes c)"
    "q_quorum c' = q_quorum c"
    using quorum_add_cases [OF add] by auto
qed

text \<open>A whole sequence of votes; \<open>None\<close> as soon as one of them is out of bounds.\<close>

fun quorum_add_all :: "quorum \<Rightarrow> int list \<Rightarrow> quorum option" where
  "quorum_add_all q [] = Some q"
| "quorum_add_all q (i # is) = (case quorum_add q i of None \<Rightarrow> None | Some (q', _) \<Rightarrow> quorum_add_all q' is)"

lemma quorum_add_all_run: "quorum_add_all q is = qc.run q is"
  by (induction "is" arbitrary: q) (auto split: option.split)

lemma quorum_add_all_acceptors: "quorum_add_all q votes = Some q' \<Longrightarrow> q_acceptors q' = q_acceptors q"
  by (induction votes arbitrary: q) (auto split: option.splits dest!: quorum_add_cases)

section \<open>Properties\<close>

text \<open>
  C38: The counter counts distinct acceptors: after any sequence of votes on a fresh counter of
  \<open>n\<close> acceptors and quorum size \<open>m\<close>, the quorum is reported as reached exactly if at least \<open>m\<close>
  different acceptors voted, however often and in whatever order they did.
\<close>

theorem quorum_counts_distinct_votes:
  assumes "quorum_add_all (quorum_init n m) votes = Some q"
  shows "quorum_reached q \<longleftrightarrow> m \<le> int (card (set votes))"
  using qc.run_reached [OF quorum_init_wf quorum_init_votes assms [unfolded quorum_add_all_run]] by simp

theorem quorum_counts_distinct_votes_witness:
  "\<exists>q. quorum_add_all (quorum_init 3 2) [2, 2, 0] = Some q \<and> quorum_reached q"
proof -
  have "\<exists>q. quorum_add_all (quorum_init 3 2) [2, 2, 0] = Some q"
    by (simp add: quorum_init_def quorum_clear_def quorum_add_def numeral_3_eq_3)
  then obtain q where q: "quorum_add_all (quorum_init 3 2) [2, 2, 0] = Some q" ..
  have "(2::int) \<le> int (card (set [2, 2, 0::int]))" by simp
  with q quorum_counts_distinct_votes [OF q] show ?thesis by blast
qed

lemma quorum_add_all_votes:
  assumes "quorum_add_all (quorum_init n m) votes = Some q"
  shows "quorum_votes q = set votes \<and> set votes \<subseteq> {0..<n}"
proof -
  have wf: "quorum_wf q" "quorum_votes q = set votes" and n: "q_acceptors q = n"
    using qc.run_votes [OF quorum_init_wf assms [unfolded quorum_add_all_run]] quorum_add_all_acceptors [OF assms] by simp_all
  then show ?thesis using quorum_votes_bound [OF wf(1)] by auto
qed

text \<open>
  C39: Flexible quorums intersect: whatever votes a counter of the first phase and one of the second phase
  over the same \<open>n\<close> acceptors have been fed, repeated ones included, if both report their quorum as reached
  and the two quorum sizes add up to more than \<open>n\<close>, then some acceptor voted in both phases.
\<close>

theorem reached_quorums_intersect:
  assumes "quorum_add_all (quorum_init n q1) votes1 = Some c1" "quorum_add_all (quorum_init n q2) votes2 = Some c2"
    and "n < q1 + q2" "0 \<le> n" "quorum_reached c1" "quorum_reached c2"
  shows "\<exists>k. k \<in> set votes1 \<and> k \<in> set votes2"
proof (rule ccontr)
  assume "\<not> ?thesis"
  then have "int (card (set votes1)) + int (card (set votes2)) = int (card (set votes1 \<union> set votes2))"
    by (subst card_Un_disjoint) auto
  also have "\<dots> \<le> int (card {0..<n})"
    using quorum_add_all_votes [OF assms(1)] quorum_add_all_votes [OF assms(2)] by (simp only: of_nat_le_iff) (intro card_mono; auto)
  finally have "int (card (set votes1)) + int (card (set votes2)) \<le> n" using assms(4) by simp
  moreover have "q1 \<le> int (card (set votes1))" "q2 \<le> int (card (set votes2))"
    using assms(5,6) qc.run_reached [OF quorum_init_wf quorum_init_votes assms(1) [unfolded quorum_add_all_run]]
      qc.run_reached [OF quorum_init_wf quorum_init_votes assms(2) [unfolded quorum_add_all_run]] by simp_all
  ultimately show False using assms(3) by linarith
qed

theorem reached_quorums_intersect_witness:
  "\<exists>c1 c2 k. quorum_add_all (quorum_init 3 2) [0, 0, 1] = Some c1 \<and> quorum_add_all (quorum_init 3 2) [2, 1] = Some c2
     \<and> quorum_reached c1 \<and> quorum_reached c2 \<and> k \<in> {0, 1} \<and> k \<in> {2, 1}"
proof -
  let ?c1 = "\<lparr>q_count = 2, q_quorum = 2, q_acceptors = 3, q_acceptor_ids = [1, 1, 0]\<rparr>"
    and ?c2 = "\<lparr>q_count = 2, q_quorum = 2, q_acceptors = 3, q_acceptor_ids = [0, 1, 1]\<rparr>"
  have c: "quorum_add_all (quorum_init 3 2) [0, 0, 1] = Some ?c1" "quorum_add_all (quorum_init 3 2) [2, 1] = Some ?c2"
    by code_simp+
  have r: "quorum_reached ?c1" "quorum_reached ?c2" by (simp_all add: quorum_reached_def)
  from reached_quorums_intersect [OF c _ _ r] c r show ?thesis by auto
qed

end
