(* ===== verification/Delivery.thy ===== *)
theory Delivery
  imports Paxos_Types
begin

text \<open>
  What the two learners, \<open>src/paxos/learner.c\<close> and \<open>src/paxos/epoch_learner.c\<close>, share: runs of an event
  loop that announces chosen values and delivers them, and the contract \<open>ordered_delivery\<close> from which
  the order of the delivered instances follows.
\<close>

section \<open>Runs of an event loop\<close>

text \<open>
  A step returns the new state, what it announces and the instances and values it delivers; \<open>None\<close>
  stands for undefined behaviour of the C code.
\<close>

fun run_events :: "('l \<Rightarrow> 'e \<Rightarrow> ('l \<times> 'a list \<times> 'd list) option) \<Rightarrow> 'l \<Rightarrow> 'e list \<Rightarrow> ('l \<times> 'a list \<times> 'd list) option" where
  "run_events step l [] = Some (l, [], [])"
| "run_events step l (e # es) =
     (case step l e of
        None \<Rightarrow> None
      | Some (l, anns, dels) \<Rightarrow>
          (case run_events step l es of
             None \<Rightarrow> None
           | Some (l, anns', dels') \<Rightarrow> Some (l, anns @ anns', dels @ dels')))"

lemma run_events_ConsE:
  assumes "run_events step l (e # es) = Some (l', as, ds)"
  obtains l1 as1 ds1 as2 ds2 where "step l e = Some (l1, as1, ds1)" "run_events step l1 es = Some (l', as2, ds2)"
    "as = as1 @ as2" "ds = ds1 @ ds2"
  using assms by (auto split: option.splits prod.splits)

section \<open>Delivery in the order of the instances\<close>

text \<open>
  \<open>pos\<close> is the next instance to deliver; the events that are not \<open>ordinary\<close> may move it by other means
  than a delivery.
\<close>

locale ordered_delivery =
  fixes step :: "'l \<Rightarrow> 'e \<Rightarrow> ('l \<times> 'a list \<times> (iid_t \<times> paxos_value) list) option"
    and late :: "'l \<Rightarrow> bool" and pos :: "'l \<Rightarrow> iid_t" and ordinary :: "'e \<Rightarrow> bool"
  assumes step_pos: "\<not> late l \<Longrightarrow> ordinary e \<Longrightarrow> step l e = Some (l', as, ds) \<Longrightarrow>
      \<not> late l' \<and> (ds = [] \<and> pos l' = pos l \<or> (\<exists>v. ds = [(pos l, v)] \<and> pos l' = pos l + 1))"
begin

lemma run_pos:
  assumes "\<not> late l" "\<forall>e \<in> set es. ordinary e" "run_events step l es = Some (l', as, ds)"
  shows "(\<forall>k < length ds. fst (ds ! k) = pos l + of_nat k) \<and> pos l' = pos l + of_nat (length ds) \<and> \<not> late l'"
  using assms
proof (induction es arbitrary: l as ds)
  case Nil
  then show ?case by simp
next
  case (Cons e es)
  from Cons.prems(3) obtain l1 as1 ds1 as2 ds2 where
      s: "step l e = Some (l1, as1, ds1)" and r: "run_events step l1 es = Some (l', as2, ds2)"
    and out: "ds = ds1 @ ds2"
    by (rule run_events_ConsE)
  from step_pos [OF Cons.prems(1) _ s] Cons.IH [OF _ _ r] Cons.prems(2)
  show ?case by (auto simp: out nth_Cons' algebra_simps less_Suc_eq_0_disj)
qed

text \<open>No more instances are delivered than events are handled.\<close>

lemma run_length:
  assumes "\<not> late l" "\<forall>e \<in> set es. ordinary e" "run_events step l es = Some (l', as, ds)"
  shows "length ds \<le> length es"
  using assms
proof (induction es arbitrary: l as ds)
  case Nil
  then show ?case by simp
next
  case (Cons e es)
  from Cons.prems(3) obtain l1 as1 ds1 as2 ds2 where
      s: "step l e = Some (l1, as1, ds1)" and r: "run_events step l1 es = Some (l', as2, ds2)"
    and out: "ds = ds1 @ ds2"
    by (rule run_events_ConsE)
  from step_pos [OF Cons.prems(1) _ s] Cons.IH [OF _ _ r] Cons.prems(2) show ?case by (auto simp: out)
qed

end

end
