(* ===== verification/Learner.thy ===== *)
theory Learner
  imports Quorum Ballots Message_Conversion Delivery
begin

text \<open>
  \<open>src/paxos/learner.c\<close>: the learner of standard Paxos, which counts acknowledgements per instance,
  learns which value was chosen and delivers the chosen values in the order of the instances.  The
  table of pending instances is only accessed by key and is a map.  A handler returns \<open>None\<close> when
  \<open>quorum_add\<close> writes outside of its array, which is undefined in C.
\<close>

section \<open>State\<close>

record inst =
  in_iid :: iid_t
  in_last_update_ballot :: ballot
  in_quorum :: quorum
  in_current_ballots_value :: paxos_value
  in_chosen :: bool

record learner =
  le_acceptors :: int
  le_quorum_size :: int
  le_late_start :: bool
  le_current_min_instance_to_execute :: iid_t
  le_highest_instance_chosen :: iid_t
  le_instances :: "iid_t \<rightharpoonup> inst"
  le_trim_iid :: iid_t

definition learner_new :: "paxos_config \<Rightarrow> int \<Rightarrow> learner" where
  "learner_new cfg acceptors =
     \<lparr>le_acceptors = acceptors, le_quorum_size = cfg_quorum_2 cfg,
      le_late_start = (\<not> cfg_learner_catch_up cfg), le_current_min_instance_to_execute = 1,
      le_highest_instance_chosen = INVALID_INSTANCE, le_instances = Map.empty,
      le_trim_iid = INVALID_INSTANCE\<rparr>"

definition learner_set_instance_id :: "learner \<Rightarrow> iid_t \<Rightarrow> learner" where
  "learner_set_instance_id l i =
     l\<lparr>le_current_min_instance_to_execute := i + 1, le_highest_instance_chosen := i\<rparr>"

definition check_and_handle_late_start :: "learner \<Rightarrow> iid_t \<Rightarrow> learner" where
  "check_and_handle_late_start l i =
     (if le_late_start l
      then l\<lparr>le_late_start := False, le_current_min_instance_to_execute := i, le_trim_iid := i - 1\<rparr>
      else l)"

definition learner_is_instance_outdated :: "learner \<Rightarrow> iid_t \<Rightarrow> bool" where
  "learner_is_instance_outdated l i \<longleftrightarrow> i < le_current_min_instance_to_execute l"

definition learner_is_instance_chosen :: "inst \<Rightarrow> bool" where
  "learner_is_instance_chosen inst = in_chosen inst"

definition learner_is_ballot_outdated :: "inst \<Rightarrow> ballot \<Rightarrow> bool" where
  "learner_is_ballot_outdated inst cmp =
     (if ballot_greater_than_or_equal cmp (in_last_update_ballot inst) then False else True)"

definition check_and_handle_new_ballot :: "inst \<Rightarrow> ballot \<Rightarrow> paxos_value \<Rightarrow> inst" where
  "check_and_handle_new_ballot inst cmp value =
     (if ballot_greater_than cmp (in_last_update_ballot inst)
      then inst\<lparr>in_last_update_ballot := cmp, in_current_ballots_value := value,
                in_quorum := quorum_clear (in_quorum inst)\<rparr>
      else inst)"

definition learner_check_and_set_highest_instance_closed :: "learner \<Rightarrow> iid_t \<Rightarrow> learner" where
  "learner_check_and_set_highest_instance_closed l i =
     (if i > le_highest_instance_chosen l then l\<lparr>le_highest_instance_chosen := i\<rparr> else l)"

section \<open>The table of instances\<close>

definition instance_new :: "iid_t \<Rightarrow> int \<Rightarrow> int \<Rightarrow> inst" where
  "instance_new i num_acceptors_in_quorum quorum_size =
     \<lparr>in_iid = i, in_last_update_ballot = INVALID_BALLOT,
      in_quorum = quorum_init num_acceptors_in_quorum quorum_size,
      in_current_ballots_value = INVALID_VALUE, in_chosen = False\<rparr>"

definition learner_get_instance :: "learner \<Rightarrow> iid_t \<Rightarrow> inst option" where
  "learner_get_instance l i = le_instances l i"

definition learner_get_instance_or_create :: "learner \<Rightarrow> iid_t \<Rightarrow> inst \<times> learner" where
  "learner_get_instance_or_create l i =
     (case learner_get_instance l i of
        Some inst \<Rightarrow> (inst, l)
      | None \<Rightarrow> let inst = instance_new i (le_acceptors l) (le_quorum_size l)
                in (inst, l\<lparr>le_instances := (le_instances l)(i \<mapsto> inst)\<rparr>))"

definition learner_remove_instance_from_pending :: "learner \<Rightarrow> inst \<Rightarrow> learner" where
  "learner_remove_instance_from_pending l inst = l\<lparr>le_instances := (le_instances l)(in_iid inst := None)\<rparr>"

text \<open>The handlers write through the pointer into the table.\<close>

definition learner_put_instance :: "learner \<Rightarrow> iid_t \<Rightarrow> inst \<Rightarrow> learner" where
  "learner_put_instance l i inst = l\<lparr>le_instances := (le_instances l)(i \<mapsto> inst)\<rparr>"

section \<open>Messages\<close>

definition learner_receive_chosen :: "learner \<Rightarrow> paxos_chosen \<Rightarrow> learner \<times> bool" where
  "learner_receive_chosen l chosen =
     (let l = check_and_handle_late_start l (cho_iid chosen)
      in if learner_is_instance_outdated l (cho_iid chosen) then (l, False) else
      let (inst, l) = learner_get_instance_or_create l (cho_iid chosen)
      in if learner_is_instance_chosen inst then (l, False) else
      let inst = inst\<lparr>in_chosen := True, in_last_update_ballot := cho_ballot chosen,
                      in_current_ballots_value := cho_value chosen\<rparr>;
          l = learner_put_instance l (cho_iid chosen) inst
      in (learner_check_and_set_highest_instance_closed l (cho_iid chosen), True))"

definition learner_receive_accepted ::
    "learner \<Rightarrow> paxos_accepted \<Rightarrow> (learner \<times> paxos_chosen option) option" where
  "learner_receive_accepted l ack =
     (let l = check_and_handle_late_start l (accd_iid ack)
      in if learner_is_instance_outdated l (accd_iid ack) then Some (l, None) else
      let (inst, l) = learner_get_instance_or_create l (accd_iid ack)
      in if learner_is_instance_chosen inst then Some (l, None)
      else if learner_is_ballot_outdated inst (accd_value_ballot ack) then Some (l, None) else
      let inst = check_and_handle_new_ballot inst (accd_value_ballot ack) (accd_value ack)
      in case quorum_add (in_quorum inst) (sint (accd_aid ack)) of
           None \<Rightarrow> None
         | Some (q, new) \<Rightarrow>
             let inst = inst\<lparr>in_quorum := q\<rparr>
             in if \<not> new then Some (learner_put_instance l (accd_iid ack) inst, None)
                else if quorum_reached q then
                  let inst = inst\<lparr>in_chosen := True\<rparr>;
                      l = learner_put_instance l (accd_iid ack) inst;
                      l = learner_check_and_set_highest_instance_closed l (accd_iid ack)
                  in Some (l, Some \<lparr>cho_iid = accd_iid ack, cho_ballot = accd_value_ballot ack,
                                    cho_value = accd_value ack\<rparr>)
                else Some (learner_put_instance l (accd_iid ack) inst, None))"

definition learner_deliver_next :: "learner \<Rightarrow> learner \<times> paxos_value option" where
  "learner_deliver_next l =
     (case learner_get_instance l (le_current_min_instance_to_execute l) of
        Some inst \<Rightarrow>
          (if in_chosen inst
           then let l = learner_remove_instance_from_pending l inst
                in (l\<lparr>le_current_min_instance_to_execute := le_current_min_instance_to_execute l + 1\<rparr>,
                    Some (in_current_ballots_value inst))
           else (l, None))
      | None \<Rightarrow> (l, None))"

definition learner_has_holes :: "learner \<Rightarrow> (iid_t \<times> iid_t) option" where
  "learner_has_holes l =
     (if le_highest_instance_chosen l > le_current_min_instance_to_execute l
      then Some (le_current_min_instance_to_execute l, le_highest_instance_chosen l)
      else None)"

definition learner_get_trim :: "learner \<Rightarrow> iid_t" where
  "learner_get_trim l = le_trim_iid l"

definition learner_set_trim :: "learner \<Rightarrow> iid_t \<Rightarrow> learner" where
  "learner_set_trim l trim = l\<lparr>le_trim_iid := trim\<rparr>"

definition learner_get_instance_to_trim :: "learner \<Rightarrow> iid_t" where
  "learner_get_instance_to_trim l = le_current_min_instance_to_execute l - 1"

section \<open>Runs\<close>

datatype learner_event = Receive_Accepted paxos_accepted | Receive_Chosen paxos_chosen | Deliver_Next

text \<open>
  One call of the event loop: the learner afterwards, the chosen message it announces and the instance
  and value it delivers.
\<close>

fun learner_step :: "learner \<Rightarrow> learner_event \<Rightarrow> (learner \<times> paxos_chosen list \<times> (iid_t \<times> paxos_value) list) option" where
  "learner_step l (Receive_Accepted ack) =
     (case learner_receive_accepted l ack of
        None \<Rightarrow> None
      | Some (l, chosen) \<Rightarrow> Some (l, case chosen of None \<Rightarrow> [] | Some c \<Rightarrow> [c], []))"
| "learner_step l (Receive_Chosen c) = Some (fst (learner_receive_chosen l c), [], [])"
| "learner_step l Deliver_Next =
     (case learner_deliver_next l of
        (l', None) \<Rightarrow> Some (l', [], [])
      | (l', Some v) \<Rightarrow> Some (l', [], [(le_current_min_instance_to_execute l, v)]))"

abbreviation learner_run ::
    "learner \<Rightarrow> learner_event list \<Rightarrow> (learner \<times> paxos_chosen list \<times> (iid_t \<times> paxos_value) list) option" where
  "learner_run \<equiv> run_events learner_step"

section \<open>A learner learns only what was chosen\<close>

definition voters :: "learner_event set \<Rightarrow> iid_t \<Rightarrow> ballot \<Rightarrow> int set" where
  "voters H i b = {sint (accd_aid ack) | ack.
     Receive_Accepted ack \<in> H \<and> accd_iid ack = i \<and> accd_value_ballot ack = b}"

text \<open>
  The evidence for a value: a chosen message, or a quorum of acknowledgements at one ballot, one of
  which carries the value.
\<close>

definition learned_from :: "learner_event set \<Rightarrow> int \<Rightarrow> iid_t \<Rightarrow> paxos_value \<Rightarrow> bool" where
  "learned_from H n i v \<longleftrightarrow>
     (\<exists>c. Receive_Chosen c \<in> H \<and> cho_iid c = i \<and> cho_value c = v)
   \<or> (\<exists>ack. Receive_Accepted ack \<in> H \<and> accd_iid ack = i \<and> accd_value ack = v
        \<and> n \<le> int (card (voters H i (accd_value_ballot ack))))"

lemma voters_finite [simp]: "finite H \<Longrightarrow> finite (voters H i b)"
  by (rule finite_subset [of _ "(\<lambda>e. case e of Receive_Accepted ack \<Rightarrow> sint (accd_aid ack) | _ \<Rightarrow> 0) ` H"])
    (force simp: voters_def)+

lemma voters_mono: "H \<subseteq> K \<Longrightarrow> voters H i b \<subseteq> voters K i b"
  by (auto simp: voters_def)

lemma voters_card_mono: "H \<subseteq> K \<Longrightarrow> finite K \<Longrightarrow> card (voters H i b) \<le> card (voters K i b)"
  by (simp add: card_mono voters_mono)

lemma learned_from_mono:
  assumes "learned_from H n i v" "H \<subseteq> K" "finite K"
  shows "learned_from K n i v"
proof -
  have "n \<le> int (card (voters K i b))" if "n \<le> int (card (voters H i b))" for b
    using voters_card_mono [OF assms(2,3), of i b] that by linarith
  with assms(1,2) show ?thesis unfolding learned_from_def by blast
qed

definition inst_ok :: "learner_event set \<Rightarrow> int \<Rightarrow> iid_t \<Rightarrow> inst \<Rightarrow> bool" where
  "inst_ok H n i x \<longleftrightarrow> in_iid x = i \<and> quorum_wf (in_quorum x) \<and> q_quorum (in_quorum x) = n
     \<and> (in_chosen x \<longrightarrow> learned_from H n i (in_current_ballots_value x))
     \<and> (\<not> in_chosen x \<longrightarrow> quorum_votes (in_quorum x) \<subseteq> voters H i (in_last_update_ballot x)
          \<and> (INVALID_BALLOT < in_last_update_ballot x \<longrightarrow>
               (\<exists>ack. Receive_Accepted ack \<in> H \<and> accd_iid ack = i
                  \<and> accd_value_ballot ack = in_last_update_ballot x
                  \<and> accd_value ack = in_current_ballots_value x)))"

definition learner_ok :: "learner_event set \<Rightarrow> learner \<Rightarrow> bool" where
  "learner_ok H l \<longleftrightarrow> (\<forall>i x. le_instances l i = Some x \<longrightarrow> inst_ok H (le_quorum_size l) i x)"

lemma inst_ok_mono: "inst_ok H n i x \<Longrightarrow> H \<subseteq> K \<Longrightarrow> finite K \<Longrightarrow> inst_ok K n i x"
  unfolding inst_ok_def by (meson learned_from_mono subset_trans voters_mono subsetD)

lemma inst_ok_new: "inst_ok H n i (instance_new i a n)"
  by (simp add: inst_ok_def instance_new_def)

lemma learner_get_or_create_ok:
  assumes "learner_ok H l" "learner_get_instance_or_create l i = (x, l')"
  shows "inst_ok H (le_quorum_size l) i x \<and> learner_ok H l' \<and> le_quorum_size l' = le_quorum_size l
    \<and> le_current_min_instance_to_execute l' = le_current_min_instance_to_execute l"
  using assms
  by (auto simp: learner_get_instance_or_create_def learner_get_instance_def learner_ok_def inst_ok_new
      Let_def split: option.splits if_splits)

lemma learner_ok_put:
  "learner_ok H l \<Longrightarrow> inst_ok H (le_quorum_size l) i x \<Longrightarrow> learner_ok H (learner_put_instance l i x)"
  by (simp add: learner_ok_def learner_put_instance_def)

lemma learner_ok_fields [simp]:
  "learner_ok H (check_and_handle_late_start l i) = learner_ok H l"
  "learner_ok H (learner_check_and_set_highest_instance_closed l i) = learner_ok H l"
  "le_quorum_size (check_and_handle_late_start l i) = le_quorum_size l"
  "le_quorum_size (learner_check_and_set_highest_instance_closed l i) = le_quorum_size l"
  "le_quorum_size (learner_put_instance l i x) = le_quorum_size l"
  by (simp_all add: learner_ok_def check_and_handle_late_start_def learner_put_instance_def
      learner_check_and_set_highest_instance_closed_def)

lemma learner_ok_mono: "learner_ok H l \<Longrightarrow> H \<subseteq> K \<Longrightarrow> finite K \<Longrightarrow> learner_ok K l"
  by (auto simp: learner_ok_def intro: inst_ok_mono)

lemma check_and_handle_new_ballot_ok:
  assumes "inst_ok K n i x" "\<not> in_chosen x"
    and "Receive_Accepted ack \<in> K" "accd_iid ack = i" "\<not> learner_is_ballot_outdated x (accd_value_ballot ack)"
  defines "y \<equiv> check_and_handle_new_ballot x (accd_value_ballot ack) (accd_value ack)"
  shows "quorum_votes (in_quorum y) \<subseteq> voters K i (accd_value_ballot ack)"
    and "in_last_update_ballot y = accd_value_ballot ack" "in_iid y = i" "\<not> in_chosen y"
    and "quorum_wf (in_quorum y)" "q_quorum (in_quorum y) = n"
    and "INVALID_BALLOT < accd_value_ballot ack \<Longrightarrow>
       \<exists>ack'. Receive_Accepted ack' \<in> K \<and> accd_iid ack' = i \<and> accd_value_ballot ack' = accd_value_ballot ack
         \<and> accd_value ack' = in_current_ballots_value y"
proof -
  have le: "in_last_update_ballot x \<le> accd_value_ballot ack"
    using assms(5) by (simp add: learner_is_ballot_outdated_def split: if_splits)
  show "quorum_votes (in_quorum y) \<subseteq> voters K i (accd_value_ballot ack)"
    using assms(1,2) le
    by (auto simp: y_def check_and_handle_new_ballot_def inst_ok_def)
  show "in_last_update_ballot y = accd_value_ballot ack"
    using le by (simp add: y_def check_and_handle_new_ballot_def)
  show "in_iid y = i" "\<not> in_chosen y" "quorum_wf (in_quorum y)" "q_quorum (in_quorum y) = n"
    using assms(1,2) by (simp_all add: y_def check_and_handle_new_ballot_def inst_ok_def)
  assume inv: "INVALID_BALLOT < accd_value_ballot ack"
  show "\<exists>ack'. Receive_Accepted ack' \<in> K \<and> accd_iid ack' = i \<and> accd_value_ballot ack' = accd_value_ballot ack
         \<and> accd_value ack' = in_current_ballots_value y"
  proof (cases "in_last_update_ballot x < accd_value_ballot ack")
    case True
    with assms(3,4) show ?thesis by (auto simp: y_def check_and_handle_new_ballot_def)
  next
    case False
    with le have "in_last_update_ballot x = accd_value_ballot ack" by simp
    with assms(1,2) inv show ?thesis by (auto simp: y_def check_and_handle_new_ballot_def inst_ok_def)
  qed
qed

lemma accepted_step_ok:
  assumes ok: "learner_ok H l" and K: "H \<subseteq> K" "finite K" "Receive_Accepted ack \<in> K"
    and pos: "INVALID_BALLOT < accd_value_ballot ack"
    and step: "learner_receive_accepted l ack = Some (l', out)"
  shows "learner_ok K l' \<and> le_quorum_size l' = le_quorum_size l
    \<and> (\<forall>c. out = Some c \<longrightarrow> cho_iid c = accd_iid ack \<and> cho_ballot c = accd_value_ballot ack
          \<and> cho_value c = accd_value ack
          \<and> le_quorum_size l \<le> int (card (voters K (accd_iid ack) (accd_value_ballot ack))))"
proof -
  let ?i = "accd_iid ack" and ?b = "accd_value_ballot ack" and ?n = "le_quorum_size l"
  let ?l1 = "check_and_handle_late_start l ?i"
  have ok1: "learner_ok K ?l1" using learner_ok_mono [OF ok K(1,2)] by simp
  obtain x l2 where x: "learner_get_instance_or_create ?l1 ?i = (x, l2)" by (meson surj_pair)
  have ok2: "inst_ok K ?n ?i x" "learner_ok K l2" "le_quorum_size l2 = ?n"
    using learner_get_or_create_ok [OF ok1 x] by simp_all
  define y where "y = check_and_handle_new_ballot x ?b (accd_value ack)"
  show ?thesis
  proof (cases "learner_is_instance_outdated ?l1 ?i \<or> in_chosen x \<or> learner_is_ballot_outdated x ?b")
    case True
    then have "out = None \<and> (l' = ?l1 \<or> l' = l2)"
      using step x by (auto simp: learner_receive_accepted_def learner_is_instance_chosen_def Let_def split: if_splits)
    then show ?thesis using ok1 ok2 by auto
  next
    case False
    then have nc: "\<not> in_chosen x" and no: "\<not> learner_is_ballot_outdated x ?b" by auto
    note y = check_and_handle_new_ballot_ok [OF ok2(1) nc K(3) refl no, folded y_def]
    from step False x obtain q new where q: "quorum_add (in_quorum y) (sint (accd_aid ack)) = Some (q, new)"
      by (auto simp: learner_receive_accepted_def learner_is_instance_chosen_def Let_def y_def
          split: if_splits option.splits)
    have votes: "quorum_votes q \<subseteq> voters K ?i ?b"
      using qc.add_votes [OF q] y(1) K(3) by (auto simp: voters_def)
    have wf: "quorum_wf q" "q_quorum q = ?n"
      using qc.add_invar [OF y(5) q] qc.add_threshold [OF q] y(6) by simp_all
    have card: "?n \<le> int (card (voters K ?i ?b))" if "quorum_reached q"
      using qc.reached_iff [OF wf(1)] that wf(2) card_mono [OF voters_finite [OF K(2)] votes] by fastforce
    have open_ok: "inst_ok K ?n ?i (y\<lparr>in_quorum := q\<rparr>)"
      using votes wf y(2-4) y(7) [OF pos] by (simp add: inst_ok_def)
    have chosen_ok: "inst_ok K ?n ?i (y\<lparr>in_quorum := q, in_chosen := True\<rparr>)" if "quorum_reached q"
      using card [OF that] wf y(3) y(7) [OF pos] by (auto simp: inst_ok_def learned_from_def)
    from step False x q consider
      (wait) "out = None" "l' = learner_put_instance l2 ?i (y\<lparr>in_quorum := q\<rparr>)"
    | (learn) "quorum_reached q" "out = Some \<lparr>cho_iid = ?i, cho_ballot = ?b, cho_value = accd_value ack\<rparr>"
        "l' = learner_check_and_set_highest_instance_closed
            (learner_put_instance l2 ?i (y\<lparr>in_quorum := q, in_chosen := True\<rparr>)) ?i"
      by (auto simp: learner_receive_accepted_def learner_is_instance_chosen_def Let_def y_def
          split: if_splits)
    then show ?thesis
      by cases (use ok2 open_ok chosen_ok card in \<open>auto intro: learner_ok_put\<close>)
  qed
qed

lemma chosen_step_ok:
  assumes "learner_ok H l" "H \<subseteq> K" "finite K" "Receive_Chosen c \<in> K"
  shows "learner_ok K (fst (learner_receive_chosen l c))
    \<and> le_quorum_size (fst (learner_receive_chosen l c)) = le_quorum_size l"
proof -
  let ?l1 = "check_and_handle_late_start l (cho_iid c)"
  have ok1: "learner_ok K ?l1" using learner_ok_mono [OF assms(1-3)] by simp
  obtain x l2 where x: "learner_get_instance_or_create ?l1 (cho_iid c) = (x, l2)" by (meson surj_pair)
  have ok2: "inst_ok K (le_quorum_size l) (cho_iid c) x" "learner_ok K l2" "le_quorum_size l2 = le_quorum_size l"
    using learner_get_or_create_ok [OF ok1 x] by simp_all
  let ?y = "x\<lparr>in_chosen := True, in_last_update_ballot := cho_ballot c, in_current_ballots_value := cho_value c\<rparr>"
  have "inst_ok K (le_quorum_size l) (cho_iid c) ?y"
    using ok2(1) assms(4) by (auto simp: inst_ok_def learned_from_def)
  with ok1 ok2 x show ?thesis
    by (auto simp: learner_receive_chosen_def Let_def intro: learner_ok_put)
qed

lemma inst_ok_learned: "inst_ok H n i x \<Longrightarrow> in_chosen x \<Longrightarrow> learned_from H n i (in_current_ballots_value x)"
  by (simp add: inst_ok_def)

lemma deliver_step_ok:
  assumes "learner_ok H l" "learner_deliver_next l = (l', out)"
  shows "learner_ok H l' \<and> le_quorum_size l' = le_quorum_size l
    \<and> (\<forall>v. out = Some v \<longrightarrow> learned_from H (le_quorum_size l) (le_current_min_instance_to_execute l) v)"
  using assms
  by (auto simp: learner_deliver_next_def learner_get_instance_def learner_remove_instance_from_pending_def
      learner_ok_def Let_def intro: inst_ok_learned split: option.splits if_splits)

text \<open>What is announced and delivered in a run is backed by what was received.\<close>

definition outputs_ok :: "learner_event set \<Rightarrow> int \<Rightarrow> paxos_chosen list \<Rightarrow> (iid_t \<times> paxos_value) list \<Rightarrow> bool" where
  "outputs_ok H n anns dels \<longleftrightarrow>
     (\<forall>c \<in> set anns. n \<le> int (card (voters H (cho_iid c) (cho_ballot c)))
        \<and> learned_from H n (cho_iid c) (cho_value c))
   \<and> (\<forall>(i, v) \<in> set dels. learned_from H n i v)"

lemma outputs_ok_mono: "outputs_ok H n as ds \<Longrightarrow> H \<subseteq> K \<Longrightarrow> finite K \<Longrightarrow> outputs_ok K n as ds"
  unfolding outputs_ok_def
  by (fastforce intro: learned_from_mono order.trans [OF _ of_nat_mono [OF voters_card_mono]])

lemma learner_step_ok:
  assumes "learner_ok H l" "H \<subseteq> K" "finite K" "e \<in> K"
    and "\<forall>ack. Receive_Accepted ack \<in> K \<longrightarrow> INVALID_BALLOT < accd_value_ballot ack"
    and "learner_step l e = Some (l', as, ds)"
  shows "learner_ok K l' \<and> le_quorum_size l' = le_quorum_size l \<and> outputs_ok K (le_quorum_size l) as ds"
proof (cases e)
  case (Receive_Accepted ack)
  with assms(4-6) obtain out where out: "learner_receive_accepted l ack = Some (l', out)"
      "as = (case out of None \<Rightarrow> [] | Some c \<Rightarrow> [c])" "ds = []"
    and pos: "INVALID_BALLOT < accd_value_ballot ack"
    by (auto split: option.splits)
  from accepted_step_ok [OF assms(1-3) _ pos out(1)] assms(4) Receive_Accepted
  show ?thesis by (auto simp: out outputs_ok_def learned_from_def split: option.splits)
next
  case (Receive_Chosen c)
  with assms(4,6) chosen_step_ok [OF assms(1-3), of c] show ?thesis by (auto simp: outputs_ok_def)
next
  case Deliver_Next
  with assms(6) deliver_step_ok [OF learner_ok_mono [OF assms(1-3)]] show ?thesis
    by (auto simp: outputs_ok_def split: prod.splits option.splits)
qed

lemma learner_run_ok:
  assumes "learner_ok H l" "H \<subseteq> K" "finite K" "set es \<subseteq> K"
    and "\<forall>ack. Receive_Accepted ack \<in> K \<longrightarrow> INVALID_BALLOT < accd_value_ballot ack"
    and "learner_run l es = Some (l', as, ds)"
  shows "learner_ok K l' \<and> outputs_ok K (le_quorum_size l) as ds"
  using assms
proof (induction es arbitrary: l H as ds)
  case Nil
  then show ?case using learner_ok_mono [OF Nil.prems(1-3)] by (simp add: outputs_ok_def)
next
  case (Cons e es)
  from Cons.prems(6) obtain l1 as1 ds1 as2 ds2 where
      s: "learner_step l e = Some (l1, as1, ds1)" and r: "learner_run l1 es = Some (l', as2, ds2)"
    and out: "as = as1 @ as2" "ds = ds1 @ ds2"
    by (rule run_events_ConsE)
  from Cons.prems(4) have e: "e \<in> K" and es: "set es \<subseteq> K" by auto
  note st = learner_step_ok [OF Cons.prems(1-3) e Cons.prems(5) s]
  from st Cons.IH [OF _ order.refl Cons.prems(3) es Cons.prems(5) r] out show ?case
    by (auto simp: outputs_ok_def)
qed

section \<open>Properties\<close>

text \<open>
  C7: A learner learns only chosen values: in a run of a new learner in which every acknowledgement names a
  ballot above 0.0, the ballot that stands for none, every chosen message it announces is backed by
  acknowledgements from at least \<open>quorum_2\<close> different acceptors at one ballot, and every value it
  delivers was carried by a chosen message or by such a quorum of acknowledgements for its instance.
  (Acknowledgements at ballot 0.0 are counted, but their value is not recorded; no acceptor sends them for
  an accept at a ballot that a proposer uses.)
\<close>

theorem learner_learns_only_chosen_values:
  assumes "learner_run (learner_new cfg n) es = Some (l, anns, dels)"
    and "\<forall>ack. Receive_Accepted ack \<in> set es \<longrightarrow> INVALID_BALLOT < accd_value_ballot ack"
  shows "(\<forall>c \<in> set anns. cfg_quorum_2 cfg \<le> int (card (voters (set es) (cho_iid c) (cho_ballot c)))
             \<and> learned_from (set es) (cfg_quorum_2 cfg) (cho_iid c) (cho_value c))
    \<and> (\<forall>(i, v) \<in> set dels. learned_from (set es) (cfg_quorum_2 cfg) i v)"
proof -
  have "learner_ok {} (learner_new cfg n)" by (simp add: learner_ok_def learner_new_def)
  from learner_run_ok [OF this _ _ order.refl assms(2,1)]
  show ?thesis by (simp add: outputs_ok_def learner_new_def)
qed

theorem learner_learns_only_chosen_values_witness:
  "\<exists>l ack. learner_run (learner_new \<lparr>cfg_learner_catch_up = True, cfg_proposer_timeout = 1, cfg_quorum_2 = 1,
        cfg_fall_behind_jump = 1, cfg_noop_timeout_us = 1, cfg_await_holes = True, cfg_repropose_values = True\<rparr> 3)
        [Receive_Accepted ack, Deliver_Next]
      = Some (l, [\<lparr>cho_iid = 1, cho_ballot = Ballot 1 1, cho_value = [7]\<rparr>], [(1, [7])])
    \<and> 1 \<le> int (card (voters {Receive_Accepted ack, Deliver_Next} 1 (Ballot 1 1)))
    \<and> learned_from {Receive_Accepted ack, Deliver_Next} 1 1 [7]"
proof -
  let ?ack = "\<lparr>accd_aid = 0, accd_iid = 1, accd_promise_ballot = Ballot 1 1, accd_value_ballot = Ballot 1 1,
      accd_value = [7]\<rparr>"
  let ?cfg = "\<lparr>cfg_learner_catch_up = True, cfg_proposer_timeout = 1, cfg_quorum_2 = 1, cfg_fall_behind_jump = 1,
      cfg_noop_timeout_us = 1, cfg_await_holes = True, cfg_repropose_values = True\<rparr>"
  let ?es = "[Receive_Accepted ?ack, Deliver_Next]"
  let ?r = "learner_run (learner_new ?cfg 3) ?es"
  have "map_option snd ?r = Some ([\<lparr>cho_iid = 1, cho_ballot = Ballot 1 1, cho_value = [7]\<rparr>], [(1, [7])])"
    by code_simp
  then obtain l where l: "?r = Some (l, [\<lparr>cho_iid = 1, cho_ballot = Ballot 1 1, cho_value = [7]\<rparr>], [(1, [7])])"
    by (cases ?r) auto
  have "1 \<le> int (card (voters (set ?es) 1 (Ballot 1 1))) \<and> learned_from (set ?es) 1 1 [7]"
    using learner_learns_only_chosen_values [OF l] by (simp add: INVALID_BALLOT_def less_ballot_def)
  with l show ?thesis by (intro exI [of _ l] exI [of _ ?ack] conjI) simp_all
qed

lemma learner_step_min_instance:
  assumes "\<not> le_late_start l" "learner_step l e = Some (l', as, ds)"
  shows "\<not> le_late_start l' \<and> (ds = [] \<and> le_current_min_instance_to_execute l' = le_current_min_instance_to_execute l
     \<or> (\<exists>v. ds = [(le_current_min_instance_to_execute l, v)]
          \<and> le_current_min_instance_to_execute l' = le_current_min_instance_to_execute l + 1))"
proof -
  have create: "\<not> le_late_start l2 \<and> le_current_min_instance_to_execute l2 = le_current_min_instance_to_execute l"
    if "learner_get_instance_or_create l i = (x, l2)" for i x l2
    using that assms(1) by (auto simp: learner_get_instance_or_create_def Let_def split: option.splits)
  show ?thesis
    using assms create
    by (cases e) (auto simp: learner_receive_accepted_def learner_receive_chosen_def learner_deliver_next_def
        check_and_handle_late_start_def learner_put_instance_def learner_remove_instance_from_pending_def
        learner_check_and_set_highest_instance_closed_def Let_def split: option.splits prod.splits if_splits)
qed

interpretation le: ordered_delivery learner_step le_late_start le_current_min_instance_to_execute "\<lambda>_. True"
  using learner_step_min_instance by unfold_locales blast

text \<open>
  C36: Delivery is in order and without gaps: a learner that does not start late delivers instance 1
  first, then instance 2 and so on, each of them once.
\<close>

theorem learner_delivers_in_order:
  assumes "cfg_learner_catch_up cfg" "learner_run (learner_new cfg n) es = Some (l, anns, dels)"
    and "k < length dels"
  shows "fst (dels ! k) = of_nat (Suc k)"
proof -
  have "\<not> le_late_start (learner_new cfg n)" using assms(1) by (simp add: learner_new_def)
  from le.run_pos [OF this _ assms(2)] assms(3) show ?thesis by (simp add: learner_new_def)
qed

theorem learner_delivers_in_order_witness:
  "\<exists>l anns dels. learner_run (learner_new \<lparr>cfg_learner_catch_up = True, cfg_proposer_timeout = 1,
        cfg_quorum_2 = 1, cfg_fall_behind_jump = 1, cfg_noop_timeout_us = 1, cfg_await_holes = True,
        cfg_repropose_values = True\<rparr> 3)
      [Receive_Chosen \<lparr>cho_iid = 2, cho_ballot = Ballot 1 1, cho_value = [8]\<rparr>, Deliver_Next,
       Receive_Chosen \<lparr>cho_iid = 1, cho_ballot = Ballot 1 1, cho_value = [7]\<rparr>, Deliver_Next, Deliver_Next]
      = Some (l, anns, dels) \<and> fst (dels ! 1) = 2"
proof -
  let ?cfg = "\<lparr>cfg_learner_catch_up = True, cfg_proposer_timeout = 1, cfg_quorum_2 = 1, cfg_fall_behind_jump = 1,
      cfg_noop_timeout_us = 1, cfg_await_holes = True, cfg_repropose_values = True\<rparr>"
  let ?es = "[Receive_Chosen \<lparr>cho_iid = 2, cho_ballot = Ballot 1 1, cho_value = [8]\<rparr>, Deliver_Next,
       Receive_Chosen \<lparr>cho_iid = 1, cho_ballot = Ballot 1 1, cho_value = [7]\<rparr>, Deliver_Next, Deliver_Next]"
  have "map_option snd (learner_run (learner_new ?cfg 3) ?es) = Some ([], [(1, [7]), (2, [8])])" by code_simp
  then obtain l where l: "learner_run (learner_new ?cfg 3) ?es = Some (l, [], [(1, [7]), (2, [8])])"
    by (cases "learner_run (learner_new ?cfg 3) ?es") auto
  have "fst ([(1 :: iid_t, [7 :: byte]), (2, [8])] ! 1) = of_nat (Suc 1)"
    by (rule learner_delivers_in_order [OF _ l]) simp_all
  with l show ?thesis by (intro exI [of _ l]) simp
qed

text \<open>
  What a learner has learned is final: once an instance is marked as chosen, no acknowledgement
  and no chosen message, whatever ballot or value it carries, changes the instance or its value
  before it is delivered.
\<close>

theorem learned_value_is_final:
  assumes "le_instances l i = Some x" "in_chosen x" "learner_step l e = Some (l', as, ds)" "e \<noteq> Deliver_Next"
  shows "le_instances l' i = Some x"
  using assms
  by (cases e) (auto simp: learner_receive_accepted_def learner_receive_chosen_def
      check_and_handle_late_start_def learner_put_instance_def learner_get_instance_or_create_def
      learner_get_instance_def learner_is_instance_chosen_def
      learner_check_and_set_highest_instance_closed_def Let_def split: option.splits prod.splits if_splits)

theorem learned_value_is_final_witness:
  "\<exists>l'. learner_step ((learner_new \<lparr>cfg_learner_catch_up = True, cfg_proposer_timeout = 1, cfg_quorum_2 = 2,
        cfg_fall_behind_jump = 1, cfg_noop_timeout_us = 1, cfg_await_holes = True, cfg_repropose_values = True\<rparr> 3)
      \<lparr>le_instances := [4 \<mapsto> (instance_new 4 3 2)\<lparr>in_chosen := True\<rparr>]\<rparr>)
      (Receive_Chosen \<lparr>cho_iid = 4, cho_ballot = Ballot 9 1, cho_value = [8]\<rparr>) = Some (l', [], [])
    \<and> le_instances l' 4 = Some ((instance_new 4 3 2)\<lparr>in_chosen := True\<rparr>)"
proof -
  let ?l = "(learner_new \<lparr>cfg_learner_catch_up = True, cfg_proposer_timeout = 1, cfg_quorum_2 = 2,
        cfg_fall_behind_jump = 1, cfg_noop_timeout_us = 1, cfg_await_holes = True, cfg_repropose_values = True\<rparr> 3)
      \<lparr>le_instances := [4 \<mapsto> (instance_new 4 3 2)\<lparr>in_chosen := True\<rparr>]\<rparr>"
  let ?e = "Receive_Chosen \<lparr>cho_iid = 4, cho_ballot = Ballot 9 1, cho_value = [8]\<rparr>"
  have "le_instances (fst (learner_receive_chosen ?l \<lparr>cho_iid = 4, cho_ballot = Ballot 9 1, cho_value = [8]\<rparr>)) 4
      = Some ((instance_new 4 3 2)\<lparr>in_chosen := True\<rparr>)"
    by (rule learned_value_is_final [where e = ?e and l = ?l]) simp_all
  then show ?thesis by simp
qed

end
