(* ===== verification/Agreement.thy ===== *)
theory Agreement
  imports Standard_Acceptor Writeahead_Acceptor Learner
begin

text \<open>
  The composition of acceptors, proposers and the network, and its safety: a cluster of acceptors that
  run the modelled handlers, over a network that may lose, duplicate, delay and reorder messages,
  with proposers that obey the rule of Paxos.  All messages ever sent stay available, so that a step may
  use any of them at any time or never.  Here the acceptors only get the requests of the protocol; the theory
  \<open>Cluster_Runs\<close> adds the other messages that reach an acceptor and states the result.
\<close>

section \<open>Clusters\<close>

text \<open>\<open>cl_votes\<close> records what the acceptors accepted; no step depends on it.\<close>

record 'a cluster =
  cl_acceptor :: "u32 \<Rightarrow> 'a"
  cl_promises :: "paxos_promise set"
  cl_accepts :: "paxos_accept set"
  cl_acks :: "paxos_accepted set"
  cl_votes :: "(u32 \<times> paxos_accept) set"

text \<open>
  The rule for an accept: the promises of \<open>q1\<close> acceptors for its ballot are known, and its value is the
  one accepted at the highest ballot among those promises, or any value if none reports one.
\<close>

definition follows_promises :: "int \<Rightarrow> paxos_promise set \<Rightarrow> paxos_accept \<Rightarrow> bool" where
  "follows_promises q1 promises acc \<longleftrightarrow>
     (\<exists>H \<subseteq> {h \<in> promises. prom_iid h = acc_iid acc \<and> acc_ballot acc \<le> prom_ballot h}.
        q1 \<le> int (card (prom_aid ` H))
        \<and> ((\<forall>h \<in> H. prom_value_ballot h = INVALID_BALLOT)
           \<or> (\<exists>h \<in> H. INVALID_BALLOT < prom_value_ballot h \<and> acc_value acc = prom_value h
                \<and> (\<forall>h' \<in> H. prom_value_ballot h' \<le> prom_value_ballot h))))"

definition promises_in :: "standard_paxos_message option \<Rightarrow> paxos_promise set" where
  "promises_in out = (case out of Some (PAXOS_PROMISE p) \<Rightarrow> {p} | _ \<Rightarrow> {})"

definition acks_in :: "standard_paxos_message option \<Rightarrow> paxos_accepted set" where
  "acks_in out = (case out of Some (PAXOS_ACCEPTED ack) \<Rightarrow> {ack} | _ \<Rightarrow> {})"

definition votes_in :: "('a \<Rightarrow> iid_t \<Rightarrow> synod) \<Rightarrow> 'a \<Rightarrow> u32 \<Rightarrow> acceptor_request \<Rightarrow> (u32 \<times> paxos_accept) set" where
  "votes_in view a' k r =
     (case r of
        Prepare_Request _ \<Rightarrow> {}
      | Accept_Request acc \<Rightarrow>
          if view a' (acc_iid acc) = Synod (acc_ballot acc) (acc_ballot acc) (acc_value acc) then {(k, acc)} else {})"

text \<open>
  Any prepare may reach any acceptor, an accept must have been proposed.  A ballot is used for one value
  only, since it belongs to one proposer, and is not the ballot that stands for none.  An acceptor may at
  any time acknowledge again what it accepted last.
\<close>

inductive cluster_step ::
    "('a \<Rightarrow> acceptor_request \<Rightarrow> 'a \<times> standard_paxos_message option) \<Rightarrow> ('a \<Rightarrow> iid_t \<Rightarrow> synod)
       \<Rightarrow> u32 set \<Rightarrow> int \<Rightarrow> 'a cluster \<Rightarrow> 'a cluster \<Rightarrow> bool"
  for handle view members q1 where
  deliver: "k \<in> members \<Longrightarrow> (\<forall>acc. r = Accept_Request acc \<longrightarrow> acc \<in> cl_accepts c) \<Longrightarrow>
    handle (cl_acceptor c k) r = (a', out) \<Longrightarrow>
    cluster_step handle view members q1 c
      (c\<lparr>cl_acceptor := (cl_acceptor c)(k := a'), cl_promises := cl_promises c \<union> promises_in out,
         cl_acks := cl_acks c \<union> acks_in out, cl_votes := cl_votes c \<union> votes_in view a' k r\<rparr>)"
| propose: "INVALID_BALLOT < acc_ballot acc \<Longrightarrow>
    (\<forall>acc' \<in> cl_accepts c. acc_iid acc' = acc_iid acc \<and> acc_ballot acc' = acc_ballot acc \<longrightarrow> acc' = acc) \<Longrightarrow>
    follows_promises q1 (cl_promises c) acc \<Longrightarrow>
    cluster_step handle view members q1 c (c\<lparr>cl_accepts := insert acc (cl_accepts c)\<rparr>)"
| resend: "k \<in> members \<Longrightarrow> view (cl_acceptor c k) i = Synod p b v \<Longrightarrow> INVALID_BALLOT < b \<Longrightarrow>
    cluster_step handle view members q1 c
      (c\<lparr>cl_acks := insert \<lparr>accd_aid = k, accd_iid = i, accd_promise_ballot = b, accd_value_ballot = b, accd_value = v\<rparr>
                        (cl_acks c)\<rparr>)"

text \<open>Initially no acceptor has accepted anything and nothing was sent.\<close>

definition cluster_start :: "('a \<Rightarrow> iid_t \<Rightarrow> synod) \<Rightarrow> ('a \<Rightarrow> bool) \<Rightarrow> ('a \<Rightarrow> u32) \<Rightarrow> u32 set \<Rightarrow> 'a cluster \<Rightarrow> bool" where
  "cluster_start view invar aid members c \<longleftrightarrow>
     (\<forall>k \<in> members. invar (cl_acceptor c k) \<and> aid (cl_acceptor c k) = k
        \<and> (\<forall>i. syn_ballot (view (cl_acceptor c k) i) = INVALID_BALLOT))
     \<and> cl_promises c = {} \<and> cl_accepts c = {} \<and> cl_acks c = {} \<and> cl_votes c = {}"

inductive cluster_run ::
    "('a \<Rightarrow> acceptor_request \<Rightarrow> 'a \<times> standard_paxos_message option) \<Rightarrow> ('a \<Rightarrow> iid_t \<Rightarrow> synod)
       \<Rightarrow> u32 set \<Rightarrow> int \<Rightarrow> 'a cluster \<Rightarrow> 'a cluster \<Rightarrow> bool"
  for handle view members q1 c0 where
  start: "cluster_run handle view members q1 c0 c0"
| step: "cluster_run handle view members q1 c0 c \<Longrightarrow> cluster_step handle view members q1 c c' \<Longrightarrow>
    cluster_run handle view members q1 c0 c'"

text \<open>A value is chosen in an instance when \<open>q2\<close> acceptors have acknowledged it at one ballot.\<close>

definition acknowledged_by :: "paxos_accepted set \<Rightarrow> iid_t \<Rightarrow> ballot \<Rightarrow> paxos_value \<Rightarrow> u32 set" where
  "acknowledged_by acks i b v =
     {accd_aid ack | ack. ack \<in> acks \<and> accd_iid ack = i \<and> accd_value_ballot ack = b \<and> accd_value ack = v}"

definition chosen_at :: "int \<Rightarrow> paxos_accepted set \<Rightarrow> iid_t \<Rightarrow> ballot \<Rightarrow> paxos_value \<Rightarrow> bool" where
  "chosen_at q2 acks i b v \<longleftrightarrow> q2 \<le> int (card (acknowledged_by acks i b v))"

text \<open>What a learner may have received: acknowledgements, and chosen messages for chosen values.\<close>

definition learner_evidence :: "paxos_accepted set \<Rightarrow> int \<Rightarrow> learner_event set \<Rightarrow> bool" where
  "learner_evidence acks q2 H \<longleftrightarrow>
     (\<forall>ack. Receive_Accepted ack \<in> H \<longrightarrow> ack \<in> acks)
     \<and> (\<forall>m. Receive_Chosen m \<in> H \<longrightarrow> (\<exists>b. chosen_at q2 acks (cho_iid m) b (cho_value m)))"

section \<open>What the proof needs of an acceptor\<close>

text \<open>
  Beside the contract of a single acceptor: replies carry its identity, and what it accepts is what it
  was asked to accept.
\<close>

locale identified_acceptor = synod_acceptor handle view invar
  for handle :: "'a \<Rightarrow> acceptor_request \<Rightarrow> 'a \<times> standard_paxos_message option"
    and view :: "'a \<Rightarrow> iid_t \<Rightarrow> synod" and invar :: "'a \<Rightarrow> bool" +
  fixes aid :: "'a \<Rightarrow> u32"
  assumes handle_aid: "aid (fst (handle a r)) = aid a"
    and promise_aid: "invar a \<Longrightarrow> handle a r = (a', Some (PAXOS_PROMISE p)) \<Longrightarrow> prom_aid p = aid a"
    and accepted_request: "invar a \<Longrightarrow> handle a r = (a', Some (PAXOS_ACCEPTED ack)) \<Longrightarrow>
          accd_aid ack = aid a \<and> r = Accept_Request \<lparr>acc_iid = accd_iid ack, acc_ballot = accd_value_ballot ack,
            acc_value = accd_value ack\<rparr>"
    and accept_only: "invar a \<Longrightarrow> handle a r = (a', out) \<Longrightarrow>
          syn_ballot (view a' i) = syn_ballot (view a i) \<and> syn_value (view a' i) = syn_value (view a i)
          \<or> (\<exists>acc. r = Accept_Request acc \<and> acc_iid acc = i \<and> syn_promised (view a i) \<le> acc_ballot acc
               \<and> view a' i = Synod (acc_ballot acc) (acc_ballot acc) (acc_value acc))"

section \<open>The invariant\<close>

text \<open>
  An accept is safe when at every lower ballot there is a quorum of the first phase whose members either
  voted for the same value or will not vote at that ballot any more.
\<close>

definition safe_accept ::
    "('a \<Rightarrow> iid_t \<Rightarrow> synod) \<Rightarrow> u32 set \<Rightarrow> int \<Rightarrow> 'a cluster \<Rightarrow> paxos_accept \<Rightarrow> bool" where
  "safe_accept view members q1 c acc \<longleftrightarrow>
     (\<forall>b < acc_ballot acc. \<exists>Q \<subseteq> members. q1 \<le> int (card Q) \<and>
        (\<forall>k \<in> Q. b < syn_promised (view (cl_acceptor c k) (acc_iid acc)) \<and>
          (\<forall>acc'. (k, acc') \<in> cl_votes c \<and> acc_iid acc' = acc_iid acc \<and> acc_ballot acc' = b \<longrightarrow>
             acc_value acc' = acc_value acc)))"

definition acceptors_ok :: "('a \<Rightarrow> iid_t \<Rightarrow> synod) \<Rightarrow> ('a \<Rightarrow> bool) \<Rightarrow> ('a \<Rightarrow> u32) \<Rightarrow> u32 set \<Rightarrow> 'a cluster \<Rightarrow> bool" where
  "acceptors_ok view invar aid members c \<longleftrightarrow>
     (\<forall>k \<in> members. invar (cl_acceptor c k) \<and> aid (cl_acceptor c k) = k
        \<and> (\<forall>i. synod_ok (view (cl_acceptor c k) i)
            \<and> (INVALID_BALLOT < syn_ballot (view (cl_acceptor c k) i) \<longrightarrow>
                 (k, \<lparr>acc_iid = i, acc_ballot = syn_ballot (view (cl_acceptor c k) i),
                      acc_value = syn_value (view (cl_acceptor c k) i)\<rparr>) \<in> cl_votes c)))"

definition votes_ok :: "('a \<Rightarrow> iid_t \<Rightarrow> synod) \<Rightarrow> u32 set \<Rightarrow> 'a cluster \<Rightarrow> bool" where
  "votes_ok view members c \<longleftrightarrow>
     (\<forall>(k, acc) \<in> cl_votes c. k \<in> members \<and> acc \<in> cl_accepts c
        \<and> acc_ballot acc \<le> syn_ballot (view (cl_acceptor c k) (acc_iid acc)))
     \<and> (\<forall>ack \<in> cl_acks c. (accd_aid ack, \<lparr>acc_iid = accd_iid ack, acc_ballot = accd_value_ballot ack,
            acc_value = accd_value ack\<rparr>) \<in> cl_votes c)"

definition promise_ok :: "('a \<Rightarrow> iid_t \<Rightarrow> synod) \<Rightarrow> u32 set \<Rightarrow> 'a cluster \<Rightarrow> paxos_promise \<Rightarrow> bool" where
  "promise_ok view members c p \<longleftrightarrow>
     prom_aid p \<in> members
     \<and> prom_ballot p \<le> syn_promised (view (cl_acceptor c (prom_aid p)) (prom_iid p))
     \<and> (INVALID_BALLOT < prom_value_ballot p \<longrightarrow>
          (prom_aid p, \<lparr>acc_iid = prom_iid p, acc_ballot = prom_value_ballot p, acc_value = prom_value p\<rparr>) \<in> cl_votes c)
     \<and> (\<forall>acc. (prom_aid p, acc) \<in> cl_votes c \<and> acc_iid acc = prom_iid p \<longrightarrow>
          acc_ballot acc \<le> prom_value_ballot p \<or> prom_ballot p \<le> acc_ballot acc)"

definition accepts_ok :: "('a \<Rightarrow> iid_t \<Rightarrow> synod) \<Rightarrow> u32 set \<Rightarrow> int \<Rightarrow> 'a cluster \<Rightarrow> bool" where
  "accepts_ok view members q1 c \<longleftrightarrow>
     (\<forall>acc \<in> cl_accepts c. INVALID_BALLOT < acc_ballot acc \<and> safe_accept view members q1 c acc
        \<and> (\<forall>acc' \<in> cl_accepts c. acc_iid acc' = acc_iid acc \<and> acc_ballot acc' = acc_ballot acc \<longrightarrow> acc' = acc))"

definition cluster_ok ::
    "('a \<Rightarrow> iid_t \<Rightarrow> synod) \<Rightarrow> ('a \<Rightarrow> bool) \<Rightarrow> ('a \<Rightarrow> u32) \<Rightarrow> u32 set \<Rightarrow> int \<Rightarrow> 'a cluster \<Rightarrow> bool" where
  "cluster_ok view invar aid members q1 c \<longleftrightarrow>
     acceptors_ok view invar aid members c \<and> votes_ok view members c
     \<and> (\<forall>p \<in> cl_promises c. promise_ok view members c p) \<and> accepts_ok view members q1 c"

lemma cluster_start_ok: "cluster_start view invar aid members c \<Longrightarrow> cluster_ok view invar aid members q1 c"
  by (auto simp: cluster_start_def cluster_ok_def acceptors_ok_def votes_ok_def accepts_ok_def synod_ok_def)

text \<open>
  A step that only adds votes, each at a ballot that its voter had not yet promised to leave alone,
  keeps safe accepts safe and old promises right.
\<close>

definition grows :: "('a \<Rightarrow> iid_t \<Rightarrow> synod) \<Rightarrow> 'a cluster \<Rightarrow> 'a cluster \<Rightarrow> bool" where
  "grows view c c' \<longleftrightarrow> cl_votes c \<subseteq> cl_votes c'
     \<and> (\<forall>k i. syn_promised (view (cl_acceptor c k) i) \<le> syn_promised (view (cl_acceptor c' k) i))
     \<and> (\<forall>k acc. (k, acc) \<in> cl_votes c' \<longrightarrow>
          (k, acc) \<in> cl_votes c \<or> syn_promised (view (cl_acceptor c k) (acc_iid acc)) \<le> acc_ballot acc)"

lemma safe_accept_grows:
  assumes "safe_accept view members q1 c acc" "grows view c c'"
  shows "safe_accept view members q1 c' acc"
  unfolding safe_accept_def
proof (intro allI impI)
  fix b assume "b < acc_ballot acc"
  with assms(1) obtain Q where Q: "Q \<subseteq> members" "q1 \<le> int (card Q)"
    "\<And>k. k \<in> Q \<Longrightarrow> b < syn_promised (view (cl_acceptor c k) (acc_iid acc))"
    "\<And>k acc'. k \<in> Q \<Longrightarrow> (k, acc') \<in> cl_votes c \<Longrightarrow> acc_iid acc' = acc_iid acc \<Longrightarrow> acc_ballot acc' = b \<Longrightarrow>
       acc_value acc' = acc_value acc"
    unfolding safe_accept_def by metis
  have "(k, acc') \<in> cl_votes c" if "k \<in> Q" "(k, acc') \<in> cl_votes c'" "acc_iid acc' = acc_iid acc" "acc_ballot acc' = b"
    for k acc'
    using assms(2) Q(3) [OF that(1)] that unfolding grows_def by (metis leD)
  with Q assms(2) show "\<exists>Q \<subseteq> members. q1 \<le> int (card Q) \<and>
      (\<forall>k \<in> Q. b < syn_promised (view (cl_acceptor c' k) (acc_iid acc)) \<and>
        (\<forall>acc'. (k, acc') \<in> cl_votes c' \<and> acc_iid acc' = acc_iid acc \<and> acc_ballot acc' = b \<longrightarrow>
           acc_value acc' = acc_value acc))"
    unfolding grows_def by (intro exI [of _ Q]) (metis less_le_trans)
qed

lemma promise_ok_grows:
  assumes "promise_ok view members c p" "grows view c c'"
  shows "promise_ok view members c' p"
proof -
  let ?k = "prom_aid p" and ?i = "prom_iid p"
  have p: "?k \<in> members" "prom_ballot p \<le> syn_promised (view (cl_acceptor c ?k) ?i)"
    "INVALID_BALLOT < prom_value_ballot p \<Longrightarrow>
       (?k, \<lparr>acc_iid = ?i, acc_ballot = prom_value_ballot p, acc_value = prom_value p\<rparr>) \<in> cl_votes c"
    "\<And>acc. (?k, acc) \<in> cl_votes c \<Longrightarrow> acc_iid acc = ?i \<Longrightarrow>
       acc_ballot acc \<le> prom_value_ballot p \<or> prom_ballot p \<le> acc_ballot acc"
    using assms(1) by (auto simp: promise_ok_def)
  have "acc_ballot acc \<le> prom_value_ballot p \<or> prom_ballot p \<le> acc_ballot acc"
    if "(?k, acc) \<in> cl_votes c'" "acc_iid acc = ?i" for acc
  proof (cases "(?k, acc) \<in> cl_votes c")
    case False
    then have "syn_promised (view (cl_acceptor c ?k) ?i) \<le> acc_ballot acc"
      using assms(2) that unfolding grows_def by metis
    then show ?thesis using p(2) by (meson order.trans)
  qed (use p(4) that in blast)
  moreover have "prom_ballot p \<le> syn_promised (view (cl_acceptor c' ?k) ?i)"
    using p(2) assms(2) by (meson grows_def order.trans)
  ultimately show ?thesis using p(1,3) assms(2) by (auto simp: promise_ok_def grows_def)
qed

text \<open>The rule for proposals makes every accept safe.\<close>

lemma follows_promises_safe:
  assumes ok: "cluster_ok view invar aid members q1 c" and fin: "finite members"
    and rule: "follows_promises q1 (cl_promises c) acc"
  shows "safe_accept view members q1 c acc"
  unfolding safe_accept_def
proof (intro allI impI)
  fix b assume b: "b < acc_ballot acc"
  from rule obtain H where H: "H \<subseteq> cl_promises c"
    "\<And>h. h \<in> H \<Longrightarrow> prom_iid h = acc_iid acc \<and> acc_ballot acc \<le> prom_ballot h" "q1 \<le> int (card (prom_aid ` H))"
    and val: "(\<forall>h \<in> H. prom_value_ballot h = INVALID_BALLOT)
       \<or> (\<exists>h \<in> H. INVALID_BALLOT < prom_value_ballot h \<and> acc_value acc = prom_value h
            \<and> (\<forall>h' \<in> H. prom_value_ballot h' \<le> prom_value_ballot h))"
    unfolding follows_promises_def by blast
  have prom: "promise_ok view members c h" if "h \<in> H" for h
    using ok H(1) that by (auto simp: cluster_ok_def)
  have votes: "acc' \<in> cl_accepts c" if "(k, acc') \<in> cl_votes c" for k acc'
    using ok that by (auto simp: cluster_ok_def votes_ok_def)
  have accepts: "INVALID_BALLOT < acc_ballot acc'" "safe_accept view members q1 c acc'"
    "\<And>acc''. acc'' \<in> cl_accepts c \<Longrightarrow> acc_iid acc'' = acc_iid acc' \<Longrightarrow> acc_ballot acc'' = acc_ballot acc' \<Longrightarrow> acc'' = acc'"
    if "acc' \<in> cl_accepts c" for acc'
    using ok that by (auto simp: cluster_ok_def accepts_ok_def)
  have below: "b < syn_promised (view (cl_acceptor c (prom_aid h)) (acc_iid acc))" if "h \<in> H" for h
    using prom [OF that] H(2) [OF that] b by (auto simp: promise_ok_def intro: less_le_trans)
  have vote: "b \<le> prom_value_ballot h" if "h \<in> H" "(prom_aid h, acc') \<in> cl_votes c" "acc_iid acc' = acc_iid acc"
      "acc_ballot acc' = b" for h acc'
    using prom [OF that(1)] H(2) [OF that(1)] that(2-4) b unfolding promise_ok_def by (metis leD order.strict_trans1 le_less_trans)
  let ?Q = "prom_aid ` H"
  have Q: "?Q \<subseteq> members" using prom by (auto simp: promise_ok_def)
  show "\<exists>Q \<subseteq> members. q1 \<le> int (card Q) \<and>
      (\<forall>k \<in> Q. b < syn_promised (view (cl_acceptor c k) (acc_iid acc)) \<and>
        (\<forall>acc'. (k, acc') \<in> cl_votes c \<and> acc_iid acc' = acc_iid acc \<and> acc_ballot acc' = b \<longrightarrow>
           acc_value acc' = acc_value acc))"
  proof (cases "\<forall>h \<in> H. prom_value_ballot h = INVALID_BALLOT")
    case True
    have "False" if "h \<in> H" "(prom_aid h, acc') \<in> cl_votes c" "acc_iid acc' = acc_iid acc" "acc_ballot acc' = b" for h acc'
      using vote [OF that] True that(1,4) accepts(1) [OF votes [OF that(2)]] by (simp add: leD)
    with Q H(3) below show ?thesis by (intro exI [of _ ?Q]) blast
  next
    case False
    with val obtain h where h: "h \<in> H" "INVALID_BALLOT < prom_value_ballot h" "acc_value acc = prom_value h"
      "\<And>h'. h' \<in> H \<Longrightarrow> prom_value_ballot h' \<le> prom_value_ballot h" by blast
    let ?top = "\<lparr>acc_iid = acc_iid acc, acc_ballot = prom_value_ballot h, acc_value = prom_value h\<rparr>"
    have top: "?top \<in> cl_accepts c"
      using prom [OF h(1)] h(2) H(2) [OF h(1)] votes [of "prom_aid h" ?top] by (simp add: promise_ok_def)
    show ?thesis
    proof (cases "b < prom_value_ballot h")
      case True
      with accepts(2) [OF top] show ?thesis by (simp add: safe_accept_def h(3))
    next
      case False
      have "acc_value acc' = acc_value acc"
        if "h' \<in> H" "(prom_aid h', acc') \<in> cl_votes c" "acc_iid acc' = acc_iid acc" "acc_ballot acc' = b" for h' acc'
      proof -
        have "acc_ballot acc' = prom_value_ballot h"
          using vote [OF that] h(4) [OF that(1)] False that(4) by (meson leI order.antisym order.trans)
        then have "acc' = ?top" using accepts(3) [OF top votes [OF that(2)]] that(3) by simp
        then show ?thesis by (simp add: h(3))
      qed
      with Q H(3) below show ?thesis by (intro exI [of _ ?Q]) blast
    qed
  qed
qed

section \<open>Every step keeps the invariant\<close>

context identified_acceptor
begin

lemma vote_promised:
  assumes "invar a" "handle a r = (a', out)" "(k, acc) \<in> votes_in view a' k' r"
  shows "k = k'" "r = Accept_Request acc" "view a' (acc_iid acc) = Synod (acc_ballot acc) (acc_ballot acc) (acc_value acc)"
    and "syn_promised (view a (acc_iid acc)) \<le> acc_ballot acc"
proof -
  show v: "k = k'" "r = Accept_Request acc"
    "view a' (acc_iid acc) = Synod (acc_ballot acc) (acc_ballot acc) (acc_value acc)"
    using assms(3) by (auto simp: votes_in_def split: acceptor_request.splits if_splits)
  show "syn_promised (view a (acc_iid acc)) \<le> acc_ballot acc"
    using synod_step_promised_mono [OF handle_step [OF assms(1), of "acc_iid acc" r]] assms(2) v(3) by simp
qed

lemma accept_votes:
  assumes "invar a" "handle a r = (a', out)"
  shows "syn_ballot (view a' i) = syn_ballot (view a i) \<and> syn_value (view a' i) = syn_value (view a i)
    \<or> (k, \<lparr>acc_iid = i, acc_ballot = syn_ballot (view a' i), acc_value = syn_value (view a' i)\<rparr>) \<in> votes_in view a' k r"
  using accept_only [OF assms, of i] by (auto simp: votes_in_def)

lemma deliver_ok:
  assumes ok: "cluster_ok view invar aid members q1 c" and k: "k \<in> members"
    and r: "\<forall>acc. r = Accept_Request acc \<longrightarrow> acc \<in> cl_accepts c" and h: "handle (cl_acceptor c k) r = (a', out)"
  defines "c' \<equiv> c\<lparr>cl_acceptor := (cl_acceptor c)(k := a'), cl_promises := cl_promises c \<union> promises_in out,
      cl_acks := cl_acks c \<union> acks_in out, cl_votes := cl_votes c \<union> votes_in view a' k r\<rparr>"
  shows "cluster_ok view invar aid members q1 c'"
proof -
  let ?a = "cl_acceptor c k"
  have acceptors: "acceptors_ok view invar aid members c" and votes: "votes_ok view members c"
    and promises: "\<And>p. p \<in> cl_promises c \<Longrightarrow> promise_ok view members c p" and accepts: "accepts_ok view members q1 c"
    using ok by (simp_all add: cluster_ok_def)
  have a: "invar ?a" "aid ?a = k" "\<And>i. synod_ok (view ?a i)" using acceptors k by (auto simp: acceptors_ok_def)
  have st: "synod_step (view ?a i) (view a' i)" for i using handle_step [OF a(1), of i r] h by simp
  note new = vote_promised [OF a(1) h]
  have grows: "grows view c c'"
    using synod_step_promised_mono [OF st] new(1,4) unfolding grows_def c'_def by auto metis
  have "acceptors_ok view invar aid members c'"
  proof -
    have "(k, \<lparr>acc_iid = i, acc_ballot = syn_ballot (view a' i), acc_value = syn_value (view a' i)\<rparr>) \<in> cl_votes c'"
      if "INVALID_BALLOT < syn_ballot (view a' i)" for i
      using accept_votes [OF a(1) h, of i k] acceptors k that by (auto simp: acceptors_ok_def c'_def)
    moreover have "invar a'" "aid a' = k" using invar_handle [OF a(1), of r] handle_aid [of ?a r] a(2) h by simp_all
    ultimately show ?thesis
      using acceptors synod_step_ok [OF st a(3)] by (auto simp: acceptors_ok_def c'_def)
  qed
  moreover have "votes_ok view members c'"
  proof -
    have "acc_ballot acc \<le> syn_ballot (view (cl_acceptor c' k') (acc_iid acc))" if "(k', acc) \<in> cl_votes c'" for k' acc
    proof (cases "(k', acc) \<in> cl_votes c")
      case True
      then have "acc_ballot acc \<le> syn_ballot (view (cl_acceptor c k') (acc_iid acc))"
        using votes by (auto simp: votes_ok_def)
      then show ?thesis using synod_step_ballot_mono [OF st a(3), of "acc_iid acc"] by (auto simp: c'_def)
    qed (use that new in \<open>auto simp: c'_def\<close>)
    moreover have "k' \<in> members \<and> acc \<in> cl_accepts c'" if "(k', acc) \<in> cl_votes c'" for k' acc
      using that votes new r k by (auto simp: c'_def votes_ok_def)
    moreover have "(accd_aid ack, \<lparr>acc_iid = accd_iid ack, acc_ballot = accd_value_ballot ack,
        acc_value = accd_value ack\<rparr>) \<in> cl_votes c'" if "ack \<in> cl_acks c'" for ack
    proof (cases "ack \<in> cl_acks c")
      case True
      then show ?thesis using votes by (auto simp: c'_def votes_ok_def)
    next
      case False
      with that have "out = Some (PAXOS_ACCEPTED ack)"
        by (auto simp: c'_def acks_in_def split: option.splits standard_paxos_message.splits)
      with h have h': "handle ?a r = (a', Some (PAXOS_ACCEPTED ack))" by simp
      have "view a' (accd_iid ack) = Synod (accd_value_ballot ack) (accd_value_ballot ack) (accd_value ack)"
        using accepted_reply [OF a(1) h'] by (cases "view a' (accd_iid ack)") simp
      then show ?thesis using accepted_request [OF a(1) h'] a(2) by (simp add: c'_def votes_in_def)
    qed
    ultimately show ?thesis by (auto simp: votes_ok_def)
  qed
  moreover have "promise_ok view members c' p" if "p \<in> cl_promises c'" for p
  proof (cases "p \<in> cl_promises c")
    case True
    then show ?thesis using promises grows promise_ok_grows by blast
  next
    case False
    with that have "out = Some (PAXOS_PROMISE p)"
      by (auto simp: c'_def promises_in_def split: option.splits standard_paxos_message.splits)
    with h have h': "handle ?a r = (a', Some (PAXOS_PROMISE p))" by simp
    note reply = promise_reply [OF a(1) h']
    have aid: "prom_aid p = k" using promise_aid [OF a(1) h'] a(2) by simp
    have "acc_ballot acc \<le> prom_value_ballot p \<or> prom_ballot p \<le> acc_ballot acc"
      if "(k, acc) \<in> cl_votes c'" "acc_iid acc = prom_iid p" for acc
    proof (cases "(k, acc) \<in> cl_votes c")
      case True
      then show ?thesis using votes reply that(2) by (auto simp: votes_ok_def)
    next
      case False
      with that(1) have "(k, acc) \<in> votes_in view a' k r" by (simp add: c'_def)
      from new(3) [OF this] show ?thesis using reply that(2) by simp
    qed
    moreover have "(k, \<lparr>acc_iid = prom_iid p, acc_ballot = prom_value_ballot p, acc_value = prom_value p\<rparr>) \<in> cl_votes c"
      if "INVALID_BALLOT < prom_value_ballot p"
      using acceptors k reply that by (auto simp: acceptors_ok_def)
    ultimately show ?thesis using k reply by (auto simp: promise_ok_def aid c'_def)
  qed
  moreover have "accepts_ok view members q1 c'"
    using accepts safe_accept_grows [OF _ grows] by (auto simp: accepts_ok_def c'_def)
  ultimately show ?thesis by (simp add: cluster_ok_def)
qed

lemma propose_ok:
  assumes ok: "cluster_ok view invar aid members q1 c" and fin: "finite members"
    and acc: "INVALID_BALLOT < acc_ballot acc"
      "\<forall>acc' \<in> cl_accepts c. acc_iid acc' = acc_iid acc \<and> acc_ballot acc' = acc_ballot acc \<longrightarrow> acc' = acc"
      "follows_promises q1 (cl_promises c) acc"
  shows "cluster_ok view invar aid members q1 (c\<lparr>cl_accepts := insert acc (cl_accepts c)\<rparr>)"
proof -
  let ?c = "c\<lparr>cl_accepts := insert acc (cl_accepts c)\<rparr>"
  have grows: "grows view c ?c" by (simp add: grows_def)
  have "safe_accept view members q1 ?c acc"
    using safe_accept_grows [OF follows_promises_safe [OF ok fin acc(3)] grows] .
  then have "accepts_ok view members q1 ?c"
    using ok acc(1,2) safe_accept_grows [OF _ grows] by (auto simp: cluster_ok_def accepts_ok_def)
  then show ?thesis
    using ok promise_ok_grows [OF _ grows] by (auto simp: cluster_ok_def acceptors_ok_def votes_ok_def)
qed

lemma resend_ok:
  assumes ok: "cluster_ok view invar aid members q1 c" and k: "k \<in> members"
    and v: "view (cl_acceptor c k) i = Synod p b v" "INVALID_BALLOT < b"
  shows "cluster_ok view invar aid members q1 (c\<lparr>cl_acks := insert \<lparr>accd_aid = k, accd_iid = i,
    accd_promise_ballot = b, accd_value_ballot = b, accd_value = v\<rparr> (cl_acks c)\<rparr>)"
proof -
  let ?c = "c\<lparr>cl_acks := insert \<lparr>accd_aid = k, accd_iid = i, accd_promise_ballot = b, accd_value_ballot = b,
    accd_value = v\<rparr> (cl_acks c)\<rparr>"
  have grows: "grows view c ?c" by (simp add: grows_def)
  have "INVALID_BALLOT < syn_ballot (view (cl_acceptor c k) i)" using v by simp
  then have "(k, \<lparr>acc_iid = i, acc_ballot = b, acc_value = v\<rparr>) \<in> cl_votes c"
    using ok k v(1) unfolding cluster_ok_def acceptors_ok_def by (metis synod.sel(2,3))
  then have "votes_ok view members ?c" using ok by (simp add: cluster_ok_def votes_ok_def)
  then show ?thesis
    using ok promise_ok_grows [OF _ grows] safe_accept_grows [OF _ grows]
    by (auto simp: cluster_ok_def acceptors_ok_def accepts_ok_def)
qed

lemma cluster_step_ok:
  "cluster_step handle view members q1 c c' \<Longrightarrow> finite members \<Longrightarrow> cluster_ok view invar aid members q1 c \<Longrightarrow>
     cluster_ok view invar aid members q1 c'"
  by (induction rule: cluster_step.induct) (use deliver_ok propose_ok resend_ok in blast)+

lemma cluster_run_ok:
  "cluster_run handle view members q1 c0 c \<Longrightarrow> finite members \<Longrightarrow> cluster_start view invar aid members c0 \<Longrightarrow>
     cluster_ok view invar aid members q1 c"
  by (induction rule: cluster_run.induct) (auto intro: cluster_start_ok cluster_step_ok)

text \<open>Two values chosen in one instance are equal.\<close>

lemma chosen_below:
  assumes ok: "cluster_ok view invar aid members q1 c" "finite members" "int (card members) < q1 + q2"
    and "chosen_at q2 (cl_acks c) i b v" "acc \<in> cl_accepts c" "acc_iid acc = i" "b < acc_ballot acc"
  shows "acc_value acc = v"
proof -
  let ?Q2 = "acknowledged_by (cl_acks c) i b v"
  have q2: "q2 \<le> int (card ?Q2)" using assms(4) by (simp add: chosen_at_def)
  have vote: "(k, \<lparr>acc_iid = i, acc_ballot = b, acc_value = v\<rparr>) \<in> cl_votes c" if "k \<in> ?Q2" for k
    using that ok(1) by (auto simp: cluster_ok_def votes_ok_def acknowledged_by_def)
  then have mem: "?Q2 \<subseteq> members" using ok(1) by (auto simp: cluster_ok_def votes_ok_def)
  have "safe_accept view members q1 c acc" using ok(1) assms(5) by (auto simp: cluster_ok_def accepts_ok_def)
  with assms(6,7) obtain Q where Q: "Q \<subseteq> members" "q1 \<le> int (card Q)"
    "\<And>k acc'. k \<in> Q \<Longrightarrow> (k, acc') \<in> cl_votes c \<Longrightarrow> acc_iid acc' = i \<Longrightarrow> acc_ballot acc' = b \<Longrightarrow> acc_value acc' = acc_value acc"
    unfolding safe_accept_def by metis
  have "Q \<inter> ?Q2 \<noteq> {}"
  proof
    assume "Q \<inter> ?Q2 = {}"
    then have "card Q + card ?Q2 = card (Q \<union> ?Q2)"
      using Q(1) mem ok(2) by (simp add: card_Un_disjoint finite_subset)
    also have "\<dots> \<le> card members" using Q(1) mem ok(2) by (simp add: card_mono)
    finally show False using q2 Q(2) ok(3) by linarith
  qed
  then obtain k where k: "k \<in> Q" "k \<in> ?Q2" by blast
  from Q(3) [OF k(1) vote [OF k(2)]] show ?thesis by simp
qed

lemma agreement:
  assumes ok: "cluster_ok view invar aid members q1 c" "finite members" "int (card members) < q1 + q2"
    and "0 < q2" "chosen_at q2 (cl_acks c) i b v" "chosen_at q2 (cl_acks c) i b' v'"
  shows "v = v'"
proof -
  have proposed: "\<lparr>acc_iid = i, acc_ballot = b, acc_value = v\<rparr> \<in> cl_accepts c" if "chosen_at q2 (cl_acks c) i b v" for b v
  proof -
    have "acknowledged_by (cl_acks c) i b v \<noteq> {}" using that assms(4) by (auto simp: chosen_at_def)
    then obtain ack where ack: "ack \<in> cl_acks c" "accd_iid ack = i" "accd_value_ballot ack = b" "accd_value ack = v"
      by (auto simp: acknowledged_by_def)
    have "votes_ok view members c" using ok(1) by (simp add: cluster_ok_def)
    then have "(accd_aid ack, \<lparr>acc_iid = i, acc_ballot = b, acc_value = v\<rparr>) \<in> cl_votes c"
      using ack unfolding votes_ok_def by blast
    then show ?thesis using ok(1) by (auto simp: cluster_ok_def votes_ok_def)
  qed
  note p = proposed [OF assms(5)] proposed [OF assms(6)]
  consider "b < b'" | "b' < b" | "b = b'" by fastforce
  then show ?thesis
  proof cases
    case 1
    then show ?thesis using chosen_below [OF ok assms(5) p(2)] by simp
  next
    case 2
    then show ?thesis using chosen_below [OF ok assms(6) p(1)] by simp
  next
    case 3
    have "\<lparr>acc_iid = i, acc_ballot = b, acc_value = v\<rparr> = \<lparr>acc_iid = i, acc_ballot = b', acc_value = v'\<rparr>"
      using ok(1) p 3 unfolding cluster_ok_def accepts_ok_def by (metis paxos_accept.select_convs(1,2))
    then show ?thesis by simp
  qed
qed

text \<open>
  Learners that see acknowledgements of the cluster, and chosen messages for values that were chosen,
  learn only chosen values.
\<close>

lemma learned_is_chosen:
  assumes ok: "cluster_ok view invar aid members q1 c"
    and H: "learner_evidence (cl_acks c) q2 H" and learned: "learned_from H q2 i v"
  shows "\<exists>b. chosen_at q2 (cl_acks c) i b v"
  using learned unfolding learned_from_def
proof
  assume "\<exists>m. Receive_Chosen m \<in> H \<and> cho_iid m = i \<and> cho_value m = v"
  then show ?thesis using H by (auto simp: learner_evidence_def)
next
  assume "\<exists>ack. Receive_Accepted ack \<in> H \<and> accd_iid ack = i \<and> accd_value ack = v
    \<and> q2 \<le> int (card (voters H i (accd_value_ballot ack)))"
  then obtain ack where ack: "ack \<in> cl_acks c" "accd_iid ack = i" "accd_value ack = v"
    and q2: "q2 \<le> int (card (voters H i (accd_value_ballot ack)))"
    using H by (auto simp: learner_evidence_def)
  let ?b = "accd_value_ballot ack"
  have vote: "\<lparr>acc_iid = accd_iid m, acc_ballot = accd_value_ballot m, acc_value = accd_value m\<rparr> \<in> cl_accepts c"
    if "m \<in> cl_acks c" for m
    using ok that by (fastforce simp: cluster_ok_def votes_ok_def)
  have "accd_value m = v" if "m \<in> cl_acks c" "accd_iid m = i" "accd_value_ballot m = ?b" for m
    using ok vote [OF that(1)] vote [OF ack(1)] that(2,3) ack(2,3) unfolding cluster_ok_def accepts_ok_def
    by (metis paxos_accept.select_convs)
  then have "voters H i ?b \<subseteq> sint ` acknowledged_by (cl_acks c) i ?b v"
    using H by (auto simp: voters_def acknowledged_by_def learner_evidence_def)
  then have "card (voters H i ?b) \<le> card (sint ` acknowledged_by (cl_acks c) i ?b v)"
    by (simp add: card_mono)
  also have "\<dots> \<le> card (acknowledged_by (cl_acks c) i ?b v)" by (simp add: card_image_le)
  finally show ?thesis using q2 by (intro exI [of _ ?b]) (simp add: chosen_at_def)
qed

lemma evidence_positive:
  assumes "cluster_ok view invar aid members q1 c" "learner_evidence (cl_acks c) q2 H" "Receive_Accepted ack \<in> H"
  shows "INVALID_BALLOT < accd_value_ballot ack"
  using assms by (fastforce simp: cluster_ok_def votes_ok_def accepts_ok_def learner_evidence_def)

lemma learners_agree:
  assumes ok: "cluster_ok view invar aid members q1 c" "finite members" "int (card members) < q1 + cfg_quorum_2 cfg"
      "0 < cfg_quorum_2 cfg"
    and es: "learner_evidence (cl_acks c) (cfg_quorum_2 cfg) (set es)"
      "learner_evidence (cl_acks c) (cfg_quorum_2 cfg) (set es')"
    and run: "learner_run (learner_new cfg n) es = Some (l, anns, dels)"
      "learner_run (learner_new cfg n') es' = Some (l', anns', dels')"
    and del: "(i, v) \<in> set dels" "(i, v') \<in> set dels'"
  shows "v = v'"
proof -
  have learned: "learned_from (set es) (cfg_quorum_2 cfg) i v"
    if "learner_evidence (cl_acks c) (cfg_quorum_2 cfg) (set es)"
      "learner_run (learner_new cfg n) es = Some (l, anns, dels)" "(i, v) \<in> set dels" for es n l anns dels v
  proof -
    have "learner_ok {} (learner_new cfg n)" by (simp add: learner_ok_def learner_new_def)
    from learner_run_ok [OF this _ _ order.refl _ that(2)] evidence_positive [OF ok(1) that(1)] that(3)
    show ?thesis by (auto simp: outputs_ok_def learner_new_def)
  qed
  from learned_is_chosen [OF ok(1) es(1) learned [OF es(1) run(1) del(1)]]
    learned_is_chosen [OF ok(1) es(2) learned [OF es(2) run(2) del(2)]]
  show ?thesis using agreement [OF ok] by blast
qed

end

section \<open>The acceptors of the repository in a cluster\<close>

lemma standard_acceptor_handle_id: "sa_id (fst (standard_acceptor_handle api a r)) = sa_id a"
  by (cases r) (auto simp: standard_acceptor_receive_prepare_def standard_acceptor_receive_accept_def Let_def
      split: prod.split)

lemma standard_acceptor_handle_cases:
  assumes "standard_acceptor_wf a" "standard_acceptor_handle api a r = (a', out)"
  obtains (prepare) req where "r = Prepare_Request req" "\<And>ack. out \<noteq> Some (PAXOS_ACCEPTED ack)"
      "\<And>p. out = Some (PAXOS_PROMISE p) \<Longrightarrow> prom_aid p = sa_id a"
      "\<And>i. accepted_ballot (sa_paxos_storage a') i = accepted_ballot (sa_paxos_storage a) i"
      "\<And>i. accepted_value (sa_paxos_storage a') i = accepted_value (sa_paxos_storage a) i"
    | (accept) req where "r = Accept_Request req" "\<And>p. out \<noteq> Some (PAXOS_PROMISE p)"
      "\<And>ack. out = Some (PAXOS_ACCEPTED ack) \<Longrightarrow> ack = paxos_accept_to_accepted (sa_id a) req"
      "sa_paxos_storage a' = sa_paxos_storage a
       \<or> sa_paxos_storage a' = hash_mapped_memory_store_instance_info (sa_paxos_storage a)
            (paxos_accept_to_accepted (sa_id a) req)
          \<and> promised (sa_paxos_storage a) (acc_iid req) \<le> acc_ballot req"
proof (cases r)
  case (Prepare_Request req)
  with assms(2) obtain pre where "standard_acceptor_receive_prepare api a req = (a', out, pre)"
    by (auto split: prod.splits)
  from assms(1) this show thesis
    by (rule receive_prepare_cases) (rule prepare [OF Prepare_Request]; auto simp: store_simps)+
next
  case (Accept_Request req)
  with assms(2) obtain pre where "standard_acceptor_receive_accept api a req = (a', out, pre)"
    by (auto split: prod.splits)
  from assms(1) this show thesis
    by (rule receive_accept_cases) (rule accept [OF Accept_Request]; auto)+
qed

interpretation std_cluster: identified_acceptor "standard_acceptor_handle api" standard_acceptor_view
    standard_acceptor_wf sa_id
  for api :: "'h stable_storage_api"
proof unfold_locales
  fix a a' :: "'h standard_acceptor" and r p ack out i
  show "sa_id (fst (standard_acceptor_handle api a r)) = sa_id a" by (rule standard_acceptor_handle_id)
  assume wf: "standard_acceptor_wf a"
  show "prom_aid p = sa_id a" if "standard_acceptor_handle api a r = (a', Some (PAXOS_PROMISE p))"
    using wf that by (rule standard_acceptor_handle_cases) auto
  show "accd_aid ack = sa_id a \<and> r = Accept_Request \<lparr>acc_iid = accd_iid ack, acc_ballot = accd_value_ballot ack,
      acc_value = accd_value ack\<rparr>" if "standard_acceptor_handle api a r = (a', Some (PAXOS_ACCEPTED ack))"
    using wf that by (rule standard_acceptor_handle_cases) (auto simp: conv_simps)
  show "syn_ballot (standard_acceptor_view a' i) = syn_ballot (standard_acceptor_view a i)
        \<and> syn_value (standard_acceptor_view a' i) = syn_value (standard_acceptor_view a i)
      \<or> (\<exists>acc. r = Accept_Request acc \<and> acc_iid acc = i \<and> syn_promised (standard_acceptor_view a i) \<le> acc_ballot acc
           \<and> standard_acceptor_view a' i = Synod (acc_ballot acc) (acc_ballot acc) (acc_value acc))"
    if "standard_acceptor_handle api a r = (a', out)"
    using wf that
    by (rule standard_acceptor_handle_cases) (auto simp: standard_acceptor_view_def store_simps conv_simps split: if_splits)
qed

lemma writeahead_handle_id: "wa_id (fst (writeahead_handle api a r)) = wa_id a"
  by (cases r) (auto simp: write_ahead_window_acceptor_receive_prepare_def
      write_ahead_window_acceptor_receive_accept_def wa_store_defs write_acceptance_to_storage_def Let_def
      split: prod.split)

lemma writeahead_handle_cases:
  assumes "writeahead_wf a" "writeahead_handle api a r = (a', out)"
  obtains (prepare) req where "r = Prepare_Request req" "\<And>ack. out \<noteq> Some (PAXOS_ACCEPTED ack)"
      "\<And>p. out = Some (PAXOS_PROMISE p) \<Longrightarrow> prom_aid p = wa_id a"
      "\<And>i. syn_ballot (writeahead_view a' i) = syn_ballot (writeahead_view a i)"
      "\<And>i. syn_value (writeahead_view a' i) = syn_value (writeahead_view a i)"
    | (accept) req where "r = Accept_Request req" "\<And>p. out \<noteq> Some (PAXOS_PROMISE p)"
      "\<And>ack. out = Some (PAXOS_ACCEPTED ack) \<Longrightarrow> ack = paxos_accept_to_accepted (wa_id a) req"
      "writeahead_view a' = writeahead_view a
       \<or> writeahead_view a' = (writeahead_view a)(acc_iid req := Synod (acc_ballot req) (acc_ballot req) (acc_value req))
          \<and> syn_promised (writeahead_view a (acc_iid req)) \<le> acc_ballot req"
proof (cases r)
  case (Prepare_Request req)
  with assms(2) have "write_ahead_window_acceptor_receive_prepare api a req = (a', out)" by simp
  from assms(1) this show thesis
    by (rule wa_receive_prepare_cases)
      (rule prepare [OF Prepare_Request]; use assms(1) in \<open>auto simp: writeahead_view_def store_simps writeahead_wf_def\<close>)+
next
  case (Accept_Request req)
  with assms(2) have "write_ahead_window_acceptor_receive_accept api a req = (a', out)" by simp
  from assms(1) this show thesis
    by (rule wa_receive_accept_cases)
      (rule accept [OF Accept_Request]; use assms(1) in
        \<open>auto simp: fun_eq_iff writeahead_view_def store_simps conv_simps writeahead_wf_def\<close>)+
qed

interpretation wa_cluster: identified_acceptor "writeahead_handle api" writeahead_view writeahead_wf wa_id
  for api :: "'h stable_storage_api"
proof unfold_locales
  fix a a' :: "'h writeahead_ballot_acceptor" and r p ack out i
  show "wa_id (fst (writeahead_handle api a r)) = wa_id a" by (rule writeahead_handle_id)
  assume wf: "writeahead_wf a"
  show "prom_aid p = wa_id a" if "writeahead_handle api a r = (a', Some (PAXOS_PROMISE p))"
    using wf that by (rule writeahead_handle_cases) auto
  show "accd_aid ack = wa_id a \<and> r = Accept_Request \<lparr>acc_iid = accd_iid ack, acc_ballot = accd_value_ballot ack,
      acc_value = accd_value ack\<rparr>" if "writeahead_handle api a r = (a', Some (PAXOS_ACCEPTED ack))"
    using wf that by (rule writeahead_handle_cases) (auto simp: conv_simps)
  show "syn_ballot (writeahead_view a' i) = syn_ballot (writeahead_view a i)
        \<and> syn_value (writeahead_view a' i) = syn_value (writeahead_view a i)
      \<or> (\<exists>acc. r = Accept_Request acc \<and> acc_iid acc = i \<and> syn_promised (writeahead_view a i) \<le> acc_ballot acc
           \<and> writeahead_view a' i = Synod (acc_ballot acc) (acc_ballot acc) (acc_value acc))"
    if "writeahead_handle api a r = (a', out)"
    using wf that
    by (rule writeahead_handle_cases) (auto split: if_splits)
qed

end
