(* ===== verification/Cluster_Runs.thy ===== *)
theory Cluster_Runs
  imports Agreement
begin

text \<open>
  Runs of a cluster of standard acceptors (\<open>src/paxos/standard_acceptor.c\<close>) with every message that reaches an
  acceptor: prepares and accepts, chosen and trim messages, and requests to repeat an instance.  A chosen
  or a trim message closes instances, and a trim may forget what is below it.  As long as it forgets
  closed instances only, such a cluster is simulated by one whose acceptors get prepares and accepts
  alone, so that agreement carries over from the theory \<open>Agreement\<close>.
\<close>

section \<open>Closed instances\<close>

text \<open>In an instance that is trimmed or known to be chosen an acceptor does not promise or accept any more.\<close>

definition instance_closed :: "'h standard_acceptor \<Rightarrow> iid_t \<Rightarrow> bool" where
  "instance_closed a i \<longleftrightarrow> i \<le> sa_trim_iid a \<or> standard_acceptor_is_instance_chosen a i"

text \<open>Between two states of an acceptor, what it knew of the instances that are still open is kept.\<close>

definition keeps_open_instances :: "'h standard_acceptor \<Rightarrow> 'h standard_acceptor \<Rightarrow> bool" where
  "keeps_open_instances a a' \<longleftrightarrow>
     (\<forall>i. \<not> instance_closed a' i \<longrightarrow>
        \<not> instance_closed a i \<and> standard_acceptor_view a' i = standard_acceptor_view a i)"

lemma standard_chosen_cases:
  assumes "standard_acceptor_wf a"
  obtains (known) "standard_acceptor_receive_chosen a m = a"
  | (learned) b where "\<not> standard_acceptor_is_instance_chosen a (cho_iid m)"
      "b = a\<lparr>sa_max_proposed_instance := (if cho_iid m > sa_max_proposed_instance a then cho_iid m
                                    else sa_max_proposed_instance a),
         sa_paxos_storage := hash_mapped_memory_store_instance_info
          (hash_mapped_memory_instance_chosen (sa_paxos_storage a) (cho_iid m))
          \<lparr>accd_aid = sa_id a, accd_iid = cho_iid m,
           accd_promise_ballot = promised (sa_paxos_storage a) (cho_iid m),
           accd_value_ballot = cho_ballot m, accd_value = cho_value m\<rparr>\<rparr>"
      "standard_acceptor_receive_chosen a m = b
       \<or> standard_acceptor_receive_chosen a m = fst (standard_acceptor_receive_trim b
           \<lparr>trim_iid = hash_mapped_memory_get_min_unchosen_instace (sa_paxos_storage b) - 1\<rparr>)"
proof (cases "standard_acceptor_is_instance_chosen a (cho_iid m)")
  case True
  then show thesis
    using known by (simp add: standard_acceptor_receive_chosen_def standard_acceptor_is_instance_chosen_def)
next
  case False
  have "memory_wf (hash_mapped_memory_instance_chosen (sa_paxos_storage a) (cho_iid m))"
    using assms by (simp add: standard_acceptor_wf_def)
  with False show thesis
    by (intro learned [OF False refl])
      (simp add: standard_acceptor_receive_chosen_def standard_acceptor_is_instance_chosen_def
        get_instance_info_eq store_simps Let_def cong: if_cong; blast)
qed

text \<open>Trimming alone: it closes instances, and forgets some when it moves.\<close>

lemma u32_less_Suc_le: "t < m + 1 \<Longrightarrow> t \<le> (m :: u32)"
  by (cases "m = UINT32_MAX") (simp_all add: u32_le_iff_lt_Suc)

lemma acceptor_trim_fields:
  defines "a' \<equiv> \<lambda>a t. fst (standard_acceptor_receive_trim a t)"
  shows "sa_id (a' a t) = sa_id a" "sa_stable_storage (a' a t) = sa_stable_storage a"
    "hm_aid (sa_paxos_storage (a' a t)) = hm_aid (sa_paxos_storage a)"
    "hm_min_chosen_instance (sa_paxos_storage (a' a t)) = hm_min_chosen_instance (sa_paxos_storage a)"
    "standard_acceptor_wf a \<Longrightarrow> standard_acceptor_wf (a' a t)" "sa_trim_iid a \<le> sa_trim_iid (a' a t)"
    "sa_trim_iid (a' a t) \<noteq> sa_trim_iid a \<Longrightarrow> sa_trim_iid (a' a t) \<le> hm_min_chosen_instance (sa_paxos_storage a)"
  unfolding a'_def
  by (auto simp: standard_acceptor_receive_trim_def standard_acceptor_store_trim_instance_def Let_def frame_simps
      standard_acceptor_wf_def hash_mapped_memory_get_min_unchosen_instace_def u32_less_Suc_le
      split: if_splits)

lemma receive_trim_keeps_open:
  assumes "sa_trim_iid (fst (standard_acceptor_receive_trim a t)) = sa_trim_iid a
    \<or> 50000 \<le> sa_trim_iid (fst (standard_acceptor_receive_trim a t))"
  shows "keeps_open_instances a (fst (standard_acceptor_receive_trim a t))"
  unfolding keeps_open_instances_def
proof (intro allI impI)
  fix i assume open': "\<not> instance_closed (fst (standard_acceptor_receive_trim a t)) i"
  let ?a = "fst (standard_acceptor_receive_trim a t)"
  have le: "sa_trim_iid a \<le> sa_trim_iid ?a" by (rule acceptor_trim_fields)
  have i: "sa_trim_iid ?a < i" using open' by (simp add: instance_closed_def not_le [symmetric])
  have "sa_trim_iid ?a = sa_trim_iid a \<or> sa_trim_iid ?a - 50000 \<le> i"
    using assms i by (metis order.trans word_sub_le less_imp_le)
  from receive_trim_keeps [OF this] open' le i
  have "\<not> instance_closed a i" by (auto simp: instance_closed_def)
  moreover have "standard_acceptor_view ?a i = standard_acceptor_view a i"
    using \<open>sa_trim_iid ?a = sa_trim_iid a \<or> sa_trim_iid ?a - 50000 \<le> i\<close> i
    by (auto simp: standard_acceptor_view_def store_simps standard_acceptor_receive_trim_def
        standard_acceptor_store_trim_instance_def Let_def not_less split: if_splits)
  ultimately show "\<not> instance_closed a i \<and> standard_acceptor_view ?a i = standard_acceptor_view a i" ..
qed

text \<open>
  A chosen message is of this kind when the trim it triggers stays where it is or moves to an instance from
  50000 on.  Below 50000 the subtraction wraps (\<open>first_chosen_instance_wipes_memory\<close>).
\<close>

lemma keeps_open_trans: "keeps_open_instances a b \<Longrightarrow> keeps_open_instances b c \<Longrightarrow> keeps_open_instances a c"
  by (simp add: keeps_open_instances_def)

lemma receive_chosen_keeps_open:
  assumes "standard_acceptor_wf a"
    and "sa_trim_iid (standard_acceptor_receive_chosen a m) = sa_trim_iid a
       \<or> 50000 \<le> sa_trim_iid (standard_acceptor_receive_chosen a m)"
  shows "keeps_open_instances a (standard_acceptor_receive_chosen a m)"
  using assms(1)
proof (cases rule: standard_chosen_cases [of a m])
  case known
  then show ?thesis by (simp add: keeps_open_instances_def)
next
  case (learned b)
  let ?t = "\<lparr>trim_iid = hash_mapped_memory_get_min_unchosen_instace (sa_paxos_storage b) - 1\<rparr>"
  have b: "keeps_open_instances a b" "sa_trim_iid b = sa_trim_iid a"
    unfolding learned(2)
    by (auto simp: keeps_open_instances_def instance_closed_def standard_acceptor_is_instance_chosen_def
        standard_acceptor_view_def store_simps)
  from learned(3) show ?thesis
  proof
    assume eq: "standard_acceptor_receive_chosen a m = fst (standard_acceptor_receive_trim b ?t)"
    have "keeps_open_instances b (fst (standard_acceptor_receive_trim b ?t))"
      by (rule receive_trim_keeps_open) (use assms(2) eq b(2) in simp)
    then show ?thesis using keeps_open_trans [OF b(1)] eq by simp
  qed (use b(1) in simp)
qed

section \<open>The invariant of an acceptor\<close>

text \<open>
  The instances below the boundary of chosen ones are closed, and of a trimmed instance that is not known to
  be chosen no acceptance is left.
\<close>

definition closing_ok :: "u32 \<Rightarrow> 'h standard_acceptor \<Rightarrow> bool" where
  "closing_ok k a \<longleftrightarrow> standard_acceptor_wf a \<and> sa_id a = k \<and> hm_aid (sa_paxos_storage a) = k
     \<and> (\<forall>i \<le> hm_min_chosen_instance (sa_paxos_storage a). instance_closed a i)
     \<and> (\<forall>i \<le> sa_trim_iid a. standard_acceptor_is_instance_chosen a i
          \<or> accepted_ballot (sa_paxos_storage a) i = INVALID_BALLOT)"

lemma advance_min_chosen_covers:
  assumes "i = mc + 1" "\<And>j. j \<le> mc \<Longrightarrow> P j" "\<And>j. chosen j = Some True \<Longrightarrow> P j"
    and "j \<le> advance_min_chosen k chosen inst i mc"
  shows "P j"
  using assms
proof (induction k chosen inst i mc rule: advance_min_chosen.induct)
  case (1 k chosen inst i mc)
  show ?case
  proof (cases "0 < k \<and> i \<le> inst \<and> chosen i = Some True")
    case True
    have "P l" if "l \<le> i" for l
      using that 1(2-4) True u32_less_Suc_le [of l mc] by (metis le_neq_trans)
    with 1(1) [OF True refl] 1(4,5) True show ?thesis by (simp add: advance_min_chosen.simps [of k])
  next
    case False
    then have "advance_min_chosen k chosen inst i mc = mc" by (auto simp: advance_min_chosen.simps [of k])
    then show ?thesis using 1(3,5) by simp
  qed
qed

lemma receive_trim_closing_ok:
  assumes ok: "closing_ok k a" and closed: "\<And>i. i \<le> hm_min_chosen_instance (sa_paxos_storage a) \<Longrightarrow>
      instance_closed (fst (standard_acceptor_receive_trim a t)) i"
  shows "closing_ok k (fst (standard_acceptor_receive_trim a t))"
proof -
  let ?a = "fst (standard_acceptor_receive_trim a t)"
  have "standard_acceptor_is_instance_chosen ?a i \<or> accepted_ballot (sa_paxos_storage ?a) i = INVALID_BALLOT"
    if "i \<le> sa_trim_iid ?a" for i
  proof -
    have "standard_acceptor_is_instance_chosen a i \<or> accepted_ballot (sa_paxos_storage a) i = INVALID_BALLOT"
    proof (cases "i \<le> sa_trim_iid a")
      case False
      with that acceptor_trim_fields(7) [of a t] have "i \<le> hm_min_chosen_instance (sa_paxos_storage a)"
        by (metis order.trans)
      with ok False show ?thesis by (auto simp: closing_ok_def instance_closed_def)
    qed (use ok in \<open>simp add: closing_ok_def\<close>)
    then show ?thesis
      by (auto simp: standard_acceptor_receive_trim_def standard_acceptor_store_trim_instance_def Let_def store_simps
          standard_acceptor_is_instance_chosen_def)
  qed
  then show ?thesis using ok closed by (simp add: closing_ok_def acceptor_trim_fields)
qed

lemma receive_chosen_closing_ok:
  assumes ok: "closing_ok k a"
  shows "closing_ok k (standard_acceptor_receive_chosen a m)"
proof -
  have "standard_acceptor_wf a" using ok by (simp add: closing_ok_def)
  then show ?thesis
  proof (cases rule: standard_chosen_cases [of a m])
    case known
    then show ?thesis using ok by simp
  next
    case (learned b)
    have chosen: "standard_acceptor_is_instance_chosen b i \<longleftrightarrow> i = cho_iid m \<or> standard_acceptor_is_instance_chosen a i" for i
      unfolding learned(2) by (simp add: standard_acceptor_is_instance_chosen_def store_simps)
    have "instance_closed b i" if "i \<le> hm_min_chosen_instance (sa_paxos_storage b)" for i
    proof (rule advance_min_chosen_covers [OF refl, of "hm_min_chosen_instance (sa_paxos_storage a)"])
      show "i \<le> advance_min_chosen 4294967296 ((hm_chosen (sa_paxos_storage a))(cho_iid m \<mapsto> True)) (cho_iid m)
          (hm_min_chosen_instance (sa_paxos_storage a) + 1) (hm_min_chosen_instance (sa_paxos_storage a))"
        using that unfolding learned(2) by (simp add: frame_simps hash_mapped_memory_instance_chosen_def)
      show "instance_closed b j" if "j \<le> hm_min_chosen_instance (sa_paxos_storage a)" for j
        using that ok chosen by (auto simp: closing_ok_def instance_closed_def learned(2))
      show "instance_closed b j" if "((hm_chosen (sa_paxos_storage a))(cho_iid m \<mapsto> True)) j = Some True" for j
        using that chosen by (auto simp: instance_closed_def standard_acceptor_is_instance_chosen_def
            hash_mapped_memory_is_instance_chosen_def split: if_splits)
    qed
    moreover have "sa_id b = k" "hm_aid (sa_paxos_storage b) = k" "standard_acceptor_wf b" "sa_trim_iid b = sa_trim_iid a"
      "\<And>i. i \<noteq> cho_iid m \<Longrightarrow> accepted_ballot (sa_paxos_storage b) i = accepted_ballot (sa_paxos_storage a) i"
      using ok unfolding learned(2)
      by (simp_all add: closing_ok_def frame_simps standard_acceptor_wf_def store_simps)
    ultimately have b: "closing_ok k b" using ok chosen unfolding closing_ok_def by metis
    from learned(3) show ?thesis
    proof
      let ?t = "\<lparr>trim_iid = hash_mapped_memory_get_min_unchosen_instace (sa_paxos_storage b) - 1\<rparr>"
      assume eq: "standard_acceptor_receive_chosen a m = fst (standard_acceptor_receive_trim b ?t)"
      have "fst (standard_acceptor_receive_trim b ?t) = b
          \<or> sa_trim_iid (fst (standard_acceptor_receive_trim b ?t)) = hm_min_chosen_instance (sa_paxos_storage b)"
        by (simp add: standard_acceptor_receive_trim_def standard_acceptor_store_trim_instance_def Let_def
            hash_mapped_memory_get_min_unchosen_instace_def)
      then have "closing_ok k (fst (standard_acceptor_receive_trim b ?t))"
        by (intro receive_trim_closing_ok [OF b]) (use b in \<open>auto simp: closing_ok_def instance_closed_def\<close>)
      then show ?thesis using eq by simp
    qed (use b in simp)
  qed
qed

lemma handle_closing_ok:
  assumes ok: "closing_ok k a"
  shows "closing_ok k (fst (standard_acceptor_handle api a r))"
proof -
  have wf: "standard_acceptor_wf a" using ok by (simp add: closing_ok_def)
  obtain a' out where h: "standard_acceptor_handle api a r = (a', out)" by fastforce
  have "sa_trim_iid a' = sa_trim_iid a \<and> hm_aid (sa_paxos_storage a') = hm_aid (sa_paxos_storage a)
      \<and> hm_min_chosen_instance (sa_paxos_storage a') = hm_min_chosen_instance (sa_paxos_storage a)
      \<and> (\<forall>i. standard_acceptor_is_instance_chosen a' i = standard_acceptor_is_instance_chosen a i)
      \<and> (\<forall>i \<le> sa_trim_iid a. accepted_ballot (sa_paxos_storage a') i = accepted_ballot (sa_paxos_storage a) i)"
    using h wf
    by (cases r) (auto simp: standard_acceptor_receive_prepare_def standard_acceptor_receive_accept_def Let_def
        frame_simps store_simps conv_simps standard_acceptor_is_instance_chosen_def standard_acceptor_wf_def
        get_instance_info_eq split: prod.splits if_splits)
  moreover have "standard_acceptor_wf a'" using std.invar_handle [OF wf, of api r] h by simp
  ultimately show ?thesis
    using ok standard_acceptor_handle_id [of api a r] h by (simp add: closing_ok_def instance_closed_def)
qed

section \<open>Acceptors that close nothing\<close>

text \<open>
  \<open>s\<close> is an acceptor that has got the same requests as \<open>a\<close> for open instances, and neither chosen nor trim
  messages.
\<close>

definition simulates :: "'h standard_acceptor \<Rightarrow> 'h standard_acceptor \<Rightarrow> bool" where
  "simulates s a \<longleftrightarrow> standard_acceptor_wf s \<and> sa_id s = sa_id a \<and> sa_stable_storage s = sa_stable_storage a
     \<and> (\<forall>i. \<not> instance_closed a i \<longrightarrow>
          \<not> instance_closed s i \<and> standard_acceptor_view s i = standard_acceptor_view a i)"

fun request_iid :: "acceptor_request \<Rightarrow> iid_t" where
  "request_iid (Prepare_Request req) = prep_iid req"
| "request_iid (Accept_Request req) = acc_iid req"

lemma closed_request:
  assumes "instance_closed a (request_iid r)" "standard_acceptor_handle api a r = (a', out)"
  shows "a' = a \<and> promises_in out = {} \<and> acks_in out = {}"
  using assms
  by (cases r) (auto simp: instance_closed_def standard_acceptor_receive_prepare_def
      standard_acceptor_receive_accept_def promises_in_def acks_in_def Let_def split: prod.splits if_splits)

text \<open>
  What a request for an open instance does depends on the identity of the acceptor, its stable storage and
  what it knows of the instance only: the storage afterwards, the record that is written to memory, and
  the reply.
\<close>

definition write_record ::
    "'h stable_storage_api \<Rightarrow> 'h \<Rightarrow> paxos_accepted \<Rightarrow> standard_paxos_message \<Rightarrow>
       'h \<times> paxos_accepted option \<times> standard_paxos_message option" where
  "write_record api h info reply =
     (let (rc, h1) = api_tx_begin api h in
      if rc \<noteq> 0 then (h1, None, None) else
      let (rc, h2) = api_store_instance_info api h1 info in
      if rc \<noteq> 0 then (api_tx_abort api h2, None, None) else
      let (rc, h3) = api_tx_commit api h2 in (h3, Some info, if rc \<noteq> 0 then None else Some reply))"

fun request_effect ::
    "'h stable_storage_api \<Rightarrow> u32 \<Rightarrow> 'h \<Rightarrow> synod \<Rightarrow> acceptor_request \<Rightarrow>
       'h \<times> paxos_accepted option \<times> standard_paxos_message option" where
  "request_effect api k h (Synod p vb v) (Prepare_Request req) =
     (if p \<le> prep_ballot req
      then write_record api h
        \<lparr>accd_aid = k, accd_iid = prep_iid req, accd_promise_ballot = prep_ballot req, accd_value_ballot = vb, accd_value = v\<rparr>
        (PAXOS_PROMISE \<lparr>prom_aid = k, prom_iid = prep_iid req, prom_ballot = prep_ballot req, prom_value_ballot = vb,
           prom_value = (if INVALID_BALLOT < vb then v else [])\<rparr>)
      else (h, None, Some (PAXOS_PREEMPTED \<lparr>pre_aid = k, pre_iid = prep_iid req, pre_attempted_ballot = prep_ballot req,
           pre_acceptor_current_ballot = p\<rparr>)))"
| "request_effect api k h (Synod p vb v) (Accept_Request req) =
     (if p \<le> acc_ballot req
      then write_record api h (paxos_accept_to_accepted k req) (PAXOS_ACCEPTED (paxos_accept_to_accepted k req))
      else (h, None, Some (PAXOS_PREEMPTED \<lparr>pre_aid = k, pre_iid = acc_iid req, pre_attempted_ballot = acc_ballot req,
           pre_acceptor_current_ballot = p\<rparr>)))"

lemma request_effect_iid:
  "request_effect api k h sy r = (h', Some info, out) \<Longrightarrow> accd_iid info = request_iid r"
  by (cases sy; cases r) (auto simp: write_record_def conv_simps split: if_splits prod.splits)

lemma handle_open_request:
  assumes wf: "standard_acceptor_wf a" and op: "\<not> instance_closed a (request_iid r)"
    and h: "standard_acceptor_handle api a r = (a', out)"
    and eff: "request_effect api (sa_id a) (sa_stable_storage a) (standard_acceptor_view a (request_iid r)) r = (h', w, out')"
  shows "out' = out \<and> sa_id a' = sa_id a \<and> sa_trim_iid a' = sa_trim_iid a \<and> sa_stable_storage a' = h'
    \<and> sa_paxos_storage a' =
        (case w of None \<Rightarrow> sa_paxos_storage a | Some info \<Rightarrow> hash_mapped_memory_store_instance_info (sa_paxos_storage a) info)"
proof (cases r)
  case (Prepare_Request req)
  then show ?thesis
    using assms unfolding standard_acceptor_wf_def instance_closed_def standard_acceptor_view_def
    by (auto simp: standard_acceptor_receive_prepare_def write_record_def Let_def get_instance_info_eq conv_simps
        split: prod.splits if_splits)
next
  case (Accept_Request req)
  then show ?thesis
    using assms unfolding standard_acceptor_wf_def instance_closed_def standard_acceptor_view_def
    by (auto simp: standard_acceptor_receive_accept_def write_record_def Let_def get_instance_info_eq
        split: prod.splits if_splits)
qed

lemma stored_record_view:
  assumes "sa_trim_iid a' = sa_trim_iid a"
    and "sa_paxos_storage a' =
      (case w of None \<Rightarrow> sa_paxos_storage a | Some info \<Rightarrow> hash_mapped_memory_store_instance_info (sa_paxos_storage a) info)"
  shows "instance_closed a' j = instance_closed a j"
    and "standard_acceptor_view a' j =
      (case w of None \<Rightarrow> standard_acceptor_view a j
       | Some info \<Rightarrow> if j = accd_iid info then Synod (accd_promise_ballot info) (accd_value_ballot info) (accd_value info)
                      else standard_acceptor_view a j)"
  using assms
  by (auto simp: instance_closed_def standard_acceptor_is_instance_chosen_def standard_acceptor_view_def store_simps
      split: option.split)

lemma open_request:
  assumes wf: "standard_acceptor_wf a" and sim: "simulates s a" and op: "\<not> instance_closed a (request_iid r)"
    and h: "standard_acceptor_handle api a r = (a', out)"
  shows "\<exists>s'. standard_acceptor_handle api s r = (s', out) \<and> simulates s' a'"
proof -
  obtain s' out' where s': "standard_acceptor_handle api s r = (s', out')" by fastforce
  obtain h' w out2 where
    eff: "request_effect api (sa_id a) (sa_stable_storage a) (standard_acceptor_view a (request_iid r)) r = (h', w, out2)"
    using prod_cases3 by blast
  have s: "standard_acceptor_wf s" "\<not> instance_closed s (request_iid r)"
    "request_effect api (sa_id s) (sa_stable_storage s) (standard_acceptor_view s (request_iid r)) r = (h', w, out2)"
    using sim op eff by (simp_all add: simulates_def)
  note effects = handle_open_request [OF wf op h eff] handle_open_request [OF s(1,2) s' s(3)]
  have "standard_acceptor_wf s'" using std.invar_handle [OF s(1), of api r] s' by simp
  then have "simulates s' a'"
    using sim effects stored_record_view [of a' a w] stored_record_view [of s' s w]
    by (auto simp: simulates_def split: option.split)
  then show ?thesis using s' effects by simp
qed

lemma keeps_open_simulates:
  assumes "keeps_open_instances a a'" "simulates s a" "sa_id a' = sa_id a" "sa_stable_storage a' = sa_stable_storage a"
  shows "simulates s a'"
  using assms by (simp add: keeps_open_instances_def simulates_def)

lemma receive_chosen_frame:
  assumes "standard_acceptor_wf a"
  shows "sa_id (standard_acceptor_receive_chosen a m) = sa_id a
    \<and> sa_stable_storage (standard_acceptor_receive_chosen a m) = sa_stable_storage a"
  using assms by (cases rule: standard_chosen_cases [of a m]) (auto simp: acceptor_trim_fields)

text \<open>What an acceptor repeats is what it has accepted last, in an open instance.\<close>

lemma repeat_resends:
  assumes ok: "closing_ok k a" and sim: "simulates s a" and "standard_acceptor_receive_repeat a i = Some (PAXOS_ACCEPTED ack)"
  shows "\<exists>p b v. standard_acceptor_view s i = Synod p b v \<and> INVALID_BALLOT < b
    \<and> ack = \<lparr>accd_aid = k, accd_iid = i, accd_promise_ballot = b, accd_value_ballot = b, accd_value = v\<rparr>"
proof -
  let ?m = "sa_paxos_storage a"
  have wf: "memory_wf ?m" using ok by (simp add: closing_ok_def standard_acceptor_wf_def)
  have r: "\<not> standard_acceptor_is_instance_chosen a i" "INVALID_BALLOT < accepted_ballot ?m i"
    "ack = \<lparr>accd_aid = k, accd_iid = i, accd_promise_ballot = accepted_ballot ?m i,
       accd_value_ballot = accepted_ballot ?m i, accd_value = accepted_value ?m i\<rparr>"
    using assms(3) ok wf
    by (auto simp: standard_acceptor_receive_repeat_def get_instance_info_eq closing_ok_def split: if_splits)
  then have "\<not> instance_closed a i" using ok by (auto simp: closing_ok_def instance_closed_def)
  then have "standard_acceptor_view s i = standard_acceptor_view a i" using sim by (simp add: simulates_def)
  then show ?thesis using r(2,3) by (simp add: standard_acceptor_view_def)
qed

section \<open>The cluster\<close>

record 'h standard_cluster =
  sc_acceptor :: "u32 \<Rightarrow> 'h standard_acceptor"
  sc_promises :: "paxos_promise set"
  sc_accepts :: "paxos_accept set"
  sc_acks :: "paxos_accepted set"

text \<open>
  Any prepare, chosen, trim and repeat message may reach any acceptor at any time, whatever it says; an accept
  must have been proposed, and proposals follow the rule of \<open>Agreement\<close>.  Chosen and trim messages are delivered
  only when the acceptor keeps what it knows of open instances.
\<close>

inductive standard_cluster_step ::
    "'h stable_storage_api \<Rightarrow> u32 set \<Rightarrow> int \<Rightarrow> 'h standard_cluster \<Rightarrow> 'h standard_cluster \<Rightarrow> bool"
  for api members q1 where
  request: "k \<in> members \<Longrightarrow> (\<forall>acc. r = Accept_Request acc \<longrightarrow> acc \<in> sc_accepts c) \<Longrightarrow>
    standard_acceptor_handle api (sc_acceptor c k) r = (a', out) \<Longrightarrow>
    standard_cluster_step api members q1 c
      (c\<lparr>sc_acceptor := (sc_acceptor c)(k := a'), sc_promises := sc_promises c \<union> promises_in out,
         sc_acks := sc_acks c \<union> acks_in out\<rparr>)"
| chosen: "k \<in> members \<Longrightarrow> a' = standard_acceptor_receive_chosen (sc_acceptor c k) m \<Longrightarrow>
    keeps_open_instances (sc_acceptor c k) a' \<Longrightarrow>
    standard_cluster_step api members q1 c (c\<lparr>sc_acceptor := (sc_acceptor c)(k := a')\<rparr>)"
| trim: "k \<in> members \<Longrightarrow> standard_acceptor_receive_trim (sc_acceptor c k) t = (a', rc) \<Longrightarrow>
    keeps_open_instances (sc_acceptor c k) a' \<Longrightarrow>
    standard_cluster_step api members q1 c (c\<lparr>sc_acceptor := (sc_acceptor c)(k := a')\<rparr>)"
| repeat: "k \<in> members \<Longrightarrow> standard_acceptor_receive_repeat (sc_acceptor c k) i = out \<Longrightarrow>
    standard_cluster_step api members q1 c (c\<lparr>sc_acks := sc_acks c \<union> acks_in out\<rparr>)"
| propose: "INVALID_BALLOT < acc_ballot acc \<Longrightarrow>
    (\<forall>acc' \<in> sc_accepts c. acc_iid acc' = acc_iid acc \<and> acc_ballot acc' = acc_ballot acc \<longrightarrow> acc' = acc) \<Longrightarrow>
    follows_promises q1 (sc_promises c) acc \<Longrightarrow>
    standard_cluster_step api members q1 c (c\<lparr>sc_accepts := insert acc (sc_accepts c)\<rparr>)"

inductive standard_cluster_run ::
    "'h stable_storage_api \<Rightarrow> u32 set \<Rightarrow> int \<Rightarrow> 'h standard_cluster \<Rightarrow> 'h standard_cluster \<Rightarrow> bool"
  for api members q1 c0 where
  start: "standard_cluster_run api members q1 c0 c0"
| step: "standard_cluster_run api members q1 c0 c \<Longrightarrow> standard_cluster_step api members q1 c c' \<Longrightarrow>
    standard_cluster_run api members q1 c0 c'"

text \<open>
  Initially nothing was sent, and every acceptor is one that \<open>standard_acceptor_new\<close> makes from a stable storage
  without records.
\<close>

definition standard_cluster_start :: "u32 set \<Rightarrow> 'h standard_cluster \<Rightarrow> bool" where
  "standard_cluster_start members c \<longleftrightarrow>
     (\<forall>k \<in> members. sa_id (sc_acceptor c k) = k
        \<and> sa_paxos_storage (sc_acceptor c k) = new_hash_mapped_memory_from_instances_info [] (sa_trim_iid (sc_acceptor c k)) k)
     \<and> sc_promises c = {} \<and> sc_accepts c = {} \<and> sc_acks c = {}"

definition cluster_simulates :: "u32 set \<Rightarrow> 'h standard_acceptor cluster \<Rightarrow> 'h standard_cluster \<Rightarrow> bool" where
  "cluster_simulates members s c \<longleftrightarrow>
     cl_promises s = sc_promises c \<and> cl_accepts s = sc_accepts c \<and> cl_acks s = sc_acks c
     \<and> (\<forall>k \<in> members. closing_ok k (sc_acceptor c k) \<and> simulates (cl_acceptor s k) (sc_acceptor c k))"

lemma request_simulated:
  assumes sim: "cluster_simulates members s c" and k: "k \<in> members"
    and r: "\<forall>acc. r = Accept_Request acc \<longrightarrow> acc \<in> sc_accepts c"
    and h: "standard_acceptor_handle api (sc_acceptor c k) r = (a', out)"
  defines "c' \<equiv> c\<lparr>sc_acceptor := (sc_acceptor c)(k := a'), sc_promises := sc_promises c \<union> promises_in out,
      sc_acks := sc_acks c \<union> acks_in out\<rparr>"
  shows "\<exists>s'. (s' = s \<or> cluster_step (standard_acceptor_handle api) standard_acceptor_view members q1 s s')
    \<and> cluster_simulates members s' c'"
proof -
  have ok: "closing_ok k (sc_acceptor c k)" and sk: "simulates (cl_acceptor s k) (sc_acceptor c k)"
    using sim k by (simp_all add: cluster_simulates_def)
  have ok': "closing_ok k a'" using handle_closing_ok [OF ok, of api r] h by simp
  show ?thesis
  proof (cases "instance_closed (sc_acceptor c k) (request_iid r)")
    case True
    have "cluster_simulates members s c'"
      using closed_request [OF True h] sim by (simp add: cluster_simulates_def c'_def)
    then show ?thesis by blast
  next
    case False
    have "standard_acceptor_wf (sc_acceptor c k)" using ok by (simp add: closing_ok_def)
    from open_request [OF this sk False h] obtain a2 where
      a2: "standard_acceptor_handle api (cl_acceptor s k) r = (a2, out)" "simulates a2 a'" by blast
    let ?s = "s\<lparr>cl_acceptor := (cl_acceptor s)(k := a2), cl_promises := cl_promises s \<union> promises_in out,
       cl_acks := cl_acks s \<union> acks_in out, cl_votes := cl_votes s \<union> votes_in standard_acceptor_view a2 k r\<rparr>"
    have "cluster_step (standard_acceptor_handle api) standard_acceptor_view members q1 s ?s"
      using r sim k a2(1) by (intro cluster_step.deliver) (simp_all add: cluster_simulates_def)
    moreover have "cluster_simulates members ?s c'" using sim ok' a2(2) by (simp add: cluster_simulates_def c'_def)
    ultimately show ?thesis by blast
  qed
qed

lemma closing_simulated:
  assumes "cluster_simulates members s c" "k \<in> members" "keeps_open_instances (sc_acceptor c k) a'" "closing_ok k a'"
    "sa_stable_storage a' = sa_stable_storage (sc_acceptor c k)"
  shows "cluster_simulates members s (c\<lparr>sc_acceptor := (sc_acceptor c)(k := a')\<rparr>)"
  using assms keeps_open_simulates [of "sc_acceptor c k" a' "cl_acceptor s k"]
  by (auto simp: cluster_simulates_def closing_ok_def)

lemma repeat_simulated:
  assumes sim: "cluster_simulates members s c" and k: "k \<in> members"
    and out: "standard_acceptor_receive_repeat (sc_acceptor c k) i = out"
  shows "\<exists>s'. (s' = s \<or> cluster_step (standard_acceptor_handle api) standard_acceptor_view members q1 s s')
    \<and> cluster_simulates members s' (c\<lparr>sc_acks := sc_acks c \<union> acks_in out\<rparr>)"
proof (cases "\<exists>ack. out = Some (PAXOS_ACCEPTED ack)")
  case True
  then obtain ack where ack: "out = Some (PAXOS_ACCEPTED ack)" ..
  obtain p b v where v: "standard_acceptor_view (cl_acceptor s k) i = Synod p b v" "INVALID_BALLOT < b"
    "ack = \<lparr>accd_aid = k, accd_iid = i, accd_promise_ballot = b, accd_value_ballot = b, accd_value = v\<rparr>"
    using repeat_resends [of k "sc_acceptor c k" "cl_acceptor s k" i ack] sim k out ack
    by (auto simp: cluster_simulates_def)
  have "cluster_step (standard_acceptor_handle api) standard_acceptor_view members q1 s
      (s\<lparr>cl_acks := insert ack (cl_acks s)\<rparr>)"
    unfolding v(3) using k v(1,2) by (rule cluster_step.resend)
  moreover have "cluster_simulates members (s\<lparr>cl_acks := insert ack (cl_acks s)\<rparr>) (c\<lparr>sc_acks := sc_acks c \<union> acks_in out\<rparr>)"
    using sim ack by (simp add: cluster_simulates_def acks_in_def)
  ultimately show ?thesis by blast
next
  case False
  then have "acks_in out = {}" by (auto simp: acks_in_def split: option.splits standard_paxos_message.splits)
  then show ?thesis using sim by (intro exI [of _ s]) (simp add: cluster_simulates_def)
qed

lemma standard_cluster_step_simulated:
  assumes "standard_cluster_step api members q1 c c'" "cluster_simulates members s c"
  shows "\<exists>s'. (s' = s \<or> cluster_step (standard_acceptor_handle api) standard_acceptor_view members q1 s s')
    \<and> cluster_simulates members s' c'"
  using assms
proof (induction rule: standard_cluster_step.induct)
  case (request k r c a' out)
  show ?case by (rule request_simulated [OF request(4,1,2,3)])
next
  case (chosen k a' c m)
  have ok: "closing_ok k (sc_acceptor c k)" using chosen by (simp add: cluster_simulates_def)
  have "cluster_simulates members s (c\<lparr>sc_acceptor := (sc_acceptor c)(k := a')\<rparr>)"
    using closing_simulated [OF chosen(4,1,3)] receive_chosen_closing_ok [OF ok, of m] chosen(2)
      receive_chosen_frame [of "sc_acceptor c k" m] ok by (simp add: closing_ok_def)
  then show ?case by blast
next
  case (trim k c t a' rc)
  have a': "a' = fst (standard_acceptor_receive_trim (sc_acceptor c k) t)" using trim(2) by simp
  have ok: "closing_ok k (sc_acceptor c k)" using trim by (simp add: cluster_simulates_def)
  have "closing_ok k a'"
    unfolding a' using receive_trim_closing_ok [OF ok] ok trim(3) a'
    by (simp add: closing_ok_def keeps_open_instances_def) blast
  then have "cluster_simulates members s (c\<lparr>sc_acceptor := (sc_acceptor c)(k := a')\<rparr>)"
    using closing_simulated [OF trim(4,1,3)] a' by (simp add: acceptor_trim_fields)
  then show ?case by blast
next
  case (repeat k c i out)
  show ?case by (rule repeat_simulated [OF repeat(3,1,2)])
next
  case (propose acc c)
  let ?s = "s\<lparr>cl_accepts := insert acc (cl_accepts s)\<rparr>"
  have "cluster_step (standard_acceptor_handle api) standard_acceptor_view members q1 s ?s"
    using propose by (intro cluster_step.propose) (simp_all add: cluster_simulates_def)
  moreover have "cluster_simulates members ?s (c\<lparr>sc_accepts := insert acc (sc_accepts c)\<rparr>)"
    using propose(4) by (simp add: cluster_simulates_def)
  ultimately show ?case by blast
qed

text \<open>So the acknowledgements of a run are those of a run of the simpler cluster.\<close>

lemma standard_cluster_run_simulated:
  assumes "standard_cluster_run api members q1 c0 c" "standard_cluster_start members c0"
  shows "\<exists>s0 s. cluster_start standard_acceptor_view standard_acceptor_wf sa_id members s0
    \<and> cluster_run (standard_acceptor_handle api) standard_acceptor_view members q1 s0 s \<and> cluster_simulates members s c"
proof -
  let ?s0 = "\<lparr>cl_acceptor = sc_acceptor c0, cl_promises = {}, cl_accepts = {}, cl_acks = {}, cl_votes = {}\<rparr>"
  have fresh: "sa_id (sc_acceptor c0 k) = k" "sa_paxos_storage (sc_acceptor c0 k) =
      (new_hash_mapped_memory k)\<lparr>hm_trim_instance_id := sa_trim_iid (sc_acceptor c0 k)\<rparr>" if "k \<in> members" for k
    using assms(2) that by (simp_all add: standard_cluster_start_def new_hash_mapped_memory_from_instances_info_def)
  have wf: "standard_acceptor_wf (sc_acceptor c0 k)" if "k \<in> members" for k
    using fresh [OF that] by (simp add: standard_acceptor_wf_def memory_wf_def new_hash_mapped_memory_def)
  have start: "cluster_start standard_acceptor_view standard_acceptor_wf sa_id members ?s0"
    using fresh wf by (simp add: cluster_start_def standard_acceptor_view_def store_simps)
  have "closing_ok k (sc_acceptor c0 k)" if "k \<in> members" for k
    using fresh [OF that] wf [OF that]
    by (simp add: closing_ok_def store_simps instance_closed_def) (simp add: new_hash_mapped_memory_def)
  then have "cluster_simulates members ?s0 c0"
    using assms(2) wf by (simp add: cluster_simulates_def standard_cluster_start_def simulates_def)
  with assms(1) have "\<exists>s. cluster_run (standard_acceptor_handle api) standard_acceptor_view members q1 ?s0 s
      \<and> cluster_simulates members s c"
  proof (induction rule: standard_cluster_run.induct)
    case start
    then show ?case using cluster_run.start by blast
  next
    case (step c c')
    then obtain s where s: "cluster_run (standard_acceptor_handle api) standard_acceptor_view members q1 ?s0 s"
      "cluster_simulates members s c" by blast
    from standard_cluster_step_simulated [OF step(2) s(2)] obtain s' where
      "s' = s \<or> cluster_step (standard_acceptor_handle api) standard_acceptor_view members q1 s s'"
      "cluster_simulates members s' c'" by blast
    with s(1) show ?case using cluster_run.step by blast
  qed
  with start show ?thesis by blast
qed

text \<open>A run of one acceptor that accepts a value, repeats it and learns that it was chosen, for the concrete examples.\<close>

definition sample_cluster :: "stable_storage_but_not_really standard_cluster" where
  "sample_cluster = \<lparr>sc_acceptor = (\<lambda>_. fresh_standard_acceptor), sc_promises = {}, sc_accepts = {}, sc_acks = {}\<rparr>"

definition sample_ack :: paxos_accepted where
  "sample_ack = \<lparr>accd_aid = 1, accd_iid = 3, accd_promise_ballot = Ballot 2 1, accd_value_ballot = Ballot 2 1,
     accd_value = [7]\<rparr>"

definition sample_prepared :: "stable_storage_but_not_really standard_acceptor" where
  "sample_prepared = fst (standard_acceptor_handle storage_init_mem fresh_standard_acceptor
     (Prepare_Request \<lparr>prep_iid = 3, prep_ballot = Ballot 2 1\<rparr>))"

definition sample_accepted :: "stable_storage_but_not_really standard_acceptor" where
  "sample_accepted = fst (standard_acceptor_handle storage_init_mem sample_prepared
     (Accept_Request \<lparr>acc_iid = 3, acc_ballot = Ballot 2 1, acc_value = [7]\<rparr>))"

lemma sample_cluster_start: "standard_cluster_start {1} sample_cluster"
  by (simp add: standard_cluster_start_def sample_cluster_def fresh_standard_acceptor_def
      new_hash_mapped_memory_from_instances_info_def new_hash_mapped_memory_def)

lemma sample_cluster_run:
  "\<exists>c. standard_cluster_run storage_init_mem {1} 1 sample_cluster c \<and> sc_acks c = {sample_ack}
     \<and> instance_closed (sc_acceptor c 1) 3"
proof -
  let ?h = "standard_acceptor_handle storage_init_mem" and ?b = "Ballot 2 1"
  let ?prep = "Prepare_Request \<lparr>prep_iid = 3, prep_ballot = ?b\<rparr>" and ?acc = "\<lparr>acc_iid = 3, acc_ballot = ?b, acc_value = [7]\<rparr>"
  let ?p = "\<lparr>prom_aid = 1, prom_iid = 3, prom_ballot = ?b, prom_value_ballot = INVALID_BALLOT, prom_value = []\<rparr>"
  let ?m = "\<lparr>cho_iid = 3, cho_ballot = ?b, cho_value = [7]\<rparr>"
  let ?step = "standard_cluster_step storage_init_mem {1} 1"
  let ?c1 = "sample_cluster\<lparr>sc_acceptor := (sc_acceptor sample_cluster)(1 := sample_prepared), sc_promises := {?p}\<rparr>"
  let ?c2 = "?c1\<lparr>sc_accepts := {?acc}\<rparr>"
  let ?c3 = "?c2\<lparr>sc_acceptor := (sc_acceptor ?c2)(1 := sample_accepted), sc_acks := {sample_ack}\<rparr>"
  let ?a4 = "standard_acceptor_receive_chosen sample_accepted ?m"
  let ?c4 = "?c3\<lparr>sc_acceptor := (sc_acceptor ?c3)(1 := ?a4)\<rparr>"
  have "?h fresh_standard_acceptor ?prep = (sample_prepared, Some (PAXOS_PROMISE ?p))"
    by (rule prod_eqI) (simp add: sample_prepared_def, code_simp)
  then have 1: "?step sample_cluster ?c1"
    using standard_cluster_step.request [of 1 "{1}" ?prep sample_cluster storage_init_mem sample_prepared _ 1]
    by (simp add: sample_cluster_def promises_in_def acks_in_def)
  have "follows_promises 1 {?p} ?acc" unfolding follows_promises_def by (intro exI [of _ "{?p}"]) simp
  then have 2: "?step ?c1 ?c2"
    using standard_cluster_step.propose [of ?acc ?c1 1 storage_init_mem "{1}"]
    by (simp add: sample_cluster_def INVALID_BALLOT_def less_ballot_def)
  have "?h sample_prepared (Accept_Request ?acc) = (sample_accepted, Some (PAXOS_ACCEPTED sample_ack))"
    by (rule prod_eqI) (simp add: sample_accepted_def, code_simp)
  then have 3: "?step ?c2 ?c3"
    using standard_cluster_step.request [of 1 "{1}" "Accept_Request ?acc" ?c2 storage_init_mem sample_accepted _ 1]
    by (simp add: sample_cluster_def promises_in_def acks_in_def)
  have "standard_acceptor_receive_repeat sample_accepted 3 = Some (PAXOS_ACCEPTED sample_ack)" by code_simp
  then have 4: "?step ?c3 ?c3"
    using standard_cluster_step.repeat [of 1 "{1}" ?c3 3 _ storage_init_mem 1]
    by (simp add: sample_cluster_def acks_in_def)
  have "standard_acceptor_wf sample_accepted"
    unfolding sample_accepted_def sample_prepared_def by (intro std.invar_handle) simp
  moreover have "sa_trim_iid ?a4 = sa_trim_iid sample_accepted" by code_simp
  ultimately have "keeps_open_instances sample_accepted ?a4" by (simp add: receive_chosen_keeps_open)
  then have 5: "?step ?c3 ?c4"
    using standard_cluster_step.chosen [of 1 "{1}" ?a4 ?c3 ?m storage_init_mem 1] by (simp add: sample_cluster_def)
  have "standard_acceptor_is_instance_chosen ?a4 3" by code_simp
  then have "instance_closed (sc_acceptor ?c4 1) 3" by (simp add: instance_closed_def)
  moreover have "sc_acks ?c4 = {sample_ack}" by simp
  moreover have "standard_cluster_run storage_init_mem {1} 1 sample_cluster ?c4"
    by (rule standard_cluster_run.step [OF _ 5], rule standard_cluster_run.step [OF _ 4],
        rule standard_cluster_run.step [OF _ 3], rule standard_cluster_run.step [OF _ 2],
        rule standard_cluster_run.step [OF _ 1], rule standard_cluster_run.start)
  ultimately show ?thesis by blast
qed

lemma chosen_single:
  "0 < card {x. x = accd_aid ack} \<Longrightarrow> chosen_at 1 {ack} (accd_iid ack) (accd_value_ballot ack) (accd_value ack)"
  by (simp add: chosen_at_def acknowledged_by_def)

text \<open>A learner that catches up from the first instance it hears of and needs one acknowledgement.\<close>

definition sample_cfg :: paxos_config where
  "sample_cfg = \<lparr>cfg_learner_catch_up = False, cfg_proposer_timeout = 1, cfg_quorum_2 = 1, cfg_fall_behind_jump = 1,
      cfg_noop_timeout_us = 1, cfg_await_holes = True, cfg_repropose_values = True\<rparr>"

section \<open>Properties\<close>

text \<open>
  C1: Agreement of standard Paxos: in a cluster of standard acceptors that get prepares, accepts, and any
  chosen, trim and repeat messages, lost, duplicated, delayed or reordered, whatever their stable storages
  answer, no two different values are ever acknowledged by \<open>q2\<close> acceptors in one instance.  The conditions: the
  two quorums overlap; every accept carries a value that follows the promises of \<open>q1\<close> acceptors, and a ballot is
  used for one value; no acceptor restarts; and a chosen or trim message does not make an acceptor forget an
  instance that is neither trimmed nor known to be chosen.  The code meets the last condition when the
  trim moves to an instance from 50000 on (\<open>receive_chosen_keeps_open\<close>) and not always below, where the
  subtraction of 50000 wraps (\<open>wiped_acceptor_accepts_twice\<close>).
\<close>

theorem standard_paxos_agreement:
  fixes api :: "'h stable_storage_api"
  assumes "standard_cluster_start members c0" "standard_cluster_run api members q1 c0 c"
    and "int (card members) < q1 + q2" "0 < q2"
    and "chosen_at q2 (sc_acks c) i b v" "chosen_at q2 (sc_acks c) i b' v'"
  shows "v = v'"
proof -
  obtain s0 s where s: "cluster_start standard_acceptor_view standard_acceptor_wf sa_id members s0"
    "cluster_run (standard_acceptor_handle api) standard_acceptor_view members q1 s0 s" "cluster_simulates members s c"
    using standard_cluster_run_simulated [OF assms(2,1)] by blast
  show ?thesis
    using std_cluster.agreement [OF std_cluster.cluster_run_ok [OF s(2) _ s(1)], of q2 i b v b' v'] assms(3-) s(3)
    by (simp add: cluster_simulates_def)
qed

theorem standard_paxos_agreement_witness:
  "\<exists>c. standard_cluster_run storage_init_mem {1} 1 sample_cluster c \<and> instance_closed (sc_acceptor c 1) 3
     \<and> {v. \<exists>b. chosen_at 1 (sc_acks c) 3 b v} = {[7]}"
proof -
  obtain c where c: "standard_cluster_run storage_init_mem {1} 1 sample_cluster c" "sc_acks c = {sample_ack}"
    "instance_closed (sc_acceptor c 1) 3"
    using sample_cluster_run by blast
  have chosen: "chosen_at 1 (sc_acks c) 3 (Ballot 2 1) [7]"
    using chosen_single [of sample_ack] c(2) by (simp add: sample_ack_def)
  have "v = [7]" if "chosen_at 1 (sc_acks c) 3 b v" for b v
    using standard_paxos_agreement [OF sample_cluster_start c(1) _ _ that chosen] by simp
  with c(1,3) chosen show ?thesis by (intro exI [of _ c]) blast
qed

text \<open>
  C5: Learners of one cluster of standard acceptors agree: whichever of the acknowledgements sent in a run each
  of them receives, in whatever order and how often, and whichever chosen messages for chosen values, two learners
  never deliver different values for one instance.  The conditions are those of agreement: the two quorums
  overlap; every accept carries a value that follows the promises of \<open>q1\<close> acceptors, and a ballot is used for one
  value; no acceptor restarts; and a chosen or trim message does not make an acceptor forget an instance that is
  neither trimmed nor known to be chosen, which the code does not ensure below instance 50000
  (\<open>wiped_acceptor_accepts_twice\<close>).
\<close>

theorem standard_paxos_learners_agree:
  fixes api :: "'h stable_storage_api"
  assumes "standard_cluster_start members c0" "standard_cluster_run api members q1 c0 c"
    and "int (card members) < q1 + cfg_quorum_2 cfg" "0 < cfg_quorum_2 cfg"
    and "learner_evidence (sc_acks c) (cfg_quorum_2 cfg) (set es)"
      "learner_evidence (sc_acks c) (cfg_quorum_2 cfg) (set es')"
    and "learner_run (learner_new cfg n) es = Some (l, anns, dels)"
      "learner_run (learner_new cfg n') es' = Some (l', anns', dels')"
    and "(i, v) \<in> set dels" "(i, v') \<in> set dels'"
  shows "v = v'"
proof -
  obtain s0 s where s: "cluster_start standard_acceptor_view standard_acceptor_wf sa_id members s0"
    "cluster_run (standard_acceptor_handle api) standard_acceptor_view members q1 s0 s" "cluster_simulates members s c"
    using standard_cluster_run_simulated [OF assms(2,1)] by blast
  have "cl_acks s = sc_acks c" using s(3) by (simp add: cluster_simulates_def)
  then show ?thesis
    using std_cluster.learners_agree [OF std_cluster.cluster_run_ok [OF s(2) _ s(1)], of cfg es es'] assms(3-) by simp
qed

theorem standard_paxos_learners_agree_witness:
  "\<exists>c v v'. standard_cluster_run storage_init_mem {1} 1 sample_cluster c \<and> sample_ack \<in> sc_acks c
     \<and> map_option (snd \<circ> snd) (learner_run (learner_new sample_cfg 3) [Receive_Accepted sample_ack, Deliver_Next])
         = Some [(3, v)]
     \<and> map_option (snd \<circ> snd) (learner_run (learner_new sample_cfg 3)
         [Receive_Accepted sample_ack, Receive_Accepted sample_ack, Deliver_Next]) = Some [(3, v')] \<and> v = v'"
proof -
  let ?es = "[Receive_Accepted sample_ack, Deliver_Next]"
    and ?es' = "[Receive_Accepted sample_ack, Receive_Accepted sample_ack, Deliver_Next]"
  obtain c where c: "standard_cluster_run storage_init_mem {1} 1 sample_cluster c" "sc_acks c = {sample_ack}"
    using sample_cluster_run by blast
  have r: "map_option (snd \<circ> snd) (learner_run (learner_new sample_cfg 3) ?es) = Some [(3, [7])]"
    "map_option (snd \<circ> snd) (learner_run (learner_new sample_cfg 3) ?es') = Some [(3, [7])]"
    by code_simp+
  then obtain l anns l' anns' where
    runs: "learner_run (learner_new sample_cfg 3) ?es = Some (l, anns, [(3, [7])])"
    "learner_run (learner_new sample_cfg 3) ?es' = Some (l', anns', [(3, [7])])"
    by auto
  have "learner_evidence (sc_acks c) (cfg_quorum_2 sample_cfg) (set ?es)"
    "learner_evidence (sc_acks c) (cfg_quorum_2 sample_cfg) (set ?es')"
    by (simp_all add: learner_evidence_def c(2))
  from standard_paxos_learners_agree [OF sample_cluster_start c(1) _ _ this runs, of 3 "[7]" "[7]"] r c
  show ?thesis by (intro exI [of _ c] exI [of _ "[7]"]) simp
qed

section \<open>Why the condition on forgetting is needed\<close>

text \<open>
  An acceptor that has acknowledged a value in instance 2 learns that instance 1 was chosen.  The trim to
  instance 1 wraps and wipes instance 2, and the acceptor then promises to a new ballot without reporting
  the value, and acknowledges another one.  A cluster of this acceptor alone has chosen two values.
\<close>

theorem wiped_acceptor_accepts_twice:
  defines "h \<equiv> standard_acceptor_handle storage_init_mem"
  defines "a1 \<equiv> fst (h fresh_standard_acceptor (Prepare_Request \<lparr>prep_iid = 2, prep_ballot = Ballot 1 1\<rparr>))"
  defines "r2 \<equiv> h a1 (Accept_Request \<lparr>acc_iid = 2, acc_ballot = Ballot 1 1, acc_value = [7]\<rparr>)"
  defines "a3 \<equiv> standard_acceptor_receive_chosen (fst r2) \<lparr>cho_iid = 1, cho_ballot = Ballot 1 1, cho_value = [5]\<rparr>"
  defines "r4 \<equiv> h a3 (Prepare_Request \<lparr>prep_iid = 2, prep_ballot = Ballot 2 2\<rparr>)"
  defines "r5 \<equiv> h (fst r4) (Accept_Request \<lparr>acc_iid = 2, acc_ballot = Ballot 2 2, acc_value = [8]\<rparr>)"
  shows "snd r2 = Some (PAXOS_ACCEPTED \<lparr>accd_aid = 1, accd_iid = 2, accd_promise_ballot = Ballot 1 1,
      accd_value_ballot = Ballot 1 1, accd_value = [7]\<rparr>)"
    and "snd r4 = Some (PAXOS_PROMISE \<lparr>prom_aid = 1, prom_iid = 2, prom_ballot = Ballot 2 2,
      prom_value_ballot = INVALID_BALLOT, prom_value = []\<rparr>)"
    and "snd r5 = Some (PAXOS_ACCEPTED \<lparr>accd_aid = 1, accd_iid = 2, accd_promise_ballot = Ballot 2 2,
      accd_value_ballot = Ballot 2 2, accd_value = [8]\<rparr>)"
  unfolding r5_def r4_def a3_def r2_def a1_def h_def by code_simp+

end
