(* ===== verification/Circular_Queue.thy ===== *)
theory Circular_Queue
  imports Paxos_Types
begin

text \<open>
  The circular array of \<open>src/paxos/carray.c\<close> with natural numbers for its sizes and indices, as the value proposal manager
  is modelled on it: with them every operation is defined.  The theory \<open>Carray\<close> has the operations with the
  \<open>int\<close>s of the code and shows that they agree with these as long as no queue holds more than \<open>2\<^sup>2\<^sup>9\<close> elements.  A
  cell that has not been written is \<open>None\<close>.  The locale \<open>deque\<close> is the contract the value proposal manager relies
  on; it is interpreted on the operations of this theory.
\<close>

section \<open>Definitions\<close>

record 'a cqueue =
  cq_head :: nat
  cq_tail :: nat
  cq_size :: nat
  cq_count :: nat
  cq_array :: "'a option list"

definition cqueue_new :: "nat \<Rightarrow> 'a cqueue" where
  "cqueue_new n = \<lparr>cq_head = 0, cq_tail = n - 1, cq_size = n, cq_count = 0,
     cq_array = replicate n None\<rparr>"

definition cqueue_empty :: "'a cqueue \<Rightarrow> bool" where
  "cqueue_empty a \<longleftrightarrow> cq_count a = 0"

definition cqueue_size :: "'a cqueue \<Rightarrow> nat" where
  "cqueue_size a = cq_size a"

definition cqueue_full :: "'a cqueue \<Rightarrow> bool" where
  "cqueue_full a \<longleftrightarrow> cq_count a = cq_size a"

definition cqueue_at :: "'a cqueue \<Rightarrow> nat \<Rightarrow> 'a option" where
  "cqueue_at a i = cq_array a ! ((cq_head a + i) mod cq_size a)"

text \<open>
  \<open>cqueue_push_back\<close> after its test for a full array.  \<open>cqueue_grow\<close> calls \<open>cqueue_push_back\<close> on
  an array of twice the size, which is never full (lemma \<open>grow_target_not_full\<close>), so that the test
  inside of the copying loop never succeeds.
\<close>

definition cqueue_append :: "'a cqueue \<Rightarrow> 'a option \<Rightarrow> 'a cqueue" where
  "cqueue_append a p =
     (let tail = (cq_tail a + 1) mod cq_size a in
      a\<lparr>cq_tail := tail, cq_array := (cq_array a)[tail := p], cq_count := cq_count a + 1\<rparr>)"

definition cqueue_grow :: "'a cqueue \<Rightarrow> 'a cqueue" where
  "cqueue_grow a =
     (let tmp = fold (\<lambda>i t. cqueue_append t (cqueue_at a i)) [0..<cq_count a] (cqueue_new (cq_size a * 2))
      in a\<lparr>cq_head := 0, cq_tail := cq_tail tmp, cq_size := cq_size tmp, cq_array := cq_array tmp\<rparr>)"

definition cqueue_push_back :: "'a cqueue \<Rightarrow> 'a \<Rightarrow> 'a cqueue" where
  "cqueue_push_back a p =
     (let a = (if cqueue_full a then cqueue_grow a else a) in cqueue_append a (Some p))"

definition cqueue_pop_front :: "'a cqueue \<Rightarrow> 'a option \<times> 'a cqueue" where
  "cqueue_pop_front a =
     (if cqueue_empty a then (None, a)
      else (cq_array a ! cq_head a,
            a\<lparr>cq_head := (cq_head a + 1) mod cq_size a, cq_count := cq_count a - 1\<rparr>))"

definition cqueue_push_front :: "'a cqueue \<Rightarrow> 'a \<Rightarrow> 'a cqueue" where
  "cqueue_push_front a p =
     (let a = (if cqueue_full a then cqueue_grow a else a);
          head = (if cq_head a = 0 then cq_size a - 1 else cq_head a - 1)
      in a\<lparr>cq_head := head, cq_array := (cq_array a)[head := Some p], cq_count := cq_count a + 1\<rparr>)"

section \<open>The queue a circular array holds\<close>

definition cqueue_cells :: "'a cqueue \<Rightarrow> 'a option list" where
  "cqueue_cells a = map (cqueue_at a) [0..<cq_count a]"

definition cqueue_list :: "'a cqueue \<Rightarrow> 'a list" where
  "cqueue_list a = map the (cqueue_cells a)"

definition cqueue_struct :: "'a cqueue \<Rightarrow> bool" where
  "cqueue_struct a \<longleftrightarrow> 0 < cq_size a \<and> length (cq_array a) = cq_size a \<and> cq_head a < cq_size a
     \<and> cq_count a \<le> cq_size a \<and> cq_tail a = (cq_head a + cq_count a + cq_size a - 1) mod cq_size a"

definition cqueue_wf :: "'a cqueue \<Rightarrow> bool" where
  "cqueue_wf a \<longleftrightarrow> cqueue_struct a \<and> None \<notin> set (cqueue_cells a)"

lemma cqueue_structD:
  assumes "cqueue_struct a"
  shows "0 < cq_size a" "length (cq_array a) = cq_size a" "cq_head a < cq_size a" "cq_count a \<le> cq_size a"
  using assms by (simp_all add: cqueue_struct_def)

lemma length_cqueue_cells [simp]: "length (cqueue_cells a) = cq_count a"
  by (simp add: cqueue_cells_def)

lemma length_cqueue_list [simp]: "length (cqueue_list a) = cq_count a"
  by (simp add: cqueue_list_def)

lemma nth_cqueue_cells [simp]: "i < cq_count a \<Longrightarrow> cqueue_cells a ! i = cqueue_at a i"
  by (simp add: cqueue_cells_def)

lemma wrap_index:
  fixes h i n :: nat
  shows "h < n \<Longrightarrow> i \<le> n \<Longrightarrow> (h + i) mod n = (if h + i < n then h + i else h + i - n)"
  by (auto simp: le_mod_geq)

lemma wrap_index_inj:
  fixes h i j n :: nat
  shows "h < n \<Longrightarrow> i < n \<Longrightarrow> j < n \<Longrightarrow> (h + i) mod n = (h + j) mod n \<longleftrightarrow> i = j"
  by (auto simp: wrap_index)

lemma cqueue_cells_eqI:
  "length xs = cq_count a \<Longrightarrow> (\<And>i. i < cq_count a \<Longrightarrow> cqueue_at a i = xs ! i) \<Longrightarrow> cqueue_cells a = xs"
  by (rule nth_equalityI) simp_all

lemma cqueue_append_tail:
  assumes "cqueue_struct a"
  shows "(cq_tail a + 1) mod cq_size a = (cq_head a + cq_count a) mod cq_size a"
proof -
  have "(cq_tail a + 1) mod cq_size a = (cq_head a + cq_count a + cq_size a - 1 + 1) mod cq_size a"
    using assms by (simp only: cqueue_struct_def mod_add_left_eq)
  also have "\<dots> = (cq_head a + cq_count a) mod cq_size a"
    using assms by (simp add: cqueue_struct_def)
  finally show ?thesis .
qed

lemma cqueue_append_struct:
  assumes "cqueue_struct a" "cq_count a < cq_size a"
  shows "cqueue_struct (cqueue_append a p)"
proof -
  have "(cq_head a + (cq_count a + 1) + cq_size a - 1) mod cq_size a = (cq_head a + cq_count a) mod cq_size a"
    by simp
  with assms show ?thesis
    using cqueue_append_tail [OF assms(1)]
    by (simp add: cqueue_struct_def cqueue_append_def Let_def)
qed

lemma cqueue_append_cells:
  assumes "cqueue_struct a" "cq_count a < cq_size a"
  shows "cqueue_cells (cqueue_append a p) = cqueue_cells a @ [p]"
proof (rule cqueue_cells_eqI)
  show "length (cqueue_cells a @ [p]) = cq_count (cqueue_append a p)"
    by (simp add: cqueue_append_def Let_def)
next
  fix i assume i: "i < cq_count (cqueue_append a p)"
  let ?t = "(cq_head a + cq_count a) mod cq_size a"
  have at: "cqueue_at (cqueue_append a p) i
      = (cq_array a)[?t := p] ! ((cq_head a + i) mod cq_size a)"
    using cqueue_append_tail [OF assms(1)] by (simp add: cqueue_at_def cqueue_append_def Let_def)
  have le: "i \<le> cq_count a" using i by (simp add: cqueue_append_def Let_def)
  show "cqueue_at (cqueue_append a p) i = (cqueue_cells a @ [p]) ! i"
  proof (cases "i = cq_count a")
    case True
    then show ?thesis using at assms by (simp add: cqueue_struct_def nth_append)
  next
    case False
    then have "(cq_head a + i) mod cq_size a \<noteq> ?t"
      using wrap_index_inj [of "cq_head a" "cq_size a" i "cq_count a"] le assms
      by (simp add: cqueue_struct_def)
    then have "cqueue_at (cqueue_append a p) i = cqueue_at a i"
      using at by (simp add: cqueue_at_def)
    with False le show ?thesis by (simp add: nth_append)
  qed
qed

lemma cqueue_append_fields [simp]:
  "cq_head (cqueue_append a p) = cq_head a" "cq_size (cqueue_append a p) = cq_size a"
  "cq_count (cqueue_append a p) = cq_count a + 1"
  by (simp_all add: cqueue_append_def Let_def)

lemma fold_cqueue_append:
  assumes "cqueue_struct t" "cq_count t + length ps \<le> cq_size t"
  shows "cqueue_struct (fold (\<lambda>p t. cqueue_append t p) ps t)
    \<and> cqueue_cells (fold (\<lambda>p t. cqueue_append t p) ps t) = cqueue_cells t @ ps
    \<and> cq_head (fold (\<lambda>p t. cqueue_append t p) ps t) = cq_head t
    \<and> cq_size (fold (\<lambda>p t. cqueue_append t p) ps t) = cq_size t"
  using assms
proof (induction ps arbitrary: t)
  case Nil
  then show ?case by simp
next
  case (Cons p ps)
  then have "cqueue_struct (cqueue_append t p)" "cqueue_cells (cqueue_append t p) = cqueue_cells t @ [p]"
    by (simp_all add: cqueue_append_struct cqueue_append_cells)
  with Cons.IH [of "cqueue_append t p"] Cons.prems show ?case by simp
qed

lemma cqueue_new_struct [simp]: "0 < n \<Longrightarrow> cqueue_struct (cqueue_new n)"
  by (simp add: cqueue_struct_def cqueue_new_def)

lemma cqueue_new_fields [simp]:
  "cq_count (cqueue_new n) = 0" "cq_size (cqueue_new n) = n" "cq_head (cqueue_new n) = 0"
  "cqueue_cells (cqueue_new n) = []"
  by (simp_all add: cqueue_new_def cqueue_cells_def)

lemma grow_target:
  "cqueue_grow a = (let tmp = fold (\<lambda>p t. cqueue_append t p) (cqueue_cells a) (cqueue_new (cq_size a * 2))
     in a\<lparr>cq_head := 0, cq_tail := cq_tail tmp, cq_size := cq_size tmp, cq_array := cq_array tmp\<rparr>)"
  by (simp add: cqueue_grow_def cqueue_cells_def fold_map comp_def)

lemma grow_target_not_full:
  assumes "cqueue_struct a" "cqueue_cells a = ps @ p # ps'"
  shows "\<not> cqueue_full (fold (\<lambda>p t. cqueue_append t p) ps (cqueue_new (cq_size a * 2)))"
proof -
  let ?t = "fold (\<lambda>p t. cqueue_append t p) ps (cqueue_new (cq_size a * 2))"
  have len: "length ps < cq_count a" using arg_cong [OF assms(2), of length] by simp
  then have cs: "cqueue_cells ?t = ps \<and> cq_size ?t = cq_size a * 2"
    using fold_cqueue_append [of "cqueue_new (cq_size a * 2)" ps] cqueue_structD [OF assms(1)]
    by simp
  then have "cq_count ?t = length ps" using length_cqueue_cells [of ?t] by simp
  with len cqueue_structD [OF assms(1)] cs show ?thesis
    by (simp add: cqueue_full_def)
qed

lemma cqueue_grow_correct:
  assumes "cqueue_struct a"
  shows "cqueue_struct (cqueue_grow a) \<and> cqueue_cells (cqueue_grow a) = cqueue_cells a
    \<and> cq_size (cqueue_grow a) = 2 * cq_size a \<and> cq_count (cqueue_grow a) = cq_count a"
proof -
  let ?t = "fold (\<lambda>p t. cqueue_append t p) (cqueue_cells a) (cqueue_new (cq_size a * 2))"
  have t: "cqueue_struct ?t" "cqueue_cells ?t = cqueue_cells a" "cq_head ?t = 0" "cq_size ?t = cq_size a * 2"
    using fold_cqueue_append [of "cqueue_new (cq_size a * 2)" "cqueue_cells a"] cqueue_structD [OF assms]
    by simp_all
  then have "cq_count ?t = cq_count a" using length_cqueue_cells [of ?t] by simp
  then have "cqueue_grow a = ?t" using t by (simp add: grow_target Let_def)
  with t \<open>cq_count ?t = cq_count a\<close> show ?thesis by simp
qed

lemma room_after_grow:
  fixes a :: "'a cqueue"
  assumes "cqueue_struct a"
  defines "b \<equiv> (if cqueue_full a then cqueue_grow a else a)"
  shows "cqueue_struct b \<and> cqueue_cells b = cqueue_cells a \<and> cq_count b < cq_size b"
  using cqueue_grow_correct [OF assms(1)] assms(1)
  by (auto simp: b_def cqueue_full_def cqueue_struct_def)

lemma cqueue_push_back_correct:
  assumes "cqueue_struct a"
  shows "cqueue_struct (cqueue_push_back a x) \<and> cqueue_cells (cqueue_push_back a x) = cqueue_cells a @ [Some x]"
  using room_after_grow [OF assms]
  by (simp add: cqueue_push_back_def Let_def cqueue_append_struct cqueue_append_cells split del: if_split)

lemma push_front_index:
  fixes h i n :: nat
  assumes "h < n" "0 < i" "i \<le> n"
  shows "((if h = 0 then n - 1 else h - 1) + i) mod n = (h + (i - 1)) mod n"
proof (cases "h = 0")
  case True
  have "n - 1 + i = (i - 1) + n" using assms by simp
  then have "(n - 1 + i) mod n = (i - 1) mod n" by (simp only: mod_add_self2)
  with True show ?thesis by simp
next
  case False
  then have eq: "(if h = 0 then n - 1 else h - 1) + i = h + (i - 1)" using assms by auto
  show ?thesis by (simp only: eq)
qed

lemma cqueue_push_front_correct:
  assumes "cqueue_struct a"
  shows "cqueue_struct (cqueue_push_front a x) \<and> cqueue_cells (cqueue_push_front a x) = Some x # cqueue_cells a"
proof -
  define b where "b = (if cqueue_full a then cqueue_grow a else a)"
  have b: "cqueue_struct b" "cqueue_cells b = cqueue_cells a" "cq_count b < cq_size b"
    using room_after_grow [OF assms] by (simp_all add: b_def)
  define h where "h = (if cq_head b = 0 then cq_size b - 1 else cq_head b - 1)"
  define c where "c = b\<lparr>cq_head := h, cq_array := (cq_array b)[h := Some x], cq_count := cq_count b + 1\<rparr>"
  have c: "cqueue_push_front a x = c"
    by (simp add: cqueue_push_front_def Let_def b_def [symmetric] h_def [symmetric] c_def)
  have h: "h < cq_size b" using b(1) by (auto simp: h_def cqueue_struct_def)
  have "(h + (cq_count b + 1) + cq_size b - 1) mod cq_size b = (cq_head b + cq_count b + cq_size b - 1) mod cq_size b"
  proof -
    have "(h + cq_size b) mod cq_size b = (cq_head b + (cq_size b - 1)) mod cq_size b"
      unfolding h_def using push_front_index [of "cq_head b" "cq_size b" "cq_size b"] cqueue_structD [OF b(1)]
      by simp
    then have "(h + cq_size b + cq_count b) mod cq_size b
        = (cq_head b + (cq_size b - 1) + cq_count b) mod cq_size b"
      by (rule mod_add_cong) simp
    moreover have "h + (cq_count b + 1) + cq_size b - 1 = h + cq_size b + cq_count b"
      and "cq_head b + cq_count b + cq_size b - 1 = cq_head b + (cq_size b - 1) + cq_count b"
      using cqueue_structD [OF b(1)] by simp_all
    ultimately show ?thesis by (simp only:)
  qed
  then have st: "cqueue_struct c" using b(1,3) h by (simp add: cqueue_struct_def c_def)
  have "cqueue_cells c = Some x # cqueue_cells b"
  proof (rule cqueue_cells_eqI)
    fix i assume i: "i < cq_count c"
    show "cqueue_at c i = (Some x # cqueue_cells b) ! i"
    proof (cases i)
      case 0
      then show ?thesis using b(1) h by (simp add: cqueue_at_def c_def cqueue_struct_def)
    next
      case (Suc j)
      have idx: "(h + i) mod cq_size b = (cq_head b + j) mod cq_size b"
        using push_front_index [of "cq_head b" "cq_size b" i] Suc i b(1,3)
        by (simp add: h_def c_def cqueue_struct_def)
      have "(h + i) mod cq_size b \<noteq> h"
        using wrap_index_inj [of h "cq_size b" i 0] h Suc i b(3) by (simp add: c_def)
      then show ?thesis using idx Suc i by (simp add: cqueue_at_def c_def)
    qed
  qed (simp add: c_def)
  with st b(2) c show ?thesis by simp
qed

lemma cqueue_pop_front_correct:
  assumes "cqueue_struct a" "0 < cq_count a"
  shows "cqueue_struct (snd (cqueue_pop_front a))
    \<and> cqueue_cells (snd (cqueue_pop_front a)) = tl (cqueue_cells a)
    \<and> fst (cqueue_pop_front a) = hd (cqueue_cells a)"
proof -
  let ?b = "snd (cqueue_pop_front a)"
  have b: "?b = a\<lparr>cq_head := (cq_head a + 1) mod cq_size a, cq_count := cq_count a - 1\<rparr>"
    "fst (cqueue_pop_front a) = cq_array a ! cq_head a"
    using assms by (simp_all add: cqueue_pop_front_def cqueue_empty_def)
  have "((cq_head a + 1) mod cq_size a + (cq_count a - 1) + cq_size a - 1) mod cq_size a
      = (cq_head a + cq_count a + cq_size a - 1) mod cq_size a"
  proof -
    have "(cq_head a + 1) mod cq_size a + (cq_count a - 1) + cq_size a - 1
        = (cq_head a + 1) mod cq_size a + (cq_count a + cq_size a - 2)"
      and "cq_head a + 1 + (cq_count a + cq_size a - 2) = cq_head a + cq_count a + cq_size a - 1"
      using assms cqueue_structD [OF assms(1)] by simp_all
    then show ?thesis by (metis mod_add_left_eq)
  qed
  then have "cqueue_struct ?b" using assms b by (auto simp: cqueue_struct_def)
  moreover have "cqueue_cells ?b = tl (cqueue_cells a)"
  proof (rule cqueue_cells_eqI)
    fix i assume "i < cq_count ?b"
    then have i: "i < cq_count a - 1" by (simp add: b)
    then have "cqueue_at ?b i = cqueue_at a (Suc i)"
      by (simp add: b cqueue_at_def mod_add_left_eq)
    with i show "cqueue_at ?b i = tl (cqueue_cells a) ! i" by (simp add: nth_tl)
  qed (simp add: b)
  moreover have "hd (cqueue_cells a) = cq_array a ! cq_head a"
    using assms by (simp add: hd_conv_nth cqueue_at_def cqueue_struct_def flip: length_0_conv)
  ultimately show ?thesis using b by simp
qed

section \<open>The contract of the queue\<close>

text \<open>
  A double-ended queue with a list as its abstract value.  The lemmas below the contract are the
  ones the value proposal manager needs: pushing a whole list to the front reverses it, so that
  draining a queue into another one and pushing it back restores the order.
\<close>

locale deque =
  fixes empty :: "nat \<Rightarrow> 'q"
    and push_back :: "'q \<Rightarrow> 'a \<Rightarrow> 'q"
    and push_front :: "'q \<Rightarrow> 'a \<Rightarrow> 'q"
    and pop_front :: "'q \<Rightarrow> 'a option \<times> 'q"
    and is_empty :: "'q \<Rightarrow> bool"
    and list :: "'q \<Rightarrow> 'a list"
    and invar :: "'q \<Rightarrow> bool"
  assumes invar_empty: "0 < n \<Longrightarrow> invar (empty n)"
    and list_empty: "0 < n \<Longrightarrow> list (empty n) = []"
    and invar_push_back: "invar q \<Longrightarrow> invar (push_back q x)"
    and list_push_back: "invar q \<Longrightarrow> list (push_back q x) = list q @ [x]"
    and invar_push_front: "invar q \<Longrightarrow> invar (push_front q x)"
    and list_push_front: "invar q \<Longrightarrow> list (push_front q x) = x # list q"
    and is_empty_iff: "invar q \<Longrightarrow> is_empty q \<longleftrightarrow> list q = []"
    and pop_front_empty: "invar q \<Longrightarrow> list q = [] \<Longrightarrow> pop_front q = (None, q)"
    and pop_front_cons: "invar q \<Longrightarrow> list q = x # xs \<Longrightarrow>
          fst (pop_front q) = Some x \<and> invar (snd (pop_front q)) \<and> list (snd (pop_front q)) = xs"
begin

lemma pop_frontE:
  assumes "invar q" "list q = x # xs"
  obtains q' where "pop_front q = (Some x, q')" "invar q'" "list q' = xs"
  using pop_front_cons [OF assms] by (metis prod.collapse)

lemma push_front_all:
  "invar q \<Longrightarrow> invar (fold (\<lambda>x q. push_front q x) xs q)
    \<and> list (fold (\<lambda>x q. push_front q x) xs q) = rev xs @ list q"
proof (induction xs arbitrary: q)
  case Nil
  then show ?case by simp
next
  case (Cons x xs)
  then show ?case using Cons.IH [of "push_front q x"] by (simp add: invar_push_front list_push_front)
qed

lemma push_back_all:
  "invar q \<Longrightarrow> invar (fold (\<lambda>x q. push_back q x) xs q)
    \<and> list (fold (\<lambda>x q. push_back q x) xs q) = list q @ xs"
proof (induction xs arbitrary: q)
  case Nil
  then show ?case by simp
next
  case (Cons x xs)
  then show ?case using Cons.IH [of "push_back q x"] by (simp add: invar_push_back list_push_back)
qed

end

lemma cqueue_list_simps:
  "cqueue_wf a \<Longrightarrow> cqueue_cells a = map Some (cqueue_list a)"
proof -
  assume "cqueue_wf a"
  then have "\<forall>c \<in> set (cqueue_cells a). Some (the c) = c"
    by (auto simp: cqueue_wf_def) (metis not_None_eq option.sel)
  then show ?thesis by (simp add: cqueue_list_def map_idI comp_def)
qed

lemma cqueue_list_eqI:
  "cqueue_struct a \<Longrightarrow> cqueue_cells a = map Some xs \<Longrightarrow> cqueue_wf a \<and> cqueue_list a = xs"
  by (simp add: cqueue_wf_def cqueue_list_def comp_def image_iff)

lemma cqueue_wf_struct: "cqueue_wf a \<Longrightarrow> cqueue_struct a"
  by (simp add: cqueue_wf_def)

interpretation dq: deque cqueue_new cqueue_push_back cqueue_push_front cqueue_pop_front cqueue_empty
  cqueue_list cqueue_wf
proof
  fix n :: nat assume "0 < n"
  then have "cqueue_wf (cqueue_new n :: 'a cqueue) \<and> cqueue_list (cqueue_new n :: 'a cqueue) = []"
    using cqueue_list_eqI [of "cqueue_new n :: 'a cqueue" "[]"] by simp
  then show "cqueue_wf (cqueue_new n :: 'a cqueue)" "cqueue_list (cqueue_new n :: 'a cqueue) = []"
    by simp_all
next
  fix q :: "'a cqueue" and x :: 'a and xs assume wf: "cqueue_wf q"
  note st = cqueue_wf_struct [OF wf] and cells = cqueue_list_simps [OF wf]
  show "cqueue_wf (cqueue_push_back q x)" "cqueue_list (cqueue_push_back q x) = cqueue_list q @ [x]"
    using cqueue_list_eqI [of "cqueue_push_back q x" "cqueue_list q @ [x]"]
      cqueue_push_back_correct [OF st, of x] cells by simp_all
  show "cqueue_wf (cqueue_push_front q x)" "cqueue_list (cqueue_push_front q x) = x # cqueue_list q"
    using cqueue_list_eqI [of "cqueue_push_front q x" "x # cqueue_list q"]
      cqueue_push_front_correct [OF st, of x] cells by simp_all
  show "cqueue_empty q \<longleftrightarrow> cqueue_list q = []"
    by (simp add: cqueue_empty_def flip: length_0_conv)
  show "cqueue_list q = [] \<Longrightarrow> cqueue_pop_front q = (None, q)"
    by (simp add: cqueue_pop_front_def cqueue_empty_def flip: length_0_conv)
  assume ls: "cqueue_list q = x # xs"
  have "0 < cq_count q" using arg_cong [OF ls, of length] by simp
  then show "fst (cqueue_pop_front q) = Some x \<and> cqueue_wf (snd (cqueue_pop_front q))
      \<and> cqueue_list (snd (cqueue_pop_front q)) = xs"
    using cqueue_list_eqI [of "snd (cqueue_pop_front q)" xs] cqueue_pop_front_correct [OF st] cells ls
    by simp
qed

end
