(* ===== verification/Value_Manager.thy ===== *)
theory Value_Manager
  imports Circular_Queue
begin

text \<open>
  \<open>src/paxos/value_proposal_manager.c\<close>: the two queues of client values a proposer keeps, those not
  yet proposed and those proposed but not yet known to be chosen.  The queues are those of \<open>Circular_Queue\<close>, which
  \<open>Carray\<close> relates to the code for up to \<open>2\<^sup>2\<^sup>9\<close> elements.  The clock (\<open>gettimeofday\<close>) is an
  argument.  Two effects of the C code are values of the model: \<open>None\<close> from
  \<open>value_proposal_manager_enqueue\<close> is the failed \<open>assert\<close> that aborts the process, and \<open>No_Return\<close>
  is the path of \<open>value_proposal_manger_get_next\<close> that ends without a \<open>return\<close> statement, so
  that its caller reads an indeterminate result.
\<close>

section \<open>Definitions\<close>

record value_proposal_manager =
  vpm_to_propose :: "paxos_value cqueue"
  vpm_proposed :: "paxos_value cqueue"
  vpm_parallel_proposals :: bool
  vpm_timeout_begun :: bool
  vpm_noop_began_wait :: timeval

datatype get_next_result = Next paxos_value | No_Value | No_Return

definition value_proposal_manager_new :: "nat \<Rightarrow> bool \<Rightarrow> value_proposal_manager" where
  "value_proposal_manager_new initial_queue_len repropose_values =
     \<lparr>vpm_to_propose = cqueue_new initial_queue_len, vpm_proposed = cqueue_new initial_queue_len,
      vpm_parallel_proposals = repropose_values, vpm_timeout_begun = False,
      vpm_noop_began_wait = \<lparr>tv_sec = 0, tv_usec = 0\<rparr>\<rparr>"

definition value_proposal_manager_enqueue ::
    "value_proposal_manager \<Rightarrow> paxos_value \<Rightarrow> value_proposal_manager option" where
  "value_proposal_manager_enqueue m v =
     (if is_values_equal NOP v then None
      else Some (m\<lparr>vpm_to_propose := cqueue_push_back (vpm_to_propose m) v\<rparr>))"

definition noop_timeout_reached :: "paxos_config \<Rightarrow> timeval \<Rightarrow> value_proposal_manager \<Rightarrow> bool" where
  "noop_timeout_reached cfg now m \<longleftrightarrow>
     vpm_timeout_begun m
     \<and> timer_greater (timersub now (vpm_noop_began_wait m)) \<lparr>tv_sec = 0, tv_usec = cfg_noop_timeout_us cfg\<rparr>"

definition noop_begin_timeout :: "timeval \<Rightarrow> value_proposal_manager \<Rightarrow> value_proposal_manager" where
  "noop_begin_timeout now m = m\<lparr>vpm_noop_began_wait := now, vpm_timeout_begun := True\<rparr>"

definition noop_timeout_reset :: "timeval \<Rightarrow> value_proposal_manager \<Rightarrow> value_proposal_manager" where
  "noop_timeout_reset now m = m\<lparr>vpm_noop_began_wait := now\<rparr>"

definition noop_timeout_end :: "value_proposal_manager \<Rightarrow> value_proposal_manager" where
  "noop_timeout_end m = m\<lparr>vpm_timeout_begun := False\<rparr>"

definition value_proposal_manger_get_next ::
    "paxos_config \<Rightarrow> timeval \<Rightarrow> value_proposal_manager \<Rightarrow> bool
       \<Rightarrow> value_proposal_manager \<times> get_next_result" where
  "value_proposal_manger_get_next cfg now m is_holes =
     (if \<not> cqueue_empty (vpm_to_propose m) then
        (case cqueue_pop_front (vpm_to_propose m) of
           (None, q) \<Rightarrow> (m\<lparr>vpm_to_propose := q\<rparr>, No_Return)
         | (Some v, q) \<Rightarrow>
             (noop_timeout_end
               (m\<lparr>vpm_to_propose := q, vpm_proposed := cqueue_push_back (vpm_proposed m) v\<rparr>), Next v))
      else if \<not> cqueue_empty (vpm_proposed m) \<and> vpm_parallel_proposals m then
        (case cqueue_pop_front (vpm_proposed m) of
           (None, q) \<Rightarrow> (m\<lparr>vpm_proposed := q\<rparr>, No_Return)
         | (Some v, q) \<Rightarrow>
             (noop_timeout_end (m\<lparr>vpm_proposed := cqueue_push_back q v\<rparr>), Next v))
      else if is_holes \<or> \<not> cfg_await_holes cfg then
        (if noop_timeout_reached cfg now m then (noop_timeout_reset now m, Next NOP)
         else (noop_begin_timeout now m, No_Return))
      else (noop_timeout_end m, No_Value))"

text \<open>
  The two loops that all searches of a queue share: everything is popped and pushed to the front of
  a temporary array, except the values equal to \<open>v\<close>; then the temporary array is popped and pushed
  to the front of the queue again.
\<close>

function drain_queue ::
    "paxos_value cqueue \<Rightarrow> paxos_value cqueue \<Rightarrow> paxos_value \<Rightarrow> bool
       \<Rightarrow> paxos_value cqueue \<times> paxos_value cqueue \<times> bool" where
  "drain_queue q tmp v found =
     (if cqueue_empty q then (q, tmp, found)
      else case cqueue_pop_front q of
        (None, q') \<Rightarrow> drain_queue q' tmp v found
      | (Some cur, q') \<Rightarrow>
          if is_values_equal cur v then drain_queue q' tmp v True
          else drain_queue q' (cqueue_push_front tmp cur) v found)"
  by pat_completeness auto
termination
  by (relation "measure (\<lambda>(q, _). cq_count q)") (auto simp: cqueue_pop_front_def cqueue_empty_def)

function refill_queue :: "paxos_value cqueue \<Rightarrow> paxos_value cqueue \<Rightarrow> paxos_value cqueue" where
  "refill_queue tmp q =
     (if cqueue_empty tmp then q
      else case cqueue_pop_front tmp of
        (None, tmp') \<Rightarrow> refill_queue tmp' q
      | (Some cur, tmp') \<Rightarrow> refill_queue tmp' (cqueue_push_front q cur))"
  by pat_completeness auto
termination
  by (relation "measure (\<lambda>(tmp, _). cq_count tmp)") (auto simp: cqueue_pop_front_def cqueue_empty_def)

declare drain_queue.simps [simp del] refill_queue.simps [simp del]

definition remove_value_from_queue ::
    "paxos_value cqueue \<Rightarrow> paxos_value \<Rightarrow> paxos_value cqueue \<times> bool" where
  "remove_value_from_queue q v =
     (case drain_queue q (cqueue_new (cqueue_size q)) v False of
        (q', tmp, found) \<Rightarrow> (refill_queue tmp q', found))"

definition remove_value_from_proposing_queue ::
    "value_proposal_manager \<Rightarrow> paxos_value \<Rightarrow> value_proposal_manager \<times> bool" where
  "remove_value_from_proposing_queue m v =
     (case remove_value_from_queue (vpm_to_propose m) v of
        (q, found) \<Rightarrow> (m\<lparr>vpm_to_propose := q\<rparr>, found))"

definition remove_value_from_retry_queue ::
    "value_proposal_manager \<Rightarrow> paxos_value \<Rightarrow> value_proposal_manager \<times> bool" where
  "remove_value_from_retry_queue m v =
     (case remove_value_from_queue (vpm_proposed m) v of
        (q, found) \<Rightarrow> (m\<lparr>vpm_proposed := q\<rparr>, found))"

definition value_proposal_manager_close_if_outstanding ::
    "value_proposal_manager \<Rightarrow> paxos_value \<Rightarrow> value_proposal_manager \<times> bool" where
  "value_proposal_manager_close_if_outstanding m v =
     (let (m, from_proposal_queue) = remove_value_from_proposing_queue m v;
          (m, from_reproposal_queue) = remove_value_from_retry_queue m v
      in (m, from_reproposal_queue \<or> from_proposal_queue))"

definition value_proposal_manager_check_and_requeue_value ::
    "value_proposal_manager \<Rightarrow> paxos_value \<Rightarrow> value_proposal_manager \<times> bool" where
  "value_proposal_manager_check_and_requeue_value m v =
     (let (m, from_proposing_queue) = remove_value_from_proposing_queue m v;
          (m, from_reproposing_queue) = remove_value_from_retry_queue m v;
          m = (if from_reproposing_queue
               then m\<lparr>vpm_to_propose := cqueue_push_front (vpm_to_propose m) v\<rparr> else m);
          m = (if from_proposing_queue
               then m\<lparr>vpm_to_propose := cqueue_push_front (vpm_to_propose m) v\<rparr> else m)
      in (m, from_proposing_queue \<or> from_reproposing_queue))"

text \<open>\<open>is_in_proposal_queue\<close> is the same pair of loops; the values it finds are dropped.\<close>

definition is_in_proposal_queue ::
    "value_proposal_manager \<Rightarrow> paxos_value \<Rightarrow> value_proposal_manager \<times> bool" where
  "is_in_proposal_queue m v =
     (case drain_queue (vpm_to_propose m) (cqueue_new (cqueue_size (vpm_to_propose m))) v False of
        (q, tmp, found) \<Rightarrow> (m\<lparr>vpm_to_propose := refill_queue tmp q\<rparr>, found))"

text \<open>\<open>is_in_retry_queue\<close> returns from inside of its first loop when it finds the value.\<close>

function search_retry_queue ::
    "paxos_value cqueue \<Rightarrow> paxos_value cqueue \<Rightarrow> paxos_value \<Rightarrow> paxos_value cqueue \<times> bool" where
  "search_retry_queue q tmp v =
     (if cqueue_empty q then (refill_queue tmp q, False)
      else case cqueue_pop_front q of
        (None, q') \<Rightarrow> search_retry_queue q' tmp v
      | (Some cur, q') \<Rightarrow>
          if is_values_equal cur v then (q', True)
          else search_retry_queue q' (cqueue_push_front tmp cur) v)"
  by pat_completeness auto
termination
  by (relation "measure (\<lambda>(q, _). cq_count q)") (auto simp: cqueue_pop_front_def cqueue_empty_def)

declare search_retry_queue.simps [simp del]

definition is_in_retry_queue ::
    "value_proposal_manager \<Rightarrow> paxos_value \<Rightarrow> value_proposal_manager \<times> bool" where
  "is_in_retry_queue m v =
     (case search_retry_queue (vpm_proposed m) (cqueue_new (cqueue_size (vpm_proposed m))) v of
        (q, found) \<Rightarrow> (m\<lparr>vpm_proposed := q\<rparr>, found))"

definition value_proposal_manager_is_outstanding ::
    "value_proposal_manager \<Rightarrow> paxos_value \<Rightarrow> value_proposal_manager \<times> bool" where
  "value_proposal_manager_is_outstanding m v =
     (case is_in_retry_queue m v of
        (m, True) \<Rightarrow> (m, True)
      | (m, False) \<Rightarrow> is_in_proposal_queue m v)"

section \<open>The queues as lists\<close>

definition vpm_wf :: "value_proposal_manager \<Rightarrow> bool" where
  "vpm_wf m \<longleftrightarrow> cqueue_wf (vpm_to_propose m) \<and> cqueue_wf (vpm_proposed m)"

abbreviation to_propose :: "value_proposal_manager \<Rightarrow> paxos_value list" where
  "to_propose m \<equiv> cqueue_list (vpm_to_propose m)"

abbreviation proposed :: "value_proposal_manager \<Rightarrow> paxos_value list" where
  "proposed m \<equiv> cqueue_list (vpm_proposed m)"

lemma drain_queue_correct:
  assumes "cqueue_wf q" "cqueue_wf tmp"
  shows "case drain_queue q tmp v found of (q', tmp', found') \<Rightarrow>
      cqueue_wf q' \<and> cqueue_list q' = [] \<and> cqueue_wf tmp'
      \<and> cqueue_list tmp' = rev (filter (\<lambda>x. x \<noteq> v) (cqueue_list q)) @ cqueue_list tmp
      \<and> (found' \<longleftrightarrow> found \<or> v \<in> set (cqueue_list q))"
  using assms
proof (induction "cqueue_list q" arbitrary: q tmp found)
  case Nil
  then have "cqueue_empty q" by (simp add: dq.is_empty_iff)
  with Nil show ?case by (simp add: drain_queue.simps [of q])
next
  case (Cons x xs)
  from Cons.hyps(2) obtain q' where pop: "cqueue_pop_front q = (Some x, q')" "cqueue_wf q'"
    and q': "cqueue_list q' = xs"
    by (metis dq.pop_frontE Cons.prems(1))
  have ne: "\<not> cqueue_empty q" using Cons.prems(1) Cons.hyps(2) by (simp add: dq.is_empty_iff flip: Cons.hyps(2))
  have wf: "cqueue_wf (cqueue_push_front tmp x)" "cqueue_list (cqueue_push_front tmp x) = x # cqueue_list tmp"
    using Cons.prems(2) by (simp_all add: dq.invar_push_front dq.list_push_front)
  show ?case
  proof (cases "x = v")
    case True
    then have "drain_queue q tmp v found = drain_queue q' tmp v True"
      using ne pop(1) by (simp add: drain_queue.simps [of q])
    moreover have "filter (\<lambda>y. y \<noteq> v) (cqueue_list q) = filter (\<lambda>y. y \<noteq> v) xs" "v \<in> set (cqueue_list q)"
      using True by (simp_all flip: Cons.hyps(2))
    ultimately show ?thesis
      using Cons.hyps(1) [of q' tmp True] q' pop(2) Cons.prems(2) by (simp split: prod.splits)
  next
    case False
    then have "drain_queue q tmp v found = drain_queue q' (cqueue_push_front tmp x) v found"
      using ne pop(1) by (simp add: drain_queue.simps [of q])
    moreover have "filter (\<lambda>y. y \<noteq> v) (cqueue_list q) = x # filter (\<lambda>y. y \<noteq> v) xs"
      "v \<in> set (cqueue_list q) \<longleftrightarrow> v \<in> set xs"
      using False by (simp_all flip: Cons.hyps(2))
    ultimately show ?thesis
      using Cons.hyps(1) [of q' "cqueue_push_front tmp x" found] q' pop(2) wf by (simp split: prod.splits)
  qed
qed

lemma refill_queue_correct:
  assumes "cqueue_wf tmp" "cqueue_wf q"
  shows "cqueue_wf (refill_queue tmp q) \<and> cqueue_list (refill_queue tmp q) = rev (cqueue_list tmp) @ cqueue_list q"
  using assms
proof (induction "cqueue_list tmp" arbitrary: q tmp)
  case Nil
  then have "cqueue_empty tmp" by (simp add: dq.is_empty_iff)
  with Nil show ?case by (simp add: refill_queue.simps [of tmp] flip: Nil.hyps)
next
  case (Cons x xs)
  from Cons.hyps(2) obtain t where pop: "cqueue_pop_front tmp = (Some x, t)" "cqueue_wf t"
    and t: "cqueue_list t = xs"
    by (metis dq.pop_frontE Cons.prems(1))
  have "\<not> cqueue_empty tmp" using Cons.prems(1) by (simp add: dq.is_empty_iff flip: Cons.hyps(2))
  then have eq: "refill_queue tmp q = refill_queue t (cqueue_push_front q x)"
    using pop(1) by (simp add: refill_queue.simps [of tmp])
  show ?case
    using Cons.hyps(1) [of t "cqueue_push_front q x"] t pop(2) Cons.prems(2) eq
    by (simp add: dq.invar_push_front dq.list_push_front flip: Cons.hyps(2))
qed

lemma cqueue_size_pos: "cqueue_wf q \<Longrightarrow> 0 < cqueue_size q"
  by (simp add: cqueue_wf_def cqueue_struct_def cqueue_size_def)

lemma remove_value_from_queue_correct:
  assumes "cqueue_wf q"
  shows "\<exists>q'. remove_value_from_queue q v = (q', v \<in> set (cqueue_list q)) \<and> cqueue_wf q'
    \<and> cqueue_list q' = filter (\<lambda>x. x \<noteq> v) (cqueue_list q)"
proof -
  note new = dq.invar_empty [OF cqueue_size_pos [OF assms]] dq.list_empty [OF cqueue_size_pos [OF assms]]
  obtain d tmp found where d: "drain_queue q (cqueue_new (cqueue_size q)) v False = (d, tmp, found)"
    by (metis prod_cases3)
  with drain_queue_correct [OF assms new(1), of v False] new(2)
  have *: "cqueue_wf d" "cqueue_list d = []" "cqueue_wf tmp"
    "cqueue_list tmp = rev (filter (\<lambda>x. x \<noteq> v) (cqueue_list q))" "found \<longleftrightarrow> v \<in> set (cqueue_list q)"
    by simp_all
  with refill_queue_correct [OF *(3,1)] d show ?thesis by (simp add: remove_value_from_queue_def)
qed

lemma remove_from_proposing:
  assumes "vpm_wf m"
  obtains m' where "remove_value_from_proposing_queue m v = (m', v \<in> set (to_propose m))" "vpm_wf m'"
    "to_propose m' = filter (\<lambda>x. x \<noteq> v) (to_propose m)" "vpm_proposed m' = vpm_proposed m"
  using remove_value_from_queue_correct [of "vpm_to_propose m" v] assms
  by (auto simp: vpm_wf_def remove_value_from_proposing_queue_def)

lemma remove_from_retry:
  assumes "vpm_wf m"
  obtains m' where "remove_value_from_retry_queue m v = (m', v \<in> set (proposed m))" "vpm_wf m'"
    "proposed m' = filter (\<lambda>x. x \<noteq> v) (proposed m)" "vpm_to_propose m' = vpm_to_propose m"
  using remove_value_from_queue_correct [of "vpm_proposed m" v] assms
  by (auto simp: vpm_wf_def remove_value_from_retry_queue_def)

section \<open>Properties\<close>

definition outstanding :: "value_proposal_manager \<Rightarrow> paxos_value set" where
  "outstanding m = set (to_propose m) \<union> set (proposed m)"

lemma vpm_new_wf [simp]: "0 < n \<Longrightarrow> vpm_wf (value_proposal_manager_new n b)"
  by (simp add: vpm_wf_def value_proposal_manager_new_def dq.invar_empty)

lemma vpm_new_outstanding [simp]: "0 < n \<Longrightarrow> outstanding (value_proposal_manager_new n b) = {}"
  by (simp add: outstanding_def value_proposal_manager_new_def dq.list_empty)

lemma enqueue_correct:
  "vpm_wf m \<Longrightarrow> value_proposal_manager_enqueue m v = Some m' \<Longrightarrow>
     vpm_wf m' \<and> to_propose m' = to_propose m @ [v] \<and> proposed m' = proposed m \<and> v \<noteq> NOP"
  by (auto simp: value_proposal_manager_enqueue_def vpm_wf_def dq.invar_push_back dq.list_push_back
      split: if_splits)

lemma close_correct:
  assumes "vpm_wf m"
  obtains m' where
    "value_proposal_manager_close_if_outstanding m v = (m', v \<in> outstanding m)" "vpm_wf m'"
    "to_propose m' = filter (\<lambda>x. x \<noteq> v) (to_propose m)"
    "proposed m' = filter (\<lambda>x. x \<noteq> v) (proposed m)"
proof -
  obtain m1 where m1: "remove_value_from_proposing_queue m v = (m1, v \<in> set (to_propose m))" "vpm_wf m1"
    "to_propose m1 = filter (\<lambda>x. x \<noteq> v) (to_propose m)" "vpm_proposed m1 = vpm_proposed m"
    using remove_from_proposing [OF assms] .
  obtain m2 where m2: "remove_value_from_retry_queue m1 v = (m2, v \<in> set (proposed m1))" "vpm_wf m2"
    "proposed m2 = filter (\<lambda>x. x \<noteq> v) (proposed m1)" "vpm_to_propose m2 = vpm_to_propose m1"
    using remove_from_retry [OF m1(2)] .
  show thesis
    by (rule that [of m2])
      (use m1 m2 in \<open>auto simp: value_proposal_manager_close_if_outstanding_def outstanding_def Let_def\<close>)
qed

text \<open>
  Closing a value removes every occurrence of it from both queues, keeps all other values in
  their order, and reports whether the value was outstanding.
\<close>

theorem close_if_outstanding_removes_value:
  assumes "vpm_wf m"
    and "value_proposal_manager_close_if_outstanding m v = (m', closed)"
  shows "vpm_wf m' \<and> (closed \<longleftrightarrow> v \<in> outstanding m)
    \<and> to_propose m' = filter (\<lambda>x. x \<noteq> v) (to_propose m)
    \<and> proposed m' = filter (\<lambda>x. x \<noteq> v) (proposed m)"
  using close_correct [OF assms(1), of v] assms(2) by (metis prod.inject)

theorem close_if_outstanding_removes_value_witness:
  "\<exists>m m'. value_proposal_manager_enqueue (value_proposal_manager_new 2 False) [7] = Some m
     \<and> value_proposal_manager_close_if_outstanding m [7] = (m', True) \<and> to_propose m' = []"
proof -
  obtain m where m: "value_proposal_manager_enqueue (value_proposal_manager_new 2 False) [7] = Some m"
    by (simp add: value_proposal_manager_enqueue_def NOP_def)
  then have wf: "vpm_wf m" "to_propose m = [[7]]"
    using enqueue_correct [OF vpm_new_wf m] by (simp_all add: value_proposal_manager_new_def dq.list_empty)
  obtain m' c where c: "value_proposal_manager_close_if_outstanding m [7] = (m', c)"
    by (metis surj_pair)
  from close_if_outstanding_removes_value [OF wf(1) c] wf(2) c m show ?thesis
    by (auto simp: outstanding_def)
qed

lemma requeue_correct:
  assumes "vpm_wf m"
  obtains m' where
    "value_proposal_manager_check_and_requeue_value m v = (m', v \<in> outstanding m)" "vpm_wf m'"
    "to_propose m' = (if v \<in> set (to_propose m) then [v] else []) @ (if v \<in> set (proposed m) then [v] else [])
       @ filter (\<lambda>x. x \<noteq> v) (to_propose m)"
    "proposed m' = filter (\<lambda>x. x \<noteq> v) (proposed m)"
proof -
  obtain m1 where m1: "remove_value_from_proposing_queue m v = (m1, v \<in> set (to_propose m))" "vpm_wf m1"
    "to_propose m1 = filter (\<lambda>x. x \<noteq> v) (to_propose m)" "vpm_proposed m1 = vpm_proposed m"
    using remove_from_proposing [OF assms] .
  obtain m2 where m2: "remove_value_from_retry_queue m1 v = (m2, v \<in> set (proposed m1))" "vpm_wf m2"
    "proposed m2 = filter (\<lambda>x. x \<noteq> v) (proposed m1)" "vpm_to_propose m2 = vpm_to_propose m1"
    using remove_from_retry [OF m1(2)] .
  show thesis
    by (rule that [of "fst (value_proposal_manager_check_and_requeue_value m v)"])
      (use m1 m2 in \<open>auto simp: value_proposal_manager_check_and_requeue_value_def outstanding_def Let_def
         vpm_wf_def dq.invar_push_front dq.list_push_front\<close>)
qed

text \<open>
  Requeueing a value loses no client value: the same values are outstanding before and after, and
  a value that was proposed is moved to the front of the values still to be proposed.
\<close>

theorem requeue_keeps_outstanding_values:
  assumes "vpm_wf m"
    and "value_proposal_manager_check_and_requeue_value m v = (m', requeued)"
  shows "vpm_wf m' \<and> outstanding m' = outstanding m \<and> (requeued \<longleftrightarrow> v \<in> outstanding m)
    \<and> (v \<in> set (proposed m) \<longrightarrow> hd (to_propose m') = v) \<and> v \<notin> set (proposed m')"
proof -
  obtain m'' where "value_proposal_manager_check_and_requeue_value m v = (m'', v \<in> outstanding m)"
    "vpm_wf m''"
    "to_propose m'' = (if v \<in> set (to_propose m) then [v] else []) @ (if v \<in> set (proposed m) then [v] else [])
       @ filter (\<lambda>x. x \<noteq> v) (to_propose m)"
    "proposed m'' = filter (\<lambda>x. x \<noteq> v) (proposed m)"
    using requeue_correct [OF assms(1)] .
  with assms(2) show ?thesis by (auto simp: outstanding_def)
qed

theorem requeue_keeps_outstanding_values_witness:
  "\<exists>m m'. vpm_wf m \<and> value_proposal_manager_check_and_requeue_value m [7] = (m', True)
     \<and> outstanding m' = {[7]}"
proof -
  obtain m where m: "value_proposal_manager_enqueue (value_proposal_manager_new 2 False) [7] = Some m"
    by (simp add: value_proposal_manager_enqueue_def NOP_def)
  then have wf: "vpm_wf m" "outstanding m = {[7]}"
    using enqueue_correct [OF vpm_new_wf m]
    by (simp_all add: outstanding_def value_proposal_manager_new_def dq.list_empty)
  obtain m' c where c: "value_proposal_manager_check_and_requeue_value m [7] = (m', c)"
    by (metis surj_pair)
  from requeue_keeps_outstanding_values [OF wf(1) c] wf c show ?thesis by auto
qed

lemma get_next_pop:
  assumes "cqueue_wf q" "\<not> cqueue_empty q"
  obtains x q' where "cqueue_pop_front q = (Some x, q')" "cqueue_wf q'" "cqueue_list q = x # cqueue_list q'"
proof -
  from assms obtain x xs where "cqueue_list q = x # xs"
    using dq.is_empty_iff [OF assms(1)] by (cases "cqueue_list q") auto
  with dq.pop_frontE [OF assms(1) this] that show thesis by metis
qed

lemma get_next_correct:
  assumes "vpm_wf m" and "value_proposal_manger_get_next cfg now m holes = (m', r)"
  shows "vpm_wf m' \<and> outstanding m' = outstanding m
    \<and> (\<forall>v. r = Next v \<longrightarrow> v \<in> set (proposed m') \<or> v = NOP \<and> to_propose m = [])"
proof (cases "cqueue_empty (vpm_to_propose m)")
  case False
  with assms(1) obtain x q where "cqueue_pop_front (vpm_to_propose m) = (Some x, q)" "cqueue_wf q"
    "to_propose m = x # cqueue_list q"
    using get_next_pop by (auto simp: vpm_wf_def)
  with False assms show ?thesis
    by (auto simp: value_proposal_manger_get_next_def noop_timeout_end_def vpm_wf_def outstanding_def
        dq.invar_push_back dq.list_push_back)
next
  case True
  then have emp: "to_propose m = []" using assms(1) by (simp add: vpm_wf_def dq.is_empty_iff)
  show ?thesis
  proof (cases "\<not> cqueue_empty (vpm_proposed m) \<and> vpm_parallel_proposals m")
    case again: True
    with assms(1) obtain x q where "cqueue_pop_front (vpm_proposed m) = (Some x, q)" "cqueue_wf q"
      "proposed m = x # cqueue_list q"
      using get_next_pop by (auto simp: vpm_wf_def)
    with again True assms show ?thesis
      by (auto simp: value_proposal_manger_get_next_def noop_timeout_end_def vpm_wf_def outstanding_def
          dq.invar_push_back dq.list_push_back)
  next
    case False
    with True assms emp show ?thesis
      by (auto simp: value_proposal_manger_get_next_def noop_timeout_end_def noop_timeout_reset_def
          noop_begin_timeout_def vpm_wf_def outstanding_def split: if_splits)
  qed
qed

text \<open>
  Taking the next value to propose loses no client value and invents none: the outstanding values
  stay the same, and what is returned is an outstanding client value (kept in the queue of proposed
  values) or, only when no client value is available, \<open>NOP\<close>.
\<close>

theorem get_next_keeps_outstanding_values:
  assumes "vpm_wf m" and "value_proposal_manger_get_next cfg now m holes = (m', r)"
  shows "vpm_wf m' \<and> outstanding m' = outstanding m
    \<and> (\<forall>v. r = Next v \<longrightarrow> v \<in> set (proposed m') \<or> v = NOP \<and> to_propose m = [])"
  using get_next_correct [OF assms] .

text \<open>A configuration with the defaults of \<open>src/paxos/paxos.c\<close> for concrete runs.\<close>

definition sample_config :: paxos_config where
  "sample_config = \<lparr>cfg_learner_catch_up = True, cfg_proposer_timeout = 1, cfg_quorum_2 = 2,
     cfg_fall_behind_jump = 0, cfg_noop_timeout_us = 0, cfg_await_holes = False, cfg_repropose_values = False\<rparr>"

theorem get_next_keeps_outstanding_values_witness:
  "\<exists>m m'. vpm_wf m \<and> value_proposal_manger_get_next sample_config \<lparr>tv_sec = 0, tv_usec = 0\<rparr> m True
     = (m', Next [7]) \<and> outstanding m' = {[7]}"
proof -
  obtain m where m: "value_proposal_manager_enqueue (value_proposal_manager_new 2 False) [7] = Some m"
    by (simp add: value_proposal_manager_enqueue_def NOP_def)
  then have wf: "vpm_wf m" "outstanding m = {[7]}" "to_propose m = [[7]]"
    using enqueue_correct [OF vpm_new_wf m]
    by (simp_all add: outstanding_def value_proposal_manager_new_def dq.list_empty)
  then obtain q where "cqueue_pop_front (vpm_to_propose m) = (Some [7], q)"
    by (metis dq.pop_frontE vpm_wf_def)
  then obtain m' where c: "value_proposal_manger_get_next sample_config \<lparr>tv_sec = 0, tv_usec = 0\<rparr> m True
      = (m', Next [7])"
    using wf by (simp add: value_proposal_manger_get_next_def vpm_wf_def dq.is_empty_iff)
  from get_next_keeps_outstanding_values [OF wf(1) c] wf c show ?thesis by auto
qed

text \<open>
  With no client value at hand and the hole timeout not yet reached, \<open>value_proposal_manger_get_next\<close>
  ends without returning a value: the caller reads an indeterminate result.
\<close>

theorem get_next_without_return:
  assumes "cqueue_empty (vpm_to_propose m)" "cqueue_empty (vpm_proposed m)"
    and "is_holes \<or> \<not> cfg_await_holes cfg" "\<not> noop_timeout_reached cfg now m"
  shows "value_proposal_manger_get_next cfg now m is_holes = (noop_begin_timeout now m, No_Return)"
  using assms by (simp add: value_proposal_manger_get_next_def)

theorem get_next_without_return_witness:
  "snd (value_proposal_manger_get_next sample_config \<lparr>tv_sec = 5, tv_usec = 0\<rparr>
      (value_proposal_manager_new 2 False) False) = No_Return"
  using get_next_without_return [of "value_proposal_manager_new 2 False" False sample_config "\<lparr>tv_sec = 5, tv_usec = 0\<rparr>"]
  by (simp add: value_proposal_manager_new_def cqueue_empty_def sample_config_def noop_timeout_reached_def)

text \<open>
  Asking whether a value is outstanding changes the queues: \<open>is_in_retry_queue\<close> leaves its loop
  when it finds the value and so drops the value together with everything queued before it.
\<close>

theorem is_outstanding_drops_values:
  "let m = (value_proposal_manager_new 4 False)
             \<lparr>vpm_proposed := cqueue_push_back (cqueue_push_back (cqueue_new 4) [1]) [2]\<rparr>;
       (m', found) = value_proposal_manager_is_outstanding m [2]
   in found \<and> proposed m = [[1], [2]] \<and> proposed m' = []"
  by code_simp

end
