(* ===== verification/Proposer_Common.thy ===== *)
theory Proposer_Common
  imports Quorum Value_Manager Message_Conversion "HOL-Library.AList"
begin

text \<open>
  \<open>src/paxos/proposer_common.c\<close> and \<open>src/paxos/include/instance.h\<close>: what both proposers keep per
  instance.  A \<open>struct paxos_value*\<close> that may be \<open>NULL\<close> is an option.  The proposers' tables of
  instances are counted and iterated over as well as looked up, so they are association lists: the
  iteration order of the hash table, which the sources do not fix, is the order of the list.
\<close>

section \<open>Instances of a proposer\<close>

record proposer_common_instance_info =
  pci_iid :: iid_t
  pci_ballot :: ballot
  pci_proposing_value :: "paxos_value option"
  pci_last_accepted_value :: "paxos_value option"
  pci_last_accepted_ballot :: ballot
  pci_created_at :: timeval

definition proposer_instance_info_has_value :: "proposer_common_instance_info \<Rightarrow> bool" where
  "proposer_instance_info_has_value c \<longleftrightarrow> pci_proposing_value c \<noteq> None"

definition proposer_instance_info_has_promised_value :: "proposer_common_instance_info \<Rightarrow> bool" where
  "proposer_instance_info_has_promised_value c \<longleftrightarrow> pci_last_accepted_value c \<noteq> None"

definition proposer_instance_info_has_timedout ::
    "paxos_config \<Rightarrow> proposer_common_instance_info \<Rightarrow> timeval \<Rightarrow> bool" where
  "proposer_instance_info_has_timedout cfg c now \<longleftrightarrow>
     tv_sec now - tv_sec (pci_created_at c) \<ge> cfg_proposer_timeout cfg"

definition proposer_common_info_new :: "timeval \<Rightarrow> iid_t \<Rightarrow> ballot \<Rightarrow> proposer_common_instance_info" where
  "proposer_common_info_new now i b =
     \<lparr>pci_iid = i, pci_ballot = Ballot (ballot_number b) (ballot_proposer_id b), pci_proposing_value = None,
      pci_last_accepted_value = None, pci_last_accepted_ballot = Ballot 0 0, pci_created_at = now\<rparr>"

text \<open>Reads through \<open>proposing_value\<close>: \<open>None\<close> when the pointer is \<open>NULL\<close>.\<close>

definition proposer_instance_info_to_accept :: "proposer_common_instance_info \<Rightarrow> paxos_accept option" where
  "proposer_instance_info_to_accept c =
     (case pci_proposing_value c of
        None \<Rightarrow> None
      | Some v \<Rightarrow> Some \<lparr>acc_iid = pci_iid c,
                        acc_ballot = Ballot (ballot_number (pci_ballot c)) (ballot_proposer_id (pci_ballot c)),
                        acc_value = v\<rparr>)"

section \<open>Searching for the next instance\<close>

text \<open>
  The loops \<open>while (P(i)) i++\<close> over instances.  The fuel \<open>2 ^ 32\<close> is exhausted only if \<open>P\<close> holds of all
  instances; the C loop would not end then, and the result is \<open>None\<close>.
\<close>

function search_from :: "int \<Rightarrow> (iid_t \<Rightarrow> bool) \<Rightarrow> iid_t \<Rightarrow> iid_t option" where
  "search_from k P i = (if k \<le> 0 then None else if P i then search_from (k - 1) P (i + 1) else Some i)"
  by pat_completeness auto
termination
  by (relation "measure (\<lambda>(k, _). nat k)") auto

declare search_from.simps [simp del]

lemma search_from_add:
  "search_from k P i = Some j \<Longrightarrow> \<exists>n. int n < k \<and> j = i + of_nat n \<and> \<not> P j \<and> (\<forall>m < n. P (i + of_nat m))"
proof (induction k P i rule: search_from.induct)
  case (1 k P i)
  show ?case
  proof (cases "P i")
    case True
    with 1 obtain n where n: "int n < k - 1" "j = i + 1 + of_nat n" "\<not> P j" "\<forall>m < n. P (i + 1 + of_nat m)"
      by (auto simp: search_from.simps [of k] split: if_splits)
    have "P (i + of_nat m)" if "m < Suc n" for m
      using that n(4) True by (cases m) (auto simp: algebra_simps)
    with n show ?thesis by (intro exI [of _ "Suc n"]) (simp add: algebra_simps)
  next
    case False
    with 1(2) show ?thesis
      by (intro exI [of _ 0]) (auto simp: search_from.simps [of k] split: if_splits)
  qed
qed

lemma search_from_found:
  "\<not> P (i + of_nat n) \<Longrightarrow> int n < k \<Longrightarrow> \<exists>j. search_from k P i = Some j"
proof (induction n arbitrary: i k)
  case 0
  then show ?case by (simp add: search_from.simps [of k])
next
  case (Suc n)
  from Suc.IH [of "i + 1" "k - 1"] Suc.prems show ?case
    by (cases "P i") (simp_all add: search_from.simps [of k] algebra_simps)
qed

lemma search_from_terminates:
  assumes "\<not> P j"
  shows "\<exists>r. search_from 4294967296 P i = Some r"
proof -
  have "i + of_nat (unat (j - i)) = j" by simp
  moreover have "int (unat (j - i)) < 4294967296" using unat_u32_lt [of "j - i"] by linarith
  ultimately show ?thesis using search_from_found [of P i "unat (j - i)" 4294967296] assms by simp
qed

text \<open>Without a wrap-around the result is the least instance from \<open>i\<close> on that is not skipped.\<close>

lemma search_from_least:
  assumes "search_from k P i = Some r" "i \<le> r" "i \<le> j" "j < r"
  shows "P j"
proof -
  obtain n where n: "r = i + of_nat n" "\<forall>m < n. P (i + of_nat m)"
    using search_from_add [OF assms(1)] by auto
  have j: "j = i + of_nat (unat (j - i))" by simp
  have "unat (j - i) = unat j - unat i" "unat (r - i) = unat r - unat i"
    using assms(2,3) by (simp_all add: unat_sub)
  moreover have "unat (r - i) \<le> n" by (simp add: n(1) unat_of_nat)
  moreover have "unat j < unat r" "unat i \<le> unat j"
    using assms(3,4) by (simp_all add: word_less_nat_alt word_le_nat_alt)
  ultimately have "unat (j - i) < n" by linarith
  with n(2) have "P (i + of_nat (unat (j - i)))" by blast
  with j show ?thesis by simp
qed

section \<open>Tables of instances\<close>

text \<open>
  What both proposers keep of their two tables, whatever else an entry holds: entries are keyed by their
  instance and their vote counters are well formed; in the accept phase every entry has the value that
  is proposed for it.
\<close>

definition phase_table_wf ::
    "('x \<Rightarrow> proposer_common_instance_info) \<Rightarrow> ('x \<Rightarrow> quorum) \<Rightarrow> int \<Rightarrow> (iid_t \<times> 'x) list \<Rightarrow> bool" where
  "phase_table_wf common counter n t \<longleftrightarrow> distinct (map fst t)
     \<and> (\<forall>(k, x) \<in> set t. pci_iid (common x) = k \<and> quorum_wf (counter x) \<and> q_acceptors (counter x) = n)"

definition phase_has_values :: "('x \<Rightarrow> proposer_common_instance_info) \<Rightarrow> (iid_t \<times> 'x) list \<Rightarrow> bool" where
  "phase_has_values common t \<longleftrightarrow> (\<forall>(k, x) \<in> set t. pci_proposing_value (common x) \<noteq> None)"

lemma set_AList_update: "set (AList.update k v al) \<subseteq> insert (k, v) (set al)"
  by (induction al) auto

lemma set_AList_delete: "set (AList.delete k al) \<subseteq> set al"
  by (auto simp: AList.delete_eq)

lemma phase_table_wf_Nil [simp]: "phase_table_wf common counter n []" "phase_has_values common []"
  by (simp_all add: phase_table_wf_def phase_has_values_def)

lemma table_wf_update:
  "phase_table_wf common counter n t \<Longrightarrow> pci_iid (common x) = k \<Longrightarrow> quorum_wf (counter x) \<Longrightarrow>
     q_acceptors (counter x) = n \<Longrightarrow> phase_table_wf common counter n (AList.update k x t)"
  using set_AList_update [of k x t] by (fastforce simp: phase_table_wf_def intro: AList.distinct_update)

lemma table_wf_delete [simp]:
  "phase_table_wf common counter n t \<Longrightarrow> phase_table_wf common counter n (AList.delete k t)"
  using set_AList_delete [of k t] by (auto simp: phase_table_wf_def intro: AList.distinct_delete)

lemma table_wf_filter: "phase_table_wf common counter n t \<Longrightarrow> phase_table_wf common counter n (filter P t)"
  by (auto simp: phase_table_wf_def distinct_map_filter)

lemma has_values_update:
  "phase_has_values common t \<Longrightarrow> pci_proposing_value (common x) \<noteq> None \<Longrightarrow>
     phase_has_values common (AList.update k x t)"
  using set_AList_update [of k x t] by (fastforce simp: phase_has_values_def)

lemma has_values_delete [simp]: "phase_has_values common t \<Longrightarrow> phase_has_values common (AList.delete k t)"
  using set_AList_delete [of k t] by (auto simp: phase_has_values_def)

lemma has_values_filter: "phase_has_values common t \<Longrightarrow> phase_has_values common (filter P t)"
  by (auto simp: phase_has_values_def)

lemma phase_table_get:
  "phase_table_wf common counter n t \<Longrightarrow> map_of t i = Some x \<Longrightarrow>
     pci_iid (common x) = i \<and> quorum_wf (counter x) \<and> q_acceptors (counter x) = n"
  by (auto simp: phase_table_wf_def dest: map_of_SomeD)

lemma phase_values_get:
  "phase_has_values common t \<Longrightarrow> map_of t i = Some x \<Longrightarrow> \<exists>v. pci_proposing_value (common x) = Some v"
  by (auto simp: phase_has_values_def dest: map_of_SomeD)

lemma quorum_add_keeps:
  "quorum_wf q \<Longrightarrow> quorum_add q i = Some (q', new) \<Longrightarrow>
     quorum_wf q' \<and> q_acceptors q' = q_acceptors q \<and> q_quorum q' = q_quorum q"
  using quorum_add_cases [of q i q' new] quorum_add_wf [of q i q' new] by blast

section \<open>Values that wait to be chosen\<close>

lemma requeue_outstanding [simp]:
  "vpm_wf m \<Longrightarrow> outstanding (fst (value_proposal_manager_check_and_requeue_value m v)) = outstanding m"
  by (erule requeue_correct [where v = v]) (auto simp: outstanding_def)

lemma close_outstanding:
  "vpm_wf m \<Longrightarrow> value_proposal_manager_close_if_outstanding m v = (m', c) \<Longrightarrow>
     outstanding m' = outstanding m - {v}"
  by (erule close_correct [where v = v]) (auto simp: outstanding_def)

lemma requeue_wf [simp]: "vpm_wf m \<Longrightarrow> vpm_wf (fst (value_proposal_manager_check_and_requeue_value m v))"
  by (metis requeue_correct fst_conv)

lemma close_wf: "vpm_wf m \<Longrightarrow> value_proposal_manager_close_if_outstanding m v = (m', c) \<Longrightarrow> vpm_wf m'"
  by (metis close_correct fst_conv)

end
