(* ===== verification/Standard_Proposer.thy ===== *)
theory Standard_Proposer
  imports Proposer_Common
begin

text \<open>
  \<open>src/paxos/standard_proposer.c\<close>: the proposer of standard Paxos.  Each instance it works on is in
  the prepare phase or in the accept phase table.  The clock and the random draws are arguments.  An
  operation returns \<open>None\<close> where the C code has undefined behaviour (a vote outside of the quorum
  array, a read through a \<open>NULL\<close> value, the missing \<open>return\<close> of \<open>value_proposal_manger_get_next\<close>), aborts
  or does not return.
\<close>

section \<open>State\<close>

record standard_proposer_instance_info =
  spi_common_info :: proposer_common_instance_info
  spi_quorum :: quorum

type_synonym phase_table = "(iid_t \<times> standard_proposer_instance_info) list"

record proposer =
  pr_id :: u32
  pr_acceptors :: int
  pr_q1 :: int
  pr_q2 :: int
  pr_ballot_giver :: ballot_giver
  pr_value_proposal_manager :: value_proposal_manager
  pr_max_chosen_instance :: iid_t
  pr_trim_instance :: iid_t
  pr_next_prepare_instance :: iid_t
  pr_prepare_phase_instances :: phase_table
  pr_accept_phase_instances :: phase_table
  pr_chosens :: "iid_t \<rightharpoonup> bool"

definition get_instance_info :: "phase_table \<Rightarrow> iid_t \<Rightarrow> standard_proposer_instance_info option" where
  "get_instance_info phase_table i = map_of phase_table i"

definition remove_instance_from_phase :: "phase_table \<Rightarrow> iid_t \<Rightarrow> phase_table" where
  "remove_instance_from_phase phase_table i = AList.delete i phase_table"

definition proposer_new :: "paxos_config \<Rightarrow> u32 \<Rightarrow> int \<Rightarrow> int \<Rightarrow> int \<Rightarrow> u32 \<Rightarrow> proposer" where
  "proposer_new cfg id' acceptors q1 q2 ballot_increment =
     \<lparr>pr_id = id', pr_acceptors = acceptors, pr_q1 = q1, pr_q2 = q2,
      pr_ballot_giver = ballot_giver_new id' ballot_increment,
      pr_value_proposal_manager = value_proposal_manager_new 1000 (cfg_repropose_values cfg),
      pr_max_chosen_instance = INVALID_INSTANCE, pr_trim_instance = INVALID_INSTANCE,
      pr_next_prepare_instance = INVALID_INSTANCE, pr_prepare_phase_instances = [],
      pr_accept_phase_instances = [], pr_chosens = Map.empty\<rparr>"

definition proposer_instance_info_new ::
    "timeval \<Rightarrow> iid_t \<Rightarrow> ballot \<Rightarrow> int \<Rightarrow> int \<Rightarrow> standard_proposer_instance_info" where
  "proposer_instance_info_new now i b acceptors quorum_size =
     \<lparr>spi_common_info = proposer_common_info_new now i b, spi_quorum = quorum_init acceptors quorum_size\<rparr>"

definition proposer_add_paxos_value_to_queue :: "proposer \<Rightarrow> paxos_value \<Rightarrow> proposer option" where
  "proposer_add_paxos_value_to_queue p v =
     (case value_proposal_manager_enqueue (pr_value_proposal_manager p) v of
        None \<Rightarrow> None
      | Some m \<Rightarrow> Some (p\<lparr>pr_value_proposal_manager := m\<rparr>))"

definition proposer_prepare_count :: "proposer \<Rightarrow> nat" where
  "proposer_prepare_count p = length (pr_prepare_phase_instances p)"

definition proposer_acceptance_count :: "proposer \<Rightarrow> nat" where
  "proposer_acceptance_count p = length (pr_accept_phase_instances p)"

definition proposer_next_instance :: "proposer \<Rightarrow> proposer" where
  "proposer_next_instance p = p\<lparr>pr_next_prepare_instance := pr_next_prepare_instance p + 1\<rparr>"

definition proposer_get_current_instance :: "proposer \<Rightarrow> iid_t" where
  "proposer_get_current_instance p = pr_next_prepare_instance p"

definition proposer_is_instance_chosen :: "proposer \<Rightarrow> iid_t \<Rightarrow> bool" where
  "proposer_is_instance_chosen p i \<longleftrightarrow> pr_chosens p i \<noteq> None"

definition proposer_is_instance_pending :: "proposer \<Rightarrow> iid_t \<Rightarrow> bool" where
  "proposer_is_instance_pending p i \<longleftrightarrow>
     get_instance_info (pr_accept_phase_instances p) i \<noteq> None
     \<or> get_instance_info (pr_prepare_phase_instances p) i \<noteq> None"

definition proposer_get_next_instance_to_prepare :: "proposer \<Rightarrow> iid_t option" where
  "proposer_get_next_instance_to_prepare p =
     (let current_min_instance = pr_trim_instance p + 1
      in if \<not> proposer_is_instance_chosen p current_min_instance
            \<and> proposer_prepare_count p = 0 \<and> proposer_acceptance_count p = 0
         then Some current_min_instance
         else search_from 4294967296
                (\<lambda>i. proposer_is_instance_chosen p i
                   \<or> get_instance_info (pr_prepare_phase_instances p) i \<noteq> None
                   \<or> get_instance_info (pr_accept_phase_instances p) i \<noteq> None)
                (current_min_instance + 1))"

definition proposer_get_min_unchosen_instance :: "proposer \<Rightarrow> iid_t option" where
  "proposer_get_min_unchosen_instance p =
     search_from 4294967296 (proposer_is_instance_chosen p) (pr_trim_instance p + 1)"

definition set_instance_chosen :: "proposer \<Rightarrow> iid_t \<Rightarrow> proposer" where
  "set_instance_chosen p i =
     (if pr_chosens p i = None
      then p\<lparr>pr_chosens := (pr_chosens p)(i \<mapsto> True),
             pr_max_chosen_instance :=
               (if pr_max_chosen_instance p < i then i else pr_max_chosen_instance p)\<rparr>
      else p)"

text \<open>Reads through \<open>proposing_value\<close>.\<close>

definition instance_should_requeue_value :: "standard_proposer_instance_info \<Rightarrow> bool option" where
  "instance_should_requeue_value inst =
     (case pci_proposing_value (spi_common_info inst) of
        None \<Rightarrow> None
      | Some v \<Rightarrow> Some (\<not> is_values_equal NOP v
                   \<and> ballot_equal (pci_last_accepted_ballot (spi_common_info inst)) INVALID_BALLOT))"

section \<open>The prepare phase\<close>

definition proposer_try_to_start_preparing_instance ::
    "timeval \<Rightarrow> proposer \<Rightarrow> iid_t \<Rightarrow> ballot \<Rightarrow> proposer \<times> paxos_prepare option" where
  "proposer_try_to_start_preparing_instance now p i initial_ballot =
     (let p = (if i \<le> pr_trim_instance p then proposer_next_instance p else p);
          p = (if proposer_is_instance_chosen p i then proposer_next_instance p else p);
          p = (if get_instance_info (pr_accept_phase_instances p) i \<noteq> None then proposer_next_instance p else p)
      in if get_instance_info (pr_prepare_phase_instances p) i = None then
           let inst = proposer_instance_info_new now i initial_ballot (pr_acceptors p) (pr_q1 p)
           in (p\<lparr>pr_prepare_phase_instances := AList.update i inst (pr_prepare_phase_instances p)\<rparr>,
               Some \<lparr>prep_iid = pci_iid (spi_common_info inst), prep_ballot = pci_ballot (spi_common_info inst)\<rparr>)
         else (proposer_next_instance p, None))"

definition check_and_handle_promises_value_for_instance ::
    "paxos_promise \<Rightarrow> standard_proposer_instance_info \<Rightarrow> standard_proposer_instance_info" where
  "check_and_handle_promises_value_for_instance ack inst =
     (if ballot_greater_than (prom_value_ballot ack) (pci_last_accepted_ballot (spi_common_info inst))
      then inst\<lparr>spi_common_info := (spi_common_info inst)
             \<lparr>pci_last_accepted_ballot := prom_value_ballot ack,
              pci_last_accepted_value := Some (prom_value ack)\<rparr>\<rparr>
      else inst)"

definition proposer_receive_promise :: "proposer \<Rightarrow> paxos_promise \<Rightarrow> (proposer \<times> bool) option" where
  "proposer_receive_promise p ack =
     (if prom_iid ack \<le> pr_trim_instance p then Some (p, False)
      else if proposer_is_instance_chosen p (prom_iid ack) then Some (p, False)
      else case get_instance_info (pr_prepare_phase_instances p) (prom_iid ack) of
        None \<Rightarrow> Some (p, False)
      | Some inst \<Rightarrow>
          if ballot_greater_than (pci_ballot (spi_common_info inst)) (prom_ballot ack) then Some (p, False)
          else case quorum_add (spi_quorum inst) (sint (prom_aid ack)) of
            None \<Rightarrow> None
          | Some (q, new) \<Rightarrow>
              if \<not> new then Some (p, False)
              else let inst = check_and_handle_promises_value_for_instance ack (inst\<lparr>spi_quorum := q\<rparr>)
                   in Some (p\<lparr>pr_prepare_phase_instances :=
                                AList.update (prom_iid ack) inst (pr_prepare_phase_instances p)\<rparr>,
                            quorum_reached (spi_quorum inst)))"

section \<open>The accept phase\<close>

definition proposer_move_instance_between_phase ::
    "phase_table \<Rightarrow> phase_table \<Rightarrow> standard_proposer_instance_info \<Rightarrow> int
       \<Rightarrow> phase_table \<times> phase_table \<times> standard_proposer_instance_info" where
  "proposer_move_instance_between_phase f t inst quorum_size =
     (let i = pci_iid (spi_common_info inst);
          inst = inst\<lparr>spi_quorum := quorum_resize_and_reset (spi_quorum inst) quorum_size\<rparr>
      in (AList.delete i f, AList.update i inst t, inst))"

definition proposer_try_determine_value_to_propose ::
    "paxos_config \<Rightarrow> timeval \<Rightarrow> proposer \<Rightarrow> standard_proposer_instance_info
       \<Rightarrow> (proposer \<times> standard_proposer_instance_info \<times> bool) option" where
  "proposer_try_determine_value_to_propose cfg now p inst =
     (case pci_last_accepted_value (spi_common_info inst) of
        None \<Rightarrow>
          (let (m, result) = value_proposal_manger_get_next cfg now (pr_value_proposal_manager p)
                               (pr_max_chosen_instance p > pr_trim_instance p);
               p = p\<lparr>pr_value_proposal_manager := m\<rparr>
           in case result of
                Next v \<Rightarrow> Some (p, inst\<lparr>spi_common_info := (spi_common_info inst)\<lparr>pci_proposing_value := Some v\<rparr>\<rparr>, True)
              | No_Value \<Rightarrow> Some (p, inst, False)
              | No_Return \<Rightarrow> None)
      | Some v \<Rightarrow>
          Some (p, inst\<lparr>spi_common_info := (spi_common_info inst)
                    \<lparr>pci_proposing_value := Some v, pci_last_accepted_value := None\<rparr>\<rparr>, True))"

text \<open>The loop over the table keeps the candidate with the smallest instance.\<close>

fun min_instance_to_accept ::
    "proposer \<Rightarrow> standard_proposer_instance_info list \<Rightarrow> standard_proposer_instance_info option
       \<Rightarrow> standard_proposer_instance_info option" where
  "min_instance_to_accept p [] best = best"
| "min_instance_to_accept p (cur # rest) best =
     (if quorum_reached (spi_quorum cur) \<and> \<not> proposer_is_instance_chosen p (pci_iid (spi_common_info cur))
      then (case best of
              None \<Rightarrow> min_instance_to_accept p rest (Some cur)
            | Some b \<Rightarrow>
                if pci_iid (spi_common_info b) > pci_iid (spi_common_info cur)
                then min_instance_to_accept p rest (Some cur)
                else min_instance_to_accept p rest (Some b))
      else min_instance_to_accept p rest best)"

definition get_min_instance_to_begin_accept_phase :: "proposer \<Rightarrow> standard_proposer_instance_info option" where
  "get_min_instance_to_begin_accept_phase p =
     min_instance_to_accept p (map snd (pr_prepare_phase_instances p)) None"

definition proposer_try_accept ::
    "paxos_config \<Rightarrow> timeval \<Rightarrow> proposer \<Rightarrow> (proposer \<times> paxos_accept option) option" where
  "proposer_try_accept cfg now p =
     (case get_min_instance_to_begin_accept_phase p of
        None \<Rightarrow> Some (p, None)
      | Some inst \<Rightarrow>
          (case proposer_try_determine_value_to_propose cfg now p inst of
             None \<Rightarrow> None
           | Some (p, inst, False) \<Rightarrow> Some (p, None)
           | Some (p, inst, True) \<Rightarrow>
               let (f, t, inst) = proposer_move_instance_between_phase (pr_prepare_phase_instances p)
                                    (pr_accept_phase_instances p) inst (pr_q2 p);
                   p = p\<lparr>pr_prepare_phase_instances := f, pr_accept_phase_instances := t\<rparr>
               in case proposer_instance_info_to_accept (spi_common_info inst) of
                    None \<Rightarrow> None
                  | Some out \<Rightarrow> Some (p, Some out)))"

section \<open>Trimming\<close>

text \<open>The loop over one table: what is left of it, and the value manager afterwards.\<close>

fun proposer_trim_proposer_instance_infos ::
    "value_proposal_manager \<Rightarrow> phase_table \<Rightarrow> iid_t \<Rightarrow> value_proposal_manager \<times> phase_table" where
  "proposer_trim_proposer_instance_infos m [] i = (m, [])"
| "proposer_trim_proposer_instance_infos m ((k, inst) # h) i =
     (if pci_iid (spi_common_info inst) \<le> i then
        let m = (case pci_proposing_value (spi_common_info inst) of
                   None \<Rightarrow> m
                 | Some v \<Rightarrow> if instance_should_requeue_value inst = Some True
                             then fst (value_proposal_manager_check_and_requeue_value m v) else m)
        in proposer_trim_proposer_instance_infos m h i
      else let (m, h) = proposer_trim_proposer_instance_infos m h i in (m, (k, inst) # h))"

definition proposer_receive_trim :: "paxos_config \<Rightarrow> proposer \<Rightarrow> paxos_trim \<Rightarrow> proposer" where
  "proposer_receive_trim cfg p trim_msg =
     (if trim_iid trim_msg > pr_trim_instance p then
        let p = p\<lparr>pr_trim_instance := trim_iid trim_msg\<rparr>;
            (m, prepares) = proposer_trim_proposer_instance_infos (pr_value_proposal_manager p)
                              (pr_prepare_phase_instances p) (trim_iid trim_msg);
            (m, accepts) = proposer_trim_proposer_instance_infos m
                              (pr_accept_phase_instances p) (trim_iid trim_msg)
        in p\<lparr>pr_value_proposal_manager := m, pr_prepare_phase_instances := prepares,
             pr_accept_phase_instances := accepts,
             pr_next_prepare_instance :=
               (if pr_trim_instance p \<ge> pr_next_prepare_instance p
                then pr_trim_instance p + 1 + cfg_fall_behind_jump cfg
                else pr_next_prepare_instance p)\<rparr>
      else p)"

definition proposer_set_current_instance :: "paxos_config \<Rightarrow> proposer \<Rightarrow> iid_t \<Rightarrow> proposer option" where
  "proposer_set_current_instance cfg p i =
     (let p = p\<lparr>pr_next_prepare_instance := i\<rparr>
      in case proposer_get_min_unchosen_instance p of
           None \<Rightarrow> None
         | Some m \<Rightarrow> Some (if i < m then proposer_receive_trim cfg p \<lparr>trim_iid = i\<rparr> else p))"

definition proposer_get_state :: "proposer \<Rightarrow> proposer_state" where
  "proposer_get_state p =
     \<lparr>ps_proposer_id = pr_id p, ps_trim_instance = pr_trim_instance p,
      ps_max_chosen_instance = pr_max_chosen_instance p,
      ps_next_prepare_instance = pr_next_prepare_instance p\<rparr>"

definition proposer_receive_proposer_state :: "paxos_config \<Rightarrow> proposer \<Rightarrow> proposer_state \<Rightarrow> proposer" where
  "proposer_receive_proposer_state cfg p state =
     (let p = proposer_receive_trim cfg p \<lparr>trim_iid = ps_trim_instance state\<rparr>
      in p\<lparr>pr_max_chosen_instance :=
             (if ps_max_chosen_instance state > pr_max_chosen_instance p
              then ps_max_chosen_instance state else pr_max_chosen_instance p)\<rparr>)"

definition proposer_receive_acceptor_state ::
    "paxos_config \<Rightarrow> proposer \<Rightarrow> paxos_standard_acceptor_state \<Rightarrow> proposer" where
  "proposer_receive_acceptor_state cfg p state = proposer_receive_trim cfg p \<lparr>trim_iid = as_trim_iid state\<rparr>"

section \<open>Learning that an instance was chosen\<close>

definition proposer_receive_chosen :: "paxos_config \<Rightarrow> proposer \<Rightarrow> paxos_chosen \<Rightarrow> (proposer \<times> bool) option" where
  "proposer_receive_chosen cfg p ack =
     (if proposer_is_instance_chosen p (cho_iid ack) then Some (p, False) else
      let p = set_instance_chosen p (cho_iid ack);
          (m, value_closed) =
            value_proposal_manager_close_if_outstanding (pr_value_proposal_manager p) (cho_value ack);
          p = p\<lparr>pr_value_proposal_manager := m\<rparr>
      in case (case get_instance_info (pr_accept_phase_instances p) (cho_iid ack) of
                 None \<Rightarrow> Some (p, False)
               | Some inst \<Rightarrow>
                   let accepts = remove_instance_from_phase (pr_accept_phase_instances p) (cho_iid ack)
                   in if value_closed then Some (p\<lparr>pr_accept_phase_instances := accepts\<rparr>, True)
                      else (case (instance_should_requeue_value inst, pci_proposing_value (spi_common_info inst)) of
                              (Some True, Some v) \<Rightarrow>
                                Some (p\<lparr>pr_value_proposal_manager :=
                                          fst (value_proposal_manager_check_and_requeue_value m v),
                                        pr_accept_phase_instances := accepts\<rparr>, True)
                            | (Some False, _) \<Rightarrow> Some (p\<lparr>pr_accept_phase_instances := accepts\<rparr>, True)
                            | _ \<Rightarrow> None)) of
           None \<Rightarrow> None
         | Some (p, was_acked) \<Rightarrow>
             let (p, was_acked) =
                   (case get_instance_info (pr_prepare_phase_instances p) (cho_iid ack) of
                      None \<Rightarrow> (p, was_acked)
                    | Some inst \<Rightarrow>
                        (p\<lparr>pr_prepare_phase_instances :=
                             remove_instance_from_phase (pr_prepare_phase_instances p) (cho_iid ack)\<rparr>, True))
             in case proposer_get_min_unchosen_instance p of
                  None \<Rightarrow> None
                | Some min_unchosen \<Rightarrow>
                    Some (if min_unchosen \<ge> cho_iid ack
                          then proposer_receive_trim cfg p \<lparr>trim_iid = cho_iid ack\<rparr> else p, was_acked))"

definition proposer_receive_accepted ::
    "paxos_config \<Rightarrow> proposer \<Rightarrow> paxos_accepted \<Rightarrow> (proposer \<times> paxos_chosen option) option" where
  "proposer_receive_accepted cfg p ack =
     (if accd_iid ack \<le> pr_trim_instance p then Some (p, None)
      else if proposer_is_instance_chosen p (accd_iid ack) then Some (p, None)
      else case get_instance_info (pr_accept_phase_instances p) (accd_iid ack) of
        None \<Rightarrow> Some (p, None)
      | Some inst \<Rightarrow>
          if ballot_equal (accd_value_ballot ack) (pci_ballot (spi_common_info inst)) then
            (case quorum_add (spi_quorum inst) (sint (accd_aid ack)) of
               None \<Rightarrow> None
             | Some (q, new) \<Rightarrow>
                 if \<not> new then Some (p, None)
                 else let inst = inst\<lparr>spi_quorum := q\<rparr>;
                          p = p\<lparr>pr_accept_phase_instances :=
                                  AList.update (accd_iid ack) inst (pr_accept_phase_instances p)\<rparr>
                      in if quorum_reached q then
                           let chosen = paxos_chosen_from_paxos_accepted ack
                           in case proposer_receive_chosen cfg p chosen of
                                None \<Rightarrow> None
                              | Some (p, _) \<Rightarrow> Some (p, Some chosen)
                         else Some (p, None))
          else Some (p, None))"

section \<open>Preemption\<close>

definition get_prepare_from_instance_info :: "standard_proposer_instance_info \<Rightarrow> paxos_prepare" where
  "get_prepare_from_instance_info inst =
     \<lparr>prep_iid = pci_iid (spi_common_info inst),
      prep_ballot = Ballot (ballot_number (pci_ballot (spi_common_info inst)))
                      (ballot_proposer_id (pci_ballot (spi_common_info inst)))\<rparr>"

definition proposer_update_instance_info_from_preemption ::
    "timeval \<Rightarrow> u32 list \<Rightarrow> ballot_giver \<Rightarrow> standard_proposer_instance_info \<Rightarrow> paxos_preempted
       \<Rightarrow> standard_proposer_instance_info option" where
  "proposer_update_instance_info_from_preemption now draws giver inst preempted =
     (case ballot_giver_next draws giver (pre_acceptor_current_ballot preempted) of
        None \<Rightarrow> None
      | Some b \<Rightarrow>
          let c = (spi_common_info inst)\<lparr>pci_ballot := b\<rparr>;
              c = (if proposer_instance_info_has_promised_value c
                   then c\<lparr>pci_last_accepted_value := None, pci_last_accepted_ballot := INVALID_BALLOT\<rparr> else c);
              c = (if proposer_instance_info_has_value c then c\<lparr>pci_proposing_value := None\<rparr> else c)
          in Some (inst\<lparr>spi_common_info := c\<lparr>pci_created_at := now\<rparr>, spi_quorum := quorum_clear (spi_quorum inst)\<rparr>))"

text \<open>The two blocks of \<open>proposer_receive_preempted\<close>, one per phase the instance may be in.\<close>

definition preempt_prepare_phase ::
    "timeval \<Rightarrow> u32 list \<Rightarrow> proposer \<Rightarrow> paxos_preempted \<Rightarrow> (proposer \<times> paxos_prepare option) option" where
  "preempt_prepare_phase now draws p preempted =
     (case get_instance_info (pr_prepare_phase_instances p) (pre_iid preempted) of
        None \<Rightarrow> Some (p, None)
      | Some inst \<Rightarrow>
          if ballot_equal (pre_attempted_ballot preempted) (pci_ballot (spi_common_info inst)) then
            (case proposer_update_instance_info_from_preemption now draws (pr_ballot_giver p) inst preempted of
               None \<Rightarrow> None
             | Some inst \<Rightarrow>
                 Some (p\<lparr>pr_prepare_phase_instances :=
                           AList.update (pre_iid preempted) inst (pr_prepare_phase_instances p)\<rparr>,
                       Some (get_prepare_from_instance_info inst)))
          else Some (p, None))"

definition preempt_accept_phase ::
    "timeval \<Rightarrow> u32 list \<Rightarrow> proposer \<Rightarrow> paxos_preempted \<Rightarrow> (proposer \<times> paxos_prepare option) option" where
  "preempt_accept_phase now draws p preempted =
     (case get_instance_info (pr_accept_phase_instances p) (pre_iid preempted) of
        None \<Rightarrow> Some (p, None)
      | Some inst \<Rightarrow>
          if ballot_equal (pre_attempted_ballot preempted) (pci_ballot (spi_common_info inst)) then
            (case (instance_should_requeue_value inst, pci_proposing_value (spi_common_info inst)) of
               (Some requeue, Some v) \<Rightarrow>
                 let m = (if requeue
                          then fst (value_proposal_manager_check_and_requeue_value (pr_value_proposal_manager p) v)
                          else pr_value_proposal_manager p)
                 in (case proposer_update_instance_info_from_preemption now draws (pr_ballot_giver p) inst preempted of
                       None \<Rightarrow> None
                     | Some inst \<Rightarrow>
                         let (f, t, inst) = proposer_move_instance_between_phase (pr_accept_phase_instances p)
                                              (pr_prepare_phase_instances p) inst (pr_q2 p)
                         in Some (p\<lparr>pr_value_proposal_manager := m, pr_accept_phase_instances := f,
                                    pr_prepare_phase_instances := t\<rparr>,
                                  Some (get_prepare_from_instance_info inst)))
             | _ \<Rightarrow> None)
          else Some (p, None))"

text \<open>
  \<open>draws\<close> and \<open>draws'\<close> are the random numbers of the two calls of \<open>ballot_giver_next\<close>.  Both blocks
  write the same \<open>out\<close>.
\<close>

definition proposer_receive_preempted ::
    "timeval \<Rightarrow> u32 list \<Rightarrow> u32 list \<Rightarrow> proposer \<Rightarrow> paxos_preempted \<Rightarrow> (proposer \<times> paxos_prepare option) option" where
  "proposer_receive_preempted now draws draws' p preempted =
     (if pre_iid preempted \<le> pr_trim_instance p then Some (p, None)
      else if proposer_is_instance_chosen p (pre_iid preempted) then Some (p, None)
      else case preempt_prepare_phase now draws p preempted of
             None \<Rightarrow> None
           | Some (p, out) \<Rightarrow>
               (case preempt_accept_phase now draws' p preempted of
                  None \<Rightarrow> None
                | Some (p, out') \<Rightarrow> Some (p, case out' of None \<Rightarrow> out | Some _ \<Rightarrow> out')))"

section \<open>Timeouts\<close>

text \<open>An iterator is the position in the table from which the next call searches.\<close>

record timeout_iterator =
  ti_prepare_instance :: nat
  ti_accept_instance :: nat
  ti_timeout :: timeval

fun next_timedout ::
    "paxos_config \<Rightarrow> phase_table \<Rightarrow> nat \<Rightarrow> timeval \<Rightarrow> nat \<times> standard_proposer_instance_info option" where
  "next_timedout cfg [] k t = (k, None)"
| "next_timedout cfg ((_, inst) # h) k t =
     (if quorum_reached (spi_quorum inst) then next_timedout cfg h (k + 1) t
      else if proposer_instance_info_has_timedout cfg (spi_common_info inst) t then (k, Some inst)
      else next_timedout cfg h (k + 1) t)"

definition proposer_timeout_iterator :: "timeval \<Rightarrow> timeout_iterator" where
  "proposer_timeout_iterator now = \<lparr>ti_prepare_instance = 0, ti_accept_instance = 0, ti_timeout = now\<rparr>"

definition timeout_iterator_prepare ::
    "paxos_config \<Rightarrow> timeout_iterator \<Rightarrow> proposer \<Rightarrow> timeout_iterator \<times> proposer \<times> paxos_prepare option" where
  "timeout_iterator_prepare cfg iter p =
     (case next_timedout cfg (drop (ti_prepare_instance iter) (pr_prepare_phase_instances p))
             (ti_prepare_instance iter) (ti_timeout iter) of
        (k, None) \<Rightarrow> (iter\<lparr>ti_prepare_instance := k\<rparr>, p, None)
      | (k, Some inst) \<Rightarrow>
          (iter\<lparr>ti_prepare_instance := k\<rparr>,
           p\<lparr>pr_prepare_phase_instances := AList.update (pci_iid (spi_common_info inst))
               (inst\<lparr>spi_common_info := (spi_common_info inst)\<lparr>pci_created_at := ti_timeout iter\<rparr>\<rparr>)
               (pr_prepare_phase_instances p)\<rparr>,
           Some (get_prepare_from_instance_info inst)))"

definition timeout_iterator_accept ::
    "paxos_config \<Rightarrow> timeval \<Rightarrow> timeout_iterator \<Rightarrow> proposer
       \<Rightarrow> (timeout_iterator \<times> proposer \<times> paxos_accept option) option" where
  "timeout_iterator_accept cfg now iter p =
     (case next_timedout cfg (drop (ti_accept_instance iter) (pr_accept_phase_instances p))
             (ti_accept_instance iter) (ti_timeout iter) of
        (k, None) \<Rightarrow> Some (iter\<lparr>ti_accept_instance := k\<rparr>, p, None)
      | (k, Some inst) \<Rightarrow>
          (case proposer_instance_info_to_accept (spi_common_info inst) of
             None \<Rightarrow> None
           | Some out \<Rightarrow>
               Some (iter\<lparr>ti_accept_instance := k\<rparr>,
                     p\<lparr>pr_accept_phase_instances := AList.update (pci_iid (spi_common_info inst))
                         (inst\<lparr>spi_common_info := (spi_common_info inst)\<lparr>pci_created_at := now\<rparr>\<rparr>)
                         (pr_accept_phase_instances p)\<rparr>,
                     Some out)))"

section \<open>Well-formed proposers\<close>

abbreviation table_wf :: "int \<Rightarrow> phase_table \<Rightarrow> bool" where
  "table_wf \<equiv> phase_table_wf spi_common_info spi_quorum"

abbreviation has_values :: "phase_table \<Rightarrow> bool" where
  "has_values \<equiv> phase_has_values spi_common_info"

definition proposer_wf :: "proposer \<Rightarrow> bool" where
  "proposer_wf p \<longleftrightarrow> table_wf (pr_acceptors p) (pr_prepare_phase_instances p)
     \<and> table_wf (pr_acceptors p) (pr_accept_phase_instances p)
     \<and> has_values (pr_accept_phase_instances p) \<and> vpm_wf (pr_value_proposal_manager p)"

lemma table_wf_get:
  "table_wf n t \<Longrightarrow> get_instance_info t i = Some x \<Longrightarrow>
     pci_iid (spi_common_info x) = i \<and> quorum_wf (spi_quorum x) \<and> q_acceptors (spi_quorum x) = n"
  by (auto simp: get_instance_info_def phase_table_wf_def dest: map_of_SomeD)

lemma has_values_get:
  "has_values t \<Longrightarrow> get_instance_info t i = Some x \<Longrightarrow> \<exists>v. pci_proposing_value (spi_common_info x) = Some v"
  by (auto simp: get_instance_info_def phase_has_values_def dest: map_of_SomeD)

lemma proposer_new_wf [simp]: "proposer_wf (proposer_new cfg i n q1 q2 inc)"
  by (simp add: proposer_wf_def proposer_new_def phase_has_values_def)

lemma proposer_next_instance_wf [simp]: "proposer_wf (proposer_next_instance p) = proposer_wf p"
  by (simp add: proposer_wf_def proposer_next_instance_def)

lemma add_value_wf:
  "proposer_wf p \<Longrightarrow> proposer_add_paxos_value_to_queue p v = Some p' \<Longrightarrow> proposer_wf p'"
  by (auto simp: proposer_add_paxos_value_to_queue_def proposer_wf_def dest: enqueue_correct split: option.splits)

lemma start_preparing_wf:
  "proposer_wf p \<Longrightarrow> proposer_wf (fst (proposer_try_to_start_preparing_instance now p i b))"
  by (auto simp: proposer_try_to_start_preparing_instance_def proposer_instance_info_new_def
      proposer_common_info_new_def proposer_wf_def proposer_next_instance_def Let_def intro!: table_wf_update)

lemma check_promise_fields [simp]:
  "pci_iid (spi_common_info (check_and_handle_promises_value_for_instance ack x)) = pci_iid (spi_common_info x)"
  "pci_ballot (spi_common_info (check_and_handle_promises_value_for_instance ack x)) = pci_ballot (spi_common_info x)"
  "spi_quorum (check_and_handle_promises_value_for_instance ack x) = spi_quorum x"
  by (simp_all add: check_and_handle_promises_value_for_instance_def)

lemma receive_promise_cases:
  assumes "proposer_receive_promise p ack = Some (p', r)"
  obtains (dropped) "p' = p"
  | (counted) x q where "get_instance_info (pr_prepare_phase_instances p) (prom_iid ack) = Some x"
      "pci_ballot (spi_common_info x) \<le> prom_ballot ack"
      "quorum_add (spi_quorum x) (sint (prom_aid ack)) = Some (q, True)"
      "p' = p\<lparr>pr_prepare_phase_instances := AList.update (prom_iid ack)
          (check_and_handle_promises_value_for_instance ack (x\<lparr>spi_quorum := q\<rparr>)) (pr_prepare_phase_instances p)\<rparr>"
  using assms by (fastforce simp: proposer_receive_promise_def Let_def not_less split: if_splits option.splits)

lemma receive_promise_wf:
  assumes "proposer_wf p" "proposer_receive_promise p ack = Some (p', r)"
  shows "proposer_wf p'"
  using assms(2)
proof (cases rule: receive_promise_cases)
  case dropped
  then show ?thesis using assms(1) by simp
next
  case (counted x q)
  have t: "table_wf (pr_acceptors p) (pr_prepare_phase_instances p)" using assms(1) by (simp add: proposer_wf_def)
  note x = table_wf_get [OF t counted(1)]
  note q = quorum_add_keeps [OF _ counted(3)]
  show ?thesis
    using assms(1) x q by (simp add: counted(4) proposer_wf_def table_wf_update)
qed

text \<open>What one call of \<open>proposer_try_accept\<close> does when it finds a value to propose.\<close>

lemma min_instance_to_accept_Some:
  "min_instance_to_accept p xs best = Some x \<Longrightarrow>
     best = Some x \<or> x \<in> set xs \<and> quorum_reached (spi_quorum x)
       \<and> \<not> proposer_is_instance_chosen p (pci_iid (spi_common_info x))"
  by (induction p xs best rule: min_instance_to_accept.induct) (auto split: if_splits option.splits)

lemma get_min_instance_to_begin_accept_phase_Some:
  assumes "table_wf n (pr_prepare_phase_instances p)" "get_min_instance_to_begin_accept_phase p = Some x"
  shows "get_instance_info (pr_prepare_phase_instances p) (pci_iid (spi_common_info x)) = Some x
     \<and> quorum_reached (spi_quorum x) \<and> \<not> proposer_is_instance_chosen p (pci_iid (spi_common_info x))"
  using min_instance_to_accept_Some [OF assms(2) [unfolded get_min_instance_to_begin_accept_phase_def]] assms(1)
  by (auto simp: phase_table_wf_def get_instance_info_def)

lemma determine_value_cases:
  assumes "proposer_try_determine_value_to_propose cfg now p x = Some (p', x', r)"
  obtains (adopt) v where "pci_last_accepted_value (spi_common_info x) = Some v" "p' = p" "r"
      "x' = x\<lparr>spi_common_info := (spi_common_info x)\<lparr>pci_proposing_value := Some v, pci_last_accepted_value := None\<rparr>\<rparr>"
  | (client) v m where "pci_last_accepted_value (spi_common_info x) = None" "r"
      "value_proposal_manger_get_next cfg now (pr_value_proposal_manager p)
         (pr_max_chosen_instance p > pr_trim_instance p) = (m, Next v)"
      "p' = p\<lparr>pr_value_proposal_manager := m\<rparr>"
      "x' = x\<lparr>spi_common_info := (spi_common_info x)\<lparr>pci_proposing_value := Some v\<rparr>\<rparr>"
  | (none) m where "pci_last_accepted_value (spi_common_info x) = None" "\<not> r"
      "value_proposal_manger_get_next cfg now (pr_value_proposal_manager p)
         (pr_max_chosen_instance p > pr_trim_instance p) = (m, No_Value)"
      "p' = p\<lparr>pr_value_proposal_manager := m\<rparr>" "x' = x"
  using assms
  by (auto simp: proposer_try_determine_value_to_propose_def Let_def split: option.splits prod.splits get_next_result.splits)

lemma try_accept_cases:
  assumes "proposer_try_accept cfg now p = Some (p', out)"
  obtains (nothing_ready) "get_min_instance_to_begin_accept_phase p = None" "p' = p" "out = None"
  | (no_value) x x' where "get_min_instance_to_begin_accept_phase p = Some x"
      "proposer_try_determine_value_to_propose cfg now p x = Some (p', x', False)" "out = None"
  | (proposed) x p1 x1 v where "get_min_instance_to_begin_accept_phase p = Some x"
      "proposer_try_determine_value_to_propose cfg now p x = Some (p1, x1, True)"
      "pci_proposing_value (spi_common_info x1) = Some v"
      "out = Some \<lparr>acc_iid = pci_iid (spi_common_info x1), acc_ballot = pci_ballot (spi_common_info x1), acc_value = v\<rparr>"
      "p' = p1\<lparr>pr_prepare_phase_instances :=
               AList.delete (pci_iid (spi_common_info x1)) (pr_prepare_phase_instances p1),
             pr_accept_phase_instances := AList.update (pci_iid (spi_common_info x1))
               (x1\<lparr>spi_quorum := quorum_resize_and_reset (spi_quorum x1) (pr_q2 p1)\<rparr>) (pr_accept_phase_instances p1)\<rparr>"
  using assms
  by (auto simp: proposer_try_accept_def proposer_move_instance_between_phase_def Let_def
      proposer_instance_info_to_accept_def split: option.splits prod.splits bool.splits)

lemma determine_value_wf:
  assumes "vpm_wf (pr_value_proposal_manager p)"
    and "proposer_try_determine_value_to_propose cfg now p x = Some (p', x', r)"
  shows "vpm_wf (pr_value_proposal_manager p') \<and> pr_acceptors p' = pr_acceptors p
    \<and> pr_prepare_phase_instances p' = pr_prepare_phase_instances p
    \<and> pr_accept_phase_instances p' = pr_accept_phase_instances p
    \<and> spi_quorum x' = spi_quorum x \<and> pci_iid (spi_common_info x') = pci_iid (spi_common_info x)
    \<and> pci_ballot (spi_common_info x') = pci_ballot (spi_common_info x)
    \<and> (r \<longrightarrow> pci_proposing_value (spi_common_info x') \<noteq> None)"
  using assms(2)
proof (cases rule: determine_value_cases)
  case (client v m)
  with get_next_correct [OF assms(1)] show ?thesis by simp
next
  case (none m)
  with get_next_correct [OF assms(1)] show ?thesis by simp
qed (use assms(1) in simp)

lemma try_accept_wf:
  assumes "proposer_wf p" "proposer_try_accept cfg now p = Some (p', out)"
  shows "proposer_wf p'"
proof -
  have t: "table_wf (pr_acceptors p) (pr_prepare_phase_instances p)" and m: "vpm_wf (pr_value_proposal_manager p)"
    using assms(1) by (simp_all add: proposer_wf_def)
  from assms(2) show ?thesis
  proof (cases rule: try_accept_cases)
    case (no_value x x')
    with determine_value_wf [OF m no_value(2)] assms(1) show ?thesis by (simp add: proposer_wf_def)
  next
    case (proposed x p1 x1 v)
    have x: "quorum_wf (spi_quorum x)" "q_acceptors (spi_quorum x) = pr_acceptors p"
      using get_min_instance_to_begin_accept_phase_Some [OF t proposed(1)] table_wf_get [OF t] by blast+
    from determine_value_wf [OF m proposed(2)] x assms(1) show ?thesis
      by (simp add: proposed(5) proposer_wf_def table_wf_update has_values_update)
  qed (use assms(1) in simp)
qed

lemma trim_infos_wf:
  assumes "vpm_wf m"
  shows "vpm_wf (fst (proposer_trim_proposer_instance_infos m t i))
    \<and> outstanding (fst (proposer_trim_proposer_instance_infos m t i)) = outstanding m
    \<and> snd (proposer_trim_proposer_instance_infos m t i) = filter (\<lambda>(k, x). \<not> pci_iid (spi_common_info x) \<le> i) t"
  using assms
proof (induction t arbitrary: m)
  case Nil
  then show ?case by simp
next
  case (Cons a t)
  obtain k x where a: "a = (k, x)" by (cases a)
  let ?m = "case pci_proposing_value (spi_common_info x) of None \<Rightarrow> m
     | Some v \<Rightarrow> if instance_should_requeue_value x = Some True
                 then fst (value_proposal_manager_check_and_requeue_value m v) else m"
  have "vpm_wf ?m" "outstanding ?m = outstanding m" using Cons.prems by (simp_all split: option.split)
  with Cons.IH [OF this(1)] Cons.IH [OF Cons.prems] show ?case
    by (simp add: a Let_def split_beta del: not_le)
qed

text \<open>Everything at or below the trim instance is removed from the tables, nothing else changes in them.\<close>

lemma receive_trim_eq:
  fixes cfg :: paxos_config
  assumes "proposer_wf p" "trim_iid t > pr_trim_instance p"
  defines "p' \<equiv> proposer_receive_trim cfg p t"
  shows "vpm_wf (pr_value_proposal_manager p')"
    "outstanding (pr_value_proposal_manager p') = outstanding (pr_value_proposal_manager p)"
    "pr_prepare_phase_instances p'
       = filter (\<lambda>(k, x). \<not> pci_iid (spi_common_info x) \<le> trim_iid t) (pr_prepare_phase_instances p)"
    "pr_accept_phase_instances p'
       = filter (\<lambda>(k, x). \<not> pci_iid (spi_common_info x) \<le> trim_iid t) (pr_accept_phase_instances p)"
    "pr_trim_instance p' = trim_iid t" "pr_chosens p' = pr_chosens p" "pr_acceptors p' = pr_acceptors p"
proof -
  let ?f = proposer_trim_proposer_instance_infos
  let ?r1 = "?f (pr_value_proposal_manager p) (pr_prepare_phase_instances p) (trim_iid t)"
  let ?r2 = "?f (fst ?r1) (pr_accept_phase_instances p) (trim_iid t)"
  have "vpm_wf (pr_value_proposal_manager p)" using assms(1) by (simp add: proposer_wf_def)
  note 1 = trim_infos_wf [OF this, of "pr_prepare_phase_instances p" "trim_iid t"]
  note 2 = trim_infos_wf [OF conjunct1 [OF 1], of "pr_accept_phase_instances p" "trim_iid t"]
  have "pr_value_proposal_manager p' = fst ?r2" "pr_prepare_phase_instances p' = snd ?r1"
    "pr_accept_phase_instances p' = snd ?r2" "pr_trim_instance p' = trim_iid t" "pr_chosens p' = pr_chosens p"
    "pr_acceptors p' = pr_acceptors p"
    using assms(2) by (simp_all add: p'_def proposer_receive_trim_def Let_def split_beta)
  with 1 2 show "vpm_wf (pr_value_proposal_manager p')"
    "outstanding (pr_value_proposal_manager p') = outstanding (pr_value_proposal_manager p)"
    "pr_prepare_phase_instances p'
       = filter (\<lambda>(k, x). \<not> pci_iid (spi_common_info x) \<le> trim_iid t) (pr_prepare_phase_instances p)"
    "pr_accept_phase_instances p'
       = filter (\<lambda>(k, x). \<not> pci_iid (spi_common_info x) \<le> trim_iid t) (pr_accept_phase_instances p)"
    "pr_trim_instance p' = trim_iid t" "pr_chosens p' = pr_chosens p" "pr_acceptors p' = pr_acceptors p"
    by auto
qed

lemma receive_trim_fields:
  assumes "proposer_wf p"
  shows "proposer_wf (proposer_receive_trim cfg p t)
    \<and> pr_chosens (proposer_receive_trim cfg p t) = pr_chosens p
    \<and> outstanding (pr_value_proposal_manager (proposer_receive_trim cfg p t))
        = outstanding (pr_value_proposal_manager p)
    \<and> pr_trim_instance p \<le> pr_trim_instance (proposer_receive_trim cfg p t)
    \<and> set (pr_prepare_phase_instances (proposer_receive_trim cfg p t)) \<subseteq> set (pr_prepare_phase_instances p)
    \<and> set (pr_accept_phase_instances (proposer_receive_trim cfg p t)) \<subseteq> set (pr_accept_phase_instances p)"
proof (cases "trim_iid t > pr_trim_instance p")
  case True
  note eq = receive_trim_eq [OF assms True, of cfg]
  show ?thesis
    using True assms eq(1) unfolding proposer_wf_def eq(2-) by (auto simp: table_wf_filter has_values_filter)
next
  case False
  with assms show ?thesis by (simp add: proposer_receive_trim_def)
qed

lemma delete_absent: "get_instance_info t i = None \<Longrightarrow> AList.delete i t = t"
  by (simp add: get_instance_info_def map_of_eq_None_iff)

lemma set_instance_chosen_eq:
  "pr_chosens p i = None \<Longrightarrow> set_instance_chosen p i =
     p\<lparr>pr_chosens := (pr_chosens p)(i \<mapsto> True),
       pr_max_chosen_instance := (if pr_max_chosen_instance p < i then i else pr_max_chosen_instance p)\<rparr>"
  by (simp add: set_instance_chosen_def)

lemma receive_chosen_new:
  assumes wf: "proposer_wf p" and new: "\<not> proposer_is_instance_chosen p (cho_iid c)"
    and step: "proposer_receive_chosen cfg p c = Some (p', r)"
  obtains p1 mn where "proposer_wf p1" "pr_acceptors p1 = pr_acceptors p" "pr_trim_instance p1 = pr_trim_instance p"
    "pr_chosens p1 = (pr_chosens p)(cho_iid c \<mapsto> True)"
    "outstanding (pr_value_proposal_manager p1) = outstanding (pr_value_proposal_manager p) - {cho_value c}"
    "pr_prepare_phase_instances p1 = AList.delete (cho_iid c) (pr_prepare_phase_instances p)"
    "pr_accept_phase_instances p1 = AList.delete (cho_iid c) (pr_accept_phase_instances p)"
    "proposer_get_min_unchosen_instance p1 = Some mn"
    "p' = (if mn \<ge> cho_iid c then proposer_receive_trim cfg p1 \<lparr>trim_iid = cho_iid c\<rparr> else p1)"
proof -
  let ?i = "cho_iid c"
  obtain m closed where m: "value_proposal_manager_close_if_outstanding (pr_value_proposal_manager p) (cho_value c)
      = (m, closed)" by (meson surj_pair)
  define m2 where "m2 = (case get_instance_info (pr_accept_phase_instances p) ?i of None \<Rightarrow> m
     | Some x \<Rightarrow> if \<not> closed \<and> instance_should_requeue_value x = Some True
                 then fst (value_proposal_manager_check_and_requeue_value m (the (pci_proposing_value (spi_common_info x))))
                 else m)"
  define p1 where "p1 = p\<lparr>pr_chosens := (pr_chosens p)(?i \<mapsto> True),
      pr_max_chosen_instance := (if pr_max_chosen_instance p < ?i then ?i else pr_max_chosen_instance p),
      pr_value_proposal_manager := m2,
      pr_accept_phase_instances := AList.delete ?i (pr_accept_phase_instances p),
      pr_prepare_phase_instances := AList.delete ?i (pr_prepare_phase_instances p)\<rparr>"
  have "vpm_wf m" using close_wf [OF _ m] wf by (simp add: proposer_wf_def)
  then have m2: "vpm_wf m2" "outstanding m2 = outstanding m" by (simp_all add: m2_def split: option.split)
  moreover have "outstanding m = outstanding (pr_value_proposal_manager p) - {cho_value c}"
    using close_outstanding [OF _ m] wf by (simp add: proposer_wf_def)
  moreover have wf1: "proposer_wf p1" using wf m2 by (simp add: p1_def proposer_wf_def)
  moreover have none: "pr_chosens p ?i = None" using new by (simp add: proposer_is_instance_chosen_def)
  moreover from step new obtain mn where "proposer_get_min_unchosen_instance p1 = Some mn"
    "p' = (if mn \<ge> ?i then proposer_receive_trim cfg p1 \<lparr>trim_iid = ?i\<rparr> else p1)"
    by (auto simp: proposer_receive_chosen_def set_instance_chosen_eq [OF none] m Let_def p1_def m2_def
        remove_instance_from_phase_def delete_absent instance_should_requeue_value_def
        split: option.splits if_splits bool.splits)
  ultimately show thesis using m2(2) by (intro that [of p1 mn]) (simp_all add: p1_def)
qed

lemma receive_chosen_wf:
  assumes "proposer_wf p" "proposer_receive_chosen cfg p c = Some (p', r)"
  shows "proposer_wf p'"
proof (cases "proposer_is_instance_chosen p (cho_iid c)")
  case True
  with assms show ?thesis by (simp add: proposer_receive_chosen_def)
next
  case False
  from assms(1) False assms(2) show ?thesis
    by (rule receive_chosen_new) (auto simp: receive_trim_fields)
qed

lemma receive_accepted_cases:
  assumes "proposer_receive_accepted cfg p ack = Some (p', out)"
  obtains (dropped) "p' = p" "out = None"
  | (counted) x q p1 where "get_instance_info (pr_accept_phase_instances p) (accd_iid ack) = Some x"
      "accd_value_ballot ack = pci_ballot (spi_common_info x)" "\<not> proposer_is_instance_chosen p (accd_iid ack)"
      "quorum_add (spi_quorum x) (sint (accd_aid ack)) = Some (q, True)"
      "p1 = p\<lparr>pr_accept_phase_instances :=
          AList.update (accd_iid ack) (x\<lparr>spi_quorum := q\<rparr>) (pr_accept_phase_instances p)\<rparr>"
      "\<not> quorum_reached q \<and> p' = p1 \<and> out = None
       \<or> quorum_reached q \<and> out = Some (paxos_chosen_from_paxos_accepted ack)
         \<and> (\<exists>r. proposer_receive_chosen cfg p1 (paxos_chosen_from_paxos_accepted ack) = Some (p', r))"
  using assms
  by (fastforce simp: proposer_receive_accepted_def Let_def split: if_splits option.splits prod.splits)

lemma receive_accepted_wf:
  assumes "proposer_wf p" "proposer_receive_accepted cfg p ack = Some (p', out)"
  shows "proposer_wf p'"
  using assms(2)
proof (cases rule: receive_accepted_cases)
  case dropped
  then show ?thesis using assms(1) by simp
next
  case (counted x q p1)
  have t: "table_wf (pr_acceptors p) (pr_accept_phase_instances p)" and v: "has_values (pr_accept_phase_instances p)"
    using assms(1) by (simp_all add: proposer_wf_def)
  have "proposer_wf p1"
    using assms(1) table_wf_get [OF t counted(1)] has_values_get [OF v counted(1)] quorum_add_keeps [OF _ counted(4)]
    by (simp add: counted(5) proposer_wf_def table_wf_update has_values_update)
  with counted(6) receive_chosen_wf show ?thesis by blast
qed

lemma update_from_preemption_fields:
  assumes "proposer_update_instance_info_from_preemption now draws g x pre = Some y"
  shows "pci_iid (spi_common_info y) = pci_iid (spi_common_info x) \<and> quorum_wf (spi_quorum y)
    \<and> q_acceptors (spi_quorum y) = q_acceptors (spi_quorum x) \<and> quorum_votes (spi_quorum y) = {}
    \<and> ballot_giver_next draws g (pre_acceptor_current_ballot pre) = Some (pci_ballot (spi_common_info y))"
  using assms
  by (auto simp: proposer_update_instance_info_from_preemption_def Let_def split: option.splits)

lemma preempt_prepare_phase_wf:
  assumes "proposer_wf p" "preempt_prepare_phase now draws p pre = Some (p', out)"
  shows "proposer_wf p'"
proof -
  have t: "table_wf (pr_acceptors p) (pr_prepare_phase_instances p)" using assms(1) by (simp add: proposer_wf_def)
  have "table_wf (pr_acceptors p) (AList.update (pre_iid pre) y (pr_prepare_phase_instances p))"
    if "get_instance_info (pr_prepare_phase_instances p) (pre_iid pre) = Some x"
      "proposer_update_instance_info_from_preemption now draws (pr_ballot_giver p) x pre = Some y" for x y
    using t table_wf_get [OF t that(1)] update_from_preemption_fields [OF that(2)] by (simp add: table_wf_update)
  with assms show ?thesis
    by (auto simp: preempt_prepare_phase_def proposer_wf_def split: option.splits if_splits)
qed

lemma preempt_accept_phase_cases:
  assumes "preempt_accept_phase now draws p pre = Some (p', out)"
  obtains (untouched) "p' = p" "out = None"
  | (moved) x v y where
      "get_instance_info (pr_accept_phase_instances p) (pre_iid pre) = Some x"
      "pre_attempted_ballot pre = pci_ballot (spi_common_info x)" "pci_proposing_value (spi_common_info x) = Some v"
      "proposer_update_instance_info_from_preemption now draws (pr_ballot_giver p) x pre = Some y"
      "p' = p\<lparr>pr_value_proposal_manager :=
               (if instance_should_requeue_value x = Some True
                then fst (value_proposal_manager_check_and_requeue_value (pr_value_proposal_manager p) v)
                else pr_value_proposal_manager p),
             pr_accept_phase_instances := AList.delete (pci_iid (spi_common_info y)) (pr_accept_phase_instances p),
             pr_prepare_phase_instances := AList.update (pci_iid (spi_common_info y))
               (y\<lparr>spi_quorum := quorum_resize_and_reset (spi_quorum y) (pr_q2 p)\<rparr>) (pr_prepare_phase_instances p)\<rparr>"
      "out = Some (get_prepare_from_instance_info y)"
proof (cases "\<exists>x. get_instance_info (pr_accept_phase_instances p) (pre_iid pre) = Some x
    \<and> pre_attempted_ballot pre = pci_ballot (spi_common_info x)")
  case True
  then obtain x where x: "get_instance_info (pr_accept_phase_instances p) (pre_iid pre) = Some x"
    "pre_attempted_ballot pre = pci_ballot (spi_common_info x)" by blast
  with assms obtain v y where v: "pci_proposing_value (spi_common_info x) = Some v"
    and y: "proposer_update_instance_info_from_preemption now draws (pr_ballot_giver p) x pre = Some y"
    by (auto simp: preempt_accept_phase_def instance_should_requeue_value_def Let_def split: option.splits)
  from assms x v y show thesis
    by (intro moved [OF x v y])
      (auto simp: preempt_accept_phase_def instance_should_requeue_value_def Let_def
        proposer_move_instance_between_phase_def get_prepare_from_instance_info_def)
next
  case False
  with assms show thesis by (intro untouched) (auto simp: preempt_accept_phase_def split: option.splits)
qed

lemma preempt_accept_phase_wf:
  assumes "proposer_wf p" "preempt_accept_phase now draws p pre = Some (p', out)"
  shows "proposer_wf p'"
  using assms(2)
proof (cases rule: preempt_accept_phase_cases)
  case untouched
  then show ?thesis using assms(1) by simp
next
  case (moved x v y)
  have "table_wf (pr_acceptors p) (pr_accept_phase_instances p)" using assms(1) by (simp add: proposer_wf_def)
  from assms(1) table_wf_get [OF this moved(1)] update_from_preemption_fields [OF moved(4)] show ?thesis
    by (simp add: moved(5) proposer_wf_def table_wf_update)
qed

lemma receive_preempted_wf:
  assumes "proposer_wf p" "proposer_receive_preempted now draws draws' p pre = Some (p', out)"
  shows "proposer_wf p'"
proof (cases "preempt_prepare_phase now draws p pre")
  case (Some r)
  obtain p1 out1 where r: "r = (p1, out1)" by (cases r)
  have "proposer_wf p1" using preempt_prepare_phase_wf [OF assms(1)] Some r by simp
  with preempt_accept_phase_wf [OF this] assms Some r show ?thesis
    by (auto simp: proposer_receive_preempted_def split: if_splits option.splits)
qed (use assms in \<open>auto simp: proposer_receive_preempted_def split: if_splits\<close>)

lemma next_timedout_Some: "next_timedout cfg t k now = (k', Some x) \<Longrightarrow> x \<in> snd ` set t"
  by (induction cfg t k now rule: next_timedout.induct) (auto split: if_splits)

lemma timeout_prepare_wf:
  assumes "proposer_wf p" "timeout_iterator_prepare cfg iter p = (iter', p', out)"
  shows "proposer_wf p'"
proof -
  have t: "table_wf (pr_acceptors p) (pr_prepare_phase_instances p)" using assms(1) by (simp add: proposer_wf_def)
  obtain k r where nt: "next_timedout cfg (drop (ti_prepare_instance iter) (pr_prepare_phase_instances p))
      (ti_prepare_instance iter) (ti_timeout iter) = (k, r)" by (meson surj_pair)
  show ?thesis
  proof (cases r)
    case None
    with assms nt show ?thesis by (simp add: timeout_iterator_prepare_def)
  next
    case (Some x)
    with next_timedout_Some nt have "x \<in> snd ` set (pr_prepare_phase_instances p)"
      using set_drop_subset by (metis image_mono subsetD)
    with t have "quorum_wf (spi_quorum x) \<and> q_acceptors (spi_quorum x) = pr_acceptors p"
      by (auto simp: phase_table_wf_def)
    moreover have "p' = p\<lparr>pr_prepare_phase_instances := AList.update (pci_iid (spi_common_info x))
        (x\<lparr>spi_common_info := (spi_common_info x)\<lparr>pci_created_at := ti_timeout iter\<rparr>\<rparr>) (pr_prepare_phase_instances p)\<rparr>"
      using assms(2) nt Some by (simp add: timeout_iterator_prepare_def)
    ultimately show ?thesis using assms(1) by (simp add: proposer_wf_def table_wf_update)
  qed
qed

lemma timeout_accept_wf:
  assumes "proposer_wf p" "timeout_iterator_accept cfg now iter p = Some (iter', p', out)"
  shows "proposer_wf p'"
proof -
  have t: "table_wf (pr_acceptors p) (pr_accept_phase_instances p)" and v: "has_values (pr_accept_phase_instances p)"
    using assms(1) by (simp_all add: proposer_wf_def)
  obtain k r where nt: "next_timedout cfg (drop (ti_accept_instance iter) (pr_accept_phase_instances p))
      (ti_accept_instance iter) (ti_timeout iter) = (k, r)" by (meson surj_pair)
  show ?thesis
  proof (cases r)
    case None
    with assms nt show ?thesis by (simp add: timeout_iterator_accept_def)
  next
    case (Some x)
    with next_timedout_Some nt have "x \<in> snd ` set (pr_accept_phase_instances p)"
      using set_drop_subset by (metis image_mono subsetD)
    with t v have "quorum_wf (spi_quorum x) \<and> q_acceptors (spi_quorum x) = pr_acceptors p
        \<and> pci_proposing_value (spi_common_info x) \<noteq> None"
      by (fastforce simp: phase_table_wf_def phase_has_values_def)
    moreover have "p' = p\<lparr>pr_accept_phase_instances := AList.update (pci_iid (spi_common_info x))
        (x\<lparr>spi_common_info := (spi_common_info x)\<lparr>pci_created_at := now\<rparr>\<rparr>) (pr_accept_phase_instances p)\<rparr>"
      using assms(2) nt Some by (auto simp: timeout_iterator_accept_def split: option.splits)
    ultimately show ?thesis using assms(1) by (simp add: proposer_wf_def table_wf_update has_values_update)
  qed
qed

lemma set_current_instance_wf:
  "proposer_wf p \<Longrightarrow> proposer_set_current_instance cfg p i = Some p' \<Longrightarrow> proposer_wf p'"
  by (auto simp: proposer_set_current_instance_def proposer_wf_def [of "p\<lparr>pr_next_prepare_instance := i\<rparr>"]
      proposer_wf_def [of p] Let_def receive_trim_fields split: option.splits if_splits)

lemma proposer_state_wf:
  assumes "proposer_wf p"
  shows "proposer_wf (proposer_receive_proposer_state cfg p st)"
proof -
  have "proposer_wf (proposer_receive_trim cfg p \<lparr>trim_iid = ps_trim_instance st\<rparr>)"
    using receive_trim_fields [OF assms] by blast
  then show ?thesis by (simp add: proposer_receive_proposer_state_def proposer_wf_def Let_def)
qed

section \<open>Every reachable proposer is well formed\<close>

text \<open>One call of the interface, with any message, clock and random draws, that returns.\<close>

inductive proposer_step :: "paxos_config \<Rightarrow> proposer \<Rightarrow> proposer \<Rightarrow> bool" for cfg where
  add_value: "proposer_add_paxos_value_to_queue p v = Some p' \<Longrightarrow> proposer_step cfg p p'"
| next_instance: "proposer_step cfg p (proposer_next_instance p)"
| set_instance: "proposer_set_current_instance cfg p i = Some p' \<Longrightarrow> proposer_step cfg p p'"
| prepare: "proposer_step cfg p (fst (proposer_try_to_start_preparing_instance now p i b))"
| promise: "proposer_receive_promise p ack = Some (p', r) \<Longrightarrow> proposer_step cfg p p'"
| accept: "proposer_try_accept cfg now p = Some (p', out) \<Longrightarrow> proposer_step cfg p p'"
| accepted: "proposer_receive_accepted cfg p accd = Some (p', ch) \<Longrightarrow> proposer_step cfg p p'"
| chosen: "proposer_receive_chosen cfg p c = Some (p', was) \<Longrightarrow> proposer_step cfg p p'"
| preempted: "proposer_receive_preempted now draws draws' p pre = Some (p', nxt) \<Longrightarrow> proposer_step cfg p p'"
| trim: "proposer_step cfg p (proposer_receive_trim cfg p t)"
| proposer_state: "proposer_step cfg p (proposer_receive_proposer_state cfg p st)"
| acceptor_state: "proposer_step cfg p (proposer_receive_acceptor_state cfg p ast)"
| timeout_prepare: "timeout_iterator_prepare cfg iter p = (iter', p', prep) \<Longrightarrow> proposer_step cfg p p'"
| timeout_accept: "timeout_iterator_accept cfg now iter p = Some (iter', p', acc) \<Longrightarrow> proposer_step cfg p p'"

inductive proposer_reachable :: "paxos_config \<Rightarrow> proposer \<Rightarrow> bool" for cfg where
  init: "proposer_reachable cfg (proposer_new cfg i n q1 q2 inc)"
| step: "proposer_reachable cfg p \<Longrightarrow> proposer_step cfg p p' \<Longrightarrow> proposer_reachable cfg p'"

lemma proposer_step_wf: "proposer_step cfg p p' \<Longrightarrow> proposer_wf p \<Longrightarrow> proposer_wf p'"
  by (induction rule: proposer_step.induct)
    (auto simp: proposer_receive_acceptor_state_def receive_trim_fields proposer_state_wf
      intro: add_value_wf set_current_instance_wf start_preparing_wf receive_promise_wf try_accept_wf
      receive_accepted_wf receive_chosen_wf receive_preempted_wf timeout_prepare_wf timeout_accept_wf)

lemma proposer_reachable_wf: "proposer_reachable cfg p \<Longrightarrow> proposer_wf p"
  by (induction rule: proposer_reachable.induct) (auto intro: proposer_step_wf)

section \<open>Which value is proposed\<close>

text \<open>
  What an instance in the prepare phase knows about the promises \<open>H\<close> that it counted: who sent them
  and the most recently accepted value among them.
\<close>

definition promises_recorded :: "paxos_promise set \<Rightarrow> standard_proposer_instance_info \<Rightarrow> bool" where
  "promises_recorded H x \<longleftrightarrow> quorum_wf (spi_quorum x)
     \<and> quorum_votes (spi_quorum x) = (\<lambda>h. sint (prom_aid h)) ` H
     \<and> (\<forall>h \<in> H. prom_value_ballot h \<le> pci_last_accepted_ballot (spi_common_info x))
     \<and> (case pci_last_accepted_value (spi_common_info x) of
          None \<Rightarrow> pci_last_accepted_ballot (spi_common_info x) = INVALID_BALLOT
        | Some v \<Rightarrow> INVALID_BALLOT < pci_last_accepted_ballot (spi_common_info x)
            \<and> (\<exists>h \<in> H. prom_value_ballot h = pci_last_accepted_ballot (spi_common_info x) \<and> prom_value h = v))"

definition instance_promised :: "paxos_promise set \<Rightarrow> iid_t \<Rightarrow> ballot \<Rightarrow> int \<Rightarrow> proposer \<Rightarrow> bool" where
  "instance_promised P i b n p \<longleftrightarrow>
     (\<exists>x H. get_instance_info (pr_prepare_phase_instances p) i = Some x
        \<and> H \<subseteq> {h \<in> P. prom_iid h = i \<and> b \<le> prom_ballot h} \<and> promises_recorded H x
        \<and> pci_ballot (spi_common_info x) = b \<and> pci_iid (spi_common_info x) = i \<and> q_quorum (spi_quorum x) = n)"

lemma promises_recorded_check:
  assumes "promises_recorded H x" "quorum_add (spi_quorum x) (sint (prom_aid ack)) = Some (q, True)"
  shows "promises_recorded (insert ack H) (check_and_handle_promises_value_for_instance ack (x\<lparr>spi_quorum := q\<rparr>))"
proof -
  have q: "quorum_wf q" "quorum_votes q = insert (sint (prom_aid ack)) (quorum_votes (spi_quorum x))"
    using assms quorum_add_keeps [OF _ assms(2)] qc.add_votes [OF assms(2)] by (simp_all add: promises_recorded_def)
  show ?thesis
  proof (cases "pci_last_accepted_ballot (spi_common_info x) < prom_value_ballot ack")
    case True
    then have "INVALID_BALLOT < prom_value_ballot ack" using INVALID_BALLOT_le le_less_trans by blast
    with True assms(1) q show ?thesis
      by (auto simp: promises_recorded_def check_and_handle_promises_value_for_instance_def)
  next
    case False
    with assms(1) q show ?thesis
      by (auto simp: promises_recorded_def check_and_handle_promises_value_for_instance_def
          split: option.splits)
  qed
qed

lemma map_of_AList_update: "get_instance_info (AList.update k v t) i = (if i = k then Some v else get_instance_info t i)"
  by (simp add: get_instance_info_def update_conv')

lemma receive_promise_instance_promised:
  assumes "instance_promised P i b n p" "ack \<in> P" "proposer_receive_promise p ack = Some (p', r)"
  shows "instance_promised P i b n p'"
  using assms(3)
proof (cases rule: receive_promise_cases)
  case dropped
  then show ?thesis using assms(1) by simp
next
  case (counted x q)
  show ?thesis
  proof (cases "prom_iid ack = i")
    case False
    with assms(1) counted show ?thesis by (simp add: instance_promised_def map_of_AList_update)
  next
    case True
    with assms(1) counted(1) obtain H where H: "H \<subseteq> {h \<in> P. prom_iid h = i \<and> b \<le> prom_ballot h}"
      "promises_recorded H x" "pci_ballot (spi_common_info x) = b" "pci_iid (spi_common_info x) = i"
      "q_quorum (spi_quorum x) = n"
      by (auto simp: instance_promised_def)
    have "q_quorum q = n" using quorum_add_keeps [OF _ counted(3)] H(2,5) by (simp add: promises_recorded_def)
    with promises_recorded_check [OF H(2) counted(3)] H True assms(2) counted(2)
    show ?thesis
      unfolding instance_promised_def counted(4)
      by (intro exI [of _ "check_and_handle_promises_value_for_instance ack (x\<lparr>spi_quorum := q\<rparr>)"]
          exI [of _ "insert ack H"]) (auto simp: map_of_AList_update)
  qed
qed

fun proposer_receive_promises :: "proposer \<Rightarrow> paxos_promise list \<Rightarrow> proposer option" where
  "proposer_receive_promises p [] = Some p"
| "proposer_receive_promises p (ack # acks) =
     (case proposer_receive_promise p ack of None \<Rightarrow> None | Some (p, _) \<Rightarrow> proposer_receive_promises p acks)"

lemma receive_promises_instance_promised:
  "proposer_receive_promises p acks = Some p' \<Longrightarrow> set acks \<subseteq> P \<Longrightarrow> instance_promised P i b n p \<Longrightarrow>
     instance_promised P i b n p'"
  by (induction acks arbitrary: p)
    (auto split: option.splits intro: receive_promise_instance_promised)

lemma receive_promises_wf:
  "proposer_receive_promises p acks = Some p' \<Longrightarrow> proposer_wf p \<Longrightarrow> proposer_wf p'"
  by (induction acks arbitrary: p) (auto split: option.splits intro: receive_promise_wf)

lemma start_instance_promised:
  assumes "get_instance_info (pr_prepare_phase_instances p) i = None"
  shows "instance_promised P i b (pr_q1 p) (fst (proposer_try_to_start_preparing_instance now p i b))"
proof -
  let ?x = "proposer_instance_info_new now i b (pr_acceptors p) (pr_q1 p)"
  have "get_instance_info (pr_prepare_phase_instances (fst (proposer_try_to_start_preparing_instance now p i b))) i
      = Some ?x"
    using assms by (simp add: proposer_try_to_start_preparing_instance_def proposer_next_instance_def Let_def
        map_of_AList_update)
  moreover have "promises_recorded {} ?x"
    by (simp add: promises_recorded_def proposer_instance_info_new_def proposer_common_info_new_def INVALID_BALLOT_def)
  ultimately show ?thesis
    by (fastforce simp: instance_promised_def proposer_instance_info_new_def proposer_common_info_new_def)
qed

section \<open>Properties\<close>

text \<open>
  C29: In every state a standard proposer can reach, the tables are consistent: every instance is
  stored under its own number at most once per phase, its vote counter is well formed and sized for
  the configured acceptors, every instance in the accept phase has a value to propose, and the
  queues of client values are intact.
\<close>

theorem reachable_proposer_is_well_formed:
  assumes "proposer_reachable cfg p"
  shows "proposer_wf p"
  using assms by (rule proposer_reachable_wf)

theorem reachable_proposer_is_well_formed_witness:
  "proposer_wf (fst (proposer_try_to_start_preparing_instance \<lparr>tv_sec = 5, tv_usec = 0\<rparr>
     (proposer_new sample_config 1 3 2 2 10) 1 (Ballot 1 1)))"
  by (rule reachable_proposer_is_well_formed [of sample_config])
    (rule proposer_reachable.step [OF proposer_reachable.init proposer_step.prepare])

text \<open>A proposer with short queues, for the concrete examples.\<close>

definition fresh_proposer :: proposer where
  "fresh_proposer = (proposer_new sample_config 1 3 2 2 10)
     \<lparr>pr_value_proposal_manager := value_proposal_manager_new 2 False\<rparr>"

lemma fresh_proposer_wf: "proposer_wf fresh_proposer"
  by (simp add: fresh_proposer_def proposer_wf_def proposer_new_def phase_has_values_def)

lemma accept_follows_promises:
  assumes "proposer_wf p" "get_instance_info (pr_prepare_phase_instances p) i = None"
    and "proposer_receive_promises (fst (proposer_try_to_start_preparing_instance now p i b)) acks = Some p1"
    and "proposer_try_accept cfg now' p1 = Some (p2, Some acc)" "acc_iid acc = i"
  shows "acc_ballot acc = b
    \<and> (\<exists>H \<subseteq> {h \<in> set acks. prom_iid h = i \<and> b \<le> prom_ballot h}.
         pr_q1 p \<le> int (card ((\<lambda>h. sint (prom_aid h)) ` H))
         \<and> (if \<forall>h \<in> H. prom_value_ballot h = INVALID_BALLOT
            then acc_value acc = NOP \<or> acc_value acc \<in> outstanding (pr_value_proposal_manager p1)
            else \<exists>h \<in> H. acc_value acc = prom_value h
                   \<and> (\<forall>h' \<in> H. prom_value_ballot h' \<le> prom_value_ballot h)))"
proof -
  have wf: "proposer_wf p1" using receive_promises_wf [OF assms(3)] start_preparing_wf assms(1) by blast
  have prom: "instance_promised (set acks) i b (pr_q1 p) p1"
    by (rule receive_promises_instance_promised [OF assms(3) order.refl start_instance_promised [OF assms(2)]])
  obtain x p' x1 v where x: "get_min_instance_to_begin_accept_phase p1 = Some x"
    and d: "proposer_try_determine_value_to_propose cfg now' p1 x = Some (p', x1, True)"
    and v: "pci_proposing_value (spi_common_info x1) = Some v"
    and acc: "acc = \<lparr>acc_iid = pci_iid (spi_common_info x1), acc_ballot = pci_ballot (spi_common_info x1), acc_value = v\<rparr>"
    using assms(4)
  proof (cases rule: try_accept_cases)
    case (proposed x p' x1 v)
    then show thesis by (intro that [of x p' x1 v]) simp_all
  qed simp_all
  have t: "table_wf (pr_acceptors p1) (pr_prepare_phase_instances p1)" and m: "vpm_wf (pr_value_proposal_manager p1)"
    using wf by (simp_all add: proposer_wf_def)
  note dw = determine_value_wf [OF m d]
  have i: "pci_iid (spi_common_info x) = i" using dw acc assms(5) by simp
  have gx: "get_instance_info (pr_prepare_phase_instances p1) i = Some x" and q: "quorum_reached (spi_quorum x)"
    using get_min_instance_to_begin_accept_phase_Some [OF t x] i by simp_all
  from prom gx obtain H where H: "H \<subseteq> {h \<in> set acks. prom_iid h = i \<and> b \<le> prom_ballot h}"
    "promises_recorded H x" "pci_ballot (spi_common_info x) = b" "q_quorum (spi_quorum x) = pr_q1 p"
    by (auto simp: instance_promised_def)
  have "acc_ballot acc = b" using dw acc H(3) by simp
  moreover have "pr_q1 p \<le> int (card ((\<lambda>h. sint (prom_aid h)) ` H))"
    using q quorum_reached_iff [of "spi_quorum x"] H(2,4) by (simp add: promises_recorded_def)
  moreover from d have "if \<forall>h \<in> H. prom_value_ballot h = INVALID_BALLOT
      then acc_value acc = NOP \<or> acc_value acc \<in> outstanding (pr_value_proposal_manager p1)
      else \<exists>h \<in> H. acc_value acc = prom_value h \<and> (\<forall>h' \<in> H. prom_value_ballot h' \<le> prom_value_ballot h)"
  proof (cases rule: determine_value_cases)
    case (adopt w)
    with v acc have "acc_value acc = w" by simp
    let ?lab = "pci_last_accepted_ballot (spi_common_info x)"
    from adopt(1) H(2) obtain h where h: "h \<in> H" "prom_value_ballot h = ?lab" "prom_value h = w"
      and lab: "INVALID_BALLOT < ?lab" "\<forall>h' \<in> H. prom_value_ballot h' \<le> ?lab"
      by (auto simp: promises_recorded_def)
    have "\<not> (\<forall>h \<in> H. prom_value_ballot h = INVALID_BALLOT)" using h(1,2) lab(1) by (metis less_irrefl)
    moreover have "acc_value acc = prom_value h \<and> (\<forall>h' \<in> H. prom_value_ballot h' \<le> prom_value_ballot h)"
      using h lab(2) \<open>acc_value acc = w\<close> by simp
    ultimately show ?thesis using h(1) by auto
  next
    case (client w m')
    with H(2) have "\<forall>h \<in> H. prom_value_ballot h \<le> INVALID_BALLOT" by (auto simp: promises_recorded_def)
    then have none: "\<forall>h \<in> H. prom_value_ballot h = INVALID_BALLOT" by (simp add: INVALID_BALLOT_bot bot_unique)
    have "acc_value acc = w" using client v acc by simp
    moreover have "w = NOP \<or> w \<in> outstanding (pr_value_proposal_manager p1)"
      using get_next_correct [OF m client(3)] by (auto simp: outstanding_def)
    ultimately show ?thesis using none by simp
  qed simp
  ultimately show ?thesis using H(1) by blast
qed

text \<open>
  C3: The proposer obeys the rule on which the safety of Paxos rests: if it starts an instance at
  ballot \<open>b\<close>, receives any promises and then sends an accept for that instance, the accept is at ballot
  \<open>b\<close> and there is a quorum of \<open>q1\<close> acceptors whose promises it received such that the value is the one
  accepted at the highest ballot among those promises, or, only if none of them reports an accepted
  value, a client value or \<open>NOP\<close>.
\<close>

theorem proposal_follows_promises:
  assumes "proposer_wf p" "get_instance_info (pr_prepare_phase_instances p) i = None"
    and "proposer_receive_promises (fst (proposer_try_to_start_preparing_instance now p i b)) acks = Some p1"
    and "proposer_try_accept cfg now' p1 = Some (p2, Some acc)" "acc_iid acc = i"
  shows "acc_ballot acc = b
    \<and> (\<exists>H \<subseteq> {h \<in> set acks. prom_iid h = i \<and> b \<le> prom_ballot h}.
         pr_q1 p \<le> int (card ((\<lambda>h. sint (prom_aid h)) ` H))
         \<and> (if \<forall>h \<in> H. prom_value_ballot h = INVALID_BALLOT
            then acc_value acc = NOP \<or> acc_value acc \<in> outstanding (pr_value_proposal_manager p1)
            else \<exists>h \<in> H. acc_value acc = prom_value h
                   \<and> (\<forall>h' \<in> H. prom_value_ballot h' \<le> prom_value_ballot h)))"
  using assms by (rule accept_follows_promises)

theorem proposal_follows_promises_witness:
  "\<exists>p1 p2 acc. proposer_receive_promises
      (fst (proposer_try_to_start_preparing_instance \<lparr>tv_sec = 5, tv_usec = 0\<rparr> fresh_proposer 1 (Ballot 3 1)))
      [\<lparr>prom_aid = 0, prom_iid = 1, prom_ballot = Ballot 3 1, prom_value_ballot = Ballot 1 2, prom_value = [8]\<rparr>,
       \<lparr>prom_aid = 2, prom_iid = 1, prom_ballot = Ballot 3 1, prom_value_ballot = Ballot 2 2, prom_value = [9]\<rparr>]
      = Some p1
    \<and> proposer_try_accept sample_config \<lparr>tv_sec = 6, tv_usec = 0\<rparr> p1 = Some (p2, Some acc)
    \<and> acc_ballot acc = Ballot 3 1 \<and> acc_value acc = [9]"
proof -
  let ?p = "fst (proposer_try_to_start_preparing_instance \<lparr>tv_sec = 5, tv_usec = 0\<rparr> fresh_proposer 1 (Ballot 3 1))"
  let ?acks = "[\<lparr>prom_aid = 0, prom_iid = 1, prom_ballot = Ballot 3 1, prom_value_ballot = Ballot 1 2, prom_value = [8]\<rparr>,
       \<lparr>prom_aid = 2, prom_iid = 1, prom_ballot = Ballot 3 1, prom_value_ballot = Ballot 2 2, prom_value = [9]\<rparr>]"
  let ?acc = "\<lparr>acc_iid = 1, acc_ballot = Ballot 3 1, acc_value = [9]\<rparr>"
  have "map_option snd (Option.bind (proposer_receive_promises ?p ?acks)
      (proposer_try_accept sample_config \<lparr>tv_sec = 6, tv_usec = 0\<rparr>)) = Some (Some ?acc)"
    by code_simp
  then obtain p1 p2 where p1: "proposer_receive_promises ?p ?acks = Some p1"
    and p2: "proposer_try_accept sample_config \<lparr>tv_sec = 6, tv_usec = 0\<rparr> p1 = Some (p2, Some ?acc)"
    by (auto simp: bind_eq_Some_conv)
  have "get_instance_info (pr_prepare_phase_instances fresh_proposer) 1 = None" by code_simp
  from proposal_follows_promises [OF fresh_proposer_wf this p1 p2] p1 p2 show ?thesis by auto
qed

lemma pending_mono:
  "set (pr_prepare_phase_instances p') \<subseteq> set (pr_prepare_phase_instances p) \<Longrightarrow>
   set (pr_accept_phase_instances p') \<subseteq> set (pr_accept_phase_instances p) \<Longrightarrow>
   proposer_is_instance_pending p' i \<Longrightarrow> proposer_is_instance_pending p i"
  by (auto simp: proposer_is_instance_pending_def get_instance_info_def dest!: map_of_SomeD)
    (metis image_eqI fst_conv map_of_eq_None_iff option.exhaust subsetD)+

text \<open>
  When a standard proposer learns that an instance was chosen, it stops working on it: the
  instance is recorded as chosen and is in neither phase any more, the chosen value is no longer
  outstanding, so that it is not proposed again, and no other client value is lost.
\<close>

theorem chosen_closes_instance_and_value:
  assumes "proposer_wf p" "\<not> proposer_is_instance_chosen p (cho_iid c)"
    and "proposer_receive_chosen cfg p c = Some (p', r)"
  shows "proposer_is_instance_chosen p' (cho_iid c) \<and> \<not> proposer_is_instance_pending p' (cho_iid c)
    \<and> outstanding (pr_value_proposal_manager p') = outstanding (pr_value_proposal_manager p) - {cho_value c}"
proof -
  obtain p1 mn where p1: "proposer_wf p1" "pr_chosens p1 = (pr_chosens p)(cho_iid c \<mapsto> True)"
    "outstanding (pr_value_proposal_manager p1) = outstanding (pr_value_proposal_manager p) - {cho_value c}"
    "pr_prepare_phase_instances p1 = AList.delete (cho_iid c) (pr_prepare_phase_instances p)"
    "pr_accept_phase_instances p1 = AList.delete (cho_iid c) (pr_accept_phase_instances p)"
    "p' = (if mn \<ge> cho_iid c then proposer_receive_trim cfg p1 \<lparr>trim_iid = cho_iid c\<rparr> else p1)"
    using receive_chosen_new [OF assms] by metis
  have none: "\<not> proposer_is_instance_pending p1 (cho_iid c)"
    by (simp add: proposer_is_instance_pending_def p1 get_instance_info_def AList.delete_conv')
  have "pr_chosens p' = pr_chosens p1" "set (pr_prepare_phase_instances p') \<subseteq> set (pr_prepare_phase_instances p1)"
    "set (pr_accept_phase_instances p') \<subseteq> set (pr_accept_phase_instances p1)"
    "outstanding (pr_value_proposal_manager p') = outstanding (pr_value_proposal_manager p1)"
    using receive_trim_fields [OF p1(1), of cfg "\<lparr>trim_iid = cho_iid c\<rparr>"] by (simp_all add: p1(6))
  with none pending_mono p1(2,3) show ?thesis by (auto simp: proposer_is_instance_chosen_def)
qed

theorem chosen_closes_instance_and_value_witness:
  "\<exists>p' r. proposer_receive_chosen sample_config
      (fst (proposer_try_to_start_preparing_instance \<lparr>tv_sec = 5, tv_usec = 0\<rparr> fresh_proposer 4 (Ballot 3 1)))
      \<lparr>cho_iid = 4, cho_ballot = Ballot 2 2, cho_value = [9]\<rparr> = Some (p', r)
    \<and> proposer_is_instance_chosen p' 4 \<and> \<not> proposer_is_instance_pending p' 4"
proof -
  let ?p = "fst (proposer_try_to_start_preparing_instance \<lparr>tv_sec = 5, tv_usec = 0\<rparr> fresh_proposer 4 (Ballot 3 1))"
  let ?c = "\<lparr>cho_iid = 4, cho_ballot = Ballot 2 2, cho_value = [9]\<rparr>"
  have wf: "proposer_wf ?p" by (rule start_preparing_wf [OF fresh_proposer_wf])
  have new: "\<not> proposer_is_instance_chosen ?p (cho_iid ?c)" by code_simp
  have "map_option snd (proposer_receive_chosen sample_config ?p ?c) = Some True" by code_simp
  then obtain p' where p': "proposer_receive_chosen sample_config ?p ?c = Some (p', True)" by auto
  from chosen_closes_instance_and_value [OF wf new p'] p' show ?thesis by auto
qed

text \<open>
  A proposer that is preempted in the accept phase waits for the wrong number of promises: the
  instance goes back to the prepare phase with the quorum size \<open>q2\<close> of the accept phase, not with \<open>q1\<close>
  with which every instance starts.
\<close>

theorem preempted_accept_waits_for_q2_promises:
  assumes "proposer_wf p" "preempt_accept_phase now draws p pre = Some (p', Some out)"
  shows "\<exists>x. get_instance_info (pr_prepare_phase_instances p') (pre_iid pre) = Some x
     \<and> q_quorum (spi_quorum x) = pr_q2 p \<and> prep_iid out = pre_iid pre
     \<and> prep_ballot out = pci_ballot (spi_common_info x)"
  using assms(2)
proof (cases rule: preempt_accept_phase_cases)
  case (moved x v y)
  have "table_wf (pr_acceptors p) (pr_accept_phase_instances p)" using assms(1) by (simp add: proposer_wf_def)
  with moved update_from_preemption_fields [OF moved(4)] show ?thesis
    by (simp add: table_wf_get map_of_AList_update get_prepare_from_instance_info_def)
qed simp

theorem preempted_accept_waits_for_q2_promises_witness:
  "\<exists>p p' out x. proposer_wf p \<and> pr_q1 p = 3 \<and> preempt_accept_phase \<lparr>tv_sec = 7, tv_usec = 0\<rparr> [0] p
      \<lparr>pre_aid = 0, pre_iid = 1, pre_attempted_ballot = Ballot 3 1, pre_acceptor_current_ballot = Ballot 4 2\<rparr>
      = Some (p', Some out)
    \<and> get_instance_info (pr_prepare_phase_instances p') 1 = Some x \<and> q_quorum (spi_quorum x) = 2"
proof -
  let ?x = "\<lparr>spi_common_info = (proposer_common_info_new \<lparr>tv_sec = 5, tv_usec = 0\<rparr> 1 (Ballot 3 1))
      \<lparr>pci_proposing_value := Some [9]\<rparr>, spi_quorum = quorum_init 3 2\<rparr>"
  let ?p = "fresh_proposer\<lparr>pr_q1 := 3, pr_accept_phase_instances := [(1, ?x)]\<rparr>"
  let ?pre = "\<lparr>pre_aid = 0, pre_iid = 1, pre_attempted_ballot = Ballot 3 1, pre_acceptor_current_ballot = Ballot 4 2\<rparr>"
  have wf: "proposer_wf ?p"
    using fresh_proposer_wf
    by (simp add: proposer_wf_def phase_table_wf_def phase_has_values_def fresh_proposer_def proposer_new_def proposer_common_info_new_def)
  have "map_option snd (preempt_accept_phase \<lparr>tv_sec = 7, tv_usec = 0\<rparr> [0] ?p ?pre)
      = Some (Some \<lparr>prep_iid = 1, prep_ballot = Ballot 5 1\<rparr>)" by code_simp
  then obtain p' where p': "preempt_accept_phase \<lparr>tv_sec = 7, tv_usec = 0\<rparr> [0] ?p ?pre
      = Some (p', Some \<lparr>prep_iid = 1, prep_ballot = Ballot 5 1\<rparr>)" by auto
  from preempted_accept_waits_for_q2_promises [OF wf p'] obtain x where
    "get_instance_info (pr_prepare_phase_instances p') 1 = Some x" "q_quorum (spi_quorum x) = 2"
    by (auto simp: fresh_proposer_def proposer_new_def)
  with wf p' show ?thesis by (intro exI [of _ ?p] exI) auto
qed

text \<open>
  A preempted proposer can replace an accepted value.  Acceptors 0 and 2 promise ballot 3.1 and
  report the value 9, accepted at ballot 2.2; the proposer proposes 9, is preempted in the accept
  phase and prepares again at ballot 5.1.  Acceptors 0 and 1 promise ballot 5.1 and both report the
  value 9 at ballot 2.2 again, a quorum that may mean that 9 is chosen, but the proposer proposes its
  own client value 5: it still remembers the ballot 2.2 but no longer the value, so that the reports
  count as old.
\<close>

theorem preempted_proposer_replaces_accepted_value:
  "Option.bind (proposer_add_paxos_value_to_queue fresh_proposer [5]) (\<lambda>p.
   Option.bind (proposer_receive_promises
      (fst (proposer_try_to_start_preparing_instance \<lparr>tv_sec = 5, tv_usec = 0\<rparr> p 1 (Ballot 3 1)))
      [\<lparr>prom_aid = 0, prom_iid = 1, prom_ballot = Ballot 3 1, prom_value_ballot = Ballot 2 2, prom_value = [9]\<rparr>,
       \<lparr>prom_aid = 2, prom_iid = 1, prom_ballot = Ballot 3 1, prom_value_ballot = Ballot 2 2, prom_value = [9]\<rparr>]) (\<lambda>p.
   Option.bind (proposer_try_accept sample_config \<lparr>tv_sec = 6, tv_usec = 0\<rparr> p) (\<lambda>(p, first).
   Option.bind (proposer_receive_preempted \<lparr>tv_sec = 7, tv_usec = 0\<rparr> [0] [0] p
      \<lparr>pre_aid = 0, pre_iid = 1, pre_attempted_ballot = Ballot 3 1, pre_acceptor_current_ballot = Ballot 4 2\<rparr>) (\<lambda>(p, again).
   Option.bind (proposer_receive_promises p
      [\<lparr>prom_aid = 0, prom_iid = 1, prom_ballot = Ballot 5 1, prom_value_ballot = Ballot 2 2, prom_value = [9]\<rparr>,
       \<lparr>prom_aid = 1, prom_iid = 1, prom_ballot = Ballot 5 1, prom_value_ballot = Ballot 2 2, prom_value = [9]\<rparr>]) (\<lambda>p.
   Option.bind (proposer_try_accept sample_config \<lparr>tv_sec = 8, tv_usec = 0\<rparr> p) (\<lambda>(p, second).
   Some (first, again, second)))))))
   = Some (Some \<lparr>acc_iid = 1, acc_ballot = Ballot 3 1, acc_value = [9]\<rparr>,
           Some \<lparr>prep_iid = 1, prep_ballot = Ballot 5 1\<rparr>,
           Some \<lparr>acc_iid = 1, acc_ballot = Ballot 5 1, acc_value = [5]\<rparr>)"
  by code_simp

end
