(* ===== verification/Storage_Utils.thy ===== *)
theory Storage_Utils
  imports Paxos_Types
begin

text \<open>
  \<open>src/paxos/storage_utils.c\<close>: the byte images under which accepted records are kept in the database.
  An image is the \<open>struct\<close> as it lies in memory followed by the bytes of the value.  The layout is
  that of the System V ABI for x86-64: \<open>uint32_t\<close> fields in declaration order, least significant byte
  first, then the length of the value, four bytes of padding and the eight bytes of the pointer to
  the value.  Padding and pointer carry no information; they are the argument \<open>junk\<close>.
\<close>

unbundle bit_operations_syntax

section \<open>Words as bytes\<close>

definition u32_to_bytes :: "u32 \<Rightarrow> byte list" where
  "u32_to_bytes w = [ucast w, ucast (drop_bit 8 w), ucast (drop_bit 16 w), ucast (drop_bit 24 w)]"

definition u32_of_bytes :: "byte list \<Rightarrow> u32" where
  "u32_of_bytes bs = ucast (bs ! 0) OR push_bit 8 (ucast (bs ! 1)) OR push_bit 16 (ucast (bs ! 2))
     OR push_bit 24 (ucast (bs ! 3))"

text \<open>The \<open>uint32_t\<close> at index \<open>k\<close> of an array that starts at the first byte.\<close>

definition u32_at :: "byte list \<Rightarrow> nat \<Rightarrow> u32" where
  "u32_at bs k = u32_of_bytes (take 4 (drop (4 * k) bs))"

definition words_to_bytes :: "u32 list \<Rightarrow> byte list" where
  "words_to_bytes ws = concat (map u32_to_bytes ws)"

lemma u32_of_to_bytes [simp]: "u32_of_bytes (u32_to_bytes w) = w"
proof (rule bit_word_eqI)
  fix n assume "n < LENGTH(32)"
  then show "bit (u32_of_bytes (u32_to_bytes w)) n = bit w n"
    by (cases "24 \<le> n"; cases "16 \<le> n"; cases "8 \<le> n") (auto simp: u32_of_bytes_def u32_to_bytes_def bit_simps)
qed

lemma length_u32_to_bytes [simp]: "length (u32_to_bytes w) = 4"
  by (simp add: u32_to_bytes_def)

lemma length_words_to_bytes [simp]: "length (words_to_bytes ws) = 4 * length ws"
  by (induction ws) (simp_all add: words_to_bytes_def)

lemma u32_at_words: "k < length ws \<Longrightarrow> u32_at (words_to_bytes ws @ rest) k = ws ! k"
proof (induction ws arbitrary: k)
  case (Cons w ws)
  show ?case
  proof (cases k)
    case 0
    then show ?thesis by (simp add: u32_at_def words_to_bytes_def)
  next
    case (Suc j)
    have "u32_at (words_to_bytes (w # ws) @ rest) (Suc j) = u32_at (words_to_bytes ws @ rest) j"
      by (simp add: u32_at_def words_to_bytes_def)
    with Suc Cons show ?thesis by simp
  qed
qed simp

section \<open>\<open>struct paxos_accepted\<close>\<close>

abbreviation (input) sizeof_paxos_accepted :: nat where "sizeof_paxos_accepted \<equiv> 40"

definition paxos_accepted_to_buffer :: "byte list \<Rightarrow> paxos_accepted \<Rightarrow> byte list" where
  "paxos_accepted_to_buffer junk acc =
     words_to_bytes [accd_aid acc, accd_iid acc,
        ballot_number (accd_promise_ballot acc), ballot_proposer_id (accd_promise_ballot acc),
        ballot_number (accd_value_ballot acc), ballot_proposer_id (accd_value_ballot acc),
        of_nat (length (accd_value acc))]
     @ junk @ accd_value acc"

text \<open>Reading beyond the end of the buffer is undefined behaviour, the value \<open>None\<close>.\<close>

definition paxos_accepted_from_buffer :: "byte list \<Rightarrow> paxos_accepted option" where
  "paxos_accepted_from_buffer buffer =
     (let len = unat (u32_at buffer 6) in
      if length buffer < sizeof_paxos_accepted + len then None
      else Some \<lparr>accd_aid = u32_at buffer 0, accd_iid = u32_at buffer 1,
              accd_promise_ballot = Ballot (u32_at buffer 2) (u32_at buffer 3),
              accd_value_ballot = Ballot (u32_at buffer 4) (u32_at buffer 5),
              accd_value = take len (drop sizeof_paxos_accepted buffer)\<rparr>)"

section \<open>\<open>struct epoch_ballot_accept\<close>\<close>

abbreviation (input) sizeof_epoch_ballot_accept :: nat where "sizeof_epoch_ballot_accept \<equiv> 32"

definition epoch_ballot_accept_to_buffer :: "byte list \<Rightarrow> epoch_ballot_accept \<Rightarrow> byte list" where
  "epoch_ballot_accept_to_buffer junk acc =
     words_to_bytes [eba_instance acc, eb_epoch (eba_epoch_ballot_requested acc),
        ballot_number (eb_ballot (eba_epoch_ballot_requested acc)),
        ballot_proposer_id (eb_ballot (eba_epoch_ballot_requested acc)),
        of_nat (length (eba_value_to_accept acc))]
     @ junk @ eba_value_to_accept acc"

definition epoch_ballot_accept_from_buffer :: "byte list \<Rightarrow> epoch_ballot_accept option" where
  "epoch_ballot_accept_from_buffer buffer =
     (let len = unat (u32_at buffer 4) in
      if length buffer < sizeof_epoch_ballot_accept + len then None
      else Some \<lparr>eba_instance = u32_at buffer 0,
              eba_epoch_ballot_requested = Epoch_Ballot (u32_at buffer 1) (Ballot (u32_at buffer 2) (u32_at buffer 3)),
              eba_value_to_accept = take len (drop sizeof_epoch_ballot_accept buffer)\<rparr>)"

section \<open>Round trips\<close>

lemma paxos_accepted_buffer_roundtrip [store_simps]:
  assumes "length junk = 12" "length (accd_value acc) < 4294967296"
  shows "paxos_accepted_from_buffer (paxos_accepted_to_buffer junk acc) = Some acc"
  using assms
  by (simp add: paxos_accepted_from_buffer_def paxos_accepted_to_buffer_def u32_at_words Let_def
      unat_of_nat_u32)

lemma epoch_ballot_accept_buffer_roundtrip [store_simps]:
  assumes "length junk = 12" "length (eba_value_to_accept acc) < 4294967296"
  shows "epoch_ballot_accept_from_buffer (epoch_ballot_accept_to_buffer junk acc) = Some acc"
  using assms
  by (simp add: epoch_ballot_accept_from_buffer_def epoch_ballot_accept_to_buffer_def u32_at_words Let_def
      unat_of_nat_u32)

text \<open>
  Accepted records survive the trip through the database image: decoding the bytes written for a
  record of standard Paxos, or of epoch Paxos, gives back this record, whatever the padding and the
  pointer bytes in between were, for every value whose length fits its 32-bit field.
\<close>

theorem accepted_records_buffer_roundtrip:
  assumes "length junk = 12" "length (accd_value acc) < 4294967296"
    and "length (eba_value_to_accept eacc) < 4294967296"
  shows "paxos_accepted_from_buffer (paxos_accepted_to_buffer junk acc) = Some acc
    \<and> epoch_ballot_accept_from_buffer (epoch_ballot_accept_to_buffer junk eacc) = Some eacc"
  using assms by (simp add: store_simps)

theorem accepted_records_buffer_roundtrip_witness:
  "let acc = \<lparr>accd_aid = 1, accd_iid = 70000, accd_promise_ballot = Ballot 5 2,
       accd_value_ballot = Ballot 4 1, accd_value = [1, 2, 3]\<rparr>;
     eacc = \<lparr>eba_instance = 9, eba_epoch_ballot_requested = Epoch_Ballot 3 (Ballot 258 1),
       eba_value_to_accept = []\<rparr>;
     junk = replicate 12 0
   in length (paxos_accepted_to_buffer junk acc) = 43
    \<and> paxos_accepted_from_buffer (paxos_accepted_to_buffer junk acc) = Some acc
    \<and> epoch_ballot_accept_from_buffer (epoch_ballot_accept_to_buffer junk eacc) = Some eacc"
  using accepted_records_buffer_roundtrip [of "replicate 12 0"
      "\<lparr>accd_aid = 1, accd_iid = 70000, accd_promise_ballot = Ballot 5 2,
         accd_value_ballot = Ballot 4 1, accd_value = [1, 2, 3]\<rparr>"
      "\<lparr>eba_instance = 9, eba_epoch_ballot_requested = Epoch_Ballot 3 (Ballot 258 1),
         eba_value_to_accept = []\<rparr>"]
  unfolding Let_def by (simp add: paxos_accepted_to_buffer_def)

end
