(* ===== verification/Lmdb_Storage.thy ===== *)
theory Lmdb_Storage
  imports Stable_Storage Storage_Utils "HOL-Library.AList"
begin

text \<open>
  \<open>src/paxos/stable_storage_lmdb.c\<close>: the stable storage of the acceptors on top of the LMDB library,
  and the interface \<open>src/paxos/include/epoch_stable_storage.h\<close> that it also implements.  LMDB itself is
  not part of the repository: its functions are the record \<open>mdb\<close>, an argument of every definition,
  and \<open>mdb_library\<close> states what its documentation promises.  Under this contract the storage meets
  the contracts \<open>stable_store\<close> and \<open>epoch_stable_store\<close> on which the acceptors rely.
\<close>

section \<open>The LMDB library\<close>

text \<open>
  An environment \<open>'e\<close> holds committed data, a transaction \<open>'t\<close> a private view of it.
  \<open>mdb_cursor_keys\<close> are the keys that \<open>mdb_cursor_get\<close> with \<open>MDB_NEXT\<close> visits.  \<open>mdb_env_open\<close> stands
  for the creation and opening of the environment in \<open>lmdb_storage_open\<close> and \<open>lmdb_storage_init\<close>,
  which the theory \<open>Lmdb_Environment\<close> follows call by call.  That an open environment holds what it held before
  (\<open>env_open\<close>) is so when the option \<open>acceptor-trash-files\<close> is off, as it is by default: with this option, which is
  meant for tests, \<open>lmdb_storage_open\<close> removes the files first, and what was stored does not survive it.
\<close>

record ('e, 't) mdb =
  mdb_env_open :: "'e \<Rightarrow> int \<times> 'e"
  mdb_txn_begin :: "'e \<Rightarrow> int \<times> 't"
  mdb_txn_commit :: "'e \<Rightarrow> 't \<Rightarrow> int \<times> 'e"
  mdb_get :: "'t \<Rightarrow> u32 \<Rightarrow> int \<times> byte list"
  mdb_put :: "'t \<Rightarrow> u32 \<Rightarrow> byte list \<Rightarrow> int \<times> 't"
  mdb_cursor_open :: "'t \<Rightarrow> int"
  mdb_cursor_keys :: "'t \<Rightarrow> u32 list"
  mdb_cursor_del :: "'t \<Rightarrow> u32 \<Rightarrow> int \<times> 't"

definition MDB_NOTFOUND :: int where "MDB_NOTFOUND = - 30798"

definition EINVAL :: int where "EINVAL = 22"

text \<open>
  A failed write leaves a transaction that cannot be committed any more; a commit is atomic.
\<close>

locale mdb_library =
  fixes m :: "('e, 't) mdb"
    and committed :: "'e \<Rightarrow> (u32 \<rightharpoonup> byte list)"
    and view :: "'t \<Rightarrow> (u32 \<rightharpoonup> byte list)"
    and broken :: "'t \<Rightarrow> bool"
  assumes env_open: "mdb_env_open m e = (0, e') \<Longrightarrow> committed e' = committed e"
    and txn_begin: "mdb_txn_begin m e = (0, t) \<Longrightarrow> view t = committed e \<and> \<not> broken t"
    and get_found: "\<not> broken t \<Longrightarrow> view t k = Some d \<Longrightarrow> mdb_get m t k = (0, d)"
    and get_missing: "\<not> broken t \<Longrightarrow> view t k = None \<Longrightarrow> fst (mdb_get m t k) = MDB_NOTFOUND"
    and put_ok: "mdb_put m t k d = (0, t') \<Longrightarrow> view t' = (view t)(k \<mapsto> d)"
    and put_broken: "mdb_put m t k d = (rc, t') \<Longrightarrow> broken t' \<longleftrightarrow> broken t \<or> rc \<noteq> 0"
    and commit_ok: "mdb_txn_commit m e t = (0, e') \<Longrightarrow> \<not> broken t \<and> committed e' = view t"
    and commit_failed: "mdb_txn_commit m e t = (rc, e') \<Longrightarrow> rc \<noteq> 0 \<Longrightarrow> committed e' = committed e"
    and cursor_keys: "\<not> broken t \<Longrightarrow> sorted (mdb_cursor_keys m t) \<and> distinct (mdb_cursor_keys m t)
        \<and> set (mdb_cursor_keys m t) = dom (view t)"
    and cursor_del: "mdb_cursor_del m t k = (0, t') \<Longrightarrow> view t' = (view t)(k := None) \<and> broken t' = broken t"

section \<open>\<open>struct lmdb_storage\<close> and its transactions\<close>

record ('e, 't) lmdb_storage =
  ls_env :: 'e
  ls_txn :: "'t option"
  ls_acceptor_id :: u32

definition TRIM_ID_KEY :: u32 where "TRIM_ID_KEY = - 1"

definition MAX_INSTANCE_KEY :: u32 where "MAX_INSTANCE_KEY = - 2"

definition CURRENT_EPOCH_KEY :: u32 where "CURRENT_EPOCH_KEY = - 3"

definition lmdb_storage_new_standard :: "'e \<Rightarrow> u32 \<Rightarrow> ('e, 't) lmdb_storage" where
  "lmdb_storage_new_standard env acceptor_id = \<lparr>ls_env = env, ls_txn = None, ls_acceptor_id = acceptor_id\<rparr>"

definition lmdb_storage_open ::
    "('e, 't) mdb \<Rightarrow> ('e, 't) lmdb_storage \<Rightarrow> int \<times> ('e, 't) lmdb_storage" where
  "lmdb_storage_open m s = (case mdb_env_open m (ls_env s) of (rc, env) \<Rightarrow> (rc, s\<lparr>ls_env := env\<rparr>))"

definition lmdb_storage_tx_begin ::
    "('e, 't) mdb \<Rightarrow> ('e, 't) lmdb_storage \<Rightarrow> int \<times> ('e, 't) lmdb_storage" where
  "lmdb_storage_tx_begin m s =
     (case mdb_txn_begin m (ls_env s) of (rc, t) \<Rightarrow> (rc, if rc = 0 then s\<lparr>ls_txn := Some t\<rparr> else s))"

definition lmdb_storage_tx_commit ::
    "('e, 't) mdb \<Rightarrow> ('e, 't) lmdb_storage \<Rightarrow> int \<times> ('e, 't) lmdb_storage" where
  "lmdb_storage_tx_commit m s =
     (case ls_txn s of
        None \<Rightarrow> (EINVAL, s)
      | Some t \<Rightarrow> (case mdb_txn_commit m (ls_env s) t of
          (rc, env) \<Rightarrow> (rc, s\<lparr>ls_env := env, ls_txn := None\<rparr>)))"

definition lmdb_storage_tx_abort :: "('e, 't) lmdb_storage \<Rightarrow> ('e, 't) lmdb_storage" where
  "lmdb_storage_tx_abort s = s\<lparr>ls_txn := None\<rparr>"

text \<open>
  The calls \<open>mdb_get(lmdb_storage->txn, ...)\<close> and \<open>mdb_put(lmdb_storage->txn, ...)\<close>: LMDB rejects a
  transaction handle that is \<open>NULL\<close> with \<open>EINVAL\<close>.
\<close>

definition txn_get :: "('e, 't) mdb \<Rightarrow> ('e, 't) lmdb_storage \<Rightarrow> u32 \<Rightarrow> int \<times> byte list" where
  "txn_get m s k = (case ls_txn s of None \<Rightarrow> (EINVAL, []) | Some t \<Rightarrow> mdb_get m t k)"

definition txn_put ::
    "('e, 't) mdb \<Rightarrow> ('e, 't) lmdb_storage \<Rightarrow> u32 \<Rightarrow> byte list \<Rightarrow> int \<times> ('e, 't) lmdb_storage" where
  "txn_put m s k d =
     (case ls_txn s of
        None \<Rightarrow> (EINVAL, s)
      | Some t \<Rightarrow> (case mdb_put m t k d of (rc, t') \<Rightarrow> (rc, s\<lparr>ls_txn := Some t'\<rparr>)))"

section \<open>The numbers kept under reserved keys\<close>

text \<open>A function whose out-parameter stays unset because of an error returns \<open>None\<close>.\<close>

definition lmdb_storage_get_max_instance ::
    "('e, 't) mdb \<Rightarrow> ('e, 't) lmdb_storage \<Rightarrow> iid_t option" where
  "lmdb_storage_get_max_instance m s =
     (case txn_get m s MAX_INSTANCE_KEY of
        (result, data) \<Rightarrow>
          if result \<noteq> 0 then (if result \<noteq> MDB_NOTFOUND then None else Some 0)
          else Some (u32_at data 0))"

definition lmdb_storage_put_max_instance ::
    "('e, 't) mdb \<Rightarrow> ('e, 't) lmdb_storage \<Rightarrow> iid_t \<Rightarrow> int \<times> ('e, 't) lmdb_storage" where
  "lmdb_storage_put_max_instance m s max_instance =
     (0, snd (txn_put m s MAX_INSTANCE_KEY (u32_to_bytes max_instance)))"

definition lmdb_storage_get_trim_instance ::
    "('e, 't) mdb \<Rightarrow> ('e, 't) lmdb_storage \<Rightarrow> iid_t option" where
  "lmdb_storage_get_trim_instance m s =
     (case txn_get m s TRIM_ID_KEY of
        (result, data) \<Rightarrow>
          if result \<noteq> 0 then (if result \<noteq> MDB_NOTFOUND then None else Some 0)
          else Some (u32_at data 0))"

text \<open>The assertion that the write succeeded: \<open>None\<close> is its failure.\<close>

definition lmdb_storage_put_trim_instance ::
    "('e, 't) mdb \<Rightarrow> ('e, 't) lmdb_storage \<Rightarrow> iid_t \<Rightarrow> (int \<times> ('e, 't) lmdb_storage) option" where
  "lmdb_storage_put_trim_instance m s i =
     (case txn_put m s TRIM_ID_KEY (u32_to_bytes i) of
        (result, s) \<Rightarrow> if result = 0 then Some (0, s) else None)"

definition lmdb_get_current_epoch ::
    "('e, 't) mdb \<Rightarrow> ('e, 't) lmdb_storage \<Rightarrow> int \<times> u32 option" where
  "lmdb_get_current_epoch m s =
     (case txn_get m s CURRENT_EPOCH_KEY of
        (result, data) \<Rightarrow>
          if result \<noteq> 0 then (if result \<noteq> MDB_NOTFOUND then (- 100, None) else (1, Some 0))
          else (1, Some (u32_at data 0)))"

definition lmdb_store_current_epoch ::
    "('e, 't) mdb \<Rightarrow> ('e, 't) lmdb_storage \<Rightarrow> u32 \<Rightarrow> int \<times> ('e, 't) lmdb_storage" where
  "lmdb_store_current_epoch m s epoch = (0, snd (txn_put m s CURRENT_EPOCH_KEY (u32_to_bytes epoch)))"

section \<open>Records of instances\<close>

text \<open>
  What a lookup finds.  \<open>Undefined\<close> is a buffer that is not an image of a record, which is read
  beyond its end, or the failure of the assertion that the record is one of the instance.
\<close>

datatype 'a lookup = Found 'a | Not_Found | Undefined

definition decode_accepted :: "iid_t \<Rightarrow> byte list \<Rightarrow> paxos_accepted lookup" where
  "decode_accepted iid data =
     (case paxos_accepted_from_buffer data of
        None \<Rightarrow> Undefined
      | Some out \<Rightarrow> if iid = accd_iid out then Found out else Undefined)"

definition lmdb_storage_get_instance_info ::
    "('e, 't) mdb \<Rightarrow> ('e, 't) lmdb_storage \<Rightarrow> iid_t \<Rightarrow> paxos_accepted lookup" where
  "lmdb_storage_get_instance_info m s iid =
     (case txn_get m s iid of (result, data) \<Rightarrow> if result \<noteq> 0 then Not_Found else decode_accepted iid data)"

text \<open>
  The test against the highest instance that both stores share.  Should reading the highest instance
  fail, C compares with an uninitialised variable; the model then writes nothing.
\<close>

definition raise_max_instance ::
    "('e, 't) mdb \<Rightarrow> ('e, 't) lmdb_storage \<Rightarrow> iid_t \<Rightarrow> ('e, 't) lmdb_storage" where
  "raise_max_instance m s iid =
     (case lmdb_storage_get_max_instance m s of
        None \<Rightarrow> s
      | Some max_inited_instance \<Rightarrow>
          if iid > max_inited_instance then snd (lmdb_storage_put_max_instance m s iid) else s)"

definition lmdb_storage_store_instance_info ::
    "('e, 't) mdb \<Rightarrow> byte list \<Rightarrow> ('e, 't) lmdb_storage \<Rightarrow> paxos_accepted \<Rightarrow> int \<times> ('e, 't) lmdb_storage" where
  "lmdb_storage_store_instance_info m junk s acc =
     (case txn_put m s (accd_iid acc) (paxos_accepted_to_buffer junk acc) of
        (result, s) \<Rightarrow> (result, raise_max_instance m s (accd_iid acc)))"

text \<open>
  The loop over the instances above the trim instance collects what it finds.  With the highest
  instance \<open>UINT32_MAX\<close> the loop does not end, the value \<open>None\<close>.
\<close>

definition lmdb_storage_get_all_untrimmed_instances_info ::
    "('e, 't) mdb \<Rightarrow> ('e, 't) lmdb_storage \<Rightarrow> paxos_accepted list option" where
  "lmdb_storage_get_all_untrimmed_instances_info m s =
     (let trim_instance = (case lmdb_storage_get_trim_instance m s of None \<Rightarrow> 0 | Some t \<Rightarrow> t) in
      case lmdb_storage_get_max_instance m s of
        None \<Rightarrow> None
      | Some max_inited_instance \<Rightarrow>
          if max_inited_instance = UINT32_MAX then None
          else Some (concat (map (\<lambda>i. case lmdb_storage_get_instance_info m s i of Found a \<Rightarrow> [a] | _ \<Rightarrow> [])
                       (u32_upto (trim_instance + 1) max_inited_instance))))"

text \<open>
  The deletion loop of \<open>lmdb_storage_trim\<close> over the keys that the cursor has not visited yet.
\<close>

fun trim_keys :: "('e, 't) mdb \<Rightarrow> 't \<Rightarrow> iid_t \<Rightarrow> u32 list \<Rightarrow> 't" where
  "trim_keys m t iid [] = t"
| "trim_keys m t iid (key # keys) =
     (if key \<noteq> 0 \<and> key \<le> iid then
        (case mdb_cursor_del m t key of (rc, t') \<Rightarrow> if rc \<noteq> 0 then t' else trim_keys m t' iid keys)
      else if key \<le> iid then trim_keys m t iid keys
      else t)"

definition lmdb_storage_trim ::
    "('e, 't) mdb \<Rightarrow> ('e, 't) lmdb_storage \<Rightarrow> iid_t \<Rightarrow> int \<times> ('e, 't) lmdb_storage" where
  "lmdb_storage_trim m s iid =
     (if iid = 0 then (0, s)
      else case ls_txn s of
        None \<Rightarrow> (0, s)
      | Some t \<Rightarrow>
          if mdb_cursor_open m t \<noteq> 0 then (0, s)
          else (0, s\<lparr>ls_txn := Some (trim_keys m t iid (mdb_cursor_keys m t))\<rparr>))"

definition initialise_standard_lmdb_function_pointers ::
    "('e, 't) mdb \<Rightarrow> byte list \<Rightarrow> ('e, 't) lmdb_storage stable_storage_api" where
  "initialise_standard_lmdb_function_pointers m junk =
     \<lparr>api_open = lmdb_storage_open m, api_tx_begin = lmdb_storage_tx_begin m,
      api_tx_commit = lmdb_storage_tx_commit m, api_tx_abort = lmdb_storage_tx_abort,
      api_get_instance_info = (\<lambda>s i. case lmdb_storage_get_instance_info m s i of Found a \<Rightarrow> Some a | _ \<Rightarrow> None),
      api_store_instance_info = lmdb_storage_store_instance_info m junk,
      api_get_trim_instance = lmdb_storage_get_trim_instance m,
      api_store_trim_instance = (\<lambda>s i. case lmdb_storage_put_trim_instance m s i of Some r \<Rightarrow> r | None \<Rightarrow> (EINVAL, s)),
      api_get_all_untrimmed_instances_info =
        (\<lambda>s. case lmdb_storage_get_all_untrimmed_instances_info m s of Some infos \<Rightarrow> infos | None \<Rightarrow> []),
      api_get_max_instance = lmdb_storage_get_max_instance m\<rparr>"

section \<open>Epoch ballot accepts\<close>

definition epoch_lmdb_storage_get_epoch_ballot_accept ::
    "('e, 't) mdb \<Rightarrow> ('e, 't) lmdb_storage \<Rightarrow> iid_t \<Rightarrow> epoch_ballot_accept lookup" where
  "epoch_lmdb_storage_get_epoch_ballot_accept m s i =
     (case txn_get m s i of
        (result, data) \<Rightarrow>
          if result \<noteq> 0 then Not_Found
          else case epoch_ballot_accept_from_buffer data of None \<Rightarrow> Undefined | Some out \<Rightarrow> Found out)"

definition epoch_lmdb_storage_store_epoch_ballot_accept ::
    "('e, 't) mdb \<Rightarrow> byte list \<Rightarrow> ('e, 't) lmdb_storage \<Rightarrow> epoch_ballot_accept
       \<Rightarrow> int \<times> ('e, 't) lmdb_storage" where
  "epoch_lmdb_storage_store_epoch_ballot_accept m junk s accept =
     (case txn_put m s (eba_instance accept) (epoch_ballot_accept_to_buffer junk accept) of
        (result, s) \<Rightarrow> (result, raise_max_instance m s (eba_instance accept)))"

definition epoch_lmdb_storage_get_all_untrimmed_instances ::
    "('e, 't) mdb \<Rightarrow> ('e, 't) lmdb_storage \<Rightarrow> epoch_ballot_accept list option" where
  "epoch_lmdb_storage_get_all_untrimmed_instances m s =
     (let trim_instance = (case lmdb_storage_get_trim_instance m s of None \<Rightarrow> 0 | Some t \<Rightarrow> t) in
      case lmdb_storage_get_max_instance m s of
        None \<Rightarrow> None
      | Some max_inited_instance \<Rightarrow>
          if max_inited_instance = UINT32_MAX then None
          else Some (concat (map (\<lambda>i. case epoch_lmdb_storage_get_epoch_ballot_accept m s i of
                                       Found a \<Rightarrow> [a] | _ \<Rightarrow> [])
                       (u32_upto (trim_instance + 1) max_inited_instance))))"

text \<open>
  \<open>struct epoch_stable_storage\<close>: the extended functions beside those of the standard storage, over
  the same handle.
\<close>

record 'h epoch_stable_storage =
  ess_get_epoch_ballot_accept :: "'h \<Rightarrow> iid_t \<Rightarrow> epoch_ballot_accept option"
  ess_store_epoch_ballot_accept :: "'h \<Rightarrow> epoch_ballot_accept \<Rightarrow> int \<times> 'h"
  ess_get_all_untrimmed_epoch_ballots :: "'h \<Rightarrow> epoch_ballot_accept list"
  ess_store_current_epoch :: "'h \<Rightarrow> u32 \<Rightarrow> int \<times> 'h"
  ess_get_current_epoch :: "'h \<Rightarrow> int \<times> u32 option"
  ess_standard_storage :: "'h stable_storage_api"

definition epoch_stable_storage_lmdb_init ::
    "('e, 't) mdb \<Rightarrow> byte list \<Rightarrow> ('e, 't) lmdb_storage epoch_stable_storage" where
  "epoch_stable_storage_lmdb_init m junk =
     \<lparr>ess_get_epoch_ballot_accept =
        (\<lambda>s i. case epoch_lmdb_storage_get_epoch_ballot_accept m s i of Found a \<Rightarrow> Some a | _ \<Rightarrow> None),
      ess_store_epoch_ballot_accept = epoch_lmdb_storage_store_epoch_ballot_accept m junk,
      ess_get_all_untrimmed_epoch_ballots =
        (\<lambda>s. case epoch_lmdb_storage_get_all_untrimmed_instances m s of Some accepts \<Rightarrow> accepts | None \<Rightarrow> []),
      ess_store_current_epoch = lmdb_store_current_epoch m,
      ess_get_current_epoch = lmdb_get_current_epoch m,
      ess_standard_storage = initialise_standard_lmdb_function_pointers m junk\<rparr>"

section \<open>What a committed transaction leaves\<close>

text \<open>
  The records and numbers that a set of key/value pairs stands for.  Instances from
  \<open>CURRENT_EPOCH_KEY\<close> on share their keys with the reserved numbers and cannot be stored.
\<close>

definition lmdb_storable :: "iid_t \<Rightarrow> paxos_value \<Rightarrow> bool" where
  "lmdb_storable i v \<longleftrightarrow> i < CURRENT_EPOCH_KEY \<and> length v < 4294967296"

definition record_of :: "(u32 \<rightharpoonup> byte list) \<Rightarrow> iid_t \<Rightarrow> paxos_accepted option" where
  "record_of db i =
     (if i < CURRENT_EPOCH_KEY
      then case db i of None \<Rightarrow> None | Some d \<Rightarrow> (case decode_accepted i d of Found a \<Rightarrow> Some a | _ \<Rightarrow> None)
      else None)"

definition epoch_accept_of :: "(u32 \<rightharpoonup> byte list) \<Rightarrow> iid_t \<Rightarrow> epoch_ballot_accept option" where
  "epoch_accept_of db i =
     (if i < CURRENT_EPOCH_KEY
      then case db i of None \<Rightarrow> None | Some d \<Rightarrow> epoch_ballot_accept_from_buffer d
      else None)"

definition number_of :: "(u32 \<rightharpoonup> byte list) \<Rightarrow> u32 \<Rightarrow> u32" where
  "number_of db key = (case db key of None \<Rightarrow> 0 | Some d \<Rightarrow> u32_at d 0)"

lemma CURRENT_EPOCH_KEY_numeral: "CURRENT_EPOCH_KEY = 4294967293"
  by (simp add: CURRENT_EPOCH_KEY_def)

lemmas reserved_keys = CURRENT_EPOCH_KEY_def MAX_INSTANCE_KEY_def TRIM_ID_KEY_def

lemma reserved_keys_not_below [simp]:
  "\<not> MAX_INSTANCE_KEY < CURRENT_EPOCH_KEY" "\<not> TRIM_ID_KEY < CURRENT_EPOCH_KEY"
  "MAX_INSTANCE_KEY \<noteq> TRIM_ID_KEY" "MAX_INSTANCE_KEY \<noteq> CURRENT_EPOCH_KEY" "TRIM_ID_KEY \<noteq> CURRENT_EPOCH_KEY"
  "TRIM_ID_KEY \<noteq> MAX_INSTANCE_KEY" "CURRENT_EPOCH_KEY \<noteq> MAX_INSTANCE_KEY" "CURRENT_EPOCH_KEY \<noteq> TRIM_ID_KEY"
  by (simp_all add: reserved_keys)

lemma below_reserved_neq [simp]:
  "i < CURRENT_EPOCH_KEY \<Longrightarrow> i \<noteq> MAX_INSTANCE_KEY" "i < CURRENT_EPOCH_KEY \<Longrightarrow> i \<noteq> TRIM_ID_KEY"
  "i < CURRENT_EPOCH_KEY \<Longrightarrow> CURRENT_EPOCH_KEY \<noteq> i" "i < CURRENT_EPOCH_KEY \<Longrightarrow> MAX_INSTANCE_KEY \<noteq> i"
  "i < CURRENT_EPOCH_KEY \<Longrightarrow> TRIM_ID_KEY \<noteq> i"
  using reserved_keys_not_below by fastforce+

lemma u32_at_to_bytes [simp]: "u32_at (u32_to_bytes w) 0 = w"
  using u32_at_words [of 0 "[w]" "[]"] by (simp add: words_to_bytes_def)

lemma record_of_put:
  "lmdb_storable (accd_iid acc) (accd_value acc) \<Longrightarrow> length junk = 12 \<Longrightarrow>
     record_of (db(accd_iid acc \<mapsto> paxos_accepted_to_buffer junk acc)) = (record_of db)(accd_iid acc \<mapsto> acc)"
  by (auto simp: record_of_def lmdb_storable_def decode_accepted_def store_simps)

lemma record_of_put_reserved [simp]:
  "\<not> k < CURRENT_EPOCH_KEY \<Longrightarrow> record_of (db(k := d)) = record_of db"
  "\<not> k < CURRENT_EPOCH_KEY \<Longrightarrow> epoch_accept_of (db(k := d)) = epoch_accept_of db"
  by (auto simp: record_of_def epoch_accept_of_def)

lemma epoch_accept_of_put:
  "lmdb_storable (eba_instance acc) (eba_value_to_accept acc) \<Longrightarrow> length junk = 12 \<Longrightarrow>
     epoch_accept_of (db(eba_instance acc \<mapsto> epoch_ballot_accept_to_buffer junk acc))
       = (epoch_accept_of db)(eba_instance acc \<mapsto> acc)"
  by (auto simp: epoch_accept_of_def lmdb_storable_def store_simps)

lemma number_of_put [simp]:
  "number_of (db(k \<mapsto> u32_to_bytes w)) k = w"
  "k' \<noteq> k \<Longrightarrow> number_of (db(k := d)) k' = number_of db k'"
  by (simp_all add: number_of_def)

lemma record_of_storable: "record_of db i = Some a \<Longrightarrow> lmdb_storable i (accd_value a)"
proof -
  assume *: "record_of db i = Some a"
  then obtain d where "paxos_accepted_from_buffer d = Some a" "i < CURRENT_EPOCH_KEY"
    by (auto simp: record_of_def decode_accepted_def split: if_splits option.splits)
  then have "length (accd_value a) \<le> unat (u32_at d 6)"
    by (auto simp: paxos_accepted_from_buffer_def Let_def split: if_splits)
  then show ?thesis using \<open>i < CURRENT_EPOCH_KEY\<close> unat_u32_lt [of "u32_at d 6"]
    by (simp add: lmdb_storable_def)
qed

text \<open>What the database holds after a store has been committed.\<close>

definition with_max :: "(u32 \<rightharpoonup> byte list) \<Rightarrow> iid_t \<Rightarrow> (u32 \<rightharpoonup> byte list)" where
  "with_max db i =
     (if number_of db MAX_INSTANCE_KEY < i then db(MAX_INSTANCE_KEY \<mapsto> u32_to_bytes i) else db)"

lemma with_max_other [simp]:
  "record_of (with_max db i) = record_of db" "epoch_accept_of (with_max db i) = epoch_accept_of db"
  "k \<noteq> MAX_INSTANCE_KEY \<Longrightarrow> number_of (with_max db i) k = number_of db k"
  "number_of (with_max db i) MAX_INSTANCE_KEY = max (number_of db MAX_INSTANCE_KEY) i"
  by (auto simp: with_max_def max_def)

context mdb_library
begin

lemma txn_get_view:
  assumes "ls_txn s = Some t" "\<not> broken t"
  obtains d where "txn_get m s k = (case view t k of Some d \<Rightarrow> (0, d) | None \<Rightarrow> (MDB_NOTFOUND, d))"
proof (cases "view t k")
  case None
  with assms get_missing [of t k] show thesis
    by (intro that [of "snd (txn_get m s k)"]) (simp add: txn_get_def prod_eq_iff)
next
  case (Some d)
  with assms get_found show thesis by (intro that [of "[]"]) (simp add: txn_get_def)
qed

lemma txn_number_reads:
  assumes "ls_txn s = Some t" "\<not> broken t"
  shows "lmdb_storage_get_max_instance m s = Some (number_of (view t) MAX_INSTANCE_KEY)"
    and "lmdb_storage_get_trim_instance m s = Some (number_of (view t) TRIM_ID_KEY)"
    and "lmdb_get_current_epoch m s = (1, Some (number_of (view t) CURRENT_EPOCH_KEY))"
proof -
  show "lmdb_storage_get_max_instance m s = Some (number_of (view t) MAX_INSTANCE_KEY)"
    by (rule txn_get_view [OF assms, of MAX_INSTANCE_KEY])
      (simp add: lmdb_storage_get_max_instance_def number_of_def MDB_NOTFOUND_def split: option.split)
  show "lmdb_storage_get_trim_instance m s = Some (number_of (view t) TRIM_ID_KEY)"
    by (rule txn_get_view [OF assms, of TRIM_ID_KEY])
      (simp add: lmdb_storage_get_trim_instance_def number_of_def MDB_NOTFOUND_def split: option.split)
  show "lmdb_get_current_epoch m s = (1, Some (number_of (view t) CURRENT_EPOCH_KEY))"
    by (rule txn_get_view [OF assms, of CURRENT_EPOCH_KEY])
      (simp add: lmdb_get_current_epoch_def number_of_def MDB_NOTFOUND_def split: option.split)
qed

lemma txn_record_reads:
  assumes "ls_txn s = Some t" "\<not> broken t" "i < CURRENT_EPOCH_KEY"
  shows "(case lmdb_storage_get_instance_info m s i of Found a \<Rightarrow> Some a | _ \<Rightarrow> None) = record_of (view t) i"
    and "(case epoch_lmdb_storage_get_epoch_ballot_accept m s i of Found a \<Rightarrow> Some a | _ \<Rightarrow> None)
      = epoch_accept_of (view t) i"
proof -
  obtain d where d: "txn_get m s i = (case view t i of Some d \<Rightarrow> (0, d) | None \<Rightarrow> (MDB_NOTFOUND, d))"
    using assms(1,2) by (rule txn_get_view)
  show "(case lmdb_storage_get_instance_info m s i of Found a \<Rightarrow> Some a | _ \<Rightarrow> None) = record_of (view t) i"
    using assms(3) by (simp add: lmdb_storage_get_instance_info_def record_of_def d MDB_NOTFOUND_def
        split: option.split)
  show "(case epoch_lmdb_storage_get_epoch_ballot_accept m s i of Found a \<Rightarrow> Some a | _ \<Rightarrow> None)
      = epoch_accept_of (view t) i"
    using assms(3) by (simp add: epoch_lmdb_storage_get_epoch_ballot_accept_def epoch_accept_of_def d
        MDB_NOTFOUND_def split: option.split)
qed

lemma txn_put_view:
  assumes "ls_txn s = Some t" "txn_put m s k d = (rc, s')"
  obtains t' where "s' = s\<lparr>ls_txn := Some t'\<rparr>" "broken t' \<longleftrightarrow> broken t \<or> rc \<noteq> 0"
    and "\<not> broken t' \<longrightarrow> view t' = (view t)(k \<mapsto> d)"
proof -
  obtain t' where t': "mdb_put m t k d = (rc, t')" "s' = s\<lparr>ls_txn := Some t'\<rparr>"
    using assms by (auto simp: txn_put_def split: prod.splits)
  show thesis
    using that [OF t'(2) put_broken [OF t'(1)]] put_broken [OF t'(1)] put_ok [of t k d t'] t'(1) by auto
qed

lemma raise_max_instance_view:
  assumes "ls_txn s = Some t" "\<not> broken t"
  obtains t' where "raise_max_instance m s i = s\<lparr>ls_txn := Some t'\<rparr>"
    and "\<not> broken t' \<longrightarrow> view t' = with_max (view t) i"
proof (cases "number_of (view t) MAX_INSTANCE_KEY < i")
  case True
  obtain rc s' where put: "txn_put m s MAX_INSTANCE_KEY (u32_to_bytes i) = (rc, s')" by fastforce
  from assms(1) this obtain t' where "s' = s\<lparr>ls_txn := Some t'\<rparr>"
      "\<not> broken t' \<longrightarrow> view t' = (view t)(MAX_INSTANCE_KEY \<mapsto> u32_to_bytes i)"
    by (rule txn_put_view) blast
  with True put show thesis
    by (intro that [of t'])
      (simp_all add: raise_max_instance_def txn_number_reads [OF assms] lmdb_storage_put_max_instance_def
        with_max_def)
next
  case False
  have "raise_max_instance m s i = s\<lparr>ls_txn := Some t\<rparr>"
    using False assms(1) by (simp add: raise_max_instance_def txn_number_reads [OF assms])
  with False show thesis by (intro that [of t]) (simp_all add: with_max_def)
qed

lemma begin_view:
  assumes "lmdb_storage_tx_begin m s = (0, s1)"
  obtains t where "s1 = s\<lparr>ls_txn := Some t\<rparr>" "view t = committed (ls_env s)" "\<not> broken t"
  using assms txn_begin [of "ls_env s"] by (auto simp: lmdb_storage_tx_begin_def split: prod.splits if_splits)

lemma commit_view:
  assumes "lmdb_storage_tx_commit m s = (0, s')"
  obtains t where "ls_txn s = Some t" "\<not> broken t" "committed (ls_env s') = view t" "ls_txn s' = None"
  using assms commit_ok [of "ls_env s"]
  by (auto simp: lmdb_storage_tx_commit_def EINVAL_def split: prod.splits option.splits)

lemma raise_max_instance_broken:
  assumes "ls_txn s = Some t" "broken t"
  shows "\<exists>t'. raise_max_instance m s i = s\<lparr>ls_txn := Some t'\<rparr> \<and> broken t'"
proof -
  have same: "s = s\<lparr>ls_txn := Some t\<rparr>" using assms(1) by simp
  obtain rc t' where t': "mdb_put m t MAX_INSTANCE_KEY (u32_to_bytes i) = (rc, t')" by fastforce
  then have "broken t'" using put_broken assms(2) by blast
  moreover have "raise_max_instance m s i = s \<or> raise_max_instance m s i = s\<lparr>ls_txn := Some t'\<rparr>"
    using assms t'
    by (auto simp: raise_max_instance_def lmdb_storage_put_max_instance_def txn_put_def split: option.split)
  ultimately show ?thesis using same assms(2) by metis
qed

text \<open>
  A store inside of a transaction.  It may fail, but then the transaction cannot be committed, so
  that the result code of the store need not be looked at.
\<close>

lemma put_and_raise_view:
  assumes "ls_txn s = Some t" "txn_put m s k d = (rc, s1)"
  obtains t' where "raise_max_instance m s1 i = s\<lparr>ls_txn := Some t'\<rparr>"
    and "\<not> broken t' \<longrightarrow> \<not> broken t \<and> rc = 0 \<and> view t' = with_max ((view t)(k \<mapsto> d)) i"
proof -
  from assms obtain t1 where t1: "s1 = s\<lparr>ls_txn := Some t1\<rparr>" "broken t1 \<longleftrightarrow> broken t \<or> rc \<noteq> 0"
      "\<not> broken t1 \<longrightarrow> view t1 = (view t)(k \<mapsto> d)"
    by (rule txn_put_view) blast
  then have txn: "ls_txn s1 = Some t1" by simp
  show thesis
  proof (cases "broken t1")
    case True
    then show thesis using raise_max_instance_broken [OF txn, of i] that by (auto simp: t1(1))
  next
    case False
    with txn obtain t' where "raise_max_instance m s1 i = s1\<lparr>ls_txn := Some t'\<rparr>"
        "\<not> broken t' \<longrightarrow> view t' = with_max (view t1) i"
      by (rule raise_max_instance_view)
    with False t1 that [of t'] show thesis by simp
  qed
qed

lemma put_commit:
  assumes "lmdb_storage_tx_begin m s = (0, s1)" "txn_put m s1 k d = (rc, s2)"
    and "lmdb_storage_tx_commit m (raise_max_instance m s2 i) = (0, s3)"
  shows "committed (ls_env s3) = with_max ((committed (ls_env s))(k \<mapsto> d)) i"
proof -
  from assms(1) obtain t where t: "s1 = s\<lparr>ls_txn := Some t\<rparr>" "view t = committed (ls_env s)" "\<not> broken t"
    by (rule begin_view)
  then have "ls_txn s1 = Some t" by simp
  from this assms(2) obtain t' where t': "raise_max_instance m s2 i = s1\<lparr>ls_txn := Some t'\<rparr>"
      "\<not> broken t' \<longrightarrow> \<not> broken t \<and> rc = 0 \<and> view t' = with_max ((view t)(k \<mapsto> d)) i"
    by (rule put_and_raise_view)
  from assms(3) show ?thesis
    by (rule commit_view) (use t t' in auto)
qed

lemma put_number_commit:
  assumes "lmdb_storage_tx_begin m s = (0, s1)" "txn_put m s1 k d = (rc, s2)" "lmdb_storage_tx_commit m s2 = (0, s3)"
  shows "committed (ls_env s3) = (committed (ls_env s))(k \<mapsto> d)"
proof -
  from assms(1) obtain t where t: "s1 = s\<lparr>ls_txn := Some t\<rparr>" "view t = committed (ls_env s)" "\<not> broken t"
    by (rule begin_view)
  then have "ls_txn s1 = Some t" by simp
  from this assms(2) obtain t' where t': "s2 = s1\<lparr>ls_txn := Some t'\<rparr>"
      "\<not> broken t' \<longrightarrow> view t' = (view t)(k \<mapsto> d)"
    by (rule txn_put_view) blast
  from assms(3) show ?thesis
    by (rule commit_view) (use t t' in auto)
qed

lemma put_number_and_put_commit:
  assumes "lmdb_storage_tx_begin m s = (0, s1)" "txn_put m s1 k d = (rc, s2)" "txn_put m s2 k' d' = (rc', s3)"
    and "lmdb_storage_tx_commit m (raise_max_instance m s3 i) = (0, s4)"
  shows "committed (ls_env s4) = with_max ((committed (ls_env s))(k \<mapsto> d, k' \<mapsto> d')) i"
proof -
  from assms(1) obtain t where t: "s1 = s\<lparr>ls_txn := Some t\<rparr>" "view t = committed (ls_env s)" "\<not> broken t"
    by (rule begin_view)
  then have "ls_txn s1 = Some t" by simp
  from this assms(2) obtain t1 where t1: "s2 = s1\<lparr>ls_txn := Some t1\<rparr>"
      "\<not> broken t1 \<longrightarrow> view t1 = (view t)(k \<mapsto> d)"
    by (rule txn_put_view) blast
  then have "ls_txn s2 = Some t1" by simp
  from this assms(3) obtain t' where t': "raise_max_instance m s3 i = s2\<lparr>ls_txn := Some t'\<rparr>"
      "\<not> broken t' \<longrightarrow> \<not> broken t1 \<and> rc' = 0 \<and> view t' = with_max ((view t1)(k' \<mapsto> d')) i"
    by (rule put_and_raise_view)
  from assms(4) show ?thesis
    by (rule commit_view) (use t t1 t' in auto)
qed

end

section \<open>The storage meets its contracts\<close>

text \<open>
  The contract of \<open>struct epoch_stable_storage\<close> on which the epoch acceptor relies: once a
  transaction has been committed, the epoch and the accept stored in it are durable.  The acceptor
  does not look at the results of the stores, hence neither do the laws.
\<close>

locale epoch_stable_store =
  fixes es :: "'h epoch_stable_storage"
    and storable :: "iid_t \<Rightarrow> paxos_value \<Rightarrow> bool"
    and durable_epoch :: "'h \<Rightarrow> u32"
    and durable_accepts :: "'h \<Rightarrow> (iid_t \<rightharpoonup> epoch_ballot_accept)"
  assumes commit_epoch: "api_tx_begin (ess_standard_storage es) h = (0, h1) \<Longrightarrow>
        ess_store_current_epoch es h1 epoch = (rc, h2) \<Longrightarrow> api_tx_commit (ess_standard_storage es) h2 = (0, h3) \<Longrightarrow>
        durable_epoch h3 = epoch \<and> durable_accepts h3 = durable_accepts h"
    and commit_accept: "api_tx_begin (ess_standard_storage es) h = (0, h1) \<Longrightarrow>
        ess_store_epoch_ballot_accept es h1 acc = (rc, h2) \<Longrightarrow>
        api_tx_commit (ess_standard_storage es) h2 = (0, h3) \<Longrightarrow>
        storable (eba_instance acc) (eba_value_to_accept acc) \<Longrightarrow>
        durable_epoch h3 = durable_epoch h \<and> durable_accepts h3 = (durable_accepts h)(eba_instance acc \<mapsto> acc)"
    and commit_epoch_and_accept: "api_tx_begin (ess_standard_storage es) h = (0, h1) \<Longrightarrow>
        ess_store_current_epoch es h1 epoch = (rc, h2) \<Longrightarrow> ess_store_epoch_ballot_accept es h2 acc = (rc', h3) \<Longrightarrow>
        api_tx_commit (ess_standard_storage es) h3 = (0, h4) \<Longrightarrow>
        storable (eba_instance acc) (eba_value_to_accept acc) \<Longrightarrow>
        durable_epoch h4 = epoch \<and> durable_accepts h4 = (durable_accepts h)(eba_instance acc \<mapsto> acc)"
    and read_epoch_in_tx: "api_tx_begin (ess_standard_storage es) h = (0, h1) \<Longrightarrow>
        ess_get_current_epoch es h1 = (1, Some (durable_epoch h))"
    and commit_nothing: "api_tx_begin (ess_standard_storage es) h = (0, h1) \<Longrightarrow>
        api_tx_commit (ess_standard_storage es) h1 = (0, h2) \<Longrightarrow>
        durable_epoch h2 = durable_epoch h \<and> durable_accepts h2 = durable_accepts h"
    and open_keeps: "api_open (ess_standard_storage es) h = (0, h1) \<Longrightarrow>
        durable_epoch h1 = durable_epoch h \<and> durable_accepts h1 = durable_accepts h"
    and read_accept_in_tx: "api_tx_begin (ess_standard_storage es) h = (0, h1) \<Longrightarrow> storable i v \<Longrightarrow>
        ess_get_epoch_ballot_accept es h1 i = durable_accepts h i"

locale lmdb_store = mdb_library m committed view broken
  for m :: "('e, 't) mdb" and committed :: "'e \<Rightarrow> (u32 \<rightharpoonup> byte list)"
    and view :: "'t \<Rightarrow> (u32 \<rightharpoonup> byte list)" and broken :: "'t \<Rightarrow> bool" +
  fixes junk :: "byte list"
  assumes junk: "length junk = 12"

sublocale lmdb_store \<subseteq> lmdb: stable_store "initialise_standard_lmdb_function_pointers m junk" lmdb_storable
  "\<lambda>s. record_of (committed (ls_env s))"
proof unfold_locales
  fix h h1 info h2 h3
  assume "api_tx_begin (initialise_standard_lmdb_function_pointers m junk) h = (0, h1)"
    "api_store_instance_info (initialise_standard_lmdb_function_pointers m junk) h1 info = (0, h2)"
    "api_tx_commit (initialise_standard_lmdb_function_pointers m junk) h2 = (0, h3)"
    and storable: "lmdb_storable (accd_iid info) (accd_value info)"
  then obtain s where "lmdb_storage_tx_begin m h = (0, h1)"
      "txn_put m h1 (accd_iid info) (paxos_accepted_to_buffer junk info) = (0, s)"
      "lmdb_storage_tx_commit m (raise_max_instance m s (accd_iid info)) = (0, h3)"
    by (auto simp: initialise_standard_lmdb_function_pointers_def lmdb_storage_store_instance_info_def
        split: prod.splits)
  from put_commit [OF this] show "record_of (committed (ls_env h3)) = (record_of (committed (ls_env h)))(accd_iid info \<mapsto> info)"
    by (simp add: record_of_put [OF storable junk])
next
  fix h :: "('e, 't) lmdb_storage" and rc h1
  assume "api_tx_begin (initialise_standard_lmdb_function_pointers m junk) h = (rc, h1)" "rc \<noteq> 0"
  then show "record_of (committed (ls_env h1)) = record_of (committed (ls_env h))"
    by (auto simp: initialise_standard_lmdb_function_pointers_def lmdb_storage_tx_begin_def split: prod.splits if_splits)
next
  fix h h1 info rc h2
  assume "api_tx_begin (initialise_standard_lmdb_function_pointers m junk) h = (0, h1)"
    "api_store_instance_info (initialise_standard_lmdb_function_pointers m junk) h1 info = (rc, h2)"
  then obtain s rc' where "lmdb_storage_tx_begin m h = (0, h1)"
      and put: "txn_put m h1 (accd_iid info) (paxos_accepted_to_buffer junk info) = (rc', s)"
      and h2: "h2 = raise_max_instance m s (accd_iid info)"
    by (auto simp: initialise_standard_lmdb_function_pointers_def lmdb_storage_store_instance_info_def
        split: prod.splits)
  then obtain t where t: "h1 = h\<lparr>ls_txn := Some t\<rparr>" using begin_view by metis
  then have "ls_txn h1 = Some t" by simp
  from this put obtain t' where "h2 = h1\<lparr>ls_txn := Some t'\<rparr>"
    by (rule put_and_raise_view) (auto simp: h2)
  then show "record_of (committed (ls_env (api_tx_abort (initialise_standard_lmdb_function_pointers m junk) h2)))
      = record_of (committed (ls_env h))"
    by (simp add: initialise_standard_lmdb_function_pointers_def lmdb_storage_tx_abort_def t)
next
  fix h h1 i v
  assume "api_tx_begin (initialise_standard_lmdb_function_pointers m junk) h = (0, h1)" "lmdb_storable i v"
  then have "lmdb_storage_tx_begin m h = (0, h1)" and i: "i < CURRENT_EPOCH_KEY"
    by (simp_all add: initialise_standard_lmdb_function_pointers_def lmdb_storable_def)
  from this(1) obtain t where t: "h1 = h\<lparr>ls_txn := Some t\<rparr>" "view t = committed (ls_env h)" "\<not> broken t"
    by (rule begin_view)
  then show "api_get_instance_info (initialise_standard_lmdb_function_pointers m junk) h1 i
      = record_of (committed (ls_env h)) i"
    using txn_record_reads(1) [of h1 t, OF _ t(3) i] by (simp add: initialise_standard_lmdb_function_pointers_def)
qed (rule record_of_storable)

lemmas epoch_lmdb_init_defs = epoch_stable_storage_lmdb_init_def initialise_standard_lmdb_function_pointers_def
  lmdb_store_current_epoch_def epoch_lmdb_storage_store_epoch_ballot_accept_def

sublocale lmdb_store \<subseteq> epoch_lmdb: epoch_stable_store "epoch_stable_storage_lmdb_init m junk" lmdb_storable
  "\<lambda>s. number_of (committed (ls_env s)) CURRENT_EPOCH_KEY" "\<lambda>s. epoch_accept_of (committed (ls_env s))"
proof unfold_locales
  fix h h1 epoch rc h2 h3
  assume "api_tx_begin (ess_standard_storage (epoch_stable_storage_lmdb_init m junk)) h = (0, h1)"
    "ess_store_current_epoch (epoch_stable_storage_lmdb_init m junk) h1 epoch = (rc, h2)"
    "api_tx_commit (ess_standard_storage (epoch_stable_storage_lmdb_init m junk)) h2 = (0, h3)"
  then obtain rc' where "lmdb_storage_tx_begin m h = (0, h1)"
      "txn_put m h1 CURRENT_EPOCH_KEY (u32_to_bytes epoch) = (rc', h2)" "lmdb_storage_tx_commit m h2 = (0, h3)"
    by (auto simp: epoch_lmdb_init_defs prod_eq_iff)
  from put_number_commit [OF this]
  show "number_of (committed (ls_env h3)) CURRENT_EPOCH_KEY = epoch
      \<and> epoch_accept_of (committed (ls_env h3)) = epoch_accept_of (committed (ls_env h))" by simp
next
  fix h h1 acc rc h2 h3
  assume "api_tx_begin (ess_standard_storage (epoch_stable_storage_lmdb_init m junk)) h = (0, h1)"
    "ess_store_epoch_ballot_accept (epoch_stable_storage_lmdb_init m junk) h1 acc = (rc, h2)"
    "api_tx_commit (ess_standard_storage (epoch_stable_storage_lmdb_init m junk)) h2 = (0, h3)"
    and storable: "lmdb_storable (eba_instance acc) (eba_value_to_accept acc)"
  then obtain s where "lmdb_storage_tx_begin m h = (0, h1)"
      "txn_put m h1 (eba_instance acc) (epoch_ballot_accept_to_buffer junk acc) = (rc, s)"
      "lmdb_storage_tx_commit m (raise_max_instance m s (eba_instance acc)) = (0, h3)"
    by (auto simp: epoch_lmdb_init_defs split: prod.splits)
  from put_commit [OF this] storable
  show "number_of (committed (ls_env h3)) CURRENT_EPOCH_KEY = number_of (committed (ls_env h)) CURRENT_EPOCH_KEY
      \<and> epoch_accept_of (committed (ls_env h3)) = (epoch_accept_of (committed (ls_env h)))(eba_instance acc \<mapsto> acc)"
    by (simp add: epoch_accept_of_put [OF storable junk]) (simp add: lmdb_storable_def)
next
  fix h h1 epoch rc h2 acc rc' h3 h4
  assume "api_tx_begin (ess_standard_storage (epoch_stable_storage_lmdb_init m junk)) h = (0, h1)"
    "ess_store_current_epoch (epoch_stable_storage_lmdb_init m junk) h1 epoch = (rc, h2)"
    "ess_store_epoch_ballot_accept (epoch_stable_storage_lmdb_init m junk) h2 acc = (rc', h3)"
    "api_tx_commit (ess_standard_storage (epoch_stable_storage_lmdb_init m junk)) h3 = (0, h4)"
    and storable: "lmdb_storable (eba_instance acc) (eba_value_to_accept acc)"
  then obtain rc'' s where "lmdb_storage_tx_begin m h = (0, h1)"
      "txn_put m h1 CURRENT_EPOCH_KEY (u32_to_bytes epoch) = (rc'', h2)"
      "txn_put m h2 (eba_instance acc) (epoch_ballot_accept_to_buffer junk acc) = (rc', s)"
      "lmdb_storage_tx_commit m (raise_max_instance m s (eba_instance acc)) = (0, h4)"
    by (auto simp: epoch_lmdb_init_defs prod_eq_iff split: prod.splits)
  from put_number_and_put_commit [OF this] storable
  show "number_of (committed (ls_env h4)) CURRENT_EPOCH_KEY = epoch
      \<and> epoch_accept_of (committed (ls_env h4)) = (epoch_accept_of (committed (ls_env h)))(eba_instance acc \<mapsto> acc)"
    by (simp add: epoch_accept_of_put [OF storable junk]) (simp add: lmdb_storable_def)
next
  fix h h1
  assume "api_tx_begin (ess_standard_storage (epoch_stable_storage_lmdb_init m junk)) h = (0, h1)"
  then have "lmdb_storage_tx_begin m h = (0, h1)" by (simp add: epoch_lmdb_init_defs)
  then obtain t where t: "h1 = h\<lparr>ls_txn := Some t\<rparr>" "view t = committed (ls_env h)" "\<not> broken t"
    by (rule begin_view)
  then show "ess_get_current_epoch (epoch_stable_storage_lmdb_init m junk) h1
      = (1, Some (number_of (committed (ls_env h)) CURRENT_EPOCH_KEY))"
    using txn_number_reads(3) [of h1 t, OF _ t(3)] by (simp add: epoch_lmdb_init_defs)
next
  fix h h1 h2
  assume "api_tx_begin (ess_standard_storage (epoch_stable_storage_lmdb_init m junk)) h = (0, h1)"
    "api_tx_commit (ess_standard_storage (epoch_stable_storage_lmdb_init m junk)) h1 = (0, h2)"
  then have began: "lmdb_storage_tx_begin m h = (0, h1)" and commit: "lmdb_storage_tx_commit m h1 = (0, h2)"
    by (simp_all add: epoch_lmdb_init_defs)
  from began obtain t where "h1 = h\<lparr>ls_txn := Some t\<rparr>" "view t = committed (ls_env h)" by (rule begin_view)
  with commit have "committed (ls_env h2) = committed (ls_env h)" by (auto elim: commit_view)
  then show "number_of (committed (ls_env h2)) CURRENT_EPOCH_KEY = number_of (committed (ls_env h)) CURRENT_EPOCH_KEY
      \<and> epoch_accept_of (committed (ls_env h2)) = epoch_accept_of (committed (ls_env h))" by simp
next
  fix h h1 :: "('e, 't) lmdb_storage"
  assume "api_open (ess_standard_storage (epoch_stable_storage_lmdb_init m junk)) h = (0, h1)"
  then have "committed (ls_env h1) = committed (ls_env h)"
    using env_open [of "ls_env h"] by (auto simp: epoch_lmdb_init_defs lmdb_storage_open_def split: prod.splits)
  then show "number_of (committed (ls_env h1)) CURRENT_EPOCH_KEY = number_of (committed (ls_env h)) CURRENT_EPOCH_KEY
      \<and> epoch_accept_of (committed (ls_env h1)) = epoch_accept_of (committed (ls_env h))" by simp
next
  fix h h1 i v
  assume "api_tx_begin (ess_standard_storage (epoch_stable_storage_lmdb_init m junk)) h = (0, h1)"
    and "lmdb_storable i v"
  then have "lmdb_storage_tx_begin m h = (0, h1)" and i: "i < CURRENT_EPOCH_KEY"
    by (simp_all add: epoch_lmdb_init_defs lmdb_storable_def)
  from this(1) obtain t where t: "h1 = h\<lparr>ls_txn := Some t\<rparr>" "view t = committed (ls_env h)" "\<not> broken t"
    by (rule begin_view)
  then show "ess_get_epoch_ballot_accept (epoch_stable_storage_lmdb_init m junk) h1 i
      = epoch_accept_of (committed (ls_env h)) i"
    using txn_record_reads(2) [of h1 t, OF _ t(3) i] by (simp add: epoch_lmdb_init_defs)
qed

section \<open>A library that keeps its contract\<close>

text \<open>
  LMDB with its data in association lists, on which the definitions run.  \<open>full_disk\<close> is the same
  with a disk that is full: no transaction can be committed.
\<close>

type_synonym alist_db = "(u32 \<times> byte list) list"

definition alist_mdb :: "(alist_db, alist_db) mdb" where
  "alist_mdb =
     \<lparr>mdb_env_open = (\<lambda>e. (0, e)), mdb_txn_begin = (\<lambda>e. (0, e)), mdb_txn_commit = (\<lambda>e t. (0, t)),
      mdb_get = (\<lambda>t k. case map_of t k of None \<Rightarrow> (MDB_NOTFOUND, []) | Some d \<Rightarrow> (0, d)),
      mdb_put = (\<lambda>t k d. (0, AList.update k d t)), mdb_cursor_open = (\<lambda>t. 0),
      mdb_cursor_keys = (\<lambda>t. sort (remdups (map fst t))),
      mdb_cursor_del = (\<lambda>t k. (0, AList.delete k t))\<rparr>"

definition full_disk :: "(alist_db, alist_db) mdb" where
  "full_disk = alist_mdb\<lparr>mdb_txn_commit := (\<lambda>e t. (28, e))\<rparr>"

interpretation alist: lmdb_store alist_mdb map_of map_of "\<lambda>_. False" "replicate 12 0"
  by unfold_locales
    (auto simp: alist_mdb_def MDB_NOTFOUND_def update_conv' delete_conv' dom_map_of_conv_image_fst image_set
      simp del: set_map)

interpretation full: lmdb_store full_disk map_of map_of "\<lambda>_. False" "replicate 12 0"
  by unfold_locales
    (auto simp: full_disk_def alist_mdb_def MDB_NOTFOUND_def update_conv' delete_conv' dom_map_of_conv_image_fst)

lemma never_fails_alist: "never_fails (initialise_standard_lmdb_function_pointers alist_mdb junk)"
  by (auto simp: never_fails_def initialise_standard_lmdb_function_pointers_def lmdb_storage_tx_begin_def
      lmdb_storage_store_instance_info_def lmdb_storage_tx_commit_def txn_put_def alist_mdb_def
      raise_max_instance_def lmdb_storage_put_max_instance_def split: option.split)

section \<open>Recovery\<close>

text \<open>
  A database in which every instance holds a record of this instance, none above the number kept as
  the highest instance.
\<close>

definition lmdb_db_wf :: "(u32 \<rightharpoonup> byte list) \<Rightarrow> bool" where
  "lmdb_db_wf db \<longleftrightarrow> number_of db MAX_INSTANCE_KEY < CURRENT_EPOCH_KEY
     \<and> (\<forall>i d. i < CURRENT_EPOCH_KEY \<longrightarrow> db i = Some d \<longrightarrow>
          i \<le> number_of db MAX_INSTANCE_KEY \<and> (\<exists>a. decode_accepted i d = Found a))"

lemma lmdb_db_wf_empty [simp]: "lmdb_db_wf Map.empty"
  by (simp add: lmdb_db_wf_def number_of_def CURRENT_EPOCH_KEY_numeral)

lemma lmdb_db_wf_store:
  assumes "lmdb_db_wf db" "lmdb_storable (accd_iid acc) (accd_value acc)" "length junk = 12"
  shows "lmdb_db_wf (with_max (db(accd_iid acc \<mapsto> paxos_accepted_to_buffer junk acc)) (accd_iid acc))"
proof -
  have dec: "decode_accepted (accd_iid acc) (paxos_accepted_to_buffer junk acc) = Found acc"
    using assms(2,3) by (simp add: decode_accepted_def lmdb_storable_def store_simps)
  have i: "accd_iid acc < CURRENT_EPOCH_KEY" using assms(2) by (simp add: lmdb_storable_def)
  let ?db = "db(accd_iid acc \<mapsto> paxos_accepted_to_buffer junk acc)"
  have lookup: "with_max ?db (accd_iid acc) j = ?db j" if "j < CURRENT_EPOCH_KEY" for j
    using that by (simp add: with_max_def)
  have wf: "j \<le> number_of db MAX_INSTANCE_KEY" "\<exists>a. decode_accepted j d = Found a"
    if "j < CURRENT_EPOCH_KEY" "db j = Some d" for j d
    using assms(1) that by (auto simp: lmdb_db_wf_def)
  have "number_of db MAX_INSTANCE_KEY < CURRENT_EPOCH_KEY" using assms(1) by (simp add: lmdb_db_wf_def)
  with i dec wf show ?thesis
    by (auto simp: lmdb_db_wf_def lookup le_max_iff_disj)
qed

context mdb_library
begin

lemma all_untrimmed_in_tx:
  assumes "lmdb_db_wf (view t)" "ls_txn s = Some t" "\<not> broken t" "number_of (view t) TRIM_ID_KEY \<noteq> UINT32_MAX"
  shows "\<exists>infos. lmdb_storage_get_all_untrimmed_instances_info m s = Some infos
    \<and> set infos = {a. \<exists>i. number_of (view t) TRIM_ID_KEY < i \<and> record_of (view t) i = Some a}"
proof -
  let ?max = "number_of (view t) MAX_INSTANCE_KEY" and ?trim = "number_of (view t) TRIM_ID_KEY"
  define get where "get = (\<lambda>i. case lmdb_storage_get_instance_info m s i of Found a \<Rightarrow> [a] | _ \<Rightarrow> [])"
  have max: "?max < CURRENT_EPOCH_KEY" using assms(1) by (simp add: lmdb_db_wf_def)
  then have "?max \<noteq> UINT32_MAX" by (auto simp: CURRENT_EPOCH_KEY_numeral)
  then have "lmdb_storage_get_all_untrimmed_instances_info m s = Some (concat (map get (u32_upto (?trim + 1) ?max)))"
    by (simp add: lmdb_storage_get_all_untrimmed_instances_info_def txn_number_reads [OF assms(2,3)] get_def)
  moreover have "a \<in> set (concat (map get (u32_upto (?trim + 1) ?max))) \<longleftrightarrow>
      (\<exists>i. ?trim < i \<and> record_of (view t) i = Some a)" for a
  proof -
    have range: "i \<in> {?trim + 1..?max} \<longleftrightarrow> ?trim < i \<and> i \<le> ?max" for i
      using u32_le_iff_lt_Suc [OF assms(4), of i] by (auto simp: not_le [symmetric])
    have mem: "a \<in> set (get i) \<longleftrightarrow> record_of (view t) i = Some a" if "i \<le> ?max" for i
      using txn_record_reads(1) [OF assms(2,3), of i] le_less_trans [OF that max] by (auto simp: get_def split: lookup.splits)
    have bound: "i \<le> ?max" if "record_of (view t) i = Some a" for i
      using that assms(1) by (auto simp: record_of_def lmdb_db_wf_def split: if_splits option.splits)
    have "a \<in> set (concat (map get (u32_upto (?trim + 1) ?max))) \<longleftrightarrow>
        (\<exists>i. i \<in> {?trim + 1..?max} \<and> a \<in> set (get i))" by auto
    also have "\<dots> \<longleftrightarrow> (\<exists>i. ?trim < i \<and> record_of (view t) i = Some a)" using range mem bound by metis
    finally show ?thesis .
  qed
  ultimately show ?thesis by blast
qed

end

text \<open>
  C14: Recovery from the database is complete: from a well-formed database, after a transaction that
  stored a record has been committed, the database is well-formed again, and the next transaction
  that lists the instances above the trim instance returns exactly the records that were there
  before, with the new one in its place.
\<close>

theorem lmdb_store_then_recover:
  assumes "lmdb_store m committed view broken junk"
    and "lmdb_db_wf (committed (ls_env s))" "lmdb_storable (accd_iid info) (accd_value info)"
    and "lmdb_storage_tx_begin m s = (0, s1)" "lmdb_storage_store_instance_info m junk s1 info = (0, s2)"
    and "lmdb_storage_tx_commit m s2 = (0, s3)" "lmdb_storage_tx_begin m s3 = (0, s4)"
    and "number_of (committed (ls_env s)) TRIM_ID_KEY \<noteq> UINT32_MAX"
  shows "lmdb_db_wf (committed (ls_env s3))
    \<and> (\<exists>infos. lmdb_storage_get_all_untrimmed_instances_info m s4 = Some infos
        \<and> set infos = {a. \<exists>i. number_of (committed (ls_env s)) TRIM_ID_KEY < i
              \<and> ((record_of (committed (ls_env s)))(accd_iid info \<mapsto> info)) i = Some a})"
proof -
  have lib: "mdb_library m committed view broken" and junk: "length junk = 12"
    using assms(1) by (auto simp: lmdb_store_def lmdb_store_axioms_def)
  let ?db = "(committed (ls_env s))(accd_iid info \<mapsto> paxos_accepted_to_buffer junk info)"
  obtain s' where "txn_put m s1 (accd_iid info) (paxos_accepted_to_buffer junk info) = (0, s')"
      "s2 = raise_max_instance m s' (accd_iid info)"
    using assms(5) by (auto simp: lmdb_storage_store_instance_info_def split: prod.splits)
  then have db: "committed (ls_env s3) = with_max ?db (accd_iid info)"
    using mdb_library.put_commit [OF lib assms(4)] assms(6) by simp
  have wf: "lmdb_db_wf (committed (ls_env s3))" unfolding db by (rule lmdb_db_wf_store [OF assms(2,3) junk])
  obtain t where t: "s4 = s3\<lparr>ls_txn := Some t\<rparr>" "view t = committed (ls_env s3)" "\<not> broken t"
    using assms(7) by (rule mdb_library.begin_view [OF lib])
  have "accd_iid info < CURRENT_EPOCH_KEY" using assms(3) by (simp add: lmdb_storable_def)
  then have trim: "number_of (view t) TRIM_ID_KEY = number_of (committed (ls_env s)) TRIM_ID_KEY"
    by (simp add: t(2) db)
  have "record_of (view t) = (record_of (committed (ls_env s)))(accd_iid info \<mapsto> info)"
    by (simp add: t(2) db record_of_put [OF assms(3) junk])
  with mdb_library.all_untrimmed_in_tx [OF lib, of t s4] wf t assms(8) trim show ?thesis by simp
qed

theorem lmdb_store_then_recover_witness:
  "let junk = replicate 12 0;
       info = \<lparr>accd_aid = 1, accd_iid = 3, accd_promise_ballot = Ballot 5 2, accd_value_ballot = Ballot 4 1,
                accd_value = [1, 2]\<rparr>;
       s1 = snd (lmdb_storage_tx_begin alist_mdb (lmdb_storage_new_standard [] 1));
       s2 = snd (lmdb_storage_store_instance_info alist_mdb junk s1 info);
       s3 = snd (lmdb_storage_tx_commit alist_mdb s2);
       s4 = snd (lmdb_storage_tx_begin alist_mdb s3)
   in \<exists>infos. lmdb_storage_get_all_untrimmed_instances_info alist_mdb s4 = Some infos \<and> set infos = {info}"
proof -
  let ?info = "\<lparr>accd_aid = 1, accd_iid = 3, accd_promise_ballot = Ballot 5 2, accd_value_ballot = Ballot 4 1,
                accd_value = [1, 2]\<rparr>"
  let ?s0 = "lmdb_storage_new_standard [] 1 :: (alist_db, alist_db) lmdb_storage"
  let ?s1 = "snd (lmdb_storage_tx_begin alist_mdb ?s0)"
  let ?s2 = "snd (lmdb_storage_store_instance_info alist_mdb (replicate 12 0) ?s1 ?info)"
  let ?s3 = "snd (lmdb_storage_tx_commit alist_mdb ?s2)"
  let ?s4 = "snd (lmdb_storage_tx_begin alist_mdb ?s3)"
  have "lmdb_storage_tx_begin alist_mdb ?s0 = (0, ?s1)" "lmdb_storage_tx_commit alist_mdb ?s2 = (0, ?s3)"
    "lmdb_storage_store_instance_info alist_mdb (replicate 12 0) ?s1 ?info = (0, ?s2)"
    "lmdb_storage_tx_begin alist_mdb ?s3 = (0, ?s4)"
    by (simp_all add: lmdb_storage_tx_begin_def lmdb_storage_new_standard_def alist_mdb_def
        lmdb_storage_store_instance_info_def txn_put_def raise_max_instance_def lmdb_storage_get_max_instance_def
        txn_get_def MDB_NOTFOUND_def lmdb_storage_put_max_instance_def lmdb_storage_tx_commit_def
        split: option.split)
  note run = lmdb_store_then_recover [OF alist.lmdb_store_axioms _ _ this(1,3,2,4)]
  have "{a. \<exists>i. (0::u32) < i \<and> ((record_of Map.empty)(3 \<mapsto> ?info)) i = Some a} = {?info}"
    by (auto simp: record_of_def split: if_splits)
  with run show ?thesis
    by (simp add: lmdb_storage_new_standard_def lmdb_storable_def CURRENT_EPOCH_KEY_numeral number_of_def)
qed

text \<open>
  The reserved keys are instance numbers: a record of the highest instance takes the place of the
  trim instance, which is then read as the identifier of the acceptor.
\<close>

lemma highest_instance_overwrites_trim:
  "let s1 = snd (lmdb_storage_tx_begin alist_mdb (lmdb_storage_new_standard [] 1));
       s2 = snd (lmdb_storage_store_instance_info alist_mdb (replicate 12 0) s1
              \<lparr>accd_aid = 9, accd_iid = UINT32_MAX, accd_promise_ballot = Ballot 5 2,
               accd_value_ballot = Ballot 4 1, accd_value = []\<rparr>)
   in lmdb_storage_get_trim_instance alist_mdb s1 = Some 0 \<and> lmdb_storage_get_trim_instance alist_mdb s2 = Some 9"
  by code_simp

end
