(* ===== verification/Epoch_Acceptor.thy ===== *)
theory Epoch_Acceptor
  imports Lmdb_Storage
begin

text \<open>
  \<open>src/paxos/epoch_acceptor.c\<close> over \<open>src/paxos/epoch_stable_storage.c\<close>: the acceptor of epoch Paxos.
  It keeps promises in memory only and writes to disk its epoch and what it accepts.  A restarted
  acceptor enters a new epoch, which is meant to outrank every promise that the restart has
  forgotten.  The stable storage is an argument \<open>es\<close>; \<open>epoch_stable_store\<close> is its contract.
\<close>

section \<open>State\<close>

record 'h epoch_acceptor =
  ea_id :: u32
  ea_stable_storage :: 'h
  ea_volatile_storage :: epoch_paxos_storage
  ea_trim_instance :: iid_t
  ea_current_epoch :: u32
  ea_max_proposed_instance :: iid_t

definition epoch_stable_storage_tx_begin :: "'h epoch_stable_storage \<Rightarrow> 'h \<Rightarrow> int \<times> 'h" where
  "epoch_stable_storage_tx_begin es h = api_tx_begin (ess_standard_storage es) h"

definition epoch_stable_storage_tx_commit :: "'h epoch_stable_storage \<Rightarrow> 'h \<Rightarrow> int \<times> 'h" where
  "epoch_stable_storage_tx_commit es h = api_tx_commit (ess_standard_storage es) h"

definition epoch_stable_storage_open :: "'h epoch_stable_storage \<Rightarrow> 'h \<Rightarrow> int \<times> 'h" where
  "epoch_stable_storage_open es h = api_open (ess_standard_storage es) h"

definition epoch_stable_storage_get_trim_instance :: "'h epoch_stable_storage \<Rightarrow> 'h \<Rightarrow> iid_t option" where
  "epoch_stable_storage_get_trim_instance es h = api_get_trim_instance (ess_standard_storage es) h"

definition writeahead_epoch_acceptor_increase_epoch ::
    "'h epoch_stable_storage \<Rightarrow> 'h epoch_acceptor \<Rightarrow> u32 \<Rightarrow> int \<times> 'h epoch_acceptor" where
  "writeahead_epoch_acceptor_increase_epoch es a new_epoch =
     (case ess_store_current_epoch es (ea_stable_storage a) new_epoch of
        (rc, h) \<Rightarrow> (rc, a\<lparr>ea_current_epoch := new_epoch, ea_stable_storage := h\<rparr>))"

definition writeahead_epoch_acceptor_store_trim :: "'h epoch_acceptor \<Rightarrow> iid_t \<Rightarrow> 'h epoch_acceptor" where
  "writeahead_epoch_acceptor_store_trim a trim =
     a\<lparr>ea_trim_instance := trim,
       ea_volatile_storage := epoch_paxos_storage_store_trim_instance (ea_volatile_storage a) trim\<rparr>"

definition create_epoch_notification_message :: "'h epoch_acceptor \<Rightarrow> epoch_notification" where
  "create_epoch_notification_message a = \<lparr>en_new_epoch = ea_current_epoch a\<rparr>"

definition writeahead_epoch_acceptor_get_max_proposed_instance :: "'h epoch_acceptor \<Rightarrow> iid_t" where
  "writeahead_epoch_acceptor_get_max_proposed_instance a = ea_max_proposed_instance a"

text \<open>
  \<open>epoch_acceptor_new\<close> returns \<open>NULL\<close> when the storage cannot be opened.  Recovering accepts runs into
  undefined behaviour (see \<open>epoch_paxos_storage_init_with_prepares_and_accepts\<close>).
\<close>

datatype new_failure = Open_Failed | Recovery_Undefined

definition epoch_acceptor_new ::
    "'h epoch_stable_storage \<Rightarrow> 'h \<Rightarrow> u32 \<Rightarrow> new_failure + ('h epoch_acceptor \<times> epoch_notification option)" where
  "epoch_acceptor_new es h aid =
     (case epoch_stable_storage_open es h of (opened, h) \<Rightarrow>
      if opened \<noteq> 0 then Inl Open_Failed
      else
        let a = \<lparr>ea_id = aid, ea_stable_storage = snd (epoch_stable_storage_tx_begin es h),
                 ea_volatile_storage = epoch_hash_mapped_memory_init 0, ea_trim_instance = 0,
                 ea_current_epoch = 0, ea_max_proposed_instance = 0\<rparr>;
            (was_previous_epoch, read) = ess_get_current_epoch es (ea_stable_storage a);
            old_epoch = (case read of None \<Rightarrow> INVALID_EPOCH | Some e \<Rightarrow> e);
            a = (if was_previous_epoch \<noteq> 0
                 then snd (writeahead_epoch_acceptor_increase_epoch es a (old_epoch + 1))
                 else snd (writeahead_epoch_acceptor_increase_epoch es a INVALID_EPOCH));
            a = (case epoch_stable_storage_get_trim_instance es (ea_stable_storage a) of
                   None \<Rightarrow> a | Some t \<Rightarrow> a\<lparr>ea_trim_instance := t\<rparr>);
            accepts = ess_get_all_untrimmed_epoch_ballots es (ea_stable_storage a)
        in case epoch_paxos_storage_init_with_prepares_and_accepts accepts 0 of
             None \<Rightarrow> Inl Recovery_Undefined
           | Some volatile_storage \<Rightarrow>
               let a = a\<lparr>ea_volatile_storage := volatile_storage\<rparr>;
                   trim = (case epoch_stable_storage_get_trim_instance es (ea_stable_storage a) of
                             None \<Rightarrow> 0 | Some t \<Rightarrow> t);
                   a = writeahead_epoch_acceptor_store_trim a trim;
                   h = snd (epoch_stable_storage_tx_commit es (ea_stable_storage a));
                   h = snd (epoch_stable_storage_tx_begin es h);
                   h = snd (epoch_stable_storage_tx_commit es h);
                   a = a\<lparr>ea_stable_storage := h\<rparr>
               in Inr (a, if ea_current_epoch a > 0 then Some (create_epoch_notification_message a) else None))"

section \<open>Promises\<close>

definition epoch_ballot_promise_check_and_set_last_accepted_ballot ::
    "epoch_ballot_promise \<Rightarrow> epoch_ballot_accept \<Rightarrow> bool \<Rightarrow> epoch_ballot_promise" where
  "epoch_ballot_promise_check_and_set_last_accepted_ballot m last_accept previous_accept =
     (if previous_accept
      then m\<lparr>ebpr_last_accepted_ballot := eba_epoch_ballot_requested last_accept,
             ebpr_last_accepted_value := eba_value_to_accept last_accept\<rparr>
      else m\<lparr>ebpr_last_accepted_ballot := INVALID_EPOCH_BALLOT, ebpr_last_accepted_value := INVALID_VALUE\<rparr>)"

definition writeahead_epoch_acceptor_set_epoch_promise ::
    "'h epoch_acceptor \<Rightarrow> iid_t \<Rightarrow> epoch_ballot \<Rightarrow> epoch_ballot_accept \<Rightarrow> bool \<Rightarrow> epoch_paxos_message" where
  "writeahead_epoch_acceptor_set_epoch_promise a i promised_epoch_ballot last_accept previous_accept =
     WRITEAHEAD_EPOCH_BALLOT_PROMISE
       (epoch_ballot_promise_check_and_set_last_accepted_ballot
          \<lparr>ebpr_acceptor_id = ea_id a, ebpr_instance = i, ebpr_promised_epoch_ballot = promised_epoch_ballot,
           ebpr_last_accepted_ballot = INVALID_EPOCH_BALLOT, ebpr_last_accepted_value = INVALID_VALUE\<rparr>
          last_accept previous_accept)"

definition handle_making_premepted ::
    "'h epoch_acceptor \<Rightarrow> iid_t \<Rightarrow> epoch_ballot \<Rightarrow> paxos_prepare \<Rightarrow> epoch_paxos_message" where
  "handle_making_premepted a i requested_epoch_ballot last_prepare =
     WRITEAHEAD_EPOCH_BALLOT_PREEMPTED
       \<lparr>ebpe_acceptor_id = ea_id a, ebpe_instance = i, ebpe_requested_epoch_ballot = requested_epoch_ballot,
        ebpe_acceptors_current_epoch_ballot = Epoch_Ballot (ea_current_epoch a) (prep_ballot last_prepare)\<rparr>"

text \<open>The guard \<open>if (iid > acceptor->max_proposed_instance) ...\<close> of all handlers.\<close>

definition raise_max_proposed :: "'h epoch_acceptor \<Rightarrow> iid_t \<Rightarrow> 'h epoch_acceptor" where
  "raise_max_proposed a i =
     (if i > ea_max_proposed_instance a then a\<lparr>ea_max_proposed_instance := i\<rparr> else a)"

definition writeahead_epoch_acceptor_receive_prepare ::
    "'h epoch_acceptor \<Rightarrow> paxos_prepare \<Rightarrow> 'h epoch_acceptor \<times> epoch_paxos_message option" where
  "writeahead_epoch_acceptor_receive_prepare a request =
     (if prep_iid request \<le> ea_trim_instance a
      then (a, Some (WRITEAHEAD_INSTANCE_TRIM \<lparr>trim_iid = ea_trim_instance a\<rparr>))
      else
        let (previous_promise, last_prepare) =
              epoch_paxos_storage_get_last_prepare (ea_volatile_storage a) (prep_iid request);
            (previous_accept, last_accept) =
              lazy_get_of_epoch_ballot_accept (ea_volatile_storage a) (prep_iid request)
        in if hash_mapped_memory_is_instance_chosen (eps_paxos_storage (ea_volatile_storage a)) (prep_iid request)
           then (a, Some (union_epoch_ballot_chosen_from_epoch_ballot_accept last_accept))
           else if ballot_greater_than_or_equal (prep_ballot request) (prep_ballot last_prepare)
               \<or> \<not> previous_promise
           then
             let a = raise_max_proposed a (prep_iid request);
                 a = a\<lparr>ea_volatile_storage :=
                         epoch_paxos_storage_store_last_prepare (ea_volatile_storage a) request\<rparr>
             in (a, Some (writeahead_epoch_acceptor_set_epoch_promise a (prep_iid request)
                       (Epoch_Ballot (ea_current_epoch a) (prep_ballot request)) last_accept previous_accept))
           else (a, Some (handle_making_premepted a (prep_iid request)
                       (Epoch_Ballot (ea_current_epoch a) (prep_ballot request)) last_prepare)))"

definition write_ahead_epoch_acceptor_transaction_to_increment_epoch ::
    "'h epoch_stable_storage \<Rightarrow> 'h epoch_acceptor \<Rightarrow> epoch_ballot \<Rightarrow> int \<times> 'h epoch_acceptor" where
  "write_ahead_epoch_acceptor_transaction_to_increment_epoch es a cmp_epoch_ballot =
     (case epoch_stable_storage_tx_begin es (ea_stable_storage a) of (began, h) \<Rightarrow>
      let a = a\<lparr>ea_stable_storage := h\<rparr> in
      if began \<noteq> 0 then (1, a)
      else case writeahead_epoch_acceptor_increase_epoch es a (eb_epoch cmp_epoch_ballot) of (stored, a) \<Rightarrow>
        if stored \<noteq> 0 then (1, a)
        else case epoch_stable_storage_tx_commit es (ea_stable_storage a) of (committed, h) \<Rightarrow>
          (if committed \<noteq> 0 then 1 else 0, a\<lparr>ea_stable_storage := h\<rparr>))"

text \<open>The message to the proposer whose earlier promise is overtaken, in both handlers below.\<close>

definition previous_preempted ::
    "'h epoch_acceptor \<Rightarrow> iid_t \<Rightarrow> paxos_prepare \<Rightarrow> epoch_ballot \<Rightarrow> epoch_ballot \<Rightarrow> epoch_ballot_preempted option" where
  "previous_preempted a i last_prepare old new =
     (if ballot_greater_than (prep_ballot last_prepare) INVALID_BALLOT
      then Some \<lparr>ebpe_acceptor_id = ea_id a, ebpe_instance = i, ebpe_requested_epoch_ballot = old,
                 ebpe_acceptors_current_epoch_ballot = new\<rparr>
      else None)"

definition writeahead_epoch_acceptor_receive_epoch_ballot_prepare ::
    "'h epoch_stable_storage \<Rightarrow> 'h epoch_acceptor \<Rightarrow> epoch_ballot_prepare
       \<Rightarrow> 'h epoch_acceptor \<times> epoch_paxos_message option \<times> epoch_ballot_preempted option" where
  "writeahead_epoch_acceptor_receive_epoch_ballot_prepare es a request =
     (if ebp_instance request \<le> ea_trim_instance a
      then (a, Some (WRITEAHEAD_INSTANCE_TRIM \<lparr>trim_iid = ea_trim_instance a\<rparr>), None)
      else
        let i = ebp_instance request;
            requested = ebp_epoch_ballot_requested request;
            (was_previous_promise, last_prepare) = epoch_paxos_storage_get_last_prepare (ea_volatile_storage a) i;
            (previous_accept, last_accept) = lazy_get_of_epoch_ballot_accept (ea_volatile_storage a) i;
            min_epoch_ballot_to_give_promise_on = Epoch_Ballot (ea_current_epoch a) (prep_ballot last_prepare)
        in if hash_mapped_memory_is_instance_chosen (eps_paxos_storage (ea_volatile_storage a)) i
           then (a, Some (union_epoch_ballot_chosen_from_epoch_ballot_accept last_accept), None)
           else if epoch_ballot_greater_than_or_equal requested min_epoch_ballot_to_give_promise_on
               \<or> \<not> was_previous_promise
           then
             let a = raise_max_proposed a i;
                 (failed, a) = (if eb_epoch requested > ea_current_epoch a
                   then write_ahead_epoch_acceptor_transaction_to_increment_epoch es a requested else (0, a))
             in if failed \<noteq> 0 then (a, None, None)
                else
                  let a = a\<lparr>ea_volatile_storage := epoch_paxos_storage_store_last_prepare (ea_volatile_storage a)
                             \<lparr>prep_iid = i, prep_ballot = eb_ballot requested\<rparr>\<rparr>
                  in (a, Some (writeahead_epoch_acceptor_set_epoch_promise a i requested last_accept previous_accept),
                      previous_preempted a i last_prepare min_epoch_ballot_to_give_promise_on requested)
           else (a, Some (handle_making_premepted a i requested last_prepare), None))"

section \<open>Acceptances\<close>

definition writeahead_epoch_acceptor_transaction_to_store_accept ::
    "'h epoch_stable_storage \<Rightarrow> 'h epoch_acceptor \<Rightarrow> epoch_ballot_accept \<Rightarrow> bool \<Rightarrow> 'h epoch_acceptor" where
  "writeahead_epoch_acceptor_transaction_to_store_accept es a accept is_chosen =
     (let a =
        (if \<not> is_chosen then
           let a = a\<lparr>ea_stable_storage := snd (epoch_stable_storage_tx_begin es (ea_stable_storage a))\<rparr>;
               a = (if eb_epoch (eba_epoch_ballot_requested accept) > ea_current_epoch a
                    then snd (writeahead_epoch_acceptor_increase_epoch es a
                                (eb_epoch (eba_epoch_ballot_requested accept)))
                    else a);
               h = snd (ess_store_epoch_ballot_accept es (ea_stable_storage a) accept);
               h = snd (epoch_stable_storage_tx_commit es h)
           in a\<lparr>ea_stable_storage := h\<rparr>
         else a)
      in a\<lparr>ea_volatile_storage :=
             lazy_store_of_epoch_ballot_accept
               (epoch_paxos_storage_store_last_prepare (ea_volatile_storage a)
                  \<lparr>prep_iid = eba_instance accept, prep_ballot = eb_ballot (eba_epoch_ballot_requested accept)\<rparr>)
               accept\<rparr>)"

definition writeahead_epoch_acceptor_receive_epoch_ballot_accept ::
    "'h epoch_stable_storage \<Rightarrow> 'h epoch_acceptor \<Rightarrow> epoch_ballot_accept
       \<Rightarrow> 'h epoch_acceptor \<times> epoch_paxos_message option \<times> epoch_ballot_preempted option" where
  "writeahead_epoch_acceptor_receive_epoch_ballot_accept es a request =
     (if eba_instance request \<le> ea_trim_instance a
      then (a, Some (WRITEAHEAD_INSTANCE_TRIM \<lparr>trim_iid = ea_trim_instance a\<rparr>), None)
      else
        let i = eba_instance request;
            requested = eba_epoch_ballot_requested request;
            (was_previous_promise, last_prepare) = epoch_paxos_storage_get_last_prepare (ea_volatile_storage a) i;
            last_accept = snd (lazy_get_of_epoch_ballot_accept (ea_volatile_storage a) i);
            min_epoch_ballot_to_accept = Epoch_Ballot (ea_current_epoch a) (prep_ballot last_prepare)
        in if hash_mapped_memory_is_instance_chosen (eps_paxos_storage (ea_volatile_storage a)) i
           then (a, Some (union_epoch_ballot_chosen_from_epoch_ballot_accept last_accept), None)
           else if epoch_ballot_greater_than_or_equal requested min_epoch_ballot_to_accept
               \<or> \<not> was_previous_promise \<and> eb_epoch requested \<ge> ea_current_epoch a
           then
             let a = raise_max_proposed a i;
                 a = writeahead_epoch_acceptor_transaction_to_store_accept es a request False
             in (a, Some (WRITEAHEAD_EPOCH_BALLOT_ACCEPTED
                       \<lparr>ebac_acceptor_id = ea_id a, ebac_instance = i, ebac_accepted_epoch_ballot = requested,
                        ebac_accepted_value = eba_value_to_accept request\<rparr>),
                 previous_preempted a i last_prepare min_epoch_ballot_to_accept requested)
           else (a, Some (handle_making_premepted a i requested last_prepare), None))"

section \<open>Repeats, trims, notifications and chosen instances\<close>

text \<open>
  \<open>writeahead_epoch_acceptor_receive_repeat\<close> asserts that the instance is marked as chosen exactly if the table
  has an entry for it.  The entries are never false (lemma \<open>repeat_assertion_holds\<close>), so that the
  assertion never fails; it is not part of the definition.
\<close>

definition writeahead_epoch_acceptor_receive_repeat ::
    "'h epoch_acceptor \<Rightarrow> iid_t \<Rightarrow> epoch_paxos_message option" where
  "writeahead_epoch_acceptor_receive_repeat a i =
     (let (was_accept, last_accept) = lazy_get_of_epoch_ballot_accept (ea_volatile_storage a) i
      in if hash_mapped_memory_is_instance_chosen (eps_paxos_storage (ea_volatile_storage a)) i
         then Some (WRITEAHEAD_INSTANCE_CHOSEN_AT_EPOCH_BALLOT
                \<lparr>ebc_instance = eba_instance last_accept,
                 ebc_chosen_epoch_ballot = eba_epoch_ballot_requested last_accept,
                 ebc_chosen_value = eba_value_to_accept last_accept\<rparr>)
         else if was_accept
             \<and> ballot_greater_than (eb_ballot (eba_epoch_ballot_requested last_accept)) INVALID_BALLOT
         then Some (WRITEAHEAD_EPOCH_BALLOT_ACCEPTED
                \<lparr>ebac_acceptor_id = ea_id a, ebac_instance = eba_instance last_accept,
                 ebac_accepted_epoch_ballot = eba_epoch_ballot_requested last_accept,
                 ebac_accepted_value = eba_value_to_accept last_accept\<rparr>)
         else None)"

definition chosen_marks_true :: "hash_mapped_memory \<Rightarrow> bool" where
  "chosen_marks_true m \<longleftrightarrow> (\<forall>i. hm_chosen m i \<noteq> Some False)"

lemma chosen_marks_true_ops:
  "chosen_marks_true (new_hash_mapped_memory aid)"
  "chosen_marks_true m \<Longrightarrow> chosen_marks_true (hash_mapped_memory_store_last_promise m p)"
  "chosen_marks_true m \<Longrightarrow> chosen_marks_true (hash_mapped_memory_store_last_accepted m acc)"
  "chosen_marks_true m \<Longrightarrow> chosen_marks_true (hash_mapped_memory_store_trim_instance m t)"
  "chosen_marks_true m \<Longrightarrow> chosen_marks_true (hash_mapped_memory_trim_storage m t)"
  "chosen_marks_true m \<Longrightarrow> chosen_marks_true (hash_mapped_memory_instance_chosen m i)"
  by (auto simp: chosen_marks_true_def memory_defs new_hash_mapped_memory_def drop_below_def Let_def)

lemma repeat_assertion_holds:
  "chosen_marks_true m \<Longrightarrow> hash_mapped_memory_is_instance_chosen m i \<longleftrightarrow> hm_chosen m i \<noteq> None"
  by (cases "hm_chosen m i") (auto simp: chosen_marks_true_def hash_mapped_memory_is_instance_chosen_def, metis)

text \<open>
  \<open>to_trim_from\<close> is a \<open>long\<close>, but the subtraction is done in \<open>uint32_t\<close> and wraps.
\<close>

definition writeahead_epoch_acceptor_receive_trim ::
    "'h epoch_acceptor \<Rightarrow> paxos_trim \<Rightarrow> 'h epoch_acceptor \<times> bool" where
  "writeahead_epoch_acceptor_receive_trim a trim =
     (let min_unchosen_instance =
            hash_mapped_memory_get_min_unchosen_instace (eps_paxos_storage (ea_volatile_storage a));
          new_trim = (trim_iid trim > ea_trim_instance a);
          able_to_trim = (min_unchosen_instance > trim_iid trim)
      in if new_trim \<and> able_to_trim then
           let a = writeahead_epoch_acceptor_store_trim a (trim_iid trim);
               to_trim_from = trim_iid trim - 10000;
               a = (if to_trim_from > INVALID_INSTANCE
                    then a\<lparr>ea_volatile_storage :=
                             epoch_paxos_storage_trim_instances_less_than (ea_volatile_storage a) to_trim_from\<rparr>
                    else a)
           in (raise_max_proposed a (trim_iid trim), True)
         else (a, False))"

definition writeahead_epoch_acceptor_receive_epoch_notification ::
    "'h epoch_stable_storage \<Rightarrow> 'h epoch_acceptor \<Rightarrow> epoch_notification \<Rightarrow> 'h epoch_acceptor \<times> bool" where
  "writeahead_epoch_acceptor_receive_epoch_notification es a notification =
     (if en_new_epoch notification > ea_current_epoch a
      then (snd (writeahead_epoch_acceptor_increase_epoch es a (en_new_epoch notification)), True)
      else (a, False))"

definition writeahead_epoch_acceptor_get_current_state :: "'h epoch_acceptor \<Rightarrow> writeahead_epoch_acceptor_state" where
  "writeahead_epoch_acceptor_get_current_state a =
     \<lparr>was_standard_acceptor_state =
        \<lparr>as_aid = ea_id a, as_trim_iid = ea_trim_instance a, as_current_instance = ea_max_proposed_instance a\<rparr>,
      was_current_epoch = ea_current_epoch a\<rparr>"

definition writeahead_epoch_acceptor_receive_instance_chosen ::
    "'h epoch_stable_storage \<Rightarrow> 'h epoch_acceptor \<Rightarrow> epoch_ballot_chosen \<Rightarrow> 'h epoch_acceptor \<times> bool" where
  "writeahead_epoch_acceptor_receive_instance_chosen es a chosen =
     (let a = raise_max_proposed a (ebc_instance chosen)
      in if hash_mapped_memory_is_instance_chosen (eps_paxos_storage (ea_volatile_storage a)) (ebc_instance chosen)
         then (a, False)
         else
           let a = a\<lparr>ea_volatile_storage :=
                       epoch_paxos_storage_set_instance_chosen (ea_volatile_storage a) (ebc_instance chosen)\<rparr>;
               a = writeahead_epoch_acceptor_transaction_to_store_accept es a
                     \<lparr>eba_instance = ebc_instance chosen, eba_epoch_ballot_requested = ebc_chosen_epoch_ballot chosen,
                      eba_value_to_accept = ebc_chosen_value chosen\<rparr> True;
               min_unchosen_instance =
                 hash_mapped_memory_get_min_unchosen_instace (eps_paxos_storage (ea_volatile_storage a));
               a = (if min_unchosen_instance > ea_trim_instance a
                    then fst (writeahead_epoch_acceptor_receive_trim a \<lparr>trim_iid = min_unchosen_instance - 1\<rparr>)
                    else a)
           in (a, True))"

section \<open>Requests\<close>

datatype epoch_request =
    Standard_Prepare paxos_prepare
  | Epoch_Prepare epoch_ballot_prepare
  | Epoch_Accept epoch_ballot_accept

fun epoch_acceptor_handle ::
    "'h epoch_stable_storage \<Rightarrow> 'h epoch_acceptor \<Rightarrow> epoch_request
       \<Rightarrow> 'h epoch_acceptor \<times> epoch_paxos_message option" where
  "epoch_acceptor_handle es a (Standard_Prepare req) = writeahead_epoch_acceptor_receive_prepare a req"
| "epoch_acceptor_handle es a (Epoch_Prepare req) =
     (case writeahead_epoch_acceptor_receive_epoch_ballot_prepare es a req of (a', out, _) \<Rightarrow> (a', out))"
| "epoch_acceptor_handle es a (Epoch_Accept req) =
     (case writeahead_epoch_acceptor_receive_epoch_ballot_accept es a req of (a', out, _) \<Rightarrow> (a', out))"

definition epoch_acceptor_run ::
    "'h epoch_stable_storage \<Rightarrow> 'h epoch_acceptor \<Rightarrow> epoch_request list \<Rightarrow> 'h epoch_acceptor" where
  "epoch_acceptor_run es = foldl (\<lambda>a r. fst (epoch_acceptor_handle es a r))"

text \<open>What an acceptor has promised in an instance, together with its epoch.\<close>

definition epoch_promise :: "'h epoch_acceptor \<Rightarrow> iid_t \<Rightarrow> epoch_ballot" where
  "epoch_promise a i = Epoch_Ballot (ea_current_epoch a) (promised (eps_paxos_storage (ea_volatile_storage a)) i)"

lemma get_last_prepare_eq:
  "epoch_paxos_storage_get_last_prepare s i = (found, p) \<Longrightarrow>
     prep_ballot p = promised (eps_paxos_storage s) i \<and> (\<not> found \<longrightarrow> promised (eps_paxos_storage s) i = INVALID_BALLOT)"
  by (auto simp: epoch_paxos_storage_get_last_prepare_def promised_def memory_defs INVALID_BALLOT_def
      split: option.splits)

lemma epoch_store_fields [store_simps]:
  "promised (eps_paxos_storage (epoch_paxos_storage_store_last_prepare s p)) i
     = (if i = prep_iid p then prep_ballot p else promised (eps_paxos_storage s) i)"
  "promised (eps_paxos_storage (lazy_store_of_epoch_ballot_accept s acc)) i = promised (eps_paxos_storage s) i"
  by (simp_all add: epoch_paxos_storage_store_last_prepare_def lazy_store_of_epoch_ballot_accept_def store_simps)

lemma raise_max_proposed_fields [frame_simps]:
  "ea_id (raise_max_proposed a i) = ea_id a"
  "ea_stable_storage (raise_max_proposed a i) = ea_stable_storage a"
  "ea_volatile_storage (raise_max_proposed a i) = ea_volatile_storage a"
  "ea_trim_instance (raise_max_proposed a i) = ea_trim_instance a"
  "ea_current_epoch (raise_max_proposed a i) = ea_current_epoch a"
  by (simp_all add: raise_max_proposed_def)

lemma increment_epoch_fields:
  assumes "write_ahead_epoch_acceptor_transaction_to_increment_epoch es a b = (rc, a')"
    and "ea_current_epoch a < eb_epoch b"
  shows "ea_volatile_storage a' = ea_volatile_storage a" "ea_id a' = ea_id a"
    and "ea_current_epoch a \<le> ea_current_epoch a'" "rc = 0 \<Longrightarrow> ea_current_epoch a' = eb_epoch b"
  using assms
  by (auto simp: write_ahead_epoch_acceptor_transaction_to_increment_epoch_def Let_def
      writeahead_epoch_acceptor_increase_epoch_def split: prod.splits if_splits)

lemma store_accept_fields:
  defines "epoch \<equiv> \<lambda>acc. eb_epoch (eba_epoch_ballot_requested acc)"
  shows "ea_current_epoch (writeahead_epoch_acceptor_transaction_to_store_accept es a acc False)
      = max (ea_current_epoch a) (epoch acc)"
    and "ea_volatile_storage (writeahead_epoch_acceptor_transaction_to_store_accept es a acc c)
      = lazy_store_of_epoch_ballot_accept
          (epoch_paxos_storage_store_last_prepare (ea_volatile_storage a)
             \<lparr>prep_iid = eba_instance acc, prep_ballot = eb_ballot (eba_epoch_ballot_requested acc)\<rparr>) acc"
    and "ea_id (writeahead_epoch_acceptor_transaction_to_store_accept es a acc c) = ea_id a"
  by (auto simp: writeahead_epoch_acceptor_transaction_to_store_accept_def Let_def epoch_def
      writeahead_epoch_acceptor_increase_epoch_def max_def split: prod.split)

text \<open>
  The possible outcomes of each handler: the request is denied and changes nothing that was promised
  (the epoch may have been raised for a promise that was then cancelled), or it is granted.
\<close>

definition grants :: "epoch_paxos_message option \<Rightarrow> bool" where
  "grants out = (case out of Some (WRITEAHEAD_EPOCH_BALLOT_PROMISE _) \<Rightarrow> True
     | Some (WRITEAHEAD_EPOCH_BALLOT_ACCEPTED _) \<Rightarrow> True | _ \<Rightarrow> False)"

lemma grants_simps [simp]:
  "\<not> grants None" "grants (Some (WRITEAHEAD_EPOCH_BALLOT_PROMISE p))" "grants (Some (WRITEAHEAD_EPOCH_BALLOT_ACCEPTED acc))"
  "\<not> grants (Some (WRITEAHEAD_INSTANCE_TRIM t))" "\<not> grants (Some (handle_making_premepted a i b l))"
  "\<not> grants (Some (union_epoch_ballot_chosen_from_epoch_ballot_accept acc'))"
  by (simp_all add: grants_def handle_making_premepted_def conv_simps)

lemma set_epoch_promise_eq:
  obtains p where "writeahead_epoch_acceptor_set_epoch_promise a i b l f = WRITEAHEAD_EPOCH_BALLOT_PROMISE p"
    "ebpr_instance p = i" "ebpr_promised_epoch_ballot p = b"
  by (simp add: writeahead_epoch_acceptor_set_epoch_promise_def
      epoch_ballot_promise_check_and_set_last_accepted_ballot_def)

lemma epoch_prepare_cases:
  assumes "writeahead_epoch_acceptor_receive_prepare a req = (a', out)"
  obtains (denied) "a' = a" "\<not> grants out"
  | (granted) p where "out = Some (WRITEAHEAD_EPOCH_BALLOT_PROMISE p)" "ebpr_instance p = prep_iid req"
      "ebpr_promised_epoch_ballot p = Epoch_Ballot (ea_current_epoch a) (prep_ballot req)"
      "ea_current_epoch a' = ea_current_epoch a" "ea_stable_storage a' = ea_stable_storage a"
      "ea_volatile_storage a' = epoch_paxos_storage_store_last_prepare (ea_volatile_storage a) req"
      "promised (eps_paxos_storage (ea_volatile_storage a)) (prep_iid req) \<le> prep_ballot req"
proof -
  let ?i = "prep_iid req" and ?v = "ea_volatile_storage a"
  obtain found last_prepare where lp: "epoch_paxos_storage_get_last_prepare ?v ?i = (found, last_prepare)" by fastforce
  obtain prev last_accept where la: "lazy_get_of_epoch_ballot_accept ?v ?i = (prev, last_accept)" by fastforce
  note def = writeahead_epoch_acceptor_receive_prepare_def lp la Let_def prod.case
  show thesis
  proof (cases "\<not> ?i \<le> ea_trim_instance a \<and> \<not> hash_mapped_memory_is_instance_chosen (eps_paxos_storage ?v) ?i
      \<and> (ballot_greater_than_or_equal (prep_ballot req) (prep_ballot last_prepare) \<or> \<not> found)")
    case True
    then have "promised (eps_paxos_storage ?v) ?i \<le> prep_ballot req"
      using get_last_prepare_eq [OF lp] by auto
    moreover obtain p where "writeahead_epoch_acceptor_set_epoch_promise a' ?i
        (Epoch_Ballot (ea_current_epoch a) (prep_ballot req)) last_accept prev = WRITEAHEAD_EPOCH_BALLOT_PROMISE p"
        "ebpr_instance p = ?i" "ebpr_promised_epoch_ballot p = Epoch_Ballot (ea_current_epoch a) (prep_ballot req)"
      by (rule set_epoch_promise_eq)
    ultimately show thesis
      using assms True granted [of p] unfolding def by (auto simp: frame_simps)
  next
    case False
    then show thesis using assms denied unfolding def by (auto split: if_splits)
  qed
qed

text \<open>The guard of both handlers of epoch ballots, in terms of what was promised.\<close>

lemma epoch_guard:
  assumes "epoch_paxos_storage_get_last_prepare s i = (found, last_prepare)"
    and "epoch_ballot_greater_than_or_equal b (Epoch_Ballot cur (prep_ballot last_prepare)) \<or> \<not> found"
  shows "cur < eb_epoch b \<or> promised (eps_paxos_storage s) i \<le> eb_ballot b"
  using assms(2) get_last_prepare_eq [OF assms(1)] by (auto simp: epoch_ballot_ge_iff)

lemma epoch_ballot_prepare_cases:
  assumes "writeahead_epoch_acceptor_receive_epoch_ballot_prepare es a req = (a', out, pre)"
  defines "b \<equiv> ebp_epoch_ballot_requested req" and "i \<equiv> ebp_instance req"
  obtains (denied) "a' = a" "\<not> grants out"
  | (cancelled) rc where "out = None" "rc \<noteq> 0" "ea_current_epoch a < eb_epoch b"
      "write_ahead_epoch_acceptor_transaction_to_increment_epoch es (raise_max_proposed a i) b = (rc, a')"
  | (granted) p a1 where "out = Some (WRITEAHEAD_EPOCH_BALLOT_PROMISE p)" "ebpr_instance p = i"
      "ebpr_promised_epoch_ballot p = b"
      "ea_current_epoch a < eb_epoch b \<or> promised (eps_paxos_storage (ea_volatile_storage a)) i \<le> eb_ballot b"
      "if ea_current_epoch a < eb_epoch b
       then write_ahead_epoch_acceptor_transaction_to_increment_epoch es (raise_max_proposed a i) b = (0, a1)
       else a1 = raise_max_proposed a i"
      "a' = a1\<lparr>ea_volatile_storage := epoch_paxos_storage_store_last_prepare (ea_volatile_storage a1)
                  \<lparr>prep_iid = i, prep_ballot = eb_ballot b\<rparr>\<rparr>"
proof -
  let ?v = "ea_volatile_storage a"
  obtain found last_prepare where lp: "epoch_paxos_storage_get_last_prepare ?v i = (found, last_prepare)" by fastforce
  obtain prev last_accept where la: "lazy_get_of_epoch_ballot_accept ?v i = (prev, last_accept)" by fastforce
  note def = writeahead_epoch_acceptor_receive_epoch_ballot_prepare_def b_def [symmetric] i_def [symmetric] lp la
    Let_def prod.case
  let ?guard = "epoch_ballot_greater_than_or_equal b (Epoch_Ballot (ea_current_epoch a) (prep_ballot last_prepare))
      \<or> \<not> found"
  show thesis
  proof (cases "\<not> i \<le> ea_trim_instance a \<and> \<not> hash_mapped_memory_is_instance_chosen (eps_paxos_storage ?v) i \<and> ?guard")
    case True
    obtain rc a1 where a1: "(if eb_epoch b > ea_current_epoch a
        then write_ahead_epoch_acceptor_transaction_to_increment_epoch es (raise_max_proposed a i) b
        else (0, raise_max_proposed a i)) = (rc, a1)" by fastforce
    show thesis
    proof (cases "rc = 0")
      case ok: True
      obtain p where "writeahead_epoch_acceptor_set_epoch_promise a' i b last_accept prev = WRITEAHEAD_EPOCH_BALLOT_PROMISE p"
          "ebpr_instance p = i" "ebpr_promised_epoch_ballot p = b"
        by (rule set_epoch_promise_eq)
      then show thesis
        using assms(1) True ok a1 granted [of p a1, OF _ _ _ epoch_guard [OF lp]]
        unfolding def by (auto simp: frame_simps split: if_splits)
    next
      case False
      then show thesis
        using assms(1) True a1 cancelled [of rc] unfolding def by (auto simp: frame_simps split: if_splits)
    qed
  next
    case False
    then show thesis using assms(1) denied unfolding def by (auto split: if_splits)
  qed
qed

lemma epoch_ballot_accept_cases:
  assumes "writeahead_epoch_acceptor_receive_epoch_ballot_accept es a req = (a', out, pre)"
  defines "b \<equiv> eba_epoch_ballot_requested req" and "i \<equiv> eba_instance req"
  obtains (denied) "a' = a" "\<not> grants out"
  | (granted) acc where "out = Some (WRITEAHEAD_EPOCH_BALLOT_ACCEPTED acc)" "ebac_instance acc = i"
      "ebac_accepted_epoch_ballot acc = b" "ebac_accepted_value acc = eba_value_to_accept req"
      "ea_current_epoch a < eb_epoch b \<or> promised (eps_paxos_storage (ea_volatile_storage a)) i \<le> eb_ballot b"
      "a' = writeahead_epoch_acceptor_transaction_to_store_accept es (raise_max_proposed a i) req False"
proof -
  let ?v = "ea_volatile_storage a"
  obtain found last_prepare where lp: "epoch_paxos_storage_get_last_prepare ?v i = (found, last_prepare)" by fastforce
  note def = writeahead_epoch_acceptor_receive_epoch_ballot_accept_def b_def [symmetric] i_def [symmetric] lp
    Let_def prod.case
  let ?ge = "epoch_ballot_greater_than_or_equal b (Epoch_Ballot (ea_current_epoch a) (prep_ballot last_prepare))"
  show thesis
  proof (cases "\<not> i \<le> ea_trim_instance a \<and> \<not> hash_mapped_memory_is_instance_chosen (eps_paxos_storage ?v) i
      \<and> (?ge \<or> \<not> found \<and> eb_epoch b \<ge> ea_current_epoch a)")
    case True
    then have "ea_current_epoch a < eb_epoch b \<or> promised (eps_paxos_storage ?v) i \<le> eb_ballot b"
      using epoch_guard [OF lp] by blast
    with True show thesis
      using assms(1) granted unfolding def by (auto simp: frame_simps split: if_splits)
  next
    case False
    then show thesis using assms(1) denied unfolding def by (auto split: if_splits)
  qed
qed

section \<open>Promises bind\<close>

text \<open>What every acceptor of the repository has to guarantee of its promises: they never go back.\<close>

locale promise_keeper =
  fixes handle :: "'a \<Rightarrow> 'r \<Rightarrow> 'a \<times> 'm"
    and promise :: "'a \<Rightarrow> iid_t \<Rightarrow> 'b :: order"
  assumes handle_mono: "promise a i \<le> promise (fst (handle a r)) i"
begin

lemma run_mono: "promise a i \<le> promise (foldl (\<lambda>a r. fst (handle a r)) a rs) i"
proof (induction rs arbitrary: a)
  case (Cons r rs)
  then show ?case using handle_mono [of a i r] by (simp add: order.trans)
qed simp

end

lemma epoch_promise_le:
  "ea_current_epoch a < ea_current_epoch a' \<or> ea_current_epoch a = ea_current_epoch a' \<and>
     promised (eps_paxos_storage (ea_volatile_storage a)) i \<le> promised (eps_paxos_storage (ea_volatile_storage a')) i
   \<Longrightarrow> epoch_promise a i \<le> epoch_promise a' i"
  by (auto simp: epoch_promise_def less_eq_epoch_ballot_def)

lemma epoch_handle_promise_mono: "epoch_promise a i \<le> epoch_promise (fst (epoch_acceptor_handle es a r)) i"
proof (cases r)
  case (Standard_Prepare req)
  obtain a' out where h: "writeahead_epoch_acceptor_receive_prepare a req = (a', out)" by fastforce
  then have "epoch_promise a i \<le> epoch_promise a' i"
    by (cases rule: epoch_prepare_cases) (auto intro!: epoch_promise_le simp: store_simps)
  with h show ?thesis by (simp add: Standard_Prepare)
next
  case (Epoch_Prepare req)
  obtain a' out pre where h: "writeahead_epoch_acceptor_receive_epoch_ballot_prepare es a req = (a', out, pre)"
    by (metis prod_cases3)
  then have "epoch_promise a i \<le> epoch_promise a' i"
  proof (cases rule: epoch_ballot_prepare_cases)
    case denied
    then show ?thesis by simp
  next
    case (cancelled rc)
    note f = increment_epoch_fields [OF cancelled(4), unfolded frame_simps, OF cancelled(3)]
    show ?thesis using f(1,3) by (intro epoch_promise_le) auto
  next
    case (granted p a1)
    show ?thesis
    proof (cases "ea_current_epoch a < eb_epoch (ebp_epoch_ballot_requested req)")
      case True
      with granted(5,6) show ?thesis
        using increment_epoch_fields(4) [of es "raise_max_proposed a (ebp_instance req)"]
        by (intro epoch_promise_le) (simp add: frame_simps)
    next
      case False
      with granted(4,5,6) show ?thesis by (intro epoch_promise_le) (auto simp: frame_simps store_simps)
    qed
  qed
  with h show ?thesis by (simp add: Epoch_Prepare)
next
  case (Epoch_Accept req)
  obtain a' out pre where h: "writeahead_epoch_acceptor_receive_epoch_ballot_accept es a req = (a', out, pre)"
    by (metis prod_cases3)
  then have "epoch_promise a i \<le> epoch_promise a' i"
    by (cases rule: epoch_ballot_accept_cases)
      (auto intro!: epoch_promise_le simp: store_accept_fields frame_simps store_simps max_def split: if_splits)
  with h show ?thesis by (simp add: Epoch_Accept)
qed

interpretation ea: promise_keeper "epoch_acceptor_handle es" epoch_promise
  for es :: "'h epoch_stable_storage"
  by unfold_locales (rule epoch_handle_promise_mono)

lemma epoch_handle_grants:
  assumes "epoch_acceptor_handle es a r = (a', Some out)"
  shows "case out of
      WRITEAHEAD_EPOCH_BALLOT_PROMISE p \<Rightarrow> ebpr_promised_epoch_ballot p \<le> epoch_promise a' (ebpr_instance p)
    | WRITEAHEAD_EPOCH_BALLOT_ACCEPTED acc \<Rightarrow> eb_ballot (ebac_accepted_epoch_ballot acc)
          = eb_ballot (epoch_promise a' (ebac_instance acc))
        \<and> ea_current_epoch a' = max (ea_current_epoch a) (eb_epoch (ebac_accepted_epoch_ballot acc))
    | _ \<Rightarrow> True"
proof (cases r)
  case (Standard_Prepare req)
  with assms have "writeahead_epoch_acceptor_receive_prepare a req = (a', Some out)" by simp
  then show ?thesis
  proof (cases rule: epoch_prepare_cases)
    case denied
    then show ?thesis by (auto simp: grants_def split: epoch_paxos_message.splits)
  next
    case (granted p)
    then show ?thesis by (simp add: epoch_promise_def store_simps)
  qed
next
  case (Epoch_Prepare req)
  with assms obtain pre where "writeahead_epoch_acceptor_receive_epoch_ballot_prepare es a req = (a', Some out, pre)"
    by (auto split: prod.splits)
  then show ?thesis
  proof (cases rule: epoch_ballot_prepare_cases)
    case denied
    then show ?thesis by (auto simp: grants_def split: epoch_paxos_message.splits)
  next
    case (granted p a1)
    have "eb_epoch (ebp_epoch_ballot_requested req) \<le> ea_current_epoch a1"
      using granted(5) increment_epoch_fields(4) [of es "raise_max_proposed a (ebp_instance req)"]
      by (auto simp: frame_simps split: if_splits)
    with granted show ?thesis
      by (auto simp: epoch_promise_def store_simps less_eq_epoch_ballot_def)
  qed simp
next
  case (Epoch_Accept req)
  with assms obtain pre where "writeahead_epoch_acceptor_receive_epoch_ballot_accept es a req = (a', Some out, pre)"
    by (auto split: prod.splits)
  then show ?thesis
  proof (cases rule: epoch_ballot_accept_cases)
    case denied
    then show ?thesis by (auto simp: grants_def split: epoch_paxos_message.splits)
  next
    case (granted acc)
    then show ?thesis by (simp add: epoch_promise_def store_accept_fields frame_simps store_simps)
  qed
qed

text \<open>
  C11: A promise of the epoch acceptor binds until the next restart, as far as epochs are respected:
  after it has promised an epoch ballot, no value is acknowledged in that instance at a lower epoch
  ballot (epoch first, ballot second), whatever prepares and accepts come in between, provided that
  the accept is not of an epoch below the one the acceptor is in.
\<close>

theorem epoch_promise_binds:
  fixes es :: "'h epoch_stable_storage"
  assumes "epoch_acceptor_handle es a r = (a1, Some (WRITEAHEAD_EPOCH_BALLOT_PROMISE p))"
    and "epoch_acceptor_handle es (epoch_acceptor_run es a1 rs) r' = (a2, Some (WRITEAHEAD_EPOCH_BALLOT_ACCEPTED acc))"
    and "ebac_instance acc = ebpr_instance p"
    and "ea_current_epoch (epoch_acceptor_run es a1 rs) \<le> eb_epoch (ebac_accepted_epoch_ballot acc)"
  shows "ebpr_promised_epoch_ballot p \<le> ebac_accepted_epoch_ballot acc"
proof -
  let ?i = "ebpr_instance p"
  have "ebpr_promised_epoch_ballot p \<le> epoch_promise a1 ?i"
    using epoch_handle_grants [OF assms(1)] by simp
  also have "\<dots> \<le> epoch_promise (epoch_acceptor_run es a1 rs) ?i"
    unfolding epoch_acceptor_run_def by (rule ea.run_mono)
  also have "\<dots> \<le> epoch_promise a2 ?i"
    using epoch_handle_promise_mono [of "epoch_acceptor_run es a1 rs" ?i es r'] assms(2) by simp
  also have "\<dots> = ebac_accepted_epoch_ballot acc"
    using epoch_handle_grants [OF assms(2)] assms(3,4) by (simp add: epoch_ballot.expand epoch_promise_def max_def)
  finally show ?thesis .
qed

section \<open>Restarts\<close>

text \<open>A storage on which no transaction of the acceptor fails.\<close>

definition epoch_storage_never_fails :: "'h epoch_stable_storage \<Rightarrow> bool" where
  "epoch_storage_never_fails es \<longleftrightarrow>
     (\<forall>h. let (began, h1) = epoch_stable_storage_tx_begin es h in
        began = 0 \<and> fst (epoch_stable_storage_tx_commit es h1) = 0
        \<and> (\<forall>acc. fst (epoch_stable_storage_tx_commit es (snd (ess_store_epoch_ballot_accept es h1 acc))) = 0)
        \<and> (\<forall>e. let (stored, h2) = ess_store_current_epoch es h1 e in
             stored = 0 \<and> fst (epoch_stable_storage_tx_commit es h2) = 0
             \<and> (\<forall>acc. fst (epoch_stable_storage_tx_commit es (snd (ess_store_epoch_ballot_accept es h2 acc))) = 0)))"

fun request_storable :: "(iid_t \<Rightarrow> paxos_value \<Rightarrow> bool) \<Rightarrow> epoch_request \<Rightarrow> bool" where
  "request_storable storable (Epoch_Accept req) = storable (eba_instance req) (eba_value_to_accept req)"
| "request_storable storable _ = True"

lemma epoch_storage_never_failsD:
  assumes "epoch_storage_never_fails es" "epoch_stable_storage_tx_begin es h = (rc, h1)"
  shows "rc = 0" "fst (epoch_stable_storage_tx_commit es h1) = 0"
    "fst (epoch_stable_storage_tx_commit es (snd (ess_store_epoch_ballot_accept es h1 acc))) = 0"
    "fst (ess_store_current_epoch es h1 e) = 0"
    "fst (epoch_stable_storage_tx_commit es (snd (ess_store_current_epoch es h1 e))) = 0"
    "fst (epoch_stable_storage_tx_commit es
        (snd (ess_store_epoch_ballot_accept es (snd (ess_store_current_epoch es h1 e)) acc))) = 0"
  using assms(1) [unfolded epoch_storage_never_fails_def, rule_format, of h] assms(2)
  by (simp_all add: Let_def case_prod_unfold)

lemma tx_begin_ok:
  assumes "epoch_storage_never_fails es"
  obtains h1 where "epoch_stable_storage_tx_begin es h = (0, h1)"
  using epoch_storage_never_failsD(1) [OF assms] by (metis surj_pair)

lemma fst_eq_0: "fst p = (0 :: int) \<Longrightarrow> p = (0, snd p)"
  by (simp add: prod_eq_iff)

lemma store_accept_durable:
  fixes es :: "'h epoch_stable_storage" and a :: "'h epoch_acceptor"
  assumes "epoch_stable_store es storable durable_epoch durable_accepts" "epoch_storage_never_fails es"
    and "storable (eba_instance acc) (eba_value_to_accept acc)"
  defines "a' \<equiv> writeahead_epoch_acceptor_transaction_to_store_accept es a acc False"
    and "e \<equiv> eb_epoch (eba_epoch_ballot_requested acc)"
  shows "durable_epoch (ea_stable_storage a')
      = (if ea_current_epoch a < e then e else durable_epoch (ea_stable_storage a))"
    and "durable_accepts (ea_stable_storage a')
      = (durable_accepts (ea_stable_storage a))(eba_instance acc \<mapsto> acc)"
proof -
  obtain h1 where h1: "epoch_stable_storage_tx_begin es (ea_stable_storage a) = (0, h1)"
    using assms(2) by (rule tx_begin_ok)
  note ok = epoch_storage_never_failsD(3,6) [OF assms(2) h1]
  obtain rc h2 where h2: "ess_store_current_epoch es h1 e = (rc, h2)" by fastforce
  obtain rc' h3 where h3: "ess_store_epoch_ballot_accept es (if ea_current_epoch a < e then h2 else h1) acc = (rc', h3)"
    by fastforce
  have h4: "epoch_stable_storage_tx_commit es h3 = (0, snd (epoch_stable_storage_tx_commit es h3))"
    using ok(1) [of acc] ok(2) [of e acc] h2 h3 by (intro fst_eq_0) (auto split: if_splits)
  have a': "ea_stable_storage a' = snd (epoch_stable_storage_tx_commit es h3)"
    using h1 h2 h3
    by (auto simp: a'_def e_def writeahead_epoch_acceptor_transaction_to_store_accept_def Let_def
        writeahead_epoch_acceptor_increase_epoch_def split: prod.splits if_splits)
  note tx = epoch_stable_storage_tx_begin_def epoch_stable_storage_tx_commit_def
  show "durable_epoch (ea_stable_storage a') = (if ea_current_epoch a < e then e else durable_epoch (ea_stable_storage a))"
    "durable_accepts (ea_stable_storage a') = (durable_accepts (ea_stable_storage a))(eba_instance acc \<mapsto> acc)"
    using epoch_stable_store.commit_epoch_and_accept [OF assms(1) h1 [unfolded tx] h2 _ h4 [unfolded tx] assms(3)]
      epoch_stable_store.commit_accept [OF assms(1) h1 [unfolded tx] _ h4 [unfolded tx] assms(3)] h3
    by (auto simp: a' tx split: if_splits)
qed

lemma increment_epoch_durable:
  assumes "epoch_stable_store es storable durable_epoch durable_accepts"
    and "write_ahead_epoch_acceptor_transaction_to_increment_epoch es a b = (0, a')"
  shows "durable_epoch (ea_stable_storage a') = eb_epoch b \<and> ea_current_epoch a' = eb_epoch b"
proof -
  obtain h1 h2 where "epoch_stable_storage_tx_begin es (ea_stable_storage a) = (0, h1)"
      "ess_store_current_epoch es h1 (eb_epoch b) = (0, h2)"
      "epoch_stable_storage_tx_commit es h2 = (0, ea_stable_storage a')" "ea_current_epoch a' = eb_epoch b"
    using assms(2)
    by (auto simp: write_ahead_epoch_acceptor_transaction_to_increment_epoch_def Let_def
        writeahead_epoch_acceptor_increase_epoch_def split: prod.splits if_splits)
  then show ?thesis
    using epoch_stable_store.commit_epoch [OF assms(1)]
    by (simp add: epoch_stable_storage_tx_begin_def epoch_stable_storage_tx_commit_def)
qed

lemma increment_epoch_succeeds:
  assumes "epoch_storage_never_fails es"
    and "write_ahead_epoch_acceptor_transaction_to_increment_epoch es a b = (rc, a')"
  shows "rc = 0"
proof -
  obtain h1 where h1: "epoch_stable_storage_tx_begin es (ea_stable_storage a) = (0, h1)"
    using assms(1) by (rule tx_begin_ok)
  with assms(2) epoch_storage_never_failsD(4,5) [OF assms(1) h1, of "eb_epoch b"] show ?thesis
    by (auto simp: write_ahead_epoch_acceptor_transaction_to_increment_epoch_def Let_def
        writeahead_epoch_acceptor_increase_epoch_def split: prod.splits)
qed

text \<open>The epoch in memory is the one on disk, as long as only prepares and accepts are handled.\<close>

lemma epoch_handle_durable_epoch:
  assumes store: "epoch_stable_store es storable durable_epoch durable_accepts" "epoch_storage_never_fails es"
    and inv: "durable_epoch (ea_stable_storage a) = ea_current_epoch a" and "request_storable storable r"
    and step: "epoch_acceptor_handle es a r = (a', out)"
  shows "durable_epoch (ea_stable_storage a') = ea_current_epoch a'"
proof (cases r)
  case (Standard_Prepare req)
  with step have "writeahead_epoch_acceptor_receive_prepare a req = (a', out)" by simp
  then show ?thesis by (cases rule: epoch_prepare_cases) (simp_all add: inv)
next
  case (Epoch_Prepare req)
  with step obtain pre where "writeahead_epoch_acceptor_receive_epoch_ballot_prepare es a req = (a', out, pre)"
    by (auto split: prod.splits)
  then show ?thesis
  proof (cases rule: epoch_ballot_prepare_cases)
    case (cancelled rc)
    then show ?thesis using increment_epoch_succeeds [OF store(2)] by blast
  next
    case (granted p a1)
    then show ?thesis
      using increment_epoch_durable [OF store(1), of "raise_max_proposed a (ebp_instance req)"] inv
      by (auto simp: frame_simps split: if_splits)
  qed (simp add: inv)
next
  case (Epoch_Accept req)
  with step obtain pre where "writeahead_epoch_acceptor_receive_epoch_ballot_accept es a req = (a', out, pre)"
    by (auto split: prod.splits)
  then show ?thesis
  proof (cases rule: epoch_ballot_accept_cases)
    case (granted acc)
    then show ?thesis
      using store_accept_durable(1) [OF store] assms(4) Epoch_Accept inv
      by (auto simp: store_accept_fields frame_simps max_def)
  qed (simp add: inv)
qed

lemma epoch_run_durable_epoch:
  assumes "epoch_stable_store es storable durable_epoch durable_accepts" "epoch_storage_never_fails es"
    and "durable_epoch (ea_stable_storage a) = ea_current_epoch a" "list_all (request_storable storable) rs"
  shows "durable_epoch (ea_stable_storage (epoch_acceptor_run es a rs)) = ea_current_epoch (epoch_acceptor_run es a rs)"
  using assms(3,4)
proof (induction rs arbitrary: a)
  case (Cons r rs)
  then have "durable_epoch (ea_stable_storage (fst (epoch_acceptor_handle es a r)))
      = ea_current_epoch (fst (epoch_acceptor_handle es a r))"
    using epoch_handle_durable_epoch [OF assms(1,2) Cons.prems(1), of r] by (metis list.pred_inject(2) prod.collapse)
  with Cons show ?case by (simp add: epoch_acceptor_run_def)
qed (simp add: epoch_acceptor_run_def)

lemma epoch_handle_reply_epoch:
  assumes "epoch_acceptor_handle es a r = (a', Some out)"
  shows "out = WRITEAHEAD_EPOCH_BALLOT_PROMISE p \<Longrightarrow> eb_epoch (ebpr_promised_epoch_ballot p) \<le> ea_current_epoch a'"
    and "out = WRITEAHEAD_EPOCH_BALLOT_ACCEPTED acc \<Longrightarrow>
      eb_epoch (ebac_accepted_epoch_ballot acc) \<le> ea_current_epoch a'"
  using epoch_handle_grants [OF assms]
  by (auto simp: epoch_promise_def less_eq_epoch_ballot_def)

lemma epoch_mono_run: "ea_current_epoch a \<le> ea_current_epoch (epoch_acceptor_run es a rs)"
  using ea.run_mono [where ?'h = 'a, of a 0 es rs]
  by (auto simp: epoch_acceptor_run_def epoch_promise_def less_eq_epoch_ballot_def)

text \<open>A restart reads the epoch on disk and makes the next one durable.\<close>

lemma epoch_acceptor_new_epoch:
  assumes store: "epoch_stable_store es storable durable_epoch durable_accepts" "epoch_storage_never_fails es"
    and new: "epoch_acceptor_new es h aid = Inr (b, msg)"
  shows "ea_current_epoch b = durable_epoch h + 1" "durable_epoch (ea_stable_storage b) = durable_epoch h + 1"
    and "durable_accepts (ea_stable_storage b) = durable_accepts h"
    and "msg = (if ea_current_epoch b > 0 then Some \<lparr>en_new_epoch = ea_current_epoch b\<rparr> else None)"
proof -
  note tx = epoch_stable_storage_tx_begin_def epoch_stable_storage_tx_commit_def epoch_stable_storage_open_def
  obtain h0 where h0: "epoch_stable_storage_open es h = (0, h0)"
    using new by (auto simp: epoch_acceptor_new_def split: prod.splits if_splits)
  obtain h1 where h1: "epoch_stable_storage_tx_begin es h0 = (0, h1)"
    using store(2) by (rule tx_begin_ok)
  let ?e = "durable_epoch h + 1"
  have read: "ess_get_current_epoch es h1 = (1, Some (durable_epoch h))"
    using epoch_stable_store.read_epoch_in_tx [OF store(1)] epoch_stable_store.open_keeps [OF store(1)] h0 h1
    by (simp add: tx)
  obtain rc h2 where h2: "ess_store_current_epoch es h1 ?e = (rc, h2)" by fastforce
  let ?h3 = "snd (epoch_stable_storage_tx_commit es h2)"
  have h3: "epoch_stable_storage_tx_commit es h2 = (0, ?h3)" 
    using epoch_storage_never_failsD(5) [OF store(2) h1, of ?e] h2 by (intro fst_eq_0) simp
  obtain h4 where h4: "epoch_stable_storage_tx_begin es ?h3 = (0, h4)" using store(2) by (rule tx_begin_ok)
  let ?h5 = "snd (epoch_stable_storage_tx_commit es h4)"
  note h5 = fst_eq_0 [OF epoch_storage_never_failsD(2) [OF store(2) h4]]
  have b: "ea_current_epoch b = ?e \<and> ea_stable_storage b = ?h5
      \<and> msg = (if ea_current_epoch b > 0 then Some \<lparr>en_new_epoch = ea_current_epoch b\<rparr> else None)"
    using new h0 h1 read h2 h4
    by (auto simp: epoch_acceptor_new_def Let_def writeahead_epoch_acceptor_increase_epoch_def
        writeahead_epoch_acceptor_store_trim_def create_epoch_notification_message_def
        split: if_splits option.splits)
  have "durable_epoch ?h3 = ?e \<and> durable_accepts ?h3 = durable_accepts h0"
    using epoch_stable_store.commit_epoch [OF store(1)] h1 h2 h3 by (simp add: tx)
  moreover have "durable_epoch ?h5 = durable_epoch ?h3 \<and> durable_accepts ?h5 = durable_accepts ?h3"
    using epoch_stable_store.commit_nothing [OF store(1)] h4 h5 by (simp add: tx)
  moreover have "durable_accepts h0 = durable_accepts h"
    using epoch_stable_store.open_keeps [OF store(1)] h0 by (simp add: tx)
  ultimately show "ea_current_epoch b = ?e" "durable_epoch (ea_stable_storage b) = ?e"
    "durable_accepts (ea_stable_storage b) = durable_accepts h"
    "msg = (if ea_current_epoch b > 0 then Some \<lparr>en_new_epoch = ea_current_epoch b\<rparr> else None)"
    using b by simp_all
qed

text \<open>
  C12: A restart raises the epoch above every promise: when an acceptor whose epoch is on disk has handled
  any sequence of prepares and accepts and is then restarted, and the restart returns an acceptor, its new
  epoch is above the epoch of every promise it gave, is on disk again and is announced.  The storage is
  one that keeps its contract and does not fail, and the epoch has not reached its maximum.  The restart
  does not return an acceptor when a stored acceptance has to be recovered, which is undefined in the code
  (\<open>epoch_paxos_storage_init_with_prepares_and_accepts\<close>); and a higher epoch alone does not protect the
  promises (\<open>restarted_acceptor_accepts_old_epoch\<close>).
\<close>

theorem restart_outranks_promises:
  fixes es :: "'h epoch_stable_storage"
  assumes "epoch_stable_store es storable durable_epoch durable_accepts" "epoch_storage_never_fails es"
    and "durable_epoch (ea_stable_storage a) = ea_current_epoch a"
    and "list_all (request_storable storable) (rs @ r # rs')"
    and "epoch_acceptor_handle es (epoch_acceptor_run es a rs) r = (a1, Some (WRITEAHEAD_EPOCH_BALLOT_PROMISE p))"
    and "epoch_acceptor_new es (ea_stable_storage (epoch_acceptor_run es a1 rs')) aid = Inr (b, msg)"
    and "ea_current_epoch (epoch_acceptor_run es a1 rs') \<noteq> UINT32_MAX"
  shows "durable_epoch (ea_stable_storage b) = ea_current_epoch b
    \<and> msg = Some \<lparr>en_new_epoch = ea_current_epoch b\<rparr>
    \<and> eb_epoch (ebpr_promised_epoch_ballot p) < ea_current_epoch b"
proof -
  let ?stopped = "epoch_acceptor_run es a1 rs'"
  have "durable_epoch (ea_stable_storage (epoch_acceptor_run es a rs)) = ea_current_epoch (epoch_acceptor_run es a rs)"
    using epoch_run_durable_epoch [OF assms(1-3)] assms(4) by simp
  then have "durable_epoch (ea_stable_storage a1) = ea_current_epoch a1"
    using epoch_handle_durable_epoch [OF assms(1,2) _ _ assms(5)] assms(4) by simp
  then have "durable_epoch (ea_stable_storage ?stopped) = ea_current_epoch ?stopped"
    using epoch_run_durable_epoch [OF assms(1,2)] assms(4) by simp
  note new = epoch_acceptor_new_epoch [OF assms(1,2,6), unfolded this]
  have lt: "e < ea_current_epoch b" if "e \<le> ea_current_epoch a1" for e
    using u32_le_iff_lt_Suc [OF assms(7), of e] new(1) order.trans [OF that epoch_mono_run [of a1 es rs']] by simp
  then have "0 < ea_current_epoch b" using word_zero_le by blast
  then show ?thesis using new epoch_handle_reply_epoch [OF assms(5)] lt by auto
qed

section \<open>Acknowledgements are durable\<close>

text \<open>
  C13: What the epoch acceptor acknowledges is on disk: after it has answered an accept with an
  acknowledgement, stable storage holds exactly the accepted record in that instance, the records of
  other instances are untouched, and memory reports the same record.  The storage keeps its contract
  and does not fail.
\<close>

theorem epoch_acks_are_durable:
  fixes es :: "'h epoch_stable_storage"
  assumes "epoch_stable_store es storable durable_epoch durable_accepts" "epoch_storage_never_fails es"
    and "storable (eba_instance req) (eba_value_to_accept req)"
    and "epoch_acceptor_handle es a (Epoch_Accept req) = (a', Some (WRITEAHEAD_EPOCH_BALLOT_ACCEPTED acc))"
  shows "durable_accepts (ea_stable_storage a') = (durable_accepts (ea_stable_storage a))(ebac_instance acc \<mapsto>
        \<lparr>eba_instance = ebac_instance acc, eba_epoch_ballot_requested = ebac_accepted_epoch_ballot acc,
         eba_value_to_accept = ebac_accepted_value acc\<rparr>)
    \<and> lazy_get_of_epoch_ballot_accept (ea_volatile_storage a') (ebac_instance acc) = (True, req)"
proof -
  obtain pre where "writeahead_epoch_acceptor_receive_epoch_ballot_accept es a req
      = (a', Some (WRITEAHEAD_EPOCH_BALLOT_ACCEPTED acc), pre)"
    using assms(4) by (auto split: prod.splits)
  then show ?thesis
  proof (cases rule: epoch_ballot_accept_cases)
    case (granted acc')
    then show ?thesis
      using store_accept_durable(2) [OF assms(1-3), of "raise_max_proposed a (eba_instance req)"]
      by (cases req) (simp add: frame_simps store_accept_fields store_simps)
  qed simp
qed

section \<open>Concrete acceptors\<close>

text \<open>
  Acceptor 1 after its first start on an empty database.  \<open>restarted\<close> is the acceptor that a restart
  on the given disk creates.
\<close>

definition epoch_storage :: "(alist_db, alist_db) mdb \<Rightarrow> (alist_db, alist_db) lmdb_storage epoch_stable_storage" where
  "epoch_storage m = epoch_stable_storage_lmdb_init m (replicate 12 0)"

definition fresh_epoch_acceptor :: "(alist_db, alist_db) lmdb_storage epoch_acceptor" where
  "fresh_epoch_acceptor =
     \<lparr>ea_id = 1,
      ea_stable_storage = \<lparr>ls_env = [(CURRENT_EPOCH_KEY, u32_to_bytes 1)], ls_txn = None, ls_acceptor_id = 1\<rparr>,
      ea_volatile_storage = epoch_hash_mapped_memory_init 0, ea_trim_instance = 0, ea_current_epoch = 1,
      ea_max_proposed_instance = 0\<rparr>"

definition restarted :: "(alist_db, alist_db) mdb \<Rightarrow> (alist_db, alist_db) lmdb_storage
    \<Rightarrow> (alist_db, alist_db) lmdb_storage epoch_acceptor" where
  "restarted m h = (case epoch_acceptor_new (epoch_storage m) h 1 of Inr (a, _) \<Rightarrow> a | Inl _ \<Rightarrow> fresh_epoch_acceptor)"

lemma fresh_epoch_acceptor_started:
  "let a = restarted alist_mdb (lmdb_storage_new_standard [] 1) in
   ea_current_epoch a = ea_current_epoch fresh_epoch_acceptor
   \<and> ls_env (ea_stable_storage a) = ls_env (ea_stable_storage fresh_epoch_acceptor)
   \<and> ea_trim_instance a = ea_trim_instance fresh_epoch_acceptor"
  by code_simp

lemma epoch_storage_never_fails_alist [simp]: "epoch_storage_never_fails (epoch_storage alist_mdb)"
  by (auto simp: epoch_storage_never_fails_def epoch_storage_def epoch_stable_storage_tx_begin_def
      epoch_stable_storage_tx_commit_def epoch_lmdb_init_defs lmdb_storage_tx_begin_def lmdb_storage_tx_commit_def
      txn_put_def alist_mdb_def raise_max_instance_def lmdb_storage_put_max_instance_def split: option.split)

lemma epoch_storage_contract:
  "epoch_stable_store (epoch_storage alist_mdb) lmdb_storable
     (\<lambda>s. number_of (map_of (ls_env s)) CURRENT_EPOCH_KEY) (\<lambda>s. epoch_accept_of (map_of (ls_env s)))"
  unfolding epoch_storage_def by (rule alist.epoch_lmdb.epoch_stable_store_axioms)

theorem epoch_promise_binds_witness:
  "let es = epoch_storage alist_mdb;
       h = epoch_acceptor_handle es fresh_epoch_acceptor (Standard_Prepare \<lparr>prep_iid = 3, prep_ballot = Ballot 5 1\<rparr>)
   in Epoch_Ballot 1 (Ballot 5 1) \<le> Epoch_Ballot 1 (Ballot 6 2)
     \<and> (\<exists>acc. snd (epoch_acceptor_handle es (fst h) (Epoch_Accept \<lparr>eba_instance = 3,
            eba_epoch_ballot_requested = Epoch_Ballot 1 (Ballot 6 2), eba_value_to_accept = [9]\<rparr>))
          = Some (WRITEAHEAD_EPOCH_BALLOT_ACCEPTED acc))"
proof -
  let ?es = "epoch_storage alist_mdb"
  let ?h = "epoch_acceptor_handle ?es fresh_epoch_acceptor (Standard_Prepare \<lparr>prep_iid = 3, prep_ballot = Ballot 5 1\<rparr>)"
  let ?r = "Epoch_Accept \<lparr>eba_instance = 3, eba_epoch_ballot_requested = Epoch_Ballot 1 (Ballot 6 2),
      eba_value_to_accept = [9]\<rparr>"
  let ?p = "\<lparr>ebpr_acceptor_id = 1, ebpr_instance = 3, ebpr_promised_epoch_ballot = Epoch_Ballot 1 (Ballot 5 1),
         ebpr_last_accepted_ballot = Epoch_Ballot 0 (Ballot 0 0), ebpr_last_accepted_value = []\<rparr>"
  let ?acc = "\<lparr>ebac_acceptor_id = 1, ebac_instance = 3, ebac_accepted_epoch_ballot = Epoch_Ballot 1 (Ballot 6 2),
         ebac_accepted_value = [9]\<rparr>"
  have h: "?h = (fst ?h, Some (WRITEAHEAD_EPOCH_BALLOT_PROMISE ?p))" by (rule prod_eqI) (simp, code_simp)
  have acc: "snd (epoch_acceptor_handle ?es (fst ?h) ?r) = Some (WRITEAHEAD_EPOCH_BALLOT_ACCEPTED ?acc)" by code_simp
  have "ea_current_epoch (fst ?h) \<le> 1" by code_simp
  with epoch_promise_binds [OF h, of "[]" ?r "fst (epoch_acceptor_handle ?es (fst ?h) ?r)" ?acc] acc
  show ?thesis by (simp add: epoch_acceptor_run_def prod_eq_iff)
qed

theorem restart_outranks_promises_witness:
  "let es = epoch_storage alist_mdb;
       h = epoch_acceptor_handle es fresh_epoch_acceptor (Standard_Prepare \<lparr>prep_iid = 3, prep_ballot = Ballot 5 1\<rparr>)
   in \<exists>p. snd h = Some (WRITEAHEAD_EPOCH_BALLOT_PROMISE p) \<and> eb_epoch (ebpr_promised_epoch_ballot p) = 1
        \<and> 1 < ea_current_epoch (restarted alist_mdb (ea_stable_storage (fst h)))"
proof -
  let ?es = "epoch_storage alist_mdb"
  let ?r = "Standard_Prepare \<lparr>prep_iid = 3, prep_ballot = Ballot 5 1\<rparr>"
  let ?h = "epoch_acceptor_handle ?es fresh_epoch_acceptor ?r"
  let ?p = "\<lparr>ebpr_acceptor_id = 1, ebpr_instance = 3, ebpr_promised_epoch_ballot = Epoch_Ballot 1 (Ballot 5 1),
         ebpr_last_accepted_ballot = Epoch_Ballot 0 (Ballot 0 0), ebpr_last_accepted_value = []\<rparr>"
  have h: "?h = (fst ?h, Some (WRITEAHEAD_EPOCH_BALLOT_PROMISE ?p))" by (rule prod_eqI) (simp, code_simp)
  let ?new = "epoch_acceptor_new ?es (ea_stable_storage (fst ?h)) 1"
  have "isl ?new = False" by code_simp
  then obtain b msg where new: "?new = Inr (b, msg)" by (cases ?new) auto
  have inv: "number_of (map_of (ls_env (ea_stable_storage fresh_epoch_acceptor))) CURRENT_EPOCH_KEY
      = ea_current_epoch fresh_epoch_acceptor" by code_simp
  have "ea_current_epoch (fst ?h) \<noteq> UINT32_MAX" by code_simp
  with restart_outranks_promises [OF epoch_storage_contract epoch_storage_never_fails_alist inv, of "[]" ?r "[]"
      "fst ?h" ?p 1 b msg] h new
  have "1 < ea_current_epoch (restarted alist_mdb (ea_stable_storage (fst ?h)))"
    by (simp add: epoch_acceptor_run_def restarted_def)
  moreover have "snd ?h = Some (WRITEAHEAD_EPOCH_BALLOT_PROMISE ?p)" using h by (metis snd_conv)
  ultimately show ?thesis unfolding Let_def by (intro exI [of _ ?p]) simp
qed

theorem epoch_acks_are_durable_witness:
  "epoch_accept_of (map_of (ls_env (ea_stable_storage (fst (epoch_acceptor_handle (epoch_storage alist_mdb)
      fresh_epoch_acceptor (Epoch_Accept \<lparr>eba_instance = 3,
        eba_epoch_ballot_requested = Epoch_Ballot 4 (Ballot 6 2), eba_value_to_accept = [9]\<rparr>)))))) 3
   = Some \<lparr>eba_instance = 3, eba_epoch_ballot_requested = Epoch_Ballot 4 (Ballot 6 2), eba_value_to_accept = [9]\<rparr>"
proof -
  let ?req = "\<lparr>eba_instance = 3, eba_epoch_ballot_requested = Epoch_Ballot 4 (Ballot 6 2),
      eba_value_to_accept = [9]\<rparr>"
  let ?h = "epoch_acceptor_handle (epoch_storage alist_mdb) fresh_epoch_acceptor (Epoch_Accept ?req)"
  let ?acc = "\<lparr>ebac_acceptor_id = 1, ebac_instance = 3, ebac_accepted_epoch_ballot = Epoch_Ballot 4 (Ballot 6 2),
         ebac_accepted_value = [9]\<rparr>"
  have h: "?h = (fst ?h, Some (WRITEAHEAD_EPOCH_BALLOT_ACCEPTED ?acc))" by (rule prod_eqI) (simp, code_simp)
  have "lmdb_storable (eba_instance ?req) (eba_value_to_accept ?req)"
    by (simp add: lmdb_storable_def CURRENT_EPOCH_KEY_numeral)
  from epoch_acks_are_durable [OF epoch_storage_contract epoch_storage_never_fails_alist this h]
  show ?thesis by simp
qed

section \<open>Where the acceptor falls short\<close>

text \<open>
  A restart does not protect old promises after all: the acceptor promises ballot 5.1 in its epoch
  1 and restarts in epoch 2; because \<open>epoch_ballot_greater_than\<close> lets a higher ballot outrank a higher
  epoch, and the restart has forgotten the promised ballot, it then acknowledges the lower ballot 3.2
  of the old epoch 1.
\<close>

theorem restarted_acceptor_accepts_old_epoch:
  "let es = epoch_storage alist_mdb;
       h = epoch_acceptor_handle es fresh_epoch_acceptor (Standard_Prepare \<lparr>prep_iid = 3, prep_ballot = Ballot 5 1\<rparr>);
       b = restarted alist_mdb (ea_stable_storage (fst h));
       h' = epoch_acceptor_handle es b (Epoch_Accept \<lparr>eba_instance = 3,
              eba_epoch_ballot_requested = Epoch_Ballot 1 (Ballot 3 2), eba_value_to_accept = [9]\<rparr>)
   in snd h = Some (WRITEAHEAD_EPOCH_BALLOT_PROMISE \<lparr>ebpr_acceptor_id = 1, ebpr_instance = 3,
         ebpr_promised_epoch_ballot = Epoch_Ballot 1 (Ballot 5 1),
         ebpr_last_accepted_ballot = Epoch_Ballot 0 (Ballot 0 0), ebpr_last_accepted_value = []\<rparr>)
     \<and> ea_current_epoch b = 2
     \<and> snd h' = Some (WRITEAHEAD_EPOCH_BALLOT_ACCEPTED \<lparr>ebac_acceptor_id = 1, ebac_instance = 3,
         ebac_accepted_epoch_ballot = Epoch_Ballot 1 (Ballot 3 2), ebac_accepted_value = [9]\<rparr>)"
  by code_simp

text \<open>
  An epoch learned from a notification is not stored: the store is attempted outside of a
  transaction, where LMDB rejects it and \<open>lmdb_store_current_epoch\<close> hides the error.  The acceptor
  goes on in the new epoch, in memory only, so that a restart falls behind it.
\<close>

theorem notified_epoch_is_not_stored:
  fixes m :: "('e, 't) mdb"
  assumes "ls_txn (ea_stable_storage a) = None" "ea_current_epoch a < en_new_epoch msg"
  shows "writeahead_epoch_acceptor_receive_epoch_notification (epoch_stable_storage_lmdb_init m junk) a msg
    = (a\<lparr>ea_current_epoch := en_new_epoch msg\<rparr>, True)"
  using assms
  by (simp add: writeahead_epoch_acceptor_receive_epoch_notification_def epoch_lmdb_init_defs
      writeahead_epoch_acceptor_increase_epoch_def txn_put_def)

theorem notified_epoch_is_not_stored_witness:
  "let a = fst (writeahead_epoch_acceptor_receive_epoch_notification (epoch_storage alist_mdb) fresh_epoch_acceptor
       \<lparr>en_new_epoch = 7\<rparr>)
   in ea_current_epoch a = 7 \<and> ea_current_epoch (restarted alist_mdb (ea_stable_storage a)) = 2"
proof -
  have a: "writeahead_epoch_acceptor_receive_epoch_notification (epoch_storage alist_mdb) fresh_epoch_acceptor
       \<lparr>en_new_epoch = 7\<rparr> = (fresh_epoch_acceptor\<lparr>ea_current_epoch := 7\<rparr>, True)"
    unfolding epoch_storage_def by (subst notified_epoch_is_not_stored) (simp_all add: fresh_epoch_acceptor_def)
  have "ea_current_epoch (restarted alist_mdb (ea_stable_storage fresh_epoch_acceptor)) = 2" by code_simp
  then show ?thesis by (simp add: a)
qed

text \<open>
  The acceptor ignores whether its transaction was committed: on a full disk it acknowledges a
  value of which the disk holds nothing.
\<close>

theorem full_disk_acks_are_lost:
  "let h = epoch_acceptor_handle (epoch_storage full_disk) fresh_epoch_acceptor (Epoch_Accept \<lparr>eba_instance = 3,
         eba_epoch_ballot_requested = Epoch_Ballot 1 (Ballot 6 2), eba_value_to_accept = [9]\<rparr>)
   in snd h = Some (WRITEAHEAD_EPOCH_BALLOT_ACCEPTED \<lparr>ebac_acceptor_id = 1, ebac_instance = 3,
         ebac_accepted_epoch_ballot = Epoch_Ballot 1 (Ballot 6 2), ebac_accepted_value = [9]\<rparr>)
     \<and> ls_env (ea_stable_storage (fst h)) = ls_env (ea_stable_storage fresh_epoch_acceptor)"
  by code_simp

end
