(* ===== verification/Epoch_Learner.thy ===== *)
theory Epoch_Learner
  imports Quorum Ballots Delivery
begin

text \<open>
  \<open>src/paxos/epoch_learner.c\<close>: the learner of epoch Paxos.  Unlike the standard learner it keeps a vote
  counter for every epoch ballot of an instance.  The pending instances are only accessed by key and are
  a map; the growing array \<open>ballots\<close> with \<open>num_ballots\<close> is a list.  Its \<open>realloc\<close> asks for too few bytes, so
  that the size of the block that is returned matters.  A handler returns \<open>None\<close> when it writes outside of
  that block or when \<open>quorum_add\<close> writes outside of its array.
\<close>

section \<open>State\<close>

record ballot_info =
  bi_ballot :: epoch_ballot
  bi_quorum :: quorum
  bi_value :: paxos_value

record epoch_instance =
  ei_instance :: iid_t
  ei_ballots :: "ballot_info list"
  ei_chosen_ballot_index :: int

record epoch_learner =
  el_acceptors :: int
  el_acceptance_quorum_size :: int
  el_late_start :: bool
  el_current_min_instance_to_execute :: iid_t
  el_highest_instance_chosen :: iid_t
  el_instances_waiting_to_execute :: "iid_t \<rightharpoonup> epoch_instance"
  el_trim_instance :: iid_t

definition epoch_learner_instance_new :: "iid_t \<Rightarrow> epoch_instance" where
  "epoch_learner_instance_new i = \<lparr>ei_instance = i, ei_ballots = [], ei_chosen_ballot_index = -1\<rparr>"

definition epoch_learner_get_existing_instance :: "epoch_learner \<Rightarrow> iid_t \<Rightarrow> epoch_instance option" where
  "epoch_learner_get_existing_instance l i = el_instances_waiting_to_execute l i"

definition epoch_learner_get_or_create_instance :: "epoch_learner \<Rightarrow> iid_t \<Rightarrow> epoch_instance \<times> epoch_learner" where
  "epoch_learner_get_or_create_instance l i =
     (case epoch_learner_get_existing_instance l i of
        Some inst \<Rightarrow> (inst, l)
      | None \<Rightarrow> let inst = epoch_learner_instance_new i
                in (inst, l\<lparr>el_instances_waiting_to_execute := (el_instances_waiting_to_execute l)(i \<mapsto> inst)\<rparr>))"

definition epoch_learner_remove_instance_from_pending :: "epoch_learner \<Rightarrow> epoch_instance \<Rightarrow> epoch_learner" where
  "epoch_learner_remove_instance_from_pending l inst =
     l\<lparr>el_instances_waiting_to_execute := (el_instances_waiting_to_execute l)(ei_instance inst := None)\<rparr>"

definition epoch_learner_new :: "paxos_config \<Rightarrow> int \<Rightarrow> epoch_learner" where
  "epoch_learner_new cfg acceptors =
     \<lparr>el_acceptors = acceptors, el_acceptance_quorum_size = cfg_quorum_2 cfg,
      el_late_start = (\<not> cfg_learner_catch_up cfg), el_current_min_instance_to_execute = 1,
      el_highest_instance_chosen = INVALID_INSTANCE, el_instances_waiting_to_execute = Map.empty,
      el_trim_instance = INVALID_INSTANCE\<rparr>"

definition epoch_learner_set_trim_instance :: "epoch_learner \<Rightarrow> iid_t \<Rightarrow> epoch_learner" where
  "epoch_learner_set_trim_instance l trim = l\<lparr>el_trim_instance := trim\<rparr>"

definition epoch_learner_get_trim_instance :: "epoch_learner \<Rightarrow> iid_t" where
  "epoch_learner_get_trim_instance l = el_trim_instance l"

definition epoch_learner_handle_late_start :: "epoch_learner \<Rightarrow> iid_t \<Rightarrow> epoch_learner" where
  "epoch_learner_handle_late_start l i =
     (if el_late_start l
      then l\<lparr>el_late_start := False, el_current_min_instance_to_execute := i, el_trim_instance := i - 1\<rparr>
      else l)"

definition epoch_learner_is_instance_outdated :: "epoch_learner \<Rightarrow> iid_t \<Rightarrow> bool" where
  "epoch_learner_is_instance_outdated l i \<longleftrightarrow> i < el_current_min_instance_to_execute l"

definition epoch_learner_is_instance_chosen :: "epoch_instance \<Rightarrow> bool" where
  "epoch_learner_is_instance_chosen inst \<longleftrightarrow> ei_chosen_ballot_index inst > -1"

section \<open>Ballots of an instance\<close>

text \<open>
  \<open>create_ballot_info\<close> asks \<open>realloc\<close> for \<open>sizeof(struct ballot_info*) * num_ballots + 1\<close> bytes and then writes
  the pointer with index \<open>num_ballots\<close>.  By the C standard this is undefined for every new ballot.  What
  happens depends on the size of the block: \<open>malloc_usable_size\<close> is that of glibc on a 64-bit machine, which
  adds a header of 8 bytes, rounds up to a multiple of 16 and never returns less than 24 bytes.
\<close>

definition malloc_usable_size :: "nat \<Rightarrow> nat" where
  "malloc_usable_size n = max 24 ((n + 8 + 15) div 16 * 16 - 8)"

definition create_ballot_info :: "epoch_learner \<Rightarrow> epoch_instance \<Rightarrow> epoch_ballot \<Rightarrow> (nat \<times> epoch_instance) option" where
  "create_ballot_info l inst eb =
     (let num_ballots = length (ei_ballots inst);
          size = malloc_usable_size (8 * num_ballots + 1)
      in if size < 8 * (num_ballots + 1) then None
         else Some (num_ballots,
           inst\<lparr>ei_ballots := ei_ballots inst @
             [\<lparr>bi_ballot = eb, bi_quorum = quorum_init (el_acceptors l) (el_acceptance_quorum_size l), bi_value = []\<rparr>]\<rparr>))"

definition get_or_create_ballot_info_record ::
    "epoch_learner \<Rightarrow> epoch_instance \<Rightarrow> epoch_ballot \<Rightarrow> (nat \<times> epoch_instance) option" where
  "get_or_create_ballot_info_record l inst eb =
     (case fold (\<lambda>i bal. if epoch_ballot_equal (bi_ballot (ei_ballots inst ! i)) eb then Some i else bal)
             [0..<length (ei_ballots inst)] None of
        Some bal \<Rightarrow> Some (bal, inst)
      | None \<Rightarrow> create_ballot_info l inst eb)"

definition instance_add_value :: "epoch_instance \<Rightarrow> nat \<Rightarrow> paxos_value \<Rightarrow> epoch_instance" where
  "instance_add_value inst k val =
     (if length (bi_value (ei_ballots inst ! k)) = 0
      then inst\<lparr>ei_ballots := (ei_ballots inst)[k := (ei_ballots inst ! k)\<lparr>bi_value := val\<rparr>]\<rparr>
      else inst)"

definition instance_add_acceptance ::
    "epoch_instance \<Rightarrow> nat \<Rightarrow> epoch_ballot_accepted \<Rightarrow> (epoch_instance \<times> bool) option" where
  "instance_add_acceptance inst k accepted =
     (case quorum_add (bi_quorum (ei_ballots inst ! k)) (sint (ebac_acceptor_id accepted)) of
        None \<Rightarrow> None
      | Some (q, new_acceptance) \<Rightarrow>
          let inst = inst\<lparr>ei_ballots := (ei_ballots inst)[k := (ei_ballots inst ! k)\<lparr>bi_quorum := q\<rparr>]\<rparr>
          in Some (instance_add_value inst k (ebac_accepted_value accepted), new_acceptance))"

definition instance_epoch_ballot_quorum_reached :: "epoch_instance \<Rightarrow> nat \<Rightarrow> bool" where
  "instance_epoch_ballot_quorum_reached inst k = quorum_reached (bi_quorum (ei_ballots inst ! k))"

definition epoch_learner_check_and_set_highest_instance_closed :: "epoch_learner \<Rightarrow> iid_t \<Rightarrow> epoch_learner" where
  "epoch_learner_check_and_set_highest_instance_closed l i =
     (if i > el_highest_instance_chosen l then l\<lparr>el_highest_instance_chosen := i\<rparr> else l)"

text \<open>The handlers write through the pointer into the table.\<close>

definition epoch_learner_put_instance :: "epoch_learner \<Rightarrow> iid_t \<Rightarrow> epoch_instance \<Rightarrow> epoch_learner" where
  "epoch_learner_put_instance l i inst =
     l\<lparr>el_instances_waiting_to_execute := (el_instances_waiting_to_execute l)(i \<mapsto> inst)\<rparr>"

section \<open>Messages\<close>

definition epoch_learner_receive_accepted ::
    "epoch_learner \<Rightarrow> epoch_ballot_accepted \<Rightarrow>
       (epoch_learner \<times> epoch_paxos_message_return_codes \<times> epoch_ballot_chosen option) option" where
  "epoch_learner_receive_accepted l ack =
     (let i = ebac_instance ack;
          l = epoch_learner_handle_late_start l i
      in if epoch_learner_is_instance_outdated l i then Some (l, MESSAGE_IGNORED, None) else
      let (inst, l) = epoch_learner_get_or_create_instance l i
      in if epoch_learner_is_instance_chosen inst then Some (l, MESSAGE_IGNORED, None) else
      case get_or_create_ballot_info_record l inst (ebac_accepted_epoch_ballot ack) of None \<Rightarrow> None | Some (k, inst) \<Rightarrow>
      (case instance_add_acceptance inst k ack of
           None \<Rightarrow> None
         | Some (inst, new_acceptance) \<Rightarrow>
             if \<not> new_acceptance then Some (epoch_learner_put_instance l i inst, MESSAGE_IGNORED, None)
             else if instance_epoch_ballot_quorum_reached inst k then
               let inst = inst\<lparr>ei_chosen_ballot_index := int k\<rparr>;
                   l = epoch_learner_put_instance l i inst;
                   l = epoch_learner_check_and_set_highest_instance_closed l i
               in Some (l, QUORUM_REACHED,
                    Some \<lparr>ebc_instance = i, ebc_chosen_epoch_ballot = ebac_accepted_epoch_ballot ack,
                          ebc_chosen_value = ebac_accepted_value ack\<rparr>)
             else Some (epoch_learner_put_instance l i inst, MESSAGE_ACKNOWLEDGED, None)))"

definition epoch_learner_receive_epoch_ballot_chosen ::
    "epoch_learner \<Rightarrow> epoch_ballot_chosen \<Rightarrow> (epoch_learner \<times> epoch_paxos_message_return_codes) option" where
  "epoch_learner_receive_epoch_ballot_chosen l chosen_msg =
     (let i = ebc_instance chosen_msg;
          l = epoch_learner_handle_late_start l i
      in if epoch_learner_is_instance_outdated l i then Some (l, MESSAGE_IGNORED) else
      let (inst, l) = epoch_learner_get_or_create_instance l i
      in if epoch_learner_is_instance_chosen inst then Some (l, MESSAGE_IGNORED) else
      case get_or_create_ballot_info_record l inst (ebc_chosen_epoch_ballot chosen_msg) of None \<Rightarrow> None | Some (k, inst) \<Rightarrow>
      let inst = instance_add_value inst k (ebc_chosen_value chosen_msg);
          inst = inst\<lparr>ei_chosen_ballot_index := int k\<rparr>;
          l = epoch_learner_put_instance l i inst
      in Some (epoch_learner_check_and_set_highest_instance_closed l i, MESSAGE_ACKNOWLEDGED))"

definition epoch_learner_receive_trim ::
    "epoch_learner \<Rightarrow> paxos_trim \<Rightarrow> epoch_learner \<times> epoch_paxos_message_return_codes" where
  "epoch_learner_receive_trim l trim =
     (if trim_iid trim > el_trim_instance l
      then (l\<lparr>el_trim_instance := trim_iid trim, el_current_min_instance_to_execute := trim_iid trim + 1,
              el_highest_instance_chosen := trim_iid trim\<rparr>, MESSAGE_ACKNOWLEDGED)
      else (l, MESSAGE_IGNORED))"

definition epoch_learner_deliver_next :: "epoch_learner \<Rightarrow> epoch_learner \<times> paxos_value option" where
  "epoch_learner_deliver_next l =
     (case epoch_learner_get_existing_instance l (el_current_min_instance_to_execute l) of
        Some inst \<Rightarrow>
          (if ei_chosen_ballot_index inst > -1
           then let out = bi_value (ei_ballots inst ! nat (ei_chosen_ballot_index inst));
                    l = epoch_learner_remove_instance_from_pending l inst
                in (l\<lparr>el_current_min_instance_to_execute := el_current_min_instance_to_execute l + 1\<rparr>, Some out)
           else (l, None))
      | None \<Rightarrow> (l, None))"

definition epoch_learner_has_holes :: "epoch_learner \<Rightarrow> (iid_t \<times> iid_t) option" where
  "epoch_learner_has_holes l =
     (if el_highest_instance_chosen l > el_current_min_instance_to_execute l
      then Some (el_current_min_instance_to_execute l, el_highest_instance_chosen l)
      else None)"

definition epoch_learner_get_instance_to_trim :: "epoch_learner \<Rightarrow> iid_t" where
  "epoch_learner_get_instance_to_trim l = el_current_min_instance_to_execute l - 1"

section \<open>Runs\<close>

datatype epoch_learner_event =
    Epoch_Accepted epoch_ballot_accepted
  | Epoch_Chosen epoch_ballot_chosen
  | Epoch_Trim paxos_trim
  | Epoch_Deliver

fun epoch_learner_step ::
    "epoch_learner \<Rightarrow> epoch_learner_event \<Rightarrow>
       (epoch_learner \<times> epoch_ballot_chosen list \<times> (iid_t \<times> paxos_value) list) option" where
  "epoch_learner_step l (Epoch_Accepted ack) =
     (case epoch_learner_receive_accepted l ack of
        None \<Rightarrow> None
      | Some (l, code, chosen) \<Rightarrow> Some (l, case chosen of None \<Rightarrow> [] | Some c \<Rightarrow> [c], []))"
| "epoch_learner_step l (Epoch_Chosen c) =
     (case epoch_learner_receive_epoch_ballot_chosen l c of None \<Rightarrow> None | Some (l, code) \<Rightarrow> Some (l, [], []))"
| "epoch_learner_step l (Epoch_Trim t) = Some (fst (epoch_learner_receive_trim l t), [], [])"
| "epoch_learner_step l Epoch_Deliver =
     (case epoch_learner_deliver_next l of
        (l', None) \<Rightarrow> Some (l', [], [])
      | (l', Some v) \<Rightarrow> Some (l', [], [(el_current_min_instance_to_execute l, v)]))"

abbreviation epoch_learner_run ::
    "epoch_learner \<Rightarrow> epoch_learner_event list \<Rightarrow>
       (epoch_learner \<times> epoch_ballot_chosen list \<times> (iid_t \<times> paxos_value) list) option" where
  "epoch_learner_run \<equiv> run_events epoch_learner_step"

lemmas epoch_learner_defs = epoch_learner_receive_accepted_def epoch_learner_receive_epoch_ballot_chosen_def
  epoch_learner_deliver_next_def epoch_learner_handle_late_start_def epoch_learner_put_instance_def
  epoch_learner_remove_instance_from_pending_def epoch_learner_check_and_set_highest_instance_closed_def

lemma epoch_learner_step_min_instance:
  assumes "\<not> el_late_start l" "\<forall>t. e \<noteq> Epoch_Trim t" "epoch_learner_step l e = Some (l', as, ds)"
  shows "\<not> el_late_start l' \<and> (ds = [] \<and> el_current_min_instance_to_execute l' = el_current_min_instance_to_execute l
     \<or> (\<exists>v. ds = [(el_current_min_instance_to_execute l, v)]
          \<and> el_current_min_instance_to_execute l' = el_current_min_instance_to_execute l + 1))"
proof -
  have create: "\<not> el_late_start l2 \<and> el_current_min_instance_to_execute l2 = el_current_min_instance_to_execute l"
    if "epoch_learner_get_or_create_instance l i = (x, l2)" for i x l2
    using that assms(1) by (auto simp: epoch_learner_get_or_create_instance_def Let_def split: option.splits)
  show ?thesis
    using assms create
    by (cases e) (auto simp: epoch_learner_defs Let_def split: option.splits prod.splits if_splits)
qed

interpretation el: ordered_delivery epoch_learner_step el_late_start el_current_min_instance_to_execute
    "\<lambda>e. \<forall>t. e \<noteq> Epoch_Trim t"
  using epoch_learner_step_min_instance by unfold_locales blast

section \<open>A learner learns only what was chosen\<close>

definition epoch_voters :: "epoch_learner_event set \<Rightarrow> iid_t \<Rightarrow> epoch_ballot \<Rightarrow> int set" where
  "epoch_voters H i eb = {sint (ebac_acceptor_id ack) | ack.
     Epoch_Accepted ack \<in> H \<and> ebac_instance ack = i \<and> ebac_accepted_epoch_ballot ack = eb}"

definition epoch_carried :: "epoch_learner_event set \<Rightarrow> iid_t \<Rightarrow> epoch_ballot \<Rightarrow> paxos_value \<Rightarrow> bool" where
  "epoch_carried H i eb v \<longleftrightarrow>
     (\<exists>ack. Epoch_Accepted ack \<in> H \<and> ebac_instance ack = i \<and> ebac_accepted_epoch_ballot ack = eb
        \<and> ebac_accepted_value ack = v)
   \<or> (\<exists>c. Epoch_Chosen c \<in> H \<and> ebc_instance c = i \<and> ebc_chosen_epoch_ballot c = eb \<and> ebc_chosen_value c = v)"

text \<open>
  The evidence for a value: a message carried it at an epoch ballot at which a chosen message or a
  quorum of acknowledgements was received.
\<close>

definition epoch_learned_from :: "epoch_learner_event set \<Rightarrow> int \<Rightarrow> iid_t \<Rightarrow> epoch_ballot \<Rightarrow> paxos_value \<Rightarrow> bool" where
  "epoch_learned_from H n i eb v \<longleftrightarrow> epoch_carried H i eb v
     \<and> ((\<exists>c. Epoch_Chosen c \<in> H \<and> ebc_instance c = i \<and> ebc_chosen_epoch_ballot c = eb)
        \<or> n \<le> int (card (epoch_voters H i eb)))"

lemma epoch_voters_finite [simp]: "finite H \<Longrightarrow> finite (epoch_voters H i eb)"
  by (rule finite_subset [of _ "(\<lambda>e. case e of Epoch_Accepted ack \<Rightarrow> sint (ebac_acceptor_id ack) | _ \<Rightarrow> 0) ` H"])
    (force simp: epoch_voters_def)+

lemma epoch_voters_mono: "H \<subseteq> K \<Longrightarrow> epoch_voters H i eb \<subseteq> epoch_voters K i eb"
  by (auto simp: epoch_voters_def)

lemma epoch_carried_mono: "epoch_carried H i eb v \<Longrightarrow> H \<subseteq> K \<Longrightarrow> epoch_carried K i eb v"
  by (auto simp: epoch_carried_def)

lemma epoch_learned_from_mono:
  assumes "epoch_learned_from H n i eb v" "H \<subseteq> K" "finite K"
  shows "epoch_learned_from K n i eb v"
proof -
  have "card (epoch_voters H i eb) \<le> card (epoch_voters K i eb)"
    using assms(2,3) by (simp add: card_mono epoch_voters_mono)
  then have "n \<le> int (card (epoch_voters K i eb))" if "n \<le> int (card (epoch_voters H i eb))" using that by linarith
  with assms(1,2) show ?thesis unfolding epoch_learned_from_def by (blast intro: epoch_carried_mono)
qed

text \<open>
  A record of a ballot counts votes that were received at that ballot, and its value, once set, was
  carried by a message at that ballot.
\<close>

definition info_ok :: "epoch_learner_event set \<Rightarrow> epoch_learner \<Rightarrow> iid_t \<Rightarrow> ballot_info \<Rightarrow> bool" where
  "info_ok H l i x \<longleftrightarrow> quorum_wf (bi_quorum x) \<and> q_quorum (bi_quorum x) = el_acceptance_quorum_size l
     \<and> q_acceptors (bi_quorum x) = el_acceptors l
     \<and> quorum_votes (bi_quorum x) \<subseteq> epoch_voters H i (bi_ballot x)
     \<and> (bi_value x = [] \<or> epoch_carried H i (bi_ballot x) (bi_value x))"

definition epoch_inst_ok :: "epoch_learner_event set \<Rightarrow> epoch_learner \<Rightarrow> iid_t \<Rightarrow> epoch_instance \<Rightarrow> bool" where
  "epoch_inst_ok H l i y \<longleftrightarrow> ei_instance y = i \<and> distinct (map bi_ballot (ei_ballots y))
     \<and> (\<forall>x \<in> set (ei_ballots y). info_ok H l i x)
     \<and> (ei_chosen_ballot_index y > -1 \<longrightarrow>
          (let x = ei_ballots y ! nat (ei_chosen_ballot_index y)
           in epoch_learned_from H (el_acceptance_quorum_size l) i (bi_ballot x) (bi_value x)))"

definition epoch_learner_ok :: "epoch_learner_event set \<Rightarrow> epoch_learner \<Rightarrow> bool" where
  "epoch_learner_ok H l \<longleftrightarrow>
     (\<forall>i y. el_instances_waiting_to_execute l i = Some y \<longrightarrow> epoch_inst_ok H l i y)"

lemma info_ok_mono: "info_ok H l i x \<Longrightarrow> H \<subseteq> K \<Longrightarrow> info_ok K l i x"
  unfolding info_ok_def by (meson epoch_carried_mono epoch_voters_mono subset_trans)

lemma epoch_inst_ok_mono: "epoch_inst_ok H l i y \<Longrightarrow> H \<subseteq> K \<Longrightarrow> finite K \<Longrightarrow> epoch_inst_ok K l i y"
  unfolding epoch_inst_ok_def by (auto simp: Let_def intro: info_ok_mono epoch_learned_from_mono)

lemma epoch_learner_ok_mono: "epoch_learner_ok H l \<Longrightarrow> H \<subseteq> K \<Longrightarrow> finite K \<Longrightarrow> epoch_learner_ok K l"
  by (auto simp: epoch_learner_ok_def intro: epoch_inst_ok_mono)

text \<open>The invariant only looks at the sizes of the learner and at its table.\<close>

definition same_sizes :: "epoch_learner \<Rightarrow> epoch_learner \<Rightarrow> bool" where
  "same_sizes l l' \<longleftrightarrow> el_acceptors l' = el_acceptors l
     \<and> el_acceptance_quorum_size l' = el_acceptance_quorum_size l"

lemma epoch_inst_ok_sizes: "same_sizes l l' \<Longrightarrow> epoch_inst_ok H l' i y = epoch_inst_ok H l i y"
  by (simp add: same_sizes_def epoch_inst_ok_def info_ok_def)

lemma epoch_learner_ok_sizes:
  "same_sizes l l' \<Longrightarrow> el_instances_waiting_to_execute l' = el_instances_waiting_to_execute l \<Longrightarrow>
     epoch_learner_ok H l' = epoch_learner_ok H l"
  by (simp add: epoch_learner_ok_def epoch_inst_ok_sizes)

lemma same_sizes_ops [simp]:
  "same_sizes l (epoch_learner_handle_late_start l i)"
  "same_sizes l (epoch_learner_put_instance l i y)"
  "same_sizes l (epoch_learner_check_and_set_highest_instance_closed l i)"
  "same_sizes l (fst (epoch_learner_receive_trim l t))"
  by (simp_all add: same_sizes_def epoch_learner_defs epoch_learner_receive_trim_def)

lemma same_sizes_trans [trans]: "same_sizes l l' \<Longrightarrow> same_sizes l' l'' \<Longrightarrow> same_sizes l l''"
  by (simp add: same_sizes_def)

lemma epoch_get_or_create_ok:
  assumes "epoch_learner_ok H l" "epoch_learner_get_or_create_instance l i = (y, l')"
  shows "epoch_inst_ok H l i y" "epoch_learner_ok H l'" "same_sizes l l'"
    "el_instances_waiting_to_execute l' = (el_instances_waiting_to_execute l)(i \<mapsto> y)"
    "el_current_min_instance_to_execute l' = el_current_min_instance_to_execute l"
proof -
  have new: "epoch_inst_ok H l i (epoch_learner_instance_new i)"
    by (simp add: epoch_inst_ok_def epoch_learner_instance_new_def)
  show y: "epoch_inst_ok H l i y" and sizes: "same_sizes l l'"
    and t: "el_instances_waiting_to_execute l' = (el_instances_waiting_to_execute l)(i \<mapsto> y)"
    and "el_current_min_instance_to_execute l' = el_current_min_instance_to_execute l"
    using assms new
    by (auto simp: epoch_learner_get_or_create_instance_def epoch_learner_get_existing_instance_def Let_def
        epoch_learner_ok_def same_sizes_def fun_upd_idem split: option.splits)
  show "epoch_learner_ok H l'"
    using assms(1) y t epoch_inst_ok_sizes [OF sizes] by (auto simp: epoch_learner_ok_def)
qed

section \<open>The records of an instance\<close>

lemma fold_last_match:
  "fold (\<lambda>i b. if P i then Some i else b) is b0 = r \<Longrightarrow>
     r = b0 \<and> (\<forall>i \<in> set is. \<not> P i) \<or> (\<exists>k \<in> set is. P k \<and> r = Some k)"
  by (induction "is" arbitrary: b0) (fastforce split: if_splits)+

text \<open>The block is always large enough, so that a record is always found or made.\<close>

lemma malloc_has_room: "8 * (n + 1) \<le> malloc_usable_size (8 * n + 1)"
  unfolding malloc_usable_size_def by presburger

lemma create_ballot_info_eq [simp]:
  "create_ballot_info l inst eb = Some (length (ei_ballots inst), inst\<lparr>ei_ballots := ei_ballots inst @
     [\<lparr>bi_ballot = eb, bi_quorum = quorum_init (el_acceptors l) (el_acceptance_quorum_size l), bi_value = []\<rparr>]\<rparr>)"
  using malloc_has_room [of "length (ei_ballots inst)"] by (simp add: create_ballot_info_def Let_def)

lemma ballot_record_exists:
  obtains k y1 where "get_or_create_ballot_info_record l y eb = Some (k, y1)"
  using that
  by (cases "get_or_create_ballot_info_record l y eb") (auto simp: get_or_create_ballot_info_record_def split: option.splits)

lemma ballot_record_ok:
  assumes "epoch_inst_ok H l i y" "get_or_create_ballot_info_record l y eb = Some (k, y1)"
  shows "k < length (ei_ballots y1)" "bi_ballot (ei_ballots y1 ! k) = eb"
    "distinct (map bi_ballot (ei_ballots y1))" "\<forall>x \<in> set (ei_ballots y1). info_ok H l i x"
    "set (ei_ballots y) \<subseteq> set (ei_ballots y1)" "ei_instance y1 = i"
    "ei_chosen_ballot_index y1 = ei_chosen_ballot_index y"
    "x \<in> set (ei_ballots y1) \<Longrightarrow> x \<in> set (ei_ballots y) \<or> bi_ballot x = eb \<and> quorum_votes (bi_quorum x) = {}"
proof -
  let ?r = "fold (\<lambda>i bal. if epoch_ballot_equal (bi_ballot (ei_ballots y ! i)) eb then Some i else bal)
      [0..<length (ei_ballots y)] None"
  have y: "ei_instance y = i" "distinct (map bi_ballot (ei_ballots y))" "\<forall>x \<in> set (ei_ballots y). info_ok H l i x"
    using assms(1) by (simp_all add: epoch_inst_ok_def)
  consider (found) "k < length (ei_ballots y)" "bi_ballot (ei_ballots y ! k) = eb" "y1 = y"
    | (new) "k = length (ei_ballots y)" "eb \<notin> bi_ballot ` set (ei_ballots y)"
        "y1 = y\<lparr>ei_ballots := ei_ballots y @ [\<lparr>bi_ballot = eb,
            bi_quorum = quorum_init (el_acceptors l) (el_acceptance_quorum_size l), bi_value = []\<rparr>]\<rparr>"
    using assms(2) fold_last_match [of _ _ _ ?r]
    by (fastforce simp: get_or_create_ballot_info_record_def in_set_conv_nth
        split: option.splits)
  then have "k < length (ei_ballots y1) \<and> bi_ballot (ei_ballots y1 ! k) = eb
    \<and> distinct (map bi_ballot (ei_ballots y1)) \<and> (\<forall>x \<in> set (ei_ballots y1). info_ok H l i x)
    \<and> set (ei_ballots y) \<subseteq> set (ei_ballots y1) \<and> ei_instance y1 = i
    \<and> ei_chosen_ballot_index y1 = ei_chosen_ballot_index y
    \<and> (\<forall>x \<in> set (ei_ballots y1). x \<in> set (ei_ballots y) \<or> bi_ballot x = eb \<and> quorum_votes (bi_quorum x) = {})"
    by cases (use y in \<open>auto simp: info_ok_def\<close>)
  then show "k < length (ei_ballots y1)" "bi_ballot (ei_ballots y1 ! k) = eb"
    "distinct (map bi_ballot (ei_ballots y1))" "\<forall>x \<in> set (ei_ballots y1). info_ok H l i x"
    "set (ei_ballots y) \<subseteq> set (ei_ballots y1)" "ei_instance y1 = i"
    "ei_chosen_ballot_index y1 = ei_chosen_ballot_index y"
    "x \<in> set (ei_ballots y1) \<Longrightarrow> x \<in> set (ei_ballots y) \<or> bi_ballot x = eb \<and> quorum_votes (bi_quorum x) = {}"
    by blast+
qed

lemma instance_add_value_eq:
  "k < length (ei_ballots y) \<Longrightarrow> instance_add_value y k v = y\<lparr>ei_ballots := (ei_ballots y)[k :=
     (ei_ballots y ! k)\<lparr>bi_value := (if bi_value (ei_ballots y ! k) = [] then v else bi_value (ei_ballots y ! k))\<rparr>]\<rparr>"
  by (auto simp: instance_add_value_def list_update_id)

text \<open>Replacing the record of a ballot by one that is right for that ballot.\<close>

lemma record_update:
  assumes "k < length xs" "distinct (map bi_ballot xs)" "bi_ballot z = bi_ballot (xs ! k)"
    "\<forall>x \<in> set xs. info_ok K l i x" "info_ok K l i z"
  shows "distinct (map bi_ballot (xs[k := z]))" "\<forall>x \<in> set (xs[k := z]). info_ok K l i x"
proof -
  have "map bi_ballot (xs[k := z]) = map bi_ballot xs"
    using assms(1,3) by (simp add: map_update list_update_same_conv)
  with assms(2) show "distinct (map bi_ballot (xs[k := z]))" by simp
  show "\<forall>x \<in> set (xs[k := z]). info_ok K l i x"
    using assms(4,5) set_update_subset_insert [of xs k z] by blast
qed

lemma add_acceptance_ok:
  assumes y: "epoch_inst_ok K l i y" and rec: "get_or_create_ballot_info_record l y eb = Some (k, y1)"
    and ack: "Epoch_Accepted ack \<in> K" "ebac_instance ack = i" "ebac_accepted_epoch_ballot ack = eb"
    and add: "instance_add_acceptance y1 k ack = Some (y2, new)"
  obtains z where "y2 = y1\<lparr>ei_ballots := (ei_ballots y1)[k := z]\<rparr>" "k < length (ei_ballots y1)"
    "distinct (map bi_ballot (ei_ballots y2))" "\<forall>x \<in> set (ei_ballots y2). info_ok K l i x"
    "bi_ballot z = eb" "epoch_carried K i eb (bi_value z)" "info_ok K l i z"
    "quorum_votes (bi_quorum z) = insert (sint (ebac_acceptor_id ack)) (quorum_votes (bi_quorum (ei_ballots y1 ! k)))"
    "new = (sint (ebac_acceptor_id ack) \<notin> quorum_votes (bi_quorum (ei_ballots y1 ! k)))"
proof -
  note r = ballot_record_ok [OF y rec]
  let ?x = "ei_ballots y1 ! k" and ?a = "sint (ebac_acceptor_id ack)"
  from add obtain q where q: "quorum_add (bi_quorum ?x) ?a = Some (q, new)"
    by (auto simp: instance_add_acceptance_def Let_def split: option.splits)
  define z where "z = ?x\<lparr>bi_quorum := q, bi_value := (if bi_value ?x = [] then ebac_accepted_value ack else bi_value ?x)\<rparr>"
  have y2: "y2 = y1\<lparr>ei_ballots := (ei_ballots y1)[k := z]\<rparr>"
    using add q r(1) by (auto simp: instance_add_acceptance_def instance_add_value_eq z_def)
  have x: "info_ok K l i ?x" using r(1,4) by simp
  have a: "?a \<in> epoch_voters K i eb" using ack by (auto simp: epoch_voters_def)
  have carried: "epoch_carried K i eb (bi_value z)"
    using x ack r(2) by (auto simp: z_def info_ok_def epoch_carried_def)
  have z: "info_ok K l i z"
    using x quorum_add_cases [OF q] quorum_add_wf [OF _ q] a r(2) carried
    by (auto simp: z_def info_ok_def)
  have b: "bi_ballot z = eb" using r(2) by (simp add: z_def)
  from record_update [OF r(1,3) _ r(4) z] b r(2)
  have "distinct (map bi_ballot (ei_ballots y2))" "\<forall>x \<in> set (ei_ballots y2). info_ok K l i x"
    by (simp_all add: y2)
  then show thesis
    using that [of z] y2 r(1) b carried z quorum_add_cases [OF q] by (simp add: z_def)
qed

section \<open>Every event keeps the invariant\<close>

lemma put_instance_table [simp]:
  "el_instances_waiting_to_execute (epoch_learner_put_instance l i y) = (el_instances_waiting_to_execute l)(i \<mapsto> y)"
  "el_instances_waiting_to_execute (epoch_learner_check_and_set_highest_instance_closed l i) = el_instances_waiting_to_execute l"
  "el_instances_waiting_to_execute (epoch_learner_handle_late_start l i) = el_instances_waiting_to_execute l"
  by (simp_all add: epoch_learner_defs)

lemma epoch_put_ok:
  assumes "epoch_learner_ok K l" "epoch_inst_ok K l i y"
  shows "epoch_learner_ok K (epoch_learner_put_instance l i y)"
proof -
  have "epoch_inst_ok K (epoch_learner_put_instance l i y) j w = epoch_inst_ok K l j w" for j w
    by (rule epoch_inst_ok_sizes) simp
  then show ?thesis using assms by (auto simp: epoch_learner_ok_def)
qed

lemma epoch_late_start_ok: "epoch_learner_ok K (epoch_learner_handle_late_start l i) = epoch_learner_ok K l"
  by (rule epoch_learner_ok_sizes) (simp_all add: epoch_learner_handle_late_start_def same_sizes_def)

lemma epoch_closed_ok: "epoch_learner_ok K (epoch_learner_check_and_set_highest_instance_closed l i) = epoch_learner_ok K l"
  by (rule epoch_learner_ok_sizes) (simp_all add: epoch_learner_check_and_set_highest_instance_closed_def same_sizes_def)

lemma epoch_trim_ok: "epoch_learner_ok K (fst (epoch_learner_receive_trim l t)) = epoch_learner_ok K l"
  by (rule epoch_learner_ok_sizes) (simp_all add: epoch_learner_receive_trim_def same_sizes_def)

lemma epoch_deliver_ok:
  assumes "epoch_learner_ok K l" "epoch_learner_deliver_next l = (l', out)"
  shows "epoch_learner_ok K l'" "same_sizes l l'"
    and "\<And>v. out = Some v \<Longrightarrow> \<exists>eb. epoch_learned_from K (el_acceptance_quorum_size l) (el_current_min_instance_to_execute l) eb v"
proof -
  show sizes: "same_sizes l l'"
    using assms(2) by (auto simp: epoch_learner_defs same_sizes_def Let_def split: option.splits if_splits)
  show "epoch_learner_ok K l'"
    using assms epoch_inst_ok_sizes [OF sizes]
    by (auto simp: epoch_learner_ok_def epoch_learner_defs epoch_learner_get_existing_instance_def Let_def
        split: option.splits if_splits)
  show "\<exists>eb. epoch_learned_from K (el_acceptance_quorum_size l) (el_current_min_instance_to_execute l) eb v"
    if "out = Some v" for v
    using assms that
    by (auto simp: epoch_learner_ok_def epoch_inst_ok_def epoch_learner_defs epoch_learner_get_existing_instance_def
        Let_def split: option.splits if_splits)
qed

text \<open>What an acknowledgement and a chosen message do to a learner.\<close>

lemmas receive_accepted_simps = epoch_learner_receive_accepted_def epoch_learner_is_instance_outdated_def
  epoch_learner_is_instance_chosen_def instance_epoch_ballot_quorum_reached_def Let_def

lemma epoch_accepted_cases:
  assumes "epoch_learner_receive_accepted l ack = Some (l', code, out)"
  defines "i \<equiv> ebac_instance ack" and "l1 \<equiv> epoch_learner_handle_late_start l (ebac_instance ack)"
  obtains (outdated) "i < el_current_min_instance_to_execute l1" "l' = l1" "out = None"
  | (known) y where "\<not> i < el_current_min_instance_to_execute l1"
      "epoch_learner_get_or_create_instance l1 i = (y, l')" "ei_chosen_ballot_index y > -1" "out = None"
  | (counted) y l2 k y1 y2 new where "\<not> i < el_current_min_instance_to_execute l1"
      "epoch_learner_get_or_create_instance l1 i = (y, l2)" "\<not> ei_chosen_ballot_index y > -1"
      "get_or_create_ballot_info_record l2 y (ebac_accepted_epoch_ballot ack) = Some (k, y1)"
      "instance_add_acceptance y1 k ack = Some (y2, new)"
      "l' = epoch_learner_put_instance l2 i y2" "out = None" "new \<Longrightarrow> \<not> quorum_reached (bi_quorum (ei_ballots y2 ! k))"
  | (reached) y l2 k y1 y2 where "\<not> i < el_current_min_instance_to_execute l1"
      "epoch_learner_get_or_create_instance l1 i = (y, l2)" "\<not> ei_chosen_ballot_index y > -1"
      "get_or_create_ballot_info_record l2 y (ebac_accepted_epoch_ballot ack) = Some (k, y1)"
      "instance_add_acceptance y1 k ack = Some (y2, True)" "quorum_reached (bi_quorum (ei_ballots y2 ! k))"
      "l' = epoch_learner_check_and_set_highest_instance_closed
         (epoch_learner_put_instance l2 i (y2\<lparr>ei_chosen_ballot_index := int k\<rparr>)) i"
      "out = Some \<lparr>ebc_instance = i, ebc_chosen_epoch_ballot = ebac_accepted_epoch_ballot ack,
         ebc_chosen_value = ebac_accepted_value ack\<rparr>"
proof (cases "i < el_current_min_instance_to_execute l1")
  case True
  then show thesis
    using assms(1) by (intro outdated) (simp_all add: receive_accepted_simps i_def l1_def)
next
  case recent: False
  obtain y l2 where y: "epoch_learner_get_or_create_instance l1 i = (y, l2)" by force
  obtain k y1 where k: "get_or_create_ballot_info_record l2 y (ebac_accepted_epoch_ballot ack) = Some (k, y1)"
    by (rule ballot_record_exists)
  note def = assms(1) recent y [unfolded i_def l1_def]
  show thesis
  proof (cases "ei_chosen_ballot_index y > -1")
    case True
    with def show thesis by (intro known [OF recent _ True]) (simp_all add: receive_accepted_simps i_def l1_def)
  next
    case unchosen: False
    with def k obtain y2 new where add: "instance_add_acceptance y1 k ack = Some (y2, new)"
      by (auto simp: receive_accepted_simps i_def l1_def split: option.splits)
    show thesis
    proof (cases "new \<and> quorum_reached (bi_quorum (ei_ballots y2 ! k))")
      case True
      with def k add unchosen show thesis
        by (intro reached [OF recent y unchosen k]) (auto simp: receive_accepted_simps i_def l1_def)
    next
      case False
      with def k add unchosen show thesis
        by (intro counted [OF recent y unchosen k add]) (auto simp: receive_accepted_simps i_def l1_def split: if_splits)
    qed
  qed
qed

lemma epoch_accepted_ok:
  assumes ok: "epoch_learner_ok K l" and K: "finite K" "Epoch_Accepted ack \<in> K"
    and step: "epoch_learner_receive_accepted l ack = Some (l', code, out)"
  shows "epoch_learner_ok K l' \<and> same_sizes l l'
    \<and> (\<forall>c. out = Some c \<longrightarrow> epoch_learned_from K (el_acceptance_quorum_size l) (ebc_instance c)
          (ebc_chosen_epoch_ballot c) (ebc_chosen_value c)
        \<and> el_acceptance_quorum_size l \<le> int (card (epoch_voters K (ebc_instance c) (ebc_chosen_epoch_ballot c))))"
proof -
  let ?i = "ebac_instance ack" and ?eb = "ebac_accepted_epoch_ballot ack" and ?n = "el_acceptance_quorum_size l"
  let ?l1 = "epoch_learner_handle_late_start l ?i"
  have ok1: "epoch_learner_ok K ?l1" using ok by (simp add: epoch_late_start_ok)
  from step show ?thesis
  proof (cases rule: epoch_accepted_cases)
    case outdated
    then show ?thesis using ok1 by simp
  next
    case (known y)
    note y = epoch_get_or_create_ok [OF ok1 known(2)]
    show ?thesis using y(2) same_sizes_trans [OF same_sizes_ops(1) y(3)] known(4) by simp
  next
    case (counted y l2 k y1 y2 new)
    note y = epoch_get_or_create_ok [OF ok1 counted(2)]
    have sizes: "same_sizes l l2" using y(3) same_sizes_trans same_sizes_ops(1) by blast
    have inst: "epoch_inst_ok K l2 ?i y" using y(1) epoch_inst_ok_sizes [OF y(3)] by simp
    note r = ballot_record_ok [OF inst counted(4)]
    from add_acceptance_ok [OF inst counted(4) K(2) refl refl counted(5)] obtain z where
      "y2 = y1\<lparr>ei_ballots := (ei_ballots y1)[k := z]\<rparr>" "distinct (map bi_ballot (ei_ballots y2))"
      "\<forall>x \<in> set (ei_ballots y2). info_ok K l2 ?i x" .
    then have "epoch_inst_ok K l2 ?i y2" using r(6,7) counted(3) by (simp add: epoch_inst_ok_def)
    then show ?thesis using counted(6,7) epoch_put_ok [OF y(2)] sizes same_sizes_trans [OF sizes] by simp
  next
    case (reached y l2 k y1 y2)
    note y = epoch_get_or_create_ok [OF ok1 reached(2)]
    have sizes: "same_sizes l l2" using y(3) same_sizes_trans same_sizes_ops(1) by blast
    have inst: "epoch_inst_ok K l2 ?i y" using y(1) epoch_inst_ok_sizes [OF y(3)] by simp
    note r = ballot_record_ok [OF inst reached(4)]
    from add_acceptance_ok [OF inst reached(4) K(2) refl refl reached(5)] obtain z where
      z: "y2 = y1\<lparr>ei_ballots := (ei_ballots y1)[k := z]\<rparr>" "k < length (ei_ballots y1)"
        "distinct (map bi_ballot (ei_ballots y2))" "\<forall>x \<in> set (ei_ballots y2). info_ok K l2 ?i x"
        "bi_ballot z = ?eb" "epoch_carried K ?i ?eb (bi_value z)" "info_ok K l2 ?i z"
      by blast
    have n: "el_acceptance_quorum_size l2 = ?n" using sizes by (simp add: same_sizes_def)
    have "quorum_reached (bi_quorum z)" using reached(6) z(1,2) by simp
    then have "?n \<le> int (card (quorum_votes (bi_quorum z)))"
      using z(7) n quorum_reached_iff by (simp add: info_ok_def)
    moreover have "card (quorum_votes (bi_quorum z)) \<le> card (epoch_voters K ?i ?eb)"
      using z(5,7) K(1) by (simp add: info_ok_def card_mono)
    ultimately have card: "?n \<le> int (card (epoch_voters K ?i ?eb))" by linarith
    then have "epoch_inst_ok K l2 ?i (y2\<lparr>ei_chosen_ballot_index := int k\<rparr>)"
      using z r(6) n by (simp add: epoch_inst_ok_def epoch_learned_from_def)
    then have "epoch_learner_ok K l'" using reached(7) epoch_put_ok [OF y(2)] by (simp add: epoch_closed_ok)
    moreover have "same_sizes l l'" using reached(7) sizes by (meson same_sizes_ops same_sizes_trans)
    moreover have "epoch_carried K ?i ?eb (ebac_accepted_value ack)" using K(2) by (auto simp: epoch_carried_def)
    ultimately show ?thesis using reached(8) card by (simp add: epoch_learned_from_def)
  qed
qed

lemma receive_chosen_cases:
  fixes l :: epoch_learner and c :: epoch_ballot_chosen
  defines "l1 \<equiv> epoch_learner_handle_late_start l (ebc_instance c)"
  assumes "epoch_learner_receive_epoch_ballot_chosen l c = Some (l', code)"
  obtains (outdated) "ebc_instance c < el_current_min_instance_to_execute l1" "l' = l1"
  | (known) y where "epoch_learner_get_or_create_instance l1 (ebc_instance c) = (y, l')" "ei_chosen_ballot_index y > -1"
  | (learned) y l2 k y1 where "epoch_learner_get_or_create_instance l1 (ebc_instance c) = (y, l2)"
      "\<not> ei_chosen_ballot_index y > -1"
      "get_or_create_ballot_info_record l2 y (ebc_chosen_epoch_ballot c) = Some (k, y1)"
      "l' = epoch_learner_check_and_set_highest_instance_closed (epoch_learner_put_instance l2 (ebc_instance c)
         ((instance_add_value y1 k (ebc_chosen_value c))\<lparr>ei_chosen_ballot_index := int k\<rparr>)) (ebc_instance c)"
proof (cases "ebc_instance c < el_current_min_instance_to_execute l1")
  case True
  then show thesis
    using assms(2) by (intro outdated) (simp_all add: epoch_learner_receive_epoch_ballot_chosen_def
        epoch_learner_is_instance_outdated_def Let_def l1_def)
next
  case recent: False
  obtain y l2 where y: "epoch_learner_get_or_create_instance l1 (ebc_instance c) = (y, l2)" by force
  obtain k y1 where k: "get_or_create_ballot_info_record l2 y (ebc_chosen_epoch_ballot c) = Some (k, y1)"
    by (rule ballot_record_exists)
  show thesis
    using assms(2) recent y k known [of y] learned [OF y _ k]
    by (cases "ei_chosen_ballot_index y > -1") (auto simp: epoch_learner_receive_epoch_ballot_chosen_def
        epoch_learner_is_instance_outdated_def epoch_learner_is_instance_chosen_def Let_def l1_def)
qed

lemma epoch_chosen_ok:
  assumes ok: "epoch_learner_ok K l" and c: "Epoch_Chosen c \<in> K"
    and step: "epoch_learner_receive_epoch_ballot_chosen l c = Some (l', code)"
  shows "epoch_learner_ok K l' \<and> same_sizes l l'"
proof -
  let ?i = "ebc_instance c" and ?eb = "ebc_chosen_epoch_ballot c"
  let ?l1 = "epoch_learner_handle_late_start l ?i"
  have ok1: "epoch_learner_ok K ?l1" using ok by (simp add: epoch_late_start_ok)
  from step show ?thesis
  proof (cases rule: receive_chosen_cases)
    case outdated
    then show ?thesis using ok1 by simp
  next
    case (known y)
    note y = epoch_get_or_create_ok [OF ok1 known(1)]
    show ?thesis using y(2) same_sizes_trans [OF same_sizes_ops(1) y(3)] by simp
  next
    case (learned y l2 k y1)
    note y = epoch_get_or_create_ok [OF ok1 learned(1)]
    have inst: "epoch_inst_ok K l2 ?i y" using y(1) epoch_inst_ok_sizes [OF y(3)] by simp
    note r = ballot_record_ok [OF inst learned(3)]
    let ?x = "ei_ballots y1 ! k"
    define z where "z = ?x\<lparr>bi_value := (if bi_value ?x = [] then ebc_chosen_value c else bi_value ?x)\<rparr>"
    have x: "info_ok K l2 ?i ?x" using r(1,4) by simp
    have carried: "epoch_carried K ?i ?eb (bi_value z)"
      using x c r(2) by (auto simp: z_def info_ok_def epoch_carried_def)
    have z: "info_ok K l2 ?i z" using x carried r(2) by (auto simp: z_def info_ok_def)
    have b: "bi_ballot z = ?eb" using r(2) by (simp add: z_def)
    have "instance_add_value y1 k (ebc_chosen_value c) = y1\<lparr>ei_ballots := (ei_ballots y1)[k := z]\<rparr>"
      using instance_add_value_eq [OF r(1)] by (simp add: z_def)
    moreover have "epoch_learned_from K (el_acceptance_quorum_size l2) ?i ?eb (bi_value z)"
      using carried c by (auto simp: epoch_learned_from_def)
    ultimately have "epoch_inst_ok K l2 ?i ((instance_add_value y1 k (ebc_chosen_value c))\<lparr>ei_chosen_ballot_index := int k\<rparr>)"
      using record_update [OF r(1,3) _ r(4) z] b r(1,2,6) by (simp add: epoch_inst_ok_def)
    then have "epoch_learner_ok K l'" using learned(4) epoch_put_ok [OF y(2)] by (simp add: epoch_closed_ok)
    moreover have "same_sizes l l'" using learned(4) y(3) by (meson same_sizes_ops same_sizes_trans)
    ultimately show ?thesis by simp
  qed
qed

definition epoch_outputs_ok ::
    "epoch_learner_event set \<Rightarrow> int \<Rightarrow> epoch_ballot_chosen list \<Rightarrow> (iid_t \<times> paxos_value) list \<Rightarrow> bool" where
  "epoch_outputs_ok H n anns dels \<longleftrightarrow>
     (\<forall>c \<in> set anns. n \<le> int (card (epoch_voters H (ebc_instance c) (ebc_chosen_epoch_ballot c)))
        \<and> epoch_learned_from H n (ebc_instance c) (ebc_chosen_epoch_ballot c) (ebc_chosen_value c))
   \<and> (\<forall>(i, v) \<in> set dels. \<exists>eb. epoch_learned_from H n i eb v)"

lemma epoch_learner_step_ok:
  assumes "epoch_learner_ok K l" "finite K" "e \<in> K" "epoch_learner_step l e = Some (l', as, ds)"
  shows "epoch_learner_ok K l' \<and> same_sizes l l' \<and> epoch_outputs_ok K (el_acceptance_quorum_size l) as ds"
proof (cases e)
  case (Epoch_Accepted ack)
  with assms(4) obtain code out where "epoch_learner_receive_accepted l ack = Some (l', code, out)"
    "as = (case out of None \<Rightarrow> [] | Some c \<Rightarrow> [c])" "ds = []"
    by (auto split: option.splits)
  with epoch_accepted_ok [OF assms(1,2), of ack] assms(3) Epoch_Accepted show ?thesis
    by (simp add: epoch_outputs_ok_def split: option.splits)
next
  case (Epoch_Chosen c)
  with assms(3,4) epoch_chosen_ok [OF assms(1), of c l'] show ?thesis
    by (auto simp: epoch_outputs_ok_def split: option.splits)
next
  case (Epoch_Trim t)
  with assms(1,4) epoch_trim_ok show ?thesis by (auto simp: epoch_outputs_ok_def)
next
  case Epoch_Deliver
  obtain out where d: "epoch_learner_deliver_next l = (l', out)"
    "ds = (case out of None \<Rightarrow> [] | Some v \<Rightarrow> [(el_current_min_instance_to_execute l, v)])" "as = []"
    using assms(4) Epoch_Deliver by (auto split: prod.splits option.splits)
  with epoch_deliver_ok [OF assms(1) d(1)] show ?thesis by (auto simp: epoch_outputs_ok_def split: option.splits)
qed

lemma epoch_learner_run_ok:
  assumes "epoch_learner_ok K l" "finite K" "set es \<subseteq> K" "epoch_learner_run l es = Some (l', as, ds)"
  shows "epoch_learner_ok K l' \<and> same_sizes l l' \<and> epoch_outputs_ok K (el_acceptance_quorum_size l) as ds"
  using assms
proof (induction es arbitrary: l as ds)
  case Nil
  then show ?case by (simp add: epoch_outputs_ok_def same_sizes_def)
next
  case (Cons e es)
  from Cons.prems(4) obtain l1 as1 ds1 as2 ds2 where
      s: "epoch_learner_step l e = Some (l1, as1, ds1)" and r: "epoch_learner_run l1 es = Some (l', as2, ds2)"
    and out: "as = as1 @ as2" "ds = ds1 @ ds2"
    by (rule run_events_ConsE)
  have e: "e \<in> K" and es: "set es \<subseteq> K" using Cons.prems(3) by auto
  note st = epoch_learner_step_ok [OF Cons.prems(1,2) e s]
  with Cons.IH [OF _ Cons.prems(2) es r] show ?case
    by (auto simp: out epoch_outputs_ok_def same_sizes_def)
qed

lemma epoch_learner_new_ok [simp]: "epoch_learner_ok H (epoch_learner_new cfg n)"
  by (simp add: epoch_learner_ok_def epoch_learner_new_def)

section \<open>A learner learns everything that was chosen\<close>

text \<open>
  No vote is lost: an acknowledgement for an instance that is not delivered yet is counted in the record
  of its ballot or the instance is known to be chosen, and an instance none of whose ballots is chosen
  has no ballot with a quorum.
\<close>

definition counts_vote :: "epoch_ballot_accepted \<Rightarrow> epoch_instance \<Rightarrow> bool" where
  "counts_vote ack y \<longleftrightarrow> ei_chosen_ballot_index y > -1
     \<or> (\<exists>x \<in> set (ei_ballots y). bi_ballot x = ebac_accepted_epoch_ballot ack
          \<and> sint (ebac_acceptor_id ack) \<in> quorum_votes (bi_quorum x))"

definition no_quorum_yet :: "epoch_instance \<Rightarrow> bool" where
  "no_quorum_yet y \<longleftrightarrow> ei_chosen_ballot_index y > -1 \<or> (\<forall>x \<in> set (ei_ballots y). \<not> quorum_reached (bi_quorum x))"

definition epoch_counted :: "epoch_learner_event set \<Rightarrow> epoch_learner \<Rightarrow> bool" where
  "epoch_counted H l \<longleftrightarrow>
     (\<forall>ack. Epoch_Accepted ack \<in> H \<and> el_current_min_instance_to_execute l \<le> ebac_instance ack \<longrightarrow>
        (\<exists>y. el_instances_waiting_to_execute l (ebac_instance ack) = Some y \<and> counts_vote ack y))
     \<and> (\<forall>i y. el_instances_waiting_to_execute l i = Some y \<longrightarrow> no_quorum_yet y)"

lemma epoch_get_or_create_cases:
  assumes "epoch_learner_get_or_create_instance l i = (y, l')"
  shows "el_instances_waiting_to_execute l i = Some y
    \<or> el_instances_waiting_to_execute l i = None \<and> y = epoch_learner_instance_new i"
  using assms by (auto simp: epoch_learner_get_or_create_instance_def epoch_learner_get_existing_instance_def Let_def
      split: option.splits)

text \<open>One instance gets better: what was counted stays counted.\<close>

lemma epoch_counted_put:
  assumes "epoch_counted H l" "no_quorum_yet y"
    and table: "el_instances_waiting_to_execute l' = (el_instances_waiting_to_execute l)(i \<mapsto> y)"
    and pos: "el_current_min_instance_to_execute l' = el_current_min_instance_to_execute l"
    and old: "\<And>ack y0. el_instances_waiting_to_execute l i = Some y0 \<Longrightarrow> counts_vote ack y0 \<Longrightarrow> counts_vote ack y"
    and new: "\<And>ack. e = Epoch_Accepted ack \<Longrightarrow> ebac_instance ack = i \<and> counts_vote ack y"
  shows "epoch_counted (insert e H) l'"
  unfolding epoch_counted_def
proof (intro conjI allI impI)
  fix ack assume ack: "Epoch_Accepted ack \<in> insert e H \<and> el_current_min_instance_to_execute l' \<le> ebac_instance ack"
  show "\<exists>y. el_instances_waiting_to_execute l' (ebac_instance ack) = Some y \<and> counts_vote ack y"
  proof (cases "Epoch_Accepted ack \<in> H")
    case True
    with ack pos assms(1) obtain y0 where
      "el_instances_waiting_to_execute l (ebac_instance ack) = Some y0" "counts_vote ack y0"
      unfolding epoch_counted_def by auto
    then show ?thesis using old table by auto
  next
    case False
    with ack new show ?thesis by (auto simp: table)
  qed
next
  fix j w assume "el_instances_waiting_to_execute l' j = Some w"
  then show "no_quorum_yet w" using assms(1,2) table by (auto simp: epoch_counted_def split: if_splits)
qed

lemma counts_vote_grows:
  assumes "counts_vote ack y" "ei_chosen_ballot_index y' = ei_chosen_ballot_index y \<or> ei_chosen_ballot_index y' > -1"
    and "\<And>x. x \<in> set (ei_ballots y) \<Longrightarrow>
      \<exists>x' \<in> set (ei_ballots y'). bi_ballot x' = bi_ballot x \<and> quorum_votes (bi_quorum x) \<subseteq> quorum_votes (bi_quorum x')"
  shows "counts_vote ack y'"
  using assms(1,2) assms(3) unfolding counts_vote_def by (metis subsetD)

lemma set_list_update_keeps: "x \<in> set xs \<Longrightarrow> x \<in> set (xs[k := z]) \<or> x = xs ! k \<and> k < length xs \<and> z \<in> set (xs[k := z])"
  by (metis in_set_conv_nth length_list_update nth_list_update_eq nth_list_update_neq set_update_memI)

lemma accepted_keeps_votes:
  assumes inst: "epoch_inst_ok K l i y" and rec: "get_or_create_ballot_info_record l y eb = Some (k, y1)"
    and ack: "Epoch_Accepted ack \<in> K" "ebac_instance ack = i" "ebac_accepted_epoch_ballot ack = eb"
    and add: "instance_add_acceptance y1 k ack = Some (y2, new)"
  shows "counts_vote ack y2" "\<And>ack'. counts_vote ack' y \<Longrightarrow> counts_vote ack' y2"
    and "no_quorum_yet y \<Longrightarrow> \<not> ei_chosen_ballot_index y > -1 \<Longrightarrow>
      (new \<Longrightarrow> \<not> quorum_reached (bi_quorum (ei_ballots y2 ! k))) \<Longrightarrow> no_quorum_yet y2"
proof -
  note r = ballot_record_ok [OF inst rec]
  from add_acceptance_ok [OF inst rec ack add] obtain z where
    y2: "y2 = y1\<lparr>ei_ballots := (ei_ballots y1)[k := z]\<rparr>" and k: "k < length (ei_ballots y1)"
    and dist: "distinct (map bi_ballot (ei_ballots y2))" and z: "bi_ballot z = eb" "info_ok K l i z"
    and votes: "quorum_votes (bi_quorum z) = insert (sint (ebac_acceptor_id ack)) (quorum_votes (bi_quorum (ei_ballots y1 ! k)))"
    and new: "new = (sint (ebac_acceptor_id ack) \<notin> quorum_votes (bi_quorum (ei_ballots y1 ! k)))"
    by blast
  have zin: "z \<in> set (ei_ballots y2)" using k by (simp add: y2 set_update_memI)
  then show "counts_vote ack y2" using z(1) votes ack(3) by (auto simp: counts_vote_def)
  show "counts_vote ack' y2" if "counts_vote ack' y" for ack'
    using that
  proof (rule counts_vote_grows)
    show "ei_chosen_ballot_index y2 = ei_chosen_ballot_index y \<or> ei_chosen_ballot_index y2 > -1" using r(7) y2 by simp
    show "\<exists>x' \<in> set (ei_ballots y2). bi_ballot x' = bi_ballot x \<and> quorum_votes (bi_quorum x) \<subseteq> quorum_votes (bi_quorum x')"
      if "x \<in> set (ei_ballots y)" for x
      using set_list_update_keeps [of x "ei_ballots y1" k z] that r(2,5) z(1) votes zin
      by (auto simp: y2)
  qed
  assume nq: "no_quorum_yet y" "\<not> ei_chosen_ballot_index y > -1"
    and nr: "new \<Longrightarrow> \<not> quorum_reached (bi_quorum (ei_ballots y2 ! k))"
  have "\<not> quorum_reached (bi_quorum z)"
  proof (cases new)
    case True
    then show ?thesis using nr k by (simp add: y2)
  next
    case False
    then have same: "quorum_votes (bi_quorum z) = quorum_votes (bi_quorum (ei_ballots y1 ! k))"
      and "ei_ballots y1 ! k \<in> set (ei_ballots y)"
      using votes new r(8) [of "ei_ballots y1 ! k"] k by auto
    then have "\<not> quorum_reached (bi_quorum (ei_ballots y1 ! k))" using nq by (simp add: no_quorum_yet_def)
    moreover have "info_ok K l i (ei_ballots y1 ! k)" using r(4) k by simp
    ultimately show ?thesis using same z(2) by (auto simp: info_ok_def quorum_reached_iff)
  qed
  moreover have "\<not> quorum_reached (bi_quorum x)" if "x \<in> set (ei_ballots y2)" "x \<noteq> z" for x
  proof -
    from that obtain j where j: "j < length (ei_ballots y2)" "x = ei_ballots y2 ! j" "j \<noteq> k"
      using k by (auto simp: y2 in_set_conv_nth nth_list_update split: if_splits)
    have "bi_ballot x \<noteq> eb"
      using nth_eq_iff_index_eq [OF dist, of j k] j k z(1) by (simp add: y2)
    moreover have "x \<in> set (ei_ballots y1)" using j y2 by simp
    ultimately have "x \<in> set (ei_ballots y)" using r(8) by blast
    then show ?thesis using nq by (simp add: no_quorum_yet_def)
  qed
  ultimately show "no_quorum_yet y2" unfolding no_quorum_yet_def by blast
qed

lemma epoch_counted_step:
  assumes ok: "epoch_learner_ok K l" and K: "finite K" "insert e H \<subseteq> K"
    and counted: "epoch_counted H l" and late: "\<not> el_late_start l"
    and e: "\<forall>t. e \<noteq> Epoch_Trim t" and pos: "Suc (unat (el_current_min_instance_to_execute l)) < 2 ^ 32"
    and step: "epoch_learner_step l e = Some (l', as, ds)"
  shows "epoch_counted (insert e H) l'"
proof (cases e)
  case (Epoch_Accepted ack)
  let ?i = "ebac_instance ack"
  have l1: "epoch_learner_handle_late_start l ?i = l" using late by (simp add: epoch_learner_handle_late_start_def)
  have ack: "Epoch_Accepted ack \<in> K" using K(2) Epoch_Accepted by simp
  from step Epoch_Accepted obtain code out where "epoch_learner_receive_accepted l ack = Some (l', code, out)"
    by (auto split: option.splits)
  then show ?thesis
  proof (cases rule: epoch_accepted_cases)
    case outdated
    then show ?thesis using counted Epoch_Accepted by (auto simp: l1 epoch_counted_def)
  next
    case (known y)
    note y = epoch_get_or_create_ok [OF ok known(2) [unfolded l1]]
    show ?thesis
      using epoch_get_or_create_cases [OF known(2)] known(3) Epoch_Accepted
      by (intro epoch_counted_put [OF counted _ y(4,5)])
        (auto simp: l1 no_quorum_yet_def counts_vote_def epoch_learner_instance_new_def)
  next
    case (counted y l2 k y1 y2 new)
    note y = epoch_get_or_create_ok [OF ok counted(2) [unfolded l1]]
    have inst: "epoch_inst_ok K l2 ?i y" using y(1) epoch_inst_ok_sizes [OF y(3)] by simp
    note votes = accepted_keeps_votes [OF inst counted(4) ack refl refl counted(5)]
    have "no_quorum_yet y"
      using epoch_get_or_create_cases [OF counted(2)] assms(4)
      by (auto simp: l1 epoch_counted_def no_quorum_yet_def epoch_learner_instance_new_def)
    then have "no_quorum_yet y2" using votes(3) counted(3,8) by blast
    then show ?thesis
      using epoch_get_or_create_cases [OF counted(2)] votes(1,2) Epoch_Accepted y(4,5) counted(6)
      by (intro epoch_counted_put [OF assms(4)]) (auto simp: l1 epoch_learner_put_instance_def)
  next
    case (reached y l2 k y1 y2)
    note y = epoch_get_or_create_ok [OF ok reached(2) [unfolded l1]]
    show ?thesis
      using Epoch_Accepted y(4,5) reached(7)
      by (intro epoch_counted_put [OF counted, where i = ?i and y = "y2\<lparr>ei_chosen_ballot_index := int k\<rparr>"])
        (auto simp: no_quorum_yet_def counts_vote_def epoch_learner_defs)
  qed
next
  case (Epoch_Chosen c)
  let ?i = "ebc_instance c"
  have l1: "epoch_learner_handle_late_start l ?i = l" using late by (simp add: epoch_learner_handle_late_start_def)
  from step Epoch_Chosen obtain code where "epoch_learner_receive_epoch_ballot_chosen l c = Some (l', code)"
    by (auto split: option.splits)
  then show ?thesis
  proof (cases rule: receive_chosen_cases)
    case outdated
    then show ?thesis using counted Epoch_Chosen by (auto simp: l1 epoch_counted_def)
  next
    case (known y)
    note y = epoch_get_or_create_ok [OF ok known(1) [unfolded l1]]
    show ?thesis
      using epoch_get_or_create_cases [OF known(1)] known(2) Epoch_Chosen
      by (intro epoch_counted_put [OF counted _ y(4,5)])
        (auto simp: l1 no_quorum_yet_def counts_vote_def epoch_learner_instance_new_def)
  next
    case (learned y l2 k y1)
    note y = epoch_get_or_create_ok [OF ok learned(1) [unfolded l1]]
    show ?thesis
      using Epoch_Chosen y(4,5) learned(4)
      by (intro epoch_counted_put [OF counted, where i = ?i
            and y = "(instance_add_value y1 k (ebc_chosen_value c))\<lparr>ei_chosen_ballot_index := int k\<rparr>"])
        (auto simp: no_quorum_yet_def counts_vote_def epoch_learner_defs)
  qed
next
  case (Epoch_Trim t)
  then show ?thesis using e by simp
next
  case Epoch_Deliver
  let ?p = "el_current_min_instance_to_execute l"
  have "unat (?p + 1) = Suc (unat ?p)" using pos by (simp add: unat_add_no_overflow)
  then have up: "i \<noteq> ?p \<and> ?p \<le> i" if "?p + 1 \<le> i" for i
    using that by (auto simp: word_le_nat_alt)
  have inst: "ei_instance y = ?p" if "el_instances_waiting_to_execute l ?p = Some y" for y
    using ok that by (auto simp: epoch_learner_ok_def epoch_inst_ok_def)
  have l': "l' = fst (epoch_learner_deliver_next l)"
    using step Epoch_Deliver by (auto split: prod.splits option.splits)
  consider "l' = l" | y where "el_instances_waiting_to_execute l ?p = Some y"
      "el_instances_waiting_to_execute l' = (el_instances_waiting_to_execute l)(?p := None)"
      "el_current_min_instance_to_execute l' = ?p + 1"
  proof (cases "el_instances_waiting_to_execute l ?p")
    case None
    then show thesis by (intro that(1)) (simp add: l' epoch_learner_deliver_next_def epoch_learner_get_existing_instance_def)
  next
    case (Some y)
    show thesis
      by (cases "ei_chosen_ballot_index y > -1", rule that(2) [OF Some])
        (use Some inst [OF Some] that(1) in \<open>simp_all add: l' epoch_learner_deliver_next_def
          epoch_learner_get_existing_instance_def epoch_learner_remove_instance_from_pending_def Let_def\<close>)
  qed
  then show ?thesis
    by cases (use counted up Epoch_Deliver in \<open>auto simp: epoch_counted_def split: if_splits\<close>)
qed

lemma epoch_counted_run:
  assumes "epoch_learner_ok K l" "finite K" "H \<union> set es \<subseteq> K" "epoch_counted H l" "\<not> el_late_start l"
    and "\<forall>e \<in> set es. \<forall>t. e \<noteq> Epoch_Trim t"
    and "unat (el_current_min_instance_to_execute l) + length es < 2 ^ 32"
    and "epoch_learner_run l es = Some (l', as, ds)"
  shows "epoch_counted (H \<union> set es) l'"
  using assms
proof (induction es arbitrary: l H as ds)
  case Nil
  then show ?case by simp
next
  case (Cons e es)
  from Cons.prems(8) obtain l1 as1 ds1 as2 ds2 where
      s: "epoch_learner_step l e = Some (l1, as1, ds1)" and r: "epoch_learner_run l1 es = Some (l', as2, ds2)"
    by (rule run_events_ConsE)
  let ?p = "el_current_min_instance_to_execute l"
  have e: "e \<in> K" "\<forall>t. e \<noteq> Epoch_Trim t" "Suc (unat ?p) < 2 ^ 32" and K: "insert e H \<subseteq> K"
    using Cons.prems(3,6,7) by auto
  have up: "unat (?p + 1) = Suc (unat ?p)" using e(3) by (simp add: unat_add_no_overflow)
  have "unat (el_current_min_instance_to_execute l1) \<le> Suc (unat ?p)" and late: "\<not> el_late_start l1"
    using el.step_pos [OF Cons.prems(5) e(2) s] up by auto
  then have pos: "unat (el_current_min_instance_to_execute l1) + length es < 2 ^ 32" using Cons.prems(7) by simp
  have "epoch_learner_ok K l1" using epoch_learner_step_ok [OF Cons.prems(1,2) e(1) s] by simp
  moreover have "epoch_counted (insert e H) l1"
    using epoch_counted_step [OF Cons.prems(1,2) K Cons.prems(4,5) e(2,3) s] .
  ultimately show ?case
    using Cons.IH [of l1 "insert e H", OF _ Cons.prems(2) _ _ late _ pos r] Cons.prems(3,6) by simp
qed

text \<open>With valid acceptor numbers no event is undefined.\<close>

definition valid_acceptor :: "int \<Rightarrow> epoch_learner_event \<Rightarrow> bool" where
  "valid_acceptor n e \<longleftrightarrow>
     (case e of Epoch_Accepted ack \<Rightarrow> 0 \<le> sint (ebac_acceptor_id ack) \<and> sint (ebac_acceptor_id ack) < n | _ \<Rightarrow> True)"

lemma epoch_learner_step_defined:
  assumes "epoch_learner_ok K l" "valid_acceptor (el_acceptors l) e"
  shows "\<exists>r. epoch_learner_step l e = Some r"
proof (cases e)
  case (Epoch_Accepted ack)
  let ?i = "ebac_instance ack" and ?l1 = "epoch_learner_handle_late_start l (ebac_instance ack)"
  obtain y l2 where y: "epoch_learner_get_or_create_instance ?l1 ?i = (y, l2)" by force
  obtain k y1 where k: "get_or_create_ballot_info_record l2 y (ebac_accepted_epoch_ballot ack) = Some (k, y1)"
    by (rule ballot_record_exists)
  have ok1: "epoch_learner_ok K ?l1" using assms(1) by (simp add: epoch_late_start_ok)
  note c = epoch_get_or_create_ok [OF ok1 y]
  have inst: "epoch_inst_ok K l2 ?i y" using c(1) epoch_inst_ok_sizes [OF c(3)] by simp
  have "info_ok K l2 ?i (ei_ballots y1 ! k)" using ballot_record_ok(1,4) [OF inst k] by simp
  moreover have "el_acceptors l2 = el_acceptors l" using c(3) same_sizes_ops(1) [of l ?i] by (simp add: same_sizes_def)
  ultimately obtain r where "quorum_add (bi_quorum (ei_ballots y1 ! k)) (sint (ebac_acceptor_id ack)) = Some r"
    using quorum_add_defined assms(2) Epoch_Accepted by (fastforce simp: info_ok_def valid_acceptor_def)
  then show ?thesis
    using Epoch_Accepted y k
    by (cases r) (auto simp: epoch_learner_receive_accepted_def instance_add_acceptance_def Let_def)
next
  case (Epoch_Chosen c)
  obtain y l2 where y: "epoch_learner_get_or_create_instance (epoch_learner_handle_late_start l (ebc_instance c))
      (ebc_instance c) = (y, l2)" by force
  obtain k y1 where "get_or_create_ballot_info_record l2 y (ebc_chosen_epoch_ballot c) = Some (k, y1)"
    by (rule ballot_record_exists)
  with y Epoch_Chosen show ?thesis by (simp add: epoch_learner_receive_epoch_ballot_chosen_def Let_def)
qed (auto split: prod.splits option.splits)

lemma epoch_learner_run_defined:
  assumes "epoch_learner_ok K l" "finite K" "set es \<subseteq> K" "\<forall>e \<in> set es. valid_acceptor (el_acceptors l) e"
  shows "\<exists>r. epoch_learner_run l es = Some r"
  using assms
proof (induction es arbitrary: l)
  case Nil
  then show ?case by simp
next
  case (Cons e es)
  obtain l1 as ds where s: "epoch_learner_step l e = Some (l1, as, ds)"
    using epoch_learner_step_defined [OF Cons.prems(1), of e] Cons.prems(4) by auto
  with epoch_learner_step_ok [OF Cons.prems(1,2) _ s] Cons.prems(3,4) Cons.IH [of l1] Cons.prems(2) show ?case
    by (auto simp: same_sizes_def)
qed

lemma counted_quorum_is_chosen:
  assumes "epoch_learner_ok K l" "epoch_counted H l" "0 < el_acceptance_quorum_size l" "finite H"
    and "el_acceptance_quorum_size l \<le> int (card (epoch_voters H i eb))" "el_current_min_instance_to_execute l \<le> i"
  shows "\<exists>y. el_instances_waiting_to_execute l i = Some y \<and> epoch_learner_is_instance_chosen y"
proof -
  have "epoch_voters H i eb \<noteq> {}" using assms(3,5) by auto
  then obtain y where y: "el_instances_waiting_to_execute l i = Some y"
    using assms(2,6) by (auto simp: epoch_voters_def epoch_counted_def)
  have ok: "epoch_inst_ok K l i y" and nq: "no_quorum_yet y"
    using assms(1,2) y by (simp_all add: epoch_learner_ok_def epoch_counted_def)
  have votes: "\<exists>x \<in> set (ei_ballots y). bi_ballot x = eb \<and> a \<in> quorum_votes (bi_quorum x)"
    if "a \<in> epoch_voters H i eb" "\<not> ei_chosen_ballot_index y > -1" for a
    using that assms(2,6) y by (fastforce simp: epoch_voters_def epoch_counted_def counts_vote_def)
  have "ei_chosen_ballot_index y > -1"
  proof (rule ccontr)
    assume open_inst: "\<not> ei_chosen_ballot_index y > -1"
    obtain x where x: "x \<in> set (ei_ballots y)" "bi_ballot x = eb"
      using \<open>epoch_voters H i eb \<noteq> {}\<close> votes open_inst by blast
    have "x' = x" if "x' \<in> set (ei_ballots y)" "bi_ballot x' = eb" for x'
      using ok that x by (auto simp: epoch_inst_ok_def distinct_map inj_on_def)
    then have "epoch_voters H i eb \<subseteq> quorum_votes (bi_quorum x)" using votes open_inst by blast
    then have "card (epoch_voters H i eb) \<le> card (quorum_votes (bi_quorum x))" by (simp add: card_mono)
    moreover have "info_ok K l i x" using ok x by (simp add: epoch_inst_ok_def)
    ultimately have "quorum_reached (bi_quorum x)" using assms(5) by (auto simp: info_ok_def quorum_reached_iff)
    then show False using nq open_inst x by (auto simp: no_quorum_yet_def)
  qed
  with y show ?thesis by (simp add: epoch_learner_is_instance_chosen_def)
qed

text \<open>Two acknowledgements choose a value, for the concrete examples.\<close>

definition sample_epoch_config :: paxos_config where
  "sample_epoch_config = \<lparr>cfg_learner_catch_up = True, cfg_proposer_timeout = 1, cfg_quorum_2 = 2,
     cfg_fall_behind_jump = 1, cfg_noop_timeout_us = 1, cfg_await_holes = True, cfg_repropose_values = True\<rparr>"

section \<open>Properties\<close>

text \<open>
  C9: An epoch learner learns only chosen values: in any run of a new learner, trims included, every
  chosen message it announces is backed by acknowledgements from at least \<open>quorum_2\<close> different acceptors
  at the very epoch ballot it names, and every value it delivers was carried by a message for its
  instance at an epoch ballot for which the learner has such a quorum or a chosen message.
\<close>

theorem epoch_learner_learns_only_chosen_values:
  assumes "epoch_learner_run (epoch_learner_new cfg n) es = Some (l, anns, dels)"
  shows "(\<forall>c \<in> set anns. cfg_quorum_2 cfg \<le> int (card (epoch_voters (set es) (ebc_instance c) (ebc_chosen_epoch_ballot c)))
        \<and> epoch_learned_from (set es) (cfg_quorum_2 cfg) (ebc_instance c) (ebc_chosen_epoch_ballot c) (ebc_chosen_value c))
    \<and> (\<forall>(i, v) \<in> set dels. \<exists>eb. epoch_learned_from (set es) (cfg_quorum_2 cfg) i eb v)"
  using epoch_learner_run_ok [OF epoch_learner_new_ok _ order.refl assms]
  by (simp add: epoch_outputs_ok_def epoch_learner_new_def)

theorem epoch_learner_learns_only_chosen_values_witness:
  "\<exists>ack. (\<exists>eb. epoch_learned_from {Epoch_Accepted ack, Epoch_Deliver} 1 1 eb [7])"
proof -
  let ?cfg = "\<lparr>cfg_learner_catch_up = True, cfg_proposer_timeout = 1, cfg_quorum_2 = 1, cfg_fall_behind_jump = 1,
      cfg_noop_timeout_us = 1, cfg_await_holes = True, cfg_repropose_values = True\<rparr>"
  let ?ack = "\<lparr>ebac_acceptor_id = 2, ebac_instance = 1, ebac_accepted_epoch_ballot = Epoch_Ballot 1 (Ballot 1 1),
      ebac_accepted_value = [7]\<rparr>"
  let ?r = "epoch_learner_run (epoch_learner_new ?cfg 3) [Epoch_Accepted ?ack, Epoch_Deliver]"
  have "map_option (snd \<circ> snd) ?r = Some [(1, [7])]" by code_simp
  then obtain l anns where "?r = Some (l, anns, [(1, [7])])" by (cases ?r) auto
  from epoch_learner_learns_only_chosen_values [OF this]
  have "\<exists>eb. epoch_learned_from {Epoch_Accepted ?ack, Epoch_Deliver} 1 1 eb [7]" by simp
  then show ?thesis by (rule exI)
qed

text \<open>
  C10: An epoch learner learns everything that was chosen: when a new learner that catches up from the
  first instance has handled acknowledgements from \<open>quorum_2\<close> different acceptors of the cluster for one
  instance at one epoch ballot, in any order and mixed with any other messages but trims, the learner has
  handled every event and the instance has been delivered or is marked as chosen.  The conditions: \<open>quorum_2\<close>
  is positive, every acknowledgement carries the identifier of an acceptor of the cluster, the instance is
  not 0, and there are fewer than \<open>2\<^sup>3\<^sup>2 - 1\<close> messages, so that instance numbers do not wrap around.  That no event writes outside of a block of memory rests on the
  sizes of the blocks that glibc's \<open>realloc\<close> returns (\<open>malloc_usable_size\<close>); \<open>create_ballot_info\<close> asks for fewer
  bytes than it writes.
\<close>

theorem epoch_learner_learns_chosen_values:
  assumes "cfg_learner_catch_up cfg" "0 < cfg_quorum_2 cfg"
    and "\<forall>e \<in> set es. valid_acceptor n e \<and> (\<forall>t. e \<noteq> Epoch_Trim t)" "length es < 2 ^ 32 - 1"
    and "cfg_quorum_2 cfg \<le> int (card (epoch_voters (set es) i eb))" "0 < i"
  shows "\<exists>l anns dels. epoch_learner_run (epoch_learner_new cfg n) es = Some (l, anns, dels)
    \<and> (i \<in> fst ` set dels
       \<or> (\<exists>y. el_instances_waiting_to_execute l i = Some y \<and> epoch_learner_is_instance_chosen y))"
proof -
  let ?l0 = "epoch_learner_new cfg n"
  have new: "\<not> el_late_start ?l0" "el_current_min_instance_to_execute ?l0 = 1" "el_acceptors ?l0 = n"
    "el_acceptance_quorum_size ?l0 = cfg_quorum_2 cfg" "epoch_counted {} ?l0"
    using assms(1) by (simp_all add: epoch_learner_new_def epoch_counted_def)
  have ok: "epoch_learner_ok (set es) ?l0" by simp
  have ordinary: "\<forall>e \<in> set es. \<forall>t. e \<noteq> Epoch_Trim t" using assms(3) by blast
  obtain l anns dels where r: "epoch_learner_run ?l0 es = Some (l, anns, dels)"
    using epoch_learner_run_defined [OF ok, of es] assms(3) new(3) by auto
  have l: "epoch_learner_ok (set es) l" "el_acceptance_quorum_size l = cfg_quorum_2 cfg"
    using epoch_learner_run_ok [OF ok _ order.refl r] new(4) by (simp_all add: same_sizes_def)
  have counted: "epoch_counted (set es) l"
    using epoch_counted_run [OF ok _ _ new(5,1) ordinary _ r] assms(4) new(2) by simp
  note pos = el.run_pos [OF new(1) ordinary r, unfolded new(2)]
  have len: "length dels < 2 ^ 32 - 1" using el.run_length [OF new(1) ordinary r] assms(4) by simp
  show ?thesis
  proof (cases "el_current_min_instance_to_execute l \<le> i")
    case True
    with counted_quorum_is_chosen [OF l(1) counted _ _ _ True, of eb] assms(2,5) l(2) r show ?thesis by auto
  next
    case False
    have "i < 1 + of_nat (length dels)" using False pos by simp
    moreover have "unat (1 + of_nat (length dels) :: u32) = Suc (length dels)"
      using unat_of_nat_u32 [of "Suc (length dels)"] len by simp
    ultimately have lt: "unat i - 1 < length dels" "0 < unat i"
      using assms(6) by (auto simp: word_less_nat_alt)
    then have "fst (dels ! (unat i - 1)) = 1 + of_nat (unat i - 1)" using pos by blast
    also have "\<dots> = of_nat (Suc (unat i - 1))" by simp
    also have "\<dots> = i" using lt(2) by simp
    finally have "i \<in> fst ` set dels" using lt(1) by (metis image_eqI nth_mem)
    with r show ?thesis by blast
  qed
qed

theorem epoch_learner_learns_chosen_values_witness:
  "\<exists>ack ack' l anns dels. epoch_learner_run (epoch_learner_new sample_epoch_config 3)
       [Epoch_Accepted ack, Epoch_Deliver, Epoch_Accepted ack'] = Some (l, anns, dels)
     \<and> (1 \<in> fst ` set dels
        \<or> (\<exists>y. el_instances_waiting_to_execute l 1 = Some y \<and> epoch_learner_is_instance_chosen y))"
proof -
  let ?eb = "Epoch_Ballot 1 (Ballot 1 1)"
  let ?ack = "\<lparr>ebac_acceptor_id = 2, ebac_instance = 1, ebac_accepted_epoch_ballot = ?eb, ebac_accepted_value = [7]\<rparr>"
    and ?ack' = "\<lparr>ebac_acceptor_id = 0, ebac_instance = 1, ebac_accepted_epoch_ballot = ?eb, ebac_accepted_value = [7]\<rparr>"
  let ?es = "[Epoch_Accepted ?ack, Epoch_Deliver, Epoch_Accepted ?ack']"
  have "2 \<in> epoch_voters (set ?es) 1 ?eb" unfolding epoch_voters_def mem_Collect_eq by (intro exI [of _ ?ack]) simp
  moreover have "0 \<in> epoch_voters (set ?es) 1 ?eb" unfolding epoch_voters_def mem_Collect_eq by (intro exI [of _ ?ack']) simp
  ultimately have "card {0, 2 :: int} \<le> card (epoch_voters (set ?es) 1 ?eb)" by (intro card_mono) auto
  then have "cfg_quorum_2 sample_epoch_config \<le> int (card (epoch_voters (set ?es) 1 ?eb))"
    by (simp add: sample_epoch_config_def)
  from epoch_learner_learns_chosen_values [OF _ _ _ _ this, of 3]
  show ?thesis by (intro exI [of _ ?ack] exI [of _ ?ack']) (simp add: sample_epoch_config_def valid_acceptor_def)
qed

text \<open>
  A trim can move an epoch learner back: \<open>epoch_learner_receive_trim\<close> compares with the last trim
  and not with the next instance to deliver, so that a trim below what was delivered already makes the
  learner wait for, accept and deliver these instances again, even with other values.
\<close>

theorem epoch_learner_trim_delivers_twice:
  "map_option (snd \<circ> snd) (epoch_learner_run (epoch_learner_new sample_epoch_config 3)
     [Epoch_Chosen \<lparr>ebc_instance = 1, ebc_chosen_epoch_ballot = Epoch_Ballot 1 (Ballot 1 1), ebc_chosen_value = [7]\<rparr>,
      Epoch_Chosen \<lparr>ebc_instance = 2, ebc_chosen_epoch_ballot = Epoch_Ballot 1 (Ballot 1 1), ebc_chosen_value = [8]\<rparr>,
      Epoch_Deliver, Epoch_Deliver, Epoch_Trim \<lparr>trim_iid = 1\<rparr>,
      Epoch_Chosen \<lparr>ebc_instance = 2, ebc_chosen_epoch_ballot = Epoch_Ballot 1 (Ballot 2 1), ebc_chosen_value = [9]\<rparr>,
      Epoch_Deliver]) = Some [(1, [7]), (2, [8]), (2, [9])]"
  by code_simp

end
