(* ===== verification/Epoch_Proposer.thy ===== *)
theory Epoch_Proposer
  imports Proposer_Common
begin

text \<open>
  \<open>src/paxos/epoch_proposer.c\<close>: the proposer of epoch Paxos, whose instances are at an epoch ballot.  The
  epoch 0 of an instance stands for an epoch that is not known yet and is taken from the first promise.
  The clock and the random draws are arguments.  An operation returns \<open>None\<close> where the C code has
  undefined behaviour (a vote outside of the quorum array, a read through a \<open>NULL\<close> value, a missing
  \<open>return\<close>), aborts or does not return.
\<close>

section \<open>State\<close>

record epoch_proposer_instance_info =
  epi_common_info :: proposer_common_instance_info
  epi_quorum :: quorum
  epi_current_epoch :: u32
  epi_last_accepted_epoch_ballot_epoch :: u32
  epi_same_accept_count :: int

type_synonym epoch_phase_table = "(iid_t \<times> epoch_proposer_instance_info) list"

record epoch_proposer =
  ep_id :: int
  ep_known_highest_epoch :: u32
  ep_acceptors :: int
  ep_q1 :: int
  ep_q2 :: int
  ep_ballot_giver :: ballot_giver
  ep_value_proposal_manager :: value_proposal_manager
  ep_max_chosen_instance :: iid_t
  ep_trim_instance :: iid_t
  ep_next_prepare_instance :: iid_t
  ep_prepare_infos :: epoch_phase_table
  ep_accept_infos :: epoch_phase_table
  ep_chosen_instances :: "iid_t \<rightharpoonup> bool"

definition epoch_proposer_new :: "paxos_config \<Rightarrow> int \<Rightarrow> int \<Rightarrow> int \<Rightarrow> int \<Rightarrow> u32 \<Rightarrow> epoch_proposer" where
  "epoch_proposer_new cfg id' acceptors q1 q2 max_ballot_increment =
     \<lparr>ep_id = id', ep_known_highest_epoch = INVALID_EPOCH, ep_acceptors = acceptors, ep_q1 = q1, ep_q2 = q2,
      ep_ballot_giver = ballot_giver_new (word_of_int id') max_ballot_increment,
      ep_value_proposal_manager = value_proposal_manager_new 1000 (cfg_repropose_values cfg),
      ep_max_chosen_instance = INVALID_INSTANCE, ep_trim_instance = INVALID_INSTANCE,
      ep_next_prepare_instance = INVALID_INSTANCE, ep_prepare_infos = [], ep_accept_infos = [],
      ep_chosen_instances = Map.empty\<rparr>"

definition epoch_proposer_get_instance_info_in_phase ::
    "epoch_phase_table \<Rightarrow> iid_t \<Rightarrow> epoch_proposer_instance_info option" where
  "epoch_proposer_get_instance_info_in_phase t i = map_of t i"

definition epoch_proposer_move_instance_between_phase ::
    "epoch_phase_table \<Rightarrow> epoch_phase_table \<Rightarrow> epoch_proposer_instance_info \<Rightarrow> int
       \<Rightarrow> epoch_phase_table \<times> epoch_phase_table \<times> epoch_proposer_instance_info" where
  "epoch_proposer_move_instance_between_phase f t inst quorum_size =
     (let i = pci_iid (epi_common_info inst);
          inst = inst\<lparr>epi_quorum := quorum_resize_and_reset (epi_quorum inst) quorum_size\<rparr>
      in (AList.delete i f, AList.update i inst t, inst))"

definition epoch_proposer_remove_instance_from_phase :: "epoch_phase_table \<Rightarrow> iid_t \<Rightarrow> epoch_phase_table" where
  "epoch_proposer_remove_instance_from_phase t i = AList.delete i t"

definition epoch_proposer_instance_info_new ::
    "timeval \<Rightarrow> iid_t \<Rightarrow> epoch_ballot \<Rightarrow> int \<Rightarrow> int \<Rightarrow> epoch_proposer_instance_info" where
  "epoch_proposer_instance_info_new now i eb num_acceptors quorum_size =
     \<lparr>epi_common_info = proposer_common_info_new now i (eb_ballot eb),
      epi_quorum = quorum_init num_acceptors quorum_size, epi_current_epoch = eb_epoch eb,
      epi_last_accepted_epoch_ballot_epoch = INVALID_EPOCH, epi_same_accept_count = 0\<rparr>"

definition epoch_proposer_instance_info_get_current_epoch_ballot :: "epoch_proposer_instance_info \<Rightarrow> epoch_ballot" where
  "epoch_proposer_instance_info_get_current_epoch_ballot inst =
     Epoch_Ballot (epi_current_epoch inst) (pci_ballot (epi_common_info inst))"

definition epoch_proposer_instance_info_get_last_accepted_epoch_ballot ::
    "epoch_proposer_instance_info \<Rightarrow> epoch_ballot" where
  "epoch_proposer_instance_info_get_last_accepted_epoch_ballot inst =
     Epoch_Ballot (epi_last_accepted_epoch_ballot_epoch inst) (pci_last_accepted_ballot (epi_common_info inst))"

definition epoch_proposer_instance_info_set_current_epoch_ballot ::
    "epoch_proposer_instance_info \<Rightarrow> epoch_ballot \<Rightarrow> epoch_proposer_instance_info" where
  "epoch_proposer_instance_info_set_current_epoch_ballot inst eb =
     inst\<lparr>epi_current_epoch := eb_epoch eb,
          epi_common_info := (epi_common_info inst)\<lparr>pci_ballot := eb_ballot eb\<rparr>\<rparr>"

definition epoch_proposer_instance_info_set_last_accepted_epoch_ballot ::
    "epoch_proposer_instance_info \<Rightarrow> epoch_ballot \<Rightarrow> epoch_proposer_instance_info" where
  "epoch_proposer_instance_info_set_last_accepted_epoch_ballot inst eb =
     inst\<lparr>epi_last_accepted_epoch_ballot_epoch := eb_epoch eb,
          epi_common_info := (epi_common_info inst)\<lparr>pci_last_accepted_ballot := eb_ballot eb\<rparr>\<rparr>"

definition epoch_proposer_instance_info_set_last_accepted_value ::
    "epoch_proposer_instance_info \<Rightarrow> paxos_value \<Rightarrow> epoch_proposer_instance_info" where
  "epoch_proposer_instance_info_set_last_accepted_value inst v =
     inst\<lparr>epi_common_info := (epi_common_info inst)\<lparr>pci_last_accepted_value := Some v\<rparr>\<rparr>"

definition epoch_proposer_instance_info_save_new_last_accepted_value ::
    "epoch_proposer_instance_info \<Rightarrow> epoch_ballot \<Rightarrow> paxos_value \<Rightarrow> epoch_proposer_instance_info" where
  "epoch_proposer_instance_info_save_new_last_accepted_value inst eb v =
     epoch_proposer_instance_info_set_last_accepted_value
       (epoch_proposer_instance_info_set_last_accepted_epoch_ballot inst eb) v"

definition epoch_proposer_check_and_set_current_epoch_from_epoch_ballot ::
    "epoch_proposer \<Rightarrow> epoch_ballot \<Rightarrow> epoch_proposer" where
  "epoch_proposer_check_and_set_current_epoch_from_epoch_ballot p cmp =
     (if ep_known_highest_epoch p < eb_epoch cmp then p\<lparr>ep_known_highest_epoch := eb_epoch cmp\<rparr> else p)"

definition epoch_proposer_add_paxos_value_to_queue :: "epoch_proposer \<Rightarrow> paxos_value \<Rightarrow> epoch_proposer option" where
  "epoch_proposer_add_paxos_value_to_queue p v =
     (case value_proposal_manager_enqueue (ep_value_proposal_manager p) v of
        None \<Rightarrow> None
      | Some m \<Rightarrow> Some (p\<lparr>ep_value_proposal_manager := m\<rparr>))"

definition epoch_proposer_prepare_count :: "epoch_proposer \<Rightarrow> nat" where
  "epoch_proposer_prepare_count p = length (ep_prepare_infos p)"

definition epoch_proposer_acceptance_count :: "epoch_proposer \<Rightarrow> nat" where
  "epoch_proposer_acceptance_count p = length (ep_accept_infos p)"

definition epoch_proposer_get_current_known_epoch :: "epoch_proposer \<Rightarrow> u32" where
  "epoch_proposer_get_current_known_epoch p = ep_known_highest_epoch p"

definition epoch_proposer_handle_epoch_notification :: "epoch_proposer \<Rightarrow> epoch_notification \<Rightarrow> epoch_proposer \<times> int" where
  "epoch_proposer_handle_epoch_notification p note_msg =
     (if ep_known_highest_epoch p < en_new_epoch note_msg
      then (p\<lparr>ep_known_highest_epoch := en_new_epoch note_msg\<rparr>, 1) else (p, 0))"

definition epoch_proposer_get_id :: "epoch_proposer \<Rightarrow> u32" where
  "epoch_proposer_get_id p = word_of_int (ep_id p)"

definition epoch_proposer_set_instance_chosen :: "epoch_proposer \<Rightarrow> iid_t \<Rightarrow> epoch_proposer" where
  "epoch_proposer_set_instance_chosen p i =
     (if ep_chosen_instances p i = None
      then p\<lparr>ep_chosen_instances := (ep_chosen_instances p)(i \<mapsto> True),
             ep_max_chosen_instance :=
               (if ep_max_chosen_instance p < i then i else ep_max_chosen_instance p)\<rparr>
      else p)"

definition epoch_proposer_is_instance_chosen :: "epoch_proposer \<Rightarrow> iid_t \<Rightarrow> bool" where
  "epoch_proposer_is_instance_chosen p i \<longleftrightarrow> ep_chosen_instances p i \<noteq> None"

definition epoch_proposer_next_instance :: "epoch_proposer \<Rightarrow> epoch_proposer" where
  "epoch_proposer_next_instance p = p\<lparr>ep_next_prepare_instance := ep_next_prepare_instance p + 1\<rparr>"

definition epoch_proposer_get_current_instance :: "epoch_proposer \<Rightarrow> iid_t" where
  "epoch_proposer_get_current_instance p = ep_next_prepare_instance p"

text \<open>The early return for an empty table gives what the loop gives.\<close>

definition epoch_proposer_get_min_unchosen_instance :: "epoch_proposer \<Rightarrow> iid_t option" where
  "epoch_proposer_get_min_unchosen_instance p =
     search_from 4294967296 (epoch_proposer_is_instance_chosen p) (ep_trim_instance p + 1)"

text \<open>Reads through \<open>proposing_value\<close>.\<close>

definition epoch_instance_should_requeue_value :: "epoch_proposer_instance_info \<Rightarrow> bool option" where
  "epoch_instance_should_requeue_value inst =
     (case pci_proposing_value (epi_common_info inst) of
        None \<Rightarrow> None
      | Some v \<Rightarrow> Some (\<not> is_values_equal NOP v
                   \<and> epoch_ballot_equal (Epoch_Ballot (epi_last_accepted_epoch_ballot_epoch inst)
                         (pci_last_accepted_ballot (epi_common_info inst))) INVALID_EPOCH_BALLOT))"

definition epoch_proposer_is_instance_pending :: "epoch_proposer \<Rightarrow> iid_t \<Rightarrow> bool" where
  "epoch_proposer_is_instance_pending p i \<longleftrightarrow>
     epoch_proposer_get_instance_info_in_phase (ep_accept_infos p) i \<noteq> None
     \<or> epoch_proposer_get_instance_info_in_phase (ep_prepare_infos p) i \<noteq> None"

section \<open>Trimming\<close>

text \<open>The loop over one table: what is left of it, and the value manager afterwards.\<close>

fun epoch_proposer_trim_instances_pending_in_phase ::
    "value_proposal_manager \<Rightarrow> epoch_phase_table \<Rightarrow> iid_t \<Rightarrow> value_proposal_manager \<times> epoch_phase_table" where
  "epoch_proposer_trim_instances_pending_in_phase m [] i = (m, [])"
| "epoch_proposer_trim_instances_pending_in_phase m ((k, inst) # h) i =
     (if pci_iid (epi_common_info inst) \<le> i then
        let m = (case pci_proposing_value (epi_common_info inst) of
                   None \<Rightarrow> m
                 | Some v \<Rightarrow> if epoch_instance_should_requeue_value inst = Some True
                             then fst (value_proposal_manager_check_and_requeue_value m v) else m)
        in epoch_proposer_trim_instances_pending_in_phase m h i
      else let (m, h) = epoch_proposer_trim_instances_pending_in_phase m h i in (m, (k, inst) # h))"

definition epoch_proposer_receive_trim ::
    "paxos_config \<Rightarrow> epoch_proposer \<Rightarrow> paxos_trim \<Rightarrow> epoch_proposer \<times> epoch_paxos_message_return_codes" where
  "epoch_proposer_receive_trim cfg p trim_msg =
     (if trim_iid trim_msg > ep_trim_instance p then
        let p = p\<lparr>ep_trim_instance := trim_iid trim_msg\<rparr>;
            (m, prepares) = epoch_proposer_trim_instances_pending_in_phase (ep_value_proposal_manager p)
                              (ep_prepare_infos p) (trim_iid trim_msg);
            (m, accepts) = epoch_proposer_trim_instances_pending_in_phase m
                              (ep_accept_infos p) (trim_iid trim_msg);
            p = p\<lparr>ep_value_proposal_manager := m, ep_prepare_infos := prepares, ep_accept_infos := accepts\<rparr>
        in if ep_trim_instance p > ep_next_prepare_instance p
           then (p\<lparr>ep_next_prepare_instance := ep_trim_instance p + 1 + cfg_fall_behind_jump cfg\<rparr>, FALLEN_BEHIND)
           else (p, MESSAGE_ACKNOWLEDGED)
      else (p, MESSAGE_IGNORED))"

definition epoch_proposer_set_current_instance :: "paxos_config \<Rightarrow> epoch_proposer \<Rightarrow> iid_t \<Rightarrow> epoch_proposer option" where
  "epoch_proposer_set_current_instance cfg p i =
     (let p = p\<lparr>ep_next_prepare_instance := i\<rparr>
      in case epoch_proposer_get_min_unchosen_instance p of
           None \<Rightarrow> None
         | Some m \<Rightarrow> Some (if i < m then fst (epoch_proposer_receive_trim cfg p \<lparr>trim_iid = i\<rparr>) else p))"

definition epoch_proposer_get_state :: "epoch_proposer \<Rightarrow> epoch_proposer_state" where
  "epoch_proposer_get_state p =
     \<lparr>eps_proposer_state = \<lparr>ps_proposer_id = word_of_int (ep_id p), ps_trim_instance = ep_trim_instance p,
        ps_max_chosen_instance = ep_max_chosen_instance p, ps_next_prepare_instance = ep_next_prepare_instance p\<rparr>,
      eps_current_epoch = ep_known_highest_epoch p\<rparr>"

definition epoch_proposer_receive_epoch_proposer_state ::
    "paxos_config \<Rightarrow> epoch_proposer \<Rightarrow> epoch_proposer_state \<Rightarrow> epoch_proposer \<times> epoch_paxos_message_return_codes" where
  "epoch_proposer_receive_epoch_proposer_state cfg p state =
     (let p = p\<lparr>ep_known_highest_epoch :=
                  (if eps_current_epoch state > ep_known_highest_epoch p
                   then eps_current_epoch state else ep_known_highest_epoch p),
                ep_max_chosen_instance :=
                  (if ps_max_chosen_instance (eps_proposer_state state) > ep_max_chosen_instance p
                   then ps_max_chosen_instance (eps_proposer_state state) else ep_max_chosen_instance p)\<rparr>
      in epoch_proposer_receive_trim cfg p \<lparr>trim_iid = ps_trim_instance (eps_proposer_state state)\<rparr>)"

definition epoch_proposer_receive_acceptor_state ::
    "paxos_config \<Rightarrow> epoch_proposer \<Rightarrow> writeahead_epoch_acceptor_state
       \<Rightarrow> epoch_proposer \<times> epoch_paxos_message_return_codes" where
  "epoch_proposer_receive_acceptor_state cfg p state =
     (let p = (if was_current_epoch state > ep_known_highest_epoch p
               then p\<lparr>ep_known_highest_epoch := was_current_epoch state\<rparr> else p)
      in epoch_proposer_receive_trim cfg p \<lparr>trim_iid = as_trim_iid (was_standard_acceptor_state state)\<rparr>)"

section \<open>Learning that an instance was chosen\<close>

definition epoch_proposer_receive_chosen ::
    "paxos_config \<Rightarrow> epoch_proposer \<Rightarrow> epoch_ballot_chosen
       \<Rightarrow> (epoch_proposer \<times> epoch_paxos_message_return_codes) option" where
  "epoch_proposer_receive_chosen cfg p ack =
     (if epoch_proposer_is_instance_chosen p (ebc_instance ack) then Some (p, MESSAGE_IGNORED) else
      let i = ebc_instance ack;
          p = epoch_proposer_set_instance_chosen p i;
          p = epoch_proposer_check_and_set_current_epoch_from_epoch_ballot p (ebc_chosen_epoch_ballot ack);
          (m, value_close) =
            value_proposal_manager_close_if_outstanding (ep_value_proposal_manager p) (ebc_chosen_value ack);
          p = p\<lparr>ep_value_proposal_manager := m\<rparr>;
          inst_prepare = epoch_proposer_get_instance_info_in_phase (ep_prepare_infos p) i;
          inst_accept = epoch_proposer_get_instance_info_in_phase (ep_accept_infos p) i
      in if inst_prepare = None \<and> inst_accept = None then Some (p, MESSAGE_IGNORED) else
      let p = (if inst_prepare = None then p
               else p\<lparr>ep_prepare_infos := epoch_proposer_remove_instance_from_phase (ep_prepare_infos p) i\<rparr>)
      in case (case inst_accept of
                 None \<Rightarrow> Some p
               | Some inst \<Rightarrow>
                   let accepts = epoch_proposer_remove_instance_from_phase (ep_accept_infos p) i
                   in if value_close then Some (p\<lparr>ep_accept_infos := accepts\<rparr>)
                      else (case (epoch_instance_should_requeue_value inst, pci_proposing_value (epi_common_info inst)) of
                              (Some True, Some v) \<Rightarrow>
                                Some (p\<lparr>ep_value_proposal_manager :=
                                          fst (value_proposal_manager_check_and_requeue_value m v),
                                        ep_accept_infos := accepts\<rparr>)
                            | (Some False, _) \<Rightarrow> Some (p\<lparr>ep_accept_infos := accepts\<rparr>)
                            | _ \<Rightarrow> None)) of
           None \<Rightarrow> None
         | Some p \<Rightarrow>
             (case epoch_proposer_get_min_unchosen_instance p of
                None \<Rightarrow> None
              | Some min_unchosen \<Rightarrow>
                  Some (if min_unchosen \<ge> i then fst (epoch_proposer_receive_trim cfg p \<lparr>trim_iid = i\<rparr>) else p,
                        MESSAGE_ACKNOWLEDGED)))"

section \<open>The prepare phase\<close>

definition epoch_proposer_try_to_start_preparing_instance ::
    "timeval \<Rightarrow> epoch_proposer \<Rightarrow> iid_t \<Rightarrow> epoch_ballot \<Rightarrow> epoch_proposer \<times> epoch_paxos_prepares option" where
  "epoch_proposer_try_to_start_preparing_instance now p i initial_ballot =
     (if i \<le> ep_trim_instance p then (epoch_proposer_next_instance p, None)
      else if epoch_proposer_is_instance_chosen p i then (epoch_proposer_next_instance p, None)
      else
        let p = (if epoch_proposer_get_instance_info_in_phase (ep_accept_infos p) i \<noteq> None
                 then epoch_proposer_next_instance p else p)
        in if epoch_proposer_get_instance_info_in_phase (ep_prepare_infos p) i = None then
             let out = (if eb_epoch initial_ballot = INVALID_EPOCH
                        then STANDARD_PREPARE \<lparr>prep_iid = i, prep_ballot = eb_ballot initial_ballot\<rparr>
                        else EXPLICIT_EPOCH_PREPARE \<lparr>ebp_instance = i, ebp_epoch_ballot_requested = initial_ballot\<rparr>);
                 inst = epoch_proposer_instance_info_new now i initial_ballot (ep_acceptors p) (ep_q1 p)
             in (p\<lparr>ep_prepare_infos := AList.update i inst (ep_prepare_infos p)\<rparr>, Some out)
           else (epoch_proposer_next_instance p, None))"

definition is_current_epoch_ballot :: "epoch_ballot_promise \<Rightarrow> epoch_proposer_instance_info \<Rightarrow> bool" where
  "is_current_epoch_ballot ack inst \<longleftrightarrow>
     epoch_ballot_equal (epoch_proposer_instance_info_get_current_epoch_ballot inst) (ebpr_promised_epoch_ballot ack)
     \<or> epi_current_epoch inst = INVALID_EPOCH
       \<and> ballot_equal (pci_ballot (epi_common_info inst)) (eb_ballot (ebpr_promised_epoch_ballot ack))"

definition is_epoch_promise_outdated :: "epoch_ballot_promise \<Rightarrow> epoch_proposer_instance_info \<Rightarrow> bool" where
  "is_epoch_promise_outdated ack inst \<longleftrightarrow>
     epoch_ballot_greater_than (epoch_proposer_instance_info_get_current_epoch_ballot inst) (ebpr_promised_epoch_ballot ack)
     \<or> ballot_greater_than (pci_ballot (epi_common_info inst)) (eb_ballot (ebpr_promised_epoch_ballot ack))"

definition epoch_proposer_check_and_handle_promises_last_accepted_value_for_instance ::
    "epoch_proposer_instance_info \<Rightarrow> epoch_ballot_promise \<Rightarrow> epoch_proposer_instance_info" where
  "epoch_proposer_check_and_handle_promises_last_accepted_value_for_instance inst promise =
     (let last = epoch_proposer_instance_info_get_last_accepted_epoch_ballot inst
      in if epoch_ballot_greater_than (ebpr_last_accepted_ballot promise) last then
           let inst = epoch_proposer_instance_info_save_new_last_accepted_value inst
                        (ebpr_last_accepted_ballot promise) (ebpr_last_accepted_value promise)
           in if epoch_ballot_greater_than (ebpr_last_accepted_ballot promise) INVALID_EPOCH_BALLOT
              then inst\<lparr>epi_same_accept_count := 1\<rparr> else inst
         else if epoch_ballot_equal (ebpr_last_accepted_ballot promise) last
             \<and> epoch_ballot_greater_than (ebpr_last_accepted_ballot promise) INVALID_EPOCH_BALLOT
         then inst\<lparr>epi_same_accept_count := epi_same_accept_count inst + 1\<rparr>
         else inst)"

definition epoch_proposer_instance_info_update_info_from_epoch_preemption ::
    "timeval \<Rightarrow> epoch_proposer_instance_info \<Rightarrow> epoch_ballot_preempted \<Rightarrow> epoch_proposer_instance_info" where
  "epoch_proposer_instance_info_update_info_from_epoch_preemption now inst preempted =
     (let inst = epoch_proposer_instance_info_set_current_epoch_ballot inst
                   (Epoch_Ballot (eb_epoch (ebpe_acceptors_current_epoch_ballot preempted))
                      (eb_ballot (ebpe_requested_epoch_ballot preempted)))
      in inst\<lparr>epi_common_info := (epi_common_info inst)\<lparr>pci_proposing_value := None, pci_created_at := now\<rparr>,
              epi_same_accept_count := 0, epi_quorum := quorum_clear (epi_quorum inst)\<rparr>)"

text \<open>
  \<open>epoch_proposer_receive_promise\<close> calls itself after it has moved the instance to the epoch of the
  promise.  The first argument bounds the depth of the calls; \<open>None\<close> is also the result of running out.
\<close>

fun epoch_proposer_receive_promise_depth ::
    "nat \<Rightarrow> paxos_config \<Rightarrow> timeval \<Rightarrow> epoch_proposer \<Rightarrow> epoch_ballot_promise
       \<Rightarrow> (epoch_proposer \<times> epoch_paxos_message_return_codes \<times> epoch_paxos_message option) option" where
  "epoch_proposer_receive_promise_depth 0 cfg now p ack = None"
| "epoch_proposer_receive_promise_depth (Suc d) cfg now p ack =
     (let i = ebpr_instance ack in
      if i \<le> ep_trim_instance p then Some (p, MESSAGE_IGNORED, None)
      else if epoch_proposer_is_instance_chosen p i then Some (p, MESSAGE_IGNORED, None)
      else case epoch_proposer_get_instance_info_in_phase (ep_prepare_infos p) i of
        None \<Rightarrow> Some (p, MESSAGE_IGNORED, None)
      | Some inst \<Rightarrow>
          if is_epoch_promise_outdated ack inst then Some (p, MESSAGE_IGNORED, None)
          else if is_current_epoch_ballot ack inst then
            let inst = (if epi_current_epoch inst = INVALID_EPOCH
                        then inst\<lparr>epi_current_epoch := eb_epoch (ebpr_promised_epoch_ballot ack)\<rparr> else inst)
            in (case quorum_add (epi_quorum inst) (sint (ebpr_acceptor_id ack)) of
                  None \<Rightarrow> None
                | Some (q, new_promise) \<Rightarrow>
                    if \<not> new_promise
                    then Some (p\<lparr>ep_prepare_infos := AList.update i inst (ep_prepare_infos p)\<rparr>, MESSAGE_IGNORED, None)
                    else
                      let p = epoch_proposer_check_and_set_current_epoch_from_epoch_ballot p (ebpr_promised_epoch_ballot ack);
                          inst = epoch_proposer_check_and_handle_promises_last_accepted_value_for_instance
                                   (inst\<lparr>epi_quorum := q\<rparr>) ack;
                          p = p\<lparr>ep_prepare_infos := AList.update i inst (ep_prepare_infos p)\<rparr>
                      in if epi_same_accept_count inst \<ge> cfg_quorum_2 cfg then
                           (case pci_last_accepted_value (epi_common_info inst) of
                              None \<Rightarrow> None
                            | Some v \<Rightarrow>
                                let chosen = \<lparr>ebc_instance = i,
                                      ebc_chosen_epoch_ballot = Epoch_Ballot (epi_last_accepted_epoch_ballot_epoch inst)
                                        (pci_last_accepted_ballot (epi_common_info inst)),
                                      ebc_chosen_value = v\<rparr>
                                in (case epoch_proposer_receive_chosen cfg p chosen of
                                      None \<Rightarrow> None
                                    | Some (p, _) \<Rightarrow>
                                        Some (p, INSTANCE_CHOSEN, Some (WRITEAHEAD_INSTANCE_CHOSEN_AT_EPOCH_BALLOT chosen))))
                         else if quorum_reached (epi_quorum inst) then Some (p, QUORUM_REACHED, None)
                         else Some (p, MESSAGE_ACKNOWLEDGED, None))
          else
            let p = epoch_proposer_check_and_set_current_epoch_from_epoch_ballot p (ebpr_promised_epoch_ballot ack);
                preempted = \<lparr>ebpe_acceptor_id = ebpr_acceptor_id ack, ebpe_instance = i,
                  ebpe_requested_epoch_ballot = epoch_proposer_instance_info_get_current_epoch_ballot inst,
                  ebpe_acceptors_current_epoch_ballot = ebpr_promised_epoch_ballot ack\<rparr>;
                inst = epoch_proposer_instance_info_update_info_from_epoch_preemption now inst preempted;
                p = p\<lparr>ep_prepare_infos := AList.update i inst (ep_prepare_infos p)\<rparr>
            in (case epoch_proposer_receive_promise_depth d cfg now p ack of
                  None \<Rightarrow> None
                | Some (p, _, _) \<Rightarrow>
                    Some (p, EPOCH_PREEMPTED, Some (WRITEAHEAD_EPOCH_BALLOT_PREPARE
                      \<lparr>ebp_instance = i, ebp_epoch_ballot_requested = ebpr_promised_epoch_ballot ack\<rparr>))))"

text \<open>Two calls are enough whenever the recursion ends, which is proved below.\<close>

definition epoch_proposer_receive_promise ::
    "paxos_config \<Rightarrow> timeval \<Rightarrow> epoch_proposer \<Rightarrow> epoch_ballot_promise
       \<Rightarrow> (epoch_proposer \<times> epoch_paxos_message_return_codes \<times> epoch_paxos_message option) option" where
  "epoch_proposer_receive_promise cfg now p ack = epoch_proposer_receive_promise_depth 2 cfg now p ack"

section \<open>The accept phase\<close>

text \<open>The loop over the table keeps the candidate with the smallest instance.\<close>

fun epoch_min_instance_to_accept ::
    "epoch_proposer \<Rightarrow> epoch_proposer_instance_info list \<Rightarrow> epoch_proposer_instance_info option
       \<Rightarrow> epoch_proposer_instance_info option" where
  "epoch_min_instance_to_accept p [] best = best"
| "epoch_min_instance_to_accept p (cur # rest) best =
     (if quorum_reached (epi_quorum cur) \<and> \<not> epoch_proposer_is_instance_chosen p (pci_iid (epi_common_info cur))
      then (case best of
              None \<Rightarrow> epoch_min_instance_to_accept p rest (Some cur)
            | Some b \<Rightarrow>
                if pci_iid (epi_common_info b) > pci_iid (epi_common_info cur)
                then epoch_min_instance_to_accept p rest (Some cur)
                else epoch_min_instance_to_accept p rest (Some b))
      else epoch_min_instance_to_accept p rest best)"

definition epoch_get_min_instance_to_begin_accept_phase :: "epoch_proposer \<Rightarrow> epoch_proposer_instance_info option" where
  "epoch_get_min_instance_to_begin_accept_phase p =
     epoch_min_instance_to_accept p (map snd (ep_prepare_infos p)) None"

definition epoch_proposer_try_determine_value_to_propose_and_set ::
    "paxos_config \<Rightarrow> timeval \<Rightarrow> epoch_proposer \<Rightarrow> epoch_proposer_instance_info
       \<Rightarrow> (epoch_proposer \<times> epoch_proposer_instance_info \<times> bool) option" where
  "epoch_proposer_try_determine_value_to_propose_and_set cfg now p inst =
     (case pci_last_accepted_value (epi_common_info inst) of
        None \<Rightarrow>
          (let (m, result) = value_proposal_manger_get_next cfg now (ep_value_proposal_manager p)
                               (ep_max_chosen_instance p > pci_iid (epi_common_info inst));
               p = p\<lparr>ep_value_proposal_manager := m\<rparr>
           in case result of
                Next v \<Rightarrow> Some (p, inst\<lparr>epi_common_info := (epi_common_info inst)\<lparr>pci_proposing_value := Some v\<rparr>\<rparr>, True)
              | No_Value \<Rightarrow> Some (p, inst, False)
              | No_Return \<Rightarrow> None)
      | Some v \<Rightarrow>
          Some (p, inst\<lparr>epi_common_info := (epi_common_info inst)
                    \<lparr>pci_proposing_value := Some v, pci_last_accepted_value := None\<rparr>\<rparr>, True))"

text \<open>Reads through \<open>proposing_value\<close>: \<open>None\<close> when the pointer is \<open>NULL\<close>.\<close>

definition set_epoch_ballot_accept_from_instance_info ::
    "epoch_proposer_instance_info \<Rightarrow> epoch_ballot_accept option" where
  "set_epoch_ballot_accept_from_instance_info inst =
     (case pci_proposing_value (epi_common_info inst) of
        None \<Rightarrow> None
      | Some v \<Rightarrow> Some \<lparr>eba_instance = pci_iid (epi_common_info inst),
                        eba_epoch_ballot_requested = epoch_proposer_instance_info_get_current_epoch_ballot inst,
                        eba_value_to_accept = v\<rparr>)"

definition epoch_proposer_try_accept ::
    "paxos_config \<Rightarrow> timeval \<Rightarrow> epoch_proposer \<Rightarrow> (epoch_proposer \<times> epoch_ballot_accept option) option" where
  "epoch_proposer_try_accept cfg now p =
     (case epoch_get_min_instance_to_begin_accept_phase p of
        None \<Rightarrow> Some (p, None)
      | Some inst \<Rightarrow>
          (case epoch_proposer_try_determine_value_to_propose_and_set cfg now p inst of
             None \<Rightarrow> None
           | Some (p, inst, False) \<Rightarrow> Some (p, None)
           | Some (p, inst, True) \<Rightarrow>
               let (f, t, inst) = epoch_proposer_move_instance_between_phase (ep_prepare_infos p)
                                    (ep_accept_infos p) inst (ep_q2 p);
                   p = p\<lparr>ep_prepare_infos := f, ep_accept_infos := t\<rparr>
               in case set_epoch_ballot_accept_from_instance_info inst of
                    None \<Rightarrow> None
                  | Some out \<Rightarrow> Some (p, Some out)))"

text \<open>An acknowledgement at an epoch ballot above the one proposed reaches the end of the function.\<close>

definition epoch_proposer_receive_accepted ::
    "paxos_config \<Rightarrow> epoch_proposer \<Rightarrow> epoch_ballot_accepted
       \<Rightarrow> (epoch_proposer \<times> epoch_paxos_message_return_codes \<times> epoch_ballot_chosen option) option" where
  "epoch_proposer_receive_accepted cfg p ack =
     (let i = ebac_instance ack in
      if i \<le> ep_trim_instance p then Some (p, MESSAGE_IGNORED, None)
      else if epoch_proposer_is_instance_chosen p i then Some (p, MESSAGE_IGNORED, None)
      else case epoch_proposer_get_instance_info_in_phase (ep_accept_infos p) i of
        None \<Rightarrow> Some (p, MESSAGE_IGNORED, None)
      | Some inst \<Rightarrow>
          let current = epoch_proposer_instance_info_get_current_epoch_ballot inst
          in if epoch_ballot_greater_than current (ebac_accepted_epoch_ballot ack)
             then Some (p, MESSAGE_IGNORED, None)
             else if epoch_ballot_equal (ebac_accepted_epoch_ballot ack) current then
               (case quorum_add (epi_quorum inst) (sint (ebac_acceptor_id ack)) of
                  None \<Rightarrow> None
                | Some (q, new) \<Rightarrow>
                    if \<not> new then Some (p, MESSAGE_IGNORED, None)
                    else let p = p\<lparr>ep_accept_infos := AList.update i (inst\<lparr>epi_quorum := q\<rparr>) (ep_accept_infos p)\<rparr>
                         in if quorum_reached q then
                              let chosen = \<lparr>ebc_instance = pci_iid (epi_common_info inst),
                                    ebc_chosen_epoch_ballot = current, ebc_chosen_value = ebac_accepted_value ack\<rparr>
                              in (case epoch_proposer_receive_chosen cfg p chosen of
                                    None \<Rightarrow> None
                                  | Some (p, _) \<Rightarrow> Some (p, QUORUM_REACHED, Some chosen))
                            else Some (p, MESSAGE_ACKNOWLEDGED, None))
             else None)"

section \<open>Preemption\<close>

definition epoch_proposer_update_instance_info_from_ballot_preempted ::
    "timeval \<Rightarrow> u32 list \<Rightarrow> epoch_proposer \<Rightarrow> epoch_proposer_instance_info \<Rightarrow> epoch_ballot_preempted
       \<Rightarrow> epoch_proposer_instance_info option" where
  "epoch_proposer_update_instance_info_from_ballot_preempted now draws p inst preempted =
     (case ballot_giver_next draws (ep_ballot_giver p) (eb_ballot (ebpe_acceptors_current_epoch_ballot preempted)) of
        None \<Rightarrow> None
      | Some b \<Rightarrow>
          let inst = epoch_proposer_instance_info_set_current_epoch_ballot inst
                       (Epoch_Ballot (eb_epoch (ebpe_acceptors_current_epoch_ballot preempted)) b);
              inst = (if proposer_instance_info_has_promised_value (epi_common_info inst)
                      then inst\<lparr>epi_common_info := (epi_common_info inst)
                                  \<lparr>pci_last_accepted_value := None, pci_last_accepted_ballot := INVALID_BALLOT\<rparr>,
                                epi_last_accepted_epoch_ballot_epoch := INVALID_EPOCH\<rparr>
                      else inst);
              inst = (if proposer_instance_info_has_value (epi_common_info inst)
                      then inst\<lparr>epi_common_info := (epi_common_info inst)\<lparr>pci_proposing_value := None\<rparr>\<rparr> else inst)
          in Some (inst\<lparr>epi_same_accept_count := 0, epi_quorum := quorum_clear (epi_quorum inst),
                        epi_common_info := (epi_common_info inst)\<lparr>pci_created_at := now\<rparr>\<rparr>))"

definition set_epoch_ballot_prepare_from_instance_info :: "epoch_proposer_instance_info \<Rightarrow> epoch_ballot_prepare" where
  "set_epoch_ballot_prepare_from_instance_info inst =
     \<lparr>ebp_instance = pci_iid (epi_common_info inst),
      ebp_epoch_ballot_requested = epoch_proposer_instance_info_get_current_epoch_ballot inst\<rparr>"

text \<open>
  What both blocks of \<open>epoch_proposer_receive_preempted\<close> do to an instance: the proposer, the instance,
  the return code and whether anything was preempted.
\<close>

definition epoch_preempt_instance ::
    "timeval \<Rightarrow> u32 list \<Rightarrow> epoch_proposer \<Rightarrow> epoch_proposer_instance_info \<Rightarrow> epoch_ballot_preempted
       \<Rightarrow> epoch_paxos_message_return_codes
       \<Rightarrow> (epoch_proposer \<times> epoch_proposer_instance_info \<times> epoch_paxos_message_return_codes \<times> bool) option" where
  "epoch_preempt_instance now draws p inst preempted code =
     (let current = epoch_proposer_instance_info_get_current_epoch_ballot inst;
          epoch_preempted = epoch_greater_than (ebpe_acceptors_current_epoch_ballot preempted) current;
          ballot_preempted = ballot_greater_than (eb_ballot (ebpe_acceptors_current_epoch_ballot preempted))
                               (eb_ballot current);
          (p, inst, code) =
            (if epoch_preempted
             then (epoch_proposer_check_and_set_current_epoch_from_epoch_ballot p (ebpe_acceptors_current_epoch_ballot preempted),
                   inst\<lparr>epi_quorum := quorum_clear (epi_quorum inst),
                        epi_common_info := (epi_common_info inst)\<lparr>pci_created_at := now\<rparr>\<rparr>,
                   EPOCH_PREEMPTED)
             else (p, inst, code))
      in if ballot_preempted then
           (case epoch_proposer_update_instance_info_from_ballot_preempted now draws p inst preempted of
              None \<Rightarrow> None
            | Some inst \<Rightarrow> Some (p, inst, BALLOT_PREEMPTED, True))
         else Some (p, inst, code, epoch_preempted))"

definition epoch_preempt_prepare_phase ::
    "timeval \<Rightarrow> u32 list \<Rightarrow> epoch_proposer \<Rightarrow> epoch_ballot_preempted
       \<Rightarrow> (epoch_proposer \<times> epoch_paxos_message_return_codes \<times> epoch_ballot_prepare option) option" where
  "epoch_preempt_prepare_phase now draws p preempted =
     (case epoch_proposer_get_instance_info_in_phase (ep_prepare_infos p) (ebpe_instance preempted) of
        None \<Rightarrow> Some (p, MESSAGE_IGNORED, None)
      | Some inst \<Rightarrow>
          if epoch_ballot_equal (ebpe_requested_epoch_ballot preempted)
               (epoch_proposer_instance_info_get_current_epoch_ballot inst)
             \<or> ballot_equal (eb_ballot (ebpe_requested_epoch_ballot preempted)) (pci_ballot (epi_common_info inst))
               \<and> epi_current_epoch inst = INVALID_EPOCH
          then (case epoch_preempt_instance now draws p inst preempted MESSAGE_IGNORED of
                  None \<Rightarrow> None
                | Some (p, inst, code, was) \<Rightarrow>
                    Some (p\<lparr>ep_prepare_infos := AList.update (ebpe_instance preempted) inst (ep_prepare_infos p)\<rparr>, code,
                          if was then Some (set_epoch_ballot_prepare_from_instance_info inst) else None))
          else Some (p, MESSAGE_IGNORED, None))"

definition epoch_preempt_accept_phase ::
    "timeval \<Rightarrow> u32 list \<Rightarrow> epoch_proposer \<Rightarrow> epoch_ballot_preempted \<Rightarrow> epoch_paxos_message_return_codes
       \<Rightarrow> (epoch_proposer \<times> epoch_paxos_message_return_codes \<times> epoch_ballot_prepare option) option" where
  "epoch_preempt_accept_phase now draws p preempted code =
     (case epoch_proposer_get_instance_info_in_phase (ep_accept_infos p) (ebpe_instance preempted) of
        None \<Rightarrow> Some (p, code, None)
      | Some inst \<Rightarrow>
          if epoch_ballot_equal (ebpe_requested_epoch_ballot preempted)
               (epoch_proposer_instance_info_get_current_epoch_ballot inst)
          then (case (epoch_instance_should_requeue_value inst, pci_proposing_value (epi_common_info inst)) of
                  (Some requeue, Some v) \<Rightarrow>
                    let p = (if requeue
                             then p\<lparr>ep_value_proposal_manager :=
                                      fst (value_proposal_manager_check_and_requeue_value (ep_value_proposal_manager p) v)\<rparr>
                             else p)
                    in (case epoch_preempt_instance now draws p inst preempted code of
                          None \<Rightarrow> None
                        | Some (p, inst, code, was) \<Rightarrow>
                            if was then
                              let (f, t, inst) = epoch_proposer_move_instance_between_phase (ep_accept_infos p)
                                                   (ep_prepare_infos p) inst (ep_q1 p)
                              in Some (p\<lparr>ep_accept_infos := f, ep_prepare_infos := t\<rparr>, code,
                                       Some (set_epoch_ballot_prepare_from_instance_info inst))
                            else Some (p, code, None))
                | _ \<Rightarrow> None)
          else Some (p, code, None))"

text \<open>
  \<open>draws\<close> and \<open>draws'\<close> are the random numbers of the two calls of \<open>ballot_giver_next\<close>.  Both blocks
  write the same \<open>next_prepare\<close> and the same return code.
\<close>

definition epoch_proposer_receive_preempted ::
    "timeval \<Rightarrow> u32 list \<Rightarrow> u32 list \<Rightarrow> epoch_proposer \<Rightarrow> epoch_ballot_preempted
       \<Rightarrow> (epoch_proposer \<times> epoch_paxos_message_return_codes \<times> epoch_ballot_prepare option) option" where
  "epoch_proposer_receive_preempted now draws draws' p preempted =
     (if ebpe_instance preempted \<le> ep_trim_instance p then Some (p, MESSAGE_IGNORED, None)
      else if epoch_proposer_is_instance_chosen p (ebpe_instance preempted) then Some (p, MESSAGE_IGNORED, None)
      else case epoch_preempt_prepare_phase now draws p preempted of
             None \<Rightarrow> None
           | Some (p, code, out) \<Rightarrow>
               (case epoch_preempt_accept_phase now draws' p preempted code of
                  None \<Rightarrow> None
                | Some (p, code, out') \<Rightarrow> Some (p, code, case out' of None \<Rightarrow> out | Some _ \<Rightarrow> out')))"

section \<open>Timeouts\<close>

text \<open>An iterator is the position in the table from which the next call searches.\<close>

record epoch_proposer_timeout_iterator =
  eti_prepare_instance_iter :: nat
  eti_accept_instance_iter :: nat
  eti_check_timeout :: timeval

fun get_next_timedout ::
    "paxos_config \<Rightarrow> epoch_phase_table \<Rightarrow> nat \<Rightarrow> timeval \<Rightarrow> nat \<times> epoch_proposer_instance_info option" where
  "get_next_timedout cfg [] k t = (k, None)"
| "get_next_timedout cfg ((_, inst) # h) k t =
     (if quorum_reached (epi_quorum inst) then get_next_timedout cfg h (k + 1) t
      else if proposer_instance_info_has_timedout cfg (epi_common_info inst) t then (k, Some inst)
      else get_next_timedout cfg h (k + 1) t)"

definition epoch_proposer_timeout_iterator_new :: "timeval \<Rightarrow> epoch_proposer_timeout_iterator" where
  "epoch_proposer_timeout_iterator_new now =
     \<lparr>eti_prepare_instance_iter = 0, eti_accept_instance_iter = 0, eti_check_timeout = now\<rparr>"

definition epoch_proposer_timeout_iterator_prepare ::
    "paxos_config \<Rightarrow> timeval \<Rightarrow> epoch_proposer_timeout_iterator \<Rightarrow> epoch_proposer
       \<Rightarrow> epoch_proposer_timeout_iterator \<times> epoch_proposer \<times> epoch_ballot_prepare option" where
  "epoch_proposer_timeout_iterator_prepare cfg now iter p =
     (case get_next_timedout cfg (drop (eti_prepare_instance_iter iter) (ep_prepare_infos p))
             (eti_prepare_instance_iter iter) (eti_check_timeout iter) of
        (k, None) \<Rightarrow> (iter\<lparr>eti_prepare_instance_iter := k\<rparr>, p, None)
      | (k, Some inst) \<Rightarrow>
          (iter\<lparr>eti_prepare_instance_iter := k\<rparr>,
           p\<lparr>ep_prepare_infos := AList.update (pci_iid (epi_common_info inst))
               (inst\<lparr>epi_common_info := (epi_common_info inst)\<lparr>pci_created_at := now\<rparr>\<rparr>) (ep_prepare_infos p)\<rparr>,
           Some (set_epoch_ballot_prepare_from_instance_info inst)))"

definition epoch_proposer_timeout_iterator_accept ::
    "paxos_config \<Rightarrow> timeval \<Rightarrow> epoch_proposer_timeout_iterator \<Rightarrow> epoch_proposer
       \<Rightarrow> (epoch_proposer_timeout_iterator \<times> epoch_proposer \<times> epoch_ballot_accept option) option" where
  "epoch_proposer_timeout_iterator_accept cfg now iter p =
     (case get_next_timedout cfg (drop (eti_accept_instance_iter iter) (ep_accept_infos p))
             (eti_accept_instance_iter iter) (eti_check_timeout iter) of
        (k, None) \<Rightarrow> Some (iter\<lparr>eti_accept_instance_iter := k\<rparr>, p, None)
      | (k, Some inst) \<Rightarrow>
          (case set_epoch_ballot_accept_from_instance_info inst of
             None \<Rightarrow> None
           | Some out \<Rightarrow>
               Some (iter\<lparr>eti_accept_instance_iter := k\<rparr>,
                     p\<lparr>ep_accept_infos := AList.update (pci_iid (epi_common_info inst))
                         (inst\<lparr>epi_common_info := (epi_common_info inst)\<lparr>pci_created_at := now\<rparr>\<rparr>) (ep_accept_infos p)\<rparr>,
                     Some out)))"

section \<open>Well-formed proposers\<close>

abbreviation epoch_table_wf :: "int \<Rightarrow> epoch_phase_table \<Rightarrow> bool" where
  "epoch_table_wf \<equiv> phase_table_wf epi_common_info epi_quorum"

abbreviation epoch_has_values :: "epoch_phase_table \<Rightarrow> bool" where
  "epoch_has_values \<equiv> phase_has_values epi_common_info"

definition epoch_proposer_wf :: "epoch_proposer \<Rightarrow> bool" where
  "epoch_proposer_wf p \<longleftrightarrow> epoch_table_wf (ep_acceptors p) (ep_prepare_infos p)
     \<and> epoch_table_wf (ep_acceptors p) (ep_accept_infos p)
     \<and> epoch_has_values (ep_accept_infos p) \<and> vpm_wf (ep_value_proposal_manager p)"

text \<open>
  What no call undoes: the sizes are fixed, the highest known epoch and the trim instance only rise, and
  a chosen instance stays chosen.
\<close>

definition evolves :: "epoch_proposer \<Rightarrow> epoch_proposer \<Rightarrow> bool" where
  "evolves p p' \<longleftrightarrow> ep_acceptors p' = ep_acceptors p \<and> ep_q1 p' = ep_q1 p \<and> ep_q2 p' = ep_q2 p
     \<and> ep_known_highest_epoch p \<le> ep_known_highest_epoch p' \<and> ep_trim_instance p \<le> ep_trim_instance p'
     \<and> ep_chosen_instances p \<subseteq>\<^sub>m ep_chosen_instances p'"

lemma evolves_refl [simp]: "evolves p p"
  by (simp add: evolves_def)

lemma evolves_trans [trans]: "evolves p p' \<Longrightarrow> evolves p' p'' \<Longrightarrow> evolves p p''"
  by (auto simp: evolves_def intro: map_le_trans)

lemma evolves_fields [simp]:
  "evolves p (p\<lparr>ep_value_proposal_manager := m\<rparr>)" "evolves p (p\<lparr>ep_prepare_infos := t\<rparr>)"
  "evolves p (p\<lparr>ep_accept_infos := t\<rparr>)" "evolves p (epoch_proposer_next_instance p)"
  "evolves p (p\<lparr>ep_next_prepare_instance := i\<rparr>)"
  "evolves p (epoch_proposer_check_and_set_current_epoch_from_epoch_ballot p eb)"
  by (auto simp: evolves_def epoch_proposer_next_instance_def
      epoch_proposer_check_and_set_current_epoch_from_epoch_ballot_def)

lemma wf_fields [simp]:
  "epoch_proposer_wf (epoch_proposer_next_instance p) = epoch_proposer_wf p"
  "epoch_proposer_wf (p\<lparr>ep_next_prepare_instance := i\<rparr>) = epoch_proposer_wf p"
  "epoch_proposer_wf (p\<lparr>ep_known_highest_epoch := e\<rparr>) = epoch_proposer_wf p"
  "epoch_proposer_wf (p\<lparr>ep_max_chosen_instance := i\<rparr>) = epoch_proposer_wf p"
  "epoch_proposer_wf (epoch_proposer_check_and_set_current_epoch_from_epoch_ballot p eb) = epoch_proposer_wf p"
  by (simp_all add: epoch_proposer_wf_def epoch_proposer_next_instance_def
      epoch_proposer_check_and_set_current_epoch_from_epoch_ballot_def)

lemma check_epoch_fields [simp]:
  "ep_prepare_infos (epoch_proposer_check_and_set_current_epoch_from_epoch_ballot p eb) = ep_prepare_infos p"
  "ep_accept_infos (epoch_proposer_check_and_set_current_epoch_from_epoch_ballot p eb) = ep_accept_infos p"
  "ep_acceptors (epoch_proposer_check_and_set_current_epoch_from_epoch_ballot p eb) = ep_acceptors p"
  "ep_value_proposal_manager (epoch_proposer_check_and_set_current_epoch_from_epoch_ballot p eb) = ep_value_proposal_manager p"
  "ep_trim_instance (epoch_proposer_check_and_set_current_epoch_from_epoch_ballot p eb) = ep_trim_instance p"
  "ep_chosen_instances (epoch_proposer_check_and_set_current_epoch_from_epoch_ballot p eb) = ep_chosen_instances p"
  "ep_ballot_giver (epoch_proposer_check_and_set_current_epoch_from_epoch_ballot p eb) = ep_ballot_giver p"
  "ep_q1 (epoch_proposer_check_and_set_current_epoch_from_epoch_ballot p eb) = ep_q1 p"
  by (simp_all add: epoch_proposer_check_and_set_current_epoch_from_epoch_ballot_def)

lemma epoch_proposer_new_wf [simp]: "epoch_proposer_wf (epoch_proposer_new cfg i n q1 q2 inc)"
  by (simp add: epoch_proposer_wf_def epoch_proposer_new_def)

lemma wf_put_prepare:
  assumes "epoch_proposer_wf p" "pci_iid (epi_common_info x) = i" "quorum_wf (epi_quorum x)"
    "q_acceptors (epi_quorum x) = ep_acceptors p"
  shows "epoch_proposer_wf (p\<lparr>ep_prepare_infos := AList.update i x (ep_prepare_infos p)\<rparr>)"
  using assms by (simp add: epoch_proposer_wf_def table_wf_update)

lemma wf_put_accept:
  assumes "epoch_proposer_wf p" "pci_iid (epi_common_info x) = i" "quorum_wf (epi_quorum x)"
    "q_acceptors (epi_quorum x) = ep_acceptors p" "pci_proposing_value (epi_common_info x) \<noteq> None"
  shows "epoch_proposer_wf (p\<lparr>ep_accept_infos := AList.update i x (ep_accept_infos p)\<rparr>)"
  using assms by (simp add: epoch_proposer_wf_def table_wf_update has_values_update)

lemma wf_get_prepare:
  "epoch_proposer_wf p \<Longrightarrow> epoch_proposer_get_instance_info_in_phase (ep_prepare_infos p) i = Some x \<Longrightarrow>
     pci_iid (epi_common_info x) = i \<and> quorum_wf (epi_quorum x) \<and> q_acceptors (epi_quorum x) = ep_acceptors p"
  using phase_table_get [of epi_common_info epi_quorum "ep_acceptors p" "ep_prepare_infos p" i x]
  by (simp add: epoch_proposer_wf_def epoch_proposer_get_instance_info_in_phase_def)

lemma wf_get_accept:
  "epoch_proposer_wf p \<Longrightarrow> epoch_proposer_get_instance_info_in_phase (ep_accept_infos p) i = Some x \<Longrightarrow>
     pci_iid (epi_common_info x) = i \<and> quorum_wf (epi_quorum x) \<and> q_acceptors (epi_quorum x) = ep_acceptors p
     \<and> (\<exists>v. pci_proposing_value (epi_common_info x) = Some v)"
  using phase_table_get [of epi_common_info epi_quorum "ep_acceptors p" "ep_accept_infos p" i x]
    phase_values_get [of epi_common_info "ep_accept_infos p" i x]
  by (simp add: epoch_proposer_wf_def epoch_proposer_get_instance_info_in_phase_def)

lemma epoch_add_value_keeps:
  "epoch_proposer_wf p \<Longrightarrow> epoch_proposer_add_paxos_value_to_queue p v = Some p' \<Longrightarrow> epoch_proposer_wf p' \<and> evolves p p'"
  by (auto simp: epoch_proposer_add_paxos_value_to_queue_def epoch_proposer_wf_def dest: enqueue_correct split: option.splits)

lemma epoch_start_preparing_keeps:
  "epoch_proposer_wf p \<Longrightarrow> epoch_proposer_wf (fst (epoch_proposer_try_to_start_preparing_instance now p i b))
     \<and> evolves p (fst (epoch_proposer_try_to_start_preparing_instance now p i b))"
  by (auto simp: epoch_proposer_try_to_start_preparing_instance_def epoch_proposer_instance_info_new_def
      proposer_common_info_new_def epoch_proposer_next_instance_def evolves_def epoch_proposer_wf_def Let_def
      intro!: table_wf_update)

section \<open>Trimming and chosen instances\<close>

lemma epoch_trim_infos:
  assumes "vpm_wf m"
  shows "vpm_wf (fst (epoch_proposer_trim_instances_pending_in_phase m t i))
    \<and> snd (epoch_proposer_trim_instances_pending_in_phase m t i) = filter (\<lambda>(k, x). \<not> pci_iid (epi_common_info x) \<le> i) t"
  using assms
proof (induction t arbitrary: m)
  case Nil
  then show ?case by simp
next
  case (Cons a t)
  obtain k x where a: "a = (k, x)" by (cases a)
  let ?m = "case pci_proposing_value (epi_common_info x) of None \<Rightarrow> m
     | Some v \<Rightarrow> if epoch_instance_should_requeue_value x = Some True
                 then fst (value_proposal_manager_check_and_requeue_value m v) else m"
  have "vpm_wf ?m" using Cons.prems by (simp split: option.split)
  with Cons.IH [OF this] Cons.IH [OF Cons.prems] show ?case by (simp add: a Let_def split_beta del: not_le)
qed

lemma epoch_trim_eq:
  fixes cfg :: paxos_config
  assumes "epoch_proposer_wf p" "ep_trim_instance p < trim_iid t"
  defines "p' \<equiv> fst (epoch_proposer_receive_trim cfg p t)"
  shows "vpm_wf (ep_value_proposal_manager p')"
    "ep_prepare_infos p' = filter (\<lambda>(k, x). \<not> pci_iid (epi_common_info x) \<le> trim_iid t) (ep_prepare_infos p)"
    "ep_accept_infos p' = filter (\<lambda>(k, x). \<not> pci_iid (epi_common_info x) \<le> trim_iid t) (ep_accept_infos p)"
    "ep_acceptors p' = ep_acceptors p" "evolves p p'" "ep_chosen_instances p' = ep_chosen_instances p"
proof -
  let ?f = epoch_proposer_trim_instances_pending_in_phase
  let ?r1 = "?f (ep_value_proposal_manager p) (ep_prepare_infos p) (trim_iid t)"
  let ?r2 = "?f (fst ?r1) (ep_accept_infos p) (trim_iid t)"
  have "vpm_wf (ep_value_proposal_manager p)" using assms(1) by (simp add: epoch_proposer_wf_def)
  note 1 = epoch_trim_infos [OF this, of "ep_prepare_infos p" "trim_iid t"]
  note 2 = epoch_trim_infos [OF conjunct1 [OF 1], of "ep_accept_infos p" "trim_iid t"]
  have "ep_value_proposal_manager p' = fst ?r2" "ep_prepare_infos p' = snd ?r1" "ep_accept_infos p' = snd ?r2"
    using assms(2) by (simp_all add: p'_def epoch_proposer_receive_trim_def Let_def split_beta)
  with 1 2 show "vpm_wf (ep_value_proposal_manager p')"
    "ep_prepare_infos p' = filter (\<lambda>(k, x). \<not> pci_iid (epi_common_info x) \<le> trim_iid t) (ep_prepare_infos p)"
    "ep_accept_infos p' = filter (\<lambda>(k, x). \<not> pci_iid (epi_common_info x) \<le> trim_iid t) (ep_accept_infos p)"
    by auto
  show "ep_acceptors p' = ep_acceptors p" "evolves p p'" "ep_chosen_instances p' = ep_chosen_instances p"
    using assms(2) by (simp_all add: p'_def epoch_proposer_receive_trim_def evolves_def Let_def split_beta)
qed

lemma epoch_trim_keeps:
  assumes "epoch_proposer_wf p"
  shows "epoch_proposer_wf (fst (epoch_proposer_receive_trim cfg p t)) \<and> evolves p (fst (epoch_proposer_receive_trim cfg p t))"
proof (cases "ep_trim_instance p < trim_iid t")
  case True
  note eq = epoch_trim_eq [OF assms True, of cfg]
  show ?thesis
    using assms eq(1,5) unfolding epoch_proposer_wf_def eq(2-4) by (auto simp: table_wf_filter has_values_filter)
next
  case False
  with assms show ?thesis by (simp add: epoch_proposer_receive_trim_def)
qed

lemma epoch_set_current_keeps:
  assumes "epoch_proposer_wf p" "epoch_proposer_set_current_instance cfg p i = Some p'"
  shows "epoch_proposer_wf p' \<and> evolves p p'"
proof -
  let ?p = "p\<lparr>ep_next_prepare_instance := i\<rparr>"
  have "p' = ?p \<or> p' = fst (epoch_proposer_receive_trim cfg ?p \<lparr>trim_iid = i\<rparr>)"
    using assms(2) by (auto simp: epoch_proposer_set_current_instance_def Let_def split: option.splits if_splits)
  moreover have "epoch_proposer_wf ?p" "evolves p ?p" using assms(1) by simp_all
  ultimately show ?thesis using epoch_trim_keeps [of ?p] evolves_trans by blast
qed

lemma epoch_proposer_state_keeps:
  assumes "epoch_proposer_wf p"
  shows "epoch_proposer_wf (fst (epoch_proposer_receive_epoch_proposer_state cfg p st))
    \<and> evolves p (fst (epoch_proposer_receive_epoch_proposer_state cfg p st))"
proof -
  let ?p = "p\<lparr>ep_known_highest_epoch := (if eps_current_epoch st > ep_known_highest_epoch p
        then eps_current_epoch st else ep_known_highest_epoch p),
      ep_max_chosen_instance := (if ps_max_chosen_instance (eps_proposer_state st) > ep_max_chosen_instance p
        then ps_max_chosen_instance (eps_proposer_state st) else ep_max_chosen_instance p)\<rparr>"
  have "epoch_proposer_wf ?p" "evolves p ?p" using assms by (auto simp: epoch_proposer_wf_def evolves_def)
  with epoch_trim_keeps [of ?p] show ?thesis
    unfolding epoch_proposer_receive_epoch_proposer_state_def Let_def by (blast intro: evolves_trans)
qed

lemma epoch_acceptor_state_keeps:
  assumes "epoch_proposer_wf p"
  shows "epoch_proposer_wf (fst (epoch_proposer_receive_acceptor_state cfg p st))
    \<and> evolves p (fst (epoch_proposer_receive_acceptor_state cfg p st))"
proof -
  let ?p = "if was_current_epoch st > ep_known_highest_epoch p
    then p\<lparr>ep_known_highest_epoch := was_current_epoch st\<rparr> else p"
  have "epoch_proposer_wf ?p" "evolves p ?p" using assms by (auto simp: evolves_def)
  with epoch_trim_keeps [of ?p] show ?thesis
    unfolding epoch_proposer_receive_acceptor_state_def Let_def by (blast intro: evolves_trans)
qed

lemma epoch_delete_absent: "epoch_proposer_get_instance_info_in_phase t i = None \<Longrightarrow> AList.delete i t = t"
  by (simp add: epoch_proposer_get_instance_info_in_phase_def map_of_eq_None_iff)

text \<open>
  A chosen message for an instance that was not known to be chosen: the instance leaves both tables and
  perhaps a trim follows.
\<close>

lemma epoch_receive_chosen_new:
  assumes wf: "epoch_proposer_wf p" and new: "\<not> epoch_proposer_is_instance_chosen p (ebc_instance c)"
    and step: "epoch_proposer_receive_chosen cfg p c = Some (p', r)"
  obtains p1 where "epoch_proposer_wf p1" "evolves p p1" "ep_chosen_instances p1 (ebc_instance c) = Some True"
    "ep_prepare_infos p1 = AList.delete (ebc_instance c) (ep_prepare_infos p)"
    "ep_accept_infos p1 = AList.delete (ebc_instance c) (ep_accept_infos p)"
    "p' = p1 \<or> p' = fst (epoch_proposer_receive_trim cfg p1 \<lparr>trim_iid = ebc_instance c\<rparr>)"
proof -
  let ?i = "ebc_instance c"
  define p0 where "p0 = epoch_proposer_check_and_set_current_epoch_from_epoch_ballot
      (epoch_proposer_set_instance_chosen p ?i) (ebc_chosen_epoch_ballot c)"
  have p0: "ep_value_proposal_manager p0 = ep_value_proposal_manager p" "ep_prepare_infos p0 = ep_prepare_infos p"
    "ep_accept_infos p0 = ep_accept_infos p" "ep_chosen_instances p0 ?i = Some True" "epoch_proposer_wf p0"
    using new wf by (simp_all add: p0_def epoch_proposer_set_instance_chosen_def epoch_proposer_is_instance_chosen_def
        epoch_proposer_wf_def)
  have ev: "evolves p p0"
  proof -
    have "evolves p (epoch_proposer_set_instance_chosen p ?i)"
      using new by (simp add: evolves_def epoch_proposer_set_instance_chosen_def epoch_proposer_is_instance_chosen_def)
        (auto simp: map_le_def)
    then show ?thesis unfolding p0_def using evolves_fields(6) by (rule evolves_trans)
  qed
  obtain m closed where m: "value_proposal_manager_close_if_outstanding (ep_value_proposal_manager p0) (ebc_chosen_value c)
      = (m, closed)" by (meson surj_pair)
  define m2 where "m2 = (case epoch_proposer_get_instance_info_in_phase (ep_accept_infos p0) ?i of None \<Rightarrow> m
     | Some x \<Rightarrow> if \<not> closed \<and> epoch_instance_should_requeue_value x = Some True
                 then fst (value_proposal_manager_check_and_requeue_value m (the (pci_proposing_value (epi_common_info x))))
                 else m)"
  define p1 where "p1 = p0\<lparr>ep_value_proposal_manager := m2, ep_prepare_infos := AList.delete ?i (ep_prepare_infos p0),
      ep_accept_infos := AList.delete ?i (ep_accept_infos p0)\<rparr>"
  have order: "q\<lparr>ep_prepare_infos := t, ep_value_proposal_manager := w\<rparr> = q\<lparr>ep_value_proposal_manager := w, ep_prepare_infos := t\<rparr>"
    for q :: epoch_proposer and t w by simp
  have "vpm_wf m" using close_wf [OF _ m] p0(5) by (simp add: epoch_proposer_wf_def)
  then have "vpm_wf m2" by (simp add: m2_def split: option.split)
  then have wf1: "epoch_proposer_wf p1" using p0(5) by (simp add: p1_def epoch_proposer_wf_def)
  have ev1: "evolves p p1" using ev by (simp add: p1_def evolves_def)
  note unfold = order epoch_proposer_receive_chosen_def p0_def [symmetric] m Let_def p1_def m2_def
    epoch_proposer_remove_instance_from_phase_def epoch_instance_should_requeue_value_def
  have "p' = p1 \<or> p' = fst (epoch_proposer_receive_trim cfg p1 \<lparr>trim_iid = ?i\<rparr>)"
  proof (cases "epoch_proposer_get_instance_info_in_phase (ep_accept_infos p0) ?i")
    case None
    with step new epoch_delete_absent [OF None] show ?thesis
      by (cases "epoch_proposer_get_instance_info_in_phase (ep_prepare_infos p0) ?i")
        (auto simp: unfold epoch_delete_absent simp del: check_epoch_fields split: option.splits if_splits)
  next
    case (Some x)
    obtain v where "pci_proposing_value (epi_common_info x) = Some v" using wf_get_accept [OF p0(5) Some] by blast
    with step new Some show ?thesis
      by (cases "epoch_proposer_get_instance_info_in_phase (ep_prepare_infos p0) ?i")
        (auto simp: unfold epoch_delete_absent simp del: check_epoch_fields split: option.splits if_splits bool.splits)
  qed
  with that [of p1] wf1 ev1 p0(2-4) show thesis by (simp add: p1_def)
qed

lemma epoch_receive_chosen_keeps:
  assumes "epoch_proposer_wf p" "epoch_proposer_receive_chosen cfg p c = Some (p', r)"
  shows "epoch_proposer_wf p' \<and> evolves p p'"
proof (cases "epoch_proposer_is_instance_chosen p (ebc_instance c)")
  case True
  with assms show ?thesis by (simp add: epoch_proposer_receive_chosen_def)
next
  case False
  from epoch_receive_chosen_new [OF assms(1) False assms(2)] obtain p1 where
    p1: "epoch_proposer_wf p1" "evolves p p1"
      "p' = p1 \<or> p' = fst (epoch_proposer_receive_trim cfg p1 \<lparr>trim_iid = ebc_instance c\<rparr>)" .
  note trimmed = epoch_trim_keeps [OF p1(1), of cfg "\<lparr>trim_iid = ebc_instance c\<rparr>"]
  from p1(3) show ?thesis
  proof
    assume "p' = p1"
    with p1 show ?thesis by simp
  next
    assume p': "p' = fst (epoch_proposer_receive_trim cfg p1 \<lparr>trim_iid = ebc_instance c\<rparr>)"
    show ?thesis unfolding p' using trimmed p1(2) evolves_trans by blast
  qed
qed

section \<open>Promises\<close>

text \<open>The three things that can happen to a promise.\<close>

definition promise_dropped :: "epoch_proposer \<Rightarrow> epoch_ballot_promise \<Rightarrow> bool" where
  "promise_dropped p ack \<longleftrightarrow> ebpr_instance ack \<le> ep_trim_instance p
     \<or> epoch_proposer_is_instance_chosen p (ebpr_instance ack)
     \<or> (case epoch_proposer_get_instance_info_in_phase (ep_prepare_infos p) (ebpr_instance ack) of
          None \<Rightarrow> True | Some inst \<Rightarrow> is_epoch_promise_outdated ack inst)"

lemma promise_depth_dropped:
  "promise_dropped p ack \<Longrightarrow> epoch_proposer_receive_promise_depth (Suc d) cfg now p ack = Some (p, MESSAGE_IGNORED, None)"
  by (cases "epoch_proposer_get_instance_info_in_phase (ep_prepare_infos p) (ebpr_instance ack)")
    (simp_all add: promise_dropped_def Let_def disj_imp)

lemma promise_depth_current:
  assumes "\<not> promise_dropped p ack"
    and "epoch_proposer_get_instance_info_in_phase (ep_prepare_infos p) (ebpr_instance ack) = Some inst"
    and "is_current_epoch_ballot ack inst"
  shows "epoch_proposer_receive_promise_depth (Suc d) cfg now p ack = epoch_proposer_receive_promise_depth 1 cfg now p ack"
  using assms by (auto simp: promise_dropped_def)

text \<open>The instance after it has been moved to the epoch of the promise.\<close>

definition moved_to_epoch :: "timeval \<Rightarrow> epoch_proposer_instance_info \<Rightarrow> epoch_ballot \<Rightarrow> epoch_proposer_instance_info" where
  "moved_to_epoch now inst eb = inst\<lparr>epi_current_epoch := eb_epoch eb,
     epi_common_info := (epi_common_info inst)\<lparr>pci_proposing_value := None, pci_created_at := now\<rparr>,
     epi_same_accept_count := 0, epi_quorum := quorum_clear (epi_quorum inst)\<rparr>"

definition moved_proposer ::
    "timeval \<Rightarrow> epoch_proposer \<Rightarrow> epoch_proposer_instance_info \<Rightarrow> epoch_ballot_promise \<Rightarrow> epoch_proposer" where
  "moved_proposer now p inst ack =
     (epoch_proposer_check_and_set_current_epoch_from_epoch_ballot p (ebpr_promised_epoch_ballot ack))
       \<lparr>ep_prepare_infos := AList.update (ebpr_instance ack) (moved_to_epoch now inst (ebpr_promised_epoch_ballot ack))
          (ep_prepare_infos p)\<rparr>"

lemma update_from_epoch_preemption_eq:
  "epoch_proposer_instance_info_update_info_from_epoch_preemption now inst \<lparr>ebpe_acceptor_id = a, ebpe_instance = i,
     ebpe_requested_epoch_ballot = epoch_proposer_instance_info_get_current_epoch_ballot inst,
     ebpe_acceptors_current_epoch_ballot = eb\<rparr> = moved_to_epoch now inst eb"
  by (simp add: epoch_proposer_instance_info_update_info_from_epoch_preemption_def moved_to_epoch_def Let_def
      epoch_proposer_instance_info_set_current_epoch_ballot_def epoch_proposer_instance_info_get_current_epoch_ballot_def)

lemma promise_depth_other:
  assumes "\<not> promise_dropped p ack"
    and "epoch_proposer_get_instance_info_in_phase (ep_prepare_infos p) (ebpr_instance ack) = Some inst"
    and "\<not> is_current_epoch_ballot ack inst"
  shows "epoch_proposer_receive_promise_depth (Suc d) cfg now p ack =
     map_option (\<lambda>(p, _, _). (p, EPOCH_PREEMPTED, Some (WRITEAHEAD_EPOCH_BALLOT_PREPARE
        \<lparr>ebp_instance = ebpr_instance ack, ebp_epoch_ballot_requested = ebpr_promised_epoch_ballot ack\<rparr>)))
       (epoch_proposer_receive_promise_depth d cfg now (moved_proposer now p inst ack) ack)"
  using assms
  by (simp add: promise_dropped_def Let_def moved_proposer_def update_from_epoch_preemption_eq split: option.split)

text \<open>
  After the move a promise at the ballot of the instance is current; a promise at a higher ballot is
  treated like before, over and over.
\<close>

lemma moved_lookup [simp]:
  "epoch_proposer_get_instance_info_in_phase (ep_prepare_infos (moved_proposer now p inst ack)) (ebpr_instance ack)
     = Some (moved_to_epoch now inst (ebpr_promised_epoch_ballot ack))"
  by (simp add: moved_proposer_def epoch_proposer_get_instance_info_in_phase_def update_conv')

lemma not_outdated_ballot_le:
  "\<not> is_epoch_promise_outdated ack inst \<Longrightarrow> pci_ballot (epi_common_info inst) \<le> eb_ballot (ebpr_promised_epoch_ballot ack)"
  by (simp add: is_epoch_promise_outdated_def not_less)

lemma moved_not_dropped:
  assumes "\<not> promise_dropped p ack"
    and "epoch_proposer_get_instance_info_in_phase (ep_prepare_infos p) (ebpr_instance ack) = Some inst"
  shows "\<not> promise_dropped (moved_proposer now p inst ack) ack"
proof -
  have "pci_ballot (epi_common_info inst) \<le> eb_ballot (ebpr_promised_epoch_ballot ack)"
    using assms not_outdated_ballot_le by (simp add: promise_dropped_def)
  then have "\<not> is_epoch_promise_outdated ack (moved_to_epoch now inst (ebpr_promised_epoch_ballot ack))"
    by (auto simp: is_epoch_promise_outdated_def moved_to_epoch_def epoch_ballot_gt_iff
        epoch_proposer_instance_info_get_current_epoch_ballot_def)
  moreover have "ep_trim_instance (moved_proposer now p inst ack) = ep_trim_instance p"
    "ep_chosen_instances (moved_proposer now p inst ack) = ep_chosen_instances p"
    by (simp_all add: moved_proposer_def)
  ultimately show ?thesis
    using assms(1) by (simp add: promise_dropped_def epoch_proposer_is_instance_chosen_def)
qed

lemma moved_current_iff:
  "is_current_epoch_ballot ack (moved_to_epoch now inst (ebpr_promised_epoch_ballot ack))
     \<longleftrightarrow> pci_ballot (epi_common_info inst) = eb_ballot (ebpr_promised_epoch_ballot ack)"
  by (cases "ebpr_promised_epoch_ballot ack")
    (auto simp: is_current_epoch_ballot_def moved_to_epoch_def epoch_proposer_instance_info_get_current_epoch_ballot_def)

lemma higher_promise_never_returns:
  assumes "\<not> promise_dropped p ack"
    and "epoch_proposer_get_instance_info_in_phase (ep_prepare_infos p) (ebpr_instance ack) = Some inst"
    and "pci_ballot (epi_common_info inst) \<noteq> eb_ballot (ebpr_promised_epoch_ballot ack)"
  shows "epoch_proposer_receive_promise_depth d cfg now p ack = None"
  using assms
proof (induction d arbitrary: p inst)
  case 0
  then show ?case by simp
next
  case (Suc d)
  have "\<not> is_current_epoch_ballot ack inst"
    using Suc.prems(3) by (cases "ebpr_promised_epoch_ballot ack")
      (auto simp: is_current_epoch_ballot_def epoch_proposer_instance_info_get_current_epoch_ballot_def)
  moreover have "epoch_proposer_receive_promise_depth d cfg now (moved_proposer now p inst ack) ack = None"
    using Suc.IH [OF moved_not_dropped [OF Suc.prems(1,2)] moved_lookup] Suc.prems(3) by (simp add: moved_to_epoch_def)
  ultimately show ?case using promise_depth_other [OF Suc.prems(1,2)] by simp
qed

lemma promise_depth_two: "epoch_proposer_receive_promise_depth (Suc (Suc d)) cfg now p ack
    = epoch_proposer_receive_promise_depth 2 cfg now p ack"
proof (cases "promise_dropped p ack")
  case True
  then show ?thesis using promise_depth_dropped [OF True] by (metis numeral_2_eq_2)
next
  case False
  then obtain inst where inst: "epoch_proposer_get_instance_info_in_phase (ep_prepare_infos p) (ebpr_instance ack) = Some inst"
    by (auto simp: promise_dropped_def split: option.splits)
  consider (current) "is_current_epoch_ballot ack inst"
    | (higher) "pci_ballot (epi_common_info inst) \<noteq> eb_ballot (ebpr_promised_epoch_ballot ack)"
    | (move) "\<not> is_current_epoch_ballot ack inst" "pci_ballot (epi_common_info inst) = eb_ballot (ebpr_promised_epoch_ballot ack)"
    by blast
  then show ?thesis
  proof cases
    case current
    then show ?thesis using promise_depth_current [OF False inst] by (metis numeral_2_eq_2)
  next
    case higher
    then show ?thesis using higher_promise_never_returns [OF False inst] by simp
  next
    case move
    have "epoch_proposer_receive_promise_depth (Suc n) cfg now (moved_proposer now p inst ack) ack
        = epoch_proposer_receive_promise_depth 1 cfg now (moved_proposer now p inst ack) ack" for n
      using promise_depth_current [OF moved_not_dropped [OF False inst] moved_lookup] moved_current_iff move(2) by blast
    then show ?thesis by (simp only: numeral_2_eq_2 promise_depth_other [OF False inst move(1)])
  qed
qed

declare epoch_proposer_receive_promise_depth.simps(2) [simp del]

text \<open>The instance when a promise fixes an epoch that was not known yet.\<close>

definition with_epoch :: "epoch_proposer_instance_info \<Rightarrow> epoch_ballot_promise \<Rightarrow> epoch_proposer_instance_info" where
  "with_epoch inst ack = (if epi_current_epoch inst = INVALID_EPOCH
     then inst\<lparr>epi_current_epoch := eb_epoch (ebpr_promised_epoch_ballot ack)\<rparr> else inst)"

abbreviation handle_last_accepted :: "epoch_proposer_instance_info \<Rightarrow> epoch_ballot_promise \<Rightarrow> epoch_proposer_instance_info" where
  "handle_last_accepted \<equiv> epoch_proposer_check_and_handle_promises_last_accepted_value_for_instance"

lemmas last_accepted_defs = epoch_proposer_check_and_handle_promises_last_accepted_value_for_instance_def
  epoch_proposer_instance_info_save_new_last_accepted_value_def
  epoch_proposer_instance_info_set_last_accepted_value_def
  epoch_proposer_instance_info_set_last_accepted_epoch_ballot_def
  epoch_proposer_instance_info_get_last_accepted_epoch_ballot_def

lemma handle_last_accepted_fields [simp]:
  "pci_iid (epi_common_info (handle_last_accepted x ack)) = pci_iid (epi_common_info x)"
  "pci_ballot (epi_common_info (handle_last_accepted x ack)) = pci_ballot (epi_common_info x)"
  "epi_quorum (handle_last_accepted x ack) = epi_quorum x"
  "epi_current_epoch (handle_last_accepted x ack) = epi_current_epoch x"
  by (simp_all add: last_accepted_defs Let_def)

lemma with_epoch_fields [simp]:
  "epi_common_info (with_epoch x ack) = epi_common_info x" "epi_quorum (with_epoch x ack) = epi_quorum x"
  by (simp_all add: with_epoch_def)

lemma promise_current_cases:
  assumes nd: "\<not> promise_dropped p ack"
    and inst: "epoch_proposer_get_instance_info_in_phase (ep_prepare_infos p) (ebpr_instance ack) = Some inst"
    and cur: "is_current_epoch_ballot ack inst"
    and step: "epoch_proposer_receive_promise_depth (Suc d) cfg now p ack = Some (p', code, msg)"
  obtains (duplicate) q where "quorum_add (epi_quorum inst) (sint (ebpr_acceptor_id ack)) = Some (q, False)"
      "p' = p\<lparr>ep_prepare_infos := AList.update (ebpr_instance ack) (with_epoch inst ack) (ep_prepare_infos p)\<rparr>"
  | (counted) q p1 where "quorum_add (epi_quorum inst) (sint (ebpr_acceptor_id ack)) = Some (q, True)"
      "p1 = (epoch_proposer_check_and_set_current_epoch_from_epoch_ballot p (ebpr_promised_epoch_ballot ack))
         \<lparr>ep_prepare_infos := AList.update (ebpr_instance ack)
            (handle_last_accepted (with_epoch inst ack\<lparr>epi_quorum := q\<rparr>) ack) (ep_prepare_infos p)\<rparr>"
      "p' = p1 \<or> (\<exists>c r. ebc_instance c = ebpr_instance ack \<and> epoch_proposer_receive_chosen cfg p1 c = Some (p', r))"
proof -
  note depth_def = epoch_proposer_receive_promise_depth.simps(2) [of d] Let_def with_epoch_def [symmetric]
  have conds: "\<not> ebpr_instance ack \<le> ep_trim_instance p"
    "\<not> epoch_proposer_is_instance_chosen p (ebpr_instance ack)" "\<not> is_epoch_promise_outdated ack inst"
    using nd inst by (simp_all add: promise_dropped_def)
  obtain q new where q: "quorum_add (epi_quorum inst) (sint (ebpr_acceptor_id ack)) = Some (q, new)"
    using step conds inst cur by (auto simp: depth_def split: option.splits)
  show thesis
  proof (cases new)
    case False
    with step conds inst cur q show thesis
      by (intro duplicate) (simp_all add: depth_def)
  next
    case True
    let ?p1 = "(epoch_proposer_check_and_set_current_epoch_from_epoch_ballot p (ebpr_promised_epoch_ballot ack))
         \<lparr>ep_prepare_infos := AList.update (ebpr_instance ack)
            (handle_last_accepted (with_epoch inst ack\<lparr>epi_quorum := q\<rparr>) ack) (ep_prepare_infos p)\<rparr>"
    have "p' = ?p1 \<or> (\<exists>c r. ebc_instance c = ebpr_instance ack \<and> epoch_proposer_receive_chosen cfg ?p1 c = Some (p', r))"
      using step conds inst cur q True
      by (simp add: depth_def split: if_splits option.splits prod.splits)
        (metis epoch_ballot_chosen.select_convs(1))
    then show thesis using q True by (intro counted) simp_all
  qed
qed

lemma promise_current_keeps:
  assumes wf: "epoch_proposer_wf p" and nd: "\<not> promise_dropped p ack"
    and inst: "epoch_proposer_get_instance_info_in_phase (ep_prepare_infos p) (ebpr_instance ack) = Some inst"
    and cur: "is_current_epoch_ballot ack inst"
    and step: "epoch_proposer_receive_promise_depth (Suc d) cfg now p ack = Some (p', code, msg)"
  shows "epoch_proposer_wf p' \<and> evolves p p'"
proof -
  note x = wf_get_prepare [OF wf inst]
  from nd inst cur step show ?thesis
  proof (cases rule: promise_current_cases)
    case (duplicate q)
    then show ?thesis using wf_put_prepare [OF wf, of "with_epoch inst ack"] x by simp
  next
    case (counted q p1)
    let ?p = "epoch_proposer_check_and_set_current_epoch_from_epoch_ballot p (ebpr_promised_epoch_ballot ack)"
    let ?x = "handle_last_accepted (with_epoch inst ack\<lparr>epi_quorum := q\<rparr>) ack"
    have wfx: "epoch_proposer_wf (?p\<lparr>ep_prepare_infos := AList.update (ebpr_instance ack) ?x (ep_prepare_infos ?p)\<rparr>)"
      by (rule wf_put_prepare) (use wf x quorum_add_keeps [OF _ counted(1)] in simp_all)
    have p1: "epoch_proposer_wf p1" "evolves p p1"
      using wfx evolves_trans [OF evolves_fields(6) evolves_fields(2)] by (simp_all add: counted(2))
    from counted(3) show ?thesis
    proof
      assume "\<exists>c r. ebc_instance c = ebpr_instance ack \<and> epoch_proposer_receive_chosen cfg p1 c = Some (p', r)"
      then show ?thesis using epoch_receive_chosen_keeps [OF p1(1)] evolves_trans [OF p1(2)] by blast
    qed (use p1 in simp)
  qed
qed

lemma moved_keeps:
  assumes "epoch_proposer_wf p"
    and "epoch_proposer_get_instance_info_in_phase (ep_prepare_infos p) (ebpr_instance ack) = Some inst"
  shows "epoch_proposer_wf (moved_proposer now p inst ack)" "evolves p (moved_proposer now p inst ack)"
proof -
  let ?p = "epoch_proposer_check_and_set_current_epoch_from_epoch_ballot p (ebpr_promised_epoch_ballot ack)"
  let ?x = "moved_to_epoch now inst (ebpr_promised_epoch_ballot ack)"
  have "epoch_proposer_wf (?p\<lparr>ep_prepare_infos := AList.update (ebpr_instance ack) ?x (ep_prepare_infos ?p)\<rparr>)"
    by (rule wf_put_prepare) (use assms(1) wf_get_prepare [OF assms] in \<open>simp_all add: moved_to_epoch_def\<close>)
  then show "epoch_proposer_wf (moved_proposer now p inst ack)" by (simp add: moved_proposer_def)
  show "evolves p (moved_proposer now p inst ack)"
    using evolves_trans [OF evolves_fields(6) evolves_fields(2)] by (simp add: moved_proposer_def)
qed

text \<open>What a promise does: nothing, a count, or a move to its epoch and then a count.\<close>

lemma receive_promise_steps:
  assumes "epoch_proposer_receive_promise cfg now p ack = Some (p', code, msg)"
  obtains (dropped) "promise_dropped p ack" "p' = p"
  | (current) inst where "\<not> promise_dropped p ack"
      "epoch_proposer_get_instance_info_in_phase (ep_prepare_infos p) (ebpr_instance ack) = Some inst"
      "is_current_epoch_ballot ack inst" "epoch_proposer_receive_promise_depth 1 cfg now p ack = Some (p', code, msg)"
  | (moved) inst code' msg' where "\<not> promise_dropped p ack"
      "epoch_proposer_get_instance_info_in_phase (ep_prepare_infos p) (ebpr_instance ack) = Some inst"
      "\<not> is_current_epoch_ballot ack inst" "pci_ballot (epi_common_info inst) = eb_ballot (ebpr_promised_epoch_ballot ack)"
      "epoch_proposer_receive_promise_depth 1 cfg now (moved_proposer now p inst ack) ack = Some (p', code', msg')"
proof (cases "promise_dropped p ack")
  case True
  then show thesis
    using assms promise_depth_dropped [OF True, of 1] dropped by (simp add: epoch_proposer_receive_promise_def numeral_2_eq_2
        del: epoch_proposer_receive_promise_depth.simps)
next
  case False
  then obtain inst where inst: "epoch_proposer_get_instance_info_in_phase (ep_prepare_infos p) (ebpr_instance ack) = Some inst"
    by (auto simp: promise_dropped_def split: option.splits)
  have step: "epoch_proposer_receive_promise_depth (Suc 1) cfg now p ack = Some (p', code, msg)"
    using assms by (simp add: epoch_proposer_receive_promise_def numeral_2_eq_2 del: epoch_proposer_receive_promise_depth.simps)
  show thesis
  proof (cases "is_current_epoch_ballot ack inst")
    case True
    then show thesis using current [OF False inst True] step promise_depth_current [OF False inst True] by metis
  next
    case move: False
    have "pci_ballot (epi_common_info inst) = eb_ballot (ebpr_promised_epoch_ballot ack)"
      using higher_promise_never_returns [OF False inst, of "Suc 1" cfg now] step by (metis option.distinct(1))
    with step promise_depth_other [OF False inst move, of 1] moved [OF False inst move] show thesis
      by (auto simp del: epoch_proposer_receive_promise_depth.simps)
  qed
qed

lemma epoch_receive_promise_keeps:
  assumes wf: "epoch_proposer_wf p" and step: "epoch_proposer_receive_promise cfg now p ack = Some (p', code, msg)"
  shows "epoch_proposer_wf p' \<and> evolves p p'"
  using step
proof (cases rule: receive_promise_steps)
  case dropped
  then show ?thesis using wf by simp
next
  case (current inst)
  then show ?thesis using promise_current_keeps [OF wf current(1-3), of 0] by simp
next
  case (moved inst code' msg')
  note m = moved_keeps [OF wf moved(2)]
  have "is_current_epoch_ballot ack (moved_to_epoch now inst (ebpr_promised_epoch_ballot ack))"
    using moved(4) moved_current_iff by blast
  from promise_current_keeps [OF m(1) moved_not_dropped [OF moved(1,2)] moved_lookup this, of 0 cfg now p'] moved(5)
  have "epoch_proposer_wf p' \<and> evolves (moved_proposer now p inst ack) p'" by simp
  with evolves_trans [OF m(2)] show ?thesis by blast
qed

section \<open>The accept phase\<close>

lemma epoch_min_instance_to_accept_Some:
  "epoch_min_instance_to_accept p xs best = Some x \<Longrightarrow>
     best = Some x \<or> x \<in> set xs \<and> quorum_reached (epi_quorum x)
       \<and> \<not> epoch_proposer_is_instance_chosen p (pci_iid (epi_common_info x))"
  by (induction p xs best rule: epoch_min_instance_to_accept.induct) (auto split: if_splits option.splits)

lemma epoch_get_min_instance_Some:
  assumes "epoch_proposer_wf p" "epoch_get_min_instance_to_begin_accept_phase p = Some x"
  shows "epoch_proposer_get_instance_info_in_phase (ep_prepare_infos p) (pci_iid (epi_common_info x)) = Some x
     \<and> quorum_reached (epi_quorum x) \<and> \<not> epoch_proposer_is_instance_chosen p (pci_iid (epi_common_info x))"
  using epoch_min_instance_to_accept_Some [OF assms(2) [unfolded epoch_get_min_instance_to_begin_accept_phase_def]] assms(1)
  by (auto simp: epoch_proposer_wf_def phase_table_wf_def epoch_proposer_get_instance_info_in_phase_def)

lemma epoch_determine_value_cases:
  assumes "epoch_proposer_try_determine_value_to_propose_and_set cfg now p x = Some (p', x', r)"
  obtains (adopt) v where "pci_last_accepted_value (epi_common_info x) = Some v" "p' = p" "r"
      "x' = x\<lparr>epi_common_info := (epi_common_info x)\<lparr>pci_proposing_value := Some v, pci_last_accepted_value := None\<rparr>\<rparr>"
  | (client) v m where "pci_last_accepted_value (epi_common_info x) = None" "r"
      "value_proposal_manger_get_next cfg now (ep_value_proposal_manager p)
         (ep_max_chosen_instance p > pci_iid (epi_common_info x)) = (m, Next v)"
      "p' = p\<lparr>ep_value_proposal_manager := m\<rparr>"
      "x' = x\<lparr>epi_common_info := (epi_common_info x)\<lparr>pci_proposing_value := Some v\<rparr>\<rparr>"
  | (none) m where "pci_last_accepted_value (epi_common_info x) = None" "\<not> r"
      "value_proposal_manger_get_next cfg now (ep_value_proposal_manager p)
         (ep_max_chosen_instance p > pci_iid (epi_common_info x)) = (m, No_Value)"
      "p' = p\<lparr>ep_value_proposal_manager := m\<rparr>" "x' = x"
  using assms
  by (auto simp: epoch_proposer_try_determine_value_to_propose_and_set_def Let_def
      split: option.splits prod.splits get_next_result.splits)

lemma epoch_determine_value_keeps:
  assumes "epoch_proposer_wf p" "epoch_proposer_try_determine_value_to_propose_and_set cfg now p x = Some (p', x', r)"
  shows "epoch_proposer_wf p' \<and> evolves p p' \<and> ep_prepare_infos p' = ep_prepare_infos p \<and> ep_accept_infos p' = ep_accept_infos p
    \<and> epi_quorum x' = epi_quorum x \<and> pci_iid (epi_common_info x') = pci_iid (epi_common_info x)
    \<and> pci_ballot (epi_common_info x') = pci_ballot (epi_common_info x) \<and> epi_current_epoch x' = epi_current_epoch x
    \<and> (r \<longrightarrow> pci_proposing_value (epi_common_info x') \<noteq> None)"
proof -
  have m: "vpm_wf (ep_value_proposal_manager p)" using assms(1) by (simp add: epoch_proposer_wf_def)
  from assms(2) show ?thesis
  proof (cases rule: epoch_determine_value_cases)
    case (client v m)
    with get_next_correct [OF m client(3)] assms(1) show ?thesis by (simp add: epoch_proposer_wf_def)
  next
    case (none m)
    with get_next_correct [OF m none(3)] assms(1) show ?thesis by (simp add: epoch_proposer_wf_def)
  qed (use assms(1) in simp)
qed

lemma epoch_try_accept_cases:
  assumes "epoch_proposer_try_accept cfg now p = Some (p', out)"
  obtains (nothing_ready) "epoch_get_min_instance_to_begin_accept_phase p = None" "p' = p" "out = None"
  | (no_value) x x' where "epoch_get_min_instance_to_begin_accept_phase p = Some x"
      "epoch_proposer_try_determine_value_to_propose_and_set cfg now p x = Some (p', x', False)" "out = None"
  | (proposed) x p1 x1 v where "epoch_get_min_instance_to_begin_accept_phase p = Some x"
      "epoch_proposer_try_determine_value_to_propose_and_set cfg now p x = Some (p1, x1, True)"
      "pci_proposing_value (epi_common_info x1) = Some v"
      "out = Some \<lparr>eba_instance = pci_iid (epi_common_info x1),
         eba_epoch_ballot_requested = Epoch_Ballot (epi_current_epoch x1) (pci_ballot (epi_common_info x1)),
         eba_value_to_accept = v\<rparr>"
      "p' = p1\<lparr>ep_prepare_infos := AList.delete (pci_iid (epi_common_info x1)) (ep_prepare_infos p1),
             ep_accept_infos := AList.update (pci_iid (epi_common_info x1))
               (x1\<lparr>epi_quorum := quorum_resize_and_reset (epi_quorum x1) (ep_q2 p1)\<rparr>) (ep_accept_infos p1)\<rparr>"
  using assms
  by (auto simp: epoch_proposer_try_accept_def epoch_proposer_move_instance_between_phase_def Let_def
      set_epoch_ballot_accept_from_instance_info_def epoch_proposer_instance_info_get_current_epoch_ballot_def
      split: option.splits prod.splits bool.splits)

lemma epoch_try_accept_keeps:
  assumes "epoch_proposer_wf p" "epoch_proposer_try_accept cfg now p = Some (p', out)"
  shows "epoch_proposer_wf p' \<and> evolves p p'"
  using assms(2)
proof (cases rule: epoch_try_accept_cases)
  case nothing_ready
  then show ?thesis using assms(1) by simp
next
  case (no_value x x')
  with epoch_determine_value_keeps [OF assms(1) no_value(2)] show ?thesis by simp
next
  case (proposed x p1 x1 v)
  have x: "quorum_wf (epi_quorum x)" "q_acceptors (epi_quorum x) = ep_acceptors p"
    using epoch_get_min_instance_Some [OF assms(1) proposed(1)] wf_get_prepare [OF assms(1)] by blast+
  note d = epoch_determine_value_keeps [OF assms(1) proposed(2)]
  then have "evolves p p'" by (simp add: proposed(5) evolves_def)
  with d x show ?thesis
    by (auto simp: proposed(5) epoch_proposer_wf_def evolves_def intro!: table_wf_update has_values_update)
qed

lemma epoch_receive_accepted_keeps:
  assumes wf: "epoch_proposer_wf p" and step: "epoch_proposer_receive_accepted cfg p ack = Some (p', code, out)"
  shows "epoch_proposer_wf p' \<and> evolves p p'"
proof (cases "p' = p")
  case True
  then show ?thesis using wf by simp
next
  case False
  with step obtain x q where
    x: "epoch_proposer_get_instance_info_in_phase (ep_accept_infos p) (ebac_instance ack) = Some x"
    and q: "quorum_add (epi_quorum x) (sint (ebac_acceptor_id ack)) = Some (q, True)"
    and p': "let p1 = p\<lparr>ep_accept_infos := AList.update (ebac_instance ack) (x\<lparr>epi_quorum := q\<rparr>) (ep_accept_infos p)\<rparr>
       in p' = p1 \<or> (\<exists>c r. epoch_proposer_receive_chosen cfg p1 c = Some (p', r))"
    by (auto simp: epoch_proposer_receive_accepted_def Let_def split: if_splits option.splits prod.splits)
  let ?p1 = "p\<lparr>ep_accept_infos := AList.update (ebac_instance ack) (x\<lparr>epi_quorum := q\<rparr>) (ep_accept_infos p)\<rparr>"
  have wf1: "epoch_proposer_wf ?p1"
    by (rule wf_put_accept [OF wf]) (use wf_get_accept [OF wf x] quorum_add_keeps [OF _ q] in auto)
  have ev: "evolves p ?p1" by simp
  from p' show ?thesis
    using wf1 ev epoch_receive_chosen_keeps [OF wf1] evolves_trans [OF ev] unfolding Let_def by blast
qed

section \<open>Preemption and timeouts\<close>

lemma epoch_update_ballot_preempted_fields:
  assumes "epoch_proposer_update_instance_info_from_ballot_preempted now draws p x pre = Some y"
  shows "pci_iid (epi_common_info y) = pci_iid (epi_common_info x) \<and> quorum_wf (epi_quorum y)
    \<and> q_acceptors (epi_quorum y) = q_acceptors (epi_quorum x)"
  using assms
  by (auto simp: epoch_proposer_update_instance_info_from_ballot_preempted_def Let_def
      epoch_proposer_instance_info_set_current_epoch_ballot_def split: option.splits)

lemma epoch_preempt_instance_keeps:
  assumes "epoch_preempt_instance now draws p x pre code = Some (p', y, code', was)"
    and "quorum_wf (epi_quorum x)"
  shows "(p' = p \<or> p' = epoch_proposer_check_and_set_current_epoch_from_epoch_ballot p (ebpe_acceptors_current_epoch_ballot pre))
    \<and> pci_iid (epi_common_info y) = pci_iid (epi_common_info x) \<and> quorum_wf (epi_quorum y)
    \<and> q_acceptors (epi_quorum y) = q_acceptors (epi_quorum x)
    \<and> (\<not> was \<longrightarrow> y = x)"
  using assms
  by (auto simp: epoch_preempt_instance_def Let_def dest!: epoch_update_ballot_preempted_fields
      split: if_splits option.splits)

lemma epoch_preempt_prepare_keeps:
  assumes wf: "epoch_proposer_wf p" and step: "epoch_preempt_prepare_phase now draws p pre = Some (p', code, out)"
  shows "epoch_proposer_wf p' \<and> evolves p p'"
proof (cases "p' = p")
  case True
  then show ?thesis using wf by simp
next
  case False
  with step obtain x p1 y was where
    x: "epoch_proposer_get_instance_info_in_phase (ep_prepare_infos p) (ebpe_instance pre) = Some x"
    and y: "epoch_preempt_instance now draws p x pre MESSAGE_IGNORED = Some (p1, y, code, was)"
    and p': "p' = p1\<lparr>ep_prepare_infos := AList.update (ebpe_instance pre) y (ep_prepare_infos p1)\<rparr>"
    by (auto simp: epoch_preempt_prepare_phase_def split: if_splits option.splits prod.splits)
  note g = wf_get_prepare [OF wf x]
  note k = epoch_preempt_instance_keeps [OF y] 
  have p1: "epoch_proposer_wf p1" "evolves p p1" "ep_acceptors p1 = ep_acceptors p" using k g wf by auto
  have "epoch_proposer_wf p'" unfolding p' by (rule wf_put_prepare) (use p1 k g in auto)
  with p1(2) evolves_trans [OF p1(2) evolves_fields(2)] show ?thesis by (simp add: p')
qed

lemma epoch_preempt_accept_keeps:
  assumes wf: "epoch_proposer_wf p" and step: "epoch_preempt_accept_phase now draws p pre code = Some (p', code', out)"
  shows "epoch_proposer_wf p' \<and> evolves p p'"
proof (cases "\<exists>x. epoch_proposer_get_instance_info_in_phase (ep_accept_infos p) (ebpe_instance pre) = Some x
    \<and> ebpe_requested_epoch_ballot pre = epoch_proposer_instance_info_get_current_epoch_ballot x")
  case False
  with wf step show ?thesis by (auto simp: epoch_preempt_accept_phase_def split: option.splits)
next
  case True
  then obtain x where x: "epoch_proposer_get_instance_info_in_phase (ep_accept_infos p) (ebpe_instance pre) = Some x"
    "ebpe_requested_epoch_ballot pre = epoch_proposer_instance_info_get_current_epoch_ballot x" by blast
  note g = wf_get_accept [OF wf x(1)]
  then obtain v where v: "pci_proposing_value (epi_common_info x) = Some v" by blast
  define p0 where "p0 = (if epoch_instance_should_requeue_value x = Some True
     then p\<lparr>ep_value_proposal_manager := fst (value_proposal_manager_check_and_requeue_value (ep_value_proposal_manager p) v)\<rparr>
     else p)"
  have p0: "epoch_proposer_wf p0" "evolves p p0" "ep_acceptors p0 = ep_acceptors p"
    using wf by (simp_all add: p0_def epoch_proposer_wf_def)
  obtain p1 y was where y: "epoch_preempt_instance now draws p0 x pre code = Some (p1, y, code', was)"
    and p': "p' = (if was then p1\<lparr>ep_accept_infos := AList.delete (pci_iid (epi_common_info y)) (ep_accept_infos p1),
        ep_prepare_infos := AList.update (pci_iid (epi_common_info y))
          (y\<lparr>epi_quorum := quorum_resize_and_reset (epi_quorum y) (ep_q1 p1)\<rparr>) (ep_prepare_infos p1)\<rparr> else p1)"
    using step x v
    by (auto simp: epoch_preempt_accept_phase_def epoch_instance_should_requeue_value_def p0_def Let_def
        epoch_proposer_move_instance_between_phase_def split: option.splits if_splits)
  note k = epoch_preempt_instance_keeps [OF y]
  have p1: "epoch_proposer_wf p1" "evolves p0 p1" "ep_acceptors p1 = ep_acceptors p" using k g p0 by auto
  have "epoch_proposer_wf p'" using p1 k g by (simp add: p' epoch_proposer_wf_def table_wf_update)
  moreover have "evolves p1 p'" by (simp add: p' evolves_def)
  ultimately show ?thesis using evolves_trans [OF p0(2) evolves_trans [OF p1(2)]] by blast
qed

lemma epoch_receive_preempted_keeps:
  assumes wf: "epoch_proposer_wf p" and step: "epoch_proposer_receive_preempted now draws draws' p pre = Some (p', code, out)"
  shows "epoch_proposer_wf p' \<and> evolves p p'"
proof (cases "p' = p")
  case True
  then show ?thesis using wf by simp
next
  case False
  with step obtain p1 code1 out1 out' where s: "epoch_preempt_prepare_phase now draws p pre = Some (p1, code1, out1)"
    "epoch_preempt_accept_phase now draws' p1 pre code1 = Some (p', code, out')"
    by (auto simp: epoch_proposer_receive_preempted_def split: if_splits option.splits)
  note k = epoch_preempt_prepare_keeps [OF wf s(1)]
  with epoch_preempt_accept_keeps [OF _ s(2)] evolves_trans show ?thesis by blast
qed

lemma get_next_timedout_Some: "get_next_timedout cfg t k now = (k', Some x) \<Longrightarrow> x \<in> snd ` set t"
  by (induction cfg t k now rule: get_next_timedout.induct) (auto split: if_splits)

lemma timedout_in_table:
  assumes "get_next_timedout cfg (drop n t) k now = (k', Some x)"
  shows "x \<in> snd ` set t"
  using get_next_timedout_Some [OF assms] set_drop_subset by (metis image_mono subsetD)

lemma epoch_timeout_prepare_keeps:
  assumes wf: "epoch_proposer_wf p" and step: "epoch_proposer_timeout_iterator_prepare cfg now iter p = (iter', p', out)"
  shows "epoch_proposer_wf p' \<and> evolves p p'"
proof (cases "p' = p")
  case True
  then show ?thesis using wf by simp
next
  case False
  with step obtain k x where x: "get_next_timedout cfg (drop (eti_prepare_instance_iter iter) (ep_prepare_infos p))
      (eti_prepare_instance_iter iter) (eti_check_timeout iter) = (k, Some x)"
    and p': "p' = p\<lparr>ep_prepare_infos := AList.update (pci_iid (epi_common_info x))
      (x\<lparr>epi_common_info := (epi_common_info x)\<lparr>pci_created_at := now\<rparr>\<rparr>) (ep_prepare_infos p)\<rparr>"
    by (auto simp: epoch_proposer_timeout_iterator_prepare_def split: prod.splits option.splits)
  have "quorum_wf (epi_quorum x) \<and> q_acceptors (epi_quorum x) = ep_acceptors p"
    using timedout_in_table [OF x] wf by (auto simp: epoch_proposer_wf_def phase_table_wf_def)
  then show ?thesis
    using wf_put_prepare [OF wf, of "x\<lparr>epi_common_info := (epi_common_info x)\<lparr>pci_created_at := now\<rparr>\<rparr>" "pci_iid (epi_common_info x)"]
    by (simp add: p')
qed

lemma epoch_timeout_accept_keeps:
  assumes wf: "epoch_proposer_wf p" and step: "epoch_proposer_timeout_iterator_accept cfg now iter p = Some (iter', p', out)"
  shows "epoch_proposer_wf p' \<and> evolves p p'"
proof (cases "p' = p")
  case True
  then show ?thesis using wf by simp
next
  case False
  with step obtain k x where x: "get_next_timedout cfg (drop (eti_accept_instance_iter iter) (ep_accept_infos p))
      (eti_accept_instance_iter iter) (eti_check_timeout iter) = (k, Some x)"
    and p': "p' = p\<lparr>ep_accept_infos := AList.update (pci_iid (epi_common_info x))
      (x\<lparr>epi_common_info := (epi_common_info x)\<lparr>pci_created_at := now\<rparr>\<rparr>) (ep_accept_infos p)\<rparr>"
    by (auto simp: epoch_proposer_timeout_iterator_accept_def split: prod.splits option.splits)
  have "quorum_wf (epi_quorum x) \<and> q_acceptors (epi_quorum x) = ep_acceptors p \<and> pci_proposing_value (epi_common_info x) \<noteq> None"
    using timedout_in_table [OF x] wf by (fastforce simp: epoch_proposer_wf_def phase_table_wf_def phase_has_values_def)
  then show ?thesis
    using wf_put_accept [OF wf, of "x\<lparr>epi_common_info := (epi_common_info x)\<lparr>pci_created_at := now\<rparr>\<rparr>" "pci_iid (epi_common_info x)"]
    by (simp add: p')
qed

section \<open>Every reachable proposer is well formed\<close>

text \<open>One call of the interface, with any message, clock and random draws, that returns.\<close>

inductive epoch_proposer_step :: "paxos_config \<Rightarrow> epoch_proposer \<Rightarrow> epoch_proposer \<Rightarrow> bool" for cfg where
  add_value: "epoch_proposer_add_paxos_value_to_queue p v = Some p' \<Longrightarrow> epoch_proposer_step cfg p p'"
| next_instance: "epoch_proposer_step cfg p (epoch_proposer_next_instance p)"
| set_instance: "epoch_proposer_set_current_instance cfg p i = Some p' \<Longrightarrow> epoch_proposer_step cfg p p'"
| notified: "epoch_proposer_step cfg p (fst (epoch_proposer_handle_epoch_notification p e))"
| prepare: "epoch_proposer_step cfg p (fst (epoch_proposer_try_to_start_preparing_instance now p i eb))"
| promise: "epoch_proposer_receive_promise cfg now p ack = Some (p', code, msg) \<Longrightarrow> epoch_proposer_step cfg p p'"
| accept: "epoch_proposer_try_accept cfg now p = Some (p', out) \<Longrightarrow> epoch_proposer_step cfg p p'"
| accepted: "epoch_proposer_receive_accepted cfg p accd = Some (p', code, ch) \<Longrightarrow> epoch_proposer_step cfg p p'"
| chosen: "epoch_proposer_receive_chosen cfg p c = Some (p', code) \<Longrightarrow> epoch_proposer_step cfg p p'"
| preempted: "epoch_proposer_receive_preempted now draws draws' p pre = Some (p', code, nxt) \<Longrightarrow> epoch_proposer_step cfg p p'"
| trim: "epoch_proposer_step cfg p (fst (epoch_proposer_receive_trim cfg p t))"
| proposer_state: "epoch_proposer_step cfg p (fst (epoch_proposer_receive_epoch_proposer_state cfg p st))"
| acceptor_state: "epoch_proposer_step cfg p (fst (epoch_proposer_receive_acceptor_state cfg p ast))"
| timeout_prepare: "epoch_proposer_timeout_iterator_prepare cfg now iter p = (iter', p', prep) \<Longrightarrow> epoch_proposer_step cfg p p'"
| timeout_accept: "epoch_proposer_timeout_iterator_accept cfg now iter p = Some (iter', p', acc) \<Longrightarrow> epoch_proposer_step cfg p p'"

inductive epoch_proposer_reaches :: "paxos_config \<Rightarrow> epoch_proposer \<Rightarrow> epoch_proposer \<Rightarrow> bool" for cfg p where
  init: "epoch_proposer_reaches cfg p p"
| step: "epoch_proposer_reaches cfg p p' \<Longrightarrow> epoch_proposer_step cfg p' p'' \<Longrightarrow> epoch_proposer_reaches cfg p p''"

lemma epoch_notification_keeps:
  "epoch_proposer_wf p \<Longrightarrow> epoch_proposer_wf (fst (epoch_proposer_handle_epoch_notification p e))
     \<and> evolves p (fst (epoch_proposer_handle_epoch_notification p e))"
  by (auto simp: epoch_proposer_handle_epoch_notification_def evolves_def)

lemmas epoch_call_keeps = epoch_add_value_keeps epoch_set_current_keeps epoch_notification_keeps
  epoch_start_preparing_keeps epoch_receive_promise_keeps epoch_try_accept_keeps epoch_receive_accepted_keeps
  epoch_receive_chosen_keeps epoch_receive_preempted_keeps epoch_trim_keeps epoch_proposer_state_keeps
  epoch_acceptor_state_keeps epoch_timeout_prepare_keeps epoch_timeout_accept_keeps

lemma epoch_proposer_step_keeps:
  "epoch_proposer_step cfg p p' \<Longrightarrow> epoch_proposer_wf p \<Longrightarrow> epoch_proposer_wf p' \<and> evolves p p'"
  by (induction rule: epoch_proposer_step.induct) ((rule epoch_call_keeps; assumption) | simp)+

lemma epoch_proposer_reaches_keeps:
  "epoch_proposer_reaches cfg p p' \<Longrightarrow> epoch_proposer_wf p \<Longrightarrow> epoch_proposer_wf p' \<and> evolves p p'"
  by (induction rule: epoch_proposer_reaches.induct) (simp, meson epoch_proposer_step_keeps evolves_trans)

section \<open>Which value is proposed\<close>

text \<open>
  What the promises that were received have left behind in an instance in the prepare phase: the votes are
  those of promises at the very epoch ballot of the instance, and the value to adopt, if any, was reported
  by a promise, at the highest epoch ballot as long as the comparison of epoch ballots is an order on the
  reports.
\<close>

definition reports_ordered :: "epoch_ballot_promise set \<Rightarrow> bool" where
  \<comment> \<open>no acceptance is reported at a lower epoch and a higher ballot than another one\<close>
  "reports_ordered A \<longleftrightarrow>
     (\<forall>h \<in> A. \<forall>h' \<in> A. eb_epoch (ebpr_last_accepted_ballot h) < eb_epoch (ebpr_last_accepted_ballot h') \<longrightarrow>
        eb_ballot (ebpr_last_accepted_ballot h) \<le> eb_ballot (ebpr_last_accepted_ballot h'))"

definition last_accepted_recorded ::
    "epoch_ballot_promise set \<Rightarrow> epoch_ballot_promise set \<Rightarrow> epoch_proposer_instance_info \<Rightarrow> bool" where
  "last_accepted_recorded A H x \<longleftrightarrow>
     (let last = epoch_proposer_instance_info_get_last_accepted_epoch_ballot x
      in case pci_last_accepted_value (epi_common_info x) of
           None \<Rightarrow> last = INVALID_EPOCH_BALLOT \<and> (\<forall>h \<in> H. ebpr_last_accepted_ballot h = INVALID_EPOCH_BALLOT)
         | Some v \<Rightarrow> last \<noteq> INVALID_EPOCH_BALLOT
             \<and> (\<exists>h \<in> A. ebpr_last_accepted_ballot h = last \<and> ebpr_last_accepted_value h = v)
             \<and> (reports_ordered A \<longrightarrow> (\<forall>h \<in> H. ebpr_last_accepted_ballot h \<le> last)))"

definition epoch_promises_recorded ::
    "epoch_ballot_promise set \<Rightarrow> epoch_ballot_promise set \<Rightarrow> epoch_proposer_instance_info \<Rightarrow> bool" where
  "epoch_promises_recorded A H x \<longleftrightarrow> H \<subseteq> A
     \<and> (\<forall>h \<in> H. ebpr_promised_epoch_ballot h = Epoch_Ballot (epi_current_epoch x) (pci_ballot (epi_common_info x)))
     \<and> quorum_wf (epi_quorum x) \<and> quorum_votes (epi_quorum x) = (\<lambda>h. sint (ebpr_acceptor_id h)) ` H
     \<and> last_accepted_recorded A H x"

definition epoch_instance_promised :: "epoch_ballot_promise set \<Rightarrow> iid_t \<Rightarrow> ballot \<Rightarrow> int \<Rightarrow> epoch_proposer \<Rightarrow> bool" where
  "epoch_instance_promised A i b q1 p \<longleftrightarrow>
     (\<forall>x. epoch_proposer_get_instance_info_in_phase (ep_prepare_infos p) i = Some x \<longrightarrow>
        pci_ballot (epi_common_info x) = b \<and> q_quorum (epi_quorum x) = q1
        \<and> (\<exists>H. epoch_promises_recorded {h \<in> A. ebpr_instance h = i} H x))"

lemma epoch_gt_INVALID_iff: "epoch_ballot_greater_than eb INVALID_EPOCH_BALLOT \<longleftrightarrow> eb \<noteq> INVALID_EPOCH_BALLOT"
  by (cases eb) (auto simp: epoch_ballot_gt_iff INVALID_EPOCH_BALLOT_def word_gt_0 INVALID_BALLOT_bot bot.not_eq_extremum)

lemma epoch_gt_not_INVALID: "epoch_ballot_greater_than eb eb' \<Longrightarrow> eb \<noteq> INVALID_EPOCH_BALLOT"
  by (auto simp: epoch_ballot_gt_iff INVALID_EPOCH_BALLOT_def)

lemma INVALID_EPOCH_BALLOT_le: "INVALID_EPOCH_BALLOT \<le> eb"
  using epoch_gt_INVALID_iff [of eb] by (auto simp: epoch_ballot_greater_than_characterised INVALID_EPOCH_BALLOT_def)

lemma reports_ordered_mono: "reports_ordered A' \<Longrightarrow> A \<subseteq> A' \<Longrightarrow> reports_ordered A"
  by (auto simp: reports_ordered_def)

lemma reports_ordered_gt:
  assumes "reports_ordered A" "h \<in> A" "h' \<in> A"
  shows "epoch_ballot_greater_than (ebpr_last_accepted_ballot h) (ebpr_last_accepted_ballot h')
    \<longleftrightarrow> ebpr_last_accepted_ballot h' < ebpr_last_accepted_ballot h"
  using assms by (auto simp: epoch_ballot_greater_than_characterised reports_ordered_def leD)

lemma last_accepted_recorded_mono:
  "last_accepted_recorded A H x \<Longrightarrow> A \<subseteq> A' \<Longrightarrow> last_accepted_recorded A' H x"
  using reports_ordered_mono by (auto simp: last_accepted_recorded_def Let_def split: option.splits)

lemma newer_report_recorded:
  assumes rec: "last_accepted_recorded A H x" and ack: "ack \<in> A"
    and gt: "epoch_ballot_greater_than (ebpr_last_accepted_ballot ack)
      (epoch_proposer_instance_info_get_last_accepted_epoch_ballot x)"
    and "reports_ordered A" "h \<in> H"
  shows "ebpr_last_accepted_ballot h \<le> ebpr_last_accepted_ballot ack"
proof (cases "pci_last_accepted_value (epi_common_info x)")
  case None
  then show ?thesis using rec assms(5) INVALID_EPOCH_BALLOT_le by (auto simp: last_accepted_recorded_def Let_def)
next
  case (Some v)
  let ?last = "epoch_proposer_instance_info_get_last_accepted_epoch_ballot x"
  from rec Some obtain h' where "h' \<in> A" "ebpr_last_accepted_ballot h' = ?last"
    and le: "ebpr_last_accepted_ballot h \<le> ?last"
    using assms(4,5) by (auto simp: last_accepted_recorded_def Let_def)
  then have "?last < ebpr_last_accepted_ballot ack" using gt reports_ordered_gt [OF assms(4) ack] by metis
  with le show ?thesis by simp
qed

lemma handle_last_accepted_recorded:
  assumes "last_accepted_recorded A H x" "ack \<in> A"
  shows "last_accepted_recorded A (insert ack H) (handle_last_accepted x ack)"
proof (cases "epoch_ballot_greater_than (ebpr_last_accepted_ballot ack)
    (epoch_proposer_instance_info_get_last_accepted_epoch_ballot x)")
  case True
  note epoch_gt_not_INVALID [OF True] newer_report_recorded [OF assms True]
  with assms(2) True show ?thesis
    by (auto simp: last_accepted_recorded_def last_accepted_defs epoch_gt_INVALID_iff Let_def)
next
  case False
  let ?y = "handle_last_accepted x ack"
  have same: "epi_common_info ?y = epi_common_info x"
    "epi_last_accepted_epoch_ballot_epoch ?y = epi_last_accepted_epoch_ballot_epoch x"
    using False by (simp_all add: last_accepted_defs Let_def)
  then have last: "epoch_proposer_instance_info_get_last_accepted_epoch_ballot ?y
      = epoch_proposer_instance_info_get_last_accepted_epoch_ballot x"
    by (simp add: epoch_proposer_instance_info_get_last_accepted_epoch_ballot_def)
  have "ebpr_last_accepted_ballot ack \<le> epoch_proposer_instance_info_get_last_accepted_epoch_ballot x"
    using False by (meson epoch_ballot_greater_than_characterised not_le)
  with assms(1) False epoch_gt_INVALID_iff show ?thesis
    unfolding last_accepted_recorded_def Let_def same last by (auto split: option.splits)
qed

lemma last_accepted_recorded_fields:
  assumes "last_accepted_recorded A H x" "H' \<subseteq> H"
    and "pci_last_accepted_value (epi_common_info y) = pci_last_accepted_value (epi_common_info x)"
    and "epoch_proposer_instance_info_get_last_accepted_epoch_ballot y
      = epoch_proposer_instance_info_get_last_accepted_epoch_ballot x"
  shows "last_accepted_recorded A H' y"
  using assms unfolding last_accepted_recorded_def Let_def by (auto split: option.splits)

text \<open>A promise that is counted.\<close>

lemma current_promise_recorded:
  assumes rec: "epoch_promises_recorded A H x" and ack: "ack \<in> A"
    and cur: "is_current_epoch_ballot ack x" and real: "eb_epoch (ebpr_promised_epoch_ballot ack) \<noteq> INVALID_EPOCH"
      "\<forall>h \<in> A. eb_epoch (ebpr_promised_epoch_ballot h) \<noteq> INVALID_EPOCH"
    and q: "quorum_add (epi_quorum x) (sint (ebpr_acceptor_id ack)) = Some (q, new)"
  shows "epoch_promises_recorded A (insert ack H) (handle_last_accepted (with_epoch x ack\<lparr>epi_quorum := q\<rparr>) ack)"
    and "\<not> new \<Longrightarrow> epoch_promises_recorded A H (with_epoch x ack)"
proof -
  let ?y = "with_epoch x ack"
  have same: "epi_common_info ?y = epi_common_info x"
    "epi_last_accepted_epoch_ballot_epoch ?y = epi_last_accepted_epoch_ballot_epoch x"
    by (simp_all add: with_epoch_def)
  have empty: "H = {}" if "epi_current_epoch x = INVALID_EPOCH"
    using rec real(2) that by (fastforce simp: epoch_promises_recorded_def)
  have eb: "ebpr_promised_epoch_ballot ack = Epoch_Ballot (epi_current_epoch ?y) (pci_ballot (epi_common_info x))"
    using cur real(1) by (cases "ebpr_promised_epoch_ballot ack")
      (auto simp: is_current_epoch_ballot_def with_epoch_def epoch_proposer_instance_info_get_current_epoch_ballot_def)
  have H: "\<forall>h \<in> H. ebpr_promised_epoch_ballot h = Epoch_Ballot (epi_current_epoch ?y) (pci_ballot (epi_common_info x))"
    using rec empty by (auto simp: epoch_promises_recorded_def with_epoch_def)
  have la: "last_accepted_recorded A H ?y" "last_accepted_recorded A H (?y\<lparr>epi_quorum := q\<rparr>)"
    using rec same by (auto simp: epoch_promises_recorded_def epoch_proposer_instance_info_get_last_accepted_epoch_ballot_def
        elim!: last_accepted_recorded_fields)
  have wf: "quorum_wf (epi_quorum x)" "quorum_votes (epi_quorum x) = (\<lambda>h. sint (ebpr_acceptor_id h)) ` H" "H \<subseteq> A"
    using rec by (simp_all add: epoch_promises_recorded_def)
  show "epoch_promises_recorded A (insert ack H) (handle_last_accepted (?y\<lparr>epi_quorum := q\<rparr>) ack)"
    using handle_last_accepted_recorded [OF la(2) ack] H eb wf ack quorum_add_cases [OF q] quorum_add_wf [OF wf(1) q] same(1)
    by (simp add: epoch_promises_recorded_def)
  show "epoch_promises_recorded A H ?y"
    using la(1) H wf same(1) by (simp add: epoch_promises_recorded_def)
qed

lemma epoch_lookup_update [simp]:
  "epoch_proposer_get_instance_info_in_phase (AList.update k v t) i
     = (if i = k then Some v else epoch_proposer_get_instance_info_in_phase t i)"
  by (simp add: epoch_proposer_get_instance_info_in_phase_def update_conv')

lemma chosen_shrinks_prepare_phase:
  assumes "epoch_proposer_wf p" "epoch_proposer_receive_chosen cfg p c = Some (p', r)"
  shows "set (ep_prepare_infos p') \<subseteq> set (ep_prepare_infos p)"
    and "\<not> epoch_proposer_is_instance_chosen p (ebc_instance c) \<Longrightarrow>
      epoch_proposer_get_instance_info_in_phase (ep_prepare_infos p') (ebc_instance c) = None"
proof -
  let ?i = "ebc_instance c"
  have new: "set (ep_prepare_infos p') \<subseteq> {(k, x) \<in> set (ep_prepare_infos p). k \<noteq> ?i}"
    if "\<not> epoch_proposer_is_instance_chosen p ?i"
  proof -
    from epoch_receive_chosen_new [OF assms(1) that assms(2)] obtain p1 where p1: "epoch_proposer_wf p1"
      "ep_prepare_infos p1 = AList.delete ?i (ep_prepare_infos p)"
      "p' = p1 \<or> p' = fst (epoch_proposer_receive_trim cfg p1 \<lparr>trim_iid = ?i\<rparr>)" .
    have "set (ep_prepare_infos (fst (epoch_proposer_receive_trim cfg p1 t))) \<subseteq> set (ep_prepare_infos p1)" for t
      using epoch_trim_eq(2) [OF p1(1), of t cfg]
      by (cases "ep_trim_instance p1 < trim_iid t") (auto simp: epoch_proposer_receive_trim_def)
    with p1(3) have "set (ep_prepare_infos p') \<subseteq> set (ep_prepare_infos p1)" by blast
    then show ?thesis by (auto simp: p1(2) AList.delete_eq)
  qed
  then show "set (ep_prepare_infos p') \<subseteq> set (ep_prepare_infos p)"
    using assms(2) by (cases "epoch_proposer_is_instance_chosen p ?i") (auto simp: epoch_proposer_receive_chosen_def)
  show "epoch_proposer_get_instance_info_in_phase (ep_prepare_infos p') ?i = None"
    if "\<not> epoch_proposer_is_instance_chosen p ?i"
    using new [OF that] by (force simp: epoch_proposer_get_instance_info_in_phase_def map_of_eq_None_iff)
qed

lemma shrunk_lookup:
  assumes "epoch_proposer_wf p" "set (ep_prepare_infos p') \<subseteq> set (ep_prepare_infos p)"
    and "epoch_proposer_get_instance_info_in_phase (ep_prepare_infos p') i = Some x"
  shows "epoch_proposer_get_instance_info_in_phase (ep_prepare_infos p) i = Some x"
  using assms by (auto simp: epoch_proposer_get_instance_info_in_phase_def epoch_proposer_wf_def phase_table_wf_def
      dest!: map_of_SomeD)

lemma epoch_promises_recorded_mono:
  "epoch_promises_recorded A H x \<Longrightarrow> A \<subseteq> A' \<Longrightarrow> epoch_promises_recorded A' H x"
  by (auto simp: epoch_promises_recorded_def intro: last_accepted_recorded_mono)

lemma current_promise_keeps_recorded:
  assumes wf: "epoch_proposer_wf p" and nd: "\<not> promise_dropped p ack" and i: "ebpr_instance ack = i"
    and inst: "epoch_proposer_get_instance_info_in_phase (ep_prepare_infos p) i = Some x"
    and cur: "is_current_epoch_ballot ack x"
    and x: "pci_ballot (epi_common_info x) = b" "q_quorum (epi_quorum x) = q1"
      "epoch_promises_recorded {h \<in> A. ebpr_instance h = i} H x"
    and real: "ack \<in> A" "\<forall>h \<in> A. eb_epoch (ebpr_promised_epoch_ballot h) \<noteq> INVALID_EPOCH"
    and step: "epoch_proposer_receive_promise_depth (Suc d) cfg now p ack = Some (p', code, msg)"
  shows "epoch_instance_promised A i b q1 p'"
proof -
  let ?A = "{h \<in> A. ebpr_instance h = i}"
  have A: "ack \<in> ?A" "eb_epoch (ebpr_promised_epoch_ballot ack) \<noteq> INVALID_EPOCH"
    "\<forall>h \<in> ?A. eb_epoch (ebpr_promised_epoch_ballot h) \<noteq> INVALID_EPOCH"
    using real i by auto
  note inst' = inst [folded i]
  from nd inst' cur step show ?thesis
  proof (cases rule: promise_current_cases)
    case (duplicate q)
    with current_promise_recorded(2) [OF x(3) A(1) cur A(2,3) duplicate(1)] x(1,2) show ?thesis
      by (auto simp: epoch_instance_promised_def i)
  next
    case (counted q p1)
    let ?y = "handle_last_accepted (with_epoch x ack\<lparr>epi_quorum := q\<rparr>) ack"
    have y: "epoch_promises_recorded ?A (insert ack H) ?y"
      using current_promise_recorded(1) [OF x(3) A(1) cur A(2,3) counted(1)] .
    have "q_quorum q = q1" using quorum_add_cases [OF counted(1)] x(2) by simp
    with y x(1) have p1: "epoch_instance_promised A i b q1 p1"
      by (auto simp: epoch_instance_promised_def counted(2) i)
    from counted(3) show ?thesis
    proof
      assume "p' = p1"
      with p1 show ?thesis by simp
    next
      assume "\<exists>c r. ebc_instance c = ebpr_instance ack \<and> epoch_proposer_receive_chosen cfg p1 c = Some (p', r)"
      then obtain c r where c: "ebc_instance c = i" "epoch_proposer_receive_chosen cfg p1 c = Some (p', r)"
        using i by blast
      let ?p = "epoch_proposer_check_and_set_current_epoch_from_epoch_ballot p (ebpr_promised_epoch_ballot ack)"
      have "epoch_proposer_wf (?p\<lparr>ep_prepare_infos := AList.update (ebpr_instance ack) ?y (ep_prepare_infos ?p)\<rparr>)"
        by (rule wf_put_prepare) (use wf wf_get_prepare [OF wf inst'] quorum_add_keeps [OF _ counted(1)] in simp_all)
      then have "epoch_proposer_wf p1" by (simp add: counted(2))
      moreover have "\<not> epoch_proposer_is_instance_chosen p1 (ebc_instance c)"
        using nd c(1) i by (simp add: counted(2) promise_dropped_def epoch_proposer_is_instance_chosen_def)
      ultimately have "epoch_proposer_get_instance_info_in_phase (ep_prepare_infos p') i = None"
        using chosen_shrinks_prepare_phase(2) [OF _ c(2)] c(1) by simp
      then show ?thesis by (simp add: epoch_instance_promised_def)
    qed
  qed
qed

lemma other_promise_keeps_lookup:
  assumes wf: "epoch_proposer_wf p" and nd: "\<not> promise_dropped p ack" and i: "ebpr_instance ack \<noteq> i"
    and inst: "epoch_proposer_get_instance_info_in_phase (ep_prepare_infos p) (ebpr_instance ack) = Some y"
    and cur: "is_current_epoch_ballot ack y"
    and step: "epoch_proposer_receive_promise_depth (Suc d) cfg now p ack = Some (p', code, msg)"
    and x: "epoch_proposer_get_instance_info_in_phase (ep_prepare_infos p') i = Some x"
  shows "epoch_proposer_get_instance_info_in_phase (ep_prepare_infos p) i = Some x"
  using nd inst cur step
proof (cases rule: promise_current_cases)
  case (duplicate q)
  then show ?thesis using x i by simp
next
  case (counted q p1)
  let ?y = "handle_last_accepted (with_epoch y ack\<lparr>epi_quorum := q\<rparr>) ack"
  let ?p = "epoch_proposer_check_and_set_current_epoch_from_epoch_ballot p (ebpr_promised_epoch_ballot ack)"
  have "epoch_proposer_wf (?p\<lparr>ep_prepare_infos := AList.update (ebpr_instance ack) ?y (ep_prepare_infos ?p)\<rparr>)"
    by (rule wf_put_prepare) (use wf wf_get_prepare [OF wf inst] quorum_add_keeps [OF _ counted(1)] in simp_all)
  then have wf1: "epoch_proposer_wf p1" by (simp add: counted(2))
  have "set (ep_prepare_infos p') \<subseteq> set (ep_prepare_infos p1)"
    using counted(3) chosen_shrinks_prepare_phase(1) [OF wf1] by blast
  from shrunk_lookup [OF wf1 this x] show ?thesis using i by (simp add: counted(2))
qed

lemma receive_promise_keeps_recorded:
  assumes wf: "epoch_proposer_wf p" and rec: "epoch_instance_promised A i b q1 p"
    and real: "ack \<in> A" "\<forall>h \<in> A. eb_epoch (ebpr_promised_epoch_ballot h) \<noteq> INVALID_EPOCH"
    and step: "epoch_proposer_receive_promise cfg now p ack = Some (p', code, msg)"
  shows "epoch_instance_promised A i b q1 p'"
  using step
proof (cases rule: receive_promise_steps)
  case dropped
  then show ?thesis using rec by simp
next
  case (current x)
  show ?thesis
  proof (cases "ebpr_instance ack = i")
    case True
    with current(2) rec obtain H where "pci_ballot (epi_common_info x) = b" "q_quorum (epi_quorum x) = q1"
      "epoch_promises_recorded {h \<in> A. ebpr_instance h = i} H x"
      by (auto simp: epoch_instance_promised_def)
    from current_promise_keeps_recorded [OF wf current(1) True current(2) [unfolded True] current(3) this real, of 0] current(4)
    show ?thesis by simp
  next
    case False
    then show ?thesis
      using rec other_promise_keeps_lookup [OF wf current(1) False current(2,3), of 0] current(4)
      by (auto simp: epoch_instance_promised_def)
  qed
next
  case (moved x code' msg')
  let ?m = "moved_proposer now p x ack" and ?x = "moved_to_epoch now x (ebpr_promised_epoch_ballot ack)"
  have cur: "is_current_epoch_ballot ack ?x" using moved(4) moved_current_iff by blast
  note wfm = moved_keeps(1) [OF wf moved(2), of now] and nd = moved_not_dropped [OF moved(1,2), of now]
  show ?thesis
  proof (cases "ebpr_instance ack = i")
    case True
    with moved(2) rec obtain H where x: "pci_ballot (epi_common_info x) = b" "q_quorum (epi_quorum x) = q1"
      "epoch_promises_recorded {h \<in> A. ebpr_instance h = i} H x"
      by (auto simp: epoch_instance_promised_def)
    have "last_accepted_recorded {h \<in> A. ebpr_instance h = i} {} ?x"
      using x(3) by (auto simp: epoch_promises_recorded_def moved_to_epoch_def
          epoch_proposer_instance_info_get_last_accepted_epoch_ballot_def elim!: last_accepted_recorded_fields)
    then have "epoch_promises_recorded {h \<in> A. ebpr_instance h = i} {} ?x"
      by (simp add: epoch_promises_recorded_def moved_to_epoch_def)
    from current_promise_keeps_recorded [OF wfm nd True moved_lookup [of now p x ack, unfolded True] cur _ _ this real, of b q1 0] x(1,2) moved(5)
    show ?thesis by (simp add: moved_to_epoch_def)
  next
    case False
    have "epoch_proposer_get_instance_info_in_phase (ep_prepare_infos ?m) i
        = epoch_proposer_get_instance_info_in_phase (ep_prepare_infos p) i"
      using False by (simp add: moved_proposer_def)
    then show ?thesis
      using rec other_promise_keeps_lookup [OF wfm nd False moved_lookup cur, of 0] moved(5)
      by (auto simp: epoch_instance_promised_def)
  qed
qed

fun epoch_proposer_receive_promises ::
    "paxos_config \<Rightarrow> timeval \<Rightarrow> epoch_proposer \<Rightarrow> epoch_ballot_promise list \<Rightarrow> epoch_proposer option" where
  "epoch_proposer_receive_promises cfg now p [] = Some p"
| "epoch_proposer_receive_promises cfg now p (ack # acks) =
     (case epoch_proposer_receive_promise cfg now p ack of
        None \<Rightarrow> None
      | Some (p, _, _) \<Rightarrow> epoch_proposer_receive_promises cfg now p acks)"

lemma receive_promises_keep_recorded:
  assumes "epoch_proposer_wf p" "epoch_instance_promised A i b q1 p" "set acks \<subseteq> A"
    and "\<forall>h \<in> A. eb_epoch (ebpr_promised_epoch_ballot h) \<noteq> INVALID_EPOCH"
    and "epoch_proposer_receive_promises cfg now p acks = Some p'"
  shows "epoch_proposer_wf p' \<and> epoch_instance_promised A i b q1 p'"
  using assms
proof (induction acks arbitrary: p)
  case Nil
  then show ?case by simp
next
  case (Cons ack acks)
  from Cons.prems(5) obtain p1 code msg where s: "epoch_proposer_receive_promise cfg now p ack = Some (p1, code, msg)"
    and r: "epoch_proposer_receive_promises cfg now p1 acks = Some p'"
    by (auto split: option.splits)
  have ack: "ack \<in> A" "set acks \<subseteq> A" using Cons.prems(3) by auto
  from epoch_receive_promise_keeps [OF Cons.prems(1) s]
    receive_promise_keeps_recorded [OF Cons.prems(1,2) ack(1) Cons.prems(4) s]
  show ?case using Cons.IH [OF _ _ ack(2) Cons.prems(4) r] by simp
qed

lemma started_instance_promised:
  assumes "epoch_proposer_get_instance_info_in_phase (ep_prepare_infos p) i = None"
  shows "epoch_instance_promised A i (eb_ballot eb) (ep_q1 p)
    (fst (epoch_proposer_try_to_start_preparing_instance now p i eb))"
proof -
  let ?x = "epoch_proposer_instance_info_new now i eb (ep_acceptors p) (ep_q1 p)"
  have "epoch_promises_recorded {h \<in> A. ebpr_instance h = i} {} ?x"
    by (simp add: epoch_promises_recorded_def last_accepted_recorded_def epoch_proposer_instance_info_new_def
        proposer_common_info_new_def epoch_proposer_instance_info_get_last_accepted_epoch_ballot_def
        INVALID_EPOCH_BALLOT_def INVALID_BALLOT_def)
  moreover have "pci_ballot (epi_common_info ?x) = eb_ballot eb" "q_quorum (epi_quorum ?x) = ep_q1 p"
    by (simp_all add: epoch_proposer_instance_info_new_def proposer_common_info_new_def)
  ultimately show ?thesis
    using assms
    by (auto simp: epoch_instance_promised_def epoch_proposer_try_to_start_preparing_instance_def
        epoch_proposer_next_instance_def Let_def)
qed

lemma reached_quorum_of_promises:
  assumes "epoch_promises_recorded A H x" "quorum_reached (epi_quorum x)"
  shows "q_quorum (epi_quorum x) \<le> int (card ((\<lambda>h. sint (ebpr_acceptor_id h)) ` H))"
  using assms quorum_reached_iff by (auto simp: epoch_promises_recorded_def)

lemma determined_value_recorded:
  assumes "vpm_wf (ep_value_proposal_manager p)" "last_accepted_recorded A H x"
    and "epoch_proposer_try_determine_value_to_propose_and_set cfg now p x = Some (p', x', True)"
    and "pci_proposing_value (epi_common_info x') = Some v"
  shows "(\<forall>h \<in> H. ebpr_last_accepted_ballot h = INVALID_EPOCH_BALLOT)
      \<and> (v = NOP \<or> v \<in> outstanding (ep_value_proposal_manager p))
    \<or> (\<exists>h \<in> A. ebpr_last_accepted_ballot h \<noteq> INVALID_EPOCH_BALLOT \<and> ebpr_last_accepted_value h = v
         \<and> (reports_ordered A \<longrightarrow> (\<forall>h' \<in> H. ebpr_last_accepted_ballot h' \<le> ebpr_last_accepted_ballot h)))"
  using assms(3)
proof (cases rule: epoch_determine_value_cases)
  case (adopt w)
  with assms(4) have "v = w" by simp
  from adopt(1) assms(2) obtain h where "h \<in> A" "ebpr_last_accepted_ballot h \<noteq> INVALID_EPOCH_BALLOT"
    "ebpr_last_accepted_value h = w"
    "reports_ordered A \<Longrightarrow> \<forall>h' \<in> H. ebpr_last_accepted_ballot h' \<le> ebpr_last_accepted_ballot h"
    by (auto simp: last_accepted_recorded_def Let_def)
  with \<open>v = w\<close> show ?thesis by blast
next
  case (client w m)
  have "v = w" using client assms(4) by simp
  then have "v = NOP \<or> v \<in> outstanding (ep_value_proposal_manager p)"
    using get_next_correct [OF assms(1) client(3)] by (auto simp: outstanding_def)
  with client(1) assms(2) show ?thesis by (auto simp: last_accepted_recorded_def Let_def)
qed simp

text \<open>A proposer with three acceptors, quorums of two and one queued client value, for concrete runs.\<close>

definition sample_epoch_proposer :: epoch_proposer where
  "sample_epoch_proposer =
     (let p = (epoch_proposer_new sample_config 1 3 2 2 10)\<lparr>ep_value_proposal_manager := value_proposal_manager_new 2 False\<rparr>
      in case epoch_proposer_add_paxos_value_to_queue p [7] of None \<Rightarrow> p | Some p' \<Rightarrow> p')"

lemma sample_epoch_proposer_wf: "epoch_proposer_wf sample_epoch_proposer"
proof -
  have "epoch_proposer_wf ((epoch_proposer_new sample_config 1 3 2 2 10)\<lparr>ep_value_proposal_manager := value_proposal_manager_new 2 False\<rparr>)"
    by (simp add: epoch_proposer_wf_def epoch_proposer_new_def)
  then show ?thesis
    using epoch_add_value_keeps by (auto simp: sample_epoch_proposer_def Let_def split: option.split)
qed

abbreviation sample_promise :: "u32 \<Rightarrow> epoch_ballot \<Rightarrow> epoch_ballot \<Rightarrow> paxos_value \<Rightarrow> epoch_ballot_promise" where
  "sample_promise a eb lb v \<equiv> \<lparr>ebpr_acceptor_id = a, ebpr_instance = 1, ebpr_promised_epoch_ballot = eb,
     ebpr_last_accepted_ballot = lb, ebpr_last_accepted_value = v\<rparr>"

section \<open>Properties\<close>

text \<open>
  C8: The value rule of the epoch proposer: if it starts an instance that is not in the prepare phase, receives
  any promises, each with a real epoch, and then, with no preemption in between, sends an accept for that
  instance, the accept is at the ballot of the start and there is a quorum of \<open>q1\<close> acceptors that promised
  exactly the epoch ballot of the accept; the value is a client value or \<open>NOP\<close>, only if none of the quorum
  reports an accepted value, or one that a received promise for the instance reports as accepted, at an epoch
  ballot that is the highest of all that the quorum reports (epoch first, then ballot), provided that no
  received report has a lower epoch and a higher ballot than another.  Where one has, the comparison of
  \<open>epoch_ballot.c\<close> is no order (\<open>epoch_ballot_greater_than_not_asymmetric\<close>) and the highest need not be found.
\<close>

theorem epoch_proposal_follows_promises:
  assumes "epoch_proposer_wf p" "epoch_proposer_get_instance_info_in_phase (ep_prepare_infos p) i = None"
    and "epoch_proposer_receive_promises cfg now (fst (epoch_proposer_try_to_start_preparing_instance now p i eb)) acks = Some p1"
    and "\<forall>h \<in> set acks. eb_epoch (ebpr_promised_epoch_ballot h) \<noteq> INVALID_EPOCH"
    and "epoch_proposer_try_accept cfg now' p1 = Some (p2, Some acc)" "eba_instance acc = i"
  shows "eb_ballot (eba_epoch_ballot_requested acc) = eb_ballot eb
    \<and> (\<exists>H \<subseteq> {h \<in> set acks. ebpr_instance h = i \<and> ebpr_promised_epoch_ballot h = eba_epoch_ballot_requested acc}.
         ep_q1 p \<le> int (card ((\<lambda>h. sint (ebpr_acceptor_id h)) ` H))
         \<and> ((\<forall>h \<in> H. ebpr_last_accepted_ballot h = INVALID_EPOCH_BALLOT)
              \<and> (eba_value_to_accept acc = NOP
                  \<or> eba_value_to_accept acc \<in> outstanding (ep_value_proposal_manager p1))
            \<or> (\<exists>h \<in> set acks. ebpr_instance h = i \<and> ebpr_last_accepted_ballot h \<noteq> INVALID_EPOCH_BALLOT
                 \<and> ebpr_last_accepted_value h = eba_value_to_accept acc
                 \<and> (reports_ordered {h \<in> set acks. ebpr_instance h = i} \<longrightarrow>
                      (\<forall>h' \<in> H. ebpr_last_accepted_ballot h' \<le> ebpr_last_accepted_ballot h)))))"
proof -
  have "epoch_proposer_wf (fst (epoch_proposer_try_to_start_preparing_instance now p i eb))"
    using epoch_start_preparing_keeps [OF assms(1)] by blast
  with receive_promises_keep_recorded [OF _ started_instance_promised [OF assms(2)] subset_refl assms(4,3)]
  have p1: "epoch_proposer_wf p1" "epoch_instance_promised (set acks) i (eb_ballot eb) (ep_q1 p) p1" by simp_all
  from assms(5) show ?thesis
  proof (cases rule: epoch_try_accept_cases)
    case (proposed x p' x1 v)
    note x = epoch_get_min_instance_Some [OF p1(1) proposed(1)]
    note d = epoch_determine_value_keeps [OF p1(1) proposed(2)]
    have acc: "acc = \<lparr>eba_instance = pci_iid (epi_common_info x1),
         eba_epoch_ballot_requested = Epoch_Ballot (epi_current_epoch x1) (pci_ballot (epi_common_info x1)),
         eba_value_to_accept = v\<rparr>"
      using proposed(4) by simp
    have i: "pci_iid (epi_common_info x) = i" using d acc assms(6) by simp
    with x p1(2) obtain H where b: "pci_ballot (epi_common_info x) = eb_ballot eb" "q_quorum (epi_quorum x) = ep_q1 p"
      and H: "epoch_promises_recorded {h \<in> set acks. ebpr_instance h = i} H x"
      by (auto simp: epoch_instance_promised_def)
    have "vpm_wf (ep_value_proposal_manager p1)" using p1(1) by (simp add: epoch_proposer_wf_def)
    moreover have "last_accepted_recorded {h \<in> set acks. ebpr_instance h = i} H x" using H by (simp add: epoch_promises_recorded_def)
    ultimately have val: "(\<forall>h \<in> H. ebpr_last_accepted_ballot h = INVALID_EPOCH_BALLOT)
        \<and> (v = NOP \<or> v \<in> outstanding (ep_value_proposal_manager p1))
      \<or> (\<exists>h \<in> {h \<in> set acks. ebpr_instance h = i}. ebpr_last_accepted_ballot h \<noteq> INVALID_EPOCH_BALLOT \<and> ebpr_last_accepted_value h = v
           \<and> (reports_ordered {h \<in> set acks. ebpr_instance h = i} \<longrightarrow>
                (\<forall>h' \<in> H. ebpr_last_accepted_ballot h' \<le> ebpr_last_accepted_ballot h)))"
      by (rule determined_value_recorded [OF _ _ proposed(2,3)])
    have "H \<subseteq> {h \<in> set acks. ebpr_instance h = i \<and> ebpr_promised_epoch_ballot h = eba_epoch_ballot_requested acc}"
      using H d acc by (auto simp: epoch_promises_recorded_def)
    moreover have "ep_q1 p \<le> int (card ((\<lambda>h. sint (ebpr_acceptor_id h)) ` H))"
      using reached_quorum_of_promises [OF H] x b(2) by simp
    moreover have "eba_value_to_accept acc = v" "eb_ballot (eba_epoch_ballot_requested acc) = eb_ballot eb"
      using b(1) d acc by simp_all
    ultimately show ?thesis using val by (intro conjI exI [of _ H]) auto
  qed simp_all
qed

theorem epoch_proposal_follows_promises_witness:
  "\<exists>p1 p2 acc. epoch_proposer_receive_promises sample_config \<lparr>tv_sec = 5, tv_usec = 0\<rparr>
      (fst (epoch_proposer_try_to_start_preparing_instance \<lparr>tv_sec = 5, tv_usec = 0\<rparr> sample_epoch_proposer 1
        (Epoch_Ballot 0 (Ballot 3 1))))
      [sample_promise 0 (Epoch_Ballot 1 (Ballot 3 1)) INVALID_EPOCH_BALLOT [],
       sample_promise 1 (Epoch_Ballot 2 (Ballot 3 1)) (Epoch_Ballot 1 (Ballot 2 2)) [9],
       sample_promise 2 (Epoch_Ballot 2 (Ballot 3 1)) (Epoch_Ballot 1 (Ballot 2 1)) [8]] = Some p1
    \<and> epoch_proposer_try_accept sample_config \<lparr>tv_sec = 6, tv_usec = 0\<rparr> p1 = Some (p2, Some acc)
    \<and> eb_ballot (eba_epoch_ballot_requested acc) = Ballot 3 1 \<and> eba_value_to_accept acc = [9]"
proof -
  let ?now = "\<lparr>tv_sec = 5, tv_usec = 0\<rparr>" and ?now' = "\<lparr>tv_sec = 6, tv_usec = 0\<rparr>" and ?eb = "Epoch_Ballot 0 (Ballot 3 1)"
  let ?p = "fst (epoch_proposer_try_to_start_preparing_instance ?now sample_epoch_proposer 1 ?eb)"
  let ?acks = "[sample_promise 0 (Epoch_Ballot 1 (Ballot 3 1)) INVALID_EPOCH_BALLOT [],
       sample_promise 1 (Epoch_Ballot 2 (Ballot 3 1)) (Epoch_Ballot 1 (Ballot 2 2)) [9],
       sample_promise 2 (Epoch_Ballot 2 (Ballot 3 1)) (Epoch_Ballot 1 (Ballot 2 1)) [8]]"
  let ?acc = "\<lparr>eba_instance = 1, eba_epoch_ballot_requested = Epoch_Ballot 2 (Ballot 3 1), eba_value_to_accept = [9]\<rparr>"
  have "map_option snd (Option.bind (epoch_proposer_receive_promises sample_config ?now ?p ?acks)
      (epoch_proposer_try_accept sample_config ?now')) = Some (Some ?acc)"
    by code_simp
  then obtain p1 p2 where p1: "epoch_proposer_receive_promises sample_config ?now ?p ?acks = Some p1"
    and p2: "epoch_proposer_try_accept sample_config ?now' p1 = Some (p2, Some ?acc)"
    by (auto simp: bind_eq_Some_conv)
  have none: "epoch_proposer_get_instance_info_in_phase (ep_prepare_infos sample_epoch_proposer) 1 = None" by code_simp
  have real: "\<forall>h \<in> set ?acks. eb_epoch (ebpr_promised_epoch_ballot h) \<noteq> INVALID_EPOCH" by code_simp
  from epoch_proposal_follows_promises [OF sample_epoch_proposer_wf none p1 real p2] p1 p2 show ?thesis by auto
qed

text \<open>
  The epoch proposer forgets a value that it has already proposed: when it is preempted in the accept
  phase after it had adopted a reported value, it keeps the ballot of the report but not the value, so that
  in the next round a promise that reports the same value again is not newer, and the proposer sends an
  accept with a client value although its quorum of promises reports another accepted value.
\<close>

theorem epoch_proposer_forgets_adopted_value:
  "\<exists>p1 p2 p3 p4 p5 prep acc acc'.
     epoch_proposer_receive_promises sample_config \<lparr>tv_sec = 5, tv_usec = 0\<rparr>
       (fst (epoch_proposer_try_to_start_preparing_instance \<lparr>tv_sec = 5, tv_usec = 0\<rparr> sample_epoch_proposer 1
         (Epoch_Ballot 1 (Ballot 3 1))))
       [sample_promise 0 (Epoch_Ballot 1 (Ballot 3 1)) (Epoch_Ballot 1 (Ballot 2 2)) [9],
        sample_promise 2 (Epoch_Ballot 1 (Ballot 3 1)) INVALID_EPOCH_BALLOT []] = Some p1
     \<and> epoch_proposer_try_accept sample_config \<lparr>tv_sec = 6, tv_usec = 0\<rparr> p1 = Some (p2, Some acc)
     \<and> eba_value_to_accept acc = [9]
     \<and> epoch_proposer_receive_preempted \<lparr>tv_sec = 7, tv_usec = 0\<rparr> [0] [0] p2
         \<lparr>ebpe_acceptor_id = 2, ebpe_instance = 1, ebpe_requested_epoch_ballot = Epoch_Ballot 1 (Ballot 3 1),
          ebpe_acceptors_current_epoch_ballot = Epoch_Ballot 1 (Ballot 4 2)\<rparr> = Some (p3, BALLOT_PREEMPTED, Some prep)
     \<and> epoch_proposer_receive_promises sample_config \<lparr>tv_sec = 8, tv_usec = 0\<rparr> p3
       [sample_promise 0 (ebp_epoch_ballot_requested prep) (Epoch_Ballot 1 (Ballot 2 2)) [9],
        sample_promise 2 (ebp_epoch_ballot_requested prep) INVALID_EPOCH_BALLOT []] = Some p4
     \<and> epoch_proposer_try_accept sample_config \<lparr>tv_sec = 9, tv_usec = 0\<rparr> p4 = Some (p5, Some acc')
     \<and> eba_value_to_accept acc' = [7]"
proof -
  let ?p1 = "epoch_proposer_receive_promises sample_config \<lparr>tv_sec = 5, tv_usec = 0\<rparr>
       (fst (epoch_proposer_try_to_start_preparing_instance \<lparr>tv_sec = 5, tv_usec = 0\<rparr> sample_epoch_proposer 1
         (Epoch_Ballot 1 (Ballot 3 1))))
       [sample_promise 0 (Epoch_Ballot 1 (Ballot 3 1)) (Epoch_Ballot 1 (Ballot 2 2)) [9],
        sample_promise 2 (Epoch_Ballot 1 (Ballot 3 1)) INVALID_EPOCH_BALLOT []]"
  let ?p2 = "Option.bind ?p1 (epoch_proposer_try_accept sample_config \<lparr>tv_sec = 6, tv_usec = 0\<rparr>)"
  let ?p3 = "Option.bind ?p2 (\<lambda>(p, out). epoch_proposer_receive_preempted \<lparr>tv_sec = 7, tv_usec = 0\<rparr> [0] [0] p
         \<lparr>ebpe_acceptor_id = 2, ebpe_instance = 1, ebpe_requested_epoch_ballot = Epoch_Ballot 1 (Ballot 3 1),
          ebpe_acceptors_current_epoch_ballot = Epoch_Ballot 1 (Ballot 4 2)\<rparr>)"
  let ?eb = "Epoch_Ballot 1 (Ballot 5 1)"
  let ?p4 = "Option.bind ?p3 (\<lambda>(p, out). epoch_proposer_receive_promises sample_config \<lparr>tv_sec = 8, tv_usec = 0\<rparr> p
       [sample_promise 0 ?eb (Epoch_Ballot 1 (Ballot 2 2)) [9], sample_promise 2 ?eb INVALID_EPOCH_BALLOT []])"
  let ?p5 = "Option.bind ?p4 (epoch_proposer_try_accept sample_config \<lparr>tv_sec = 9, tv_usec = 0\<rparr>)"
  have "map_option snd ?p2 = Some (Some \<lparr>eba_instance = 1, eba_epoch_ballot_requested = Epoch_Ballot 1 (Ballot 3 1),
      eba_value_to_accept = [9]\<rparr>)"
    by code_simp
  moreover have "map_option snd ?p3 = Some (BALLOT_PREEMPTED, Some \<lparr>ebp_instance = 1, ebp_epoch_ballot_requested = ?eb\<rparr>)"
    by code_simp
  moreover have "map_option snd ?p5 = Some (Some \<lparr>eba_instance = 1, eba_epoch_ballot_requested = ?eb,
      eba_value_to_accept = [7]\<rparr>)"
    by code_simp
  ultimately show ?thesis by (auto simp: bind_eq_Some_conv simp del: epoch_proposer_receive_promises.simps)
qed

text \<open>
  C30: An epoch proposer stays well formed for ever: whatever calls are made from a new proposer, with any
  messages, clocks and random draws, every instance in a phase table is stored under its own number with
  a consistent vote counter over the proposer's acceptors, every instance in the accept phase has a
  value, the client values are kept consistently, and the highest known epoch and the trim instance only
  grow.
\<close>

theorem reachable_epoch_proposer_wf:
  assumes "epoch_proposer_reaches cfg (epoch_proposer_new cfg i n q1 q2 inc) p"
    and "epoch_proposer_reaches cfg p p'"
  shows "epoch_proposer_wf p \<and> epoch_proposer_wf p' \<and> evolves p p'"
  using assms epoch_proposer_reaches_keeps epoch_proposer_new_wf by blast

theorem reachable_epoch_proposer_wf_witness:
  "epoch_proposer_wf (fst (epoch_proposer_handle_epoch_notification (epoch_proposer_new sample_config 1 3 2 2 10)
     \<lparr>en_new_epoch = 4\<rparr>))
   \<and> evolves (epoch_proposer_new sample_config 1 3 2 2 10)
       (fst (epoch_proposer_handle_epoch_notification (epoch_proposer_new sample_config 1 3 2 2 10) \<lparr>en_new_epoch = 4\<rparr>))"
  using reachable_epoch_proposer_wf [OF epoch_proposer_reaches.init
      epoch_proposer_reaches.step [OF epoch_proposer_reaches.init epoch_proposer_step.notified]] by blast

lemma cleared_quorum_counts:
  assumes "0 \<le> i" "i < q_acceptors q"
  obtains q' where "quorum_add (quorum_clear q) i = Some (q', True)" "quorum_votes q' = {i}"
proof -
  obtain q' new where q': "quorum_add (quorum_clear q) i = Some (q', new)"
    using quorum_add_defined [OF quorum_clear_wf, of i q] assms by auto
  with quorum_add_cases [OF q'] that show thesis by simp
qed

lemma handle_last_accepted_count:
  "epi_same_accept_count (handle_last_accepted x ack) \<le> max 1 (epi_same_accept_count x + 1)"
  by (simp add: last_accepted_defs Let_def le_max_iff_disj)

text \<open>
  C31: A promise at the ballot of a pending instance but at another epoch, not an outdated one, restarts the
  instance: \<open>epoch_proposer_receive_promise\<close>, which calls itself for this, returns after that one call;
  the instance is then at the epoch ballot of the promise with the sender as its only vote, and the message
  to send is a prepare at that epoch ballot.  The depth of two calls that the model allows is never
  too small.  The proposer is well formed, the sender is one of its acceptors and \<open>quorum_2\<close> is at least 2.
\<close>

theorem epoch_promise_restarts_instance:
  assumes "epoch_proposer_wf p" "\<not> promise_dropped p ack" "2 \<le> cfg_quorum_2 cfg"
    and "epoch_proposer_get_instance_info_in_phase (ep_prepare_infos p) (ebpr_instance ack) = Some x"
    and "pci_ballot (epi_common_info x) = eb_ballot (ebpr_promised_epoch_ballot ack)" "\<not> is_current_epoch_ballot ack x"
    and "0 \<le> sint (ebpr_acceptor_id ack)" "sint (ebpr_acceptor_id ack) < ep_acceptors p"
  shows "\<exists>p' y. epoch_proposer_receive_promise cfg now p ack = Some (p', EPOCH_PREEMPTED,
         Some (WRITEAHEAD_EPOCH_BALLOT_PREPARE
           \<lparr>ebp_instance = ebpr_instance ack, ebp_epoch_ballot_requested = ebpr_promised_epoch_ballot ack\<rparr>))
      \<and> epoch_proposer_get_instance_info_in_phase (ep_prepare_infos p') (ebpr_instance ack) = Some y
      \<and> epoch_proposer_instance_info_get_current_epoch_ballot y = ebpr_promised_epoch_ballot ack
      \<and> quorum_votes (epi_quorum y) = {sint (ebpr_acceptor_id ack)}
      \<and> (\<forall>n. epoch_proposer_receive_promise_depth (n + 2) cfg now p ack = epoch_proposer_receive_promise cfg now p ack)"
proof -
  let ?m = "moved_proposer now p x ack" and ?x = "moved_to_epoch now x (ebpr_promised_epoch_ballot ack)"
  have "q_acceptors (epi_quorum x) = ep_acceptors p" using wf_get_prepare [OF assms(1,4)] by simp
  then obtain q where q: "quorum_add (epi_quorum ?x) (sint (ebpr_acceptor_id ack)) = Some (q, True)"
    "quorum_votes q = {sint (ebpr_acceptor_id ack)}"
    using cleared_quorum_counts [of "sint (ebpr_acceptor_id ack)" "epi_quorum x"] assms(7,8)
    by (auto simp: moved_to_epoch_def)
  have cur: "is_current_epoch_ballot ack ?x" using moved_current_iff assms(5) by blast
  have nd: "\<not> promise_dropped ?m ack" using moved_not_dropped [OF assms(2,4)] .
  then have conds: "\<not> ebpr_instance ack \<le> ep_trim_instance ?m" "\<not> epoch_proposer_is_instance_chosen ?m (ebpr_instance ack)"
    "\<not> is_epoch_promise_outdated ack ?x" by (simp_all add: promise_dropped_def)
  let ?y = "handle_last_accepted (with_epoch ?x ack\<lparr>epi_quorum := q\<rparr>) ack"
  have count: "\<not> cfg_quorum_2 cfg \<le> epi_same_accept_count ?y"
    using handle_last_accepted_count [of "with_epoch ?x ack\<lparr>epi_quorum := q\<rparr>" ack] assms(3)
    by (simp add: with_epoch_def moved_to_epoch_def)
  let ?p' = "(epoch_proposer_check_and_set_current_epoch_from_epoch_ballot ?m (ebpr_promised_epoch_ballot ack))
    \<lparr>ep_prepare_infos := AList.update (ebpr_instance ack) ?y (ep_prepare_infos ?m)\<rparr>"
  have "map_option fst (epoch_proposer_receive_promise_depth (Suc 0) cfg now ?m ack) = Some ?p'"
    using conds cur q(1) count
    by (simp add: epoch_proposer_receive_promise_depth.simps(2) Let_def with_epoch_def [symmetric])
  then obtain code msg where one: "epoch_proposer_receive_promise_depth (Suc 0) cfg now ?m ack = Some (?p', code, msg)"
    by auto
  have "epoch_proposer_receive_promise cfg now p ack = Some (?p', EPOCH_PREEMPTED, Some (WRITEAHEAD_EPOCH_BALLOT_PREPARE
      \<lparr>ebp_instance = ebpr_instance ack, ebp_epoch_ballot_requested = ebpr_promised_epoch_ballot ack\<rparr>))"
    using promise_depth_other [OF assms(2,4,6), of "Suc 0"] one
    by (simp add: epoch_proposer_receive_promise_def numeral_2_eq_2)
  moreover have "epoch_proposer_get_instance_info_in_phase (ep_prepare_infos ?p') (ebpr_instance ack) = Some ?y" by simp
  moreover have "epoch_proposer_instance_info_get_current_epoch_ballot ?y = ebpr_promised_epoch_ballot ack"
    using assms(5) by (cases "ebpr_promised_epoch_ballot ack")
      (simp add: epoch_proposer_instance_info_get_current_epoch_ballot_def with_epoch_def moved_to_epoch_def)
  moreover have "quorum_votes (epi_quorum ?y) = {sint (ebpr_acceptor_id ack)}" using q(2) by simp
  moreover have "epoch_proposer_receive_promise_depth (n + 2) cfg now p ack = epoch_proposer_receive_promise cfg now p ack" for n
    by (simp only: epoch_proposer_receive_promise_def add_2_eq_Suc' promise_depth_two)
  ultimately show ?thesis by blast
qed

theorem epoch_promise_restarts_instance_witness:
  "\<exists>p'. epoch_proposer_receive_promise sample_config \<lparr>tv_sec = 6, tv_usec = 0\<rparr>
      (fst (epoch_proposer_try_to_start_preparing_instance \<lparr>tv_sec = 5, tv_usec = 0\<rparr> sample_epoch_proposer 1
        (Epoch_Ballot 1 (Ballot 3 1))))
      (sample_promise 2 (Epoch_Ballot 4 (Ballot 3 1)) INVALID_EPOCH_BALLOT [])
    = Some (p', EPOCH_PREEMPTED, Some (WRITEAHEAD_EPOCH_BALLOT_PREPARE
        \<lparr>ebp_instance = 1, ebp_epoch_ballot_requested = Epoch_Ballot 4 (Ballot 3 1)\<rparr>))"
proof -
  let ?p = "fst (epoch_proposer_try_to_start_preparing_instance \<lparr>tv_sec = 5, tv_usec = 0\<rparr> sample_epoch_proposer 1
        (Epoch_Ballot 1 (Ballot 3 1)))"
  let ?x = "epoch_proposer_instance_info_new \<lparr>tv_sec = 5, tv_usec = 0\<rparr> 1 (Epoch_Ballot 1 (Ballot 3 1)) 3 2"
  let ?ack = "sample_promise 2 (Epoch_Ballot 4 (Ballot 3 1)) INVALID_EPOCH_BALLOT []"
  have wf: "epoch_proposer_wf ?p" using epoch_start_preparing_keeps [OF sample_epoch_proposer_wf] by blast
  have "epoch_proposer_get_instance_info_in_phase (ep_prepare_infos ?p) (ebpr_instance ?ack) = Some ?x" by code_simp
  moreover have "\<not> promise_dropped ?p ?ack" by code_simp
  moreover have "pci_ballot (epi_common_info ?x) = eb_ballot (ebpr_promised_epoch_ballot ?ack)"
    "\<not> is_current_epoch_ballot ?ack ?x" "2 \<le> cfg_quorum_2 sample_config" "sint (ebpr_acceptor_id ?ack) < ep_acceptors ?p" "0 \<le> sint (ebpr_acceptor_id ?ack)" by code_simp+
  ultimately show ?thesis
    using epoch_promise_restarts_instance [OF wf, of ?ack sample_config ?x "\<lparr>tv_sec = 6, tv_usec = 0\<rparr>"] by auto
qed

end
