(* ===== verification/Msgpack.thy ===== *)
theory Msgpack
  imports Paxos_Types "HOL-Library.Sublist"
begin

text \<open>
  The msgpack library, through which messages are written to and read from the network.  It is not part
  of the repository: the functions the sources call are the record \<open>msgpack\<close>, an argument of every
  definition that packs or unpacks, and \<open>msgpack_library\<close> states what its documentation promises.  The
  contract is interpreted on the msgpack format itself, restricted to the kinds of objects that the
  sources pack: arrays of integers and byte strings.
\<close>

section \<open>The interface\<close>

text \<open>
  An integer is kept in the 64 bits of the union \<open>via\<close>, where \<open>u64\<close> and \<open>i64\<close> share their place.
  \<open>mp_unpack_next\<close> returns the result of \<open>msgpack_unpack_next\<close>, the object and the new offset.
\<close>

datatype msgpack_object =
    POSITIVE_INTEGER "64 word"
  | NEGATIVE_INTEGER "64 word"
  | BIN "byte list"
  | ARRAY "msgpack_object list"

record msgpack =
  mp_pack_array :: "nat \<Rightarrow> byte list"
  mp_pack_int32 :: "u32 \<Rightarrow> byte list"
  mp_pack_uint32 :: "u32 \<Rightarrow> byte list"
  mp_pack_bin :: "nat \<Rightarrow> byte list"
  mp_pack_bin_body :: "byte list \<Rightarrow> byte list"
  mp_unpack_next :: "byte list \<Rightarrow> int \<times> msgpack_object \<times> nat"

definition MSGPACK_UNPACK_SUCCESS :: int where "MSGPACK_UNPACK_SUCCESS = 2"

definition MSGPACK_UNPACK_CONTINUE :: int where "MSGPACK_UNPACK_CONTINUE = 0"

definition MSGPACK_UNPACK_PARSE_ERROR :: int where "MSGPACK_UNPACK_PARSE_ERROR = - 1"

text \<open>The object as which an \<open>int32_t\<close> is read.\<close>

definition int32_object :: "u32 \<Rightarrow> msgpack_object" where
  "int32_object w = (if sint w < 0 then NEGATIVE_INTEGER (scast w) else POSITIVE_INTEGER (ucast w))"

text \<open>What one call packs, or the two calls for a byte string, and the object as which it is read.\<close>

inductive packs :: "msgpack \<Rightarrow> byte list \<Rightarrow> msgpack_object \<Rightarrow> bool" for m where
  uint32: "packs m (mp_pack_uint32 m w) (POSITIVE_INTEGER (ucast w))"
| int32: "packs m (mp_pack_int32 m w) (int32_object w)"
| bin: "length bs < 2 ^ 32 \<Longrightarrow> packs m (mp_pack_bin m (length bs) @ mp_pack_bin_body m bs) (BIN bs)"

definition packed_array :: "msgpack \<Rightarrow> byte list list \<Rightarrow> byte list" where
  "packed_array m bss = mp_pack_array m (length bss) @ concat bss"

locale msgpack_library =
  fixes m :: msgpack
  assumes unpack_packed: "list_all2 (packs m) bss objs \<Longrightarrow> length bss < 2 ^ 32 \<Longrightarrow>
      mp_unpack_next m (packed_array m bss @ rest) = (MSGPACK_UNPACK_SUCCESS, ARRAY objs, length (packed_array m bss))"
    and unpack_partial: "list_all2 (packs m) bss objs \<Longrightarrow> length bss < 2 ^ 32 \<Longrightarrow>
      strict_prefix bs (packed_array m bss) \<Longrightarrow> fst (mp_unpack_next m bs) = MSGPACK_UNPACK_CONTINUE"
    and header_not_empty: "mp_pack_array m n \<noteq> []"

section \<open>The format\<close>

text \<open>Numbers in network byte order.\<close>

fun be_bytes :: "nat \<Rightarrow> nat \<Rightarrow> byte list" where
  "be_bytes 0 n = []"
| "be_bytes (Suc k) n = be_bytes k (n div 256) @ [of_nat (n mod 256)]"

definition be_nat :: "byte list \<Rightarrow> nat" where
  "be_nat bs = fold (\<lambda>b n. n * 256 + unat b) bs 0"

lemma length_be_bytes [simp]: "length (be_bytes k n) = k"
  by (induction k arbitrary: n) auto

lemma unat_of_nat_byte [simp]: "unat (of_nat (n mod 256) :: byte) = n mod 256"
  by (simp add: unat_of_nat)

lemma be_nat_be_bytes: "be_nat (be_bytes k n) = n mod 256 ^ k"
proof (induction k arbitrary: n)
  case 0
  then show ?case by (simp add: be_nat_def)
next
  case (Suc k)
  have "be_nat (be_bytes (Suc k) n) = (n div 256) mod 256 ^ k * 256 + n mod 256"
    using Suc.IH [of "n div 256"] by (simp add: be_nat_def)
  also have "\<dots> = n mod 256 ^ Suc k" by (simp add: mod_mult2_eq)
  finally show ?case .
qed

text \<open>The result of parsing the beginning of a buffer.\<close>

datatype 'a parsed = Parsed 'a "byte list" | Need_More | Malformed

definition parse_number :: "nat \<Rightarrow> byte list \<Rightarrow> nat parsed" where
  "parse_number k bs = (if length bs < k then Need_More else Parsed (be_nat (take k bs)) (drop k bs))"

definition parse_body :: "nat \<Rightarrow> byte list \<Rightarrow> byte list parsed" where
  "parse_body k bs = (if length bs < k then Need_More else Parsed (take k bs) (drop k bs))"

fun and_then :: "'a parsed \<Rightarrow> ('a \<Rightarrow> byte list \<Rightarrow> 'b parsed) \<Rightarrow> 'b parsed" where
  "and_then (Parsed x rest) f = f x rest"
| "and_then Need_More f = Need_More"
| "and_then Malformed f = Malformed"

text \<open>Prefixes of the kinds: \<open>0xc4\<close> to \<open>0xc6\<close> byte strings, \<open>0xcc\<close> to \<open>0xce\<close> unsigned, \<open>0xd0\<close> to \<open>0xd2\<close> signed numbers.\<close>

definition parse_signed :: "nat \<Rightarrow> byte list \<Rightarrow> msgpack_object parsed" where
  "parse_signed k bs = and_then (parse_number k bs) (\<lambda>n rest. Parsed
     (if n < 2 ^ (8 * k - 1) then POSITIVE_INTEGER (of_nat n) else NEGATIVE_INTEGER (of_int (int n - 2 ^ (8 * k)))) rest)"

definition parse_unsigned :: "nat \<Rightarrow> byte list \<Rightarrow> msgpack_object parsed" where
  "parse_unsigned k bs = and_then (parse_number k bs) (\<lambda>n rest. Parsed (POSITIVE_INTEGER (of_nat n)) rest)"

definition parse_bin :: "nat \<Rightarrow> byte list \<Rightarrow> msgpack_object parsed" where
  "parse_bin k bs = and_then (parse_number k bs) (\<lambda>n rest.
     and_then (parse_body n rest) (\<lambda>body rest. Parsed (BIN body) rest))"

definition parse_item :: "byte list \<Rightarrow> msgpack_object parsed" where
  "parse_item bs = (case bs of
       [] \<Rightarrow> Need_More
     | b # bs \<Rightarrow>
         if b < 0x80 then Parsed (POSITIVE_INTEGER (ucast b)) bs
         else if b \<ge> 0xe0 then Parsed (NEGATIVE_INTEGER (scast b)) bs
         else if b = 0xc4 then parse_bin 1 bs
         else if b = 0xc5 then parse_bin 2 bs
         else if b = 0xc6 then parse_bin 4 bs
         else if b = 0xcc then parse_unsigned 1 bs
         else if b = 0xcd then parse_unsigned 2 bs
         else if b = 0xce then parse_unsigned 4 bs
         else if b = 0xd0 then parse_signed 1 bs
         else if b = 0xd1 then parse_signed 2 bs
         else if b = 0xd2 then parse_signed 4 bs
         else Malformed)"

fun parse_items :: "nat \<Rightarrow> byte list \<Rightarrow> msgpack_object list parsed" where
  "parse_items 0 bs = Parsed [] bs"
| "parse_items (Suc n) bs =
     and_then (parse_item bs) (\<lambda>x bs. and_then (parse_items n bs) (\<lambda>xs bs. Parsed (x # xs) bs))"

definition parse_array :: "byte list \<Rightarrow> msgpack_object list parsed" where
  "parse_array bs = (case bs of
       [] \<Rightarrow> Need_More
     | b # bs \<Rightarrow>
         if 0x90 \<le> b \<and> b < 0xa0 then parse_items (unat (b - 0x90)) bs
         else if b = 0xdc then and_then (parse_number 2 bs) parse_items
         else if b = 0xdd then and_then (parse_number 4 bs) parse_items
         else Malformed)"

definition pack_unsigned :: "u32 \<Rightarrow> byte list" where
  "pack_unsigned w =
     (if w < 0x80 then [ucast w]
      else if w < 0x100 then 0xcc # be_bytes 1 (unat w)
      else if w < 0x10000 then 0xcd # be_bytes 2 (unat w)
      else 0xce # be_bytes 4 (unat w))"

definition msgpack_format :: msgpack where
  "msgpack_format = \<lparr>
     mp_pack_array = (\<lambda>n. if n < 16 then [0x90 + of_nat n]
        else if n < 65536 then 0xdc # be_bytes 2 n else 0xdd # be_bytes 4 n),
     mp_pack_int32 = (\<lambda>w. if sint w \<ge> 0 then pack_unsigned w
        else if sint w \<ge> - 32 then [ucast w]
        else if sint w \<ge> - 128 then 0xd0 # be_bytes 1 (unat w)
        else if sint w \<ge> - 32768 then 0xd1 # be_bytes 2 (unat w)
        else 0xd2 # be_bytes 4 (unat w)),
     mp_pack_uint32 = pack_unsigned,
     mp_pack_bin = (\<lambda>n. if n < 256 then 0xc4 # be_bytes 1 n
        else if n < 65536 then 0xc5 # be_bytes 2 n else 0xc6 # be_bytes 4 n),
     mp_pack_bin_body = (\<lambda>bs. bs),
     mp_unpack_next = (\<lambda>bs. case parse_array bs of
        Parsed objs rest \<Rightarrow> (MSGPACK_UNPACK_SUCCESS, ARRAY objs, length bs - length rest)
      | Need_More \<Rightarrow> (MSGPACK_UNPACK_CONTINUE, ARRAY [], 0)
      | Malformed \<Rightarrow> (MSGPACK_UNPACK_PARSE_ERROR, ARRAY [], 0))\<rparr>"

section \<open>The format meets the contract\<close>

text \<open>A parser recognises \<open>bs\<close> as \<open>x\<close>: with anything after it, and not before it is complete.\<close>

definition recognises :: "(byte list \<Rightarrow> 'a parsed) \<Rightarrow> byte list \<Rightarrow> 'a \<Rightarrow> bool" where
  "recognises P bs x \<longleftrightarrow> (\<forall>rest. P (bs @ rest) = Parsed x rest) \<and> (\<forall>p. strict_prefix p bs \<longrightarrow> P p = Need_More)"

lemma recognises_number: "length bs = k \<Longrightarrow> recognises (parse_number k) bs (be_nat bs)"
  by (auto simp: recognises_def parse_number_def strict_prefix_def prefix_def)

lemma recognises_bytes: "recognises (parse_body (length bs)) bs bs"
  by (auto simp: recognises_def parse_body_def strict_prefix_def prefix_def)

lemma recognises_and_then:
  assumes "recognises P as x" "recognises (f x) bs y"
  shows "recognises (\<lambda>zs. and_then (P zs) f) (as @ bs) y"
proof -
  have "and_then (P p) f = Need_More" if p: "strict_prefix p (as @ bs)" for p
  proof (cases "strict_prefix p as")
    case True
    then show ?thesis using assms(1) by (simp add: recognises_def)
  next
    case False
    with p obtain q where q: "p = as @ q" "prefix q bs"
      by (auto simp: strict_prefix_def prefix_append)
    with p have "strict_prefix q bs" by (auto simp: strict_prefix_def)
    with q show ?thesis using assms by (simp add: recognises_def)
  qed
  then show ?thesis using assms by (simp add: recognises_def)
qed

lemma recognises_map: "recognises P bs x \<Longrightarrow> recognises (\<lambda>zs. and_then (P zs) (\<lambda>x rest. Parsed (f x) rest)) bs (f x)"
  by (simp add: recognises_def)

lemma recognises_Cons:
  assumes "recognises P bs x" "\<And>zs. Q (b # zs) = P zs" "Q [] = Need_More"
  shows "recognises Q (b # bs) x"
proof -
  have "Q p = Need_More" if "strict_prefix p (b # bs)" for p
    using that assms by (cases p) (auto simp: recognises_def)
  then show ?thesis using assms by (simp add: recognises_def)
qed


text \<open>Numbers that fit into \<open>k\<close> bytes.\<close>

lemma recognises_be: "recognises (parse_number k) (be_bytes k n) (n mod 256 ^ k)"
  using recognises_number [of "be_bytes k n" k] by (simp add: be_nat_be_bytes)

lemma recognises_unsigned:
  "n < 256 ^ k \<Longrightarrow> recognises (parse_unsigned k) (be_bytes k n) (POSITIVE_INTEGER (of_nat n))"
  using recognises_map [OF recognises_be [of k n], of "\<lambda>n. POSITIVE_INTEGER (of_nat n)"]
  by (simp add: parse_unsigned_def [abs_def])

lemma recognises_bin:
  assumes "length bs < 256 ^ k"
  shows "recognises (parse_bin k) (be_bytes k (length bs) @ bs) (BIN bs)"
proof -
  have "recognises (parse_number k) (be_bytes k (length bs)) (length bs)"
    using recognises_be [of k "length bs"] assms by simp
  moreover have "recognises (\<lambda>rest. and_then (parse_body (length bs) rest) (\<lambda>body rest. Parsed (BIN body) rest)) bs (BIN bs)"
    by (rule recognises_map [OF recognises_bytes])
  ultimately show ?thesis
    using recognises_and_then [of "parse_number k" "be_bytes k (length bs)" "length bs"
        "\<lambda>n rest. and_then (parse_body n rest) (\<lambda>body rest. Parsed (BIN body) rest)" bs "BIN bs"]
    by (simp add: parse_bin_def [abs_def])
qed

text \<open>A negative number in two's complement, as an unsigned number of \<open>k\<close> bytes.\<close>

lemma negative_low_bytes:
  assumes "sint (w :: u32) < 0" "- (256 ^ k) \<le> sint w" "k \<le> 4"
  shows "int (unat w mod 256 ^ k) = sint w + 256 ^ k"
proof -
  have bound: "- (2 ^ 31) \<le> sint w" using sint_greater_eq [of w] by simp
  have "uint w = sint w mod 2 ^ 32" using uint_sint [of w] by (simp add: take_bit_eq_mod)
  also have "\<dots> = (sint w + 2 ^ 32) mod 2 ^ 32" by simp
  also have "\<dots> = sint w + 2 ^ 32" using assms(1) bound by (intro mod_pos_pos_trivial) auto
  finally have u: "uint w = sint w + 2 ^ 32" .
  have "(2 :: int) ^ 32 = 256 ^ (4 - k) * 256 ^ k" using assms(3) by (simp flip: power_add)
  then have "uint w mod 256 ^ k = sint w mod 256 ^ k" unfolding u by (simp only: mod_mult_self1)
  also have "\<dots> = (sint w + 256 ^ k) mod 256 ^ k" by simp
  also have "\<dots> = sint w + 256 ^ k" using assms(1,2) by (intro mod_pos_pos_trivial) auto
  finally show ?thesis by (simp add: zmod_int)
qed

lemma recognises_signed:
  assumes "sint (w :: u32) < 0" "- (2 ^ (8 * k - 1)) \<le> sint w" "0 < k" "k \<le> 4"
  shows "recognises (parse_signed k) (be_bytes k (unat w)) (NEGATIVE_INTEGER (scast w))"
proof -
  let ?f = "\<lambda>n. if n < 2 ^ (8 * k - 1) then POSITIVE_INTEGER (of_nat n) else NEGATIVE_INTEGER (of_int (int n - 2 ^ (8 * k)))"
  have pow: "(256 :: int) ^ k = 2 ^ (8 * k)" by (simp add: power_mult)
  have half: "(2 :: int) ^ (8 * k) = 2 * 2 ^ (8 * k - 1)" using assms(3) by (simp flip: power_Suc)
  have n: "int (unat w mod 256 ^ k) = sint w + 2 ^ (8 * k)"
    using negative_low_bytes [of w k] assms half pow by simp
  have "(2 :: int) ^ (8 * k - 1) \<le> int (unat w mod 256 ^ k)" using assms(2) half unfolding n by linarith
  then have "2 ^ (8 * k - 1) \<le> unat w mod 256 ^ k" by (metis of_nat_le_iff of_nat_numeral of_nat_power)
  then have "?f (unat w mod 256 ^ k) = NEGATIVE_INTEGER (of_int (sint w))" by (simp add: n)
  moreover have "of_int (sint w) = (scast w :: 64 word)" by simp
  ultimately show ?thesis
    using recognises_map [OF recognises_be [of k "unat w"], of ?f] by (simp add: parse_signed_def [abs_def])
qed

text \<open>Every kind of item.\<close>

lemma parse_item_kinds:
  "parse_item [] = Need_More"
  "parse_item (0xc4 # bs) = parse_bin 1 bs" "parse_item (0xc5 # bs) = parse_bin 2 bs" "parse_item (0xc6 # bs) = parse_bin 4 bs"
  "parse_item (0xcc # bs) = parse_unsigned 1 bs" "parse_item (0xcd # bs) = parse_unsigned 2 bs"
  "parse_item (0xce # bs) = parse_unsigned 4 bs"
  "parse_item (0xd0 # bs) = parse_signed 1 bs" "parse_item (0xd1 # bs) = parse_signed 2 bs"
  "parse_item (0xd2 # bs) = parse_signed 4 bs"
  by (simp_all add: parse_item_def)

lemma recognises_one: "Q [] = Need_More \<Longrightarrow> (\<And>zs. Q (b # zs) = Parsed x zs) \<Longrightarrow> recognises Q [b] x"
  by (auto simp: recognises_def strict_prefix_def prefix_Cons)

lemmas recognises_kind = recognises_Cons [where Q = parse_item, OF _ _ parse_item_kinds(1)]

lemma u32_less_unat: "(w :: u32) < numeral n \<longleftrightarrow> unat w < unat (numeral n :: u32)"
  by (simp add: word_less_nat_alt)

lemma recognises_pack_unsigned: "recognises parse_item (pack_unsigned w) (POSITIVE_INTEGER (ucast w))"
proof -
  have u: "of_nat (unat w) = (ucast w :: 64 word)" by simp
  have small: "recognises parse_item [ucast w] (POSITIVE_INTEGER (ucast w))" if "w < 0x80"
  proof (rule recognises_one)
    fix zs
    have b: "unat (ucast w :: byte) = unat w"
      using that by (simp add: word_less_nat_alt unsigned_ucast_eq take_bit_eq_mod)
    then have "(ucast w :: byte) < 0x80" using that by (simp add: word_less_nat_alt)
    moreover have "(ucast (ucast w :: byte) :: 64 word) = ucast w"
      using b of_nat_unat [of "ucast w :: byte"] u by metis
    ultimately show "parse_item (ucast w # zs) = Parsed (POSITIVE_INTEGER (ucast w)) zs" by (simp add: parse_item_def)
  qed (simp add: parse_item_kinds)
  have "unat w < 256 ^ 4" using unat_u32_lt [of w] by simp
  with recognises_unsigned [of "unat w" 1] recognises_unsigned [of "unat w" 2] recognises_unsigned [of "unat w" 4] small
  show ?thesis
    by (auto simp: pack_unsigned_def u parse_item_kinds word_less_nat_alt intro!: recognises_kind)
qed

lemma recognises_int32: "recognises parse_item (mp_pack_int32 msgpack_format w) (int32_object w)"
proof (cases "sint w < 0")
  case False
  then show ?thesis using recognises_pack_unsigned by (simp add: msgpack_format_def int32_object_def)
next
  case True
  have one: "recognises parse_item [ucast w] (NEGATIVE_INTEGER (scast w))" if "- 32 \<le> sint w"
  proof (rule recognises_one)
    fix zs
    let ?b = "ucast w :: byte"
    have "int (unat ?b) = sint w + 256"
      using negative_low_bytes [OF True, of 1] that by (simp add: unsigned_ucast_eq take_bit_eq_mod)
    then have "224 \<le> unat ?b" using that by linarith
    then have ge: "0xe0 \<le> ?b" "\<not> ?b < 0x80" by (simp_all add: word_le_nat_alt word_less_nat_alt)
    have "sint ?b = sint w"
    proof -
      have r: "- 128 \<le> sint ?b" "sint ?b < 128" using sint_greater_eq [of ?b] sint_less [of ?b] by simp_all
      have u: "uint ?b = sint ?b mod 256" using uint_sint [of ?b] by (simp add: take_bit_eq_mod)
      have "sint ?b < 0"
      proof (rule ccontr)
        assume "\<not> sint ?b < 0"
        with r u have "int (unat ?b) < 128" by simp
        with \<open>224 \<le> unat ?b\<close> show False by linarith
      qed
      then have "(sint ?b + 256) mod 256 = sint ?b + 256" using r by (intro mod_pos_pos_trivial) auto
      then have "uint ?b = sint ?b + 256" using u by simp
      with \<open>int (unat ?b) = sint w + 256\<close> show ?thesis by simp
    qed
    then have "(scast ?b :: 64 word) = scast w" by (metis of_int_sint)
    then show "parse_item (?b # zs) = Parsed (NEGATIVE_INTEGER (scast w)) zs" using ge by (simp add: parse_item_def)
  qed (simp add: parse_item_kinds)
  have "- (2 ^ 31) \<le> sint w" using sint_greater_eq [of w] by simp
  with recognises_signed [OF True, of 1] recognises_signed [OF True, of 2] recognises_signed [OF True, of 4] one True
  show ?thesis
    by (auto simp: msgpack_format_def int32_object_def parse_item_kinds intro!: recognises_kind)
qed

lemma packs_recognised: "packs msgpack_format bs x \<Longrightarrow> recognises parse_item bs x"
proof (induction rule: packs.induct)
  case (uint32 w)
  then show ?case using recognises_pack_unsigned by (simp add: msgpack_format_def)
next
  case (int32 w)
  then show ?case by (rule recognises_int32)
next
  case (bin bs)
  with recognises_bin [of bs 1] recognises_bin [of bs 2] recognises_bin [of bs 4]
  show ?case by (auto simp: msgpack_format_def parse_item_kinds intro!: recognises_kind)
qed

lemma recognises_items:
  "list_all2 (packs msgpack_format) bss objs \<Longrightarrow> recognises (parse_items (length bss)) (concat bss) objs"
proof (induction rule: list_all2_induct)
  case Nil
  then show ?case by (simp add: recognises_def)
next
  case (Cons bs bss x objs)
  have "recognises (\<lambda>zs. and_then (parse_items (length bss) zs) (\<lambda>xs zs. Parsed (x # xs) zs)) (concat bss) (x # objs)"
    by (rule recognises_map [OF Cons.IH])
  with recognises_and_then [OF packs_recognised [OF Cons.hyps(1)],
      of "\<lambda>x bs. and_then (parse_items (length bss) bs) (\<lambda>xs bs. Parsed (x # xs) bs)" "concat bss" "x # objs"]
  show ?case by simp
qed

lemma recognises_array:
  assumes "list_all2 (packs msgpack_format) bss objs" "length bss < 2 ^ 32"
  shows "recognises parse_array (packed_array msgpack_format bss) objs"
proof -
  let ?n = "length bss"
  note items = recognises_items [OF assms(1)]
  have long: "recognises (\<lambda>bs. and_then (parse_number k bs) parse_items) (be_bytes k ?n @ concat bss) objs" if "?n < 256 ^ k" for k
    using recognises_and_then [OF recognises_be [of k ?n], of parse_items] items that by simp
  consider "?n < 16" | "16 \<le> ?n" "?n < 65536" | "65536 \<le> ?n" by linarith
  then show ?thesis
  proof cases
    case 1
    have "unat (0x90 + of_nat ?n :: byte) = 144 + ?n" using 1 by (simp add: unat_word_ariths unat_of_nat)
    then have b: "0x90 \<le> (0x90 + of_nat ?n :: byte)" "(0x90 + of_nat ?n :: byte) < 0xa0" "unat (of_nat ?n :: byte) = ?n"
      using 1 by (simp_all add: word_le_nat_alt word_less_nat_alt unat_of_nat)
    then show ?thesis using 1
      by (auto simp: packed_array_def msgpack_format_def parse_array_def intro!: recognises_Cons [OF items])
  next
    case 2
    with long [of 2] show ?thesis
      by (auto simp: packed_array_def msgpack_format_def parse_array_def intro!: recognises_Cons)
  next
    case 3
    with long [of 4] assms(2) show ?thesis
      by (auto simp: packed_array_def msgpack_format_def parse_array_def intro!: recognises_Cons)
  qed
qed

interpretation fmt: msgpack_library msgpack_format
proof
  fix bss objs rest
  assume p: "list_all2 (packs msgpack_format) bss objs" "length bss < 2 ^ 32"
  note r = recognises_array [OF p]
  then show "mp_unpack_next msgpack_format (packed_array msgpack_format bss @ rest)
      = (MSGPACK_UNPACK_SUCCESS, ARRAY objs, length (packed_array msgpack_format bss))"
    by (simp add: recognises_def) (simp add: msgpack_format_def)
  fix bs
  assume "strict_prefix bs (packed_array msgpack_format bss)"
  with r show "fst (mp_unpack_next msgpack_format bs) = MSGPACK_UNPACK_CONTINUE"
    by (simp add: recognises_def) (simp add: msgpack_format_def)
qed (simp add: msgpack_format_def)

end
