(* ===== verification/Wire_Format.thy ===== *)
theory Wire_Format
  imports Msgpack
begin

text \<open>
  \<open>src/evpaxos/paxos_types_pack.c\<close>: how messages are packed into and unpacked from msgpack objects.  A
  message is an array whose first element is its type.  The unpacking functions read the union member
  they expect without looking at the kind of the object; \<open>None\<close> stands for a read outside of the array, of
  the wrong member, or of a byte string whose length does not fit into an \<open>int\<close>.
\<close>

section \<open>Elements\<close>

definition object_at :: "msgpack_object \<Rightarrow> nat \<Rightarrow> msgpack_object option" where
  "object_at obj i = (case obj of ARRAY xs \<Rightarrow> if i < length xs then Some (xs ! i) else None | _ \<Rightarrow> None)"

definition u64_at :: "msgpack_object \<Rightarrow> nat \<Rightarrow> 64 word option" where
  "u64_at obj i = (case object_at obj i of
       Some (POSITIVE_INTEGER w) \<Rightarrow> Some w
     | Some (NEGATIVE_INTEGER w) \<Rightarrow> Some w
     | _ \<Rightarrow> None)"

definition msgpack_pack_string :: "msgpack \<Rightarrow> byte list \<Rightarrow> byte list" where
  "msgpack_pack_string m buffer = mp_pack_bin m (length buffer) @ mp_pack_bin_body m buffer"

text \<open>The functions named \<open>..._at\<close> advance the index behind their pointer argument; they return it.\<close>

definition msgpack_unpack_uint32_at :: "msgpack_object \<Rightarrow> nat \<Rightarrow> (u32 \<times> nat) option" where
  "msgpack_unpack_uint32_at obj i = map_option (\<lambda>w. (ucast w, i + 1)) (u64_at obj i)"

definition msgpack_unpack_string_at :: "msgpack_object \<Rightarrow> nat \<Rightarrow> (byte list \<times> nat) option" where
  "msgpack_unpack_string_at obj i = (case object_at obj i of
       Some (BIN bs) \<Rightarrow> if length bs < 2 ^ 31 then Some (bs, i + 1) else None
     | _ \<Rightarrow> None)"

definition msgpack_unpack_ballot :: "msgpack_object \<Rightarrow> nat \<Rightarrow> (ballot \<times> nat) option" where
  "msgpack_unpack_ballot obj i = do {
     (number, i) \<leftarrow> msgpack_unpack_uint32_at obj i;
     (proposer, i) \<leftarrow> msgpack_unpack_uint32_at obj i;
     Some (Ballot number proposer, i) }"

definition msgpack_pack_ballot :: "msgpack \<Rightarrow> ballot \<Rightarrow> byte list" where
  "msgpack_pack_ballot m b = mp_pack_uint32 m (ballot_number b) @ mp_pack_uint32 m (ballot_proposer_id b)"

definition msgpack_pack_paxos_value :: "msgpack \<Rightarrow> paxos_value \<Rightarrow> byte list" where
  "msgpack_pack_paxos_value m v = msgpack_pack_string m v"

definition msgpack_unpack_paxos_value_at :: "msgpack_object \<Rightarrow> nat \<Rightarrow> (paxos_value \<times> nat) option" where
  "msgpack_unpack_paxos_value_at obj i = msgpack_unpack_string_at obj i"

definition msgpack_pack_epoch_ballot :: "msgpack \<Rightarrow> epoch_ballot \<Rightarrow> byte list" where
  "msgpack_pack_epoch_ballot m eb = mp_pack_uint32 m (eb_epoch eb) @ msgpack_pack_ballot m (eb_ballot eb)"

definition msgpack_unpack_epoch_ballot :: "msgpack_object \<Rightarrow> nat \<Rightarrow> (epoch_ballot \<times> nat) option" where
  "msgpack_unpack_epoch_ballot obj i = do {
     (epoch, i) \<leftarrow> msgpack_unpack_uint32_at obj i;
     (b, i) \<leftarrow> msgpack_unpack_ballot obj i;
     Some (Epoch_Ballot epoch b, i) }"

section \<open>Messages of standard Paxos\<close>

text \<open>The number of a type is its position in \<open>enum paxos_message_type\<close>.\<close>

definition msgpack_pack_paxos_prepare :: "msgpack \<Rightarrow> paxos_prepare \<Rightarrow> byte list" where
  "msgpack_pack_paxos_prepare m v =
     mp_pack_array m 4 @ mp_pack_int32 m 0 @ mp_pack_uint32 m (prep_iid v) @
     msgpack_pack_ballot m (prep_ballot v)"

definition msgpack_unpack_paxos_prepare :: "msgpack_object \<Rightarrow> paxos_prepare option" where
  "msgpack_unpack_paxos_prepare obj = do {
     (x0, i) \<leftarrow> msgpack_unpack_uint32_at obj 1;
     (x1, _) \<leftarrow> msgpack_unpack_ballot obj i;
     Some \<lparr>prep_iid = x0, prep_ballot = x1\<rparr> }"

definition msgpack_pack_paxos_promise :: "msgpack \<Rightarrow> paxos_promise \<Rightarrow> byte list" where
  "msgpack_pack_paxos_promise m v =
     mp_pack_array m 8 @ mp_pack_int32 m 1 @ mp_pack_uint32 m (prom_aid v) @ mp_pack_uint32 m (prom_iid v) @
     msgpack_pack_ballot m (prom_ballot v) @ msgpack_pack_ballot m (prom_value_ballot v) @
     msgpack_pack_paxos_value m (prom_value v)"

definition msgpack_unpack_paxos_promise :: "msgpack_object \<Rightarrow> paxos_promise option" where
  "msgpack_unpack_paxos_promise obj = do {
     (x0, i) \<leftarrow> msgpack_unpack_uint32_at obj 1;
     (x1, i) \<leftarrow> msgpack_unpack_uint32_at obj i;
     (x2, i) \<leftarrow> msgpack_unpack_ballot obj i;
     (x3, i) \<leftarrow> msgpack_unpack_ballot obj i;
     (x4, _) \<leftarrow> msgpack_unpack_paxos_value_at obj i;
     Some \<lparr>prom_aid = x0, prom_iid = x1, prom_ballot = x2, prom_value_ballot = x3, prom_value = x4\<rparr> }"

definition msgpack_pack_paxos_accept :: "msgpack \<Rightarrow> paxos_accept \<Rightarrow> byte list" where
  "msgpack_pack_paxos_accept m v =
     mp_pack_array m 5 @ mp_pack_int32 m 2 @ mp_pack_uint32 m (acc_iid v) @
     msgpack_pack_ballot m (acc_ballot v) @ msgpack_pack_paxos_value m (acc_value v)"

definition msgpack_unpack_paxos_accept :: "msgpack_object \<Rightarrow> paxos_accept option" where
  "msgpack_unpack_paxos_accept obj = do {
     (x0, i) \<leftarrow> msgpack_unpack_uint32_at obj 1;
     (x1, i) \<leftarrow> msgpack_unpack_ballot obj i;
     (x2, _) \<leftarrow> msgpack_unpack_paxos_value_at obj i;
     Some \<lparr>acc_iid = x0, acc_ballot = x1, acc_value = x2\<rparr> }"

definition msgpack_pack_paxos_accepted :: "msgpack \<Rightarrow> paxos_accepted \<Rightarrow> byte list" where
  "msgpack_pack_paxos_accepted m v =
     mp_pack_array m 8 @ mp_pack_int32 m 3 @ mp_pack_uint32 m (accd_aid v) @ mp_pack_uint32 m (accd_iid v) @
     msgpack_pack_ballot m (accd_promise_ballot v) @ msgpack_pack_ballot m (accd_value_ballot v) @
     msgpack_pack_paxos_value m (accd_value v)"

definition msgpack_unpack_paxos_accepted :: "msgpack_object \<Rightarrow> paxos_accepted option" where
  "msgpack_unpack_paxos_accepted obj = do {
     (x0, i) \<leftarrow> msgpack_unpack_uint32_at obj 1;
     (x1, i) \<leftarrow> msgpack_unpack_uint32_at obj i;
     (x2, i) \<leftarrow> msgpack_unpack_ballot obj i;
     (x3, i) \<leftarrow> msgpack_unpack_ballot obj i;
     (x4, _) \<leftarrow> msgpack_unpack_paxos_value_at obj i;
     Some \<lparr>accd_aid = x0, accd_iid = x1, accd_promise_ballot = x2, accd_value_ballot = x3, accd_value = x4\<rparr> }"

definition msgpack_pack_paxos_preempted :: "msgpack \<Rightarrow> paxos_preempted \<Rightarrow> byte list" where
  "msgpack_pack_paxos_preempted m v =
     mp_pack_array m 7 @ mp_pack_int32 m 5 @ mp_pack_uint32 m (pre_aid v) @ mp_pack_uint32 m (pre_iid v) @
     msgpack_pack_ballot m (pre_attempted_ballot v) @ msgpack_pack_ballot m (pre_acceptor_current_ballot v)"

definition msgpack_unpack_paxos_preempted :: "msgpack_object \<Rightarrow> paxos_preempted option" where
  "msgpack_unpack_paxos_preempted obj = do {
     (x0, i) \<leftarrow> msgpack_unpack_uint32_at obj 1;
     (x1, i) \<leftarrow> msgpack_unpack_uint32_at obj i;
     (x2, i) \<leftarrow> msgpack_unpack_ballot obj i;
     (x3, _) \<leftarrow> msgpack_unpack_ballot obj i;
     Some \<lparr>pre_aid = x0, pre_iid = x1, pre_attempted_ballot = x2, pre_acceptor_current_ballot = x3\<rparr> }"

definition msgpack_pack_paxos_repeat :: "msgpack \<Rightarrow> paxos_repeat \<Rightarrow> byte list" where
  "msgpack_pack_paxos_repeat m v =
     mp_pack_array m 3 @ mp_pack_int32 m 6 @ mp_pack_uint32 m (rep_from v) @ mp_pack_uint32 m (rep_to v)"

definition msgpack_unpack_paxos_repeat :: "msgpack_object \<Rightarrow> paxos_repeat option" where
  "msgpack_unpack_paxos_repeat obj = do {
     (x0, i) \<leftarrow> msgpack_unpack_uint32_at obj 1;
     (x1, _) \<leftarrow> msgpack_unpack_uint32_at obj i;
     Some \<lparr>rep_from = x0, rep_to = x1\<rparr> }"

definition msgpack_pack_paxos_trim :: "msgpack \<Rightarrow> paxos_trim \<Rightarrow> byte list" where
  "msgpack_pack_paxos_trim m v =
     mp_pack_array m 2 @ mp_pack_int32 m 7 @ mp_pack_uint32 m (trim_iid v)"

definition msgpack_unpack_paxos_trim :: "msgpack_object \<Rightarrow> paxos_trim option" where
  "msgpack_unpack_paxos_trim obj = do {
     (x0, _) \<leftarrow> msgpack_unpack_uint32_at obj 1;
     Some \<lparr>trim_iid = x0\<rparr> }"

definition msgpack_pack_paxos_acceptor_state :: "msgpack \<Rightarrow> paxos_standard_acceptor_state \<Rightarrow> byte list" where
  "msgpack_pack_paxos_acceptor_state m v =
     mp_pack_array m 4 @ mp_pack_int32 m 9 @ mp_pack_uint32 m (as_aid v) @ mp_pack_uint32 m (as_trim_iid v) @
     mp_pack_uint32 m (as_current_instance v)"

definition msgpack_unpack_paxos_acceptor_state :: "msgpack_object \<Rightarrow> paxos_standard_acceptor_state option" where
  "msgpack_unpack_paxos_acceptor_state obj = do {
     (x0, i) \<leftarrow> msgpack_unpack_uint32_at obj 1;
     (x1, i) \<leftarrow> msgpack_unpack_uint32_at obj i;
     (x2, _) \<leftarrow> msgpack_unpack_uint32_at obj i;
     Some \<lparr>as_aid = x0, as_trim_iid = x1, as_current_instance = x2\<rparr> }"

definition msgpack_pack_proposer_state :: "msgpack \<Rightarrow> proposer_state \<Rightarrow> byte list" where
  "msgpack_pack_proposer_state m v =
     mp_pack_array m 5 @ mp_pack_int32 m 8 @ mp_pack_uint32 m (ps_proposer_id v) @
     mp_pack_uint32 m (ps_trim_instance v) @ mp_pack_int32 m (ps_max_chosen_instance v) @
     mp_pack_uint32 m (ps_next_prepare_instance v)"

definition msgpack_unpack_proposer_state :: "msgpack_object \<Rightarrow> proposer_state option" where
  "msgpack_unpack_proposer_state obj = do {
     (x0, i) \<leftarrow> msgpack_unpack_uint32_at obj 1;
     (x1, i) \<leftarrow> msgpack_unpack_uint32_at obj i;
     (x2, i) \<leftarrow> msgpack_unpack_uint32_at obj i;
     (x3, _) \<leftarrow> msgpack_unpack_uint32_at obj i;
     Some \<lparr>ps_proposer_id = x0, ps_trim_instance = x1, ps_max_chosen_instance = x2, ps_next_prepare_instance = x3\<rparr> }"

definition msgpack_pack_paxos_client_value :: "msgpack \<Rightarrow> paxos_value \<Rightarrow> byte list" where
  "msgpack_pack_paxos_client_value m v =
     mp_pack_array m 2 @ mp_pack_int32 m 10 @ msgpack_pack_paxos_value m v"

definition msgpack_unpack_paxos_client_value :: "msgpack_object \<Rightarrow> paxos_value option" where
  "msgpack_unpack_paxos_client_value obj = do {
     (x0, _) \<leftarrow> msgpack_unpack_paxos_value_at obj 1;
     Some x0 }"

definition msgpack_pack_paxos_chosen :: "msgpack \<Rightarrow> paxos_chosen \<Rightarrow> byte list" where
  "msgpack_pack_paxos_chosen m v =
     mp_pack_array m 5 @ mp_pack_int32 m 4 @ mp_pack_uint32 m (cho_iid v) @
     msgpack_pack_ballot m (cho_ballot v) @ msgpack_pack_paxos_value m (cho_value v)"

definition msgpack_unpack_paxos_chosen :: "msgpack_object \<Rightarrow> paxos_chosen option" where
  "msgpack_unpack_paxos_chosen obj = do {
     (x0, i) \<leftarrow> msgpack_unpack_uint32_at obj 1;
     (x1, i) \<leftarrow> msgpack_unpack_ballot obj i;
     (x2, _) \<leftarrow> msgpack_unpack_paxos_value_at obj i;
     Some \<lparr>cho_iid = x0, cho_ballot = x1, cho_value = x2\<rparr> }"

fun msgpack_pack_paxos_message :: "msgpack \<Rightarrow> standard_paxos_message \<Rightarrow> byte list" where
  "msgpack_pack_paxos_message m (PAXOS_PREPARE v) = msgpack_pack_paxos_prepare m v"
| "msgpack_pack_paxos_message m (PAXOS_PROMISE v) = msgpack_pack_paxos_promise m v"
| "msgpack_pack_paxos_message m (PAXOS_ACCEPT v) = msgpack_pack_paxos_accept m v"
| "msgpack_pack_paxos_message m (PAXOS_ACCEPTED v) = msgpack_pack_paxos_accepted m v"
| "msgpack_pack_paxos_message m (PAXOS_CHOSEN v) = msgpack_pack_paxos_chosen m v"
| "msgpack_pack_paxos_message m (PAXOS_PREEMPTED v) = msgpack_pack_paxos_preempted m v"
| "msgpack_pack_paxos_message m (PAXOS_REPEAT v) = msgpack_pack_paxos_repeat m v"
| "msgpack_pack_paxos_message m (PAXOS_TRIM v) = msgpack_pack_paxos_trim m v"
| "msgpack_pack_paxos_message m (PAXOS_PROPOSER_STATE v) = msgpack_pack_proposer_state m v"
| "msgpack_pack_paxos_message m (PAXOS_ACCEPTOR_STATE v) = msgpack_pack_paxos_acceptor_state m v"
| "msgpack_pack_paxos_message m (PAXOS_CLIENT_VALUE v) = msgpack_pack_paxos_client_value m v"

text \<open>
  The type is read from the first element and cut to the width of the \<open>enum\<close>.  A type that is none of its
  constants leaves the contents unset, which is \<open>Some None\<close>.
\<close>

definition msgpack_unpack_paxos_message :: "msgpack_object \<Rightarrow> standard_paxos_message option option" where
  "msgpack_unpack_paxos_message obj =
     (case map_option (\<lambda>w. ucast w :: u32) (u64_at obj 0) of
        None \<Rightarrow> None
      | Some t \<Rightarrow>
          if t = 0 then map_option (Some \<circ> PAXOS_PREPARE) (msgpack_unpack_paxos_prepare obj)
          else if t = 1 then map_option (Some \<circ> PAXOS_PROMISE) (msgpack_unpack_paxos_promise obj)
          else if t = 2 then map_option (Some \<circ> PAXOS_ACCEPT) (msgpack_unpack_paxos_accept obj)
          else if t = 3 then map_option (Some \<circ> PAXOS_ACCEPTED) (msgpack_unpack_paxos_accepted obj)
          else if t = 4 then map_option (Some \<circ> PAXOS_CHOSEN) (msgpack_unpack_paxos_chosen obj)
          else if t = 5 then map_option (Some \<circ> PAXOS_PREEMPTED) (msgpack_unpack_paxos_preempted obj)
          else if t = 6 then map_option (Some \<circ> PAXOS_REPEAT) (msgpack_unpack_paxos_repeat obj)
          else if t = 7 then map_option (Some \<circ> PAXOS_TRIM) (msgpack_unpack_paxos_trim obj)
          else if t = 8 then map_option (Some \<circ> PAXOS_PROPOSER_STATE) (msgpack_unpack_proposer_state obj)
          else if t = 9 then map_option (Some \<circ> PAXOS_ACCEPTOR_STATE) (msgpack_unpack_paxos_acceptor_state obj)
          else if t = 10 then map_option (Some \<circ> PAXOS_CLIENT_VALUE) (msgpack_unpack_paxos_client_value obj)
          else Some None)"

section \<open>Messages of epoch Paxos\<close>

text \<open>The number of a type is its position in \<open>enum writeahead_epoch_message_type\<close>.\<close>

definition msgpack_pack_epoch_paxos_standard_prepare :: "msgpack \<Rightarrow> paxos_prepare \<Rightarrow> byte list" where
  "msgpack_pack_epoch_paxos_standard_prepare m v =
     mp_pack_array m 4 @ mp_pack_int32 m 0 @ mp_pack_uint32 m (prep_iid v) @
     msgpack_pack_ballot m (prep_ballot v)"

definition msgpack_unpack_epoch_paxos_standard_prepare :: "msgpack_object \<Rightarrow> paxos_prepare option" where
  "msgpack_unpack_epoch_paxos_standard_prepare obj = do {
     (x0, i) \<leftarrow> msgpack_unpack_uint32_at obj 1;
     (x1, _) \<leftarrow> msgpack_unpack_ballot obj i;
     Some \<lparr>prep_iid = x0, prep_ballot = x1\<rparr> }"

definition msgpack_pack_epoch_ballot_prepare :: "msgpack \<Rightarrow> epoch_ballot_prepare \<Rightarrow> byte list" where
  "msgpack_pack_epoch_ballot_prepare m v =
     mp_pack_array m 5 @ mp_pack_int32 m 1 @ mp_pack_uint32 m (ebp_instance v) @
     msgpack_pack_epoch_ballot m (ebp_epoch_ballot_requested v)"

definition msgpack_unpack_epoch_ballot_prepare :: "msgpack_object \<Rightarrow> epoch_ballot_prepare option" where
  "msgpack_unpack_epoch_ballot_prepare obj = do {
     (x0, i) \<leftarrow> msgpack_unpack_uint32_at obj 1;
     (x1, _) \<leftarrow> msgpack_unpack_epoch_ballot obj i;
     Some \<lparr>ebp_instance = x0, ebp_epoch_ballot_requested = x1\<rparr> }"

definition msgpack_pack_epoch_ballot_promise :: "msgpack \<Rightarrow> epoch_ballot_promise \<Rightarrow> byte list" where
  "msgpack_pack_epoch_ballot_promise m v =
     mp_pack_array m 10 @ mp_pack_int32 m 2 @ mp_pack_uint32 m (ebpr_acceptor_id v) @
     mp_pack_uint32 m (ebpr_instance v) @ msgpack_pack_epoch_ballot m (ebpr_promised_epoch_ballot v) @
     msgpack_pack_epoch_ballot m (ebpr_last_accepted_ballot v) @
     msgpack_pack_paxos_value m (ebpr_last_accepted_value v)"

definition msgpack_unpack_epoch_ballot_promise :: "msgpack_object \<Rightarrow> epoch_ballot_promise option" where
  "msgpack_unpack_epoch_ballot_promise obj = do {
     (x0, i) \<leftarrow> msgpack_unpack_uint32_at obj 1;
     (x1, i) \<leftarrow> msgpack_unpack_uint32_at obj i;
     (x2, i) \<leftarrow> msgpack_unpack_epoch_ballot obj i;
     (x3, i) \<leftarrow> msgpack_unpack_epoch_ballot obj i;
     (x4, _) \<leftarrow> msgpack_unpack_paxos_value_at obj i;
     Some \<lparr>ebpr_acceptor_id = x0, ebpr_instance = x1, ebpr_promised_epoch_ballot = x2, ebpr_last_accepted_ballot = x3, ebpr_last_accepted_value = x4\<rparr> }"

definition msgpack_pack_epoch_ballot_accept :: "msgpack \<Rightarrow> epoch_ballot_accept \<Rightarrow> byte list" where
  "msgpack_pack_epoch_ballot_accept m v =
     mp_pack_array m 6 @ mp_pack_int32 m 3 @ mp_pack_uint32 m (eba_instance v) @
     msgpack_pack_epoch_ballot m (eba_epoch_ballot_requested v) @
     msgpack_pack_paxos_value m (eba_value_to_accept v)"

definition msgpack_unpack_epoch_ballot_accept :: "msgpack_object \<Rightarrow> epoch_ballot_accept option" where
  "msgpack_unpack_epoch_ballot_accept obj = do {
     (x0, i) \<leftarrow> msgpack_unpack_uint32_at obj 1;
     (x1, i) \<leftarrow> msgpack_unpack_epoch_ballot obj i;
     (x2, _) \<leftarrow> msgpack_unpack_paxos_value_at obj i;
     Some \<lparr>eba_instance = x0, eba_epoch_ballot_requested = x1, eba_value_to_accept = x2\<rparr> }"

definition msgpack_pack_epoch_ballot_accepted :: "msgpack \<Rightarrow> epoch_ballot_accepted \<Rightarrow> byte list" where
  "msgpack_pack_epoch_ballot_accepted m v =
     mp_pack_array m 7 @ mp_pack_int32 m 4 @ mp_pack_uint32 m (ebac_acceptor_id v) @
     mp_pack_uint32 m (ebac_instance v) @ msgpack_pack_epoch_ballot m (ebac_accepted_epoch_ballot v) @
     msgpack_pack_paxos_value m (ebac_accepted_value v)"

definition msgpack_unpack_epoch_ballot_accepted :: "msgpack_object \<Rightarrow> epoch_ballot_accepted option" where
  "msgpack_unpack_epoch_ballot_accepted obj = do {
     (x0, i) \<leftarrow> msgpack_unpack_uint32_at obj 1;
     (x1, i) \<leftarrow> msgpack_unpack_uint32_at obj i;
     (x2, i) \<leftarrow> msgpack_unpack_epoch_ballot obj i;
     (x3, _) \<leftarrow> msgpack_unpack_paxos_value_at obj i;
     Some \<lparr>ebac_acceptor_id = x0, ebac_instance = x1, ebac_accepted_epoch_ballot = x2, ebac_accepted_value = x3\<rparr> }"

definition msgpack_pack_epoch_ballot_preempted :: "msgpack \<Rightarrow> epoch_ballot_preempted \<Rightarrow> byte list" where
  "msgpack_pack_epoch_ballot_preempted m v =
     mp_pack_array m 9 @ mp_pack_int32 m 5 @ mp_pack_uint32 m (ebpe_acceptor_id v) @
     mp_pack_uint32 m (ebpe_instance v) @ msgpack_pack_epoch_ballot m (ebpe_requested_epoch_ballot v) @
     msgpack_pack_epoch_ballot m (ebpe_acceptors_current_epoch_ballot v)"

definition msgpack_unpack_epoch_ballot_preempted :: "msgpack_object \<Rightarrow> epoch_ballot_preempted option" where
  "msgpack_unpack_epoch_ballot_preempted obj = do {
     (x0, i) \<leftarrow> msgpack_unpack_uint32_at obj 1;
     (x1, i) \<leftarrow> msgpack_unpack_uint32_at obj i;
     (x2, i) \<leftarrow> msgpack_unpack_epoch_ballot obj i;
     (x3, _) \<leftarrow> msgpack_unpack_epoch_ballot obj i;
     Some \<lparr>ebpe_acceptor_id = x0, ebpe_instance = x1, ebpe_requested_epoch_ballot = x2, ebpe_acceptors_current_epoch_ballot = x3\<rparr> }"

definition msgpack_pack_instance_chosen_at_epoch_ballot :: "msgpack \<Rightarrow> epoch_ballot_chosen \<Rightarrow> byte list" where
  "msgpack_pack_instance_chosen_at_epoch_ballot m v =
     mp_pack_array m 6 @ mp_pack_int32 m 7 @ mp_pack_uint32 m (ebc_instance v) @
     msgpack_pack_epoch_ballot m (ebc_chosen_epoch_ballot v) @
     msgpack_pack_paxos_value m (ebc_chosen_value v)"

definition msgpack_unpack_instance_chosen_at_epoch_ballot :: "msgpack_object \<Rightarrow> epoch_ballot_chosen option" where
  "msgpack_unpack_instance_chosen_at_epoch_ballot obj = do {
     (x0, i) \<leftarrow> msgpack_unpack_uint32_at obj 1;
     (x1, i) \<leftarrow> msgpack_unpack_epoch_ballot obj i;
     (x2, _) \<leftarrow> msgpack_unpack_paxos_value_at obj i;
     Some \<lparr>ebc_instance = x0, ebc_chosen_epoch_ballot = x1, ebc_chosen_value = x2\<rparr> }"

text \<open>This message is packed with the type \<open>PAXOS_PROPOSER_STATE\<close> of standard Paxos, whose number is also 8.\<close>

definition msgpack_pack_epoch_proposer_state :: "msgpack \<Rightarrow> epoch_proposer_state \<Rightarrow> byte list" where
  "msgpack_pack_epoch_proposer_state m v =
     mp_pack_array m 6 @ mp_pack_int32 m 8 @ mp_pack_uint32 m (ps_proposer_id (eps_proposer_state v)) @
     mp_pack_uint32 m (ps_trim_instance (eps_proposer_state v)) @
     mp_pack_int32 m (ps_max_chosen_instance (eps_proposer_state v)) @
     mp_pack_uint32 m (ps_next_prepare_instance (eps_proposer_state v)) @
     mp_pack_uint32 m (eps_current_epoch v)"

definition msgpack_unpack_epoch_proposer_state :: "msgpack_object \<Rightarrow> epoch_proposer_state option" where
  "msgpack_unpack_epoch_proposer_state obj = do {
     (x0, i) \<leftarrow> msgpack_unpack_uint32_at obj 1;
     (x1, i) \<leftarrow> msgpack_unpack_uint32_at obj i;
     (x2, i) \<leftarrow> msgpack_unpack_uint32_at obj i;
     (x3, i) \<leftarrow> msgpack_unpack_uint32_at obj i;
     (x4, _) \<leftarrow> msgpack_unpack_uint32_at obj i;
     Some \<lparr>eps_proposer_state = \<lparr>ps_proposer_id = x0, ps_trim_instance = x1, ps_max_chosen_instance = x2,
       ps_next_prepare_instance = x3\<rparr>, eps_current_epoch = x4\<rparr> }"

definition msgpack_pack_epoch_notification :: "msgpack \<Rightarrow> epoch_notification \<Rightarrow> byte list" where
  "msgpack_pack_epoch_notification m v =
     mp_pack_array m 2 @ mp_pack_int32 m 6 @ mp_pack_uint32 m (en_new_epoch v)"

definition msgpack_unpack_epoch_notification :: "msgpack_object \<Rightarrow> epoch_notification option" where
  "msgpack_unpack_epoch_notification obj = do {
     (x0, _) \<leftarrow> msgpack_unpack_uint32_at obj 1;
     Some \<lparr>en_new_epoch = x0\<rparr> }"

text \<open>
  The field \<open>current_instance\<close> of the nested acceptor state is neither packed nor unpacked: after unpacking it is
  what was in the memory of the message before, the argument \<open>old\<close>.
\<close>

definition msgpack_pack_writeahead_epoch_acceptor_state :: "msgpack \<Rightarrow> writeahead_epoch_acceptor_state \<Rightarrow> byte list" where
  "msgpack_pack_writeahead_epoch_acceptor_state m v =
     mp_pack_array m 4 @ mp_pack_int32 m 11 @ mp_pack_uint32 m (as_aid (was_standard_acceptor_state v)) @
     mp_pack_uint32 m (as_trim_iid (was_standard_acceptor_state v)) @ mp_pack_uint32 m (was_current_epoch v)"

definition msgpack_unpack_writeahead_epoch_acceptor_state ::
    "u32 \<Rightarrow> msgpack_object \<Rightarrow> writeahead_epoch_acceptor_state option" where
  "msgpack_unpack_writeahead_epoch_acceptor_state old obj = do {
     (x0, i) \<leftarrow> msgpack_unpack_uint32_at obj 1;
     (x1, i) \<leftarrow> msgpack_unpack_uint32_at obj i;
     (x2, _) \<leftarrow> msgpack_unpack_uint32_at obj i;
     Some \<lparr>was_standard_acceptor_state = \<lparr>as_aid = x0, as_trim_iid = x1, as_current_instance = old\<rparr>, was_current_epoch = x2\<rparr> }"

definition msgpack_pack_epoch_paxos_repeat :: "msgpack \<Rightarrow> paxos_repeat \<Rightarrow> byte list" where
  "msgpack_pack_epoch_paxos_repeat m v =
     mp_pack_array m 3 @ mp_pack_int32 m 9 @ mp_pack_uint32 m (rep_from v) @ mp_pack_uint32 m (rep_to v)"

definition msgpack_unpack_epoch_paxos_repeat :: "msgpack_object \<Rightarrow> paxos_repeat option" where
  "msgpack_unpack_epoch_paxos_repeat obj = do {
     (x0, i) \<leftarrow> msgpack_unpack_uint32_at obj 1;
     (x1, _) \<leftarrow> msgpack_unpack_uint32_at obj i;
     Some \<lparr>rep_from = x0, rep_to = x1\<rparr> }"

definition msgpack_pack_epoch_paxos_trim :: "msgpack \<Rightarrow> paxos_trim \<Rightarrow> byte list" where
  "msgpack_pack_epoch_paxos_trim m v =
     mp_pack_array m 2 @ mp_pack_int32 m 10 @ mp_pack_uint32 m (trim_iid v)"

definition msgpack_unpack_epoch_paxos_trim :: "msgpack_object \<Rightarrow> paxos_trim option" where
  "msgpack_unpack_epoch_paxos_trim obj = do {
     (x0, _) \<leftarrow> msgpack_unpack_uint32_at obj 1;
     Some \<lparr>trim_iid = x0\<rparr> }"

definition msgpack_pack_epoch_paxos_client_value :: "msgpack \<Rightarrow> paxos_value \<Rightarrow> byte list" where
  "msgpack_pack_epoch_paxos_client_value m v =
     mp_pack_array m 2 @ mp_pack_int32 m 12 @ msgpack_pack_paxos_value m v"

definition msgpack_unpack_epoch_paxos_client_value :: "msgpack_object \<Rightarrow> paxos_value option" where
  "msgpack_unpack_epoch_paxos_client_value obj = do {
     (x0, _) \<leftarrow> msgpack_unpack_paxos_value_at obj 1;
     Some x0 }"

fun msgpack_pack_writeahead_epoch_paxos_message :: "msgpack \<Rightarrow> epoch_paxos_message \<Rightarrow> byte list" where
  "msgpack_pack_writeahead_epoch_paxos_message m (WRITEAHEAD_STANDARD_PREPARE v) = msgpack_pack_epoch_paxos_standard_prepare m v"
| "msgpack_pack_writeahead_epoch_paxos_message m (WRITEAHEAD_EPOCH_BALLOT_PREPARE v) = msgpack_pack_epoch_ballot_prepare m v"
| "msgpack_pack_writeahead_epoch_paxos_message m (WRITEAHEAD_EPOCH_BALLOT_PROMISE v) = msgpack_pack_epoch_ballot_promise m v"
| "msgpack_pack_writeahead_epoch_paxos_message m (WRITEAHEAD_EPOCH_BALLOT_ACCEPT v) = msgpack_pack_epoch_ballot_accept m v"
| "msgpack_pack_writeahead_epoch_paxos_message m (WRITEAHEAD_EPOCH_BALLOT_ACCEPTED v) = msgpack_pack_epoch_ballot_accepted m v"
| "msgpack_pack_writeahead_epoch_paxos_message m (WRITEAHEAD_EPOCH_BALLOT_PREEMPTED v) = msgpack_pack_epoch_ballot_preempted m v"
| "msgpack_pack_writeahead_epoch_paxos_message m (WRITEAHEAD_EPOCH_NOTIFICATION v) = msgpack_pack_epoch_notification m v"
| "msgpack_pack_writeahead_epoch_paxos_message m (WRITEAHEAD_INSTANCE_CHOSEN_AT_EPOCH_BALLOT v) = msgpack_pack_instance_chosen_at_epoch_ballot m v"
| "msgpack_pack_writeahead_epoch_paxos_message m (WRITEAHEAD_PAXOS_PROPOSER_STATE v) = msgpack_pack_epoch_proposer_state m v"
| "msgpack_pack_writeahead_epoch_paxos_message m (WRITEAHEAD_REPEAT v) = msgpack_pack_epoch_paxos_repeat m v"
| "msgpack_pack_writeahead_epoch_paxos_message m (WRITEAHEAD_INSTANCE_TRIM v) = msgpack_pack_epoch_paxos_trim m v"
| "msgpack_pack_writeahead_epoch_paxos_message m (WRITEAHEAD_ACCEPTOR_STATE v) = msgpack_pack_writeahead_epoch_acceptor_state m v"
| "msgpack_pack_writeahead_epoch_paxos_message m (WRITEAHEAD_CLIENT_VALUE v) = msgpack_pack_epoch_paxos_client_value m v"

definition msgpack_unpack_writeahead_epoch_paxos_message ::
    "u32 \<Rightarrow> msgpack_object \<Rightarrow> epoch_paxos_message option option" where
  "msgpack_unpack_writeahead_epoch_paxos_message old obj =
     (case map_option (\<lambda>w. ucast w :: u32) (u64_at obj 0) of
        None \<Rightarrow> None
      | Some t \<Rightarrow>
          if t = 0 then map_option (Some \<circ> WRITEAHEAD_STANDARD_PREPARE) (msgpack_unpack_epoch_paxos_standard_prepare obj)
          else if t = 1 then map_option (Some \<circ> WRITEAHEAD_EPOCH_BALLOT_PREPARE) (msgpack_unpack_epoch_ballot_prepare obj)
          else if t = 2 then map_option (Some \<circ> WRITEAHEAD_EPOCH_BALLOT_PROMISE) (msgpack_unpack_epoch_ballot_promise obj)
          else if t = 3 then map_option (Some \<circ> WRITEAHEAD_EPOCH_BALLOT_ACCEPT) (msgpack_unpack_epoch_ballot_accept obj)
          else if t = 4 then map_option (Some \<circ> WRITEAHEAD_EPOCH_BALLOT_ACCEPTED) (msgpack_unpack_epoch_ballot_accepted obj)
          else if t = 5 then map_option (Some \<circ> WRITEAHEAD_EPOCH_BALLOT_PREEMPTED) (msgpack_unpack_epoch_ballot_preempted obj)
          else if t = 6 then map_option (Some \<circ> WRITEAHEAD_EPOCH_NOTIFICATION) (msgpack_unpack_epoch_notification obj)
          else if t = 7 then map_option (Some \<circ> WRITEAHEAD_INSTANCE_CHOSEN_AT_EPOCH_BALLOT) (msgpack_unpack_instance_chosen_at_epoch_ballot obj)
          else if t = 8 then map_option (Some \<circ> WRITEAHEAD_PAXOS_PROPOSER_STATE) (msgpack_unpack_epoch_proposer_state obj)
          else if t = 9 then map_option (Some \<circ> WRITEAHEAD_REPEAT) (msgpack_unpack_epoch_paxos_repeat obj)
          else if t = 10 then map_option (Some \<circ> WRITEAHEAD_INSTANCE_TRIM) (msgpack_unpack_epoch_paxos_trim obj)
          else if t = 11 then map_option (Some \<circ> WRITEAHEAD_ACCEPTOR_STATE) (msgpack_unpack_writeahead_epoch_acceptor_state old obj)
          else if t = 12 then map_option (Some \<circ> WRITEAHEAD_CLIENT_VALUE) (msgpack_unpack_epoch_paxos_client_value obj)
          else Some None)"

section \<open>The format as a list of items\<close>

text \<open>
  A reference description of the wire format: the elements of the array of every message.  Packing is the
  concatenation of the items, and unpacking inverts it.
\<close>

datatype item = Unsigned u32 | Signed u32 | Bytes "byte list"

fun item_bytes :: "msgpack \<Rightarrow> item \<Rightarrow> byte list" where
  "item_bytes m (Unsigned w) = mp_pack_uint32 m w"
| "item_bytes m (Signed w) = mp_pack_int32 m w"
| "item_bytes m (Bytes bs) = mp_pack_bin m (length bs) @ mp_pack_bin_body m bs"

fun item_object :: "item \<Rightarrow> msgpack_object" where
  "item_object (Unsigned w) = POSITIVE_INTEGER (ucast w)"
| "item_object (Signed w) = int32_object w"
| "item_object (Bytes bs) = BIN bs"

fun item_fits :: "item \<Rightarrow> bool" where
  "item_fits (Bytes bs) = (length bs < 2 ^ 31)"
| "item_fits _ = True"

definition ballot_items :: "ballot \<Rightarrow> item list" where
  "ballot_items b = [Unsigned (ballot_number b), Unsigned (ballot_proposer_id b)]"

definition epoch_ballot_items :: "epoch_ballot \<Rightarrow> item list" where
  "epoch_ballot_items eb = Unsigned (eb_epoch eb) # ballot_items (eb_ballot eb)"

fun paxos_message_items :: "standard_paxos_message \<Rightarrow> item list" where
  "paxos_message_items (PAXOS_PREPARE v) = [Signed 0, Unsigned (prep_iid v)] @ ballot_items (prep_ballot v)"
| "paxos_message_items (PAXOS_PROMISE v) = [Signed 1, Unsigned (prom_aid v), Unsigned (prom_iid v)]
     @ ballot_items (prom_ballot v) @ ballot_items (prom_value_ballot v) @ [Bytes (prom_value v)]"
| "paxos_message_items (PAXOS_ACCEPT v) = [Signed 2, Unsigned (acc_iid v)] @ ballot_items (acc_ballot v) @ [Bytes (acc_value v)]"
| "paxos_message_items (PAXOS_ACCEPTED v) = [Signed 3, Unsigned (accd_aid v), Unsigned (accd_iid v)]
     @ ballot_items (accd_promise_ballot v) @ ballot_items (accd_value_ballot v) @ [Bytes (accd_value v)]"
| "paxos_message_items (PAXOS_CHOSEN v) = [Signed 4, Unsigned (cho_iid v)] @ ballot_items (cho_ballot v) @ [Bytes (cho_value v)]"
| "paxos_message_items (PAXOS_PREEMPTED v) = [Signed 5, Unsigned (pre_aid v), Unsigned (pre_iid v)]
     @ ballot_items (pre_attempted_ballot v) @ ballot_items (pre_acceptor_current_ballot v)"
| "paxos_message_items (PAXOS_REPEAT v) = [Signed 6, Unsigned (rep_from v), Unsigned (rep_to v)]"
| "paxos_message_items (PAXOS_TRIM v) = [Signed 7, Unsigned (trim_iid v)]"
| "paxos_message_items (PAXOS_PROPOSER_STATE v) = [Signed 8, Unsigned (ps_proposer_id v), Unsigned (ps_trim_instance v),
     Signed (ps_max_chosen_instance v), Unsigned (ps_next_prepare_instance v)]"
| "paxos_message_items (PAXOS_ACCEPTOR_STATE v) = [Signed 9, Unsigned (as_aid v), Unsigned (as_trim_iid v),
     Unsigned (as_current_instance v)]"
| "paxos_message_items (PAXOS_CLIENT_VALUE v) = [Signed 10, Bytes v]"

fun epoch_message_items :: "epoch_paxos_message \<Rightarrow> item list" where
  "epoch_message_items (WRITEAHEAD_STANDARD_PREPARE v) = [Signed 0, Unsigned (prep_iid v)] @ ballot_items (prep_ballot v)"
| "epoch_message_items (WRITEAHEAD_EPOCH_BALLOT_PREPARE v) = [Signed 1, Unsigned (ebp_instance v)]
     @ epoch_ballot_items (ebp_epoch_ballot_requested v)"
| "epoch_message_items (WRITEAHEAD_EPOCH_BALLOT_PROMISE v) = [Signed 2, Unsigned (ebpr_acceptor_id v), Unsigned (ebpr_instance v)]
     @ epoch_ballot_items (ebpr_promised_epoch_ballot v) @ epoch_ballot_items (ebpr_last_accepted_ballot v)
     @ [Bytes (ebpr_last_accepted_value v)]"
| "epoch_message_items (WRITEAHEAD_EPOCH_BALLOT_ACCEPT v) = [Signed 3, Unsigned (eba_instance v)]
     @ epoch_ballot_items (eba_epoch_ballot_requested v) @ [Bytes (eba_value_to_accept v)]"
| "epoch_message_items (WRITEAHEAD_EPOCH_BALLOT_ACCEPTED v) = [Signed 4, Unsigned (ebac_acceptor_id v), Unsigned (ebac_instance v)]
     @ epoch_ballot_items (ebac_accepted_epoch_ballot v) @ [Bytes (ebac_accepted_value v)]"
| "epoch_message_items (WRITEAHEAD_EPOCH_BALLOT_PREEMPTED v) = [Signed 5, Unsigned (ebpe_acceptor_id v), Unsigned (ebpe_instance v)]
     @ epoch_ballot_items (ebpe_requested_epoch_ballot v) @ epoch_ballot_items (ebpe_acceptors_current_epoch_ballot v)"
| "epoch_message_items (WRITEAHEAD_EPOCH_NOTIFICATION v) = [Signed 6, Unsigned (en_new_epoch v)]"
| "epoch_message_items (WRITEAHEAD_INSTANCE_CHOSEN_AT_EPOCH_BALLOT v) = [Signed 7, Unsigned (ebc_instance v)]
     @ epoch_ballot_items (ebc_chosen_epoch_ballot v) @ [Bytes (ebc_chosen_value v)]"
| "epoch_message_items (WRITEAHEAD_PAXOS_PROPOSER_STATE v) = [Signed 8, Unsigned (ps_proposer_id (eps_proposer_state v)),
     Unsigned (ps_trim_instance (eps_proposer_state v)), Signed (ps_max_chosen_instance (eps_proposer_state v)),
     Unsigned (ps_next_prepare_instance (eps_proposer_state v)), Unsigned (eps_current_epoch v)]"
| "epoch_message_items (WRITEAHEAD_REPEAT v) = [Signed 9, Unsigned (rep_from v), Unsigned (rep_to v)]"
| "epoch_message_items (WRITEAHEAD_INSTANCE_TRIM v) = [Signed 10, Unsigned (trim_iid v)]"
| "epoch_message_items (WRITEAHEAD_ACCEPTOR_STATE v) = [Signed 11, Unsigned (as_aid (was_standard_acceptor_state v)),
     Unsigned (as_trim_iid (was_standard_acceptor_state v)), Unsigned (was_current_epoch v)]"
| "epoch_message_items (WRITEAHEAD_CLIENT_VALUE v) = [Signed 12, Bytes v]"

lemma items_pack: "list_all item_fits xs \<Longrightarrow> list_all2 (packs m) (map (item_bytes m) xs) (map item_object xs)"
proof (induction xs)
  case (Cons x xs)
  then have "packs m (item_bytes m x) (item_object x)"
    by (cases x) (auto intro: packs.intros)
  with Cons show ?case by simp
qed simp

lemmas pack_defs = msgpack_pack_ballot_def msgpack_pack_epoch_ballot_def msgpack_pack_paxos_value_def msgpack_pack_string_def
  ballot_items_def epoch_ballot_items_def packed_array_def eval_nat_numeral

lemma pack_standard_items:
  "msgpack_pack_paxos_message m msg = packed_array m (map (item_bytes m) (paxos_message_items msg))"
  by (cases msg) (simp_all add: pack_defs msgpack_pack_paxos_prepare_def msgpack_pack_paxos_promise_def
      msgpack_pack_paxos_accept_def msgpack_pack_paxos_accepted_def msgpack_pack_paxos_chosen_def
      msgpack_pack_paxos_preempted_def msgpack_pack_paxos_repeat_def msgpack_pack_paxos_trim_def
      msgpack_pack_proposer_state_def msgpack_pack_paxos_acceptor_state_def msgpack_pack_paxos_client_value_def)

lemma pack_epoch_items:
  "msgpack_pack_writeahead_epoch_paxos_message m msg = packed_array m (map (item_bytes m) (epoch_message_items msg))"
  by (cases msg) (simp_all add: pack_defs msgpack_pack_epoch_paxos_standard_prepare_def msgpack_pack_epoch_ballot_prepare_def
      msgpack_pack_epoch_ballot_promise_def msgpack_pack_epoch_ballot_accept_def msgpack_pack_epoch_ballot_accepted_def
      msgpack_pack_epoch_ballot_preempted_def msgpack_pack_epoch_notification_def
      msgpack_pack_instance_chosen_at_epoch_ballot_def msgpack_pack_epoch_proposer_state_def msgpack_pack_epoch_paxos_repeat_def
      msgpack_pack_epoch_paxos_trim_def msgpack_pack_writeahead_epoch_acceptor_state_def msgpack_pack_epoch_paxos_client_value_def)

text \<open>Reading an element back.\<close>

lemma ucast_64_32 [simp]: "(ucast (ucast (w :: u32) :: 64 word) :: u32) = w"
  by (rule bit_word_eqI) (simp add: bit_simps)

lemma ucast_scast_64_32 [simp]: "(ucast (scast (w :: u32) :: 64 word) :: u32) = w"
  by (rule bit_word_eqI) (auto simp: bit_simps)

lemma u32_of_int32_object [simp]:
  "(case int32_object w of POSITIVE_INTEGER x \<Rightarrow> Some x | NEGATIVE_INTEGER x \<Rightarrow> Some x | _ \<Rightarrow> None)
     = Some (if sint w < 0 then scast w else ucast w)"
  "(ucast (if sint w < 0 then scast w else ucast w :: 64 word) :: u32) = w"
  by (simp_all add: int32_object_def)

lemmas unpack_defs = msgpack_unpack_uint32_at_def msgpack_unpack_paxos_value_at_def msgpack_unpack_string_at_def
  msgpack_unpack_ballot_def msgpack_unpack_epoch_ballot_def u64_at_def object_at_def ballot_items_def epoch_ballot_items_def

lemma unpack_standard_items:
  assumes "list_all item_fits (paxos_message_items msg)"
  shows "msgpack_unpack_paxos_message (ARRAY (map item_object (paxos_message_items msg))) = Some (Some msg)"
  using assms
  by (cases msg) (simp_all add: msgpack_unpack_paxos_message_def unpack_defs msgpack_unpack_paxos_prepare_def
      msgpack_unpack_paxos_promise_def msgpack_unpack_paxos_accept_def msgpack_unpack_paxos_accepted_def
      msgpack_unpack_paxos_chosen_def msgpack_unpack_paxos_preempted_def msgpack_unpack_paxos_repeat_def
      msgpack_unpack_paxos_trim_def msgpack_unpack_proposer_state_def msgpack_unpack_paxos_acceptor_state_def
      msgpack_unpack_paxos_client_value_def)

text \<open>How a message of epoch Paxos is received.\<close>

fun received_as :: "u32 \<Rightarrow> epoch_paxos_message \<Rightarrow> epoch_paxos_message" where
  "received_as old (WRITEAHEAD_ACCEPTOR_STATE st) = WRITEAHEAD_ACCEPTOR_STATE
     (st\<lparr>was_standard_acceptor_state := (was_standard_acceptor_state st)\<lparr>as_current_instance := old\<rparr>\<rparr>)"
| "received_as old msg = msg"

lemma unpack_epoch_items:
  assumes "list_all item_fits (epoch_message_items msg)"
  shows "msgpack_unpack_writeahead_epoch_paxos_message old (ARRAY (map item_object (epoch_message_items msg)))
    = Some (Some (received_as old msg))"
  using assms
  by (cases msg) (simp_all add: msgpack_unpack_writeahead_epoch_paxos_message_def unpack_defs
      msgpack_unpack_epoch_paxos_standard_prepare_def msgpack_unpack_epoch_ballot_prepare_def
      msgpack_unpack_epoch_ballot_promise_def msgpack_unpack_epoch_ballot_accept_def msgpack_unpack_epoch_ballot_accepted_def
      msgpack_unpack_epoch_ballot_preempted_def msgpack_unpack_epoch_notification_def
      msgpack_unpack_instance_chosen_at_epoch_ballot_def msgpack_unpack_epoch_proposer_state_def
      msgpack_unpack_epoch_paxos_repeat_def msgpack_unpack_epoch_paxos_trim_def
      msgpack_unpack_writeahead_epoch_acceptor_state_def msgpack_unpack_epoch_paxos_client_value_def)

end
