(* ===== verification/Transport.thy ===== *)
theory Transport
  imports Wire_Format
begin

text \<open>
  \<open>src/evpaxos/standard_paxos_message.c\<close>, \<open>src/evpaxos/epoch_paxos_message.c\<close> and the reading side of
  \<open>src/evpaxos/standard_paxos_peers.c\<close> and \<open>src/evpaxos/writeahead_epoch_paxos_peers.c\<close>: messages are packed
  into the output buffer of a connection, and whenever bytes arrive the callback \<open>on_read\<close> takes all
  complete messages out of the input buffer and hands them to the subscribers.  The buffers of
  libevent are byte lists.  The locale \<open>framing\<close> is what makes a stream of bytes a stream of messages.
\<close>

section \<open>Sending\<close>

text \<open>The output buffer of a \<open>bufferevent\<close> after a message was written to it.\<close>

definition send_paxos_message :: "msgpack \<Rightarrow> byte list \<Rightarrow> standard_paxos_message \<Rightarrow> byte list" where
  "send_paxos_message m bev msg = bev @ msgpack_pack_paxos_message m msg"

definition send_paxos_prepare :: "msgpack \<Rightarrow> byte list \<Rightarrow> paxos_prepare \<Rightarrow> byte list" where
  "send_paxos_prepare m bev p = send_paxos_message m bev (PAXOS_PREPARE p)"

definition send_paxos_promise :: "msgpack \<Rightarrow> byte list \<Rightarrow> paxos_promise \<Rightarrow> byte list" where
  "send_paxos_promise m bev p = send_paxos_message m bev (PAXOS_PROMISE p)"

definition send_paxos_accept :: "msgpack \<Rightarrow> byte list \<Rightarrow> paxos_accept \<Rightarrow> byte list" where
  "send_paxos_accept m bev p = send_paxos_message m bev (PAXOS_ACCEPT p)"

definition send_paxos_accepted :: "msgpack \<Rightarrow> byte list \<Rightarrow> paxos_accepted \<Rightarrow> byte list" where
  "send_paxos_accepted m bev p = send_paxos_message m bev (PAXOS_ACCEPTED p)"

definition send_paxos_preempted :: "msgpack \<Rightarrow> byte list \<Rightarrow> paxos_preempted \<Rightarrow> byte list" where
  "send_paxos_preempted m bev p = send_paxos_message m bev (PAXOS_PREEMPTED p)"

definition send_paxos_repeat :: "msgpack \<Rightarrow> byte list \<Rightarrow> paxos_repeat \<Rightarrow> byte list" where
  "send_paxos_repeat m bev p = send_paxos_message m bev (PAXOS_REPEAT p)"

definition send_paxos_chosen :: "msgpack \<Rightarrow> byte list \<Rightarrow> paxos_chosen \<Rightarrow> byte list" where
  "send_paxos_chosen m bev chosen_msg = send_paxos_message m bev (PAXOS_CHOSEN chosen_msg)"

definition send_paxos_trim :: "msgpack \<Rightarrow> byte list \<Rightarrow> paxos_trim \<Rightarrow> byte list" where
  "send_paxos_trim m bev t = send_paxos_message m bev (PAXOS_TRIM t)"

definition paxos_submit_client_value :: "msgpack \<Rightarrow> byte list \<Rightarrow> byte list \<Rightarrow> byte list" where
  "paxos_submit_client_value m bev data = send_paxos_message m bev (PAXOS_CLIENT_VALUE data)"

definition send_epoch_paxos_message :: "msgpack \<Rightarrow> byte list \<Rightarrow> epoch_paxos_message \<Rightarrow> byte list" where
  "send_epoch_paxos_message m bev msg = bev @ msgpack_pack_writeahead_epoch_paxos_message m msg"

definition send_standard_paxos_prepare :: "msgpack \<Rightarrow> byte list \<Rightarrow> paxos_prepare \<Rightarrow> byte list" where
  "send_standard_paxos_prepare m bev msg = send_epoch_paxos_message m bev (WRITEAHEAD_STANDARD_PREPARE msg)"

definition send_epoch_paxos_trim :: "msgpack \<Rightarrow> byte list \<Rightarrow> paxos_trim \<Rightarrow> byte list" where
  "send_epoch_paxos_trim m bev msg = send_epoch_paxos_message m bev (WRITEAHEAD_INSTANCE_TRIM msg)"

definition send_epoch_ballot_prepare :: "msgpack \<Rightarrow> byte list \<Rightarrow> epoch_ballot_prepare \<Rightarrow> byte list" where
  "send_epoch_ballot_prepare m bev msg = send_epoch_paxos_message m bev (WRITEAHEAD_EPOCH_BALLOT_PREPARE msg)"

definition send_epoch_ballot_promise :: "msgpack \<Rightarrow> byte list \<Rightarrow> epoch_ballot_promise \<Rightarrow> byte list" where
  "send_epoch_ballot_promise m bev msg = send_epoch_paxos_message m bev (WRITEAHEAD_EPOCH_BALLOT_PROMISE msg)"

definition send_epoch_ballot_accept :: "msgpack \<Rightarrow> byte list \<Rightarrow> epoch_ballot_accept \<Rightarrow> byte list" where
  "send_epoch_ballot_accept m bev msg = send_epoch_paxos_message m bev (WRITEAHEAD_EPOCH_BALLOT_ACCEPT msg)"

definition send_epoch_paxos_accepted :: "msgpack \<Rightarrow> byte list \<Rightarrow> epoch_ballot_accepted \<Rightarrow> byte list" where
  "send_epoch_paxos_accepted m bev msg = send_epoch_paxos_message m bev (WRITEAHEAD_EPOCH_BALLOT_ACCEPTED msg)"

definition send_epoch_paxos_preempted :: "msgpack \<Rightarrow> byte list \<Rightarrow> epoch_ballot_preempted \<Rightarrow> byte list" where
  "send_epoch_paxos_preempted m bev msg = send_epoch_paxos_message m bev (WRITEAHEAD_EPOCH_BALLOT_PREEMPTED msg)"

definition send_epoch_paxos_chosen :: "msgpack \<Rightarrow> byte list \<Rightarrow> epoch_ballot_chosen \<Rightarrow> byte list" where
  "send_epoch_paxos_chosen m bev chosen_msg =
     send_epoch_paxos_message m bev (WRITEAHEAD_INSTANCE_CHOSEN_AT_EPOCH_BALLOT chosen_msg)"

definition epoch_paxos_submit_client_value :: "msgpack \<Rightarrow> byte list \<Rightarrow> byte list \<Rightarrow> byte list" where
  "epoch_paxos_submit_client_value m bev data = send_epoch_paxos_message m bev (WRITEAHEAD_CLIENT_VALUE data)"

section \<open>Receiving one message\<close>

text \<open>
  The result is the message, if any, and the input buffer that remains: \<open>Some (None, _)\<close> when the function
  returns 0, \<open>Some (Some None, _)\<close> when a message of an unknown type was taken from the buffer, \<open>None\<close> when
  unpacking reads what it must not read.  Every result of \<open>msgpack_unpack_next\<close> but 0 is taken for success.
\<close>

type_synonym 'm received = "('m option option \<times> byte list) option"

definition recv_paxos_message :: "msgpack \<Rightarrow> byte list \<Rightarrow> standard_paxos_message received" where
  "recv_paxos_message m inbuf =
     (if length inbuf = 0 then Some (None, inbuf) else
      let (result, data, offset) = mp_unpack_next m inbuf
      in if result \<noteq> 0
         then (case msgpack_unpack_paxos_message data of
                 None \<Rightarrow> None
               | Some out \<Rightarrow> Some (Some out, drop offset inbuf))
         else Some (None, inbuf))"

text \<open>\<open>old\<close> is what the memory of the message holds at this call where unpacking may leave it as it was.\<close>

definition recv_epoch_paxos_message :: "msgpack \<Rightarrow> u32 \<Rightarrow> byte list \<Rightarrow> epoch_paxos_message received" where
  "recv_epoch_paxos_message m old inbuf =
     (if length inbuf = 0 then Some (None, inbuf) else
      let (result, data, offset) = mp_unpack_next m inbuf
      in if result \<noteq> 0
         then (case msgpack_unpack_writeahead_epoch_paxos_message old data of
                 None \<Rightarrow> None
               | Some out \<Rightarrow> Some (Some out, drop offset inbuf))
         else Some (None, inbuf))"

section \<open>Subscriptions\<close>

text \<open>
  A callback acts on the state of the application, which its argument \<open>arg\<close> points to; it is told the
  peer, of a type \<open>'p\<close>.  The array of subscriptions has 32 elements and is not checked: \<open>None\<close> is a write
  behind it.
\<close>

record ('s, 'p, 'm) subscription =
  sub_type :: u32
  sub_callback :: "'s \<Rightarrow> 'p \<Rightarrow> 'm \<Rightarrow> 's"

fun paxos_message_type :: "standard_paxos_message \<Rightarrow> u32" where
  "paxos_message_type (PAXOS_PREPARE _) = 0"
| "paxos_message_type (PAXOS_PROMISE _) = 1"
| "paxos_message_type (PAXOS_ACCEPT _) = 2"
| "paxos_message_type (PAXOS_ACCEPTED _) = 3"
| "paxos_message_type (PAXOS_CHOSEN _) = 4"
| "paxos_message_type (PAXOS_PREEMPTED _) = 5"
| "paxos_message_type (PAXOS_REPEAT _) = 6"
| "paxos_message_type (PAXOS_TRIM _) = 7"
| "paxos_message_type (PAXOS_PROPOSER_STATE _) = 8"
| "paxos_message_type (PAXOS_ACCEPTOR_STATE _) = 9"
| "paxos_message_type (PAXOS_CLIENT_VALUE _) = 10"

fun writeahead_epoch_message_type :: "epoch_paxos_message \<Rightarrow> u32" where
  "writeahead_epoch_message_type (WRITEAHEAD_STANDARD_PREPARE _) = 0"
| "writeahead_epoch_message_type (WRITEAHEAD_EPOCH_BALLOT_PREPARE _) = 1"
| "writeahead_epoch_message_type (WRITEAHEAD_EPOCH_BALLOT_PROMISE _) = 2"
| "writeahead_epoch_message_type (WRITEAHEAD_EPOCH_BALLOT_ACCEPT _) = 3"
| "writeahead_epoch_message_type (WRITEAHEAD_EPOCH_BALLOT_ACCEPTED _) = 4"
| "writeahead_epoch_message_type (WRITEAHEAD_EPOCH_BALLOT_PREEMPTED _) = 5"
| "writeahead_epoch_message_type (WRITEAHEAD_EPOCH_NOTIFICATION _) = 6"
| "writeahead_epoch_message_type (WRITEAHEAD_INSTANCE_CHOSEN_AT_EPOCH_BALLOT _) = 7"
| "writeahead_epoch_message_type (WRITEAHEAD_PAXOS_PROPOSER_STATE _) = 8"
| "writeahead_epoch_message_type (WRITEAHEAD_REPEAT _) = 9"
| "writeahead_epoch_message_type (WRITEAHEAD_INSTANCE_TRIM _) = 10"
| "writeahead_epoch_message_type (WRITEAHEAD_ACCEPTOR_STATE _) = 11"
| "writeahead_epoch_message_type (WRITEAHEAD_CLIENT_VALUE _) = 12"

definition peers_subscribe ::
    "('s, 'p, 'm) subscription list \<Rightarrow> u32 \<Rightarrow> ('s \<Rightarrow> 'p \<Rightarrow> 'm \<Rightarrow> 's) \<Rightarrow> ('s, 'p, 'm) subscription list option" where
  "peers_subscribe subs t cb =
     (if length subs < 32 then Some (subs @ [\<lparr>sub_type = t, sub_callback = cb\<rparr>]) else None)"

definition dispatch_message ::
    "('s, 'p, standard_paxos_message) subscription list \<Rightarrow> 'p \<Rightarrow> 's \<Rightarrow> standard_paxos_message \<Rightarrow> 's" where
  "dispatch_message subs p s msg =
     foldl (\<lambda>s sub. if sub_type sub = paxos_message_type msg then sub_callback sub s p msg else s) s subs"

definition writeahead_epoch_paxos_dispatch_message ::
    "('s, 'p, epoch_paxos_message) subscription list \<Rightarrow> 'p \<Rightarrow> 's \<Rightarrow> epoch_paxos_message \<Rightarrow> 's" where
  "writeahead_epoch_paxos_dispatch_message subs p s msg =
     foldl (\<lambda>s sub. if sub_type sub = writeahead_epoch_message_type msg then sub_callback sub s p msg else s) s subs"

section \<open>The read callback\<close>

text \<open>
  The \<open>while\<close> loop of both callbacks.  The bound is the number of rounds; a round that takes a message takes
  at least one byte, or else the next round is the same again, so that a bound above the number of
  bytes is only exhausted by a loop that never ends.  A message of an unknown type has no subscribers.  What is
  received may depend on the state, as the message of the epoch protocol does, which is a variable of the callback
  that is not initialised and that the rounds of the loop share.
\<close>

fun read_rounds ::
    "nat \<Rightarrow> ('s \<Rightarrow> byte list \<Rightarrow> 'm received) \<Rightarrow> ('s \<Rightarrow> 'm \<Rightarrow> 's) \<Rightarrow> 's \<Rightarrow> byte list \<Rightarrow> ('s \<times> byte list) option" where
  "read_rounds 0 recv dispatch s inbuf = None"
| "read_rounds (Suc n) recv dispatch s inbuf =
     (case recv s inbuf of
        None \<Rightarrow> None
      | Some (None, inbuf) \<Rightarrow> Some (s, inbuf)
      | Some (Some None, inbuf) \<Rightarrow> read_rounds n recv dispatch s inbuf
      | Some (Some (Some msg), inbuf) \<Rightarrow> read_rounds n recv dispatch (dispatch s msg) inbuf)"

definition on_read ::
    "msgpack \<Rightarrow> ('s, 'p, standard_paxos_message) subscription list \<Rightarrow> 'p \<Rightarrow> 's \<Rightarrow> byte list \<Rightarrow> ('s \<times> byte list) option" where
  "on_read m subs p s inbuf =
     read_rounds (Suc (length inbuf)) (\<lambda>_. recv_paxos_message m) (dispatch_message subs p) s inbuf"

text \<open>
  The number \<open>k\<close> counts the messages of the connection; \<open>junk k\<close> is what the memory of the \<open>k\<close>-th of them held before,
  on the stack of a new call or from an earlier round.
\<close>

definition writeahead_epoch_paxos_on_read ::
    "msgpack \<Rightarrow> (nat \<Rightarrow> u32) \<Rightarrow> ('s, 'p, epoch_paxos_message) subscription list \<Rightarrow> 'p \<Rightarrow> 's \<times> nat \<Rightarrow> byte list \<Rightarrow>
       (('s \<times> nat) \<times> byte list) option" where
  "writeahead_epoch_paxos_on_read m junk subs p s inbuf =
     read_rounds (Suc (length inbuf)) (\<lambda>(s, k). recv_epoch_paxos_message m (junk k))
       (\<lambda>(s, k) msg. (writeahead_epoch_paxos_dispatch_message subs p s msg, Suc k)) s inbuf"

text \<open>Bytes arrive in chunks of any size; the callback runs after each.\<close>

fun read_chunks ::
    "('s \<Rightarrow> byte list \<Rightarrow> ('s \<times> byte list) option) \<Rightarrow> 's \<Rightarrow> byte list \<Rightarrow> byte list list \<Rightarrow> ('s \<times> byte list) option" where
  "read_chunks read s inbuf [] = Some (s, inbuf)"
| "read_chunks read s inbuf (c # cs) =
     (case read s (inbuf @ c) of None \<Rightarrow> None | Some (s, inbuf) \<Rightarrow> read_chunks read s inbuf cs)"

section \<open>Framing\<close>

text \<open>
  What the two protocols share: a message at the beginning of the buffer is taken from it, and an incomplete
  one is left there.
\<close>

locale framing =
  fixes pack :: "'m \<Rightarrow> byte list" and recv :: "'s \<Rightarrow> byte list \<Rightarrow> 'm received" and fits :: "'m \<Rightarrow> bool"
    and received :: "'s \<Rightarrow> 'm \<Rightarrow> 'm"
  assumes recv_whole: "fits msg \<Longrightarrow> recv s (pack msg @ rest) = Some (Some (Some (received s msg)), rest)"
    and recv_part: "fits msg \<Longrightarrow> strict_prefix bs (pack msg) \<Longrightarrow> recv s bs = Some (None, bs)"
    and recv_nothing: "recv s [] = Some (None, [])"
    and pack_not_empty: "pack msg \<noteq> []"
begin

definition partial_message :: "'m list \<Rightarrow> byte list \<Rightarrow> bool" where
  "partial_message msgs bs \<longleftrightarrow> bs = [] \<or> msgs \<noteq> [] \<and> strict_prefix bs (pack (hd msgs))"

lemma read_rounds_all:
  assumes "list_all fits (msgs @ later)" "partial_message later bs" "length msgs < n"
  shows "read_rounds n recv h s (concat (map pack msgs) @ bs) = Some (foldl (\<lambda>s msg. h s (received s msg)) s msgs, bs)"
  using assms
proof (induction msgs arbitrary: n s)
  case Nil
  then obtain k where n: "n = Suc k" by (cases n) auto
  have "recv s bs = Some (None, bs)"
    using Nil.prems(1,2) recv_nothing recv_part by (cases later) (auto simp: partial_message_def)
  with n show ?case by simp
next
  case (Cons msg msgs)
  then obtain k where "n = Suc k" "length msgs < k" by (cases n) auto
  moreover have "fits msg" "list_all fits (msgs @ later)" using Cons.prems(1) by auto
  ultimately show ?case using Cons.IH [OF _ Cons.prems(2)] recv_whole by simp
qed

lemma length_concat_pack: "length msgs \<le> length (concat (map pack msgs))"
proof (induction msgs)
  case (Cons msg msgs)
  have "0 < length (pack msg)" using pack_not_empty by simp
  with Cons show ?case by (simp del: length_greater_0_conv)
qed simp

lemma read_all:
  assumes "list_all fits (msgs @ later)" "partial_message later bs"
  shows "read_rounds (Suc (length (concat (map pack msgs) @ bs))) recv h s (concat (map pack msgs) @ bs)
    = Some (foldl (\<lambda>s msg. h s (received s msg)) s msgs, bs)"
  by (rule read_rounds_all [OF assms]) (use length_concat_pack [of msgs] in simp)

lemma split_stream:
  assumes "prefix bs (concat (map pack msgs))"
  shows "\<exists>now later tail. msgs = now @ later \<and> bs = concat (map pack now) @ tail \<and> partial_message later tail"
  using assms
proof (induction msgs arbitrary: bs)
  case Nil
  then show ?case by (auto simp: partial_message_def)
next
  case (Cons msg msgs)
  show ?case
  proof (cases "strict_prefix bs (pack msg)")
    case True
    then show ?thesis by (intro exI [of _ "[]"] exI [of _ "msg # msgs"] exI [of _ bs]) (simp add: partial_message_def)
  next
    case False
    with Cons.prems obtain rest where rest: "bs = pack msg @ rest" "prefix rest (concat (map pack msgs))"
      by (auto simp: strict_prefix_def prefix_append)
    from Cons.IH [OF rest(2)] obtain now later tail where "msgs = now @ later" "rest = concat (map pack now) @ tail"
      "partial_message later tail" by blast
    with rest(1) show ?thesis by (intro exI [of _ "msg # now"] exI [of _ later] exI [of _ tail]) simp
  qed
qed

lemma chunks_arrive:
  assumes "list_all fits msgs" "inbuf @ concat cs = concat (map pack msgs)" "partial_message msgs inbuf"
    and read: "\<And>s inbuf. read s inbuf = read_rounds (Suc (length inbuf)) recv h s inbuf"
  shows "read_chunks read s inbuf cs = Some (foldl (\<lambda>s msg. h s (received s msg)) s msgs, [])"
  using assms(1-3)
proof (induction cs arbitrary: s inbuf msgs)
  case Nil
  have "msgs = []"
  proof (rule ccontr)
    assume "msgs \<noteq> []"
    then obtain msg rest where m: "msgs = msg # rest" by (cases msgs) auto
    with Nil.prems have "inbuf = pack msg @ concat (map pack rest)" by simp
    with m Nil.prems(3) pack_not_empty [of msg] show False
      by (auto simp: partial_message_def strict_prefix_def prefix_def)
  qed
  with Nil.prems(2) show ?case by simp
next
  case (Cons c cs)
  have "prefix (inbuf @ c) (concat (map pack msgs))" unfolding Cons.prems(2) [symmetric] by (simp add: prefix_def)
  from split_stream [OF this] obtain now later tail where split: "msgs = now @ later"
    "inbuf @ c = concat (map pack now) @ tail" "partial_message later tail" by blast
  have fits: "list_all fits (now @ later)" "list_all fits later" using Cons.prems(1) split(1) by simp_all
  have "(inbuf @ c) @ concat cs = concat (map pack now) @ concat (map pack later)" using Cons.prems(2) split(1) by simp
  then have later: "tail @ concat cs = concat (map pack later)" unfolding split(2) by simp
  have "read s (inbuf @ c) = Some (foldl (\<lambda>s msg. h s (received s msg)) s now, tail)"
    unfolding read split(2) by (rule read_all [OF fits(1) split(3)])
  with Cons.IH [OF fits(2) later split(3)] split(1) show ?case by simp
qed

lemma stream_arrives:
  assumes "list_all fits msgs" "concat cs = concat (map pack msgs)"
    and "\<And>s inbuf. read s inbuf = read_rounds (Suc (length inbuf)) recv h s inbuf"
  shows "read_chunks read s [] cs = Some (foldl (\<lambda>s msg. h s (received s msg)) s msgs, [])"
  using chunks_arrive [of msgs "[]" cs read h s] assms by (simp add: partial_message_def)

end

text \<open>Both protocols frame their messages, with any library that meets the contract.\<close>

definition paxos_message_fits :: "standard_paxos_message \<Rightarrow> bool" where
  "paxos_message_fits msg \<longleftrightarrow> list_all item_fits (paxos_message_items msg)"

definition epoch_message_fits :: "epoch_paxos_message \<Rightarrow> bool" where
  "epoch_message_fits msg \<longleftrightarrow> list_all item_fits (epoch_message_items msg)"

lemma few_items: "length (paxos_message_items msg) < 2 ^ 32" "length (epoch_message_items emsg) < 2 ^ 32"
  by (cases msg; simp add: ballot_items_def) (cases emsg; simp add: ballot_items_def epoch_ballot_items_def)

context msgpack_library
begin

lemma unpack_items:
  assumes "list_all item_fits xs" "length xs < 2 ^ 32"
  shows "mp_unpack_next m (packed_array m (map (item_bytes m) xs) @ rest)
      = (MSGPACK_UNPACK_SUCCESS, ARRAY (map item_object xs), length (packed_array m (map (item_bytes m) xs)))"
    and "strict_prefix bs (packed_array m (map (item_bytes m) xs)) \<Longrightarrow> \<exists>obj off. mp_unpack_next m bs = (0, obj, off)"
proof -
  note packed = items_pack [OF assms(1)]
  show "mp_unpack_next m (packed_array m (map (item_bytes m) xs) @ rest)
      = (MSGPACK_UNPACK_SUCCESS, ARRAY (map item_object xs), length (packed_array m (map (item_bytes m) xs)))"
    using unpack_packed [OF packed] assms(2) by simp
  assume "strict_prefix bs (packed_array m (map (item_bytes m) xs))"
  from unpack_partial [OF packed _ this] assms(2) show "\<exists>obj off. mp_unpack_next m bs = (0, obj, off)"
    by (cases "mp_unpack_next m bs") (simp add: MSGPACK_UNPACK_CONTINUE_def)
qed

lemma packed_not_empty: "packed_array m bss \<noteq> []"
  using header_not_empty by (simp add: packed_array_def)

end

sublocale msgpack_library \<subseteq> std_frames: framing "msgpack_pack_paxos_message m" "\<lambda>_. recv_paxos_message m"
  paxos_message_fits "\<lambda>_ msg. msg"
proof
  fix msg rest bs
  assume "paxos_message_fits msg"
  then have fits: "list_all item_fits (paxos_message_items msg)" by (simp add: paxos_message_fits_def)
  note unpack = unpack_items [OF fits few_items(1)]
  show "recv_paxos_message m (msgpack_pack_paxos_message m msg @ rest) = Some (Some (Some msg), rest)"
    by (simp add: recv_paxos_message_def pack_standard_items unpack(1) packed_not_empty unpack_standard_items [OF fits]
        MSGPACK_UNPACK_SUCCESS_def)
  assume "strict_prefix bs (msgpack_pack_paxos_message m msg)"
  with unpack(2) [of bs] show "recv_paxos_message m bs = Some (None, bs)"
    by (auto simp: recv_paxos_message_def pack_standard_items)
qed (simp_all add: recv_paxos_message_def pack_standard_items packed_not_empty)

sublocale msgpack_library \<subseteq> epoch_frames: framing "msgpack_pack_writeahead_epoch_paxos_message m"
  "\<lambda>(s, k). recv_epoch_paxos_message m (junk k)" epoch_message_fits "\<lambda>(s, k). received_as (junk k)" for junk :: "nat \<Rightarrow> u32"
proof
  fix msg rest bs and s :: "'s \<times> nat"
  assume "epoch_message_fits msg"
  then have fits: "list_all item_fits (epoch_message_items msg)" by (simp add: epoch_message_fits_def)
  note unpack = unpack_items [OF fits few_items(2)]
  show "(case s of (s, k) \<Rightarrow> recv_epoch_paxos_message m (junk k)) (msgpack_pack_writeahead_epoch_paxos_message m msg @ rest)
      = Some (Some (Some ((case s of (s, k) \<Rightarrow> received_as (junk k)) msg)), rest)"
    by (cases s) (simp add: recv_epoch_paxos_message_def pack_epoch_items unpack(1) packed_not_empty unpack_epoch_items [OF fits]
        MSGPACK_UNPACK_SUCCESS_def)
  assume "strict_prefix bs (msgpack_pack_writeahead_epoch_paxos_message m msg)"
  with unpack(2) [of bs] show "(case s of (s, k) \<Rightarrow> recv_epoch_paxos_message m (junk k)) bs = Some (None, bs)"
    by (cases s) (auto simp: recv_epoch_paxos_message_def pack_epoch_items)
qed (simp_all add: recv_epoch_paxos_message_def pack_epoch_items packed_not_empty split: prod.split)

context msgpack_library
begin

lemmas standard_stream = std_frames.stream_arrives [OF _ _ on_read_def, simplified]

lemmas epoch_stream = epoch_frames.stream_arrives [OF _ _ writeahead_epoch_paxos_on_read_def]

end

section \<open>Properties\<close>

lemma sent_stream:
  "foldl (send_paxos_message m) out msgs = out @ concat (map (msgpack_pack_paxos_message m) msgs)"
  "foldl (send_epoch_paxos_message m) out emsgs = out @ concat (map (msgpack_pack_writeahead_epoch_paxos_message m) emsgs)"
  by (induction msgs arbitrary: out, simp_all add: send_paxos_message_def)
    (induction emsgs arbitrary: out, simp_all add: send_epoch_paxos_message_def)

text \<open>
  C32: Standard Paxos messages arrive as they were sent: whatever sequence of messages is written to a
  connection, and however the network cuts the bytes into pieces, the receiver's read callback hands exactly
  these messages, in this order and each once, to the subscribers, and leaves nothing in its buffer.
\<close>

theorem standard_messages_arrive:
  assumes "msgpack_library m" "list_all paxos_message_fits msgs"
    and "concat chunks = foldl (send_paxos_message m) [] msgs"
  shows "read_chunks (on_read m subs p) s [] chunks = Some (foldl (dispatch_message subs p) s msgs, [])"
proof -
  have "concat chunks = concat (map (msgpack_pack_paxos_message m) msgs)" using assms(3) by (simp add: sent_stream)
  then show ?thesis by (rule msgpack_library.standard_stream [OF assms(1,2)])
qed

text \<open>A subscriber that appends what it is told to a log, for concrete runs.\<close>

definition log_sub :: "u32 \<Rightarrow> (('p \<times> 'm) list, 'p, 'm) subscription" where
  "log_sub t = \<lparr>sub_type = t, sub_callback = (\<lambda>log p msg. log @ [(p, msg)])\<rparr>"

theorem standard_messages_arrive_witness:
  "read_chunks (on_read msgpack_format [log_sub 2, log_sub 7] 5) [] []
     [[0x95, 2, 0xcd, 1], [0x2c, 3, 1, 0xc4, 2, 7, 8, 0x92, 7], [4]]
   = Some ([(5, PAXOS_ACCEPT \<lparr>acc_iid = 300, acc_ballot = Ballot 3 1, acc_value = [7, 8]\<rparr>),
       (5, PAXOS_TRIM \<lparr>trim_iid = 4\<rparr>)], [])"
proof -
  let ?msgs = "[PAXOS_ACCEPT \<lparr>acc_iid = 300, acc_ballot = Ballot 3 1, acc_value = [7, 8]\<rparr>, PAXOS_TRIM \<lparr>trim_iid = 4\<rparr>]"
  let ?chunks = "[[0x95, 2, 0xcd, 1], [0x2c, 3, 1, 0xc4, 2, 7, 8, 0x92, 7], [4]] :: byte list list"
  have "list_all paxos_message_fits ?msgs" by (simp add: paxos_message_fits_def ballot_items_def)
  moreover have "concat ?chunks = foldl (send_paxos_message msgpack_format) [] ?msgs" by code_simp
  ultimately have "read_chunks (on_read msgpack_format [log_sub 2, log_sub 7] 5) [] [] ?chunks
      = Some (foldl (dispatch_message [log_sub 2, log_sub 7] 5) [] ?msgs, [])"
    by (rule standard_messages_arrive [OF fmt.msgpack_library_axioms])
  then show ?thesis by (simp add: dispatch_message_def log_sub_def)
qed

lemma foldl_numbered:
  "foldl (\<lambda>(s, k) msg. (h s (g k msg), Suc k)) (s, k) msgs = (foldl h s (map2 g [k..<k + length msgs] msgs), k + length msgs)"
proof (induction msgs arbitrary: s k)
  case (Cons msg msgs)
  have "[k..<k + length (msg # msgs)] = k # [Suc k..<Suc k + length msgs]" by (subst upt_conv_Cons) simp_all
  then show ?case using Cons by (simp del: upt_Suc)
qed simp

text \<open>
  C33: Epoch Paxos messages arrive as they were sent, with one exception: whatever sequence of messages is written to a
  connection, and however the network cuts the bytes into pieces, the receiver's read callback hands these
  messages, in this order and each once, to the subscribers, but the instance number in the state of an acceptor is
  not transmitted: for each message the receiver finds there what its memory held before, which may differ from
  message to message.  No value has \<open>2\<^sup>3\<^sup>1\<close> bytes or more.
\<close>

theorem epoch_messages_arrive:
  assumes "msgpack_library m" "list_all epoch_message_fits msgs"
    and "concat chunks = foldl (send_epoch_paxos_message m) [] msgs"
  shows "read_chunks (writeahead_epoch_paxos_on_read m junk subs p) (s, 0) [] chunks
    = Some ((foldl (writeahead_epoch_paxos_dispatch_message subs p) s
              (map2 (\<lambda>k. received_as (junk k)) [0..<length msgs] msgs), length msgs), [])"
proof -
  have "concat chunks = concat (map (msgpack_pack_writeahead_epoch_paxos_message m) msgs)"
    using assms(3) by (simp add: sent_stream)
  from msgpack_library.epoch_stream [OF assms(1,2) this, of junk subs p "(s, 0)"]
  show ?thesis
    using foldl_numbered [of "writeahead_epoch_paxos_dispatch_message subs p" "\<lambda>k. received_as (junk k)" s 0 msgs]
    by (simp add: case_prod_unfold)
qed

theorem epoch_messages_arrive_witness:
  "read_chunks (writeahead_epoch_paxos_on_read msgpack_format (\<lambda>k. if k = 0 then 42 else 17) [log_sub 6, log_sub 11] 5) ([], 0) []
     [[0x94, 11, 2, 0xcc], [200, 3, 0x92, 6, 4, 0x94], [11, 2, 7, 3]]
   = Some (([(5, WRITEAHEAD_ACCEPTOR_STATE \<lparr>was_standard_acceptor_state =
         \<lparr>as_aid = 2, as_trim_iid = 200, as_current_instance = 42\<rparr>, was_current_epoch = 3\<rparr>),
       (5, WRITEAHEAD_EPOCH_NOTIFICATION \<lparr>en_new_epoch = 4\<rparr>),
       (5, WRITEAHEAD_ACCEPTOR_STATE \<lparr>was_standard_acceptor_state =
         \<lparr>as_aid = 2, as_trim_iid = 7, as_current_instance = 17\<rparr>, was_current_epoch = 3\<rparr>)], 3), [])"
proof -
  let ?state = "\<lambda>t. WRITEAHEAD_ACCEPTOR_STATE \<lparr>was_standard_acceptor_state =
         \<lparr>as_aid = 2, as_trim_iid = t, as_current_instance = 300\<rparr>, was_current_epoch = 3\<rparr>"
  let ?msgs = "[?state 200, WRITEAHEAD_EPOCH_NOTIFICATION \<lparr>en_new_epoch = 4\<rparr>, ?state 7]"
  let ?chunks = "[[0x94, 11, 2, 0xcc], [200, 3, 0x92, 6, 4, 0x94], [11, 2, 7, 3]] :: byte list list"
  let ?junk = "\<lambda>k :: nat. if k = 0 then 42 else 17 :: u32"
  have "list_all epoch_message_fits ?msgs" by (simp add: epoch_message_fits_def)
  moreover have "concat ?chunks = foldl (send_epoch_paxos_message msgpack_format) [] ?msgs" by code_simp
  ultimately have arrive: "read_chunks (writeahead_epoch_paxos_on_read msgpack_format ?junk [log_sub 6, log_sub 11] 5) ([], 0) [] ?chunks
      = Some ((foldl (writeahead_epoch_paxos_dispatch_message [log_sub 6, log_sub 11] 5) []
          (map2 (\<lambda>k. received_as (?junk k)) [0..<length ?msgs] ?msgs), length ?msgs), [])"
    by (rule epoch_messages_arrive [OF fmt.msgpack_library_axioms])
  show ?thesis by (subst arrive) (simp add: writeahead_epoch_paxos_dispatch_message_def log_sub_def upt_rec)
qed

text \<open>
  A parse error is taken for a message, since its result \<open>MSGPACK_UNPACK_PARSE_ERROR\<close> is not 0: the byte
  \<open>0xc1\<close>, which begins no msgpack object, makes the receiver read elements of an array that does not exist.
\<close>

lemma parse_error_is_taken_for_message:
  "mp_unpack_next msgpack_format [0xc1] = (MSGPACK_UNPACK_PARSE_ERROR, ARRAY [], 0)
   \<and> recv_paxos_message msgpack_format [0xc1] = None"
  by code_simp

end
