(* ===== verification/Peers.thy ===== *)
theory Peers
  imports Ballots "HOL-Library.Multiset"
begin

text \<open>
  \<open>src/evpaxos/standard_paxos_peers.c\<close> and \<open>src/evpaxos/writeahead_epoch_paxos_peers.c\<close>: to whom a process is
  connected, and to which of them a message is sent.  A peer is its identifier and its address; the
  sockets and timers of libevent are left out.  The arrays are lists, their lengths the counts.
  A function that runs a callback on some peers returns these peers in order.  The addresses come
  from the configuration and are arguments; \<open>draw i\<close> is the result of the \<open>i\<close>-th call of \<open>rand\<close>.
\<close>

section \<open>State\<close>

record 'a peer =
  peer_id :: int
  peer_addr :: 'a

record 'a standard_paxos_peers =
  pp_peers :: "'a peer list"
  pp_proposers :: "'a peer list"
  pp_clients :: "'a peer list"
  pp_acceptor_partnership :: bool

record 'a writeahead_epoch_paxos_peers =
  wp_peers :: "'a peer list"
  wp_proposers :: "'a peer list"
  wp_actual_clients :: "'a peer list"
  wp_clients :: "'a peer list"

definition peers_new :: "'a standard_paxos_peers" where
  "peers_new = \<lparr>pp_peers = [], pp_proposers = [], pp_clients = [], pp_acceptor_partnership = True\<rparr>"

definition writeahead_epoch_paxos_peers_new :: "'a writeahead_epoch_paxos_peers" where
  "writeahead_epoch_paxos_peers_new = \<lparr>wp_peers = [], wp_proposers = [], wp_actual_clients = [], wp_clients = []\<rparr>"

definition peers_count :: "'a standard_paxos_peers \<Rightarrow> int" where
  "peers_count p = int (length (pp_peers p))"

definition writeahead_epoch_paxos_peers_count :: "'a writeahead_epoch_paxos_peers \<Rightarrow> int" where
  "writeahead_epoch_paxos_peers_count p = int (length (wp_peers p))"

definition make_peer :: "int \<Rightarrow> 'a \<Rightarrow> 'a peer" where
  "make_peer i addr = \<lparr>peer_id = i, peer_addr = addr\<rparr>"

section \<open>Connecting\<close>

text \<open>
  The loops the functions below are made of: connecting to the processes of the configuration, swapping the
  peer with a given identifier to the front, and swapping it to the end.
\<close>

definition connect_all :: "'a peer list \<Rightarrow> 'a list \<Rightarrow> 'a peer list" where
  "connect_all ps addrs = fold (\<lambda>(i, addr) ps. ps @ [make_peer (int i) addr]) (enumerate 0 addrs) ps"

definition swap_to_front :: "int \<Rightarrow> 'a peer list \<Rightarrow> 'a peer list" where
  "swap_to_front i ps =
     fold (\<lambda>k ps. if peer_id (ps ! k) = i then ps[k := ps ! 0, 0 := ps ! k] else ps) [0..<length ps] ps"

definition swap_to_end :: "int \<Rightarrow> 'a peer list \<Rightarrow> 'a peer list" where
  "swap_to_end i ps =
     fold (\<lambda>k ps. if peer_id (ps ! k) = i
             then ps[k := ps ! (length ps - 1), length ps - 1 := ps ! k] else ps) [0..<length ps] ps"

definition peers_connect_to_proposers :: "'a list \<Rightarrow> 'a standard_paxos_peers \<Rightarrow> int \<Rightarrow> 'a standard_paxos_peers" where
  "peers_connect_to_proposers addrs p partner_id =
     (let ps = connect_all (pp_proposers p) addrs
      in p\<lparr>pp_proposers := (if partner_id \<ge> 0 then swap_to_front partner_id ps else ps)\<rparr>)"

definition peers_connect_to_other_proposers :: "'a list \<Rightarrow> 'a standard_paxos_peers \<Rightarrow> int \<Rightarrow> 'a standard_paxos_peers" where
  "peers_connect_to_other_proposers addrs p self_id =
     (let ps = connect_all (pp_proposers p) addrs
      in p\<lparr>pp_proposers := (if self_id \<ge> 0 then butlast (swap_to_end self_id ps) else ps)\<rparr>)"

definition peers_connect_to_acceptors :: "'a list \<Rightarrow> 'a standard_paxos_peers \<Rightarrow> int \<Rightarrow> 'a standard_paxos_peers" where
  "peers_connect_to_acceptors addrs p partner_id =
     (let ps = connect_all (pp_peers p) addrs
      in if partner_id > - 1 then p\<lparr>pp_peers := swap_to_front partner_id ps\<rparr>
         else p\<lparr>pp_peers := ps, pp_acceptor_partnership := False\<rparr>)"

definition writeahead_epoch_paxos_peers_connect_to_acceptors ::
    "'a list \<Rightarrow> 'a writeahead_epoch_paxos_peers \<Rightarrow> int \<Rightarrow> 'a writeahead_epoch_paxos_peers" where
  "writeahead_epoch_paxos_peers_connect_to_acceptors addrs p source_id =
     p\<lparr>wp_peers := swap_to_front source_id (connect_all (wp_peers p) addrs)\<rparr>"

definition writeahead_epoch_paxos_peers_connect_to_other_proposers ::
    "'a list \<Rightarrow> 'a writeahead_epoch_paxos_peers \<Rightarrow> int \<Rightarrow> 'a writeahead_epoch_paxos_peers" where
  "writeahead_epoch_paxos_peers_connect_to_other_proposers addrs p self_id =
     (let ps = connect_all (wp_proposers p) addrs
      in p\<lparr>wp_proposers := (if self_id > 0 then butlast (swap_to_end self_id ps) else ps)\<rparr>)"

text \<open>Here the other end of the swap is in the wrong array; \<open>None\<close> is a read behind its end.\<close>

definition writeahead_epoch_paxos_peers_connect_to_other_learners ::
    "'a list \<Rightarrow> 'a writeahead_epoch_paxos_peers \<Rightarrow> int \<Rightarrow> 'a writeahead_epoch_paxos_peers option" where
  "writeahead_epoch_paxos_peers_connect_to_other_learners addrs p self_id =
     (let ps = connect_all (wp_actual_clients p) addrs;
          step = (\<lambda>k r. case r of
            None \<Rightarrow> None
          | Some ps \<Rightarrow>
              if peer_id (ps ! k) = self_id
              then if length ps - 1 < length (wp_proposers p)
                   then Some (ps[k := wp_proposers p ! (length ps - 1), length ps - 1 := ps ! k]) else None
              else Some ps)
      in if self_id > 0
         then map_option (\<lambda>ps. p\<lparr>wp_actual_clients := butlast ps\<rparr>) (fold step [0..<length ps] (Some ps))
         else Some (p\<lparr>wp_actual_clients := ps\<rparr>))"

text \<open>
  A fresh \<open>p\<close> is assumed here: the two functions write at the index of the configuration and not behind
  the peers that are there already.
\<close>

definition writeahead_epoch_paxos_peers_connect_to_proposers ::
    "'a list \<Rightarrow> 'a writeahead_epoch_paxos_peers \<Rightarrow> int \<Rightarrow> 'a writeahead_epoch_paxos_peers" where
  "writeahead_epoch_paxos_peers_connect_to_proposers addrs p self_id =
     (let ps = connect_all [] addrs
      in p\<lparr>wp_proposers := (if self_id \<ge> 0 then swap_to_front self_id ps else ps)\<rparr>)"

definition writeahead_epoch_paxos_peers_connect_to_clients ::
    "'a list \<Rightarrow> 'a writeahead_epoch_paxos_peers \<Rightarrow> int \<Rightarrow> 'a writeahead_epoch_paxos_peers" where
  "writeahead_epoch_paxos_peers_connect_to_clients addrs p self_id =
     (let ps = connect_all [] addrs
      in p\<lparr>wp_actual_clients := (if self_id \<ge> 0 then swap_to_front self_id ps else ps)\<rparr>)"

section \<open>Sending to peers\<close>

text \<open>\<open>peers_get_acceptor\<close> has no bound on its index: \<open>None\<close> is a read behind the array, \<open>Some None\<close> is \<open>NULL\<close>.\<close>

definition peers_get_acceptor :: "'a standard_paxos_peers \<Rightarrow> int \<Rightarrow> 'a peer option option" where
  "peers_get_acceptor p i =
     (if pp_peers p = [] then Some None
      else case find (\<lambda>q. peer_id q = i) (pp_peers p) of None \<Rightarrow> None | Some q \<Rightarrow> Some (Some q))"

definition writeahead_epoch_paxos_peers_get_acceptor :: "'a writeahead_epoch_paxos_peers \<Rightarrow> int \<Rightarrow> 'a peer option option" where
  "writeahead_epoch_paxos_peers_get_acceptor p i =
     (if wp_peers p = [] then Some None
      else case find (\<lambda>q. peer_id q = i) (wp_peers p) of None \<Rightarrow> None | Some q \<Rightarrow> Some (Some q))"

text \<open>\<open>None\<close> is a failed \<open>assert\<close>, or the callback on a pointer that was never set.\<close>

definition peers_send_to_proposer :: "'a standard_paxos_peers \<Rightarrow> int \<Rightarrow> 'a peer option" where
  "peers_send_to_proposer p prop_id =
     (if 0 \<le> prop_id \<and> prop_id < int (length (pp_proposers p))
      then find (\<lambda>q. peer_id q = prop_id) (pp_proposers p) else None)"

definition writeahead_epoch_paxos_peers_send_to_proposer :: "'a writeahead_epoch_paxos_peers \<Rightarrow> int \<Rightarrow> 'a peer option" where
  "writeahead_epoch_paxos_peers_send_to_proposer p prop_id =
     (if 0 \<le> prop_id \<and> prop_id < int (length (wp_proposers p))
      then find (\<lambda>q. peer_id q = prop_id) (wp_proposers p) else None)"

text \<open>The functions that run a callback on all peers of a kind.\<close>

definition peers_foreach_proposer :: "'a standard_paxos_peers \<Rightarrow> 'a peer list" where
  "peers_foreach_proposer p = pp_proposers p"

definition peers_foreach_acceptor :: "'a standard_paxos_peers \<Rightarrow> 'a peer list" where
  "peers_foreach_acceptor p = pp_peers p"

definition peers_foreach_client :: "'a standard_paxos_peers \<Rightarrow> 'a peer list" where
  "peers_foreach_client p = pp_clients p"

definition writeahead_epoch_paxos_peers_foreach_proposer :: "'a writeahead_epoch_paxos_peers \<Rightarrow> 'a peer list" where
  "writeahead_epoch_paxos_peers_foreach_proposer p = wp_proposers p"

definition writeahead_epoch_paxos_peers_foreach_acceptor :: "'a writeahead_epoch_paxos_peers \<Rightarrow> 'a peer list" where
  "writeahead_epoch_paxos_peers_foreach_acceptor p = wp_peers p"

definition writeahead_epoch_paxos_peers_foreach_learner :: "'a writeahead_epoch_paxos_peers \<Rightarrow> 'a peer list" where
  "writeahead_epoch_paxos_peers_foreach_learner p = wp_actual_clients p"

definition writeahead_epoch_paxos_peers_foreach_client :: "'a writeahead_epoch_paxos_peers \<Rightarrow> 'a peer list" where
  "writeahead_epoch_paxos_peers_foreach_client p = wp_clients p"

text \<open>\<open>shuffle\<close> on the \<open>n\<close> elements of the array that begin at index \<open>off\<close>.\<close>

definition shuffle :: "(nat \<Rightarrow> nat) \<Rightarrow> nat \<Rightarrow> nat \<Rightarrow> 'a peer list \<Rightarrow> 'a peer list" where
  "shuffle draw off n ps =
     (if n > 1
      then fold (\<lambda>i ps. let j = i + draw i div (unat RAND_MAX div (n - i) + 1)
                        in ps[off + j := ps ! (off + i), off + i := ps ! (off + j)]) [0..<n - 1] ps
      else ps)"

text \<open>
  The shared shape of the \<open>..._for_n_...\<close> functions: the peers in their new order, and those that get the
  message.  For \<open>n < 1\<close> the conversion of \<open>n - 1\<close> to \<open>size_t\<close> makes \<open>shuffle\<close> run over the end, which is \<open>None\<close>.
\<close>

definition for_n :: "(nat \<Rightarrow> nat) \<Rightarrow> nat \<Rightarrow> 'a peer list \<Rightarrow> int \<Rightarrow> ('a peer list \<times> 'a peer list) option" where
  "for_n draw off ps n =
     (let n = min n (int (length ps))
      in if n < 1 then None
         else let ps = shuffle draw off (nat (n - 1)) ps in Some (ps, take (nat n) ps))"

definition peers_for_n_acceptor ::
    "(nat \<Rightarrow> nat) \<Rightarrow> 'a standard_paxos_peers \<Rightarrow> int \<Rightarrow> ('a standard_paxos_peers \<times> 'a peer list) option" where
  "peers_for_n_acceptor draw p n =
     map_option (\<lambda>(ps, receivers). (p\<lparr>pp_peers := ps\<rparr>, receivers))
       (for_n draw (if pp_acceptor_partnership p then 1 else 0) (pp_peers p) n)"

definition peers_for_n_proposers ::
    "(nat \<Rightarrow> nat) \<Rightarrow> 'a standard_paxos_peers \<Rightarrow> int \<Rightarrow> ('a standard_paxos_peers \<times> 'a peer list) option" where
  "peers_for_n_proposers draw p n =
     map_option (\<lambda>(ps, receivers). (p\<lparr>pp_proposers := ps\<rparr>, receivers)) (for_n draw 1 (pp_proposers p) n)"

definition writeahead_epoch_paxos_peers_for_n_proposers ::
    "(nat \<Rightarrow> nat) \<Rightarrow> 'a writeahead_epoch_paxos_peers \<Rightarrow> int \<Rightarrow> ('a writeahead_epoch_paxos_peers \<times> 'a peer list) option" where
  "writeahead_epoch_paxos_peers_for_n_proposers draw p n =
     map_option (\<lambda>(ps, receivers). (p\<lparr>wp_proposers := ps\<rparr>, receivers)) (for_n draw 1 (wp_proposers p) n)"

definition writeahead_epoch_paxos_peers_for_n_acceptor ::
    "(nat \<Rightarrow> nat) \<Rightarrow> 'a writeahead_epoch_paxos_peers \<Rightarrow> int \<Rightarrow> ('a writeahead_epoch_paxos_peers \<times> 'a peer list) option" where
  "writeahead_epoch_paxos_peers_for_n_acceptor draw p n =
     map_option (\<lambda>(ps, receivers). (p\<lparr>wp_peers := ps\<rparr>, receivers)) (for_n draw 1 (wp_peers p) n)"

definition writeahead_epoch_paxos_peers_for_n_actual_clients ::
    "(nat \<Rightarrow> nat) \<Rightarrow> 'a writeahead_epoch_paxos_peers \<Rightarrow> int \<Rightarrow> ('a writeahead_epoch_paxos_peers \<times> 'a peer list) option" where
  "writeahead_epoch_paxos_peers_for_n_actual_clients draw p n =
     map_option (\<lambda>(ps, receivers). (p\<lparr>wp_actual_clients := ps\<rparr>, receivers)) (for_n draw 1 (wp_actual_clients p) n)"

text \<open>A random peer; \<open>None\<close> is a choice that does not end or lies outside of the array.\<close>

definition random_peer :: "u32 list \<Rightarrow> 'a peer list \<Rightarrow> 'a peer option" where
  "random_peer draws ps =
     (case random_between draws 0 (of_nat (length ps) - 1) of
        None \<Rightarrow> None
      | Some k \<Rightarrow> if unat k < length ps then Some (ps ! unat k) else None)"

definition writeahead_epoch_paxos_peers_for_a_random_acceptor :: "u32 list \<Rightarrow> 'a writeahead_epoch_paxos_peers \<Rightarrow> 'a peer option" where
  "writeahead_epoch_paxos_peers_for_a_random_acceptor draws p = random_peer draws (wp_peers p)"

definition writeahead_epoch_paxos_peers_for_a_random_client :: "u32 list \<Rightarrow> 'a writeahead_epoch_paxos_peers \<Rightarrow> 'a peer option" where
  "writeahead_epoch_paxos_peers_for_a_random_client draws p = random_peer draws (wp_actual_clients p)"

section \<open>Clients\<close>

text \<open>
  A client is a process that connected to this one.  Its identifier is its index, from which it is found again
  when the connection closes.
\<close>

definition accept_client :: "'a peer list \<Rightarrow> 'a \<Rightarrow> 'a peer list" where
  "accept_client clients addr = clients @ [make_peer (int (length clients)) addr]"

definition close_client :: "'a peer list \<Rightarrow> nat \<Rightarrow> 'a peer list" where
  "close_client clients i =
     butlast (fold (\<lambda>k cs. cs[k := (cs ! (k + 1))\<lparr>peer_id := int k\<rparr>]) [i..<length clients - 1] clients)"

definition on_accept :: "'a standard_paxos_peers \<Rightarrow> 'a \<Rightarrow> 'a standard_paxos_peers" where
  "on_accept p addr = p\<lparr>pp_clients := accept_client (pp_clients p) addr\<rparr>"

text \<open>The argument of the event is the peer \<open>q\<close> whose connection was closed.\<close>

definition on_client_event :: "'a standard_paxos_peers \<Rightarrow> 'a peer \<Rightarrow> 'a standard_paxos_peers" where
  "on_client_event p q = p\<lparr>pp_clients := close_client (pp_clients p) (nat (peer_id q))\<rparr>"

definition writeahead_epoch_paxos_on_accept :: "'a writeahead_epoch_paxos_peers \<Rightarrow> 'a \<Rightarrow> 'a writeahead_epoch_paxos_peers" where
  "writeahead_epoch_paxos_on_accept p addr = p\<lparr>wp_clients := accept_client (wp_clients p) addr\<rparr>"

definition writeahead_epoch_paxos_on_client_event ::
    "'a writeahead_epoch_paxos_peers \<Rightarrow> 'a peer \<Rightarrow> 'a writeahead_epoch_paxos_peers" where
  "writeahead_epoch_paxos_on_client_event p q = p\<lparr>wp_clients := close_client (wp_clients p) (nat (peer_id q))\<rparr>"

section \<open>Who is connected\<close>

lemma connect_all_eq: "connect_all ps addrs = ps @ map (\<lambda>(i, addr). make_peer (int i) addr) (enumerate 0 addrs)"
proof -
  have "fold (\<lambda>(i, addr) ps. ps @ [make_peer (int i) addr]) xs ps = ps @ map (\<lambda>(i, addr). make_peer (int i) addr) xs"
    for xs :: "(nat \<times> 'a) list"
    by (induction xs arbitrary: ps) auto
  then show ?thesis by (simp add: connect_all_def)
qed

lemma length_connect_all [simp]: "length (connect_all ps addrs) = length ps + length addrs"
  by (simp add: connect_all_eq)

lemma nth_connect_all: "k < length addrs \<Longrightarrow> connect_all [] addrs ! k = make_peer (int k) (addrs ! k)"
  by (simp add: connect_all_eq nth_enumerate_eq)

text \<open>The loop that swaps the peer with identifier \<open>i\<close>, when the identifier occurs once, at \<open>j\<close>.\<close>

lemma swap_to_front_eq:
  assumes "j < length ps" "\<And>k. k < length ps \<Longrightarrow> peer_id (ps ! k) = i \<longleftrightarrow> k = j"
  shows "swap_to_front i ps = ps[j := ps ! 0, 0 := ps ! j]"
proof -
  let ?f = "\<lambda>k ps. if peer_id (ps ! k) = i then ps[k := ps ! 0, 0 := ps ! k] else ps"
  have "fold ?f [0..<k] ps = (if j < k then ps[j := ps ! 0, 0 := ps ! j] else ps)" if "k \<le> length ps" for k
    using that
  proof (induction k)
    case (Suc k)
    then have "fold ?f [0..<Suc k] ps = ?f k (if j < k then ps[j := ps ! 0, 0 := ps ! j] else ps)" by simp
    also have "\<dots> = (if j < Suc k then ps[j := ps ! 0, 0 := ps ! j] else ps)"
      using Suc.prems assms(2) [of k] by auto
    finally show ?case .
  qed simp
  with assms(1) show ?thesis by (simp add: swap_to_front_def)
qed

lemma swap_to_end_eq:
  assumes "j < length ps" "\<And>k. k < length ps \<Longrightarrow> peer_id (ps ! k) = i \<longleftrightarrow> k = j"
  shows "swap_to_end i ps = ps[j := ps ! (length ps - 1), length ps - 1 := ps ! j]"
proof -
  let ?e = "length ps - 1"
  let ?f = "\<lambda>k ps. if peer_id (ps ! k) = i then ps[k := ps ! (length ps - 1), length ps - 1 := ps ! k] else ps"
  have "fold ?f [0..<k] ps = (if j < k then ps[j := ps ! ?e, ?e := ps ! j] else ps)" if "k \<le> length ps" for k
    using that
  proof (induction k)
    case (Suc k)
    then have "fold ?f [0..<Suc k] ps = ?f k (if j < k then ps[j := ps ! ?e, ?e := ps ! j] else ps)" by simp
    also have "\<dots> = (if j < Suc k then ps[j := ps ! ?e, ?e := ps ! j] else ps)"
    proof (cases "j < k \<and> k = ?e")
      case True
      with assms(1) show ?thesis by (auto simp: list_update_swap)
    next
      case False
      with Suc.prems assms(2) [of k] show ?thesis by auto
    qed
    finally show ?case .
  qed simp
  with assms(1) show ?thesis by (simp add: swap_to_end_def)
qed

lemma connect_all_ids: "k < length addrs \<Longrightarrow> peer_id (connect_all [] addrs ! k) = int j \<longleftrightarrow> k = j"
  by (simp add: nth_connect_all make_peer_def)

lemma swap_to_front_connected:
  assumes "j < length addrs"
  shows "mset (swap_to_front (int j) (connect_all [] addrs)) = mset (connect_all [] addrs)"
    and "swap_to_front (int j) (connect_all [] addrs) ! 0 = make_peer (int j) (addrs ! j)"
proof -
  have eq: "swap_to_front (int j) (connect_all [] addrs)
      = (connect_all [] addrs)[j := connect_all [] addrs ! 0, 0 := connect_all [] addrs ! j]"
    using assms by (intro swap_to_front_eq) (simp_all add: connect_all_ids)
  have "0 < length addrs" using assms by linarith
  then show "mset (swap_to_front (int j) (connect_all [] addrs)) = mset (connect_all [] addrs)"
    unfolding eq using assms by (intro mset_swap) simp_all
  show "swap_to_front (int j) (connect_all [] addrs) ! 0 = make_peer (int j) (addrs ! j)"
    unfolding eq using assms \<open>0 < length addrs\<close> by (simp add: nth_connect_all)
qed

lemma swap_to_end_connected:
  assumes "j < length addrs"
  shows "mset (butlast (swap_to_end (int j) (connect_all [] addrs)))
    = mset (connect_all [] addrs) - {#make_peer (int j) (addrs ! j)#}"
proof -
  let ?c = "connect_all [] addrs"
  have ne: "addrs \<noteq> []" using assms by auto
  then have c: "?c \<noteq> []" by (metis length_connect_all list.size(3) add_0 length_0_conv)
  have eq: "swap_to_end (int j) ?c = ?c[j := ?c ! (length ?c - 1), length ?c - 1 := ?c ! j]"
    using assms by (intro swap_to_end_eq) (simp_all add: connect_all_ids)
  have m: "mset (swap_to_end (int j) ?c) = mset ?c"
    unfolding eq using assms ne by (intro mset_swap) simp_all
  have last: "last (swap_to_end (int j) ?c) = make_peer (int j) (addrs ! j)"
    unfolding eq using assms c by (subst last_list_update) (simp_all add: nth_connect_all)
  have "swap_to_end (int j) ?c \<noteq> []" using c by (simp add: eq)
  then have "mset (swap_to_end (int j) ?c) = mset (butlast (swap_to_end (int j) ?c)) + {#make_peer (int j) (addrs ! j)#}"
    using last by (metis append_butlast_last_id mset_append mset_single_iff mset.simps)
  then show ?thesis using m by simp
qed

section \<open>Shuffling\<close>

lemma draw_below: "r \<le> R \<Longrightarrow> 0 < k \<Longrightarrow> r div (R div k + 1) < (k :: nat)"
proof -
  assume "r \<le> R" "0 < k"
  have "R < k * (R div k + 1)" using \<open>0 < k\<close> by (metis add.commute dividend_less_times_div mult.commute mult_Suc_right plus_1_eq_Suc)
  with \<open>r \<le> R\<close> show ?thesis by (simp add: div_less_iff_less_mult less_mult_imp_div_less)
qed

lemma shuffle_keeps:
  assumes "\<And>i. draw i \<le> unat RAND_MAX" "off + n \<le> q" "q \<le> length ps"
  shows "mset (take q (shuffle draw off n ps)) = mset (take q ps) \<and> length (shuffle draw off n ps) = length ps
    \<and> (\<forall>k < off. shuffle draw off n ps ! k = ps ! k)"
proof (cases "n > 1")
  case True
  let ?P = "\<lambda>qs. mset (take q qs) = mset (take q ps) \<and> length qs = length ps \<and> (\<forall>k < off. qs ! k = ps ! k)"
  let ?f = "\<lambda>i ps. let j = i + draw i div (unat RAND_MAX div (n - i) + 1)
                  in ps[off + j := ps ! (off + i), off + i := ps ! (off + j)]"
  have "?P (fold ?f [0..<n - 1] ps)"
  proof (rule fold_invariant [where Q = "\<lambda>i. i < n - 1"])
    fix i and qs :: "'a peer list"
    assume i: "i < n - 1" and P: "?P qs"
    define j where "j = i + draw i div (unat RAND_MAX div (n - i) + 1)"
    have "draw i div (unat RAND_MAX div (n - i) + 1) < n - i" using i assms(1) by (intro draw_below) auto
    then have j: "j < n" by (simp add: j_def)
    have "take q (qs[off + j := qs ! (off + i), off + i := qs ! (off + j)])
        = (take q qs)[off + j := take q qs ! (off + i), off + i := take q qs ! (off + j)]"
      using i j assms(2) by (simp add: take_update_swap)
    also have "mset \<dots> = mset (take q qs)" using i j assms(2,3) P by (intro mset_swap) auto
    finally show "?P (?f i qs)" using P i j unfolding Let_def j_def [symmetric] by simp
  qed simp_all
  with True show ?thesis by (simp add: shuffle_def)
qed (simp add: shuffle_def)

lemma for_n_receivers:
  assumes "\<And>i. draw i \<le> unat RAND_MAX" "1 \<le> n" "n \<le> int (length ps)" "off \<le> 1"
  shows "\<exists>ps' rs. for_n draw off ps n = Some (ps', rs) \<and> mset rs = mset (take (nat n) ps) \<and> mset ps' = mset ps
    \<and> (off = 1 \<longrightarrow> rs ! 0 = ps ! 0)"
proof -
  let ?ps' = "shuffle draw off (nat (n - 1)) ps"
  have q: "off + nat (n - 1) \<le> nat n" "nat n \<le> length ps" using assms(2-4) by linarith+
  note few = shuffle_keeps [where draw = draw, OF assms(1) q]
  have "off + nat (n - 1) \<le> length ps" using q by linarith
  note all = shuffle_keeps [where draw = draw, OF assms(1) this order_refl]
  have "for_n draw off ps n = Some (?ps', take (nat n) ?ps')" using assms(2,3) by (simp add: for_n_def Let_def min_def)
  moreover have "take (nat n) ?ps' ! 0 = ps ! 0" if "off = 1" using few that assms(2) by simp
  ultimately show ?thesis using few all by auto
qed

section \<open>Clients are numbered by their index\<close>

definition clients_numbered :: "'a peer list \<Rightarrow> bool" where
  "clients_numbered cs \<longleftrightarrow> (\<forall>i < length cs. peer_id (cs ! i) = int i)"

lemma close_client_nth:
  assumes "i < length cs" "k < length cs - 1"
  shows "close_client cs i ! k = (if k < i then cs ! k else (cs ! (k + 1))\<lparr>peer_id := int k\<rparr>)"
proof -
  let ?f = "\<lambda>k cs. cs[k := (cs ! (k + 1))\<lparr>peer_id := int k\<rparr>]"
  have loop: "length (fold ?f [i..<e] cs) = length cs
      \<and> (\<forall>k < length cs. fold ?f [i..<e] cs ! k = (if i \<le> k \<and> k < e then (cs ! (k + 1))\<lparr>peer_id := int k\<rparr> else cs ! k))"
    if "i \<le> e" "e < length cs" for e
    using that
  proof (induction e rule: dec_induct)
    case (step e)
    then have "fold ?f [i..<Suc e] cs = ?f e (fold ?f [i..<e] cs)" by simp
    with step show ?case by (auto simp: nth_list_update less_Suc_eq)
  qed auto
  have "i \<le> length cs - 1" "length cs - 1 < length cs" using assms by linarith+
  from loop [OF this] assms(2) show ?thesis by (simp add: close_client_def nth_butlast not_less)
qed

lemma close_client_length: "length (close_client cs i) = length cs - 1"
proof -
  have "length (fold (\<lambda>k cs. cs[k := (cs ! (k + 1))\<lparr>peer_id := int k\<rparr>]) ks cs) = length cs" for ks
    by (induction ks arbitrary: cs) auto
  then show ?thesis by (simp add: close_client_def)
qed

lemma close_client_numbered:
  assumes "clients_numbered cs" "i < length cs"
  shows "clients_numbered (close_client cs i)"
    and "map peer_addr (close_client cs i) = map peer_addr (take i cs @ drop (i + 1) cs)"
proof -
  show "clients_numbered (close_client cs i)"
    using assms by (auto simp: clients_numbered_def close_client_length close_client_nth)
  show "map peer_addr (close_client cs i) = map peer_addr (take i cs @ drop (i + 1) cs)"
    using assms(2) by (intro nth_equalityI) (auto simp: close_client_length close_client_nth nth_append)
qed

lemma accept_client_numbered:
  "clients_numbered cs \<Longrightarrow> clients_numbered (accept_client cs addr)"
  by (auto simp: clients_numbered_def accept_client_def make_peer_def nth_append)

section \<open>Properties\<close>

text \<open>
  When a process has connected to the acceptors, a message to \<open>n\<close> of them goes to \<open>n\<close> different acceptors,
  the co-located one first.  Although the peers are shuffled, these are always the same \<open>n\<close>
  acceptors: only the order among the first \<open>n\<close> changes.
\<close>

theorem message_goes_to_same_acceptors:
  assumes "j < length addrs" "\<And>i. draw i \<le> unat RAND_MAX" "1 \<le> n" "n \<le> int (length addrs)"
  shows "\<exists>p rs. peers_for_n_acceptor draw (peers_connect_to_acceptors addrs peers_new (int j)) n = Some (p, rs)
    \<and> mset rs = mset (take (nat n) (pp_peers (peers_connect_to_acceptors addrs peers_new (int j))))
    \<and> rs ! 0 = make_peer (int j) (addrs ! j) \<and> length rs = nat n
    \<and> mset (pp_peers p) = mset (map (\<lambda>i. make_peer (int i) (addrs ! i)) [0..<length addrs])"
proof -
  let ?ps = "swap_to_front (int j) (connect_all [] addrs)"
  have p: "peers_connect_to_acceptors addrs peers_new (int j)
      = \<lparr>pp_peers = ?ps, pp_proposers = [], pp_clients = [], pp_acceptor_partnership = True\<rparr>"
    by (simp add: peers_connect_to_acceptors_def peers_new_def)
  note front = swap_to_front_connected [OF assms(1)]
  have len: "length ?ps = length addrs" using front(1) by (metis length_connect_all add_0 list.size(3) size_mset)
  from for_n_receivers [where draw = draw and ps = ?ps and off = 1, OF assms(2,3)] assms(4) len
  obtain ps' rs where r: "for_n draw 1 ?ps n = Some (ps', rs)" "mset rs = mset (take (nat n) ?ps)" "mset ps' = mset ?ps"
    "rs ! 0 = ?ps ! 0" by auto
  have "length rs = nat n" using r(2) assms(4) len by (metis length_take min.absorb2 nat_le_iff size_mset)
  moreover have "connect_all [] addrs = map (\<lambda>i. make_peer (int i) (addrs ! i)) [0..<length addrs]"
    by (rule nth_equalityI) (simp_all add: nth_connect_all)
  ultimately show ?thesis using r front by (simp add: p peers_for_n_acceptor_def)
qed

theorem message_goes_to_same_acceptors_witness:
  "\<exists>p rs. peers_for_n_acceptor (\<lambda>i. 2000000000) (peers_connect_to_acceptors [''a'', ''b'', ''c'', ''d''] peers_new 2) 3 = Some (p, rs)
    \<and> set rs = {make_peer 2 ''c'', make_peer 1 ''b'', make_peer 0 ''a''}"
proof -
  have "(2000000000 :: nat) \<le> unat RAND_MAX" by (simp add: RAND_MAX_def)
  with message_goes_to_same_acceptors [of 2 "[''a'', ''b'', ''c'', ''d'']" "\<lambda>i. 2000000000" 3]
  obtain p rs where r: "peers_for_n_acceptor (\<lambda>i. 2000000000) (peers_connect_to_acceptors [''a'', ''b'', ''c'', ''d''] peers_new 2) 3
      = Some (p, rs)"
    "mset rs = mset (take 3 (pp_peers (peers_connect_to_acceptors [''a'', ''b'', ''c'', ''d''] peers_new 2)))"
    by auto
  have "set (take 3 (pp_peers (peers_connect_to_acceptors [''a'', ''b'', ''c'', ''d''] peers_new 2)))
      = {make_peer 2 ''c'', make_peer 1 ''b'', make_peer 0 ''a''}"
    by code_simp
  with r show ?thesis by (metis set_mset_mset)
qed

text \<open>The states of the clients: connections are accepted, and connections of clients are closed.\<close>

inductive clients_reachable :: "'a standard_paxos_peers \<Rightarrow> bool" where
  fresh: "clients_reachable peers_new"
| accepted: "clients_reachable p \<Longrightarrow> clients_reachable (on_accept p addr)"
| closed: "clients_reachable p \<Longrightarrow> q \<in> set (pp_clients p) \<Longrightarrow> clients_reachable (on_client_event p q)"

lemma reachable_clients_numbered: "clients_reachable p \<Longrightarrow> clients_numbered (pp_clients p)"
proof (induction rule: clients_reachable.induct)
  case fresh
  then show ?case by (simp add: peers_new_def clients_numbered_def)
next
  case (accepted p addr)
  then show ?case by (simp add: on_accept_def accept_client_numbered)
next
  case (closed p q)
  then obtain i where "i < length (pp_clients p)" "q = pp_clients p ! i" by (auto simp: in_set_conv_nth)
  with closed.IH have "nat (peer_id q) < length (pp_clients p)" by (simp add: clients_numbered_def)
  with closed.IH show ?case by (simp add: on_client_event_def close_client_numbered)
qed

text \<open>
  Clients stay numbered by their position, so that a closed connection is removed and no other: after
  any sequence of accepted and closed connections the identifier of every client is its index, and
  closing the connection of the client at position \<open>i\<close> leaves the other clients in their order.
\<close>

theorem closing_removes_that_client:
  assumes "clients_reachable p" "i < length (pp_clients p)"
  shows "peer_id (pp_clients p ! i) = int i
    \<and> map peer_addr (pp_clients (on_client_event p (pp_clients p ! i)))
       = map peer_addr (take i (pp_clients p) @ drop (i + 1) (pp_clients p))"
proof -
  have numbered: "clients_numbered (pp_clients p)" by (rule reachable_clients_numbered [OF assms(1)])
  then have "peer_id (pp_clients p ! i) = int i" using assms(2) by (simp add: clients_numbered_def)
  with close_client_numbered(2) [OF numbered assms(2)] show ?thesis by (simp add: on_client_event_def)
qed

theorem closing_removes_that_client_witness:
  "map peer_addr (pp_clients (on_client_event (on_accept (on_accept (on_accept peers_new ''a'') ''b'') ''c'')
      (make_peer 1 ''b''))) = [''a'', ''c'']"
proof -
  let ?p = "on_accept (on_accept (on_accept peers_new ''a'') ''b'') ''c''"
  have "clients_reachable ?p" by (intro clients_reachable.intros)
  moreover have "1 < length (pp_clients ?p)" "pp_clients ?p ! 1 = make_peer 1 ''b''"
    "map peer_addr (take 1 (pp_clients ?p) @ drop (1 + 1) (pp_clients ?p)) = [''a'', ''c'']"
    by code_simp+
  ultimately show ?thesis using closing_removes_that_client [of ?p 1] by simp
qed

text \<open>
  A proposer of epoch Paxos with identifier 0 is connected to itself: the guard is \<open>self_id > 0\<close>, where the one
  of standard Paxos is \<open>self_id >= 0\<close>.
\<close>

lemma other_proposers_are_connected:
  assumes "j < length addrs"
  shows "mset (pp_proposers (peers_connect_to_other_proposers addrs peers_new (int j)))
      = mset (connect_all [] addrs) - {#make_peer (int j) (addrs ! j)#}"
    and "wp_proposers (writeahead_epoch_paxos_peers_connect_to_other_proposers addrs writeahead_epoch_paxos_peers_new 0)
      = connect_all [] addrs"
  using swap_to_end_connected [OF assms]
  by (simp_all add: peers_connect_to_other_proposers_def peers_new_def
      writeahead_epoch_paxos_peers_connect_to_other_proposers_def writeahead_epoch_paxos_peers_new_def)

end
