(* ===== verification/Strategies.thy ===== *)
theory Strategies
  imports Ballots
begin

text \<open>
  When and at which ballot a proposer tries: the delays after a preemption (\<open>src/evpaxos/backoff.c\<close>,
  \<open>src/evpaxos/backoff_manager.c\<close>), the allocation of instances to proposers
  (\<open>src/evpaxos/round_robin_allocator.c\<close>), the choice of the next instance (\<open>src/evpaxos/instance_strategy.c\<close>)
  and the timer of \<open>src/paxos/performance_threshold_timer.c\<close>.  The clock and the random draws are arguments.
  \<open>None\<close> stands for a division by zero, a shift by the width of the word or more, and a choice of
  \<open>random_between\<close> that does not return.
\<close>

unbundle bit_operations_syntax

section \<open>Delays\<close>

type_synonym u64 = "64 word"

text \<open>
  \<open>struct backoff\<close> is a handle with a table of functions, here a record of functions.  \<open>draws k\<close> are the random
  numbers of the \<open>k\<close>-th call of \<open>random_between\<close>.
\<close>

record backoff =
  backoff_min :: u64
  backoff_max :: u64
  backoff_next :: "(nat \<Rightarrow> u32 list) \<Rightarrow> nat \<Rightarrow> u64 option"

record exponential_randomised_backoff =
  erb_max_backoff :: u64
  erb_min_backoff :: u64
  erb_max_initial_backoff :: u64

definition exponential_randomised_backoff_initial :: "u32 list \<Rightarrow> exponential_randomised_backoff \<Rightarrow> u64 option" where
  "exponential_randomised_backoff_initial draws h =
     map_option ucast (random_between draws (ucast (erb_min_backoff h)) (ucast (erb_max_initial_backoff h)))"

text \<open>\<open>new_time\<close> is an \<open>unsigned int\<close>, so that the result of the shift and the remainder is cut to 32 bits.\<close>

definition exponential_randomised_backoff_next ::
    "exponential_randomised_backoff \<Rightarrow> (nat \<Rightarrow> u32 list) \<Rightarrow> nat \<Rightarrow> u64 option" where
  "exponential_randomised_backoff_next h draws attempt_number =
     (case exponential_randomised_backoff_initial (draws 0) h of
        None \<Rightarrow> None
      | Some t \<Rightarrow>
          if attempt_number = 0 \<or> attempt_number > 64 \<or> erb_max_backoff h = 0 then None
          else let new_time = (ucast (push_bit (attempt_number - 1) t mod erb_max_backoff h) :: u32)
               in if ucast new_time < erb_min_backoff h
                  then exponential_randomised_backoff_initial (draws 1) h
                  else Some (ucast new_time))"

definition exponential_randomised_backoff_new :: "u64 \<Rightarrow> u64 \<Rightarrow> u64 \<Rightarrow> backoff" where
  "exponential_randomised_backoff_new mx mn max_initial =
     (let h = \<lparr>erb_max_backoff = mx, erb_min_backoff = mn, erb_max_initial_backoff = max_initial\<rparr>
      in \<lparr>backoff_min = erb_min_backoff h, backoff_max = erb_max_backoff h,
          backoff_next = exponential_randomised_backoff_next h\<rparr>)"

definition full_jitter_backoff_next :: "backoff \<Rightarrow> (nat \<Rightarrow> u32 list) \<Rightarrow> nat \<Rightarrow> u64 option" where
  "full_jitter_backoff_next base draws attempt_number =
     (case backoff_next base draws attempt_number of
        None \<Rightarrow> None
      | Some t \<Rightarrow> map_option ucast (random_between (draws 2) (ucast (backoff_min base)) (ucast t)))"

definition full_jitter_backoff_new :: "u64 \<Rightarrow> u64 \<Rightarrow> u64 \<Rightarrow> backoff" where
  "full_jitter_backoff_new mx mn max_initial =
     (let base = exponential_randomised_backoff_new mx mn max_initial
      in \<lparr>backoff_min = backoff_min base, backoff_max = backoff_max base, backoff_next = full_jitter_backoff_next base\<rparr>)"

section \<open>Delays per instance\<close>

record managed_backoff =
  mb_current_backoff :: timeval
  mb_attempt :: nat

record backoff_manager =
  bm_backingoff_instances :: "iid_t \<rightharpoonup> managed_backoff"
  bm_backoff_mechanism :: backoff

definition backoff_manager_new :: "backoff \<Rightarrow> backoff_manager" where
  "backoff_manager_new b = \<lparr>bm_backingoff_instances = Map.empty, bm_backoff_mechanism = b\<rparr>"

definition backoff_manager_get_backoff ::
    "(nat \<Rightarrow> u32 list) \<Rightarrow> backoff_manager \<Rightarrow> iid_t \<Rightarrow> (backoff_manager \<times> timeval) option" where
  "backoff_manager_get_backoff draws manager i =
     (let current = (case bm_backingoff_instances manager i of
            None \<Rightarrow> \<lparr>mb_current_backoff = \<lparr>tv_sec = 0, tv_usec = 0\<rparr>, mb_attempt = 1\<rparr>
          | Some b \<Rightarrow> b)
      in case backoff_next (bm_backoff_mechanism manager) draws (mb_attempt current) of
           None \<Rightarrow> None
         | Some t \<Rightarrow>
             let time = (mb_current_backoff current)\<lparr>tv_usec := sint t\<rparr>
             in Some (manager\<lparr>bm_backingoff_instances := (bm_backingoff_instances manager)
                        (i \<mapsto> \<lparr>mb_current_backoff = time, mb_attempt = mb_attempt current + 1\<rparr>)\<rparr>, time))"

definition backoff_manager_close_backoff_if_exists :: "backoff_manager \<Rightarrow> iid_t \<Rightarrow> backoff_manager" where
  "backoff_manager_close_backoff_if_exists manager i =
     manager\<lparr>bm_backingoff_instances := (bm_backingoff_instances manager)(i := None)\<rparr>"

definition backoff_manager_close_less_than_or_equal :: "backoff_manager \<Rightarrow> iid_t \<Rightarrow> backoff_manager" where
  "backoff_manager_close_less_than_or_equal manager i =
     manager\<lparr>bm_backingoff_instances := (\<lambda>k. if k \<le> i then None else bm_backingoff_instances manager k)\<rparr>"

section \<open>Allocation of instances\<close>

record round_robin_allocator =
  rra_proposer_id :: u32
  rra_proposer_count :: u32
  rra_ballot_giver :: ballot_giver
  rra_ballot_bias :: u32
  rra_delay_non_allocated_instances :: bool

definition round_robin_allocator_new :: "u32 \<Rightarrow> u32 \<Rightarrow> bool \<Rightarrow> bool \<Rightarrow> u32 \<Rightarrow> round_robin_allocator" where
  "round_robin_allocator_new pid proposer_count ballot_bias delay_non_allocated_instances ballot_increment =
     \<lparr>rra_proposer_id = pid, rra_proposer_count = proposer_count,
      rra_ballot_giver = ballot_giver_new pid ballot_increment,
      rra_ballot_bias = (if ballot_bias then ballot_increment else 0),
      rra_delay_non_allocated_instances = delay_non_allocated_instances\<rparr>"

text \<open>The cast to \<open>int\<close> is undone by the conversion to the type of \<open>proposer_count\<close>.\<close>

definition round_robin_allocator_is_allocated :: "round_robin_allocator \<Rightarrow> iid_t \<Rightarrow> bool option" where
  "round_robin_allocator_is_allocated a i =
     (if rra_proposer_count a = 0 then None else Some (i mod rra_proposer_count a = rra_proposer_id a))"

definition round_robin_allocator_get_ballot :: "u32 list \<Rightarrow> round_robin_allocator \<Rightarrow> iid_t \<Rightarrow> ballot option" where
  "round_robin_allocator_get_ballot draws a i =
     (case round_robin_allocator_is_allocated a i of
        None \<Rightarrow> None
      | Some True \<Rightarrow> ballot_giver_next draws (rra_ballot_giver a) (Ballot (rra_ballot_bias a) (rra_proposer_id a))
      | Some False \<Rightarrow> ballot_giver_next draws (rra_ballot_giver a) INVALID_BALLOT)"

definition round_robin_allocator_should_delay_proposal :: "round_robin_allocator \<Rightarrow> iid_t \<Rightarrow> bool option" where
  "round_robin_allocator_should_delay_proposal a i =
     map_option (\<lambda>allocated. allocated \<and> rra_delay_non_allocated_instances a) (round_robin_allocator_is_allocated a i)"

section \<open>Choice of the next instance\<close>

record instance_strategy =
  is_increment_interval :: timeval
  is_avg_msg_delay_us :: u32
  is_proposers_max_instance :: iid_t
  is_max_chosen_instance :: iid_t
  is_max_working_instance :: iid_t
  is_instance_choosing_velocity :: iid_t
  is_previous_velocity_calc :: timeval
  is_time_proposers_instance_was_chosen :: timeval

definition instance_strategy_new :: "timeval \<Rightarrow> u32 \<Rightarrow> iid_t \<Rightarrow> instance_strategy" where
  "instance_strategy_new now avg_msg_delay_us proposers_initial_instance =
     \<lparr>is_increment_interval = \<lparr>tv_sec = 0, tv_usec = 0\<rparr>, is_avg_msg_delay_us = avg_msg_delay_us,
      is_proposers_max_instance = proposers_initial_instance, is_max_chosen_instance = INVALID_INSTANCE,
      is_max_working_instance = INVALID_INSTANCE, is_instance_choosing_velocity = 0,
      is_previous_velocity_calc = now, is_time_proposers_instance_was_chosen = \<lparr>tv_sec = 0, tv_usec = 0\<rparr>\<rparr>"

definition instance_strategy_update_time_proposers_instance_chosen :: "instance_strategy \<Rightarrow> timeval \<Rightarrow> instance_strategy" where
  "instance_strategy_update_time_proposers_instance_chosen strategy time_chosen =
     strategy\<lparr>is_time_proposers_instance_was_chosen := time_chosen\<rparr>"

text \<open>The quotient is computed in 64 bits and cut to the 32 bits of the velocity.\<close>

definition instance_strategy_choosing_velocity :: "timeval \<Rightarrow> instance_strategy \<Rightarrow> iid_t \<Rightarrow> instance_strategy option" where
  "instance_strategy_choosing_velocity now strategy i =
     (let diff = timersub now (is_previous_velocity_calc strategy);
          diff_us = (of_int (tv_sec diff * 1000000 + tv_usec diff) :: u64)
      in if diff_us = 0 then None
         else Some (strategy\<lparr>is_instance_choosing_velocity :=
                is_instance_choosing_velocity strategy - ucast (ucast i div diff_us :: u64)\<rparr>))"

definition instance_strategy_update_max_instance_chosen :: "instance_strategy \<Rightarrow> iid_t \<Rightarrow> instance_strategy" where
  "instance_strategy_update_max_instance_chosen strategy i = strategy\<lparr>is_max_chosen_instance := i\<rparr>"

definition instance_strategy_update_max_working_instance ::
    "timeval \<Rightarrow> instance_strategy \<Rightarrow> iid_t \<Rightarrow> instance_strategy option" where
  "instance_strategy_update_max_working_instance now strategy i =
     instance_strategy_choosing_velocity now (strategy\<lparr>is_max_working_instance := i\<rparr>) i"

definition instance_strategy_get_proposal_instance :: "timeval \<Rightarrow> instance_strategy \<Rightarrow> iid_t" where
  "instance_strategy_get_proposal_instance now strategy =
     (if is_time_proposers_instance_was_chosen strategy = \<lparr>tv_sec = 0, tv_usec = 0\<rparr>
      then is_proposers_max_instance strategy
      else let res = timersub now (is_time_proposers_instance_was_chosen strategy)
           in if timer_greater res (is_increment_interval strategy)
              then is_max_working_instance strategy
                     + is_instance_choosing_velocity strategy * is_avg_msg_delay_us strategy
              else is_proposers_max_instance strategy)"

section \<open>The threshold timer\<close>

record timespec =
  ts_sec :: int
  ts_nsec :: int

record performance_threshold_timer =
  ptt_begin_time :: timespec
  ptt_end_time :: timespec
  ptt_threshold_time :: timespec

definition get_cleared_timespec :: timespec where
  "get_cleared_timespec = \<lparr>ts_sec = 0, ts_nsec = 0\<rparr>"

definition is_timespecs_equal :: "timespec \<Rightarrow> timespec \<Rightarrow> bool" where
  "is_timespecs_equal lhs rhs \<longleftrightarrow> ts_sec lhs = ts_sec rhs \<and> ts_nsec lhs = ts_nsec rhs"

definition is_timespec_greater_than :: "timespec \<Rightarrow> timespec \<Rightarrow> bool" where
  "is_timespec_greater_than lhs rhs = (if ts_sec lhs > ts_sec rhs then True else if ts_nsec lhs > ts_nsec rhs then True else False)"

definition timespec_get_elapsed_time :: "timespec \<Rightarrow> timespec \<Rightarrow> timespec" where
  "timespec_get_elapsed_time start stop =
     (if ts_nsec stop - ts_nsec start < 0
      then \<lparr>ts_sec = ts_sec stop - ts_sec start - 1, ts_nsec = ts_nsec stop - ts_nsec start + 1000000000\<rparr>
      else \<lparr>ts_sec = ts_sec stop - ts_sec start, ts_nsec = ts_nsec stop - ts_nsec start\<rparr>)"

definition performance_threshold_timer_clear :: "performance_threshold_timer \<Rightarrow> performance_threshold_timer" where
  "performance_threshold_timer_clear timer =
     timer\<lparr>ptt_begin_time := get_cleared_timespec, ptt_end_time := get_cleared_timespec\<rparr>"

definition performance_threshold_timer_new :: "timespec \<Rightarrow> performance_threshold_timer" where
  "performance_threshold_timer_new max_time =
     \<lparr>ptt_begin_time = get_cleared_timespec, ptt_end_time = get_cleared_timespec, ptt_threshold_time = max_time\<rparr>"

definition performance_threshold_timer_begin_timing :: "timespec \<Rightarrow> performance_threshold_timer \<Rightarrow> performance_threshold_timer" where
  "performance_threshold_timer_begin_timing now timer = timer\<lparr>ptt_begin_time := now\<rparr>"

definition performance_threshold_timer_end_timing :: "timespec \<Rightarrow> performance_threshold_timer \<Rightarrow> performance_threshold_timer" where
  "performance_threshold_timer_end_timing now timer = timer\<lparr>ptt_end_time := now\<rparr>"

definition performance_threshold_timer_was_threshold_exceeded :: "performance_threshold_timer \<Rightarrow> bool" where
  "performance_threshold_timer_was_threshold_exceeded timer =
     is_timespec_greater_than (timespec_get_elapsed_time (ptt_begin_time timer) (ptt_end_time timer)) (ptt_threshold_time timer)"

definition performance_threshold_timer_get_elapsed_time :: "performance_threshold_timer \<Rightarrow> timespec" where
  "performance_threshold_timer_get_elapsed_time timer = timespec_get_elapsed_time (ptt_begin_time timer) (ptt_end_time timer)"

section \<open>Bounds of the delays\<close>

lemma random_between_bounds:
  assumes "random_between draws mn mx = Some x" "mn \<le> mx"
  shows "mn \<le> x \<and> x \<le> mx"
proof -
  from random_between_range [OF assms(1)] obtain k where k: "x = mn + k" "k < 1 + mx - mn" by blast
  have d: "unat (mx - mn) = unat mx - unat mn" using assms(2) by (simp add: unat_sub)
  have "k \<le> mx - mn"
  proof (rule ccontr)
    assume "\<not> k \<le> mx - mn"
    then have "mx - mn < k" by simp
    then have "mx - mn + 1 \<le> k" by (simp add: inc_le)
    with k(2) show False by (simp add: algebra_simps)
  qed
  then have "unat mn + unat k \<le> unat mx" using d assms(2) by (simp add: word_le_nat_alt)
  then have "unat (mn + k) = unat mn + unat k" using unat_u32_lt [of mx] by (intro unat_add_no_overflow) linarith
  with \<open>unat mn + unat k \<le> unat mx\<close> k(1) show ?thesis by (simp add: word_le_nat_alt)
qed

lemma unat_cut_u64: "x < 2 ^ 32 \<Longrightarrow> unat (ucast x :: u32) = unat x" for x :: u64
  by (simp add: word_less_nat_alt unsigned_ucast_eq take_bit_eq_mod)

lemma unat_extend_u32: "unat (ucast x :: u64) = unat x" for x :: u32
  using unat_u32_lt [of x] by (simp add: unsigned_ucast_eq take_bit_eq_mod)

lemma sint_small_u64: "sint t = uint t" if "t < 2 ^ 63" for t :: u64
proof -
  have r: "- (2 ^ 63) \<le> sint t" "sint t < 2 ^ 63" using sint_greater_eq [of t] sint_less [of t] by simp_all
  have u: "uint t = sint t mod 2 ^ 64" using uint_sint [of t] by (simp add: take_bit_eq_mod)
  have "uint t < 2 ^ 63" using that by (simp add: word_less_def)
  moreover have "(sint t + 2 ^ 64) mod 2 ^ 64 = sint t + 2 ^ 64" if "sint t < 0"
    using that r by (intro mod_pos_pos_trivial) auto
  ultimately have "0 \<le> sint t" using u r by (cases "sint t < 0") auto
  with u r show ?thesis by simp
qed

text \<open>What a client relies on: delays between the minimum and a limit.\<close>

locale bounded_backoff =
  fixes b :: backoff and limit :: u64
  assumes next_bounds: "backoff_next b draws n = Some t \<Longrightarrow> backoff_min b \<le> t \<and> t \<le> limit"
    and limit_positive: "limit < 2 ^ 63"
begin

lemma get_backoff_bounds:
  assumes "bm_backoff_mechanism manager = b" "backoff_manager_get_backoff draws manager i = Some (manager', time)"
  shows "uint (backoff_min b) \<le> tv_usec time \<and> tv_usec time \<le> uint limit \<and> bm_backoff_mechanism manager' = b"
proof -
  from assms obtain t n where t: "backoff_next b draws n = Some t" "tv_usec time = sint t" "bm_backoff_mechanism manager' = b"
    by (auto simp: backoff_manager_get_backoff_def Let_def split: option.splits)
  note bounds = next_bounds [OF t(1)]
  have "t < 2 ^ 63" using bounds limit_positive order.strict_trans1 by blast
  then have "sint t = uint t" by (rule sint_small_u64)
  with bounds t(2,3) show ?thesis by (simp add: word_le_def)
qed

end

text \<open>
  The two mechanisms are bounded when the bounds of the configuration are in order and fit into 32 bits.
\<close>

locale backoff_configuration =
  fixes mx mn max_initial :: u64
  assumes ordered: "mn \<le> max_initial" "mn \<le> mx" and small: "mx < 2 ^ 32" "max_initial < 2 ^ 32"
begin

abbreviation exponential :: backoff where
  "exponential \<equiv> exponential_randomised_backoff_new mx mn max_initial"

lemma drawn_bounds:
  fixes lo hi :: u64
  assumes "random_between ds (ucast lo) (ucast hi) = Some x" "lo \<le> hi" "hi < 2 ^ 32"
  shows "lo \<le> ucast x \<and> ucast x \<le> hi"
proof -
  have "lo < 2 ^ 32" using assms(2,3) order.strict_trans1 by blast
  note cut = unat_cut_u64 [OF this] unat_cut_u64 [OF assms(3)]
  then have "ucast lo \<le> (ucast hi :: u32)" using assms(2) by (simp add: word_le_nat_alt)
  from random_between_bounds [OF assms(1) this] show ?thesis by (simp add: word_le_nat_alt cut unat_extend_u32)
qed

lemma exponential_bounds:
  assumes "backoff_next exponential draws n = Some t"
  shows "mn \<le> t \<and> t \<le> max mx max_initial"
proof -
  let ?h = "\<lparr>erb_max_backoff = mx, erb_min_backoff = mn, erb_max_initial_backoff = max_initial\<rparr>"
  have initial: "mn \<le> t \<and> t \<le> max_initial" if "exponential_randomised_backoff_initial ds ?h = Some t" for ds t
    using that drawn_bounds [of ds mn max_initial] ordered(1) small(2)
    by (auto simp: exponential_randomised_backoff_initial_def)
  have nxt: "exponential_randomised_backoff_next ?h draws n = Some t"
    using assms by (simp add: exponential_randomised_backoff_new_def Let_def)
  then obtain t0 where t0: "exponential_randomised_backoff_initial (draws 0) ?h = Some t0" "mx \<noteq> 0"
    and t: "(let new_time = (ucast (push_bit (n - 1) t0 mod mx) :: u32)
       in if ucast new_time < mn then exponential_randomised_backoff_initial (draws 1) ?h else Some (ucast new_time)) = Some t"
    by (auto simp: exponential_randomised_backoff_next_def split: option.splits if_splits)
  show ?thesis
  proof (cases "(ucast (ucast (push_bit (n - 1) t0 mod mx) :: u32) :: u64) < mn")
    case True
    with t initial [of "draws 1" t] show ?thesis by (auto simp: le_max_iff_disj)
  next
    case False
    have "push_bit (n - 1) t0 mod mx < mx" using t0(2) by (simp add: word_mod_less_divisor word_gt_0)
    then have "push_bit (n - 1) t0 mod mx < 2 ^ 32" using small(1) by (rule order.strict_trans)
    then have "(ucast (ucast (push_bit (n - 1) t0 mod mx) :: u32) :: u64) = push_bit (n - 1) t0 mod mx"
      using unat_cut_u64 unat_extend_u32 by (simp add: word_unat_eq_iff)
    with False t \<open>push_bit (n - 1) t0 mod mx < mx\<close> show ?thesis by (auto simp: le_max_iff_disj)
  qed
qed

lemma jitter_bounds:
  assumes "backoff_next (full_jitter_backoff_new mx mn max_initial) draws n = Some t"
  shows "mn \<le> t \<and> t \<le> max mx max_initial"
proof -
  have mn: "backoff_min exponential = mn" by (simp add: exponential_randomised_backoff_new_def Let_def)
  from assms obtain t0 x where t0: "backoff_next exponential draws n = Some t0"
    and x: "random_between (draws 2) (ucast mn) (ucast t0) = Some x" "t = ucast x"
    by (auto simp: full_jitter_backoff_new_def full_jitter_backoff_next_def Let_def mn split: option.splits)
  note b = exponential_bounds [OF t0]
  have "max mx max_initial < 2 ^ 32" using small by (simp add: max_def)
  then have "t0 < 2 ^ 32" using b order.strict_trans1 by blast
  with drawn_bounds [OF x(1)] b x(2) show ?thesis using order.trans by blast
qed

lemma limit_small: "max mx max_initial < 2 ^ 63"
  using small by (auto simp: max_def intro: order.strict_trans)

end

sublocale backoff_configuration \<subseteq> expo: bounded_backoff "exponential_randomised_backoff_new mx mn max_initial" "max mx max_initial"
  using exponential_bounds limit_small
  by unfold_locales (simp_all add: exponential_randomised_backoff_new_def Let_def)

sublocale backoff_configuration \<subseteq> jitter: bounded_backoff "full_jitter_backoff_new mx mn max_initial" "max mx max_initial"
  using jitter_bounds limit_small
  by unfold_locales (simp_all add: full_jitter_backoff_new_def exponential_randomised_backoff_new_def Let_def)

context backoff_configuration
begin

lemmas managed_delays = expo.get_backoff_bounds jitter.get_backoff_bounds

end

interpretation sample_backoff: backoff_configuration 100000 1000 20000
  by unfold_locales simp_all

section \<open>Properties\<close>

text \<open>
  C40: The delay before a preempted proposer tries again is bounded: with bounds of the configuration that are
  in order, every delay that the manager hands out, with either mechanism, for any instance, attempt and
  random numbers, is at least the minimum and at most the larger of the maximum and the initial maximum.
\<close>

theorem backoff_is_bounded:
  assumes "mn \<le> mx" "mn \<le> max_initial"
    and "bm_backoff_mechanism manager = exponential_randomised_backoff_new (ucast mx) (ucast mn) (ucast max_initial)
      \<or> bm_backoff_mechanism manager = full_jitter_backoff_new (ucast mx) (ucast mn) (ucast (max_initial :: u32))"
    and "backoff_manager_get_backoff draws manager i = Some (manager', time)"
  shows "uint mn \<le> tv_usec time \<and> tv_usec time \<le> uint (max mx max_initial)"
proof -
  have up: "unat (ucast x :: u64) = unat x" "(ucast x :: u64) < 2 ^ 32" for x :: u32
    using unat_u32_lt [of x] by (simp_all add: word_less_nat_alt unat_extend_u32)
  have "backoff_configuration (ucast mx) (ucast mn) (ucast max_initial)"
    using assms(1,2) up by unfold_locales (simp_all add: word_le_nat_alt)
  note delays = backoff_configuration.managed_delays [OF this _ assms(4)]
  have minimum: "backoff_min (bm_backoff_mechanism manager) = ucast mn"
    using assms(3) by (auto simp: exponential_randomised_backoff_new_def full_jitter_backoff_new_def Let_def)
  have "uint (ucast mn :: u64) \<le> tv_usec time \<and> tv_usec time \<le> uint (max (ucast mx) (ucast max_initial) :: u64)"
    using assms(3) delays minimum by metis
  moreover have "uint (ucast x :: u64) = uint x" for x :: u32 using up(1) [of x] by (metis of_nat_unat)
  ultimately show ?thesis by (auto simp: max_def word_le_def split: if_splits)
qed

theorem backoff_is_bounded_witness:
  "\<exists>manager' time. backoff_manager_get_backoff (\<lambda>k. [1000000000])
      (backoff_manager_new (full_jitter_backoff_new 100000 1000 20000)) 7 = Some (manager', time)
    \<and> 1000 \<le> tv_usec time \<and> tv_usec time \<le> 100000"
proof -
  let ?m = "backoff_manager_new (full_jitter_backoff_new 100000 1000 20000)"
  have "backoff_manager_get_backoff (\<lambda>k. [1000000000]) ?m 7 \<noteq> None" by code_simp
  then obtain manager' time where r: "backoff_manager_get_backoff (\<lambda>k. [1000000000]) ?m 7 = Some (manager', time)" by auto
  have "bm_backoff_mechanism ?m = full_jitter_backoff_new (ucast (100000 :: u32)) (ucast (1000 :: u32)) (ucast (20000 :: u32))"
    by (simp add: backoff_manager_new_def)
  with backoff_is_bounded [of "1000 :: u32" 100000 20000 ?m "\<lambda>k. [1000000000]" 7 manager' time] r show ?thesis
    by (simp add: max_def)
qed

text \<open>
  The allocation of instances decides contention: when ballots are biased, the first ballot of the
  proposer to which an instance is allocated is above the first ballot of every other proposer for
  that instance, whatever the random numbers are.
\<close>

theorem allocated_proposer_outranks:
  assumes "pid \<le> inc" "pid' \<le> inc" "2 * unat inc + 1 < 2 ^ 32" "pid' \<noteq> pid"
    and "round_robin_allocator_is_allocated (round_robin_allocator_new pid n True delay inc) i = Some True"
    and "round_robin_allocator_get_ballot draws (round_robin_allocator_new pid n True delay inc) i = Some b"
    and "round_robin_allocator_get_ballot draws' (round_robin_allocator_new pid' n True delay' inc) i = Some b'"
  shows "b' < b"
proof -
  have "round_robin_allocator_is_allocated (round_robin_allocator_new pid' n True delay' inc) i = Some False"
    using assms(4,5) by (auto simp: round_robin_allocator_is_allocated_def round_robin_allocator_new_def split: if_splits)
  with assms(5-7) have drawn: "ballot_giver_next draws (ballot_giver_new pid inc) (Ballot inc pid) = Some b"
    "ballot_giver_next draws' (ballot_giver_new pid' inc) INVALID_BALLOT = Some b'"
    by (simp_all add: round_robin_allocator_get_ballot_def round_robin_allocator_new_def)
  from ballot_giver_next_number [OF drawn(1)] obtain k where k: "b = Ballot (inc + 1 + k) pid" "k < inc + 1 - pid"
    by (auto simp: ballot_giver_new_def)
  from ballot_giver_next_number [OF drawn(2)] obtain k' where k': "b' = Ballot (1 + k') pid'" "k' < inc + 1 - pid'"
    by (auto simp: ballot_giver_new_def INVALID_BALLOT_def)
  have inc: "unat (inc + 1) = unat inc + 1" using assms(3) by (simp add: unat_add_no_overflow)
  then have "unat (inc + 1 - pid) = unat inc + 1 - unat pid" "unat (inc + 1 - pid') = unat inc + 1 - unat pid'"
    using assms(1,2) by (simp_all add: unat_sub word_le_nat_alt)
  then have small: "unat k \<le> unat inc" "unat k' + unat pid' \<le> unat inc" using k(2) k'(2) by (simp_all add: word_less_nat_alt)
  then have "unat (inc + 1 + k) = unat inc + 1 + unat k" "unat (1 + k') = 1 + unat k'"
    using assms(3) inc by (simp_all add: unat_add_no_overflow)
  with small have "unat (1 + k') + unat pid' \<le> unat (inc + 1 + k)" by linarith
  moreover have "0 < unat pid" if "unat pid' = 0" using that assms(4) by (metis gr0I unsigned_word_eqI)
  ultimately show ?thesis
    by (cases "unat pid' = 0") (auto simp: k(1) k'(1) less_ballot_def word_less_nat_alt word_unat_eq_iff)
qed

theorem allocated_proposer_outranks_witness:
  "round_robin_allocator_get_ballot [0] (round_robin_allocator_new 1 3 True False 10) 7 = Some (Ballot 11 1)
   \<and> Ballot 9 2 < Ballot 11 1"
proof -
  have r: "round_robin_allocator_get_ballot [0] (round_robin_allocator_new 1 3 True False 10) 7 = Some (Ballot 11 1)"
    "round_robin_allocator_is_allocated (round_robin_allocator_new 1 3 True False 10) 7 = Some True"
    "round_robin_allocator_get_ballot [2147483639] (round_robin_allocator_new 2 3 True False 10) 7 = Some (Ballot 9 2)"
    by code_simp+
  then show ?thesis
    using allocated_proposer_outranks [OF _ _ _ _ r(2) r(1), of 2 "[2147483639]" False "Ballot 9 2"]
    by (simp add: less_ballot_def)
qed

text \<open>Findings about the code: which proposals are delayed, the sign of the velocity, and the order of times.\<close>

lemma allocated_instances_are_delayed:
  "round_robin_allocator_is_allocated a i = Some allocated \<Longrightarrow>
   rra_delay_non_allocated_instances a \<Longrightarrow> round_robin_allocator_should_delay_proposal a i = Some allocated"
  by (simp add: round_robin_allocator_should_delay_proposal_def)

lemma velocity_is_negative:
  "map_option is_instance_choosing_velocity (instance_strategy_update_max_working_instance \<lparr>tv_sec = 1, tv_usec = 5\<rparr>
     (instance_strategy_new \<lparr>tv_sec = 1, tv_usec = 0\<rparr> 1000 1) 100) = Some (- 20)"
  by code_simp

lemma nanoseconds_outweigh_seconds:
  "is_timespec_greater_than \<lparr>ts_sec = 0, ts_nsec = 500\<rparr> \<lparr>ts_sec = 1, ts_nsec = 0\<rparr>"
  by code_simp

end
