(* ===== verification/Config.thy ===== *)
theory Config
  imports Paxos_Prelude
begin

text \<open>
  \<open>src/evpaxos/config.c\<close>: reading a configuration file.  A C string is a \<open>string\<close> without its final zero
  byte, its characters are ASCII.  The arrays of 500 addresses are lists, their counts the lengths.
  The global struct \<open>paxos_config\<close> is a map from the names in the table \<open>options\<close> to values, one entry for
  each field that the table points to.  Results are of type \<open>'a outcome\<close>: \<open>None\<close> is undefined behaviour (a null
  pointer read, a write behind an array), \<open>Some None\<close> the result 0 or \<open>NULL\<close> after an error was logged.
\<close>

section \<open>The C library\<close>

text \<open>\<open>isspace\<close> and \<open>isdigit\<close> in the C locale, \<open>tolower\<close> and the comparison of \<open>strcasecmp\<close> with 0.\<close>

definition isspace :: "char \<Rightarrow> bool" where
  "isspace c \<longleftrightarrow> c = CHR 0x20 \<or> 9 \<le> (of_char c :: nat) \<and> (of_char c :: nat) \<le> 13"

definition isdigit :: "char \<Rightarrow> bool" where
  "isdigit c \<longleftrightarrow> 48 \<le> (of_char c :: nat) \<and> (of_char c :: nat) \<le> 57"

definition tolower :: "char \<Rightarrow> char" where
  "tolower c = (if 65 \<le> (of_char c :: nat) \<and> (of_char c :: nat) \<le> 90 then char_of ((of_char c :: nat) + 32) else c)"

definition same_nocase :: "string \<Rightarrow> string \<Rightarrow> bool" where
  "same_nocase s t \<longleftrightarrow> map tolower s = map tolower t"

text \<open>The number that a sequence of digits denotes, and \<open>strtol\<close> with base 10: number and what is left, \<open>None\<close> if there are no digits.\<close>

definition digits_value :: "string \<Rightarrow> int" where
  "digits_value ds = foldl (\<lambda>n c. 10 * n + (of_char c - 48)) 0 ds"

definition scan_number :: "string \<Rightarrow> (int \<times> string) option" where
  "scan_number s =
     (let s = dropWhile isspace s;
          (sign, s) = (case s of c # t \<Rightarrow> if c = CHR ''-'' then (-1, t) else if c = CHR ''+'' then (1, t) else (1, s)
                       | [] \<Rightarrow> (1, s))
      in if takeWhile isdigit s = [] then None
         else Some (sign * digits_value (takeWhile isdigit s), dropWhile isdigit s))"

definition LONG_MIN :: int where "LONG_MIN = - (2 ^ 63)"
definition LONG_MAX :: int where "LONG_MAX = 2 ^ 63 - 1"
definition ULONG_MAX :: int where "ULONG_MAX = 2 ^ 64 - 1"

definition strtol :: "string \<Rightarrow> (int \<times> string) option" where
  "strtol s = map_option (\<lambda>(n, t). (max LONG_MIN (min LONG_MAX n), t)) (scan_number s)"

text \<open>The conversion of a \<open>long\<close> to \<open>int\<close>, which keeps the lower 32 bits.\<close>

definition long_to_int :: "int \<Rightarrow> int" where
  "long_to_int n = sint (word_of_int n :: u32)"

text \<open>\<open>strsep\<close> with the separator \<open>" "\<close>: the token, and the rest or \<open>NULL\<close>.\<close>

definition strsep :: "string \<Rightarrow> string \<times> string option" where
  "strsep s =
     (takeWhile (\<lambda>c. c \<noteq> CHR 0x20) s,
      case dropWhile (\<lambda>c. c \<noteq> CHR 0x20) s of [] \<Rightarrow> None | _ # t \<Rightarrow> Some t)"

section \<open>Data\<close>

type_synonym 'a outcome = "'a option option"

record address =
  adr_addr :: string
  adr_port :: int

record evpaxos_config =
  conf_proposers :: "address list"
  conf_acceptors :: "address list"
  conf_clients :: "address list"

datatype option_type = option_boolean | option_integer | option_string | option_verbosity | option_backend | option_bytes

datatype option_value = Int_Value int | String_Value string | Size_Value "64 word"

definition options :: "(string \<times> option_type) list" where
  "options =
    [(''verbosity'', option_verbosity), (''tcp-nodelay'', option_boolean),
     (''quorum-1'', option_integer), (''quorum-2'', option_integer),
     (''group-1'', option_integer), (''group-2'', option_integer),
     (''learner-catch-up'', option_boolean), (''proposer-check_timeout'', option_integer),
     (''acceptor-timeout'', option_integer),
     (''proposer-preexec-window-max'', option_integer), (''proposer-preexec-window-min'', option_integer),
     (''max-ballot-increment'', option_integer), (''min-backoff-microseconds'', option_integer),
     (''max-initial-backoff-microseconds'', option_integer), (''max-backoff-microseconds'', option_integer),
     (''promised-ballots-catchup'', option_integer), (''ballots-to-write-ahead'', option_integer),
     (''ballot-windows-check-timer-seconds'', option_integer),
     (''ballot-windows-check-timer-microseconds'', option_integer),
     (''client-settle-in-time'', option_integer), (''client-num-latencies-to-record'', option_integer),
     (''messages-batched-average'', option_integer), (''messages-batched-max'', option_integer),
     (''lnr-comm-all-acceptors-trim'', option_boolean), (''lnr-comm-all-proposers-trim'', option_boolean),
     (''lnr-comm-all-acceptors-chosen'', option_boolean), (''lnr-comm-all-proposers-chosen'', option_boolean),
     (''lnr-min-chunks-missing-before-repeats'', option_integer),
     (''proposer-round-robin-ballot-bias'', option_boolean), (''proposer-round-robin-backoff'', option_boolean),
     (''proposer-propose-values-in-parallel-instances'', option_boolean),
     (''proposer-reproposal-rate-microseconds'', option_integer),
     (''stable-storage-backend'', option_backend), (''acceptor-trash-files'', option_boolean),
     (''lmdb-sync'', option_boolean), (''lmdb-env-path'', option_string), (''lmdb-mapsize'', option_bytes),
     (''fall-behind-jump'', option_integer), (''backoff-type'', option_string),
     (''pessimistic-proposing'', option_boolean), (''noop-timeout-us'', option_integer),
     (''preemptive-preempt'', option_boolean), (''noop-await-holes'', option_boolean)]"

type_synonym settings = "string \<rightharpoonup> option_value"

section \<open>Access\<close>

definition evpaxos_acceptor_count :: "evpaxos_config \<Rightarrow> int" where
  "evpaxos_acceptor_count c = int (length (conf_acceptors c))"

definition evpaxos_proposer_count :: "evpaxos_config \<Rightarrow> int" where
  "evpaxos_proposer_count c = int (length (conf_proposers c))"

definition evpaxos_client_count :: "evpaxos_config \<Rightarrow> int" where
  "evpaxos_client_count c = int (length (conf_clients c))"

text \<open>
  An index behind the last address, but within the array, reads an entry that \<open>memset\<close> made zero; an index outside
  of the array is undefined.
\<close>

definition listen_port :: "address list \<Rightarrow> int \<Rightarrow> int option" where
  "listen_port as i =
     (if 0 \<le> i \<and> i < 500 then Some (if nat i < length as then adr_port (as ! nat i) else 0) else None)"

definition evpaxos_proposer_listen_port :: "evpaxos_config \<Rightarrow> int \<Rightarrow> int option" where
  "evpaxos_proposer_listen_port c i = listen_port (conf_proposers c) i"

definition evpaxos_client_listen_port :: "evpaxos_config \<Rightarrow> int \<Rightarrow> int option" where
  "evpaxos_client_listen_port c i = listen_port (conf_clients c) i"

definition evpaxos_acceptor_listen_port :: "evpaxos_config \<Rightarrow> int \<Rightarrow> int option" where
  "evpaxos_acceptor_listen_port c i = listen_port (conf_acceptors c) i"

section \<open>Parsing values\<close>

definition strtrim :: "string \<Rightarrow> string" where
  "strtrim s = rev (dropWhile isspace (rev (dropWhile isspace s)))"

text \<open>\<open>strtoull\<close> negates after a minus sign, sets \<open>errno\<close> when the number is too large, and returns 0 when there are no digits.\<close>

definition parse_bytes :: "string \<Rightarrow> 64 word option" where
  "parse_bytes s =
     (let (n, rest) = (case scan_number s of Some r \<Rightarrow> r | None \<Rightarrow> (0, s));
          bytes = word_of_int n :: 64 word;
          unit = dropWhile isspace rest
      in if \<bar>n\<bar> > ULONG_MAX then None
         else if unit = '''' then Some bytes
         else if same_nocase unit ''kb'' then Some (bytes * 1024)
         else if same_nocase unit ''mb'' then Some (bytes * (1024 * 1024))
         else if same_nocase unit ''gb'' then Some (bytes * (1024 * 1024 * 1024))
         else None)"

definition parse_boolean :: "string \<Rightarrow> int option" where
  "parse_boolean s = (if same_nocase s ''yes'' then Some 1 else if same_nocase s ''no'' then Some 0 else None)"

definition parse_integer :: "string \<Rightarrow> int option" where
  "parse_integer s = map_option (\<lambda>(n, _). long_to_int n) (strtol s)"

definition parse_string :: "string \<Rightarrow> string option" where
  "parse_string s = (if s = '''' \<or> hd s = CHR 0x0A then None else Some s)"

definition PAXOS_LOG_QUIET :: int where "PAXOS_LOG_QUIET = 0"
definition PAXOS_LOG_ERROR :: int where "PAXOS_LOG_ERROR = 1"
definition PAXOS_LOG_INFO :: int where "PAXOS_LOG_INFO = 2"
definition PAXOS_LOG_DEBUG :: int where "PAXOS_LOG_DEBUG = 3"
definition PAXOS_MEM_STORAGE :: int where "PAXOS_MEM_STORAGE = 0"
definition PAXOS_LMDB_STORAGE :: int where "PAXOS_LMDB_STORAGE = 1"

definition parse_verbosity :: "string \<Rightarrow> int option" where
  "parse_verbosity s =
     (if same_nocase s ''quiet'' then Some PAXOS_LOG_QUIET
      else if same_nocase s ''error'' then Some PAXOS_LOG_ERROR
      else if same_nocase s ''info'' then Some PAXOS_LOG_INFO
      else if same_nocase s ''debug'' then Some PAXOS_LOG_DEBUG
      else None)"

definition parse_backend :: "string \<Rightarrow> int option" where
  "parse_backend s =
     (if same_nocase s ''memory'' then Some PAXOS_MEM_STORAGE
      else if same_nocase s ''lmdb'' then Some PAXOS_LMDB_STORAGE
      else None)"

text \<open>
  \<open>sscanf\<close> with the format \<open>"%d %s %d"\<close>; the word that \<open>%s\<close> reads has to fit into 128 bytes with its zero
  byte.  The identifier is read and ignored.
\<close>

definition parse_address :: "string \<Rightarrow> address outcome" where
  "parse_address s =
     (case scan_number s of
        None \<Rightarrow> Some None
      | Some (_, s) \<Rightarrow>
          let s = dropWhile isspace s;
              word = takeWhile (\<lambda>c. \<not> isspace c) s
          in if word = '''' then Some None
             else if length word > 127 then None
             else case strtol (dropWhile (\<lambda>c. \<not> isspace c) s) of
                    None \<Rightarrow> Some None
                  | Some (port, _) \<Rightarrow> Some (Some \<lparr>adr_addr = word, adr_port = long_to_int port\<rparr>))"

definition lookup_option :: "string \<Rightarrow> (string \<times> option_type) option" where
  "lookup_option opt = find (\<lambda>(name, _). same_nocase name opt) options"

section \<open>Lines\<close>

definition parse_value :: "option_type \<Rightarrow> string \<Rightarrow> option_value option" where
  "parse_value t s =
     (case t of
        option_boolean \<Rightarrow> map_option Int_Value (parse_boolean s)
      | option_integer \<Rightarrow> map_option Int_Value (parse_integer s)
      | option_string \<Rightarrow> map_option String_Value (parse_string s)
      | option_verbosity \<Rightarrow> map_option Int_Value (parse_verbosity s)
      | option_backend \<Rightarrow> map_option Int_Value (parse_backend s)
      | option_bytes \<Rightarrow> map_option Size_Value (parse_bytes s))"

text \<open>
  \<open>parse_boolean\<close> writes an \<open>int\<close>, but ten of the options it is used for are of type \<open>bool\<close> in \<open>struct paxos_config\<close>
  (\<open>include/paxos.h\<close>): the three bytes that follow are written too.  With one byte for a \<open>bool\<close>, four for
  an \<open>int\<close>, natural alignment and the low byte first these are, by option, the fields after it and how many of their low
  bytes become zero; behind the other \<open>bool\<close>s there is padding.  A field that was not set is zero.
\<close>

definition overwritten :: "string \<Rightarrow> (string \<times> nat) list" where
  "overwritten name =
     (if name = ''lnr-comm-all-proposers-trim''
      then [(''lnr-comm-all-acceptors-trim'', 1), (''lnr-comm-all-proposers-chosen'', 1), (''lnr-comm-all-acceptors-chosen'', 1)]
      else if name = ''lnr-comm-all-acceptors-trim''
      then [(''lnr-comm-all-proposers-chosen'', 1), (''lnr-comm-all-acceptors-chosen'', 1), (''lnr-min-chunks-missing-before-repeats'', 1)]
      else if name = ''lnr-comm-all-proposers-chosen''
      then [(''lnr-comm-all-acceptors-chosen'', 1), (''lnr-min-chunks-missing-before-repeats'', 2)]
      else if name = ''lnr-comm-all-acceptors-chosen''
      then [(''lnr-min-chunks-missing-before-repeats'', 3)]
      else if name = ''proposer-propose-values-in-parallel-instances''
      then [(''proposer-round-robin-ballot-bias'', 1), (''proposer-round-robin-backoff'', 1)]
      else if name = ''proposer-round-robin-ballot-bias''
      then [(''proposer-round-robin-backoff'', 1), (''fall-behind-jump'', 1)]
      else if name = ''proposer-round-robin-backoff''
      then [(''fall-behind-jump'', 2)]
      else [])"

fun clear_low_bytes :: "nat \<Rightarrow> option_value \<Rightarrow> option_value" where
  "clear_low_bytes k (Int_Value n) = Int_Value (n div 256 ^ k * 256 ^ k)"
| "clear_low_bytes k v = v"

definition assign_option :: "option_type \<Rightarrow> string \<Rightarrow> option_value \<Rightarrow> settings \<Rightarrow> settings" where
  "assign_option t name v g =
     (if t = option_boolean
      then (fold (\<lambda>(n, k) g. g(n := map_option (clear_low_bytes k) (g n))) (overwritten name) g)(name \<mapsto> v)
      else g(name \<mapsto> v))"

text \<open>
  The address goes behind the others of its array, which has 500 elements.  What \<open>strsep\<close> leaves is \<open>NULL\<close> for a line
  of one word, and neither \<open>sscanf\<close> nor \<open>strtrim\<close> may be given that.
\<close>

definition add_address :: "address list \<Rightarrow> string option \<Rightarrow> address list outcome" where
  "add_address as line =
     (if length as < 500
      then case line of None \<Rightarrow> None | Some s \<Rightarrow> map_option (map_option (\<lambda>a. as @ [a])) (parse_address s)
      else None)"

definition parse_line :: "evpaxos_config \<times> settings \<Rightarrow> string \<Rightarrow> (evpaxos_config \<times> settings) outcome" where
  "parse_line st line =
     (let (c, g) = st;
          (tok, line) = strsep (strtrim line)
      in if same_nocase tok ''a'' \<or> same_nocase tok ''acceptor''
         then map_option (map_option (\<lambda>as. (c\<lparr>conf_acceptors := as\<rparr>, g))) (add_address (conf_acceptors c) line)
         else if same_nocase tok ''p'' \<or> same_nocase tok ''proposer''
         then map_option (map_option (\<lambda>as. (c\<lparr>conf_proposers := as\<rparr>, g))) (add_address (conf_proposers c) line)
         else if same_nocase tok ''c'' \<or> same_nocase tok ''client''
         then map_option (map_option (\<lambda>as. (c\<lparr>conf_clients := as\<rparr>, g))) (add_address (conf_clients c) line)
         else if same_nocase tok ''r'' \<or> same_nocase tok ''replica''
         then (case (add_address (conf_proposers c) line, add_address (conf_acceptors c) line) of
                 (Some (Some ps), Some (Some as)) \<Rightarrow> Some (Some (c\<lparr>conf_proposers := ps, conf_acceptors := as\<rparr>, g))
               | _ \<Rightarrow> None)
         else case line of
           None \<Rightarrow> None
         | Some line \<Rightarrow>
             (case lookup_option tok of
                None \<Rightarrow> Some None
              | Some (name, t) \<Rightarrow>
                  (case parse_value t (strtrim line) of
                     None \<Rightarrow> Some None
                   | Some v \<Rightarrow> Some (Some (c, assign_option t name v g)))))"

text \<open>What \<open>fgets\<close> with a buffer of 512 bytes reads from a file: up to 511 characters, but not past a newline.\<close>

definition fgets :: "string \<Rightarrow> string" where
  "fgets s = take 511 (takeWhile (\<lambda>c. c \<noteq> CHR 0x0A) s @ take 1 (dropWhile (\<lambda>c. c \<noteq> CHR 0x0A) s))"

lemma fgets_not_empty: "s \<noteq> '''' \<Longrightarrow> fgets s \<noteq> ''''"
  by (cases s) (auto simp: fgets_def)

function file_lines :: "string \<Rightarrow> string list" where
  "file_lines s = (if s = '''' then [] else fgets s # file_lines (drop (length (fgets s)) s))"
  by pat_completeness auto
termination
  by (relation "measure length") (use fgets_not_empty in auto)

declare file_lines.simps [simp del]

definition skipped_line :: "string \<Rightarrow> bool" where
  "skipped_line line \<longleftrightarrow> hd line = CHR ''#'' \<or> hd line = CHR 0x0A"

fun read_lines :: "evpaxos_config \<times> settings \<Rightarrow> string list \<Rightarrow> (evpaxos_config \<times> settings) outcome" where
  "read_lines st [] = Some (Some st)"
| "read_lines st (line # rest) =
     (if skipped_line line then read_lines st rest
      else case parse_line st line of
             Some (Some st) \<Rightarrow> read_lines st rest
           | Some None \<Rightarrow> Some None
           | None \<Rightarrow> None)"

definition no_addresses :: evpaxos_config where
  "no_addresses = \<lparr>conf_proposers = [], conf_acceptors = [], conf_clients = []\<rparr>"

text \<open>The argument is the content of the file, \<open>None\<close> when it cannot be opened or is not a regular file.\<close>

definition evpaxos_config_read :: "settings \<Rightarrow> string option \<Rightarrow> (evpaxos_config \<times> settings) outcome" where
  "evpaxos_config_read g file =
     (case file of None \<Rightarrow> Some None | Some content \<Rightarrow> read_lines (no_addresses, g) (file_lines content))"

lemma config_file_example:
  "map_option (map_option fst) (evpaxos_config_read Map.empty
     (Some (''# three acceptors'' @ [CHR 0x0A] @ ''acceptor 0 127.0.0.1 8800'' @ [CHR 0x0A] @ ''A 1  h2 +8801 x'' @ [CHR 0x0A, CHR 0x0A]
        @ ''quorum-1 2'' @ [CHR 0x0A] @ ''r 0 h3 8802'')))
   = Some (Some \<lparr>conf_proposers = [\<lparr>adr_addr = ''h3'', adr_port = 8802\<rparr>],
       conf_acceptors = [\<lparr>adr_addr = ''127.0.0.1'', adr_port = 8800\<rparr>, \<lparr>adr_addr = ''h2'', adr_port = 8801\<rparr>,
         \<lparr>adr_addr = ''h3'', adr_port = 8802\<rparr>], conf_clients = []\<rparr>)"
  by code_simp

section \<open>Writing a configuration\<close>

text \<open>A file for a configuration, as the files of the repository are written, and the configurations for which it is read back.\<close>

fun show_nat :: "nat \<Rightarrow> string" where
  "show_nat n = (if n < 10 then [char_of (48 + n)] else show_nat (n div 10) @ [char_of (48 + n mod 10)])"

declare show_nat.simps [simp del]

definition show_int :: "int \<Rightarrow> string" where
  "show_int z = (if z < 0 then CHR ''-'' # show_nat (nat (- z)) else show_nat (nat z))"

definition address_text :: "nat \<Rightarrow> address \<Rightarrow> string" where
  "address_text i a = show_nat i @ CHR 0x20 # adr_addr a @ CHR 0x20 # show_int (adr_port a)"

definition address_lines :: "string \<Rightarrow> address list \<Rightarrow> string list" where
  "address_lines kind as = map (\<lambda>(i, a). kind @ CHR 0x20 # address_text i a @ [CHR 0x0A]) (enumerate 0 as)"

definition config_file :: "evpaxos_config \<Rightarrow> string" where
  "config_file c = concat (address_lines ''proposer'' (conf_proposers c) @ address_lines ''acceptor'' (conf_acceptors c)
     @ address_lines ''client'' (conf_clients c))"

definition address_ok :: "address \<Rightarrow> bool" where
  "address_ok a \<longleftrightarrow> adr_addr a \<noteq> '''' \<and> list_all (\<lambda>c. \<not> isspace c) (adr_addr a) \<and> length (adr_addr a) < 128
     \<and> - (2 ^ 31) \<le> adr_port a \<and> adr_port a < 2 ^ 31"

definition config_ok :: "evpaxos_config \<Rightarrow> bool" where
  "config_ok c \<longleftrightarrow> (\<forall>as \<in> {conf_proposers c, conf_acceptors c, conf_clients c}. length as \<le> 500 \<and> list_all address_ok as)"

subsection \<open>Numbers\<close>

lemma isdigit_not_special:
  "isdigit c \<Longrightarrow> \<not> isspace c" "isdigit c \<Longrightarrow> c \<noteq> CHR ''-''" "isdigit c \<Longrightarrow> c \<noteq> CHR ''+''" "isdigit c \<Longrightarrow> c \<noteq> CHR 0x0A"
  by (auto simp: isdigit_def isspace_def)

lemma newline_is_space: "isspace (CHR 0x0A)" "isspace (CHR 0x20)" "\<not> isspace (CHR ''-'')" "\<not> isdigit (CHR ''-'')"
  "\<not> isdigit (CHR 0x20)" "\<not> isdigit (CHR 0x0A)"
  by (simp_all add: isspace_def isdigit_def)

lemma digit_char: "n < 10 \<Longrightarrow> isdigit (char_of (48 + n :: nat))" "(n :: nat) < 10 \<Longrightarrow> of_char (char_of (48 + n)) - 48 = int n"
proof -
  assume n: "n < 10"
  then show "isdigit (char_of (48 + n :: nat))" by (simp add: isdigit_def)
  have "(of_char (char_of (48 + n)) :: int) = int (of_char (char_of (48 + n)))" by (simp only: of_nat_of_char)
  with n show "of_char (char_of (48 + n)) - 48 = int n" by simp
qed

lemma show_nat_digits: "list_all isdigit (show_nat n)" "show_nat n \<noteq> ''''"
proof (induction n rule: show_nat.induct)
  case (1 n)
  { case 1 then show ?case using "1.IH" digit_char(1) [of n] digit_char(1) [of "n mod 10"] by (subst show_nat.simps) auto }
  { case 2 show ?case by (subst show_nat.simps) auto }
qed

lemma digits_value_show [simp]: "digits_value (show_nat n) = int n"
proof (induction n rule: show_nat.induct)
  case (1 n)
  have "digits_value (show_nat (n div 10) @ [char_of (48 + n mod 10)]) = int n" if "\<not> n < 10"
    using that 1 digit_char(2) [of "n mod 10"] mult_div_mod_eq [of 10 "int n"]
    by (simp add: digits_value_def zmod_int zdiv_int)
  with digit_char(2) [of n] show ?case by (subst show_nat.simps) (simp add: digits_value_def)
qed

lemma length_show_nat: "n < 10 ^ k \<Longrightarrow> 0 < k \<Longrightarrow> length (show_nat n) \<le> k"
proof (induction n arbitrary: k rule: show_nat.induct)
  case (1 n)
  show ?case
  proof (cases "n < 10")
    case True with 1 show ?thesis by (subst show_nat.simps) auto
  next
    case False
    with 1 have k: "1 < k" by (cases "k = 1") auto
    with 1 have "n div 10 < 10 ^ (k - 1)" by (simp add: div_less_iff_less_mult power_Suc2 [symmetric] del: power_Suc)
    with 1 False k have "length (show_nat (n div 10)) \<le> k - 1" by auto
    with False k show ?thesis by (subst show_nat.simps) auto
  qed
qed

lemma length_show_int: "- (2 ^ 31) \<le> z \<Longrightarrow> z < 2 ^ 31 \<Longrightarrow> length (show_int z) \<le> 11"
proof (cases "z < 0")
  case True
  assume "- (2 ^ 31) \<le> z"
  then have "nat (- z) < 10 ^ 10" by simp
  from length_show_nat [OF this] True show ?thesis by (simp add: show_int_def)
next
  case False
  assume "z < 2 ^ 31"
  then have "nat z < 10 ^ 10" by simp
  from length_show_nat [OF this] False show ?thesis by (simp add: show_int_def)
qed

lemma takeWhile_all: "list_all P xs \<Longrightarrow> (rest \<noteq> [] \<longrightarrow> \<not> P (hd rest)) \<Longrightarrow>
    takeWhile P (xs @ rest) = xs \<and> dropWhile P (xs @ rest) = rest"
  by (cases rest) (auto simp: list_all_iff takeWhile_append2 dropWhile_append2 takeWhile_tail)

lemma scan_number_show:
  assumes "rest \<noteq> '''' \<longrightarrow> \<not> isdigit (hd rest)" "list_all isspace ws"
  shows "scan_number (ws @ show_int z @ rest) = Some (z, rest)"
proof -
  obtain c ds where show_int: "show_int z = c # ds" and c: "\<not> isspace c"
    using show_nat_digits [of "nat z"] isdigit_not_special(1) newline_is_space(3)
    by (cases "show_nat (nat z)"; cases "z < 0") (auto simp: show_int_def)
  have ws: "dropWhile isspace (ws @ show_int z @ rest) = show_int z @ rest"
    using assms(2) c by (simp add: takeWhile_all show_int)
  have num: "takeWhile isdigit (show_nat n @ rest) = show_nat n" "dropWhile isdigit (show_nat n @ rest) = rest" for n
    using takeWhile_all [OF show_nat_digits(1) assms(1)] by auto
  show ?thesis
  proof (cases "z < 0")
    case True
    then show ?thesis
      unfolding scan_number_def ws by (simp add: show_int_def Let_def num show_nat_digits(2))
  next
    case False
    obtain d es where d: "show_nat (nat z) = d # es" using show_nat_digits(2) by (cases "show_nat (nat z)") auto
    with show_nat_digits(1) [of "nat z"] have "d \<noteq> CHR ''-''" "d \<noteq> CHR ''+''"
      using isdigit_not_special(2,3) by auto
    then have "(case show_nat (nat z) @ rest of c # t \<Rightarrow> if c = CHR ''-'' then (-1, t) else if c = CHR ''+'' then (1, t)
        else (1, show_nat (nat z) @ rest) | [] \<Rightarrow> (1, show_nat (nat z) @ rest)) = (1 :: int, show_nat (nat z) @ rest)"
      by (simp add: d)
    with False show ?thesis
      unfolding scan_number_def ws by (simp add: show_int_def Let_def num show_nat_digits(2))
  qed
qed

lemma scan_number_show_nat: "rest \<noteq> '''' \<longrightarrow> \<not> isdigit (hd rest) \<Longrightarrow> scan_number (show_nat n @ rest) = Some (int n, rest)"
  using scan_number_show [of rest "[]" "int n"] by (simp add: show_int_def)

lemma long_to_int_same: "- (2 ^ 31) \<le> z \<Longrightarrow> z < 2 ^ 31 \<Longrightarrow> long_to_int (max LONG_MIN (min LONG_MAX z)) = z"
  unfolding long_to_int_def LONG_MIN_def LONG_MAX_def
  by (simp add: signed_take_bit_int_eq_self sint_sbintrunc')

subsection \<open>Lines\<close>

lemma parse_address_text:
  assumes "address_ok a"
  shows "parse_address (address_text i a) = Some (Some a)"
proof -
  let ?tail = "CHR 0x20 # show_int (adr_port a)"
  have word: "takeWhile (\<lambda>c. \<not> isspace c) (adr_addr a @ ?tail) = adr_addr a"
    "dropWhile (\<lambda>c. \<not> isspace c) (adr_addr a @ ?tail) = ?tail"
    using assms takeWhile_all [of "\<lambda>c. \<not> isspace c" "adr_addr a" ?tail]
    by (auto simp: address_ok_def newline_is_space)
  have trimmed: "dropWhile isspace (adr_addr a @ ?tail) = adr_addr a @ ?tail"
    using assms by (cases "adr_addr a") (auto simp: address_ok_def newline_is_space)
  have "scan_number (address_text i a) = Some (int i, CHR 0x20 # adr_addr a @ ?tail)"
    unfolding address_text_def by (rule scan_number_show_nat) (simp add: newline_is_space)
  moreover have "strtol ?tail = Some (max LONG_MIN (min LONG_MAX (adr_port a)), '''')"
    using scan_number_show [of "''''" "[CHR 0x20]" "adr_port a"] by (simp add: strtol_def newline_is_space)
  ultimately show ?thesis
    using assms by (simp add: parse_address_def trimmed word newline_is_space address_ok_def long_to_int_same)
qed

lemma show_int_no_space: "list_all (\<lambda>c. \<not> isspace c) (show_int z)" "show_int z \<noteq> ''''"
  using show_nat_digits(1) isdigit_not_special(1) newline_is_space(3)
  by (auto simp: show_int_def list_all_iff show_nat_digits(2))

lemma strtrim_line:
  assumes "s \<noteq> ''''" "t \<noteq> ''''" "\<not> isspace (hd s)" "\<not> isspace (last t)"
  shows "strtrim (s @ t @ [CHR 0x0A]) = s @ t"
proof -
  have "dropWhile isspace (s @ t @ [CHR 0x0A]) = s @ t @ [CHR 0x0A]" using assms(1,3) by (cases s) auto
  moreover have "dropWhile isspace (rev (s @ t)) = rev (s @ t)"
    using assms(2,4) by (cases t rule: rev_cases) auto
  ultimately show ?thesis by (simp add: strtrim_def newline_is_space)
qed

lemma last_address_text: "address_text i a \<noteq> ''''" "\<not> isspace (last (address_text i a))"
  using show_int_no_space [of "adr_port a"] by (auto simp: address_text_def list_all_iff)

definition address_line :: "string \<Rightarrow> nat \<Rightarrow> address \<Rightarrow> string" where
  "address_line kind i a = kind @ CHR 0x20 # address_text i a @ [CHR 0x0A]"

lemma address_lines_alt: "address_lines kind as = map (\<lambda>(i, a). address_line kind i a) (enumerate 0 as)"
  by (simp add: address_lines_def address_line_def)

text \<open>The keywords of the three kinds of lines.\<close>

definition keyword :: "string \<Rightarrow> bool" where
  "keyword kind \<longleftrightarrow> kind \<in> {''proposer'', ''acceptor'', ''client''}"

lemma keyword_simps:
  assumes "keyword kind"
  shows "kind \<noteq> ''''" "list_all (\<lambda>c. \<not> isspace c) kind" "length kind \<le> 8" "hd kind \<noteq> CHR ''#''"
  using assms by (auto simp: keyword_def isspace_def)

lemma tokens_of_address_line:
  assumes "keyword kind"
  shows "strsep (strtrim (address_line kind i a)) = (kind, Some (address_text i a))"
proof -
  note kw = keyword_simps [OF assms]
  have "strtrim (address_line kind i a) = (kind @ [CHR 0x20]) @ address_text i a"
    unfolding address_line_def
    using strtrim_line [of "kind @ [CHR 0x20]" "address_text i a"] kw last_address_text
    by (cases kind) auto
  moreover have "list_all (\<lambda>c. c \<noteq> CHR 0x20) kind" using kw(2) newline_is_space(2) by (auto simp: list_all_iff)
  ultimately show ?thesis
    using takeWhile_all [of "\<lambda>c. c \<noteq> CHR 0x20" kind "CHR 0x20 # address_text i a"] by (simp add: strsep_def)
qed

lemma parse_address_line:
  assumes "address_ok a"
  shows "length (conf_proposers c) < 500 \<Longrightarrow>
      parse_line (c, g) (address_line ''proposer'' i a) = Some (Some (c\<lparr>conf_proposers := conf_proposers c @ [a]\<rparr>, g))"
    and "length (conf_acceptors c) < 500 \<Longrightarrow>
      parse_line (c, g) (address_line ''acceptor'' i a) = Some (Some (c\<lparr>conf_acceptors := conf_acceptors c @ [a]\<rparr>, g))"
    and "length (conf_clients c) < 500 \<Longrightarrow>
      parse_line (c, g) (address_line ''client'' i a) = Some (Some (c\<lparr>conf_clients := conf_clients c @ [a]\<rparr>, g))"
  using tokens_of_address_line [of "''proposer''" i a] tokens_of_address_line [of "''acceptor''" i a]
    tokens_of_address_line [of "''client''" i a]
  by (simp_all add: parse_line_def keyword_def add_address_def parse_address_text [OF assms] same_nocase_def tolower_def)

lemma skipped_address_line: "keyword kind \<Longrightarrow> \<not> skipped_line (address_line kind i a)"
  by (auto simp: keyword_def skipped_line_def address_line_def)

text \<open>Lines that \<open>fgets\<close> reads at once.\<close>

definition short_line :: "string \<Rightarrow> bool" where
  "short_line l \<longleftrightarrow> (\<exists>body. l = body @ [CHR 0x0A] \<and> CHR 0x0A \<notin> set body \<and> length body < 511)"

lemma file_lines_concat: "list_all short_line ls \<Longrightarrow> file_lines (concat ls) = ls"
proof (induction ls)
  case Nil
  then show ?case by (simp add: file_lines.simps)
next
  case (Cons l ls)
  then obtain body where l: "l = body @ [CHR 0x0A]" "CHR 0x0A \<notin> set body" "length body < 511"
    by (auto simp: short_line_def)
  then have "list_all (\<lambda>c. c \<noteq> CHR 0x0A) body" by (auto simp: list_all_iff)
  then have "fgets (concat (l # ls)) = l"
    using takeWhile_all [of "\<lambda>c. c \<noteq> CHR 0x0A" body "CHR 0x0A # concat ls"] l(1,3) by (simp add: fgets_def)
  moreover have "concat (l # ls) \<noteq> ''''" using l(1) by simp
  ultimately show ?case using Cons by (subst file_lines.simps) simp
qed

lemma short_address_line:
  assumes "keyword kind" "address_ok a" "i < 500"
  shows "short_line (address_line kind i a)"
proof -
  let ?body = "kind @ CHR 0x20 # address_text i a"
  have "length (show_nat i) \<le> 3" using length_show_nat [of i 3] assms(3) by simp
  then have "length ?body < 511"
    using keyword_simps(3) [OF assms(1)] assms(2) length_show_int [of "adr_port a"]
    by (simp add: address_text_def address_ok_def)
  moreover have "CHR 0x0A \<notin> set ?body"
    using keyword_simps(2) [OF assms(1)] assms(2) show_int_no_space(1) [of "adr_port a"] show_nat_digits(1) [of i]
      newline_is_space isdigit_not_special
    by (auto simp: address_text_def address_ok_def list_all_iff)
  ultimately show ?thesis by (auto simp: short_line_def address_line_def)
qed

lemma short_address_lines:
  assumes "keyword kind" "list_all address_ok as" "length as \<le> 500"
  shows "list_all short_line (address_lines kind as)"
  using assms short_address_line [OF assms(1)]
  by (auto simp: address_lines_alt list_all_iff in_set_enumerate_eq)

lemma read_lines_append:
  "read_lines st (xs @ ys) = (case read_lines st xs of Some (Some st) \<Rightarrow> read_lines st ys | Some None \<Rightarrow> Some None | None \<Rightarrow> None)"
  by (induction xs arbitrary: st) (auto split: option.splits)

text \<open>Reading the lines of one kind appends the addresses to their array, for which \<open>upd\<close> stands.\<close>

lemma read_address_lines:
  assumes "keyword kind" "list_all address_ok as" "length xs + length as \<le> 500"
    and "\<And>xs i a. address_ok a \<Longrightarrow> length xs < 500 \<Longrightarrow>
      parse_line (upd xs, g) (address_line kind i a) = Some (Some (upd (xs @ [a]), g))"
  shows "read_lines (upd xs, g) (map (\<lambda>(i, a). address_line kind i a) (enumerate k as)) = Some (Some (upd (xs @ as), g))"
  using assms(2,3)
proof (induction as arbitrary: xs k)
  case (Cons a as)
  then show ?case using assms(4) [of a xs k] skipped_address_line [OF assms(1)] by simp
qed simp

section \<open>Properties\<close>

text \<open>
  C34: A configuration file is read back: when a configuration of at most 500 addresses of each kind, each a word of at
  most 127 characters with a port that fits an \<open>int\<close>, is written as one line for each address, reading that file
  gives the same proposers, acceptors and clients in the same order, and no option is changed.
\<close>

theorem config_file_roundtrip:
  assumes "config_ok c"
  shows "evpaxos_config_read g (Some (config_file c)) = Some (Some (c, g))"
proof -
  let ?ps = "conf_proposers c" and ?as = "conf_acceptors c" and ?cs = "conf_clients c"
  have ok: "list_all address_ok ?ps" "list_all address_ok ?as" "list_all address_ok ?cs"
    "length ?ps \<le> 500" "length ?as \<le> 500" "length ?cs \<le> 500"
    using assms by (auto simp: config_ok_def)
  have kw: "keyword ''proposer''" "keyword ''acceptor''" "keyword ''client''" by (simp_all add: keyword_def)
  have "list_all short_line (address_lines ''proposer'' ?ps @ address_lines ''acceptor'' ?as @ address_lines ''client'' ?cs)"
    using ok kw by (simp add: short_address_lines)
  then have "evpaxos_config_read g (Some (config_file c))
      = read_lines (no_addresses, g) (address_lines ''proposer'' ?ps @ address_lines ''acceptor'' ?as @ address_lines ''client'' ?cs)"
    by (simp only: evpaxos_config_read_def config_file_def file_lines_concat option.case)
  moreover have "read_lines (no_addresses, g) (address_lines ''proposer'' ?ps) = Some (Some (no_addresses\<lparr>conf_proposers := ?ps\<rparr>, g))"
    using read_address_lines [of "''proposer''" ?ps "[]" "\<lambda>xs. no_addresses\<lparr>conf_proposers := xs\<rparr>" g 0] ok kw
    by (simp add: parse_address_line address_lines_alt no_addresses_def)
  moreover have "read_lines (no_addresses\<lparr>conf_proposers := ?ps\<rparr>, g) (address_lines ''acceptor'' ?as)
      = Some (Some (no_addresses\<lparr>conf_proposers := ?ps, conf_acceptors := ?as\<rparr>, g))"
    using read_address_lines [of "''acceptor''" ?as "[]" "\<lambda>xs. no_addresses\<lparr>conf_proposers := ?ps, conf_acceptors := xs\<rparr>" g 0] ok kw
    by (simp add: parse_address_line address_lines_alt no_addresses_def)
  moreover have "read_lines (no_addresses\<lparr>conf_proposers := ?ps, conf_acceptors := ?as\<rparr>, g) (address_lines ''client'' ?cs)
      = Some (Some (c, g))"
    using read_address_lines [of "''client''" ?cs "[]" "\<lambda>xs. no_addresses\<lparr>conf_proposers := ?ps, conf_acceptors := ?as, conf_clients := xs\<rparr>" g 0] ok kw
    by (simp add: parse_address_line address_lines_alt no_addresses_def)
  ultimately show ?thesis by (simp add: read_lines_append)
qed

theorem config_file_roundtrip_witness:
  "let c = \<lparr>conf_proposers = [\<lparr>adr_addr = ''127.0.0.1'', adr_port = 5550\<rparr>],
        conf_acceptors = [\<lparr>adr_addr = ''h1'', adr_port = 8800\<rparr>, \<lparr>adr_addr = ''h2'', adr_port = -1\<rparr>], conf_clients = []\<rparr>
   in config_file c = ''proposer 0 127.0.0.1 5550'' @ [CHR 0x0A] @ ''acceptor 0 h1 8800'' @ [CHR 0x0A] @ ''acceptor 1 h2 -1'' @ [CHR 0x0A]
     \<and> evpaxos_config_read Map.empty (Some (config_file c)) = Some (Some (c, Map.empty))"
proof -
  let ?c = "\<lparr>conf_proposers = [\<lparr>adr_addr = ''127.0.0.1'', adr_port = 5550\<rparr>],
      conf_acceptors = [\<lparr>adr_addr = ''h1'', adr_port = 8800\<rparr>, \<lparr>adr_addr = ''h2'', adr_port = -1\<rparr>], conf_clients = []\<rparr>"
  have "config_ok ?c" by code_simp
  then have "evpaxos_config_read Map.empty (Some (config_file ?c)) = Some (Some (?c, Map.empty))" by (rule config_file_roundtrip)
  moreover have "config_file ?c = ''proposer 0 127.0.0.1 5550'' @ [CHR 0x0A] @ ''acceptor 0 h1 8800'' @ [CHR 0x0A]
      @ ''acceptor 1 h2 -1'' @ [CHR 0x0A]"
    by (simp add: config_file_def address_lines_def address_text_def show_int_def show_nat.simps char_of_def bit_numeral_simps bit_Suc_0_iff)
  ultimately show ?thesis by (simp only: Let_def simp_thms)
qed

text \<open>
  A line of a single word is not reported as an error but crashes the reader, whatever the word, and so does a line of
  spaces: \<open>strsep\<close> leaves a null pointer, which \<open>strtrim\<close> or \<open>sscanf\<close> reads.
\<close>

lemma single_word_line_crashes:
  assumes "CHR 0x20 \<notin> set (strtrim line)"
  shows "parse_line st line = None"
proof -
  have "dropWhile (\<lambda>c. c \<noteq> CHR 0x20) (strtrim line) = []" using assms by (auto simp: dropWhile_eq_Nil_conv)
  then have "snd (strsep (strtrim line)) = None" by (simp add: strsep_def del: dropWhile_eq_Nil_conv)
  then show ?thesis by (auto simp: parse_line_def add_address_def split: prod.split)
qed

text \<open>A number with a tail is accepted, and one that does not fit loses its upper bits.\<close>

lemma parse_integer_examples: "parse_integer ''3x'' = Some 3" "parse_integer ''4294967298'' = Some 2" "parse_integer ''x3'' = None"
  by code_simp+

text \<open>An option may undo the lines before it: the fields that follow its own are cleared.\<close>

lemma boolean_option_clears_neighbours:
  "map_option (map_option (\<lambda>(c, g). (g ''lnr-comm-all-acceptors-chosen'', g ''lnr-min-chunks-missing-before-repeats'')))
     (read_lines (no_addresses, Map.empty)
        [''lnr-comm-all-acceptors-chosen yes'', ''lnr-min-chunks-missing-before-repeats 300'', ''lnr-comm-all-acceptors-trim yes''])
   = Some (Some (Some (Int_Value 0), Some (Int_Value 256)))"
  by code_simp

end
