(* ===== verification/Event_Base.thy ===== *)
theory Event_Base
  imports Transport Peers Strategies Config "HOL-Library.While_Combinator"
begin

text \<open>
  What the event-driven processes under \<open>src/evpaxos\<close> share.  A process is a record of its protocol state, its
  peers and its timers; a callback of libevent is a function on that record which also returns the messages that it
  sends, each with the peer to whose buffer it is written, in order.  A timer is a \<open>bool\<close>, true while its event is
  pending: \<open>event_add\<close> sets it, and libevent clears it when it calls the callback.  \<open>None\<close> is undefined behaviour, a
  failed assertion or a callback that never returns.
\<close>

section \<open>Sending\<close>

type_synonym ('a, 'm) sends = "('a peer \<times> 'm) list"

abbreviation to_all :: "'a peer list \<Rightarrow> 'm \<Rightarrow> ('a, 'm) sends" where
  "to_all ps msg \<equiv> map (\<lambda>q. (q, msg)) ps"

text \<open>
  A callback of a subscription acts on the state of a process and the messages it has sent so far, or on \<open>None\<close> after
  undefined behaviour.
\<close>

type_synonym ('s, 'a, 'm) process = "('s \<times> ('a, 'm) sends) option"

definition callback ::
    "('s \<Rightarrow> 'a peer \<Rightarrow> 'm \<Rightarrow> ('s \<times> ('a, 'm) sends) option) \<Rightarrow>
       ('s, 'a, 'm) process \<Rightarrow> 'a peer \<Rightarrow> 'm \<Rightarrow> ('s, 'a, 'm) process" where
  "callback handler st q msg =
     (case st of
        None \<Rightarrow> None
      | Some (s, sent) \<Rightarrow> map_option (\<lambda>(s, out). (s, sent @ out)) (handler s q msg))"

lemma callback_simps [simp]:
  "callback h None q msg = None"
  "callback h (Some (s, sent)) q msg = map_option (\<lambda>(s, out). (s, sent @ out)) (h s q msg)"
  by (simp_all add: callback_def)

text \<open>Subscribing to several types of messages, one call after the other.\<close>

definition subscribe_all ::
    "(u32 \<times> ('s \<Rightarrow> 'p \<Rightarrow> 'm \<Rightarrow> 's)) list \<Rightarrow> ('s, 'p, 'm) subscription list option" where
  "subscribe_all hs = foldl (\<lambda>subs (t, h). Option.bind subs (\<lambda>subs. peers_subscribe subs t h)) (Some []) hs"

lemma subscribe_all_eq:
  assumes "length hs \<le> 32"
  shows "subscribe_all hs = Some (map (\<lambda>(t, h). \<lparr>sub_type = t, sub_callback = h\<rparr>) hs)"
  using assms
proof (induction hs rule: rev_induct)
  case (snoc x xs)
  then show ?case by (cases x) (auto simp: subscribe_all_def peers_subscribe_def)
qed (simp add: subscribe_all_def)

section \<open>Configuration\<close>

text \<open>The fields of \<open>paxos_config\<close> that only the processes read.\<close>

record ev_config =
  ec_paxos :: paxos_config
  ec_premptive_preempt :: bool
  ec_ballot_catchup :: u32
  ec_ballots_written_ahead :: u32
  ec_lnr_comm_all_acc_trim :: bool
  ec_lnr_comm_all_prop_trim :: bool
  ec_lnr_comm_all_acc_chosen :: bool
  ec_lnr_comm_all_prop_chosen :: bool
  ec_lnr_missing_chunks_before_repeats :: int
  ec_quorum_1 :: int
  ec_group_1 :: int
  ec_group_2 :: int
  ec_proposer_preexec_window_max :: int
  ec_proposer_preexec_window_min :: int
  ec_acceptor_timeout :: int
  ec_max_ballot_increment :: u32
  ec_round_robin_ballot_bias :: bool
  ec_round_robin_backoff :: bool
  ec_backoff_type :: string
  ec_max_backoff_microseconds :: u64
  ec_min_backoff_microseconds :: u64
  ec_max_initial_backff_microseconds :: u64

text \<open>A configuration for concrete runs.\<close>

definition sample_ev_config :: ev_config where
  "sample_ev_config =
     \<lparr>ec_paxos = \<lparr>cfg_learner_catch_up = True, cfg_proposer_timeout = 1, cfg_quorum_2 = 2, cfg_fall_behind_jump = 0,
        cfg_noop_timeout_us = 1000, cfg_await_holes = False, cfg_repropose_values = False\<rparr>,
      ec_premptive_preempt = False, ec_ballot_catchup = 3, ec_ballots_written_ahead = 10,
      ec_lnr_comm_all_acc_trim = True, ec_lnr_comm_all_prop_trim = True, ec_lnr_comm_all_acc_chosen = False,
      ec_lnr_comm_all_prop_chosen = True, ec_lnr_missing_chunks_before_repeats = 10,
      ec_quorum_1 = 2, ec_group_1 = 2, ec_group_2 = 2, ec_proposer_preexec_window_max = 2,
      ec_proposer_preexec_window_min = 1, ec_acceptor_timeout = 5, ec_max_ballot_increment = 10,
      ec_round_robin_ballot_bias = False, ec_round_robin_backoff = False, ec_backoff_type = ''full-jitter'',
      ec_max_backoff_microseconds = 100000, ec_min_backoff_microseconds = 1000,
      ec_max_initial_backff_microseconds = 20000\<rparr>"

section \<open>The loop over a range of instances\<close>

text \<open>
  \<open>for (iid = from; iid <= to; iid++)\<close>, the loop of the three handlers of repeat messages.  With \<open>to\<close> the largest
  instance the condition is always true.
\<close>

definition repeat_loop :: "(iid_t \<Rightarrow> 'm option) \<Rightarrow> iid_t \<Rightarrow> iid_t \<Rightarrow> 'm list option" where
  "repeat_loop reply from til =
     map_option snd (while_option (\<lambda>(iid, sent). iid \<le> til)
       (\<lambda>(iid, sent). (iid + 1, sent @ (case reply iid of None \<Rightarrow> [] | Some m \<Rightarrow> [m]))) (from, []))"

definition replies :: "(iid_t \<Rightarrow> 'm option) \<Rightarrow> iid_t list \<Rightarrow> 'm list" where
  "replies reply is = concat (map (\<lambda>iid. case reply iid of None \<Rightarrow> [] | Some m \<Rightarrow> [m]) is)"

lemma replies_Cons: "replies reply (i # is) = (case reply i of None \<Rightarrow> [] | Some m \<Rightarrow> [m]) @ replies reply is"
  by (simp add: replies_def)

lemma u32_upto_Cons:
  assumes "a \<le> b" "b \<noteq> UINT32_MAX"
  shows "u32_upto a b = a # u32_upto (a + 1) b"
proof -
  have "a \<noteq> UINT32_MAX" using assms UINT32_MAX_le_iff by blast
  then have "unat (a + 1) = Suc (unat a)" by (rule u32_Suc_unat)
  moreover have "unat a < Suc (unat b)" using assms(1) by (simp add: word_le_nat_alt)
  ultimately show ?thesis by (simp add: u32_upto_def upt_conv_Cons del: upt_Suc)
qed

lemma u32_upto_empty: "b < a \<Longrightarrow> u32_upto a b = []"
  by (simp add: u32_upto_def word_less_nat_alt)

lemma repeat_loop_returns:
  assumes "til \<noteq> UINT32_MAX"
  shows "repeat_loop reply from til = Some (replies reply (u32_upto from til))"
proof -
  let ?b = "\<lambda>(iid, sent :: 'a list). iid \<le> til"
    and ?c = "\<lambda>(iid, sent). (iid + 1, sent @ (case reply iid of None \<Rightarrow> [] | Some m \<Rightarrow> [m]))"
  have "\<exists>i. while_option ?b ?c (from, sent) = Some (i, sent @ replies reply (u32_upto from til))" for sent
  proof (induction "length (u32_upto from til)" arbitrary: "from" sent rule: less_induct)
    case less
    show ?case
    proof (cases "from \<le> til")
      case True
      note range = u32_upto_Cons [OF True assms]
      then show ?thesis
        using less [of "from + 1" "sent @ (case reply from of None \<Rightarrow> [] | Some m \<Rightarrow> [m])"] True
        by (subst while_option_unfold) (simp add: replies_Cons)
    next
      case False
      then show ?thesis by (subst while_option_unfold) (simp add: u32_upto_empty replies_def)
    qed
  qed
  from this [of "[]"] show ?thesis by (auto simp: repeat_loop_def)
qed

lemma repeat_loop_diverges: "repeat_loop reply from UINT32_MAX = None"
proof -
  have "while_option (\<lambda>(iid, sent :: 'a list). iid \<le> UINT32_MAX) c s = None" for c s
  proof (rule ccontr)
    assume "while_option (\<lambda>(iid, sent :: 'a list). iid \<le> UINT32_MAX) c s \<noteq> None"
    then obtain t where "while_option (\<lambda>(iid, sent :: 'a list). iid \<le> UINT32_MAX) c s = Some t" by blast
    from while_option_stop [OF this] show False by (cases t) simp
  qed
  then show ?thesis by (simp add: repeat_loop_def)
qed

text \<open>The loop is a pass over the range, or does not end.\<close>

lemma repeat_loop_eq:
  "repeat_loop reply from til = (if til = UINT32_MAX then None else Some (replies reply (u32_upto from til)))"
  using repeat_loop_returns repeat_loop_diverges by auto

section \<open>Processes that serve messages\<close>

text \<open>
  The reference for a process: one function from a state and a message to the new state and what is sent, applied to the
  messages one after the other.  \<open>fine\<close> are the messages at which the callbacks behave.
\<close>

fun serve_all :: "('s \<Rightarrow> 'm \<Rightarrow> 's \<times> 'o list) \<Rightarrow> 's \<Rightarrow> 'm list \<Rightarrow> 's \<times> 'o list" where
  "serve_all serve s [] = (s, [])"
| "serve_all serve s (msg # msgs) =
     (let (s, out) = serve s msg; (s, outs) = serve_all serve s msgs in (s, out @ outs))"

locale message_server =
  fixes dispatch :: "('s, 'a, 'm) process \<Rightarrow> 'm \<Rightarrow> ('s, 'a, 'm) process"
    and serve :: "'s \<Rightarrow> 'm \<Rightarrow> 's \<times> ('a, 'm) sends"
    and fine :: "'m \<Rightarrow> bool"
  assumes dispatch_serves: "fine msg \<Longrightarrow> dispatch (Some (s, sent)) msg = Some (fst (serve s msg), sent @ snd (serve s msg))"
begin

lemma stream_served:
  assumes "list_all fine msgs"
  shows "foldl dispatch (Some (s, sent)) msgs
    = Some (fst (serve_all serve s msgs), sent @ snd (serve_all serve s msgs))"
  using assms
proof (induction msgs arbitrary: s sent)
  case (Cons msg msgs)
  then show ?case by (simp add: dispatch_serves split: prod.split)
qed simp

end

section \<open>Loops that send\<close>

text \<open>
  \<open>while (cond) body\<close> where the body sends messages; \<open>n\<close> counts the rounds, in each of which the clock and the random numbers
  may be different.  \<open>None\<close> is a round with undefined behaviour, or a loop that never ends.
\<close>

partial_function (option) send_loop ::
    "('s \<Rightarrow> bool) \<Rightarrow> (nat \<Rightarrow> 's \<Rightarrow> (nat \<times> 's \<times> 'm list) option) \<Rightarrow> nat \<Rightarrow> 's \<Rightarrow> (nat \<times> 's \<times> 'm list) option" where
  "send_loop cond body n s =
     (if cond s then
        Option.bind (body n s) (\<lambda>(n, s, out).
          Option.bind (send_loop cond body n s) (\<lambda>(n, s, outs). Some (n, s, out @ outs)))
      else Some (n, s, []))"

declare send_loop.simps [code]

text \<open>What every round keeps holds after the loop, and what holds of the messages of each round holds of all of them.\<close>

lemma send_loop_invariant:
  assumes loop: "send_loop cond body n s = Some (n', s', out)" and init: "I s"
    and step: "\<And>n s n' s' out. I s \<Longrightarrow> cond s \<Longrightarrow> body n s = Some (n', s', out) \<Longrightarrow> I s' \<and> (\<forall>m \<in> set out. Q m)"
  shows "I s' \<and> \<not> cond s' \<and> (\<forall>m \<in> set out. Q m)"
proof -
  let ?done = "\<lambda>(n' :: nat, s', out). I s' \<and> \<not> cond s' \<and> (\<forall>m \<in> set out. Q m)"
  have "cond = cond \<longrightarrow> body = body \<longrightarrow> I s \<longrightarrow> ?done (n', s', out)"
  proof (rule send_loop.raw_induct [where P = "\<lambda>c b n s y. c = cond \<longrightarrow> b = body \<longrightarrow> I s \<longrightarrow> ?done y", OF _ loop])
    fix rec c b n s y
    assume rec: "\<And>c b n s y. rec c b n s = Some y \<Longrightarrow> c = cond \<longrightarrow> b = body \<longrightarrow> I s \<longrightarrow> ?done y"
      and y: "(if c s then Option.bind (b n s) (\<lambda>(n, s, out). Option.bind (rec c b n s) (\<lambda>(n, s, outs). Some (n, s, out @ outs)))
               else Some (n, s, [])) = Some y"
    show "c = cond \<longrightarrow> b = body \<longrightarrow> I s \<longrightarrow> ?done y"
    proof (intro impI)
      assume [simp]: "c = cond" "b = body" and I: "I s"
      show "?done y"
      proof (cases "cond s")
        case True
        with y obtain n1 s1 out1 n2 s2 out2 where b: "body n s = Some (n1, s1, out1)"
          and r: "rec cond body n1 s1 = Some (n2, s2, out2)" and y: "y = (n2, s2, out1 @ out2)"
          by (auto simp: bind_eq_Some_conv)
        from step [OF I True b] rec [OF r] show ?thesis unfolding y by auto
      qed (use y I in auto)
    qed
  qed
  with init show ?thesis by simp
qed

text \<open>A loop whose rounds never fail and always have less to do ends.\<close>

locale ending_loop =
  fixes cond :: "'s \<Rightarrow> bool" and body :: "nat \<Rightarrow> 's \<Rightarrow> (nat \<times> 's \<times> 'm list) option"
    and invar :: "'s \<Rightarrow> bool" and shrinks :: "('s \<times> 's) set"
  assumes wf_shrinks: "wf shrinks"
    and round_ok: "invar s \<Longrightarrow> cond s \<Longrightarrow> \<exists>n' s' out. body n s = Some (n', s', out) \<and> invar s' \<and> (s', s) \<in> shrinks"
begin

lemma send_loop_returns: "invar s \<Longrightarrow> \<exists>n' s' out. send_loop cond body n s = Some (n', s', out) \<and> invar s' \<and> \<not> cond s'"
proof (induction s arbitrary: n rule: wf_induct_rule [OF wf_shrinks])
  case (1 s)
  show ?case
  proof (cases "cond s")
    case True
    with round_ok [OF 1(2)] obtain n1 s1 out1
      where b: "body n s = Some (n1, s1, out1)" "invar s1" "(s1, s) \<in> shrinks" by blast
    from 1(1) [OF b(3,2)] obtain n2 s2 out2
      where "send_loop cond body n1 s1 = Some (n2, s2, out2)" "invar s2" "\<not> cond s2" by blast
    with True b(1) show ?thesis by (subst send_loop.simps) simp
  qed (use 1(2) in \<open>subst send_loop.simps, simp\<close>)
qed

end

text \<open>What a round reads of its surroundings: the clock, and the results of \<open>rand\<close> for ballots, backoffs and shuffles.\<close>

record surroundings =
  env_now :: timeval
  env_rand :: "u32 list"
  env_backoff :: "nat \<Rightarrow> u32 list"
  env_shuffle :: "nat \<Rightarrow> nat"

text \<open>Steps of bounded length over the 32-bit numbers leave a small set.\<close>

lemma escapes:
  fixes f :: "u32 \<Rightarrow> u32" and d :: "u32 \<Rightarrow> nat"
  assumes f: "\<And>x. f x = x + of_nat (d x)" and d: "\<And>x. 0 < d x \<and> d x \<le> c"
    and P: "finite P" "c * card P < 2 ^ 32"
  shows "\<exists>k. (f ^^ k) x \<notin> P"
proof (rule ccontr)
  assume "\<nexists>k. (f ^^ k) x \<notin> P"
  then have in_P: "(f ^^ k) x \<in> P" for k by blast
  define D where "D = rec_nat 0 (\<lambda>k s. s + d ((f ^^ k) x))"
  have D: "D 0 = 0" "D (Suc k) = D k + d ((f ^^ k) x)" for k by (simp_all add: D_def)
  have pos: "(f ^^ k) x = x + of_nat (D k)" for k
  proof (induction k)
    case (Suc k)
    then show ?case using f [of "(f ^^ k) x"] by (simp add: D algebra_simps)
  qed (simp add: D)
  have mono: "strict_mono D" using d by (simp add: strict_mono_Suc_iff D)
  have bound: "D k \<le> c * k" for k
  proof (induction k)
    case (Suc k)
    then show ?case using d [of "(f ^^ k) x"] by (simp add: D)
  qed (simp add: D)
  have small: "D k < 2 ^ 32" if "k \<le> card P" for k
  proof -
    have "D k \<le> c * card P" using bound [of k] that by (meson le_trans mult_le_mono2)
    then show ?thesis using P(2) by linarith
  qed
  have "inj_on (\<lambda>k. (f ^^ k) x) {..card P}"
  proof (rule inj_onI)
    fix j k assume jk: "j \<in> {..card P}" "k \<in> {..card P}" "(f ^^ j) x = (f ^^ k) x"
    then have "(of_nat (D j) :: u32) = of_nat (D k)" by (simp add: pos)
    then have "unat (of_nat (D j) :: u32) = unat (of_nat (D k) :: u32)" by simp
    then have "D j = D k" using small [of j] small [of k] jk by (simp add: unsigned_of_nat take_bit_nat_eq_self)
    then show "j = k" using mono by (simp add: strict_mono_eq)
  qed
  then have "card {..card P} \<le> card P" using in_P P(1) by (intro card_inj_on_le) auto
  then show False by simp
qed

end
