(* ===== verification/Event_Acceptors.thy ===== *)
theory Event_Acceptors
  imports Event_Base Standard_Acceptor Writeahead_Acceptor Epoch_Acceptor
begin

text \<open>
  \<open>src/evpaxos/ev_standard_acceptor.c\<close>, \<open>ev_write_ahead_ballot_acceptor.c\<close> and \<open>ev_epoch_acceptor.c\<close>: the processes around the
  three acceptors.  A handler gets the message as it was unpacked; reading the member of the union that the type of
  the message does not select is undefined.  The performance timers only produce log lines and are left out.  An
  acceptor that could not be created is a null pointer which every callback follows, so that initialisation
  gives \<open>None\<close> then.
\<close>

section \<open>The standard acceptor\<close>

record ('h, 'a) ev_standard_acceptor =
  esa_peers :: "'a standard_paxos_peers"
  esa_state :: "'h standard_acceptor"
  esa_timer_ev :: bool

text \<open>
  With \<open>premptive_preempt\<close> the handlers pass the struct \<open>paxos_preempted\<close> where a \<open>standard_paxos_message\<close> is expected, so
  that the packing reads a type and contents that are not there.
\<close>

definition evacceptor_handle_prepare ::
    "ev_config \<Rightarrow> 'h stable_storage_api \<Rightarrow> ('h, 'a) ev_standard_acceptor \<Rightarrow> 'a peer \<Rightarrow> standard_paxos_message \<Rightarrow>
       (('h, 'a) ev_standard_acceptor \<times> ('a, standard_paxos_message) sends) option" where
  "evacceptor_handle_prepare cfg api a p msg =
     (case msg of
        PAXOS_PREPARE prepare \<Rightarrow>
          (case standard_acceptor_receive_prepare api (esa_state a) prepare of
             (s, None, _) \<Rightarrow> Some (a\<lparr>esa_state := s\<rparr>, [])
           | (s, Some out, preempted) \<Rightarrow>
               if preempted \<noteq> None \<and> ec_premptive_preempt cfg then None
               else Some (a\<lparr>esa_state := s\<rparr>, [(p, out)]))
      | _ \<Rightarrow> None)"

definition evacceptor_handle_accept ::
    "ev_config \<Rightarrow> 'h stable_storage_api \<Rightarrow> ('h, 'a) ev_standard_acceptor \<Rightarrow> 'a peer \<Rightarrow> standard_paxos_message \<Rightarrow>
       (('h, 'a) ev_standard_acceptor \<times> ('a, standard_paxos_message) sends) option" where
  "evacceptor_handle_accept cfg api a p msg =
     (case msg of
        PAXOS_ACCEPT accept \<Rightarrow>
          (case standard_acceptor_receive_accept api (esa_state a) accept of
             (s, None, _) \<Rightarrow> Some (a\<lparr>esa_state := s\<rparr>, [])
           | (s, Some (PAXOS_ACCEPTED out), preempted) \<Rightarrow>
               if preempted \<noteq> None \<and> ec_premptive_preempt cfg then None
               else Some (a\<lparr>esa_state := s\<rparr>, to_all (peers_foreach_client (esa_peers a)) (PAXOS_ACCEPTED out))
           | (s, Some out, _) \<Rightarrow> Some (a\<lparr>esa_state := s\<rparr>, [(p, out)]))
      | _ \<Rightarrow> None)"

definition evacceptor_handle_repeat ::
    "('h, 'a) ev_standard_acceptor \<Rightarrow> 'a peer \<Rightarrow> standard_paxos_message \<Rightarrow>
       (('h, 'a) ev_standard_acceptor \<times> ('a, standard_paxos_message) sends) option" where
  "evacceptor_handle_repeat a p msg =
     (case msg of
        PAXOS_REPEAT rep \<Rightarrow>
          map_option (\<lambda>outs. (a, map (\<lambda>out. (p, out)) outs))
            (repeat_loop (standard_acceptor_receive_repeat (esa_state a)) (rep_from rep) (rep_to rep))
      | _ \<Rightarrow> None)"

definition evacceptor_handle_chosen ::
    "('h, 'a) ev_standard_acceptor \<Rightarrow> 'a peer \<Rightarrow> standard_paxos_message \<Rightarrow>
       (('h, 'a) ev_standard_acceptor \<times> ('a, standard_paxos_message) sends) option" where
  "evacceptor_handle_chosen a p msg =
     (case msg of
        PAXOS_CHOSEN chosen \<Rightarrow> Some (a\<lparr>esa_state := standard_acceptor_receive_chosen (esa_state a) chosen\<rparr>, [])
      | _ \<Rightarrow> None)"

definition evacceptor_handle_trim ::
    "('h, 'a) ev_standard_acceptor \<Rightarrow> 'a peer \<Rightarrow> standard_paxos_message \<Rightarrow>
       (('h, 'a) ev_standard_acceptor \<times> ('a, standard_paxos_message) sends) option" where
  "evacceptor_handle_trim a p msg =
     (case msg of
        PAXOS_TRIM trim \<Rightarrow> Some (a\<lparr>esa_state := fst (standard_acceptor_receive_trim (esa_state a) trim)\<rparr>, [])
      | _ \<Rightarrow> None)"

text \<open>The message is initialised with zeros.\<close>

definition send_acceptor_state ::
    "('h, 'a) ev_standard_acceptor \<Rightarrow> ('h, 'a) ev_standard_acceptor \<times> ('a, standard_paxos_message) sends" where
  "send_acceptor_state a =
     (a\<lparr>esa_timer_ev := True\<rparr>,
      to_all (peers_foreach_client (esa_peers a))
        (PAXOS_ACCEPTOR_STATE (standard_acceptor_get_current_state (esa_state a)
           \<lparr>as_aid = 0, as_trim_iid = 0, as_current_instance = 0\<rparr>)))"

definition evacceptor_subscriptions ::
    "ev_config \<Rightarrow> 'h stable_storage_api \<Rightarrow>
       ((('h, 'a) ev_standard_acceptor, 'a, standard_paxos_message) process, 'a peer, standard_paxos_message) subscription list option" where
  "evacceptor_subscriptions cfg api = subscribe_all
     [(0, callback (evacceptor_handle_prepare cfg api)), (2, callback (evacceptor_handle_accept cfg api)),
      (6, callback evacceptor_handle_repeat), (7, callback evacceptor_handle_trim), (4, callback evacceptor_handle_chosen)]"

definition evacceptor_init_internal ::
    "'h stable_storage_api \<Rightarrow> 'h \<Rightarrow> iid_t \<Rightarrow> int \<Rightarrow> evpaxos_config \<Rightarrow> address standard_paxos_peers \<Rightarrow>
       ('h, address) ev_standard_acceptor option" where
  "evacceptor_init_internal api h junk i c p =
     map_option (\<lambda>s. \<lparr>esa_peers = peers_connect_to_proposers (conf_proposers c) p i, esa_state = s, esa_timer_ev = True\<rparr>)
       (standard_acceptor_new api h junk (word_of_int i))"

text \<open>\<open>listen port\<close> tells whether libevent could listen on the port.\<close>

definition evacceptor_init ::
    "'h stable_storage_api \<Rightarrow> 'h \<Rightarrow> iid_t \<Rightarrow> (int \<Rightarrow> bool) \<Rightarrow> settings \<Rightarrow> int \<Rightarrow> string option \<Rightarrow>
       ('h, address) ev_standard_acceptor outcome" where
  "evacceptor_init api h junk listen g i file =
     (case evpaxos_config_read g file of
        None \<Rightarrow> None
      | Some None \<Rightarrow> Some None
      | Some (Some (c, _)) \<Rightarrow>
          if i < 0 \<or> i \<ge> evpaxos_acceptor_count c then Some None
          else case evpaxos_acceptor_listen_port c i of
                 None \<Rightarrow> None
               | Some port \<Rightarrow> if \<not> listen port then Some None
                             else map_option Some (evacceptor_init_internal api h junk i c peers_new))"

section \<open>The write-ahead acceptor\<close>

record ('h, 'a) ev_write_ahead_acceptor =
  ewa_peers_proposers :: "'a standard_paxos_peers"
  ewa_state :: "'h writeahead_ballot_acceptor"
  ewa_send_state_event :: bool
  ewa_ballot_window_check_event :: bool
  ewa_ballot_window_iteration_event :: bool

definition ev_write_ahead_acceptor_handle_prepare ::
    "'h stable_storage_api \<Rightarrow> ('h, 'a) ev_write_ahead_acceptor \<Rightarrow> 'a peer \<Rightarrow> standard_paxos_message \<Rightarrow>
       (('h, 'a) ev_write_ahead_acceptor \<times> ('a, standard_paxos_message) sends) option" where
  "ev_write_ahead_acceptor_handle_prepare api a p msg =
     (case msg of
        PAXOS_PREPARE prepare \<Rightarrow>
          (case write_ahead_window_acceptor_receive_prepare api (ewa_state a) prepare of
             (s, None) \<Rightarrow> Some (a\<lparr>ewa_state := s\<rparr>, [])
           | (s, Some out) \<Rightarrow> Some (a\<lparr>ewa_state := s\<rparr>, [(p, out)]))
      | _ \<Rightarrow> None)"

definition ev_write_ahead_acceptor_handle_accept ::
    "'h stable_storage_api \<Rightarrow> ('h, 'a) ev_write_ahead_acceptor \<Rightarrow> 'a peer \<Rightarrow> standard_paxos_message \<Rightarrow>
       (('h, 'a) ev_write_ahead_acceptor \<times> ('a, standard_paxos_message) sends) option" where
  "ev_write_ahead_acceptor_handle_accept api a p msg =
     (case msg of
        PAXOS_ACCEPT accept \<Rightarrow>
          (case write_ahead_window_acceptor_receive_accept api (ewa_state a) accept of
             (s, None) \<Rightarrow> Some (a\<lparr>ewa_state := s\<rparr>, [])
           | (s, Some out) \<Rightarrow>
               Some (a\<lparr>ewa_state := s\<rparr>,
                 case out of
                   PAXOS_ACCEPTED _ \<Rightarrow> to_all (peers_foreach_client (ewa_peers_proposers a)) out
                 | PAXOS_PREEMPTED _ \<Rightarrow> [(p, out)]
                 | PAXOS_CHOSEN _ \<Rightarrow> [(p, out)]
                 | PAXOS_TRIM _ \<Rightarrow> [(p, out)]
                 | _ \<Rightarrow> []))
      | _ \<Rightarrow> None)"

text \<open>Only acceptances and chosen instances are sent again.\<close>

definition ev_write_ahead_acceptor_handle_repeat ::
    "('h, 'a) ev_write_ahead_acceptor \<Rightarrow> 'a peer \<Rightarrow> standard_paxos_message \<Rightarrow>
       (('h, 'a) ev_write_ahead_acceptor \<times> ('a, standard_paxos_message) sends) option" where
  "ev_write_ahead_acceptor_handle_repeat a p msg =
     (case msg of
        PAXOS_REPEAT rep \<Rightarrow>
          map_option (\<lambda>outs. (a, concat (map (\<lambda>out. case out of
              PAXOS_ACCEPTED _ \<Rightarrow> [(p, out)] | PAXOS_CHOSEN _ \<Rightarrow> [(p, out)] | _ \<Rightarrow> []) outs)))
            (repeat_loop (write_ahead_window_acceptor_receive_repeat (ewa_state a)) (rep_from rep) (rep_to rep))
      | _ \<Rightarrow> None)"

definition ev_write_ahead_acceptor_handle_chosen ::
    "'h stable_storage_api \<Rightarrow> ('h, 'a) ev_write_ahead_acceptor \<Rightarrow> 'a peer \<Rightarrow> standard_paxos_message \<Rightarrow>
       (('h, 'a) ev_write_ahead_acceptor \<times> ('a, standard_paxos_message) sends) option" where
  "ev_write_ahead_acceptor_handle_chosen api a p msg =
     (case msg of
        PAXOS_CHOSEN chosen \<Rightarrow> Some (a\<lparr>ewa_state := write_ahead_ballot_acceptor_receive_chosen api (ewa_state a) chosen\<rparr>, [])
      | _ \<Rightarrow> None)"

definition ev_write_ahead_acceptor_handle_trim ::
    "'h stable_storage_api \<Rightarrow> ('h, 'a) ev_write_ahead_acceptor \<Rightarrow> 'a peer \<Rightarrow> standard_paxos_message \<Rightarrow>
       (('h, 'a) ev_write_ahead_acceptor \<times> ('a, standard_paxos_message) sends) option" where
  "ev_write_ahead_acceptor_handle_trim api a p msg =
     (case msg of
        PAXOS_TRIM trim \<Rightarrow> Some (a\<lparr>ewa_state := fst (write_ahead_window_acceptor_receive_trim api (ewa_state a) trim)\<rparr>, [])
      | _ \<Rightarrow> None)"

definition send_write_ahead_acceptor_state ::
    "('h, 'a) ev_write_ahead_acceptor \<Rightarrow> ('h, 'a) ev_write_ahead_acceptor \<times> ('a, standard_paxos_message) sends" where
  "send_write_ahead_acceptor_state a =
     (a\<lparr>ewa_send_state_event := True\<rparr>,
      to_all (peers_foreach_client (ewa_peers_proposers a))
        (PAXOS_ACCEPTOR_STATE (write_ahead_window_acceptor_get_current_state (ewa_state a))))"

definition write_ballot_event :: "'h stable_storage_api \<Rightarrow> ('h, 'a) ev_write_ahead_acceptor \<Rightarrow> ('h, 'a) ev_write_ahead_acceptor" where
  "write_ballot_event api a =
     a\<lparr>ewa_state := write_ahead_acceptor_write_ballot_window api (ewa_state a), ewa_ballot_window_check_event := True\<rparr>"

definition check_ballot_window_event :: "('h, 'a) ev_write_ahead_acceptor \<Rightarrow> ('h, 'a) ev_write_ahead_acceptor" where
  "check_ballot_window_event a =
     (if write_ahead_acceptor_check_ballot_window (ewa_state a) then a\<lparr>ewa_ballot_window_iteration_event := True\<rparr> else a)"

definition ev_write_ahead_acceptor_subscriptions ::
    "'h stable_storage_api \<Rightarrow>
       ((('h, 'a) ev_write_ahead_acceptor, 'a, standard_paxos_message) process, 'a peer, standard_paxos_message) subscription list option" where
  "ev_write_ahead_acceptor_subscriptions api = subscribe_all
     [(0, callback (ev_write_ahead_acceptor_handle_prepare api)), (2, callback (ev_write_ahead_acceptor_handle_accept api)),
      (6, callback ev_write_ahead_acceptor_handle_repeat), (7, callback (ev_write_ahead_acceptor_handle_trim api)),
      (4, callback (ev_write_ahead_acceptor_handle_chosen api))]"

definition ev_write_ahead_acceptor_init_internal ::
    "ev_config \<Rightarrow> 'h stable_storage_api \<Rightarrow> 'h \<Rightarrow> iid_t \<Rightarrow> int \<Rightarrow> 'a standard_paxos_peers \<Rightarrow>
       ('h, 'a) ev_write_ahead_acceptor option" where
  "ev_write_ahead_acceptor_init_internal cfg api h junk i p =
     map_option (\<lambda>s. \<lparr>ewa_peers_proposers = p, ewa_state = s, ewa_send_state_event = True,
         ewa_ballot_window_check_event = True, ewa_ballot_window_iteration_event = False\<rparr>)
       (write_ahead_window_acceptor_new api h junk (word_of_int i) (ec_ballot_catchup cfg) (ec_ballots_written_ahead cfg))"

definition ev_write_ahead_window_acceptor_init ::
    "(settings \<Rightarrow> ev_config) \<Rightarrow> 'h stable_storage_api \<Rightarrow> 'h \<Rightarrow> iid_t \<Rightarrow> (int \<Rightarrow> bool) \<Rightarrow> settings \<Rightarrow> int \<Rightarrow> string option \<Rightarrow>
       ('h, address) ev_write_ahead_acceptor outcome" where
  "ev_write_ahead_window_acceptor_init cfg api h junk listen g i file =
     (case evpaxos_config_read g file of
        None \<Rightarrow> None
      | Some None \<Rightarrow> Some None
      | Some (Some (c, g)) \<Rightarrow>
          if i < 0 \<or> i \<ge> evpaxos_acceptor_count c then Some None
          else case evpaxos_acceptor_listen_port c i of
                 None \<Rightarrow> None
               | Some port \<Rightarrow> if \<not> listen port then Some None
                             else map_option Some (ev_write_ahead_acceptor_init_internal (cfg g) api h junk i peers_new))"

section \<open>The epoch acceptor\<close>

record ('h, 'a) ev_epoch_acceptor =
  eea_peers :: "'a writeahead_epoch_paxos_peers"
  eea_acceptor :: "'h epoch_acceptor"
  eea_send_state_event :: bool

definition ev_epoch_acceptor_handle_standard_prepare ::
    "('h, 'a) ev_epoch_acceptor \<Rightarrow> 'a peer \<Rightarrow> epoch_paxos_message \<Rightarrow>
       (('h, 'a) ev_epoch_acceptor \<times> ('a, epoch_paxos_message) sends) option" where
  "ev_epoch_acceptor_handle_standard_prepare a p msg =
     (case msg of
        WRITEAHEAD_STANDARD_PREPARE prepare \<Rightarrow>
          (case writeahead_epoch_acceptor_receive_prepare (eea_acceptor a) prepare of
             (s, None) \<Rightarrow> Some (a\<lparr>eea_acceptor := s\<rparr>, [])
           | (s, Some out) \<Rightarrow> Some (a\<lparr>eea_acceptor := s\<rparr>, [(p, out)]))
      | _ \<Rightarrow> None)"

text \<open>
  When nothing is sent, \<open>out\<close> is not initialised, and the handler still destroys its contents.
\<close>

definition ev_epoch_acceptor_handle_epoch_ballot_prepare ::
    "ev_config \<Rightarrow> 'h epoch_stable_storage \<Rightarrow> ('h, 'a) ev_epoch_acceptor \<Rightarrow> 'a peer \<Rightarrow> epoch_paxos_message \<Rightarrow>
       (('h, 'a) ev_epoch_acceptor \<times> ('a, epoch_paxos_message) sends) option" where
  "ev_epoch_acceptor_handle_epoch_ballot_prepare cfg es a p msg =
     (case msg of
        WRITEAHEAD_EPOCH_BALLOT_PREPARE prepare \<Rightarrow>
          (case writeahead_epoch_acceptor_receive_epoch_ballot_prepare es (eea_acceptor a) prepare of
             (s, None, _) \<Rightarrow> None
           | (s, Some out, None) \<Rightarrow> Some (a\<lparr>eea_acceptor := s\<rparr>, [(p, out)])
           | (s, Some out, Some preempted) \<Rightarrow>
               if ec_premptive_preempt cfg
               then map_option (\<lambda>q. (a\<lparr>eea_acceptor := s\<rparr>, [(p, out), (q, WRITEAHEAD_EPOCH_BALLOT_PREEMPTED preempted)]))
                      (writeahead_epoch_paxos_peers_send_to_proposer (eea_peers a)
                         (sint (ballot_proposer_id (eb_ballot (ebpe_requested_epoch_ballot preempted)))))
               else Some (a\<lparr>eea_acceptor := s\<rparr>, [(p, out)]))
      | _ \<Rightarrow> None)"

text \<open>Here the address of a \<open>bool\<close> is passed where the message is expected.\<close>

definition ev_epoch_acceptor_handle_epoch_ballot_accept ::
    "ev_config \<Rightarrow> 'h epoch_stable_storage \<Rightarrow> ('h, 'a) ev_epoch_acceptor \<Rightarrow> 'a peer \<Rightarrow> epoch_paxos_message \<Rightarrow>
       (('h, 'a) ev_epoch_acceptor \<times> ('a, epoch_paxos_message) sends) option" where
  "ev_epoch_acceptor_handle_epoch_ballot_accept cfg es a p msg =
     (case msg of
        WRITEAHEAD_EPOCH_BALLOT_ACCEPT accept \<Rightarrow>
          (case writeahead_epoch_acceptor_receive_epoch_ballot_accept es (eea_acceptor a) accept of
             (s, None, _) \<Rightarrow> Some (a\<lparr>eea_acceptor := s\<rparr>, [])
           | (s, Some (WRITEAHEAD_EPOCH_BALLOT_ACCEPTED out), preempted) \<Rightarrow>
               if preempted \<noteq> None \<and> ec_premptive_preempt cfg then None
               else Some (a\<lparr>eea_acceptor := s\<rparr>,
                      to_all (writeahead_epoch_paxos_peers_foreach_client (eea_peers a)) (WRITEAHEAD_EPOCH_BALLOT_ACCEPTED out))
           | (s, Some out, _) \<Rightarrow> Some (a\<lparr>eea_acceptor := s\<rparr>, [(p, out)]))
      | _ \<Rightarrow> None)"

definition ev_epoch_acceptor_handle_epoch_notification ::
    "'h epoch_stable_storage \<Rightarrow> ('h, 'a) ev_epoch_acceptor \<Rightarrow> 'a peer \<Rightarrow> epoch_paxos_message \<Rightarrow>
       (('h, 'a) ev_epoch_acceptor \<times> ('a, epoch_paxos_message) sends) option" where
  "ev_epoch_acceptor_handle_epoch_notification es a p msg =
     (case msg of
        WRITEAHEAD_EPOCH_NOTIFICATION notification \<Rightarrow>
          Some (a\<lparr>eea_acceptor := fst (writeahead_epoch_acceptor_receive_epoch_notification es (eea_acceptor a) notification)\<rparr>, [])
      | _ \<Rightarrow> None)"

definition ev_epoch_acceptor_handle_repeat ::
    "('h, 'a) ev_epoch_acceptor \<Rightarrow> 'a peer \<Rightarrow> epoch_paxos_message \<Rightarrow>
       (('h, 'a) ev_epoch_acceptor \<times> ('a, epoch_paxos_message) sends) option" where
  "ev_epoch_acceptor_handle_repeat a p msg =
     (case msg of
        WRITEAHEAD_REPEAT rep \<Rightarrow>
          map_option (\<lambda>outs. (a, map (\<lambda>out. (p, out)) outs))
            (repeat_loop (writeahead_epoch_acceptor_receive_repeat (eea_acceptor a)) (rep_from rep) (rep_to rep))
      | _ \<Rightarrow> None)"

definition ev_epoch_acceptor_handle_epoch_ballot_chosen ::
    "'h epoch_stable_storage \<Rightarrow> ('h, 'a) ev_epoch_acceptor \<Rightarrow> 'a peer \<Rightarrow> epoch_paxos_message \<Rightarrow>
       (('h, 'a) ev_epoch_acceptor \<times> ('a, epoch_paxos_message) sends) option" where
  "ev_epoch_acceptor_handle_epoch_ballot_chosen es a p msg =
     (case msg of
        WRITEAHEAD_INSTANCE_CHOSEN_AT_EPOCH_BALLOT chosen \<Rightarrow>
          Some (a\<lparr>eea_acceptor := fst (writeahead_epoch_acceptor_receive_instance_chosen es (eea_acceptor a) chosen)\<rparr>, [])
      | _ \<Rightarrow> None)"

definition ev_epoch_acceptor_handle_trim ::
    "('h, 'a) ev_epoch_acceptor \<Rightarrow> 'a peer \<Rightarrow> epoch_paxos_message \<Rightarrow>
       (('h, 'a) ev_epoch_acceptor \<times> ('a, epoch_paxos_message) sends) option" where
  "ev_epoch_acceptor_handle_trim a p msg =
     (case msg of
        WRITEAHEAD_INSTANCE_TRIM trim \<Rightarrow>
          Some (a\<lparr>eea_acceptor := fst (writeahead_epoch_acceptor_receive_trim (eea_acceptor a) trim)\<rparr>, [])
      | _ \<Rightarrow> None)"

definition send_epoch_acceptor_state ::
    "('h, 'a) ev_epoch_acceptor \<Rightarrow> ('h, 'a) ev_epoch_acceptor \<times> ('a, epoch_paxos_message) sends" where
  "send_epoch_acceptor_state a =
     (a\<lparr>eea_send_state_event := True\<rparr>,
      to_all (writeahead_epoch_paxos_peers_foreach_proposer (eea_peers a))
        (WRITEAHEAD_ACCEPTOR_STATE (writeahead_epoch_acceptor_get_current_state (eea_acceptor a))))"

text \<open>The subscription to notifications is commented out in the source.\<close>

definition ev_epoch_acceptor_subscriptions ::
    "ev_config \<Rightarrow> 'h epoch_stable_storage \<Rightarrow>
       ((('h, 'a) ev_epoch_acceptor, 'a, epoch_paxos_message) process, 'a peer, epoch_paxos_message) subscription list option" where
  "ev_epoch_acceptor_subscriptions cfg es = subscribe_all
     [(3, callback (ev_epoch_acceptor_handle_epoch_ballot_accept cfg es)),
      (0, callback ev_epoch_acceptor_handle_standard_prepare),
      (1, callback (ev_epoch_acceptor_handle_epoch_ballot_prepare cfg es)),
      (7, callback (ev_epoch_acceptor_handle_epoch_ballot_chosen es)),
      (9, callback ev_epoch_acceptor_handle_repeat), (10, callback ev_epoch_acceptor_handle_trim)]"

text \<open>
  \<open>epoch_acceptor_new\<close> fills in the notification only when the acceptor has a new epoch, but it is sent in any
  case; \<open>junk\<close> is what the variable holds otherwise.
\<close>

definition ev_epoch_acceptor_init_internal ::
    "'h epoch_stable_storage \<Rightarrow> 'h \<Rightarrow> epoch_notification \<Rightarrow> int \<Rightarrow> 'a writeahead_epoch_paxos_peers \<Rightarrow>
       (('h, 'a) ev_epoch_acceptor \<times> ('a, epoch_paxos_message) sends) option" where
  "ev_epoch_acceptor_init_internal es h junk i p =
     (case epoch_acceptor_new es h (word_of_int i) of
        Inl _ \<Rightarrow> None
      | Inr (s, notification) \<Rightarrow>
          Some (\<lparr>eea_peers = p, eea_acceptor = s, eea_send_state_event = True\<rparr>,
            to_all (writeahead_epoch_paxos_peers_foreach_proposer p)
              (WRITEAHEAD_EPOCH_NOTIFICATION (case notification of Some n \<Rightarrow> n | None \<Rightarrow> junk))))"

definition ev_epoch_acceptor_init ::
    "'h epoch_stable_storage \<Rightarrow> 'h \<Rightarrow> epoch_notification \<Rightarrow> (int \<Rightarrow> bool) \<Rightarrow> settings \<Rightarrow> int \<Rightarrow> string option \<Rightarrow>
       (('h, address) ev_epoch_acceptor \<times> (address, epoch_paxos_message) sends) outcome" where
  "ev_epoch_acceptor_init es h junk listen g i file =
     (case evpaxos_config_read g file of
        None \<Rightarrow> None
      | Some None \<Rightarrow> Some None
      | Some (Some (c, _)) \<Rightarrow>
          if i < 0 \<or> i \<ge> evpaxos_acceptor_count c then Some None
          else case evpaxos_acceptor_listen_port c i of
                 None \<Rightarrow> None
               | Some port \<Rightarrow>
                   if \<not> listen port then Some None
                   else map_option Some (ev_epoch_acceptor_init_internal es h junk i
                          (writeahead_epoch_paxos_peers_connect_to_proposers (conf_proposers c) writeahead_epoch_paxos_peers_new i)))"

section \<open>What the processes do\<close>

text \<open>
  The reference for the process of a standard acceptor, in terms of the acceptor's requests: promises and refusals go
  to the sender, acceptances to every client.
\<close>

definition reply_to :: "'a peer list \<Rightarrow> 'a peer \<Rightarrow> standard_paxos_message option \<Rightarrow> ('a, standard_paxos_message) sends" where
  "reply_to clients q out =
     (case out of None \<Rightarrow> [] | Some (PAXOS_ACCEPTED ack) \<Rightarrow> to_all clients (PAXOS_ACCEPTED ack) | Some m \<Rightarrow> [(q, m)])"

definition standard_served ::
    "'h stable_storage_api \<Rightarrow> 'a peer \<Rightarrow> ('h, 'a) ev_standard_acceptor \<Rightarrow> standard_paxos_message \<Rightarrow>
       ('h, 'a) ev_standard_acceptor \<times> ('a, standard_paxos_message) sends" where
  "standard_served api q a msg =
     (let s = esa_state a; reply = reply_to (pp_clients (esa_peers a)) q in
      case msg of
        PAXOS_PREPARE req \<Rightarrow> (case standard_acceptor_handle api s (Prepare_Request req) of (s, out) \<Rightarrow> (a\<lparr>esa_state := s\<rparr>, reply out))
      | PAXOS_ACCEPT req \<Rightarrow> (case standard_acceptor_handle api s (Accept_Request req) of (s, out) \<Rightarrow> (a\<lparr>esa_state := s\<rparr>, reply out))
      | PAXOS_REPEAT rep \<Rightarrow> (a, map (Pair q) (replies (standard_acceptor_receive_repeat s) (u32_upto (rep_from rep) (rep_to rep))))
      | PAXOS_TRIM trim \<Rightarrow> (a\<lparr>esa_state := fst (standard_acceptor_receive_trim s trim)\<rparr>, [])
      | PAXOS_CHOSEN chosen \<Rightarrow> (a\<lparr>esa_state := standard_acceptor_receive_chosen s chosen\<rparr>, [])
      | _ \<Rightarrow> (a, []))"

definition repeat_ends :: "standard_paxos_message \<Rightarrow> bool" where
  "repeat_ends msg \<longleftrightarrow> (case msg of PAXOS_REPEAT rep \<Rightarrow> rep_to rep \<noteq> UINT32_MAX | _ \<Rightarrow> True)"

text \<open>The acceptor answers a prepare with anything but an acceptance.\<close>

lemma prepare_reply_not_accepted:
  "standard_acceptor_receive_prepare api s req = (s', Some out, pre) \<Longrightarrow> out \<noteq> PAXOS_ACCEPTED ack"
  unfolding standard_acceptor_receive_prepare_def
  by (auto simp: Let_def conv_simps split: if_splits prod.splits)

lemma reply_to_sender: "(\<And>ack. m \<noteq> PAXOS_ACCEPTED ack) \<Longrightarrow> reply_to clients q (Some m) = [(q, m)]"
  by (cases m) (auto simp: reply_to_def)

lemma standard_prepare_served:
  assumes "\<not> ec_premptive_preempt cfg"
  shows "evacceptor_handle_prepare cfg api a q (PAXOS_PREPARE req) = Some (standard_served api q a (PAXOS_PREPARE req))"
proof (cases "standard_acceptor_receive_prepare api (esa_state a) req")
  case (fields s out pre)
  then show ?thesis
  proof (cases out)
    case (Some m)
    then have "reply_to (pp_clients (esa_peers a)) q (Some m) = [(q, m)]"
      using prepare_reply_not_accepted [of api "esa_state a" req s m pre] fields by (auto intro!: reply_to_sender)
    with Some fields assms show ?thesis by (simp add: evacceptor_handle_prepare_def standard_served_def)
  qed (simp add: evacceptor_handle_prepare_def standard_served_def reply_to_def)
qed

lemma standard_accept_served:
  assumes "\<not> ec_premptive_preempt cfg"
  shows "evacceptor_handle_accept cfg api a q (PAXOS_ACCEPT req) = Some (standard_served api q a (PAXOS_ACCEPT req))"
  using assms
  by (auto simp: evacceptor_handle_accept_def standard_served_def reply_to_def peers_foreach_client_def
      split: prod.split option.split standard_paxos_message.split)

interpretation std_process: message_server
  "dispatch_message (the (evacceptor_subscriptions cfg api)) q" "standard_served api q"
  "\<lambda>msg. \<not> ec_premptive_preempt cfg \<and> repeat_ends msg" for cfg api and q :: "'a peer"
proof unfold_locales
  fix msg s sent
  assume fine: "\<not> ec_premptive_preempt cfg \<and> repeat_ends msg"
  have subs: "the (evacceptor_subscriptions cfg api) = map (\<lambda>(t, h). \<lparr>sub_type = t, sub_callback = h\<rparr>)
      [(0, callback (evacceptor_handle_prepare cfg api)), (2, callback (evacceptor_handle_accept cfg api)),
       (6, callback evacceptor_handle_repeat), (7, callback evacceptor_handle_trim), (4, callback evacceptor_handle_chosen)]"
    by (simp add: evacceptor_subscriptions_def subscribe_all_eq)
  show "dispatch_message (the (evacceptor_subscriptions cfg api)) q (Some (s, sent)) msg
      = Some (fst (standard_served api q s msg), sent @ snd (standard_served api q s msg))"
    using fine
    by (cases msg) (auto simp: subs dispatch_message_def standard_prepare_served standard_accept_served repeat_ends_def
        evacceptor_handle_repeat_def evacceptor_handle_trim_def evacceptor_handle_chosen_def repeat_loop_eq standard_served_def
        split: prod.split)
qed

text \<open>The reference for the write-ahead acceptor has the same shape.\<close>

definition writeahead_served ::
    "'h stable_storage_api \<Rightarrow> 'a peer \<Rightarrow> ('h, 'a) ev_write_ahead_acceptor \<Rightarrow> standard_paxos_message \<Rightarrow>
       ('h, 'a) ev_write_ahead_acceptor \<times> ('a, standard_paxos_message) sends" where
  "writeahead_served api q a msg =
     (let s = ewa_state a; reply = reply_to (pp_clients (ewa_peers_proposers a)) q in
      case msg of
        PAXOS_PREPARE req \<Rightarrow> (case writeahead_handle api s (Prepare_Request req) of (s, out) \<Rightarrow> (a\<lparr>ewa_state := s\<rparr>, reply out))
      | PAXOS_ACCEPT req \<Rightarrow> (case writeahead_handle api s (Accept_Request req) of (s, out) \<Rightarrow> (a\<lparr>ewa_state := s\<rparr>, reply out))
      | PAXOS_REPEAT rep \<Rightarrow>
          (a, map (Pair q) (replies (write_ahead_window_acceptor_receive_repeat s) (u32_upto (rep_from rep) (rep_to rep))))
      | PAXOS_TRIM trim \<Rightarrow> (a\<lparr>ewa_state := fst (write_ahead_window_acceptor_receive_trim api s trim)\<rparr>, [])
      | PAXOS_CHOSEN chosen \<Rightarrow> (a\<lparr>ewa_state := write_ahead_ballot_acceptor_receive_chosen api s chosen\<rparr>, [])
      | _ \<Rightarrow> (a, []))"

lemma wa_prepare_reply_not_accepted:
  "write_ahead_window_acceptor_receive_prepare api s req = (s', Some out) \<Longrightarrow> out \<noteq> PAXOS_ACCEPTED ack"
  unfolding write_ahead_window_acceptor_receive_prepare_def
  by (auto simp: Let_def split: if_splits prod.splits)

lemma wa_accept_reply:
  assumes "write_ahead_window_acceptor_receive_accept api s req = (s', Some out)"
  obtains (accepted) ack where "out = PAXOS_ACCEPTED ack" | (preempted) pre where "out = PAXOS_PREEMPTED pre"
  | (chosen) ch where "out = PAXOS_CHOSEN ch" | (trim) t where "out = PAXOS_TRIM t"
  using assms unfolding write_ahead_window_acceptor_receive_accept_def
  by (auto simp: Let_def paxos_accept_request_and_last_acceptor_promise_to_preempted_def split: if_splits prod.splits)

lemma wa_repeat_reply:
  assumes "write_ahead_window_acceptor_receive_repeat s i = Some out"
  obtains (accepted) ack where "out = PAXOS_ACCEPTED ack" | (chosen) ch where "out = PAXOS_CHOSEN ch"
  using assms unfolding write_ahead_window_acceptor_receive_repeat_def
  by (auto simp: Let_def split: if_splits prod.splits)

lemma wa_prepare_served:
  "ev_write_ahead_acceptor_handle_prepare api a q (PAXOS_PREPARE req) = Some (writeahead_served api q a (PAXOS_PREPARE req))"
proof (cases "write_ahead_window_acceptor_receive_prepare api (ewa_state a) req")
  case (Pair s out)
  then show ?thesis
  proof (cases out)
    case (Some m)
    then have "reply_to (pp_clients (ewa_peers_proposers a)) q (Some m) = [(q, m)]"
      using wa_prepare_reply_not_accepted [of api "ewa_state a" req s m] Pair by (auto intro!: reply_to_sender)
    with Some Pair show ?thesis by (simp add: ev_write_ahead_acceptor_handle_prepare_def writeahead_served_def)
  qed (simp add: ev_write_ahead_acceptor_handle_prepare_def writeahead_served_def reply_to_def)
qed

lemma wa_accept_served:
  "ev_write_ahead_acceptor_handle_accept api a q (PAXOS_ACCEPT req) = Some (writeahead_served api q a (PAXOS_ACCEPT req))"
proof (cases "write_ahead_window_acceptor_receive_accept api (ewa_state a) req")
  case (Pair s out)
  then show ?thesis
  proof (cases out)
    case (Some m)
    with Pair have "write_ahead_window_acceptor_receive_accept api (ewa_state a) req = (s, Some m)" by simp
    then show ?thesis
      by (rule wa_accept_reply) (use Pair Some in \<open>simp_all add: ev_write_ahead_acceptor_handle_accept_def
          writeahead_served_def reply_to_def peers_foreach_client_def\<close>)
  qed (simp add: ev_write_ahead_acceptor_handle_accept_def writeahead_served_def reply_to_def)
qed

lemma wa_replies_sent:
  "concat (map (\<lambda>out. case out of PAXOS_ACCEPTED _ \<Rightarrow> [(q, out)] | PAXOS_CHOSEN _ \<Rightarrow> [(q, out)] | _ \<Rightarrow> [])
     (replies (write_ahead_window_acceptor_receive_repeat s) is))
   = map (Pair q) (replies (write_ahead_window_acceptor_receive_repeat s) is)"
proof (induction "is")
  case (Cons i "is")
  then show ?case
    by (cases "write_ahead_window_acceptor_receive_repeat s i")
      (auto simp: replies_Cons elim!: wa_repeat_reply)
qed (simp add: replies_def)

lemma wa_repeat_served:
  "repeat_ends (PAXOS_REPEAT rep) \<Longrightarrow>
     ev_write_ahead_acceptor_handle_repeat a q (PAXOS_REPEAT rep) = Some (writeahead_served api q a (PAXOS_REPEAT rep))"
  by (simp add: ev_write_ahead_acceptor_handle_repeat_def repeat_loop_eq repeat_ends_def writeahead_served_def wa_replies_sent)

interpretation wa_process: message_server
  "dispatch_message (the (ev_write_ahead_acceptor_subscriptions api)) q" "writeahead_served api q" repeat_ends
  for api and q :: "'a peer"
proof unfold_locales
  fix msg s sent
  assume fine: "repeat_ends msg"
  have subs: "the (ev_write_ahead_acceptor_subscriptions api) = map (\<lambda>(t, h). \<lparr>sub_type = t, sub_callback = h\<rparr>)
     [(0, callback (ev_write_ahead_acceptor_handle_prepare api)), (2, callback (ev_write_ahead_acceptor_handle_accept api)),
      (6, callback ev_write_ahead_acceptor_handle_repeat), (7, callback (ev_write_ahead_acceptor_handle_trim api)),
      (4, callback (ev_write_ahead_acceptor_handle_chosen api))]"
    by (simp add: ev_write_ahead_acceptor_subscriptions_def subscribe_all_eq)
  show "dispatch_message (the (ev_write_ahead_acceptor_subscriptions api)) q (Some (s, sent)) msg
      = Some (fst (writeahead_served api q s msg), sent @ snd (writeahead_served api q s msg))"
    using fine
    by (cases msg) (auto simp: subs dispatch_message_def wa_prepare_served wa_accept_served wa_repeat_served [where api = api]
        ev_write_ahead_acceptor_handle_trim_def ev_write_ahead_acceptor_handle_chosen_def writeahead_served_def
        split: prod.split)
qed

section \<open>The timers of the write-ahead acceptor\<close>

text \<open>
  The steps of the process: a message arrives, a client connects or its connection closes, or a pending timer fires.
\<close>

inductive writeahead_process_step ::
    "'h stable_storage_api \<Rightarrow> ('h, 'a) ev_write_ahead_acceptor \<Rightarrow> ('h, 'a) ev_write_ahead_acceptor \<Rightarrow> bool" for api where
  message: "dispatch_message (the (ev_write_ahead_acceptor_subscriptions api)) q (Some (a, [])) msg = Some (a', out)
    \<Longrightarrow> writeahead_process_step api a a'"
| connect: "writeahead_process_step api a (a\<lparr>ewa_peers_proposers := on_accept (ewa_peers_proposers a) addr\<rparr>)"
| close: "writeahead_process_step api a (a\<lparr>ewa_peers_proposers := on_client_event (ewa_peers_proposers a) q\<rparr>)"
| state_timer: "ewa_send_state_event a
    \<Longrightarrow> writeahead_process_step api a (fst (send_write_ahead_acceptor_state (a\<lparr>ewa_send_state_event := False\<rparr>)))"
| check_timer: "ewa_ballot_window_check_event a
    \<Longrightarrow> writeahead_process_step api a (check_ballot_window_event (a\<lparr>ewa_ballot_window_check_event := False\<rparr>))"
| iteration_timer: "ewa_ballot_window_iteration_event a
    \<Longrightarrow> writeahead_process_step api a (write_ballot_event api (a\<lparr>ewa_ballot_window_iteration_event := False\<rparr>))"

definition window_timers :: "('h, 'a) ev_write_ahead_acceptor \<Rightarrow> bool \<times> bool" where
  "window_timers a = (ewa_ballot_window_check_event a, ewa_ballot_window_iteration_event a)"

lemma handlers_keep_window_timers:
  "ev_write_ahead_acceptor_handle_prepare api a q msg = Some (a', out) \<Longrightarrow> window_timers a' = window_timers a"
  "ev_write_ahead_acceptor_handle_accept api a q msg = Some (a', out) \<Longrightarrow> window_timers a' = window_timers a"
  "ev_write_ahead_acceptor_handle_repeat a q msg = Some (a', out) \<Longrightarrow> window_timers a' = window_timers a"
  "ev_write_ahead_acceptor_handle_trim api a q msg = Some (a', out) \<Longrightarrow> window_timers a' = window_timers a"
  "ev_write_ahead_acceptor_handle_chosen api a q msg = Some (a', out) \<Longrightarrow> window_timers a' = window_timers a"
  by (auto simp: window_timers_def ev_write_ahead_acceptor_handle_prepare_def ev_write_ahead_acceptor_handle_accept_def
      ev_write_ahead_acceptor_handle_repeat_def ev_write_ahead_acceptor_handle_trim_def ev_write_ahead_acceptor_handle_chosen_def
      split: standard_paxos_message.splits prod.splits option.splits)

lemma message_keeps_window_timers:
  assumes "dispatch_message (the (ev_write_ahead_acceptor_subscriptions api)) q (Some (a, [])) msg = Some (a', out)"
  shows "window_timers a' = window_timers a"
  using assms handlers_keep_window_timers
  by (cases msg) (auto simp: ev_write_ahead_acceptor_subscriptions_def subscribe_all_eq dispatch_message_def)

lemma stopped_window_timers_stay:
  assumes "(writeahead_process_step api)\<^sup>*\<^sup>* a a'" "window_timers a = (False, False)"
  shows "window_timers a' = (False, False)"
  using assms
proof (induction rule: rtranclp_induct)
  case (step b c)
  then have b: "window_timers b = (False, False)" by simp
  from step.hyps(2) show ?case
  proof (cases rule: writeahead_process_step.cases)
    case (message q msg out)
    then show ?thesis using message_keeps_window_timers b by metis
  qed (use b in \<open>auto simp: window_timers_def send_write_ahead_acceptor_state_def\<close>)
qed

section \<open>Properties\<close>

text \<open>
  C17: The process of a standard acceptor serves its messages: when the bytes of any messages arrive on a connection, in
  whatever pieces, the callbacks handle them one after the other as the acceptor does, answer prepares and refused
  accepts to the sender, announce every acceptance to all clients, and repeat what was asked for.  This needs that
  \<open>premptive_preempt\<close> is off and that no repeat asks for instances up to the largest number.
\<close>

theorem acceptor_process_serves_stream:
  assumes "msgpack_library m" "list_all paxos_message_fits msgs"
    and "concat chunks = foldl (send_paxos_message m) [] msgs"
    and "\<not> ec_premptive_preempt cfg" "list_all repeat_ends msgs" "evacceptor_subscriptions cfg api = Some subs"
  shows "read_chunks (on_read m subs q) (Some (a, [])) [] chunks = Some (Some (serve_all (standard_served api q) a msgs), [])"
proof -
  have "concat chunks = concat (map (msgpack_pack_paxos_message m) msgs)" using assms(3) by (simp add: sent_stream)
  then have "read_chunks (on_read m subs q) (Some (a, [])) [] chunks = Some (foldl (dispatch_message subs q) (Some (a, [])) msgs, [])"
    by (rule msgpack_library.standard_stream [OF assms(1,2)])
  with std_process.stream_served [of cfg msgs api q a "[]"] assms(4-6) show ?thesis by (simp add: list_all_iff)
qed

text \<open>
  A request to repeat instances is answered by one pass over the range, in ascending order, with what the acceptor
  knows of each instance; but when the range ends at the largest instance number, the loop of the handler never ends.
  The same holds for the write-ahead acceptor and the epoch acceptor.
\<close>

theorem repeat_handlers_pass_over_range:
  "evacceptor_handle_repeat a q (PAXOS_REPEAT rep) =
     (if rep_to rep = UINT32_MAX then None
      else Some (a, map (Pair q) (replies (standard_acceptor_receive_repeat (esa_state a)) (u32_upto (rep_from rep) (rep_to rep)))))
   \<and> ev_write_ahead_acceptor_handle_repeat wa q (PAXOS_REPEAT rep) =
     (if rep_to rep = UINT32_MAX then None
      else Some (wa, map (Pair q) (replies (write_ahead_window_acceptor_receive_repeat (ewa_state wa)) (u32_upto (rep_from rep) (rep_to rep)))))
   \<and> ev_epoch_acceptor_handle_repeat ea q (WRITEAHEAD_REPEAT rep) =
     (if rep_to rep = UINT32_MAX then None
      else Some (ea, map (Pair q) (replies (writeahead_epoch_acceptor_receive_repeat (eea_acceptor ea)) (u32_upto (rep_from rep) (rep_to rep)))))"
  by (simp add: evacceptor_handle_repeat_def ev_write_ahead_acceptor_handle_repeat_def ev_epoch_acceptor_handle_repeat_def
      repeat_loop_eq wa_replies_sent)

text \<open>
  The windows of ballots stop being written in the background: once the check for them runs at a moment at which no
  instance is flagged, its timer is not started again, and from then on, whatever messages arrive, clients connect
  and timers fire, neither the check nor the write is ever scheduled any more.
\<close>

theorem ballot_window_check_stops:
  assumes "ewa_ballot_window_check_event a" "\<not> ewa_ballot_window_iteration_event a"
    and "\<not> write_ahead_acceptor_check_ballot_window (ewa_state a)"
    and "(writeahead_process_step api)\<^sup>*\<^sup>* (check_ballot_window_event (a\<lparr>ewa_ballot_window_check_event := False\<rparr>)) a'"
  shows "\<not> ewa_ballot_window_check_event a' \<and> \<not> ewa_ballot_window_iteration_event a'"
  using stopped_window_timers_stay [OF assms(4)] assms(2,3) by (simp add: window_timers_def check_ballot_window_event_def)

text \<open>An acceptor with two clients and messages of the first of them, for a concrete run.\<close>

definition sample_acceptor_process :: "(stable_storage_but_not_really, unit) ev_standard_acceptor" where
  "sample_acceptor_process =
     \<lparr>esa_peers = \<lparr>pp_peers = [], pp_proposers = [], pp_clients = [make_peer 0 (), make_peer 1 ()], pp_acceptor_partnership = True\<rparr>,
      esa_state = fresh_standard_acceptor, esa_timer_ev = True\<rparr>"

definition sample_messages :: "standard_paxos_message list" where
  "sample_messages =
     [PAXOS_ACCEPT \<lparr>acc_iid = 3, acc_ballot = Ballot 2 1, acc_value = [7]\<rparr>,
      PAXOS_PREPARE \<lparr>prep_iid = 3, prep_ballot = Ballot 1 2\<rparr>, PAXOS_REPEAT \<lparr>rep_from = 2, rep_to = 4\<rparr>]"

definition sample_answers :: "(unit, standard_paxos_message) sends" where
  "sample_answers =
     (let ack = PAXOS_ACCEPTED \<lparr>accd_aid = 1, accd_iid = 3, accd_promise_ballot = Ballot 2 1, accd_value_ballot = Ballot 2 1, accd_value = [7]\<rparr>
      in [(make_peer 0 (), ack), (make_peer 1 (), ack),
          (make_peer 0 (), PAXOS_PREEMPTED \<lparr>pre_aid = 1, pre_iid = 3, pre_attempted_ballot = Ballot 1 2, pre_acceptor_current_ballot = Ballot 2 1\<rparr>),
          (make_peer 0 (), ack)])"

theorem acceptor_process_serves_stream_witness:
  "let bytes = foldl (send_paxos_message msgpack_format) [] sample_messages;
       subs = the (evacceptor_subscriptions sample_ev_config storage_init_mem)
   in \<exists>a'. read_chunks (on_read msgpack_format subs (make_peer 0 ())) (Some (sample_acceptor_process, [])) []
        [take 5 bytes, drop 5 bytes] = Some (Some (a', sample_answers), [])"
proof -
  let ?bytes = "foldl (send_paxos_message msgpack_format) [] sample_messages"
  let ?subs = "the (evacceptor_subscriptions sample_ev_config storage_init_mem)"
  let ?run = "serve_all (standard_served storage_init_mem (make_peer 0 ())) sample_acceptor_process sample_messages"
  have "list_all paxos_message_fits sample_messages"
    by (simp add: sample_messages_def paxos_message_fits_def ballot_items_def)
  moreover have "concat [take 5 ?bytes, drop 5 ?bytes] = ?bytes" by simp
  moreover have "\<not> ec_premptive_preempt sample_ev_config" by (simp add: sample_ev_config_def)
  moreover have "list_all repeat_ends sample_messages" by (simp add: sample_messages_def repeat_ends_def)
  moreover have "evacceptor_subscriptions sample_ev_config storage_init_mem = Some ?subs"
    by (simp add: evacceptor_subscriptions_def subscribe_all_eq)
  ultimately have "read_chunks (on_read msgpack_format ?subs (make_peer 0 ())) (Some (sample_acceptor_process, [])) []
      [take 5 ?bytes, drop 5 ?bytes] = Some (Some ?run, [])"
    by (rule acceptor_process_serves_stream [OF fmt.msgpack_library_axioms])
  moreover have "snd ?run = sample_answers" by code_simp
  ultimately show ?thesis unfolding Let_def by (intro exI [of _ "fst ?run"]) (metis prod.collapse)
qed

text \<open>An acceptor that is checked before its first request: the instance flagged later stays flagged for ever.\<close>

theorem ballot_window_check_stops_witness:
  "let a = \<lparr>ewa_peers_proposers = peers_new, ewa_state = fresh_writeahead_acceptor, ewa_send_state_event = True,
         ewa_ballot_window_check_event = True, ewa_ballot_window_iteration_event = False\<rparr> :: (stable_storage_but_not_really, unit) ev_write_ahead_acceptor
   in \<exists>a'. (writeahead_process_step storage_init_mem)\<^sup>*\<^sup>* a a' \<and> wa_instances_to_begin_new_ballot_epoch (ewa_state a') = [3]
      \<and> \<not> ewa_ballot_window_check_event a' \<and> \<not> ewa_ballot_window_iteration_event a'"
proof -
  let ?q = "make_peer 0 ()"
  let ?a = "\<lparr>ewa_peers_proposers = peers_new, ewa_state = fresh_writeahead_acceptor, ewa_send_state_event = True,
      ewa_ballot_window_check_event = True, ewa_ballot_window_iteration_event = False\<rparr> :: (stable_storage_but_not_really, unit) ev_write_ahead_acceptor"
  let ?b = "check_ballot_window_event (?a\<lparr>ewa_ballot_window_check_event := False\<rparr>)"
  let ?msgs = "[PAXOS_PREPARE \<lparr>prep_iid = 3, prep_ballot = Ballot 1 1\<rparr>, PAXOS_PREPARE \<lparr>prep_iid = 3, prep_ballot = Ballot 10 1\<rparr>]"
  let ?serve = "writeahead_served storage_init_mem ?q"
  let ?c = "fst (?serve ?b (?msgs ! 0))" and ?d = "fst (?serve (fst (?serve ?b (?msgs ! 0))) (?msgs ! 1))"
  have step: "writeahead_process_step storage_init_mem a (fst (?serve a msg))" if "repeat_ends msg" for a msg
    using wa_process.dispatch_serves [OF that, of storage_init_mem ?q a "[]"] by (rule writeahead_process_step.message)
  have start: "writeahead_process_step storage_init_mem ?a ?b" by (rule check_timer) simp
  have run: "(writeahead_process_step storage_init_mem)\<^sup>*\<^sup>* ?b ?d"
    using step [of "?msgs ! 0" ?b] step [of "?msgs ! 1" ?c] by (simp add: repeat_ends_def)
  have idle: "\<not> write_ahead_acceptor_check_ballot_window (ewa_state ?a)" by code_simp
  have "\<not> ewa_ballot_window_check_event ?d \<and> \<not> ewa_ballot_window_iteration_event ?d"
    by (rule ballot_window_check_stops [OF _ _ idle run]) simp_all
  moreover have "wa_instances_to_begin_new_ballot_epoch (ewa_state ?d) = [3]" by code_simp
  ultimately show ?thesis
    unfolding Let_def by (intro exI [of _ ?d] conjI converse_rtranclp_into_rtranclp [OF start run]) simp_all
qed

text \<open>
  With \<open>premptive_preempt\<close> the first acceptance or promise that overtakes an earlier promise makes the process of a
  standard acceptor read a message that is not there; in the process of an epoch acceptor an acceptance does.
\<close>

lemma preemptive_preempt_is_undefined:
  assumes "ec_premptive_preempt cfg"
    and "standard_acceptor_receive_prepare api (esa_state a) req = (s, Some out, Some pre)"
  shows "evacceptor_handle_prepare cfg api a q (PAXOS_PREPARE req) = None"
  using assms by (simp add: evacceptor_handle_prepare_def)

lemma preemptive_preempt_example:
  "evacceptor_handle_prepare (sample_ev_config\<lparr>ec_premptive_preempt := True\<rparr>) storage_init_mem
     \<lparr>esa_peers = peers_new, esa_state = fst (standard_acceptor_receive_prepare storage_init_mem fresh_standard_acceptor
        \<lparr>prep_iid = 3, prep_ballot = Ballot 1 1\<rparr>), esa_timer_ev = True\<rparr>
     (make_peer 0 ()) (PAXOS_PREPARE \<lparr>prep_iid = 3, prep_ballot = Ballot 2 2\<rparr>) = None"
  by code_simp

text \<open>A new epoch acceptor announces an epoch to the proposers which nobody wrote into the message.\<close>

lemma first_start_announces_junk:
  assumes "epoch_acceptor_new es h (word_of_int i) = Inr (s, None)"
  shows "ev_epoch_acceptor_init_internal es h junk i p
    = Some (\<lparr>eea_peers = p, eea_acceptor = s, eea_send_state_event = True\<rparr>, to_all (wp_proposers p) (WRITEAHEAD_EPOCH_NOTIFICATION junk))"
  using assms by (simp add: ev_epoch_acceptor_init_internal_def writeahead_epoch_paxos_peers_foreach_proposer_def)

end
