(* ===== verification/Event_Learners.thy ===== *)
theory Event_Learners
  imports Event_Base Learner Epoch_Learner
begin

text \<open>
  \<open>src/evpaxos/evlearner.c\<close> and \<open>src/evpaxos/ev_epoch_learner.c\<close>: the processes around the two learners.  A handler returns
  the new state, the messages it sends and the values it hands to the application (\<open>delfun\<close>), in order.
  \<open>rnd k\<close> are the results of \<open>rand\<close> for the \<open>k\<close>-th shuffle of the peers in a callback.
\<close>

section \<open>The delivery loop\<close>

text \<open>\<open>while (learner_deliver_next(...)) delfun(...)\<close>; \<open>None\<close> is a loop that never ends.\<close>

partial_function (option) deliver_all :: "('l \<Rightarrow> 'l \<times> paxos_value option) \<Rightarrow> 'l \<Rightarrow> ('l \<times> paxos_value list) option" where
  "deliver_all deliver_next l =
     (case deliver_next l of
        (l', None) \<Rightarrow> Some (l', [])
      | (l', Some v) \<Rightarrow> Option.bind (deliver_all deliver_next l') (\<lambda>(l'', vs). Some (l'', v # vs)))"

lemma deliver_all_code [code]:
  "deliver_all deliver_next l =
     (if snd (deliver_next l) = None then Some (fst (deliver_next l), [])
      else Option.bind (deliver_all deliver_next (fst (deliver_next l)))
             (\<lambda>(l'', vs). Some (l'', the (snd (deliver_next l)) # vs)))"
  by (subst deliver_all.simps) (auto split: prod.split option.split)

text \<open>
  The contract of \<open>deliver_next\<close>: a value it delivers is backed by evidence for the instance at the position, the position
  moves to the next instance, and less is waiting; when it delivers nothing, it changes nothing.
\<close>

locale delivering =
  fixes deliver_next :: "'l \<Rightarrow> 'l \<times> paxos_value option" and invar :: "'l \<Rightarrow> bool" and waiting :: "'l \<Rightarrow> nat"
    and pos :: "'l \<Rightarrow> iid_t" and evidence :: "iid_t \<Rightarrow> paxos_value \<Rightarrow> bool"
  assumes deliver_some: "invar l \<Longrightarrow> deliver_next l = (l', Some v) \<Longrightarrow>
      invar l' \<and> waiting l' < waiting l \<and> pos l' = pos l + 1 \<and> evidence (pos l) v"
    and deliver_none: "deliver_next l = (l', None) \<Longrightarrow> l' = l"
begin

definition delivered_from :: "iid_t \<Rightarrow> paxos_value list \<Rightarrow> bool" where
  "delivered_from i vs \<longleftrightarrow> (\<forall>k < length vs. evidence (i + of_nat k) (vs ! k))"

lemma delivered_from_Cons: "delivered_from i (v # vs) \<longleftrightarrow> evidence i v \<and> delivered_from (i + 1) vs"
  by (auto simp: delivered_from_def less_Suc_eq_0_disj algebra_simps)

lemma delivered_from_append: "delivered_from i (vs @ ws) \<longleftrightarrow> delivered_from i vs \<and> delivered_from (i + of_nat (length vs)) ws"
proof (induction vs arbitrary: i)
  case (Cons v vs)
  then show ?case by (simp add: delivered_from_Cons algebra_simps)
qed (simp add: delivered_from_def)

text \<open>The loop returns; it has delivered consecutive instances, and nothing is left to deliver.\<close>

lemma deliver_all_returns:
  "invar l \<Longrightarrow> \<exists>l' vs. deliver_all deliver_next l = Some (l', vs) \<and> invar l' \<and> deliver_next l' = (l', None)
     \<and> pos l' = pos l + of_nat (length vs) \<and> delivered_from (pos l) vs"
proof (induction "waiting l" arbitrary: l rule: less_induct)
  case less
  obtain l1 out where l1: "deliver_next l = (l1, out)" by fastforce
  show ?case
  proof (cases out)
    case None
    with l1 deliver_none have "l1 = l" by blast
    with None l1 have "deliver_all deliver_next l = Some (l, [])" by (subst deliver_all.simps) simp
    with \<open>l1 = l\<close> None l1 less.prems show ?thesis by (auto simp: delivered_from_def)
  next
    case (Some v)
    with l1 deliver_some [OF less.prems]
    have v: "invar l1" "waiting l1 < waiting l" "pos l1 = pos l + 1" "evidence (pos l) v" by blast+
    from less.hyps [OF v(2,1)] obtain l' vs
      where all: "deliver_all deliver_next l1 = Some (l', vs)" and rest: "invar l'" "deliver_next l' = (l', None)"
        "pos l' = pos l1 + of_nat (length vs)" "delivered_from (pos l1) vs" by blast
    from all Some l1 have "deliver_all deliver_next l = Some (l', v # vs)" by (subst deliver_all.simps) simp
    with rest v(3,4) show ?thesis by (auto simp: delivered_from_Cons algebra_simps)
  qed
qed

end

section \<open>The learner process\<close>

record 'a evlearner =
  evl_state :: learner
  evl_min_chunks_missing :: int
  evl_comm_prop_num_trim :: int
  evl_comm_acc_num_trim :: int
  evl_comm_prop_num_chosen :: int
  evl_comm_acc_num_chosen :: int
  evl_hole_timer :: bool
  evl_peers :: "'a standard_paxos_peers"

type_synonym ('s, 'a, 'm) delivery = "('s \<times> ('a, 'm) sends \<times> paxos_value list) option"

text \<open>
  Sending to some of the proposers and then to some of the acceptors, or the other way round, as the handlers of the two
  learners do.
\<close>

definition send_proposers_acceptors ::
    "(nat \<Rightarrow> nat \<Rightarrow> nat) \<Rightarrow> 'a standard_paxos_peers \<Rightarrow> 'm \<Rightarrow> int \<Rightarrow> int \<Rightarrow> ('a standard_paxos_peers \<times> ('a, 'm) sends) option" where
  "send_proposers_acceptors rnd p msg n_prop n_acc =
     (case peers_for_n_proposers (rnd 0) p n_prop of
        None \<Rightarrow> None
      | Some (p, qs) \<Rightarrow>
          (case peers_for_n_acceptor (rnd 1) p n_acc of
             None \<Rightarrow> None
           | Some (p, rs) \<Rightarrow> Some (p, to_all qs msg @ to_all rs msg)))"

definition send_acceptors_proposers ::
    "(nat \<Rightarrow> nat \<Rightarrow> nat) \<Rightarrow> 'a standard_paxos_peers \<Rightarrow> 'm \<Rightarrow> int \<Rightarrow> int \<Rightarrow> ('a standard_paxos_peers \<times> ('a, 'm) sends) option" where
  "send_acceptors_proposers rnd p msg n_acc n_prop =
     (case peers_for_n_acceptor (rnd 0) p n_acc of
        None \<Rightarrow> None
      | Some (p, qs) \<Rightarrow>
          (case peers_for_n_proposers (rnd 1) p n_prop of
             None \<Rightarrow> None
           | Some (p, rs) \<Rightarrow> Some (p, to_all qs msg @ to_all rs msg)))"

definition evlearner_check_holes ::
    "(nat \<Rightarrow> nat \<Rightarrow> nat) \<Rightarrow> 'a evlearner \<Rightarrow> ('a evlearner \<times> ('a, standard_paxos_message) sends) option" where
  "evlearner_check_holes rnd l =
     (let chunks = word_of_int (evl_min_chunks_missing l) :: u32 in
      case learner_has_holes (evl_state l) of
        Some (from, til) \<Rightarrow>
          let til = (if til - from > chunks then from + chunks else til)
          in Some (l\<lparr>evl_hole_timer := True\<rparr>,
               to_all (peers_foreach_acceptor (evl_peers l)) (PAXOS_REPEAT \<lparr>rep_from = from, rep_to = til\<rparr>))
      | None \<Rightarrow>
          let next_trim = learner_get_instance_to_trim (evl_state l);
              current_trim = learner_get_trim (evl_state l)
          in if next_trim > current_trim
             then map_option (\<lambda>(p, out). (l\<lparr>evl_state := learner_set_trim (evl_state l) next_trim, evl_peers := p, evl_hole_timer := True\<rparr>, out))
                    (send_acceptors_proposers rnd (evl_peers l) (PAXOS_TRIM \<lparr>trim_iid = next_trim\<rparr>)
                       (evl_comm_acc_num_trim l) (evl_comm_prop_num_trim l))
             else Some (l\<lparr>evl_hole_timer := True\<rparr>, []))"

definition evlearner_deliver_next_closed :: "'a evlearner \<Rightarrow> ('a evlearner \<times> paxos_value list) option" where
  "evlearner_deliver_next_closed l =
     map_option (\<lambda>(s, vs). (l\<lparr>evl_state := s\<rparr>, vs)) (deliver_all learner_deliver_next (evl_state l))"

definition evlearner_handle_accepted ::
    "(nat \<Rightarrow> nat \<Rightarrow> nat) \<Rightarrow> 'a evlearner \<Rightarrow> standard_paxos_message \<Rightarrow> ('a evlearner, 'a, standard_paxos_message) delivery" where
  "evlearner_handle_accepted rnd l msg =
     (case msg of
        PAXOS_ACCEPTED ack \<Rightarrow>
          (case learner_receive_accepted (evl_state l) ack of
             None \<Rightarrow> None
           | Some (s, None) \<Rightarrow> Some (l\<lparr>evl_state := s\<rparr>, [], [])
           | Some (s, Some chosen) \<Rightarrow>
               (case send_proposers_acceptors rnd (evl_peers l) (PAXOS_CHOSEN chosen) (evl_comm_prop_num_chosen l) (evl_comm_acc_num_chosen l) of
                  None \<Rightarrow> None
                | Some (p, out) \<Rightarrow>
                    map_option (\<lambda>(l, vs). (l, out, vs)) (evlearner_deliver_next_closed (l\<lparr>evl_state := s, evl_peers := p\<rparr>))))
      | _ \<Rightarrow> None)"

definition evlearner_handle_chosen ::
    "'a evlearner \<Rightarrow> standard_paxos_message \<Rightarrow> ('a evlearner, 'a, standard_paxos_message) delivery" where
  "evlearner_handle_chosen l msg =
     (case msg of
        PAXOS_CHOSEN chosen \<Rightarrow>
          map_option (\<lambda>(l, vs). (l, [], vs))
            (evlearner_deliver_next_closed (l\<lparr>evl_state := fst (learner_receive_chosen (evl_state l) chosen)\<rparr>))
      | _ \<Rightarrow> None)"

definition evlearner_handle_trim ::
    "'a evlearner \<Rightarrow> standard_paxos_message \<Rightarrow> ('a evlearner, 'a, standard_paxos_message) delivery" where
  "evlearner_handle_trim l msg =
     (case msg of
        PAXOS_TRIM trim \<Rightarrow> Some (l\<lparr>evl_state := learner_set_trim (evl_state l) (trim_iid trim)\<rparr>, [], [])
      | _ \<Rightarrow> None)"

text \<open>What the subscriptions of \<open>evlearner_init_internal\<close> amount to: other messages have no handler.\<close>

definition evlearner_handle ::
    "(nat \<Rightarrow> nat \<Rightarrow> nat) \<Rightarrow> 'a evlearner \<Rightarrow> standard_paxos_message \<Rightarrow> ('a evlearner, 'a, standard_paxos_message) delivery" where
  "evlearner_handle rnd l msg =
     (case msg of
        PAXOS_ACCEPTED _ \<Rightarrow> evlearner_handle_accepted rnd l msg
      | PAXOS_CHOSEN _ \<Rightarrow> evlearner_handle_chosen l msg
      | PAXOS_TRIM _ \<Rightarrow> evlearner_handle_trim l msg
      | _ \<Rightarrow> Some (l, [], []))"

definition evlearner_init_internal :: "ev_config \<Rightarrow> evpaxos_config \<Rightarrow> 'a standard_paxos_peers \<Rightarrow> 'a evlearner" where
  "evlearner_init_internal cfg c p =
     \<lparr>evl_state = learner_new (ec_paxos cfg) (evpaxos_acceptor_count c),
      evl_min_chunks_missing = ec_lnr_missing_chunks_before_repeats cfg,
      evl_comm_prop_num_trim = (if ec_lnr_comm_all_prop_trim cfg then evpaxos_proposer_count c else 1),
      evl_comm_acc_num_trim = (if ec_lnr_comm_all_acc_trim cfg then evpaxos_acceptor_count c else 1),
      evl_comm_prop_num_chosen = (if ec_lnr_comm_all_prop_chosen cfg then evpaxos_proposer_count c else 1),
      evl_comm_acc_num_chosen = (if ec_lnr_comm_all_acc_chosen cfg then evpaxos_acceptor_count c else 1),
      evl_hole_timer = True, evl_peers = p\<rparr>"

definition evlearner_init :: "(settings \<Rightarrow> ev_config) \<Rightarrow> settings \<Rightarrow> string option \<Rightarrow> int \<Rightarrow> address evlearner outcome" where
  "evlearner_init cfg g file partner_id =
     map_option (map_option (\<lambda>(c, g). evlearner_init_internal (cfg g) c
         (peers_connect_to_proposers (conf_proposers c)
            (peers_connect_to_acceptors (conf_acceptors c) peers_new partner_id) partner_id)))
       (evpaxos_config_read g file)"

definition evlearner_set_instance_id :: "'a evlearner \<Rightarrow> iid_t \<Rightarrow> 'a evlearner" where
  "evlearner_set_instance_id l iid = l\<lparr>evl_state := learner_set_instance_id (evl_state l) iid\<rparr>"

section \<open>The epoch learner process\<close>

record 'a ev_epoch_learner =
  eel_learner :: epoch_learner
  eel_comm_prop_num_trim :: int
  eel_comm_acc_num_trim :: int
  eel_comm_prop_num_chosen :: int
  eel_comm_acc_num_chosen :: int
  eel_min_chunks_missing :: int
  eel_hole_check_event :: bool
  eel_peers :: "'a writeahead_epoch_paxos_peers"

definition epoch_send_acceptors_proposers ::
    "(nat \<Rightarrow> nat \<Rightarrow> nat) \<Rightarrow> 'a writeahead_epoch_paxos_peers \<Rightarrow> 'm \<Rightarrow> int \<Rightarrow> int
       \<Rightarrow> ('a writeahead_epoch_paxos_peers \<times> ('a, 'm) sends) option" where
  "epoch_send_acceptors_proposers rnd p msg n_acc n_prop =
     (case writeahead_epoch_paxos_peers_for_n_acceptor (rnd 0) p n_acc of
        None \<Rightarrow> None
      | Some (p, qs) \<Rightarrow>
          (case writeahead_epoch_paxos_peers_for_n_proposers (rnd 1) p n_prop of
             None \<Rightarrow> None
           | Some (p, rs) \<Rightarrow> Some (p, to_all qs msg @ to_all rs msg)))"

text \<open>The request to repeat is inside of the block that shortens a long range.\<close>

definition ev_epoch_learner_check_holes ::
    "(nat \<Rightarrow> nat \<Rightarrow> nat) \<Rightarrow> 'a ev_epoch_learner \<Rightarrow> ('a ev_epoch_learner \<times> ('a, epoch_paxos_message) sends) option" where
  "ev_epoch_learner_check_holes rnd l =
     (let chunks = word_of_int (eel_min_chunks_missing l) :: u32 in
      case epoch_learner_has_holes (eel_learner l) of
        Some (from, til) \<Rightarrow>
          Some (l\<lparr>eel_hole_check_event := True\<rparr>,
            if til - from > chunks
            then to_all (writeahead_epoch_paxos_peers_foreach_acceptor (eel_peers l))
                   (WRITEAHEAD_REPEAT \<lparr>rep_from = from, rep_to = from + chunks\<rparr>)
            else [])
      | None \<Rightarrow>
          let next_trim = epoch_learner_get_instance_to_trim (eel_learner l);
              current_trim = epoch_learner_get_trim_instance (eel_learner l)
          in if next_trim > current_trim
             then map_option (\<lambda>(p, out). (l\<lparr>eel_learner := epoch_learner_set_trim_instance (eel_learner l) next_trim,
                      eel_peers := p, eel_hole_check_event := True\<rparr>, out))
                    (epoch_send_acceptors_proposers rnd (eel_peers l) (WRITEAHEAD_INSTANCE_TRIM \<lparr>trim_iid = next_trim\<rparr>)
                       (eel_comm_acc_num_trim l) (eel_comm_prop_num_trim l))
             else Some (l\<lparr>eel_hole_check_event := True\<rparr>, []))"

definition ev_epoch_learner_deliver_next_closed :: "'a ev_epoch_learner \<Rightarrow> ('a ev_epoch_learner \<times> paxos_value list) option" where
  "ev_epoch_learner_deliver_next_closed l =
     map_option (\<lambda>(s, vs). (l\<lparr>eel_learner := s\<rparr>, vs)) (deliver_all epoch_learner_deliver_next (eel_learner l))"

definition ev_epoch_learner_handle_accepted ::
    "(nat \<Rightarrow> nat \<Rightarrow> nat) \<Rightarrow> 'a ev_epoch_learner \<Rightarrow> epoch_paxos_message \<Rightarrow> ('a ev_epoch_learner, 'a, epoch_paxos_message) delivery" where
  "ev_epoch_learner_handle_accepted rnd l msg =
     (case msg of
        WRITEAHEAD_EPOCH_BALLOT_ACCEPTED ack \<Rightarrow>
          (case epoch_learner_receive_accepted (eel_learner l) ack of
             None \<Rightarrow> None
           | Some (s, return_code, chosen) \<Rightarrow>
               if return_code = QUORUM_REACHED
               then case chosen of
                      None \<Rightarrow> None
                    | Some chosen \<Rightarrow>
                        (case epoch_send_acceptors_proposers rnd (eel_peers l) (WRITEAHEAD_INSTANCE_CHOSEN_AT_EPOCH_BALLOT chosen)
                            (eel_comm_acc_num_chosen l) (eel_comm_prop_num_chosen l) of
                           None \<Rightarrow> None
                         | Some (p, out) \<Rightarrow>
                             map_option (\<lambda>(l, vs). (l, out, vs))
                               (ev_epoch_learner_deliver_next_closed (l\<lparr>eel_learner := s, eel_peers := p\<rparr>)))
               else Some (l\<lparr>eel_learner := s\<rparr>, [], []))
      | _ \<Rightarrow> None)"

definition ev_epoch_learner_handle_chosen ::
    "'a ev_epoch_learner \<Rightarrow> epoch_paxos_message \<Rightarrow> ('a ev_epoch_learner, 'a, epoch_paxos_message) delivery" where
  "ev_epoch_learner_handle_chosen l msg =
     (case msg of
        WRITEAHEAD_INSTANCE_CHOSEN_AT_EPOCH_BALLOT chosen \<Rightarrow>
          (case epoch_learner_receive_epoch_ballot_chosen (eel_learner l) chosen of None \<Rightarrow> None | Some (s, return_code) \<Rightarrow>
             if return_code = MESSAGE_ACKNOWLEDGED
             then map_option (\<lambda>(l, vs). (l, [], vs)) (ev_epoch_learner_deliver_next_closed (l\<lparr>eel_learner := s\<rparr>))
             else Some (l\<lparr>eel_learner := s\<rparr>, [], []))
      | _ \<Rightarrow> None)"

definition ev_learner_handle_trim ::
    "'a ev_epoch_learner \<Rightarrow> epoch_paxos_message \<Rightarrow> ('a ev_epoch_learner, 'a, epoch_paxos_message) delivery" where
  "ev_learner_handle_trim l msg =
     (case msg of
        WRITEAHEAD_INSTANCE_TRIM trim \<Rightarrow>
          Some (l\<lparr>eel_learner := epoch_learner_set_trim_instance (eel_learner l) (trim_iid trim)\<rparr>, [], [])
      | _ \<Rightarrow> None)"

definition ev_epoch_learner_handle ::
    "(nat \<Rightarrow> nat \<Rightarrow> nat) \<Rightarrow> 'a ev_epoch_learner \<Rightarrow> epoch_paxos_message \<Rightarrow> ('a ev_epoch_learner, 'a, epoch_paxos_message) delivery" where
  "ev_epoch_learner_handle rnd l msg =
     (case msg of
        WRITEAHEAD_EPOCH_BALLOT_ACCEPTED _ \<Rightarrow> ev_epoch_learner_handle_accepted rnd l msg
      | WRITEAHEAD_INSTANCE_CHOSEN_AT_EPOCH_BALLOT _ \<Rightarrow> ev_epoch_learner_handle_chosen l msg
      | WRITEAHEAD_INSTANCE_TRIM _ \<Rightarrow> ev_learner_handle_trim l msg
      | _ \<Rightarrow> Some (l, [], []))"

definition ev_epoch_learner_init_internal :: "ev_config \<Rightarrow> evpaxos_config \<Rightarrow> 'a writeahead_epoch_paxos_peers \<Rightarrow> 'a ev_epoch_learner" where
  "ev_epoch_learner_init_internal cfg c p =
     \<lparr>eel_learner = epoch_learner_new (ec_paxos cfg) (evpaxos_acceptor_count c),
      eel_comm_prop_num_trim = (if ec_lnr_comm_all_prop_trim cfg then evpaxos_proposer_count c else 1),
      eel_comm_acc_num_trim = (if ec_lnr_comm_all_acc_trim cfg then evpaxos_acceptor_count c else 1),
      eel_comm_prop_num_chosen = (if ec_lnr_comm_all_prop_chosen cfg then evpaxos_proposer_count c else 1),
      eel_comm_acc_num_chosen = (if ec_lnr_comm_all_acc_chosen cfg then evpaxos_acceptor_count c else 1),
      eel_min_chunks_missing = ec_lnr_missing_chunks_before_repeats cfg, eel_hole_check_event = True, eel_peers = p\<rparr>"

definition ev_epoch_learner_init ::
    "(settings \<Rightarrow> ev_config) \<Rightarrow> (int \<Rightarrow> bool) \<Rightarrow> settings \<Rightarrow> string option \<Rightarrow> int \<Rightarrow> address ev_epoch_learner outcome" where
  "ev_epoch_learner_init cfg listen g file partner_id =
     (case evpaxos_config_read g file of
        None \<Rightarrow> None
      | Some None \<Rightarrow> Some None
      | Some (Some (c, g)) \<Rightarrow>
          (case evpaxos_client_listen_port c partner_id of
             None \<Rightarrow> None
           | Some port \<Rightarrow>
               if \<not> listen port then Some None
               else Some (Some (ev_epoch_learner_init_internal (cfg g) c
                      (writeahead_epoch_paxos_peers_connect_to_proposers (conf_proposers c)
                         (writeahead_epoch_paxos_peers_connect_to_acceptors (conf_acceptors c) writeahead_epoch_paxos_peers_new partner_id)
                         partner_id)))))"

section \<open>Everything in order is delivered\<close>

lemma finite_u32_map [simp]: "finite (dom (m :: u32 \<rightharpoonup> 'x))"
  by (rule finite_subset [of _ UNIV]) simp_all

lemma learner_deliver_next_some:
  assumes "learner_ok H l" "learner_deliver_next l = (l', Some v)"
  shows "card (dom (le_instances l')) < card (dom (le_instances l))
    \<and> le_current_min_instance_to_execute l' = le_current_min_instance_to_execute l + 1"
proof -
  let ?i = "le_current_min_instance_to_execute l"
  from assms(2) obtain x where x: "le_instances l ?i = Some x"
    and l': "l' = l\<lparr>le_instances := (le_instances l)(in_iid x := None), le_current_min_instance_to_execute := ?i + 1\<rparr>"
    by (auto simp: learner_deliver_next_def learner_get_instance_def learner_remove_instance_from_pending_def Let_def
        split: option.splits if_splits)
  from assms(1) x have "in_iid x = ?i" by (auto simp: learner_ok_def inst_ok_def)
  then have "dom (le_instances l') = dom (le_instances l) - {?i}" "?i \<in> dom (le_instances l)" using x by (auto simp: l')
  then have "card (dom (le_instances l')) < card (dom (le_instances l))" by (metis card_Diff1_less finite_u32_map)
  then show ?thesis by (simp add: l')
qed

lemma learner_deliver_next_none: "learner_deliver_next l = (l', None) \<Longrightarrow> l' = l"
  by (auto simp: learner_deliver_next_def Let_def split: option.splits if_splits)

interpretation learner_loop: delivering learner_deliver_next "\<lambda>l. learner_ok H l \<and> le_quorum_size l = n \<and> \<not> le_late_start l"
  "\<lambda>l. card (dom (le_instances l))" le_current_min_instance_to_execute "learned_from H n" for H n
proof unfold_locales
  fix l l' v
  assume ok: "learner_ok H l \<and> le_quorum_size l = n \<and> \<not> le_late_start l" and v: "learner_deliver_next l = (l', Some v)"
  moreover have "\<not> le_late_start l'" using learner_step_min_instance [of l Deliver_Next] ok v by simp
  ultimately show "(learner_ok H l' \<and> le_quorum_size l' = n \<and> \<not> le_late_start l')
      \<and> card (dom (le_instances l')) < card (dom (le_instances l))
      \<and> le_current_min_instance_to_execute l' = le_current_min_instance_to_execute l + 1
      \<and> learned_from H n (le_current_min_instance_to_execute l) v"
    using learner_deliver_next_some [of H l l' v] deliver_step_ok [of H l l' "Some v"] by auto
qed (fact learner_deliver_next_none)

lemma epoch_learner_deliver_next_some:
  assumes "epoch_learner_ok H l" "epoch_learner_deliver_next l = (l', Some v)"
  shows "card (dom (el_instances_waiting_to_execute l')) < card (dom (el_instances_waiting_to_execute l))
    \<and> el_current_min_instance_to_execute l' = el_current_min_instance_to_execute l + 1"
proof -
  let ?i = "el_current_min_instance_to_execute l"
  from assms(2) obtain x where x: "el_instances_waiting_to_execute l ?i = Some x"
    and l': "l' = l\<lparr>el_instances_waiting_to_execute := (el_instances_waiting_to_execute l)(ei_instance x := None),
       el_current_min_instance_to_execute := ?i + 1\<rparr>"
    by (auto simp: epoch_learner_deliver_next_def epoch_learner_get_existing_instance_def
        epoch_learner_remove_instance_from_pending_def Let_def split: option.splits if_splits)
  from assms(1) x have "ei_instance x = ?i" by (auto simp: epoch_learner_ok_def epoch_inst_ok_def)
  then have "dom (el_instances_waiting_to_execute l') = dom (el_instances_waiting_to_execute l) - {?i}"
    "?i \<in> dom (el_instances_waiting_to_execute l)" using x by (auto simp: l')
  then have "card (dom (el_instances_waiting_to_execute l')) < card (dom (el_instances_waiting_to_execute l))"
    by (metis card_Diff1_less finite_u32_map)
  then show ?thesis by (simp add: l')
qed

lemma epoch_learner_deliver_next_none: "epoch_learner_deliver_next l = (l', None) \<Longrightarrow> l' = l"
  by (auto simp: epoch_learner_deliver_next_def Let_def split: option.splits if_splits)

interpretation epoch_learner_loop: delivering epoch_learner_deliver_next
  "\<lambda>l. epoch_learner_ok H l \<and> el_acceptance_quorum_size l = n \<and> \<not> el_late_start l"
  "\<lambda>l. card (dom (el_instances_waiting_to_execute l))" el_current_min_instance_to_execute
  "\<lambda>i v. \<exists>eb. epoch_learned_from H n i eb v" for H n
proof unfold_locales
  fix l l' v
  assume ok: "epoch_learner_ok H l \<and> el_acceptance_quorum_size l = n \<and> \<not> el_late_start l"
    and v: "epoch_learner_deliver_next l = (l', Some v)"
  moreover have "\<not> el_late_start l'" using epoch_learner_step_min_instance [of l Epoch_Deliver] ok v by simp
  ultimately show "(epoch_learner_ok H l' \<and> el_acceptance_quorum_size l' = n \<and> \<not> el_late_start l')
      \<and> card (dom (el_instances_waiting_to_execute l')) < card (dom (el_instances_waiting_to_execute l))
      \<and> el_current_min_instance_to_execute l' = el_current_min_instance_to_execute l + 1
      \<and> (\<exists>eb. epoch_learned_from H n (el_current_min_instance_to_execute l) eb v)"
    using epoch_learner_deliver_next_some [of H l l' v] epoch_deliver_ok [of H l l' "Some v"]
    by (auto simp: same_sizes_def)
qed (fact epoch_learner_deliver_next_none)

section \<open>Runs of the learner process\<close>

fun evlearner_run ::
    "'a evlearner \<Rightarrow> ((nat \<Rightarrow> nat \<Rightarrow> nat) \<times> standard_paxos_message) list \<Rightarrow> ('a evlearner, 'a, standard_paxos_message) delivery" where
  "evlearner_run l [] = Some (l, [], [])"
| "evlearner_run l ((rnd, msg) # msgs) =
     (case evlearner_handle rnd l msg of
        None \<Rightarrow> None
      | Some (l, out, vs) \<Rightarrow> map_option (\<lambda>(l, outs, ws). (l, out @ outs, vs @ ws)) (evlearner_run l msgs))"

definition learner_events :: "standard_paxos_message set \<Rightarrow> learner_event set" where
  "learner_events msgs = {Receive_Accepted ack | ack. PAXOS_ACCEPTED ack \<in> msgs} \<union> {Receive_Chosen c | c. PAXOS_CHOSEN c \<in> msgs}"

lemma learner_events_mono: "M \<subseteq> N \<Longrightarrow> learner_events M \<subseteq> learner_events N"
  unfolding learner_events_def by blast

lemma finite_learner_events: "finite M \<Longrightarrow> finite (learner_events M)"
proof -
  assume "finite M"
  moreover have "learner_events M \<subseteq> (\<lambda>msg. case msg of PAXOS_ACCEPTED ack \<Rightarrow> Receive_Accepted ack | PAXOS_CHOSEN c \<Rightarrow> Receive_Chosen c | _ \<Rightarrow> Deliver_Next) ` M"
    by (force simp: learner_events_def)
  ultimately show ?thesis by (simp add: finite_surj)
qed

text \<open>The states between two callbacks: what is next in order is not yet chosen.\<close>

definition learner_idle :: "learner_event set \<Rightarrow> int \<Rightarrow> learner \<Rightarrow> bool" where
  "learner_idle H n s \<longleftrightarrow> learner_ok H s \<and> le_quorum_size s = n \<and> \<not> le_late_start s \<and> learner_deliver_next s = (s, None)"

lemma idle_iff:
  "learner_deliver_next s = (s, None) \<longleftrightarrow>
     (\<forall>x. le_instances s (le_current_min_instance_to_execute s) = Some x \<longrightarrow> \<not> in_chosen x)"
  by (auto simp: learner_deliver_next_def learner_get_instance_def Let_def split: option.splits)

lemma accepted_keeps_idle:
  assumes "learner_receive_accepted s ack = Some (s', None)" "\<not> le_late_start s" "learner_deliver_next s = (s, None)"
  shows "learner_deliver_next s' = (s', None)"
proof -
  have ballot: "in_chosen (check_and_handle_new_ballot x b v) = in_chosen x" for x b v
    by (simp add: check_and_handle_new_ballot_def)
  show ?thesis
    using assms unfolding idle_iff
    by (auto simp: learner_receive_accepted_def check_and_handle_late_start_def learner_get_instance_or_create_def
        learner_get_instance_def learner_put_instance_def learner_is_instance_chosen_def instance_new_def ballot Let_def
        split: option.splits prod.splits if_splits)
qed

lemma deliver_next_closed_in_order:
  assumes "learner_ok H (evl_state l)" "le_quorum_size (evl_state l) = n" "\<not> le_late_start (evl_state l)"
    and "evlearner_deliver_next_closed l = Some (l', vs)"
  shows "learner_idle H n (evl_state l') \<and> learner_loop.delivered_from H n (le_current_min_instance_to_execute (evl_state l)) vs
    \<and> le_current_min_instance_to_execute (evl_state l')
        = le_current_min_instance_to_execute (evl_state l) + of_nat (length vs)"
  using learner_loop.deliver_all_returns [of H "evl_state l" n] assms
  by (auto simp: evlearner_deliver_next_closed_def learner_idle_def)

lemma evlearner_handle_in_order:
  assumes idle: "learner_idle H n (evl_state l)" and K: "H \<subseteq> K" "finite K" "learner_events {msg} \<subseteq> K"
    and ballots: "\<forall>ack. Receive_Accepted ack \<in> K \<longrightarrow> INVALID_BALLOT < accd_value_ballot ack"
    and handled: "evlearner_handle rnd l msg = Some (l', out, vs)"
  shows "learner_idle K n (evl_state l') \<and> learner_loop.delivered_from K n (le_current_min_instance_to_execute (evl_state l)) vs
    \<and> le_current_min_instance_to_execute (evl_state l')
        = le_current_min_instance_to_execute (evl_state l) + of_nat (length vs)"
proof -
  let ?s = "evl_state l"
  have s: "learner_ok H ?s" "le_quorum_size ?s = n" "\<not> le_late_start ?s" "learner_deliver_next ?s = (?s, None)"
    using idle by (auto simp: learner_idle_def)
  have nothing_done: ?thesis if "l' = l" "vs = []"
    using that s learner_ok_mono [OF s(1) K(1,2)] by (auto simp: learner_idle_def learner_loop.delivered_from_def)
  show ?thesis
  proof (cases msg)
    case (PAXOS_ACCEPTED ack)
    with handled obtain s' ch where r: "learner_receive_accepted ?s ack = Some (s', ch)"
      by (auto simp: evlearner_handle_def evlearner_handle_accepted_def split: option.splits)
    then have step: "learner_step ?s (Receive_Accepted ack) = Some (s', case ch of None \<Rightarrow> [] | Some c \<Rightarrow> [c], [])" by simp
    have "Receive_Accepted ack \<in> K" using K(3) PAXOS_ACCEPTED by (auto simp: learner_events_def)
    note ok = learner_step_ok [OF s(1) K(1,2) this ballots step] learner_step_min_instance [OF s(3) step]
    show ?thesis
    proof (cases ch)
      case None
      with handled PAXOS_ACCEPTED r have "l' = l\<lparr>evl_state := s'\<rparr>" "vs = []"
        by (auto simp: evlearner_handle_def evlearner_handle_accepted_def)
      with ok s(2) accepted_keeps_idle [OF _ s(3,4)] r None show ?thesis
        by (auto simp: learner_idle_def learner_loop.delivered_from_def)
    next
      case (Some c)
      with handled PAXOS_ACCEPTED r obtain p where
          "evlearner_deliver_next_closed (l\<lparr>evl_state := s', evl_peers := p\<rparr>) = Some (l', vs)"
        by (auto simp: evlearner_handle_def evlearner_handle_accepted_def split: option.splits)
      from deliver_next_closed_in_order [OF _ _ _ this] ok s(2) show ?thesis by auto
    qed
  next
    case (PAXOS_CHOSEN c)
    let ?s' = "fst (learner_receive_chosen ?s c)"
    have step: "learner_step ?s (Receive_Chosen c) = Some (?s', [], [])" by simp
    have "Receive_Chosen c \<in> K" using K(3) PAXOS_CHOSEN by (auto simp: learner_events_def)
    note ok = learner_step_ok [OF s(1) K(1,2) this ballots step] learner_step_min_instance [OF s(3) step]
    from handled PAXOS_CHOSEN have "evlearner_deliver_next_closed (l\<lparr>evl_state := ?s'\<rparr>) = Some (l', vs)"
      by (auto simp: evlearner_handle_def evlearner_handle_chosen_def)
    from deliver_next_closed_in_order [OF _ _ _ this] ok s(2) show ?thesis by auto
  next
    case (PAXOS_TRIM t)
    with handled have "l' = l\<lparr>evl_state := learner_set_trim ?s (trim_iid t)\<rparr>" "vs = []"
      by (auto simp: evlearner_handle_def evlearner_handle_trim_def)
    with s learner_ok_mono [OF s(1) K(1,2)] show ?thesis
      by (auto simp: learner_idle_def learner_set_trim_def learner_loop.delivered_from_def learner_ok_def idle_iff)
  qed (use handled nothing_done in \<open>auto simp: evlearner_handle_def\<close>)
qed

lemma evlearner_run_in_order:
  assumes "learner_idle H n (evl_state l)" "H \<subseteq> K" "finite K" "learner_events (snd ` set msgs) \<subseteq> K"
    and "\<forall>ack. Receive_Accepted ack \<in> K \<longrightarrow> INVALID_BALLOT < accd_value_ballot ack"
    and "evlearner_run l msgs = Some (l', out, vs)"
  shows "learner_idle K n (evl_state l') \<and> learner_loop.delivered_from K n (le_current_min_instance_to_execute (evl_state l)) vs
    \<and> le_current_min_instance_to_execute (evl_state l')
        = le_current_min_instance_to_execute (evl_state l) + of_nat (length vs)"
  using assms
proof (induction msgs arbitrary: l H out vs)
  case Nil
  then show ?case using learner_ok_mono by (auto simp: learner_idle_def learner_loop.delivered_from_def)
next
  case (Cons x msgs)
  obtain rnd msg where x: "x = (rnd, msg)" by fastforce
  from Cons.prems(6) obtain l1 out1 vs1 out2 vs2 where
      h: "evlearner_handle rnd l msg = Some (l1, out1, vs1)" and r: "evlearner_run l1 msgs = Some (l', out2, vs2)"
    and vs: "vs = vs1 @ vs2"
    by (auto simp: x split: option.splits)
  have ev: "learner_events {msg} \<subseteq> K" "learner_events (snd ` set msgs) \<subseteq> K"
    by (rule order.trans [OF learner_events_mono Cons.prems(4)]; simp add: x subset_insertI)+
  note one = evlearner_handle_in_order [OF Cons.prems(1-3) ev(1) Cons.prems(5) h]
  note rest = Cons.IH [OF _ order.refl Cons.prems(3) ev(2) Cons.prems(5) r]
  from one rest show ?case by (auto simp: vs learner_loop.delivered_from_append algebra_simps)
qed

section \<open>Properties\<close>

text \<open>
  C19: The learner process hands the log to the application: when a new process with \<open>learner_catch_up\<close> set (without it a
  learner starts wherever it first hears an instance) has handled a sequence of messages, in whatever order and with
  whatever duplicates, in which no acknowledgement is at the invalid ballot 0.0 (that no proposer uses), then the values it
  has delivered are those of the instances 1, 2, 3 and so on without a gap, each of them backed by a chosen message or
  by acknowledgements of a quorum at one ballot, and nothing that comes next in order is held back.
\<close>

theorem learner_process_delivers_log:
  assumes "evlearner_run (evlearner_init_internal cfg c p) msgs = Some (l, sent, vs)"
    and "cfg_learner_catch_up (ec_paxos cfg)"
    and "\<forall>ack. PAXOS_ACCEPTED ack \<in> snd ` set msgs \<longrightarrow> INVALID_BALLOT < accd_value_ballot ack"
  shows "(\<forall>k < length vs. learned_from (learner_events (snd ` set msgs)) (cfg_quorum_2 (ec_paxos cfg)) (of_nat (Suc k)) (vs ! k))
    \<and> le_current_min_instance_to_execute (evl_state l) = of_nat (Suc (length vs))
    \<and> learner_deliver_next (evl_state l) = (evl_state l, None)"
proof -
  let ?K = "learner_events (snd ` set msgs)"
  have "learner_idle {} (cfg_quorum_2 (ec_paxos cfg)) (evl_state (evlearner_init_internal cfg c p))"
    using assms(2) by (auto simp: evlearner_init_internal_def learner_idle_def learner_new_def learner_ok_def idle_iff)
  moreover have "finite ?K" by (simp add: finite_learner_events)
  moreover have "\<forall>ack. Receive_Accepted ack \<in> ?K \<longrightarrow> INVALID_BALLOT < accd_value_ballot ack"
    using assms(3) by (auto simp: learner_events_def)
  ultimately have "learner_idle ?K (cfg_quorum_2 (ec_paxos cfg)) (evl_state l)
      \<and> learner_loop.delivered_from ?K (cfg_quorum_2 (ec_paxos cfg)) 1 vs
      \<and> le_current_min_instance_to_execute (evl_state l) = 1 + of_nat (length vs)"
    using evlearner_run_in_order [OF _ empty_subsetI _ order.refl _ assms(1)]
    by (simp add: evlearner_init_internal_def learner_new_def)
  then show ?thesis by (simp add: learner_idle_def learner_loop.delivered_from_def)
qed

text \<open>
  A small gap in the log of an epoch learner is never filled on request: as long as the gap between the next instance to
  deliver and the highest chosen one is not larger than \<open>min_chunks_missing\<close>, the check for holes sends nothing at all,
  neither a request to repeat nor a trim, whereas the learner of standard Paxos asks every acceptor for any gap.
\<close>

theorem epoch_learner_ignores_small_holes:
  assumes "epoch_learner_has_holes (eel_learner el) = Some (from, til)"
    and "til - from \<le> word_of_int (eel_min_chunks_missing el)"
    and "learner_has_holes (evl_state l) = Some (from, til)"
  shows "ev_epoch_learner_check_holes rnd el = Some (el\<lparr>eel_hole_check_event := True\<rparr>, [])
    \<and> (\<exists>t. evlearner_check_holes rnd l = Some (l\<lparr>evl_hole_timer := True\<rparr>,
           to_all (pp_peers (evl_peers l)) (PAXOS_REPEAT \<lparr>rep_from = from, rep_to = t\<rparr>)))"
  using assms
  by (auto simp: ev_epoch_learner_check_holes_def evlearner_check_holes_def peers_foreach_acceptor_def Let_def not_less)

definition sample_addresses :: evpaxos_config where
  "sample_addresses =
     (let as = map (\<lambda>p. \<lparr>adr_addr = ''127.0.0.1'', adr_port = p\<rparr>) [8800, 8801, 8802]
      in \<lparr>conf_proposers = take 1 as, conf_acceptors = as, conf_clients = take 1 as\<rparr>)"

definition sample_peers :: "address standard_paxos_peers" where
  "sample_peers = peers_connect_to_proposers (conf_proposers sample_addresses)
     (peers_connect_to_acceptors (conf_acceptors sample_addresses) peers_new 0) 0"

theorem learner_process_delivers_log_witness:
  "\<exists>msgs l sent. evlearner_run (evlearner_init_internal sample_ev_config sample_addresses sample_peers) msgs = Some (l, sent, [[7], [8]])
     \<and> learned_from (learner_events (snd ` set msgs)) 2 1 [7] \<and> learned_from (learner_events (snd ` set msgs)) 2 2 [8]"
proof -
  let ?ack = "\<lambda>i. ((\<lambda>_ _. 0) :: nat \<Rightarrow> nat \<Rightarrow> nat, PAXOS_ACCEPTED \<lparr>accd_aid = i, accd_iid = 1, accd_promise_ballot = Ballot 1 1, accd_value_ballot = Ballot 1 1, accd_value = [7]\<rparr>)"
  let ?msgs = "[((\<lambda>_ _. 0) :: nat \<Rightarrow> nat \<Rightarrow> nat, PAXOS_CHOSEN \<lparr>cho_iid = 2, cho_ballot = Ballot 1 1, cho_value = [8]\<rparr>), ?ack 0, ?ack 2]"
  let ?r = "evlearner_run (evlearner_init_internal sample_ev_config sample_addresses sample_peers) ?msgs"
  have "map_option (\<lambda>(l, sent, vs). (length sent, vs)) ?r = Some (2, [[7], [8]])" by code_simp
  then obtain l sent where r: "?r = Some (l, sent, [[7], [8]])" by (cases ?r) auto
  have catch_up: "cfg_learner_catch_up (ec_paxos sample_ev_config)" and q: "cfg_quorum_2 (ec_paxos sample_ev_config) = 2"
    by (simp_all add: sample_ev_config_def)
  have "\<forall>ack. PAXOS_ACCEPTED ack \<in> snd ` set ?msgs \<longrightarrow> INVALID_BALLOT < accd_value_ballot ack"
    by (auto simp: INVALID_BALLOT_def less_ballot_def)
  note log = learner_process_delivers_log [OF r catch_up this, unfolded q, THEN conjunct1, rule_format]
  from log [of 0] log [of 1]
  have "learned_from (learner_events (snd ` set ?msgs)) 2 1 [7]" "learned_from (learner_events (snd ` set ?msgs)) 2 2 [8]"
    by (simp_all del: list.set)
  with r show ?thesis by blast
qed

theorem epoch_learner_ignores_small_holes_witness:
  "let el = (ev_epoch_learner_init_internal sample_ev_config sample_addresses writeahead_epoch_paxos_peers_new :: address ev_epoch_learner);
       gap = el\<lparr>eel_learner := (eel_learner el)\<lparr>el_highest_instance_chosen := 4\<rparr>\<rparr>
   in snd (the (ev_epoch_learner_check_holes (\<lambda>_ _. 0) gap)) = []"
proof -
  let ?el = "ev_epoch_learner_init_internal sample_ev_config sample_addresses writeahead_epoch_paxos_peers_new :: address ev_epoch_learner"
  let ?gap = "?el\<lparr>eel_learner := (eel_learner ?el)\<lparr>el_highest_instance_chosen := 4\<rparr>\<rparr>"
  let ?l = "evlearner_init_internal sample_ev_config sample_addresses sample_peers"
  let ?lgap = "?l\<lparr>evl_state := (evl_state ?l)\<lparr>le_highest_instance_chosen := 4\<rparr>\<rparr>"
  have "epoch_learner_has_holes (eel_learner ?gap) = Some (1, 4)" "learner_has_holes (evl_state ?lgap) = Some (1, 4)"
    by code_simp+
  moreover have "(4 :: u32) - 1 \<le> word_of_int (eel_min_chunks_missing ?gap)" by code_simp
  ultimately show ?thesis
    using epoch_learner_ignores_small_holes [of ?gap 1 4 ?lgap "\<lambda>_ _. 0"] by (simp add: Let_def)
qed

end
