(* ===== verification/Event_Proposer.thy ===== *)
theory Event_Proposer
  imports Event_Base Standard_Proposer
begin

text \<open>
  \<open>src/evpaxos/evproposer.c\<close>: the process around the standard proposer.  It keeps a window of instances open, starts their
  prepare phase at ballots of the round-robin allocator, sends accepts as soon as a value and a quorum of promises are
  there, retries preempted instances after a backoff, and asks again after a timeout.  \<open>env n\<close> is what the \<open>n\<close>-th round of a
  callback reads of the clock and the random numbers.  A retry that waits for its timer is the prepare that it will send
  and its delay.  The seed of the random numbers and the timers that only measure performance are not modelled.
\<close>

section \<open>State\<close>

record 'a evproposer =
  evp_acceptor_count :: int
  evp_last_heard_from_acceptor :: "timeval list"
  evp_id :: u32
  evp_preexec_window :: int
  evp_state :: proposer
  evp_peers :: "'a standard_paxos_peers"
  evp_timeout_ev :: bool
  evp_round_robin_allocator :: round_robin_allocator
  evp_backoff_manager :: backoff_manager
  evp_proposers_count :: int
  evp_random_seed_event :: bool
  evp_proposer_state_event :: bool
  evp_try_accept_event :: bool
  evp_acceptor_timeout_check_event :: bool
  evp_preexec_once :: bool
  evp_fake_leader :: bool
  evp_retries :: "(paxos_prepare \<times> timeval) list"

section \<open>Proposing values\<close>

text \<open>One round of \<open>while (proposer_try_accept(...))\<close>; the flag tells whether the loop goes on.\<close>

definition try_accept_round ::
    "ev_config \<Rightarrow> (nat \<Rightarrow> surroundings) \<Rightarrow> nat \<Rightarrow> 'a evproposer \<times> bool \<Rightarrow>
       (nat \<times> ('a evproposer \<times> bool) \<times> ('a, standard_paxos_message) sends) option" where
  "try_accept_round cfg env n s =
     (let (p, _) = s in
      case proposer_try_accept (ec_paxos cfg) (env_now (env n)) (evp_state p) of
        None \<Rightarrow> None
      | Some (st, None) \<Rightarrow> Some (n + 1, (p\<lparr>evp_state := st\<rparr>, False), [])
      | Some (st, Some accept) \<Rightarrow>
          (case peers_for_n_acceptor (env_shuffle (env n)) (evp_peers p) (ec_group_2 cfg) of
             None \<Rightarrow> None
           | Some (ps, qs) \<Rightarrow> Some (n + 1, (p\<lparr>evp_state := st, evp_peers := ps\<rparr>, True), to_all qs (PAXOS_ACCEPT accept))))"

definition try_accept ::
    "ev_config \<Rightarrow> (nat \<Rightarrow> surroundings) \<Rightarrow> nat \<Rightarrow> 'a evproposer \<Rightarrow>
       (nat \<times> 'a evproposer \<times> ('a, standard_paxos_message) sends) option" where
  "try_accept cfg env n p =
     map_option (\<lambda>(n, (p, _), out). (n, p, out)) (send_loop snd (try_accept_round cfg env) n (p, True))"

section \<open>Opening instances\<close>

text \<open>\<open>window - (prepare count + acceptance count)\<close>, the number of instances to open.\<close>

definition instances_to_open :: "'a evproposer \<Rightarrow> int" where
  "instances_to_open p =
     evp_preexec_window p - (int (proposer_prepare_count (evp_state p)) + int (proposer_acceptance_count (evp_state p)))"

definition fake_leader_round ::
    "ev_config \<Rightarrow> (nat \<Rightarrow> surroundings) \<Rightarrow> nat \<Rightarrow> 'a evproposer \<times> int \<Rightarrow>
       (nat \<times> ('a evproposer \<times> int) \<times> ('a, standard_paxos_message) sends) option" where
  "fake_leader_round cfg env n s =
     (let (p, count) = s;
          (st, pr) = proposer_try_to_start_preparing_instance (env_now (env n)) (evp_state p)
                       (proposer_get_current_instance (evp_state p)) (Ballot 1 (evp_id p))
      in case pr of
           None \<Rightarrow> Some (n + 1, (p\<lparr>evp_state := proposer_next_instance st\<rparr>, count), [])
         | Some _ \<Rightarrow>
             map_option (\<lambda>(n, p, out). (n, (p\<lparr>evp_state := proposer_next_instance (evp_state p)\<rparr>, count - 1), out))
               (try_accept cfg env (n + 1) (p\<lparr>evp_state := st\<rparr>)))"

definition fake_leader_preexecute ::
    "ev_config \<Rightarrow> (nat \<Rightarrow> surroundings) \<Rightarrow> nat \<Rightarrow> 'a evproposer \<Rightarrow>
       (nat \<times> 'a evproposer \<times> ('a, standard_paxos_message) sends) option" where
  "fake_leader_preexecute cfg env n p =
     map_option (\<lambda>(n, (p, _), out). (n, p, out))
       (send_loop (\<lambda>(p, count). count > 0) (fake_leader_round cfg env) n (p, instances_to_open p))"

definition proposer_preexecute_round ::
    "ev_config \<Rightarrow> (nat \<Rightarrow> surroundings) \<Rightarrow> nat \<Rightarrow> 'a evproposer \<times> int \<Rightarrow>
       (nat \<times> ('a evproposer \<times> int) \<times> ('a, standard_paxos_message) sends) option" where
  "proposer_preexecute_round cfg env n s =
     (let (p, count) = s;
          i = proposer_get_current_instance (evp_state p)
      in case round_robin_allocator_get_ballot (env_rand (env n)) (evp_round_robin_allocator p) i of
           None \<Rightarrow> None
         | Some b \<Rightarrow>
             (case proposer_try_to_start_preparing_instance (env_now (env n)) (evp_state p) i b of
                (st, None) \<Rightarrow> Some (n + 1, (p\<lparr>evp_state := proposer_next_instance st\<rparr>, count), [])
              | (st, Some pr) \<Rightarrow>
                  (case round_robin_allocator_should_delay_proposal (evp_round_robin_allocator p) i of
                     None \<Rightarrow> None
                   | Some True \<Rightarrow>
                       (case backoff_manager_get_backoff (env_backoff (env n)) (evp_backoff_manager p) (prep_iid pr) of
                          None \<Rightarrow> None
                        | Some (m, t) \<Rightarrow>
                            Some (n + 1, (p\<lparr>evp_state := proposer_next_instance st, evp_backoff_manager := m,
                                            evp_retries := evp_retries p @ [(pr, t)]\<rparr>, count - 1), []))
                   | Some False \<Rightarrow>
                       (case peers_for_n_acceptor (env_shuffle (env n)) (evp_peers p) (ec_group_1 cfg) of
                          None \<Rightarrow> None
                        | Some (ps, qs) \<Rightarrow>
                            Some (n + 1, (p\<lparr>evp_state := proposer_next_instance st, evp_peers := ps\<rparr>, count - 1),
                              to_all qs (PAXOS_PREPARE pr))))))"

definition proposer_preexecute ::
    "ev_config \<Rightarrow> (nat \<Rightarrow> surroundings) \<Rightarrow> nat \<Rightarrow> 'a evproposer \<Rightarrow>
       (nat \<times> 'a evproposer \<times> ('a, standard_paxos_message) sends) option" where
  "proposer_preexecute cfg env n p =
     map_option (\<lambda>(n, (p, _), out). (n, p, out))
       (send_loop (\<lambda>(p, count). count > 0) (proposer_preexecute_round cfg env) n (p, instances_to_open p))"

text \<open>The handlers call one or the other.\<close>

definition preexecute ::
    "ev_config \<Rightarrow> (nat \<Rightarrow> surroundings) \<Rightarrow> nat \<Rightarrow> 'a evproposer \<Rightarrow>
       (nat \<times> 'a evproposer \<times> ('a, standard_paxos_message) sends) option" where
  "preexecute cfg env n p =
     (if evp_fake_leader p then fake_leader_preexecute cfg env n p else proposer_preexecute cfg env n p)"

text \<open>The timer of a retry is freed with its arguments.\<close>

definition evproposer_try_higher_ballot ::
    "ev_config \<Rightarrow> (nat \<Rightarrow> surroundings) \<Rightarrow> 'a evproposer \<Rightarrow> paxos_prepare \<times> timeval \<Rightarrow>
       ('a evproposer \<times> ('a, standard_paxos_message) sends) option" where
  "evproposer_try_higher_ballot cfg env p retry =
     (let p = p\<lparr>evp_retries := remove1 retry (evp_retries p)\<rparr>;
          pr = fst retry
      in if proposer_is_instance_pending (evp_state p) (prep_iid pr)
         then map_option (\<lambda>(ps, qs). (p\<lparr>evp_peers := ps\<rparr>, to_all qs (PAXOS_PREPARE pr)))
                (peers_for_n_acceptor (env_shuffle (env 0)) (evp_peers p) (ec_group_1 cfg))
         else map_option snd (proposer_preexecute cfg env 0
                (p\<lparr>evp_backoff_manager := backoff_manager_close_backoff_if_exists (evp_backoff_manager p) (prep_iid pr)\<rparr>)))"

section \<open>Messages\<close>

definition evproposer_handle_promise ::
    "ev_config \<Rightarrow> (nat \<Rightarrow> surroundings) \<Rightarrow> 'a evproposer \<Rightarrow> 'a peer \<Rightarrow> standard_paxos_message \<Rightarrow>
       ('a evproposer \<times> ('a, standard_paxos_message) sends) option" where
  "evproposer_handle_promise cfg env p q msg =
     (case msg of
        PAXOS_PROMISE promise \<Rightarrow>
          if ballot_proposer_id (prom_ballot promise) \<noteq> evp_id p then Some (p, [])
          else (case proposer_receive_promise (evp_state p) promise of
                  None \<Rightarrow> None
                | Some (st, False) \<Rightarrow> Some (p\<lparr>evp_state := st\<rparr>, [])
                | Some (st, True) \<Rightarrow> map_option snd (try_accept cfg env 0 (p\<lparr>evp_state := st\<rparr>)))
      | _ \<Rightarrow> None)"

definition evproposer_handle_accepted ::
    "ev_config \<Rightarrow> (nat \<Rightarrow> surroundings) \<Rightarrow> 'a evproposer \<Rightarrow> 'a peer \<Rightarrow> standard_paxos_message \<Rightarrow>
       ('a evproposer \<times> ('a, standard_paxos_message) sends) option" where
  "evproposer_handle_accepted cfg env p q msg =
     (case msg of
        PAXOS_ACCEPTED acc \<Rightarrow>
          if ballot_proposer_id (accd_promise_ballot acc) \<noteq> evp_id p then Some (p, [])
          else (case proposer_receive_accepted (ec_paxos cfg) (evp_state p) acc of
                  None \<Rightarrow> None
                | Some (st, None) \<Rightarrow> Some (p\<lparr>evp_state := st\<rparr>, [])
                | Some (st, Some _) \<Rightarrow> map_option snd (preexecute cfg env 0 (p\<lparr>evp_state := st\<rparr>)))
      | _ \<Rightarrow> None)"

definition evproposer_handle_chosen ::
    "ev_config \<Rightarrow> (nat \<Rightarrow> surroundings) \<Rightarrow> 'a evproposer \<Rightarrow> 'a peer \<Rightarrow> standard_paxos_message \<Rightarrow>
       ('a evproposer \<times> ('a, standard_paxos_message) sends) option" where
  "evproposer_handle_chosen cfg env p q msg =
     (case msg of
        PAXOS_CHOSEN chosen_msg \<Rightarrow>
          (case proposer_receive_chosen (ec_paxos cfg) (evp_state p) chosen_msg of
             None \<Rightarrow> None
           | Some (st, False) \<Rightarrow> Some (p\<lparr>evp_state := st\<rparr>, [])
           | Some (st, True) \<Rightarrow> map_option snd (preexecute cfg env 0 (p\<lparr>evp_state := st\<rparr>)))
      | _ \<Rightarrow> None)"

text \<open>The prepare of the new ballot waits for the backoff, whose random numbers are those of the same round.\<close>

definition evproposer_handle_preempted ::
    "ev_config \<Rightarrow> (nat \<Rightarrow> surroundings) \<Rightarrow> 'a evproposer \<Rightarrow> 'a peer \<Rightarrow> standard_paxos_message \<Rightarrow>
       ('a evproposer \<times> ('a, standard_paxos_message) sends) option" where
  "evproposer_handle_preempted cfg env p q msg =
     (case msg of
        PAXOS_PREEMPTED preempted_msg \<Rightarrow>
          if ballot_proposer_id (pre_attempted_ballot preempted_msg) \<noteq> evp_id p then Some (p, [])
          else (case proposer_receive_preempted (env_now (env 0)) (env_rand (env 0)) (env_rand (env 1)) (evp_state p) preempted_msg of
                  None \<Rightarrow> None
                | Some (st, None) \<Rightarrow> Some (p\<lparr>evp_state := st\<rparr>, [])
                | Some (st, Some next_prepare) \<Rightarrow>
                    map_option (\<lambda>(m, t). (p\<lparr>evp_state := st, evp_backoff_manager := m,
                        evp_retries := evp_retries p @ [(next_prepare, t)]\<rparr>, []))
                      (backoff_manager_get_backoff (env_backoff (env 0)) (evp_backoff_manager p) (pre_iid preempted_msg)))
      | _ \<Rightarrow> None)"

definition evproposer_handle_trim ::
    "ev_config \<Rightarrow> (nat \<Rightarrow> surroundings) \<Rightarrow> 'a evproposer \<Rightarrow> 'a peer \<Rightarrow> standard_paxos_message \<Rightarrow>
       ('a evproposer \<times> ('a, standard_paxos_message) sends) option" where
  "evproposer_handle_trim cfg env p q msg =
     (case msg of
        PAXOS_TRIM trim_msg \<Rightarrow>
          let p = p\<lparr>evp_state := proposer_receive_trim (ec_paxos cfg) (evp_state p) trim_msg\<rparr>
          in map_option snd
               (if evp_fake_leader p then fake_leader_preexecute cfg env 0 p
                else proposer_preexecute cfg env 0
                  (p\<lparr>evp_backoff_manager := backoff_manager_close_less_than_or_equal (evp_backoff_manager p) (trim_iid trim_msg)\<rparr>))
      | _ \<Rightarrow> None)"

definition evproposer_handle_client_value ::
    "ev_config \<Rightarrow> (nat \<Rightarrow> surroundings) \<Rightarrow> 'a evproposer \<Rightarrow> 'a peer \<Rightarrow> standard_paxos_message \<Rightarrow>
       ('a evproposer \<times> ('a, standard_paxos_message) sends) option" where
  "evproposer_handle_client_value cfg env p q msg =
     (case msg of
        PAXOS_CLIENT_VALUE v \<Rightarrow>
          (case proposer_add_paxos_value_to_queue (evp_state p) v of
             None \<Rightarrow> None
           | Some st \<Rightarrow> map_option snd (try_accept cfg env 0 (p\<lparr>evp_state := st\<rparr>)))
      | _ \<Rightarrow> None)"

text \<open>The clock is read once for each acceptor.\<close>

definition all_up :: "ev_config \<Rightarrow> (nat \<Rightarrow> surroundings) \<Rightarrow> 'a evproposer \<Rightarrow> bool" where
  "all_up cfg env p \<longleftrightarrow>
     list_all (\<lambda>i. \<not> timer_greater (timersub (env_now (env i)) (evp_last_heard_from_acceptor p ! i))
                     \<lparr>tv_sec = ec_acceptor_timeout cfg, tv_usec = 0\<rparr>)
       [0..<nat (evp_acceptor_count p)]"

definition evproposer_handle_acceptor_state ::
    "ev_config \<Rightarrow> (nat \<Rightarrow> surroundings) \<Rightarrow> 'a evproposer \<Rightarrow> 'a peer \<Rightarrow> standard_paxos_message \<Rightarrow>
       ('a evproposer \<times> ('a, standard_paxos_message) sends) option" where
  "evproposer_handle_acceptor_state cfg env p q msg =
     (case msg of
        PAXOS_ACCEPTOR_STATE acc_state \<Rightarrow>
          let p = p\<lparr>evp_state := proposer_receive_acceptor_state (ec_paxos cfg) (evp_state p) acc_state\<rparr>
          in map_option snd
               (if evp_fake_leader p then fake_leader_preexecute cfg env 0 p
                else let p = p\<lparr>evp_backoff_manager := backoff_manager_close_less_than_or_equal (evp_backoff_manager p) (as_trim_iid acc_state)\<rparr>;
                         p = (if all_up cfg env p then p\<lparr>evp_preexec_window := ec_proposer_preexec_window_max cfg\<rparr> else p)
                     in proposer_preexecute cfg env (nat (evp_acceptor_count p)) p)
      | _ \<Rightarrow> None)"

definition evproposer_handle_proposer_state ::
    "ev_config \<Rightarrow> (nat \<Rightarrow> surroundings) \<Rightarrow> 'a evproposer \<Rightarrow> 'a peer \<Rightarrow> standard_paxos_message \<Rightarrow>
       ('a evproposer \<times> ('a, standard_paxos_message) sends) option" where
  "evproposer_handle_proposer_state cfg env p q msg =
     (case msg of
        PAXOS_PROPOSER_STATE state \<Rightarrow>
          map_option snd (proposer_preexecute cfg env 0
            (p\<lparr>evp_state := proposer_receive_proposer_state (ec_paxos cfg) (evp_state p) state,
              evp_backoff_manager := backoff_manager_close_less_than_or_equal (evp_backoff_manager p) (ps_trim_instance state)\<rparr>))
      | _ \<Rightarrow> None)"

section \<open>Timers\<close>

definition ev_proposer_check_acceptor_timeouts :: "ev_config \<Rightarrow> (nat \<Rightarrow> surroundings) \<Rightarrow> 'a evproposer \<Rightarrow> 'a evproposer" where
  "ev_proposer_check_acceptor_timeouts cfg env p =
     (let p = (if all_up cfg env p then p else p\<lparr>evp_preexec_window := ec_proposer_preexec_window_min cfg\<rparr>)
      in p\<lparr>evp_acceptor_timeout_check_event := True\<rparr>)"

text \<open>The rounds of the two loops over the instances that have timed out.\<close>

definition timed_out_prepare_round ::
    "ev_config \<Rightarrow> (nat \<Rightarrow> surroundings) \<Rightarrow> nat \<Rightarrow> 'a evproposer \<times> timeout_iterator \<times> bool \<Rightarrow>
       (nat \<times> ('a evproposer \<times> timeout_iterator \<times> bool) \<times> ('a, standard_paxos_message) sends) option" where
  "timed_out_prepare_round cfg env n s =
     (let (p, iter, _) = s in
      case timeout_iterator_prepare (ec_paxos cfg) iter (evp_state p) of
        (iter, st, None) \<Rightarrow> Some (n + 1, (p\<lparr>evp_state := st\<rparr>, iter, False), [])
      | (iter, st, Some pr) \<Rightarrow>
          map_option (\<lambda>(ps, qs). (n + 1, (p\<lparr>evp_state := st, evp_peers := ps\<rparr>, iter, True), to_all qs (PAXOS_PREPARE pr)))
            (peers_for_n_acceptor (env_shuffle (env n)) (evp_peers p) (ec_group_1 cfg)))"

definition timed_out_accept_round ::
    "ev_config \<Rightarrow> (nat \<Rightarrow> surroundings) \<Rightarrow> nat \<Rightarrow> 'a evproposer \<times> timeout_iterator \<times> bool \<Rightarrow>
       (nat \<times> ('a evproposer \<times> timeout_iterator \<times> bool) \<times> ('a, standard_paxos_message) sends) option" where
  "timed_out_accept_round cfg env n s =
     (let (p, iter, _) = s in
      case timeout_iterator_accept (ec_paxos cfg) (env_now (env n)) iter (evp_state p) of
        None \<Rightarrow> None
      | Some (iter, st, None) \<Rightarrow> Some (n + 1, (p\<lparr>evp_state := st\<rparr>, iter, False), [])
      | Some (iter, st, Some accept_msg) \<Rightarrow>
          map_option (\<lambda>(ps, qs). (n + 1, (p\<lparr>evp_state := st, evp_peers := ps\<rparr>, iter, True), to_all qs (PAXOS_ACCEPT accept_msg)))
            (peers_for_n_acceptor (env_shuffle (env n)) (evp_peers p) (ec_group_2 cfg)))"

definition evproposer_check_timeouts ::
    "ev_config \<Rightarrow> (nat \<Rightarrow> surroundings) \<Rightarrow> 'a evproposer \<Rightarrow> ('a evproposer \<times> ('a, standard_paxos_message) sends) option" where
  "evproposer_check_timeouts cfg env p =
     (case send_loop (\<lambda>(_, _, more). more) (timed_out_prepare_round cfg env) 1
             (p, proposer_timeout_iterator (env_now (env 0)), True) of
        None \<Rightarrow> None
      | Some (n, (p, iter, _), prepares) \<Rightarrow>
          map_option (\<lambda>(n, (p, _), accepts). (p\<lparr>evp_timeout_ev := True\<rparr>, prepares @ accepts))
            (send_loop (\<lambda>(_, _, more). more) (timed_out_accept_round cfg env) n (p, iter, True)))"

definition evproposer_preexec_once ::
    "ev_config \<Rightarrow> (nat \<Rightarrow> surroundings) \<Rightarrow> 'a evproposer \<Rightarrow> ('a evproposer \<times> ('a, standard_paxos_message) sends) option" where
  "evproposer_preexec_once cfg env p = map_option snd (proposer_preexecute cfg env 0 p)"

definition ev_fake_leader_preexec_once ::
    "ev_config \<Rightarrow> (nat \<Rightarrow> surroundings) \<Rightarrow> 'a evproposer \<Rightarrow> ('a evproposer \<times> ('a, standard_paxos_message) sends) option" where
  "ev_fake_leader_preexec_once cfg env p = map_option snd (fake_leader_preexecute cfg env 0 p)"

definition evproposer_gen_random_seed :: "'a evproposer \<Rightarrow> 'a evproposer" where
  "evproposer_gen_random_seed p = p\<lparr>evp_random_seed_event := True\<rparr>"

definition evproposer_proposer_state_event :: "'a evproposer \<Rightarrow> 'a evproposer \<times> ('a, standard_paxos_message) sends" where
  "evproposer_proposer_state_event p =
     (p\<lparr>evp_proposer_state_event := True\<rparr>,
      to_all (peers_foreach_proposer (evp_peers p)) (PAXOS_PROPOSER_STATE (proposer_get_state (evp_state p))))"

definition try_accept_event ::
    "ev_config \<Rightarrow> (nat \<Rightarrow> surroundings) \<Rightarrow> 'a evproposer \<Rightarrow> ('a evproposer \<times> ('a, standard_paxos_message) sends) option" where
  "try_accept_event cfg env p =
     map_option (\<lambda>(n, (p, _), out). (p\<lparr>evp_try_accept_event := True\<rparr>, out))
       (send_loop snd (try_accept_round cfg env) 0 (p, True))"

section \<open>Starting a process\<close>

definition evproposer_subscriptions ::
    "ev_config \<Rightarrow> (nat \<Rightarrow> surroundings) \<Rightarrow>
       (('a evproposer, 'a, standard_paxos_message) process, 'a peer, standard_paxos_message) subscription list option" where
  "evproposer_subscriptions cfg env = subscribe_all
     [(1, callback (evproposer_handle_promise cfg env)), (3, callback (evproposer_handle_accepted cfg env)),
      (5, callback (evproposer_handle_preempted cfg env)), (10, callback (evproposer_handle_client_value cfg env)),
      (9, callback (evproposer_handle_acceptor_state cfg env)), (4, callback (evproposer_handle_chosen cfg env)),
      (7, callback (evproposer_handle_trim cfg env)), (8, callback (evproposer_handle_proposer_state cfg env))]"

definition ev_fake_leader_subscriptions ::
    "ev_config \<Rightarrow> (nat \<Rightarrow> surroundings) \<Rightarrow>
       (('a evproposer, 'a, standard_paxos_message) process, 'a peer, standard_paxos_message) subscription list option" where
  "ev_fake_leader_subscriptions cfg env = subscribe_all
     [(3, callback (evproposer_handle_accepted cfg env)), (10, callback (evproposer_handle_client_value cfg env)),
      (9, callback (evproposer_handle_acceptor_state cfg env)), (4, callback (evproposer_handle_chosen cfg env)),
      (7, callback (evproposer_handle_trim cfg env))]"

text \<open>
  \<open>junk\<close> is the memory that \<open>malloc\<close> returns for the process, \<open>heap\<close> that for the times at which acceptors were heard, which
  nothing initialises.  The bias is an \<open>unsigned int\<close> that the allocator takes as a \<open>bool\<close>.
\<close>

definition evproposer_init_internal ::
    "ev_config \<Rightarrow> u32 list \<Rightarrow> 'a evproposer \<Rightarrow> (nat \<Rightarrow> timeval) \<Rightarrow> int \<Rightarrow> evpaxos_config \<Rightarrow> 'a standard_paxos_peers
       \<Rightarrow> backoff_manager \<Rightarrow> 'a evproposer option" where
  "evproposer_init_internal cfg draws junk heap i c peers manager =
     (let ballot_bias = (if ec_round_robin_ballot_bias cfg then ec_max_ballot_increment cfg else 1)
      in case proposer_set_current_instance (ec_paxos cfg)
                (proposer_new (ec_paxos cfg) (word_of_int i) (evpaxos_acceptor_count c) (ec_quorum_1 cfg)
                   (cfg_quorum_2 (ec_paxos cfg)) (ec_max_ballot_increment cfg)) 1 of
           None \<Rightarrow> None
         | Some st \<Rightarrow>
             (case random_between draws 30 60 of
                None \<Rightarrow> None
              | Some _ \<Rightarrow>
                  Some (junk\<lparr>evp_id := word_of_int i, evp_proposers_count := evpaxos_proposer_count c,
                    evp_acceptor_count := evpaxos_acceptor_count c, evp_fake_leader := False,
                    evp_last_heard_from_acceptor := map heap [0..<nat (evpaxos_acceptor_count c)],
                    evp_state := st, evp_preexec_window := ec_proposer_preexec_window_max cfg,
                    evp_round_robin_allocator := round_robin_allocator_new (word_of_int i)
                      (word_of_int (evpaxos_proposer_count c)) (ballot_bias \<noteq> 0) (ec_round_robin_backoff cfg)
                      (ec_max_ballot_increment cfg),
                    evp_timeout_ev := True, evp_acceptor_timeout_check_event := True, evp_random_seed_event := True,
                    evp_peers := peers, evp_backoff_manager := manager, evp_proposer_state_event := True,
                    evp_try_accept_event := True, evp_preexec_once := True, evp_retries := []\<rparr>)))"

definition evproposer_backoff :: "ev_config \<Rightarrow> backoff" where
  "evproposer_backoff cfg =
     (if take 11 (ec_backoff_type cfg) = ''full-jitter''
      then full_jitter_backoff_new (ec_max_backoff_microseconds cfg) (ec_min_backoff_microseconds cfg)
             (ec_max_initial_backff_microseconds cfg)
      else exponential_randomised_backoff_new (ec_max_backoff_microseconds cfg) (ec_min_backoff_microseconds cfg)
             (ec_max_initial_backff_microseconds cfg))"

definition evproposer_init ::
    "(settings \<Rightarrow> ev_config) \<Rightarrow> u32 list \<Rightarrow> address evproposer \<Rightarrow> (nat \<Rightarrow> timeval) \<Rightarrow> (int \<Rightarrow> bool) \<Rightarrow> settings \<Rightarrow> int
       \<Rightarrow> string option \<Rightarrow> address evproposer outcome" where
  "evproposer_init cfg draws junk heap listen g i file =
     (case evpaxos_config_read g file of
        None \<Rightarrow> None
      | Some None \<Rightarrow> Some None
      | Some (Some (c, g)) \<Rightarrow>
          if i < 0 then Some None
          else case evpaxos_proposer_listen_port c i of
                 None \<Rightarrow> None
               | Some port \<Rightarrow>
                   if \<not> listen port then Some None
                   else map_option Some (evproposer_init_internal (cfg g) draws junk heap i c
                          (peers_connect_to_other_proposers (conf_proposers c)
                             (peers_connect_to_acceptors (conf_acceptors c) peers_new i) i)
                          (backoff_manager_new (evproposer_backoff (cfg g)))))"

definition evproposer_set_instance_id :: "ev_config \<Rightarrow> 'a evproposer \<Rightarrow> iid_t \<Rightarrow> 'a evproposer option" where
  "evproposer_set_instance_id cfg p i =
     map_option (\<lambda>st. p\<lparr>evp_state := st\<rparr>) (proposer_set_current_instance (ec_paxos cfg) (evp_state p) i)"

definition ev_fake_leader_init_internal ::
    "ev_config \<Rightarrow> 'a evproposer \<Rightarrow> int \<Rightarrow> evpaxos_config \<Rightarrow> 'a standard_paxos_peers \<Rightarrow> 'a evproposer option" where
  "ev_fake_leader_init_internal cfg junk i c peers =
     (case proposer_set_current_instance (ec_paxos cfg)
             (proposer_new (ec_paxos cfg) (word_of_int i) (evpaxos_acceptor_count c) 0
                (cfg_quorum_2 (ec_paxos cfg)) (ec_max_ballot_increment cfg)) 1 of
        None \<Rightarrow> None
      | Some st \<Rightarrow>
          Some (junk\<lparr>evp_id := word_of_int i, evp_proposers_count := evpaxos_proposer_count c, evp_state := st,
            evp_preexec_window := ec_proposer_preexec_window_max cfg, evp_fake_leader := True, evp_timeout_ev := True,
            evp_peers := peers, evp_preexec_once := True, evp_retries := []\<rparr>))"

definition ev_fake_leader_init ::
    "(settings \<Rightarrow> ev_config) \<Rightarrow> address evproposer \<Rightarrow> (int \<Rightarrow> bool) \<Rightarrow> settings \<Rightarrow> int \<Rightarrow> string option
       \<Rightarrow> address evproposer outcome" where
  "ev_fake_leader_init cfg junk listen g i file =
     (case evpaxos_config_read g file of
        None \<Rightarrow> None
      | Some None \<Rightarrow> Some None
      | Some (Some (c, g)) \<Rightarrow>
          if i < 0 then Some None
          else case evpaxos_proposer_listen_port c i of
                 None \<Rightarrow> None
               | Some port \<Rightarrow>
                   if \<not> listen port then Some None
                   else map_option Some (ev_fake_leader_init_internal (cfg g) junk i c
                          (peers_connect_to_acceptors (conf_acceptors c) peers_new (- 1))))"

section \<open>Every ballot is the proposer's own\<close>

definition owned :: "u32 \<Rightarrow> phase_table \<Rightarrow> bool" where
  "owned a t \<longleftrightarrow> (\<forall>(k, x) \<in> set t. ballot_proposer_id (pci_ballot (spi_common_info x)) = a)"

lemma owned_Nil [simp]: "owned a []"
  by (simp add: owned_def)

lemma owned_update [simp]:
  "owned a t \<Longrightarrow> ballot_proposer_id (pci_ballot (spi_common_info x)) = a \<Longrightarrow> owned a (AList.update k x t)"
  using set_AList_update [of k x t] by (fastforce simp: owned_def)

lemma owned_subset: "owned a t \<Longrightarrow> set t' \<subseteq> set t \<Longrightarrow> owned a t'"
  by (auto simp: owned_def)

lemma owned_delete [simp]: "owned a t \<Longrightarrow> owned a (AList.delete k t)"
  by (rule owned_subset [OF _ set_AList_delete])

lemma owned_get: "owned a t \<Longrightarrow> get_instance_info t k = Some x \<Longrightarrow> ballot_proposer_id (pci_ballot (spi_common_info x)) = a"
  by (auto simp: owned_def get_instance_info_def dest: map_of_SomeD)

definition proposer_owns :: "u32 \<Rightarrow> proposer \<Rightarrow> bool" where
  "proposer_owns a s \<longleftrightarrow> proposer_wf s \<and> pr_id s = a \<and> bg_proposer_id (pr_ballot_giver s) = a
     \<and> owned a (pr_prepare_phase_instances s) \<and> owned a (pr_accept_phase_instances s)"

lemma ballot_giver_next_own: "ballot_giver_next draws g b = Some b' \<Longrightarrow> ballot_proposer_id b' = bg_proposer_id g"
  by (auto simp: ballot_giver_next_def split: option.splits)

lemma next_instance_owns [simp]: "proposer_owns a (proposer_next_instance s) = proposer_owns a s"
  by (simp add: proposer_owns_def) (simp add: proposer_next_instance_def)

lemma new_owns: "proposer_owns a (proposer_new cfg a n q1 q2 inc)"
  by (simp add: proposer_owns_def) (simp add: proposer_new_def ballot_giver_new_def)

lemma start_preparing_owns:
  assumes "proposer_owns a s" "ballot_proposer_id b = a"
    and "proposer_try_to_start_preparing_instance now s i b = (s', out)"
  shows "proposer_owns a s' \<and> (\<forall>pr. out = Some pr \<longrightarrow> ballot_proposer_id (prep_ballot pr) = a)"
proof -
  have "proposer_wf s'" using start_preparing_wf [of s now i b] assms(1,3) by (simp add: proposer_owns_def)
  with assms show ?thesis
    by (auto simp: proposer_owns_def proposer_try_to_start_preparing_instance_def proposer_instance_info_new_def
        proposer_common_info_new_def proposer_next_instance_def Let_def split: if_splits)
qed

lemma receive_promise_owns:
  assumes "proposer_owns a s" "proposer_receive_promise s ack = Some (s', r)"
  shows "proposer_owns a s'"
proof -
  have wf: "proposer_wf s'" using receive_promise_wf [OF _ assms(2)] assms(1) by (simp add: proposer_owns_def)
  from assms(2) show ?thesis
  proof (cases rule: receive_promise_cases)
    case (counted x q)
    then show ?thesis using assms(1) wf owned_get [OF _ counted(1)] by (auto simp: proposer_owns_def)
  qed (use assms(1) in simp)
qed

lemma try_accept_owns:
  assumes "proposer_owns a s" "proposer_try_accept cfg now s = Some (s', out)"
  shows "proposer_owns a s' \<and> (\<forall>acc. out = Some acc \<longrightarrow> ballot_proposer_id (acc_ballot acc) = a)"
proof -
  have wf: "proposer_wf s'" using try_accept_wf [OF _ assms(2)] assms(1) by (simp add: proposer_owns_def)
  have t: "table_wf (pr_acceptors s) (pr_prepare_phase_instances s)" and m: "vpm_wf (pr_value_proposal_manager s)"
    using assms(1) by (simp_all add: proposer_owns_def proposer_wf_def)
  have det: "pr_id s1 = pr_id s \<and> pr_ballot_giver s1 = pr_ballot_giver s"
    if "proposer_try_determine_value_to_propose cfg now s x = Some (s1, y, r)" for x s1 y r
    using that by (cases rule: determine_value_cases) auto
  from assms(2) show ?thesis
  proof (cases rule: try_accept_cases)
    case (no_value x x')
    then show ?thesis using assms(1) wf determine_value_wf [OF m no_value(2)] det [OF no_value(2)]
      by (simp add: proposer_owns_def)
  next
    case (proposed x p1 x1 v)
    have "ballot_proposer_id (pci_ballot (spi_common_info x)) = a"
      using get_min_instance_to_begin_accept_phase_Some [OF t proposed(1)] assms(1) owned_get
      by (auto simp: proposer_owns_def)
    then show ?thesis using proposed assms(1) wf determine_value_wf [OF m proposed(2)] det [OF proposed(2)]
      by (simp add: proposer_owns_def)
  qed (use assms(1) in simp)
qed

lemma trim_keeps_giver [simp]:
  "pr_ballot_giver (proposer_receive_trim cfg s t) = pr_ballot_giver s" "pr_id (proposer_receive_trim cfg s t) = pr_id s"
  by (simp_all add: proposer_receive_trim_def Let_def split_beta)

lemma receive_trim_owns: "proposer_owns a s \<Longrightarrow> proposer_owns a (proposer_receive_trim cfg s t)"
  using receive_trim_fields [of s cfg t] by (auto simp: proposer_owns_def intro: owned_subset)

lemma receive_chosen_keeps_giver:
  assumes "proposer_receive_chosen cfg s c = Some (s', r)"
  shows "pr_ballot_giver s' = pr_ballot_giver s \<and> pr_id s' = pr_id s"
  using assms
  by (auto simp: proposer_receive_chosen_def set_instance_chosen_def Let_def split: if_splits option.splits prod.splits bool.splits)

lemma receive_chosen_owns:
  assumes "proposer_owns a s" "proposer_receive_chosen cfg s c = Some (s', r)"
  shows "proposer_owns a s'"
proof (cases "proposer_is_instance_chosen s (cho_iid c)")
  case True
  with assms show ?thesis by (simp add: proposer_receive_chosen_def)
next
  case False
  have "proposer_wf s" using assms(1) by (simp add: proposer_owns_def)
  from receive_chosen_new [OF this False assms(2)] obtain s1 mn where s1: "proposer_wf s1"
    "pr_prepare_phase_instances s1 = AList.delete (cho_iid c) (pr_prepare_phase_instances s)"
    "pr_accept_phase_instances s1 = AList.delete (cho_iid c) (pr_accept_phase_instances s)"
    and s': "s' = (if mn \<ge> cho_iid c then proposer_receive_trim cfg s1 \<lparr>trim_iid = cho_iid c\<rparr> else s1)" by metis
  have "pr_id s1 = a \<and> bg_proposer_id (pr_ballot_giver s1) = a"
    using receive_chosen_keeps_giver [OF assms(2)] assms(1) unfolding s' by (auto simp: proposer_owns_def split: if_splits)
  with s1 assms(1) have "proposer_owns a s1" by (simp add: proposer_owns_def)
  then show ?thesis unfolding s' by (simp add: receive_trim_owns)
qed

lemma receive_accepted_owns:
  assumes "proposer_owns a s" "proposer_receive_accepted cfg s ack = Some (s', out)"
  shows "proposer_owns a s'"
proof -
  have wf: "proposer_wf s'" using receive_accepted_wf [OF _ assms(2)] assms(1) by (simp add: proposer_owns_def)
  from assms(2) show ?thesis
  proof (cases rule: receive_accepted_cases)
    case (counted x q p1)
    have t: "table_wf (pr_acceptors s) (pr_accept_phase_instances s)" and v: "has_values (pr_accept_phase_instances s)"
      using assms(1) by (simp_all add: proposer_owns_def proposer_wf_def)
    have "proposer_owns a p1"
      using assms(1) owned_get [OF _ counted(1)] table_wf_get [OF t counted(1)] has_values_get [OF v counted(1)]
        quorum_add_keeps [OF _ counted(4)]
      by (auto simp: counted(5) proposer_owns_def proposer_wf_def table_wf_update has_values_update)
    with counted(6) receive_chosen_owns show ?thesis by blast
  qed (use assms(1) in simp)
qed

lemma preempt_prepare_owns:
  assumes "proposer_owns a s" "preempt_prepare_phase now draws s pre = Some (s', out)"
  shows "proposer_owns a s' \<and> (\<forall>pr. out = Some pr \<longrightarrow> ballot_proposer_id (prep_ballot pr) = a)"
proof -
  have wf: "proposer_wf s'" using preempt_prepare_phase_wf [OF _ assms(2)] assms(1) by (simp add: proposer_owns_def)
  have "ballot_proposer_id (pci_ballot (spi_common_info y)) = a"
    if "proposer_update_instance_info_from_preemption now draws (pr_ballot_giver s) x pre = Some y" for x y
    using update_from_preemption_fields [OF that] assms(1) ballot_giver_next_own by (auto simp: proposer_owns_def)
  with assms wf show ?thesis
    by (auto simp: preempt_prepare_phase_def proposer_owns_def get_prepare_from_instance_info_def
        split: option.splits if_splits)
qed

lemma preempt_accept_owns:
  assumes "proposer_owns a s" "preempt_accept_phase now draws s pre = Some (s', out)"
  shows "proposer_owns a s' \<and> (\<forall>pr. out = Some pr \<longrightarrow> ballot_proposer_id (prep_ballot pr) = a)"
proof -
  have wf: "proposer_wf s'" using preempt_accept_phase_wf [OF _ assms(2)] assms(1) by (simp add: proposer_owns_def)
  from assms(2) show ?thesis
  proof (cases rule: preempt_accept_phase_cases)
    case (moved x v y)
    have "ballot_proposer_id (pci_ballot (spi_common_info y)) = a"
      using update_from_preemption_fields [OF moved(4)] assms(1) ballot_giver_next_own by (auto simp: proposer_owns_def)
    with moved(5,6) wf assms(1) show ?thesis by (auto simp: proposer_owns_def get_prepare_from_instance_info_def)
  qed (use assms(1) in simp)
qed

lemma receive_preempted_owns:
  assumes "proposer_owns a s" "proposer_receive_preempted now draws draws' s pre = Some (s', out)"
  shows "proposer_owns a s' \<and> (\<forall>pr. out = Some pr \<longrightarrow> ballot_proposer_id (prep_ballot pr) = a)"
proof (cases "preempt_prepare_phase now draws s pre")
  case (Some r)
  obtain s1 out1 where r: "r = (s1, out1)" by (cases r)
  note 1 = preempt_prepare_owns [OF assms(1) Some [unfolded r]]
  note 2 = preempt_accept_owns [OF conjunct1 [OF 1], of now draws' pre]
  from assms 1 2 Some r show ?thesis
    by (fastforce simp: proposer_receive_preempted_def split: if_splits option.splits)
qed (use assms in \<open>auto simp: proposer_receive_preempted_def split: if_splits\<close>)

lemma next_timedout_owned:
  assumes "owned a t" "next_timedout cfg (drop k t) j now = (k', Some x)"
  shows "ballot_proposer_id (pci_ballot (spi_common_info x)) = a"
  using next_timedout_Some [OF assms(2)] assms(1) by (fastforce simp: owned_def dest: in_set_dropD)

lemma timeout_prepare_owns:
  assumes "proposer_owns a s" "timeout_iterator_prepare cfg iter s = (iter', s', out)"
  shows "proposer_owns a s' \<and> (\<forall>pr. out = Some pr \<longrightarrow> ballot_proposer_id (prep_ballot pr) = a)"
proof -
  have wf: "proposer_wf s'" using timeout_prepare_wf [OF _ assms(2)] assms(1) by (simp add: proposer_owns_def)
  have own: "owned a (pr_prepare_phase_instances s)" using assms(1) by (simp add: proposer_owns_def)
  from assms wf show ?thesis
    by (auto simp: timeout_iterator_prepare_def proposer_owns_def get_prepare_from_instance_info_def
        split: prod.splits option.splits dest: next_timedout_owned [OF own])
qed

lemma timeout_accept_owns:
  assumes "proposer_owns a s" "timeout_iterator_accept cfg now iter s = Some (iter', s', out)"
  shows "proposer_owns a s' \<and> (\<forall>acc. out = Some acc \<longrightarrow> ballot_proposer_id (acc_ballot acc) = a)"
proof -
  have wf: "proposer_wf s'" using timeout_accept_wf [OF _ assms(2)] assms(1) by (simp add: proposer_owns_def)
  have own: "owned a (pr_accept_phase_instances s)" using assms(1) by (simp add: proposer_owns_def)
  from assms wf show ?thesis
    by (auto simp: timeout_iterator_accept_def proposer_owns_def proposer_instance_info_to_accept_def
        split: prod.splits option.splits dest: next_timedout_owned [OF own])
qed

lemma set_current_instance_owns:
  assumes "proposer_owns a s" "proposer_set_current_instance cfg s i = Some s'"
  shows "proposer_owns a s'"
proof -
  have "proposer_owns a (s\<lparr>pr_next_prepare_instance := i\<rparr>)"
    using assms(1) by (simp add: proposer_owns_def proposer_wf_def)
  with assms(2) receive_trim_owns show ?thesis
    by (auto simp: proposer_set_current_instance_def Let_def split: option.splits if_splits)
qed

lemma proposer_state_owns: "proposer_owns a s \<Longrightarrow> proposer_owns a (proposer_receive_proposer_state cfg s st)"
  using proposer_state_wf [of s cfg st] receive_trim_owns [of a s cfg]
  by (auto simp: proposer_receive_proposer_state_def proposer_owns_def Let_def)

lemma add_value_owns: "proposer_owns a s \<Longrightarrow> proposer_add_paxos_value_to_queue s v = Some s' \<Longrightarrow> proposer_owns a s'"
  using add_value_wf [of s v s']
  by (auto simp: proposer_add_paxos_value_to_queue_def proposer_owns_def split: option.splits)

text \<open>The same for the process \<open>p\<close> (a fake leader if \<open>f\<close>) and for the messages that it sends.\<close>

definition process_owns :: "u32 \<Rightarrow> bool \<Rightarrow> 'a evproposer \<Rightarrow> bool" where
  "process_owns a f p \<longleftrightarrow> evp_id p = a \<and> evp_fake_leader p = f \<and> proposer_owns a (evp_state p)
     \<and> (if f then evp_retries p = [] else bg_proposer_id (rra_ballot_giver (evp_round_robin_allocator p)) = a)
     \<and> (\<forall>(pr, t) \<in> set (evp_retries p). ballot_proposer_id (prep_ballot pr) = a)"

definition own_message :: "u32 \<Rightarrow> 'a peer \<times> standard_paxos_message \<Rightarrow> bool" where
  "own_message a m =
     (case snd m of
        PAXOS_PREPARE pr \<Rightarrow> ballot_proposer_id (prep_ballot pr) = a
      | PAXOS_ACCEPT acc \<Rightarrow> ballot_proposer_id (acc_ballot acc) = a
      | PAXOS_PROPOSER_STATE st \<Rightarrow> ps_proposer_id st = a
      | _ \<Rightarrow> False)"

definition keeps_own :: "u32 \<Rightarrow> bool \<Rightarrow> ('a evproposer \<times> ('a, standard_paxos_message) sends) option \<Rightarrow> bool" where
  "keeps_own a f r \<longleftrightarrow> (\<forall>p out. r = Some (p, out) \<longrightarrow> process_owns a f p \<and> (\<forall>m \<in> set out. own_message a m))"

lemma keeps_own_simps [simp]:
  "keeps_own a f None"
  "keeps_own a f (Some (p, out)) \<longleftrightarrow> process_owns a f p \<and> (\<forall>m \<in> set out. own_message a m)"
  by (simp_all add: keeps_own_def)

lemma own_to_all [simp]:
  "(\<forall>m \<in> set (to_all qs msg). own_message a m) \<longleftrightarrow> qs = [] \<or> own_message a (undefined, msg)"
  by (auto simp: own_message_def)

lemma process_owns_state:
  "process_owns a f p \<Longrightarrow> proposer_owns a s \<Longrightarrow> process_owns a f (p\<lparr>evp_state := s\<rparr>)"
  "process_owns a f p \<Longrightarrow> proposer_owns a s \<Longrightarrow> process_owns a f (p\<lparr>evp_state := s, evp_peers := ps\<rparr>)"
  "process_owns a f p \<Longrightarrow> process_owns a f (p\<lparr>evp_peers := ps\<rparr>)"
  "process_owns a f p \<Longrightarrow> process_owns a f (p\<lparr>evp_backoff_manager := m\<rparr>)"
  "process_owns a f p \<Longrightarrow> process_owns a f (p\<lparr>evp_preexec_window := w\<rparr>)"
  "process_owns a f p \<Longrightarrow> proposer_owns a s \<Longrightarrow> process_owns a f (p\<lparr>evp_state := s, evp_backoff_manager := m\<rparr>)"
  "process_owns a f p \<Longrightarrow> proposer_owns a s \<Longrightarrow>
     process_owns a f (p\<lparr>evp_preexec_window := w, evp_state := s, evp_backoff_manager := m\<rparr>)"
  by (simp_all add: process_owns_def)

lemma process_owns_retry:
  "process_owns a False p \<Longrightarrow> proposer_owns a s \<Longrightarrow> ballot_proposer_id (prep_ballot pr) = a \<Longrightarrow>
     process_owns a False (p\<lparr>evp_state := s, evp_backoff_manager := m, evp_retries := evp_retries p @ [(pr, t)]\<rparr>)"
  by (auto simp: process_owns_def)

lemma process_owns_timers [simp]:
  "process_owns a f (p\<lparr>evp_timeout_ev := b\<rparr>) = process_owns a f p"
  "process_owns a f (p\<lparr>evp_acceptor_timeout_check_event := b\<rparr>) = process_owns a f p"
  "process_owns a f (p\<lparr>evp_random_seed_event := b\<rparr>) = process_owns a f p"
  "process_owns a f (p\<lparr>evp_proposer_state_event := b\<rparr>) = process_owns a f p"
  "process_owns a f (p\<lparr>evp_try_accept_event := b\<rparr>) = process_owns a f p"
  "process_owns a f (p\<lparr>evp_preexec_once := b\<rparr>) = process_owns a f p"
  by (simp_all add: process_owns_def)

lemma process_owns_proposer: "process_owns a f p \<Longrightarrow> proposer_owns a (evp_state p)"
  by (simp add: process_owns_def)

lemma loop_keeps_own:
  assumes "send_loop cond body n s = Some (n', s', out)" "process_owns a f (fst s)"
    and "\<And>n s n' s' out. process_owns a f (fst s) \<Longrightarrow> body n s = Some (n', s', out) \<Longrightarrow>
      process_owns a f (fst s') \<and> (\<forall>m \<in> set out. own_message a m)"
  shows "process_owns a f (fst s') \<and> (\<forall>m \<in> set out. own_message a m)"
  using send_loop_invariant [OF assms(1), where I = "\<lambda>s. process_owns a f (fst s)" and Q = "own_message a"] assms(2,3) by blast

lemma try_accept_round_keeps:
  assumes "process_owns a f (fst s)" "try_accept_round cfg env n s = Some (n', s', out)"
  shows "process_owns a f (fst s') \<and> (\<forall>m \<in> set out. own_message a m)"
proof -
  obtain p go where s: "s = (p, go)" by fastforce
  have "proposer_owns a (evp_state p)" using assms(1) by (simp add: s process_owns_def)
  note own = try_accept_owns [OF this]
  show ?thesis using assms
    by (auto simp: try_accept_round_def s own_message_def process_owns_state dest!: own split: prod.splits option.splits)
qed

lemma try_accept_keeps:
  assumes "process_owns a f p" "try_accept cfg env n p = Some (n', p', out)"
  shows "process_owns a f p' \<and> (\<forall>m \<in> set out. own_message a m)"
proof -
  from assms(2) obtain b where loop: "send_loop snd (try_accept_round cfg env) n (p, True) = Some (n', (p', b), out)"
    by (auto simp: try_accept_def)
  have "process_owns a f (fst (p', b)) \<and> (\<forall>m \<in> set out. own_message a m)"
    by (rule loop_keeps_own [OF loop]) (use assms(1) in simp, rule try_accept_round_keeps)
  then show ?thesis by simp
qed

lemma fake_leader_round_keeps:
  assumes "process_owns a f (fst s)" "fake_leader_round cfg env n s = Some (n', s', out)"
  shows "process_owns a f (fst s') \<and> (\<forall>m \<in> set out. own_message a m)"
proof -
  obtain p count where s: "s = (p, count)" by fastforce
  obtain st pr where start: "proposer_try_to_start_preparing_instance (env_now (env n)) (evp_state p)
      (proposer_get_current_instance (evp_state p)) (Ballot 1 (evp_id p)) = (st, pr)" by fastforce
  have own: "proposer_owns a st"
    using start_preparing_owns [OF _ _ start] assms(1) by (simp add: s process_owns_def)
  then have p: "process_owns a f (p\<lparr>evp_state := st\<rparr>)" using assms(1) by (simp add: s process_owns_state)
  show ?thesis
  proof (cases pr)
    case None
    with assms own show ?thesis by (auto simp: fake_leader_round_def s start process_owns_state)
  next
    case (Some r)
    with assms(2) obtain p1 where "try_accept cfg env (n + 1) (p\<lparr>evp_state := st\<rparr>) = Some (n', p1, out)"
      and s': "s' = (p1\<lparr>evp_state := proposer_next_instance (evp_state p1)\<rparr>, count - 1)"
      by (auto simp: fake_leader_round_def s start)
    from try_accept_keeps [OF p this(1)] show ?thesis
      using process_owns_proposer [of a f p1] by (simp add: s' process_owns_state)
  qed
qed

lemma fake_leader_preexecute_keeps:
  assumes "process_owns a f p" "fake_leader_preexecute cfg env n p = Some (n', p', out)"
  shows "process_owns a f p' \<and> (\<forall>m \<in> set out. own_message a m)"
proof -
  from assms(2) obtain b where loop: "send_loop (\<lambda>(p, count). count > 0) (fake_leader_round cfg env) n (p, instances_to_open p) = Some (n', (p', b), out)"
    by (auto simp: fake_leader_preexecute_def)
  have "process_owns a f (fst (p', b)) \<and> (\<forall>m \<in> set out. own_message a m)"
    by (rule loop_keeps_own [OF loop]) (use assms(1) in simp, rule fake_leader_round_keeps)
  then show ?thesis by simp
qed

lemma proposer_preexecute_round_keeps:
  assumes "process_owns a False (fst s)" "proposer_preexecute_round cfg env n s = Some (n', s', out)"
  shows "process_owns a False (fst s') \<and> (\<forall>m \<in> set out. own_message a m)"
proof -
  obtain p count where s: "s = (p, count)" by fastforce
  let ?i = "proposer_get_current_instance (evp_state p)"
  from assms(2) obtain b where b: "round_robin_allocator_get_ballot (env_rand (env n)) (evp_round_robin_allocator p) ?i = Some b"
    by (cases "round_robin_allocator_get_ballot (env_rand (env n)) (evp_round_robin_allocator p) ?i")
      (simp_all add: proposer_preexecute_round_def s)
  then have "ballot_proposer_id b = a" using assms(1)
    by (auto simp: s process_owns_def round_robin_allocator_get_ballot_def dest!: ballot_giver_next_own split: option.splits bool.splits)
  obtain st pr where start: "proposer_try_to_start_preparing_instance (env_now (env n)) (evp_state p) ?i b = (st, pr)" by fastforce
  have own: "proposer_owns a st \<and> (\<forall>r. pr = Some r \<longrightarrow> ballot_proposer_id (prep_ballot r) = a)"
    using start_preparing_owns [OF _ _ start] assms(1) \<open>ballot_proposer_id b = a\<close> by (simp add: s process_owns_def)
  then have "proposer_owns a (proposer_next_instance st)" by simp
  with own assms show ?thesis
    by (auto simp: proposer_preexecute_round_def s b start process_owns_state process_owns_retry own_message_def
        split: option.splits bool.splits prod.splits)
qed

lemma proposer_preexecute_keeps:
  assumes "process_owns a False p" "proposer_preexecute cfg env n p = Some (n', p', out)"
  shows "process_owns a False p' \<and> (\<forall>m \<in> set out. own_message a m)"
proof -
  from assms(2) obtain b where loop: "send_loop (\<lambda>(p, count). count > 0) (proposer_preexecute_round cfg env) n (p, instances_to_open p) = Some (n', (p', b), out)"
    by (auto simp: proposer_preexecute_def)
  have "process_owns a False (fst (p', b)) \<and> (\<forall>m \<in> set out. own_message a m)"
    by (rule loop_keeps_own [OF loop]) (use assms(1) in simp, rule proposer_preexecute_round_keeps)
  then show ?thesis by simp
qed

lemma keeps_own_snd:
  "(\<And>n p out. r = Some (n, p, out) \<Longrightarrow> process_owns a f p \<and> (\<forall>m \<in> set out. own_message a m)) \<Longrightarrow>
     keeps_own a f (map_option snd r)"
  by (auto simp: keeps_own_def)

lemma loops_keep_own:
  "process_owns a f p \<Longrightarrow> keeps_own a f (map_option snd (try_accept cfg env n p))"
  "process_owns a f p \<Longrightarrow> keeps_own a f (map_option snd (fake_leader_preexecute cfg env n p))"
  "process_owns a False p \<Longrightarrow> keeps_own a False (map_option snd (proposer_preexecute cfg env n p))"
  by (rule keeps_own_snd, erule (1) try_accept_keeps fake_leader_preexecute_keeps proposer_preexecute_keeps)+

lemma process_owns_flag: "process_owns a f p \<Longrightarrow> evp_fake_leader p = f"
  by (simp add: process_owns_def)

lemma preexecute_keeps: "process_owns a f p \<Longrightarrow> keeps_own a f (map_option snd (preexecute cfg env n p))"
  using process_owns_flag [of a f p] by (auto simp: preexecute_def intro: loops_keep_own)

lemma handle_promise_keeps: "process_owns a f p \<Longrightarrow> keeps_own a f (evproposer_handle_promise cfg env p q msg)"
  using process_owns_proposer [of a f p]
  by (auto simp: evproposer_handle_promise_def intro!: process_owns_state loops_keep_own
      split: standard_paxos_message.split option.split bool.split dest: receive_promise_owns)

lemma handle_accepted_keeps: "process_owns a f p \<Longrightarrow> keeps_own a f (evproposer_handle_accepted cfg env p q msg)"
  using process_owns_proposer [of a f p]
  by (auto simp: evproposer_handle_accepted_def intro!: process_owns_state preexecute_keeps
      split: standard_paxos_message.split option.split dest: receive_accepted_owns)

lemma handle_chosen_keeps: "process_owns a f p \<Longrightarrow> keeps_own a f (evproposer_handle_chosen cfg env p q msg)"
  using process_owns_proposer [of a f p]
  by (auto simp: evproposer_handle_chosen_def intro!: process_owns_state preexecute_keeps
      split: standard_paxos_message.split option.split bool.split dest: receive_chosen_owns)

lemma handle_client_value_keeps: "process_owns a f p \<Longrightarrow> keeps_own a f (evproposer_handle_client_value cfg env p q msg)"
  using process_owns_proposer [of a f p]
  by (auto simp: evproposer_handle_client_value_def intro!: process_owns_state loops_keep_own
      split: standard_paxos_message.split option.split dest: add_value_owns)

lemma handle_preempted_keeps:
  assumes "process_owns a False p"
  shows "keeps_own a False (evproposer_handle_preempted cfg env p q msg)"
proof -
  note own = receive_preempted_owns [OF process_owns_proposer [OF assms]]
  show ?thesis using assms
    by (cases msg) (auto simp: evproposer_handle_preempted_def keeps_own_def split: option.splits if_splits
        dest!: own intro: process_owns_state process_owns_retry)
qed

lemma handle_trim_keeps: "process_owns a f p \<Longrightarrow> keeps_own a f (evproposer_handle_trim cfg env p q msg)"
  using process_owns_proposer [of a f p] process_owns_flag [of a f p]
  by (cases msg) (auto simp: evproposer_handle_trim_def Let_def intro!: loops_keep_own process_owns_state receive_trim_owns)

lemma handle_acceptor_state_keeps:
  "process_owns a f p \<Longrightarrow> keeps_own a f (evproposer_handle_acceptor_state cfg env p q msg)"
  using process_owns_proposer [of a f p] process_owns_flag [of a f p]
  by (cases msg) (auto simp: evproposer_handle_acceptor_state_def Let_def proposer_receive_acceptor_state_def
      intro!: loops_keep_own process_owns_state receive_trim_owns)

lemma handle_proposer_state_keeps:
  "process_owns a False p \<Longrightarrow> keeps_own a False (evproposer_handle_proposer_state cfg env p q msg)"
  using process_owns_proposer [of a False p]
  by (cases msg) (auto simp: evproposer_handle_proposer_state_def intro!: loops_keep_own process_owns_state proposer_state_owns)

lemma try_higher_ballot_keeps:
  assumes "process_owns a f p" "r \<in> set (evp_retries p)"
  shows "keeps_own a f (evproposer_try_higher_ballot cfg env p r)"
proof -
  have f: "\<not> f" and r: "ballot_proposer_id (prep_ballot (fst r)) = a"
    using assms by (auto simp: process_owns_def split: if_splits)
  have p: "process_owns a f (p\<lparr>evp_retries := remove1 r (evp_retries p)\<rparr>)"
    using assms(1) set_remove1_subset [of r "evp_retries p"] by (auto simp: process_owns_def)
  then have q: "process_owns a f (p\<lparr>evp_retries := remove1 r (evp_retries p), evp_peers := ps\<rparr>)"
    "process_owns a f (p\<lparr>evp_retries := remove1 r (evp_retries p), evp_backoff_manager := m\<rparr>)" for ps m
    using f by (simp_all add: process_owns_def)
  show ?thesis
  proof (cases "proposer_is_instance_pending (evp_state p) (prep_iid (fst r))")
    case True
    with q(1) r show ?thesis
      by (auto simp: evproposer_try_higher_ballot_def Let_def keeps_own_def own_message_def)
  next
    case False
    with q(2) f show ?thesis by (simp add: evproposer_try_higher_ballot_def Let_def loops_keep_own(3))
  qed
qed

lemma timed_out_rounds_keep:
  assumes "process_owns a f (fst s)"
  shows "timed_out_prepare_round cfg env n s = Some (n', s', out) \<Longrightarrow>
      process_owns a f (fst s') \<and> (\<forall>m \<in> set out. own_message a m)"
    and "timed_out_accept_round cfg env n s = Some (n', s', out) \<Longrightarrow>
      process_owns a f (fst s') \<and> (\<forall>m \<in> set out. own_message a m)"
proof -
  obtain p iter go where s: "s = (p, iter, go)" by (cases s)
  have p: "process_owns a f p" and st: "proposer_owns a (evp_state p)" using assms by (simp_all add: s process_owns_def)
  show "timed_out_prepare_round cfg env n s = Some (n', s', out) \<Longrightarrow>
      process_owns a f (fst s') \<and> (\<forall>m \<in> set out. own_message a m)"
    using p by (auto simp: timed_out_prepare_round_def s own_message_def process_owns_state
        dest!: timeout_prepare_owns [OF st] split: prod.splits option.splits)
  show "timed_out_accept_round cfg env n s = Some (n', s', out) \<Longrightarrow>
      process_owns a f (fst s') \<and> (\<forall>m \<in> set out. own_message a m)"
    using p by (auto simp: timed_out_accept_round_def s own_message_def process_owns_state
        dest!: timeout_accept_owns [OF st] split: prod.splits option.splits)
qed

lemma check_timeouts_keeps:
  assumes "process_owns a f p"
  shows "keeps_own a f (evproposer_check_timeouts cfg env p)"
  unfolding keeps_own_def
proof (intro allI impI)
  fix p' out
  assume "evproposer_check_timeouts cfg env p = Some (p', out)"
  then obtain n p1 iter b out1 n2 p2 iter2 b2 out2
    where 1: "send_loop (\<lambda>(_, _, more). more) (timed_out_prepare_round cfg env) 1
        (p, proposer_timeout_iterator (env_now (env 0)), True) = Some (n, (p1, iter, b), out1)"
      and 2: "send_loop (\<lambda>(_, _, more). more) (timed_out_accept_round cfg env) n (p1, iter, True) = Some (n2, (p2, iter2, b2), out2)"
      and p': "p' = p2\<lparr>evp_timeout_ev := True\<rparr>" "out = out1 @ out2"
    by (auto simp: evproposer_check_timeouts_def split: option.splits)
  have p1: "process_owns a f (fst (p1, iter, b)) \<and> (\<forall>m \<in> set out1. own_message a m)"
    by (rule loop_keeps_own [OF 1]) (use assms in simp, rule timed_out_rounds_keep(1))
  have "process_owns a f (fst (p2, iter2, b2)) \<and> (\<forall>m \<in> set out2. own_message a m)"
    by (rule loop_keeps_own [OF 2]) (use p1 in simp, rule timed_out_rounds_keep(2))
  with p1 show "process_owns a f p' \<and> (\<forall>m \<in> set out. own_message a m)" by (auto simp: p')
qed

lemma try_accept_event_keeps:
  assumes "process_owns a f p"
  shows "keeps_own a f (try_accept_event cfg env p)"
proof -
  have "try_accept_event cfg env p =
      map_option (\<lambda>(n, p, out). (p\<lparr>evp_try_accept_event := True\<rparr>, out)) (try_accept cfg env 0 p)"
    by (cases "send_loop snd (try_accept_round cfg env) 0 (p, True)") (auto simp: try_accept_event_def try_accept_def)
  with try_accept_keeps [OF assms] show ?thesis by (auto simp: keeps_own_def)
qed

section \<open>Runs of a process\<close>

text \<open>
  A step of a process is one callback of libevent: a message, a timer that is pending (libevent clears it before the call)
  or a retry, or a call of \<open>evproposer_set_instance_id\<close>.
\<close>

inductive evproposer_step ::
    "ev_config \<Rightarrow> 'a evproposer \<Rightarrow> ('a, standard_paxos_message) sends \<Rightarrow> 'a evproposer \<Rightarrow> bool" for cfg where
  message: "\<not> evp_fake_leader p \<Longrightarrow> dispatch_message (the (evproposer_subscriptions cfg env)) q (Some (p, [])) msg = Some (p', out)
    \<Longrightarrow> evproposer_step cfg p out p'"
| fake_leader_message: "evp_fake_leader p \<Longrightarrow>
    dispatch_message (the (ev_fake_leader_subscriptions cfg env)) q (Some (p, [])) msg = Some (p', out)
    \<Longrightarrow> evproposer_step cfg p out p'"
| retry: "r \<in> set (evp_retries p) \<Longrightarrow> evproposer_try_higher_ballot cfg env p r = Some (p', out) \<Longrightarrow> evproposer_step cfg p out p'"
| timeouts: "evp_timeout_ev p \<Longrightarrow> evproposer_check_timeouts cfg env (p\<lparr>evp_timeout_ev := False\<rparr>) = Some (p', out)
    \<Longrightarrow> evproposer_step cfg p out p'"
| acceptor_timeouts: "evp_acceptor_timeout_check_event p \<Longrightarrow>
    evproposer_step cfg p [] (ev_proposer_check_acceptor_timeouts cfg env (p\<lparr>evp_acceptor_timeout_check_event := False\<rparr>))"
| random_seed: "evp_random_seed_event p \<Longrightarrow>
    evproposer_step cfg p [] (evproposer_gen_random_seed (p\<lparr>evp_random_seed_event := False\<rparr>))"
| state: "evp_proposer_state_event p \<Longrightarrow> evproposer_proposer_state_event (p\<lparr>evp_proposer_state_event := False\<rparr>) = (p', out)
    \<Longrightarrow> evproposer_step cfg p out p'"
| accepts: "evp_try_accept_event p \<Longrightarrow> try_accept_event cfg env (p\<lparr>evp_try_accept_event := False\<rparr>) = Some (p', out)
    \<Longrightarrow> evproposer_step cfg p out p'"
| first: "evp_preexec_once p \<Longrightarrow> \<not> evp_fake_leader p \<Longrightarrow>
    evproposer_preexec_once cfg env (p\<lparr>evp_preexec_once := False\<rparr>) = Some (p', out) \<Longrightarrow> evproposer_step cfg p out p'"
| fake_leader_first: "evp_preexec_once p \<Longrightarrow> evp_fake_leader p \<Longrightarrow>
    ev_fake_leader_preexec_once cfg env (p\<lparr>evp_preexec_once := False\<rparr>) = Some (p', out) \<Longrightarrow> evproposer_step cfg p out p'"
| set_instance: "evproposer_set_instance_id cfg p i = Some p' \<Longrightarrow> evproposer_step cfg p [] p'"

inductive evproposer_reachable :: "ev_config \<Rightarrow> int \<Rightarrow> 'a evproposer \<Rightarrow> bool" for cfg i where
  init: "evproposer_init_internal cfg draws junk heap i c peers manager = Some p \<Longrightarrow> evproposer_reachable cfg i p"
| fake_leader_init: "ev_fake_leader_init_internal cfg junk i c peers = Some p \<Longrightarrow> evproposer_reachable cfg i p"
| step: "evproposer_reachable cfg i p \<Longrightarrow> evproposer_step cfg p out p' \<Longrightarrow> evproposer_reachable cfg i p'"

lemma callback_keeps:
  assumes "keeps_own a f st" "\<And>p. process_owns a f p \<Longrightarrow> keeps_own a f (h p q msg)"
  shows "keeps_own a f (callback h st q msg)"
  using assms by (cases st) (fastforce simp: keeps_own_def)+

lemma message_keeps:
  assumes "process_owns a f p"
  shows "\<not> f \<Longrightarrow> keeps_own a f (dispatch_message (the (evproposer_subscriptions cfg env)) q (Some (p, [])) msg)"
    and "keeps_own a f (dispatch_message (the (ev_fake_leader_subscriptions cfg env)) q (Some (p, [])) msg)"
  using assms
  by (cases msg; auto simp: dispatch_message_def evproposer_subscriptions_def ev_fake_leader_subscriptions_def subscribe_all_eq
      intro!: callback_keeps handle_promise_keeps handle_accepted_keeps handle_chosen_keeps handle_client_value_keeps
        handle_preempted_keeps handle_trim_keeps handle_acceptor_state_keeps handle_proposer_state_keeps
      simp del: callback_simps)+

lemma evproposer_step_keeps:
  assumes "evproposer_step cfg p out p'" "process_owns a f p"
  shows "process_owns a f p' \<and> (\<forall>m \<in> set out. own_message a m)"
proof -
  have flag: "evp_fake_leader p = f" and own: "proposer_owns a (evp_state p)" and f: "evp_id p = a"
    using assms(2) by (simp_all add: process_owns_def)
  from own have a: "pr_id (evp_state p) = a" by (simp add: proposer_owns_def)
  have "keeps_own a f (Some (p', out))"
    using assms(1)
  proof (cases rule: evproposer_step.cases)
    case (message env q msg)
    then show ?thesis using message_keeps(1) [OF assms(2)] flag by metis
  next
    case (fake_leader_message env q msg)
    then show ?thesis using message_keeps(2) [OF assms(2)] by metis
  next
    case (retry r env)
    then show ?thesis using try_higher_ballot_keeps [OF assms(2)] by metis
  next
    case (timeouts env)
    then show ?thesis using check_timeouts_keeps [of a f "p\<lparr>evp_timeout_ev := False\<rparr>" cfg env] assms(2) by simp
  next
    case (acceptor_timeouts env)
    then show ?thesis
      using assms(2) by (simp add: ev_proposer_check_acceptor_timeouts_def Let_def process_owns_state)
  next
    case random_seed
    then show ?thesis using assms(2) by (simp add: evproposer_gen_random_seed_def)
  next
    case state
    then show ?thesis using assms(2) a by (auto simp: evproposer_proposer_state_event_def own_message_def proposer_get_state_def)
  next
    case (accepts env)
    then show ?thesis using try_accept_event_keeps [of a f "p\<lparr>evp_try_accept_event := False\<rparr>" cfg env] assms(2) by simp
  next
    case (first env)
    then show ?thesis using loops_keep_own(3) [of a "p\<lparr>evp_preexec_once := False\<rparr>" cfg env 0] assms(2) flag
      by (auto simp: evproposer_preexec_once_def)
  next
    case (fake_leader_first env)
    then show ?thesis using loops_keep_own(2) [of a f "p\<lparr>evp_preexec_once := False\<rparr>" cfg env 0] assms(2)
      by (auto simp: ev_fake_leader_preexec_once_def)
  next
    case (set_instance i)
    then show ?thesis using assms(2) own
      by (auto simp: evproposer_set_instance_id_def dest: set_current_instance_owns [OF own] intro: process_owns_state)
  qed
  then show ?thesis by simp
qed

lemma reachable_owns: "evproposer_reachable cfg i p \<Longrightarrow> \<exists>f. process_owns (word_of_int i) f p"
proof (induction rule: evproposer_reachable.induct)
  case (init draws junk heap c peers manager p)
  then show ?case
    by (intro exI [of _ False])
      (auto simp: evproposer_init_internal_def process_owns_def round_robin_allocator_new_def ballot_giver_new_def Let_def
        split: option.splits if_splits dest: set_current_instance_owns [OF new_owns])
next
  case (fake_leader_init junk c peers p)
  then show ?case
    by (intro exI [of _ True])
      (auto simp: ev_fake_leader_init_internal_def process_owns_def split: option.splits
        dest: set_current_instance_owns [OF new_owns])
next
  case (step p out p')
  then show ?case using evproposer_step_keeps by blast
qed

definition message_ballot :: "standard_paxos_message \<Rightarrow> ballot option" where
  "message_ballot msg =
     (case msg of PAXOS_PREPARE pr \<Rightarrow> Some (prep_ballot pr) | PAXOS_ACCEPT acc \<Rightarrow> Some (acc_ballot acc) | _ \<Rightarrow> None)"

lemma own_message_ballot: "own_message a (q, msg) \<Longrightarrow> message_ballot msg = Some b \<Longrightarrow> ballot_proposer_id b = a"
  by (auto simp: own_message_def message_ballot_def split: standard_paxos_message.splits)

lemma sent_ballot_own:
  assumes "evproposer_reachable cfg i p" "evproposer_step cfg p out p'" "(q, msg) \<in> set out" "message_ballot msg = Some b"
  shows "ballot_proposer_id b = word_of_int i"
  using reachable_owns [OF assms(1)] evproposer_step_keeps [OF assms(2)] assms(3,4) own_message_ballot by blast

text \<open>
  C15: Two proposer processes never use the same ballot: whatever messages, timers, retries and random numbers they have
  seen, every ballot at which a process sends a prepare or an accept carries its own id, so that the ballots of processes
  with different ids are different.  This is what the agreement of the cluster asks of its proposers.
\<close>

theorem proposer_processes_never_share_ballots:
  assumes "evproposer_reachable cfg i p" "evproposer_step cfg p out p'" "(q, msg) \<in> set out" "message_ballot msg = Some b"
    and "evproposer_reachable cfg' j r" "evproposer_step cfg' r out' r'" "(q', msg') \<in> set out'" "message_ballot msg' = Some b'"
    and "(word_of_int i :: u32) \<noteq> word_of_int j"
  shows "ballot_proposer_id b = word_of_int i \<and> b \<noteq> b'"
  using sent_ballot_own [OF assms(1-4)] sent_ballot_own [OF assms(5-8)] assms(9) by auto

section \<open>The window of open instances\<close>

text \<open>
  An instance in the prepare phase cannot be started again; the loop then moves on by \<open>stride\<close> instances, since
  \<open>proposer_try_to_start_preparing_instance\<close> moves on too, once for each of its reasons.
\<close>

definition blocked :: "proposer \<Rightarrow> iid_t \<Rightarrow> bool" where
  "blocked s i \<longleftrightarrow> get_instance_info (pr_prepare_phase_instances s) i \<noteq> None"

definition stride :: "proposer \<Rightarrow> iid_t \<Rightarrow> nat" where
  "stride s i = 2 + of_bool (i \<le> pr_trim_instance s) + of_bool (proposer_is_instance_chosen s i)
     + of_bool (get_instance_info (pr_accept_phase_instances s) i \<noteq> None)"

definition rounds_to_free :: "proposer \<Rightarrow> nat" where
  "rounds_to_free s = (LEAST k. \<not> blocked s (((\<lambda>i. i + of_nat (stride s i)) ^^ k) (pr_next_prepare_instance s)))"

lemma stride_bounds: "0 < stride s i \<and> stride s i \<le> 5"
  by (auto simp: stride_def of_bool_def)

lemma next_keeps_blocked:
  "blocked (s\<lparr>pr_next_prepare_instance := i\<rparr>) = blocked s" "stride (s\<lparr>pr_next_prepare_instance := i\<rparr>) = stride s"
  by (simp_all add: fun_eq_iff blocked_def stride_def proposer_is_instance_chosen_def)

lemma start_blocked:
  assumes "blocked s (pr_next_prepare_instance s)"
  shows "\<exists>s'. proposer_try_to_start_preparing_instance now s (pr_next_prepare_instance s) b = (s', None)
    \<and> proposer_next_instance s' = s\<lparr>pr_next_prepare_instance :=
        pr_next_prepare_instance s + of_nat (stride s (pr_next_prepare_instance s))\<rparr>"
  using assms
  by (auto simp: proposer_try_to_start_preparing_instance_def blocked_def stride_def proposer_next_instance_def
      proposer_is_instance_chosen_def Let_def)

lemma start_free:
  assumes "\<not> blocked s i"
  shows "\<exists>s' pr. proposer_try_to_start_preparing_instance now s i b = (s', Some pr)
    \<and> proposer_prepare_count s' = proposer_prepare_count s + 1 \<and> proposer_acceptance_count s' = proposer_acceptance_count s
    \<and> prep_iid pr = i \<and> blocked s' = (\<lambda>j. blocked s j \<or> j = i)"
proof -
  have "i \<notin> fst ` set (pr_prepare_phase_instances s)"
    using assms by (simp add: blocked_def get_instance_info_def map_of_eq_None_iff)
  then have "map fst (AList.update i x (pr_prepare_phase_instances s)) = map fst (pr_prepare_phase_instances s) @ [i]" for x
    by (simp add: AList.update_keys)
  then have "length (AList.update i x (pr_prepare_phase_instances s)) = Suc (length (pr_prepare_phase_instances s))" for x
    by (metis length_append_singleton length_map)
  with assms show ?thesis
    by (simp add: proposer_try_to_start_preparing_instance_def blocked_def proposer_prepare_count_def
        proposer_acceptance_count_def proposer_next_instance_def proposer_instance_info_new_def
        proposer_common_info_new_def get_instance_info_def update_conv' fun_eq_iff Let_def)
qed

lemma rounds_to_free_decreases:
  assumes "blocked s (pr_next_prepare_instance s)" "5 * length (pr_prepare_phase_instances s) < 2 ^ 32"
  shows "rounds_to_free (s\<lparr>pr_next_prepare_instance :=
      pr_next_prepare_instance s + of_nat (stride s (pr_next_prepare_instance s))\<rparr>) < rounds_to_free s"
proof -
  let ?f = "\<lambda>i. i + of_nat (stride s i)" and ?P = "fst ` set (pr_prepare_phase_instances s)" and ?i = "pr_next_prepare_instance s"
  have "card ?P \<le> length (pr_prepare_phase_instances s)" by (metis card_length length_map list.set_map)
  with assms(2) have "5 * card ?P < 2 ^ 32" by linarith
  then obtain k where "(?f ^^ k) ?i \<notin> ?P"
    using escapes [of ?f "stride s" 5 ?P ?i] stride_bounds by auto
  then have k: "\<not> blocked s ((?f ^^ k) ?i)" by (simp add: blocked_def get_instance_info_def map_of_eq_None_iff)
  have "rounds_to_free s = Suc (LEAST m. \<not> blocked s ((?f ^^ Suc m) ?i))"
    unfolding rounds_to_free_def by (rule Least_Suc [where P = "\<lambda>k. \<not> blocked s ((?f ^^ k) ?i)", OF k]) (use assms(1) in simp)
  moreover have "rounds_to_free (s\<lparr>pr_next_prepare_instance := ?f ?i\<rparr>) = (LEAST m. \<not> blocked s ((?f ^^ Suc m) ?i))"
    unfolding rounds_to_free_def next_keeps_blocked funpow_Suc_right comp_apply by simp
  ultimately show ?thesis by simp
qed

text \<open>What the loop needs: acceptors to send to, a ballot whenever it asks for one, a backoff for the instances whose
  proposals are delayed, and a window below \<open>2\<^sup>3\<^sup>2 / 5\<close>.\<close>

definition calm :: "ev_config \<Rightarrow> (nat \<Rightarrow> surroundings) \<Rightarrow> 'a evproposer \<Rightarrow> bool" where
  "calm cfg env p \<longleftrightarrow> 1 \<le> ec_group_1 cfg \<and> pp_peers (evp_peers p) \<noteq> []
     \<and> (\<forall>n i. round_robin_allocator_get_ballot (env_rand (env n)) (evp_round_robin_allocator p) i \<noteq> None)
     \<and> (\<forall>n i. \<not> blocked (evp_state p) i \<longrightarrow>
          round_robin_allocator_should_delay_proposal (evp_round_robin_allocator p) i = Some True \<longrightarrow>
          backoff_manager_get_backoff (env_backoff (env n)) (evp_backoff_manager p) i \<noteq> None)
     \<and> 5 * evp_preexec_window p < 2 ^ 32"

definition filling :: "ev_config \<Rightarrow> (nat \<Rightarrow> surroundings) \<Rightarrow> 'a evproposer \<times> int \<Rightarrow> bool" where
  "filling cfg env s \<longleftrightarrow> calm cfg env (fst s) \<and> snd s = instances_to_open (fst s) \<and> 0 \<le> snd s"

lemma length_fold: "(\<And>x ys. length (f x ys) = length ys) \<Longrightarrow> length (fold f xs ys) = length ys"
  by (induction xs arbitrary: ys) auto

lemma length_shuffle [simp]: "length (shuffle draw off n ps) = length ps"
  by (auto simp: shuffle_def Let_def intro: length_fold)

lemma for_n_acceptor_returns:
  assumes "1 \<le> n" "pp_peers p \<noteq> []"
  shows "\<exists>p' qs. peers_for_n_acceptor draw p n = Some (p', qs) \<and> pp_peers p' \<noteq> []"
proof -
  have "\<not> min n (int (length (pp_peers p))) < 1" using assms by (cases "pp_peers p") auto
  moreover have "shuffle draw off k (pp_peers p) \<noteq> []" for off k using assms(2) by (metis length_0_conv length_shuffle)
  ultimately show ?thesis by (auto simp: peers_for_n_acceptor_def for_n_def Let_def)
qed

lemma get_backoff_other:
  assumes "backoff_manager_get_backoff draws m i = Some (m', t)" "j \<noteq> i"
  shows "backoff_manager_get_backoff draws' m' j = None \<longleftrightarrow> backoff_manager_get_backoff draws' m j = None"
  using assms by (auto simp: backoff_manager_get_backoff_def Let_def split: option.splits)

definition window_order :: "(('a evproposer \<times> int) \<times> ('a evproposer \<times> int)) set" where
  "window_order = measures [\<lambda>(p, count). nat count, \<lambda>(p, count). rounds_to_free (evp_state p)]"

lemma preexecute_round_ok:
  assumes "filling cfg env s" "snd s > 0"
  shows "\<exists>n' s' out. proposer_preexecute_round cfg env n s = Some (n', s', out) \<and> filling cfg env s' \<and> (s', s) \<in> window_order"
proof -
  obtain p count where s: "s = (p, count)" by fastforce
  let ?st = "evp_state p" and ?i = "pr_next_prepare_instance (evp_state p)" and ?a = "evp_round_robin_allocator p"
  have calm: "calm cfg env p" and count: "count = instances_to_open p" "count > 0" using assms by (simp_all add: s filling_def)
  obtain b where b: "round_robin_allocator_get_ballot (env_rand (env n)) ?a ?i = Some b"
    using calm unfolding calm_def by blast
  show ?thesis
  proof (cases "blocked ?st ?i")
    case True
    from start_blocked [OF this, of "env_now (env n)" b] obtain st'
      where start: "proposer_try_to_start_preparing_instance (env_now (env n)) ?st ?i b = (st', None)"
        and st': "proposer_next_instance st' = ?st\<lparr>pr_next_prepare_instance := ?i + of_nat (stride ?st ?i)\<rparr>" by blast
    have "5 * length (pr_prepare_phase_instances ?st) < 2 ^ 32"
      using calm count by (simp add: calm_def instances_to_open_def proposer_prepare_count_def)
    note less = rounds_to_free_decreases [OF True this]
    let ?p = "p\<lparr>evp_state := ?st\<lparr>pr_next_prepare_instance := ?i + of_nat (stride ?st ?i)\<rparr>\<rparr>"
    have "proposer_preexecute_round cfg env n s = Some (n + 1, (?p, count), [])"
      by (simp add: proposer_preexecute_round_def s proposer_get_current_instance_def b start st' Let_def)
    moreover have "filling cfg env (?p, count)"
      using calm count by (simp add: filling_def calm_def next_keeps_blocked instances_to_open_def proposer_prepare_count_def proposer_acceptance_count_def)
    moreover have "((?p, count), s) \<in> window_order" using less by (simp add: s window_order_def)
    ultimately show ?thesis by blast
  next
    case False
    from start_free [OF this, of "env_now (env n)" b] obtain st' pr
      where start: "proposer_try_to_start_preparing_instance (env_now (env n)) ?st ?i b = (st', Some pr)"
        and st': "proposer_prepare_count st' = proposer_prepare_count ?st + 1"
          "proposer_acceptance_count st' = proposer_acceptance_count ?st"
          "prep_iid pr = ?i" "blocked st' = (\<lambda>j. blocked ?st j \<or> j = ?i)" by blast
    have cnt: "proposer_prepare_count (proposer_next_instance st') = proposer_prepare_count ?st + 1"
      "proposer_acceptance_count (proposer_next_instance st') = proposer_acceptance_count ?st"
      "blocked (proposer_next_instance st') = (\<lambda>j. blocked ?st j \<or> j = ?i)"
      using st' by (simp_all add: proposer_next_instance_def proposer_prepare_count_def proposer_acceptance_count_def next_keeps_blocked)
    obtain delay where delay: "round_robin_allocator_should_delay_proposal ?a ?i = Some delay"
      using b by (auto simp: round_robin_allocator_get_ballot_def round_robin_allocator_should_delay_proposal_def split: option.splits)
    obtain m t where m: "delay \<Longrightarrow> backoff_manager_get_backoff (env_backoff (env n)) (evp_backoff_manager p) ?i = Some (m, t)"
      using calm False delay unfolding calm_def by (cases delay) fastforce+
    have m': "delay \<Longrightarrow> j \<noteq> ?i \<Longrightarrow> backoff_manager_get_backoff ds m j = None
        \<longleftrightarrow> backoff_manager_get_backoff ds (evp_backoff_manager p) j = None" for ds j
      using get_backoff_other [OF m] by blast
    obtain ps qs where ps: "peers_for_n_acceptor (env_shuffle (env n)) (evp_peers p) (ec_group_1 cfg) = Some (ps, qs)"
      "pp_peers ps \<noteq> []" using for_n_acceptor_returns calm unfolding calm_def by blast
    let ?p1 = "p\<lparr>evp_state := proposer_next_instance st', evp_backoff_manager := m, evp_retries := evp_retries p @ [(pr, t)]\<rparr>"
    let ?p2 = "p\<lparr>evp_state := proposer_next_instance st', evp_peers := ps\<rparr>"
    let ?p = "if delay then ?p1 else ?p2"
    have "proposer_preexecute_round cfg env n s
        = Some (n + 1, (?p, count - 1), if delay then [] else to_all qs (PAXOS_PREPARE pr))"
      using m ps(1) delay st'(3)
      by (cases delay) (simp_all add: proposer_preexecute_round_def s proposer_get_current_instance_def b start Let_def)
    moreover have "filling cfg env (?p, count - 1)"
      using calm count cnt m' ps(2) by (auto simp: filling_def calm_def instances_to_open_def simp del: not_None_eq)
    moreover have "((?p, count - 1), s) \<in> window_order" using count(2) by (simp add: s window_order_def)
    ultimately show ?thesis by blast
  qed
qed

interpretation window: ending_loop "\<lambda>(p, count). count > 0" "proposer_preexecute_round cfg env" "filling cfg env" window_order
  for cfg env
proof unfold_locales
  show "wf window_order" by (simp add: window_order_def)
  fix s :: "'a evproposer \<times> int" and n
  assume "filling cfg env s" "case s of (p, c) \<Rightarrow> c > 0"
  then show "\<exists>n' s' out. proposer_preexecute_round cfg env n s = Some (n', s', out) \<and> filling cfg env s' \<and> (s', s) \<in> window_order"
    by (intro preexecute_round_ok) auto
qed

text \<open>
  C18: A call of \<open>proposer_preexecute\<close> fills the window of a proposer process: the loop ends, although instances may have
  to be skipped and the instance number may wrap around, and afterwards exactly as many instances are in the two phases as
  the window allows (or more, if the window has been made smaller).  The conditions: prepares go to at least one acceptor
  and the process knows one; the window is below \<open>2\<^sup>3\<^sup>2 / 5\<close>; the allocator gives a ballot for every instance, so that
  there is a proposer to allocate to and the rejection loop over \<open>rand\<close> ends; and where the allocator delays the
  proposal of an instance that is not open, the backoff of that instance is defined, which in the code excludes a
  \<open>max_backoff_microseconds\<close> of 0 (a remainder by zero) and a 65th attempt (a shift by the width of the type).
\<close>

theorem preexecute_fills_window:
  assumes "1 \<le> ec_group_1 cfg" "pp_peers (evp_peers p) \<noteq> []" "5 * evp_preexec_window p < 2 ^ 32"
    and "\<forall>n i. round_robin_allocator_get_ballot (env_rand (env n)) (evp_round_robin_allocator p) i \<noteq> None"
    and "\<forall>n i. \<not> blocked (evp_state p) i \<longrightarrow>
      round_robin_allocator_should_delay_proposal (evp_round_robin_allocator p) i = Some True \<longrightarrow>
      backoff_manager_get_backoff (env_backoff (env n)) (evp_backoff_manager p) i \<noteq> None"
  shows "\<exists>n' p' out. proposer_preexecute cfg env n p = Some (n', p', out)
    \<and> instances_to_open p' = min (instances_to_open p) 0"
proof (cases "instances_to_open p > 0")
  case True
  then have "filling cfg env (p, instances_to_open p)" using assms by (simp add: filling_def calm_def)
  from window.send_loop_returns [OF this, of n] obtain n' p' c out
    where "send_loop (\<lambda>(p, count). count > 0) (proposer_preexecute_round cfg env) n (p, instances_to_open p) = Some (n', (p', c), out)"
      "filling cfg env (p', c)" "\<not> c > 0" by auto
  with True show ?thesis by (auto simp: proposer_preexecute_def filling_def)
next
  case False
  then have "proposer_preexecute cfg env n p = Some (n, p, [])" by (simp add: proposer_preexecute_def send_loop.simps)
  with False show ?thesis by simp
qed

section \<open>A concrete run\<close>

definition sample_env :: "nat \<Rightarrow> surroundings" where
  "sample_env n = \<lparr>env_now = \<lparr>tv_sec = 5, tv_usec = 0\<rparr>, env_rand = [0], env_backoff = (\<lambda>_. [0]), env_shuffle = (\<lambda>_. 0)\<rparr>"

definition two_proposers :: evpaxos_config where
  "two_proposers =
     (let as = map (\<lambda>p. \<lparr>adr_addr = ''127.0.0.1'', adr_port = p\<rparr>) [8800, 8801, 8802]
      in \<lparr>conf_proposers = take 2 as, conf_acceptors = as, conf_clients = []\<rparr>)"

definition proposer_peers :: "address standard_paxos_peers" where
  "proposer_peers = peers_connect_to_acceptors (conf_acceptors two_proposers) peers_new 0"

definition sample_process :: "int \<Rightarrow> value_proposal_manager \<Rightarrow> address evproposer" where
  "sample_process i m =
     \<lparr>evp_acceptor_count = 3, evp_last_heard_from_acceptor = map (\<lambda>_. \<lparr>tv_sec = 0, tv_usec = 0\<rparr>) [0..<nat 3],
      evp_id = word_of_int i, evp_preexec_window = 2,
      evp_state = (proposer_new (ec_paxos sample_ev_config) (word_of_int i) 3 2 2 10)
        \<lparr>pr_value_proposal_manager := m, pr_next_prepare_instance := 1\<rparr>,
      evp_peers = proposer_peers, evp_timeout_ev = True,
      evp_round_robin_allocator = round_robin_allocator_new (word_of_int i) 2 True False 10,
      evp_backoff_manager = backoff_manager_new (evproposer_backoff sample_ev_config), evp_proposers_count = 2,
      evp_random_seed_event = True, evp_proposer_state_event = True, evp_try_accept_event = True,
      evp_acceptor_timeout_check_event = True, evp_preexec_once = True, evp_fake_leader = False, evp_retries = []\<rparr>"

lemma set_current_instance_new:
  "proposer_set_current_instance cfg (proposer_new cfg a n q1 q2 inc) 1 =
     Some ((proposer_new cfg a n q1 q2 inc)\<lparr>pr_next_prepare_instance := 1\<rparr>)"
  by (simp add: proposer_set_current_instance_def proposer_get_min_unchosen_instance_def search_from.simps [of 4294967296]
      proposer_is_instance_chosen_def proposer_new_def)

lemma sample_process_init:
  "evproposer_init_internal sample_ev_config [0] (sample_process i m) (\<lambda>_. \<lparr>tv_sec = 0, tv_usec = 0\<rparr>) i two_proposers proposer_peers
     (backoff_manager_new (evproposer_backoff sample_ev_config))
   = Some (sample_process i (value_proposal_manager_new 1000 False))"
proof -
  have "evpaxos_acceptor_count two_proposers = 3" "evpaxos_proposer_count two_proposers = 2"
    by (simp_all add: two_proposers_def evpaxos_acceptor_count_def evpaxos_proposer_count_def)
  moreover have "random_between [0] 30 60 = Some 30" by code_simp
  moreover have "(proposer_new (ec_paxos sample_ev_config) a n q1 q2 inc)\<lparr>pr_next_prepare_instance := 1\<rparr> =
      (proposer_new (ec_paxos sample_ev_config) a n q1 q2 inc)
        \<lparr>pr_value_proposal_manager := value_proposal_manager_new 1000 False, pr_next_prepare_instance := 1\<rparr>" for a n q1 q2 inc
    by (simp add: proposer_new_def sample_ev_config_def)
  moreover have "ec_quorum_1 sample_ev_config = 2" "cfg_quorum_2 (ec_paxos sample_ev_config) = 2"
    "ec_max_ballot_increment sample_ev_config = 10" "ec_round_robin_ballot_bias sample_ev_config = False"
    "ec_round_robin_backoff sample_ev_config = False" "ec_proposer_preexec_window_max sample_ev_config = 2"
    by (simp_all add: sample_ev_config_def)
  ultimately show ?thesis
    by (simp add: evproposer_init_internal_def set_current_instance_new sample_process_def)
qed

lemma sample_process_sends:
  "map_option (\<lambda>(p, out). map (message_ballot \<circ> snd) out)
     (evproposer_preexec_once sample_ev_config sample_env (sample_process 0 m\<lparr>evp_preexec_once := False\<rparr>))
   = Some [Some (Ballot 1 0), Some (Ballot 1 0), Some (Ballot 11 0), Some (Ballot 11 0)]"
  "map_option (\<lambda>(p, out). map (message_ballot \<circ> snd) out)
     (evproposer_preexec_once sample_ev_config sample_env (sample_process 1 m\<lparr>evp_preexec_once := False\<rparr>))
   = Some [Some (Ballot 11 1), Some (Ballot 11 1), Some (Ballot 1 1), Some (Ballot 1 1)]"
  by code_simp+

lemma sample_process_step:
  assumes "map_option (\<lambda>(p, out). map (message_ballot \<circ> snd) out)
     (evproposer_preexec_once sample_ev_config sample_env (sample_process i m\<lparr>evp_preexec_once := False\<rparr>)) = Some (Some b # bs)"
  shows "\<exists>out p' q msg. evproposer_step sample_ev_config (sample_process i m) out p' \<and> (q, msg) \<in> set out \<and> message_ballot msg = Some b"
proof -
  from assms obtain p' out where first: "evproposer_preexec_once sample_ev_config sample_env
      (sample_process i m\<lparr>evp_preexec_once := False\<rparr>) = Some (p', out)" and out: "map (message_ballot \<circ> snd) out = Some b # bs" by auto
  from first have "evproposer_step sample_ev_config (sample_process i m) out p'"
    by (intro evproposer_step.first) (simp_all add: sample_process_def)
  moreover from out obtain q msg rest where "out = (q, msg) # rest" "message_ballot msg = Some b" by (cases out) auto
  ultimately show ?thesis by fastforce
qed

theorem proposer_processes_never_share_ballots_witness:
  "let p = sample_process 0 (value_proposal_manager_new 1000 False); r = sample_process 1 (value_proposal_manager_new 1000 False) in
     evproposer_reachable sample_ev_config 0 p \<and> evproposer_reachable sample_ev_config 1 r \<and>
     (\<exists>out p' q msg b out' r' q' msg' b'. evproposer_step sample_ev_config p out p' \<and> (q, msg) \<in> set out \<and> message_ballot msg = Some b
        \<and> evproposer_step sample_ev_config r out' r' \<and> (q', msg') \<in> set out' \<and> message_ballot msg' = Some b' \<and> b \<noteq> b')"
proof -
  let ?m = "value_proposal_manager_new 1000 False"
  have p: "evproposer_reachable sample_ev_config i (sample_process i ?m)" for i
    by (rule evproposer_reachable.init [OF sample_process_init])
  from sample_process_step [OF sample_process_sends(1) [of ?m]] obtain out p' q msg
    where 0: "evproposer_step sample_ev_config (sample_process 0 ?m) out p'" "(q, msg) \<in> set out" "message_ballot msg = Some (Ballot 1 0)"
    by blast
  from sample_process_step [OF sample_process_sends(2) [of ?m]] obtain out' r' q' msg'
    where 1: "evproposer_step sample_ev_config (sample_process 1 ?m) out' r'" "(q', msg') \<in> set out'" "message_ballot msg' = Some (Ballot 11 1)"
    by blast
  have "Ballot 1 0 \<noteq> Ballot 11 1" using proposer_processes_never_share_ballots [OF p 0 p 1] by simp
  with p 0 1 show ?thesis unfolding Let_def by blast
qed

lemma sample_process_draws:
  "round_robin_allocator_get_ballot [0] (round_robin_allocator_new 0 2 True True 10) i \<noteq> None"
  "backoff_manager_get_backoff (\<lambda>_. [0]) (backoff_manager_new (evproposer_backoff sample_ev_config)) i \<noteq> None"
proof -
  let ?g = "ballot_giver_new 0 10"
  have "ballot_giver_next [0] ?g (Ballot 10 0) = Some (Ballot 11 0)" "ballot_giver_next [0] ?g INVALID_BALLOT = Some (Ballot 1 0)"
    by code_simp+
  then show "round_robin_allocator_get_ballot [0] (round_robin_allocator_new 0 2 True True 10) i \<noteq> None"
    by (auto simp: round_robin_allocator_get_ballot_def round_robin_allocator_is_allocated_def round_robin_allocator_new_def split: bool.split)
  have "backoff_next (evproposer_backoff sample_ev_config) (\<lambda>_. [0]) 1 \<noteq> None" by code_simp
  then show "backoff_manager_get_backoff (\<lambda>_. [0]) (backoff_manager_new (evproposer_backoff sample_ev_config)) i \<noteq> None"
    by (auto simp: backoff_manager_get_backoff_def backoff_manager_new_def Let_def)
qed

text \<open>The process whose allocator delays the proposals of every other instance.\<close>

theorem preexecute_fills_window_witness:
  "\<exists>n' p' out. proposer_preexecute sample_ev_config sample_env 0
       (sample_process 0 (value_proposal_manager_new 2 False)
          \<lparr>evp_round_robin_allocator := round_robin_allocator_new 0 2 True True 10\<rparr>) = Some (n', p', out)
    \<and> instances_to_open p' = 0"
proof -
  let ?p = "sample_process 0 (value_proposal_manager_new 2 False)
    \<lparr>evp_round_robin_allocator := round_robin_allocator_new 0 2 True True 10\<rparr>"
  have "ec_group_1 sample_ev_config = 2" by (simp add: sample_ev_config_def)
  moreover have "pp_peers proposer_peers \<noteq> []" by code_simp
  moreover have "instances_to_open ?p = 2"
    by (simp add: instances_to_open_def sample_process_def proposer_prepare_count_def proposer_acceptance_count_def proposer_new_def)
  ultimately show ?thesis
    using preexecute_fills_window [of sample_ev_config ?p sample_env 0] sample_process_draws
    by (simp add: sample_process_def sample_env_def)
qed

section \<open>Two slips\<close>

text \<open>Nothing notes when an acceptor was heard, not even the handler of its state, so that \<open>all_up\<close> reads what \<open>malloc\<close> left.\<close>

lemma preexecute_keeps_heard:
  assumes "proposer_preexecute cfg env n p = Some (n', p', out)"
  shows "evp_last_heard_from_acceptor p' = evp_last_heard_from_acceptor p"
proof -
  from assms obtain c where loop: "send_loop (\<lambda>(p, count). count > 0) (proposer_preexecute_round cfg env) n (p, instances_to_open p)
      = Some (n', (p', c), out)" by (auto simp: proposer_preexecute_def)
  have "evp_last_heard_from_acceptor (fst s') = evp_last_heard_from_acceptor p"
    if "evp_last_heard_from_acceptor (fst s) = evp_last_heard_from_acceptor p" "proposer_preexecute_round cfg env n s = Some (n', s', out)"
    for n s n' s' out
  proof -
    obtain p1 count where s: "s = (p1, count)" by fastforce
    let ?i = "proposer_get_current_instance (evp_state p1)"
    from that(2) obtain b where b: "round_robin_allocator_get_ballot (env_rand (env n)) (evp_round_robin_allocator p1) ?i = Some b"
      by (cases "round_robin_allocator_get_ballot (env_rand (env n)) (evp_round_robin_allocator p1) ?i")
        (simp_all add: proposer_preexecute_round_def s)
    obtain st pr where start: "proposer_try_to_start_preparing_instance (env_now (env n)) (evp_state p1) ?i b = (st, pr)" by fastforce
    show ?thesis using that
      by (auto simp: proposer_preexecute_round_def s b start split: option.splits bool.splits prod.splits)
  qed
  note round = this
  have "evp_last_heard_from_acceptor (fst (p', c)) = evp_last_heard_from_acceptor p \<and> \<not> (case (p', c) of (p, c) \<Rightarrow> c > 0)
      \<and> (\<forall>m \<in> set out. True)"
    by (rule send_loop_invariant [OF loop]) (auto dest: round)
  then show ?thesis by simp
qed

lemma acceptor_state_is_not_noted:
  assumes "\<not> evp_fake_leader p" "evproposer_handle_acceptor_state cfg env p q (PAXOS_ACCEPTOR_STATE st) = Some (p', out)"
  shows "evp_last_heard_from_acceptor p' = evp_last_heard_from_acceptor p"
  using assms
  by (auto simp: evproposer_handle_acceptor_state_def Let_def dest!: preexecute_keeps_heard split: if_splits)

lemma ballot_bias_is_always_on:
  assumes "evproposer_init_internal cfg draws junk heap i c peers manager = Some p" "\<not> ec_round_robin_ballot_bias cfg"
  shows "rra_ballot_bias (evp_round_robin_allocator p) = ec_max_ballot_increment cfg"
  using assms by (auto simp: evproposer_init_internal_def round_robin_allocator_new_def Let_def split: option.splits)

end
