(* ===== verification/Event_Epoch_Proposer.thy ===== *)
theory Event_Epoch_Proposer
  imports Event_Base Event_Proposer Epoch_Proposer
begin

text \<open>
  \<open>src/evpaxos/ev_epoch_proposer.c\<close>: the process around the epoch proposer.  Beside what the standard process does, it keeps
  an array of instances that were chosen before it reached them, to skip them, and it notes when it heard from each
  acceptor.  \<open>junk n\<close> is what the \<open>n\<close>-th round of the loop finds in the memory that \<open>malloc\<close> returns for a prepare: \<open>None\<close> when
  the type in it is neither of the two; a retry keeps what is in that memory.
\<close>

section \<open>State\<close>

record 'a ev_epoch_proposer =
  eep_acceptor_count :: int
  eep_last_heard_from_acceptor :: "timeval list"
  eep_max_num_open_instances :: int
  eep_proposer :: epoch_proposer
  eep_peers :: "'a writeahead_epoch_paxos_peers"
  eep_timeout_event :: bool
  eep_backoff_manager :: backoff_manager
  eep_round_robin_allocator :: round_robin_allocator
  eep_random_seed_event :: bool
  eep_instances_to_skip :: "iid_t list"
  eep_num_instances_to_skip :: nat
  eep_proposer_state_event :: bool
  eep_acceptor_timeout_check_event :: bool
  eep_try_accept_event :: bool
  eep_preexec_once :: bool
  eep_proposer_count :: int
  eep_id :: int
  eep_retries :: "(epoch_paxos_prepares option \<times> timeval) list"

section \<open>Instances to skip\<close>

definition ev_proposer_get_max_instances_to_skip :: "'a ev_epoch_proposer \<Rightarrow> int" where
  "ev_proposer_get_max_instances_to_skip p = eep_proposer_count p * eep_max_num_open_instances p"

text \<open>The array has a fixed length; writing behind its end is \<open>None\<close>, as is the failed assertion.\<close>

definition check_and_add_instance_chosen_to_skip :: "'a ev_epoch_proposer \<Rightarrow> iid_t \<Rightarrow> ('a ev_epoch_proposer \<times> bool) option" where
  "check_and_add_instance_chosen_to_skip p i =
     (if \<not> epoch_proposer_get_current_instance (eep_proposer p) \<le> i then None
      else if i \<in> set (take (eep_num_instances_to_skip p) (eep_instances_to_skip p)) then Some (p, False)
      else if eep_num_instances_to_skip p < length (eep_instances_to_skip p)
      then Some (p\<lparr>eep_instances_to_skip := (eep_instances_to_skip p)[eep_num_instances_to_skip p := i],
                  eep_num_instances_to_skip := eep_num_instances_to_skip p + 1\<rparr>, True)
      else None)"

function trim_skipped :: "iid_t \<Rightarrow> nat \<Rightarrow> nat \<times> iid_t list \<Rightarrow> nat \<times> iid_t list" where
  "trim_skipped trim i s =
     (let (n, skip) = s in
      if i < n then (if skip ! i \<le> trim then trim_skipped trim (i + 1) (n - 1, skip[i := - 1])
                     else trim_skipped trim (i + 1) (n, skip))
      else (n, skip))"
  by pat_completeness auto
termination
  by (relation "measure (\<lambda>(trim, i, n, skip). n - i)") auto

declare trim_skipped.simps [simp del]

definition trim_instances_to_skip :: "'a ev_epoch_proposer \<Rightarrow> iid_t \<Rightarrow> 'a ev_epoch_proposer" where
  "trim_instances_to_skip p trim =
     (let (n, skip) = trim_skipped trim 0 (eep_num_instances_to_skip p, eep_instances_to_skip p)
      in p\<lparr>eep_num_instances_to_skip := n, eep_instances_to_skip := skip\<rparr>)"

definition should_skip_instance :: "'a ev_epoch_proposer \<Rightarrow> iid_t \<Rightarrow> bool" where
  "should_skip_instance p cmp \<longleftrightarrow> cmp \<in> set (take (eep_num_instances_to_skip p) (eep_instances_to_skip p))"

section \<open>Proposing values and opening instances\<close>

definition ev_epoch_proposer_accept_round ::
    "ev_config \<Rightarrow> (nat \<Rightarrow> surroundings) \<Rightarrow> nat \<Rightarrow> 'a ev_epoch_proposer \<times> bool \<Rightarrow>
       (nat \<times> ('a ev_epoch_proposer \<times> bool) \<times> ('a, epoch_paxos_message) sends) option" where
  "ev_epoch_proposer_accept_round cfg env n s =
     (let (p, _) = s in
      case epoch_proposer_try_accept (ec_paxos cfg) (env_now (env n)) (eep_proposer p) of
        None \<Rightarrow> None
      | Some (st, None) \<Rightarrow> Some (n + 1, (p\<lparr>eep_proposer := st\<rparr>, False), [])
      | Some (st, Some accept) \<Rightarrow>
          map_option (\<lambda>(ps, qs). (n + 1, (p\<lparr>eep_proposer := st, eep_peers := ps\<rparr>, True),
              to_all qs (WRITEAHEAD_EPOCH_BALLOT_ACCEPT accept)))
            (writeahead_epoch_paxos_peers_for_n_acceptor (env_shuffle (env n)) (eep_peers p) (ec_group_2 cfg)))"

definition ev_epoch_proposer_try_accept ::
    "ev_config \<Rightarrow> (nat \<Rightarrow> surroundings) \<Rightarrow> 'a ev_epoch_proposer \<Rightarrow>
       ('a ev_epoch_proposer \<times> ('a, epoch_paxos_message) sends) option" where
  "ev_epoch_proposer_try_accept cfg env p =
     map_option (\<lambda>(n, (p, _), out). (p, out)) (send_loop snd (ev_epoch_proposer_accept_round cfg env) 0 (p, True))"

fun prepare_message :: "epoch_paxos_prepares \<Rightarrow> epoch_paxos_message" where
  "prepare_message (STANDARD_PREPARE pr) = WRITEAHEAD_STANDARD_PREPARE pr"
| "prepare_message (EXPLICIT_EPOCH_PREPARE pr) = WRITEAHEAD_EPOCH_BALLOT_PREPARE pr"

text \<open>
  The test of \<open>should_delay\<close> is commented out but its \<open>else\<close> is not, so that the delayed retry is what happens when the
  instance was \<^emph>\<open>not\<close> started, and then nothing has been written to \<open>prepare\<close>.
\<close>

definition ev_epoch_proposer_begin_round ::
    "ev_config \<Rightarrow> (nat \<Rightarrow> surroundings) \<Rightarrow> (nat \<Rightarrow> epoch_paxos_prepares option) \<Rightarrow> nat \<Rightarrow> 'a ev_epoch_proposer \<times> int \<Rightarrow>
       (nat \<times> ('a ev_epoch_proposer \<times> int) \<times> ('a, epoch_paxos_message) sends) option" where
  "ev_epoch_proposer_begin_round cfg env junk n s =
     (let (p, count) = s;
          i = epoch_proposer_get_current_instance (eep_proposer p)
      in if should_skip_instance p i
         then Some (n + 1, (p\<lparr>eep_proposer := epoch_proposer_next_instance (eep_proposer p)\<rparr>, count), [])
         else case round_robin_allocator_get_ballot (env_rand (env n)) (eep_round_robin_allocator p) i of
           None \<Rightarrow> None
         | Some b \<Rightarrow>
             (case epoch_proposer_try_to_start_preparing_instance (env_now (env n)) (eep_proposer p) i
                     (Epoch_Ballot (epoch_proposer_get_current_known_epoch (eep_proposer p)) b) of
                (st, Some prepare) \<Rightarrow>
                  (case round_robin_allocator_should_delay_proposal (eep_round_robin_allocator p) i of
                     None \<Rightarrow> None
                   | Some _ \<Rightarrow>
                       map_option (\<lambda>(ps, qs). (n + 1, (p\<lparr>eep_proposer := epoch_proposer_next_instance st, eep_peers := ps\<rparr>, count - 1),
                           to_all qs (prepare_message prepare)))
                         (writeahead_epoch_paxos_peers_for_n_acceptor (env_shuffle (env n)) (eep_peers p) (ec_group_1 cfg)))
              | (st, None) \<Rightarrow>
                  map_option (\<lambda>(m, t). (n + 1, (p\<lparr>eep_proposer := epoch_proposer_next_instance st, eep_backoff_manager := m,
                      eep_retries := eep_retries p @ [(junk n, t)]\<rparr>, count), []))
                    (backoff_manager_get_backoff (env_backoff (env n)) (eep_backoff_manager p) i)))"

definition ev_epoch_proposer_instances_to_open :: "'a ev_epoch_proposer \<Rightarrow> int" where
  "ev_epoch_proposer_instances_to_open p =
     eep_max_num_open_instances p
       - (int (epoch_proposer_prepare_count (eep_proposer p)) + int (epoch_proposer_acceptance_count (eep_proposer p)))"

definition ev_epoch_proposer_try_begin_new_instances ::
    "ev_config \<Rightarrow> (nat \<Rightarrow> surroundings) \<Rightarrow> (nat \<Rightarrow> epoch_paxos_prepares option) \<Rightarrow> 'a ev_epoch_proposer \<Rightarrow>
       ('a ev_epoch_proposer \<times> ('a, epoch_paxos_message) sends) option" where
  "ev_epoch_proposer_try_begin_new_instances cfg env junk p =
     map_option (\<lambda>(n, (p, _), out). (p, out))
       (send_loop (\<lambda>(p, count). count > 0) (ev_epoch_proposer_begin_round cfg env junk) 0
          (p, ev_epoch_proposer_instances_to_open p))"

text \<open>The instance of both kinds of prepares is at the same place of the union.\<close>

fun prepare_instance :: "epoch_paxos_prepares \<Rightarrow> iid_t" where
  "prepare_instance (STANDARD_PREPARE pr) = prep_iid pr"
| "prepare_instance (EXPLICIT_EPOCH_PREPARE pr) = ebp_instance pr"

definition ev_epoch_proposer_try_higher_ballot ::
    "ev_config \<Rightarrow> (nat \<Rightarrow> surroundings) \<Rightarrow> (nat \<Rightarrow> epoch_paxos_prepares option) \<Rightarrow> 'a ev_epoch_proposer
       \<Rightarrow> epoch_paxos_prepares option \<times> timeval \<Rightarrow> ('a ev_epoch_proposer \<times> ('a, epoch_paxos_message) sends) option" where
  "ev_epoch_proposer_try_higher_ballot cfg env junk p retry =
     (let p = p\<lparr>eep_retries := remove1 retry (eep_retries p)\<rparr>
      in case fst retry of
           None \<Rightarrow> Some (p, [])
         | Some prepare \<Rightarrow>
             if epoch_proposer_is_instance_pending (eep_proposer p) (prepare_instance prepare)
             then map_option (\<lambda>(ps, qs). (p\<lparr>eep_peers := ps\<rparr>, to_all qs (prepare_message prepare)))
                    (writeahead_epoch_paxos_peers_for_n_acceptor (env_shuffle (env 0)) (eep_peers p) (ec_group_1 cfg))
             else ev_epoch_proposer_try_begin_new_instances cfg env junk
                    (p\<lparr>eep_backoff_manager := backoff_manager_close_backoff_if_exists (eep_backoff_manager p) (prepare_instance prepare)\<rparr>))"

section \<open>Messages\<close>

definition ev_epoch_proposer_handle_promise ::
    "ev_config \<Rightarrow> (nat \<Rightarrow> surroundings) \<Rightarrow> 'a ev_epoch_proposer \<Rightarrow> 'a peer \<Rightarrow> epoch_paxos_message \<Rightarrow>
       ('a ev_epoch_proposer \<times> ('a, epoch_paxos_message) sends) option" where
  "ev_epoch_proposer_handle_promise cfg env p q msg =
     (case msg of
        WRITEAHEAD_EPOCH_BALLOT_PROMISE promise \<Rightarrow>
          if ballot_proposer_id (eb_ballot (ebpr_promised_epoch_ballot promise)) \<noteq> epoch_proposer_get_id (eep_proposer p)
          then Some (p, [])
          else (case epoch_proposer_receive_promise (ec_paxos cfg) (env_now (env 0)) (eep_proposer p) promise of
                  None \<Rightarrow> None
                | Some (st, code, ret_msg) \<Rightarrow>
                    let p = p\<lparr>eep_proposer := st\<rparr>
                    in if code = EPOCH_PREEMPTED
                       then (case ret_msg of
                               None \<Rightarrow> None
                             | Some prepare \<Rightarrow>
                                 map_option (\<lambda>(ps, qs). (p\<lparr>eep_peers := ps\<rparr>, to_all qs prepare))
                                   (writeahead_epoch_paxos_peers_for_n_acceptor (env_shuffle (env 0)) (eep_peers p) (ec_group_1 cfg)))
                       else if code = QUORUM_REACHED then ev_epoch_proposer_try_accept cfg env p
                       else Some (p, []))
      | _ \<Rightarrow> None)"

definition ev_epoch_proposer_handle_accepted ::
    "ev_config \<Rightarrow> (nat \<Rightarrow> surroundings) \<Rightarrow> (nat \<Rightarrow> epoch_paxos_prepares option) \<Rightarrow> 'a ev_epoch_proposer \<Rightarrow> 'a peer \<Rightarrow> epoch_paxos_message \<Rightarrow>
       ('a ev_epoch_proposer \<times> ('a, epoch_paxos_message) sends) option" where
  "ev_epoch_proposer_handle_accepted cfg env junk p q msg =
     (case msg of
        WRITEAHEAD_EPOCH_BALLOT_ACCEPTED accepted \<Rightarrow>
          if ballot_proposer_id (eb_ballot (ebac_accepted_epoch_ballot accepted)) \<noteq> epoch_proposer_get_id (eep_proposer p)
          then Some (p, [])
          else (case epoch_proposer_receive_accepted (ec_paxos cfg) (eep_proposer p) accepted of
                  None \<Rightarrow> None
                | Some (st, code, _) \<Rightarrow>
                    let p = p\<lparr>eep_proposer := st\<rparr>
                    in if code = QUORUM_REACHED then ev_epoch_proposer_try_begin_new_instances cfg env junk p else Some (p, []))
      | _ \<Rightarrow> None)"

text \<open>The log message divides by \<open>max_ballot_increment\<close>.\<close>

definition ev_epoch_proposer_handle_chosen ::
    "ev_config \<Rightarrow> (nat \<Rightarrow> surroundings) \<Rightarrow> (nat \<Rightarrow> epoch_paxos_prepares option) \<Rightarrow> 'a ev_epoch_proposer \<Rightarrow> 'a peer \<Rightarrow> epoch_paxos_message \<Rightarrow>
       ('a ev_epoch_proposer \<times> ('a, epoch_paxos_message) sends) option" where
  "ev_epoch_proposer_handle_chosen cfg env junk p q msg =
     (case msg of
        WRITEAHEAD_INSTANCE_CHOSEN_AT_EPOCH_BALLOT chosen_msg \<Rightarrow>
          (case epoch_proposer_receive_chosen (ec_paxos cfg) (eep_proposer p) chosen_msg of
             None \<Rightarrow> None
           | Some (st, code) \<Rightarrow>
               let p = p\<lparr>eep_proposer := st\<rparr>
               in case (if code = MESSAGE_ACKNOWLEDGED
                        then if ec_max_ballot_increment cfg = 0 then None
                             else ev_epoch_proposer_try_begin_new_instances cfg env junk p
                        else Some (p, [])) of
                    None \<Rightarrow> None
                  | Some (p, out) \<Rightarrow>
                      if epoch_proposer_get_current_instance (eep_proposer p) < ebc_instance chosen_msg
                      then map_option (\<lambda>(p, _). (p, out)) (check_and_add_instance_chosen_to_skip p (ebc_instance chosen_msg))
                      else Some (p, out))
      | _ \<Rightarrow> None)"

text \<open>An instance that was preempted by an epoch is prepared at once, but by \<open>quorum_1\<close> and not by \<open>group_1\<close> acceptors.\<close>

definition ev_epoch_proposer_handle_preempted ::
    "ev_config \<Rightarrow> (nat \<Rightarrow> surroundings) \<Rightarrow> 'a ev_epoch_proposer \<Rightarrow> 'a peer \<Rightarrow> epoch_paxos_message \<Rightarrow>
       ('a ev_epoch_proposer \<times> ('a, epoch_paxos_message) sends) option" where
  "ev_epoch_proposer_handle_preempted cfg env p q msg =
     (case msg of
        WRITEAHEAD_EPOCH_BALLOT_PREEMPTED preempted_msg \<Rightarrow>
          if ballot_proposer_id (eb_ballot (ebpe_requested_epoch_ballot preempted_msg)) \<noteq> epoch_proposer_get_id (eep_proposer p)
          then Some (p, [])
          else (case epoch_proposer_receive_preempted (env_now (env 0)) (env_rand (env 0)) (env_rand (env 1)) (eep_proposer p) preempted_msg of
                  None \<Rightarrow> None
                | Some (st, code, next_prepare) \<Rightarrow>
                    let p = p\<lparr>eep_proposer := st\<rparr>
                    in if code = BALLOT_PREEMPTED
                       then (case (next_prepare, backoff_manager_get_backoff (env_backoff (env 0)) (eep_backoff_manager p) (ebpe_instance preempted_msg)) of
                               (Some prepare, Some (m, t)) \<Rightarrow>
                                 Some (p\<lparr>eep_backoff_manager := m, eep_retries := eep_retries p @ [(Some (EXPLICIT_EPOCH_PREPARE prepare), t)]\<rparr>, [])
                             | _ \<Rightarrow> None)
                       else if code = EPOCH_PREEMPTED
                       then (case next_prepare of
                               None \<Rightarrow> None
                             | Some prepare \<Rightarrow>
                                 map_option (\<lambda>(ps, qs). (p\<lparr>eep_peers := ps\<rparr>, to_all qs (WRITEAHEAD_EPOCH_BALLOT_PREPARE prepare)))
                                   (writeahead_epoch_paxos_peers_for_n_acceptor (env_shuffle (env 0)) (eep_peers p) (ec_quorum_1 cfg)))
                       else Some (p, []))
      | _ \<Rightarrow> None)"

definition ev_epoch_proposer_handle_trim ::
    "ev_config \<Rightarrow> (nat \<Rightarrow> surroundings) \<Rightarrow> (nat \<Rightarrow> epoch_paxos_prepares option) \<Rightarrow> 'a ev_epoch_proposer \<Rightarrow> 'a peer \<Rightarrow> epoch_paxos_message \<Rightarrow>
       ('a ev_epoch_proposer \<times> ('a, epoch_paxos_message) sends) option" where
  "ev_epoch_proposer_handle_trim cfg env junk p q msg =
     (case msg of
        WRITEAHEAD_INSTANCE_TRIM trim_msg \<Rightarrow>
          ev_epoch_proposer_try_begin_new_instances cfg env junk
            (trim_instances_to_skip
               (p\<lparr>eep_proposer := fst (epoch_proposer_receive_trim (ec_paxos cfg) (eep_proposer p) trim_msg),
                 eep_backoff_manager := backoff_manager_close_less_than_or_equal (eep_backoff_manager p) (trim_iid trim_msg)\<rparr>)
               (trim_iid trim_msg))
      | _ \<Rightarrow> None)"

definition ev_epoch_proposer_handle_client_value ::
    "ev_config \<Rightarrow> (nat \<Rightarrow> surroundings) \<Rightarrow> 'a ev_epoch_proposer \<Rightarrow> 'a peer \<Rightarrow> epoch_paxos_message \<Rightarrow>
       ('a ev_epoch_proposer \<times> ('a, epoch_paxos_message) sends) option" where
  "ev_epoch_proposer_handle_client_value cfg env p q msg =
     (case msg of
        WRITEAHEAD_CLIENT_VALUE v \<Rightarrow>
          (case epoch_proposer_add_paxos_value_to_queue (eep_proposer p) v of
             None \<Rightarrow> None
           | Some st \<Rightarrow> ev_epoch_proposer_try_accept cfg env (p\<lparr>eep_proposer := st\<rparr>))
      | _ \<Rightarrow> None)"

definition epoch_all_up :: "ev_config \<Rightarrow> (nat \<Rightarrow> surroundings) \<Rightarrow> 'a ev_epoch_proposer \<Rightarrow> bool" where
  "epoch_all_up cfg env p \<longleftrightarrow>
     list_all (\<lambda>i. \<not> timer_greater (timersub (env_now (env i)) (eep_last_heard_from_acceptor p ! i))
                     \<lparr>tv_sec = ec_acceptor_timeout cfg, tv_usec = 0\<rparr>)
       [0..<nat (eep_acceptor_count p)]"

text \<open>The id of the acceptor is an index that is not checked; \<open>now\<close> is when it was heard.\<close>

definition ev_epoch_proposer_handle_acceptor_state ::
    "ev_config \<Rightarrow> (nat \<Rightarrow> surroundings) \<Rightarrow> (nat \<Rightarrow> epoch_paxos_prepares option) \<Rightarrow> timeval \<Rightarrow> 'a ev_epoch_proposer \<Rightarrow> 'a peer \<Rightarrow> epoch_paxos_message \<Rightarrow>
       ('a ev_epoch_proposer \<times> ('a, epoch_paxos_message) sends) option" where
  "ev_epoch_proposer_handle_acceptor_state cfg env junk now p q msg =
     (case msg of
        WRITEAHEAD_ACCEPTOR_STATE acc_state \<Rightarrow>
          let trim = as_trim_iid (was_standard_acceptor_state acc_state);
              aid = unat (as_aid (was_standard_acceptor_state acc_state));
              p = trim_instances_to_skip
                    (p\<lparr>eep_proposer := fst (epoch_proposer_receive_acceptor_state (ec_paxos cfg) (eep_proposer p) acc_state)\<rparr>) trim;
              p = p\<lparr>eep_backoff_manager := backoff_manager_close_less_than_or_equal (eep_backoff_manager p) trim\<rparr>
          in if aid < length (eep_last_heard_from_acceptor p)
             then let p = p\<lparr>eep_last_heard_from_acceptor := (eep_last_heard_from_acceptor p)[aid := now]\<rparr>
                  in ev_epoch_proposer_try_begin_new_instances cfg env junk
                       (if epoch_all_up cfg env p then p\<lparr>eep_max_num_open_instances := ec_proposer_preexec_window_max cfg\<rparr> else p)
             else None
      | _ \<Rightarrow> None)"

definition ev_epoch_proposer_handle_epoch_proposer_state ::
    "ev_config \<Rightarrow> (nat \<Rightarrow> surroundings) \<Rightarrow> (nat \<Rightarrow> epoch_paxos_prepares option) \<Rightarrow> 'a ev_epoch_proposer \<Rightarrow> 'a peer \<Rightarrow> epoch_paxos_message \<Rightarrow>
       ('a ev_epoch_proposer \<times> ('a, epoch_paxos_message) sends) option" where
  "ev_epoch_proposer_handle_epoch_proposer_state cfg env junk p q msg =
     (case msg of
        WRITEAHEAD_PAXOS_PROPOSER_STATE state \<Rightarrow>
          ev_epoch_proposer_try_begin_new_instances cfg env junk
            (p\<lparr>eep_proposer := fst (epoch_proposer_receive_epoch_proposer_state (ec_paxos cfg) (eep_proposer p) state),
              eep_backoff_manager := backoff_manager_close_less_than_or_equal (eep_backoff_manager p)
                (ps_trim_instance (eps_proposer_state state))\<rparr>)
      | _ \<Rightarrow> None)"

definition ev_epoch_proposer_handle_epoch_notification ::
    "'a ev_epoch_proposer \<Rightarrow> 'a peer \<Rightarrow> epoch_paxos_message \<Rightarrow> ('a ev_epoch_proposer \<times> ('a, epoch_paxos_message) sends) option" where
  "ev_epoch_proposer_handle_epoch_notification p q msg =
     (case msg of
        WRITEAHEAD_EPOCH_NOTIFICATION notification \<Rightarrow>
          Some (p\<lparr>eep_proposer := fst (epoch_proposer_handle_epoch_notification (eep_proposer p) notification)\<rparr>, [])
      | _ \<Rightarrow> None)"

section \<open>Timers\<close>

definition ev_epoch_proposer_check_acceptor_timeouts ::
    "ev_config \<Rightarrow> (nat \<Rightarrow> surroundings) \<Rightarrow> 'a ev_epoch_proposer \<Rightarrow> 'a ev_epoch_proposer" where
  "ev_epoch_proposer_check_acceptor_timeouts cfg env p =
     (let p = (if epoch_all_up cfg env p then p else p\<lparr>eep_max_num_open_instances := ec_proposer_preexec_window_min cfg\<rparr>)
      in p\<lparr>eep_acceptor_timeout_check_event := True\<rparr>)"

definition epoch_timed_out_prepare_round ::
    "ev_config \<Rightarrow> (nat \<Rightarrow> surroundings) \<Rightarrow> nat \<Rightarrow> 'a ev_epoch_proposer \<times> epoch_proposer_timeout_iterator \<times> bool \<Rightarrow>
       (nat \<times> ('a ev_epoch_proposer \<times> epoch_proposer_timeout_iterator \<times> bool) \<times> ('a, epoch_paxos_message) sends) option" where
  "epoch_timed_out_prepare_round cfg env n s =
     (let (p, iter, _) = s in
      case epoch_proposer_timeout_iterator_prepare (ec_paxos cfg) (env_now (env n)) iter (eep_proposer p) of
        (iter, st, None) \<Rightarrow> Some (n + 1, (p\<lparr>eep_proposer := st\<rparr>, iter, False), [])
      | (iter, st, Some pr) \<Rightarrow>
          map_option (\<lambda>(ps, qs). (n + 1, (p\<lparr>eep_proposer := st, eep_peers := ps\<rparr>, iter, True),
              to_all qs (if eb_epoch (ebp_epoch_ballot_requested pr) = INVALID_EPOCH
                         then WRITEAHEAD_STANDARD_PREPARE \<lparr>prep_iid = ebp_instance pr, prep_ballot = eb_ballot (ebp_epoch_ballot_requested pr)\<rparr>
                         else WRITEAHEAD_EPOCH_BALLOT_PREPARE pr)))
            (writeahead_epoch_paxos_peers_for_n_acceptor (env_shuffle (env n)) (eep_peers p) (ec_group_1 cfg)))"

definition epoch_timed_out_accept_round ::
    "ev_config \<Rightarrow> (nat \<Rightarrow> surroundings) \<Rightarrow> nat \<Rightarrow> 'a ev_epoch_proposer \<times> epoch_proposer_timeout_iterator \<times> bool \<Rightarrow>
       (nat \<times> ('a ev_epoch_proposer \<times> epoch_proposer_timeout_iterator \<times> bool) \<times> ('a, epoch_paxos_message) sends) option" where
  "epoch_timed_out_accept_round cfg env n s =
     (let (p, iter, _) = s in
      case epoch_proposer_timeout_iterator_accept (ec_paxos cfg) (env_now (env n)) iter (eep_proposer p) of
        None \<Rightarrow> None
      | Some (iter, st, None) \<Rightarrow> Some (n + 1, (p\<lparr>eep_proposer := st\<rparr>, iter, False), [])
      | Some (iter, st, Some accept_msg) \<Rightarrow>
          map_option (\<lambda>(ps, qs). (n + 1, (p\<lparr>eep_proposer := st, eep_peers := ps\<rparr>, iter, True),
              to_all qs (WRITEAHEAD_EPOCH_BALLOT_ACCEPT accept_msg)))
            (writeahead_epoch_paxos_peers_for_n_acceptor (env_shuffle (env n)) (eep_peers p) (ec_group_2 cfg)))"

definition ev_epoch_proposer_check_timeouts ::
    "ev_config \<Rightarrow> (nat \<Rightarrow> surroundings) \<Rightarrow> 'a ev_epoch_proposer \<Rightarrow> ('a ev_epoch_proposer \<times> ('a, epoch_paxos_message) sends) option" where
  "ev_epoch_proposer_check_timeouts cfg env p =
     (case send_loop (\<lambda>(_, _, more). more) (epoch_timed_out_prepare_round cfg env) 1
             (p, epoch_proposer_timeout_iterator_new (env_now (env 0)), True) of
        None \<Rightarrow> None
      | Some (n, (p, iter, _), prepares) \<Rightarrow>
          map_option (\<lambda>(n, (p, _), accepts). (p\<lparr>eep_timeout_event := True\<rparr>, prepares @ accepts))
            (send_loop (\<lambda>(_, _, more). more) (epoch_timed_out_accept_round cfg env) n (p, iter, True)))"

definition ev_epoch_proposer_preexec_once ::
    "ev_config \<Rightarrow> (nat \<Rightarrow> surroundings) \<Rightarrow> (nat \<Rightarrow> epoch_paxos_prepares option) \<Rightarrow> 'a ev_epoch_proposer \<Rightarrow>
       ('a ev_epoch_proposer \<times> ('a, epoch_paxos_message) sends) option" where
  "ev_epoch_proposer_preexec_once cfg env junk p = ev_epoch_proposer_try_begin_new_instances cfg env junk p"

definition ev_epoch_proposer_gen_random_seed :: "'a ev_epoch_proposer \<Rightarrow> 'a ev_epoch_proposer" where
  "ev_epoch_proposer_gen_random_seed p = p\<lparr>eep_random_seed_event := True\<rparr>"

definition ev_epoch_proposer_state_event :: "'a ev_epoch_proposer \<Rightarrow> 'a ev_epoch_proposer \<times> ('a, epoch_paxos_message) sends" where
  "ev_epoch_proposer_state_event p =
     (p\<lparr>eep_proposer_state_event := True\<rparr>,
      to_all (writeahead_epoch_paxos_peers_foreach_proposer (eep_peers p))
        (WRITEAHEAD_PAXOS_PROPOSER_STATE (epoch_proposer_get_state (eep_proposer p))))"

definition epoch_try_accept_event ::
    "ev_config \<Rightarrow> (nat \<Rightarrow> surroundings) \<Rightarrow> 'a ev_epoch_proposer \<Rightarrow> ('a ev_epoch_proposer \<times> ('a, epoch_paxos_message) sends) option" where
  "epoch_try_accept_event cfg env p =
     map_option (\<lambda>(n, (p, _), out). (p\<lparr>eep_try_accept_event := True\<rparr>, out))
       (send_loop snd (ev_epoch_proposer_accept_round cfg env) 0 (p, True))"

section \<open>Starting a process\<close>

definition ev_epoch_proposer_subscriptions ::
    "ev_config \<Rightarrow> (nat \<Rightarrow> surroundings) \<Rightarrow> (nat \<Rightarrow> epoch_paxos_prepares option) \<Rightarrow> timeval \<Rightarrow>
       (('a ev_epoch_proposer, 'a, epoch_paxos_message) process, 'a peer, epoch_paxos_message) subscription list option" where
  "ev_epoch_proposer_subscriptions cfg env junk now = subscribe_all
     [(2, callback (ev_epoch_proposer_handle_promise cfg env)), (4, callback (ev_epoch_proposer_handle_accepted cfg env junk)),
      (5, callback (ev_epoch_proposer_handle_preempted cfg env)), (12, callback (ev_epoch_proposer_handle_client_value cfg env)),
      (11, callback (ev_epoch_proposer_handle_acceptor_state cfg env junk now)),
      (7, callback (ev_epoch_proposer_handle_chosen cfg env junk)), (6, callback ev_epoch_proposer_handle_epoch_notification),
      (10, callback (ev_epoch_proposer_handle_trim cfg env junk)),
      (8, callback (ev_epoch_proposer_handle_epoch_proposer_state cfg env junk))]"

text \<open>
  A negative size of the array of instances to skip is converted to a huge \<open>size_t\<close>: the loop that fills the array then
  writes behind its end.
\<close>

definition ev_epoch_proposer_init_internal ::
    "ev_config \<Rightarrow> u32 list \<Rightarrow> 'a ev_epoch_proposer \<Rightarrow> (nat \<Rightarrow> timeval) \<Rightarrow> int \<Rightarrow> evpaxos_config \<Rightarrow> 'a writeahead_epoch_paxos_peers
       \<Rightarrow> int \<Rightarrow> int \<Rightarrow> 'a ev_epoch_proposer option" where
  "ev_epoch_proposer_init_internal cfg draws mem heap i c peers proposer_count acceptor_count =
     (let ballot_bias = (if ec_round_robin_ballot_bias cfg then ec_max_ballot_increment cfg else 1)
      in case epoch_proposer_set_current_instance (ec_paxos cfg)
                (epoch_proposer_new (ec_paxos cfg) i (evpaxos_acceptor_count c) (ec_quorum_1 cfg)
                   (cfg_quorum_2 (ec_paxos cfg)) (ec_max_ballot_increment cfg)) 1 of
           None \<Rightarrow> None
         | Some st \<Rightarrow>
             let p = mem\<lparr>eep_id := i, eep_proposer := st, eep_max_num_open_instances := ec_proposer_preexec_window_max cfg,
                    eep_proposer_count := proposer_count, eep_acceptor_count := acceptor_count\<rparr>
             in if ev_proposer_get_max_instances_to_skip p < 0 then None
                else case random_between draws 30 60 of
                  None \<Rightarrow> None
                | Some _ \<Rightarrow>
                    Some (p\<lparr>eep_instances_to_skip := replicate (nat (ev_proposer_get_max_instances_to_skip p)) (- 1),
                      eep_num_instances_to_skip := 0,
                      eep_last_heard_from_acceptor := map heap [0..<nat acceptor_count],
                      eep_round_robin_allocator := round_robin_allocator_new (word_of_int i) (word_of_int proposer_count)
                        (ballot_bias \<noteq> 0) (ec_round_robin_backoff cfg) (ec_max_ballot_increment cfg),
                      eep_acceptor_timeout_check_event := True, eep_timeout_event := True, eep_random_seed_event := True,
                      eep_proposer_state_event := True, eep_try_accept_event := True, eep_peers := peers,
                      eep_backoff_manager := backoff_manager_new (evproposer_backoff cfg), eep_preexec_once := True,
                      eep_retries := []\<rparr>))"

definition ev_epoch_proposer_init ::
    "(settings \<Rightarrow> ev_config) \<Rightarrow> u32 list \<Rightarrow> address ev_epoch_proposer \<Rightarrow> (nat \<Rightarrow> timeval) \<Rightarrow> (int \<Rightarrow> bool) \<Rightarrow> settings \<Rightarrow> int
       \<Rightarrow> string option \<Rightarrow> address ev_epoch_proposer outcome" where
  "ev_epoch_proposer_init cfg draws mem heap listen g i file =
     (case evpaxos_config_read g file of
        None \<Rightarrow> None
      | Some None \<Rightarrow> Some None
      | Some (Some (c, g)) \<Rightarrow>
          if i < 0 then Some None
          else case evpaxos_proposer_listen_port c i of
                 None \<Rightarrow> None
               | Some port \<Rightarrow>
                   if \<not> listen port then Some None
                   else map_option Some (ev_epoch_proposer_init_internal (cfg g) draws mem heap i c
                          (writeahead_epoch_paxos_peers_connect_to_other_proposers (conf_proposers c)
                             (writeahead_epoch_paxos_peers_connect_to_acceptors (conf_acceptors c) writeahead_epoch_paxos_peers_new i) i)
                          (evpaxos_proposer_count c) (evpaxos_acceptor_count c)))"

section \<open>A process runs its proposer\<close>

lemma reaches_trans:
  "epoch_proposer_reaches cfg s' s'' \<Longrightarrow> epoch_proposer_reaches cfg s s' \<Longrightarrow> epoch_proposer_reaches cfg s s''"
  by (induction rule: epoch_proposer_reaches.induct) (auto intro: epoch_proposer_reaches.step)

lemma reaches_step: "epoch_proposer_step cfg s s' \<Longrightarrow> epoch_proposer_reaches cfg s s'"
  by (blast intro: epoch_proposer_reaches.intros)

lemmas reaches_call = epoch_proposer_step.intros [THEN reaches_step]

text \<open>The process is at a proposer that \<open>s\<close> reaches.\<close>

abbreviation runs :: "ev_config \<Rightarrow> epoch_proposer \<Rightarrow> 'a ev_epoch_proposer \<Rightarrow> bool" where
  "runs cfg s p \<equiv> epoch_proposer_reaches (ec_paxos cfg) s (eep_proposer p)"

lemma runs_call: "runs cfg s p \<Longrightarrow> epoch_proposer_step (ec_paxos cfg) (eep_proposer p) st \<Longrightarrow> epoch_proposer_reaches (ec_paxos cfg) s st"
  by (rule epoch_proposer_reaches.step)

lemma loop_runs:
  assumes "send_loop cond body n t = Some (n', t', out)" "runs cfg s (fst t)"
    and "\<And>n t n' t' out. runs cfg s (fst t) \<Longrightarrow> body n t = Some (n', t', out) \<Longrightarrow> runs cfg s (fst t')"
  shows "runs cfg s (fst t')"
  using send_loop_invariant [OF assms(1), where I = "\<lambda>t. runs cfg s (fst t)" and Q = "\<lambda>_. True"] assms(2,3) by blast

lemma accept_round_runs:
  assumes "runs cfg s (fst t)" "ev_epoch_proposer_accept_round cfg env n t = Some (n', t', out)"
  shows "runs cfg s (fst t')"
  using assms by (cases t)
    (auto simp: ev_epoch_proposer_accept_round_def split: option.splits dest!: epoch_proposer_step.accept,
      (erule (1) epoch_proposer_reaches.step)+)

lemma try_accept_runs:
  assumes "runs cfg s p" "ev_epoch_proposer_try_accept cfg env p = Some (p', out)"
  shows "runs cfg s p'"
proof -
  from assms(2) obtain n b where loop: "send_loop snd (ev_epoch_proposer_accept_round cfg env) 0 (p, True) = Some (n, (p', b), out)"
    by (auto simp: ev_epoch_proposer_try_accept_def)
  have "runs cfg s (fst (p', b))" by (rule loop_runs [OF loop]) (use assms(1) in simp, rule accept_round_runs)
  then show ?thesis by simp
qed

lemma begin_round_runs:
  assumes "runs cfg s (fst t)" "ev_epoch_proposer_begin_round cfg env junk n t = Some (n', t', out)"
  shows "runs cfg s (fst t')"
proof -
  obtain p count where t: "t = (p, count)" by fastforce
  let ?i = "epoch_proposer_get_current_instance (eep_proposer p)" and ?st = "eep_proposer p"
  have next_runs: "epoch_proposer_reaches (ec_paxos cfg) s (epoch_proposer_next_instance st)"
    if "epoch_proposer_reaches (ec_paxos cfg) s st" for st
    using that by (rule epoch_proposer_reaches.step) (rule epoch_proposer_step.next_instance)
  show ?thesis
  proof (cases "should_skip_instance p ?i")
    case True
    with assms next_runs show ?thesis by (auto simp: ev_epoch_proposer_begin_round_def t)
  next
    case False
    with assms(2) obtain b where b: "round_robin_allocator_get_ballot (env_rand (env n)) (eep_round_robin_allocator p) ?i = Some b"
      by (cases "round_robin_allocator_get_ballot (env_rand (env n)) (eep_round_robin_allocator p) ?i")
        (simp_all add: ev_epoch_proposer_begin_round_def t)
    let ?start = "epoch_proposer_try_to_start_preparing_instance (env_now (env n)) ?st ?i
        (Epoch_Ballot (epoch_proposer_get_current_known_epoch ?st) b)"
    obtain st pr where start: "?start = (st, pr)" by fastforce
    have "epoch_proposer_step (ec_paxos cfg) ?st (fst ?start)" by (rule epoch_proposer_step.prepare)
    then have "epoch_proposer_reaches (ec_paxos cfg) s st"
      using assms(1) by (simp add: t start epoch_proposer_reaches.step)
    with assms(2) False next_runs show ?thesis
      by (auto simp: ev_epoch_proposer_begin_round_def t b start Let_def split: option.splits)
  qed
qed

lemma begin_new_instances_runs:
  assumes "runs cfg s p" "ev_epoch_proposer_try_begin_new_instances cfg env junk p = Some (p', out)"
  shows "runs cfg s p'"
proof -
  from assms(2) obtain n b where loop: "send_loop (\<lambda>(p, count). count > 0) (ev_epoch_proposer_begin_round cfg env junk) 0
      (p, ev_epoch_proposer_instances_to_open p) = Some (n, (p', b), out)"
    by (auto simp: ev_epoch_proposer_try_begin_new_instances_def)
  have "runs cfg s (fst (p', b))" by (rule loop_runs [OF loop]) (use assms(1) in simp, rule begin_round_runs)
  then show ?thesis by simp
qed

lemma trim_instances_keeps_proposer [simp]: "eep_proposer (trim_instances_to_skip p i) = eep_proposer p"
  by (simp add: trim_instances_to_skip_def split_beta)

lemma try_higher_ballot_runs:
  assumes "runs cfg s p" "ev_epoch_proposer_try_higher_ballot cfg env junk p retry = Some (p', out)"
  shows "runs cfg s p'"
  using assms by (auto simp: ev_epoch_proposer_try_higher_ballot_def Let_def split: option.splits if_splits
      elim!: begin_new_instances_runs [rotated])

text \<open>The handlers of the messages.\<close>

lemma handle_promise_runs:
  assumes "runs cfg s p" "ev_epoch_proposer_handle_promise cfg env p q msg = Some (p', out)"
  shows "runs cfg s p'"
proof -
  note promise = runs_call [OF assms(1) epoch_proposer_step.promise]
  show ?thesis
    using assms by (cases msg) (auto simp: ev_epoch_proposer_handle_promise_def Let_def split: if_splits option.splits
        dest!: promise elim!: try_accept_runs [rotated])
qed

lemma handle_accepted_runs:
  assumes "runs cfg s p" "ev_epoch_proposer_handle_accepted cfg env junk p q msg = Some (p', out)"
  shows "runs cfg s p'"
proof -
  note accepted = runs_call [OF assms(1) epoch_proposer_step.accepted]
  show ?thesis
    using assms by (cases msg) (auto simp: ev_epoch_proposer_handle_accepted_def Let_def split: if_splits option.splits
        dest!: accepted elim!: begin_new_instances_runs [rotated])
qed

lemma check_and_add_keeps_proposer:
  "check_and_add_instance_chosen_to_skip p i = Some (p', r) \<Longrightarrow> eep_proposer p' = eep_proposer p"
  by (auto simp: check_and_add_instance_chosen_to_skip_def split: if_splits)

lemma handle_chosen_runs:
  assumes "runs cfg s p" "ev_epoch_proposer_handle_chosen cfg env junk p q msg = Some (p', out)"
  shows "runs cfg s p'"
proof (cases msg)
  case (WRITEAHEAD_INSTANCE_CHOSEN_AT_EPOCH_BALLOT c)
  note chosen = runs_call [OF assms(1) epoch_proposer_step.chosen]
  from assms(2) obtain st code where st: "epoch_proposer_receive_chosen (ec_paxos cfg) (eep_proposer p) c = Some (st, code)"
    by (auto simp: ev_epoch_proposer_handle_chosen_def WRITEAHEAD_INSTANCE_CHOSEN_AT_EPOCH_BALLOT split: option.splits)
  let ?p = "p\<lparr>eep_proposer := st\<rparr>"
  have p: "runs cfg s ?p" using chosen [OF st] by simp
  from assms(2) obtain p1 out1
    where p1: "(if code = MESSAGE_ACKNOWLEDGED then if ec_max_ballot_increment cfg = 0 then None
        else ev_epoch_proposer_try_begin_new_instances cfg env junk ?p else Some (?p, [])) = Some (p1, out1)"
      and p': "eep_proposer p' = eep_proposer p1"
    by (auto simp: ev_epoch_proposer_handle_chosen_def WRITEAHEAD_INSTANCE_CHOSEN_AT_EPOCH_BALLOT st Let_def
        split: option.splits if_splits dest!: check_and_add_keeps_proposer)
  have "runs cfg s p1" using p1 p by (auto split: if_splits elim!: begin_new_instances_runs [rotated])
  then show ?thesis by (simp add: p')
qed (use assms(2) in \<open>simp_all add: ev_epoch_proposer_handle_chosen_def\<close>)

lemma handle_preempted_runs:
  assumes "runs cfg s p" "ev_epoch_proposer_handle_preempted cfg env p q msg = Some (p', out)"
  shows "runs cfg s p'"
proof -
  note preempted = runs_call [OF assms(1) epoch_proposer_step.preempted]
  show ?thesis
    using assms by (cases msg) (auto simp: ev_epoch_proposer_handle_preempted_def Let_def split: if_splits option.splits
        dest!: preempted)
qed

lemma handle_trim_runs:
  assumes "runs cfg s p" "ev_epoch_proposer_handle_trim cfg env junk p q msg = Some (p', out)"
  shows "runs cfg s p'"
proof -
  note trim = runs_call [OF assms(1) epoch_proposer_step.trim]
  show ?thesis
    using assms trim by (cases msg) (auto simp: ev_epoch_proposer_handle_trim_def elim!: begin_new_instances_runs [rotated])
qed

lemma handle_client_value_runs:
  assumes "runs cfg s p" "ev_epoch_proposer_handle_client_value cfg env p q msg = Some (p', out)"
  shows "runs cfg s p'"
proof -
  note add = runs_call [OF assms(1) epoch_proposer_step.add_value]
  show ?thesis
    using assms by (cases msg) (auto simp: ev_epoch_proposer_handle_client_value_def split: option.splits
        dest!: add elim!: try_accept_runs [rotated])
qed

lemma handle_acceptor_state_runs:
  assumes "runs cfg s p" "ev_epoch_proposer_handle_acceptor_state cfg env junk now p q msg = Some (p', out)"
  shows "runs cfg s p'"
proof -
  note state = runs_call [OF assms(1) epoch_proposer_step.acceptor_state]
  show ?thesis
    using assms state by (cases msg) (auto simp: ev_epoch_proposer_handle_acceptor_state_def Let_def
        split: if_splits elim!: begin_new_instances_runs [rotated])
qed

lemma handle_proposer_state_runs:
  assumes "runs cfg s p" "ev_epoch_proposer_handle_epoch_proposer_state cfg env junk p q msg = Some (p', out)"
  shows "runs cfg s p'"
proof -
  note state = runs_call [OF assms(1) epoch_proposer_step.proposer_state]
  show ?thesis
    using assms state by (cases msg) (auto simp: ev_epoch_proposer_handle_epoch_proposer_state_def elim!: begin_new_instances_runs [rotated])
qed

lemma handle_notification_runs:
  assumes "runs cfg s p" "ev_epoch_proposer_handle_epoch_notification p q msg = Some (p', out)"
  shows "runs cfg s p'"
proof -
  note notified = runs_call [OF assms(1) epoch_proposer_step.notified]
  show ?thesis using assms notified by (cases msg) (auto simp: ev_epoch_proposer_handle_epoch_notification_def)
qed

lemma timed_out_rounds_run:
  assumes "runs cfg s (fst t)"
  shows "epoch_timed_out_prepare_round cfg env n t = Some (n', t', out) \<Longrightarrow> runs cfg s (fst t')"
    and "epoch_timed_out_accept_round cfg env n t = Some (n', t', out) \<Longrightarrow> runs cfg s (fst t')"
proof -
  obtain p iter go where t: "t = (p, iter, go)" by (cases t)
  have p: "runs cfg s p" using assms by (simp add: t)
  note prepare = runs_call [OF p epoch_proposer_step.timeout_prepare] and accept = runs_call [OF p epoch_proposer_step.timeout_accept]
  show "epoch_timed_out_prepare_round cfg env n t = Some (n', t', out) \<Longrightarrow> runs cfg s (fst t')"
    by (auto simp: epoch_timed_out_prepare_round_def t split: prod.splits option.splits dest!: prepare)
  show "epoch_timed_out_accept_round cfg env n t = Some (n', t', out) \<Longrightarrow> runs cfg s (fst t')"
    by (auto simp: epoch_timed_out_accept_round_def t split: prod.splits option.splits dest!: accept)
qed

lemma check_timeouts_run:
  assumes "runs cfg s p" "ev_epoch_proposer_check_timeouts cfg env p = Some (p', out)"
  shows "runs cfg s p'"
proof -
  from assms(2) obtain n p1 iter b out1 n2 p2 iter2 b2 out2
    where 1: "send_loop (\<lambda>(_, _, more). more) (epoch_timed_out_prepare_round cfg env) 1
        (p, epoch_proposer_timeout_iterator_new (env_now (env 0)), True) = Some (n, (p1, iter, b), out1)"
      and 2: "send_loop (\<lambda>(_, _, more). more) (epoch_timed_out_accept_round cfg env) n (p1, iter, True) = Some (n2, (p2, iter2, b2), out2)"
      and p': "p' = p2\<lparr>eep_timeout_event := True\<rparr>"
    by (auto simp: ev_epoch_proposer_check_timeouts_def split: option.splits)
  have "runs cfg s (fst (p1, iter, b))" by (rule loop_runs [OF 1]) (use assms(1) in simp, rule timed_out_rounds_run(1))
  then have "runs cfg s (fst (p2, iter2, b2))" by (intro loop_runs [OF 2]) (simp, rule timed_out_rounds_run(2))
  then show ?thesis by (simp add: p')
qed

text \<open>One callback of the process, as for the standard proposer.\<close>

inductive ev_epoch_proposer_step ::
    "ev_config \<Rightarrow> 'a ev_epoch_proposer \<Rightarrow> ('a, epoch_paxos_message) sends \<Rightarrow> 'a ev_epoch_proposer \<Rightarrow> bool" for cfg where
  message: "writeahead_epoch_paxos_dispatch_message (the (ev_epoch_proposer_subscriptions cfg env junk now)) q (Some (p, [])) msg
      = Some (p', out) \<Longrightarrow> ev_epoch_proposer_step cfg p out p'"
| retry: "r \<in> set (eep_retries p) \<Longrightarrow> ev_epoch_proposer_try_higher_ballot cfg env junk p r = Some (p', out)
    \<Longrightarrow> ev_epoch_proposer_step cfg p out p'"
| timeouts: "eep_timeout_event p \<Longrightarrow> ev_epoch_proposer_check_timeouts cfg env (p\<lparr>eep_timeout_event := False\<rparr>) = Some (p', out)
    \<Longrightarrow> ev_epoch_proposer_step cfg p out p'"
| acceptor_timeouts: "eep_acceptor_timeout_check_event p \<Longrightarrow>
    ev_epoch_proposer_step cfg p [] (ev_epoch_proposer_check_acceptor_timeouts cfg env (p\<lparr>eep_acceptor_timeout_check_event := False\<rparr>))"
| random_seed: "eep_random_seed_event p \<Longrightarrow>
    ev_epoch_proposer_step cfg p [] (ev_epoch_proposer_gen_random_seed (p\<lparr>eep_random_seed_event := False\<rparr>))"
| state: "eep_proposer_state_event p \<Longrightarrow> ev_epoch_proposer_state_event (p\<lparr>eep_proposer_state_event := False\<rparr>) = (p', out)
    \<Longrightarrow> ev_epoch_proposer_step cfg p out p'"
| accepts: "eep_try_accept_event p \<Longrightarrow> epoch_try_accept_event cfg env (p\<lparr>eep_try_accept_event := False\<rparr>) = Some (p', out)
    \<Longrightarrow> ev_epoch_proposer_step cfg p out p'"
| first: "eep_preexec_once p \<Longrightarrow> ev_epoch_proposer_preexec_once cfg env junk (p\<lparr>eep_preexec_once := False\<rparr>) = Some (p', out)
    \<Longrightarrow> ev_epoch_proposer_step cfg p out p'"

inductive ev_epoch_proposer_runs :: "ev_config \<Rightarrow> 'a ev_epoch_proposer \<Rightarrow> 'a ev_epoch_proposer \<Rightarrow> bool" for cfg p where
  init: "ev_epoch_proposer_runs cfg p p"
| step: "ev_epoch_proposer_runs cfg p p' \<Longrightarrow> ev_epoch_proposer_step cfg p' out p'' \<Longrightarrow> ev_epoch_proposer_runs cfg p p''"

lemma message_runs:
  assumes "runs cfg s p"
    and "writeahead_epoch_paxos_dispatch_message (the (ev_epoch_proposer_subscriptions cfg env junk now)) q (Some (p, [])) msg = Some (p', out)"
  shows "runs cfg s p'"
  using assms
  by (cases msg; auto simp: writeahead_epoch_paxos_dispatch_message_def ev_epoch_proposer_subscriptions_def subscribe_all_eq
      elim: handle_promise_runs [rotated] handle_accepted_runs [rotated] handle_preempted_runs [rotated]
        handle_client_value_runs [rotated] handle_acceptor_state_runs [rotated] handle_chosen_runs [rotated]
        handle_notification_runs [rotated] handle_trim_runs [rotated] handle_proposer_state_runs [rotated])

lemma ev_epoch_proposer_step_runs:
  assumes "ev_epoch_proposer_step cfg p out p'"
  shows "runs cfg (eep_proposer p) p'"
  using assms
proof (cases rule: ev_epoch_proposer_step.cases)
  case (message env junk now q msg)
  then show ?thesis using message_runs [OF epoch_proposer_reaches.init] by blast
next
  case (retry r env junk)
  then show ?thesis using try_higher_ballot_runs [OF epoch_proposer_reaches.init] by blast
next
  case (timeouts env)
  then show ?thesis using check_timeouts_run [OF epoch_proposer_reaches.init timeouts(2)] by simp
next
  case (acceptor_timeouts env)
  then show ?thesis by (simp add: ev_epoch_proposer_check_acceptor_timeouts_def Let_def epoch_proposer_reaches.init)
next
  case random_seed
  then show ?thesis by (simp add: ev_epoch_proposer_gen_random_seed_def epoch_proposer_reaches.init)
next
  case state
  then show ?thesis by (auto simp: ev_epoch_proposer_state_event_def epoch_proposer_reaches.init)
next
  case (accepts env)
  let ?p = "p\<lparr>eep_try_accept_event := False\<rparr>"
  from accepts(2) obtain n p1 b where loop: "send_loop snd (ev_epoch_proposer_accept_round cfg env) 0 (?p, True) = Some (n, (p1, b), out)"
    and p': "p' = p1\<lparr>eep_try_accept_event := True\<rparr>" by (auto simp: epoch_try_accept_event_def)
  have "runs cfg (eep_proposer ?p) (fst (p1, b))"
    by (rule loop_runs [OF loop]) (simp add: epoch_proposer_reaches.init, rule accept_round_runs)
  then show ?thesis by (simp add: p')
next
  case (first env junk)
  then show ?thesis
    using begin_new_instances_runs [OF epoch_proposer_reaches.init, of cfg env junk "p\<lparr>eep_preexec_once := False\<rparr>" p' out]
    by (simp add: ev_epoch_proposer_preexec_once_def)
qed

lemma ev_epoch_proposer_runs_reaches: "ev_epoch_proposer_runs cfg p p' \<Longrightarrow> runs cfg (eep_proposer p) p'"
  by (induction rule: ev_epoch_proposer_runs.induct)
    (auto intro: epoch_proposer_reaches.init dest: ev_epoch_proposer_step_runs reaches_trans)

text \<open>
  C16: The epoch proposer process drives its proposer only through the calls of the proposer's interface: however messages,
  timers, retries, clocks and random numbers are interleaved, a run of the process is a run of the proposer, so that its
  tables stay well formed, the epoch that it knows and its trim instance never go back, and it forgets no chosen instance.
\<close>

theorem epoch_process_refines_proposer:
  assumes "ev_epoch_proposer_runs cfg p p'"
  shows "epoch_proposer_reaches (ec_paxos cfg) (eep_proposer p) (eep_proposer p')
    \<and> (epoch_proposer_wf (eep_proposer p) \<longrightarrow> epoch_proposer_wf (eep_proposer p')
        \<and> ep_known_highest_epoch (eep_proposer p) \<le> ep_known_highest_epoch (eep_proposer p')
        \<and> ep_trim_instance (eep_proposer p) \<le> ep_trim_instance (eep_proposer p')
        \<and> ep_chosen_instances (eep_proposer p) \<subseteq>\<^sub>m ep_chosen_instances (eep_proposer p'))"
  using ev_epoch_proposer_runs_reaches [OF assms] epoch_proposer_reaches_keeps by (fastforce simp: evolves_def)

definition sample_epoch_process :: "value_proposal_manager \<Rightarrow> address ev_epoch_proposer" where
  "sample_epoch_process m =
     \<lparr>eep_acceptor_count = 3, eep_last_heard_from_acceptor = replicate 3 \<lparr>tv_sec = 0, tv_usec = 0\<rparr>,
      eep_max_num_open_instances = 1,
      eep_proposer = (epoch_proposer_new (ec_paxos sample_ev_config) 0 3 2 2 10)
        \<lparr>ep_value_proposal_manager := m, ep_next_prepare_instance := 1\<rparr>,
      eep_peers = writeahead_epoch_paxos_peers_connect_to_acceptors (conf_acceptors two_proposers) writeahead_epoch_paxos_peers_new 0,
      eep_timeout_event = True, eep_backoff_manager = backoff_manager_new (evproposer_backoff sample_ev_config),
      eep_round_robin_allocator = round_robin_allocator_new 0 2 True False 10, eep_random_seed_event = True,
      eep_instances_to_skip = [- 1, - 1], eep_num_instances_to_skip = 0, eep_proposer_state_event = True,
      eep_acceptor_timeout_check_event = True, eep_try_accept_event = True, eep_preexec_once = True,
      eep_proposer_count = 2, eep_id = 0, eep_retries = []\<rparr>"

theorem epoch_process_refines_proposer_witness:
  "let p = sample_epoch_process (value_proposal_manager_new 2 False) in
     \<exists>p'. ev_epoch_proposer_runs sample_ev_config p p' \<and> epoch_proposer_wf (eep_proposer p') \<and> length (ep_prepare_infos (eep_proposer p')) = 1"
proof -
  let ?p = "sample_epoch_process (value_proposal_manager_new 2 False)"
  have "map_option (\<lambda>(p, out). length (ep_prepare_infos (eep_proposer p)))
      (ev_epoch_proposer_preexec_once sample_ev_config sample_env (\<lambda>_. None) (?p\<lparr>eep_preexec_once := False\<rparr>)) = Some 1"
    by code_simp
  then obtain p' out where first: "ev_epoch_proposer_preexec_once sample_ev_config sample_env (\<lambda>_. None)
      (?p\<lparr>eep_preexec_once := False\<rparr>) = Some (p', out)" and one: "length (ep_prepare_infos (eep_proposer p')) = 1" by auto
  have "ev_epoch_proposer_step sample_ev_config ?p out p'"
    by (rule ev_epoch_proposer_step.first [OF _ first]) (simp add: sample_epoch_process_def)
  then have run: "ev_epoch_proposer_runs sample_ev_config ?p p'" by (blast intro: ev_epoch_proposer_runs.intros)
  have "epoch_proposer_wf (eep_proposer ?p)"
    by (simp add: sample_epoch_process_def epoch_proposer_wf_def epoch_proposer_new_def phase_has_values_def)
  with epoch_process_refines_proposer [OF run] run one show ?thesis unfolding Let_def by blast
qed

section \<open>The array of instances to skip\<close>

lemma add_to_skip:
  assumes "eep_num_instances_to_skip p \<le> length (eep_instances_to_skip p)"
    and "check_and_add_instance_chosen_to_skip p i = Some (p', r)"
  shows "eep_num_instances_to_skip p' \<le> length (eep_instances_to_skip p')
    \<and> length (eep_instances_to_skip p') = length (eep_instances_to_skip p)
    \<and> (should_skip_instance p' j \<longleftrightarrow> should_skip_instance p j \<or> j = i)"
  using assms
  by (auto simp: check_and_add_instance_chosen_to_skip_def should_skip_instance_def take_Suc_conv_app_nth Suc_le_eq split: if_splits)

text \<open>
  The array is not checked for being full, and trimming shortens the part in use without moving what is behind, so that
  instances above the trim are forgotten.
\<close>

lemma full_skip_list_overflows:
  assumes "eep_num_instances_to_skip p = length (eep_instances_to_skip p)" "\<not> should_skip_instance p i"
  shows "check_and_add_instance_chosen_to_skip p i = None"
  using assms by (simp add: check_and_add_instance_chosen_to_skip_def should_skip_instance_def)

lemma trim_forgets_instances_to_skip:
  "let p = (sample_epoch_process (value_proposal_manager_new 2 False))\<lparr>eep_instances_to_skip := [3, 7], eep_num_instances_to_skip := 2\<rparr>
   in should_skip_instance p 7 \<and> \<not> should_skip_instance (trim_instances_to_skip p 5) 7"
  by code_simp

text \<open>
  An instance that was chosen already is not started, but a retry is scheduled for it with whatever was in the memory of
  the prepare; if that looks like a prepare of a pending instance, it is sent, whosever ballot it has.
\<close>

lemma unwritten_prepare_is_retried:
  "let p = (sample_epoch_process (value_proposal_manager_new 2 False));
       p = p\<lparr>eep_proposer := (eep_proposer p)\<lparr>ep_chosen_instances := [1 \<mapsto> True]\<rparr>\<rparr>;
       junk = (\<lambda>_. Some (STANDARD_PREPARE \<lparr>prep_iid = 3, prep_ballot = Ballot 9 1\<rparr>))
   in map_option (\<lambda>(p', out). (map fst (eep_retries p'), map (prep_iid \<circ> (\<lambda>m. case m of WRITEAHEAD_STANDARD_PREPARE pr \<Rightarrow> pr)) (map snd out)))
        (ev_epoch_proposer_preexec_once sample_ev_config sample_env junk p)
      = Some ([junk 0], [3, 3])
    \<and> Option.bind (ev_epoch_proposer_preexec_once sample_ev_config sample_env junk p)
        (\<lambda>(p', out). map_option (map snd \<circ> snd) (ev_epoch_proposer_try_higher_ballot sample_ev_config sample_env junk p' (hd (eep_retries p'))))
      = Some [WRITEAHEAD_STANDARD_PREPARE \<lparr>prep_iid = 3, prep_ballot = Ballot 9 1\<rparr>,
              WRITEAHEAD_STANDARD_PREPARE \<lparr>prep_iid = 3, prep_ballot = Ballot 9 1\<rparr>]"
  by code_simp

end
