(* ===== verification/Event_Replica.thy ===== *)
theory Event_Replica
  imports Event_Learners Event_Proposer
begin

text \<open>
  \<open>src/evpaxos/evreplica.c\<close>: a replica is an acceptor, a proposer and a learner in one process.  The operations of its
  interface are modelled; how it is put together is not, since its three parts share one array of peers, which the records
  of the parts keep each for itself, and since the function that it passes for delivery has a parameter more than the
  learner calls it with.
\<close>

record 'a evpaxos_replica =
  rep_peers :: "'a standard_paxos_peers"
  rep_learner :: "'a evlearner option"
  rep_proposer :: "'a evproposer"

definition evpaxos_replica_set_instance_id :: "ev_config \<Rightarrow> 'a evpaxos_replica \<Rightarrow> iid_t \<Rightarrow> 'a evpaxos_replica option" where
  "evpaxos_replica_set_instance_id cfg r i =
     map_option (\<lambda>p. r\<lparr>rep_learner := map_option (\<lambda>l. evlearner_set_instance_id l i) (rep_learner r), rep_proposer := p\<rparr>)
       (evproposer_set_instance_id cfg (rep_proposer r) i)"

definition evpaxos_replica_send_trim :: "'a evpaxos_replica \<Rightarrow> iid_t \<Rightarrow> ('a, standard_paxos_message) sends" where
  "evpaxos_replica_send_trim r i = to_all (peers_foreach_acceptor (rep_peers r)) (PAXOS_TRIM \<lparr>trim_iid = i\<rparr>)"

text \<open>The acceptors are tried by their ids; \<open>None\<close> is an id that no peer has.\<close>

fun submit_to_first ::
    "('a peer \<Rightarrow> bool) \<Rightarrow> 'a standard_paxos_peers \<Rightarrow> int list \<Rightarrow> paxos_value \<Rightarrow> ('a, standard_paxos_message) sends option" where
  "submit_to_first connected ps [] v = Some []"
| "submit_to_first connected ps (i # is) v =
     (case peers_get_acceptor ps i of
        Some (Some p) \<Rightarrow> if connected p then Some [(p, PAXOS_CLIENT_VALUE v)] else submit_to_first connected ps is v
      | _ \<Rightarrow> None)"

definition evpaxos_replica_submit ::
    "('a peer \<Rightarrow> bool) \<Rightarrow> 'a evpaxos_replica \<Rightarrow> paxos_value \<Rightarrow> ('a, standard_paxos_message) sends option" where
  "evpaxos_replica_submit connected r v = submit_to_first connected (rep_peers r) [0..peers_count (rep_peers r) - 1] v"

definition evpaxos_replica_count :: "'a evpaxos_replica \<Rightarrow> int" where
  "evpaxos_replica_count r = peers_count (rep_peers r)"

text \<open>With the ids that connecting to the acceptors gives, a value goes to exactly one acceptor, and to one that is connected.\<close>

lemma submit_to_first_result:
  assumes "\<forall>i \<in> set is. \<exists>p \<in> set (pp_peers ps). peer_id p = i"
  shows "\<exists>out. submit_to_first connected ps is v = Some out
    \<and> (out = [] \<and> (\<forall>i \<in> set is. \<forall>p. find (\<lambda>q. peer_id q = i) (pp_peers ps) = Some p \<longrightarrow> \<not> connected p)
       \<or> (\<exists>p \<in> set (pp_peers ps). connected p \<and> out = [(p, PAXOS_CLIENT_VALUE v)]))"
  using assms
proof (induction "is")
  case (Cons i "is")
  then obtain p where p: "find (\<lambda>q. peer_id q = i) (pp_peers ps) = Some p"
    by (metis (mono_tags, lifting) find_None_iff list.set_intros(1) not_None_eq)
  then have "pp_peers ps \<noteq> []" "p \<in> set (pp_peers ps)" by (auto simp: find_Some_iff)
  then show ?case using p Cons by (auto simp: peers_get_acceptor_def)
qed simp

lemma submit_reaches_connected_acceptor:
  assumes "peer_id ` set (pp_peers (rep_peers r)) = {0..<peers_count (rep_peers r)}" "distinct (map peer_id (pp_peers (rep_peers r)))"
    and "p \<in> set (pp_peers (rep_peers r))" "connected p"
  shows "\<exists>q \<in> set (pp_peers (rep_peers r)). connected q \<and> evpaxos_replica_submit connected r v = Some [(q, PAXOS_CLIENT_VALUE v)]"
proof -
  let ?ps = "pp_peers (rep_peers r)" and ?is = "[0..peers_count (rep_peers r) - 1]"
  have "peer_id p \<in> {0..<peers_count (rep_peers r)}" using assms(1,3) by blast
  then have i: "peer_id p \<in> set ?is" by auto
  have "set ?is \<subseteq> peer_id ` set ?ps" using assms(1) by auto
  then have "\<forall>i \<in> set ?is. \<exists>p \<in> set ?ps. peer_id p = i" by auto
  from submit_to_first_result [OF this, of connected v] obtain out where out: "submit_to_first connected (rep_peers r) ?is v = Some out"
    "out = [] \<and> (\<forall>i \<in> set ?is. \<forall>p. find (\<lambda>q. peer_id q = i) ?ps = Some p \<longrightarrow> \<not> connected p)
       \<or> (\<exists>p \<in> set ?ps. connected p \<and> out = [(p, PAXOS_CLIENT_VALUE v)])" by blast
  have "find (\<lambda>q. peer_id q = peer_id p) ?ps = Some p"
  proof -
    obtain q where q: "find (\<lambda>q. peer_id q = peer_id p) ?ps = Some q"
      using assms(3) by (metis (mono_tags, lifting) find_None_iff not_None_eq)
    then have "q \<in> set ?ps" "peer_id q = peer_id p" by (auto simp: find_Some_iff)
    with assms(2,3) q show ?thesis by (auto simp: distinct_map dest: inj_onD)
  qed
  with out i assms(4) show ?thesis by (auto simp: evpaxos_replica_submit_def)
qed

end
