(* ===== verification/Khash.thy ===== *)
theory Khash
  imports Paxos_Prelude "HOL-Library.Multiset"
begin

text \<open>
  \<open>src/paxos/include/khash.h\<close>: the hash table behind every table of the library, as \<open>KHASH_MAP_INIT_INT\<close> instantiates
  it (32-bit keys, the identity as hash function).  Buckets are probed at triangular distances; two flag bits
  per bucket say whether it is empty or deleted; resizing moves the entries in place by kicking out those that are in
  the way.  The theory shows that a table is a finite map, which is how the other theories model it, and that its loops
  end.
\<close>

unbundle bit_operations_syntax

section \<open>The flags\<close>

text \<open>
  Sixteen buckets share a word.  The masks of C are \<open>unsigned long\<close>, but none of their bits beyond the 32nd reaches the
  word.
\<close>

definition ac_shift :: "u32 \<Rightarrow> nat" where
  "ac_shift i = unat (push_bit 1 (i AND 0xF))"

definition ac_word :: "u32 list \<Rightarrow> u32 \<Rightarrow> u32" where
  "ac_word flag i = flag ! unat (drop_bit 4 i)"

definition ac_isempty :: "u32 list \<Rightarrow> u32 \<Rightarrow> bool" where
  "ac_isempty flag i \<longleftrightarrow> drop_bit (ac_shift i) (ac_word flag i) AND 2 \<noteq> 0"

definition ac_isdel :: "u32 list \<Rightarrow> u32 \<Rightarrow> bool" where
  "ac_isdel flag i \<longleftrightarrow> drop_bit (ac_shift i) (ac_word flag i) AND 1 \<noteq> 0"

definition ac_iseither :: "u32 list \<Rightarrow> u32 \<Rightarrow> bool" where
  "ac_iseither flag i \<longleftrightarrow> drop_bit (ac_shift i) (ac_word flag i) AND 3 \<noteq> 0"

definition ac_set_isempty_false :: "u32 list \<Rightarrow> u32 \<Rightarrow> u32 list" where
  "ac_set_isempty_false flag i = flag[unat (drop_bit 4 i) := ac_word flag i AND NOT (push_bit (ac_shift i) 2)]"

definition ac_set_isboth_false :: "u32 list \<Rightarrow> u32 \<Rightarrow> u32 list" where
  "ac_set_isboth_false flag i = flag[unat (drop_bit 4 i) := ac_word flag i AND NOT (push_bit (ac_shift i) 3)]"

definition ac_set_isdel_true :: "u32 list \<Rightarrow> u32 \<Rightarrow> u32 list" where
  "ac_set_isdel_true flag i = flag[unat (drop_bit 4 i) := ac_word flag i OR push_bit (ac_shift i) 1]"

definition ac_fsize :: "u32 \<Rightarrow> u32" where
  "ac_fsize m = (if m < 16 then 1 else drop_bit 4 m)"

definition kroundup32 :: "u32 \<Rightarrow> u32" where
  "kroundup32 x =
     (let x = x - 1; x = x OR drop_bit 1 x; x = x OR drop_bit 2 x; x = x OR drop_bit 4 x; x = x OR drop_bit 8 x;
          x = x OR drop_bit 16 x
      in x + 1)"

text \<open>
  \<open>(khint_t)(n * __ac_HASH_UPPER + 0.5)\<close> is computed for powers of two only.  For these the product is exact, and
  \<open>0.77 n + 0.5\<close> is at least one hundredth away from an integer, so that the rounding of \<open>0.77\<close> to a \<open>double\<close> does not
  change the result.
\<close>

definition ac_upper_bound :: "u32 \<Rightarrow> u32" where
  "ac_upper_bound n = of_nat ((77 * unat n + 50) div 100)"

section \<open>The operations\<close>

record 'v khash =
  kh_n_buckets :: u32
  kh_size :: u32
  kh_n_occupied :: u32
  kh_upper_bound :: u32
  kh_flags :: "u32 list"
  kh_keys :: "u32 list"
  kh_vals :: "'v list"

text \<open>
  What the allocations of one call of \<open>kh_resize\<close> do: whether there is memory for the flags, and, unless \<open>krealloc\<close>
  fails, what the cells hold that it adds to the keys and to the values.
\<close>

record 'v kh_memory =
  mem_flags :: bool
  mem_keys :: "(nat \<Rightarrow> u32) option"
  mem_vals :: "(nat \<Rightarrow> 'v) option"

definition krealloc :: "(nat \<Rightarrow> 'a) \<Rightarrow> u32 \<Rightarrow> 'a list \<Rightarrow> 'a list" where
  "krealloc fresh n xs = take (unat n) xs @ map fresh [length xs..<unat n]"

definition kh_init :: "'v khash" where
  "kh_init = \<lparr>kh_n_buckets = 0, kh_size = 0, kh_n_occupied = 0, kh_upper_bound = 0, kh_flags = [], kh_keys = [], kh_vals = []\<rparr>"

definition kh_clear :: "'v khash \<Rightarrow> 'v khash" where
  "kh_clear h =
     (if kh_flags h \<noteq> []
      then h\<lparr>kh_flags := replicate (unat (ac_fsize (kh_n_buckets h))) 0xAAAAAAAA @ drop (unat (ac_fsize (kh_n_buckets h))) (kh_flags h),
             kh_size := 0, kh_n_occupied := 0\<rparr>
      else h)"

partial_function (option) kh_get_loop :: "'v khash \<Rightarrow> u32 \<Rightarrow> u32 \<Rightarrow> u32 \<Rightarrow> u32 \<Rightarrow> u32 \<Rightarrow> u32 option" where
  "kh_get_loop h key msk first i step =
     (if \<not> ac_isempty (kh_flags h) i \<and> (ac_isdel (kh_flags h) i \<or> kh_keys h ! unat i \<noteq> key)
      then let step = step + 1; i = (i + step) AND msk
           in if i = first then Some (kh_n_buckets h) else kh_get_loop h key msk first i step
      else Some (if ac_iseither (kh_flags h) i then kh_n_buckets h else i))"

definition kh_get :: "'v khash \<Rightarrow> u32 \<Rightarrow> u32 option" where
  "kh_get h key =
     (if kh_n_buckets h \<noteq> 0
      then let msk = kh_n_buckets h - 1; i = key AND msk in kh_get_loop h key msk i i 0
      else Some 0)"

record 'v rehash =
  rh_flags :: "u32 list"
  rh_new_flags :: "u32 list"
  rh_keys :: "u32 list"
  rh_vals :: "'v list"

partial_function (option) kh_find_empty :: "u32 list \<Rightarrow> u32 \<Rightarrow> u32 \<Rightarrow> u32 \<Rightarrow> u32 option" where
  "kh_find_empty new_flags new_mask i step =
     (if \<not> ac_isempty new_flags i
      then let step = step + 1 in kh_find_empty new_flags new_mask ((i + step) AND new_mask) step
      else Some i)"

partial_function (option) kh_kick_out :: "u32 \<Rightarrow> u32 \<Rightarrow> u32 \<Rightarrow> 'v \<Rightarrow> 'v rehash \<Rightarrow> 'v rehash option" where
  "kh_kick_out n_buckets new_mask key val s =
     Option.bind (kh_find_empty (rh_new_flags s) new_mask (key AND new_mask) 0) (\<lambda>i.
       let s' = s\<lparr>rh_new_flags := ac_set_isempty_false (rh_new_flags s) i,
                  rh_keys := (rh_keys s)[unat i := key], rh_vals := (rh_vals s)[unat i := val]\<rparr>
       in if i < n_buckets \<and> \<not> ac_iseither (rh_flags s) i
          then kh_kick_out n_buckets new_mask (rh_keys s ! unat i) (rh_vals s ! unat i)
                 (s'\<lparr>rh_flags := ac_set_isdel_true (rh_flags s) i\<rparr>)
          else Some s')"

definition kh_rehash_bucket :: "u32 \<Rightarrow> u32 \<Rightarrow> u32 \<Rightarrow> 'v rehash \<Rightarrow> 'v rehash option" where
  "kh_rehash_bucket n_buckets new_mask j s =
     (if \<not> ac_iseither (rh_flags s) j
      then kh_kick_out n_buckets new_mask (rh_keys s ! unat j) (rh_vals s ! unat j)
             (s\<lparr>rh_flags := ac_set_isdel_true (rh_flags s) j\<rparr>)
      else Some s)"

fun kh_rehash :: "u32 \<Rightarrow> u32 \<Rightarrow> u32 list \<Rightarrow> 'v rehash \<Rightarrow> 'v rehash option" where
  "kh_rehash n_buckets new_mask [] s = Some s"
| "kh_rehash n_buckets new_mask (j # js) s =
     Option.bind (kh_rehash_bucket n_buckets new_mask j s) (kh_rehash n_buckets new_mask js)"

text \<open>The result is 0, or \<open>-1\<close> when memory is short; then the keys may have been reallocated already.\<close>

definition kh_expand :: "'v kh_memory \<Rightarrow> 'v khash \<Rightarrow> u32 \<Rightarrow> 'v khash \<times> int" where
  "kh_expand mem h n =
     (if \<not> mem_flags mem then (h, - 1)
      else if kh_n_buckets h < n
      then (case mem_keys mem of
              None \<Rightarrow> (h, - 1)
            | Some fresh \<Rightarrow>
                let h = h\<lparr>kh_keys := krealloc fresh n (kh_keys h)\<rparr>
                in (case mem_vals mem of
                      None \<Rightarrow> (h, - 1)
                    | Some fresh \<Rightarrow> (h\<lparr>kh_vals := krealloc fresh n (kh_vals h)\<rparr>, 0)))
      else (h, 0))"

definition kh_moved :: "'v khash \<Rightarrow> u32 \<Rightarrow> 'v rehash \<Rightarrow> 'v khash" where
  "kh_moved h n s =
     h\<lparr>kh_keys := (if kh_n_buckets h > n then take (unat n) (rh_keys s) else rh_keys s),
       kh_vals := (if kh_n_buckets h > n then take (unat n) (rh_vals s) else rh_vals s),
       kh_flags := rh_new_flags s, kh_n_buckets := n, kh_n_occupied := kh_size h, kh_upper_bound := ac_upper_bound n\<rparr>"

definition kh_resize :: "'v kh_memory \<Rightarrow> 'v khash \<Rightarrow> u32 \<Rightarrow> ('v khash \<times> int) option" where
  "kh_resize mem h new_n_buckets =
     (let n = kroundup32 new_n_buckets; n = (if n < 4 then 4 else n)
      in if kh_size h \<ge> ac_upper_bound n then Some (h, 0)
         else let (h, rv) = kh_expand mem h n
              in if rv < 0 then Some (h, rv)
                 else map_option (\<lambda>s. (kh_moved h n s, 0))
                        (kh_rehash (kh_n_buckets h) (n - 1) (map of_nat [0..<unat (kh_n_buckets h)])
                          \<lparr>rh_flags = kh_flags h, rh_new_flags = replicate (unat (ac_fsize n)) 0xAAAAAAAA,
                           rh_keys = kh_keys h, rh_vals = kh_vals h\<rparr>))"

partial_function (option) kh_put_loop ::
    "'v khash \<Rightarrow> u32 \<Rightarrow> u32 \<Rightarrow> u32 \<Rightarrow> u32 \<Rightarrow> u32 \<Rightarrow> u32 \<Rightarrow> (u32 \<times> u32 \<times> u32) option" where
  "kh_put_loop h key msk first i site step =
     (if \<not> ac_isempty (kh_flags h) i \<and> (ac_isdel (kh_flags h) i \<or> kh_keys h ! unat i \<noteq> key)
      then let site = (if ac_isdel (kh_flags h) i then i else site); step = step + 1; i = (i + step) AND msk
           in if i = first then Some (site, i, site) else kh_put_loop h key msk first i site step
      else Some (kh_n_buckets h, i, site))"

definition kh_put_bucket :: "'v khash \<Rightarrow> u32 \<Rightarrow> u32 option" where
  "kh_put_bucket h key =
     (let msk = kh_n_buckets h - 1; i = key AND msk
      in if ac_isempty (kh_flags h) i then Some i
         else map_option (\<lambda>(x, i, site).
                  if x = kh_n_buckets h
                  then (if ac_isempty (kh_flags h) i \<and> site \<noteq> kh_n_buckets h then site else i)
                  else x)
                (kh_put_loop h key msk i i (kh_n_buckets h) 0))"

definition kh_claim :: "'v khash \<Rightarrow> u32 \<Rightarrow> u32 \<Rightarrow> 'v khash \<times> int" where
  "kh_claim h key x =
     (let h' = h\<lparr>kh_keys := (kh_keys h)[unat x := key], kh_flags := ac_set_isboth_false (kh_flags h) x, kh_size := kh_size h + 1\<rparr>
      in if ac_isempty (kh_flags h) x then (h'\<lparr>kh_n_occupied := kh_n_occupied h + 1\<rparr>, 1)
         else if ac_isdel (kh_flags h) x then (h', 2)
         else (h, 0))"

definition kh_make_room :: "'v kh_memory \<Rightarrow> 'v khash \<Rightarrow> ('v khash \<times> int) option" where
  "kh_make_room mem h =
     (if kh_n_occupied h \<ge> kh_upper_bound h
      then kh_resize mem h (if kh_n_buckets h > push_bit 1 (kh_size h) then kh_n_buckets h - 1 else kh_n_buckets h + 1)
      else Some (h, 0))"

definition kh_put :: "'v kh_memory \<Rightarrow> 'v khash \<Rightarrow> u32 \<Rightarrow> ('v khash \<times> u32 \<times> int) option" where
  "kh_put mem h key =
     Option.bind (kh_make_room mem h) (\<lambda>(h, rv).
       if rv < 0 then Some (h, kh_n_buckets h, - 1)
       else map_option (\<lambda>x. case kh_claim h key x of (h, ret) \<Rightarrow> (h, x, ret)) (kh_put_bucket h key))"

definition kh_exist :: "'v khash \<Rightarrow> u32 \<Rightarrow> bool" where
  "kh_exist h x \<longleftrightarrow> \<not> ac_iseither (kh_flags h) x"

definition kh_del :: "'v khash \<Rightarrow> u32 \<Rightarrow> 'v khash" where
  "kh_del h x =
     (if x \<noteq> kh_n_buckets h \<and> \<not> ac_iseither (kh_flags h) x
      then h\<lparr>kh_flags := ac_set_isdel_true (kh_flags h) x, kh_size := kh_size h - 1\<rparr>
      else h)"

definition kh_key :: "'v khash \<Rightarrow> u32 \<Rightarrow> u32" where
  "kh_key h x = kh_keys h ! unat x"

definition kh_value :: "'v khash \<Rightarrow> u32 \<Rightarrow> 'v" where
  "kh_value h x = kh_vals h ! unat x"

text \<open>The assignment \<open>kh_value(h, x) = v\<close>.\<close>

definition kh_set_value :: "'v khash \<Rightarrow> u32 \<Rightarrow> 'v \<Rightarrow> 'v khash" where
  "kh_set_value h x v = h\<lparr>kh_vals := (kh_vals h)[unat x := v]\<rparr>"

text \<open>\<open>kh_foreach\<close> runs its code on whatever holds the table.\<close>

partial_function (option) kh_foreach_from ::
    "('s \<Rightarrow> 'v khash) \<Rightarrow> (u32 \<Rightarrow> 'v \<Rightarrow> 's \<Rightarrow> 's option) \<Rightarrow> u32 \<Rightarrow> 's \<Rightarrow> 's option" where
  "kh_foreach_from tbl code i s =
     (if i \<noteq> kh_n_buckets (tbl s)
      then Option.bind (if kh_exist (tbl s) i then code (kh_key (tbl s) i) (kh_value (tbl s) i) s else Some s)
             (kh_foreach_from tbl code (i + 1))
      else Some s)"

definition kh_foreach :: "('s \<Rightarrow> 'v khash) \<Rightarrow> (u32 \<Rightarrow> 'v \<Rightarrow> 's \<Rightarrow> 's option) \<Rightarrow> 's \<Rightarrow> 's option" where
  "kh_foreach tbl code s = kh_foreach_from tbl code 0 s"

declare kh_get_loop.simps [code] kh_find_empty.simps [code] kh_kick_out.simps [code] kh_put_loop.simps [code] kh_foreach_from.simps [code]

section \<open>Flags as sets of buckets\<close>

lemma bits_of_low_masks: "bit (0xF :: u32) n \<longleftrightarrow> n < 4" "bit (3 :: u32) n \<longleftrightarrow> n < 2"
proof -
  have "bit (mask 4 :: u32) n \<longleftrightarrow> n < 4" "bit (mask 2 :: u32) n \<longleftrightarrow> n < 2"
    by (auto simp only: bit_mask_iff possible_bit_word) auto
  then show "bit (0xF :: u32) n \<longleftrightarrow> n < 4" "bit (3 :: u32) n \<longleftrightarrow> n < 2" by (simp_all add: mask_numeral)
qed



lemma index_parts: "i = j \<longleftrightarrow> drop_bit 4 i = drop_bit 4 j \<and> i AND 0xF = (j AND 0xF :: u32)"
proof -
  have "x = push_bit 4 (drop_bit 4 x) OR (x AND 0xF)" for x :: u32
    by (rule bit_word_eqI) (auto simp: bit_simps bits_of_low_masks simp del: bit_numeral_word_iff)
  then show ?thesis by metis
qed

lemma index_low: "unat (i AND 0xF :: u32) < 16"
proof -
  have "i AND 0xF = take_bit 4 i"
    by (rule bit_word_eqI) (auto simp: bit_simps bits_of_low_masks simp del: bit_numeral_word_iff)
  then show ?thesis using take_bit_nat_less_exp [of 4 "unat i"] by (simp add: unsigned_take_bit_eq)
qed

lemma ac_shift_eq: "ac_shift i = 2 * unat (i AND 0xF)"
proof -
  have "unat (push_bit 1 (i AND 0xF)) = take_bit 32 (push_bit 1 (unat (i AND 0xF)))"
    by (simp only: unsigned_push_bit_eq len_num1 len_bit0) simp
  then show ?thesis using index_low [of i] by (simp add: ac_shift_def push_bit_eq_mult take_bit_nat_eq_self)
qed

lemma ac_shift_inj: "ac_shift i = ac_shift j \<longleftrightarrow> i AND 0xF = j AND 0xF"
  by (auto simp: ac_shift_eq word_unat_eq_iff)

lemma ac_shift_bounds: "ac_shift i < 31" "even (ac_shift i)"
  using index_low [of i] by (simp_all add: ac_shift_eq)

lemma bit_2_word: "bit (2 :: u32) n \<longleftrightarrow> n = 1"
  using bit_exp_iff [of 1 n, where 'a = u32] by (auto simp: possible_bit_word)

lemma and_mask_iffs:
  "x AND 2 \<noteq> 0 \<longleftrightarrow> bit (x :: u32) 1" "x AND 1 \<noteq> 0 \<longleftrightarrow> bit x 0" "x AND 3 \<noteq> 0 \<longleftrightarrow> bit x 1 \<or> bit x 0"
proof -
  show 1: "x AND 2 \<noteq> 0 \<longleftrightarrow> bit x 1" and 2: "x AND 1 \<noteq> 0 \<longleftrightarrow> bit x 0"
    by (auto simp: bit_eq_iff [where 'a = u32] bit_simps bit_2_word simp del: bit_numeral_word_iff bit_0)
  have "x AND 3 = (x AND 2) OR (x AND 1)"
    by (rule bit_word_eqI)
      (auto simp: bit_simps bits_of_low_masks bit_2_word less_2_cases_iff simp del: bit_numeral_word_iff bit_0)
  then show "x AND 3 \<noteq> 0 \<longleftrightarrow> bit x 1 \<or> bit x 0" by (simp only: or_eq_0_iff de_Morgan_conj 1 2)
qed

lemma ac_flag_bits:
  "ac_isempty f i = bit (ac_word f i) (ac_shift i + 1)"
  "ac_isdel f i = bit (ac_word f i) (ac_shift i)"
  by (simp_all only: ac_isempty_def ac_isdel_def and_mask_iffs bit_drop_bit_eq o_def add_0_right)

lemma ac_iseither_iff: "ac_iseither f i \<longleftrightarrow> ac_isempty f i \<or> ac_isdel f i"
  by (simp only: ac_iseither_def ac_isempty_def ac_isdel_def and_mask_iffs)

lemma ac_set_length [simp]:
  "length (ac_set_isempty_false f i) = length f" "length (ac_set_isboth_false f i) = length f" "length (ac_set_isdel_true f i) = length f"
  by (simp_all add: ac_set_isempty_false_def ac_set_isboth_false_def ac_set_isdel_true_def)

definition flag_at :: "u32 list \<Rightarrow> u32 \<Rightarrow> bool" where
  "flag_at f i \<longleftrightarrow> unat (drop_bit 4 i) < length f"

lemma ac_word_cong: "drop_bit 4 i = drop_bit 4 j \<Longrightarrow> ac_word f i = ac_word f j"
  by (simp add: ac_word_def)

lemma ac_word_update:
  assumes "flag_at f i"
  shows "ac_word (f[unat (drop_bit 4 i) := w]) j = (if drop_bit 4 i = drop_bit 4 j then w else ac_word f j)"
  using assms by (auto simp: ac_word_def flag_at_def nth_list_update word_unat_eq_iff)

lemma bit_pushed:
  "n < 32 \<Longrightarrow> bit (2 ^ s :: u32) n \<longleftrightarrow> n = s"
  "n < 32 \<Longrightarrow> bit (push_bit s (2 :: u32)) n \<longleftrightarrow> n = s + 1"
  "n < 32 \<Longrightarrow> bit (push_bit s (3 :: u32)) n \<longleftrightarrow> n = s \<or> n = s + 1"
  by (auto simp: bit_simps bits_of_low_masks bit_2_word simp del: bit_numeral_word_iff)

lemma ac_shift_not_Suc: "ac_shift i \<noteq> Suc (ac_shift j)"
  using ac_shift_bounds(2) [of i] ac_shift_bounds(2) [of j] by auto

lemma ac_set_flags:
  assumes "flag_at f i"
  shows "ac_isempty (ac_set_isempty_false f i) j \<longleftrightarrow> ac_isempty f j \<and> j \<noteq> i"
    and "ac_isdel (ac_set_isempty_false f i) j = ac_isdel f j"
    and "ac_isempty (ac_set_isboth_false f i) j \<longleftrightarrow> ac_isempty f j \<and> j \<noteq> i"
    and "ac_isdel (ac_set_isboth_false f i) j \<longleftrightarrow> ac_isdel f j \<and> j \<noteq> i"
    and "ac_isempty (ac_set_isdel_true f i) j = ac_isempty f j"
    and "ac_isdel (ac_set_isdel_true f i) j \<longleftrightarrow> ac_isdel f j \<or> j = i"
  using assms ac_shift_bounds(1) [of j] ac_shift_not_Suc [of j i] ac_shift_not_Suc [of i j]
  by (auto simp: ac_flag_bits ac_set_isempty_false_def ac_set_isboth_false_def ac_set_isdel_true_def ac_word_update
      bit_and_iff bit_or_iff bit_not_iff possible_bit_word bit_pushed index_parts [of j i] ac_shift_inj
      ac_word_cong [of i j] split: if_splits)

section \<open>Rounding up and probing\<close>

lemma bit_smear:
  assumes "\<And>n. bit y n \<longleftrightarrow> (\<exists>d<w. bit (x :: u32) (n + d))"
  shows "bit (y OR drop_bit w y) n \<longleftrightarrow> (\<exists>d<2 * w. bit x (n + d))"
proof -
  have "(\<exists>d<2 * w. bit x (n + d)) \<longleftrightarrow> (\<exists>d<w. bit x (n + d)) \<or> (\<exists>d<w. bit x (w + n + d))"
  proof (intro iffI; elim exE conjE disjE)
    fix d assume "d < 2 * w" "bit x (n + d)"
    then show "(\<exists>d<w. bit x (n + d)) \<or> (\<exists>d<w. bit x (w + n + d))"
    proof (cases "d < w")
      case False
      then have "d - w < w \<and> bit x (w + n + (d - w))" using \<open>d < 2 * w\<close> \<open>bit x (n + d)\<close> by (simp add: ac_simps)
      then show ?thesis by blast
    qed auto
  next
    fix d assume "d < w" "bit x (w + n + d)"
    then show "\<exists>d<2 * w. bit x (n + d)" by (intro exI [of _ "w + d"]) (simp add: ac_simps)
  next
    fix d assume "d < w" "bit x (n + d)"
    then show "\<exists>d<2 * w. bit x (n + d)" by (intro exI [of _ d]) simp
  qed
  then show ?thesis by (simp add: bit_simps assms)
qed

lemma bit_kroundup32: "bit (kroundup32 x - 1) n \<longleftrightarrow> (\<exists>d. bit (x - 1) (n + d))"
proof -
  define y where "y = x - 1"
  define y1 where "y1 = y OR drop_bit 1 y"
  define y2 where "y2 = y1 OR drop_bit 2 y1"
  define y4 where "y4 = y2 OR drop_bit 4 y2"
  define y8 where "y8 = y4 OR drop_bit 8 y4"
  have "bit y1 n \<longleftrightarrow> (\<exists>d<2 * 1. bit y (n + d))" for n unfolding y1_def by (rule bit_smear) simp
  then have "bit y2 n \<longleftrightarrow> (\<exists>d<2 * 2. bit y (n + d))" for n unfolding y2_def by (intro bit_smear) simp
  then have "bit y4 n \<longleftrightarrow> (\<exists>d<2 * 4. bit y (n + d))" for n unfolding y4_def by (intro bit_smear) simp
  then have "bit y8 n \<longleftrightarrow> (\<exists>d<2 * 8. bit y (n + d))" for n unfolding y8_def by (intro bit_smear) simp
  then have "bit (y8 OR drop_bit 16 y8) n \<longleftrightarrow> (\<exists>d<2 * 16. bit y (n + d))" for n by (intro bit_smear) simp
  moreover have "kroundup32 x - 1 = y8 OR drop_bit 16 y8"
    by (simp only: kroundup32_def Let_def y8_def y4_def y2_def y1_def y_def add_diff_cancel)
  moreover have "d < 2 * 16" if "bit y (n + d)" for d using bit_imp_le_length [OF that] by simp
  ultimately show ?thesis by (auto simp only: y_def)
qed

lemma word_bit_length:
  "\<exists>k\<le>32. (\<forall>n. bit (x :: u32) n \<longrightarrow> n < k) \<and> (0 < k \<longrightarrow> bit x (k - 1))"
proof (cases "x = 0")
  case False
  then have ne: "{n. bit x n} \<noteq> {}" by (auto simp: bit_eq_iff [where 'a = u32])
  have fin: "finite {n. bit x n}" by (rule finite_subset [of _ "{..<32}"]) (auto dest: bit_imp_le_length)
  have "bit x (Max {n. bit x n})" "\<forall>n. bit x n \<longrightarrow> n \<le> Max {n. bit x n}"
    using Max_in [OF fin ne] Max_ge [OF fin] by simp_all
  then show ?thesis using bit_imp_le_length [of x "Max {n. bit x n}"]
    by (intro exI [of _ "Suc (Max {n. bit x n})"]) (auto simp: less_Suc_eq_le)
qed auto

lemma kroundup32_power:
  obtains k where "k \<le> 32" "kroundup32 x = 2 ^ k" "unat (x - 1) < 2 ^ k" "0 < k \<Longrightarrow> 2 ^ (k - 1) \<le> unat (x - 1)"
proof -
  obtain k where k: "k \<le> 32" "\<And>n. bit (x - 1) n \<Longrightarrow> n < k" "0 < k \<Longrightarrow> bit (x - 1) (k - 1)"
    using word_bit_length [of "x - 1"] by blast
  have "(\<exists>d. bit (x - 1) (n + d)) \<longleftrightarrow> n < k" for n
    using k(2) k(3) by (cases "n < k") (auto intro: exI [of _ "k - 1 - n"] dest: k(2))
  then have "bit (kroundup32 x - 1) n \<longleftrightarrow> n < k" for n by (simp only: bit_kroundup32)
  then have "kroundup32 x - 1 = mask k"
    using k(1) by (intro bit_word_eqI) (simp add: bit_mask_iff possible_bit_word)
  then have "kroundup32 x = 2 ^ k" by (simp add: mask_eq_exp_minus_1)
  moreover have "x - 1 = take_bit k (x - 1)" by (rule bit_word_eqI) (auto simp: bit_take_bit_iff dest: k(2))
  then have "unat (x - 1) < 2 ^ k"
    by (metis take_bit_nat_less_exp unsigned_take_bit_eq)
  moreover have "2 ^ (k - 1) \<le> unat (x - 1)" if "0 < k"
  proof -
    have "bit (unat (x - 1)) (k - 1)" using k(3) [OF that] k(1) that by (simp add: bit_unsigned_iff)
    then have "unat (x - 1) div 2 ^ (k - 1) \<noteq> 0" by (metis bit_iff_odd even_zero)
    then show ?thesis by (auto simp: div_eq_0_iff)
  qed
  ultimately show ?thesis using that k(1) by blast
qed


text \<open>The bucket that is looked at after \<open>t\<close> steps.\<close>

definition probe :: "u32 \<Rightarrow> u32 \<Rightarrow> nat \<Rightarrow> u32" where
  "probe n key t = (key + of_nat (t * (t + 1) div 2)) AND (n - 1)"

lemma triangle_Suc: "Suc t * (Suc t + 1) div 2 = t * (t + 1) div 2 + Suc t"
proof -
  have "Suc t * (Suc t + 1) = t * (t + 1) + 2 * Suc t" by simp
  then show ?thesis by (simp only: div_mult_self2) 
qed

lemma probe_0: "probe n key 0 = key AND (n - 1)"
  by (simp add: probe_def)

lemma unat_masked:
  assumes "m \<le> 32"
  shows "unat ((w + of_nat a) AND (2 ^ m - 1 :: u32)) = (unat w + a) mod 2 ^ m"
proof -
  have "(2 :: nat) ^ m dvd 4294967296" using assms le_imp_power_dvd [of m 32 "2 :: nat"] by simp
  moreover have "(w + of_nat a) AND (2 ^ m - 1) = take_bit m (w + of_nat a)"
    by (simp only: take_bit_eq_mask mask_eq_exp_minus_1)
  then have "unat ((w + of_nat a) AND (2 ^ m - 1)) = take_bit m (unat (w + of_nat a))"
    by (simp only: unsigned_take_bit_eq)
  moreover have "unat (w + of_nat a) = (unat w + a) mod 4294967296"
    by (simp add: unat_word_ariths unat_of_nat mod_add_right_eq)
  ultimately show ?thesis by (simp add: take_bit_eq_mod mod_mod_cancel)
qed

lemma unat_probe: "m \<le> 32 \<Longrightarrow> unat (probe (2 ^ m) key t) = (unat key + t * (t + 1) div 2) mod 2 ^ m"
  by (simp only: probe_def unat_masked)

lemma probe_Suc:
  assumes "m \<le> 32"
  shows "(probe (2 ^ m) key t + of_nat (Suc t)) AND (2 ^ m - 1) = probe (2 ^ m) key (Suc t)"
proof -
  have "unat ((probe (2 ^ m) key t + of_nat (Suc t)) AND (2 ^ m - 1)) = (unat key + (t * (t + 1) div 2 + Suc t)) mod 2 ^ m"
    unfolding unat_masked [OF assms] unat_probe [OF assms] by (simp only: mod_add_left_eq add.assoc)
  also have "\<dots> = unat (probe (2 ^ m) key (Suc t))" by (simp only: unat_probe [OF assms] triangle_Suc)
  finally show ?thesis by (simp only: word_unat_eq_iff)
qed

lemma odd_factor_cancels: "2 ^ m dvd a * b \<Longrightarrow> odd (a :: nat) \<Longrightarrow> 2 ^ m dvd b"
  using coprime_dvd_mult_right_iff [of "2 ^ m" a b] by (simp add: coprime_commute)

lemma triangles_distinct:
  assumes "s < t" "t < 2 ^ m"
  shows "\<not> 2 ^ m dvd t * (t + 1) div 2 - s * (s + 1) div (2 :: nat)"
proof
  assume dvd: "2 ^ m dvd t * (t + 1) div 2 - s * (s + 1) div 2"
  obtain d where t: "t = s + d" "0 < d" using assms(1) by (metis less_imp_add_positive)
  have "2 * (t * (t + 1) div 2 - s * (s + 1) div 2) = t * (t + 1) - s * (s + 1)" by (simp add: diff_mult_distrib2)
  also have "\<dots> = d * (2 * s + d + 1)" using t by (simp add: algebra_simps)
  finally have two: "2 ^ Suc m dvd d * (2 * s + d + 1)" using dvd by (metis mult_dvd_mono dvd_refl power_Suc)
  show False
  proof (cases "odd d")
    case True
    then have "2 ^ Suc m dvd 2 * s + d + 1" using two odd_factor_cancels by blast
    then have "2 ^ Suc m \<le> 2 * s + d + 1" by (simp add: dvd_imp_le)
    with assms t show False by simp
  next
    case False
    then have "2 ^ Suc m dvd d" using two odd_factor_cancels [of "Suc m" "2 * s + d + 1" d] by (simp add: mult.commute)
    then have "2 ^ Suc m \<le> d" using t(2) by (simp add: dvd_imp_le)
    with assms t show False by simp
  qed
qed

lemma probe_neq:
  assumes "m \<le> 32" "s < t" "t < 2 ^ m"
  shows "probe (2 ^ m) key s \<noteq> probe (2 ^ m) key t"
proof
  assume "probe (2 ^ m) key s = probe (2 ^ m) key t"
  then have "(unat key + t * (t + 1) div 2) mod 2 ^ m = (unat key + s * (s + 1) div 2) mod 2 ^ m"
    using unat_probe [OF assms(1)] by metis
  moreover have "s * (s + 1) div 2 \<le> t * (t + 1) div 2"
    using assms(2) by (intro div_le_mono mult_le_mono) simp_all
  ultimately have "2 ^ m dvd t * (t + 1) div 2 - s * (s + 1) div 2" by (simp add: mod_eq_dvd_iff_nat)
  with triangles_distinct [OF assms(2,3)] show False by blast
qed

lemma card_u32_below: "card {i :: u32. i < n} = unat n"
proof -
  have "{i :: u32. i < n} = of_nat ` {..<unat n}"
  proof (intro set_eqI iffI)
    fix i assume "i \<in> {i :: u32. i < n}"
    then show "i \<in> of_nat ` {..<unat n}" by (intro image_eqI [of _ _ "unat i"]) (simp_all add: word_less_nat_alt)
  qed (use unat_u32_lt [of n] in \<open>auto simp: word_less_nat_alt unat_of_nat_u32\<close>)
  moreover have "inj_on (of_nat :: nat \<Rightarrow> u32) {..<unat n}"
    using unat_u32_lt [of n] by (intro inj_on_inverseI [where g = unat]) (simp add: unat_of_nat_u32)
  ultimately show ?thesis by (simp add: card_image)
qed

lemma unat_two_power: "m < 32 \<Longrightarrow> unat (2 ^ m :: u32) = 2 ^ m"
proof -
  assume "m < 32"
  then have "(2 :: nat) ^ m < 4294967296" using power_strict_increasing [of m 32 "2 :: nat"] by simp
  then show ?thesis using unat_of_nat_u32 [of "2 ^ m"] by simp
qed

lemma probe_less: "m < 32 \<Longrightarrow> probe (2 ^ m) key t < 2 ^ m"
  by (simp add: word_less_nat_alt unat_probe unat_two_power)

lemma probe_covers:
  assumes "m < 32" "i < 2 ^ m"
  shows "\<exists>t<2 ^ m. probe (2 ^ m) key t = i"
proof -
  have inj: "inj_on (probe (2 ^ m) key) {..<2 ^ m}"
    using probe_neq [of m] assms(1) by (intro inj_onI) (metis lessThan_iff linorder_neqE_nat order_less_imp_le)
  have "probe (2 ^ m) key ` {..<2 ^ m} = {i. i < 2 ^ m}"
    using probe_less [OF assms(1)] inj assms(1)
    by (intro card_subset_eq) (auto simp: card_image card_u32_below unat_two_power)
  with assms(2) show ?thesis by (metis imageE lessThan_iff mem_Collect_eq)
qed

section \<open>The invariant and the map of a table\<close>

definition kh_live :: "'v khash \<Rightarrow> u32 set" where
  "kh_live h = {i. i < kh_n_buckets h \<and> kh_exist h i}"

definition kh_occupied :: "'v khash \<Rightarrow> u32 set" where
  "kh_occupied h = {i. i < kh_n_buckets h \<and> \<not> ac_isempty (kh_flags h) i}"

text \<open>Bucket \<open>i\<close> is found when \<open>key\<close> is looked up: it is probed, and no empty bucket is probed before it.\<close>

definition kh_reached :: "u32 \<Rightarrow> u32 set \<Rightarrow> u32 \<Rightarrow> u32 \<Rightarrow> bool" where
  "kh_reached n occ key i \<longleftrightarrow> (\<exists>t<unat n. probe n key t = i \<and> (\<forall>s<t. probe n key s \<in> occ))"

definition kh_table :: "u32 \<Rightarrow> u32 set \<Rightarrow> u32 set \<Rightarrow> u32 list \<Rightarrow> bool" where
  "kh_table n live occ keys \<longleftrightarrow>
     inj_on (\<lambda>i. keys ! unat i) live \<and> (\<forall>i \<in> live. kh_reached n occ (keys ! unat i) i)"

definition kh_inv :: "'v khash \<Rightarrow> bool" where
  "kh_inv h \<longleftrightarrow>
     (if kh_n_buckets h = 0 then kh_size h = 0 \<and> kh_n_occupied h = 0 \<and> kh_upper_bound h = 0 \<and> kh_flags h = []
      else (\<exists>m. 2 \<le> m \<and> m < 32 \<and> kh_n_buckets h = 2 ^ m)
        \<and> length (kh_flags h) = unat (ac_fsize (kh_n_buckets h))
        \<and> unat (kh_n_buckets h) \<le> length (kh_keys h) \<and> unat (kh_n_buckets h) \<le> length (kh_vals h)
        \<and> kh_upper_bound h = ac_upper_bound (kh_n_buckets h)
        \<and> unat (kh_size h) = card (kh_live h) \<and> unat (kh_n_occupied h) = card (kh_occupied h)
        \<and> kh_n_occupied h \<le> kh_upper_bound h
        \<and> kh_table (kh_n_buckets h) (kh_live h) (kh_occupied h) (kh_keys h))"

definition kh_entries :: "'v khash \<Rightarrow> (u32 \<times> 'v) list" where
  "kh_entries h = map (\<lambda>i. (kh_key h i, kh_value h i)) (filter (kh_exist h) (map of_nat [0..<unat (kh_n_buckets h)]))"

definition kh_map :: "'v khash \<Rightarrow> u32 \<rightharpoonup> 'v" where
  "kh_map h = map_of (kh_entries h)"

lemma buckets_of_nat: "set (map of_nat [0..<unat n]) = {i :: u32. i < n}" "distinct (map of_nat [0..<unat n] :: u32 list)"
proof -
  have inv: "unat (of_nat k :: u32) = k" if "k < unat n" for k
    using that unat_u32_lt [of n] by (simp add: unat_of_nat_u32)
  have "i \<in> of_nat ` {0..<unat n}" if "i < n" for i :: u32
    using that by (intro image_eqI [of _ _ "unat i"]) (simp_all add: word_less_nat_alt)
  then show "set (map of_nat [0..<unat n]) = {i :: u32. i < n}" by (auto simp: word_less_nat_alt inv)
  show "distinct (map of_nat [0..<unat n] :: u32 list)"
    using inv by (auto simp: distinct_map intro!: inj_on_inverseI [where g = unat])
qed

lemma finite_u32 [simp]: "finite (S :: u32 set)"
  by (rule finite)

lemma set_kh_entries: "set (kh_entries h) = (\<lambda>i. (kh_key h i, kh_value h i)) ` kh_live h"
  unfolding kh_entries_def set_map set_filter buckets_of_nat(1) [unfolded set_map] kh_live_def by auto

lemma distinct_kh_entries:
  assumes "inj_on (\<lambda>i. kh_keys h ! unat i) (kh_live h)"
  shows "distinct (map fst (kh_entries h))"
proof -
  have "set (filter (kh_exist h) (map of_nat [0..<unat (kh_n_buckets h)])) = kh_live h"
    unfolding set_filter buckets_of_nat(1) kh_live_def by auto
  then show ?thesis using assms buckets_of_nat(2) [of "kh_n_buckets h"]
    by (simp add: kh_entries_def distinct_map o_def kh_key_def)
qed

lemma kh_map_iff:
  assumes "inj_on (\<lambda>i. kh_keys h ! unat i) (kh_live h)"
  shows "kh_map h k = Some v \<longleftrightarrow> (\<exists>i \<in> kh_live h. kh_key h i = k \<and> kh_value h i = v)"
  using map_of_eq_Some_iff [OF distinct_kh_entries [OF assms]] by (auto simp: kh_map_def set_kh_entries)

lemma unat_upper_bound: "unat (ac_upper_bound n) = (77 * unat n + 50) div 100"
  using unat_u32_lt [of n] by (simp add: ac_upper_bound_def unat_of_nat_u32)

lemma kh_inv_inj: "kh_inv h \<Longrightarrow> inj_on (\<lambda>i. kh_keys h ! unat i) (kh_live h)"
  by (auto simp: kh_inv_def kh_live_def kh_table_def split: if_splits)

lemma four_le_power: "2 \<le> m \<Longrightarrow> 4 \<le> (2 :: nat) ^ m"
  using power_increasing [of 2 m "2 :: nat"] by simp

lemma kh_inv_power:
  assumes "kh_inv h" "kh_n_buckets h \<noteq> 0"
  obtains m where "2 \<le> m" "m < 32" "kh_n_buckets h = 2 ^ m" "unat (kh_n_buckets h) = 2 ^ m" "4 \<le> unat (kh_n_buckets h)"
proof -
  from assms obtain m where m: "2 \<le> m" "m < 32" "kh_n_buckets h = 2 ^ m" unfolding kh_inv_def by (metis (full_types))
  have n: "unat (kh_n_buckets h) = 2 ^ m" by (simp only: m(3) unat_two_power [OF m(2)])
  have "4 \<le> unat (kh_n_buckets h)" using four_le_power [OF m(1)] by (simp only: n)
  with m n show thesis by (rule that)
qed

lemma kh_inv_free:
  assumes "kh_inv h" "kh_n_buckets h \<noteq> 0"
  shows "\<exists>t<unat (kh_n_buckets h). ac_isempty (kh_flags h) (probe (kh_n_buckets h) key t)"
proof -
  obtain m where m: "m < 32" "kh_n_buckets h = 2 ^ m" "unat (kh_n_buckets h) = 2 ^ m" "4 \<le> unat (kh_n_buckets h)"
    using kh_inv_power [OF assms] by metis
  have "card (kh_occupied h) \<le> unat (ac_upper_bound (kh_n_buckets h))"
    using assms by (auto simp: kh_inv_def word_le_nat_alt)
  with m(4) have "card (kh_occupied h) < unat (kh_n_buckets h)" by (simp add: unat_upper_bound)
  then have "kh_occupied h \<noteq> {i. i < kh_n_buckets h}" 
    using card_u32_below [of "kh_n_buckets h"] by (metis less_irrefl)
  then obtain i where "i < kh_n_buckets h" "ac_isempty (kh_flags h) i" by (auto simp: kh_occupied_def)
  with probe_covers [of m i key] m(1-3) show ?thesis by metis
qed

section \<open>Searching\<close>

lemma least_stop: "P t \<Longrightarrow> t < n \<Longrightarrow> \<exists>t0<n. P t0 \<and> (\<forall>s<t0. \<not> P s)" for t n :: nat
  using ex_least_nat_le [of P t] by (meson order.strict_trans1)

definition kh_stops :: "'v khash \<Rightarrow> u32 \<Rightarrow> nat \<Rightarrow> bool" where
  "kh_stops h key t \<longleftrightarrow>
     (let i = probe (kh_n_buckets h) key t in ac_isempty (kh_flags h) i \<or> (\<not> ac_isdel (kh_flags h) i \<and> kh_keys h ! unat i = key))"

lemma kh_stop_exists:
  assumes "kh_inv h" "kh_n_buckets h \<noteq> 0"
  obtains t where "t < unat (kh_n_buckets h)" "kh_stops h key t" "\<forall>s<t. \<not> kh_stops h key s"
proof -
  obtain t where t: "t < unat (kh_n_buckets h)" "kh_stops h key t"
    using kh_inv_free [OF assms] by (auto simp: kh_stops_def Let_def)
  then show thesis using that least_stop [of "kh_stops h key", OF t(2,1)] by blast
qed

lemma probe_moves:
  assumes "m < 32" "t < t0" "t0 < 2 ^ m"
  shows "(probe (2 ^ m) key t + (of_nat t + 1)) AND (2 ^ m - 1) = probe (2 ^ m) key (Suc t)"
    "probe (2 ^ m) key (Suc t) \<noteq> probe (2 ^ m) key 0"
  using probe_Suc [of m key t] probe_neq [of m 0 "Suc t" key] assms by (simp_all add: ac_simps)

lemma kh_get_loop_stops:
  assumes n: "kh_n_buckets h = 2 ^ m" "m < 32"
    and stop: "t0 < 2 ^ m" "kh_stops h key t0" "\<forall>s<t0. \<not> kh_stops h key s" and "t \<le> t0"
  shows "kh_get_loop h key (2 ^ m - 1) (probe (2 ^ m) key 0) (probe (2 ^ m) key t) (of_nat t)
    = Some (if ac_iseither (kh_flags h) (probe (2 ^ m) key t0) then 2 ^ m else probe (2 ^ m) key t0)"
  using \<open>t \<le> t0\<close>
proof (induction rule: inc_induct)
  case base
  then show ?case using stop(2) by (subst kh_get_loop.simps) (auto simp: kh_stops_def Let_def n)
next
  case (step t)
  then have "\<not> kh_stops h key t" using stop(3) by blast
  then show ?case using step.IH probe_moves [OF n(2) step.hyps(2) stop(1)]
    by (subst kh_get_loop.simps) (auto simp: kh_stops_def Let_def n ac_simps)
qed

lemma kh_put_loop_stops:
  assumes n: "kh_n_buckets h = 2 ^ m" "m < 32"
    and stop: "t0 < 2 ^ m" "kh_stops h key t0" "\<forall>s<t0. \<not> kh_stops h key s" and "t \<le> t0"
    and site: "site = 2 ^ m \<or> (\<exists>s<t0. site = probe (2 ^ m) key s \<and> ac_isdel (kh_flags h) site)"
  shows "\<exists>site'. kh_put_loop h key (2 ^ m - 1) (probe (2 ^ m) key 0) (probe (2 ^ m) key t) site (of_nat t)
      = Some (2 ^ m, probe (2 ^ m) key t0, site')
    \<and> (site' = 2 ^ m \<or> (\<exists>s<t0. site' = probe (2 ^ m) key s \<and> ac_isdel (kh_flags h) site'))"
  using \<open>t \<le> t0\<close> site
proof (induction arbitrary: site rule: inc_induct)
  case base
  then show ?case using stop(2) by (subst kh_put_loop.simps) (auto simp: kh_stops_def Let_def n)
next
  case (step t)
  let ?i = "probe (2 ^ m) key t" and ?site = "if ac_isdel (kh_flags h) (probe (2 ^ m) key t) then probe (2 ^ m) key t else site"
  have "\<not> kh_stops h key t" using step.hyps(2) stop(3) by blast
  moreover have "?site = 2 ^ m \<or> (\<exists>s<t0. ?site = probe (2 ^ m) key s \<and> ac_isdel (kh_flags h) ?site)"
    using step.hyps(2) step.prems by auto
  note step.IH [OF this]
  ultimately show ?case using probe_moves [OF n(2) step.hyps(2) stop(1)]
    by (subst kh_put_loop.simps) (auto simp: kh_stops_def Let_def n ac_simps)
qed

lemma kh_find_empty_stops:
  assumes "m < 32" "t0 < 2 ^ m" "ac_isempty f (probe (2 ^ m) key t0)" "\<forall>s<t0. \<not> ac_isempty f (probe (2 ^ m) key s)" and "t \<le> t0"
  shows "kh_find_empty f (2 ^ m - 1) (probe (2 ^ m) key t) (of_nat t) = Some (probe (2 ^ m) key t0)"
  using \<open>t \<le> t0\<close>
proof (induction rule: inc_induct)
  case base
  then show ?case using assms(3) by (subst kh_find_empty.simps) simp
next
  case (step t)
  then show ?case using assms(4) probe_moves(1) [OF assms(1) step.hyps(2) assms(2)]
    by (subst kh_find_empty.simps) (simp add: Let_def ac_simps)
qed

lemma unat_drop_4: "unat (drop_bit 4 i :: u32) = unat i div 16"
  by (simp add: drop_bit_eq_div unat_div)

lemma flag_at_bucket:
  assumes "m < 32" "i < 2 ^ m" "length f = unat (ac_fsize (2 ^ m))"
  shows "flag_at f i"
proof (cases "(2 :: u32) ^ m < 16")
  case True
  with assms(2) have "unat i < 16" by (simp add: word_less_nat_alt)
  with True assms(3) show ?thesis by (simp add: flag_at_def unat_drop_4 ac_fsize_def)
next
  case False
  then have "16 \<le> (2 :: nat) ^ m" using unat_two_power [OF assms(1)] by (simp add: word_less_nat_alt)
  moreover have "m \<ge> 4" by (rule ccontr) (use \<open>16 \<le> 2 ^ m\<close> power_strict_increasing [of m 4 "2 :: nat"] in simp)
  then have "(16 :: nat) dvd 2 ^ m" using le_imp_power_dvd [of 4 m "2 :: nat"] by simp
  moreover have "unat i < 2 ^ m" using assms(2) unat_two_power [OF assms(1)] by (simp add: word_less_nat_alt)
  ultimately show ?thesis using False assms(3) unat_two_power [OF assms(1)]
    by (simp add: flag_at_def unat_drop_4 ac_fsize_def less_mult_imp_div_less)
qed

lemma kh_inv_flag_at: "kh_inv h \<Longrightarrow> i < kh_n_buckets h \<Longrightarrow> flag_at (kh_flags h) i"
  using flag_at_bucket [of _ i "kh_flags h"] by (auto simp: kh_inv_def split: if_splits)

lemma kh_inv_index:
  "kh_inv h \<Longrightarrow> i < kh_n_buckets h \<Longrightarrow> unat i < length (kh_keys h) \<and> unat i < length (kh_vals h)"
  by (auto simp: kh_inv_def word_less_nat_alt split: if_splits)

lemma kh_inv_reached:
  "kh_inv h \<Longrightarrow> i \<in> kh_live h \<Longrightarrow> kh_reached (kh_n_buckets h) (kh_occupied h) (kh_key h i) i"
  by (auto simp: kh_inv_def kh_table_def kh_key_def kh_live_def split: if_splits)

lemma kh_live_iff: "i \<in> kh_live h \<longleftrightarrow> i < kh_n_buckets h \<and> \<not> ac_isempty (kh_flags h) i \<and> \<not> ac_isdel (kh_flags h) i"
  by (auto simp: kh_live_def kh_exist_def ac_iseither_iff)

lemma kh_occupied_iff: "i \<in> kh_occupied h \<longleftrightarrow> i < kh_n_buckets h \<and> \<not> ac_isempty (kh_flags h) i"
  by (simp add: kh_occupied_def)

lemma kh_first_stop:
  assumes "kh_inv h" "kh_n_buckets h \<noteq> 0" "t < unat (kh_n_buckets h)" "kh_stops h key t" "\<forall>s<t. \<not> kh_stops h key s"
  defines "x \<equiv> probe (kh_n_buckets h) key t"
  shows "if key \<in> dom (kh_map h) then x \<in> kh_live h \<and> kh_key h x = key else x < kh_n_buckets h \<and> ac_isempty (kh_flags h) x"
proof -
  obtain m where m: "m < 32" "kh_n_buckets h = 2 ^ m" using kh_inv_power [OF assms(1,2)] by metis
  have x: "x < kh_n_buckets h" using probe_less [OF m(1)] by (simp only: x_def m(2))
  have stop: "ac_isempty (kh_flags h) x \<or> x \<in> kh_live h \<and> kh_key h x = key"
    using assms(4) x by (auto simp: kh_stops_def Let_def x_def kh_live_iff kh_key_def)
  have dom: "key \<in> dom (kh_map h) \<longleftrightarrow> (\<exists>i \<in> kh_live h. kh_key h i = key)"
    using kh_map_iff [OF kh_inv_inj [OF assms(1)]] by (auto simp: dom_def)
  show ?thesis
  proof (cases "key \<in> dom (kh_map h)")
    case True
    then obtain i where i: "i \<in> kh_live h" "kh_key h i = key" using dom by blast
    then obtain t1 where t1: "probe (kh_n_buckets h) key t1 = i" "\<forall>s<t1. probe (kh_n_buckets h) key s \<in> kh_occupied h"
      using kh_inv_reached [OF assms(1) i(1)] by (auto simp: kh_reached_def)
    have "kh_stops h key t1" using t1(1) i by (auto simp: kh_stops_def Let_def kh_live_iff kh_key_def)
    then have "t \<le> t1" using assms(5) by (meson not_less)
    then have "\<not> ac_isempty (kh_flags h) x"
      using t1 i(1) by (cases "t = t1") (auto simp: x_def kh_live_iff kh_occupied_iff)
    with stop True show ?thesis by simp
  qed (use stop x dom in auto)
qed

lemma kh_get_spec:
  assumes "kh_inv h"
  shows "case kh_map h key of
      None \<Rightarrow> kh_get h key = Some (kh_n_buckets h)
    | Some v \<Rightarrow> \<exists>x. kh_get h key = Some x \<and> x \<in> kh_live h \<and> kh_key h x = key \<and> kh_value h x = v"
proof (cases "kh_n_buckets h = 0")
  case True
  then show ?thesis by (simp add: kh_map_def kh_entries_def kh_get_def)
next
  case False
  obtain m where m: "m < 32" "kh_n_buckets h = 2 ^ m" "unat (kh_n_buckets h) = 2 ^ m" using kh_inv_power [OF assms False] by metis
  obtain t where t: "t < unat (kh_n_buckets h)" "kh_stops h key t" "\<forall>s<t. \<not> kh_stops h key s"
    using kh_stop_exists [OF assms False] by metis
  let ?x = "probe (2 ^ m) key t"
  have get: "kh_get h key = Some (if ac_iseither (kh_flags h) ?x then 2 ^ m else ?x)"
    using kh_get_loop_stops [OF m(2,1) _ t(2,3), of 0] t(1) m False by (simp add: kh_get_def probe_0)
  show ?thesis
  proof (cases "kh_map h key")
    case None
    then show ?thesis using kh_first_stop [OF assms False t] get m(2) by (simp add: domIff ac_iseither_iff)
  next
    case (Some v)
    then have x: "?x \<in> kh_live h" "kh_key h ?x = key" using kh_first_stop [OF assms False t] m(2) by (auto simp: domIff)
    then have "kh_map h key = Some (kh_value h ?x)" using kh_map_iff [OF kh_inv_inj [OF assms]] by blast
    with Some x get show ?thesis by (simp add: kh_live_iff ac_iseither_iff)
  qed
qed

lemma kh_put_bucket_spec:
  assumes "kh_inv h" "kh_n_buckets h \<noteq> 0"
  obtains x where "kh_put_bucket h key = Some x" "x < kh_n_buckets h"
    "if key \<in> dom (kh_map h) then x \<in> kh_live h \<and> kh_key h x = key
     else ac_iseither (kh_flags h) x \<and> kh_reached (kh_n_buckets h) (kh_occupied h) key x"
proof -
  obtain m where m: "m < 32" "kh_n_buckets h = 2 ^ m" "unat (kh_n_buckets h) = 2 ^ m" using kh_inv_power [OF assms] by metis
  obtain t where t: "t < unat (kh_n_buckets h)" "kh_stops h key t" "\<forall>s<t. \<not> kh_stops h key s"
    using kh_stop_exists [OF assms] by metis
  let ?i = "probe (2 ^ m) key t"
  note first = kh_first_stop [OF assms t, unfolded m(2)]
  have i: "?i < 2 ^ m" using probe_less [OF m(1)] .
  have occ: "probe (2 ^ m) key s \<in> kh_occupied h" if "s < t" for s
    using t(3) that probe_less [OF m(1)] by (auto simp: kh_stops_def Let_def kh_occupied_iff m(2))
  have reached: "kh_reached (kh_n_buckets h) (kh_occupied h) key (probe (2 ^ m) key s)" if "s \<le> t" for s
    using that occ t(1) by (auto simp: kh_reached_def m(2) intro!: exI [of _ s])
  obtain site where loop: "kh_put_loop h key (2 ^ m - 1) (key AND (2 ^ m - 1)) (key AND (2 ^ m - 1)) (2 ^ m) 0 = Some (2 ^ m, ?i, site)"
    and site: "site = 2 ^ m \<or> (\<exists>s<t. site = probe (2 ^ m) key s \<and> ac_isdel (kh_flags h) site)"
    using kh_put_loop_stops [OF m(2,1) _ t(2,3), of 0 "2 ^ m"] t(1) m(3) by (auto simp: probe_0)
  show thesis
  proof (cases "ac_isempty (kh_flags h) (key AND (2 ^ m - 1))")
    case True
    then have "t = 0" using t(3) by (auto simp: kh_stops_def Let_def m(2) probe_0)
    with True show thesis using that [of ?i] first i reached [of 0]
      by (auto simp: kh_put_bucket_def m(2) probe_0 ac_iseither_iff kh_live_iff split: if_splits)
  next
    case False
    let ?x = "if ac_isempty (kh_flags h) ?i \<and> site \<noteq> 2 ^ m then site else ?i"
    have put: "kh_put_bucket h key = Some ?x" using False loop by (simp add: kh_put_bucket_def m(2))
    show thesis
    proof (cases "key \<in> dom (kh_map h)")
      case True
      with first have "?x = ?i" by (auto simp: kh_live_iff)
      with True first put i show thesis using that [of ?i] by (simp add: m(2))
    next
      case False
      with first have "ac_isempty (kh_flags h) ?i" by simp
      moreover have "site < 2 ^ m \<and> ac_isdel (kh_flags h) site \<and> kh_reached (kh_n_buckets h) (kh_occupied h) key site" if "site \<noteq> 2 ^ m"
        using site that probe_less [OF m(1)] reached by auto
      ultimately show thesis using that [OF put] False i reached [of t] by (auto simp: m(2) ac_iseither_iff)
    qed
  qed
qed

section \<open>Inserting, deleting and clearing\<close>

lemma kh_inv_nonempty:
  "kh_n_buckets h \<noteq> 0 \<Longrightarrow> kh_inv h \<longleftrightarrow>
     (\<exists>m. 2 \<le> m \<and> m < 32 \<and> kh_n_buckets h = 2 ^ m)
     \<and> length (kh_flags h) = unat (ac_fsize (kh_n_buckets h))
     \<and> unat (kh_n_buckets h) \<le> length (kh_keys h) \<and> unat (kh_n_buckets h) \<le> length (kh_vals h)
     \<and> kh_upper_bound h = ac_upper_bound (kh_n_buckets h)
     \<and> unat (kh_size h) = card (kh_live h) \<and> unat (kh_n_occupied h) = card (kh_occupied h)
     \<and> kh_n_occupied h \<le> kh_upper_bound h
     \<and> kh_table (kh_n_buckets h) (kh_live h) (kh_occupied h) (kh_keys h)"
  by (simp add: kh_inv_def)

lemma kh_reached_mono: "kh_reached n occ key i \<Longrightarrow> occ \<subseteq> occ' \<Longrightarrow> kh_reached n occ' key i"
  unfolding kh_reached_def by blast

lemma kh_live_occupied: "kh_live h \<subseteq> kh_occupied h"
  by (auto simp: kh_live_iff kh_occupied_iff)

lemma kh_live_empty [simp]: "kh_n_buckets h = 0 \<Longrightarrow> kh_live h = {}"
  by (simp add: kh_live_def)

lemma kh_sizes:
  assumes "kh_inv h"
  shows "unat (kh_size h) = card (kh_live h)" "unat (kh_n_occupied h) = card (kh_occupied h)"
    "kh_size h \<le> kh_n_occupied h" "unat (kh_n_occupied h) \<le> (77 * unat (kh_n_buckets h) + 50) div 100"
  using assms card_mono [OF _ kh_live_occupied [of h]]
  by (auto simp: kh_inv_def word_le_nat_alt unat_upper_bound kh_live_def kh_occupied_def split: if_splits)

lemma kh_live_key_inj: "kh_inv h \<Longrightarrow> i \<in> kh_live h \<Longrightarrow> j \<in> kh_live h \<Longrightarrow> kh_key h i = kh_key h j \<Longrightarrow> i = j"
  using kh_inv_inj [of h] by (auto simp: kh_key_def dest: inj_onD)

lemma kh_dom_iff: "kh_inv h \<Longrightarrow> key \<in> dom (kh_map h) \<longleftrightarrow> key \<in> kh_key h ` kh_live h"
  using kh_map_iff [OF kh_inv_inj [of h]] by (auto simp: dom_def)

lemma kh_claimed_table:
  assumes "kh_table n live occ keys" "\<forall>i \<in> live. keys ! unat i \<noteq> key" "x \<notin> live" "kh_reached n occ key x" "unat x < length keys"
  shows "kh_table n (insert x live) (insert x occ) (keys[unat x := key])"
proof -
  have other: "keys[unat x := key] ! unat i = keys ! unat i" if "i \<in> live" for i
    using that assms(3) by (metis nth_list_update_neq word_unat_eq_iff)
  have "inj_on (\<lambda>i. keys[unat x := key] ! unat i) live" using assms(1) other by (simp add: kh_table_def inj_on_def)
  moreover have "key \<notin> (\<lambda>i. keys[unat x := key] ! unat i) ` live" using other assms(2) by auto
  ultimately have "inj_on (\<lambda>i. keys[unat x := key] ! unat i) (insert x live)"
    using assms(3,5) by (simp add: inj_on_insert)
  moreover have "kh_reached n (insert x occ) (keys[unat x := key] ! unat i) i" if "i \<in> insert x live" for i
    using that assms(1,4,5) other by (auto simp: kh_table_def intro: kh_reached_mono [OF _ subset_insertI])
  ultimately show ?thesis by (simp add: kh_table_def)
qed

lemma kh_claimed_map:
  assumes "kh_inv h" "kh_inv h'" "kh_live h' = insert x (kh_live h)" "kh_key h' x = key" "key \<notin> dom (kh_map h)"
    and "\<And>i. i \<in> kh_live h \<Longrightarrow> kh_key h' i = kh_key h i \<and> kh_value h' i = kh_value h i"
  shows "kh_map h' |` (- {key}) = kh_map h"
proof (rule ext)
  fix k
  note iff = kh_map_iff [OF kh_inv_inj [OF assms(1)]] kh_map_iff [OF kh_inv_inj [OF assms(2)]]
  have "kh_map h' k = Some v \<longleftrightarrow> kh_map h k = Some v" if "k \<noteq> key" for v
    unfolding iff assms(3) using that assms(4,6) by auto
  then show "(kh_map h' |` (- {key})) k = kh_map h k" using assms(5)
    by (cases "k = key") (auto simp: restrict_map_def domIff, metis not_Some_eq)
qed

lemma kh_claim_new:
  assumes "kh_inv h" "kh_n_buckets h \<noteq> 0" "kh_n_occupied h < kh_upper_bound h" "x < kh_n_buckets h"
    and "key \<notin> dom (kh_map h)" "ac_iseither (kh_flags h) x" "kh_reached (kh_n_buckets h) (kh_occupied h) key x"
  obtains h' ret where "kh_claim h key x = (h', ret)" "ret = 1 \<or> ret = 2" "kh_inv h'" "kh_n_buckets h' = kh_n_buckets h"
    "x \<in> kh_live h'" "kh_key h' x = key" "kh_map h' |` (- {key}) = kh_map h"
proof -
  obtain h' ret where claim: "kh_claim h key x = (h', ret)" by fastforce
  note flag = ac_set_flags [OF kh_inv_flag_at [OF assms(1,4)]]
  have x: "x \<notin> kh_live h" "unat x < length (kh_keys h)"
    using assms(6) kh_inv_index [OF assms(1,4)] by (auto simp: kh_live_iff ac_iseither_iff)
  have live: "kh_live h' = insert x (kh_live h)" and occ: "kh_occupied h' = insert x (kh_occupied h)"
    and keys: "kh_keys h' = (kh_keys h)[unat x := key]" and vals: "kh_vals h' = kh_vals h" and n: "kh_n_buckets h' = kh_n_buckets h"
    and rest: "length (kh_flags h') = length (kh_flags h)" "kh_upper_bound h' = kh_upper_bound h" "kh_size h' = kh_size h + 1"
    using claim assms(4,6) by (auto simp: kh_claim_def Let_def kh_live_iff kh_occupied_iff flag ac_iseither_iff split: if_splits)
  have n_occ: "kh_n_occupied h' = (if x \<in> kh_occupied h then kh_n_occupied h else kh_n_occupied h + 1)" and ret: "ret = 1 \<or> ret = 2"
    using claim assms(4,6) by (auto simp: kh_claim_def Let_def kh_occupied_iff ac_iseither_iff split: if_splits)
  have lt: "unat (kh_n_occupied h) < unat (kh_upper_bound h)" using assms(3) by (simp add: word_less_nat_alt)
  then have "unat (kh_n_occupied h + 1) = Suc (unat (kh_n_occupied h))" "unat (kh_size h + 1) = Suc (unat (kh_size h))"
    using kh_sizes(3) [OF assms(1)] unat_u32_lt [of "kh_upper_bound h"]
    by (auto simp: word_le_nat_alt unat_add_no_overflow)
  moreover have "\<forall>i \<in> kh_live h. kh_keys h ! unat i \<noteq> key"
    using assms(5) unfolding kh_dom_iff [OF assms(1)] by (auto simp: kh_key_def)
  then have "kh_table (kh_n_buckets h) (insert x (kh_live h)) (insert x (kh_occupied h)) ((kh_keys h)[unat x := key])"
    using assms(1,2,7) x by (intro kh_claimed_table) (simp_all add: kh_inv_nonempty)
  ultimately have inv: "kh_inv h'"
    using assms(1,2) x(1) lt live occ keys vals n rest n_occ
    by (simp add: kh_inv_nonempty card_insert_if word_le_nat_alt insert_absorb)
  have "kh_key h' i = kh_key h i \<and> kh_value h' i = kh_value h i" if "i \<in> kh_live h" for i
    using that x(1) by (metis keys kh_key_def kh_value_def nth_list_update_neq vals word_unat_eq_iff)
  moreover have "kh_key h' x = key" using x(2) by (simp add: kh_key_def keys)
  ultimately show thesis using that [OF claim ret inv n] kh_claimed_map [OF assms(1) inv live] assms(5) live by simp
qed

lemma kh_claim_present:
  "x \<in> kh_live h \<Longrightarrow> kh_claim h key x = (h, 0)"
  by (simp add: kh_claim_def kh_live_iff)

lemma kh_set_value_frame [simp]:
  "kh_live (kh_set_value h x v) = kh_live h" "kh_occupied (kh_set_value h x v) = kh_occupied h"
  "kh_key (kh_set_value h x v) i = kh_key h i" "kh_n_buckets (kh_set_value h x v) = kh_n_buckets h"
  by (auto simp: kh_live_iff kh_occupied_iff kh_set_value_def kh_key_def)

lemma kh_set_value_inv [simp]: "kh_inv (kh_set_value h x v) = kh_inv h"
  by (simp add: kh_inv_def) (simp add: kh_set_value_def)

lemma kh_map_update:
  assumes "kh_inv h" "kh_inv h'" "x \<in> kh_live h'" "kh_key h' x = key" "kh_map h' |` (- {key}) = kh_map h |` (- {key})"
  shows "kh_map (kh_set_value h' x v) = (kh_map h)(key \<mapsto> v)"
proof (rule ext)
  fix k
  let ?g = "kh_set_value h' x v"
  have x: "unat x < length (kh_vals h')" using assms(2,3) kh_inv_index by (auto simp: kh_live_iff)
  have inv: "kh_inv ?g" using assms(2) by simp
  note iff = kh_map_iff [OF kh_inv_inj [OF inv]] kh_map_iff [OF kh_inv_inj [OF assms(2)]]
  have val: "kh_value ?g i = (if i = x then v else kh_value h' i)" for i
    using x by (auto simp: kh_value_def kh_set_value_def nth_list_update word_unat_eq_iff)
  show "kh_map ?g k = ((kh_map h)(key \<mapsto> v)) k"
  proof (cases "k = key")
    case True
    have "kh_map ?g key = Some v" unfolding iff using assms(3,4) val by auto
    with True show ?thesis by simp
  next
    case False
    then have "kh_map ?g k = Some w \<longleftrightarrow> kh_map h' k = Some w" for w
      unfolding iff kh_set_value_frame using val assms(4) by (intro bex_cong) auto
    then have "kh_map ?g k = kh_map h' k" by (metis option.exhaust)
    also have "\<dots> = kh_map h k" using fun_cong [OF assms(5), of k] False by (simp add: restrict_map_def)
    finally show ?thesis using False by simp
  qed
qed

lemma kh_del_noop: "x \<le> kh_n_buckets h \<Longrightarrow> x \<notin> kh_live h \<Longrightarrow> kh_del h x = h"
  by (auto simp: kh_del_def kh_live_iff ac_iseither_iff)

lemma kh_del_live:
  assumes "kh_inv h" "x \<in> kh_live h"
  shows "kh_live (kh_del h x) = kh_live h - {x}" "kh_occupied (kh_del h x) = kh_occupied h"
    "kh_n_buckets (kh_del h x) = kh_n_buckets h" "kh_key (kh_del h x) = kh_key h" "kh_value (kh_del h x) = kh_value h"
    "kh_size (kh_del h x) = kh_size h - 1"
  using assms ac_set_flags(5,6) [OF kh_inv_flag_at [OF assms(1)]]
  by (auto simp: kh_del_def kh_live_iff kh_occupied_iff kh_key_def kh_value_def ac_iseither_iff fun_eq_iff)

lemma kh_del_spec:
  assumes "kh_inv h" "x \<in> kh_live h"
  shows "kh_inv (kh_del h x)" "kh_map (kh_del h x) = (kh_map h)(kh_key h x := None)"
proof -
  note frame = kh_del_live [OF assms]
  have n: "kh_n_buckets h \<noteq> 0" using assms(2) by (auto simp: kh_live_iff)
  have "0 < card (kh_live h)" using assms(2) by (auto simp: card_gt_0_iff)
  then have "kh_size h \<noteq> 0" using kh_sizes(1) [OF assms(1)] by auto
  then have "unat (kh_size h - 1) = card (kh_live h - {x})"
    using kh_sizes(1) [OF assms(1)] assms(2) by (simp add: unat_minus_one)
  moreover have "kh_table (kh_n_buckets h) (kh_live h - {x}) (kh_occupied h) (kh_keys h)"
    using assms(1) n by (auto simp: kh_inv_nonempty kh_table_def intro: inj_on_subset)
  moreover have "kh_keys (kh_del h x) = kh_keys h" "kh_vals (kh_del h x) = kh_vals h" "length (kh_flags (kh_del h x)) = length (kh_flags h)"
    "kh_upper_bound (kh_del h x) = kh_upper_bound h" "kh_n_occupied (kh_del h x) = kh_n_occupied h"
    by (simp_all add: kh_del_def)
  ultimately show inv: "kh_inv (kh_del h x)" using assms(1) n by (auto simp: kh_inv_nonempty frame)
  note iff = kh_map_iff [OF kh_inv_inj [OF assms(1)]] kh_map_iff [OF kh_inv_inj [OF inv]]
  have "kh_map (kh_del h x) k = Some v \<longleftrightarrow> ((kh_map h)(kh_key h x := None)) k = Some v" for k v
    using kh_live_key_inj [OF assms(1) _ assms(2)] by (auto simp: iff frame)
  then show "kh_map (kh_del h x) = (kh_map h)(kh_key h x := None)" by (intro ext) (metis not_Some_eq)
qed

lemma kh_init_spec [simp]: "kh_inv kh_init" "kh_map kh_init = Map.empty" "kh_size kh_init = 0"
  by (simp_all add: kh_inv_def kh_init_def kh_map_def kh_entries_def)

lemma fresh_flag_bits: "k < 16 \<Longrightarrow> bit (0xAAAAAAAA :: u32) (2 * k + 1) \<and> \<not> bit (0xAAAAAAAA :: u32) (2 * k)"
proof -
  assume "k < 16"
  then have "k \<in> {0, 1, 2, 3, 4, 5, 6, 7, 8, 9, 10, 11, 12, 13, 14, 15}" by simp presburger
  then show ?thesis by (elim insertE) simp_all
qed

lemma fresh_flags:
  assumes "unat (drop_bit 4 i) < k"
  shows "ac_isempty (replicate k 0xAAAAAAAA @ fs) i" "\<not> ac_isdel (replicate k 0xAAAAAAAA @ fs) i"
proof -
  have "ac_word (replicate k 0xAAAAAAAA @ fs) i = 0xAAAAAAAA" using assms by (simp add: ac_word_def nth_append)
  then show "ac_isempty (replicate k 0xAAAAAAAA @ fs) i" "\<not> ac_isdel (replicate k 0xAAAAAAAA @ fs) i"
    using fresh_flag_bits [OF index_low, of i] by (simp_all only: ac_flag_bits ac_shift_eq simp_thms)
qed

lemma kh_clear_spec:
  assumes "kh_inv h"
  shows "kh_inv (kh_clear h)" "kh_map (kh_clear h) = Map.empty" "kh_size (kh_clear h) = 0"
proof -
  have all: "kh_inv (kh_clear h) \<and> kh_live (kh_clear h) = {} \<and> kh_size (kh_clear h) = 0"
  proof (cases "kh_n_buckets h = 0")
    case True
    then show ?thesis using assms by (simp add: kh_clear_def kh_inv_def)
  next
    case False
    obtain m where m: "m < 32" "kh_n_buckets h = 2 ^ m" using kh_inv_power [OF assms False] by metis
    let ?k = "unat (ac_fsize (kh_n_buckets h))"
    have len: "length (kh_flags h) = ?k" using assms False by (simp add: kh_inv_nonempty)
    have "unat (drop_bit 4 i) < ?k" if "i < kh_n_buckets h" for i
      using flag_at_bucket [OF m(1), of i "kh_flags h"] that len m(2) by (simp add: flag_at_def)
    note fresh = fresh_flags [OF this]
    have "flag_at (kh_flags h) 0" using flag_at_bucket [OF m(1), of 0 "kh_flags h"] len m False by (simp add: word_gt_0)
    then have "kh_flags h \<noteq> []" by (auto simp: flag_at_def)
    then have clear: "kh_clear h = h\<lparr>kh_flags := replicate ?k 0xAAAAAAAA @ drop ?k (kh_flags h), kh_size := 0, kh_n_occupied := 0\<rparr>"
      by (simp add: kh_clear_def)
    then have "kh_live (kh_clear h) = {}" "kh_occupied (kh_clear h) = {}"
      using fresh by (auto simp: kh_live_iff kh_occupied_iff)
    with assms False clear len show ?thesis by (simp add: kh_inv_nonempty kh_table_def)
  qed
  then show "kh_inv (kh_clear h)" "kh_size (kh_clear h) = 0" by simp_all
  have "set (kh_entries (kh_clear h)) = {}" using all by (simp only: set_kh_entries) simp
  then show "kh_map (kh_clear h) = Map.empty" by (simp add: kh_map_def)
qed

end
