(* ===== verification/Khash_Map.thy ===== *)
theory Khash_Map
  imports Khash
begin

text \<open>
  The second half of \<open>src/paxos/include/khash.h\<close>: rehashing moves every entry of a table to where it is found, so that
  growing and cleaning up do not change the map; \<open>kh_put\<close>, \<open>kh_get\<close>, \<open>kh_del\<close> and \<open>kh_foreach\<close> act as the corresponding
  operations of maps, stated as the contract \<open>map_table\<close>.
\<close>

unbundle bit_operations_syntax

section \<open>Resizing\<close>

text \<open>
  While a table is rehashed, an entry is in a bucket that is still live in the old table, in a bucket of the new table, or
  in the hand of the loop that kicks entries out.  No bucket belongs to both tables.
\<close>

definition kh_content :: "u32 list \<Rightarrow> 'v list \<Rightarrow> u32 set \<Rightarrow> (u32 \<times> 'v) multiset" where
  "kh_content keys vals S = image_mset (\<lambda>i. (keys ! unat i, vals ! unat i)) (mset_set S)"

definition rh_old :: "u32 \<Rightarrow> 'v rehash \<Rightarrow> u32 set" where
  "rh_old n s = {i. i < n \<and> \<not> ac_iseither (rh_flags s) i}"

definition rh_new :: "u32 \<Rightarrow> 'v rehash \<Rightarrow> u32 set" where
  "rh_new n s = {i. i < n \<and> \<not> ac_isempty (rh_new_flags s) i}"

definition rehashing :: "u32 \<Rightarrow> u32 \<Rightarrow> (u32 \<times> 'v) multiset \<Rightarrow> (u32 \<times> 'v) multiset \<Rightarrow> 'v rehash \<Rightarrow> bool" where
  "rehashing n_old n all hand s \<longleftrightarrow>
     rh_old n_old s \<inter> rh_new n s = {}
     \<and> kh_content (rh_keys s) (rh_vals s) (rh_old n_old s) + kh_content (rh_keys s) (rh_vals s) (rh_new n s) + hand = all
     \<and> (\<forall>i \<in> rh_new n s. kh_reached n (rh_new n s) (rh_keys s ! unat i) i)
     \<and> (\<forall>i. i < n_old \<longrightarrow> flag_at (rh_flags s) i) \<and> (\<forall>i. i < n \<longrightarrow> \<not> ac_isdel (rh_new_flags s) i)
     \<and> length (rh_new_flags s) = unat (ac_fsize n) \<and> unat n \<le> length (rh_keys s) \<and> unat n \<le> length (rh_vals s)"

lemma kh_content_other:
  assumes "i \<notin> S"
  shows "kh_content (keys[unat i := k]) (vals[unat i := v]) S = kh_content keys vals S"
proof -
  have "unat i \<noteq> unat j" if "j \<in> S" for j using that assms by (metis word_unat_eq_iff)
  then show ?thesis by (auto simp: kh_content_def intro!: image_mset_cong)
qed

lemma kh_content_insert:
  assumes "i \<notin> S" "unat i < length keys" "unat i < length vals"
  shows "kh_content (keys[unat i := k]) (vals[unat i := v]) (insert i S) = add_mset (k, v) (kh_content keys vals S)"
  using assms kh_content_other [OF assms(1), of keys k vals v] by (simp add: kh_content_def)

lemma kh_content_remove: "i \<in> S \<Longrightarrow> kh_content keys vals S = add_mset (keys ! unat i, vals ! unat i) (kh_content keys vals (S - {i}))"
  by (simp add: kh_content_def mset_set.remove)

lemma size_kh_content [simp]: "size (kh_content keys vals S) = card S"
  by (simp add: kh_content_def)

lemma rehashing_finds:
  assumes "rehashing n_old (2 ^ m) all (add_mset (key, val) hand) s" "m < 32" "size all < 2 ^ m"
  obtains i where "kh_find_empty (rh_new_flags s) (2 ^ m - 1) (key AND (2 ^ m - 1)) 0 = Some i" "i < 2 ^ m" "i \<notin> rh_new (2 ^ m) s"
    "kh_reached (2 ^ m) (rh_new (2 ^ m) s) key i"
proof -
  let ?p = "\<lambda>t. ac_isempty (rh_new_flags s) (probe (2 ^ m) key t)"
  have "kh_content (rh_keys s) (rh_vals s) (rh_old n_old s) + kh_content (rh_keys s) (rh_vals s) (rh_new (2 ^ m) s)
      + add_mset (key, val) hand = all"
    using assms(1) by (simp only: rehashing_def)
  from arg_cong [OF this, of size] have "card (rh_new (2 ^ m) s) < size all" by simp
  with assms(3) have "card (rh_new (2 ^ m) s) < 2 ^ m" by simp
  then have "rh_new (2 ^ m) s \<noteq> {i. i < 2 ^ m}"
    using card_u32_below [of "2 ^ m"] unat_two_power [OF assms(2)] by (metis less_irrefl)
  moreover have "rh_new (2 ^ m) s \<subseteq> {i. i < 2 ^ m}" unfolding rh_new_def by blast
  ultimately obtain j where "j < 2 ^ m" "j \<notin> rh_new (2 ^ m) s" by blast
  then have "j < 2 ^ m" "ac_isempty (rh_new_flags s) j" unfolding rh_new_def by blast+
  then obtain t where t: "t < 2 ^ m" "?p t" using probe_covers [OF assms(2)] by metis
  from least_stop [of ?p, OF t(2,1)] obtain t0 where t0: "?p t0" "\<forall>s<t0. \<not> ?p s" "t0 < 2 ^ m" by blast
  show thesis
  proof (rule that)
    show "kh_find_empty (rh_new_flags s) (2 ^ m - 1) (key AND (2 ^ m - 1)) 0 = Some (probe (2 ^ m) key t0)"
      using kh_find_empty_stops [OF assms(2) t0(3,1,2), of 0] by (simp add: probe_0)
    show "probe (2 ^ m) key t0 < 2 ^ m" using probe_less [OF assms(2)] .
    show "probe (2 ^ m) key t0 \<notin> rh_new (2 ^ m) s" using t0(1) by (simp add: rh_new_def)
    show "kh_reached (2 ^ m) (rh_new (2 ^ m) s) key (probe (2 ^ m) key t0)"
      using t0 probe_less [OF assms(2)] by (auto simp: kh_reached_def rh_new_def unat_two_power [OF assms(2)] intro!: exI [of _ t0])
  qed
qed

definition rh_write :: "u32 \<Rightarrow> u32 \<Rightarrow> 'v \<Rightarrow> 'v rehash \<Rightarrow> 'v rehash" where
  "rh_write i key val s =
     s\<lparr>rh_new_flags := ac_set_isempty_false (rh_new_flags s) i, rh_keys := (rh_keys s)[unat i := key],
       rh_vals := (rh_vals s)[unat i := val]\<rparr>"

lemma kh_kick_out_unfold:
  "kh_kick_out n_old msk key val s =
     Option.bind (kh_find_empty (rh_new_flags s) msk (key AND msk) 0) (\<lambda>i.
       if i \<in> rh_old n_old s
       then kh_kick_out n_old msk (rh_keys s ! unat i) (rh_vals s ! unat i)
              ((rh_write i key val s)\<lparr>rh_flags := ac_set_isdel_true (rh_flags s) i\<rparr>)
       else Some (rh_write i key val s))"
  by (subst kh_kick_out.simps) (simp add: rh_write_def rh_old_def Let_def cong: if_cong)

lemma rh_written:
  assumes "flag_at (rh_new_flags s) i" "i < n"
  shows "rh_new n (rh_write i key val s) = insert i (rh_new n s)" "rh_old n_old (rh_write i key val s) = rh_old n_old s"
  using assms by (auto simp: rh_new_def rh_old_def rh_write_def ac_set_flags(1) [OF assms(1)])

lemma rh_deleted:
  assumes "flag_at (rh_flags s) i"
  shows "rh_old n_old (s\<lparr>rh_flags := ac_set_isdel_true (rh_flags s) i\<rparr>) = rh_old n_old s - {i}"
    "rh_new n (s\<lparr>rh_flags := ac_set_isdel_true (rh_flags s) i\<rparr>) = rh_new n s"
  using assms by (auto simp: rh_old_def rh_new_def ac_iseither_iff ac_set_flags(5,6) [OF assms])

lemma rehashing_take:
  assumes "rehashing n_old n all hand s" "i \<in> rh_old n_old s"
  shows "rehashing n_old n all (add_mset (rh_keys s ! unat i, rh_vals s ! unat i) hand) (s\<lparr>rh_flags := ac_set_isdel_true (rh_flags s) i\<rparr>)"
    "rh_old n_old (s\<lparr>rh_flags := ac_set_isdel_true (rh_flags s) i\<rparr>) = rh_old n_old s - {i}"
proof -
  have flag: "flag_at (rh_flags s) i" using assms by (simp add: rehashing_def rh_old_def)
  note sets = rh_deleted [OF flag]
  show "rh_old n_old (s\<lparr>rh_flags := ac_set_isdel_true (rh_flags s) i\<rparr>) = rh_old n_old s - {i}" by (rule sets)
  have "flag_at (ac_set_isdel_true (rh_flags s) i) j = flag_at (rh_flags s) j" for j by (simp add: flag_at_def)
  with assms show "rehashing n_old n all (add_mset (rh_keys s ! unat i, rh_vals s ! unat i) hand)
      (s\<lparr>rh_flags := ac_set_isdel_true (rh_flags s) i\<rparr>)"
    using kh_content_remove [OF assms(2), of "rh_keys s" "rh_vals s"] by (auto simp: rehashing_def sets)
qed

lemma rehashing_write:
  assumes "rehashing n_old (2 ^ m) all (add_mset (key, val) hand) s" "m < 32" "i < 2 ^ m" "i \<notin> rh_new (2 ^ m) s" "i \<notin> rh_old n_old s"
    and "kh_reached (2 ^ m) (rh_new (2 ^ m) s) key i"
  shows "rehashing n_old (2 ^ m) all hand (rh_write i key val s)" "rh_old n_old (rh_write i key val s) = rh_old n_old s"
proof -
  have "unat i < 2 ^ m" using assms(3) unat_two_power [OF assms(2)] by (simp add: word_less_nat_alt)
  then have len: "unat i < length (rh_keys s)" "unat i < length (rh_vals s)"
    using assms(1) unat_two_power [OF assms(2)] by (auto simp: rehashing_def)
  have flag: "flag_at (rh_new_flags s) i" using assms(1) flag_at_bucket [OF assms(2,3)] by (simp add: rehashing_def)
  note sets = rh_written [OF flag assms(3)]
  show "rh_old n_old (rh_write i key val s) = rh_old n_old s" by (rule sets)
  have fields: "rh_keys (rh_write i key val s) = (rh_keys s)[unat i := key]" "rh_vals (rh_write i key val s) = (rh_vals s)[unat i := val]"
    "rh_flags (rh_write i key val s) = rh_flags s"
    by (simp_all add: rh_write_def)
  have "kh_reached (2 ^ m) (insert i (rh_new (2 ^ m) s)) ((rh_keys s)[unat i := key] ! unat j) j" if "j \<in> insert i (rh_new (2 ^ m) s)" for j
  proof (cases "j = i")
    case True
    then show ?thesis using assms(6) len(1) by (auto intro: kh_reached_mono [OF _ subset_insertI])
  next
    case False
    then have "unat i \<noteq> unat j" by (metis word_unat_eq_iff)
    then show ?thesis using that False assms(1) by (auto simp: rehashing_def intro: kh_reached_mono [OF _ subset_insertI])
  qed
  moreover have "ac_isdel (rh_new_flags (rh_write i key val s)) j = ac_isdel (rh_new_flags s) j" for j
    using ac_set_flags(2) [OF flag] by (simp add: rh_write_def)
  moreover have "length (rh_new_flags (rh_write i key val s)) = length (rh_new_flags s)" by (simp add: rh_write_def)
  ultimately show "rehashing n_old (2 ^ m) all hand (rh_write i key val s)"
    using assms(1,4,5) kh_content_other [OF assms(5), of "rh_keys s" key "rh_vals s" val] kh_content_insert [OF assms(4) len, of key val]
    by (simp add: rehashing_def sets fields)
qed

lemma kh_kick_out_spec:
  assumes "rehashing n_old (2 ^ m) all {#(key, val)#} s" "m < 32" "size all < 2 ^ m"
  shows "\<exists>s'. kh_kick_out n_old (2 ^ m - 1) key val s = Some s' \<and> rehashing n_old (2 ^ m) all {#} s' \<and> rh_old n_old s' \<subseteq> rh_old n_old s"
  using assms(1)
proof (induction "card (rh_old n_old s)" arbitrary: s key val rule: less_induct)
  case less
  obtain i where i: "kh_find_empty (rh_new_flags s) (2 ^ m - 1) (key AND (2 ^ m - 1)) 0 = Some i" "i < 2 ^ m" "i \<notin> rh_new (2 ^ m) s"
    "kh_reached (2 ^ m) (rh_new (2 ^ m) s) key i"
    using rehashing_finds [OF less.prems assms(2,3)] by metis
  show ?case
  proof (cases "i \<in> rh_old n_old s")
    case False
    with rehashing_write [OF less.prems assms(2) i(2,3) False i(4)] i(1) show ?thesis
      by (subst kh_kick_out_unfold) simp
  next
    case True
    let ?s = "s\<lparr>rh_flags := ac_set_isdel_true (rh_flags s) i\<rparr>"
    let ?kv = "(rh_keys s ! unat i, rh_vals s ! unat i)"
    have swap: "(rh_write i key val s)\<lparr>rh_flags := ac_set_isdel_true (rh_flags s) i\<rparr> = rh_write i key val ?s"
      by (simp add: rh_write_def)
    note taken = rehashing_take [OF less.prems True]
    have new: "rh_new (2 ^ m) ?s = rh_new (2 ^ m) s" by (simp add: rh_new_def)
    have "rehashing n_old (2 ^ m) all (add_mset (key, val) {#?kv#}) ?s" using taken(1) by (simp only: add_mset_commute)
    from rehashing_write [OF this assms(2) i(2)] i(3,4)
    have written: "rehashing n_old (2 ^ m) all {#?kv#} (rh_write i key val ?s)" "rh_old n_old (rh_write i key val ?s) = rh_old n_old s - {i}"
      by (simp_all only: new taken(2)) simp_all
    have "card (rh_old n_old s - {i}) < card (rh_old n_old s)" using True by (intro psubset_card_mono) auto
    with less.hyps [of "rh_write i key val ?s"] written show ?thesis
      using True i(1) swap by (subst kh_kick_out_unfold) fastforce
  qed
qed

lemma kh_rehash_spec:
  assumes "rehashing n_old (2 ^ m) all {#} s" "m < 32" "size all < 2 ^ m" "\<forall>j \<in> set js. j < n_old"
  shows "\<exists>s'. kh_rehash n_old (2 ^ m - 1) js s = Some s' \<and> rehashing n_old (2 ^ m) all {#} s' \<and> rh_old n_old s' \<subseteq> rh_old n_old s - set js"
  using assms(1,4)
proof (induction js arbitrary: s)
  case Nil
  then show ?case by simp
next
  case (Cons j js)
  have "\<exists>s'. kh_rehash_bucket n_old (2 ^ m - 1) j s = Some s' \<and> rehashing n_old (2 ^ m) all {#} s' \<and> rh_old n_old s' \<subseteq> rh_old n_old s - {j}"
  proof (cases "j \<in> rh_old n_old s")
    case True
    then have live: "\<not> ac_iseither (rh_flags s) j" by (simp add: rh_old_def)
    note taken = rehashing_take [OF Cons.prems(1) True]
    from kh_kick_out_spec [OF taken(1) assms(2,3)] show ?thesis
      unfolding taken(2) using live by (simp add: kh_rehash_bucket_def)
  next
    case False
    then show ?thesis using Cons.prems by (auto simp: kh_rehash_bucket_def rh_old_def)
  qed
  with Cons show ?case by fastforce
qed

lemma kh_map_content:
  assumes "kh_inv h"
  shows "kh_map h k = Some v \<longleftrightarrow> (k, v) \<in># kh_content (kh_keys h) (kh_vals h) (kh_live h)"
  unfolding kh_map_iff [OF kh_inv_inj [OF assms]] kh_content_def kh_key_def kh_value_def by auto

lemma krealloc_nth: "i < length xs \<Longrightarrow> i < unat n \<Longrightarrow> krealloc fresh n xs ! i = xs ! i"
  by (simp add: krealloc_def nth_append)

lemma length_krealloc [simp]: "length (krealloc fresh n xs) = unat n"
  by (simp add: krealloc_def)

text \<open>What lies behind the buckets of a table does not matter.\<close>

lemma kh_same_buckets:
  assumes "kh_inv h" "kh_n_buckets h' = kh_n_buckets h" "kh_flags h' = kh_flags h" "kh_size h' = kh_size h"
    "kh_n_occupied h' = kh_n_occupied h" "kh_upper_bound h' = kh_upper_bound h"
    and len: "unat (kh_n_buckets h) \<le> length (kh_keys h')" "unat (kh_n_buckets h) \<le> length (kh_vals h')"
    and nth: "\<And>i. i < unat (kh_n_buckets h) \<Longrightarrow> kh_keys h' ! i = kh_keys h ! i \<and> kh_vals h' ! i = kh_vals h ! i"
  shows "kh_inv h'" "kh_map h' = kh_map h"
proof -
  have live: "kh_live h' = kh_live h" "kh_occupied h' = kh_occupied h"
    using assms(2,3) by (simp_all add: kh_live_def kh_occupied_def kh_exist_def)
  have same: "kh_keys h' ! unat i = kh_keys h ! unat i" "kh_vals h' ! unat i = kh_vals h ! unat i" if "i \<in> kh_live h" for i
    using nth [of "unat i"] that by (simp_all add: kh_live_iff word_less_nat_alt)
  then have table: "kh_table n (kh_live h) occ (kh_keys h') = kh_table n (kh_live h) occ (kh_keys h)" for n occ
    by (simp add: kh_table_def inj_on_def)
  show inv: "kh_inv h'" using assms(1-8) by (auto simp: kh_inv_def live table split: if_splits)
  have "kh_map h' k = Some v \<longleftrightarrow> kh_map h k = Some v" for k v
    unfolding kh_map_iff [OF kh_inv_inj [OF inv]] kh_map_iff [OF kh_inv_inj [OF assms(1)]] live
    using same by (intro bex_cong) (simp_all add: kh_key_def kh_value_def)
  then show "kh_map h' = kh_map h" by (intro ext) (metis not_Some_eq)
qed

lemma kh_expand_spec:
  assumes "kh_inv h" "kh_expand mem h n = (h', rv)"
  shows "kh_inv h' \<and> kh_map h' = kh_map h \<and> kh_size h' = kh_size h \<and> kh_n_buckets h' = kh_n_buckets h
    \<and> (rv = 0 \<and> unat n \<le> length (kh_keys h') \<and> unat n \<le> length (kh_vals h') \<or> rv = - 1 \<and> kh_n_occupied h' = kh_n_occupied h)"
    "mem_flags mem \<Longrightarrow> mem_keys mem \<noteq> None \<Longrightarrow> mem_vals mem \<noteq> None \<Longrightarrow> rv = 0"
proof -
  show "mem_flags mem \<Longrightarrow> mem_keys mem \<noteq> None \<Longrightarrow> mem_vals mem \<noteq> None \<Longrightarrow> rv = 0"
    using assms(2) by (auto simp: kh_expand_def Let_def split: if_splits option.splits)
  have len: "unat (kh_n_buckets h) \<le> length (kh_keys h)" "unat (kh_n_buckets h) \<le> length (kh_vals h)"
    using assms(1) by (auto simp: kh_inv_def split: if_splits)
  show "kh_inv h' \<and> kh_map h' = kh_map h \<and> kh_size h' = kh_size h \<and> kh_n_buckets h' = kh_n_buckets h
    \<and> (rv = 0 \<and> unat n \<le> length (kh_keys h') \<and> unat n \<le> length (kh_vals h') \<or> rv = - 1 \<and> kh_n_occupied h' = kh_n_occupied h)"
  proof (cases "kh_n_buckets h < n")
    case True
    then have "unat (kh_n_buckets h) \<le> unat n" "\<And>i. i < unat (kh_n_buckets h) \<Longrightarrow> i < unat n" by (simp_all add: word_less_nat_alt)
    then have keep: "krealloc f n (kh_keys h) ! i = kh_keys h ! i" "krealloc g n (kh_vals h) ! i = kh_vals h ! i"
      if "i < unat (kh_n_buckets h)" for f g i
      using that len by (simp_all add: krealloc_nth)
    have "kh_inv h' \<and> kh_map h' = kh_map h"
      using kh_same_buckets [OF assms(1), of h'] assms(2) True len keep \<open>unat (kh_n_buckets h) \<le> unat n\<close>
      by (auto simp: kh_expand_def Let_def split: if_splits option.splits)
    then show ?thesis using assms(2) True by (auto simp: kh_expand_def Let_def split: if_splits option.splits)
  next
    case False
    then have "unat n \<le> unat (kh_n_buckets h)" by (simp add: word_less_nat_alt)
    with False assms len show ?thesis by (auto simp: kh_expand_def split: if_splits)
  qed
qed

lemma kh_content_inj:
  assumes "kh_content keys vals S = kh_content keys' vals' S'" "inj_on (\<lambda>i. keys ! unat i) S"
  shows "inj_on (\<lambda>i. keys' ! unat i) S'"
proof -
  have "card S = card S'" using arg_cong [OF assms(1), of size] by simp
  moreover have "(\<lambda>i. keys ! unat i) ` S = (\<lambda>i. keys' ! unat i) ` S'"
    using arg_cong [OF assms(1), of "\<lambda>M. fst ` set_mset M"] by (simp add: kh_content_def image_image)
  ultimately show ?thesis using assms(2) by (simp add: inj_on_iff_eq_card)
qed

lemma kh_moved_spec:
  assumes "kh_inv h" "2 \<le> m" "m < 32" "kh_size h < ac_upper_bound (2 ^ m)"
    and "rehashing (kh_n_buckets h) (2 ^ m) (kh_content (kh_keys h) (kh_vals h) (kh_live h)) {#} s" "rh_old (kh_n_buckets h) s = {}"
  defines "h' \<equiv> kh_moved h (2 ^ m) s"
  shows "kh_inv h'" "kh_map h' = kh_map h"
proof -
  have n: "unat (2 ^ m :: u32) = 2 ^ m" "(2 ^ m :: u32) \<noteq> 0" using unat_two_power [OF assms(3)] by (metis, metis power_not_zero unat_eq_0 zero_neq_numeral)
  have h': "kh_n_buckets h' = 2 ^ m" "kh_flags h' = rh_new_flags s" "kh_size h' = kh_size h" "kh_n_occupied h' = kh_size h"
    "kh_upper_bound h' = ac_upper_bound (2 ^ m)"
    by (simp_all add: h'_def kh_moved_def)
  have len: "2 ^ m \<le> length (kh_keys h')" "2 ^ m \<le> length (kh_vals h')"
    using assms(5) n(1) by (auto simp: h'_def kh_moved_def rehashing_def)
  have nth: "kh_keys h' ! unat i = rh_keys s ! unat i" "kh_vals h' ! unat i = rh_vals s ! unat i" if "i < 2 ^ m" for i :: u32
    using that n(1) by (simp_all add: h'_def kh_moved_def word_less_nat_alt)
  have live: "kh_live h' = rh_new (2 ^ m) s" "kh_occupied h' = rh_new (2 ^ m) s"
    using assms(5) by (auto simp: kh_live_iff kh_occupied_iff h' rh_new_def rehashing_def)
  have "kh_content (kh_keys h') (kh_vals h') (kh_live h') = kh_content (rh_keys s) (rh_vals s) (rh_new (2 ^ m) s)"
    unfolding live(1) kh_content_def using nth by (intro image_mset_cong) (auto simp: rh_new_def)
  also have "\<dots> = kh_content (kh_keys h) (kh_vals h) (kh_live h)"
    using assms(5,6) by (simp add: rehashing_def kh_content_def)
  finally have content: "kh_content (kh_keys h') (kh_vals h') (kh_live h') = kh_content (kh_keys h) (kh_vals h) (kh_live h)" .
  have "kh_table (2 ^ m) (kh_live h') (kh_occupied h') (kh_keys h')"
    using kh_content_inj [OF content [symmetric] kh_inv_inj [OF assms(1)]] assms(5) nth
    by (auto simp: kh_table_def live rehashing_def rh_new_def)
  moreover have "card (kh_live h') = card (kh_live h)" using arg_cong [OF content, of size] by simp
  then have "unat (kh_size h) = card (kh_live h')" using kh_sizes(1) [OF assms(1)] by simp
  moreover have "kh_occupied h' = kh_live h'" by (simp add: live)
  moreover have "length (rh_new_flags s) = unat (ac_fsize (2 ^ m))" using assms(5) by (simp add: rehashing_def)
  ultimately show inv: "kh_inv h'"
    unfolding kh_inv_def h' using assms(2,3,4) len n by auto
  have "kh_map h' k = Some v \<longleftrightarrow> kh_map h k = Some v" for k v
    by (simp only: kh_map_content [OF inv] kh_map_content [OF assms(1)] content)
  then show "kh_map h' = kh_map h" by (intro ext) (metis not_Some_eq)
qed

lemma kroundup32_bounds:
  obtains m where "2 \<le> m" "m < 32" "(if kroundup32 x < 4 then 4 else kroundup32 x) = 2 ^ m"
proof -
  obtain k where k: "k \<le> 32" "kroundup32 x = 2 ^ k" by (rule kroundup32_power)
  show thesis
  proof (cases "kroundup32 x < 4")
    case True
    then show thesis using that [of 2] by simp
  next
    case False
    have "\<not> (2 :: u32) ^ k < 4" using False unfolding k(2) .
    moreover have "(2 :: u32) ^ 0 < 4" "(2 :: u32) ^ 1 < 4" by simp_all
    ultimately have "k \<noteq> 0" "k \<noteq> 1" by metis+
    have "k \<noteq> 32"
    proof
      assume "k = 32"
      then have "kroundup32 x = 0" using k(2) by simp
      with False show False by simp
    qed
    with \<open>k \<noteq> 0\<close> \<open>k \<noteq> 1\<close> show thesis using that [of k] k False by simp
  qed
qed


lemma kh_rehash_table:
  assumes "kh_inv h" "2 \<le> m" "m < 32" "kh_size h < ac_upper_bound (2 ^ m)" "2 ^ m \<le> length (kh_keys h)" "2 ^ m \<le> length (kh_vals h)"
  obtains s where "kh_rehash (kh_n_buckets h) (2 ^ m - 1) (map of_nat [0..<unat (kh_n_buckets h)])
      \<lparr>rh_flags = kh_flags h, rh_new_flags = replicate (unat (ac_fsize (2 ^ m))) 0xAAAAAAAA, rh_keys = kh_keys h, rh_vals = kh_vals h\<rparr>
        = Some s"
    "kh_inv (kh_moved h (2 ^ m) s)" "kh_map (kh_moved h (2 ^ m) s) = kh_map h"
proof -
  let ?all = "kh_content (kh_keys h) (kh_vals h) (kh_live h)" and ?js = "map of_nat [0..<unat (kh_n_buckets h)]"
  let ?s = "\<lparr>rh_flags = kh_flags h, rh_new_flags = replicate (unat (ac_fsize (2 ^ m))) 0xAAAAAAAA, rh_keys = kh_keys h, rh_vals = kh_vals h\<rparr>"
  note n = unat_two_power [OF assms(3)]
  have fresh: "ac_isempty (rh_new_flags ?s) i" "\<not> ac_isdel (rh_new_flags ?s) i" if "i < 2 ^ m" for i
    using fresh_flags [of i "unat (ac_fsize (2 ^ m))" "[]"] flag_at_bucket [OF assms(3), of i "rh_new_flags ?s"] that
    by (simp_all add: flag_at_def)
  have old: "rh_old (kh_n_buckets h) ?s = kh_live h" by (simp add: rh_old_def kh_live_def kh_exist_def)
  have new: "rh_new (2 ^ m) ?s = {}" using fresh(1) by (auto simp: rh_new_def)
  have start: "rehashing (kh_n_buckets h) (2 ^ m) ?all {#} ?s"
    unfolding rehashing_def old new using fresh(2) kh_inv_flag_at [OF assms(1)] assms(5,6) n by (auto simp: kh_content_def)
  have "unat (kh_size h) < 2 ^ m" using assms(4) four_le_power [OF assms(2)] by (simp add: word_less_nat_alt unat_upper_bound n)
  then have "size ?all < 2 ^ m" using kh_sizes(1) [OF assms(1)] by simp
  moreover have "\<forall>j \<in> set ?js. j < kh_n_buckets h" using buckets_of_nat(1) [of "kh_n_buckets h"] by blast
  ultimately obtain s where s: "kh_rehash (kh_n_buckets h) (2 ^ m - 1) ?js ?s = Some s" "rehashing (kh_n_buckets h) (2 ^ m) ?all {#} s"
    "rh_old (kh_n_buckets h) s \<subseteq> kh_live h - set ?js"
    using kh_rehash_spec [OF start assms(3)] old by metis
  have "kh_live h \<subseteq> set ?js" unfolding buckets_of_nat(1) by (auto simp: kh_live_def)
  with s(3) have "rh_old (kh_n_buckets h) s = {}" by blast
  with kh_moved_spec [OF assms(1-4) s(2)] s(1) that show thesis by blast
qed

lemma kh_resize_spec:
  assumes "kh_inv h"
  obtains h' rv where "kh_resize mem h n = Some (h', rv)" "kh_inv h'" "kh_map h' = kh_map h" "kh_size h' = kh_size h"
    "rv = 0 \<or> rv = - 1"
    "mem_flags mem \<Longrightarrow> mem_keys mem \<noteq> None \<Longrightarrow> mem_vals mem \<noteq> None \<Longrightarrow> rv = 0"
    "rv = 0 \<Longrightarrow> kh_size h < ac_upper_bound (if kroundup32 n < 4 then 4 else kroundup32 n) \<Longrightarrow>
       kh_n_buckets h' = (if kroundup32 n < 4 then 4 else kroundup32 n) \<and> kh_n_occupied h' = kh_size h"
proof -
  define k where "k = (if kroundup32 n < 4 then 4 else kroundup32 n)"
  obtain m where m: "2 \<le> m" "m < 32" "k = 2 ^ m" unfolding k_def by (rule kroundup32_bounds)
  obtain h1 rv where expand: "kh_expand mem h k = (h1, rv)" by fastforce
  note e = kh_expand_spec [OF assms expand]
  consider "\<not> kh_size h < ac_upper_bound k" | "kh_size h < ac_upper_bound k" "rv = - 1" | "kh_size h < ac_upper_bound k" "rv = 0"
    using e(1) by blast
  then show thesis
  proof cases
    case 1
    then have "kh_resize mem h n = Some (h, 0)" by (simp add: kh_resize_def Let_def not_less flip: k_def)
    with 1 show thesis using that [of h 0] assms by (simp flip: k_def)
  next
    case 2
    then have "kh_resize mem h n = Some (h1, - 1)" using expand by (simp add: kh_resize_def Let_def not_le flip: k_def)
    then show thesis by (rule that) (use e \<open>rv = - 1\<close> in auto)
  next
    case 3
    then have "kh_size h1 < ac_upper_bound (2 ^ m)" "2 ^ m \<le> length (kh_keys h1)" "2 ^ m \<le> length (kh_vals h1)"
      using e(1) m(3) unat_two_power [OF m(2)] by auto
    with kh_rehash_table [OF _ m(1,2)] e(1) obtain s
      where s: "kh_rehash (kh_n_buckets h1) (k - 1) (map of_nat [0..<unat (kh_n_buckets h1)])
          \<lparr>rh_flags = kh_flags h1, rh_new_flags = replicate (unat (ac_fsize k)) 0xAAAAAAAA, rh_keys = kh_keys h1, rh_vals = kh_vals h1\<rparr>
            = Some s"
        "kh_inv (kh_moved h1 k s)" "kh_map (kh_moved h1 k s) = kh_map h1"
      unfolding m(3) by metis
    then have "kh_resize mem h n = Some (kh_moved h1 k s, 0)"
      using 3 expand by (simp add: kh_resize_def Let_def not_le flip: k_def)
    with s show thesis using that [of "kh_moved h1 k s" 0] e(1) by (simp add: kh_moved_def flip: k_def)
  qed
qed

lemma kroundup32_unique:
  assumes "2 ^ k' \<le> 2 * unat (x - 1)" "unat (x - 1) < 2 ^ k'"
  shows "kroundup32 x = 2 ^ k'"
proof -
  obtain k where "k \<le> 32" and k: "kroundup32 x = 2 ^ k" "unat (x - 1) < 2 ^ k" "0 < k \<Longrightarrow> 2 ^ (k - 1) \<le> unat (x - 1)"
    using kroundup32_power [of x] by metis
  have "(2 :: nat) ^ k' < 2 ^ Suc k" using assms(1) k(2) by simp
  then have "k' \<le> k" using power_less_imp_less_exp [of "2 :: nat" k' "Suc k"] by simp
  moreover have "k \<le> k'"
  proof (cases k)
    case (Suc j)
    then have "(2 :: nat) ^ j \<le> unat (x - 1)" using k(3) by simp
    then have "(2 :: nat) ^ j < 2 ^ k'" using assms(2) by (rule order.strict_trans1)
    then have "j < k'" by (rule power_less_imp_less_exp [rotated]) simp
    then show ?thesis using Suc by simp
  qed simp
  ultimately show ?thesis using k(1) by simp
qed

lemma kroundup32_pred:
  assumes "2 \<le> m" "m < 32"
  shows "kroundup32 (2 ^ m - 1) = 2 ^ m"
proof -
  have "unat (2 ^ m - 1 - 1 :: u32) = 2 ^ m - 2"
  proof -
    have "2 \<le> (2 :: u32) ^ m" using unat_two_power [OF assms(2)] four_le_power [OF assms(1)] by (simp add: word_le_nat_alt)
    then have "unat (2 ^ m - 2 :: u32) = unat (2 ^ m :: u32) - unat (2 :: u32)" by (rule unat_sub)
    then show ?thesis using unat_two_power [OF assms(2)] by simp
  qed
  then show ?thesis using four_le_power [OF assms(1)] by (intro kroundup32_unique) simp_all
qed

lemma kroundup32_succ:
  assumes "m < 31"
  shows "kroundup32 (2 ^ m + 1) = 2 ^ Suc m"
  using assms unat_two_power [of m] by (intro kroundup32_unique) simp_all

lemma kh_upper_bound_mono: "2 \<le> m \<Longrightarrow> Suc m < 32 \<Longrightarrow> ac_upper_bound (2 ^ m) < ac_upper_bound (2 ^ Suc m)"
  using four_le_power [of m] by (simp only: word_less_nat_alt unat_upper_bound unat_two_power Suc_lessD) simp

definition generous :: "'v kh_memory \<Rightarrow> bool" where
  "generous mem \<longleftrightarrow> mem_flags mem \<and> mem_keys mem \<noteq> None \<and> mem_vals mem \<noteq> None"

lemma kh_make_room_target:
  assumes "kh_inv h" "kh_n_buckets h < 2 ^ 31" "kh_n_occupied h \<ge> kh_upper_bound h"
  defines "n \<equiv> if kh_n_buckets h > push_bit 1 (kh_size h) then kh_n_buckets h - 1 else kh_n_buckets h + 1"
  defines "k \<equiv> if kroundup32 n < 4 then 4 else kroundup32 n"
  shows "kh_size h < ac_upper_bound k" "unat k \<le> max (unat (kh_n_buckets h)) (max 4 (4 * card (kh_live h)))"
proof -
  have "kh_size h < ac_upper_bound k \<and> unat k \<le> max (unat (kh_n_buckets h)) (max 4 (4 * card (kh_live h)))"
  proof (cases "kh_n_buckets h = 0")
    case True
    have "kroundup32 1 = 1" using kroundup32_unique [of 0 1] by code_simp
    then have "k = 4" using True by (simp add: k_def n_def)
    moreover have "kh_size h = 0" using assms(1) True by (simp add: kh_inv_def)
    moreover have "0 < ac_upper_bound 4" by (simp add: word_less_nat_alt unat_upper_bound)
    ultimately show ?thesis by simp
  next
    case False
    obtain m where m: "2 \<le> m" "m < 32" "kh_n_buckets h = 2 ^ m" "unat (kh_n_buckets h) = 2 ^ m" "4 \<le> unat (kh_n_buckets h)"
      using kh_inv_power [OF assms(1) False] by metis
    have m31: "m < 31"
    proof (rule ccontr)
      assume "\<not> m < 31"
      then have "m = 31" using m(2) by simp
      with m(3) assms(2) show False by simp
    qed
    have size: "unat (kh_size h) \<le> (77 * 2 ^ m + 50) div 100" "unat (kh_size h) = card (kh_live h)"
      using kh_sizes [OF assms(1)] m(4) by (simp_all add: word_le_nat_alt)
    have "(2 :: nat) ^ m \<le> 2 ^ 31" using m(2) by (intro power_increasing) simp_all
    then have "unat (kh_size h) * 2 < 4294967296" using size(1) by simp
    then have double: "unat (push_bit 1 (kh_size h)) = 2 * unat (kh_size h)"
      by (simp add: push_bit_eq_mult unat_mult_lem [THEN iffD1])
    show ?thesis
    proof (cases "kh_n_buckets h > push_bit 1 (kh_size h)")
      case True
      then have "k = 2 ^ m" using kroundup32_pred [OF m(1,2)] m(3,5) by (simp add: k_def n_def word_less_nat_alt m(4))
      moreover have "2 * unat (kh_size h) < 2 ^ m" using True double m(4) by (simp add: word_less_nat_alt)
      ultimately show ?thesis using m by (simp add: word_less_nat_alt unat_upper_bound)
    next
      case False
      then have "kroundup32 n = 2 ^ Suc m" using kroundup32_succ [OF m31] m(3) by (simp add: n_def)
      moreover have n2: "unat (2 ^ Suc m :: u32) = 2 * 2 ^ m" using unat_two_power [of "Suc m"] m31 by simp
      ultimately have k: "k = 2 ^ Suc m" using m(4,5) by (simp only: k_def word_less_nat_alt) simp
      moreover have "2 ^ m \<le> 2 * unat (kh_size h)" using False double m(4) by (simp add: word_less_nat_alt)
      ultimately show ?thesis using n2 size m(4,5) by (simp only: word_less_nat_alt unat_upper_bound) simp
    qed
  qed
  then show "kh_size h < ac_upper_bound k" "unat k \<le> max (unat (kh_n_buckets h)) (max 4 (4 * card (kh_live h)))" by simp_all
qed

lemma kh_make_room_spec:
  assumes "kh_inv h" "kh_n_buckets h < 2 ^ 31"
  obtains h' rv where "kh_make_room mem h = Some (h', rv)" "kh_inv h'" "kh_map h' = kh_map h" "rv = 0 \<or> rv = - 1"
    "generous mem \<Longrightarrow> rv = 0"
    "rv = 0 \<Longrightarrow> kh_n_buckets h' \<noteq> 0 \<and> kh_n_occupied h' < kh_upper_bound h'
       \<and> unat (kh_n_buckets h') \<le> max (unat (kh_n_buckets h)) (max 4 (4 * card (kh_live h)))"
proof (cases "kh_n_occupied h \<ge> kh_upper_bound h")
  case False
  then have "kh_n_buckets h \<noteq> 0" using assms(1) by (auto simp: kh_inv_def)
  moreover have "kh_make_room mem h = Some (h, 0)" using False by (simp add: kh_make_room_def)
  ultimately show thesis using that [of h 0] assms(1) False by simp
next
  case True
  define n where "n = (if kh_n_buckets h > push_bit 1 (kh_size h) then kh_n_buckets h - 1 else kh_n_buckets h + 1)"
  define k where "k = (if kroundup32 n < 4 then 4 else kroundup32 n)"
  note target = kh_make_room_target [OF assms True, folded n_def, folded k_def]
  show thesis
  proof (rule kh_resize_spec [OF assms(1), of mem n, folded k_def])
    fix h' rv
    assume r: "kh_resize mem h n = Some (h', rv)" "kh_inv h'" "kh_map h' = kh_map h" "rv = 0 \<or> rv = - 1"
      and ok: "mem_flags mem \<Longrightarrow> mem_keys mem \<noteq> None \<Longrightarrow> mem_vals mem \<noteq> None \<Longrightarrow> rv = 0"
      and moved: "rv = 0 \<Longrightarrow> kh_size h < ac_upper_bound k \<Longrightarrow> kh_n_buckets h' = k \<and> kh_n_occupied h' = kh_size h"
    have "kh_make_room mem h = Some (h', rv)" using True r(1) by (simp add: kh_make_room_def n_def)
    then show thesis
    proof (rule that [OF _ r(2-4)])
      show "generous mem \<Longrightarrow> rv = 0" using ok by (simp add: generous_def)
      assume "rv = 0"
      from moved [OF this target(1)] have "kh_n_buckets h' = k" "kh_n_occupied h' = kh_size h" by simp_all
      moreover have "k \<noteq> 0" by (auto simp: k_def)
      ultimately show "kh_n_buckets h' \<noteq> 0 \<and> kh_n_occupied h' < kh_upper_bound h'
          \<and> unat (kh_n_buckets h') \<le> max (unat (kh_n_buckets h)) (max 4 (4 * card (kh_live h)))"
        using r(2) target by (simp add: kh_inv_def)
    qed
  qed
qed

lemma kh_put_spec:
  assumes "kh_inv h" "kh_n_buckets h < 2 ^ 31"
  obtains h' x ret where "kh_put mem h key = Some (h', x, ret)" "kh_inv h'" "generous mem \<Longrightarrow> ret \<noteq> - 1"
    "if ret = - 1 then kh_map h' = kh_map h
     else x \<in> kh_live h' \<and> kh_key h' x = key \<and> kh_map h' |` (- {key}) = kh_map h |` (- {key})
       \<and> (ret = 0 \<and> key \<in> dom (kh_map h) \<and> kh_map h' = kh_map h \<or> (ret = 1 \<or> ret = 2) \<and> key \<notin> dom (kh_map h))
       \<and> unat (kh_n_buckets h') \<le> max (unat (kh_n_buckets h)) (max 4 (4 * card (kh_live h)))"
proof -
  obtain h1 rv where room: "kh_make_room mem h = Some (h1, rv)" and inv1: "kh_inv h1" and map1: "kh_map h1 = kh_map h"
    and rv: "rv = 0 \<or> rv = - 1" "generous mem \<Longrightarrow> rv = 0"
    and free: "rv = 0 \<Longrightarrow> kh_n_buckets h1 \<noteq> 0 \<and> kh_n_occupied h1 < kh_upper_bound h1
       \<and> unat (kh_n_buckets h1) \<le> max (unat (kh_n_buckets h)) (max 4 (4 * card (kh_live h)))"
    using kh_make_room_spec [OF assms, of mem] by metis
  show thesis
  proof (cases "rv = 0")
    case False
    then have "kh_put mem h key = Some (h1, kh_n_buckets h1, - 1)" using room rv by (auto simp: kh_put_def)
    then show thesis by (rule that) (use False rv inv1 map1 in auto)
  next
    case True
    note f = free [OF True]
    obtain x where x: "kh_put_bucket h1 key = Some x" "x < kh_n_buckets h1"
      "if key \<in> dom (kh_map h1) then x \<in> kh_live h1 \<and> kh_key h1 x = key
       else ac_iseither (kh_flags h1) x \<and> kh_reached (kh_n_buckets h1) (kh_occupied h1) key x"
      using kh_put_bucket_spec [OF inv1, of key] f by metis
    show thesis
    proof (cases "key \<in> dom (kh_map h1)")
      case present: True
      then have "kh_put mem h key = Some (h1, x, 0)" using room True x by (simp add: kh_put_def kh_claim_present)
      then show thesis by (rule that) (use present x f inv1 map1 in auto)
    next
      case absent: False
      obtain h2 ret where c: "kh_claim h1 key x = (h2, ret)" "ret = 1 \<or> ret = 2" "kh_inv h2" "kh_n_buckets h2 = kh_n_buckets h1"
        "x \<in> kh_live h2" "kh_key h2 x = key" "kh_map h2 |` (- {key}) = kh_map h1"
        using kh_claim_new [OF inv1 _ _ x(2) absent] f x(3) absent by metis
      have "kh_map h |` (- {key}) = kh_map h" using absent map1 by (auto simp: restrict_map_def domIff fun_eq_iff)
      note same = this
      have "kh_put mem h key = Some (h2, x, ret)" using room True x(1) c(1) by (simp add: kh_put_def)
      then show thesis by (rule that) (use c f map1 absent same in auto)
    qed
  qed
qed

section \<open>A table is a map\<close>

text \<open>The ways in which the library uses its tables: storing, looking up and removing by key.\<close>

definition kh_store :: "'v kh_memory \<Rightarrow> 'v khash \<Rightarrow> u32 \<Rightarrow> 'v \<Rightarrow> ('v khash \<times> int) option" where
  "kh_store mem h key v =
     map_option (\<lambda>(h, x, ret). (if ret = - 1 then h else kh_set_value h x v, ret)) (kh_put mem h key)"

definition kh_find :: "'v khash \<Rightarrow> u32 \<Rightarrow> 'v option option" where
  "kh_find h key =
     map_option (\<lambda>x. if x \<noteq> kh_n_buckets h \<and> kh_exist h x then Some (kh_value h x) else None) (kh_get h key)"

definition kh_remove :: "'v khash \<Rightarrow> u32 \<Rightarrow> 'v khash option" where
  "kh_remove h key =
     map_option (\<lambda>x. if x \<noteq> kh_n_buckets h \<and> kh_exist h x then kh_del h x else h) (kh_get h key)"

definition kh_roomy :: "'v khash \<Rightarrow> bool" where
  "kh_roomy h \<longleftrightarrow> kh_inv h \<and> unat (kh_n_buckets h) \<le> 2 ^ 30"

lemma kh_live_exists: "x \<in> kh_live h \<Longrightarrow> x \<noteq> kh_n_buckets h \<and> kh_exist h x"
  by (auto simp: kh_live_def)

lemma kh_find_spec: "kh_inv h \<Longrightarrow> kh_find h key = Some (kh_map h key)"
  using kh_get_spec [of h key] by (auto simp: kh_find_def dest: kh_live_exists split: option.splits)

lemma kh_remove_spec:
  assumes "kh_inv h"
  obtains h' where "kh_remove h key = Some h'" "kh_inv h'" "kh_map h' = (kh_map h)(key := None)" "kh_n_buckets h' = kh_n_buckets h"
proof (cases "kh_map h key")
  case None
  then have "kh_remove h key = Some h" using kh_get_spec [OF assms, of key] by (simp add: kh_remove_def)
  with None show thesis using that assms by (simp add: fun_upd_idem)
next
  case (Some v)
  then obtain x where x: "kh_get h key = Some x" "x \<in> kh_live h" "kh_key h x = key" using kh_get_spec [OF assms, of key] by auto
  then have "kh_remove h key = Some (kh_del h x)" using kh_live_exists [OF x(2)] by (simp add: kh_remove_def)
  then show thesis by (rule that) (use kh_del_spec [OF assms x(2)] kh_del_live [OF assms x(2)] x(3) in simp_all)
qed

lemma kh_live_card:
  assumes "kh_inv h"
  shows "card (kh_live h) = card (dom (kh_map h))"
proof -
  have "dom (kh_map h) = kh_key h ` kh_live h" using kh_dom_iff [OF assms] by blast
  moreover have "inj_on (kh_key h) (kh_live h)" using kh_live_key_inj [OF assms] by (auto intro: inj_onI)
  ultimately show ?thesis by (simp add: card_image)
qed

lemma kh_store_spec:
  assumes "kh_inv h" "kh_n_buckets h < 2 ^ 31"
  obtains h' ret where "kh_store mem h key v = Some (h', ret)" "kh_inv h'" "generous mem \<Longrightarrow> ret \<noteq> - 1"
    "kh_map h' = (if ret = - 1 then kh_map h else (kh_map h)(key \<mapsto> v))"
    "ret \<noteq> - 1 \<Longrightarrow> unat (kh_n_buckets h') \<le> max (unat (kh_n_buckets h)) (max 4 (4 * card (dom (kh_map h))))"
proof (rule kh_put_spec [OF assms, of mem key])
  fix h' x ret
  assume put: "kh_put mem h key = Some (h', x, ret)" "kh_inv h'" and ok: "generous mem \<Longrightarrow> ret \<noteq> - 1"
    and rest: "if ret = - 1 then kh_map h' = kh_map h
     else x \<in> kh_live h' \<and> kh_key h' x = key \<and> kh_map h' |` (- {key}) = kh_map h |` (- {key})
       \<and> (ret = 0 \<and> key \<in> dom (kh_map h) \<and> kh_map h' = kh_map h \<or> (ret = 1 \<or> ret = 2) \<and> key \<notin> dom (kh_map h))
       \<and> unat (kh_n_buckets h') \<le> max (unat (kh_n_buckets h)) (max 4 (4 * card (kh_live h)))"
  let ?h = "if ret = - 1 then h' else kh_set_value h' x v"
  have "kh_store mem h key v = Some (?h, ret)" using put(1) by (simp add: kh_store_def)
  then show thesis
    by (rule that) (use put(2) ok rest kh_map_update [OF assms(1) put(2)] kh_live_card [OF assms(1)] in \<open>auto split: if_splits\<close>)
qed

text \<open>Storing and removing, one after the other.\<close>

fun table_run :: "('t \<Rightarrow> 'k \<Rightarrow> 'v \<Rightarrow> 't option) \<Rightarrow> ('t \<Rightarrow> 'k \<Rightarrow> 't option) \<Rightarrow> ('k \<times> 'v option) list \<Rightarrow> 't \<Rightarrow> 't option" where
  "table_run store remove [] t = Some t"
| "table_run store remove ((k, Some v) # ops) t = Option.bind (store t k v) (table_run store remove ops)"
| "table_run store remove ((k, None) # ops) t = Option.bind (remove t k) (table_run store remove ops)"

definition map_run :: "('k \<times> 'v option) list \<Rightarrow> ('k \<rightharpoonup> 'v) \<Rightarrow> ('k \<rightharpoonup> 'v)" where
  "map_run ops m = foldl (\<lambda>m (k, v). m(k := v)) m ops"

lemma map_run_simps [simp]: "map_run [] m = m" "map_run ((k, v) # ops) m = map_run ops (m(k := v))"
  by (simp_all add: map_run_def)

locale map_table =
  fixes inv :: "'t \<Rightarrow> bool" and abs :: "'t \<Rightarrow> 'k \<rightharpoonup> 'v" and capacity :: nat
    and store :: "'t \<Rightarrow> 'k \<Rightarrow> 'v \<Rightarrow> 't option" and find :: "'t \<Rightarrow> 'k \<Rightarrow> 'v option option" and remove :: "'t \<Rightarrow> 'k \<Rightarrow> 't option"
  assumes finite_abs: "inv t \<Longrightarrow> finite (dom (abs t))"
    and store_law: "inv t \<Longrightarrow> card (dom (abs t)) < capacity \<Longrightarrow> \<exists>t'. store t k v = Some t' \<and> inv t' \<and> abs t' = (abs t)(k \<mapsto> v)"
    and find_law: "inv t \<Longrightarrow> find t k = Some (abs t k)"
    and remove_law: "inv t \<Longrightarrow> \<exists>t'. remove t k = Some t' \<and> inv t' \<and> abs t' = (abs t)(k := None)"
begin

lemma run_law:
  assumes "inv t" "card (dom (abs t)) + length ops \<le> capacity"
  shows "\<exists>t'. table_run store remove ops t = Some t' \<and> inv t' \<and> abs t' = map_run ops (abs t)"
  using assms
proof (induction ops arbitrary: t)
  case (Cons op ops)
  obtain k v where op: "op = (k, v)" by fastforce
  have "card (dom (abs t)) < capacity" using Cons.prems(2) by simp
  then have "\<exists>t1. table_run store remove [op] t = Some t1 \<and> inv t1 \<and> abs t1 = (abs t)(k := v)"
    using store_law [OF Cons.prems(1), of k "the v"] remove_law [OF Cons.prems(1), of k] by (cases v) (auto simp: op)
  then obtain t1 where t1: "table_run store remove [op] t = Some t1" "inv t1" "abs t1 = (abs t)(k := v)" by blast
  have "card (dom (abs t1)) \<le> card (insert k (dom (abs t)))"
    using finite_abs [OF Cons.prems(1)] by (intro card_mono) (auto simp: t1(3) split: if_splits)
  also have "\<dots> \<le> Suc (card (dom (abs t)))" by (rule card_insert_le_m1) simp_all
  finally obtain t2 where "table_run store remove ops t1 = Some t2" "inv t2" "abs t2 = map_run ops (abs t1)"
    using Cons.IH [OF t1(2)] Cons.prems(2) by auto
  then show ?case using t1 by (cases v) (auto simp: op bind_eq_Some_conv)
qed simp

lemma run_find:
  assumes "inv t" "abs t = Map.empty" "length ops \<le> capacity"
  shows "\<exists>t'. table_run store remove ops t = Some t' \<and> inv t' \<and> find t' k = Some (map_run ops Map.empty k)"
  using run_law [of t ops] find_law assms by fastforce

end

definition enough :: "(nat \<Rightarrow> u32) \<Rightarrow> (nat \<Rightarrow> 'v) \<Rightarrow> 'v kh_memory" where
  "enough f g = \<lparr>mem_flags = True, mem_keys = Some f, mem_vals = Some g\<rparr>"

lemma enough_generous [simp]: "generous (enough f g)"
  by (simp add: generous_def enough_def)

interpretation kh: map_table kh_roomy kh_map "2 ^ 28" "\<lambda>h k v. map_option fst (kh_store (enough f g) h k v)" kh_find kh_remove
  for f :: "nat \<Rightarrow> u32" and g :: "nat \<Rightarrow> 'v"
proof unfold_locales
  fix h :: "'v khash" and k :: u32 and v :: 'v
  assume "kh_roomy h"
  then have h: "kh_inv h" "unat (kh_n_buckets h) \<le> 2 ^ 30" by (simp_all add: kh_roomy_def)
  then have lt: "kh_n_buckets h < 2 ^ 31" by (simp add: word_less_nat_alt)
  show "finite (dom (kh_map h))" by simp
  show "kh_find h k = Some (kh_map h k)" using h(1) by (rule kh_find_spec)
  show "\<exists>t'. kh_remove h k = Some t' \<and> kh_roomy t' \<and> kh_map t' = (kh_map h)(k := None)"
    using kh_remove_spec [OF h(1), of k] h(2) by (metis kh_roomy_def)
  assume "card (dom (kh_map h)) < 2 ^ 28"
  then have bound: "max (unat (kh_n_buckets h)) (max 4 (4 * card (dom (kh_map h)))) \<le> 2 ^ 30" using h(2) by simp
  show "\<exists>t'. map_option fst (kh_store (enough f g) h k v) = Some t' \<and> kh_roomy t' \<and> kh_map t' = (kh_map h)(k \<mapsto> v)"
  proof (rule kh_store_spec [OF h(1) lt, of "enough f g" k v])
    fix h' ret
    assume s: "kh_store (enough f g) h k v = Some (h', ret)" "kh_inv h'"
      and ok: "generous (enough f g) \<Longrightarrow> ret \<noteq> - 1" and map: "kh_map h' = (if ret = - 1 then kh_map h else (kh_map h)(k \<mapsto> v))"
      and grown: "ret \<noteq> - 1 \<Longrightarrow> unat (kh_n_buckets h') \<le> max (unat (kh_n_buckets h)) (max 4 (4 * card (dom (kh_map h))))"
    have "ret \<noteq> - 1" using ok by simp
    with grown bound have "unat (kh_n_buckets h') \<le> 2 ^ 30" by (meson order.trans)
    with s map \<open>ret \<noteq> - 1\<close> show ?thesis by (simp add: kh_roomy_def)
  qed
qed

lemma kh_init_roomy [simp]: "kh_roomy kh_init"
  by (simp add: kh_roomy_def) (simp add: kh_init_def)

section \<open>Iterating over a table\<close>

lemma kh_foreach_from_induct:
  assumes inv: "\<And>i s. P i s \<Longrightarrow> unat (kh_n_buckets (tbl s)) = n"
    and exists: "\<And>i s. P i s \<Longrightarrow> i < n \<Longrightarrow> kh_exist (tbl s) (of_nat i) \<Longrightarrow>
        \<exists>s'. code (kh_key (tbl s) (of_nat i)) (kh_value (tbl s) (of_nat i)) s = Some s' \<and> P (Suc i) s'"
    and free: "\<And>i s. P i s \<Longrightarrow> i < n \<Longrightarrow> \<not> kh_exist (tbl s) (of_nat i) \<Longrightarrow> P (Suc i) s"
    and start: "P i s" "i \<le> n"
  shows "\<exists>s'. kh_foreach_from tbl code (of_nat i) s = Some s' \<and> P n s'"
  using start
proof (induction "n - i" arbitrary: i s)
  case 0
  then have "i = unat (kh_n_buckets (tbl s))" using inv [of i s] by simp
  then have "of_nat i = kh_n_buckets (tbl s)" by simp
  with 0 show ?case by (subst kh_foreach_from.simps) (simp add: inv)
next
  case (Suc d)
  then have i: "i < n" by simp
  have "n < 4294967296" using inv [OF Suc.prems(1)] unat_u32_lt by metis
  then have ne: "of_nat i \<noteq> kh_n_buckets (tbl s)" using i inv [OF Suc.prems(1)] unat_of_nat_u32 [of i] by auto
  obtain s' where s': "(if kh_exist (tbl s) (of_nat i) then code (kh_key (tbl s) (of_nat i)) (kh_value (tbl s) (of_nat i)) s else Some s) = Some s'"
    "P (Suc i) s'"
    using exists [OF Suc.prems(1) i] free [OF Suc.prems(1) i] by (cases "kh_exist (tbl s) (of_nat i)") auto
  have "kh_foreach_from tbl code (of_nat i) s = kh_foreach_from tbl code (of_nat (Suc i)) s'"
    using ne s'(1) by (subst kh_foreach_from.simps) (simp add: add.commute)
  with Suc.hyps(1) [OF _ s'(2)] Suc.hyps(2) i show ?case by simp
qed

lemma kh_foreach_induct:
  assumes "P 0 s" "\<And>i s. P i s \<Longrightarrow> unat (kh_n_buckets (tbl s)) = n"
    and "\<And>i s. P i s \<Longrightarrow> i < n \<Longrightarrow> kh_exist (tbl s) (of_nat i) \<Longrightarrow>
        \<exists>s'. code (kh_key (tbl s) (of_nat i)) (kh_value (tbl s) (of_nat i)) s = Some s' \<and> P (Suc i) s'"
    and "\<And>i s. P i s \<Longrightarrow> i < n \<Longrightarrow> \<not> kh_exist (tbl s) (of_nat i) \<Longrightarrow> P (Suc i) s"
  shows "\<exists>s'. kh_foreach tbl code s = Some s' \<and> P n s'"
  using kh_foreach_from_induct [of P tbl n code 0 s] assms by (simp add: kh_foreach_def)

lemma kh_foreach_fold:
  assumes "\<And>k v s. code k v s = Some (f k v s)" "\<And>k v s. tbl (f k v s) = tbl s"
  shows "kh_foreach tbl code s = Some (fold (\<lambda>(k, v). f k v) (kh_entries (tbl s)) s)"
proof -
  define entries where "entries = (\<lambda>i. map (\<lambda>x. (kh_key (tbl s) x, kh_value (tbl s) x)) (filter (kh_exist (tbl s)) (map of_nat [0..<i])))"
  have "\<exists>s'. kh_foreach tbl code s = Some s'
      \<and> tbl s' = tbl s \<and> s' = fold (\<lambda>(k, v). f k v) (entries (unat (kh_n_buckets (tbl s)))) s"
    by (rule kh_foreach_induct [where P = "\<lambda>i s'. tbl s' = tbl s \<and> s' = fold (\<lambda>(k, v). f k v) (entries i) s"])
      (auto simp: assms entries_def)
  then show ?thesis by (auto simp: kh_entries_def entries_def)
qed

text \<open>The loops that trim a table delete while they iterate.\<close>

definition kh_close_if_less_than :: "u32 \<Rightarrow> u32 \<Rightarrow> 'v khash \<Rightarrow> 'v khash option" where
  "kh_close_if_less_than cmp key h = (if key < cmp then kh_remove h key else Some h)"

lemma kh_remove_live:
  assumes "kh_inv h" "x \<in> kh_live h"
  shows "kh_remove h (kh_key h x) = Some (kh_del h x)"
proof -
  have "kh_map h (kh_key h x) = Some (kh_value h x)" using assms kh_map_iff [OF kh_inv_inj [OF assms(1)]] by blast
  then obtain y where y: "kh_get h (kh_key h x) = Some y" "y \<in> kh_live h" "kh_key h y = kh_key h x"
    using kh_get_spec [OF assms(1), of "kh_key h x"] by auto
  then have "y = x" using kh_live_key_inj [OF assms(1)] assms(2) by blast
  with y(1) kh_live_exists [OF assms(2)] show ?thesis by (simp add: kh_remove_def)
qed

lemma kh_foreach_trim:
  assumes "kh_inv h"
  obtains h' where "kh_foreach (\<lambda>h. h) (\<lambda>k v. kh_close_if_less_than cmp k) h = Some h'" "kh_inv h'" "kh_map h' = drop_below cmp (kh_map h)"
    "kh_n_buckets h' = kh_n_buckets h"
proof -
  let ?n = "unat (kh_n_buckets h)"
  let ?P = "\<lambda>i g. kh_inv g \<and> kh_n_buckets g = kh_n_buckets h \<and> kh_key g = kh_key h \<and> kh_value g = kh_value h
      \<and> kh_live g = {x \<in> kh_live h. i \<le> unat x \<or> \<not> kh_key h x < cmp}"
  have "\<exists>g. kh_foreach (\<lambda>h. h) (\<lambda>k v. kh_close_if_less_than cmp k) h = Some g \<and> ?P ?n g"
  proof (rule kh_foreach_induct)
    fix i g assume P: "?P i g" and i: "i < ?n" and live: "kh_exist g (of_nat i)"
    have x: "unat (of_nat i :: u32) = i" using i unat_u32_lt [of "kh_n_buckets h"] by (simp add: unat_of_nat_u32)
    then have "of_nat i \<in> kh_live g" using P i live by (simp add: kh_live_def word_less_nat_alt)
    note del = kh_remove_live [OF _ this] kh_del_spec(1) [OF _ this] kh_del_live [OF _ this]
    show "\<exists>g'. kh_close_if_less_than cmp (kh_key g (of_nat i)) g = Some g' \<and> ?P (Suc i) g'"
    proof (cases "kh_key h (of_nat i) < cmp")
      case True
      then have "{x \<in> kh_live h. i \<le> unat x \<or> \<not> kh_key h x < cmp} - {of_nat i} = {x \<in> kh_live h. Suc i \<le> unat x \<or> \<not> kh_key h x < cmp}"
        using x by (auto simp: Suc_le_eq word_unat_eq_iff order.order_iff_strict)
      with True P del show ?thesis by (simp add: kh_close_if_less_than_def)
    next
      case False
      then have "{x \<in> kh_live h. i \<le> unat x \<or> \<not> kh_key h x < cmp} = {x \<in> kh_live h. Suc i \<le> unat x \<or> \<not> kh_key h x < cmp}"
        using x by (auto simp: Suc_le_eq order.order_iff_strict)
      with False P show ?thesis by (simp add: kh_close_if_less_than_def)
    qed
  next
    fix i g assume P: "?P i g" and i: "i < ?n" and free: "\<not> kh_exist g (of_nat i)"
    have x: "unat (of_nat i :: u32) = i" using i unat_u32_lt [of "kh_n_buckets h"] by (simp add: unat_of_nat_u32)
    have "of_nat i \<notin> kh_live g" using free by (simp add: kh_live_def)
    then have "of_nat i \<notin> kh_live h" using P x by simp
    then have "unat y \<noteq> i" if "y \<in> kh_live h" for y using that by auto
    then have "{x \<in> kh_live h. i \<le> unat x \<or> \<not> kh_key h x < cmp} = {x \<in> kh_live h. Suc i \<le> unat x \<or> \<not> kh_key h x < cmp}"
      by (auto simp: Suc_le_eq order.order_iff_strict)
    with P show "?P (Suc i) g" by simp
  qed (use assms in auto)
  then obtain g where g: "kh_foreach (\<lambda>h. h) (\<lambda>k v. kh_close_if_less_than cmp k) h = Some g" "?P ?n g" by blast
  have "\<not> ?n \<le> unat x" if "x \<in> kh_live h" for x using that by (simp add: kh_live_def word_less_nat_alt)
  then have "{x \<in> kh_live h. ?n \<le> unat x \<or> \<not> kh_key h x < cmp} = {x \<in> kh_live h. \<not> kh_key h x < cmp}" by blast
  then have live: "kh_live g = {x \<in> kh_live h. \<not> kh_key h x < cmp}" using g(2) by simp
  have inv: "kh_inv g" "kh_key g = kh_key h" "kh_value g = kh_value h" using g(2) by simp_all
  have "kh_map g k = Some v \<longleftrightarrow> drop_below cmp (kh_map h) k = Some v" for k v
  proof -
    have "kh_map g k = Some v \<longleftrightarrow> \<not> k < cmp \<and> kh_map h k = Some v"
      unfolding kh_map_iff [OF kh_inv_inj [OF assms]] kh_map_iff [OF kh_inv_inj [OF inv(1)]] live inv(2,3) by blast
    then show ?thesis by (simp add: drop_below_def)
  qed
  then have "kh_map g = drop_below cmp (kh_map h)" by (intro ext) (metis not_Some_eq)
  with g show thesis using that by blast
qed

text \<open>
  C21: A hash table of the library is a map: however keys are stored and removed, up to \<open>2\<^sup>2\<^sup>8\<close> operations, every call returns,
  a lookup finds exactly what a map would hold, and iterating over the table visits every entry of the map once.  The
  table may grow, be rehashed in place and reuse deleted buckets meanwhile, and its fresh memory may hold anything.
\<close>

theorem khash_refines_map:
  assumes "length ops \<le> 2 ^ 28"
  shows "\<exists>h. table_run (\<lambda>h k v. map_option fst (kh_store (enough f g) h k v)) kh_remove ops kh_init = Some h
    \<and> (\<forall>k. kh_find h k = Some (map_run ops Map.empty k))
    \<and> distinct (map fst (kh_entries h)) \<and> map_of (kh_entries h) = map_run ops Map.empty
    \<and> unat (kh_size h) = card (dom (map_run ops Map.empty))"
proof -
  obtain h where h: "table_run (\<lambda>h k v. map_option fst (kh_store (enough f g) h k v)) kh_remove ops kh_init = Some h"
    "kh_roomy h" "kh_map h = map_run ops Map.empty"
    using kh.run_law [of kh_init ops f g] assms by auto
  have inv: "kh_inv h" using h(2) by (simp add: kh_roomy_def)
  have "\<forall>k. kh_find h k = Some (map_run ops Map.empty k)" using kh.find_law [OF h(2)] h(3) by simp
  moreover have "map_of (kh_entries h) = map_run ops Map.empty" using h(3) by (simp add: kh_map_def)
  ultimately show ?thesis
    using h distinct_kh_entries [OF kh_inv_inj [OF inv]] kh_sizes(1) [OF inv] kh_live_card [OF inv] by auto
qed

theorem khash_refines_map_witness:
  "\<exists>h. table_run (\<lambda>h k v. map_option fst (kh_store (enough (\<lambda>_. 7) (\<lambda>_. ''?'')) h k v)) kh_remove
        [(4, Some ''a''), (8, Some ''b''), (0, Some ''c''), (4, None), (12, Some ''d''), (8, Some ''e'')] kh_init = Some h
     \<and> kh_find h 8 = Some (Some ''e'') \<and> kh_find h 4 = Some None"
  using khash_refines_map [of "[(4, Some ''a''), (8, Some ''b''), (0, Some ''c''), (4, None), (12, Some ''d''), (8, Some ''e'')]"
      "\<lambda>_. 7" "\<lambda>_. ''?''"]
  by auto

lemma kh_put_without_growth:
  assumes "kh_n_occupied h < kh_upper_bound h" "kh_put mem h key = Some (h', x, ret)"
  shows "ret \<noteq> - 1"
proof -
  obtain y where "(case kh_claim h key y of (h, ret) \<Rightarrow> (h, y, ret)) = (h', x, ret)"
    using assms by (auto simp: kh_put_def kh_make_room_def not_le [symmetric])
  then have "kh_claim h key y = (h', ret)" by (simp split: prod.splits)
  then show ?thesis by (auto simp: kh_claim_def Let_def split: if_splits)
qed

text \<open>
  C22: \<open>kh_put\<close> on a well-formed table with fewer than \<open>2\<^sup>3\<^sup>1\<close> buckets returns, and it succeeds unless its buckets are
  used up and one of the three allocations fails.  In that case it reports \<open>-1\<close> and the table holds what it held;
  otherwise it returns a bucket that holds the key, reports \<open>0\<close> exactly when the key was there before, whose value
  it then leaves alone, and leaves every other key alone.
\<close>

theorem kh_put_result:
  assumes "kh_inv h" "kh_n_buckets h < 2 ^ 31"
  shows "\<exists>h' x ret. kh_put mem h key = Some (h', x, ret) \<and> kh_inv h'
    \<and> (kh_n_occupied h < kh_upper_bound h \<or> mem_flags mem \<and> mem_keys mem \<noteq> None \<and> mem_vals mem \<noteq> None \<longrightarrow> ret \<noteq> - 1)
    \<and> (if ret = - 1 then kh_map h' = kh_map h
       else x < kh_n_buckets h' \<and> kh_exist h' x \<and> kh_key h' x = key
         \<and> kh_map h' |` (- {key}) = kh_map h |` (- {key}) \<and> (ret = 0 \<longleftrightarrow> key \<in> dom (kh_map h))
         \<and> (ret = 0 \<longrightarrow> kh_map h' = kh_map h))"
proof (rule kh_put_spec [OF assms, of mem key])
  fix h' x ret
  assume put: "kh_put mem h key = Some (h', x, ret)" "kh_inv h'" "generous mem \<Longrightarrow> ret \<noteq> - 1"
    and "if ret = - 1 then kh_map h' = kh_map h
     else x \<in> kh_live h' \<and> kh_key h' x = key \<and> kh_map h' |` (- {key}) = kh_map h |` (- {key})
       \<and> (ret = 0 \<and> key \<in> dom (kh_map h) \<and> kh_map h' = kh_map h \<or> (ret = 1 \<or> ret = 2) \<and> key \<notin> dom (kh_map h))
       \<and> unat (kh_n_buckets h') \<le> max (unat (kh_n_buckets h)) (max 4 (4 * card (kh_live h)))"
  with kh_put_without_growth [OF _ put(1)] show ?thesis
    by (intro exI [of _ h'] exI [of _ x] exI [of _ ret]) (auto simp: kh_live_def generous_def split: if_splits)
qed

theorem kh_put_result_witness:
  "\<exists>h' x ret. kh_put (enough (\<lambda>_. 7) (\<lambda>_. 0)) (kh_init :: nat khash) 9 = Some (h', x, ret)
     \<and> kh_exist h' x \<and> kh_key h' x = 9 \<and> ret \<noteq> - 1 \<and> ret \<noteq> 0
     \<and> (\<exists>h' x. kh_put \<lparr>mem_flags = True, mem_keys = Some (\<lambda>_. 0), mem_vals = None\<rparr> (kh_init :: nat khash) 9 = Some (h', x, - 1)
          \<and> kh_map h' = Map.empty)"
proof -
  let ?mem = "\<lparr>mem_flags = True, mem_keys = Some (\<lambda>_. 0), mem_vals = None\<rparr> :: nat kh_memory"
  have small: "kh_n_buckets (kh_init :: nat khash) < 2 ^ 31" by (simp add: kh_init_def)
  note result = kh_put_result [OF kh_init_spec(1) small, of _ 9]
  obtain h' x ret where put: "kh_put ?mem kh_init 9 = Some (h', x, ret)" and rest: "ret = - 1 \<longrightarrow> kh_map h' = kh_map kh_init"
    using result [of ?mem] by (metis (no_types, lifting))
  have "map_option (\<lambda>(h, x, ret). ret) (kh_put ?mem kh_init 9) = Some (- 1)" by code_simp
  with put rest have fails: "\<exists>h' x. kh_put ?mem kh_init 9 = Some (h', x, - 1) \<and> kh_map h' = Map.empty" by auto
  let ?enough = "enough (\<lambda>_. 7) (\<lambda>_. 0) :: nat kh_memory"
  have "mem_flags ?enough \<and> mem_keys ?enough \<noteq> None \<and> mem_vals ?enough \<noteq> None" by (simp add: enough_def)
  with result [of ?enough] obtain g y r where put: "kh_put ?enough kh_init 9 = Some (g, y, r)" and r: "r \<noteq> - 1"
    and rest: "if r = - 1 then kh_map g = kh_map kh_init
      else y < kh_n_buckets g \<and> kh_exist g y \<and> kh_key g y = 9 \<and> kh_map g |` (- {9}) = kh_map kh_init |` (- {9})
        \<and> (r = 0 \<longleftrightarrow> 9 \<in> dom (kh_map (kh_init :: nat khash))) \<and> (r = 0 \<longrightarrow> kh_map g = kh_map kh_init)"
    by blast
  then have "kh_exist g y \<and> kh_key g y = 9 \<and> r \<noteq> 0" by simp
  with put r fails show ?thesis by (intro exI [of _ g] exI [of _ y] exI [of _ r]) (intro conjI; blast)
qed

end
