(* ===== verification/Hash_Memory.thy ===== *)
theory Hash_Memory
  imports Paxos_Storage Khash_Map
begin

text \<open>
  \<open>src/paxos/hash_mapped_memory.c\<close> as it is written, over the hash tables of \<open>khash.h\<close>: every
  operation goes through \<open>kh_get\<close>, \<open>kh_put\<close>, \<open>kh_del\<close> and \<open>kh_foreach\<close>, its memory may run out, and
  its loops are partial functions.  The theory shows that with enough memory these operations
  return and do what the maps of theory \<open>Paxos_Storage\<close>, which the acceptors are built on, do.
  \<open>None\<close> is a loop that does not end or undefined behaviour.
\<close>

section \<open>The tables\<close>

record khash_memory =
  km_last_prepares :: "paxos_prepare khash"
  km_last_accepts :: "paxos_accept khash"
  km_chosen :: "bool khash"
  km_max_inited_instance :: iid_t
  km_min_chosen_instance :: iid_t
  km_trim_instance_id :: iid_t
  km_aid :: u32

text \<open>What the allocator answers while an operation grows a table, for each kind of table.\<close>

record memory_supply =
  sup_prepares :: "paxos_prepare kh_memory"
  sup_accepts :: "paxos_accept kh_memory"
  sup_chosen :: "bool kh_memory"
  sup_epochs :: "u32 kh_memory"

definition khash_memory_get_last_promise :: "khash_memory \<Rightarrow> iid_t \<Rightarrow> (int \<times> paxos_prepare) option" where
  "khash_memory_get_last_promise m i =
     map_option (\<lambda>key.
       if key \<noteq> kh_n_buckets (km_last_prepares m) \<and> kh_exist (km_last_prepares m) key
       then (1, kh_value (km_last_prepares m) key)
       else (0, \<lparr>prep_iid = i, prep_ballot = Ballot 0 0\<rparr>)) (kh_get (km_last_prepares m) i)"

text \<open>The promise just stored is read again, for assertions that are commented out.\<close>

definition khash_memory_store_last_promise ::
    "memory_supply \<Rightarrow> khash_memory \<Rightarrow> paxos_prepare \<Rightarrow> (khash_memory \<times> int) option" where
  "khash_memory_store_last_promise mem m p =
     Option.bind (kh_put (sup_prepares mem) (km_last_prepares m) (prep_iid p)) (\<lambda>(h, iter, returned_value).
       if returned_value = - 1 then Some (m\<lparr>km_last_prepares := h\<rparr>, - 1)
       else let m = m\<lparr>km_last_prepares := kh_set_value h iter p,
                      km_max_inited_instance :=
                        (if prep_iid p > km_max_inited_instance m then prep_iid p else km_max_inited_instance m)\<rparr>
            in Option.bind (khash_memory_get_last_promise m (prep_iid p)) (\<lambda>test_prepare. Some (m, 1)))"

fun khash_memory_store_last_prepares ::
    "memory_supply \<Rightarrow> khash_memory \<Rightarrow> paxos_prepare list \<Rightarrow> (khash_memory \<times> int) option" where
  "khash_memory_store_last_prepares mem m [] = Some (m, 0)"
| "khash_memory_store_last_prepares mem m (p # ps) =
     Option.bind (khash_memory_store_last_promise mem m p)
       (\<lambda>(m, _). khash_memory_store_last_prepares mem m ps)"

definition khash_memory_store_last_accepted ::
    "memory_supply \<Rightarrow> khash_memory \<Rightarrow> paxos_accept \<Rightarrow> (khash_memory \<times> int) option" where
  "khash_memory_store_last_accepted mem m a =
     map_option (\<lambda>(h, iter, returned_value).
       if returned_value = - 1 then (m\<lparr>km_last_accepts := h\<rparr>, - 1)
       else (m\<lparr>km_last_accepts := kh_set_value h iter a,
               km_max_inited_instance :=
                 (if acc_iid a > km_max_inited_instance m then acc_iid a else km_max_inited_instance m)\<rparr>, 0))
       (kh_put (sup_accepts mem) (km_last_accepts m) (acc_iid a))"

fun khash_memory_store_last_accepteds ::
    "memory_supply \<Rightarrow> khash_memory \<Rightarrow> paxos_accept list \<Rightarrow> (khash_memory \<times> int) option" where
  "khash_memory_store_last_accepteds mem m [] = Some (m, 0)"
| "khash_memory_store_last_accepteds mem m (a # as) =
     Option.bind (khash_memory_store_last_accepted mem m a)
       (\<lambda>(m, _). khash_memory_store_last_accepteds mem m as)"

definition khash_memory_get_last_prepares :: "khash_memory \<Rightarrow> iid_t list \<Rightarrow> paxos_prepare list option" where
  "khash_memory_get_last_prepares m instances =
     those (map (\<lambda>i. map_option snd (khash_memory_get_last_promise m i)) instances)"

text \<open>Unlike the promise, the acceptance is read without asking whether the bucket is live.\<close>

definition khash_memory_get_last_accepted :: "khash_memory \<Rightarrow> iid_t \<Rightarrow> (int \<times> paxos_accept) option" where
  "khash_memory_get_last_accepted m i =
     map_option (\<lambda>key.
       if key = kh_n_buckets (km_last_accepts m)
       then (0, \<lparr>acc_iid = i, acc_ballot = Ballot 0 0, acc_value = INVALID_VALUE\<rparr>)
       else (1, kh_value (km_last_accepts m) key)) (kh_get (km_last_accepts m) i)"

definition khash_memory_get_last_accepteds :: "khash_memory \<Rightarrow> iid_t list \<Rightarrow> paxos_accept list option" where
  "khash_memory_get_last_accepteds m instances =
     those (map (\<lambda>i. map_option snd (khash_memory_get_last_accepted m i)) instances)"

definition khash_memory_store_instance_info ::
    "memory_supply \<Rightarrow> khash_memory \<Rightarrow> paxos_accepted \<Rightarrow> khash_memory option" where
  "khash_memory_store_instance_info mem m info =
     Option.bind (khash_memory_store_last_promise mem m (paxos_accepted_to_prepare info)) (\<lambda>(m, _).
       map_option fst (khash_memory_store_last_accepted mem m (paxos_accepted_to_accept info)))"

definition khash_memory_get_instance_info :: "khash_memory \<Rightarrow> iid_t \<Rightarrow> (bool \<times> paxos_accepted) option" where
  "khash_memory_get_instance_info m i =
     Option.bind (khash_memory_get_last_promise m i) (\<lambda>(_, promise).
       map_option (\<lambda>(_, accept).
         let info = paxos_accepted_from_paxos_prepare_and_accept promise accept (km_aid m)
         in (ballot_greater_than (accd_promise_ballot info) INVALID_BALLOT, info))
         (khash_memory_get_last_accepted m i))"

definition khash_memory_store_trim_instance :: "khash_memory \<Rightarrow> iid_t \<Rightarrow> khash_memory" where
  "khash_memory_store_trim_instance m trim = m\<lparr>km_trim_instance_id := trim\<rparr>"

definition khash_memory_get_trim_instance :: "khash_memory \<Rightarrow> iid_t" where
  "khash_memory_get_trim_instance m = km_trim_instance_id m"

section \<open>Trimming\<close>

definition khash_memory_close_promise_instance_if_less_than ::
    "khash_memory \<Rightarrow> iid_t \<Rightarrow> iid_t \<Rightarrow> (khash_memory \<times> int) option" where
  "khash_memory_close_promise_instance_if_less_than m i cmp =
     (if i < cmp
      then map_option (\<lambda>key.
        if key \<noteq> kh_n_buckets (km_last_prepares m) \<and> kh_exist (km_last_prepares m) key
        then (m\<lparr>km_last_prepares := kh_del (km_last_prepares m) key\<rparr>, 1) else (m, 0)) (kh_get (km_last_prepares m) i)
      else Some (m, 0))"

definition khash_memory_close_accept_instance_if_less_than ::
    "khash_memory \<Rightarrow> iid_t \<Rightarrow> iid_t \<Rightarrow> (khash_memory \<times> int) option" where
  "khash_memory_close_accept_instance_if_less_than m i cmp =
     (if i < cmp
      then map_option (\<lambda>key.
        if key \<noteq> kh_n_buckets (km_last_accepts m) \<and> kh_exist (km_last_accepts m) key
        then (m\<lparr>km_last_accepts := kh_del (km_last_accepts m) key\<rparr>, 1) else (m, 0)) (kh_get (km_last_accepts m) i)
      else Some (m, 0))"

definition khash_memory_close_chosen_instance_if_less_than ::
    "khash_memory \<Rightarrow> iid_t \<Rightarrow> iid_t \<Rightarrow> (khash_memory \<times> int) option" where
  "khash_memory_close_chosen_instance_if_less_than m i cmp =
     (if i < cmp
      then map_option (\<lambda>key.
        if key \<noteq> kh_n_buckets (km_chosen m) \<and> kh_exist (km_chosen m) key
        then (m\<lparr>km_chosen := kh_del (km_chosen m) key\<rparr>, 1) else (m, 0)) (kh_get (km_chosen m) i)
      else Some (m, 0))"

definition khash_memory_trim_storage :: "khash_memory \<Rightarrow> iid_t \<Rightarrow> (khash_memory \<times> int) option" where
  "khash_memory_trim_storage m trim =
     Option.bind (kh_foreach km_last_prepares
       (\<lambda>key _ m. map_option fst (khash_memory_close_promise_instance_if_less_than m key trim)) m) (\<lambda>m.
     Option.bind (kh_foreach km_last_accepts
       (\<lambda>key _ m. map_option fst (khash_memory_close_accept_instance_if_less_than m key trim)) m) (\<lambda>m.
     Option.bind (kh_foreach km_chosen
       (\<lambda>key _ m. map_option fst (khash_memory_close_chosen_instance_if_less_than m key trim)) m) (\<lambda>m.
     Some (m, 1))))"

section \<open>Creating the tables\<close>

definition init_hash_tables :: "khash_memory \<Rightarrow> khash_memory" where
  "init_hash_tables m = m\<lparr>km_last_prepares := kh_init, km_last_accepts := kh_init, km_chosen := kh_init\<rparr>"

text \<open>\<open>calloc\<close> of a \<open>struct hash_mapped_memory\<close>; \<open>init_hash_tables\<close> overwrites its null table pointers before any use.\<close>

definition khash_memory_calloc :: "khash_memory" where
  "khash_memory_calloc =
     \<lparr>km_last_prepares = kh_init, km_last_accepts = kh_init, km_chosen = kh_init,
      km_max_inited_instance = 0, km_min_chosen_instance = 0, km_trim_instance_id = 0, km_aid = 0\<rparr>"

definition new_khash_memory :: "u32 \<Rightarrow> khash_memory" where
  "new_khash_memory aid =
     (init_hash_tables khash_memory_calloc)
       \<lparr>km_aid := aid, km_trim_instance_id := INVALID_INSTANCE, km_min_chosen_instance := INVALID_INSTANCE\<rparr>"

fun store_instances_info :: "memory_supply \<Rightarrow> khash_memory \<Rightarrow> paxos_accepted list \<Rightarrow> khash_memory option" where
  "store_instances_info mem m [] = Some m"
| "store_instances_info mem m (info # infos) =
     Option.bind (khash_memory_store_instance_info mem m info) (\<lambda>m. store_instances_info mem m infos)"

definition new_khash_memory_from_instances_info ::
    "memory_supply \<Rightarrow> paxos_accepted list \<Rightarrow> iid_t \<Rightarrow> u32 \<Rightarrow> khash_memory option" where
  "new_khash_memory_from_instances_info mem infos trim_instance aid =
     store_instances_info mem
       ((init_hash_tables khash_memory_calloc)\<lparr>km_trim_instance_id := trim_instance, km_aid := aid\<rparr>) infos"

definition khash_memory_get_last_inited_instance :: "khash_memory \<Rightarrow> iid_t" where
  "khash_memory_get_last_inited_instance m = km_max_inited_instance m"

definition khash_memory_get_min_unchosen_instace :: "khash_memory \<Rightarrow> iid_t" where
  "khash_memory_get_min_unchosen_instace m = km_min_chosen_instance m + 1"

section \<open>Chosen instances\<close>

text \<open>The second component is what is written to \<open>*chosen\<close>: nothing when the bucket found is not live.\<close>

definition khash_memory_is_instance_chosen :: "khash_memory \<Rightarrow> iid_t \<Rightarrow> (int \<times> bool option) option" where
  "khash_memory_is_instance_chosen m i =
     map_option (\<lambda>key.
       if key = kh_n_buckets (km_chosen m) then (0, Some False)
       else if kh_exist (km_chosen m) key
       then (1, Some (if kh_value (km_chosen m) key = True then True else False))
       else (0, None)) (kh_get (km_chosen m) i)"

text \<open>The loop reads \<open>instance_chosen\<close> after every call; unwritten, its value is undefined.\<close>

partial_function (option) khash_memory_advance_chosen :: "iid_t \<Rightarrow> iid_t \<Rightarrow> khash_memory \<Rightarrow> khash_memory option" where
  "khash_memory_advance_chosen inst i m =
     (if i \<le> inst
      then Option.bind (Option.bind (khash_memory_is_instance_chosen m i) snd) (\<lambda>instance_chosen.
        if instance_chosen then khash_memory_advance_chosen inst (i + 1) (m\<lparr>km_min_chosen_instance := i\<rparr>)
        else Some m)
      else Some m)"

definition khash_memory_instance_chosen ::
    "memory_supply \<Rightarrow> khash_memory \<Rightarrow> iid_t \<Rightarrow> (khash_memory \<times> int) option" where
  "khash_memory_instance_chosen mem m i =
     Option.bind (kh_put (sup_chosen mem) (km_chosen m) i) (\<lambda>(h, k, rv).
       if rv = - 1 then Some (m\<lparr>km_chosen := h\<rparr>, - 1)
       else map_option (\<lambda>m. (m, 0))
         (khash_memory_advance_chosen i (km_min_chosen_instance m + 1) (m\<lparr>km_chosen := kh_set_value h k True\<rparr>)))"

section \<open>The epochs of the accepts\<close>

record epoch_khash_storage =
  eks_memory :: khash_memory
  eks_accepts_epochs :: "u32 khash"

definition epoch_khash_memory_get_accept_epoch :: "u32 khash \<Rightarrow> iid_t \<Rightarrow> (int \<times> u32) option" where
  "epoch_khash_memory_get_accept_epoch h i =
     map_option (\<lambda>key. if key = kh_n_buckets h then (0, 0) else (1, kh_value h key)) (kh_get h i)"

text \<open>
  The macro \<open>store_to_hash_map\<close> does not return when \<open>kh_put\<close> fails: it goes on to write the freed
  copy at the end of the table, which is undefined, and to report success.
\<close>

definition store_to_hash_map :: "'v kh_memory \<Rightarrow> 'v khash \<Rightarrow> u32 \<Rightarrow> 'v \<Rightarrow> ('v khash \<times> int) option" where
  "store_to_hash_map mem h key v =
     Option.bind (kh_put mem h key) (\<lambda>(h, iter, returned_value).
       if returned_value = - 1 then None else Some (kh_set_value h iter v, 0))"

definition epoch_khash_memory_store_accept_epoch ::
    "memory_supply \<Rightarrow> u32 khash \<Rightarrow> iid_t \<Rightarrow> u32 \<Rightarrow> (u32 khash \<times> int) option" where
  "epoch_khash_memory_store_accept_epoch mem h i epoch = store_to_hash_map (sup_epochs mem) h i epoch"

definition khash_memory_close_accepted_epoch_instance_if_less_than ::
    "u32 khash \<Rightarrow> iid_t \<Rightarrow> iid_t \<Rightarrow> (u32 khash \<times> int) option" where
  "khash_memory_close_accepted_epoch_instance_if_less_than h i cmp =
     (if i < cmp
      then map_option (\<lambda>key.
        if key \<noteq> kh_n_buckets h \<and> kh_exist h key then (kh_del h key, 1) else (h, 0)) (kh_get h i)
      else Some (h, 0))"

definition epoch_khash_memory_trim_accepted_epochs :: "u32 khash \<Rightarrow> iid_t \<Rightarrow> (u32 khash \<times> int) option" where
  "epoch_khash_memory_trim_accepted_epochs h trim =
     map_option (\<lambda>h. (h, 1))
       (kh_foreach (\<lambda>h. h)
         (\<lambda>key _ h. map_option fst (khash_memory_close_accepted_epoch_instance_if_less_than h key trim)) h)"

definition epoch_khash_memory_init :: "u32 \<Rightarrow> epoch_khash_storage" where
  "epoch_khash_memory_init aid = \<lparr>eks_memory = new_khash_memory aid, eks_accepts_epochs = kh_init\<rparr>"

section \<open>One table of several\<close>

lemma kh_foreach_from_lift:
  fixes tbl :: "'s \<Rightarrow> 'v khash"
  assumes get: "\<And>h s. tbl (upd h s) = h" and put: "\<And>s. upd (tbl s) s = s" "\<And>h h' s. upd h' (upd h s) = upd h' s"
    and code: "\<And>k v s. code' k v s = map_option (\<lambda>h. upd h s) (code k v (tbl s))"
    and "kh_foreach_from (\<lambda>h. h) code i (tbl s) = Some h'"
  shows "kh_foreach_from tbl code' i s = Some (upd h' s)"
proof -
  let ?P = "\<lambda>t c i h h'. t = (\<lambda>h :: 'v khash. h) \<and> c = code \<longrightarrow> (\<forall>s. tbl s = h \<longrightarrow> kh_foreach_from tbl code' i s = Some (upd h' s))"
  have "?P (\<lambda>h :: 'v khash. h) code i (tbl s) h'"
  proof (rule kh_foreach_from.raw_induct [where P = ?P, OF _ assms(5)], intro impI allI)
    fix rec t c i h h' s
    assume IH: "\<And>t c i h h'. rec t c i h = Some h' \<Longrightarrow> ?P t c i h h'"
      and step: "(if i \<noteq> kh_n_buckets (t h)
        then Option.bind (if kh_exist (t h) i then c (kh_key (t h) i) (kh_value (t h) i) h else Some h) (rec t c (i + 1)) else Some h) = Some h'"
      and s: "tbl s = h" and eq: "t = (\<lambda>h. h) \<and> c = code"
    show "kh_foreach_from tbl code' i s = Some (upd h' s)"
    proof (cases "i \<noteq> kh_n_buckets h")
      case True
      with step eq obtain g where g: "(if kh_exist h i then code (kh_key h i) (kh_value h i) h else Some h) = Some g"
        "rec (\<lambda>h. h) code (i + 1) g = Some h'"
        by (auto simp: bind_eq_Some_conv split: if_splits)
      have "(if kh_exist h i then code' (kh_key h i) (kh_value h i) s else Some s) = Some (upd g s)"
        using g(1) put(1) [of s] s by (auto simp: code split: if_splits)
      then have "kh_foreach_from tbl code' i s = kh_foreach_from tbl code' (i + 1) (upd g s)"
        using True s by (subst kh_foreach_from.simps) (simp only: if_True bind.simps not_False_eq_True)
      then show ?thesis using IH [OF g(2)] by (simp add: get put(2))
    next
      case False
      with step s eq show ?thesis using put(1) by (subst kh_foreach_from.simps) auto
    qed
  qed
  then show ?thesis by simp
qed

lemma kh_foreach_trim_lift:
  assumes get: "\<And>h s. tbl (upd h s) = h" and put: "\<And>s. upd (tbl s) s = s" "\<And>h h' s. upd h' (upd h s) = upd h' s"
    and code: "\<And>k v s. code k v s = map_option (\<lambda>h. upd h s) (kh_close_if_less_than cmp k (tbl s))"
    and roomy: "kh_roomy (tbl s)"
  obtains h' where "kh_foreach tbl code s = Some (upd h' s)" "kh_roomy h'" "kh_map h' = drop_below cmp (kh_map (tbl s))"
proof -
  have "kh_inv (tbl s)" using roomy by (simp add: kh_roomy_def)
  then obtain h' where h': "kh_foreach (\<lambda>h. h) (\<lambda>k v. kh_close_if_less_than cmp k) (tbl s) = Some h'" "kh_inv h'"
    "kh_map h' = drop_below cmp (kh_map (tbl s))" "kh_n_buckets h' = kh_n_buckets (tbl s)"
    by (rule kh_foreach_trim)
  have "kh_foreach tbl code s = Some (upd h' s)"
    using h'(1) kh_foreach_from_lift [where tbl = tbl and upd = upd and code' = code, OF get put code]
    by (simp add: kh_foreach_def)
  then show thesis using that [of h'] h' roomy by (simp add: kh_roomy_def)
qed

lemma kh_put_roomy:
  assumes "kh_roomy h" "card (dom (kh_map h)) < 2 ^ 28" "generous mem"
  obtains h' x ret where "kh_put mem h key = Some (h', x, ret)" "ret \<noteq> - 1" "kh_roomy (kh_set_value h' x v)"
    "kh_map (kh_set_value h' x v) = (kh_map h)(key \<mapsto> v)"
proof -
  have h: "kh_inv h" "unat (kh_n_buckets h) \<le> 2 ^ 30" using assms(1) by (simp_all add: kh_roomy_def)
  then have lt: "kh_n_buckets h < 2 ^ 31" by (simp add: word_less_nat_alt)
  have bound: "max (unat (kh_n_buckets h)) (max 4 (4 * card (dom (kh_map h)))) \<le> 2 ^ 30" using h(2) assms(2) by simp
  obtain g ret where s: "kh_store mem h key v = Some (g, ret)" "kh_inv g" "ret \<noteq> - 1" "kh_map g = (kh_map h)(key \<mapsto> v)"
    "unat (kh_n_buckets g) \<le> max (unat (kh_n_buckets h)) (max 4 (4 * card (dom (kh_map h))))"
    by (rule kh_store_spec [OF h(1) lt, of mem key v]) (use assms(3) in auto)
  from s(1,3) obtain h' x where put: "kh_put mem h key = Some (h', x, ret)" "g = kh_set_value h' x v"
    by (auto simp: kh_store_def)
  have "kh_roomy g" using order.trans [OF s(5) bound] s(2) by (simp add: kh_roomy_def)
  then show thesis using that [OF put(1) s(3)] s(4) put(2) by simp
qed

lemma kh_get_cases:
  assumes "kh_roomy h"
  obtains (absent) "kh_get h key = Some (kh_n_buckets h)" "kh_map h key = None"
    | (present) x v where "kh_get h key = Some x" "x \<noteq> kh_n_buckets h" "kh_exist h x" "kh_value h x = v" "kh_map h key = Some v"
proof (cases "kh_map h key")
  case None
  then show thesis using kh_get_spec [of h key] assms absent by (simp add: kh_roomy_def)
next
  case (Some v)
  then obtain x where "kh_get h key = Some x" "x \<in> kh_live h" "kh_value h x = v"
    using kh_get_spec [of h key] assms by (auto simp: kh_roomy_def)
  then show thesis using present Some kh_live_exists by blast
qed

section \<open>The maps that the tables hold\<close>

definition memory_of :: "khash_memory \<Rightarrow> hash_mapped_memory" where
  "memory_of m =
     \<lparr>hm_last_prepares = kh_map (km_last_prepares m), hm_last_accepts = kh_map (km_last_accepts m),
      hm_chosen = kh_map (km_chosen m), hm_max_inited_instance = km_max_inited_instance m,
      hm_min_chosen_instance = km_min_chosen_instance m, hm_trim_instance_id = km_trim_instance_id m, hm_aid = km_aid m\<rparr>"

definition km_roomy :: "khash_memory \<Rightarrow> bool" where
  "km_roomy m \<longleftrightarrow> kh_roomy (km_last_prepares m) \<and> kh_roomy (km_last_accepts m) \<and> kh_roomy (km_chosen m)"

text \<open>The number of entries of the fullest table.\<close>

definition memory_load :: "hash_mapped_memory \<Rightarrow> nat" where
  "memory_load m = Max {card (dom (hm_last_prepares m)), card (dom (hm_last_accepts m)), card (dom (hm_chosen m))}"

definition supply_generous :: "memory_supply \<Rightarrow> bool" where
  "supply_generous mem \<longleftrightarrow>
     generous (sup_prepares mem) \<and> generous (sup_accepts mem) \<and> generous (sup_chosen mem) \<and> generous (sup_epochs mem)"

lemma memory_of_fields [simp]:
  "hm_last_prepares (memory_of m) = kh_map (km_last_prepares m)" "hm_last_accepts (memory_of m) = kh_map (km_last_accepts m)"
  "hm_chosen (memory_of m) = kh_map (km_chosen m)" "hm_max_inited_instance (memory_of m) = km_max_inited_instance m"
  "hm_min_chosen_instance (memory_of m) = km_min_chosen_instance m" "hm_trim_instance_id (memory_of m) = km_trim_instance_id m"
  "hm_aid (memory_of m) = km_aid m"
  by (simp_all add: memory_of_def)

lemma memory_of_eqI:
  assumes "kh_map (km_last_prepares m) = hm_last_prepares a" "kh_map (km_last_accepts m) = hm_last_accepts a"
    "kh_map (km_chosen m) = hm_chosen a" "km_max_inited_instance m = hm_max_inited_instance a"
    "km_min_chosen_instance m = hm_min_chosen_instance a" "km_trim_instance_id m = hm_trim_instance_id a" "km_aid m = hm_aid a"
  shows "memory_of m = a"
  using assms by (simp add: memory_of_def)

lemma get_last_promise_refines:
  "km_roomy m \<Longrightarrow> khash_memory_get_last_promise m i =
     Some (case hash_mapped_memory_get_last_promise (memory_of m) i of (found, p) \<Rightarrow> (of_bool found, p))"
  by (cases rule: kh_get_cases [of "km_last_prepares m" i])
    (auto simp: km_roomy_def khash_memory_get_last_promise_def hash_mapped_memory_get_last_promise_def)

lemma get_last_accepted_refines:
  "km_roomy m \<Longrightarrow> khash_memory_get_last_accepted m i =
     Some (case hash_mapped_memory_get_last_accepted (memory_of m) i of (found, a) \<Rightarrow> (of_bool found, a))"
  by (cases rule: kh_get_cases [of "km_last_accepts m" i])
    (auto simp: km_roomy_def khash_memory_get_last_accepted_def hash_mapped_memory_get_last_accepted_def)

lemma get_instance_info_refines:
  "km_roomy m \<Longrightarrow> khash_memory_get_instance_info m i = Some (hash_mapped_memory_get_instance_info (memory_of m) i)"
  by (simp add: khash_memory_get_instance_info_def hash_mapped_memory_get_instance_info_def get_last_promise_refines
      get_last_accepted_refines split_beta Let_def)

lemma is_instance_chosen_refines:
  "km_roomy m \<Longrightarrow> khash_memory_is_instance_chosen m i =
     Some (of_bool (i \<in> dom (hm_chosen (memory_of m))), Some (hash_mapped_memory_is_instance_chosen (memory_of m) i))"
  by (cases rule: kh_get_cases [of "km_chosen m" i])
    (auto simp: km_roomy_def khash_memory_is_instance_chosen_def hash_mapped_memory_is_instance_chosen_def)

lemma those_Some: "(\<And>x. x \<in> set xs \<Longrightarrow> f x = Some (g x)) \<Longrightarrow> those (map f xs) = Some (map g xs)"
  by (induction xs) auto

lemma get_last_all_refine:
  assumes "km_roomy m"
  shows "khash_memory_get_last_prepares m is = Some (map (\<lambda>i. snd (hash_mapped_memory_get_last_promise (memory_of m) i)) is)"
    "khash_memory_get_last_accepteds m is = Some (map (\<lambda>i. snd (hash_mapped_memory_get_last_accepted (memory_of m) i)) is)"
  unfolding khash_memory_get_last_prepares_def khash_memory_get_last_accepteds_def
  by (rule those_Some, simp add: assms get_last_promise_refines get_last_accepted_refines split_beta)+


lemma store_last_promise_refines:
  assumes "km_roomy m" "card (dom (hm_last_prepares (memory_of m))) < 2 ^ 28" "supply_generous mem"
  obtains m' where "khash_memory_store_last_promise mem m p = Some (m', 1)" "km_roomy m'"
    "memory_of m' = hash_mapped_memory_store_last_promise (memory_of m) p"
proof -
  have "kh_roomy (km_last_prepares m)" "card (dom (kh_map (km_last_prepares m))) < 2 ^ 28" "generous (sup_prepares mem)"
    using assms by (simp_all add: km_roomy_def supply_generous_def)
  then obtain h x ret where put: "kh_put (sup_prepares mem) (km_last_prepares m) (prep_iid p) = Some (h, x, ret)" "ret \<noteq> - 1"
    "kh_roomy (kh_set_value h x p)" "kh_map (kh_set_value h x p) = (kh_map (km_last_prepares m))(prep_iid p \<mapsto> p)"
    by (rule kh_put_roomy)
  define m' where "m' = m\<lparr>km_last_prepares := kh_set_value h x p,
    km_max_inited_instance := (if prep_iid p > km_max_inited_instance m then prep_iid p else km_max_inited_instance m)\<rparr>"
  have roomy: "km_roomy m'" using assms(1) put(3) by (simp add: km_roomy_def m'_def)
  then have "khash_memory_store_last_promise mem m p = Some (m', 1)"
    using put(1,2) get_last_promise_refines [OF roomy] by (simp add: khash_memory_store_last_promise_def m'_def)
  moreover have "memory_of m' = hash_mapped_memory_store_last_promise (memory_of m) p"
    by (rule memory_of_eqI) (simp_all add: m'_def put(4) memory_defs)
  ultimately show thesis using roomy that by blast
qed

lemma store_last_accepted_refines:
  assumes "km_roomy m" "card (dom (hm_last_accepts (memory_of m))) < 2 ^ 28" "supply_generous mem"
  obtains m' where "khash_memory_store_last_accepted mem m a = Some (m', 0)" "km_roomy m'"
    "memory_of m' = hash_mapped_memory_store_last_accepted (memory_of m) a"
proof -
  have "kh_roomy (km_last_accepts m)" "card (dom (kh_map (km_last_accepts m))) < 2 ^ 28" "generous (sup_accepts mem)"
    using assms by (simp_all add: km_roomy_def supply_generous_def)
  then obtain h x ret where put: "kh_put (sup_accepts mem) (km_last_accepts m) (acc_iid a) = Some (h, x, ret)" "ret \<noteq> - 1"
    "kh_roomy (kh_set_value h x a)" "kh_map (kh_set_value h x a) = (kh_map (km_last_accepts m))(acc_iid a \<mapsto> a)"
    by (rule kh_put_roomy)
  define m' where "m' = m\<lparr>km_last_accepts := kh_set_value h x a,
    km_max_inited_instance := (if acc_iid a > km_max_inited_instance m then acc_iid a else km_max_inited_instance m)\<rparr>"
  have "khash_memory_store_last_accepted mem m a = Some (m', 0)"
    using put(1,2) by (simp add: khash_memory_store_last_accepted_def m'_def)
  moreover have "memory_of m' = hash_mapped_memory_store_last_accepted (memory_of m) a"
    by (rule memory_of_eqI) (simp_all add: m'_def put(4) memory_defs)
  moreover have "km_roomy m'" using assms(1) put(3) by (simp add: km_roomy_def m'_def)
  ultimately show thesis using that by blast
qed

lemma card_dom_update: "finite (dom f) \<Longrightarrow> card (dom (f(k \<mapsto> v))) \<le> Suc (card (dom f))"
  by (simp add: card_insert_if)

lemma memory_load_less:
  "memory_load m < n \<longleftrightarrow> card (dom (hm_last_prepares m)) < n \<and> card (dom (hm_last_accepts m)) < n \<and> card (dom (hm_chosen m)) < n"
  by (simp add: memory_load_def)

lemma store_instance_info_refines:
  assumes "km_roomy m" "memory_load (memory_of m) < 2 ^ 28" "supply_generous mem"
  obtains m' where "khash_memory_store_instance_info mem m info = Some m'" "km_roomy m'"
    "memory_of m' = hash_mapped_memory_store_instance_info (memory_of m) info"
proof -
  let ?p = "paxos_accepted_to_prepare info" and ?a = "paxos_accepted_to_accept info"
  have load: "card (dom (hm_last_prepares (memory_of m))) < 2 ^ 28" "card (dom (hm_last_accepts (memory_of m))) < 2 ^ 28"
    using assms(2) by (simp_all add: memory_load_less)
  obtain m1 where m1: "khash_memory_store_last_promise mem m ?p = Some (m1, 1)" "km_roomy m1"
    "memory_of m1 = hash_mapped_memory_store_last_promise (memory_of m) ?p"
    using store_last_promise_refines [OF assms(1) load(1) assms(3)] .
  have "hm_last_accepts (memory_of m1) = hm_last_accepts (memory_of m)" unfolding m1(3) by (simp add: memory_defs)
  with load(2) have "card (dom (hm_last_accepts (memory_of m1))) < 2 ^ 28" by simp
  from store_last_accepted_refines [OF m1(2) this assms(3)] obtain m2
    where m2: "khash_memory_store_last_accepted mem m1 ?a = Some (m2, 0)" "km_roomy m2"
    "memory_of m2 = hash_mapped_memory_store_last_accepted (memory_of m1) ?a" .
  show thesis
    by (rule that [of m2]) (use m1 m2 in \<open>simp_all add: khash_memory_store_instance_info_def hash_mapped_memory_store_instance_info_def\<close>)
qed

lemma advance_chosen_refines:
  assumes "km_roomy m" "\<not> (i + of_nat n \<le> inst \<and> kh_map (km_chosen m) (i + of_nat n) = Some True)" "int n < k"
  shows "khash_memory_advance_chosen inst i m =
    Some (m\<lparr>km_min_chosen_instance := advance_min_chosen k (kh_map (km_chosen m)) inst i (km_min_chosen_instance m)\<rparr>)"
  using assms
proof (induction n arbitrary: i m k)
  case 0
  then show ?case
    by (subst khash_memory_advance_chosen.simps, subst advance_min_chosen.simps)
      (auto simp: is_instance_chosen_refines hash_mapped_memory_is_instance_chosen_def split: option.splits)
next
  case (Suc n)
  let ?m = "m\<lparr>km_min_chosen_instance := i\<rparr>"
  have "km_roomy ?m" using Suc.prems(1) by (simp add: km_roomy_def)
  moreover have "\<not> (i + 1 + of_nat n \<le> inst \<and> kh_map (km_chosen ?m) (i + 1 + of_nat n) = Some True)"
    using Suc.prems(2) by (simp add: algebra_simps)
  ultimately have "khash_memory_advance_chosen inst (i + 1) ?m =
    Some (m\<lparr>km_min_chosen_instance := advance_min_chosen (k - 1) (kh_map (km_chosen m)) inst (i + 1) i\<rparr>)"
    using Suc.IH [of ?m "i + 1" "k - 1"] Suc.prems(3) by simp
  with Suc.prems(1,3) show ?case
    by (subst khash_memory_advance_chosen.simps, subst advance_min_chosen.simps)
      (auto simp: is_instance_chosen_refines hash_mapped_memory_is_instance_chosen_def split: option.splits)
qed

lemma card_u32: "card (UNIV :: u32 set) = 2 ^ 32"
  by (simp add: card_word)

lemma instance_chosen_refines:
  assumes "km_roomy m" "memory_load (memory_of m) < 2 ^ 28" "supply_generous mem"
  obtains m' where "khash_memory_instance_chosen mem m i = Some (m', 0)" "km_roomy m'"
    "memory_of m' = hash_mapped_memory_instance_chosen (memory_of m) i"
proof -
  have "kh_roomy (km_chosen m)" and load: "card (dom (kh_map (km_chosen m))) < 2 ^ 28" and "generous (sup_chosen mem)"
    using assms by (simp_all add: km_roomy_def memory_load_def supply_generous_def)
  then obtain h x ret where put: "kh_put (sup_chosen mem) (km_chosen m) i = Some (h, x, ret)" "ret \<noteq> - 1"
    "kh_roomy (kh_set_value h x True)" "kh_map (kh_set_value h x True) = (kh_map (km_chosen m))(i \<mapsto> True)"
    by (rule kh_put_roomy)
  let ?m = "m\<lparr>km_chosen := kh_set_value h x True\<rparr>" and ?c = "(kh_map (km_chosen m))(i \<mapsto> True)" and ?i = "km_min_chosen_instance m + 1"
  have "card (dom ?c) < card (UNIV :: u32 set)" using card_dom_update [of "kh_map (km_chosen m)" i True] load by (simp add: card_u32)
  then have "dom ?c \<noteq> UNIV" by fastforce
  then obtain j where "?c j = None" by blast
  then have "\<not> (?i + of_nat (unat (j - ?i)) \<le> i \<and> kh_map (km_chosen ?m) (?i + of_nat (unat (j - ?i))) = Some True)"
    by (simp add: put(4))
  moreover have "int (unat (j - ?i)) < 4294967296" using unat_u32_lt [of "j - ?i"] by linarith
  moreover have roomy: "km_roomy ?m" using assms(1) put(3) by (simp add: km_roomy_def)
  ultimately have "khash_memory_advance_chosen i ?i ?m =
    Some (?m\<lparr>km_min_chosen_instance := advance_min_chosen 4294967296 ?c i ?i (km_min_chosen_instance m)\<rparr>)"
    using advance_chosen_refines [of ?m ?i "unat (j - ?i)" i 4294967296] put(4) by simp
  then have "khash_memory_instance_chosen mem m i =
    Some (?m\<lparr>km_min_chosen_instance := advance_min_chosen 4294967296 ?c i ?i (km_min_chosen_instance m)\<rparr>, 0)"
    using put(1,2) by (simp add: khash_memory_instance_chosen_def)
  then show thesis
    by (rule that) (use roomy put(4) in \<open>auto simp: km_roomy_def memory_defs Let_def intro!: memory_of_eqI\<close>)
qed

lemma close_eq_remove:
  "map_option fst (khash_memory_close_promise_instance_if_less_than m i cmp) =
     map_option (\<lambda>h. m\<lparr>km_last_prepares := h\<rparr>) (kh_close_if_less_than cmp i (km_last_prepares m))"
  "map_option fst (khash_memory_close_accept_instance_if_less_than m i cmp) =
     map_option (\<lambda>h. m\<lparr>km_last_accepts := h\<rparr>) (kh_close_if_less_than cmp i (km_last_accepts m))"
  "map_option fst (khash_memory_close_chosen_instance_if_less_than m i cmp) =
     map_option (\<lambda>h. m\<lparr>km_chosen := h\<rparr>) (kh_close_if_less_than cmp i (km_chosen m))"
  "map_option fst (khash_memory_close_accepted_epoch_instance_if_less_than h i cmp) = kh_close_if_less_than cmp i h"
  by (auto simp: khash_memory_close_promise_instance_if_less_than_def khash_memory_close_accept_instance_if_less_than_def
      khash_memory_close_chosen_instance_if_less_than_def khash_memory_close_accepted_epoch_instance_if_less_than_def
      kh_close_if_less_than_def kh_remove_def option.map_comp comp_def if_distrib intro!: map_option_cong)

lemma trim_storage_refines:
  assumes "km_roomy m"
  obtains m' where "khash_memory_trim_storage m trim = Some (m', 1)" "km_roomy m'"
    "memory_of m' = hash_mapped_memory_trim_storage (memory_of m) trim"
proof -
  obtain p where p: "kh_foreach km_last_prepares
      (\<lambda>key _ m. map_option fst (khash_memory_close_promise_instance_if_less_than m key trim)) m = Some (m\<lparr>km_last_prepares := p\<rparr>)"
    "kh_roomy p" "kh_map p = drop_below trim (kh_map (km_last_prepares m))"
    by (rule kh_foreach_trim_lift [where tbl = km_last_prepares and upd = "\<lambda>h m. m\<lparr>km_last_prepares := h\<rparr>" and s = m])
      (use assms in \<open>simp_all add: close_eq_remove km_roomy_def\<close>)
  let ?m = "m\<lparr>km_last_prepares := p\<rparr>"
  obtain a where a: "kh_foreach km_last_accepts
      (\<lambda>key _ m. map_option fst (khash_memory_close_accept_instance_if_less_than m key trim)) ?m = Some (?m\<lparr>km_last_accepts := a\<rparr>)"
    "kh_roomy a" "kh_map a = drop_below trim (kh_map (km_last_accepts ?m))"
    by (rule kh_foreach_trim_lift [where tbl = km_last_accepts and upd = "\<lambda>h m. m\<lparr>km_last_accepts := h\<rparr>" and s = ?m])
      (use assms in \<open>simp_all add: close_eq_remove km_roomy_def\<close>)
  let ?n = "?m\<lparr>km_last_accepts := a\<rparr>"
  obtain c where c: "kh_foreach km_chosen
      (\<lambda>key _ m. map_option fst (khash_memory_close_chosen_instance_if_less_than m key trim)) ?n = Some (?n\<lparr>km_chosen := c\<rparr>)"
    "kh_roomy c" "kh_map c = drop_below trim (kh_map (km_chosen ?n))"
    by (rule kh_foreach_trim_lift [where tbl = km_chosen and upd = "\<lambda>h m. m\<lparr>km_chosen := h\<rparr>" and s = ?n])
      (use assms in \<open>simp_all add: close_eq_remove km_roomy_def\<close>)
  have "khash_memory_trim_storage m trim = Some (?n\<lparr>km_chosen := c\<rparr>, 1)"
    unfolding khash_memory_trim_storage_def p(1) bind.simps a(1) c(1) by (rule refl)
  then show thesis
    by (rule that) (use p(2,3) a(2,3) c(2,3) in \<open>auto simp: km_roomy_def memory_defs intro!: memory_of_eqI\<close>)
qed

section \<open>The storage of the epoch acceptors\<close>

text \<open>
  \<open>src/paxos/epoch_paxos_storage.c\<close> over the tables, with the values its functions return: an accept
  and its epoch are in two tables, and trimming reports failure although both tables are trimmed,
  since their functions return \<open>1\<close> and it waits for \<open>0\<close>.
\<close>

definition khash_lazy_store_of_epoch_ballot_accept ::
    "memory_supply \<Rightarrow> epoch_khash_storage \<Rightarrow> epoch_ballot_accept \<Rightarrow> (epoch_khash_storage \<times> bool) option" where
  "khash_lazy_store_of_epoch_ballot_accept mem s a =
     Option.bind (epoch_khash_memory_store_accept_epoch mem (eks_accepts_epochs s) (eba_instance a)
         (eb_epoch (eba_epoch_ballot_requested a))) (\<lambda>(epochs, success_epoch).
       map_option (\<lambda>(memory, success_accept).
         (s\<lparr>eks_memory := memory, eks_accepts_epochs := epochs\<rparr>, success_accept = 0 \<and> success_epoch = 0))
         (khash_memory_store_last_accepted mem (eks_memory s) (paxos_accept_from_epoch_ballot_accept a)))"

definition khash_lazy_get_of_epoch_ballot_accept ::
    "epoch_khash_storage \<Rightarrow> iid_t \<Rightarrow> (int \<times> epoch_ballot_accept) option" where
  "khash_lazy_get_of_epoch_ballot_accept s i =
     Option.bind (khash_memory_get_last_accepted (eks_memory s) i) (\<lambda>(found_accept, accept).
       map_option (\<lambda>(found_epoch, epoch). (found_accept, epoch_ballot_accept_from_paxos_accept accept epoch))
         (epoch_khash_memory_get_accept_epoch (eks_accepts_epochs s) i))"

definition epoch_khash_storage_trim_instances_less_than ::
    "epoch_khash_storage \<Rightarrow> iid_t \<Rightarrow> (epoch_khash_storage \<times> bool) option" where
  "epoch_khash_storage_trim_instances_less_than s cmp =
     Option.bind (khash_memory_trim_storage (eks_memory s) cmp) (\<lambda>(memory, trimmed_prepares_and_accepts).
       map_option (\<lambda>(epochs, trimmed_accepted_epochs).
         (s\<lparr>eks_memory := memory, eks_accepts_epochs := epochs\<rparr>,
          trimmed_accepted_epochs = 0 \<and> trimmed_prepares_and_accepts = 0))
         (epoch_khash_memory_trim_accepted_epochs (eks_accepts_epochs s) cmp))"

fun khash_storage_store_accepts ::
    "memory_supply \<Rightarrow> epoch_khash_storage \<Rightarrow> epoch_ballot_accept list \<Rightarrow> (epoch_khash_storage \<times> int) option" where
  "khash_storage_store_accepts mem s [] = Some (s, 1)"
| "khash_storage_store_accepts mem s (a # as) =
     Option.bind (khash_lazy_store_of_epoch_ballot_accept mem s a) (\<lambda>(s, _). khash_storage_store_accepts mem s as)"

fun khash_storage_get_accepts :: "epoch_khash_storage \<Rightarrow> iid_t list \<Rightarrow> (int \<times> epoch_ballot_accept list) option" where
  "khash_storage_get_accepts s [] = Some (1, [])"
| "khash_storage_get_accepts s (i # is) =
     Option.bind (khash_lazy_get_of_epoch_ballot_accept s i) (\<lambda>(found, a).
       map_option (\<lambda>(all_found, as). (if found = 0 then 0 else all_found, a # as)) (khash_storage_get_accepts s is))"

text \<open>What an acceptor does to its storage.\<close>

datatype storage_op =
    Store_prepare paxos_prepare
  | Store_accept epoch_ballot_accept
  | Store_trim iid_t
  | Trim_below iid_t
  | Set_chosen iid_t

fun khash_storage_step :: "memory_supply \<Rightarrow> storage_op \<Rightarrow> epoch_khash_storage \<Rightarrow> epoch_khash_storage option" where
  "khash_storage_step mem (Store_prepare p) s =
     map_option (\<lambda>(m, _). s\<lparr>eks_memory := m\<rparr>) (khash_memory_store_last_promise mem (eks_memory s) p)"
| "khash_storage_step mem (Store_accept a) s = map_option fst (khash_lazy_store_of_epoch_ballot_accept mem s a)"
| "khash_storage_step mem (Store_trim t) s = Some (s\<lparr>eks_memory := khash_memory_store_trim_instance (eks_memory s) t\<rparr>)"
| "khash_storage_step mem (Trim_below t) s = map_option fst (epoch_khash_storage_trim_instances_less_than s t)"
| "khash_storage_step mem (Set_chosen i) s =
     map_option (\<lambda>(m, _). s\<lparr>eks_memory := m\<rparr>) (khash_memory_instance_chosen mem (eks_memory s) i)"

fun storage_step :: "storage_op \<Rightarrow> epoch_paxos_storage \<Rightarrow> epoch_paxos_storage" where
  "storage_step (Store_prepare p) s = epoch_paxos_storage_store_last_prepare s p"
| "storage_step (Store_accept a) s = lazy_store_of_epoch_ballot_accept s a"
| "storage_step (Store_trim t) s = epoch_paxos_storage_store_trim_instance s t"
| "storage_step (Trim_below t) s = epoch_paxos_storage_trim_instances_less_than s t"
| "storage_step (Set_chosen i) s = epoch_paxos_storage_set_instance_chosen s i"

definition storage_of :: "epoch_khash_storage \<Rightarrow> epoch_paxos_storage" where
  "storage_of s = \<lparr>eps_paxos_storage = memory_of (eks_memory s), eps_accepts_epochs = kh_map (eks_accepts_epochs s)\<rparr>"

definition eks_roomy :: "epoch_khash_storage \<Rightarrow> bool" where
  "eks_roomy s \<longleftrightarrow> km_roomy (eks_memory s) \<and> kh_roomy (eks_accepts_epochs s)"

definition storage_load :: "epoch_paxos_storage \<Rightarrow> nat" where
  "storage_load s = max (memory_load (eps_paxos_storage s)) (card (dom (eps_accepts_epochs s)))"

lemma storage_of_fields [simp]:
  "eps_paxos_storage (storage_of s) = memory_of (eks_memory s)" "eps_accepts_epochs (storage_of s) = kh_map (eks_accepts_epochs s)"
  by (simp_all add: storage_of_def)

lemma storage_of_update [simp]:
  "storage_of (s\<lparr>eks_memory := m\<rparr>) = (storage_of s)\<lparr>eps_paxos_storage := memory_of m\<rparr>"
  "storage_of (s\<lparr>eks_accepts_epochs := h\<rparr>) = (storage_of s)\<lparr>eps_accepts_epochs := kh_map h\<rparr>"
  by (simp_all add: storage_of_def)

lemma get_accept_epoch_refines:
  "kh_roomy h \<Longrightarrow> epoch_khash_memory_get_accept_epoch h i =
     Some (case epoch_hash_mapped_memory_get_accept_epoch (kh_map h) i of (found, e) \<Rightarrow> (of_bool found, e))"
  by (cases rule: kh_get_cases [of h i])
    (auto simp: epoch_khash_memory_get_accept_epoch_def epoch_hash_mapped_memory_get_accept_epoch_def)

lemma lazy_get_refines:
  "eks_roomy s \<Longrightarrow> khash_lazy_get_of_epoch_ballot_accept s i =
     Some (case lazy_get_of_epoch_ballot_accept (storage_of s) i of (found, a) \<Rightarrow> (of_bool found, a))"
  by (simp add: eks_roomy_def khash_lazy_get_of_epoch_ballot_accept_def lazy_get_of_epoch_ballot_accept_def
      get_last_accepted_refines get_accept_epoch_refines split_beta Let_def)

lemma store_accept_epoch_refines:
  assumes "kh_roomy h" "card (dom (kh_map h)) < 2 ^ 28" "supply_generous mem"
  obtains h' where "epoch_khash_memory_store_accept_epoch mem h i e = Some (h', 0)" "kh_roomy h'"
    "kh_map h' = epoch_hash_mapped_memory_store_accept_epoch (kh_map h) i e"
proof -
  have "generous (sup_epochs mem)" using assms(3) by (simp add: supply_generous_def)
  with assms(1,2) obtain h' x ret where put: "kh_put (sup_epochs mem) h i = Some (h', x, ret)" "ret \<noteq> - 1"
    "kh_roomy (kh_set_value h' x e)" "kh_map (kh_set_value h' x e) = (kh_map h)(i \<mapsto> e)"
    by (rule kh_put_roomy)
  show thesis
    by (rule that [of "kh_set_value h' x e"])
      (use put in \<open>simp_all add: epoch_khash_memory_store_accept_epoch_def store_to_hash_map_def epoch_hash_mapped_memory_store_accept_epoch_def\<close>)
qed

lemma lazy_store_refines:
  assumes "eks_roomy s" "storage_load (storage_of s) < 2 ^ 28" "supply_generous mem"
  obtains s' where "khash_lazy_store_of_epoch_ballot_accept mem s a = Some (s', True)" "eks_roomy s'"
    "storage_of s' = lazy_store_of_epoch_ballot_accept (storage_of s) a"
proof -
  let ?i = "eba_instance a" and ?e = "eb_epoch (eba_epoch_ballot_requested a)"
  have roomy: "km_roomy (eks_memory s)" "kh_roomy (eks_accepts_epochs s)"
    and load: "card (dom (kh_map (eks_accepts_epochs s))) < 2 ^ 28" "card (dom (hm_last_accepts (memory_of (eks_memory s)))) < 2 ^ 28"
    using assms by (simp_all add: eks_roomy_def storage_load_def memory_load_less)
  obtain h where h: "epoch_khash_memory_store_accept_epoch mem (eks_accepts_epochs s) ?i ?e = Some (h, 0)" "kh_roomy h"
    "kh_map h = epoch_hash_mapped_memory_store_accept_epoch (kh_map (eks_accepts_epochs s)) ?i ?e"
    using store_accept_epoch_refines [OF roomy(2) load(1) assms(3)] .
  obtain m where m: "khash_memory_store_last_accepted mem (eks_memory s) (paxos_accept_from_epoch_ballot_accept a) = Some (m, 0)"
    "km_roomy m" "memory_of m = hash_mapped_memory_store_last_accepted (memory_of (eks_memory s)) (paxos_accept_from_epoch_ballot_accept a)"
    using store_last_accepted_refines [OF roomy(1) load(2) assms(3)] .
  show thesis
    by (rule that [of "s\<lparr>eks_memory := m, eks_accepts_epochs := h\<rparr>"])
      (use h m in \<open>simp_all add: khash_lazy_store_of_epoch_ballot_accept_def lazy_store_of_epoch_ballot_accept_def eks_roomy_def\<close>)
qed

lemma trim_instances_refines:
  assumes "eks_roomy s"
  obtains s' where "epoch_khash_storage_trim_instances_less_than s t = Some (s', False)" "eks_roomy s'"
    "storage_of s' = epoch_paxos_storage_trim_instances_less_than (storage_of s) t"
proof -
  have roomy: "km_roomy (eks_memory s)" "kh_roomy (eks_accepts_epochs s)" using assms by (simp_all add: eks_roomy_def)
  obtain m where m: "khash_memory_trim_storage (eks_memory s) t = Some (m, 1)" "km_roomy m"
    "memory_of m = hash_mapped_memory_trim_storage (memory_of (eks_memory s)) t"
    using trim_storage_refines [OF roomy(1)] .
  obtain h where h: "kh_foreach (\<lambda>h. h) (\<lambda>key _ h. map_option fst (khash_memory_close_accepted_epoch_instance_if_less_than h key t)) (eks_accepts_epochs s) = Some h"
    "kh_roomy h" "kh_map h = drop_below t (kh_map (eks_accepts_epochs s))"
    by (rule kh_foreach_trim_lift [where tbl = "\<lambda>h. h" and upd = "\<lambda>h s. h" and s = "eks_accepts_epochs s"])
      (use roomy in \<open>simp_all add: close_eq_remove option.map_ident\<close>)
  show thesis
    by (rule that [of "s\<lparr>eks_memory := m, eks_accepts_epochs := h\<rparr>"])
      (use h m in \<open>simp_all add: epoch_khash_storage_trim_instances_less_than_def epoch_khash_memory_trim_accepted_epochs_def
        epoch_paxos_storage_trim_instances_less_than_def eks_roomy_def\<close>)
qed

lemma storage_step_refines:
  assumes "eks_roomy s" "storage_load (storage_of s) < 2 ^ 28" "supply_generous mem"
  obtains s' where "khash_storage_step mem op s = Some s'" "eks_roomy s'" "storage_of s' = storage_step op (storage_of s)"
proof -
  have m: "km_roomy (eks_memory s)" "memory_load (memory_of (eks_memory s)) < 2 ^ 28" "kh_roomy (eks_accepts_epochs s)"
    using assms by (simp_all add: eks_roomy_def storage_load_def)
  have p: "card (dom (hm_last_prepares (memory_of (eks_memory s)))) < 2 ^ 28" using m(2) by (simp add: memory_load_less)
  show thesis
  proof (cases op)
    case (Store_prepare q)
    obtain m' where "khash_memory_store_last_promise mem (eks_memory s) q = Some (m', 1)" "km_roomy m'"
      "memory_of m' = hash_mapped_memory_store_last_promise (memory_of (eks_memory s)) q"
      using store_last_promise_refines [OF m(1) p assms(3)] .
    then show thesis using m(3) that [of "s\<lparr>eks_memory := m'\<rparr>"]
      by (simp add: Store_prepare eks_roomy_def epoch_paxos_storage_store_last_prepare_def)
  next
    case (Store_accept a)
    then show thesis using lazy_store_refines [OF assms, of a] that by (metis fst_conv khash_storage_step.simps(2) option.map(2) storage_step.simps(2))
  next
    case (Store_trim t)
    have "memory_of (khash_memory_store_trim_instance (eks_memory s) t) = hash_mapped_memory_store_trim_instance (memory_of (eks_memory s)) t"
      by (rule memory_of_eqI) (simp_all add: khash_memory_store_trim_instance_def memory_defs)
    then show thesis using m that
      by (simp add: Store_trim eks_roomy_def km_roomy_def epoch_paxos_storage_store_trim_instance_def khash_memory_store_trim_instance_def)
  next
    case (Trim_below t)
    then show thesis using trim_instances_refines [OF assms(1), of t] that by (metis fst_conv khash_storage_step.simps(4) option.map(2) storage_step.simps(4))
  next
    case (Set_chosen i)
    obtain m' where "khash_memory_instance_chosen mem (eks_memory s) i = Some (m', 0)" "km_roomy m'"
      "memory_of m' = hash_mapped_memory_instance_chosen (memory_of (eks_memory s)) i"
      using instance_chosen_refines [OF m(1,2) assms(3)] .
    then show thesis using m(3) that [of "s\<lparr>eks_memory := m'\<rparr>"]
      by (simp add: Set_chosen eks_roomy_def epoch_paxos_storage_set_instance_chosen_def)
  qed
qed

definition storage_finite :: "epoch_paxos_storage \<Rightarrow> bool" where
  "storage_finite s \<longleftrightarrow> finite (dom (hm_last_prepares (eps_paxos_storage s))) \<and> finite (dom (hm_last_accepts (eps_paxos_storage s)))
     \<and> finite (dom (hm_chosen (eps_paxos_storage s))) \<and> finite (dom (eps_accepts_epochs s))"

lemma card_drop_below: "finite (dom f) \<Longrightarrow> card (dom (drop_below cmp f)) \<le> card (dom f)"
  by (rule card_mono) (auto simp: drop_below_def split: if_splits)

lemma storage_load_le:
  "storage_load s \<le> n \<longleftrightarrow> card (dom (hm_last_prepares (eps_paxos_storage s))) \<le> n \<and> card (dom (hm_last_accepts (eps_paxos_storage s))) \<le> n
     \<and> card (dom (hm_chosen (eps_paxos_storage s))) \<le> n \<and> card (dom (eps_accepts_epochs s)) \<le> n"
  by (auto simp: storage_load_def memory_load_def)

lemma storage_load_step:
  assumes "storage_finite s"
  shows "storage_load (storage_step op s) \<le> Suc (storage_load s)"
proof -
  have le: "card (dom (hm_last_prepares (eps_paxos_storage s))) \<le> storage_load s" "card (dom (hm_last_accepts (eps_paxos_storage s))) \<le> storage_load s"
    "card (dom (hm_chosen (eps_paxos_storage s))) \<le> storage_load s" "card (dom (eps_accepts_epochs s)) \<le> storage_load s"
    using storage_load_le [of s "storage_load s"] by simp_all
  have upd: "card (insert k (dom f)) \<le> Suc (storage_load s)" if "finite (dom f)" "card (dom f) \<le> storage_load s" for k and f :: "u32 \<rightharpoonup> 'v"
    using that by (simp add: card_insert_if)
  have drop: "card (dom (drop_below t f)) \<le> Suc (storage_load s)" if "finite (dom f)" "card (dom f) \<le> storage_load s" for t and f :: "u32 \<rightharpoonup> 'v"
    using card_drop_below [OF that(1), of t] that(2) by simp
  show ?thesis
    unfolding storage_load_le using assms [unfolded storage_finite_def] le
    by (cases op) (auto simp: upd drop le_SucI memory_defs Let_def epoch_paxos_storage_store_last_prepare_def
        lazy_store_of_epoch_ballot_accept_def epoch_hash_mapped_memory_store_accept_epoch_def epoch_paxos_storage_store_trim_instance_def
        epoch_paxos_storage_trim_instances_less_than_def epoch_paxos_storage_set_instance_chosen_def)
qed

section \<open>Refinement with bounded resources\<close>

fun run_steps :: "('op \<Rightarrow> 'c \<Rightarrow> 'c option) \<Rightarrow> 'op list \<Rightarrow> 'c \<Rightarrow> 'c option" where
  "run_steps step [] c = Some c"
| "run_steps step (op # ops) c = Option.bind (step op c) (run_steps step ops)"

text \<open>
  An implementation that follows its specification as long as less than a capacity is in use, of
  which an operation takes at most one unit.
\<close>

locale bounded_refinement =
  fixes inv :: "'c \<Rightarrow> bool" and abs :: "'c \<Rightarrow> 'a" and load :: "'a \<Rightarrow> nat" and capacity :: nat and ok :: "'op \<Rightarrow> bool"
    and cstep :: "'op \<Rightarrow> 'c \<Rightarrow> 'c option" and astep :: "'op \<Rightarrow> 'a \<Rightarrow> 'a"
  assumes step_law: "inv c \<Longrightarrow> load (abs c) < capacity \<Longrightarrow> ok op \<Longrightarrow> \<exists>c'. cstep op c = Some c' \<and> inv c' \<and> abs c' = astep op (abs c)"
    and load_law: "inv c \<Longrightarrow> load (astep op (abs c)) \<le> Suc (load (abs c))"
begin

lemma run_refines:
  assumes "inv c" "load (abs c) + length ops \<le> capacity" "list_all ok ops"
  shows "\<exists>c'. run_steps cstep ops c = Some c' \<and> inv c' \<and> abs c' = fold astep ops (abs c)"
  using assms
proof (induction ops arbitrary: c)
  case (Cons op ops)
  then obtain c1 where c1: "cstep op c = Some c1" "inv c1" "abs c1 = astep op (abs c)"
    using step_law [of c op] by auto
  then have "load (abs c1) + length ops \<le> capacity" using load_law [OF Cons.prems(1), of op] Cons.prems(2) by simp
  with Cons.IH [OF c1(2)] Cons.prems(3) c1 show ?case by simp
qed simp

end

interpretation ks: bounded_refinement eks_roomy storage_of storage_load "2 ^ 28" "\<lambda>(mem, op). supply_generous mem"
    "\<lambda>(mem, op). khash_storage_step mem op" "\<lambda>(mem, op). storage_step op"
proof unfold_locales
  fix s and op :: "memory_supply \<times> storage_op"
  obtain mem o' where op: "op = (mem, o')" by fastforce
  assume s: "eks_roomy s"
  show "storage_load ((case op of (mem, op) \<Rightarrow> storage_step op) (storage_of s)) \<le> Suc (storage_load (storage_of s))"
    by (simp add: op storage_load_step storage_finite_def)
  assume "storage_load (storage_of s) < 2 ^ 28" "case op of (mem, op) \<Rightarrow> supply_generous mem"
  with storage_step_refines [OF s, of mem o'] show "\<exists>s'. (case op of (mem, op) \<Rightarrow> khash_storage_step mem op) s = Some s' \<and> eks_roomy s'
      \<and> storage_of s' = (case op of (mem, op) \<Rightarrow> storage_step op) (storage_of s)"
    by (simp add: op) blast
qed

lemma epoch_khash_memory_init_spec [simp]:
  "eks_roomy (epoch_khash_memory_init aid)" "storage_of (epoch_khash_memory_init aid) = epoch_hash_mapped_memory_init aid"
  "storage_load (epoch_hash_mapped_memory_init aid) = 0"
  by (simp_all add: eks_roomy_def km_roomy_def epoch_khash_memory_init_def new_khash_memory_def init_hash_tables_def khash_memory_calloc_def
      storage_of_def memory_of_def epoch_hash_mapped_memory_init_def new_hash_mapped_memory_def storage_load_def memory_load_def)

text \<open>
  C20: The storage of an acceptor, built on hash tables, is what the acceptors are modelled on: up to
  \<open>2\<^sup>2\<^sup>8\<close> operations, whatever fresh memory holds (and as long as it does not run out), every operation returns, every table is the
  corresponding map, and reading a promise, an accept with its epoch, the record of an instance or
  whether it is chosen gives what the maps give.
\<close>

theorem hash_memory_refines_maps:
  assumes "length ops \<le> 2 ^ 28" "list_all (\<lambda>(mem, op). supply_generous mem) ops"
  shows "\<exists>s. run_steps (\<lambda>(mem, op). khash_storage_step mem op) ops (epoch_khash_memory_init aid) = Some s
    \<and> (let a = fold (\<lambda>(mem, op). storage_step op) ops (epoch_hash_mapped_memory_init aid) in
       storage_of s = a \<and> (\<forall>i.
         khash_memory_get_last_promise (eks_memory s) i =
           Some (case epoch_paxos_storage_get_last_prepare a i of (found, p) \<Rightarrow> (of_bool found, p))
       \<and> khash_lazy_get_of_epoch_ballot_accept s i =
           Some (case lazy_get_of_epoch_ballot_accept a i of (found, accept) \<Rightarrow> (of_bool found, accept))
       \<and> khash_memory_get_instance_info (eks_memory s) i = Some (hash_mapped_memory_get_instance_info (eps_paxos_storage a) i)
       \<and> map_option snd (khash_memory_is_instance_chosen (eks_memory s) i) =
           Some (Some (hash_mapped_memory_is_instance_chosen (eps_paxos_storage a) i))))"
proof -
  obtain s where s: "run_steps (\<lambda>(mem, op). khash_storage_step mem op) ops (epoch_khash_memory_init aid) = Some s" "eks_roomy s"
    "storage_of s = fold (\<lambda>(mem, op). storage_step op) ops (epoch_hash_mapped_memory_init aid)"
    using ks.run_refines [OF epoch_khash_memory_init_spec(1), of aid ops] assms by auto
  have "km_roomy (eks_memory s)" using s(2) by (simp add: eks_roomy_def)
  then show ?thesis unfolding Let_def s(3) [symmetric]
    using s(1) lazy_get_refines [OF s(2)]
    by (simp add: get_last_promise_refines get_instance_info_refines is_instance_chosen_refines epoch_paxos_storage_get_last_prepare_def)
qed

definition ample :: memory_supply where
  "ample = \<lparr>sup_prepares = enough (\<lambda>_. 9) (\<lambda>_. \<lparr>prep_iid = 3, prep_ballot = Ballot 8 8\<rparr>),
     sup_accepts = enough (\<lambda>_. 9) (\<lambda>_. \<lparr>acc_iid = 3, acc_ballot = Ballot 8 8, acc_value = [1]\<rparr>),
     sup_chosen = enough (\<lambda>_. 9) (\<lambda>_. True), sup_epochs = enough (\<lambda>_. 9) (\<lambda>_. 6)\<rparr>"

lemma ample_generous [simp]: "supply_generous ample"
  by (simp add: supply_generous_def ample_def)

theorem hash_memory_refines_maps_witness:
  "\<exists>s. run_steps (\<lambda>(mem, op). khash_storage_step mem op)
         [(ample, Store_prepare \<lparr>prep_iid = 4, prep_ballot = Ballot 2 1\<rparr>), (ample, Set_chosen 1),
          (ample, Store_prepare \<lparr>prep_iid = 8, prep_ballot = Ballot 5 1\<rparr>), (ample, Trim_below 6)]
         (epoch_khash_memory_init 0) = Some s
     \<and> khash_memory_get_last_promise (eks_memory s) 4 = Some (0, \<lparr>prep_iid = 4, prep_ballot = Ballot 0 0\<rparr>)
     \<and> khash_memory_get_last_promise (eks_memory s) 8 = Some (1, \<lparr>prep_iid = 8, prep_ballot = Ballot 5 1\<rparr>)"
proof -
  let ?ops = "[(ample, Store_prepare \<lparr>prep_iid = 4, prep_ballot = Ballot 2 1\<rparr>), (ample, Set_chosen 1),
    (ample, Store_prepare \<lparr>prep_iid = 8, prep_ballot = Ballot 5 1\<rparr>), (ample, Trim_below 6)]"
  let ?a = "fold (\<lambda>(mem, op). storage_step op) ?ops (epoch_hash_mapped_memory_init 0)"
  obtain s where run: "run_steps (\<lambda>(mem, op). khash_storage_step mem op) ?ops (epoch_khash_memory_init 0) = Some s"
    and get: "\<And>i. khash_memory_get_last_promise (eks_memory s) i =
      Some (case epoch_paxos_storage_get_last_prepare ?a i of (found, p) \<Rightarrow> (of_bool found, p))"
    using hash_memory_refines_maps [of ?ops 0] unfolding Let_def by auto
  have "hm_last_prepares (eps_paxos_storage ?a) =
    drop_below 6 [4 \<mapsto> \<lparr>prep_iid = 4, prep_ballot = Ballot 2 1\<rparr>, 8 \<mapsto> \<lparr>prep_iid = 8, prep_ballot = Ballot 5 1\<rparr>]"
    by (simp add: epoch_paxos_storage_store_last_prepare_def epoch_paxos_storage_trim_instances_less_than_def
        epoch_paxos_storage_set_instance_chosen_def epoch_hash_mapped_memory_init_def new_hash_mapped_memory_def memory_defs Let_def)
  then show ?thesis
    by (intro exI [of _ s] conjI run)
      (simp_all add: get epoch_paxos_storage_get_last_prepare_def hash_mapped_memory_get_last_promise_def)
qed

section \<open>Recovery into fresh tables\<close>

interpretation ki: bounded_refinement km_roomy memory_of memory_load "2 ^ 28" "\<lambda>info. supply_generous mem"
    "\<lambda>info m. khash_memory_store_instance_info mem m info" "\<lambda>info m. hash_mapped_memory_store_instance_info m info"
  for mem :: memory_supply
proof unfold_locales
  fix m info assume "km_roomy m"
  have "card (dom ((f :: u32 \<rightharpoonup> 'x)(k \<mapsto> v))) \<le> Suc n" if "finite (dom f)" "card (dom f) \<le> n" for f k v n
    using card_dom_update [OF that(1), of k v] that(2) by simp
  then show "memory_load (hash_mapped_memory_store_instance_info (memory_of m) info) \<le> Suc (memory_load (memory_of m))"
    by (auto simp: memory_load_def memory_defs card_insert_if le_SucI)
  assume "memory_load (memory_of m) < 2 ^ 28" "supply_generous mem"
  then show "\<exists>m'. khash_memory_store_instance_info mem m info = Some m' \<and> km_roomy m'
      \<and> memory_of m' = hash_mapped_memory_store_instance_info (memory_of m) info"
    using store_instance_info_refines [OF \<open>km_roomy m\<close>, of mem info] by blast
qed

lemma store_instances_info_run: "store_instances_info mem m infos = run_steps (\<lambda>info m. khash_memory_store_instance_info mem m info) infos m"
  by (induction infos arbitrary: m) (auto intro: bind_option_cong)

lemma new_memory_from_instances_info_refines:
  assumes "length infos \<le> 2 ^ 28" "supply_generous mem"
  shows "\<exists>m. new_khash_memory_from_instances_info mem infos trim aid = Some m \<and> km_roomy m
    \<and> memory_of m = new_hash_mapped_memory_from_instances_info infos trim aid"
proof -
  let ?m = "(init_hash_tables khash_memory_calloc)\<lparr>km_trim_instance_id := trim, km_aid := aid\<rparr>"
  have m: "km_roomy ?m" "memory_of ?m = (new_hash_mapped_memory aid)\<lparr>hm_trim_instance_id := trim\<rparr>"
    by (simp_all add: km_roomy_def init_hash_tables_def khash_memory_calloc_def memory_of_def new_hash_mapped_memory_def)
  have "memory_load (memory_of ?m) = 0" unfolding m(2) by (simp add: memory_load_def new_hash_mapped_memory_def)
  with ki.run_refines [OF m(1), of infos mem] assms show ?thesis
    unfolding new_khash_memory_from_instances_info_def new_hash_mapped_memory_from_instances_info_def store_instances_info_run m(2)
    by (auto simp: foldl_conv_fold list_all_iff)
qed

section \<open>When memory runs out\<close>

text \<open>A promise or an acceptance that cannot be stored is reported, and the tables keep what they hold.\<close>

lemma store_without_memory:
  assumes "km_roomy m"
  shows "khash_memory_store_last_promise mem m p = Some (m', - 1) \<Longrightarrow> memory_of m' = memory_of m"
    and "khash_memory_store_last_accepted mem m a = Some (m', - 1) \<Longrightarrow> memory_of m' = memory_of m"
proof -
  have put: "ret = - 1 \<Longrightarrow> kh_map h' = kh_map h" if "kh_roomy h" "kh_put mem h key = Some (h', x, ret)"
    for h h' :: "'v khash" and mem key x ret
  proof -
    have "kh_inv h" "kh_n_buckets h < 2 ^ 31" using that(1) by (simp_all add: kh_roomy_def word_less_nat_alt)
    from kh_put_spec [OF this, of mem key] that(2) show "ret = - 1 \<Longrightarrow> kh_map h' = kh_map h"
      by (metis (no_types, lifting) Pair_inject option.inject)
  qed
  show "memory_of m' = memory_of m" if "khash_memory_store_last_promise mem m p = Some (m', - 1)"
    using that assms by (auto simp: khash_memory_store_last_promise_def km_roomy_def memory_of_def Let_def bind_eq_Some_conv put split: if_splits)
  show "memory_of m' = memory_of m" if "khash_memory_store_last_accepted mem m a = Some (m', - 1)"
    using that assms by (auto simp: khash_memory_store_last_accepted_def km_roomy_def memory_of_def put split: if_splits)
qed

text \<open>The epoch of an accept is stored by the macro, which has no defined behaviour then.\<close>

lemma store_epoch_without_memory:
  "kh_put (sup_epochs mem) h i = Some (h', x, - 1) \<Longrightarrow> epoch_khash_memory_store_accept_epoch mem h i e = None"
  by (simp add: epoch_khash_memory_store_accept_epoch_def store_to_hash_map_def)

end
