(* ===== verification/Benchmark_Client.thy ===== *)
theory Benchmark_Client
  imports Hash_Memory Storage_Utils "HOL-Library.Signed_Division"
begin

text \<open>
  The clients with which the system is measured: \<open>src/sample/client_value.c\<close>,
  \<open>src/sample/latency_recorder.c\<close>, \<open>src/sample/client_benchmarker.c\<close> and the two closed-loop clients
  \<open>src/sample/client.c\<close> and \<open>src/sample/epoch_client.c\<close>, which keep a number of values outstanding:
  each value of theirs that is delivered is replaced by a new one.  What the processes get from their
  surroundings, random numbers, the time and memory for the table of outstanding values, comes in
  sequences of which every call consumes one element.  \<open>None\<close> is undefined behaviour or a loop that does not end.
\<close>

section \<open>Surroundings\<close>

record world =
  w_rands :: "nat \<Rightarrow> u32"
  w_clock :: "nat \<Rightarrow> timeval"
  w_mem :: "nat \<Rightarrow> timeval kh_memory"

definition rand_used :: "nat \<Rightarrow> world \<Rightarrow> world" where
  "rand_used k w = w\<lparr>w_rands := \<lambda>n. w_rands w (n + k)\<rparr>"

definition clock_read :: "world \<Rightarrow> world" where
  "clock_read w = w\<lparr>w_clock := \<lambda>n. w_clock w (Suc n)\<rparr>"

definition memory_asked :: "world \<Rightarrow> world" where
  "memory_asked w = w\<lparr>w_mem := \<lambda>n. w_mem w (Suc n)\<rparr>"

text \<open>
  \<open>strncmp\<close> as a test for equality: it stops at the first difference, at a common terminating zero or after \<open>n\<close>
  bytes; reading past the end of the first operand is undefined.  The literals carry their zero.
\<close>

fun strncmp_eq :: "byte list \<Rightarrow> byte list \<Rightarrow> nat \<Rightarrow> bool option" where
  "strncmp_eq s t 0 = Some True"
| "strncmp_eq (x # s) (y # t) (Suc n) = (if x \<noteq> y then Some False else if x = 0 then Some True else strncmp_eq s t n)"
| "strncmp_eq s t (Suc n) = None"

definition NOP_dot :: "byte list" where
  "NOP_dot = [78, 79, 80, 46, 0]"

definition SYNC_string :: "byte list" where
  "SYNC_string = [83, 89, 78, 67, 0]"

section \<open>Client values\<close>

text \<open>\<open>struct client_value\<close> with the storage behind its flexible array.\<close>

record client_value =
  cv_client_id :: u32
  cv_uid :: u32
  cv_size :: u32
  cv_value :: "byte list"

abbreviation (input) sizeof_client_value :: nat where "sizeof_client_value \<equiv> 12"

text \<open>The bytes of such a value, and reading the fields of a sequence of bytes as if it were one.\<close>

definition client_value_bytes :: "client_value \<Rightarrow> byte list" where
  "client_value_bytes v = words_to_bytes [cv_client_id v, cv_uid v, cv_size v] @ cv_value v"

definition field_of_value :: "nat \<Rightarrow> byte list \<Rightarrow> u32 option" where
  "field_of_value k bs = (if 4 * k + 4 \<le> length bs then Some (u32_at bs k) else None)"

definition value_client_id :: "byte list \<Rightarrow> u32 option" where
  "value_client_id bs = field_of_value 0 bs"

definition client_value_get_uid :: "byte list \<Rightarrow> u32 option" where
  "client_value_get_uid bs = field_of_value 1 bs"

definition client_value_get_value_size :: "byte list \<Rightarrow> u32 option" where
  "client_value_get_value_size bs = field_of_value 2 bs"

definition alphanum :: "byte list" where
  "alphanum = map of_nat ([48..<58] @ [97..<123])"

text \<open>\<open>random_string\<close> writes \<open>len\<close> characters; a length below one has it write before the array.\<close>

definition random_string :: "world \<Rightarrow> byte list \<Rightarrow> int \<Rightarrow> (byte list \<times> world) option" where
  "random_string w s len =
     (if len < 1 \<or> length s < nat len then None
      else Some (map (\<lambda>i. alphanum ! (unat (w_rands w i) mod 36)) [0..<nat (len - 1)] @ [0] @ drop (nat len) s,
                 rand_used (nat (len - 1)) w))"

definition client_value_generate :: "world \<Rightarrow> client_value \<Rightarrow> u32 \<Rightarrow> u32 \<Rightarrow> (client_value \<times> world) option" where
  "client_value_generate w v value_size c_id =
     (let v = v\<lparr>cv_client_id := c_id, cv_uid := w_rands w 0, cv_size := value_size\<rparr>
      in map_option (\<lambda>(s, w). (v\<lparr>cv_value := s\<rparr>, w)) (random_string (rand_used 1 w) (cv_value v) (sint (cv_size v))))"

section \<open>The latency recorder\<close>

text \<open>A file that could not be opened, one with the lines written so far, and one that is closed.\<close>

datatype out_file = No_File | Opened "int list" | Closed "int list"

fun fprintf :: "out_file \<Rightarrow> int \<Rightarrow> out_file option" where
  "fprintf (Opened xs) x = Some (Opened (xs @ [x]))"
| "fprintf _ x = None"

fun fclose :: "out_file \<Rightarrow> out_file option" where
  "fclose (Opened xs) = Some (Closed xs)"
| "fclose _ = None"

record latency_recorder =
  lr_record :: out_file
  lr_begin_time :: timeval
  lr_begin_timing :: bool
  lr_settle_in_time :: timeval
  lr_latencies_to_record :: u32

definition latency_recorder_new :: "world \<Rightarrow> bool \<Rightarrow> timeval \<Rightarrow> u32 \<Rightarrow> latency_recorder \<times> world" where
  "latency_recorder_new w opens settle_in_time latencies_to_record =
     (\<lparr>lr_record = (if opens then Opened [] else No_File), lr_begin_time = w_clock w 0, lr_begin_timing = False,
       lr_settle_in_time = settle_in_time, lr_latencies_to_record = latencies_to_record\<rparr>, clock_read w)"

definition timer_at_least :: "timeval \<Rightarrow> timeval \<Rightarrow> bool" where
  "timer_at_least a b = (if tv_sec a = tv_sec b then tv_usec a \<ge> tv_usec b else tv_sec a \<ge> tv_sec b)"

definition latency_recorder_record :: "world \<Rightarrow> latency_recorder \<Rightarrow> int \<Rightarrow> (latency_recorder \<times> world) option" where
  "latency_recorder_record w r latency =
     (if lr_latencies_to_record r > 0
      then if \<not> lr_begin_timing r
           then if timer_at_least (timersub (w_clock w 0) (lr_begin_time r)) (lr_settle_in_time r)
                then Option.bind (fprintf (lr_record r) latency) (\<lambda>f.
                       let r = r\<lparr>lr_begin_timing := True, lr_record := f, lr_latencies_to_record := lr_latencies_to_record r - 1\<rparr>
                       in if lr_latencies_to_record r = 0
                          then map_option (\<lambda>f. (r\<lparr>lr_record := f\<rparr>, clock_read w)) (fclose (lr_record r))
                          else Some (r, clock_read w))
                else Some (r, clock_read w)
           else map_option (\<lambda>f. (r\<lparr>lr_record := f, lr_latencies_to_record := lr_latencies_to_record r - 1\<rparr>, w))
                  (fprintf (lr_record r) latency)
      else Some (r, w))"

definition latency_recorder_free :: "latency_recorder \<Rightarrow> out_file option" where
  "latency_recorder_free r = fclose (lr_record r)"

section \<open>The benchmarker\<close>

record stats =
  st_min_latency :: int
  st_max_latency :: int
  st_avg_latency :: int
  st_delivered_count :: int
  st_delivered_bytes :: "64 word"

definition no_stats :: stats where
  "no_stats = \<lparr>st_min_latency = 0, st_max_latency = 0, st_avg_latency = 0, st_delivered_count = 0, st_delivered_bytes = 0\<rparr>"

record client_benchmarker =
  cb_stats :: stats
  cb_value_and_submission_times :: "timeval khash"
  cb_latency_recorder :: latency_recorder
  cb_client_id :: u32
  cb_num_outstanding :: int

definition client_benchmarker_new :: "world \<Rightarrow> bool \<Rightarrow> u32 \<Rightarrow> u32 \<Rightarrow> timeval \<Rightarrow> client_benchmarker \<times> world" where
  "client_benchmarker_new w opens client_id num_latencies_to_record settle_in_time =
     (case latency_recorder_new w opens settle_in_time num_latencies_to_record of
        (r, w) \<Rightarrow> (\<lparr>cb_stats = no_stats, cb_value_and_submission_times = kh_init, cb_latency_recorder = r,
                    cb_client_id = client_id, cb_num_outstanding = 0\<rparr>, w))"

text \<open>What is left of a benchmarker that is freed is the file of its recorder.\<close>

definition client_benchmarker_free :: "client_benchmarker \<Rightarrow> out_file option" where
  "client_benchmarker_free b = latency_recorder_free (cb_latency_recorder b)"

definition client_benchmarker_register_value ::
    "world \<Rightarrow> client_benchmarker \<Rightarrow> client_value \<Rightarrow> (bool \<times> client_benchmarker \<times> world) option" where
  "client_benchmarker_register_value w b v =
     map_option (\<lambda>(h, key, rv).
       let w = memory_asked w in
       if rv > 0
       then (True, b\<lparr>cb_value_and_submission_times := kh_set_value h key (w_clock w 0),
                     cb_num_outstanding := cb_num_outstanding b + 1\<rparr>, clock_read w)
       else (False, b\<lparr>cb_value_and_submission_times := h\<rparr>, w))
       (kh_put (w_mem w 0) (cb_value_and_submission_times b) (cv_uid v))"

definition client_benchmarker_is_outstanding :: "client_benchmarker \<Rightarrow> byte list \<Rightarrow> bool option" where
  "client_benchmarker_is_outstanding b v =
     Option.bind (value_client_id v) (\<lambda>client_id.
       if cb_client_id b = client_id
       then Option.bind (client_value_get_uid v) (\<lambda>uid.
         map_option (\<lambda>key. if key \<noteq> kh_n_buckets (cb_value_and_submission_times b)
           then kh_exist (cb_value_and_submission_times b) key else False)
           (kh_get (cb_value_and_submission_times b) uid))
       else Some False)"

definition client_benchmarker_get_submission_time :: "client_benchmarker \<Rightarrow> byte list \<Rightarrow> (bool \<times> timeval) option" where
  "client_benchmarker_get_submission_time b v =
     Option.bind (client_value_get_uid v) (\<lambda>uid.
     Option.bind (kh_get (cb_value_and_submission_times b) uid) (\<lambda>key.
     map_option (\<lambda>client_id.
       if cb_client_id b = client_id \<and> key \<noteq> kh_n_buckets (cb_value_and_submission_times b)
          \<and> kh_exist (cb_value_and_submission_times b) key
       then (True, kh_value (cb_value_and_submission_times b) key)
       else (False, \<lparr>tv_sec = 0, tv_usec = 0\<rparr>)) (value_client_id v)))"

definition timeval_diff_in_microseconds :: "timeval \<Rightarrow> timeval \<Rightarrow> int" where
  "timeval_diff_in_microseconds lhs rhs = (let result = timersub lhs rhs in tv_sec result * 1000000 + tv_usec result)"

text \<open>\<open>kh_value\<close> at the end of the table, which a key that is not there gives, is out of bounds.\<close>

definition client_benchmarker_close_value :: "client_benchmarker \<Rightarrow> byte list \<Rightarrow> client_benchmarker option" where
  "client_benchmarker_close_value b v =
     Option.bind (client_value_get_uid v) (\<lambda>uid.
     Option.bind (kh_get (cb_value_and_submission_times b) uid) (\<lambda>key.
       if key = kh_n_buckets (cb_value_and_submission_times b) then None
       else Some (b\<lparr>cb_value_and_submission_times := kh_del (cb_value_and_submission_times b) key,
                    cb_num_outstanding := cb_num_outstanding b - 1\<rparr>)))"

definition update_stats :: "stats \<Rightarrow> u32 \<Rightarrow> int \<Rightarrow> stats" where
  "update_stats s value_size latency =
     (let s = s\<lparr>st_delivered_count := st_delivered_count s + 1, st_delivered_bytes := st_delivered_bytes s + ucast value_size\<rparr>;
          s = s\<lparr>st_avg_latency := st_avg_latency s + (latency - st_avg_latency s) sdiv st_delivered_count s\<rparr>;
          s = (if st_min_latency s = 0 \<or> latency < st_min_latency s then s\<lparr>st_min_latency := latency\<rparr> else s)
      in if latency > st_max_latency s then s\<lparr>st_max_latency := latency\<rparr> else s)"

text \<open>The recorder takes the latency as \<open>unsigned long\<close>.\<close>

definition client_benchmarker_close_value_and_update_stats ::
    "world \<Rightarrow> client_benchmarker \<Rightarrow> byte list \<Rightarrow> (bool \<times> client_benchmarker \<times> world) option" where
  "client_benchmarker_close_value_and_update_stats w b v =
     Option.bind (client_benchmarker_get_submission_time b v) (\<lambda>(found, val_submission_time).
       if found
       then let now = w_clock w 0; w = clock_read w;
                latency_microseconds = timeval_diff_in_microseconds now val_submission_time
            in Option.bind (client_value_get_value_size v) (\<lambda>value_size.
               Option.bind (latency_recorder_record w (cb_latency_recorder b) (latency_microseconds mod 2 ^ 64)) (\<lambda>(r, w).
               map_option (\<lambda>b. (True, b, w))
                 (client_benchmarker_close_value
                   (b\<lparr>cb_stats := update_stats (cb_stats b) value_size latency_microseconds, cb_latency_recorder := r\<rparr>) v)))
       else Some (False, b, w))"


section \<open>The clients\<close>

text \<open>
  The two clients differ in the type of their messages and in the type of \<open>max_outstanding\<close>, signed in
  \<open>client.c\<close>, unsigned in \<open>epoch_client.c\<close>.  Their common part works on values; \<open>cl_synced\<close> has no value
  before the first connection, since \<open>make_client\<close> does not initialise it, and the benchmarker is gone
  after an interrupt.
\<close>

record client =
  cl_synced :: "bool option"
  cl_id :: u32
  cl_value_size :: u32
  cl_max_outstanding :: u32
  cl_send_buffer :: client_value
  cl_benchmarker :: "client_benchmarker option"

partial_function (option) register_fresh ::
    "world \<Rightarrow> client_benchmarker \<Rightarrow> client_value \<Rightarrow> (client_value \<times> client_benchmarker \<times> world) option" where
  "register_fresh w b v =
     Option.bind (client_benchmarker_register_value w b v) (\<lambda>(registered, b, w).
       if registered then Some (v, b, w) else register_fresh (rand_used 1 w) b (v\<lparr>cv_uid := w_rands w 0\<rparr>))"

definition client_submit_value :: "world \<Rightarrow> client \<Rightarrow> (client \<times> world \<times> paxos_value list) option" where
  "client_submit_value w c =
     Option.bind (client_value_generate w (cl_send_buffer c) (cl_value_size c) (cl_id c)) (\<lambda>(v, w).
     Option.bind (cl_benchmarker c) (\<lambda>b.
     map_option (\<lambda>(v, b, w).
       (c\<lparr>cl_send_buffer := v, cl_benchmarker := Some b\<rparr>, w, [take (sizeof_client_value + unat (cv_size v)) (client_value_bytes v)]))
       (register_fresh w b v)))"

text \<open>\<open>strncpy\<close> writes five bytes, which a buffer for shorter values does not have.\<close>

definition client_submit_sync :: "client \<Rightarrow> (client \<times> paxos_value list) option" where
  "client_submit_sync c =
     (let v = (cl_send_buffer c)\<lparr>cv_client_id := cl_id c, cv_uid := 0\<rparr> in
      if length (cv_value v) < 5 then None
      else let v = v\<lparr>cv_value := SYNC_string @ drop 5 (cv_value v)\<rparr>
           in Some (c\<lparr>cl_send_buffer := v\<rparr>, [take (sizeof_client_value + 5) (client_value_bytes v)]))"

fun submit_values :: "nat \<Rightarrow> world \<Rightarrow> client \<Rightarrow> (client \<times> world \<times> paxos_value list) option" where
  "submit_values 0 w c = Some (c, w, [])"
| "submit_values (Suc n) w c =
     Option.bind (client_submit_value w c) (\<lambda>(c, w, out).
       map_option (\<lambda>(c, w, rest). (c, w, out @ rest)) (submit_values n w c))"

definition is_own_sync :: "client \<Rightarrow> byte list \<Rightarrow> bool option" where
  "is_own_sync c value =
     Option.bind (value_client_id value) (\<lambda>client_id.
       if client_id \<noteq> cl_id c then Some False
       else Option.bind (client_value_get_uid value) (\<lambda>uid.
         if uid \<noteq> 0 then Some False else strncmp_eq (drop sizeof_client_value value) SYNC_string 4))"

definition client_deliver :: "nat \<Rightarrow> world \<Rightarrow> client \<Rightarrow> byte list \<Rightarrow> (client \<times> world \<times> paxos_value list) option" where
  "client_deliver max_outstanding w c value =
     Option.bind (strncmp_eq value NOP_dot (length value)) (\<lambda>nop.
       if nop then Some (c, w, [])
       else Option.bind (cl_synced c) (\<lambda>synced.
         if \<not> synced
         then Option.bind (is_own_sync c value) (\<lambda>sync.
           if sync
           then map_option (\<lambda>(c, w, out). (c\<lparr>cl_synced := Some True\<rparr>, w, out)) (submit_values max_outstanding w c)
           else map_option (\<lambda>(c, out). (c, w, out)) (client_submit_sync c))
         else Option.bind (cl_benchmarker c) (\<lambda>b.
           Option.bind (client_benchmarker_is_outstanding b value) (\<lambda>outstanding.
             if outstanding
             then Option.bind (client_benchmarker_close_value_and_update_stats w b value) (\<lambda>(_, b, w).
                    client_submit_value w (c\<lparr>cl_benchmarker := Some b\<rparr>))
             else Some (c, w, [])))))"



definition client_handle_sigint :: "client \<Rightarrow> client option" where
  "client_handle_sigint c =
     Option.bind (cl_benchmarker c) (\<lambda>b. map_option (\<lambda>_. c\<lparr>cl_benchmarker := None\<rparr>) (client_benchmarker_free b))"

text \<open>
  \<open>make_client\<close>: the identifier is random, the buffer holds whatever memory held, and the number of
  latencies to record is cut to 32 bits on its way to the recorder.
\<close>

definition make_client ::
    "world \<Rightarrow> bool \<Rightarrow> byte list \<Rightarrow> u32 \<Rightarrow> u32 \<Rightarrow> u32 \<Rightarrow> int \<Rightarrow> u32 \<Rightarrow> client \<times> world" where
  "make_client w opens garbage garbage_word outstanding value_size settle_in_time number_of_latencies_to_record =
     (let id = w_rands w 0; w = rand_used 1 w;
          buffer = \<lparr>cv_client_id = garbage_word, cv_uid = garbage_word, cv_size = garbage_word,
                    cv_value = take (unat value_size) (garbage @ replicate (unat value_size) 0)\<rparr>
      in case client_benchmarker_new w opens id number_of_latencies_to_record \<lparr>tv_sec = settle_in_time, tv_usec = 0\<rparr> of
        (b, w) \<Rightarrow> (\<lparr>cl_synced = None, cl_id = id, cl_value_size = value_size, cl_max_outstanding = outstanding,
                    cl_send_buffer = buffer, cl_benchmarker = Some b\<rparr>, w))"

text \<open>The handlers of the two programs.\<close>

definition client_on_deliver :: "world \<Rightarrow> client \<Rightarrow> byte list \<Rightarrow> (client \<times> world \<times> standard_paxos_message list) option" where
  "client_on_deliver w c value =
     map_option (\<lambda>(c, w, out). (c, w, map PAXOS_CLIENT_VALUE out))
       (client_deliver (nat (sint (cl_max_outstanding c))) w c value)"

definition epoch_client_on_deliver ::
    "world \<Rightarrow> client \<Rightarrow> byte list \<Rightarrow> (client \<times> world \<times> epoch_paxos_message list) option" where
  "epoch_client_on_deliver w c value =
     map_option (\<lambda>(c, w, out). (c, w, map WRITEAHEAD_CLIENT_VALUE out))
       (client_deliver (unat (cl_max_outstanding c)) w c value)"

definition epoch_client_submit_value :: "world \<Rightarrow> client \<Rightarrow> (client \<times> world \<times> epoch_paxos_message list) option" where
  "epoch_client_submit_value w c =
     map_option (\<lambda>(c, w, out). (c, w, map WRITEAHEAD_CLIENT_VALUE out)) (client_submit_value w c)"

definition epoch_client_submit_sync :: "client \<Rightarrow> (client \<times> epoch_paxos_message list) option" where
  "epoch_client_submit_sync c = map_option (\<lambda>(c, out). (c, map WRITEAHEAD_CLIENT_VALUE out)) (client_submit_sync c)"

definition epoch_client_on_connect :: "client \<Rightarrow> bool \<Rightarrow> (client \<times> epoch_paxos_message list) option" where
  "epoch_client_on_connect c connected =
     (if connected then epoch_client_submit_sync (c\<lparr>cl_synced := Some False\<rparr>) else Some (c, []))"

text \<open>The configuration and the results of \<open>connect_to_proposer\<close> are left out; the fields are set in another order.\<close>

definition make_epoch_client ::
    "world \<Rightarrow> bool \<Rightarrow> byte list \<Rightarrow> u32 \<Rightarrow> u32 \<Rightarrow> u32 \<Rightarrow> int \<Rightarrow> u32 \<Rightarrow> client \<times> world" where
  "make_epoch_client w opens garbage garbage_word outstanding value_size settle_in_time number_of_latencies_to_record =
     make_client w opens garbage garbage_word outstanding value_size settle_in_time number_of_latencies_to_record"




section \<open>Statistics and recorded latencies\<close>

lemma sdiv_between:
  fixes x :: int
  assumes "0 < n"
  shows "0 \<le> x \<Longrightarrow> 0 \<le> x sdiv n \<and> x sdiv n \<le> x" "x \<le> 0 \<Longrightarrow> x \<le> x sdiv n \<and> x sdiv n \<le> 0"
proof -
  have le: "0 \<le> y div n \<and> y div n \<le> y" if "0 \<le> y" for y :: int
    using assms that div_by_1 [of y] zdiv_mono2 [of y 1 n] by (simp add: pos_imp_zdiv_nonneg_iff)
  show "0 \<le> x sdiv n \<and> x sdiv n \<le> x" if "0 \<le> x"
    using le [OF that] assms that by (auto simp: signed_divide_int_def sgn_if)
  show "x \<le> x sdiv n \<and> x sdiv n \<le> 0" if "x \<le> 0"
    using le [of "- x"] assms that by (auto simp: signed_divide_int_def sgn_if)
qed

text \<open>Statistics are in order when nothing was delivered, or when the average is between the extremes and all are positive.\<close>

definition stats_ordered :: "stats \<Rightarrow> bool" where
  "stats_ordered s \<longleftrightarrow> st_min_latency s = 0 \<and> st_max_latency s = 0 \<and> st_avg_latency s = 0 \<and> st_delivered_count s = 0
     \<or> 0 < st_min_latency s \<and> st_min_latency s \<le> st_avg_latency s \<and> st_avg_latency s \<le> st_max_latency s \<and> 0 < st_delivered_count s"

lemma update_stats_ordered:
  assumes "stats_ordered s" "0 < latency"
  shows "stats_ordered (update_stats s sz latency)"
proof -
  let ?n = "st_delivered_count s + 1" and ?avg = "st_avg_latency s"
  have n: "0 < ?n" using assms(1) by (auto simp: stats_ordered_def)
  have "?n = 1 \<Longrightarrow> (latency - ?avg) sdiv ?n = latency - ?avg" by simp
  with sdiv_between [OF n, of "latency - ?avg"] assms show ?thesis
    by (cases "?avg \<le> latency") (auto simp: stats_ordered_def update_stats_def Let_def)
qed

text \<open>
  The statistics of a benchmark are consistent: after any number of deliveries with positive
  latencies since they were last printed, the number of deliveries is counted and the average, which
  is computed incrementally with a division that truncates, lies between the smallest and the largest latency.
\<close>

theorem benchmark_stats_ordered:
  assumes "list_all (\<lambda>(sz, latency). 0 < latency) deliveries" "deliveries \<noteq> []"
  shows "let s = fold (\<lambda>(sz, latency) s. update_stats s sz latency) deliveries no_stats in
    st_min_latency s \<le> st_avg_latency s \<and> st_avg_latency s \<le> st_max_latency s \<and> st_delivered_count s = int (length deliveries)"
proof -
  let ?step = "\<lambda>(sz, latency) s. update_stats s sz latency"
  have count: "st_delivered_count (fold ?step ds s) = st_delivered_count s + int (length ds)" for ds s
    by (induction ds arbitrary: s) (auto simp: update_stats_def Let_def)
  have "stats_ordered (fold ?step ds s)" if "stats_ordered s" "list_all (\<lambda>(sz, latency). 0 < latency) ds" for ds s
    using that by (induction ds arbitrary: s) (auto simp: update_stats_ordered)
  then have "stats_ordered (fold ?step deliveries no_stats)" using assms(1) by (simp add: stats_ordered_def no_stats_def)
  moreover have "st_delivered_count no_stats = 0" by (simp add: no_stats_def)
  ultimately show ?thesis using count [of deliveries no_stats] assms(2) by (auto simp: stats_ordered_def Let_def)
qed

theorem benchmark_stats_ordered_witness:
  "let s = fold (\<lambda>(sz, latency) s. update_stats s sz latency) [(64, 900), (64, 300), (64, 750)] no_stats in
    st_min_latency s \<le> st_avg_latency s \<and> st_avg_latency s \<le> st_max_latency s \<and> st_delivered_count s = 3"
  using benchmark_stats_ordered [of "[(64, 900), (64, 300), (64, 750)]"] unfolding Let_def by simp

text \<open>A latency of zero is taken for no latency at all: the next one replaces it as the minimum, above the average.\<close>

lemma zero_latency_lost:
  "let s = update_stats (update_stats no_stats 64 0) 64 10 in st_min_latency s = 10 \<and> st_avg_latency s = 5"
  by code_simp

definition recorder_ok :: "latency_recorder \<Rightarrow> bool" where
  "recorder_ok r \<longleftrightarrow> (lr_latencies_to_record r > 0 \<longrightarrow> (\<exists>xs. lr_record r = Opened xs))"

lemma record_ok:
  assumes "recorder_ok r"
  obtains r' w' where "latency_recorder_record w r latency = Some (r', w')" "recorder_ok r'" "w_mem w' = w_mem w" "w_rands w' = w_rands w"
proof -
  let ?ok = "\<lambda>p. recorder_ok (fst p) \<and> w_mem (snd p) = w_mem w \<and> w_rands (snd p) = w_rands w"
  have "pred_option ?ok (latency_recorder_record w r latency) \<and> latency_recorder_record w r latency \<noteq> None"
    using assms by (auto simp: recorder_ok_def latency_recorder_record_def Let_def clock_read_def)
  then show thesis using that by (cases "latency_recorder_record w r latency") auto
qed

text \<open>The lines in the file, and how the recorder handles one latency after the other.\<close>

fun recorded :: "out_file \<Rightarrow> int list" where
  "recorded No_File = []"
| "recorded (Opened xs) = xs"
| "recorded (Closed xs) = xs"

fun record_all :: "world \<Rightarrow> latency_recorder \<Rightarrow> int list \<Rightarrow> (latency_recorder \<times> world) option" where
  "record_all w r [] = Some (r, w)"
| "record_all w r (x # xs) = Option.bind (latency_recorder_record w r x) (\<lambda>(r, w). record_all w r xs)"

lemma u32_pos_unat: "0 < (n :: u32) \<Longrightarrow> unat (n - 1) = unat n - 1 \<and> 0 < unat n"
  using unat_gt_0 [of n] by (auto simp: unat_minus_one word_gt_0)

lemma record_all_timing:
  assumes "lr_begin_timing r" "lr_record r = Opened ys"
  shows "\<exists>r'. record_all w r xs = Some (r', w) \<and> lr_record r' = Opened (ys @ take (unat (lr_latencies_to_record r)) xs)"
  using assms
proof (induction xs arbitrary: r ys)
  case (Cons x xs)
  show ?case
  proof (cases "lr_latencies_to_record r = 0")
    case True
    then have "latency_recorder_record w r x = Some (r, w)" by (simp add: latency_recorder_record_def)
    then show ?thesis using Cons.IH [OF Cons.prems] True by simp
  next
    case False
    then have pos: "0 < lr_latencies_to_record r" by (simp add: word_gt_0)
    let ?r = "r\<lparr>lr_record := Opened (ys @ [x]), lr_latencies_to_record := lr_latencies_to_record r - 1\<rparr>"
    have "latency_recorder_record w r x = Some (?r, w)" using pos Cons.prems by (simp add: latency_recorder_record_def)
    then show ?thesis
      using Cons.IH [of ?r "ys @ [x]"] Cons.prems u32_pos_unat [OF pos] by (auto simp: take_Cons')
  qed
qed simp

text \<open>
  A recorder that is to take \<open>n\<close> latencies ignores what happens until the system has settled in; from the first
  latency thereafter it writes the first \<open>n\<close>, in order, and no more.  It can be closed afterwards, except
  that with \<open>n = 1\<close> it has closed its file already, so that closing it once more is undefined.
\<close>

theorem latency_recorder_records_first:
  assumes "0 < lr_latencies_to_record r" "\<not> lr_begin_timing r" "lr_record r = Opened []"
    and "timer_at_least (timersub (w_clock w 0) (lr_begin_time r)) (lr_settle_in_time r)"
  shows "\<exists>r' w'. record_all w r (x # xs) = Some (r', w') \<and> recorded (lr_record r') = take (unat (lr_latencies_to_record r)) (x # xs)
    \<and> (latency_recorder_free r' = None \<longleftrightarrow> lr_latencies_to_record r = 1)"
proof -
  let ?r = "r\<lparr>lr_begin_timing := True, lr_record := Opened [x], lr_latencies_to_record := lr_latencies_to_record r - 1\<rparr>"
  have pos: "unat (lr_latencies_to_record r - 1) = unat (lr_latencies_to_record r) - 1" "0 < unat (lr_latencies_to_record r)"
    using u32_pos_unat [OF assms(1)] by simp_all
  show ?thesis
  proof (cases "lr_latencies_to_record r = 1")
    case True
    then have first: "latency_recorder_record w r x = Some (?r\<lparr>lr_record := Closed [x]\<rparr>, clock_read w)"
      using assms by (simp add: latency_recorder_record_def)
    have "record_all w' r' xs = Some (r', w')" if "lr_latencies_to_record r' = 0" for r' w'
      using that by (induction xs) (simp_all add: latency_recorder_record_def)
    then show ?thesis using first True by (simp add: latency_recorder_free_def)
  next
    case False
    then have "latency_recorder_record w r x = Some (?r, clock_read w)"
      using assms by (auto simp: latency_recorder_record_def Let_def)
    then show ?thesis
      using record_all_timing [of ?r "[x]" "clock_read w" xs] False pos by (auto simp: latency_recorder_free_def take_Cons')
  qed
qed

theorem latency_recorder_records_first_witness:
  "let r = \<lparr>lr_record = Opened [], lr_begin_time = \<lparr>tv_sec = 5, tv_usec = 0\<rparr>, lr_begin_timing = False,
        lr_settle_in_time = \<lparr>tv_sec = 10, tv_usec = 0\<rparr>, lr_latencies_to_record = 2\<rparr>;
       w = \<lparr>w_rands = \<lambda>_. 0, w_clock = \<lambda>n. \<lparr>tv_sec = 16 + int n, tv_usec = 0\<rparr>, w_mem = \<lambda>_. enough (\<lambda>_. 0) (\<lambda>_. \<lparr>tv_sec = 0, tv_usec = 0\<rparr>)\<rparr>
   in \<exists>r' w'. record_all w r [700, 650, 800] = Some (r', w') \<and> recorded (lr_record r') = [700, 650] \<and> latency_recorder_free r' \<noteq> None"
  using latency_recorder_records_first [of "\<lparr>lr_record = Opened [], lr_begin_time = \<lparr>tv_sec = 5, tv_usec = 0\<rparr>, lr_begin_timing = False,
        lr_settle_in_time = \<lparr>tv_sec = 10, tv_usec = 0\<rparr>, lr_latencies_to_record = 2\<rparr>"
      "\<lparr>w_rands = \<lambda>_. 0, w_clock = \<lambda>n. \<lparr>tv_sec = 16 + int n, tv_usec = 0\<rparr>, w_mem = \<lambda>_. enough (\<lambda>_. 0) (\<lambda>_. \<lparr>tv_sec = 0, tv_usec = 0\<rparr>)\<rparr>"
      700 "[650, 800]"]
  by (simp add: Let_def timer_at_least_def timersub_def)

section \<open>Reading values\<close>


text \<open>What a client reads of its own value is what it wrote.\<close>

lemma client_value_fields [simp]:
  "value_client_id (client_value_bytes v @ rest) = Some (cv_client_id v)"
  "client_value_get_uid (client_value_bytes v @ rest) = Some (cv_uid v)"
  "client_value_get_value_size (client_value_bytes v @ rest) = Some (cv_size v)"
  using u32_at_words [of 0 "[cv_client_id v, cv_uid v, cv_size v]"] u32_at_words [of 1 "[cv_client_id v, cv_uid v, cv_size v]"]
    u32_at_words [of 2 "[cv_client_id v, cv_uid v, cv_size v]"]
  by (simp_all add: value_client_id_def client_value_get_uid_def client_value_get_value_size_def field_of_value_def client_value_bytes_def)

text \<open>
  The values that a client can look at without reading past their end: those with a header and at least four more
  bytes, and those long enough to show that they belong to another client.
\<close>

definition readable :: "u32 \<Rightarrow> byte list \<Rightarrow> bool" where
  "readable cid value \<longleftrightarrow> 16 \<le> length value \<or> 4 \<le> length value \<and> value_client_id value \<noteq> Some cid"



lemma readable_fields:
  assumes "readable cid value"
  shows "value_client_id value = Some (u32_at value 0)"
    "value_client_id value = Some cid \<Longrightarrow> client_value_get_uid value = Some (u32_at value 1)"
    "value_client_id value = Some cid \<Longrightarrow> client_value_get_value_size value = Some (u32_at value 2)"
  using assms by (auto simp: readable_def value_client_id_def client_value_get_uid_def client_value_get_value_size_def field_of_value_def)

section \<open>The table of outstanding values\<close>

definition outstanding_uids :: "client_benchmarker \<Rightarrow> u32 set" where
  "outstanding_uids b = dom (kh_map (cb_value_and_submission_times b))"

definition benchmarker_ok :: "u32 \<Rightarrow> client_benchmarker \<Rightarrow> bool" where
  "benchmarker_ok cid b \<longleftrightarrow> kh_roomy (cb_value_and_submission_times b) \<and> cb_client_id b = cid
     \<and> cb_num_outstanding b = int (card (outstanding_uids b)) \<and> recorder_ok (cb_latency_recorder b)"

text \<open>Memory never runs out, and \<open>rand\<close> does not keep to fewer than \<open>k\<close> numbers forever.\<close>

definition world_ok :: "nat \<Rightarrow> world \<Rightarrow> bool" where
  "world_ok k w \<longleftrightarrow> (\<forall>n. generous (w_mem w n)) \<and> (\<forall>S n. card S < k \<longrightarrow> (\<exists>m \<ge> n. w_rands w m \<notin> S))"

lemma world_fields [simp]:
  "w_rands (clock_read w) = w_rands w" "w_rands (memory_asked w) = w_rands w" "w_rands (rand_used j w) = (\<lambda>n. w_rands w (n + j))"
  by (simp_all add: clock_read_def memory_asked_def rand_used_def)

lemma world_ok_used [simp]:
  "world_ok k w \<Longrightarrow> world_ok k (clock_read w)" "world_ok k w \<Longrightarrow> world_ok k (memory_asked w)"
  by (simp_all add: world_ok_def clock_read_def memory_asked_def)

lemma world_ok_rand [simp]: "world_ok k w \<Longrightarrow> world_ok k (rand_used j w)"
  unfolding world_ok_def rand_used_def
  by (auto, metis le_add_diff_inverse2 le_add2 add_le_imp_le_right order.trans trans_le_add2 Nat.le_diff_conv2)

lemma finite_uids [simp]: "finite (outstanding_uids b)"
  by (simp add: outstanding_uids_def)

lemma register_value_spec:
  assumes "benchmarker_ok cid b" "world_ok k w" "card (outstanding_uids b) < 2 ^ 28"
  obtains b' w' where "client_benchmarker_register_value w b v = Some (cv_uid v \<notin> outstanding_uids b, b', w')"
    "benchmarker_ok cid b'" "world_ok k w'" "outstanding_uids b' = insert (cv_uid v) (outstanding_uids b)" "w_rands w' = w_rands w"
proof -
  let ?t = "cb_value_and_submission_times b"
  have t: "kh_inv ?t" "unat (kh_n_buckets ?t) \<le> 2 ^ 30" using assms(1) by (simp_all add: benchmarker_ok_def kh_roomy_def)
  have lt: "kh_n_buckets ?t < 2 ^ 31" using t(2) by (simp add: word_less_nat_alt)
  have bound: "max (unat (kh_n_buckets ?t)) (max 4 (4 * card (kh_live ?t))) \<le> 2 ^ 30"
    using t(2) assms(3) kh_live_card [OF t(1)] by (simp add: outstanding_uids_def)
  have gen: "generous (w_mem w 0)" using assms(2) by (simp add: world_ok_def)
  obtain h x ret where put: "kh_put (w_mem w 0) ?t (cv_uid v) = Some (h, x, ret)" "kh_inv h" "ret \<noteq> - 1"
    and live: "x \<in> kh_live h" "kh_key h x = cv_uid v" "kh_map h |` (- {cv_uid v}) = kh_map ?t |` (- {cv_uid v})"
    and ret: "ret = 0 \<and> cv_uid v \<in> dom (kh_map ?t) \<and> kh_map h = kh_map ?t \<or> (ret = 1 \<or> ret = 2) \<and> cv_uid v \<notin> dom (kh_map ?t)"
    and sz: "unat (kh_n_buckets h) \<le> 2 ^ 30"
    by (rule kh_put_spec [OF t(1) lt, of "w_mem w 0" "cv_uid v"]) (use gen bound in \<open>fastforce intro: order.trans\<close>)
  show thesis
  proof (cases "cv_uid v \<in> outstanding_uids b")
    case True
    then have "client_benchmarker_register_value w b v = Some (False, b\<lparr>cb_value_and_submission_times := h\<rparr>, memory_asked w)"
      using put(1) ret by (auto simp: client_benchmarker_register_value_def outstanding_uids_def)
    then show thesis
      using that [of "b\<lparr>cb_value_and_submission_times := h\<rparr>" "memory_asked w"] True assms(1,2) ret put(2) sz
      by (auto simp: benchmarker_ok_def outstanding_uids_def kh_roomy_def insert_absorb)
  next
    case False
    let ?w = "clock_read (memory_asked w)" and ?h = "kh_set_value h x (w_clock (memory_asked w) 0)"
    let ?b = "b\<lparr>cb_value_and_submission_times := ?h, cb_num_outstanding := cb_num_outstanding b + 1\<rparr>"
    have reg: "client_benchmarker_register_value w b v = Some (True, ?b, ?w)"
      using put(1) ret False by (auto simp: client_benchmarker_register_value_def outstanding_uids_def Let_def)
    have h: "kh_inv ?h" "kh_map ?h = (kh_map ?t)(cv_uid v \<mapsto> w_clock (memory_asked w) 0)" "kh_n_buckets ?h = kh_n_buckets h"
      using kh_map_update [OF t(1) put(2) live, of "w_clock (memory_asked w) 0"] put(2) by simp_all
    have uids: "outstanding_uids ?b = insert (cv_uid v) (outstanding_uids b)" using h(2) by (simp add: outstanding_uids_def)
    show thesis
      by (rule that [of ?b ?w])
        (use reg uids False assms(1,2) h sz in \<open>auto simp: benchmarker_ok_def kh_roomy_def\<close>)
  qed
qed

definition registered_fresh :: "u32 \<Rightarrow> nat \<Rightarrow> client_benchmarker \<Rightarrow> client_value \<Rightarrow> (client_value \<times> client_benchmarker \<times> world) option \<Rightarrow> bool" where
  "registered_fresh cid k b v r \<longleftrightarrow> (\<exists>uid b' w'. r = Some (v\<lparr>cv_uid := uid\<rparr>, b', w') \<and> benchmarker_ok cid b' \<and> world_ok k w'
     \<and> uid \<notin> outstanding_uids b \<and> outstanding_uids b' = insert uid (outstanding_uids b))"

lemma register_fresh_now:
  assumes "benchmarker_ok cid b" "world_ok k w" "card (outstanding_uids b) < 2 ^ 28" "cv_uid v \<notin> outstanding_uids b"
  shows "registered_fresh cid k b v (register_fresh w b v)"
proof -
  obtain b' w' where "client_benchmarker_register_value w b v = Some (True, b', w')" "benchmarker_ok cid b'" "world_ok k w'"
    "outstanding_uids b' = insert (cv_uid v) (outstanding_uids b)"
    by (rule register_value_spec [OF assms(1-3), of v]) (use assms(4) in auto)
  then show ?thesis using assms(4)
    by (subst register_fresh.simps) (auto simp: registered_fresh_def intro!: exI [of _ "cv_uid v"])
qed

lemma register_fresh_again:
  assumes "benchmarker_ok cid b" "world_ok k w" "card (outstanding_uids b) < 2 ^ 28" "cv_uid v \<in> outstanding_uids b"
  obtains b' w' where "register_fresh w b v = register_fresh w' b' (v\<lparr>cv_uid := w_rands w 0\<rparr>)" "benchmarker_ok cid b'" "world_ok k w'"
    "outstanding_uids b' = outstanding_uids b" "w_rands w' = (\<lambda>n. w_rands w (Suc n))"
proof -
  obtain b' w' where r: "client_benchmarker_register_value w b v = Some (False, b', w')" "benchmarker_ok cid b'" "world_ok k w'"
    "outstanding_uids b' = outstanding_uids b" "w_rands w' = w_rands w"
    by (rule register_value_spec [OF assms(1-3), of v]) (use assms(4) in \<open>auto simp: insert_absorb\<close>)
  have "register_fresh w b v = register_fresh (rand_used 1 w') b' (v\<lparr>cv_uid := w_rands w 0\<rparr>)"
    using r by (subst register_fresh.simps) simp
  then show thesis by (rule that) (use r in simp_all)
qed

lemma register_fresh_spec:
  assumes "benchmarker_ok cid b" "world_ok k w" "card (outstanding_uids b) < k" "k \<le> 2 ^ 28"
  shows "registered_fresh cid k b v (register_fresh w b v)"
proof -
  obtain n where n: "w_rands w n \<notin> outstanding_uids b" using assms(2,3) unfolding world_ok_def by blast
  show ?thesis using assms(1-3) n
  proof (induction n arbitrary: w b v)
    case (0 w b v)
    have load: "card (outstanding_uids b) < 2 ^ 28" using 0(3) assms(4) by simp
    show ?case
    proof (cases "cv_uid v \<in> outstanding_uids b")
      case True
      obtain b' w' where again: "register_fresh w b v = register_fresh w' b' (v\<lparr>cv_uid := w_rands w 0\<rparr>)" "benchmarker_ok cid b'" "world_ok k w'"
        "outstanding_uids b' = outstanding_uids b" "w_rands w' = (\<lambda>n. w_rands w (Suc n))"
        using register_fresh_again [OF 0(1,2) load True] .
      then show ?thesis
        using register_fresh_now [OF again(2,3), of "v\<lparr>cv_uid := w_rands w 0\<rparr>"] load 0(4) by (simp add: registered_fresh_def)
    qed (rule register_fresh_now [OF 0(1,2) load])
  next
    case (Suc n w b v)
    have load: "card (outstanding_uids b) < 2 ^ 28" using Suc.prems(3) assms(4) by simp
    show ?case
    proof (cases "cv_uid v \<in> outstanding_uids b")
      case True
      obtain b' w' where again: "register_fresh w b v = register_fresh w' b' (v\<lparr>cv_uid := w_rands w 0\<rparr>)" "benchmarker_ok cid b'" "world_ok k w'"
        "outstanding_uids b' = outstanding_uids b" "w_rands w' = (\<lambda>n. w_rands w (Suc n))"
        using register_fresh_again [OF Suc.prems(1,2) load True] .
      then show ?thesis
        using Suc.IH [OF again(2,3), of "v\<lparr>cv_uid := w_rands w 0\<rparr>"] Suc.prems(3,4) by (simp add: registered_fresh_def)
    qed (rule register_fresh_now [OF Suc.prems(1,2) load])
  qed
qed

section \<open>The closed loop\<close>

text \<open>A client whose buffer can hold a \<open>SYNC\<close> and which has \<open>n\<close> values outstanding.\<close>

definition client_has :: "nat \<Rightarrow> client \<Rightarrow> bool" where
  "client_has n c \<longleftrightarrow> 5 \<le> unat (cl_value_size c) \<and> unat (cl_value_size c) < 2 ^ 31
     \<and> length (cv_value (cl_send_buffer c)) = unat (cl_value_size c)
     \<and> (\<exists>b. cl_benchmarker c = Some b \<and> benchmarker_ok (cl_id c) b \<and> card (outstanding_uids b) = n)"

definition client_uids :: "client \<Rightarrow> u32 set" where
  "client_uids c = (case cl_benchmarker c of None \<Rightarrow> {} | Some b \<Rightarrow> outstanding_uids b)"

lemma u32_sint_unat:
  fixes x :: u32
  assumes "unat x < 2 ^ 31"
  shows "sint x = int (unat x)"
proof -
  have "int (unat x) < int (2 ^ 31)" using assms by (simp only: of_nat_less_iff)
  then have "uint x < 2 ^ 31" by simp
  moreover have "- (2 ^ 31) \<le> uint x" by (rule order.trans [of _ 0]) simp_all
  ultimately have "signed_take_bit 31 (uint x) = uint x" by (intro signed_take_bit_int_eq_self)
  then show ?thesis by (simp add: sint_uint)
qed

lemma generate_spec:
  assumes "5 \<le> unat sz" "unat sz < 2 ^ 31" "length (cv_value v) = unat sz"
  obtains v' w' where "client_value_generate w v sz cid = Some (v', w')" "cv_client_id v' = cid" "cv_size v' = sz"
    "length (cv_value v') = unat sz" "w' = rand_used (unat sz) w"
proof -
  let ?s = "map (\<lambda>i. alphanum ! (unat (w_rands (rand_used 1 w) i) mod 36)) [0..<unat sz - 1] @ [0]"
  obtain n where n: "unat sz = Suc n" "sint sz = int (Suc n)" using assms(1) u32_sint_unat [OF assms(2)] by (cases "unat sz") auto
  have "random_string (rand_used 1 w) (cv_value v) (sint sz) = Some (?s, rand_used (unat sz) w)"
    using assms(3) by (simp add: n random_string_def rand_used_def)
  then show thesis
    by (intro that [of "v\<lparr>cv_client_id := cid, cv_uid := w_rands w 0, cv_size := sz, cv_value := ?s\<rparr>"])
      (use assms in \<open>simp_all add: client_value_generate_def\<close>)
qed

lemma client_submit_value_spec:
  assumes "client_has n c" "world_ok k w" "n < k" "k \<le> 2 ^ 28"
  obtains c' w' v where "client_submit_value w c = Some (c', w', [client_value_bytes v])" "client_has (Suc n) c'" "world_ok k w'"
    "cl_synced c' = cl_synced c" "cl_id c' = cl_id c" "cv_client_id v = cl_id c" "cv_size v = cl_value_size c"
    "length (cv_value v) = unat (cl_value_size c)"
    "cv_uid v \<notin> client_uids c" "client_uids c' = insert (cv_uid v) (client_uids c)"
proof -
  obtain b where b: "cl_benchmarker c = Some b" "benchmarker_ok (cl_id c) b" "card (outstanding_uids b) = n"
    using assms(1) by (auto simp: client_has_def)
  have sz: "5 \<le> unat (cl_value_size c)" "unat (cl_value_size c) < 2 ^ 31" "length (cv_value (cl_send_buffer c)) = unat (cl_value_size c)"
    using assms(1) by (simp_all add: client_has_def)
  obtain v w1 where v: "client_value_generate w (cl_send_buffer c) (cl_value_size c) (cl_id c) = Some (v, w1)" "cv_client_id v = cl_id c"
    "cv_size v = cl_value_size c" "length (cv_value v) = unat (cl_value_size c)" "w1 = rand_used (unat (cl_value_size c)) w"
    using generate_spec [OF sz] .
  have w1: "world_ok k w1" using assms(2) v(5) by simp
  have "card (outstanding_uids b) < k" using b(3) assms(3) by simp
  from register_fresh_spec [OF b(2) w1 this assms(4), of v] obtain uid b' w'
    where r: "register_fresh w1 b v = Some (v\<lparr>cv_uid := uid\<rparr>, b', w')" "benchmarker_ok (cl_id c) b'" "world_ok k w'"
      "uid \<notin> outstanding_uids b" "outstanding_uids b' = insert uid (outstanding_uids b)"
    by (auto simp: registered_fresh_def)
  let ?v = "v\<lparr>cv_uid := uid\<rparr>" and ?c = "c\<lparr>cl_send_buffer := v\<lparr>cv_uid := uid\<rparr>, cl_benchmarker := Some b'\<rparr>"
  have len: "length (client_value_bytes ?v) = 12 + unat (cl_value_size c)" using v(4) by (simp add: client_value_bytes_def)
  have "client_submit_value w c = Some (?c, w', [client_value_bytes ?v])"
    using v r(1) b(1) len by (simp add: client_submit_value_def)
  then show thesis
    by (rule that) (use assms(1) v r b in \<open>auto simp: client_has_def client_uids_def\<close>)
qed



lemma is_outstanding_spec:
  assumes "benchmarker_ok cid b" "readable cid value"
  shows "client_benchmarker_is_outstanding b value =
    Some (value_client_id value = Some cid \<and> u32_at value 1 \<in> outstanding_uids b)"
proof (cases "value_client_id value = Some cid")
  case True
  have "kh_roomy (cb_value_and_submission_times b)" "cb_client_id b = cid" using assms(1) by (simp_all add: benchmarker_ok_def)
  then show ?thesis
    using True readable_fields(2) [OF assms(2) True]
    by (cases rule: kh_get_cases [of "cb_value_and_submission_times b" "u32_at value 1"])
      (auto simp: client_benchmarker_is_outstanding_def outstanding_uids_def)
next
  case False
  then show ?thesis
    using assms readable_fields(1) [OF assms(2)] by (auto simp: client_benchmarker_is_outstanding_def benchmarker_ok_def)
qed

lemma close_value_spec:
  assumes "benchmarker_ok cid b" "world_ok k w" "readable cid value" "value_client_id value = Some cid" "u32_at value 1 \<in> outstanding_uids b"
  obtains b' w' where "client_benchmarker_close_value_and_update_stats w b value = Some (True, b', w')" "benchmarker_ok cid b'" "world_ok k w'"
    "outstanding_uids b' = outstanding_uids b - {u32_at value 1}"
proof -
  let ?t = "cb_value_and_submission_times b" and ?uid = "u32_at value 1"
  have ok: "kh_roomy ?t" "kh_inv ?t" "cb_client_id b = cid" "recorder_ok (cb_latency_recorder b)"
    using assms(1) by (simp_all add: benchmarker_ok_def kh_roomy_def)
  note uid = readable_fields(2) [OF assms(3,4)] and sz = readable_fields(3) [OF assms(3,4)]
  obtain time where time: "kh_map ?t ?uid = Some time" using assms(5) by (auto simp: outstanding_uids_def)
  then obtain x where x: "kh_get ?t ?uid = Some x" "x \<in> kh_live ?t" "kh_key ?t x = ?uid" "kh_value ?t x = time"
    using kh_get_spec [OF ok(2), of ?uid] by auto
  have live: "x \<noteq> kh_n_buckets ?t" "kh_exist ?t x" using kh_live_exists [OF x(2)] by simp_all
  let ?lat = "timeval_diff_in_microseconds (w_clock w 0) time"
  obtain r w' where rec: "latency_recorder_record (clock_read w) (cb_latency_recorder b) (?lat mod 2 ^ 64) = Some (r, w')" "recorder_ok r"
    "w_mem w' = w_mem (clock_read w)" "w_rands w' = w_rands (clock_read w)"
    using record_ok [OF ok(4)] .
  have found: "client_benchmarker_get_submission_time b value = Some (True, time)"
    using uid assms(4) x(1,4) live ok(3) by (simp add: client_benchmarker_get_submission_time_def)
  let ?b = "b\<lparr>cb_stats := update_stats (cb_stats b) (u32_at value 2) ?lat, cb_latency_recorder := r,
    cb_value_and_submission_times := kh_del ?t x, cb_num_outstanding := cb_num_outstanding b - 1\<rparr>"
  have "client_benchmarker_close_value_and_update_stats w b value = Some (True, ?b, w')"
    using found uid sz rec(1) x(1) live(1)
    by (simp add: client_benchmarker_close_value_and_update_stats_def client_benchmarker_close_value_def Let_def)
  moreover have uids: "outstanding_uids ?b = outstanding_uids b - {?uid}"
    using kh_del_spec [OF ok(2) x(2)] x(3) by (auto simp: outstanding_uids_def)
  moreover have "benchmarker_ok cid ?b"
  proof -
    have "kh_roomy (kh_del ?t x)" using kh_del_spec(1) [OF ok(2) x(2)] kh_del_live [OF ok(2) x(2)] ok(1) by (simp add: kh_roomy_def)
    moreover have "0 < card (outstanding_uids b)" using assms(5) by (auto simp: card_gt_0_iff)
    ultimately show ?thesis
      using assms(1,5) rec(2) uids unfolding benchmarker_ok_def by (simp add: card_Diff_singleton of_nat_diff)
  qed
  moreover have "world_ok k w'" using world_ok_used(1) [OF assms(2)] rec(3,4) by (simp add: world_ok_def)
  ultimately show thesis using that by blast
qed

lemma synced_delivery:
  assumes "client_has k c" "world_ok k w" "k \<le> 2 ^ 28" "cl_synced c = Some True" "readable (cl_id c) value"
    and "strncmp_eq value NOP_dot (length value) = Some False"
  shows "if value_client_id value = Some (cl_id c) \<and> u32_at value 1 \<in> client_uids c
    then \<exists>c' w' v. client_deliver k w c value = Some (c', w', [client_value_bytes v]) \<and> client_has k c' \<and> world_ok k w'
      \<and> cl_synced c' = Some True \<and> cl_id c' = cl_id c \<and> cv_client_id v = cl_id c \<and> length (client_value_bytes v) = 12 + unat (cl_value_size c)
      \<and> cv_uid v \<notin> client_uids c - {u32_at value 1} \<and> client_uids c' = insert (cv_uid v) (client_uids c - {u32_at value 1})
    else client_deliver k w c value = Some (c, w, [])"
proof -
  obtain b where b: "cl_benchmarker c = Some b" "benchmarker_ok (cl_id c) b" "card (outstanding_uids b) = k"
    using assms(1) by (auto simp: client_has_def)
  note out = is_outstanding_spec [OF b(2) assms(5)]
  have deliver: "client_deliver k w c value =
    (if value_client_id value = Some (cl_id c) \<and> u32_at value 1 \<in> outstanding_uids b
     then Option.bind (client_benchmarker_close_value_and_update_stats w b value) (\<lambda>(_, b, w). client_submit_value w (c\<lparr>cl_benchmarker := Some b\<rparr>))
     else Some (c, w, []))"
    using assms(4,6) b(1) out by (simp add: client_deliver_def)
  show ?thesis
  proof (cases "value_client_id value = Some (cl_id c) \<and> u32_at value 1 \<in> outstanding_uids b")
    case True
    then obtain b' w1 where close: "client_benchmarker_close_value_and_update_stats w b value = Some (True, b', w1)" "benchmarker_ok (cl_id c) b'"
      "world_ok k w1" "outstanding_uids b' = outstanding_uids b - {u32_at value 1}"
      using close_value_spec [OF b(2) assms(2,5)] by metis
    let ?c = "c\<lparr>cl_benchmarker := Some b'\<rparr>"
    have pos: "0 < k" using True b(3) by (auto simp: card_gt_0_iff)
    have "card (outstanding_uids b') = k - 1" using close(4) True b(3) by simp
    then have has: "client_has (k - 1) ?c" using assms(1) close(2) by (simp add: client_has_def)
    have uids: "client_uids ?c = client_uids c - {u32_at value 1}" using close(4) b(1) by (simp add: client_uids_def)
    obtain c' w' v where sub: "client_submit_value w1 ?c = Some (c', w', [client_value_bytes v])" "client_has (Suc (k - 1)) c'" "world_ok k w'"
      "cl_synced c' = cl_synced ?c" "cl_id c' = cl_id ?c" "cv_client_id v = cl_id ?c" "cv_size v = cl_value_size ?c"
      "length (cv_value v) = unat (cl_value_size ?c)"
      "cv_uid v \<notin> client_uids ?c" "client_uids c' = insert (cv_uid v) (client_uids ?c)"
      using client_submit_value_spec [OF has close(3) _ assms(3)] pos by (metis diff_less zero_less_one)
    have len: "length (client_value_bytes v) = 12 + unat (cl_value_size c)" using sub(8) by (simp add: client_value_bytes_def)
    have "client_deliver k w c value = Some (c', w', [client_value_bytes v])" unfolding deliver using True close(1) sub(1) by simp
    then show ?thesis
      using True sub pos assms(4) b(1) len unfolding uids by (auto simp: client_uids_def)
  next
    case False
    then show ?thesis using deliver b(1) by (auto simp: client_uids_def)
  qed
qed

text \<open>
  What a synchronised client does with a delivered value that is long enough to be one of its own.
  If the value is its own and outstanding, it is no longer outstanding and exactly one new value is
  submitted, with an identifier that no outstanding value has; any other value changes nothing.
\<close>

theorem delivery_replaces_outstanding_value:
  assumes "client_has k c" "world_ok k w" "k \<le> 2 ^ 28" "cl_synced c = Some True" "readable (cl_id c) value"
    and "strncmp_eq value NOP_dot (length value) = Some False"
  shows "if value_client_id value = Some (cl_id c) \<and> u32_at value 1 \<in> client_uids c
    then \<exists>c' w' v. client_deliver k w c value = Some (c', w', [client_value_bytes v]) \<and> client_has k c' \<and> world_ok k w'
      \<and> cl_synced c' = Some True \<and> cl_id c' = cl_id c \<and> cv_client_id v = cl_id c \<and> length (client_value_bytes v) = 12 + unat (cl_value_size c)
      \<and> cv_uid v \<notin> client_uids c - {u32_at value 1} \<and> client_uids c' = insert (cv_uid v) (client_uids c - {u32_at value 1})
    else client_deliver k w c value = Some (c, w, [])"
  using assms by (rule synced_delivery)





lemma make_client_has:
  assumes "make_client w True garbage word outstanding value_size settle latencies = (c, w')" "5 \<le> unat value_size" "unat value_size < 2 ^ 31" "world_ok k w"
  shows "client_has 0 c" "world_ok k w'" "cl_id c = w_rands w 0"
  using assms
  by (auto simp: make_client_def client_benchmarker_new_def latency_recorder_new_def client_has_def benchmarker_ok_def outstanding_uids_def
      recorder_ok_def Let_def)

text \<open>A value that is shorter than the client identifier, sent by any other program, makes the handler read past its end.\<close>

lemma short_delivery_undefined:
  assumes "length value < 4" "strncmp_eq value NOP_dot (length value) = Some False" "cl_synced c = Some False"
  shows "client_deliver k w c value = None"
  using assms by (simp add: client_deliver_def is_own_sync_def value_client_id_def field_of_value_def)


text \<open>A random number generator that counts, a clock that ticks and enough memory.\<close>

definition counting_world :: world where
  "counting_world = \<lparr>w_rands = of_nat, w_clock = \<lambda>n. \<lparr>tv_sec = int n, tv_usec = 0\<rparr>, w_mem = \<lambda>_. enough (\<lambda>_. 5) (\<lambda>_. \<lparr>tv_sec = 0, tv_usec = 0\<rparr>)\<rparr>"

lemma counting_world_ok:
  assumes "k \<le> 2 ^ 32"
  shows "world_ok k counting_world"
proof -
  have "\<exists>m \<ge> n. (of_nat m :: u32) \<notin> S" if "card S < k" for S n
  proof -
    have "S \<noteq> UNIV" using that assms by (auto simp: card_u32)
    then obtain x where x: "x \<notin> S" by blast
    have "(of_nat (unat x + n * 2 ^ 32) :: u32) = x"
    proof -
      have "(4294967296 :: u32) = 0" by (rule word_uint_eqI) simp
      then have "(of_nat n :: u32) * 4294967296 = 0" by (simp only: mult_zero_right)
      then show ?thesis by simp
    qed
    moreover have "n \<le> unat x + n * 2 ^ 32" by simp
    ultimately show ?thesis using x by metis
  qed
  then show ?thesis by (simp add: world_ok_def counting_world_def)
qed


lemma client_value_bytes_first:
  "cv_client_id v = 0 \<Longrightarrow> strncmp_eq (client_value_bytes v) NOP_dot (length (client_value_bytes v)) = Some False"
  by (simp add: client_value_bytes_def words_to_bytes_def u32_to_bytes_def NOP_dot_def)

theorem delivery_replaces_outstanding_value_witness:
  "\<exists>c w v c' w' v'. client_has 1 c \<and> client_uids c = {cv_uid v} \<and> client_deliver 1 w c (client_value_bytes v) = Some (c', w', [client_value_bytes v'])
     \<and> client_uids c' = {cv_uid v'}"
proof -
  obtain c w where make: "make_client counting_world True [] 0 1 64 10 100 = (c, w)" by fastforce
  note start = make_client_has [OF make _ _ counting_world_ok [of 1]]
  let ?c = "c\<lparr>cl_synced := Some True\<rparr>"
  have c: "client_has 0 ?c" "world_ok 1 w" "client_uids ?c = {}" "cl_id ?c = 0" "cl_value_size ?c = 64"
    using start make by (auto simp: client_has_def client_uids_def counting_world_def make_client_def client_benchmarker_new_def latency_recorder_new_def Let_def)
  obtain c1 w1 v where sub: "client_submit_value w ?c = Some (c1, w1, [client_value_bytes v])" "client_has (Suc 0) c1" "world_ok 1 w1"
    "cl_synced c1 = cl_synced ?c" "cl_id c1 = cl_id ?c" "cv_client_id v = cl_id ?c" "cv_size v = cl_value_size ?c"
    "length (cv_value v) = unat (cl_value_size ?c)" "cv_uid v \<notin> client_uids ?c" "client_uids c1 = insert (cv_uid v) (client_uids ?c)"
    using client_submit_value_spec [OF c(1,2)] by (metis one_le_numeral one_le_power zero_less_one)
  have len: "length (client_value_bytes v) = 76" using sub(8) c(5) by (simp add: client_value_bytes_def)
  have uid: "value_client_id (client_value_bytes v) = Some 0" "u32_at (client_value_bytes v) 1 = cv_uid v"
    using client_value_fields(1) [of v "[]"] u32_at_words [of 1 "[cv_client_id v, cv_uid v, cv_size v]" "cv_value v"] sub(6) c(4)
    by (simp_all add: client_value_bytes_def)
  have "client_has 1 c1" "cl_synced c1 = Some True" "readable (cl_id c1) (client_value_bytes v)"
    "strncmp_eq (client_value_bytes v) NOP_dot (length (client_value_bytes v)) = Some False" "(1 :: nat) \<le> 2 ^ 28"
    using sub(2,4,6) c(4) len client_value_bytes_first [of v] by (simp_all add: readable_def)
  then show ?thesis
    using delivery_replaces_outstanding_value [of 1 c1 w1 "client_value_bytes v"] sub(3,5,10) c(3,4) uid by fastforce
qed

text \<open>
  The clients do not recognise the value that fills holes: the proposers' \<open>NOP\<close> has no dot.  A client that waits for
  its \<open>SYNC\<close> answers each one with another \<open>SYNC\<close>.
\<close>

lemma nop_not_recognised:
  "strncmp_eq NOP NOP_dot (length NOP) = Some False"
  "cl_synced c = Some False \<Longrightarrow> cl_id c \<noteq> 0x504F4E \<Longrightarrow>
     client_deliver k w c NOP = map_option (\<lambda>(c, out). (c, w, out)) (client_submit_sync c)"
proof -
  show nop: "strncmp_eq NOP NOP_dot (length NOP) = Some False" by code_simp
  have "value_client_id NOP = Some 0x504F4E" by code_simp
  then show "cl_synced c = Some False \<Longrightarrow> cl_id c \<noteq> 0x504F4E \<Longrightarrow>
      client_deliver k w c NOP = map_option (\<lambda>(c, out). (c, w, out)) (client_submit_sync c)"
    using nop by (auto simp: client_deliver_def is_own_sync_def)
qed

end
