(* ===== verification/Sample_Programs.thy ===== *)
theory Sample_Programs
  imports Benchmark_Client Config
begin

text \<open>
  What the programs of \<open>src/sample\<close> do beyond starting a process and its event loop: how they read their
  arguments, and \<open>src/sample/counter.c\<close>, a replicated counter that checkpoints its state and has the
  acceptors trim what every replica has checkpointed.  \<open>None\<close> is undefined behaviour.
\<close>

section \<open>Arguments\<close>

definition atoi :: "string \<Rightarrow> int" where
  "atoi s = (case strtol s of None \<Rightarrow> 0 | Some (n, _) \<Rightarrow> long_to_int n)"

record client_args =
  ca_config :: string
  ca_proposer_id :: int
  ca_outstanding :: int
  ca_value_size :: int
  ca_latency_record_path :: string

text \<open>A program runs, prints its usage and ends, or reads beyond its arguments.\<close>

datatype 'a arguments = Run 'a | Usage | Beyond_Arguments

text \<open>The loop over the options; one that takes a value consumes the next argument without asking whether there is one.\<close>

fun client_options :: "client_args \<Rightarrow> string list \<Rightarrow> client_args arguments" where
  "client_options a [] = Run a"
| "client_options a [opt] =
     (if opt = ''-h'' \<or> opt = ''--help'' then Usage
      else if opt \<in> set [''-o'', ''--max_outstanding'', ''-v'', ''--value-size'', ''-p'', ''--proposer-id'', ''-lop'', ''--latency-output-path'']
      then Beyond_Arguments else Usage)"
| "client_options a (opt # x # rest) =
     (if opt = ''-h'' \<or> opt = ''--help'' then Usage
      else if opt = ''-o'' \<or> opt = ''--max_outstanding'' then client_options (a\<lparr>ca_outstanding := atoi x\<rparr>) rest
      else if opt = ''-v'' \<or> opt = ''--value-size'' then client_options (a\<lparr>ca_value_size := atoi x\<rparr>) rest
      else if opt = ''-p'' \<or> opt = ''--proposer-id'' then client_options (a\<lparr>ca_proposer_id := atoi x\<rparr>) rest
      else if opt = ''-lop'' \<or> opt = ''--latency-output-path'' then client_options (a\<lparr>ca_latency_record_path := x\<rparr>) rest
      else Usage)"

definition default_client_args :: client_args where
  "default_client_args =
     \<lparr>ca_config = ''../paxos.conf'', ca_proposer_id = 0, ca_outstanding = 1, ca_value_size = 64,
      ca_latency_record_path = ''./latencies_recorded.txt''\<rparr>"

definition client_main_args :: "string list \<Rightarrow> client_args arguments" where
  "client_main_args args =
     (case args of
        [] \<Rightarrow> Run default_client_args
      | a # rest \<Rightarrow> if take 1 a \<noteq> ''-'' then client_options (default_client_args\<lparr>ca_config := a\<rparr>) rest
                    else client_options default_client_args args)"

text \<open>The proposers, the acceptors and the counter: an identifier and perhaps a configuration.\<close>

definition server_main_args :: "string list \<Rightarrow> (int \<times> string) arguments" where
  "server_main_args args =
     (case args of [i] \<Rightarrow> Run (atoi i, ''../paxos.conf'') | [i, config] \<Rightarrow> Run (atoi i, config) | _ \<Rightarrow> Usage)"

section \<open>The counter\<close>

record trim_info =
  ti_count :: int
  ti_last_trim :: int
  ti_instances :: "int list"

record counter_replica =
  cr_id :: int
  cr_count :: int
  cr_instance_id :: u32
  cr_trim :: trim_info

datatype counter_output = Send_Trim int | Write_State string | Submit string

definition sscanf_two :: "string \<Rightarrow> (int \<times> int) option" where
  "sscanf_two s =
     Option.bind (strtol s) (\<lambda>(a, s). map_option (\<lambda>(b, s). (long_to_int a, long_to_int b)) (strtol s))"

text \<open>\<open>fscanf\<close> reads the fields in turn and leaves alone those it does not get to.\<close>

definition init_state :: "string option \<Rightarrow> counter_replica \<Rightarrow> counter_replica" where
  "init_state f r =
     (let r = r\<lparr>cr_count := 0, cr_instance_id := 0\<rparr> in
      case f of None \<Rightarrow> r
      | Some s \<Rightarrow> (case strtol s of None \<Rightarrow> r
          | Some (a, s) \<Rightarrow> (case strtol s of None \<Rightarrow> r\<lparr>cr_count := long_to_int a\<rparr>
              | Some (b, s) \<Rightarrow> r\<lparr>cr_count := long_to_int a, cr_instance_id := word_of_int (long_to_int b)\<rparr>)))"

definition checkpoint_state :: "counter_replica \<Rightarrow> string" where
  "checkpoint_state r = show_int (cr_count r) @ [CHR 0x20] @ show_int (sint (cr_instance_id r))"

definition update_state :: "counter_replica \<Rightarrow> u32 \<Rightarrow> counter_replica" where
  "update_state r iid = r\<lparr>cr_count := cr_count r + 1, cr_instance_id := iid\<rparr>"

text \<open>The minimum starts from what replica 0 had announced before the update.\<close>

definition update_trim_info :: "counter_replica \<Rightarrow> int \<Rightarrow> int \<Rightarrow> (counter_replica \<times> counter_output list) option" where
  "update_trim_info r replica_id trim_id =
     (let t = cr_trim r in
      if replica_id < 0 \<or> length (ti_instances t) \<le> nat replica_id then None
      else if trim_id \<le> ti_instances t ! nat replica_id then Some (r, [])
      else let instances = (ti_instances t)[nat replica_id := trim_id] in
        if length instances < nat (ti_count t) then None
        else let m = foldl (\<lambda>m i. if instances ! i < m then instances ! i else m) (ti_instances t ! 0) [0..<nat (ti_count t)];
                 r = r\<lparr>cr_trim := t\<lparr>ti_instances := instances\<rparr>\<rparr>
             in if m > ti_last_trim t
                then Some (r\<lparr>cr_trim := (cr_trim r)\<lparr>ti_last_trim := m\<rparr>\<rparr>, [Send_Trim m])
                else Some (r, []))"

definition trim_text :: "int \<Rightarrow> int \<Rightarrow> string" where
  "trim_text replica_id trim_id = ''TRIM '' @ show_int replica_id @ [CHR 0x20] @ show_int trim_id"

definition submit_trim :: "counter_replica \<Rightarrow> counter_output" where
  "submit_trim r = Submit (trim_text (cr_id r) (sint (cr_instance_id r)))"

definition sscanf_trim :: "string \<Rightarrow> (int \<times> int) option" where
  "sscanf_trim s = (if take 4 s = ''TRIM'' then sscanf_two (drop 4 s) else None)"

definition counter_on_deliver :: "u32 \<Rightarrow> string \<Rightarrow> counter_replica \<Rightarrow> (counter_replica \<times> counter_output list) option" where
  "counter_on_deliver iid v r =
     map_option (\<lambda>(r, out). if iid mod 100 = 0 then (r, out @ [Write_State (checkpoint_state r), submit_trim r]) else (r, out))
       (case sscanf_trim v of
          Some (replica_id, trim_id) \<Rightarrow> update_trim_info r replica_id trim_id
        | None \<Rightarrow> Some (update_state r iid, []))"

definition counter_on_client_value :: counter_output where
  "counter_on_client_value = Submit ''COUNT''"

definition start_counter_replica :: "int \<Rightarrow> string option \<Rightarrow> int \<Rightarrow> counter_replica" where
  "start_counter_replica i f replica_count =
     (init_state f \<lparr>cr_id = i, cr_count = 0, cr_instance_id = 0,
        cr_trim = \<lparr>ti_count = 0, ti_last_trim = 0, ti_instances = replicate 16 0\<rparr>\<rparr>)
       \<lparr>cr_trim := \<lparr>ti_count = replica_count, ti_last_trim = 0, ti_instances = replicate 16 0\<rparr>\<rparr>"

fun counter_run :: "(u32 \<times> string) list \<Rightarrow> counter_replica \<Rightarrow> (counter_replica \<times> counter_output list) option" where
  "counter_run [] r = Some (r, [])"
| "counter_run ((iid, v) # vs) r =
     Option.bind (counter_on_deliver iid v r) (\<lambda>(r, out). map_option (\<lambda>(r, rest). (r, out @ rest)) (counter_run vs r))"

section \<open>Checkpoints and announcements can be read back\<close>

definition is_int :: "int \<Rightarrow> bool" where
  "is_int z \<longleftrightarrow> - (2 ^ 31) \<le> z \<and> z < 2 ^ 31"

lemma long_to_int_is_int: "is_int z \<Longrightarrow> long_to_int z = z"
  by (simp add: is_int_def long_to_int_def signed_take_bit_int_eq_self sint_sbintrunc')

lemma is_int_sint [simp]: "is_int (sint (x :: u32))"
  using sint_ge [of x] sint_lt [of x] by (simp add: is_int_def)

lemma strtol_show:
  assumes "is_int z" "rest \<noteq> '''' \<longrightarrow> \<not> isdigit (hd rest)" "list_all isspace ws"
  shows "strtol (ws @ show_int z @ rest) = Some (z, rest)"
  using scan_number_show [OF assms(2,3), of z] assms(1) by (simp add: strtol_def is_int_def LONG_MIN_def LONG_MAX_def)

lemma strtol_two:
  assumes "is_int a" "is_int b" "list_all isspace ws"
  shows "strtol (ws @ show_int a @ CHR 0x20 # show_int b) = Some (a, CHR 0x20 # show_int b)" "strtol (CHR 0x20 # show_int b) = Some (b, '''')"
  using strtol_show [OF assms(1) _ assms(3), of "CHR 0x20 # show_int b"] strtol_show [OF assms(2), of "''''" "[CHR 0x20]"]
  by (simp_all add: isdigit_def isspace_def)

lemma sscanf_trim_text: "is_int i \<Longrightarrow> is_int t \<Longrightarrow> sscanf_trim (trim_text i t) = Some (i, t)"
  using strtol_two [of i t "[CHR 0x20]"]
  by (simp add: sscanf_trim_def sscanf_two_def trim_text_def long_to_int_is_int isspace_def)

text \<open>
  The counter recovers from its checkpoint: a replica that starts from the state a replica wrote continues with
  its count and its instance, and what a replica announces when it submits a trim is read as its own number and
  this instance by every replica to which the announcement is delivered.
\<close>

theorem counter_checkpoint_roundtrip:
  assumes "is_int (cr_count r)" "is_int (cr_id r)"
  shows "(let s = start_counter_replica i (Some (checkpoint_state r)) n in cr_count s = cr_count r \<and> cr_instance_id s = cr_instance_id r)
    \<and> (\<exists>v. submit_trim r = Submit v \<and> sscanf_trim v = Some (cr_id r, sint (cr_instance_id r)))"
proof
  have "word_of_int (sint (cr_instance_id r)) = cr_instance_id r" by simp
  then show "let s = start_counter_replica i (Some (checkpoint_state r)) n in cr_count s = cr_count r \<and> cr_instance_id s = cr_instance_id r"
    using strtol_two [of "cr_count r" "sint (cr_instance_id r)" "''''"] assms(1)
    by (simp add: start_counter_replica_def init_state_def checkpoint_state_def long_to_int_is_int Let_def)
  show "\<exists>v. submit_trim r = Submit v \<and> sscanf_trim v = Some (cr_id r, sint (cr_instance_id r))"
    using sscanf_trim_text assms(2) by (simp add: submit_trim_def)
qed

theorem counter_checkpoint_roundtrip_witness:
  "let r = \<lparr>cr_id = 2, cr_count = 541, cr_instance_id = 600, cr_trim = \<lparr>ti_count = 3, ti_last_trim = 0, ti_instances = []\<rparr>\<rparr>;
       s = start_counter_replica 2 (Some (checkpoint_state r)) 3
   in cr_count s = 541 \<and> cr_instance_id s = 600 \<and> (\<exists>v. submit_trim r = Submit v \<and> sscanf_trim v = Some (2, 600))"
  using counter_checkpoint_roundtrip [of
      "\<lparr>cr_id = 2, cr_count = 541, cr_instance_id = 600, cr_trim = \<lparr>ti_count = 3, ti_last_trim = 0, ti_instances = []\<rparr>\<rparr>" 2 3]
  by (simp add: is_int_def Let_def)

section \<open>Only what every replica has checkpointed is trimmed\<close>

definition announced :: "(u32 \<times> string) list \<Rightarrow> nat \<Rightarrow> int \<Rightarrow> bool" where
  "announced vs i t \<longleftrightarrow> (\<exists>v \<in> snd ` set vs. sscanf_trim v = Some (int i, t))"

definition trim_inv :: "(u32 \<times> string) list \<Rightarrow> counter_replica \<Rightarrow> bool" where
  "trim_inv vs r \<longleftrightarrow> (let t = cr_trim r in
     nat (ti_count t) \<le> length (ti_instances t) \<and> length (ti_instances t) = 16 \<and> 0 \<le> ti_last_trim t
     \<and> (\<forall>i < 16. ti_instances t ! i = 0 \<or> announced vs i (ti_instances t ! i))
     \<and> (\<forall>i < nat (ti_count t). ti_last_trim t \<le> ti_instances t ! i))"

lemma announced_more: "announced vs i t \<Longrightarrow> announced (vs @ ws) i t"
  by (auto simp: announced_def)

lemma foldl_min_le:
  "foldl (\<lambda>m i. if f i < m then f i else m) (z :: int) is \<le> z \<and> (\<forall>i \<in> set is. foldl (\<lambda>m i. if f i < m then f i else m) z is \<le> f i)"
proof (induction "is" arbitrary: z)
  case (Cons i "is")
  let ?z = "if f i < z then f i else z"
  show ?case using Cons.IH [of ?z] by (auto split: if_splits)
qed simp

lemma update_trim_info_inv:
  assumes "trim_inv vs r" "update_trim_info r i t = Some (r', out)" "announced ws (nat i) t"
  shows "trim_inv (vs @ ws) r' \<and> ti_count (cr_trim r') = ti_count (cr_trim r) \<and> ti_last_trim (cr_trim r) \<le> ti_last_trim (cr_trim r')
    \<and> (\<forall>m. Send_Trim m \<in> set out \<longrightarrow> 0 < m \<and> m \<le> ti_last_trim (cr_trim r'))"
proof -
  let ?t = "cr_trim r" and ?i = "nat i"
  let ?xs = "(ti_instances ?t)[?i := t]"
  let ?m = "foldl (\<lambda>m i. if ?xs ! i < m then ?xs ! i else m) (ti_instances ?t ! 0) [0..<nat (ti_count ?t)]"
  have inv: "nat (ti_count ?t) \<le> 16" "length (ti_instances ?t) = 16" "0 \<le> ti_last_trim ?t"
    "\<And>j. j < 16 \<Longrightarrow> ti_instances ?t ! j = 0 \<or> announced (vs @ ws) j (ti_instances ?t ! j)"
    "\<And>j. j < nat (ti_count ?t) \<Longrightarrow> ti_last_trim ?t \<le> ti_instances ?t ! j"
    using assms(1) announced_more by (auto simp: trim_inv_def Let_def)
  have ann: "announced (vs @ ws) ?i t" using assms(3) unfolding announced_def set_append image_Un by blast
  show ?thesis
  proof (cases "t \<le> ti_instances ?t ! ?i")
    case True
    then have "r' = r" "out = []" using assms(2) by (auto simp: update_trim_info_def Let_def split: if_splits)
    then show ?thesis using inv by (auto simp: trim_inv_def Let_def)
  next
    case False
    have m: "\<And>j. j < nat (ti_count ?t) \<Longrightarrow> ?m \<le> ?xs ! j" using foldl_min_le [of "\<lambda>i. ?xs ! i" "ti_instances ?t ! 0" "[0..<nat (ti_count ?t)]"] by simp
    have xs: "?xs ! j = (if j = ?i then t else ti_instances ?t ! j)" if "j < 16" for j using that inv(2) by (simp add: nth_list_update)
    have last: "ti_last_trim ?t \<le> ?xs ! j" if "j < nat (ti_count ?t)" for j
      using that inv(1) inv(5) [OF that] False by (auto simp: xs)
    have all: "?xs ! j = 0 \<or> announced (vs @ ws) j (?xs ! j)" if "j < 16" for j using that inv(4) ann by (auto simp: xs)
    show ?thesis
    proof (cases "?m > ti_last_trim ?t")
      case True
      then have "r' = r\<lparr>cr_trim := ?t\<lparr>ti_instances := ?xs, ti_last_trim := ?m\<rparr>\<rparr>" "out = [Send_Trim ?m]"
        using assms(2) False by (auto simp: update_trim_info_def Let_def split: if_splits)
      then show ?thesis using inv True m all by (simp add: trim_inv_def Let_def)
    next
      case small: False
      then have "r' = r\<lparr>cr_trim := ?t\<lparr>ti_instances := ?xs\<rparr>\<rparr>" "out = []"
        using assms(2) False by (auto simp: update_trim_info_def Let_def split: if_splits)
      then show ?thesis using inv last all by (simp add: trim_inv_def Let_def)
    qed
  qed
qed

lemma counter_on_deliver_inv:
  assumes "trim_inv vs r" "counter_on_deliver iid v r = Some (r', out)"
  shows "trim_inv (vs @ [(iid, v)]) r' \<and> ti_count (cr_trim r') = ti_count (cr_trim r) \<and> ti_last_trim (cr_trim r) \<le> ti_last_trim (cr_trim r')
    \<and> (\<forall>m. Send_Trim m \<in> set out \<longrightarrow> 0 < m \<and> m \<le> ti_last_trim (cr_trim r'))"
proof (cases "sscanf_trim v")
  case None
  have "trim_inv (vs @ [(iid, v)]) r" using assms(1) announced_more by (auto simp: trim_inv_def Let_def)
  then show ?thesis
    using None assms(2) by (auto simp: counter_on_deliver_def update_state_def trim_inv_def Let_def submit_trim_def split: if_splits)
next
  case (Some it)
  obtain i t where it: "it = (i, t)" by fastforce
  then obtain out1 where upd: "update_trim_info r i t = Some (r', out1)" "\<forall>m. Send_Trim m \<in> set out \<longrightarrow> Send_Trim m \<in> set out1"
    using Some assms(2) by (auto simp: counter_on_deliver_def submit_trim_def split: if_splits)
  then have "0 \<le> i" by (auto simp: update_trim_info_def Let_def split: if_splits)
  then have "announced [(iid, v)] (nat i) t" using Some it by (simp add: announced_def)
  from update_trim_info_inv [OF assms(1) upd(1) this] upd(2) show ?thesis by blast
qed

lemma counter_run_inv:
  assumes "trim_inv us r" "counter_run vs r = Some (r', out)"
  shows "trim_inv (us @ vs) r' \<and> ti_count (cr_trim r') = ti_count (cr_trim r) \<and> ti_last_trim (cr_trim r) \<le> ti_last_trim (cr_trim r')
    \<and> (\<forall>m. Send_Trim m \<in> set out \<longrightarrow> 0 < m \<and> m \<le> ti_last_trim (cr_trim r'))"
  using assms
proof (induction vs arbitrary: us r out)
  case (Cons x vs)
  obtain iid v where x: "x = (iid, v)" by fastforce
  obtain r1 out1 out2 where s: "counter_on_deliver iid v r = Some (r1, out1)" "counter_run vs r1 = Some (r', out2)" "out = out1 @ out2"
    using Cons.prems(2) by (auto simp: x bind_eq_Some_conv)
  from counter_on_deliver_inv [OF Cons.prems(1) s(1)] Cons.IH [OF _ s(2), of "us @ [(iid, v)]"] s(3) x show ?case by fastforce
qed simp

text \<open>
  C25: A counter replica asks the acceptors to forget an instance only when every replica has announced a checkpoint
  that covers it, whatever is delivered to it and in whatever order.
\<close>

theorem counter_trims_only_checkpointed:
  assumes "counter_run vs (start_counter_replica i f n) = Some (r, out)" "n \<le> 16" "Send_Trim t \<in> set out" "j < nat n"
  shows "\<exists>t' \<ge> t. announced vs j t'"
proof -
  let ?r = "start_counter_replica i f n"
  have "trim_inv [] ?r" "ti_count (cr_trim ?r) = n" using assms(2) by (auto simp: trim_inv_def start_counter_replica_def Let_def)
  from counter_run_inv [OF this(1) assms(1)] this(2) have
    "trim_inv vs r" "0 < t" "t \<le> ti_last_trim (cr_trim r)" "ti_count (cr_trim r) = n" using assms(3) by auto
  then show ?thesis using assms(2,4) unfolding trim_inv_def Let_def
    by (metis le_less_trans less_le_not_le nat_le_iff of_nat_numeral order.strict_trans2 order.trans)
qed

theorem counter_trims_only_checkpointed_witness:
  "\<exists>r out. counter_run [(101, ''TRIM 0 300''), (102, ''COUNT''), (103, ''TRIM 1 200''), (104, ''TRIM 2 400'')]
      (start_counter_replica 1 None 3) = Some (r, out) \<and> Send_Trim 200 \<in> set out
    \<and> (\<exists>t' \<ge> 200. announced [(101, ''TRIM 0 300''), (102, ''COUNT''), (103, ''TRIM 1 200''), (104, ''TRIM 2 400'')] 2 t')"
proof -
  let ?vs = "[(101, ''TRIM 0 300''), (102, ''COUNT''), (103, ''TRIM 1 200''), (104, ''TRIM 2 400'')] :: (u32 \<times> string) list"
  have "map_option snd (counter_run ?vs (start_counter_replica 1 None 3)) = Some [Send_Trim 200]" by code_simp
  then obtain r where run: "counter_run ?vs (start_counter_replica 1 None 3) = Some (r, [Send_Trim 200])" by auto
  with counter_trims_only_checkpointed [OF run, of 200 2] show ?thesis by auto
qed

text \<open>
  When replica 0 is the last to announce, its old value stands in for the new one and nothing is
  trimmed until somebody announces again.
\<close>

lemma last_announcement_of_replica_0_ignored:
  "map_option snd (counter_run [(101, ''TRIM 1 200''), (102, ''TRIM 0 300'')] (start_counter_replica 1 None 2)) = Some []"
  "map_option snd (counter_run [(101, ''TRIM 0 300''), (102, ''TRIM 1 200'')] (start_counter_replica 1 None 2)) = Some [Send_Trim 200]"
  by code_simp+

text \<open>Announcements are trusted: a replica number outside the array is written all the same.\<close>

lemma foreign_announcement_undefined: "counter_on_deliver 1 ''TRIM 16 5'' (start_counter_replica 0 None 3) = None"
  by code_simp

end
