(* ===== verification/Connections.thy ===== *)
theory Connections
  imports Peers
begin

text \<open>
  The life of a connection in \<open>src/evpaxos/standard_paxos_peers.c\<close> and
  \<open>src/evpaxos/writeahead_epoch_paxos_peers.c\<close>, which are the same up to names: connecting to a peer,
  what the events of its buffer do, and connecting again after two seconds.  Of libevent, the model has whether a buffer has been told to connect and
  whether a timer is set; when events and time-outs come, and whether an attempt to connect can be
  started at all, is up to the surroundings.
\<close>

unbundle bit_operations_syntax

section \<open>State\<close>

definition BEV_EVENT_EOF :: "16 word" where "BEV_EVENT_EOF = 0x10"
definition BEV_EVENT_ERROR :: "16 word" where "BEV_EVENT_ERROR = 0x20"
definition BEV_EVENT_CONNECTED :: "16 word" where "BEV_EVENT_CONNECTED = 0x80"

datatype buffer_state = New_Buffer | Attempting
datatype timer_state = No_Timer | Timer_Idle | Timer_Set

record 'a connection =
  con_id :: int
  con_status :: "16 word"
  con_bev :: buffer_state
  con_reconnect_ev :: timer_state
  con_addr :: 'a

definition new_connection :: "int \<Rightarrow> 'a \<Rightarrow> 'a connection" where
  "new_connection i addr =
     \<lparr>con_id = i, con_status = BEV_EVENT_EOF, con_bev = New_Buffer, con_reconnect_ev = No_Timer, con_addr = addr\<rparr>"

text \<open>The result of \<open>bufferevent_socket_connect\<close> is not looked at: \<open>launched\<close> says whether an attempt is under way.\<close>

definition connect_peer :: "bool \<Rightarrow> 'a connection \<Rightarrow> 'a connection" where
  "connect_peer launched c = (if launched then c\<lparr>con_bev := Attempting\<rparr> else c)"

definition peers_connect :: "bool \<Rightarrow> 'a connection list \<Rightarrow> int \<Rightarrow> 'a \<Rightarrow> 'a connection list" where
  "peers_connect launched cs i addr = cs @ [connect_peer launched ((new_connection i addr)\<lparr>con_reconnect_ev := Timer_Idle\<rparr>)]"

definition peer_connected :: "'a connection \<Rightarrow> bool" where
  "peer_connected c \<longleftrightarrow> con_status c = BEV_EVENT_CONNECTED"

definition on_peer_event :: "16 word \<Rightarrow> 'a connection \<Rightarrow> 'a connection" where
  "on_peer_event ev c =
     (if ev AND BEV_EVENT_CONNECTED \<noteq> 0 then c\<lparr>con_status := ev\<rparr>
      else if ev AND BEV_EVENT_ERROR \<noteq> 0 \<or> ev AND BEV_EVENT_EOF \<noteq> 0
      then c\<lparr>con_bev := New_Buffer, con_reconnect_ev := Timer_Set, con_status := ev\<rparr>
      else c)"

definition on_connection_timeout :: "bool \<Rightarrow> 'a connection \<Rightarrow> 'a connection" where
  "on_connection_timeout launched c = connect_peer launched c"

text \<open>The partner among the proposers is told by its number and by a port that is fixed in the code.\<close>

definition writeahead_epoch_paxos_peer_is_partner_proposer :: "('a \<Rightarrow> int) \<Rightarrow> 'a connection \<Rightarrow> int \<Rightarrow> bool" where
  "writeahead_epoch_paxos_peer_is_partner_proposer port c partner_id \<longleftrightarrow> con_id c = partner_id \<and> port (con_addr c) = 5000"

text \<open>The functions of epoch Paxos are copies of these.\<close>

definition writeahead_epoch_paxos_peers_connect :: "bool \<Rightarrow> 'a connection list \<Rightarrow> int \<Rightarrow> 'a \<Rightarrow> 'a connection list" where
  "writeahead_epoch_paxos_peers_connect launched cs i addr = peers_connect launched cs i addr"

definition writeahead_epoch_paxos_on_peer_event :: "16 word \<Rightarrow> 'a connection \<Rightarrow> 'a connection" where
  "writeahead_epoch_paxos_on_peer_event ev c = on_peer_event ev c"

definition writeahead_epoch_paxos_on_connection_timeout :: "bool \<Rightarrow> 'a connection \<Rightarrow> 'a connection" where
  "writeahead_epoch_paxos_on_connection_timeout launched c = on_connection_timeout launched c"

section \<open>A peer is never given up\<close>

text \<open>
  What can happen to a connection: an event of a buffer that is connecting or connected, and the time-out of a timer
  that is set, which it then no longer is.  The attempt started then is under way or is not.
\<close>

inductive connection_step :: "'a connection \<Rightarrow> 'a connection \<Rightarrow> bool" where
  event: "con_bev c = Attempting \<Longrightarrow> connection_step c (on_peer_event ev c)"
| time_out: "con_reconnect_ev c = Timer_Set \<Longrightarrow> connection_step c (on_connection_timeout True (c\<lparr>con_reconnect_ev := Timer_Idle\<rparr>))"

inductive_cases connection_stepE [elim]: "connection_step c c'"

definition connection_ok :: "'a connection \<Rightarrow> bool" where
  "connection_ok c \<longleftrightarrow> con_bev c = Attempting \<and> con_reconnect_ev c = Timer_Idle
     \<or> con_bev c = New_Buffer \<and> con_reconnect_ev c = Timer_Set \<and> \<not> peer_connected c"

lemma status_of_failure: "ev AND BEV_EVENT_CONNECTED = 0 \<Longrightarrow> ev \<noteq> BEV_EVENT_CONNECTED"
  by (auto simp: BEV_EVENT_CONNECTED_def)

lemma connection_step_ok:
  assumes "connection_step c c'" "connection_ok c"
  shows "connection_ok c' \<and> con_id c' = con_id c \<and> con_addr c' = con_addr c"
  using assms status_of_failure
  by (cases rule: connection_step.cases)
    (auto simp: connection_ok_def on_peer_event_def on_connection_timeout_def connect_peer_def peer_connected_def)

lemma connection_reachable_ok:
  assumes "connection_step\<^sup>*\<^sup>* c c'" "connection_ok c"
  shows "connection_ok c' \<and> con_id c' = con_id c \<and> con_addr c' = con_addr c"
  using assms by (induction rule: rtranclp_induct) (use connection_step_ok in fastforce)+

text \<open>
  C26: A peer is never given up: however often its connection fails, as long as an attempt can be started there is
  always an attempt under way (or a connection), or else the timer that starts the next one is set, never
  both; the peer does not count as connected while it waits, and number and address stay the same.
\<close>

theorem peer_is_never_given_up:
  assumes "connection_step\<^sup>*\<^sup>* (last (peers_connect True cs i addr)) c"
  shows "(con_bev c = Attempting \<longleftrightarrow> con_reconnect_ev c \<noteq> Timer_Set) \<and> (con_bev c = New_Buffer \<longrightarrow> \<not> peer_connected c)
    \<and> con_id c = i \<and> con_addr c = addr"
  using connection_reachable_ok [OF assms]
  by (auto simp: peers_connect_def connection_ok_def connect_peer_def new_connection_def)

theorem peer_is_never_given_up_witness:
  "let c = last (peers_connect True [] 2 ''10.0.0.3''); d = on_peer_event BEV_EVENT_CONNECTED c; e = on_peer_event 0x11 d
   in peer_connected d \<and> \<not> peer_connected e \<and> con_reconnect_ev e = Timer_Set \<and> con_addr e = ''10.0.0.3''"
proof -
  let ?c = "last (peers_connect True [] 2 ''10.0.0.3'')"
  let ?d = "on_peer_event BEV_EVENT_CONNECTED ?c"
  let ?e = "on_peer_event 0x11 ?d"
  have bev: "con_bev ?c = Attempting" "con_bev ?d = Attempting" "con_bev ?e = New_Buffer" "peer_connected ?d"
    by (simp_all add: peers_connect_def connect_peer_def on_peer_event_def BEV_EVENT_CONNECTED_def BEV_EVENT_ERROR_def BEV_EVENT_EOF_def
        peer_connected_def)
  have "connection_step\<^sup>*\<^sup>* ?c ?e"
    by (rule converse_rtranclp_into_rtranclp [OF connection_step.event [OF bev(1)] r_into_rtranclp [of connection_step, OF connection_step.event [OF bev(2)]]])
  from peer_is_never_given_up [OF this] bev show ?thesis by (simp add: Let_def)
qed

text \<open>An attempt that cannot be started is not noticed: nothing will happen to the peer any more.\<close>

lemma failed_attempt_gives_peer_up:
  assumes "con_bev c = New_Buffer" "con_reconnect_ev c = Timer_Set"
  shows "\<nexists>c'. connection_step (on_connection_timeout False (c\<lparr>con_reconnect_ev := Timer_Idle\<rparr>)) c'"
  using assms by (auto simp: on_connection_timeout_def connect_peer_def)

end
