(* ===== verification/Counters.thy ===== *)
theory Counters
  imports Paxos_Prelude
begin

text \<open>
  \<open>src/paxos/count_logger.c\<close> and \<open>src/paxos/message_and_response_counters.c\<close>: named counters of 32 bits
  and the set of them that a proposer can keep.  \<open>None\<close> is undefined behaviour.
\<close>

section \<open>One counter\<close>

record count_logger =
  cl_counter_name :: string
  cl_count :: u32

text \<open>
  The name is copied with \<open>strcpy\<close> into \<open>name_len\<close> bytes, which have to hold it with its terminating zero; then
  the last byte is overwritten.
\<close>

definition count_logger_new :: "string \<Rightarrow> nat \<Rightarrow> count_logger option" where
  "count_logger_new name name_len =
     (if name_len < length name + 1 then None
      else Some \<lparr>cl_counter_name = take (name_len - 1) name, cl_count = 0\<rparr>)"

definition count_logger_increment :: "count_logger \<Rightarrow> u32 \<Rightarrow> count_logger" where
  "count_logger_increment c n = c\<lparr>cl_count := cl_count c + n\<rparr>"

definition count_logger_decrement :: "count_logger \<Rightarrow> u32 \<Rightarrow> count_logger" where
  "count_logger_decrement c n = c\<lparr>cl_count := cl_count c - n\<rparr>"

definition count_logger_clear :: "count_logger \<Rightarrow> count_logger" where
  "count_logger_clear c = c\<lparr>cl_count := 0\<rparr>"

definition count_logger_print :: "count_logger \<Rightarrow> string \<times> u32" where
  "count_logger_print c = (cl_counter_name c, cl_count c)"

definition count_logger_print_and_clear :: "count_logger \<Rightarrow> (string \<times> u32) \<times> count_logger" where
  "count_logger_print_and_clear c = (count_logger_print c, count_logger_clear c)"

definition count_logger_increment_and_print :: "count_logger \<Rightarrow> u32 \<Rightarrow> (string \<times> u32) \<times> count_logger" where
  "count_logger_increment_and_print c n = (let c = count_logger_increment c n in (count_logger_print c, c))"

definition count_logger_decrement_and_print :: "count_logger \<Rightarrow> u32 \<Rightarrow> (string \<times> u32) \<times> count_logger" where
  "count_logger_decrement_and_print c n = (let c = count_logger_decrement c n in (count_logger_print c, c))"

lemma increment_decrement [simp]: "count_logger_decrement (count_logger_increment c n) n = c"
  by (simp add: count_logger_increment_def count_logger_decrement_def)

text \<open>A counter shows what was added and taken away since it was last cleared, modulo \<open>2\<^sup>3\<^sup>2\<close>.\<close>

lemma count_of_run:
  "cl_count (fold (\<lambda>(up, n) c. if up then count_logger_increment c n else count_logger_decrement c n) ops c)
     = cl_count c + (\<Sum>(up, n) \<leftarrow> ops. if up then n else - n)"
  by (induction ops arbitrary: c) (auto simp: count_logger_increment_def count_logger_decrement_def)

section \<open>The counters of a proposer\<close>

definition real_str_len :: "string \<Rightarrow> nat" where
  "real_str_len s = length s + 1"

text \<open>The counters in the order of their creation: the name, and the name whose length is passed with it.\<close>

definition proposer_counter_names :: "(string \<times> string) list" where
  "proposer_counter_names =
     [(''Promises preempted'', ''Promises preempted''),
      (''Instances closed'', ''Instances closed''),
      (''Prepares made'', ''Prepares made''),
      (''Promises received'', ''Promises received''),
      (''Instances opened'', ''Instances opened''),
      (''Promises acknowledged'', ''Promises received''),
      (''Promises ignored'', ''Promises ignored''),
      (''Accepts made'', ''Accepts made''),
      (''Acceptances received'', ''Acceptances received''),
      (''Accepts preempted'', ''Accepts preempted''),
      (''Accepted acknowledged'', ''Accepted acknowledged''),
      (''Accepted ignored'', ''Accepted ignored''),
      (''Preempted ignored'', ''Preempted ignored''),
      (''Chosens received'', ''Chosens received''),
      (''Chosens acknowledged'', ''Chosens acknowledged''),
      (''Chosens ignored'', ''Chosens ignored''),
      (''Trims received'', ''Trims received''),
      (''Trims acknowledged'', ''Trims acknowledged''),
      (''Trims ignored'', ''Trims ignored''),
      (''Client values chosen'', ''Client values chosen''),
      (''Client values received'', ''Client values received''),
      (''Client values in queue'', ''Client values in queue''),
      (''Client values proposed'', ''Client values proposed''),
      (''Client values reproposed'', ''Client values reproposed''),
      (''Client values requeued (either trimmed or preempted)'', ''Client values requeued (either trimmed or preempted)''),
      (''Client values in transit (Proposed but not known to be chosen or preempted)'',
       ''Client values in transit (Proposed but not known to be chosen or preempted)''),
      (''Client values in repropsing queue'', ''Client values in repropsing queue'')]"

definition prop_msg_and_resp_counters_new :: "count_logger list option" where
  "prop_msg_and_resp_counters_new =
     those (map (\<lambda>(name, measured). count_logger_new name (real_str_len measured)) proposer_counter_names)"

text \<open>A counter whose own name is measured is created with this name; the one for acknowledged promises is not.\<close>

lemma count_logger_new_own_length: "count_logger_new name (real_str_len name) = Some \<lparr>cl_counter_name = name, cl_count = 0\<rparr>"
  by (simp add: count_logger_new_def real_str_len_def)

lemma acknowledged_promises_overflow:
  "prop_msg_and_resp_counters_new = None"
  "filter (\<lambda>(name, measured). count_logger_new name (real_str_len measured) = None) proposer_counter_names =
     [(''Promises acknowledged'', ''Promises received'')]"
  by code_simp+

end
