(* ===== verification/Value_Memory.thy ===== *)
theory Value_Memory
  imports Hash_Memory
begin

text \<open>
  \<open>src/paxos/paxos_value.c\<close> with pointers: a \<open>struct paxos_value\<close> is a length and a pointer to a block of
  the heap, and copying, destroying and replacing values allocate and free such blocks.  The other theories
  treat a value as the list of its bytes and a deep copy as the identity; this theory shows that
  programs that handle their values with these functions behave that way.  \<open>None\<close> is undefined behaviour:
  reading outside of a block or freeing what is not allocated.
\<close>

section \<open>The heap\<close>

record heap =
  hp_blocks :: "nat \<rightharpoonup> byte list"
  hp_next :: nat

definition heap_wf :: "heap \<Rightarrow> bool" where
  "heap_wf h \<longleftrightarrow> (\<forall>p \<in> dom (hp_blocks h). p < hp_next h)"

text \<open>\<open>malloc\<close> and \<open>memcpy\<close> into the new block.\<close>

definition new_block :: "byte list \<Rightarrow> heap \<Rightarrow> heap \<times> nat" where
  "new_block bs h = (h\<lparr>hp_blocks := (hp_blocks h)(hp_next h \<mapsto> bs), hp_next := Suc (hp_next h)\<rparr>, hp_next h)"

definition free_block :: "nat \<Rightarrow> heap \<Rightarrow> heap option" where
  "free_block p h = (if p \<in> dom (hp_blocks h) then Some (h\<lparr>hp_blocks := (hp_blocks h)(p := None)\<rparr>) else None)"

definition read_block :: "heap \<Rightarrow> nat option \<Rightarrow> nat \<Rightarrow> byte list option" where
  "read_block h ptr n =
     Option.bind ptr (\<lambda>p. Option.bind (hp_blocks h p) (\<lambda>bs. if n \<le> length bs then Some (take n bs) else None))"

section \<open>Values\<close>

record value_struct =
  pv_paxos_value_len :: u32
  pv_paxos_value_val :: "nat option"

definition null_value :: value_struct where
  "null_value = \<lparr>pv_paxos_value_len = 0, pv_paxos_value_val = None\<rparr>"

definition copy_value :: "heap \<Rightarrow> value_struct \<Rightarrow> (heap \<times> value_struct) option" where
  "copy_value h src =
     (let value_size = pv_paxos_value_len src in
      if value_size > 0
      then map_option (\<lambda>bs. case new_block bs h of (h, p) \<Rightarrow> (h, \<lparr>pv_paxos_value_len = value_size, pv_paxos_value_val = Some p\<rparr>))
             (read_block h (pv_paxos_value_val src) (unat value_size))
      else Some (h, \<lparr>pv_paxos_value_len = value_size, pv_paxos_value_val = None\<rparr>))"

text \<open>Unlike \<open>copy_value\<close>, \<open>paxos_value_copy\<close> leaves the pointer of the destination alone when the source is empty.\<close>

definition paxos_value_copy :: "heap \<Rightarrow> value_struct \<Rightarrow> value_struct \<Rightarrow> (heap \<times> value_struct) option" where
  "paxos_value_copy h dst src =
     (let len = pv_paxos_value_len src; dst = dst\<lparr>pv_paxos_value_len := len\<rparr> in
      if pv_paxos_value_len src > 0
      then map_option (\<lambda>bs. case new_block bs h of (h, p) \<Rightarrow> (h, dst\<lparr>pv_paxos_value_val := Some p\<rparr>))
             (read_block h (pv_paxos_value_val src) (unat len))
      else Some (h, dst))"

definition paxos_value_new :: "heap \<Rightarrow> byte list \<Rightarrow> heap \<times> value_struct" where
  "paxos_value_new h bs =
     (case new_block bs h of (h, p) \<Rightarrow> (h, \<lparr>pv_paxos_value_len = of_nat (length bs), pv_paxos_value_val = Some p\<rparr>))"

definition paxos_value_destroy :: "heap \<Rightarrow> value_struct \<Rightarrow> (heap \<times> value_struct) option" where
  "paxos_value_destroy h v =
     map_option (\<lambda>h. (h, \<lparr>pv_paxos_value_len = 0, pv_paxos_value_val = None\<rparr>))
       (case pv_paxos_value_val v of None \<Rightarrow> Some h | Some p \<Rightarrow> free_block p h)"

definition destroy_and_replace_value :: "heap \<Rightarrow> value_struct \<Rightarrow> value_struct \<Rightarrow> (heap \<times> value_struct) option" where
  "destroy_and_replace_value h src dst = Option.bind (paxos_value_destroy h dst) (\<lambda>(h, dst). copy_value h src)"

definition is_paxos_values_equal :: "heap \<Rightarrow> value_struct \<Rightarrow> value_struct \<Rightarrow> bool option" where
  "is_paxos_values_equal h lhs rhs =
     (if pv_paxos_value_len lhs = pv_paxos_value_len rhs
      then if pv_paxos_value_len lhs = 0 then Some True
           else Option.bind (read_block h (pv_paxos_value_val lhs) (unat (pv_paxos_value_len lhs))) (\<lambda>a.
             map_option (\<lambda>b. a = b) (read_block h (pv_paxos_value_val rhs) (unat (pv_paxos_value_len lhs))))
      else Some False)"

text \<open>The bytes of a value.\<close>

definition value_bytes :: "heap \<Rightarrow> value_struct \<Rightarrow> byte list option" where
  "value_bytes h v =
     (if pv_paxos_value_len v = 0 then Some [] else read_block h (pv_paxos_value_val v) (unat (pv_paxos_value_len v)))"

section \<open>Programs with several values\<close>

datatype value_op =
    New_Value nat "byte list"
  | Copy_Value nat nat
  | Paxos_Value_Copy nat nat
  | Destroy nat
  | Destroy_And_Replace nat nat

type_synonym value_store = "heap \<times> (nat \<Rightarrow> value_struct)"

text \<open>
  \<open>Copy_Value i j\<close> copies from variable \<open>i\<close> to variable \<open>j\<close>, which may be the same object: \<open>copy_value\<close> reads
  the source before it assigns to the destination, \<open>destroy_and_replace_value\<close> destroys the destination first, and
  \<open>paxos_value_copy\<close> has already put the pointer to the fresh block into the object when it reads the
  source, so that the bytes it copies are indeterminate unless there are none.
\<close>

fun value_step :: "value_op \<Rightarrow> value_store \<Rightarrow> value_store option" where
  "value_step (New_Value i bs) (h, vs) = (case paxos_value_new h bs of (h, v) \<Rightarrow> Some (h, vs(i := v)))"
| "value_step (Copy_Value i j) (h, vs) = map_option (\<lambda>(h, v). (h, vs(j := v))) (copy_value h (vs i))"
| "value_step (Paxos_Value_Copy i j) (h, vs) =
     (if i = j \<and> pv_paxos_value_len (vs i) > 0 then None
      else map_option (\<lambda>(h, v). (h, vs(j := v))) (paxos_value_copy h (vs j) (vs i)))"
| "value_step (Destroy i) (h, vs) = map_option (\<lambda>(h, v). (h, vs(i := v))) (paxos_value_destroy h (vs i))"
| "value_step (Destroy_And_Replace i j) (h, vs) =
     (if i = j then map_option (\<lambda>(h, v). (h, vs(j := v))) (Option.bind (paxos_value_destroy h (vs j)) (\<lambda>(h, v). copy_value h v))
      else map_option (\<lambda>(h, v). (h, vs(j := v))) (destroy_and_replace_value h (vs i) (vs j)))"

fun bytes_step :: "value_op \<Rightarrow> (nat \<Rightarrow> byte list) \<Rightarrow> (nat \<Rightarrow> byte list)" where
  "bytes_step (New_Value i bs) b = b(i := bs)"
| "bytes_step (Copy_Value i j) b = b(j := b i)"
| "bytes_step (Paxos_Value_Copy i j) b = b(j := b i)"
| "bytes_step (Destroy i) b = b(i := [])"
| "bytes_step (Destroy_And_Replace i j) b = (if i = j then b(j := []) else b(j := b i))"

definition bytes_of :: "value_store \<Rightarrow> nat \<Rightarrow> byte list" where
  "bytes_of s i = the (value_bytes (fst s) (snd s i))"

text \<open>Every pointer is to a block that is long enough, and no two variables point to the same.\<close>

definition store_inv :: "value_store \<Rightarrow> bool" where
  "store_inv s \<longleftrightarrow> heap_wf (fst s)
     \<and> (\<forall>i. case pv_paxos_value_val (snd s i) of
              None \<Rightarrow> pv_paxos_value_len (snd s i) = 0
            | Some p \<Rightarrow> \<exists>bs. hp_blocks (fst s) p = Some bs \<and> unat (pv_paxos_value_len (snd s i)) \<le> length bs)
     \<and> (\<forall>i j p. pv_paxos_value_val (snd s i) = Some p \<longrightarrow> pv_paxos_value_val (snd s j) = Some p \<longrightarrow> i = j)"

definition value_op_ok :: "value_op \<Rightarrow> bool" where
  "value_op_ok op = (case op of New_Value i bs \<Rightarrow> length bs < 2 ^ 32 | Paxos_Value_Copy i j \<Rightarrow> i \<noteq> j | _ \<Rightarrow> True)"

lemma store_inv_parts:
  assumes "store_inv (h, vs)"
  shows "heap_wf h"
    "case pv_paxos_value_val (vs i) of None \<Rightarrow> pv_paxos_value_len (vs i) = 0
      | Some p \<Rightarrow> \<exists>bs. hp_blocks h p = Some bs \<and> unat (pv_paxos_value_len (vs i)) \<le> length bs"
    "pv_paxos_value_val (vs i) = Some p \<Longrightarrow> pv_paxos_value_val (vs j) = Some p \<Longrightarrow> i = j"
  using assms unfolding store_inv_def fst_conv snd_conv by blast+

lemma store_inv_block:
  assumes "store_inv (h, vs)" "pv_paxos_value_val (vs i) = Some p"
  obtains bs where "hp_blocks h p = Some bs" "unat (pv_paxos_value_len (vs i)) \<le> length bs" "p < hp_next h"
  using store_inv_parts(2) [OF assms(1), of i] store_inv_parts(1) [OF assms(1)] assms(2) that by (auto simp: heap_wf_def)

lemma store_inv_read:
  assumes "store_inv (h, vs)" "0 < pv_paxos_value_len (vs i)"
  shows "read_block h (pv_paxos_value_val (vs i)) (unat (pv_paxos_value_len (vs i))) = Some (bytes_of (h, vs) i)"
    "length (bytes_of (h, vs) i) = unat (pv_paxos_value_len (vs i))"
proof -
  have "pv_paxos_value_len (vs i) = 0" if "pv_paxos_value_val (vs i) = None"
    using store_inv_parts(2) [OF assms(1), of i] that by simp
  then obtain p where p: "pv_paxos_value_val (vs i) = Some p" using assms(2) by (cases "pv_paxos_value_val (vs i)") auto
  obtain bs where "hp_blocks h p = Some bs" "unat (pv_paxos_value_len (vs i)) \<le> length bs"
    using store_inv_block [OF assms(1) p] .
  then have read: "read_block h (pv_paxos_value_val (vs i)) (unat (pv_paxos_value_len (vs i))) = Some (take (unat (pv_paxos_value_len (vs i))) bs)"
    and len: "length (take (unat (pv_paxos_value_len (vs i))) bs) = unat (pv_paxos_value_len (vs i))"
    using p by (auto simp: read_block_def)
  then show "read_block h (pv_paxos_value_val (vs i)) (unat (pv_paxos_value_len (vs i))) = Some (bytes_of (h, vs) i)"
    using assms(2) by (simp add: bytes_of_def value_bytes_def)
  with read len show "length (bytes_of (h, vs) i) = unat (pv_paxos_value_len (vs i))" by simp
qed

lemma bytes_of_empty [simp]: "pv_paxos_value_len (vs i) = 0 \<Longrightarrow> bytes_of (h, vs) i = []"
  by (simp add: bytes_of_def value_bytes_def)

text \<open>A change of one variable and of blocks that no other variable points to.\<close>

lemma store_inv_update:
  assumes inv: "store_inv (h, vs)" and wf: "heap_wf h'"
    and other: "\<And>i p. i \<noteq> j \<Longrightarrow> pv_paxos_value_val (vs i) = Some p \<Longrightarrow> hp_blocks h' p = hp_blocks h p \<and> pv_paxos_value_val v \<noteq> Some p"
    and new: "case pv_paxos_value_val v of None \<Rightarrow> pv_paxos_value_len v = 0
      | Some p \<Rightarrow> \<exists>bs. hp_blocks h' p = Some bs \<and> unat (pv_paxos_value_len v) \<le> length bs"
  shows "store_inv (h', vs(j := v)) \<and> bytes_of (h', vs(j := v)) = (bytes_of (h, vs))(j := the (value_bytes h' v))"
proof
  show "store_inv (h', vs(j := v))"
    unfolding store_inv_def fst_conv snd_conv
  proof (intro conjI allI impI)
    fix i
    show "case pv_paxos_value_val ((vs(j := v)) i) of None \<Rightarrow> pv_paxos_value_len ((vs(j := v)) i) = 0
      | Some p \<Rightarrow> \<exists>bs. hp_blocks h' p = Some bs \<and> unat (pv_paxos_value_len ((vs(j := v)) i)) \<le> length bs"
    proof (cases "i = j")
      case False
      with store_inv_parts(2) [OF inv, of i] other [OF False] show ?thesis by (auto split: option.splits)
    next
      case True
      then have "(vs(j := v)) i = v" by simp
      then show ?thesis using new by (simp only:)
    qed
  next
    fix i k p
    assume "pv_paxos_value_val ((vs(j := v)) i) = Some p" "pv_paxos_value_val ((vs(j := v)) k) = Some p"
    then show "i = k" using store_inv_parts(3) [OF inv, of i p k] other by (auto split: if_splits)
  qed (rule wf)
  show "bytes_of (h', vs(j := v)) = (bytes_of (h, vs))(j := the (value_bytes h' v))"
  proof
    fix i
    show "bytes_of (h', vs(j := v)) i = ((bytes_of (h, vs))(j := the (value_bytes h' v))) i"
      using other [of i] by (cases "i = j"; cases "pv_paxos_value_val (vs i)") (auto simp: bytes_of_def value_bytes_def read_block_def)
  qed
qed

lemma new_block_step:
  assumes inv: "store_inv (h, vs)" and len: "unat n = length bs" and b: "new_block bs h = (h', p)"
    and v: "v = \<lparr>pv_paxos_value_len = n, pv_paxos_value_val = Some p\<rparr>"
  shows "store_inv (h', vs(j := v)) \<and> bytes_of (h', vs(j := v)) = (bytes_of (h, vs))(j := bs)"
proof -
  have h': "h' = h\<lparr>hp_blocks := (hp_blocks h)(hp_next h \<mapsto> bs), hp_next := Suc (hp_next h)\<rparr>" "p = hp_next h"
    using b by (auto simp: new_block_def)
  have "heap_wf h" by (rule store_inv_parts(1) [OF inv])
  then have wf: "heap_wf h'" by (auto simp: heap_wf_def h'(1) domIff intro: less_SucI)
  have "the (value_bytes h' v) = bs" using len by (auto simp: v value_bytes_def read_block_def h' unat_eq_0)
  moreover have "hp_blocks h' q = hp_blocks h q \<and> pv_paxos_value_val v \<noteq> Some q" if "pv_paxos_value_val (vs i) = Some q" for i q
    using store_inv_block [OF inv that] by (auto simp: v h')
  moreover have "case pv_paxos_value_val v of None \<Rightarrow> pv_paxos_value_len v = 0
      | Some p \<Rightarrow> \<exists>bs. hp_blocks h' p = Some bs \<and> unat (pv_paxos_value_len v) \<le> length bs"
    using len by (simp add: v h')
  ultimately show ?thesis using store_inv_update [OF inv wf, of j v] by auto
qed

lemma empty_step:
  assumes "store_inv (h, vs)" "pv_paxos_value_len v = 0" "pv_paxos_value_val v = None \<or> pv_paxos_value_val v = pv_paxos_value_val (vs j)"
  shows "store_inv (h, vs(j := v)) \<and> bytes_of (h, vs(j := v)) = (bytes_of (h, vs))(j := [])"
proof -
  have "heap_wf h" by (rule store_inv_parts(1) [OF assms(1)])
  moreover have "hp_blocks h p = hp_blocks h p \<and> pv_paxos_value_val v \<noteq> Some p" if "i \<noteq> j" "pv_paxos_value_val (vs i) = Some p" for i p
    using assms(3) that store_inv_parts(3) [OF assms(1), of i p j] by auto
  moreover have "case pv_paxos_value_val v of None \<Rightarrow> pv_paxos_value_len v = 0
      | Some p \<Rightarrow> \<exists>bs. hp_blocks h p = Some bs \<and> unat (pv_paxos_value_len v) \<le> length bs"
    using assms(2,3) store_inv_parts(2) [OF assms(1), of j] by (auto split: option.splits)
  moreover have "the (value_bytes h v) = []" using assms(2) by (simp add: value_bytes_def)
  ultimately show ?thesis using store_inv_update [OF assms(1), of h j v] by auto
qed

lemma destroy_step:
  assumes inv: "store_inv (h, vs)"
  obtains h' where "paxos_value_destroy h (vs j) = Some (h', null_value)" "store_inv (h', vs(j := null_value))"
    "bytes_of (h', vs(j := null_value)) = (bytes_of (h, vs))(j := [])"
proof (cases "pv_paxos_value_val (vs j)")
  case None
  then have "paxos_value_destroy h (vs j) = Some (h, null_value)" by (simp add: paxos_value_destroy_def null_value_def)
  then show thesis using that empty_step [OF inv, of null_value j] by (simp add: null_value_def)
next
  case (Some p)
  obtain bs where bs: "hp_blocks h p = Some bs" using store_inv_block [OF inv Some] .
  let ?h = "h\<lparr>hp_blocks := (hp_blocks h)(p := None)\<rparr>"
  have "paxos_value_destroy h (vs j) = Some (?h, null_value)" using Some bs by (simp add: paxos_value_destroy_def free_block_def null_value_def domIff)
  moreover have "heap_wf ?h" using store_inv_parts(1) [OF inv] by (auto simp: heap_wf_def)
  moreover have "hp_blocks ?h q = hp_blocks h q \<and> pv_paxos_value_val null_value \<noteq> Some q" if "i \<noteq> j" "pv_paxos_value_val (vs i) = Some q" for i q
    using that Some store_inv_parts(3) [OF inv, of i q j] by (auto simp: null_value_def)
  moreover have "the (value_bytes ?h null_value) = []" by (simp add: value_bytes_def null_value_def)
  ultimately show thesis using that store_inv_update [OF inv, of ?h j null_value] by (auto simp: null_value_def)
qed

lemma copy_step:
  assumes inv: "store_inv (h, vs)"
  obtains h' v where "copy_value h (vs i) = Some (h', v)" "store_inv (h', vs(j := v))" "bytes_of (h', vs(j := v)) = (bytes_of (h, vs))(j := bytes_of (h, vs) i)"
proof (cases "pv_paxos_value_len (vs i) > 0")
  case True
  obtain h' p where b: "new_block (bytes_of (h, vs) i) h = (h', p)" by fastforce
  let ?v = "\<lparr>pv_paxos_value_len = pv_paxos_value_len (vs i), pv_paxos_value_val = Some p\<rparr>"
  have "copy_value h (vs i) = Some (h', ?v)" using True store_inv_read(1) [OF inv True] b by (simp add: copy_value_def)
  then show thesis using that new_block_step [OF inv store_inv_read(2) [OF inv True, symmetric] b] by blast
next
  case False
  then have z: "pv_paxos_value_len (vs i) = 0" by (simp add: word_gt_0)
  then have "copy_value h (vs i) = Some (h, null_value)" by (simp add: copy_value_def null_value_def)
  then show thesis using that empty_step [OF inv, of null_value j] z by (simp add: null_value_def)
qed

lemma paxos_value_copy_step:
  assumes inv: "store_inv (h, vs)"
  obtains h' v where "paxos_value_copy h (vs j) (vs i) = Some (h', v)" "store_inv (h', vs(j := v))"
    "bytes_of (h', vs(j := v)) = (bytes_of (h, vs))(j := bytes_of (h, vs) i)"
proof (cases "pv_paxos_value_len (vs i) > 0")
  case True
  obtain h' p where b: "new_block (bytes_of (h, vs) i) h = (h', p)" by fastforce
  let ?v = "\<lparr>pv_paxos_value_len = pv_paxos_value_len (vs i), pv_paxos_value_val = Some p\<rparr>"
  have "paxos_value_copy h (vs j) (vs i) = Some (h', ?v)"
    using True store_inv_read(1) [OF inv True] b by (simp add: paxos_value_copy_def Let_def)
  then show thesis using that new_block_step [OF inv store_inv_read(2) [OF inv True, symmetric] b] by blast
next
  case False
  then have z: "pv_paxos_value_len (vs i) = 0" by (simp add: word_gt_0)
  let ?v = "(vs j)\<lparr>pv_paxos_value_len := 0\<rparr>"
  have "paxos_value_copy h (vs j) (vs i) = Some (h, ?v)" using z by (simp add: paxos_value_copy_def)
  then show thesis using that empty_step [OF inv, of ?v j] z by simp
qed

section \<open>Values are their bytes\<close>

lemma value_step_refines:
  assumes inv: "store_inv (h, vs)" and ok: "value_op_ok op"
  shows "\<exists>s'. value_step op (h, vs) = Some s' \<and> store_inv s' \<and> bytes_of s' = bytes_step op (bytes_of (h, vs))"
proof (cases op)
  case (New_Value i bs)
  obtain h' p where b: "new_block bs h = (h', p)" by fastforce
  have "unat (of_nat (length bs) :: u32) = length bs" using ok New_Value by (simp add: value_op_ok_def unat_of_nat_u32)
  from new_block_step [OF inv this b, of _ i] show ?thesis using b by (simp add: New_Value paxos_value_new_def)
next
  case (Copy_Value i j)
  then show ?thesis using copy_step [OF inv, of i j] by (metis (no_types, lifting) bytes_step.simps(2) case_prod_conv option.map(2) value_step.simps(2))
next
  case (Paxos_Value_Copy i j)
  then have "i \<noteq> j" using ok by (simp add: value_op_ok_def)
  then show ?thesis using paxos_value_copy_step [OF inv, of j i] unfolding Paxos_Value_Copy by fastforce
next
  case (Destroy i)
  then show ?thesis using destroy_step [OF inv, of i] by (metis (no_types, lifting) bytes_step.simps(4) case_prod_conv option.map(2) value_step.simps(4))
next
  case (Destroy_And_Replace i j)
  obtain h1 where d: "paxos_value_destroy h (vs j) = Some (h1, null_value)" "store_inv (h1, vs(j := null_value))"
    "bytes_of (h1, vs(j := null_value)) = (bytes_of (h, vs))(j := [])"
    using destroy_step [OF inv] .
  obtain h2 v where c: "copy_value h1 ((vs(j := null_value)) i) = Some (h2, v)" "store_inv (h2, (vs(j := null_value))(j := v))"
    "bytes_of (h2, (vs(j := null_value))(j := v)) = (bytes_of (h1, vs(j := null_value)))(j := bytes_of (h1, vs(j := null_value)) i)"
    using copy_step [OF d(2)] .
  have "value_step op (h, vs) = Some (h2, vs(j := v))"
    using d(1) c(1) by (auto simp: Destroy_And_Replace destroy_and_replace_value_def)
  moreover have "bytes_of (h2, vs(j := v)) = bytes_step op (bytes_of (h, vs))" using c(3) d(3) by (simp add: Destroy_And_Replace)
  ultimately show ?thesis using c(2) by simp
qed

interpretation vm: bounded_refinement store_inv bytes_of "\<lambda>_. 0" n value_op_ok value_step bytes_step for n :: nat
proof unfold_locales
  fix s :: value_store and op
  assume "store_inv s" "value_op_ok op"
  then show "\<exists>s'. value_step op s = Some s' \<and> store_inv s' \<and> bytes_of s' = bytes_step op (bytes_of s)"
    by (cases s) (auto dest: value_step_refines)
qed simp

definition empty_store :: value_store where
  "empty_store = (\<lparr>hp_blocks = Map.empty, hp_next = 0\<rparr>, \<lambda>_. null_value)"

lemma empty_store_inv [simp]: "store_inv empty_store" "bytes_of empty_store = (\<lambda>_. [])"
  by (auto simp: store_inv_def empty_store_def heap_wf_def null_value_def bytes_of_def value_bytes_def)

lemma value_bytes_inv: "store_inv (h, vs) \<Longrightarrow> value_bytes h (vs i) = Some (bytes_of (h, vs) i)"
  using store_inv_read(1) [of h vs i] by (cases "pv_paxos_value_len (vs i) = 0") (auto simp: value_bytes_def word_gt_0)

lemma length_bytes_of: "store_inv (h, vs) \<Longrightarrow> length (bytes_of (h, vs) i) = unat (pv_paxos_value_len (vs i))"
  using store_inv_read(2) [of h vs i] by (cases "pv_paxos_value_len (vs i) = 0") (auto simp: word_gt_0)

lemma values_equal_inv:
  assumes "store_inv (h, vs)"
  shows "is_paxos_values_equal h (vs i) (vs j) = Some (bytes_of (h, vs) i = bytes_of (h, vs) j)"
proof (cases "pv_paxos_value_len (vs i) = pv_paxos_value_len (vs j)")
  case True
  show ?thesis
  proof (cases "pv_paxos_value_len (vs i) = 0")
    case zero: True
    then show ?thesis using True by (simp add: is_paxos_values_equal_def)
  next
    case False
    then have "0 < pv_paxos_value_len (vs i)" "0 < pv_paxos_value_len (vs j)" using True by (auto simp: word_gt_0)
    note read = this [THEN store_inv_read(1) [OF assms]]
    from read(1) read(2) False True show ?thesis by (simp add: is_paxos_values_equal_def)
  qed
next
  case False
  then have "bytes_of (h, vs) i \<noteq> bytes_of (h, vs) j" using length_bytes_of [OF assms] by (metis word_unat_eq_iff)
  then show ?thesis using False by (simp add: is_paxos_values_equal_def)
qed

text \<open>\<open>paxos_value_copy\<close> of a value onto itself loses its bytes.\<close>

lemma self_copy_undefined: "run_steps value_step [New_Value 0 [7], Paxos_Value_Copy 0 0] empty_store = None"
  by (simp add: empty_store_def paxos_value_new_def new_block_def)

text \<open>
  C23: A value is its bytes and a copy is a value of its own: however a program creates, copies, replaces and
  destroys its values with these functions, as long as it does not call \<open>paxos_value_copy\<close> with one object as source
  and destination (which loses the bytes, \<open>self_copy_undefined\<close>), its values have fewer than \<open>2\<^sup>3\<^sup>2\<close> bytes and memory
  does not run out, nothing is read that is not there or freed twice, and each variable holds the bytes that
  were assigned to it, whatever has become of the variable they were copied from.  Comparing two values compares their bytes.
\<close>

theorem value_programs_act_on_bytes:
  assumes "list_all value_op_ok ops"
  shows "\<exists>h vs. run_steps value_step ops empty_store = Some (h, vs)
    \<and> (\<forall>i. value_bytes h (vs i) = Some (fold bytes_step ops (\<lambda>_. []) i))
    \<and> (\<forall>i j. is_paxos_values_equal h (vs i) (vs j) = Some (fold bytes_step ops (\<lambda>_. []) i = fold bytes_step ops (\<lambda>_. []) j))"
proof -
  obtain h vs where s: "run_steps value_step ops empty_store = Some (h, vs)" "store_inv (h, vs)" "bytes_of (h, vs) = fold bytes_step ops (\<lambda>_. [])"
    using vm.run_refines [OF empty_store_inv(1), of ops "length ops"] assms by auto
  then show ?thesis using value_bytes_inv [OF s(2)] values_equal_inv [OF s(2)] by auto
qed

theorem value_programs_act_on_bytes_witness:
  "\<exists>h vs. run_steps value_step [New_Value 0 [7, 8], Copy_Value 0 1, Destroy 0, Paxos_Value_Copy 1 2, New_Value 0 [9], Destroy_And_Replace 0 1] empty_store
      = Some (h, vs)
    \<and> value_bytes h (vs 1) = Some [9] \<and> value_bytes h (vs 2) = Some [7, 8] \<and> is_paxos_values_equal h (vs 0) (vs 1) = Some True"
proof -
  let ?ops = "[New_Value 0 [7, 8], Copy_Value 0 1, Destroy 0, Paxos_Value_Copy 1 2, New_Value 0 [9], Destroy_And_Replace 0 1]"
  have "list_all value_op_ok ?ops" by (simp add: value_op_ok_def)
  from value_programs_act_on_bytes [OF this] show ?thesis by fastforce
qed

text \<open>Destroying a copy gives back the memory that it took, and nothing else.\<close>

lemma copy_then_destroy:
  assumes "heap_wf h" "copy_value h src = Some (h', v)"
  shows "\<exists>h''. paxos_value_destroy h' v = Some (h'', null_value) \<and> hp_blocks h'' = hp_blocks h"
proof -
  have "hp_next h \<notin> dom (hp_blocks h)" using assms(1) by (auto simp: heap_wf_def)
  then have "(hp_blocks h)(hp_next h := None) = hp_blocks h" by (auto simp: domIff)
  with assms(2) show ?thesis
    by (auto simp: copy_value_def paxos_value_destroy_def free_block_def new_block_def null_value_def Let_def split: if_splits)
qed

text \<open>
  An empty value copied into memory that was not cleared leaves whatever pointer was there, which destroying the
  copy then frees.
\<close>

lemma empty_copy_keeps_pointer:
  assumes "pv_paxos_value_len src = 0" "p \<notin> dom (hp_blocks h)"
  shows "\<exists>v. paxos_value_copy h \<lparr>pv_paxos_value_len = n, pv_paxos_value_val = Some p\<rparr> src = Some (h, v) \<and> paxos_value_destroy h v = None"
  using assms by (simp add: paxos_value_copy_def paxos_value_destroy_def free_block_def)

end
