(* ===== verification/Lmdb_Environment.thy ===== *)
theory Lmdb_Environment
  imports Config
begin

text \<open>
  How \<open>src/paxos/stable_storage_lmdb.c\<close> opens its environment: \<open>lmdb_storage_open\<close> with the directory, and
  \<open>lmdb_storage_init\<close>, a sequence of calls of LMDB each of which may fail, after which what was obtained
  is given back.  Of LMDB the model has the result of each call and the handles: one that a
  call returned is live until it is released, and releasing or using it again is undefined, the value
  \<open>None\<close>.  As LMDB documents, \<open>mdb_txn_commit\<close> releases the transaction also when it fails.  That aborting a
  transaction also closes the tables opened in it is left out, since closing a table twice does no harm.
\<close>

section \<open>\<open>lmdb_storage_init\<close>\<close>

datatype mdb_call = Env_Create | Env_Set_Mapsize | Env_Open | Txn_Begin | Open_Db | Set_Compare | Txn_Commit

datatype handle = Null | Live | Released

record mdb_handles =
  mh_env :: handle
  mh_txn :: handle
  mh_dbi :: handle

definition release :: "handle \<Rightarrow> handle option" where
  "release x = (case x of Null \<Rightarrow> Some Null | Live \<Rightarrow> Some Released | Released \<Rightarrow> None)"

text \<open>The label \<open>error\<close>: the transaction is aborted, the table and the environment are closed, as far as they are not null.\<close>

definition init_error :: "mdb_handles \<Rightarrow> (int \<times> mdb_handles) option" where
  "init_error s =
     Option.bind (release (mh_txn s)) (\<lambda>txn. Option.bind (release (mh_dbi s)) (\<lambda>dbi.
       map_option (\<lambda>env. (- 1, \<lparr>mh_env = env, mh_txn = txn, mh_dbi = dbi\<rparr>)) (release (mh_env s))))"

definition lmdb_storage_init :: "(mdb_call \<Rightarrow> int) \<Rightarrow> (int \<times> mdb_handles) option" where
  "lmdb_storage_init rc =
     (let s = \<lparr>mh_env = Null, mh_txn = Null, mh_dbi = Null\<rparr> in
      if rc Env_Create \<noteq> 0 then init_error s
      else let s = s\<lparr>mh_env := Live\<rparr> in
      if rc Env_Set_Mapsize \<noteq> 0 then init_error s
      else if rc Env_Open \<noteq> 0 then init_error s
      else if rc Txn_Begin \<noteq> 0 then init_error s
      else let s = s\<lparr>mh_txn := Live\<rparr> in
      if rc Open_Db \<noteq> 0 then init_error s
      else let s = s\<lparr>mh_dbi := Live\<rparr> in
      if rc Set_Compare \<noteq> 0 then init_error s
      else let s = s\<lparr>mh_txn := Released\<rparr> in
      if rc Txn_Commit \<noteq> 0 then init_error s
      else Some (0, s))"

section \<open>\<open>lmdb_storage_open\<close>\<close>

text \<open>The path has room for an underscore, a number of at most eleven characters and the terminating zero.\<close>

definition lmdb_env_path :: "string \<Rightarrow> int \<Rightarrow> string" where
  "lmdb_env_path base acceptor_id = take (length base + 15) (base @ ''_'' @ show_int acceptor_id)"

definition rm_command :: "string \<Rightarrow> string option" where
  "rm_command path = (let command = ''rm -r '' @ path in if length command < 600 then Some command else None)"

text \<open>
  What is asked of the system: whether the directory is there (after the old one was removed, when this is configured) and whether
  it can be made.  The message that it is not there has a conversion but no argument, which is undefined when it is
  printed, that is from verbosity 2 on.  The result of a failed initialisation is that of a comparison.
\<close>

record directory =
  dir_exists :: bool
  dir_can_be_made :: bool

definition lmdb_storage_open_path :: "bool \<Rightarrow> int \<Rightarrow> string \<Rightarrow> directory \<Rightarrow> (mdb_call \<Rightarrow> int) \<Rightarrow> int option" where
  "lmdb_storage_open_path trash_files verbosity path dir rc =
     (if trash_files \<and> rm_command path = None then None
      else if \<not> dir_exists dir \<and> 2 \<le> verbosity then None
      else if \<not> dir_exists dir \<and> \<not> dir_can_be_made dir then Some (- 1)
      else map_option (\<lambda>(result, s). if result \<noteq> 0 then 1 else 0) (lmdb_storage_init rc))"

text \<open>\<open>lmdb_storage_close\<close> releases what the storage holds; the struct itself is freed.\<close>

definition lmdb_storage_close :: "mdb_handles \<Rightarrow> mdb_handles option" where
  "lmdb_storage_close s =
     Option.bind (release (mh_txn s)) (\<lambda>txn. Option.bind (release (mh_dbi s)) (\<lambda>dbi.
       map_option (\<lambda>env. \<lparr>mh_env = env, mh_txn = txn, mh_dbi = dbi\<rparr>) (release (mh_env s))))"

section \<open>What is obtained is given back\<close>

text \<open>
  Opening the database succeeds exactly when every call of LMDB does, and then environment and table are open; when a call
  before the last one fails, the result is \<open>-1\<close> and nothing that was obtained is left open or released twice.
\<close>

theorem lmdb_init_releases_on_error:
  "(if \<forall>call. rc call = 0 then lmdb_storage_init rc = Some (0, \<lparr>mh_env = Live, mh_txn = Released, mh_dbi = Live\<rparr>)
    else if \<exists>call. call \<noteq> Txn_Commit \<and> rc call \<noteq> 0
    then \<exists>s. lmdb_storage_init rc = Some (- 1, s) \<and> mh_env s \<noteq> Live \<and> mh_txn s \<noteq> Live \<and> mh_dbi s \<noteq> Live
    else lmdb_storage_init rc = None)"
proof -
  have calls: "(\<forall>call. P call) \<longleftrightarrow> P Env_Create \<and> P Env_Set_Mapsize \<and> P Env_Open \<and> P Txn_Begin \<and> P Open_Db \<and> P Set_Compare \<and> P Txn_Commit" for P
    by (metis mdb_call.exhaust)
  have some: "(\<exists>call. P call) \<longleftrightarrow> P Env_Create \<or> P Env_Set_Mapsize \<or> P Env_Open \<or> P Txn_Begin \<or> P Open_Db \<or> P Set_Compare \<or> P Txn_Commit" for P
    by (metis mdb_call.exhaust)
  show ?thesis unfolding calls some lmdb_storage_init_def Let_def
    by (auto simp: init_error_def release_def)
qed

text \<open>A commit that fails has released the transaction, which is then aborted.\<close>

lemma failed_commit_aborts_released_transaction:
  "lmdb_storage_init ((\<lambda>_. 0)(Txn_Commit := 28)) = None"
  by code_simp

text \<open>With the default verbosity, the first start of an acceptor prints the missing argument.\<close>

lemma first_start_prints_missing_argument:
  "lmdb_storage_open_path False 2 path \<lparr>dir_exists = False, dir_can_be_made = True\<rparr> rc = None"
  by (simp add: lmdb_storage_open_path_def)

text \<open>The path is never cut, and different acceptors have different directories.\<close>

lemma lmdb_env_path_full:
  assumes "- (2 ^ 31) \<le> i" "i < 2 ^ 31"
  shows "lmdb_env_path base i = base @ ''_'' @ show_int i"
  using length_show_int [OF assms] by (simp add: lmdb_env_path_def)

lemma lmdb_env_path_distinct:
  assumes "- (2 ^ 31) \<le> i" "i < 2 ^ 31" "- (2 ^ 31) \<le> j" "j < 2 ^ 31" "lmdb_env_path base i = lmdb_env_path base j"
  shows "i = j"
proof -
  have "show_int i = show_int j" using assms lmdb_env_path_full by simp
  then show ?thesis using scan_number_show [of "''''" "''''" i] scan_number_show [of "''''" "''''" j] by simp
qed

end
