(* ===== verification/Carray.thy ===== *)
theory Carray
  imports Circular_Queue "HOL-Library.Signed_Division" "HOL-Library.Monad_Syntax"
begin

text \<open>
  \<open>src/paxos/carray.c\<close>: the growing circular array that queues client values, with the \<open>int\<close>s of the code.  \<open>None\<close> is
  undefined behaviour: a signed overflow, a remainder by zero, an access outside of the array or a use of
  a cell that has not been written.  The operations agree with those of \<open>Circular_Queue\<close> as long as the numbers fit.
\<close>

section \<open>Definitions\<close>

definition int_result :: "int \<Rightarrow> int option" where
  "int_result x = (if - (2 ^ 31) \<le> x \<and> x < 2 ^ 31 then Some x else None)"

definition int_remainder :: "int \<Rightarrow> int \<Rightarrow> int option" where
  "int_remainder x y = (if y = 0 \<or> x = - (2 ^ 31) \<and> y = - 1 then None else Some (x smod y))"

record 'a carray =
  ca_head :: int
  ca_tail :: int
  ca_size :: int
  ca_count :: int
  ca_array :: "'a option list"

definition carray_load :: "'a carray \<Rightarrow> int \<Rightarrow> 'a option" where
  "carray_load a i = (if 0 \<le> i \<and> i < int (length (ca_array a)) then ca_array a ! nat i else None)"

definition carray_assign :: "'a carray \<Rightarrow> int \<Rightarrow> 'a \<Rightarrow> 'a carray option" where
  "carray_assign a i p =
     (if 0 \<le> i \<and> i < int (length (ca_array a)) then Some (a\<lparr>ca_array := (ca_array a)[nat i := Some p]\<rparr>) else None)"

text \<open>An array of a size that is not positive has no cells.\<close>

definition carray_new :: "int \<Rightarrow> 'a carray option" where
  "carray_new n = do {
     tail \<leftarrow> int_result (n - 1);
     Some \<lparr>ca_head = 0, ca_tail = tail, ca_size = n, ca_count = 0, ca_array = replicate (nat n) None\<rparr> }"

definition carray_empty :: "'a carray \<Rightarrow> bool" where
  "carray_empty a \<longleftrightarrow> ca_count a = 0"

definition carray_num_elements :: "'a carray \<Rightarrow> int" where
  "carray_num_elements a = ca_count a"

definition carray_size :: "'a carray \<Rightarrow> int" where
  "carray_size a = ca_size a"

definition carray_full :: "'a carray \<Rightarrow> bool" where
  "carray_full a \<longleftrightarrow> ca_count a = ca_size a"

definition carray_at :: "'a carray \<Rightarrow> int \<Rightarrow> 'a option" where
  "carray_at a i = do {
     j \<leftarrow> int_result (ca_head a + i);
     k \<leftarrow> int_remainder j (ca_size a);
     carray_load a k }"

text \<open>\<open>carray_push_back\<close> after its test for a full array.\<close>

definition carray_append :: "'a carray \<Rightarrow> 'a \<Rightarrow> 'a carray option" where
  "carray_append a p = do {
     next \<leftarrow> int_result (ca_tail a + 1);
     tail \<leftarrow> int_remainder next (ca_size a);
     a \<leftarrow> carray_assign (a\<lparr>ca_tail := tail\<rparr>) tail p;
     count \<leftarrow> int_result (ca_count a + 1);
     Some (a\<lparr>ca_count := count\<rparr>) }"

text \<open>
  \<open>carray_grow\<close> calls \<open>carray_push_back\<close> on an array of twice the size.  The test for a full array is \<open>None\<close> here when
  it succeeds, where the code would call \<open>carray_grow\<close> again: it does not happen, since \<open>carray_grow\<close> is called for full
  arrays only, whose elements fill half of the new one (the lemma \<open>carray_grow_eq\<close> has a result).
\<close>

fun carray_copy :: "'a carray \<Rightarrow> int list \<Rightarrow> 'a carray \<Rightarrow> 'a carray option" where
  "carray_copy a [] tmp = Some tmp"
| "carray_copy a (i # is) tmp = do {
     p \<leftarrow> carray_at a i;
     tmp \<leftarrow> (if carray_full tmp then None else carray_append tmp p);
     carray_copy a is tmp }"

definition carray_grow :: "'a carray \<Rightarrow> 'a carray option" where
  "carray_grow a = do {
     n \<leftarrow> int_result (ca_size a * 2);
     tmp \<leftarrow> carray_new n;
     tmp \<leftarrow> carray_copy a [0..ca_count a - 1] tmp;
     Some (a\<lparr>ca_head := 0, ca_tail := ca_tail tmp, ca_size := ca_size tmp, ca_array := ca_array tmp\<rparr>) }"

definition carray_push_back :: "'a carray \<Rightarrow> 'a \<Rightarrow> 'a carray option" where
  "carray_push_back a p = do {
     a \<leftarrow> (if carray_full a then carray_grow a else Some a);
     carray_append a p }"

text \<open>The result is the element, \<open>None\<close> for \<open>NULL\<close>, and the array.\<close>

definition carray_pop_front :: "'a carray \<Rightarrow> ('a option \<times> 'a carray) option" where
  "carray_pop_front a =
     (if carray_empty a then Some (None, a)
      else do {
        p \<leftarrow> carray_load a (ca_head a);
        next \<leftarrow> int_result (ca_head a + 1);
        head \<leftarrow> int_remainder next (ca_size a);
        count \<leftarrow> int_result (ca_count a - 1);
        Some (Some p, a\<lparr>ca_head := head, ca_count := count\<rparr>) })"

definition carray_push_front :: "'a carray \<Rightarrow> 'a \<Rightarrow> 'a carray option" where
  "carray_push_front a p = do {
     a \<leftarrow> (if carray_full a then carray_grow a else Some a);
     head \<leftarrow> int_result (if ca_head a = 0 then ca_size a - 1 else ca_head a - 1);
     a \<leftarrow> carray_assign (a\<lparr>ca_head := head\<rparr>) head p;
     count \<leftarrow> int_result (ca_count a + 1);
     Some (a\<lparr>ca_count := count\<rparr>) }"

fun carray_foreach_from :: "'a carray \<Rightarrow> ('a \<Rightarrow> 's \<Rightarrow> 's) \<Rightarrow> int list \<Rightarrow> 's \<Rightarrow> 's option" where
  "carray_foreach_from a carray_cb [] s = Some s"
| "carray_foreach_from a carray_cb (i # is) s = do {
     p \<leftarrow> carray_at a i;
     carray_foreach_from a carray_cb is (carray_cb p s) }"

definition carray_foreach :: "'a carray \<Rightarrow> ('a \<Rightarrow> 's \<Rightarrow> 's) \<Rightarrow> 's \<Rightarrow> 's option" where
  "carray_foreach a carray_cb s = carray_foreach_from a carray_cb [0..ca_count a - 1] s"

text \<open>The loop of \<open>carray_is_in\<close> runs over all \<open>carray_size\<close> cells.\<close>

fun carray_is_in_from :: "'a carray \<Rightarrow> ('a \<Rightarrow> bool) \<Rightarrow> int list \<Rightarrow> bool option" where
  "carray_is_in_from a chk [] = Some False"
| "carray_is_in_from a chk (i # is) = do {
     x \<leftarrow> carray_at a i;
     if chk x then Some True else carray_is_in_from a chk is }"

definition carray_is_in :: "'a carray \<Rightarrow> ('a \<Rightarrow> bool) \<Rightarrow> bool option" where
  "carray_is_in a chk = carray_is_in_from a chk [0..carray_size a - 1]"

section \<open>The operations on numbers that fit\<close>

text \<open>The array with \<open>int\<close>s that a queue with natural numbers is.\<close>

definition carray_of :: "'a cqueue \<Rightarrow> 'a carray" where
  "carray_of q = \<lparr>ca_head = int (cq_head q), ca_tail = int (cq_tail q), ca_size = int (cq_size q), ca_count = int (cq_count q),
     ca_array = cq_array q\<rparr>"

lemma carray_of_fields [simp]:
  "ca_head (carray_of q) = int (cq_head q)" "ca_tail (carray_of q) = int (cq_tail q)" "ca_size (carray_of q) = int (cq_size q)"
  "ca_count (carray_of q) = int (cq_count q)" "ca_array (carray_of q) = cq_array q"
  by (simp_all add: carray_of_def)

lemma carray_of_full [simp]: "carray_full (carray_of q) = cqueue_full q" "carray_empty (carray_of q) = cqueue_empty q"
  by (simp_all add: carray_full_def cqueue_full_def carray_empty_def cqueue_empty_def)

lemma int_result_int [simp]: "0 \<le> x \<Longrightarrow> x < 2 ^ 31 \<Longrightarrow> int_result x = Some x"
  by (simp add: int_result_def)

lemma int_remainder_int [simp]: "0 \<le> x \<Longrightarrow> 0 < y \<Longrightarrow> int_remainder x y = Some (x mod y)"
  by (simp add: int_remainder_def smod_int_alt_def sgn_if)

lemma carray_of_new: "0 < n \<Longrightarrow> n \<le> 2 ^ 30 \<Longrightarrow> carray_new (int n) = Some (carray_of (cqueue_new n))"
  by (simp add: carray_new_def cqueue_new_def carray_of_def of_nat_diff)

lemma carray_of_at:
  assumes "cqueue_struct q" "cq_size q \<le> 2 ^ 30" "i < cq_size q"
  shows "carray_at (carray_of q) (int i) = cqueue_at q i"
proof -
  have "(int (cq_head q) + int i) mod int (cq_size q) = int ((cq_head q + i) mod cq_size q)" by (simp add: zmod_int)
  moreover have "(cq_head q + i) mod cq_size q < length (cq_array q)" using cqueue_structD [OF assms(1)] by simp
  moreover have "int (cq_head q) + int i < 2 ^ 31" "0 < int (cq_size q)" using cqueue_structD [OF assms(1)] assms(2,3) by simp_all
  ultimately show ?thesis by (simp add: carray_at_def carray_load_def cqueue_at_def del: of_nat_mod)
qed

lemma carray_of_append:
  assumes "cqueue_struct q" "cq_size q \<le> 2 ^ 30"
  shows "carray_append (carray_of q) p = Some (carray_of (cqueue_append q (Some p)))"
proof -
  let ?t = "(cq_tail q + 1) mod cq_size q"
  have t: "?t < length (cq_array q)" using cqueue_structD [OF assms(1)] by simp
  have "cq_tail q < cq_size q" using assms(1) by (simp add: cqueue_struct_def)
  then have fits: "int_result (int (cq_tail q) + 1) = Some (int (cq_tail q) + 1)" using assms(2) by simp
  have rem: "int_remainder (int (cq_tail q) + 1) (int (cq_size q)) = Some (int ?t)"
    using cqueue_structD [OF assms(1)] by (simp add: zmod_int ac_simps)
  have count: "int_result (int (cq_count q) + 1) = Some (int (cq_count q) + 1)"
    using cqueue_structD [OF assms(1)] assms(2) by simp
  show ?thesis
    using t by (simp add: carray_append_def fits rem count carray_assign_def cqueue_append_def carray_of_def Let_def del: of_nat_mod)
qed

lemma int_upto_upt: "[0..int n - 1] = map int [0..<n]"
  by (induction n) (simp_all add: upto_rec2)

lemma carray_of_copy:
  assumes "cqueue_wf q" "cq_size q \<le> 2 ^ 30" "cqueue_struct t" "cq_size t \<le> 2 ^ 30"
    and "\<forall>i \<in> set is. i < cq_count q" "cq_count t + length is \<le> cq_size t"
  shows "carray_copy (carray_of q) (map int is) (carray_of t)
    = Some (carray_of (fold (\<lambda>i t. cqueue_append t (cqueue_at q i)) is t))"
  using assms(3-)
proof (induction "is" arbitrary: t)
  case (Cons i "is")
  have st: "cqueue_struct q" and i: "i < cq_count q" using assms(1) Cons.prems(3) by (simp_all add: cqueue_wf_def)
  then have "cqueue_at q i \<in> set (cqueue_cells q)" by (metis length_cqueue_cells nth_cqueue_cells nth_mem)
  then obtain p where p: "cqueue_at q i = Some p" using assms(1) by (metis cqueue_wf_def not_None_eq)
  have at: "carray_at (carray_of q) (int i) = Some p"
    using carray_of_at [OF st assms(2), of i] i cqueue_structD(4) [OF st] p by simp
  have room: "\<not> cqueue_full t" "cq_count t < cq_size t" using Cons.prems(4) by (simp_all add: cqueue_full_def)
  note struct = cqueue_append_struct [OF Cons.prems(1) room(2), of "Some p"]
  from Cons.IH [OF struct] Cons.prems show ?case
    by (simp add: at room carray_of_append [OF Cons.prems(1,2)] p)
qed simp

lemma carray_grow_eq:
  assumes "cqueue_wf q" "cq_size q \<le> 2 ^ 29"
  shows "carray_grow (carray_of q) = Some (carray_of (cqueue_grow q))"
proof -
  have st: "cqueue_struct q" using assms(1) by (simp add: cqueue_wf_def)
  let ?n = "cq_size q * 2" and ?copy = "fold (\<lambda>i t. cqueue_append t (cqueue_at q i)) [0..<cq_count q]"
  have n: "?n \<le> 2 ^ 30" "0 < ?n" using assms(2) cqueue_structD(1) [OF st] by simp_all
  have "int_result (int (cq_size q) * 2) = Some (int ?n)" using n by (simp add: int_result_def)
  moreover have "carray_new (int ?n) = Some (carray_of (cqueue_new ?n :: 'a cqueue))" using carray_of_new [OF n(2,1)] .
  moreover have "carray_copy (carray_of q) [0..int (cq_count q) - 1] (carray_of (cqueue_new ?n)) = Some (carray_of (?copy (cqueue_new ?n)))"
    unfolding int_upto_upt
    by (rule carray_of_copy) (use assms n cqueue_structD [OF st] in simp_all)
  ultimately show ?thesis
    by (simp add: carray_grow_def cqueue_grow_def carray_of_def Let_def)
qed

text \<open>The sizes that the bound on the elements allows.\<close>

definition cqueue_small :: "'a cqueue \<Rightarrow> bool" where
  "cqueue_small q \<longleftrightarrow> cqueue_wf q \<and> cq_size q \<le> 2 ^ 30"

lemma make_room_eq:
  assumes "cqueue_small q" "cq_count q < 2 ^ 29"
  defines "r \<equiv> (if cqueue_full q then cqueue_grow q else q)"
  shows "(if carray_full (carray_of q) then carray_grow (carray_of q) else Some (carray_of q)) = Some (carray_of r)"
    and "cqueue_struct r" "cq_size r \<le> 2 ^ 30" "cq_count r < cq_size r"
proof -
  have wf: "cqueue_wf q" and st: "cqueue_struct q" and small: "cq_size q \<le> 2 ^ 30"
    using assms(1) by (simp_all add: cqueue_small_def cqueue_wf_def)
  have full: "cq_size q \<le> 2 ^ 29" if "cqueue_full q" using that assms(2) by (simp add: cqueue_full_def)
  show "(if carray_full (carray_of q) then carray_grow (carray_of q) else Some (carray_of q)) = Some (carray_of r)"
    using carray_grow_eq [OF wf] full by (simp add: r_def)
  show "cqueue_struct r" "cq_count r < cq_size r" using room_after_grow [OF st] by (simp_all add: r_def)
  show "cq_size r \<le> 2 ^ 30" using full small cqueue_grow_correct [OF st] by (auto simp: r_def)
qed

lemma carray_of_push_back:
  assumes "cqueue_small q" "cq_count q < 2 ^ 29"
  shows "carray_push_back (carray_of q) x = Some (carray_of (cqueue_push_back q x)) \<and> cqueue_small (cqueue_push_back q x)"
proof -
  note room = make_room_eq [OF assms]
  have "cqueue_wf q" using assms(1) by (simp add: cqueue_small_def)
  then show ?thesis
    using carray_of_append [OF room(2,3), of x] room(1,3) dq.invar_push_back
    by (simp add: carray_push_back_def cqueue_push_back_def Let_def cqueue_small_def split del: if_split)
qed

lemma carray_of_push_front:
  assumes "cqueue_small q" "cq_count q < 2 ^ 29"
  shows "carray_push_front (carray_of q) x = Some (carray_of (cqueue_push_front q x)) \<and> cqueue_small (cqueue_push_front q x)"
proof -
  note room = make_room_eq [OF assms]
  define r where "r = (if cqueue_full q then cqueue_grow q else q)"
  let ?h = "if cq_head r = 0 then cq_size r - 1 else cq_head r - 1"
  have r: "cq_size r \<le> 2 ^ 30" "cq_count r < cq_size r" "cq_head r < cq_size r" "length (cq_array r) = cq_size r" "0 < cq_size r"
    using room(3,4) cqueue_structD [OF room(2)] by (simp_all add: r_def)
  have head: "int_result (if ca_head (carray_of r) = 0 then ca_size (carray_of r) - 1 else ca_head (carray_of r) - 1) = Some (int ?h)"
    using r by (auto simp: int_result_def of_nat_diff)
  have h: "?h < length (cq_array r)" using r by auto
  have count: "int_result (int (cq_count r) + 1) = Some (int (cq_count r + 1))" using r by simp
  have "carray_push_front (carray_of q) x = Some (carray_of (r\<lparr>cq_head := ?h, cq_array := (cq_array r)[?h := Some x], cq_count := cq_count r + 1\<rparr>))"
    unfolding carray_push_front_def room(1) [folded r_def] bind.bind_lunit head
    using h by (simp add: count carray_assign_def split del: if_split)
  then have "carray_push_front (carray_of q) x = Some (carray_of (cqueue_push_front q x))"
    by (simp add: cqueue_push_front_def Let_def r_def [symmetric])
  moreover have "cq_size (cqueue_push_front q x) = cq_size r" by (simp add: cqueue_push_front_def r_def Let_def)
  moreover have "cqueue_wf q" using assms(1) by (simp add: cqueue_small_def)
  ultimately show ?thesis using r(1) dq.invar_push_front by (simp add: cqueue_small_def)
qed

lemma carray_of_pop_front:
  assumes "cqueue_small q"
  shows "carray_pop_front (carray_of q) = Some (map_prod id carray_of (cqueue_pop_front q)) \<and> cqueue_small (snd (cqueue_pop_front q))"
proof (cases "cqueue_list q")
  case Nil
  then have "cqueue_pop_front q = (None, q)" "cqueue_empty q"
    using assms by (simp_all add: cqueue_small_def dq.pop_front_empty dq.is_empty_iff)
  then show ?thesis using assms by (simp add: carray_pop_front_def)
next
  case (Cons x xs)
  have wf: "cqueue_wf q" and small: "cq_size q \<le> 2 ^ 30" using assms by (simp_all add: cqueue_small_def)
  note st = cqueue_structD [OF cqueue_wf_struct [OF wf]]
  have count: "0 < cq_count q" using arg_cong [OF Cons, of length] by simp
  note pop = dq.pop_front_cons [OF wf Cons]
  then have x: "cq_array q ! cq_head q = Some x" using count by (simp add: cqueue_pop_front_def cqueue_empty_def)
  have "carray_load (carray_of q) (int (cq_head q)) = Some x" using x st by (simp add: carray_load_def)
  moreover have "int_remainder (int (cq_head q) + 1) (int (cq_size q)) = Some (int ((cq_head q + 1) mod cq_size q))"
    using st by (simp add: zmod_int ac_simps)
  moreover have "int_result (int (cq_head q) + 1) = Some (int (cq_head q) + 1)" using st small by simp
  moreover have "int_result (int (cq_count q) - 1) = Some (int (cq_count q - 1))" using st small count by (simp add: int_result_def of_nat_diff)
  ultimately have "carray_pop_front (carray_of q) = Some (map_prod id carray_of (cqueue_pop_front q))"
    using count x by (simp add: carray_pop_front_def cqueue_pop_front_def cqueue_empty_def carray_empty_def carray_of_def del: of_nat_mod)
  moreover have "cq_size (snd (cqueue_pop_front q)) = cq_size q" by (simp add: cqueue_pop_front_def)
  ultimately show ?thesis using pop small by (simp add: cqueue_small_def)
qed

lemma carray_of_foreach:
  assumes "cqueue_small q"
  shows "carray_foreach (carray_of q) cb s = Some (fold cb (cqueue_list q) s)"
proof -
  have wf: "cqueue_wf q" and small: "cq_size q \<le> 2 ^ 30" using assms by (simp_all add: cqueue_small_def)
  have at: "carray_at (carray_of q) (int i) = Some (cqueue_list q ! i)" if "i < cq_count q" for i
    using carray_of_at [OF cqueue_wf_struct [OF wf] small, of i] that cqueue_structD(4) [OF cqueue_wf_struct [OF wf]]
      arg_cong [OF cqueue_list_simps [OF wf], of "\<lambda>xs. xs ! i"] by simp
  have "carray_foreach_from (carray_of q) cb (map int is) s = Some (fold cb (map (\<lambda>i. cqueue_list q ! i) is) s)"
    if "\<forall>i \<in> set is. i < cq_count q" for "is" s
    using that by (induction "is" arbitrary: s) (simp_all add: at)
  moreover have "map (\<lambda>i. cqueue_list q ! i) [0..<cq_count q] = cqueue_list q" by (metis length_cqueue_list map_nth)
  ultimately show ?thesis by (simp add: carray_foreach_def int_upto_upt)
qed

section \<open>Properties\<close>

datatype 'a deque_op = Push_Back 'a | Push_Front 'a | Pop_Front

text \<open>A step has a result, which is \<open>None\<close> for a push and for a pop from an empty queue.\<close>

fun carray_step :: "'a deque_op \<Rightarrow> 'a carray \<Rightarrow> ('a option \<times> 'a carray) option" where
  "carray_step (Push_Back x) a = map_option (Pair None) (carray_push_back a x)"
| "carray_step (Push_Front x) a = map_option (Pair None) (carray_push_front a x)"
| "carray_step Pop_Front a = carray_pop_front a"

fun carray_run :: "'a deque_op list \<Rightarrow> 'a carray \<Rightarrow> ('a option list \<times> 'a carray) option" where
  "carray_run [] a = Some ([], a)"
| "carray_run (c # cs) a = do {
     (x, a) \<leftarrow> carray_step c a;
     (xs, a) \<leftarrow> carray_run cs a;
     Some (x # xs, a) }"

fun deque_step :: "'a deque_op \<Rightarrow> 'a list \<Rightarrow> 'a option \<times> 'a list" where
  "deque_step (Push_Back x) q = (None, q @ [x])"
| "deque_step (Push_Front x) q = (None, x # q)"
| "deque_step Pop_Front q = (case q of [] \<Rightarrow> (None, []) | x # q \<Rightarrow> (Some x, q))"

fun deque_run :: "'a deque_op list \<Rightarrow> 'a list \<Rightarrow> 'a option list \<times> 'a list" where
  "deque_run [] q = ([], q)"
| "deque_run (c # cs) q = (let (x, q) = deque_step c q; (xs, q) = deque_run cs q in (x # xs, q))"

lemma carray_step_refines:
  assumes "cqueue_small q" "length (snd (deque_step c (cqueue_list q))) \<le> 2 ^ 29"
  shows "\<exists>r. carray_step c (carray_of q) = Some (fst (deque_step c (cqueue_list q)), carray_of r)
    \<and> cqueue_small r \<and> cqueue_list r = snd (deque_step c (cqueue_list q))"
proof (cases c)
  case (Push_Back x)
  then show ?thesis
    using carray_of_push_back [of q x] assms by (auto simp: dq.list_push_back cqueue_small_def)
next
  case (Push_Front x)
  then show ?thesis
    using carray_of_push_front [of q x] assms by (auto simp: dq.list_push_front cqueue_small_def)
next
  case Pop_Front
  have wf: "cqueue_wf q" using assms(1) by (simp add: cqueue_small_def)
  show ?thesis
  proof (cases "cqueue_list q")
    case Nil
    then show ?thesis using Pop_Front carray_of_pop_front [OF assms(1)] dq.pop_front_empty [OF wf] assms(1) by auto
  next
    case (Cons x xs)
    then show ?thesis
      using Pop_Front carray_of_pop_front [OF assms(1)] dq.pop_front_cons [OF wf Cons]
      by (cases "cqueue_pop_front q") auto
  qed
qed

lemma carray_run_refines:
  assumes "cqueue_small q" "\<forall>k. length (snd (deque_run (take k ops) (cqueue_list q))) \<le> 2 ^ 29"
  shows "\<exists>r. carray_run ops (carray_of q) = Some (fst (deque_run ops (cqueue_list q)), carray_of r)
    \<and> cqueue_small r \<and> cqueue_list r = snd (deque_run ops (cqueue_list q))"
  using assms
proof (induction ops arbitrary: q)
  case (Cons c ops)
  have "length (snd (deque_step c (cqueue_list q))) \<le> 2 ^ 29"
    using Cons.prems(2) [rule_format, of 1] by (simp split: prod.splits)
  from carray_step_refines [OF Cons.prems(1) this] obtain r
    where r: "carray_step c (carray_of q) = Some (fst (deque_step c (cqueue_list q)), carray_of r)" "cqueue_small r"
      "cqueue_list r = snd (deque_step c (cqueue_list q))" by blast
  have "length (snd (deque_run (take k ops) (cqueue_list r))) \<le> 2 ^ 29" for k
    using Cons.prems(2) [rule_format, of "Suc k"] r(3) by (simp split: prod.splits)
  with Cons.IH [OF r(2)] r show ?case by (auto split: prod.splits)
next
  case Nil
  then show ?case by (intro exI [of _ q]) simp
qed

lemma fold_snoc: "fold (\<lambda>x xs. xs @ [x]) ys zs = zs @ ys"
  by (induction ys arbitrary: zs) simp_all

text \<open>When a full array of \<open>2\<^sup>3\<^sup>0\<close> cells has to grow, its new size overflows.\<close>

lemma growing_overflows: "ca_size a = 2 ^ 30 \<Longrightarrow> carray_full a \<Longrightarrow> carray_push_back a x = None"
  by (simp add: carray_push_back_def carray_grow_def int_result_def)

text \<open>
  C35: The circular array implements a double-ended queue: any sequence of pushes and pops on a fresh array of a size from
  1 to \<open>2\<^sup>3\<^sup>0\<close>, however often the array grows, is defined, returns what the same sequence returns on a list, and leaves
  exactly the elements that it leaves in the list, in the same order.  At no time may there be more than \<open>2\<^sup>2\<^sup>9\<close>
  elements: the code computes sizes and indices with \<open>int\<close>, and an array that grows beyond overflows
  (\<open>growing_overflows\<close>).
\<close>

theorem carray_refines_deque:
  fixes ops :: "'a deque_op list"
  assumes "0 < n" "n \<le> 2 ^ 30" "\<forall>k. length (snd (deque_run (take k ops) [])) \<le> 2 ^ 29"
  shows "\<exists>a a'. carray_new n = Some a \<and> carray_run ops a = Some (fst (deque_run ops []), a')
    \<and> carray_foreach a' (\<lambda>x xs. xs @ [x]) [] = Some (snd (deque_run ops []))
    \<and> carray_num_elements a' = int (length (snd (deque_run ops [])))"
proof -
  let ?q = "cqueue_new (nat n) :: 'a cqueue"
  have n: "0 < nat n" "nat n \<le> 2 ^ 30" using assms(1,2) by (simp_all add: nat_le_iff)
  then have q: "cqueue_small ?q" "cqueue_list ?q = []"
    using dq.invar_empty [OF n(1)] dq.list_empty [OF n(1)] by (simp_all add: cqueue_small_def)
  have new: "carray_new n = Some (carray_of ?q)" using carray_of_new [OF n] assms(1) by simp
  from carray_run_refines [OF q(1), of ops] assms(3) q(2) obtain r
    where r: "carray_run ops (carray_of ?q) = Some (fst (deque_run ops []), carray_of r)" "cqueue_small r"
      "cqueue_list r = snd (deque_run ops [])" by auto
  have "carray_foreach (carray_of r) (\<lambda>x xs. xs @ [x]) [] = Some (snd (deque_run ops []))"
    by (simp add: carray_of_foreach [OF r(2)] r(3) fold_snoc)
  moreover have "carray_num_elements (carray_of r) = int (length (snd (deque_run ops [])))"
    using r(3) length_cqueue_list [of r] by (simp add: carray_num_elements_def)
  ultimately show ?thesis using new r(1) by blast
qed

theorem carray_refines_deque_witness:
  "\<exists>a a'. carray_new 1 = Some a
     \<and> carray_run [Push_Back (1::nat), Push_Front 2, Push_Back 3, Pop_Front] a = Some ([None, None, None, Some 2], a')
     \<and> carray_foreach a' (\<lambda>x xs. xs @ [x]) [] = Some [1, 3]"
proof -
  let ?ops = "[Push_Back (1::nat), Push_Front 2, Push_Back 3, Pop_Front]"
  have "length (snd (deque_run (take k ?ops) [])) \<le> 3" for k
  proof -
    consider "k = 0" | "k = 1" | "k = 2" | "k = 3" | "4 \<le> k" by linarith
    then show ?thesis by cases (auto simp: numeral_eq_Suc)
  qed
  moreover have "(3 :: nat) \<le> 2 ^ 29" by simp
  ultimately have "\<forall>k. length (snd (deque_run (take k ?ops) [])) \<le> 2 ^ 29" using order.trans by blast
  moreover have "deque_run ?ops [] = ([None, None, None, Some 2], [1, 3])" by simp
  ultimately show ?thesis using carray_refines_deque [of 1 ?ops] by (metis (no_types, lifting) fst_conv snd_conv one_le_numeral one_le_power zero_less_one)
qed

text \<open>
  \<open>carray_is_in\<close> searches all cells and not only the occupied ones: after an element has been
  pushed and popped again, the empty queue still reports that it contains it.
\<close>

theorem carray_is_in_finds_popped_element:
  "\<exists>a. Option.bind (carray_new 1) (carray_run [Push_Back (7::nat), Pop_Front]) = Some ([None, Some 7], a)
     \<and> carray_empty a \<and> carray_is_in a (\<lambda>x. x = 7) = Some True"
proof -
  have "map_option (\<lambda>(xs, a). (xs, carray_empty a, carray_is_in a (\<lambda>x. x = 7)))
      (Option.bind (carray_new 1) (carray_run [Push_Back (7::nat), Pop_Front])) = Some ([None, Some 7], True, Some True)"
    by code_simp
  then show ?thesis by auto
qed

end
