(* ===== verification/Spec2Isabelle.thy ===== *)
theory Spec2Isabelle
  imports Cluster_Runs Standard_Proposer Epoch_Acceptor Epoch_Learner Epoch_Proposer Transport Peers Strategies
    Config Event_Acceptors Event_Learners Event_Proposer Event_Epoch_Proposer Event_Replica Hash_Memory Benchmark_Client
    Sample_Programs Connections Counters Value_Memory Lmdb_Environment Carray
begin

text \<open>
  Verification of the Paxos library under \<open>src/paxos\<close> and of the processes and the messaging around it under
  \<open>src/evpaxos\<close>: a C library with three acceptors, two proposers and two learners for two protocols,
  standard Paxos and epoch Paxos.  In standard Paxos an acceptor writes
  every promise to disk, or, as the write-ahead acceptor, promises windows of ballots ahead; in epoch
  Paxos promises live in memory only, and a restarted acceptor enters a new epoch that is meant to
  outrank what it has forgotten.

  \<^bold>\<open>Conventions.\<close>  Structs are records whose field names carry a prefix, tagged unions are datatypes,
  \<open>uint32_t\<close> is \<open>32 word\<close> (so that every addition and subtraction wraps as in C), \<open>int\<close> is \<open>int\<close>.  A handler
  becomes a function from the state and the message to the new state and what it leaves in its
  out-parameters.  The clock and the results of \<open>rand\<close> are arguments.  \<open>None\<close> stands for undefined
  behaviour, a failed \<open>assert\<close> or a call that does not return; where it stands for a message that is
  not sent, the theory says so.  A \<open>khash\<close> table is a map, or an association list where the code
  iterates over it, which the theories \<open>Khash_Map\<close> and \<open>Hash_Memory\<close> justify.  A value is the list of
  its bytes and a deep copy is the identity, which \<open>Value_Memory\<close> justifies; other memory management is not modelled,
  but for the vector of vote counters of the epoch learner.  Where a property has conditions, the text before it names them.

  \<^bold>\<open>Foundations.\<close>
  \<^item> \<open>Paxos_Prelude\<close>, \<open>Paxos_Types\<close>: machine types, shared lemmas, values, messages
    (\<open>include/paxos_types.h\<close>, \<open>paxos_value.c\<close>).
  \<^item> \<open>Ballots\<close> (\<open>ballot.c\<close>, \<open>epoch_ballot.c\<close>, \<open>ballot_giver.c\<close>, \<open>random.c\<close>): the order on ballots as a locale
    \<open>ballot_comparison\<close> and as instances of the library's order classes; fresh ballots; the comparison of
    epoch ballots, which is not an order.
  \<^item> \<open>Quorum\<close> (\<open>quorum.c\<close>): the locale \<open>vote_counter\<close>; a quorum is reached when enough distinct acceptors
    voted, and quorums of the two phases intersect.
  \<^item> \<open>Circular_Queue\<close>, \<open>Carray\<close> (\<open>carray.c\<close>): the growing circular array, with natural numbers, which meets the contract
    \<open>deque\<close> of a double-ended queue, and with the \<open>int\<close>s of the code, whose operations are undefined when a number
    overflows; the two agree for up to \<open>2\<^sup>2\<^sup>9\<close> elements.
  \<^item> \<open>Khash\<close>, \<open>Khash_Map\<close> (\<open>include/khash.h\<close>): the hash table behind every table of the library, down to its flag
    bits, its probing sequence and the rehashing in place that kicks out the entries in the way.  The contract
    \<open>map_table\<close> says that it is a map; \<open>kh_put\<close> with failing memory is modelled too, and fails in that case only.
  \<^item> \<open>Value_Memory\<close> (\<open>paxos_value.c\<close>): values with pointers into a heap.  Programs that handle values with these
    functions act on the bytes alone, and neither read freed memory nor free a block twice, as long as they do not
    \<open>paxos_value_copy\<close> a value onto itself.
  \<^item> \<open>Value_Manager\<close> (\<open>value_proposal_manager.c\<close>): the queues of client values on top of that contract.
  \<^item> \<open>Message_Conversion\<close> (\<open>paxos_message_conversion.c\<close>): conversions between stored records and messages.

  \<^bold>\<open>Storage.\<close>
  \<^item> \<open>Paxos_Storage\<close> (\<open>hash_mapped_memory.c\<close>, \<open>paxos_storage.c\<close>, \<open>epoch_paxos_storage.c\<close>): the tables in
    memory, with the contract \<open>instance_store\<close>, recovery from a list of records and the boundary of chosen
    instances.
  \<^item> \<open>Hash_Memory\<close> (the same files): the same operations as they are written, over hash tables.  Under the locale
    \<open>bounded_refinement\<close> they do what those of \<open>Paxos_Storage\<close> do, and they return.
  \<^item> \<open>Stable_Storage\<close> (\<open>include/standard_stable_storage.h\<close>, \<open>stable_storage_but_not_really.c\<close>): the struct of
    function pointers as a record of functions, its contract \<open>stable_store\<close>, and the back end in memory.
  \<^item> \<open>Storage_Utils\<close> (\<open>storage_utils.c\<close>): the byte images of records, with their round trip.
  \<^item> \<open>Lmdb_Storage\<close> (\<open>stable_storage_lmdb.c\<close>, \<open>include/epoch_stable_storage.h\<close>): transactions, trimming and
    recovery over LMDB.  LMDB is a parameter with the contract \<open>mdb_library\<close>; under it the storage meets the
    contracts \<open>stable_store\<close> and \<open>epoch_stable_store\<close> (two \<open>sublocale\<close>s).
  \<^item> \<open>Lmdb_Environment\<close> (the same file): the opening of the environment call by call; what was obtained
    is given back when a later call fails.

  \<^bold>\<open>Acceptors.\<close>
  \<^item> \<open>Synod_Spec\<close>: the abstract acceptor of one instance and the contract \<open>synod_acceptor\<close>, whose lemmas say
    that a promise binds and that an acceptance stays.
  \<^item> \<open>Standard_Acceptor\<close> (\<open>standard_acceptor.c\<close>) and \<open>Writeahead_Acceptor\<close> (\<open>writeahead_ballot_acceptor.c\<close>)
    interpret it: every handler refines the abstract acceptor.  Replies are durable, the write-ahead
    acceptor's stable promise covers what it promised and saves the writes it is meant to save.
  \<^item> \<open>Epoch_Acceptor\<close> (\<open>epoch_acceptor.c\<close>, \<open>epoch_stable_storage.c\<close>): promises bind until a restart, what is
    acknowledged is on disk, a restart that returns an acceptor raises the epoch above every epoch it promised; and
    what remains unprotected.

  \<^bold>\<open>Learners.\<close>  \<open>Delivery\<close> states how a learner delivers in order (\<open>ordered_delivery\<close>); \<open>Learner\<close> (\<open>learner.c\<close>)
  and \<open>Epoch_Learner\<close> (\<open>epoch_learner.c\<close>) interpret it.  Both learn only values that a quorum of acceptors
  acknowledged at one ballot; the epoch learner also learns every value that was acknowledged by a quorum, which rests
  on the sizes of the blocks that \<open>realloc\<close> of glibc returns, since \<open>create_ballot_info\<close> asks for too few bytes.

  \<^bold>\<open>Proposers.\<close>  \<open>Proposer_Common\<close> (\<open>proposer_common.c\<close>, \<open>include/instance.h\<close>) holds what both share.
  \<open>Standard_Proposer\<close> (\<open>standard_proposer.c\<close>) and \<open>Epoch_Proposer\<close> (\<open>epoch_proposer.c\<close>) model every operation of the
  interface; a step relation ranges over all of them, and its reachable states are well formed.  The main
  results say which value is proposed after which promises.

  \<^bold>\<open>Network.\<close>
  \<^item> \<open>Msgpack\<close>: the third-party msgpack library as a parameter, with the contract \<open>msgpack_library\<close> of what is
    used of it, and the published byte format as an instance of the contract.
  \<^item> \<open>Wire_Format\<close> (\<open>evpaxos/paxos_types_pack.c\<close>): packing and unpacking of every message, and that unpacking
    reverses packing.
  \<^item> \<open>Transport\<close> (\<open>standard_paxos_message.c\<close>, \<open>epoch_paxos_message.c\<close>, the read callbacks and subscriptions of
    \<open>standard_paxos_peers.c\<close> and \<open>writeahead_epoch_paxos_peers.c\<close>): whatever the pieces in which the bytes of
    a stream of messages arrive, the receiver dispatches these messages, in order; the two protocols are
    two instances of the locale \<open>framing\<close>.  The epoch protocol leaves a field of one message as the memory of
    the receiver had it, which may be different for every message.
  \<^item> \<open>Peers\<close> (the same two files): the arrays of peers and clients, connecting, accepting, closing, and which
    peers a message is sent to.
  \<^item> \<open>Connections\<close> (the same two files): the life of a connection as a step relation; a peer is never given up.

  \<^bold>\<open>Strategies.\<close>  \<open>Strategies\<close> (\<open>backoff.c\<close>, \<open>backoff_manager.c\<close>, \<open>round_robin_allocator.c\<close>, \<open>instance_strategy.c\<close>,
  \<open>performance_threshold_timer.c\<close>): the backoff functions under the locale \<open>bounded_backoff\<close>, the manager's table
  of backing-off instances, and the allocation of instances to proposers.

  \<^bold>\<open>Configuration.\<close>  \<open>Config\<close> (\<open>evpaxos/config.c\<close>) models the table of options and the reading of a file line by line,
  with the functions of the C library it relies on (\<open>strtol\<close>, \<open>strsep\<close>, \<open>strcasecmp\<close>, \<open>fgets\<close>).  A file
  of addresses is read back as it was meant; an option that is a \<open>bool\<close> in the struct is written as an \<open>int\<close> and
  clears the fields after it.

  \<^bold>\<open>Processes.\<close>  These theories model the callbacks that libevent calls for messages and timers, around the handlers
  of the parts above.  A process is a record with the state of its part, its peers and the timers that are pending; a
  callback returns the new process and the list of messages sent, each with the peer it goes to.
  \<^item> \<open>Event_Base\<close>: sends, callbacks and loops that send; the locale \<open>message_server\<close> puts a callback behind the
    transport, so that a stream of bytes is served message by message, and \<open>ending_loop\<close> proves that a loop ends.
    What a callback asks of its surroundings (time, random numbers, the shuffle of the peers) is a record \<open>surroundings\<close>
    for every round of a loop.
  \<^item> \<open>Event_Acceptors\<close> (\<open>ev_standard_acceptor.c\<close>, \<open>ev_write_ahead_ballot_acceptor.c\<close>, \<open>ev_epoch_acceptor.c\<close>): however
    the bytes of requests arrive, the process answers them as the acceptor does; the handlers of repeat requests make one
    pass over the range; which timers keep running.
  \<^item> \<open>Event_Learners\<close> (\<open>evlearner.c\<close>, \<open>ev_epoch_learner.c\<close>): the locale \<open>delivering\<close>; the callback of the client
    sees the log of learned values in order and without a gap; which holes are asked for.
  \<^item> \<open>Event_Proposer\<close> (\<open>evproposer.c\<close>): a step relation over all callbacks, whose messages carry ballots of the
    process's own id only, and the window of open instances, which is filled whenever the loop is entered.
  \<^item> \<open>Event_Epoch_Proposer\<close> (\<open>ev_epoch_proposer.c\<close>): every run of the process is a run of the epoch proposer; the array
    of instances to skip and the retries.
  \<^item> \<open>Event_Replica\<close> (\<open>evreplica.c\<close>): the interface of a replica.

  \<^bold>\<open>Programs.\<close>
  \<^item> \<open>Benchmark_Client\<close> (\<open>sample/client_value.c\<close>, \<open>sample/latency_recorder.c\<close>, \<open>sample/client_benchmarker.c\<close>,
    \<open>sample/client.c\<close>, \<open>sample/epoch_client.c\<close>): the clients that measure the system keep a fixed number of values
    outstanding; their statistics are consistent, and the recorder writes the latencies it should.
  \<^item> \<open>Sample_Programs\<close> (\<open>sample/counter.c\<close> and the arguments of the programs): the replicated counter trims only what all
    replicas have checkpointed, and reads its checkpoints back.
  \<^item> \<open>Counters\<close> (\<open>count_logger.c\<close>, \<open>message_and_response_counters.c\<close>): the counters of a proposer.

  \<^bold>\<open>Composition.\<close>  \<open>Agreement\<close> puts acceptors that meet the contract \<open>synod_acceptor\<close>, proposers and a network that
  loses, duplicates, delays and reorders messages into one step relation and derives agreement.  \<open>Cluster_Runs\<close>
  states it for the standard acceptor with all of its handlers: prepare, accept, chosen, trim and repeat.  An
  acceptor may close an instance, that is trim it or note its chosen value, and drop what it accepted there; every run
  in which chosen and trim messages only do that is simulated by a run of \<open>Agreement\<close>, so that values and learners
  agree.  The code drops more when the trim is below 50000, where its subtraction wraps, and then an acceptor may
  acknowledge two values (\<open>wiped_acceptor_accepts_twice\<close>).  Proposers are the rule that an accept follows the promises of
  a quorum; the standard proposer keeps it for an instance that it starts afresh, as this theory shows, but not after a
  pre-emption.

  \<^bold>\<open>Bounds.\<close>  The loops over contiguous chosen instances (\<open>advance_min_chosen\<close>, \<open>search_from\<close>) get \<open>2\<^sup>3\<^sup>2\<close> rounds,
  one for every instance number: the loop of C returns within them or never.  The rejection loop of
  \<open>random_between\<close> consumes a list of draws.  \<open>epoch_proposer_receive_promise\<close> calls itself; a depth of two
  is enough whenever the call returns at all, and a promise of another epoch needs both.

  The read callback gets one round more than it has bytes, and every message has at least one byte.
  The loop over a range of instances to repeat is \<open>while_option\<close>, and the loops that deliver, send accepts and open
  instances are \<open>partial_function (option)\<close>: \<open>None\<close> is their running for ever.  That the loop which opens instances
  ends is proved for windows of fewer than \<open>2\<^sup>3\<^sup>2 / 5\<close> instances: a round moves on by at most five instances, so that it
  comes to one that is not open before it has been around all instance numbers.

  A hash table is followed for up to \<open>2\<^sup>2\<^sup>8\<close> entries: with them it has at most \<open>2\<^sup>3\<^sup>0\<close> buckets, and rounding up to
  a power of two wraps to 0 only beyond \<open>2\<^sup>3\<^sup>1\<close>.  Its loops, and the client's loop that looks for an unused
  identifier, are \<open>partial_function (option)\<close>; that they end is part of the lemmas about them.

  \<^bold>\<open>Not modelled.\<close>  The sockets, the listener and the clock of libevent, of which only the calls are seen; logging; the seeding
  of \<open>rand\<close>; the initialisation of a replica, in which three parts subscribe at one array of
  peers, and its delivery function, which is called through a pointer of another type; the event loops of the
  programs under \<open>src/sample\<close> and the test program there.  \<open>settler_iner.c\<close> holds an empty function and \<open>pending_client_values.c\<close> refers to a table that is not declared.
  Outside of the hash tables failed allocations are not modelled, nor is the size of the memory blocks, but for the epoch
  learner's.  Restarts of an acceptor are not steps of a cluster.  Safety of a
  whole cluster of epoch Paxos is not stated: the counterexamples \<open>restarted_acceptor_accepts_old_epoch\<close> and
  \<open>epoch_proposer_forgets_adopted_value\<close> show that it does not hold for the code as it is.
\<close>

section \<open>Proposers in a cluster\<close>

lemma proposer_follows_cluster_promises:
  assumes "proposer_wf p" "get_instance_info (pr_prepare_phase_instances p) i = None"
    and "proposer_receive_promises (fst (proposer_try_to_start_preparing_instance now p i b)) acks = Some p1"
    and "proposer_try_accept cfg now' p1 = Some (p2, Some acc)" "acc_iid acc = i" "set acks \<subseteq> promises"
  shows "acc_ballot acc = b" and "follows_promises (pr_q1 p) promises acc"
proof -
  note rule = accept_follows_promises [OF assms(1-5)]
  then show b: "acc_ballot acc = b" by simp
  from rule obtain H where H: "H \<subseteq> {h \<in> set acks. prom_iid h = i \<and> b \<le> prom_ballot h}"
    "pr_q1 p \<le> int (card ((\<lambda>h. sint (prom_aid h)) ` H))"
    and val: "if \<forall>h \<in> H. prom_value_ballot h = INVALID_BALLOT
      then acc_value acc = NOP \<or> acc_value acc \<in> outstanding (pr_value_proposal_manager p1)
      else \<exists>h \<in> H. acc_value acc = prom_value h \<and> (\<forall>h' \<in> H. prom_value_ballot h' \<le> prom_value_ballot h)"
    by blast
  have "finite H" using H(1) finite_subset by fastforce
  then have "card ((\<lambda>h. sint (prom_aid h)) ` H) \<le> card (prom_aid ` H)"
    using card_image_le [of "prom_aid ` H" sint] by (simp add: image_image)
  with H(2) have q: "pr_q1 p \<le> int (card (prom_aid ` H))" by linarith
  have "INVALID_BALLOT < prom_value_ballot h"
    if "h' \<in> H" "prom_value_ballot h' \<noteq> INVALID_BALLOT" "\<forall>h' \<in> H. prom_value_ballot h' \<le> prom_value_ballot h" for h h'
    using that by (metis INVALID_BALLOT_le order.not_eq_order_implies_strict order.strict_trans1 order.strict_trans2)
  with val have "(\<forall>h \<in> H. prom_value_ballot h = INVALID_BALLOT)
      \<or> (\<exists>h \<in> H. INVALID_BALLOT < prom_value_ballot h \<and> acc_value acc = prom_value h
           \<and> (\<forall>h' \<in> H. prom_value_ballot h' \<le> prom_value_ballot h))"
    by (auto split: if_splits)
  with q H(1) assms(5,6) b show "follows_promises (pr_q1 p) promises acc"
    unfolding follows_promises_def by (intro exI [of _ H]) auto
qed

text \<open>
  The accept of an instance that the proposer has started afresh at an unused ballot is a step of a cluster.  This
  covers the first ballot of an instance only: after a pre-emption the proposer does not keep to the rule
  (\<open>preempted_accept_waits_for_q2_promises\<close>, \<open>preempted_proposer_replaces_accepted_value\<close>), so that
  agreement of the code's own proposers does not follow.
\<close>

lemma fresh_proposal_is_cluster_step:
  assumes "proposer_wf p" "get_instance_info (pr_prepare_phase_instances p) i = None"
    and "proposer_receive_promises (fst (proposer_try_to_start_preparing_instance now p i b)) acks = Some p1"
    and "proposer_try_accept cfg now' p1 = Some (p2, Some acc)" "acc_iid acc = i"
    and "set acks \<subseteq> sc_promises c" "INVALID_BALLOT < b"
    and "\<forall>acc' \<in> sc_accepts c. acc_iid acc' = i \<longrightarrow> acc_ballot acc' \<noteq> b"
  shows "standard_cluster_step api members (pr_q1 p) c (c\<lparr>sc_accepts := insert acc (sc_accepts c)\<rparr>)"
  using proposer_follows_cluster_promises [OF assms(1-6)] assms(5,7,8) by (auto intro!: standard_cluster_step.propose)

end
